(* ===== verification/Ipa_Prelude.thy ===== *)
theory Ipa_Prelude
  imports Main "HOL-Library.Word" "HOL-Library.Monad_Syntax"
begin

text \<open>
  Shared vocabulary of the development: the C integer types, the errno values of the library,
  the convention for results, and the generic facts on lists, words and options that the
  component theories use.

  Results.  A C function that returns an error code is a function with an \<open>int\<close> result and the
  updated state.  A result of type \<open>'a option\<close> is \<open>None\<close> exactly where the C code has no defined
  result: it reads or writes outside an object, follows a null pointer, or never returns.
  A theorem that gives \<open>Some\<close> therefore also shows that none of these happens.
\<close>

unbundle bit_operations_syntax

section \<open>C integer types and error numbers\<close>

type_synonym uint8 = "8 word"
type_synonym uint16 = "16 word"
type_synonym uint32 = "32 word"
type_synonym uint64 = "64 word"

abbreviation (input) EPERM :: int where "EPERM \<equiv> 1"
abbreviation (input) EIO :: int where "EIO \<equiv> 5"
abbreviation (input) ENOMEM :: int where "ENOMEM \<equiv> 12"
abbreviation (input) EINVAL :: int where "EINVAL \<equiv> 22"

section \<open>Array access\<close>

text \<open>Reading and writing an array element: undefined out of bounds.\<close>

definition arr_get :: "'a list \<Rightarrow> nat \<Rightarrow> 'a option" where
  "arr_get xs i = (if i < length xs then Some (xs ! i) else None)"

definition arr_put :: "'a list \<Rightarrow> nat \<Rightarrow> 'a \<Rightarrow> 'a list option" where
  "arr_put xs i v = (if i < length xs then Some (xs[i := v]) else None)"

named_theorems arr_simps

lemma arr_get_in [arr_simps]: "i < length xs \<Longrightarrow> arr_get xs i = Some (xs ! i)"
  by (simp add: arr_get_def)

lemma arr_put_in [arr_simps]: "i < length xs \<Longrightarrow> arr_put xs i v = Some (xs[i := v])"
  by (simp add: arr_put_def)

lemma arr_get_Some [arr_simps]: "arr_get xs i = Some v \<longleftrightarrow> i < length xs \<and> v = xs ! i"
  by (auto simp: arr_get_def)

lemma arr_put_Some [arr_simps]: "arr_put xs i v = Some ys \<longleftrightarrow> i < length xs \<and> ys = xs[i := v]"
  by (auto simp: arr_put_def)

section \<open>Words\<close>

text \<open>The facts on widths that index arithmetic needs.\<close>

lemma unat16_less [simp]: "unat (x :: uint16) < 65536"
  using unsigned_less [of x] by simp

lemma unat_of_nat16 [simp]: "n < 65536 \<Longrightarrow> unat (of_nat n :: uint16) = n"
  by (simp add: unat_of_nat take_bit_nat_eq_self)

lemma unat_of_nat32 [simp]: "n < 4294967296 \<Longrightarrow> unat (of_nat n :: uint32) = n"
  by (simp add: unat_of_nat take_bit_nat_eq_self)

lemma unat_ucast16_32 [simp]: "unat (ucast (x :: uint16) :: uint32) = unat x"
  by (simp add: unsigned_ucast_eq take_bit_nat_eq_self order_less_trans [OF unat16_less])

lemma word16_neq0_unat: "(x :: uint16) \<noteq> 0 \<longleftrightarrow> 0 < unat x"
  by (simp add: unat_gt_0)

lemma unat_and_le2: "unat (x AND y :: 'a::len word) \<le> unat y"
  using word_and_le1 [of x y] by (simp add: word_le_nat_alt)

text \<open>A count that has room below the wrap-around.\<close>

lemma unat_Suc16: "unat (x :: uint16) < 65535 \<Longrightarrow> unat (x + 1) = Suc (unat x)"
  by (simp add: unat_word_ariths)

lemma unat_pred16: "0 < unat (x :: uint16) \<Longrightarrow> unat (x - 1) = unat x - 1"
  by (metis unat_eq_zero not_gr_zero unat_minus_one)

section \<open>Options\<close>

lemma bind_Some_iff: "(m \<bind> f = Some y) \<longleftrightarrow> (\<exists>x. m = Some x \<and> f x = Some y)"
  by (cases m) auto

end
