(* ===== verification/Ipa_Uapi.thy ===== *)
theory Ipa_Uapi
  imports Ipa_Prelude
begin

text \<open>
  The kernel interface the NAT library uses: the data of \<open>msm_ipa.h\<close> that its requests carry,
  and the operating system itself as a record of functions.  The system is not under
  verification: every call is an argument of the model, a function of the state of the world,
  so a theorem holds for every behaviour it does not exclude by a hypothesis.
\<close>

section \<open>Data of the requests\<close>

datatype ipa3_nat_mem_in = IPA_NAT_MEM_IN_DDR | IPA_NAT_MEM_IN_SRAM

fun nmi_bit :: "ipa3_nat_mem_in \<Rightarrow> 'a::zero_neq_one" where
  "nmi_bit IPA_NAT_MEM_IN_DDR = 0"
| "nmi_bit IPA_NAT_MEM_IN_SRAM = 1"

datatype ipa_table_dma_type =
    IPA_NAT_BASE_TBL | IPA_NAT_EXPN_TBL | IPA_NAT_INDX_TBL | IPA_NAT_INDEX_EXPN_TBL
  | IPA_IPV6CT_BASE_TBL | IPA_IPV6CT_EXPN_TBL

text \<open>One 16-bit write of a DMA command, and a command: a buffer of \<open>length (dma_buf cmd)\<close> write
  slots of which the first \<open>dma_entries cmd\<close> are in use.\<close>

record ipa_ioc_nat_dma_one =
  d_table_index :: uint8
  d_base_addr :: ipa_table_dma_type
  d_offset :: uint32
  d_data :: uint16

record ipa_ioc_nat_dma_cmd =
  dma_entries :: uint8
  dma_mem_type :: ipa3_nat_mem_in
  dma_buf :: "ipa_ioc_nat_dma_one list"

definition dma_zero :: ipa_ioc_nat_dma_one where
  "dma_zero = \<lparr>d_table_index = 0, d_base_addr = IPA_NAT_BASE_TBL, d_offset = 0, d_data = 0\<rparr>"

text \<open>The buffer on the caller's stack, cleared by \<open>memset\<close>, with room for \<open>cap\<close> writes.\<close>

definition dma_cmd_init :: "nat \<Rightarrow> ipa_ioc_nat_dma_cmd" where
  "dma_cmd_init cap =
     \<lparr>dma_entries = 0, dma_mem_type = IPA_NAT_MEM_IN_DDR, dma_buf = replicate cap dma_zero\<rparr>"

definition dma_posted :: "ipa_ioc_nat_dma_cmd \<Rightarrow> ipa_ioc_nat_dma_one list" where
  "dma_posted cmd = take (unat (dma_entries cmd)) (dma_buf cmd)"

record ipa_ioc_v4_nat_init =
  v4i_tbl_index :: uint8
  v4i_ipv4_rules_offset :: uint32
  v4i_expn_rules_offset :: uint32
  v4i_index_offset :: uint32
  v4i_index_expn_offset :: uint32
  v4i_table_entries :: uint16
  v4i_expn_table_entries :: uint16
  v4i_ip_addr :: uint32
  v4i_mem_type :: ipa3_nat_mem_in
  v4i_focus_change :: bool

record ipa_ioc_ipv6ct_init =
  v6i_base_table_offset :: uint32
  v6i_expn_table_offset :: uint32
  v6i_table_entries :: uint16
  v6i_expn_table_entries :: uint16
  v6i_tbl_index :: uint8

record ipa_ioc_nat_pdn_entry =
  pd_pdn_index :: uint8
  pd_public_ip :: uint32
  pd_src_metadata :: uint32
  pd_dst_metadata :: uint32

record ipa_nat_in_sram_info =
  sram_mem_available_for_nat :: uint32
  nat_table_offset_into_mmap :: uint32
  best_nat_in_sram_size_rqst :: uint32

definition sram_info_zero :: ipa_nat_in_sram_info where
  "sram_info_zero = \<lparr>sram_mem_available_for_nat = 0, nat_table_offset_into_mmap = 0,
     best_nat_in_sram_size_rqst = 0\<rparr>"

datatype ipa_app_clock_vote_type = IPA_APP_CLK_DEVOTE | IPA_APP_CLK_VOTE | IPA_APP_CLK_RESET_VOTE

text \<open>An open IPA device: its file descriptor and the hardware version (\<open>enum ipa_hw_type\<close>).\<close>

record ipa_descriptor =
  desc_fd :: int
  desc_ver :: nat

abbreviation (input) IPA_HW_None :: nat where "IPA_HW_None \<equiv> 0"
abbreviation (input) IPA_HW_v4_0 :: nat where "IPA_HW_v4_0 \<equiv> 14"

section \<open>The operating system\<close>

datatype table_kind = NAT_TABLE_DEV | IPV6CT_TABLE_DEV

text \<open>
  Every call takes the state \<open>'w\<close> of the world and returns its answer and the next state.
  \<open>os_dma\<close> is the request \<open>IPA_IOC_TABLE_DMA_CMD\<close>: it also returns the table memory \<open>'m\<close> as the
  hardware leaves it.
\<close>

record ('w, 'm) ipa_os =
  os_lock :: "'w \<Rightarrow> int \<times> 'w"
  os_unlock :: "'w \<Rightarrow> int \<times> 'w"
  os_mutex_init :: "'w \<Rightarrow> int \<times> 'w"
  os_calloc :: "nat \<Rightarrow> 'w \<Rightarrow> bool \<times> 'w"
  os_open :: "string \<Rightarrow> 'w \<Rightarrow> int \<times> 'w"
  os_close :: "int \<Rightarrow> 'w \<Rightarrow> int \<times> 'w"
  os_mmap :: "int \<Rightarrow> int \<Rightarrow> 'w \<Rightarrow> uint64 option \<times> 'w"
  os_munmap :: "uint64 \<Rightarrow> int \<Rightarrow> 'w \<Rightarrow> 'w"
  os_hw_version :: "int \<Rightarrow> 'w \<Rightarrow> (int \<times> nat) \<times> 'w"
  os_sram_info :: "int \<Rightarrow> 'w \<Rightarrow> (int \<times> ipa_nat_in_sram_info) \<times> 'w"
  os_alloc_table :: "int \<Rightarrow> table_kind \<Rightarrow> int \<Rightarrow> 'w \<Rightarrow> (int \<times> uint32) \<times> 'w"
  os_del_table :: "int \<Rightarrow> table_kind \<Rightarrow> uint8 \<Rightarrow> ipa3_nat_mem_in \<Rightarrow> 'w \<Rightarrow> int \<times> 'w"
  os_v4_init_nat :: "int \<Rightarrow> ipa_ioc_v4_nat_init \<Rightarrow> 'w \<Rightarrow> int \<times> 'w"
  os_init_ipv6ct :: "int \<Rightarrow> ipa_ioc_ipv6ct_init \<Rightarrow> 'w \<Rightarrow> int \<times> 'w"
  os_modify_pdn :: "int \<Rightarrow> ipa_ioc_nat_pdn_entry \<Rightarrow> 'w \<Rightarrow> int \<times> 'w"
  os_clock_vote :: "int \<Rightarrow> ipa_app_clock_vote_type \<Rightarrow> 'w \<Rightarrow> int \<times> 'w"
  os_dma :: "int \<Rightarrow> ipa_ioc_nat_dma_cmd \<Rightarrow> 'm \<Rightarrow> 'w \<Rightarrow> (int \<times> 'm) \<times> 'w"

section \<open>Opening and closing the IPA device\<close>

abbreviation (input) IPA_DEV_NAME :: string where "IPA_DEV_NAME \<equiv> ''/dev/ipa''"

definition ipa_descriptor_open :: "('w, 'm) ipa_os \<Rightarrow> 'w \<Rightarrow> ipa_descriptor option \<times> 'w" where
  "ipa_descriptor_open os w =
     (let (ok, w1) = os_calloc os 1 w in
      if \<not> ok then (None, w1)
      else let (fd, w2) = os_open os IPA_DEV_NAME w1 in
      if fd < 0 then (None, w2)
      else let ((res, ver), w3) = os_hw_version os fd w2 in
      if res = 0 then (Some \<lparr>desc_fd = fd, desc_ver = ver\<rparr>, w3)
      else (Some \<lparr>desc_fd = fd, desc_ver = IPA_HW_None\<rparr>, w3))"

definition ipa_descriptor_close ::
    "('w, 'm) ipa_os \<Rightarrow> ipa_descriptor option \<Rightarrow> 'w \<Rightarrow> 'w" where
  "ipa_descriptor_close os d w =
     (case d of None \<Rightarrow> w
      | Some desc \<Rightarrow> if desc_fd desc \<ge> 0 then snd (os_close os (desc_fd desc) w) else w)"

end
