(* ===== verification/Ipa_Table.thy ===== *)
theory Ipa_Table
  imports Ipa_Uapi "HOL-Library.Log_Nat"
begin

text \<open>
  The generic table of \<open>ipa_table.c\<close>: a hash table in memory shared with the hardware.  The first
  \<open>table_entries\<close> slots are the base table, the other \<open>expn_table_entries\<close> are the expansion
  table; colliding entries form a doubly linked list that starts in a base slot and continues in
  expansion slots.  Slot 0 is never used, because index 0 means "no entry".

  The memory behind \<open>table_addr\<close> and \<open>expn_table_addr\<close> is the list \<open>recs\<close>, and a pointer to a
  record is its slot number.  The fields the hardware owns (the enable flag and the links) are
  not written by the library but by DMA commands it posts.
\<close>

section \<open>Types of ipa_table.h\<close>

abbreviation (input) IPA_TABLE_MAX_ENTRIES :: nat where "IPA_TABLE_MAX_ENTRIES \<equiv> 5120"
abbreviation (input) IPA_TABLE_INVALID_ENTRY :: "'a::len word" where "IPA_TABLE_INVALID_ENTRY \<equiv> 0"
abbreviation (input) IPA_RESOURCE_NAME_MAX :: nat where "IPA_RESOURCE_NAME_MAX \<equiv> 32"

definition VALID_INDEX :: "uint16 \<Rightarrow> bool" where
  "VALID_INDEX idx \<longleftrightarrow> idx \<noteq> IPA_TABLE_INVALID_ENTRY"

definition VALID_RULE_HDL :: "uint32 \<Rightarrow> bool" where
  "VALID_RULE_HDL hdl \<longleftrightarrow> hdl \<noteq> IPA_TABLE_INVALID_ENTRY"

datatype dma_help_type = HELP_UPDATE_HEAD | HELP_UPDATE_ENTRY | HELP_DELETE_HEAD

record ipa_table_dma_cmd_helper =
  h_offset :: uint32
  h_table_type :: ipa_table_dma_type
  h_expn_table_type :: ipa_table_dma_type
  h_table_indx :: uint8

text \<open>
  The callbacks of the owner of a table.  A callback that updates a record returns it; the
  \<open>meta\<close> array of the index table (one \<open>prev_index\<close> for each expansion slot) is passed and
  returned where the C code passes the pointer.  The C struct \<open>ipa_table\<close> points to this record;
  here it is an argument of the operations, since it never changes.
\<close>

record ('e, 'u) ipa_table_entry_interface =
  entry_is_valid :: "'e \<Rightarrow> bool"
  entry_get_next_index :: "'e \<Rightarrow> uint16"
  entry_get_prev_index :: "'e \<Rightarrow> uint16 \<Rightarrow> uint16 list option \<Rightarrow> uint16 \<Rightarrow> uint16 option"
  entry_set_prev_index ::
    "'e \<Rightarrow> uint16 \<Rightarrow> uint16 \<Rightarrow> uint16 list option \<Rightarrow> uint16 \<Rightarrow> ('e \<times> uint16 list option) option"
  entry_head_insert :: "'e \<Rightarrow> 'u \<Rightarrow> (int \<times> 'e \<times> uint16) option"
  entry_tail_insert :: "'e \<Rightarrow> 'u \<Rightarrow> (int \<times> 'e) option"
  entry_get_delete_head_dma_command_data :: "'e \<Rightarrow> 'e \<Rightarrow> uint16"

record 'e ipa_table =
  tbl_name :: string
  tbl_nmi :: ipa3_nat_mem_in
  entry_size :: int
  table_entries :: uint16
  expn_table_entries :: uint16
  tot_tbl_ents :: uint32
  table_addr :: uint64
  expn_table_addr :: uint64
  cur_tbl_cnt :: uint16
  cur_expn_tbl_cnt :: uint16
  dma_help :: "dma_help_type \<Rightarrow> ipa_table_dma_cmd_helper option"
  tbl_meta :: "uint16 list option"
  meta_entry_size :: int
  recs :: "'e list"

text \<open>The all-zero structure (\<open>memset\<close>).\<close>

definition tbl_zero :: "'e ipa_table" where
  "tbl_zero = \<lparr>tbl_name = [], tbl_nmi = IPA_NAT_MEM_IN_DDR, entry_size = 0, table_entries = 0,
     expn_table_entries = 0, tot_tbl_ents = 0, table_addr = 0, expn_table_addr = 0, cur_tbl_cnt = 0,
     cur_expn_tbl_cnt = 0, dma_help = (\<lambda>_. None), tbl_meta = None, meta_entry_size = 0, recs = []\<rparr>"

text \<open>A pointer to a record: \<open>None\<close> is the null pointer.\<close>

type_synonym rec_ptr = "uint16 option"

record ipa_table_iterator =
  it_prev_index :: uint16
  it_prev_entry :: rec_ptr
  it_curr_index :: uint16
  it_curr_entry :: rec_ptr
  it_next_index :: uint16
  it_next_entry :: rec_ptr

definition iterator_zero :: ipa_table_iterator where
  "iterator_zero = \<lparr>it_prev_index = 0, it_prev_entry = None, it_curr_index = 0,
     it_curr_entry = None, it_next_index = 0, it_next_entry = None\<rparr>"

section \<open>Access to records\<close>

text \<open>The value of the macro \<open>GOTO_REC\<close>, as an address.\<close>

definition GOTO_REC :: "'e ipa_table \<Rightarrow> uint16 \<Rightarrow> uint64" where
  "GOTO_REC t i = table_addr t + of_int (int (unat i) * entry_size t)"

definition rec_get :: "'e ipa_table \<Rightarrow> uint16 \<Rightarrow> 'e option" where
  "rec_get t i = arr_get (recs t) (unat i)"

definition rec_put :: "'e ipa_table \<Rightarrow> uint16 \<Rightarrow> 'e \<Rightarrow> 'e ipa_table option" where
  "rec_put t i e = (case arr_put (recs t) (unat i) e of None \<Rightarrow> None
     | Some rs \<Rightarrow> Some (t\<lparr>recs := rs\<rparr>))"

text \<open>Total slots, as the C code adds them: \<open>table_entries + expn_table_entries\<close>.\<close>

definition tab_sz :: "'e ipa_table \<Rightarrow> nat" where
  "tab_sz t = unat (table_entries t) + unat (expn_table_entries t)"

section \<open>Initialisation and sizing\<close>

text \<open>\<open>strlcpy\<close> into a buffer of \<open>sz\<close> bytes (\<open>ipa_nat_utils.c\<close>).\<close>

definition strlcpy :: "string \<Rightarrow> nat \<Rightarrow> string" where
  "strlcpy src sz = take (sz - 1) src"

definition ipa_table_init ::
    "string \<Rightarrow> ipa3_nat_mem_in \<Rightarrow> int \<Rightarrow> uint16 list option \<Rightarrow> int \<Rightarrow> 'e ipa_table" where
  "ipa_table_init table_name nmi esz meta mesz =
     \<lparr>tbl_name = strlcpy table_name IPA_RESOURCE_NAME_MAX, tbl_nmi = nmi, entry_size = esz,
      table_entries = 0, expn_table_entries = 0, tot_tbl_ents = 0,
      table_addr = 0, expn_table_addr = 0, cur_tbl_cnt = 0, cur_expn_tbl_cnt = 0,
      dma_help = (\<lambda>_. None), tbl_meta = meta, meta_entry_size = mesz, recs = []\<rparr>"

text \<open>The loop \<open>while (tmp != 1)\<close>; the caller starts it with \<open>tmp \<noteq> 0\<close>, so \<open>tmp\<close> reaches 1.\<close>

function pow2_loop :: "uint16 \<Rightarrow> uint16 \<Rightarrow> uint16 \<Rightarrow> uint16 \<times> uint16" where
  "pow2_loop tmp prev cur =
     (if unat tmp \<le> 1 then (prev, cur)
      else pow2_loop (drop_bit 1 tmp) cur (push_bit 1 cur))"
  by pat_completeness auto
termination
  by (relation "measure (\<lambda>(tmp, prev, cur). unat tmp)")
    (auto simp: drop_bit_eq_div unat_div)

declare pow2_loop.simps [simp del]

definition Get2PowerTightUpperBound :: "uint16 \<Rightarrow> int" where
  "Get2PowerTightUpperBound num =
     (if num = 0 then 2
      else let (prev, cur) = pow2_loop num 0 2 in
      if num = prev then uint prev else uint cur)"

definition GetEvenTightUpperBound :: "uint16 \<Rightarrow> int" where
  "GetEvenTightUpperBound num =
     (if num = 0 then 2 else if uint num mod 2 \<noteq> 0 then uint num + 1 else uint num)"

text \<open>
  The products of an entry count with the floating-point constants of \<open>ipa_table.c\<close>, converted
  to \<open>uint16_t\<close>.  The constant is \<open>m / 2 ^ e\<close>; the product is rounded to \<open>prec\<close> significant bits,
  ties to even (IEEE 754: \<open>prec = 24\<close> for \<open>float\<close>, 53 for \<open>double\<close>), and the conversion truncates.
\<close>

definition fp_round :: "nat \<Rightarrow> nat \<Rightarrow> nat" where
  "fp_round prec p =
     (let k = floorlog 2 p - prec; q = p div 2 ^ k; r = p mod 2 ^ k; h = 2 ^ k div 2 in
      (if k = 0 \<or> r < h \<or> (r = h \<and> even q) then q else Suc q) * 2 ^ k)"

definition fp_scale :: "nat \<Rightarrow> nat \<Rightarrow> nat \<Rightarrow> nat \<Rightarrow> uint16" where
  "fp_scale prec m e n = of_nat (fp_round prec (n * m) div 2 ^ e)"

text \<open>\<open>.8f\<close>, \<open>.2f\<close>, \<open>1.00f\<close> and \<open>0.43f\<close>.\<close>

definition base_share :: "ipa3_nat_mem_in \<Rightarrow> nat \<Rightarrow> uint16" where
  "base_share nmi n =
     (if nmi = IPA_NAT_MEM_IN_SRAM then fp_scale 24 1 0 n else fp_scale 24 13421773 24 n)"

definition expn_share :: "ipa3_nat_mem_in \<Rightarrow> nat \<Rightarrow> uint16" where
  "expn_share nmi n =
     (if nmi = IPA_NAT_MEM_IN_SRAM then fp_scale 24 14428406 25 n else fp_scale 24 13421773 26 n)"

definition ipa_table_calculate_entries_num ::
    "'e ipa_table \<Rightarrow> uint16 \<Rightarrow> ipa3_nat_mem_in \<Rightarrow> int \<times> 'e ipa_table" where
  "ipa_table_calculate_entries_num t number_of_entries nmi =
     (if unat number_of_entries > IPA_TABLE_MAX_ENTRIES then (- EINVAL, t)
      else
        let te = of_int (Get2PowerTightUpperBound (base_share nmi (unat number_of_entries)));
            xe = of_int (GetEvenTightUpperBound (expn_share nmi (unat number_of_entries)));
            t1 = t\<lparr>tot_tbl_ents := ucast (te :: uint16) + ucast (xe :: uint16)\<rparr>
        in if unat (tot_tbl_ents t1) > IPA_TABLE_MAX_ENTRIES then (- EINVAL, t1)
           else (0, t1\<lparr>table_entries := te, expn_table_entries := xe\<rparr>))"

definition ipa_table_calculate_size :: "'e ipa_table \<Rightarrow> int" where
  "ipa_table_calculate_size t =
     entry_size t * (uint (table_entries t) + uint (expn_table_entries t))"

definition ipa_table_calculate_addresses :: "'e ipa_table \<Rightarrow> uint64 \<Rightarrow> 'e ipa_table \<times> uint64" where
  "ipa_table_calculate_addresses t base_addr =
     (let x = base_addr + of_int (entry_size t * uint (table_entries t)) in
      (t\<lparr>table_addr := base_addr, expn_table_addr := x\<rparr>,
       x + of_int (entry_size t * uint (expn_table_entries t))))"

text \<open>Both loops of \<open>ipa_table_reset\<close> zero the bytes of their part of the memory: afterwards
  every slot holds the all-zero record.\<close>

definition ipa_table_reset :: "'e \<Rightarrow> 'e ipa_table \<Rightarrow> 'e ipa_table" where
  "ipa_table_reset zero t =
     (let base = replicate (unat (table_entries t)) zero;
          expn = replicate (unat (expn_table_entries t)) zero
      in t\<lparr>recs := base @ expn\<rparr>)"

text \<open>
  The largest number of entries that fits: the loop of \<open>ipa_calc_num_sram_table_entries\<close>, with
  \<open>tot\<close> a 16-bit counter and the scale factors the double constants 1.00 and 0.43.
  \<open>None\<close> is a loop that does not end.
\<close>

definition sram_try_size :: "uint32 \<Rightarrow> uint32 \<Rightarrow> uint16 \<Rightarrow> int" where
  "sram_try_size sz1 sz2 tot =
     (let te = of_int (Get2PowerTightUpperBound (fp_scale 53 1 0 (unat tot)));
          xe = of_int (GetEvenTightUpperBound (fp_scale 53 7746191359077253 54 (unat tot)));
          t1 = (ipa_table_init ''tmp_sram_table1'' IPA_NAT_MEM_IN_DDR (sint sz1) None 0 :: unit ipa_table)
                 \<lparr>table_entries := te, expn_table_entries := xe\<rparr>;
          t2 = (ipa_table_init ''tmp_sram_table1'' IPA_NAT_MEM_IN_DDR (sint sz2) None 0 :: unit ipa_table)
                 \<lparr>table_entries := te, expn_table_entries := xe\<rparr>
      in ipa_table_calculate_size t1 + ipa_table_calculate_size t2)"

partial_function (option) sram_loop :: "uint32 \<Rightarrow> uint32 \<Rightarrow> uint32 \<Rightarrow> uint16 \<Rightarrow> uint16 \<Rightarrow> uint16 option" where
  "sram_loop sram_size sz1 sz2 tot num =
     (if (of_int (sram_try_size sz1 sz2 tot) :: uint32) > sram_size then Some num
      else sram_loop sram_size sz1 sz2 (tot + 1) tot)"

definition ipa_calc_num_sram_table_entries ::
    "uint32 \<Rightarrow> uint32 \<Rightarrow> uint32 \<Rightarrow> (int \<times> uint16) option" where
  "ipa_calc_num_sram_table_entries sram_size sz1 sz2 =
     (case sram_loop sram_size sz1 sz2 1 0 of None \<Rightarrow> None
      | Some n \<Rightarrow> Some (if n \<noteq> 0 then 0 else - 1, n))"

section \<open>Rule handles\<close>

definition IPA_TABLE_TYPE_BITS :: nat where "IPA_TABLE_TYPE_BITS = 1"
definition IPA_TABLE_TYPE_MEM_SHIFT :: nat where "IPA_TABLE_TYPE_MEM_SHIFT = 15"
abbreviation (input) IPA_TABLE_TYPE_MASK :: "'a::len word" where "IPA_TABLE_TYPE_MASK \<equiv> 1"
abbreviation (input) IPA_TABLE_INDX_MASK :: "'a::len word" where "IPA_TABLE_INDX_MASK \<equiv> 0xFFF"

definition MakeEntryHdl :: "'e ipa_table \<Rightarrow> uint16 \<Rightarrow> uint16" where
  "MakeEntryHdl t tbl_entry =
     (let entry_hdl =
        (if tbl_entry \<ge> table_entries t
         then push_bit IPA_TABLE_TYPE_BITS (tbl_entry - table_entries t) OR IPA_TABLE_TYPE_MASK
         else push_bit IPA_TABLE_TYPE_BITS tbl_entry)
      in entry_hdl OR push_bit IPA_TABLE_TYPE_MEM_SHIFT (nmi_bit (tbl_nmi t)))"

text \<open>The macro \<open>BREAK_RULE_HDL\<close>: memory type bit, expansion bit, record index.\<close>

definition BREAK_RULE_HDL :: "'e ipa_table \<Rightarrow> uint32 \<Rightarrow> uint32 \<times> uint8 \<times> uint16" where
  "BREAK_RULE_HDL t hdl =
     (let mt = drop_bit IPA_TABLE_TYPE_MEM_SHIFT hdl AND IPA_TABLE_TYPE_MASK;
          iet = ucast (hdl AND IPA_TABLE_TYPE_MASK) :: uint8;
          indx = ucast (drop_bit IPA_TABLE_TYPE_BITS hdl AND IPA_TABLE_INDX_MASK) :: uint16
      in (mt, iet, indx + (if iet \<noteq> 0 then table_entries t else 0)))"

definition ipa_table_get_entry :: "'e ipa_table \<Rightarrow> uint32 \<Rightarrow> int \<times> rec_ptr \<times> uint16" where
  "ipa_table_get_entry t entry_handle =
     (let (nmi, is_expn_tbl, rec_index) = BREAK_RULE_HDL t entry_handle in
      if ucast rec_index \<ge> tot_tbl_ents t then (- EINVAL, None, 0)
      else (0, Some rec_index, rec_index))"

definition ipa_table_get_entry_by_index :: "'e ipa_table \<Rightarrow> uint16 \<Rightarrow> rec_ptr" where
  "ipa_table_get_entry_by_index t rec_index =
     (if rec_index = 0 \<or> ucast rec_index \<ge> tot_tbl_ents t then None else Some rec_index)"

section \<open>DMA commands\<close>

definition ipa_table_dma_cmd_helper_init ::
    "uint8 \<Rightarrow> ipa_table_dma_type \<Rightarrow> ipa_table_dma_type \<Rightarrow> uint32 \<Rightarrow> ipa_table_dma_cmd_helper" where
  "ipa_table_dma_cmd_helper_init indx tt xt off =
     \<lparr>h_offset = off, h_table_type = tt, h_expn_table_type = xt, h_table_indx = indx\<rparr>"

text \<open>The write goes to \<open>cmd->dma[cmd->entries]\<close>: undefined when the caller's buffer is full.\<close>

definition ipa_table_dma_cmd_generate ::
    "ipa_table_dma_cmd_helper \<Rightarrow> bool \<Rightarrow> uint32 \<Rightarrow> uint16 \<Rightarrow> ipa_ioc_nat_dma_cmd \<Rightarrow>
     ipa_ioc_nat_dma_cmd option" where
  "ipa_table_dma_cmd_generate hlp is_expn entry_offset data cmd =
     (case arr_put (dma_buf cmd) (unat (dma_entries cmd))
        \<lparr>d_table_index = h_table_indx hlp,
         d_base_addr = (if is_expn then h_expn_table_type hlp else h_table_type hlp),
         d_offset = h_offset hlp + entry_offset,
         d_data = data\<rparr> of
        None \<Rightarrow> None
      | Some buf \<Rightarrow> Some (cmd\<lparr>dma_buf := buf, dma_entries := dma_entries cmd + 1\<rparr>))"

definition ipa_table_add_dma_cmd ::
    "'e ipa_table \<Rightarrow> dma_help_type \<Rightarrow> rec_ptr \<Rightarrow> uint16 \<Rightarrow> uint16 \<Rightarrow> ipa_ioc_nat_dma_cmd \<Rightarrow>
     (int \<times> ipa_ioc_nat_dma_cmd) option" where
  "ipa_table_add_dma_cmd t help_type p rec_index data_for_entry cmd =
     (case p of None \<Rightarrow> Some (- EINVAL, cmd)
      | Some slot \<Rightarrow>
        if unat rec_index \<ge> tab_sz t then Some (- EINVAL, cmd)
        else
          let is_expn = (rec_index \<ge> table_entries t);
              entry_offset = ucast (GOTO_REC t slot -
                (if is_expn then expn_table_addr t else table_addr t)) :: uint32
          in case dma_help t help_type of
               None \<Rightarrow> None
             | Some hlp \<Rightarrow>
               (case ipa_table_dma_cmd_generate hlp is_expn entry_offset data_for_entry cmd of
                  None \<Rightarrow> None
                | Some cmd' \<Rightarrow> Some (0, cmd')))"

section \<open>Iterators\<close>

definition ipa_table_iterator_init ::
    "('e, 'u) ipa_table_entry_interface \<Rightarrow> 'e ipa_table \<Rightarrow> uint16 \<Rightarrow> uint16 \<Rightarrow>
     (int \<times> ipa_table_iterator) option" where
  "ipa_table_iterator_init ei t cur_entry cur_index =
     do {
       e \<leftarrow> rec_get t cur_entry;
       if \<not> entry_is_valid ei e then Some (- EINVAL, iterator_zero)
       else do {
         pidx \<leftarrow> entry_get_prev_index ei e cur_index (tbl_meta t) (table_entries t);
         let nidx = entry_get_next_index ei e;
         let it = iterator_zero\<lparr>it_curr_entry := Some cur_entry, it_curr_index := cur_index,
                    it_prev_index := pidx, it_next_index := nidx\<rparr>;
         let it1 = (if VALID_INDEX pidx
                    then it\<lparr>it_prev_entry := ipa_table_get_entry_by_index t pidx\<rparr> else it);
         if VALID_INDEX pidx \<and> it_prev_entry it1 = None then Some (- EPERM, it1)
         else do {
           let it2 = (if VALID_INDEX nidx
                      then it1\<lparr>it_next_entry := ipa_table_get_entry_by_index t nidx\<rparr> else it1);
           if VALID_INDEX nidx \<and> it_next_entry it2 = None then Some (- EPERM, it2)
           else Some (0, it2)
         }
       }
     }"

definition ipa_table_iterator_next ::
    "('e, 'u) ipa_table_entry_interface \<Rightarrow> ipa_table_iterator \<Rightarrow> 'e ipa_table \<Rightarrow>
     (int \<times> ipa_table_iterator) option" where
  "ipa_table_iterator_next ei it t =
     do {
       cur \<leftarrow> it_next_entry it;
       e \<leftarrow> rec_get t cur;
       let nidx = entry_get_next_index ei e;
       let it1 = it\<lparr>it_prev_entry := it_curr_entry it, it_prev_index := it_curr_index it,
                    it_curr_entry := it_next_entry it, it_curr_index := it_next_index it,
                    it_next_index := nidx\<rparr>;
       if \<not> VALID_INDEX nidx then Some (0, it1\<lparr>it_next_entry := None\<rparr>)
       else do {
         let p = ipa_table_get_entry_by_index t nidx;
         if p = None then Some (- EPERM, it1\<lparr>it_next_entry := p\<rparr>)
         else Some (0, it1\<lparr>it_next_entry := p\<rparr>)
       }
     }"

text \<open>
  The loop \<open>while (1)\<close> of \<open>ipa_table_iterator_end\<close>: it follows \<open>next_index\<close> to the last record of
  the list.  A list that runs in a circle of two or more records makes it run forever.
\<close>

partial_function (option) iterator_end_loop ::
    "('e, 'u) ipa_table_entry_interface \<Rightarrow> 'e ipa_table \<Rightarrow> uint16 \<Rightarrow> uint16 \<Rightarrow>
     (bool \<times> uint16 \<times> uint16) option" where
  "iterator_end_loop ei t prev_index prev_entry =
     (case rec_get t prev_entry of None \<Rightarrow> None
      | Some e \<Rightarrow>
        let next_index = entry_get_next_index ei e in
        if \<not> VALID_INDEX next_index then Some (True, prev_index, prev_entry)
        else if next_index = prev_index then Some (False, prev_index, prev_entry)
        else iterator_end_loop ei t next_index next_index)"

definition ipa_table_iterator_end ::
    "('e, 'u) ipa_table_entry_interface \<Rightarrow> 'e ipa_table \<Rightarrow> uint16 \<Rightarrow> rec_ptr \<Rightarrow>
     (int \<times> ipa_table_iterator) option" where
  "ipa_table_iterator_end ei t rec_index p =
     (case p of None \<Rightarrow> Some (- 1, iterator_zero)
      | Some slot \<Rightarrow>
        (case iterator_end_loop ei t rec_index slot of None \<Rightarrow> None
         | Some (found_end, pidx, pent) \<Rightarrow>
           Some (if found_end then 0 else - 1,
                 iterator_zero\<lparr>it_prev_index := pidx, it_prev_entry := Some pent\<rparr>)))"

definition ipa_table_iterator_is_head_with_tail :: "ipa_table_iterator \<Rightarrow> bool" where
  "ipa_table_iterator_is_head_with_tail it \<longleftrightarrow>
     VALID_INDEX (it_next_index it) \<and> \<not> VALID_INDEX (it_prev_index it)"

section \<open>Walking the table\<close>

datatype When2Callback = WHEN_SLOT_EMPTY | WHEN_SLOT_FILLED

text \<open>
  A callback gets the table, the handle and index of the record, a pointer to it, and the slot of
  its meta record if it has one; it may change the state \<open>'s\<close> that holds the table.  The walk
  reads the table through \<open>get\<close> in every round.  The counter \<open>i\<close> is a \<open>uint16_t\<close> in the code; the
  tables the library creates have at most 5120 slots, so it does not wrap.
\<close>

type_synonym ('e, 's) ipa_table_walk_cb =
  "'e ipa_table \<Rightarrow> uint32 \<Rightarrow> uint16 \<Rightarrow> uint16 \<Rightarrow> uint16 option \<Rightarrow> uint16 \<Rightarrow> 's \<Rightarrow> (int \<times> 's) option"

function walk_loop ::
    "('s \<Rightarrow> 'e ipa_table) \<Rightarrow> ('e, 'u) ipa_table_entry_interface \<Rightarrow> When2Callback \<Rightarrow>
     ('e, 's) ipa_table_walk_cb \<Rightarrow> nat \<Rightarrow> nat \<Rightarrow> 's \<Rightarrow> (int \<times> 's) option" where
  "walk_loop get ei when2cb cb tot i s =
     (if i < tot then
        (case rec_get (get s) (of_nat i) of None \<Rightarrow> None
         | Some e \<Rightarrow>
           let call_back = (if entry_is_valid ei e then when2cb = WHEN_SLOT_FILLED
                            else when2cb = WHEN_SLOT_EMPTY)
           in if call_back then
                let t = get s;
                    rule_hdl = ucast (MakeEntryHdl t (of_nat i)) :: uint32;
                    has_meta = (of_nat i \<ge> table_entries t \<and> tbl_meta t \<noteq> None);
                    mi = (if has_meta then of_nat i - table_entries t else 0);
                    mp = (if has_meta then Some mi else None)
                in (case cb t rule_hdl (of_nat i) (of_nat i) mp mi s of None \<Rightarrow> None
                    | Some (ret, s') \<Rightarrow>
                      if ret \<noteq> 0 then Some (ret, s')
                      else walk_loop get ei when2cb cb tot (Suc i) s')
              else walk_loop get ei when2cb cb tot (Suc i) s)
      else Some (0, s))"
  by pat_completeness auto
termination
  by (relation "measure (\<lambda>(get, ei, when2cb, cb, tot, i, s). tot - i)") auto

declare walk_loop.simps [simp del]

definition ipa_table_walk ::
    "('s \<Rightarrow> 'e ipa_table) \<Rightarrow> ('e, 'u) ipa_table_entry_interface \<Rightarrow> uint16 \<Rightarrow> When2Callback \<Rightarrow>
     ('e, 's) ipa_table_walk_cb \<Rightarrow> 's \<Rightarrow> (int \<times> 's) option" where
  "ipa_table_walk get ei start_index when2cb cb s =
     (let tot = tab_sz (get s) in
      if unat start_index \<ge> tot then Some (- EINVAL, s)
      else walk_loop get ei when2cb cb tot (unat start_index) s)"

section \<open>Insertion\<close>

definition mt_slot :: "('e, 'e ipa_table) ipa_table_walk_cb" where
  "mt_slot t rule_hdl record_ptr record_index meta_ptr meta_index s = Some (uint record_index, s)"

text \<open>The first free expansion slot: result, pointer and index.\<close>

definition FindExpnTblFreeEntry ::
    "('e, 'u) ipa_table_entry_interface \<Rightarrow> 'e ipa_table \<Rightarrow> (int \<times> rec_ptr \<times> uint16) option" where
  "FindExpnTblFreeEntry ei t =
     (case ipa_table_walk (\<lambda>x. x) ei (table_entries t) WHEN_SLOT_EMPTY mt_slot t of
        None \<Rightarrow> None
      | Some (ret, _) \<Rightarrow>
        if ret > 0 then Some (0, Some (of_int ret), of_int ret) else Some (- 1, None, 0))"

definition InsertHead ::
    "('e, 'u) ipa_table_entry_interface \<Rightarrow> 'e ipa_table \<Rightarrow> uint16 \<Rightarrow> uint16 \<Rightarrow> 'u \<Rightarrow>
     ipa_ioc_nat_dma_cmd \<Rightarrow> (int \<times> 'e ipa_table \<times> ipa_ioc_nat_dma_cmd) option" where
  "InsertHead ei t p rec_index user_data cmd =
     do {
       e \<leftarrow> rec_get t p;
       (ret, e', enable_data) \<leftarrow> entry_head_insert ei e user_data;
       t1 \<leftarrow> rec_put t p e';
       if ret \<noteq> 0 then Some (ret, t1, cmd)
       else do {
         (_, cmd1) \<leftarrow> ipa_table_add_dma_cmd t1 HELP_UPDATE_HEAD (Some p) rec_index enable_data cmd;
         Some (0, t1\<lparr>cur_tbl_cnt := cur_tbl_cnt t1 + 1\<rparr>, cmd1)
       }
     }"

definition InsertTail ::
    "('e, 'u) ipa_table_entry_interface \<Rightarrow> 'e ipa_table \<Rightarrow> uint16 \<Rightarrow> uint16 \<Rightarrow> 'u \<Rightarrow>
     ipa_ioc_nat_dma_cmd \<Rightarrow> (int \<times> 'e ipa_table \<times> uint16 \<times> ipa_ioc_nat_dma_cmd) option" where
  "InsertTail ei t p rec_index user_data cmd =
     do {
       let is_index_tbl = (tbl_meta t \<noteq> None);
       (ret, it) \<leftarrow> ipa_table_iterator_end ei t rec_index (Some p);
       if ret \<noteq> 0 then Some (ret, t, rec_index, cmd)
       else do {
         (ret, cp, cidx) \<leftarrow> FindExpnTblFreeEntry ei t;
         if ret \<noteq> 0 then Some (ret, t, rec_index, cmd)
         else do {
           ce \<leftarrow> cp;
           e \<leftarrow> rec_get t ce;
           (ret, e', enable_data) \<leftarrow>
             (if is_index_tbl
              then (case entry_tail_insert ei e user_data of None \<Rightarrow> None
                    | Some (r, x) \<Rightarrow> Some (r, x, 0))
              else entry_head_insert ei e user_data);
           t1 \<leftarrow> rec_put t ce e';
           if ret \<noteq> 0 then Some (ret, t1, rec_index, cmd)
           else do {
             (e'', m) \<leftarrow> entry_set_prev_index ei e' cidx (it_prev_index it) (tbl_meta t1) (table_entries t1);
             t2 \<leftarrow> rec_put t1 ce e'';
             let t3 = t2\<lparr>tbl_meta := m\<rparr>;
             (_, cmd1) \<leftarrow>
               (if \<not> is_index_tbl
                then ipa_table_add_dma_cmd t3 HELP_UPDATE_HEAD cp cidx enable_data cmd
                else Some (0, cmd));
             (_, cmd2) \<leftarrow> ipa_table_add_dma_cmd t3 HELP_UPDATE_ENTRY (it_prev_entry it)
                            (it_prev_index it) cidx cmd1;
             Some (0, t3\<lparr>cur_expn_tbl_cnt := cur_expn_tbl_cnt t3 + 1\<rparr>, cidx, cmd2)
           }
         }
       }
     }"

text \<open>Result, table, index of the new entry, its handle (0 when none is made), command.\<close>

definition ipa_table_add_entry ::
    "('e, 'u) ipa_table_entry_interface \<Rightarrow> 'e ipa_table \<Rightarrow> 'u \<Rightarrow> uint16 \<Rightarrow> ipa_ioc_nat_dma_cmd \<Rightarrow>
     (int \<times> 'e ipa_table \<times> uint16 \<times> uint32 \<times> ipa_ioc_nat_dma_cmd) option" where
  "ipa_table_add_entry ei t user_data rec_index cmd =
     do {
       e \<leftarrow> rec_get t rec_index;
       (ret, t1, idx, cmd1) \<leftarrow>
         (if \<not> entry_is_valid ei e
          then (case InsertHead ei t rec_index rec_index user_data cmd of None \<Rightarrow> None
                | Some (r, t', c) \<Rightarrow> Some (r, t', rec_index, c))
          else InsertTail ei t rec_index rec_index user_data cmd);
       if ret \<noteq> 0 then Some (ret, t1, idx, 0, cmd1)
       else Some (0, t1, idx, ucast (MakeEntryHdl t1 idx), cmd1)
     }"

section \<open>Deletion\<close>

definition ipa_table_erase_entry :: "'e \<Rightarrow> 'e ipa_table \<Rightarrow> uint16 \<Rightarrow> 'e ipa_table option" where
  "ipa_table_erase_entry zero t index =
     do {
       t1 \<leftarrow> rec_put t index zero;
       Some (if index < table_entries t1
             then t1\<lparr>cur_tbl_cnt := cur_tbl_cnt t1 - 1\<rparr>
             else t1\<lparr>cur_expn_tbl_cnt := cur_expn_tbl_cnt t1 - 1\<rparr>)
     }"

definition ipa_table_create_delete_command ::
    "('e, 'u) ipa_table_entry_interface \<Rightarrow> 'e ipa_table \<Rightarrow> ipa_ioc_nat_dma_cmd \<Rightarrow>
     ipa_table_iterator \<Rightarrow> ipa_ioc_nat_dma_cmd option" where
  "ipa_table_create_delete_command ei t cmd it =
     (if \<not> VALID_INDEX (it_prev_index it) then
        do {
          (data, ht) \<leftarrow>
            (if VALID_INDEX (it_next_index it) then
               do {
                 cp \<leftarrow> it_curr_entry it;
                 c \<leftarrow> rec_get t cp;
                 np \<leftarrow> it_next_entry it;
                 n \<leftarrow> rec_get t np;
                 Some (entry_get_delete_head_dma_command_data ei c n, HELP_DELETE_HEAD)
               }
             else Some (0, HELP_UPDATE_HEAD));
          (_, cmd1) \<leftarrow> ipa_table_add_dma_cmd t ht (it_curr_entry it) (it_curr_index it) data cmd;
          Some cmd1
        }
      else
        do {
          (_, cmd1) \<leftarrow> ipa_table_add_dma_cmd t HELP_UPDATE_ENTRY (it_prev_entry it)
                         (it_prev_index it) (it_next_index it) cmd;
          Some cmd1
        })"

definition ipa_table_delete_entry ::
    "('e, 'u) ipa_table_entry_interface \<Rightarrow> 'e \<Rightarrow> 'e ipa_table \<Rightarrow> ipa_table_iterator \<Rightarrow> bool \<Rightarrow>
     'e ipa_table option" where
  "ipa_table_delete_entry ei zero t it is_prev_empty =
     do {
       t1 \<leftarrow>
         (if VALID_INDEX (it_next_index it) then
            do {
              np \<leftarrow> it_next_entry it;
              n \<leftarrow> rec_get t np;
              (n', m) \<leftarrow> entry_set_prev_index ei n (it_next_index it) (it_prev_index it)
                            (tbl_meta t) (table_entries t);
              t' \<leftarrow> rec_put t np n';
              Some (t'\<lparr>tbl_meta := m\<rparr>)
            }
          else if is_prev_empty then
            (case it_prev_entry it of
               None \<Rightarrow> Some t
             | Some pp \<Rightarrow>
               do {
                 t' \<leftarrow> rec_put t pp zero;
                 Some (t'\<lparr>cur_tbl_cnt := cur_tbl_cnt t' - 1\<rparr>)
               })
          else Some t);
       ipa_table_erase_entry zero t1 (it_curr_index it)
     }"

end
