(* ===== verification/Ipa_Table_Sizing.thy ===== *)
theory Ipa_Table_Sizing
  imports Ipa_Table
begin

text \<open>
  The arithmetic of \<open>ipa_table.c\<close>: how many slots a table gets, how many entries fit into SRAM,
  and the handles that name a slot.
\<close>

section \<open>Tight upper bounds\<close>

lemma pow2_loop_eq:
  "2 ^ d \<le> unat tmp \<Longrightarrow> unat tmp < 2 ^ Suc d \<Longrightarrow>
   pow2_loop tmp p c = ((if d = 0 then p else push_bit (d - 1) c), push_bit d c)"
proof (induction d arbitrary: tmp p c)
  case 0
  then show ?case by (subst pow2_loop.simps) simp
next
  case (Suc d)
  have half: "unat (drop_bit 1 tmp) = unat tmp div 2"
    by (simp add: drop_bit_eq_div unat_div)
  with Suc.prems have IH: "pow2_loop (drop_bit 1 tmp) c (push_bit 1 c) =
      ((if d = 0 then c else push_bit (d - 1) (push_bit 1 c)), push_bit d (push_bit 1 c))"
    by (intro Suc.IH) auto
  have "(2 :: nat) \<le> 2 ^ Suc d" by simp
  with Suc.prems(1) have "\<not> unat tmp \<le> 1" by linarith
  then have step: "pow2_loop tmp p c = pow2_loop (drop_bit 1 tmp) c (push_bit 1 c)"
    by (subst pow2_loop.simps) simp
  show ?case
    unfolding step IH by (cases d) (simp_all add: push_bit_eq_mult ac_simps)
qed

lemma exists_log2: "0 < (n :: nat) \<Longrightarrow> \<exists>d. 2 ^ d \<le> n \<and> n < 2 ^ Suc d"
  using ex_power_ivl1 [of 2 n] by auto

lemma uint_push_bit_two: "d < 15 \<Longrightarrow> uint (push_bit d 2 :: uint16) = 2 ^ Suc d"
proof -
  assume "d < 15"
  then have "(2 :: int) ^ Suc d < 2 ^ 16" by (intro power_strict_increasing) auto
  then have "take_bit 16 ((2 :: int) ^ Suc d) = 2 ^ Suc d"
    by (intro take_bit_int_eq_self) auto
  then show ?thesis
    unfolding unsigned_push_bit_eq by (simp add: push_bit_eq_mult mult.commute)
qed

lemma two_power_le_iff: "(2 :: nat) ^ d \<le> 2 ^ j \<longleftrightarrow> d \<le> j"
  by (rule power_increasing_iff) simp

text \<open>The result is the least power of two, from 2 up, that is not below the argument.\<close>

lemma Get2PowerTightUpperBound_least:
  assumes "0 < unat num" "unat num \<le> 32768"
  shows "\<exists>k. 1 \<le> k \<and> k \<le> 15 \<and> Get2PowerTightUpperBound num = 2 ^ k \<and> unat num \<le> 2 ^ k \<and>
    (\<forall>j\<ge>1. unat num \<le> 2 ^ j \<longrightarrow> k \<le> j)"
proof -
  obtain d where d: "2 ^ d \<le> unat num" "unat num < 2 ^ Suc d"
    using exists_log2 [OF assms(1)] by blast
  have "num \<noteq> 0" using assms(1) by auto
  with pow2_loop_eq [OF d, of 0 2] have g: "Get2PowerTightUpperBound num =
      (if num = (if d = 0 then 0 else push_bit (d - 1) 2)
       then uint (if d = 0 then 0 else push_bit (d - 1) 2 :: uint16) else uint (push_bit d 2 :: uint16))"
    by (simp add: Get2PowerTightUpperBound_def)
  have "(2 :: nat) ^ d \<le> 2 ^ 15" using d(1) assms(2) by simp
  then have "d \<le> 15" by (rule power_le_imp_le_exp [rotated]) simp
  show ?thesis
  proof (cases "unat num = 2 ^ d")
    case True
    show ?thesis
    proof (cases d)
      case 0
      with g \<open>num \<noteq> 0\<close> True show ?thesis by (intro exI [of _ 1]) simp
    next
      case (Suc e)
      have p: "uint (push_bit e 2 :: uint16) = 2 ^ d"
        using Suc \<open>d \<le> 15\<close> uint_push_bit_two [of e] by simp
      then have "num = push_bit e 2"
        by (metis True of_nat_numeral of_nat_power uint_nat word_uint_eqI)
      with g p Suc have "Get2PowerTightUpperBound num = 2 ^ d" by simp
      moreover have "1 \<le> d" using Suc by simp
      ultimately show ?thesis
        using True \<open>d \<le> 15\<close> by (intro exI [of _ d]) (simp add: two_power_le_iff)
    qed
  next
    case False
    with d have gt: "2 ^ d < unat num" by simp
    have "d < 15"
      using gt assms(2) \<open>d \<le> 15\<close> by (cases "d = 15") auto
    have "num \<noteq> (if d = 0 then 0 else push_bit (d - 1) 2)"
    proof (cases d)
      case 0
      with \<open>num \<noteq> 0\<close> show ?thesis by simp
    next
      case (Suc e)
      then have "uint (push_bit e 2 :: uint16) = 2 ^ d" using uint_push_bit_two [of e] \<open>d < 15\<close> by simp
      with False Suc show ?thesis
        by (metis Suc diff_Suc_1 nat.distinct(1) nat_2 nat_int nat_numeral_as_int nat_power_eq unat_eq_nat_uint zero_le_numeral)
    qed
    with g have r: "Get2PowerTightUpperBound num = 2 ^ Suc d"
      using uint_push_bit_two [OF \<open>d < 15\<close>] by simp
    have "Suc d \<le> j" if "unat num \<le> 2 ^ j" for j
    proof -
      from gt that have "(2 :: nat) ^ d < 2 ^ j" by (rule order_less_le_trans)
      then show ?thesis by (simp add: Suc_le_eq)
    qed
    with r d \<open>d < 15\<close> show ?thesis by (intro exI [of _ "Suc d"]) auto
  qed
qed

section \<open>The floating-point shares\<close>

lemma fp_round_bounds:
  assumes "p < 2 ^ (prec + j)"
  shows "fp_round prec p \<le> p + 2 ^ j" "a * 2 ^ j \<le> p \<Longrightarrow> a * 2 ^ j \<le> fp_round prec p"
proof -
  define k where "k = floorlog 2 p - prec"
  have "floorlog 2 p \<le> prec + j"
    using assms by (intro floorlog_leI) simp_all
  then have kj: "k \<le> j" by (simp add: k_def)
  have up: "p div 2 ^ k * 2 ^ k \<le> p" by simp
  have lo: "p div 2 ^ k * 2 ^ k \<le> fp_round prec p"
    unfolding fp_round_def Let_def k_def by simp
  have hi: "fp_round prec p \<le> p div 2 ^ k * 2 ^ k + 2 ^ k"
    unfolding fp_round_def Let_def k_def by simp
  have "(2 :: nat) ^ k \<le> 2 ^ j" using kj by simp
  with up hi show "fp_round prec p \<le> p + 2 ^ j" by linarith
  assume a: "a * 2 ^ j \<le> p"
  obtain d where d: "(2 :: nat) ^ j = d * 2 ^ k" using kj by (metis le_imp_power_dvd dvd_def mult.commute)
  have "a * d = (a * 2 ^ j) div 2 ^ k" using d by simp
  also have "\<dots> \<le> p div 2 ^ k" using a by (rule div_le_mono)
  finally have "a * d * 2 ^ k \<le> p div 2 ^ k * 2 ^ k" by (rule mult_le_mono1)
  from order_trans [OF this lo] d show "a * 2 ^ j \<le> fp_round prec p" by (simp add: mult.assoc)
qed

lemma fp_scale_eq:
  assumes "n * m < 2 ^ (prec + j)" "j \<le> e" "I * 2 ^ e \<le> n * m" "n * m + 2 ^ j < (I + 1) * 2 ^ e"
  shows "fp_scale prec m e n = of_nat I"
proof -
  have "(2 :: nat) ^ e = 2 ^ (e - j) * 2 ^ j" using assms(2) by (simp flip: power_add)
  then have "I * 2 ^ e = I * 2 ^ (e - j) * 2 ^ j" by simp
  then have "I * 2 ^ e \<le> fp_round prec (n * m)"
    using assms(3) fp_round_bounds(2) [OF assms(1), of "I * 2 ^ (e - j)"] by argo
  moreover have "fp_round prec (n * m) < (I + 1) * 2 ^ e"
    using fp_round_bounds(1) [OF assms(1)] assms(4) by linarith
  ultimately have "fp_round prec (n * m) div 2 ^ e = I"
    by (simp add: div_nat_eqI mult.commute)
  then show ?thesis by (simp add: fp_scale_def)
qed

lemma fp_scale_div:
  assumes "n \<le> 5120" "0 < d" "c * 2 ^ e \<le> d * m" "d * m \<le> c * 2 ^ e + 32"
    "m < 2 ^ 24" "24 \<le> e" "d \<le> 100"
  shows "fp_scale 24 m e n = of_nat (c * n div d)"
proof (rule fp_scale_eq [where j = 13])
  define I where "I = c * n div d"
  have I: "d * I \<le> c * n" "c * n < d * I + d"
    using assms(2) by (simp_all add: I_def) (metis add.commute dividend_less_times_div)
  have "n * m \<le> 5120 * m" using assms(1) by (rule mult_le_mono1)
  also have "\<dots> < 5120 * 2 ^ 24" using assms(5) by simp
  finally show "n * m < 2 ^ (24 + 13)" by simp
  show "13 \<le> e" using assms(6) by simp
  have "d * (I * 2 ^ e) \<le> c * n * 2 ^ e"
    using mult_le_mono1 [OF I(1), of "2 ^ e"] by (simp only: mult.assoc)
  also have "\<dots> \<le> d * (n * m)" using mult_le_mono2 [OF assms(3), of n] by (simp add: ac_simps)
  finally show "c * n div d * 2 ^ e \<le> n * m" using assms(2) by (simp add: I_def)
  have big: "(2 :: nat) ^ 24 \<le> 2 ^ e" using assms(6) by (intro power_increasing) auto
  have "d * (n * m) \<le> n * (c * 2 ^ e + 32)" using mult_le_mono2 [OF assms(4), of n] by (simp add: ac_simps)
  also have "\<dots> = c * n * 2 ^ e + 32 * n" by (simp add: algebra_simps)
  also have "\<dots> \<le> (d * I + d - 1) * 2 ^ e + 32 * n" using I(2) by (intro add_mono mult_le_mono1) auto
  finally have "d * (n * m) + d * 2 ^ 13 \<le> (d * I + d - 1) * 2 ^ e + 32 * n + d * 2 ^ 13" by simp
  also have "\<dots> < (d * I + d - 1) * 2 ^ e + 2 ^ e"
  proof -
    have "32 * n + d * 2 ^ 13 < 2 ^ 24" using assms(1,7) by simp
    with big show ?thesis by linarith
  qed
  also have "\<dots> = d * (I + 1) * 2 ^ e"
  proof -
    have "d * I + d - 1 + 1 = d * (I + 1)" using assms(2) by simp
    then show ?thesis by (metis add_mult_distrib mult_1)
  qed
  also have "\<dots> = d * ((I + 1) * 2 ^ e)" by (simp only: mult.assoc)
  finally show "n * m + 2 ^ 13 < (c * n div d + 1) * 2 ^ e"
    by (metis I_def add_mult_distrib2 mult_less_cancel1)
qed

lemma fp_scale_one: "n < 2 ^ prec \<Longrightarrow> fp_scale prec 1 0 n = of_nat n"
proof -
  assume "n < 2 ^ prec"
  then have "floorlog 2 n - prec = 0" by (simp add: floorlog_leI)
  then show ?thesis by (simp add: fp_scale_def fp_round_def)
qed

lemma base_share_eq: "n \<le> 5120 \<Longrightarrow>
    base_share nmi n = of_nat (if nmi = IPA_NAT_MEM_IN_SRAM then n else 4 * n div 5)"
  unfolding base_share_def
  using fp_scale_div [of n 5 4 24 13421773] fp_scale_one [of n 24] by auto

lemma expn_share_eq: "n \<le> 5120 \<Longrightarrow>
    expn_share nmi n = of_nat (if nmi = IPA_NAT_MEM_IN_SRAM then 43 * n div 100 else n div 5)"
  unfolding expn_share_def
  using fp_scale_div [of n 100 43 25 14428406] fp_scale_div [of n 5 1 26 13421773] by auto

section \<open>Specification of the sizes\<close>

text \<open>The least power of two from 2 up, and the least even number from 2 up, not below \<open>n\<close>.\<close>

definition pow2_ceil :: "nat \<Rightarrow> nat" where
  "pow2_ceil n = 2 ^ (LEAST k. 1 \<le> k \<and> n \<le> 2 ^ k)"

definition even_ceil :: "nat \<Rightarrow> nat" where
  "even_ceil n = max 2 (2 * ((n + 1) div 2))"

lemma pow2_ceil_eqI:
  assumes "1 \<le> k" "n \<le> 2 ^ k" "\<And>j. 1 \<le> j \<Longrightarrow> n \<le> 2 ^ j \<Longrightarrow> k \<le> j"
  shows "pow2_ceil n = 2 ^ k"
  unfolding pow2_ceil_def by (rule arg_cong [where f = "(^) 2"], rule Least_equality) (use assms in auto)

lemma Get2Power_eq: "unat num \<le> 32768 \<Longrightarrow> Get2PowerTightUpperBound num = int (pow2_ceil (unat num))"
proof (cases "unat num = 0")
  case True
  then have "pow2_ceil (unat num) = 2 ^ 1" by (intro pow2_ceil_eqI) auto
  with True show ?thesis by (simp add: Get2PowerTightUpperBound_def unat_eq_0)
next
  case False
  assume "unat num \<le> 32768"
  with False obtain k where k: "1 \<le> k" "Get2PowerTightUpperBound num = 2 ^ k" "unat num \<le> 2 ^ k"
      "\<forall>j\<ge>1. unat num \<le> 2 ^ j \<longrightarrow> k \<le> j"
    using Get2PowerTightUpperBound_least [of num] by auto
  then have "pow2_ceil (unat num) = 2 ^ k" by (intro pow2_ceil_eqI) auto
  with k(2) show ?thesis by simp
qed

lemma GetEven_eq: "GetEvenTightUpperBound num = int (even_ceil (unat num))"
proof -
  define n where "n = unat num"
  have u: "uint num = int n" "num = 0 \<longleftrightarrow> n = 0" by (simp_all add: n_def unat_eq_0)
  have "2 * ((n + 1) div 2) = (if even n then n else n + 1)" by (auto elim: oddE)
  then show ?thesis
    by (auto simp: GetEvenTightUpperBound_def even_ceil_def u max_def simp flip: n_def)
      (auto elim!: evenE oddE)
qed

lemma pow2_ceil_bounds: "n \<le> pow2_ceil n" "2 \<le> pow2_ceil n" "2 \<le> n \<Longrightarrow> pow2_ceil n < 2 * n"
proof -
  define k where "k = (LEAST k. 1 \<le> k \<and> n \<le> 2 ^ k)"
  have "1 \<le> Suc n \<and> n \<le> 2 ^ Suc n" by (simp add: less_imp_le less_exp mult_2 trans_le_add1)
  from LeastI [of "\<lambda>k. 1 \<le> k \<and> n \<le> 2 ^ k", OF this] have k: "1 \<le> k" "n \<le> 2 ^ k"
    by (simp_all add: k_def)
  have p: "pow2_ceil n = 2 ^ k" by (simp add: pow2_ceil_def k_def)
  from k p show "n \<le> pow2_ceil n" by simp
  have "(2 :: nat) ^ 1 \<le> 2 ^ k" using k(1) by (intro power_increasing) auto
  with p show "2 \<le> pow2_ceil n" by simp
  assume n: "2 \<le> n"
  show "pow2_ceil n < 2 * n"
  proof (rule ccontr)
    assume a: "\<not> pow2_ceil n < 2 * n"
    then obtain j where j: "k = Suc j" using n k(1) by (cases k) auto
    with a p have "n \<le> 2 ^ j" by simp
    moreover from this n have "1 \<le> j" by (cases j) auto
    ultimately have "k \<le> j" unfolding k_def by (intro Least_le) simp
    with j show False by simp
  qed
qed


lemma even_ceil_bounds: "n \<le> even_ceil n" "even_ceil n \<le> n + 2" "2 \<le> even_ceil n" "even (even_ceil n)"
  by (auto simp: even_ceil_def max_def)

text \<open>The exact sizes \<open>ipa_table_calculate_entries_num\<close> chooses.\<close>

definition base_want :: "ipa3_nat_mem_in \<Rightarrow> nat \<Rightarrow> nat" where
  "base_want nmi n = pow2_ceil (if nmi = IPA_NAT_MEM_IN_SRAM then n else 4 * n div 5)"

definition expn_want :: "ipa3_nat_mem_in \<Rightarrow> nat \<Rightarrow> nat" where
  "expn_want nmi n = even_ceil (if nmi = IPA_NAT_MEM_IN_SRAM then 43 * n div 100 else n div 5)"

lemma base_want_le: "n \<le> 5120 \<Longrightarrow> base_want nmi n \<le> 8192"
proof -
  have "pow2_ceil m \<le> 8192" if "m \<le> 5120" for m
  proof -
    have "pow2_ceil m = 2 ^ (LEAST k. 1 \<le> k \<and> m \<le> 2 ^ k)" by (simp add: pow2_ceil_def)
    also have "\<dots> \<le> 2 ^ 13" by (intro power_increasing Least_le) (use that in auto)
    finally show ?thesis by simp
  qed
  then show "n \<le> 5120 \<Longrightarrow> base_want nmi n \<le> 8192" by (simp add: base_want_def)
qed

lemma expn_want_le: "n \<le> 5120 \<Longrightarrow> expn_want nmi n \<le> 5122"
  using even_ceil_bounds(2) [of "if nmi = IPA_NAT_MEM_IN_SRAM then 43 * n div 100 else n div 5"]
  by (simp add: expn_want_def split: if_splits)

lemma calculate_entries_num_eq:
  "ipa_table_calculate_entries_num t num nmi =
     (let n = unat num; b = base_want nmi n; x = expn_want nmi n in
      if n > 5120 then (- EINVAL, t)
      else if b + x > 5120 then (- EINVAL, t\<lparr>tot_tbl_ents := of_nat (b + x)\<rparr>)
      else (0, t\<lparr>tot_tbl_ents := of_nat (b + x), table_entries := of_nat b,
               expn_table_entries := of_nat x\<rparr>))"
proof (cases "unat num > 5120")
  case True
  then show ?thesis by (simp add: ipa_table_calculate_entries_num_def)
next
  case False
  define n where "n = unat num"
  have n: "n \<le> 5120" using False by (simp add: n_def)
  have ub: "unat (base_share nmi n) = (if nmi = IPA_NAT_MEM_IN_SRAM then n else 4 * n div 5)"
    using n by (simp add: base_share_eq)
  have ux: "unat (expn_share nmi n) = (if nmi = IPA_NAT_MEM_IN_SRAM then 43 * n div 100 else n div 5)"
    using n by (simp add: expn_share_eq)
  have gb: "Get2PowerTightUpperBound (base_share nmi n) = int (base_want nmi n)"
    using n ub by (subst Get2Power_eq) (auto simp: base_want_def)
  have gx: "GetEvenTightUpperBound (expn_share nmi n) = int (expn_want nmi n)"
    by (simp add: GetEven_eq ux expn_want_def)
  have le: "base_want nmi n \<le> 8192" "expn_want nmi n \<le> 5122"
    using n by (simp_all add: base_want_le expn_want_le)
  then have tot: "ucast (of_nat (base_want nmi n) :: uint16) + ucast (of_nat (expn_want nmi n) :: uint16)
      = (of_nat (base_want nmi n + expn_want nmi n) :: uint32)"
    by (simp add: word_unat_eq_iff unat_word_ariths take_bit_nat_eq_self)
  have ut: "unat (of_nat (base_want nmi n + expn_want nmi n) :: uint32) = base_want nmi n + expn_want nmi n"
    using le by (intro unat_of_nat32) simp
  show ?thesis
    using False unfolding ipa_table_calculate_entries_num_def
    by (simp add: gb gx tot ut Let_def flip: n_def del: of_nat_add)
qed

lemma base_want_fits: "base_want nmi n + expn_want nmi n \<le> 5120 \<Longrightarrow> base_want nmi n \<le> 4096"
proof (rule ccontr)
  assume a: "base_want nmi n + expn_want nmi n \<le> 5120" "\<not> base_want nmi n \<le> 4096"
  obtain k where k: "base_want nmi n = 2 ^ k" by (simp add: base_want_def pow2_ceil_def)
  with a(2) have "(2 :: nat) ^ 12 < 2 ^ k" by simp
  then have "12 < k" by (rule power_less_imp_less_exp [rotated]) simp
  then have "(2 :: nat) ^ 13 \<le> 2 ^ k" by (intro power_increasing) auto
  with a(1) k show False by simp
qed


section \<open>The number of entries that fits into SRAM\<close>

text \<open>The tables for \<open>tot\<close> entries, one of records of \<open>sz1\<close> bytes and one of \<open>sz2\<close> bytes, fit.\<close>

definition sram_fits :: "uint32 \<Rightarrow> uint32 \<Rightarrow> uint32 \<Rightarrow> uint16 \<Rightarrow> bool" where
  "sram_fits sram_size sz1 sz2 tot \<longleftrightarrow> (of_int (sram_try_size sz1 sz2 tot) :: uint32) \<le> sram_size"


lemma sram_try_size_top:
  assumes "unat sz1 + unat sz2 \<le> 4096"
  shows "(unat sz1 + unat sz2) * 32768 \<le> unat (of_int (sram_try_size sz1 sz2 32768) :: uint32)"
proof -
  define te :: uint16 where "te = of_int (Get2PowerTightUpperBound (fp_scale 53 1 0 32768))"
  define xe :: uint16 where
    "xe = of_int (GetEvenTightUpperBound (fp_scale 53 7746191359077253 54 32768))"
  have "fp_scale 53 1 0 32768 = of_nat 32768" by (rule fp_scale_one) simp
  moreover have "pow2_ceil 32768 = 2 ^ 15"
  proof (rule pow2_ceil_eqI)
    fix j assume "32768 \<le> (2 :: nat) ^ j"
    then have "(2 :: nat) ^ 15 \<le> 2 ^ j" by simp
    then show "15 \<le> j" by (simp only: two_power_le_iff)
  qed simp_all
  ultimately have te: "te = 32768" by (simp add: te_def Get2Power_eq)
  have sint_small: "sint z = int (unat z)" if "unat z \<le> 4096" for z :: uint32
  proof -
    have "signed_take_bit 31 (int k) = int k" if "k \<le> 4096" for k :: nat
      by (rule signed_take_bit_int_eq_self) (use that in simp_all)
    from this [OF that] have "signed_take_bit 31 (uint z) = int (unat z)" by (simp only: uint_nat)
    then show ?thesis by (simp only: sint_uint) simp
  qed
  then have sz: "sint sz1 = uint sz1" "sint sz2 = uint sz2"
    using assms by simp_all
  have u: "unat (32768 :: uint16) = 32768" by simp
  have v: "uint (32768 :: uint16) = 32768" by simp
  have int_unat: "int (unat z) = uint z" for z :: "'a::len word" by simp
  have e: "sram_try_size sz1 sz2 32768 = int ((unat sz1 + unat sz2) * (32768 + unat xe))"
    unfolding sram_try_size_def Let_def ipa_table_calculate_size_def u te_def [symmetric] xe_def [symmetric]
    by (simp add: ipa_table_init_def) (simp only: sz te v of_nat_add of_nat_mult of_nat_numeral int_unat algebra_simps)
  have "(unat sz1 + unat sz2) * (32768 + unat xe) \<le> 4096 * (32768 + 65536)"
    by (rule mult_le_mono) (use assms less_imp_le [OF unat16_less, of xe] in simp_all)
  then have "unat (of_nat ((unat sz1 + unat sz2) * (32768 + unat xe)) :: uint32)
      = (unat sz1 + unat sz2) * (32768 + unat xe)"
    by (intro unat_of_nat32) simp
  then show ?thesis unfolding e of_int_of_nat_eq by (simp only: mult_le_mono2 le_add1)
qed

lemma sram_loop_step:
  "sram_loop sram sz1 sz2 tot num =
     (if sram_fits sram sz1 sz2 tot then sram_loop sram sz1 sz2 (tot + 1) tot else Some num)"
  by (subst sram_loop.simps) (auto simp: sram_fits_def not_less)

lemma sram_loop_first:
  assumes "\<not> sram_fits sram sz1 sz2 (of_nat M)"
  shows "m < M \<Longrightarrow> \<exists>n. m \<le> n \<and> n < M \<and> sram_loop sram sz1 sz2 (of_nat m + 1) (of_nat m) = Some (of_nat n) \<and>
    (\<forall>i. m < i \<and> i \<le> n \<longrightarrow> sram_fits sram sz1 sz2 (of_nat i)) \<and> \<not> sram_fits sram sz1 sz2 (of_nat (Suc n))"
proof (induction "M - m" arbitrary: m)
  case 0
  then show ?case by simp
next
  case (Suc d)
  have sm: "of_nat m + 1 = (of_nat (Suc m) :: uint16)" by simp
  show ?case
  proof (cases "sram_fits sram sz1 sz2 (of_nat (Suc m))")
    case False
    then show ?thesis using Suc.prems unfolding sm sram_loop_step [of _ _ _ "of_nat (Suc m)"]
      by (intro exI [of _ m]) auto
  next
    case True
    with assms have "Suc m \<noteq> M" by metis
    with Suc obtain n where n: "Suc m \<le> n" "n < M"
        "sram_loop sram sz1 sz2 (of_nat (Suc m) + 1) (of_nat (Suc m)) = Some (of_nat n)"
        "\<forall>i. Suc m < i \<and> i \<le> n \<longrightarrow> sram_fits sram sz1 sz2 (of_nat i)"
        "\<not> sram_fits sram sz1 sz2 (of_nat (Suc n))"
      using Suc.hyps(1) [of "Suc m"] by force
    have "\<forall>i. m < i \<and> i \<le> n \<longrightarrow> sram_fits sram sz1 sz2 (of_nat i)"
      using True n(4) by (metis Suc_leI le_neq_implies_less)
    with n True show ?thesis unfolding sm sram_loop_step [of _ _ _ "of_nat (Suc m)"]
      by (intro exI [of _ n]) auto
  qed
qed

lemma calc_num_sram_eq:
  assumes "unat sz1 + unat sz2 \<le> 4096" "unat sram < (unat sz1 + unat sz2) * 32768"
  shows "\<exists>n < 32768. ipa_calc_num_sram_table_entries sram sz1 sz2 = Some (if n = 0 then - 1 else 0, of_nat n)
    \<and> (\<forall>i. 1 \<le> i \<and> i \<le> n \<longrightarrow> sram_fits sram sz1 sz2 (of_nat i))
    \<and> \<not> sram_fits sram sz1 sz2 (of_nat (Suc n))"
proof -
  have "\<not> sram_fits sram sz1 sz2 (of_nat 32768)"
    using sram_try_size_top [OF assms(1)] assms(2)
    by (simp add: sram_fits_def word_le_nat_alt)
  note sram_loop_first [OF this, of 0, unfolded semiring_1_class.of_nat_0 add_0, OF zero_less_numeral]
  then obtain n where n: "n < 32768"
      "sram_loop sram sz1 sz2 1 0 = Some (of_nat n)"
      "\<forall>i. 0 < i \<and> i \<le> n \<longrightarrow> sram_fits sram sz1 sz2 (of_nat i)"
      "\<not> sram_fits sram sz1 sz2 (of_nat (Suc n))"
    by (elim exE conjE, intro that) (simp_all only: semiring_1_class.of_nat_0 add_0)
  have "of_nat n = (0 :: uint16) \<longleftrightarrow> n = 0" using n(1) by (simp add: word_unat_eq_iff)
  with n(2) have "ipa_calc_num_sram_table_entries sram sz1 sz2 = Some (if n = 0 then - 1 else 0, of_nat n)"
    by (simp add: ipa_calc_num_sram_table_entries_def)
  with n(1,3,4) show ?thesis by (metis Suc_le_eq One_nat_def)
qed

section \<open>Rule handles\<close>

lemma hdl_decode:
  assumes x: "unat (x :: uint16) < 4096" and b: "b = 0 \<or> b = 1" and m: "m = 0 \<or> m = 1"
  defines "h \<equiv> ucast (push_bit 1 x OR b OR push_bit 15 m) :: uint32"
  shows "drop_bit 15 h AND 1 = ucast m" "h AND 1 = ucast b" "ucast (drop_bit 1 h AND 0xFFF) = x"
proof -
  have "take_bit 12 x = x"
    using x by (simp add: word_unat_eq_iff unsigned_take_bit_eq take_bit_nat_eq_self)
  then have bx: "\<not> bit x n" if "12 \<le> n" for n
    by (metis bit_take_bit_iff linorder_not_le that)
  then have bx': "bit x n \<Longrightarrow> n < 12" for n by (meson linorder_not_le)
  have b0: "bit b n \<longleftrightarrow> b = 1 \<and> n = 0" for n using b by (auto simp: bit_1_iff)
  have m0: "bit m n \<longleftrightarrow> m = 1 \<and> n = 0" for n using m by (auto simp: bit_1_iff)
  have F: "(0xFFF :: uint32) = mask 12" by (simp add: mask_eq_exp_minus_1)
  have O: "(1 :: uint32) = mask 1" by (simp add: mask_eq_exp_minus_1)
  have bh: "bit h n \<longleftrightarrow> n < 16 \<and> (1 \<le> n \<and> bit x (n - 1) \<or> b = 1 \<and> n = 0 \<or> m = 1 \<and> n = 15)" for n
  proof -
    define y z where "y = push_bit 1 x" and "z = push_bit 15 m"
    have y: "bit y n \<longleftrightarrow> 1 \<le> n \<and> n < 16 \<and> bit x (n - 1)"
      unfolding y_def by (subst bit_push_bit_iff) simp
    have z: "bit z n \<longleftrightarrow> m = 1 \<and> n = 15"
      unfolding z_def by (subst bit_push_bit_iff) (auto simp: m0)
    have "h = ucast (y OR b OR z)" by (simp add: h_def y_def z_def)
    then show ?thesis by (auto simp: bit_simps y z b0)
  qed
  show "drop_bit 15 h AND 1 = ucast m"
    unfolding O by (rule bit_word_eqI) (auto simp: bh bit_simps m0 bx)
  show "h AND 1 = ucast b"
    unfolding O by (rule bit_word_eqI) (auto simp: bh bit_simps b0 bx)
  show "ucast (drop_bit 1 h AND 0xFFF) = x"
    unfolding F by (rule bit_word_eqI) (auto simp: bh bit_simps not_le dest: bx' less_le_trans)
qed


text \<open>A table whose handles the 12 index bits can carry, as every table of at most 5120 slots.\<close>

definition tbl_sized :: "'e ipa_table \<Rightarrow> bool" where
  "tbl_sized t \<longleftrightarrow> unat (table_entries t) \<le> 4096 \<and> unat (expn_table_entries t) \<le> 4096 \<and>
     tab_sz t \<le> IPA_TABLE_MAX_ENTRIES \<and> tot_tbl_ents t = of_nat (tab_sz t)"

lemma break_make_hdl:
  assumes "tbl_sized t" "unat i < tab_sz t"
  shows "BREAK_RULE_HDL t (ucast (MakeEntryHdl t i)) =
    (nmi_bit (tbl_nmi t), (if i \<ge> table_entries t then 1 else 0), i)"
proof -
  define x where "x = (if i \<ge> table_entries t then i - table_entries t else i)"
  define b :: uint16 where "b = (if i \<ge> table_entries t then 1 else 0)"
  define m :: uint16 where "m = nmi_bit (tbl_nmi t)"
  have m: "m = 0 \<or> m = 1" "ucast m = (nmi_bit (tbl_nmi t) :: uint32)"
    by (cases "tbl_nmi t"; simp add: m_def)+
  have b: "b = 0 \<or> b = 1" by (simp add: b_def)
  have x: "unat x < 4096"
    using assms by (auto simp: x_def tbl_sized_def tab_sz_def unat_sub word_le_nat_alt)
  have M: "MakeEntryHdl t i = push_bit 1 x OR b OR push_bit 15 m"
    unfolding MakeEntryHdl_def Let_def IPA_TABLE_TYPE_BITS_def IPA_TABLE_TYPE_MEM_SHIFT_def x_def b_def m_def
    by (cases "i \<ge> table_entries t") (simp_all only: if_True if_False or.assoc or.left_neutral)
  note D = hdl_decode [OF x b m(1)]
  show ?thesis
    unfolding BREAK_RULE_HDL_def Let_def IPA_TABLE_TYPE_BITS_def IPA_TABLE_TYPE_MEM_SHIFT_def M D m(2)
    by (simp add: x_def b_def)
qed

lemma get_entry_made_hdl:
  assumes "tbl_sized t" "unat i < tab_sz t"
  shows "ipa_table_get_entry t (ucast (MakeEntryHdl t i)) = (0, Some i, i)"
proof -
  have "tot_tbl_ents t = of_nat (tab_sz t)" "tab_sz t < 4294967296"
    using assms(1) by (auto simp: tbl_sized_def)
  then have "\<not> tot_tbl_ents t \<le> ucast i" 
    using assms(2) by (simp add: word_le_nat_alt)
  then show ?thesis by (simp add: ipa_table_get_entry_def break_make_hdl [OF assms])
qed

lemma made_hdl_nonzero:
  assumes "tbl_sized t" "unat i < tab_sz t" "i \<noteq> 0"
  shows "ucast (MakeEntryHdl t i) \<noteq> (0 :: uint32)"
proof
  assume "ucast (MakeEntryHdl t i) = (0 :: uint32)"
  with break_make_hdl [OF assms(1,2)] have "BREAK_RULE_HDL t 0 = (nmi_bit (tbl_nmi t), (if i \<ge> table_entries t then 1 else 0), i)"
    by simp
  moreover have "BREAK_RULE_HDL t 0 = (0, 0, 0)" by (simp add: BREAK_RULE_HDL_def)
  ultimately show False using assms(3) by simp
qed

lemma calculate_entries_num_sized:
  assumes "ipa_table_calculate_entries_num t num nmi = (0, t')"
  shows "tbl_sized t'" "2 \<le> table_entries t'" "2 \<le> expn_table_entries t'"
    "\<exists>k. 1 \<le> k \<and> k \<le> 12 \<and> unat (table_entries t') = 2 ^ k"
proof -
  define b x where "b = base_want nmi (unat num)" and "x = expn_want nmi (unat num)"
  from assms have num: "unat num \<le> 5120" "b + x \<le> 5120"
    and t': "t' = t\<lparr>tot_tbl_ents := of_nat (b + x), table_entries := of_nat b, expn_table_entries := of_nat x\<rparr>"
    by (auto simp: calculate_entries_num_eq b_def x_def Let_def simp del: of_nat_add split: if_splits)
  have b: "b \<le> 4096" using num base_want_fits by (simp add: b_def x_def)
  have x: "x \<le> 4096" "2 \<le> x"
    using num(1) even_ceil_bounds(2,3) [of "if nmi = IPA_NAT_MEM_IN_SRAM then 43 * unat num div 100 else unat num div 5"]
    by (auto simp: x_def expn_want_def split: if_splits)
  have u: "unat (of_nat b :: uint16) = b" "unat (of_nat x :: uint16) = x" using b x by simp_all
  show "tbl_sized t'" using b x num u by (simp add: tbl_sized_def tab_sz_def t' del: of_nat_add)
  obtain k where k: "b = 2 ^ k" by (simp add: b_def base_want_def pow2_ceil_def)
  have b2: "2 \<le> b" using pow2_ceil_bounds(2) by (simp add: b_def base_want_def)
  show "2 \<le> table_entries t'" "2 \<le> expn_table_entries t'"
    using b2 x(2) u by (simp_all add: t' word_le_nat_alt)
  have "1 \<le> k" using b2 k by (cases k) auto
  moreover have "k \<le> 12" 
  proof -
    have "(2 :: nat) ^ k \<le> 2 ^ 12" using b k by simp
    then show ?thesis by (simp only: two_power_le_iff)
  qed
  ultimately show "\<exists>k. 1 \<le> k \<and> k \<le> 12 \<and> unat (table_entries t') = 2 ^ k" using k u by (auto simp: t')
qed
end
