(* ===== verification/Ipa_Mem_Descriptor.thy ===== *)
theory Ipa_Mem_Descriptor
  imports Ipa_Table
begin

text \<open>
  The memory descriptor of \<open>ipa_mem_descriptor.c\<close>: the kernel allocates the memory of a table (in
  SRAM when it fits and the owner allows it, in DDR otherwise) and the library maps it.  The lemmas
  give the outcome of an allocation and follow the kernel allocations and mappings it makes.
\<close>

record ipa_mem_descriptor =
  orig_rqst_size :: int
  mmap_size :: int
  base_addr :: uint64
  mmap_addr :: uint64
  addr_offset :: uint32
  table_dev :: table_kind
  desc_name :: string
  table_index :: uint8
  md_valid :: bool
  consider_using_sram :: bool
  sram_available :: bool
  sram_to_be_used :: bool
  nat_sram_info :: ipa_nat_in_sram_info

text \<open>The all-zero descriptor (\<open>memset\<close>); its device number has no meaning.\<close>

definition mem_desc_zero :: ipa_mem_descriptor where
  "mem_desc_zero = \<lparr>orig_rqst_size = 0, mmap_size = 0, base_addr = 0, mmap_addr = 0, addr_offset = 0,
     table_dev = NAT_TABLE_DEV, desc_name = [], table_index = 0, md_valid = False,
     consider_using_sram = False, sram_available = False, sram_to_be_used = False,
     nat_sram_info = sram_info_zero\<rparr>"

abbreviation (input) IPA_DEV_DIR :: string where "IPA_DEV_DIR \<equiv> ''/dev/''"
abbreviation (input) MAP_FAILED :: uint64 where "MAP_FAILED \<equiv> - 1"

text \<open>The two \<open>ioctl\<close> numbers of a descriptor select the allocate and delete request of one device.\<close>

definition ipa_mem_descriptor_init ::
    "ipa_mem_descriptor \<Rightarrow> string \<Rightarrow> int \<Rightarrow> uint8 \<Rightarrow> table_kind \<Rightarrow> bool \<Rightarrow> ipa_mem_descriptor" where
  "ipa_mem_descriptor_init desc device_name sz tbl_index dev use_sram =
     desc\<lparr>desc_name := strlcpy device_name IPA_RESOURCE_NAME_MAX, orig_rqst_size := sz, mmap_size := sz,
       table_index := tbl_index, table_dev := dev, consider_using_sram := use_sram\<rparr>"

definition AllocateMemory ::
    "('w, 'm) ipa_os \<Rightarrow> ipa_mem_descriptor \<Rightarrow> int \<Rightarrow> 'w \<Rightarrow> (int \<times> ipa_mem_descriptor) \<times> 'w" where
  "AllocateMemory os desc ipa_fd w =
     (let desc = desc\<lparr>sram_available := False, sram_to_be_used := False, nat_sram_info := sram_info_zero\<rparr>;
          ((ret, info), w) = os_sram_info os ipa_fd w;
          desc = (if ret = 0 then
                    desc\<lparr>nat_sram_info := info, sram_available := True,
                      sram_to_be_used := consider_using_sram desc \<and>
                        (of_int (orig_rqst_size desc) :: uint32) \<le> sram_mem_available_for_nat info\<rparr>
                  else desc);
          ((ret, cmd_offset), w) = os_alloc_table os ipa_fd (table_dev desc) (orig_rqst_size desc) w
      in if ret \<noteq> 0 then ((ret, desc), w)
         else ((ret, desc\<lparr>addr_offset := cmd_offset\<rparr>), w))"

definition MapMemory ::
    "('w, 'm) ipa_os \<Rightarrow> ipa_mem_descriptor \<Rightarrow> int \<Rightarrow> 'w \<Rightarrow> (int \<times> ipa_mem_descriptor) \<times> 'w" where
  "MapMemory os desc ipa_fd w =
     (let dir_len = length IPA_DEV_DIR in
      if dir_len \<ge> IPA_RESOURCE_NAME_MAX then ((- EINVAL, desc), w)
      else
        let path = strlcpy IPA_DEV_DIR IPA_RESOURCE_NAME_MAX @
                   strlcpy (desc_name desc) (IPA_RESOURCE_NAME_MAX - dir_len);
            (device_fd, w) = os_open os path w
        in if device_fd < 0 then ((- EIO, desc), w)
        else
          let desc = desc\<lparr>mmap_size := (if sram_to_be_used desc
                then sint (best_nat_in_sram_size_rqst (nat_sram_info desc)) else orig_rqst_size desc)\<rparr>;
              (addr, w) = os_mmap os device_fd (mmap_size desc) w;
              a = (case addr of None \<Rightarrow> MAP_FAILED | Some a \<Rightarrow> a);
              desc = desc\<lparr>mmap_addr := a, base_addr := a\<rparr>;
              ret = (if addr = None then - EINVAL else 0);
              desc = (if addr \<noteq> None \<and> sram_to_be_used desc
                      then desc\<lparr>base_addr := base_addr desc + ucast (nat_table_offset_into_mmap (nat_sram_info desc))\<rparr>
                      else desc);
              (c, w) = os_close os device_fd w
          in ((if c \<noteq> 0 then - EINVAL else ret, desc), w))"

definition DeallocateMemory ::
    "('w, 'm) ipa_os \<Rightarrow> ipa_mem_descriptor \<Rightarrow> int \<Rightarrow> 'w \<Rightarrow> int \<times> 'w" where
  "DeallocateMemory os desc ipa_fd w =
     os_del_table os ipa_fd (table_dev desc) (table_index desc)
       (if sram_to_be_used desc then IPA_NAT_MEM_IN_SRAM else IPA_NAT_MEM_IN_DDR) w"

definition ipa_mem_descriptor_allocate_memory ::
    "('w, 'm) ipa_os \<Rightarrow> ipa_mem_descriptor \<Rightarrow> int \<Rightarrow> 'w \<Rightarrow> (int \<times> ipa_mem_descriptor) \<times> 'w" where
  "ipa_mem_descriptor_allocate_memory os desc ipa_fd w =
     (let ((ret, desc), w) = AllocateMemory os desc ipa_fd w in
      if ret \<noteq> 0 then ((ret, desc), w)
      else
        let ((ret, desc), w) = MapMemory os desc ipa_fd w in
        if ret \<noteq> 0 then ((ret, desc), snd (DeallocateMemory os desc ipa_fd w))
        else ((0, desc\<lparr>md_valid := True\<rparr>), w))"

definition ipa_mem_descriptor_delete ::
    "('w, 'm) ipa_os \<Rightarrow> ipa_mem_descriptor \<Rightarrow> int \<Rightarrow> 'w \<Rightarrow> (int \<times> ipa_mem_descriptor) \<times> 'w" where
  "ipa_mem_descriptor_delete os desc ipa_fd w =
     (if \<not> md_valid desc then ((- EINVAL, desc), w)
      else
        let desc = desc\<lparr>md_valid := False\<rparr>;
            w = os_munmap os (mmap_addr desc) (mmap_size desc) w;
            (ret, w) = DeallocateMemory os desc ipa_fd w
        in ((ret, desc), w))"

section \<open>Outcome of an allocation\<close>

lemmas mem_desc_simps = AllocateMemory_def MapMemory_def DeallocateMemory_def
  ipa_mem_descriptor_allocate_memory_def ipa_mem_descriptor_delete_def Let_def

lemma AllocateMemory_fields:
  assumes "AllocateMemory os desc fd w = ((ret, desc'), w')"
  shows "table_dev desc' = table_dev desc" "table_index desc' = table_index desc" "desc_name desc' = desc_name desc"
    "orig_rqst_size desc' = orig_rqst_size desc" "consider_using_sram desc' = consider_using_sram desc"
    "md_valid desc' = md_valid desc"
    "sram_to_be_used desc' \<longrightarrow> consider_using_sram desc \<and> sram_available desc' \<and>
      (of_int (orig_rqst_size desc) :: uint32) \<le> sram_mem_available_for_nat (nat_sram_info desc')"
  using assms by (auto simp: AllocateMemory_def Let_def split: prod.splits if_splits)

lemma MapMemory_fields:
  assumes "MapMemory os desc fd w = ((ret, desc'), w')"
  shows "table_dev desc' = table_dev desc" "table_index desc' = table_index desc" "desc_name desc' = desc_name desc"
    "orig_rqst_size desc' = orig_rqst_size desc" "consider_using_sram desc' = consider_using_sram desc"
    "md_valid desc' = md_valid desc" "sram_to_be_used desc' = sram_to_be_used desc"
    "sram_available desc' = sram_available desc" "nat_sram_info desc' = nat_sram_info desc"
    "addr_offset desc' = addr_offset desc"
    "ret = 0 \<longrightarrow> base_addr desc' = mmap_addr desc' +
      (if sram_to_be_used desc then ucast (nat_table_offset_into_mmap (nat_sram_info desc)) else 0) \<and>
      (\<not> sram_to_be_used desc \<longrightarrow> mmap_size desc' = orig_rqst_size desc)"
  using assms by (auto simp: MapMemory_def Let_def split: prod.splits if_splits option.splits)

text \<open>An allocation that succeeds is one of both steps.\<close>

lemma allocate_memory_cases:
  assumes "ipa_mem_descriptor_allocate_memory os desc fd w = ((ret, desc'), w')"
  obtains (alloc) "AllocateMemory os desc fd w = ((ret, desc'), w')" "ret \<noteq> 0"
  | (map) d1 w1 w2 r where "AllocateMemory os desc fd w = ((0, d1), w1)" "MapMemory os d1 fd w1 = ((ret, desc'), w2)"
      "ret \<noteq> 0" "DeallocateMemory os desc' fd w2 = (r, w')"
  | (ok) d1 w1 d2 where "AllocateMemory os desc fd w = ((0, d1), w1)" "MapMemory os d1 fd w1 = ((0, d2), w')"
      "ret = 0" "desc' = d2\<lparr>md_valid := True\<rparr>"
proof -
  obtain r d1 w1 where A: "AllocateMemory os desc fd w = ((r, d1), w1)" by (metis surj_pair)
  obtain q d2 w2 where M: "MapMemory os d1 fd w1 = ((q, d2), w2)" by (metis surj_pair)
  obtain z w3 where D: "DeallocateMemory os d2 fd w2 = (z, w3)" by (metis surj_pair)
  show thesis
    using assms A M D alloc map ok
    by (auto simp: ipa_mem_descriptor_allocate_memory_def split: if_splits)
qed

lemma allocate_memory_fields:
  assumes "ipa_mem_descriptor_allocate_memory os desc fd w = ((ret, desc'), w')"
  shows "table_dev desc' = table_dev desc \<and> table_index desc' = table_index desc \<and>
    orig_rqst_size desc' = orig_rqst_size desc \<and> md_valid desc' = (md_valid desc \<or> ret = 0)"
  using assms
proof (cases rule: allocate_memory_cases)
  case alloc
  from AllocateMemory_fields [OF alloc(1)] alloc(2) show ?thesis by simp
next
  case (map d1 w1 w2 r)
  from AllocateMemory_fields [OF map(1)] MapMemory_fields [OF map(2)] map(3) show ?thesis by simp
next
  case (ok d1 w1 d2)
  from AllocateMemory_fields [OF ok(1)] MapMemory_fields [OF ok(2)] ok(3,4) show ?thesis by simp
qed

text \<open>SRAM is used only when the owner allows it and the table fits; otherwise the mapping is the table.\<close>

lemma allocate_memory_ok:
  assumes "ipa_mem_descriptor_allocate_memory os desc fd w = ((0, desc'), w')"
  shows "(sram_to_be_used desc' \<longrightarrow> consider_using_sram desc \<and> sram_available desc' \<and>
      (of_int (orig_rqst_size desc) :: uint32) \<le> sram_mem_available_for_nat (nat_sram_info desc')) \<and>
    base_addr desc' = mmap_addr desc' +
      (if sram_to_be_used desc' then ucast (nat_table_offset_into_mmap (nat_sram_info desc')) else 0) \<and>
    (\<not> sram_to_be_used desc' \<longrightarrow> mmap_size desc' = orig_rqst_size desc)"
  using assms
proof (cases rule: allocate_memory_cases)
  case (ok d1 w1 d2)
  from AllocateMemory_fields [OF ok(1)] MapMemory_fields [OF ok(2)] ok(4) show ?thesis by simp
qed simp_all

text \<open>The kernel allocates a table at offset 0 of its device.\<close>

definition alloc_spec :: "('w, 'm) ipa_os \<Rightarrow> bool" where
  "alloc_spec os \<longleftrightarrow> (\<forall>fd k n w. fst (fst (os_alloc_table os fd k n w)) = 0 \<longrightarrow>
     snd (fst (os_alloc_table os fd k n w)) = 0)"

lemma allocate_memory_offset:
  assumes "alloc_spec os" "ipa_mem_descriptor_allocate_memory os desc fd w = ((0, desc'), w')"
  shows "addr_offset desc' = 0 \<and> md_valid desc'"
  using assms(2)
proof (cases rule: allocate_memory_cases)
  case (ok d1 w1 d2)
  obtain r0 info u0 where i: "os_sram_info os fd w = ((r0, info), u0)" by (metis surj_pair)
  obtain r1 off1 u1 where a: "os_alloc_table os fd (table_dev desc) (orig_rqst_size desc) u0 = ((r1, off1), u1)"
    by (metis surj_pair)
  from ok(1) i a have "r1 = 0" "addr_offset d1 = off1"
    by (auto simp: AllocateMemory_def Let_def split: if_splits)
  moreover have "fst (fst (os_alloc_table os fd (table_dev desc) (orig_rqst_size desc) u0)) = 0 \<longrightarrow>
      snd (fst (os_alloc_table os fd (table_dev desc) (orig_rqst_size desc) u0)) = 0"
    using assms(1) unfolding alloc_spec_def by blast
  ultimately have "addr_offset d1 = 0" using a by simp
  then show ?thesis using MapMemory_fields(10) [OF ok(2)] ok(4) by simp_all
qed simp_all

section \<open>What the kernel is asked to do\<close>

text \<open>
  The same system with a log of the calls that take or give back a resource.  The log is what the
  library does; the system below it is any system.
\<close>

datatype os_event =
    EvAlloc table_kind bool
  | EvDel table_kind bool
  | EvMap bool
  | EvUnmap
  | EvOpen bool
  | EvClose

definition logged :: "('w, 'm) ipa_os \<Rightarrow> ('w \<times> os_event list, 'm) ipa_os" where
  "logged os = \<lparr>
     os_lock = (\<lambda>(w, l). let (r, w) = os_lock os w in (r, w, l)),
     os_unlock = (\<lambda>(w, l). let (r, w) = os_unlock os w in (r, w, l)),
     os_mutex_init = (\<lambda>(w, l). let (r, w) = os_mutex_init os w in (r, w, l)),
     os_calloc = (\<lambda>n (w, l). let (r, w) = os_calloc os n w in (r, w, l)),
     os_open = (\<lambda>p (w, l). let (r, w) = os_open os p w in (r, w, l @ [EvOpen (r \<ge> 0)])),
     os_close = (\<lambda>fd (w, l). let (r, w) = os_close os fd w in (r, w, l @ [EvClose])),
     os_mmap = (\<lambda>fd n (w, l). let (r, w) = os_mmap os fd n w in (r, w, l @ [EvMap (r \<noteq> None)])),
     os_munmap = (\<lambda>a n (w, l). (os_munmap os a n w, l @ [EvUnmap])),
     os_hw_version = (\<lambda>fd (w, l). let (r, w) = os_hw_version os fd w in (r, w, l)),
     os_sram_info = (\<lambda>fd (w, l). let (r, w) = os_sram_info os fd w in (r, w, l)),
     os_alloc_table = (\<lambda>fd k n (w, l). let (r, w) = os_alloc_table os fd k n w in (r, w, l @ [EvAlloc k (fst r = 0)])),
     os_del_table = (\<lambda>fd k i m (w, l). let (r, w) = os_del_table os fd k i m w in (r, w, l @ [EvDel k (r = 0)])),
     os_v4_init_nat = (\<lambda>fd c (w, l). let (r, w) = os_v4_init_nat os fd c w in (r, w, l)),
     os_init_ipv6ct = (\<lambda>fd c (w, l). let (r, w) = os_init_ipv6ct os fd c w in (r, w, l)),
     os_modify_pdn = (\<lambda>fd c (w, l). let (r, w) = os_modify_pdn os fd c w in (r, w, l)),
     os_clock_vote = (\<lambda>fd v (w, l). let (r, w) = os_clock_vote os fd v w in (r, w, l)),
     os_dma = (\<lambda>fd c m (w, l). let (r, w) = os_dma os fd c m w in (r, w, l))\<rparr>"

fun is_alloc where "is_alloc (EvAlloc k ok) = ok" | "is_alloc _ = False"
fun is_del where "is_del (EvDel k ok) = True" | "is_del _ = False"
fun is_map where "is_map (EvMap ok) = ok" | "is_map _ = False"
fun is_unmap where "is_unmap EvUnmap = True" | "is_unmap _ = False"
fun is_open where "is_open (EvOpen ok) = ok" | "is_open _ = False"
fun is_close where "is_close EvClose = True" | "is_close _ = False"

definition evs :: "(os_event \<Rightarrow> bool) \<Rightarrow> os_event list \<Rightarrow> nat" where
  "evs p l = length (filter p l)"

text \<open>
  Every allocation the kernel granted is either kept by a valid descriptor or given back, and the
  device file that was opened for the mapping is closed.
\<close>

lemma AllocateMemory_log:
  assumes "AllocateMemory (logged os) desc fd (w, l) = ((ret, desc'), (w', l'))"
  shows "l' = l @ [EvAlloc (table_dev desc) (ret = 0)]"
  using assms by (auto simp: AllocateMemory_def logged_def Let_def split: prod.splits if_splits)

lemma MapMemory_log:
  assumes "MapMemory (logged os) desc fd (w, l) = ((ret, desc'), (w', l'))"
  shows "(l' = l @ [EvOpen False] \<and> ret \<noteq> 0) \<or>
    (\<exists>ok. l' = l @ [EvOpen True, EvMap ok, EvClose] \<and> (ret = 0 \<longrightarrow> ok))"
  using assms by (auto simp: MapMemory_def logged_def Let_def split: prod.splits if_splits option.splits)

lemma DeallocateMemory_log:
  assumes "DeallocateMemory (logged os) desc fd (w, l) = (ret, (w', l'))"
  shows "l' = l @ [EvDel (table_dev desc) (ret = 0)]"
  using assms by (auto simp: DeallocateMemory_def logged_def split: prod.splits)

lemma allocate_memory_log:
  assumes "ipa_mem_descriptor_allocate_memory (logged os) desc fd (w, l) = ((ret, desc'), (w', l'))"
  shows "evs is_alloc l' + evs is_del l = evs is_alloc l + evs is_del l' + (if ret = 0 then 1 else 0) \<and>
    evs is_open l' + evs is_close l = evs is_open l + evs is_close l' \<and>
    (ret = 0 \<longrightarrow> evs is_map l' = evs is_map l + 1) \<and> evs is_unmap l' = evs is_unmap l"
  using assms
proof (cases rule: allocate_memory_cases)
  case alloc
  from AllocateMemory_log [OF alloc(1)] alloc(2) show ?thesis by (simp add: evs_def)
next
  case (map d1 w1 w2 r)
  obtain u1 l1 u2 l2 where w: "w1 = (u1, l1)" "w2 = (u2, l2)" by (metis surj_pair)
  from AllocateMemory_log [OF map(1) [unfolded w]] MapMemory_log [OF map(2) [unfolded w]]
    DeallocateMemory_log [OF map(4) [unfolded w]] map(3)
  show ?thesis by (auto simp: evs_def)
next
  case (ok d1 w1 d2)
  obtain u1 l1 where w: "w1 = (u1, l1)" by (metis surj_pair)
  from AllocateMemory_log [OF ok(1) [unfolded w]] MapMemory_log [OF ok(2) [unfolded w]] ok(3)
  show ?thesis by (auto simp: evs_def)
qed

lemma delete_log:
  assumes "ipa_mem_descriptor_delete (logged os) desc fd (w, l) = ((ret, desc'), (w', l'))"
  shows "\<not> md_valid desc'" "evs is_alloc l' = evs is_alloc l" "evs is_map l' = evs is_map l"
    "evs is_del l' = evs is_del l + (if md_valid desc then 1 else 0)"
    "evs is_unmap l' = evs is_unmap l + (if md_valid desc then 1 else 0)"
  using assms
  by (auto simp: mem_desc_simps logged_def evs_def split: prod.splits if_splits option.splits)

end
