(* ===== verification/Ipa_Sim_Os.thy ===== *)
theory Ipa_Sim_Os
  imports Ipa_Mem_Descriptor Ipa_Table_Sizing
begin

text \<open>
  A concrete system in which every request succeeds, with the effect of DMA commands as a
  parameter.  The properties are proved for every system; this one is the concrete input at which
  their hypotheses are shown to hold together.
\<close>

definition sim_os :: "(int \<Rightarrow> ipa_ioc_nat_dma_cmd \<Rightarrow> 'm \<Rightarrow> 'w \<Rightarrow> (int \<times> 'm) \<times> 'w) \<Rightarrow> ('w, 'm) ipa_os" where
  "sim_os dma = \<lparr>
     os_lock = (\<lambda>w. (0, w)), os_unlock = (\<lambda>w. (0, w)), os_mutex_init = (\<lambda>w. (0, w)),
     os_calloc = (\<lambda>n w. (True, w)), os_open = (\<lambda>p w. (3, w)), os_close = (\<lambda>fd w. (0, w)),
     os_mmap = (\<lambda>fd n w. (Some 0x10000, w)), os_munmap = (\<lambda>a n w. w),
     os_hw_version = (\<lambda>fd w. ((0, 14), w)),
     os_sram_info = (\<lambda>fd w. ((0, \<lparr>sram_mem_available_for_nat = 0x2000, nat_table_offset_into_mmap = 0x40,
        best_nat_in_sram_size_rqst = 0x3000\<rparr>), w)),
     os_alloc_table = (\<lambda>fd k n w. ((0, 0), w)), os_del_table = (\<lambda>fd k i m w. (0, w)),
     os_v4_init_nat = (\<lambda>fd c w. (0, w)), os_init_ipv6ct = (\<lambda>fd c w. (0, w)),
     os_modify_pdn = (\<lambda>fd c w. (0, w)), os_clock_vote = (\<lambda>fd v w. (0, w)), os_dma = dma\<rparr>"

text \<open>The tables of a request for five entries.\<close>

lemma demo_sizes: "base_want IPA_NAT_MEM_IN_DDR 5 = 4" "expn_want IPA_NAT_MEM_IN_DDR 5 = 2"
  "base_want IPA_NAT_MEM_IN_SRAM 5 = 8" "expn_want IPA_NAT_MEM_IN_SRAM 5 = 2"
proof -
  have "pow2_ceil 4 = 2 ^ 2"
  proof (rule pow2_ceil_eqI)
    fix j :: nat assume "4 \<le> (2 :: nat) ^ j"
    then have "(2 :: nat) ^ 2 \<le> 2 ^ j" by simp
    then show "2 \<le> j" by (simp only: two_power_le_iff)
  qed simp_all
  moreover have "pow2_ceil 5 = 2 ^ 3"
  proof (rule pow2_ceil_eqI)
    fix j :: nat assume j: "5 \<le> (2 :: nat) ^ j"
    have "(2 :: nat) ^ j \<le> 2 ^ 2" if "j < 3" using that by (intro power_increasing) simp_all
    then show "3 \<le> j" using j by fastforce
  qed simp_all
  ultimately show "base_want IPA_NAT_MEM_IN_DDR 5 = 4" "base_want IPA_NAT_MEM_IN_SRAM 5 = 8" by (simp_all add: base_want_def)
  show "expn_want IPA_NAT_MEM_IN_DDR 5 = 2" "expn_want IPA_NAT_MEM_IN_SRAM 5 = 2" by (simp_all add: expn_want_def even_ceil_def)
qed

lemma demo_calc: "ipa_table_calculate_entries_num t 5 nmi = (0, case nmi of
    IPA_NAT_MEM_IN_DDR \<Rightarrow> t\<lparr>tot_tbl_ents := 6, table_entries := 4, expn_table_entries := 2\<rparr>
  | IPA_NAT_MEM_IN_SRAM \<Rightarrow> t\<lparr>tot_tbl_ents := 10, table_entries := 8, expn_table_entries := 2\<rparr>)"
  by (cases nmi) (simp_all add: calculate_entries_num_eq Let_def demo_sizes)

end
