(* ===== verification/Ipa_Table_Dma.thy ===== *)
theory Ipa_Table_Dma
  imports Ipa_Table_Sizing
begin

text \<open>
  What the DMA commands of the generic table do to the table memory.  The library only composes
  the commands; the effect of one write is the documented behaviour of the hardware: it stores
  the 16-bit \<open>data\<close> at byte \<open>offset\<close> of the table that \<open>base_addr\<close> selects.  How a 16-bit write at a
  byte of a record changes its fields is given by the layout of the record (\<open>fw\<close>, undefined at
  bytes that no command of the library addresses).
\<close>

section \<open>The hardware\<close>

definition hw_write ::
    "('e \<Rightarrow> nat \<Rightarrow> uint16 \<Rightarrow> 'e option) \<Rightarrow> ipa_table_dma_type \<Rightarrow> ipa_table_dma_type \<Rightarrow>
     ipa_ioc_nat_dma_one \<Rightarrow> 'e ipa_table \<Rightarrow> 'e ipa_table option" where
  "hw_write fw bt xt one t =
     (if d_base_addr one \<noteq> bt \<and> d_base_addr one \<noteq> xt then Some t
      else
        let sz = nat (entry_size t);
            i = unat (d_offset one) div sz + (if d_base_addr one = xt then unat (table_entries t) else 0)
        in do {
          e \<leftarrow> arr_get (recs t) i;
          e' \<leftarrow> fw e (unat (d_offset one) mod sz) (d_data one);
          Some (t\<lparr>recs := (recs t)[i := e']\<rparr>)
        })"

primrec hw_writes ::
    "('e \<Rightarrow> nat \<Rightarrow> uint16 \<Rightarrow> 'e option) \<Rightarrow> ipa_table_dma_type \<Rightarrow> ipa_table_dma_type \<Rightarrow>
     ipa_ioc_nat_dma_one list \<Rightarrow> 'e ipa_table \<Rightarrow> 'e ipa_table option" where
  "hw_writes fw bt xt [] t = Some t"
| "hw_writes fw bt xt (one # rest) t = do { t' \<leftarrow> hw_write fw bt xt one t; hw_writes fw bt xt rest t' }"

lemma hw_writes_append:
  "hw_writes fw bt xt (a @ b) t = do { t' \<leftarrow> hw_writes fw bt xt a t; hw_writes fw bt xt b t' }"
  by (induction a arbitrary: t) (auto split: bind_splits)

lemma hw_writes_other:
  "(\<And>one. one \<in> set ws \<Longrightarrow> d_base_addr one \<noteq> bt \<and> d_base_addr one \<noteq> xt) \<Longrightarrow>
   hw_writes fw bt xt ws t = Some t"
  by (induction ws) (auto simp: hw_write_def)

text \<open>A write changes records only, and depends on the records, their size and the split.\<close>

lemma hw_write_recs: "hw_write fw bt xt one t = Some t' \<Longrightarrow> t' = t\<lparr>recs := recs t'\<rparr>"
  by (auto simp: hw_write_def Let_def split: if_splits bind_splits)

lemma hw_writes_recs: "hw_writes fw bt xt ws t = Some t' \<Longrightarrow> t' = t\<lparr>recs := recs t'\<rparr>"
proof (induction ws arbitrary: t)
  case (Cons one ws)
  then obtain t1 where "hw_write fw bt xt one t = Some t1" "hw_writes fw bt xt ws t1 = Some t'"
    by (auto split: bind_splits)
  with Cons.IH [OF this(2)] hw_write_recs [OF this(1)] show ?case
    by (metis (no_types, lifting) ipa_table.surjective ipa_table.update_convs(14))
qed simp

lemma hw_writes_cong:
  "recs s = recs t \<Longrightarrow> entry_size s = entry_size t \<Longrightarrow> table_entries s = table_entries t \<Longrightarrow>
   map_option recs (hw_writes fw bt xt ws s) = map_option recs (hw_writes fw bt xt ws t)"
proof (induction ws arbitrary: s t)
  case (Cons one ws)
  have "hw_write fw bt xt one s = (case hw_write fw bt xt one t of None \<Rightarrow> None | Some t1 \<Rightarrow> Some (s\<lparr>recs := recs t1\<rparr>))"
    using Cons.prems by (auto simp: hw_write_def Let_def split: if_splits bind_splits option.splits)
  then show ?case
    using Cons.prems by (auto split: option.splits intro!: Cons.IH dest: hw_write_recs)
      (metis hw_write_recs ipa_table.select_convs(3,4) ipa_table.surjective ipa_table.update_convs(14))+
qed simp

section \<open>Room in a command\<close>

definition dma_room :: "ipa_ioc_nat_dma_cmd \<Rightarrow> nat \<Rightarrow> bool" where
  "dma_room cmd n \<longleftrightarrow> unat (dma_entries cmd) + n \<le> length (dma_buf cmd) \<and> length (dma_buf cmd) < 256"

definition dma_push :: "ipa_ioc_nat_dma_cmd \<Rightarrow> ipa_ioc_nat_dma_one \<Rightarrow> ipa_ioc_nat_dma_cmd" where
  "dma_push cmd one = cmd\<lparr>dma_buf := (dma_buf cmd)[unat (dma_entries cmd) := one],
                          dma_entries := dma_entries cmd + 1\<rparr>"

lemma dma_push:
  assumes "dma_room cmd (Suc n)"
  shows "dma_posted (dma_push cmd one) = dma_posted cmd @ [one]" "dma_room (dma_push cmd one) n"
proof -
  have l: "unat (dma_entries cmd) < length (dma_buf cmd)" "length (dma_buf cmd) < 256"
    using assms by (auto simp: dma_room_def)
  then have e: "unat (dma_entries cmd + 1) = Suc (unat (dma_entries cmd))"
    by (simp add: unat_word_ariths)
  show "dma_posted (dma_push cmd one) = dma_posted cmd @ [one]"
    using l by (simp add: dma_posted_def dma_push_def e take_Suc_conv_app_nth)
  show "dma_room (dma_push cmd one) n"
    using assms by (simp add: dma_room_def dma_push_def e)
qed

lemma dma_room_mono: "dma_room cmd n \<Longrightarrow> m \<le> n \<Longrightarrow> dma_room cmd m"
  by (simp add: dma_room_def)

lemma dma_cmd_init: "cap < 256 \<Longrightarrow> dma_room (dma_cmd_init cap) cap" "dma_posted (dma_cmd_init cap) = []"
  by (simp_all add: dma_room_def dma_cmd_init_def dma_posted_def)

section \<open>The shape of a table\<close>

text \<open>
  A table the drivers have set up: records of \<open>esz\<close> bytes, the DMA helpers for its memory types
  \<open>bt\<close> (base) and \<open>xt\<close> (expansion) with the byte offsets \<open>off\<close> of the fields, the expansion table
  behind the base table, and the memory of the meta records where the table has them (\<open>idx\<close>).
\<close>

definition meta_fits :: "bool \<Rightarrow> uint16 list option \<Rightarrow> nat \<Rightarrow> bool" where
  "meta_fits idx m n \<longleftrightarrow> (case m of None \<Rightarrow> \<not> idx | Some xs \<Rightarrow> idx \<and> length xs = n)"

definition tbl_wf ::
    "int \<Rightarrow> ipa_table_dma_type \<Rightarrow> ipa_table_dma_type \<Rightarrow> (dma_help_type \<Rightarrow> nat) \<Rightarrow> bool \<Rightarrow>
     'e ipa_table \<Rightarrow> bool" where
  "tbl_wf esz bt xt off idx t \<longleftrightarrow>
     tbl_sized t \<and> entry_size t = esz \<and>
     (\<forall>ht \<in> {HELP_UPDATE_HEAD, HELP_UPDATE_ENTRY, HELP_DELETE_HEAD}.
        case dma_help t ht of None \<Rightarrow> False
        | Some h \<Rightarrow> h_offset h = of_nat (off ht) \<and> h_table_type h = bt \<and> h_expn_table_type h = xt) \<and>
     expn_table_addr t = table_addr t + of_int (esz * uint (table_entries t)) \<and>
     length (recs t) = tab_sz t \<and> 2 \<le> unat (table_entries t) \<and>
     meta_fits idx (tbl_meta t) (unat (expn_table_entries t))"

lemma tbl_wfD:
  assumes "tbl_wf esz bt xt off idx t"
  shows "tbl_sized t" "entry_size t = esz" "length (recs t) = tab_sz t"
    "meta_fits idx (tbl_meta t) (unat (expn_table_entries t))" "2 \<le> unat (table_entries t)"
    "unat (table_entries t) \<le> tab_sz t" "tab_sz t \<le> 5120" "tot_tbl_ents t = of_nat (tab_sz t)"
    "unat (tot_tbl_ents t) = tab_sz t"
    "expn_table_addr t = table_addr t + of_int (esz * uint (table_entries t))"
proof -
  show "tbl_sized t" "entry_size t = esz" "length (recs t) = tab_sz t"
    "meta_fits idx (tbl_meta t) (unat (expn_table_entries t))" "2 \<le> unat (table_entries t)"
    "expn_table_addr t = table_addr t + of_int (esz * uint (table_entries t))"
    using assms by (simp_all add: tbl_wf_def)
  then show "unat (table_entries t) \<le> tab_sz t" "tab_sz t \<le> 5120" "tot_tbl_ents t = of_nat (tab_sz t)"
    by (simp_all add: tbl_sized_def tab_sz_def)
  then show "unat (tot_tbl_ents t) = tab_sz t"
    using unat_of_nat32 [of "tab_sz t"] by simp
qed

lemma tbl_wf_help:
  assumes "tbl_wf esz bt xt off idx t"
  obtains h where "dma_help t ht = Some h" "h_offset h = of_nat (off ht)" "h_table_type h = bt" "h_expn_table_type h = xt"
  using assms by (cases ht) (auto simp: tbl_wf_def split: option.splits)

text \<open>Updating records, counters and meta records keeps the shape.\<close>

definition same_shape :: "'e ipa_table \<Rightarrow> 'e ipa_table \<Rightarrow> bool" where
  "same_shape t t' \<longleftrightarrow>
     tbl_name t' = tbl_name t \<and> tbl_nmi t' = tbl_nmi t \<and> entry_size t' = entry_size t \<and>
     table_entries t' = table_entries t \<and> expn_table_entries t' = expn_table_entries t \<and>
     tot_tbl_ents t' = tot_tbl_ents t \<and> table_addr t' = table_addr t \<and>
     expn_table_addr t' = expn_table_addr t \<and> dma_help t' = dma_help t \<and>
     meta_entry_size t' = meta_entry_size t \<and> length (recs t') = length (recs t)"

lemma same_shapeD:
  assumes "same_shape t t'"
  shows "tbl_nmi t' = tbl_nmi t" "entry_size t' = entry_size t" "table_entries t' = table_entries t"
    "expn_table_entries t' = expn_table_entries t" "tot_tbl_ents t' = tot_tbl_ents t"
    "table_addr t' = table_addr t" "expn_table_addr t' = expn_table_addr t" "dma_help t' = dma_help t"
    "length (recs t') = length (recs t)" "tab_sz t' = tab_sz t"
  using assms by (simp_all add: same_shape_def tab_sz_def)

lemma same_shape_refl: "same_shape t t"
  by (simp add: same_shape_def)

lemma same_shape_trans: "same_shape t t' \<Longrightarrow> same_shape t' t'' \<Longrightarrow> same_shape t t''"
  by (simp add: same_shape_def)

lemma tbl_wf_same_shape:
  "tbl_wf esz bt xt off idx t \<Longrightarrow> same_shape t t' \<Longrightarrow>
   meta_fits idx (tbl_meta t') (unat (expn_table_entries t)) \<Longrightarrow> tbl_wf esz bt xt off idx t'"
  by (simp add: tbl_wf_def tbl_sized_def same_shape_def tab_sz_def)


section \<open>Addresses\<close>

text \<open>The write that a command gets for the field \<open>ht\<close> of slot \<open>i\<close>, and where it lands.\<close>

definition dma_at :: "int \<Rightarrow> ipa_table_dma_type \<Rightarrow> ipa_table_dma_type \<Rightarrow> (dma_help_type \<Rightarrow> nat) \<Rightarrow>
    'e ipa_table \<Rightarrow> uint8 \<Rightarrow> dma_help_type \<Rightarrow> uint16 \<Rightarrow> uint16 \<Rightarrow> ipa_ioc_nat_dma_one" where
  "dma_at esz bt xt off t ix ht i data =
     \<lparr>d_table_index = ix, d_base_addr = (if i \<ge> table_entries t then xt else bt),
      d_offset = of_nat (off ht +
        (if i \<ge> table_entries t then unat i - unat (table_entries t) else unat i) * nat esz),
      d_data = data\<rparr>"

definition dma_index :: "'e ipa_table \<Rightarrow> dma_help_type \<Rightarrow> uint8" where
  "dma_index t ht = (case dma_help t ht of None \<Rightarrow> 0 | Some h \<Rightarrow> h_table_indx h)"

lemma entry_offset:
  assumes "tbl_wf esz bt xt off idx t"
  shows "(ucast (GOTO_REC t i - (if i \<ge> table_entries t then expn_table_addr t else table_addr t)) :: uint32)
    = of_int ((if i \<ge> table_entries t then uint i - uint (table_entries t) else uint i) * esz)"
proof -
  have u: "(ucast (of_int k :: uint64) :: uint32) = of_int k" for k
    by (simp add: word_of_int_eq_iff take_bit_take_bit unsigned_of_int)
  have "GOTO_REC t i - (if i \<ge> table_entries t then expn_table_addr t else table_addr t)
    = of_int ((if i \<ge> table_entries t then uint i - uint (table_entries t) else uint i) * esz)"
    using tbl_wfD(2,10) [OF assms] by (simp add: GOTO_REC_def algebra_simps)
  then show ?thesis by (simp only: u)
qed

lemma add_dma_cmd_at:
  assumes t: "tbl_wf esz bt xt off idx t" and i: "unat i < tab_sz t" and room: "dma_room cmd (Suc n)"
    and esz: "0 \<le> esz"
  shows "ipa_table_add_dma_cmd t ht (Some i) i data cmd =
    Some (0, dma_push cmd (dma_at esz bt xt off t (dma_index t ht) ht i data))"
proof -
  obtain h where h: "dma_help t ht = Some h" "h_offset h = of_nat (off ht)" "h_table_type h = bt" "h_expn_table_type h = xt"
    using tbl_wf_help [OF t] .
  have l: "unat (dma_entries cmd) < length (dma_buf cmd)" using room by (simp add: dma_room_def)
  have "of_int ((if i \<ge> table_entries t then uint i - uint (table_entries t) else uint i) * esz)
      = (of_nat ((if i \<ge> table_entries t then unat i - unat (table_entries t) else unat i) * nat esz) :: uint32)"
  proof (cases "i \<ge> table_entries t")
    case True
    then have "int (unat i - unat (table_entries t)) = uint i - uint (table_entries t)"
      by (simp add: word_le_nat_alt of_nat_diff)
    then have "(uint i - uint (table_entries t)) * esz = int ((unat i - unat (table_entries t)) * nat esz)"
      using esz by simp
    then show ?thesis using True by (simp only: if_True of_int_of_nat_eq)
  next
    case False
    have "uint i * esz = int (unat i * nat esz)" using esz by simp
    then show ?thesis using False by (simp only: if_False of_int_of_nat_eq)
  qed
  with entry_offset [OF t, of i]
  have o: "(ucast (GOTO_REC t i - (if i \<ge> table_entries t then expn_table_addr t else table_addr t)) :: uint32)
    = of_nat ((if i \<ge> table_entries t then unat i - unat (table_entries t) else unat i) * nat esz)"
    by (simp only:)
  show ?thesis
  proof (cases "i \<ge> table_entries t")
    case True
    then show ?thesis
      using i h l o [unfolded if_P [OF True]]
      by (simp add: ipa_table_add_dma_cmd_def ipa_table_dma_cmd_generate_def arr_simps
          dma_push_def dma_at_def dma_index_def not_le Let_def)
  next
    case False
    then show ?thesis
      using i h l o [unfolded if_not_P [OF False]]
      by (simp add: ipa_table_add_dma_cmd_def ipa_table_dma_cmd_generate_def arr_simps
          dma_push_def dma_at_def dma_index_def not_le Let_def)
  qed
qed

lemma hw_write_at:
  assumes t: "tbl_wf esz bt xt off idx t" and i: "unat i < tab_sz t"
    and esz: "0 < esz" "esz \<le> 64" "off ht < nat esz" "bt \<noteq> xt"
    and t': "same_shape t t'"
  shows "hw_write fw bt xt (dma_at esz bt xt off t ix ht i data) t' =
    (case fw (recs t' ! unat i) (off ht) data of None \<Rightarrow> None
     | Some e \<Rightarrow> Some (t'\<lparr>recs := (recs t')[unat i := e]\<rparr>))"
proof -
  define k where "k = (if i \<ge> table_entries t then unat i - unat (table_entries t) else unat i)"
  note S = same_shapeD [OF t']
  have k: "k < 5120" using tbl_wfD(6,7) [OF t] i by (auto simp: k_def)
  have z: "nat (entry_size t') = nat esz" using S tbl_wfD(2) [OF t] by simp
  have "k * nat esz \<le> 5120 * 64" using k esz by (intro mult_le_mono) auto
  then have o: "unat (of_nat (off ht + k * nat esz) :: uint32) = off ht + k * nat esz"
    using esz by (intro unat_of_nat32) linarith
  have dm: "(off ht + k * nat esz) div nat esz = k" "(off ht + k * nat esz) mod nat esz = off ht"
    using esz by simp_all
  have len: "length (recs t') = tab_sz t" using S tbl_wfD(3) [OF t] by simp
  have idx: "k + (if i \<ge> table_entries t then unat (table_entries t') else 0) = unat i"
    using S(3) by (simp add: k_def word_le_nat_alt)
  have d: "d_offset (dma_at esz bt xt off t ix ht i data) = of_nat (off ht + k * nat esz)"
      "d_base_addr (dma_at esz bt xt off t ix ht i data) = (if i \<ge> table_entries t then xt else bt)"
      "d_data (dma_at esz bt xt off t ix ht i data) = data"
    by (simp_all add: dma_at_def k_def)
  have b: "((if i \<ge> table_entries t then xt else bt) = xt) = (i \<ge> table_entries t)"
      "\<not> ((if i \<ge> table_entries t then xt else bt) \<noteq> bt \<and> (if i \<ge> table_entries t then xt else bt) \<noteq> xt)"
    using esz(4) by simp_all
  show ?thesis
    unfolding hw_write_def d o z dm Let_def b idx
    using b(2) i len by (simp add: arr_simps split: option.splits bind_splits)
qed

lemma dma_at_base: "d_base_addr (dma_at esz bt xt off t ix ht i data) \<in> {bt, xt}"
  by (simp add: dma_at_def)

end
