(* ===== verification/Ipa_Links.thy ===== *)
theory Ipa_Links
  imports Ipa_Prelude
begin

text \<open>
  Doubly linked collision lists, seen as three functions of a slot number: \<open>vl\<close> (the slot holds a
  valid record), \<open>nx\<close> and \<open>pv\<close> (its next and previous index, 0 for none).  A bucket map \<open>B\<close> gives
  the slots of each list in order.  The lemmas say what insertion and removal do to the lists,
  independent of the records that hold the indices.
\<close>

section \<open>One list\<close>

text \<open>\<open>lseg vl nx pv p xs i\<close>: the list that starts at slot \<open>i\<close>, whose first record points back to \<open>p\<close>.\<close>

primrec lseg ::
    "(uint16 \<Rightarrow> bool) \<Rightarrow> (uint16 \<Rightarrow> uint16) \<Rightarrow> (uint16 \<Rightarrow> uint16) \<Rightarrow> uint16 \<Rightarrow> uint16 list \<Rightarrow> uint16 \<Rightarrow> bool" where
  "lseg vl nx pv p [] i = (i = 0)"
| "lseg vl nx pv p (x # xs) i = (i = x \<and> x \<noteq> 0 \<and> vl x \<and> pv x = p \<and> lseg vl nx pv x xs (nx x))"

lemma lseg_cong:
  "(\<And>x. x \<in> set xs \<Longrightarrow> vl' x = vl x \<and> nx' x = nx x \<and> pv' x = pv x) \<Longrightarrow>
   lseg vl' nx' pv' p xs i = lseg vl nx pv p xs i"
  by (induction xs arbitrary: p i) auto

lemma lseg_valid: "lseg vl nx pv p xs i \<Longrightarrow> x \<in> set xs \<Longrightarrow> vl x \<and> x \<noteq> 0"
  by (induction xs arbitrary: p i) auto

lemma lseg_last: "lseg vl nx pv p xs i \<Longrightarrow> xs \<noteq> [] \<Longrightarrow> nx (last xs) = 0"
  by (induction xs arbitrary: p i) (auto split: if_splits)

lemma lseg_next_in:
  "lseg vl nx pv p xs i \<Longrightarrow> x \<in> set xs \<Longrightarrow> nx x \<noteq> 0 \<Longrightarrow> nx x \<in> set xs \<and> pv (nx x) = x"
proof (induction xs arbitrary: p i)
  case (Cons y ys)
  then show ?case by (cases ys) auto
qed simp

lemma lseg_prev:
  "lseg vl nx pv p (ys @ x # zs) i \<Longrightarrow> pv x = (if ys = [] then p else last ys)"
  by (induction ys arbitrary: p i) auto

lemma lseg_next:
  "lseg vl nx pv p (ys @ x # zs) i \<Longrightarrow> nx x = (case zs of [] \<Rightarrow> 0 | z # _ \<Rightarrow> z)"
  by (induction ys arbitrary: p i) (auto split: list.splits)

text \<open>Appending slot \<open>s\<close> behind the last slot \<open>l\<close>.\<close>

lemma lseg_snoc:
  assumes "lseg vl nx pv p (xs @ [l]) i" "distinct (xs @ [l])" "s \<notin> set (xs @ [l])" "s \<noteq> 0" "nx s = 0"
  shows "lseg (vl(s := True)) (nx(l := s)) (pv(s := l)) p (xs @ [l, s]) i"
  using assms by (induction xs arbitrary: p i) auto

text \<open>Unlinking slot \<open>x\<close>, which is preceded by \<open>q\<close>.\<close>

lemma lseg_unlink:
  assumes "lseg vl nx pv p (ys @ q # x # zs) i" "distinct (ys @ q # x # zs)"
    "\<And>y. y \<in> set (ys @ q # zs) \<Longrightarrow> vl' y = vl y"
    "\<And>y. y \<in> set (ys @ zs) \<Longrightarrow> nx' y = nx y" "nx' q = nx x"
    "\<And>y. y \<in> set (ys @ [q]) \<Longrightarrow> pv' y = pv y" "\<And>y. y \<in> set (tl zs) \<Longrightarrow> pv' y = pv y"
    "zs \<noteq> [] \<Longrightarrow> pv' (hd zs) = q"
  shows "lseg vl' nx' pv' p (ys @ q # zs) i"
  using assms
proof (induction ys arbitrary: p i)
  case Nil
  then have tl: "lseg vl nx pv x zs (nx x)" by simp
  have "lseg vl' nx' pv' q zs (nx x)"
  proof (cases zs)
    case Nil
    with tl show ?thesis by simp
  next
    case (Cons z zt)
    have "lseg vl' nx' pv' z zt (nx z) = lseg vl nx pv z zt (nx z)"
      using Nil.prems Cons by (intro lseg_cong) auto
    with tl Cons Nil.prems show ?thesis by auto
  qed
  with Nil.prems show ?case by simp
next
  case (Cons y ys)
  then show ?case by auto
qed

section \<open>The lists of a table\<close>

text \<open>
  \<open>B h\<close> is the list of base slot \<open>h\<close>: empty when the slot is free, else \<open>h\<close> followed by expansion
  slots.  The lists are disjoint and hold every valid slot; a slot that is not valid has no next
  index, and a base slot that is not valid has no previous index.
\<close>

definition chains ::
    "nat \<Rightarrow> nat \<Rightarrow> (uint16 \<Rightarrow> bool) \<Rightarrow> (uint16 \<Rightarrow> uint16) \<Rightarrow> (uint16 \<Rightarrow> uint16) \<Rightarrow>
     (uint16 \<Rightarrow> uint16 list) \<Rightarrow> bool" where
  "chains te tot vl nx pv B \<longleftrightarrow>
     (\<forall>h. B h \<noteq> [] \<longrightarrow> 0 < unat h \<and> unat h < te \<and> te \<le> tot \<and> hd (B h) = h \<and> distinct (B h) \<and>
        lseg vl nx pv 0 (B h) h \<and> (\<forall>x \<in> set (tl (B h)). te \<le> unat x \<and> unat x < tot)) \<and>
     (\<forall>x. unat x < tot \<longrightarrow> vl x \<longrightarrow> (\<exists>h. x \<in> set (B h))) \<and>
     (\<forall>h h' x. x \<in> set (B h) \<longrightarrow> x \<in> set (B h') \<longrightarrow> h = h') \<and>
     (\<forall>x. unat x < tot \<longrightarrow> \<not> vl x \<longrightarrow> nx x = 0 \<and> (unat x < te \<longrightarrow> pv x = 0))"

lemma chainsD:
  assumes "chains te tot vl nx pv B" "B h \<noteq> []"
  shows "0 < unat h" "unat h < te" "te \<le> tot" "hd (B h) = h" "distinct (B h)" "lseg vl nx pv 0 (B h) h"
    "B h = h # tl (B h)" "\<And>x. x \<in> set (tl (B h)) \<Longrightarrow> te \<le> unat x \<and> unat x < tot"
  using assms by (auto simp: chains_def) (metis hd_Cons_tl)

lemma chains_member:
  assumes "chains te tot vl nx pv B" "x \<in> set (B h)"
  shows "vl x" "x \<noteq> 0" "unat x < tot" "unat x < te \<longleftrightarrow> x = h"
proof -
  have ne: "B h \<noteq> []" using assms(2) by auto
  note D = chainsD [OF assms(1) ne]
  show "vl x" "x \<noteq> 0" using lseg_valid [OF D(6) assms(2)] by auto
  have "x = h \<or> x \<in> set (tl (B h))" using assms(2) D(7) by (metis set_ConsD)
  then show "unat x < tot" "unat x < te \<longleftrightarrow> x = h" using D(2,3) D(8) [of x] by auto
qed

lemma chains_disjoint:
  "chains te tot vl nx pv B \<Longrightarrow> x \<in> set (B h) \<Longrightarrow> x \<in> set (B h') \<Longrightarrow> h = h'"
  by (simp add: chains_def)

lemma chains_valid_in:
  "chains te tot vl nx pv B \<Longrightarrow> unat x < tot \<Longrightarrow> vl x \<Longrightarrow> \<exists>h. x \<in> set (B h)"
  by (simp add: chains_def)

lemma chains_invalid:
  "chains te tot vl nx pv B \<Longrightarrow> unat x < tot \<Longrightarrow> \<not> vl x \<Longrightarrow> nx x = 0 \<and> (unat x < te \<longrightarrow> pv x = 0)"
  by (simp add: chains_def)

lemma chains_base:
  assumes "chains te tot vl nx pv B" "unat h < te" "te \<le> tot"
  shows "vl h \<longleftrightarrow> B h \<noteq> []"
proof
  assume "vl h"
  then obtain h' where "h \<in> set (B h')" using chains_valid_in [OF assms(1)] assms(2,3) by force
  moreover from this have "h = h'" using chains_member(4) [OF assms(1)] assms(2) by blast
  ultimately show "B h \<noteq> []" by auto
next
  assume "B h \<noteq> []"
  then show "vl h" using chains_member(1) [OF assms(1)] chainsD(7) [OF assms(1)] by (metis list.set_intros(1))
qed

lemma chains_zero: "chains te tot vl nx pv B \<Longrightarrow> 0 < tot \<Longrightarrow> \<not> vl 0"
  using chains_valid_in [of te tot vl nx pv B 0] chains_member(2) [of te tot vl nx pv B 0] by fastforce

lemma chains_empty:
  "(\<And>x. unat x < tot \<Longrightarrow> \<not> vl x \<and> nx x = 0 \<and> (unat x < te \<longrightarrow> pv x = 0)) \<Longrightarrow>
   chains te tot vl nx pv (\<lambda>_. [])"
  by (simp add: chains_def)

section \<open>Updates\<close>

lemma chains_insert_head:
  assumes C: "chains te tot vl nx pv B" and h: "0 < unat h" "unat h < te" "te \<le> tot" "\<not> vl h"
  shows "chains te tot (vl(h := True)) nx pv (B(h := [h]))"
proof -
  have E: "B h = []" using chains_base [OF C h(2,3)] h(4) by simp
  have I: "nx h = 0" "pv h = 0" using chains_invalid [OF C _ h(4)] h by auto
  have out: "h \<notin> set (B k)" for k using chains_member(1) [OF C] h(4) by blast
  have L: "lseg (vl(h := True)) nx pv 0 (B k) k = lseg vl nx pv 0 (B k) k" for k
    by (rule lseg_cong) (use out in auto)
  have "h \<noteq> 0" using h(1) by auto
  moreover have "\<exists>k. x \<in> set ((B(h := [h])) k)" if "unat x < tot" "(vl(h := True)) x" for x
  proof (cases "x = h")
    case False
    with that obtain k where "x \<in> set (B k)" using chains_valid_in [OF C, of x] by auto
    with E show ?thesis by (intro exI [of _ k]) auto
  qed (intro exI [of _ h], simp)
  ultimately show ?thesis
    unfolding chains_def
    using chainsD [OF C] chains_disjoint [OF C] chains_invalid [OF C] h I L out
    by (intro conjI) (auto split: if_splits)
qed

lemma chains_insert_tail:
  assumes C: "chains te tot vl nx pv B" and h: "B h \<noteq> []"
    and s: "te \<le> unat s" "unat s < tot" "\<not> vl s"
  shows "chains te tot (vl(s := True)) (nx(last (B h) := s)) (pv(s := last (B h))) (B(h := B h @ [s]))"
    (is "chains te tot ?vl ?nx ?pv ?B")
proof -
  note D = chainsD [OF C h]
  define l where "l = last (B h)"
  have xs: "B h = butlast (B h) @ [l]" using h by (simp add: l_def)
  have out: "s \<notin> set (B k)" for k using chains_member(1) [OF C] s(3) by blast
  have s0: "s \<noteq> 0" "nx s = 0" using s D(1,2) chains_invalid [OF C s(2,3)] by auto
  have lin: "l \<in> set (B h)" using h by (simp add: l_def)
  have L: "lseg ?vl ?nx ?pv 0 (B h @ [s]) h"
    using lseg_snoc [of vl nx pv 0 "butlast (B h)" l h s] D(5,6) xs out s0
    by (metis append.assoc append_Cons append_Nil l_def)
  have K: "lseg ?vl ?nx ?pv 0 (B k) k = lseg vl nx pv 0 (B k) k" if "k \<noteq> h" for k
    by (rule lseg_cong) (use out that lin chains_disjoint [OF C] l_def in auto)
  have hd: "hd (B h @ [s]) = h" "tl (B h @ [s]) = tl (B h) @ [s]" using D(4) h by auto
  have P1: "0 < unat k \<and> unat k < te \<and> te \<le> tot \<and> hd (?B k) = k \<and> distinct (?B k) \<and>
        lseg ?vl ?nx ?pv 0 (?B k) k \<and> (\<forall>x \<in> set (tl (?B k)). te \<le> unat x \<and> unat x < tot)"
    if "?B k \<noteq> []" for k
  proof (cases "k = h")
    case True
    then show ?thesis using D L hd out s by auto
  next
    case False
    then show ?thesis using that chainsD [OF C, of k] K [OF False] by auto
  qed
  have P2: "\<exists>k. x \<in> set (?B k)" if "unat x < tot" "?vl x" for x
  proof (cases "x = s")
    case True
    then show ?thesis by (intro exI [of _ h]) simp
  next
    case False
    with that obtain k where "x \<in> set (B k)" using chains_valid_in [OF C, of x] by auto
    then show ?thesis by (intro exI [of _ k]) auto
  qed
  have P3: "k = k'" if "x \<in> set (?B k)" "x \<in> set (?B k')" for x k k'
    using that out chains_disjoint [OF C] by (auto split: if_splits)
  have P4: "?nx x = 0 \<and> (unat x < te \<longrightarrow> ?pv x = 0)" if "unat x < tot" "\<not> ?vl x" for x
    using that chains_invalid [OF C, of x] chains_member(1) [OF C lin] by (auto simp: l_def split: if_splits)
  show ?thesis unfolding chains_def using P1 P2 P3 P4 by blast
qed

text \<open>Removal: the new maps agree with the old ones except where the list is relinked.\<close>

lemma chains_unlink:
  assumes C: "chains te tot vl nx pv B" and B: "B h = ys @ q # x # zs"
    and v: "\<And>y. unat y < tot \<Longrightarrow> vl' y = (vl y \<and> y \<noteq> x)"
    and n: "\<And>y. unat y < tot \<Longrightarrow> nx' y = (if y = q then nx x else if y = x then 0 else nx y)"
    and p: "\<And>y. unat y < tot \<Longrightarrow> y \<noteq> x \<Longrightarrow> pv' y = (if zs \<noteq> [] \<and> y = hd zs then q else pv y)"
  shows "chains te tot vl' nx' pv' (B(h := ys @ q # zs))"
proof -
  let ?B = "B(h := ys @ q # zs)"
  have ne: "B h \<noteq> []" using B by simp
  note D = chainsD [OF C ne]
  note M = chains_member [OF C]
  have tot: "unat y < tot" if "y \<in> set (B k)" for y k using M(3) that by blast
  have dis: "distinct (ys @ q # x # zs)" using D(5) B by simp
  have xt: "te \<le> unat x" 
  proof -
    have "x \<noteq> h" using D(4) B dis by (cases ys) auto
    moreover have "x \<in> set (B h)" using B by simp
    ultimately show ?thesis using M(4) by force
  qed
  have inh: "y \<in> set (B h)" if "y \<in> set (ys @ q # zs)" for y using B that by auto
  have L: "lseg vl' nx' pv' 0 (ys @ q # zs) h"
  proof (rule lseg_unlink [of vl nx pv 0 ys q x zs h])
    show "lseg vl nx pv 0 (ys @ q # x # zs) h" using D(6) B by simp
    show "distinct (ys @ q # x # zs)" by (rule dis)
    show "vl' y = vl y" if "y \<in> set (ys @ q # zs)" for y
      using v [OF tot [OF inh [OF that]]] that dis by auto
    show "nx' y = nx y" if "y \<in> set (ys @ zs)" for y
      using n [of y] tot [OF inh, of y] that dis by auto
    show "nx' q = nx x" using n [of q] tot [of q h] B by simp
    show "pv' y = pv y" if "y \<in> set (ys @ [q])" for y
    proof -
      have "y \<noteq> x" "\<not> (zs \<noteq> [] \<and> y = hd zs)" using that dis by (auto simp: hd_in_set)
      then show ?thesis using p [of y] tot [OF inh, of y] that by auto
    qed
    show "pv' y = pv y" if "y \<in> set (tl zs)" for y
    proof -
      have "y \<in> set zs" using that by (cases zs) auto
      moreover have "y \<noteq> x" "\<not> (zs \<noteq> [] \<and> y = hd zs)" using that dis by (cases zs; auto)+
      ultimately show ?thesis using p [of y] tot [OF inh, of y] by auto
    qed
    show "pv' (hd zs) = q" if "zs \<noteq> []"
      using p [of "hd zs"] tot [OF inh, of "hd zs"] that dis by (cases zs) auto
  qed
  have K: "lseg vl' nx' pv' 0 (B k) k = lseg vl nx pv 0 (B k) k" if "k \<noteq> h" for k
  proof (rule lseg_cong)
    fix y assume y: "y \<in> set (B k)"
    then have "y \<notin> set (B h)" using chains_disjoint [OF C] that by blast
    then have "y \<noteq> x" "y \<noteq> q" "zs \<noteq> [] \<Longrightarrow> y \<noteq> hd zs" using B by (auto simp: hd_in_set)
    then show "vl' y = vl y \<and> nx' y = nx y \<and> pv' y = pv y"
      using v n p tot [OF y] by auto
  qed
  have P1: "0 < unat k \<and> unat k < te \<and> te \<le> tot \<and> hd (?B k) = k \<and> distinct (?B k) \<and>
        lseg vl' nx' pv' 0 (?B k) k \<and> (\<forall>x \<in> set (tl (?B k)). te \<le> unat x \<and> unat x < tot)"
    if "?B k \<noteq> []" for k
  proof (cases "k = h")
    case True
    have "set (tl (ys @ q # zs)) \<subseteq> set (tl (B h))" using B by (cases ys) auto
    moreover have "hd (ys @ q # zs) = h" using D(4) B by (cases ys) auto
    ultimately show ?thesis using True D L dis by auto
  next
    case False
    then show ?thesis using that chainsD [OF C, of k] K [OF False] by auto
  qed
  have P2: "\<exists>k. y \<in> set (?B k)" if "unat y < tot" "vl' y" for y
  proof -
    from that v have "vl y" by auto
    then obtain k where k: "y \<in> set (B k)" using chains_valid_in [OF C \<open>unat y < tot\<close>] by blast
    then show ?thesis using B v [OF that(1)] that(2) by (cases "k = h") (auto intro: exI [of _ k] exI [of _ h])
  qed
  have P3: "k = k'" if "y \<in> set (?B k)" "y \<in> set (?B k')" for y k k'
    using that inh chains_disjoint [OF C] by (auto split: if_splits)
  have P4: "nx' y = 0 \<and> (unat y < te \<longrightarrow> pv' y = 0)" if "unat y < tot" "\<not> vl' y" for y
  proof (cases "y = x")
    case True
    then show ?thesis using n [OF that(1)] xt B dis by auto
  next
    case False
    then have "\<not> vl y" using v that by auto
    moreover have "vl q" "zs \<noteq> [] \<Longrightarrow> vl (hd zs)" using M(1) [of _ h] B by (auto simp: hd_in_set)
    ultimately show ?thesis using False n [OF that(1)] p [OF that(1)] chains_invalid [OF C that(1)] by auto
  qed
  show ?thesis unfolding chains_def using P1 P2 P3 P4 by blast
qed

lemma chains_drop_head:
  assumes C: "chains te tot vl nx pv B" and B: "B h = [h]"
    and v: "\<And>y. unat y < tot \<Longrightarrow> vl' y = (vl y \<and> y \<noteq> h)"
    and n: "\<And>y. unat y < tot \<Longrightarrow> y \<noteq> h \<Longrightarrow> nx' y = nx y" "nx' h = 0"
    and p: "\<And>y. unat y < tot \<Longrightarrow> y \<noteq> h \<Longrightarrow> pv' y = pv y" "pv' h = 0"
  shows "chains te tot vl' nx' pv' (B(h := []))"
proof -
  have K: "lseg vl' nx' pv' 0 (B k) k = lseg vl nx pv 0 (B k) k" if "k \<noteq> h" for k
  proof (rule lseg_cong)
    fix y assume y: "y \<in> set (B k)"
    have "h \<in> set (B h)" using B by simp
    then have "y \<noteq> h" using chains_disjoint [OF C y] that by blast
    then show "vl' y = vl y \<and> nx' y = nx y \<and> pv' y = pv y"
      using v n(1) p(1) chains_member(3) [OF C y] by auto
  qed
  have P2: "\<exists>k. y \<in> set ((B(h := [])) k)" if "unat y < tot" "vl' y" for y
  proof -
    from that v have "vl y" by auto
    then obtain k where k: "y \<in> set (B k)" using chains_valid_in [OF C \<open>unat y < tot\<close>] by blast
    then show ?thesis using B v [OF that(1)] that(2) by (cases "k = h") (auto intro: exI [of _ k])
  qed
  have P4: "nx' y = 0 \<and> (unat y < te \<longrightarrow> pv' y = 0)" if "unat y < tot" "\<not> vl' y" for y
    using that v n p chains_invalid [OF C that(1)] by (cases "y = h") auto
  show ?thesis unfolding chains_def
    using chainsD [OF C] K P2 P4 chains_disjoint [OF C] by (auto split: if_splits)
qed

text \<open>What lies beyond the slots, and the stale previous index of a free expansion slot, is irrelevant.\<close>

lemma chains_cong:
  assumes C: "chains te tot vl nx pv B"
    and eq: "\<And>x. unat x < tot \<Longrightarrow> vl' x = vl x \<and> nx' x = nx x \<and> (vl x \<or> unat x < te \<longrightarrow> pv' x = pv x)"
  shows "chains te tot vl' nx' pv' B"
proof -
  have L: "lseg vl' nx' pv' 0 (B k) k = lseg vl nx pv 0 (B k) k" for k
    by (rule lseg_cong) (use eq chains_member [OF C] in blast)
  show ?thesis
    unfolding chains_def using chainsD [OF C] chains_valid_in [OF C] chains_disjoint [OF C] chains_invalid [OF C] eq L
    by auto
qed

section \<open>Counting the valid slots\<close>

definition counted :: "nat \<Rightarrow> nat \<Rightarrow> (uint16 \<Rightarrow> bool) \<Rightarrow> uint16 \<Rightarrow> uint16 \<Rightarrow> bool" where
  "counted te tot vl c x \<longleftrightarrow> unat c = card {i. unat i < te \<and> vl i} \<and>
     unat x = card {i. te \<le> unat i \<and> unat i < tot \<and> vl i}"

lemma card_slots: "card {i :: uint16. unat i < n \<and> P i} \<le> n"
proof -
  have "card {i :: uint16. unat i < n \<and> P i} = card (unat ` {i :: uint16. unat i < n \<and> P i})"
    by (rule card_image [symmetric]) (auto simp: inj_on_def word_unat_eq_iff)
  also have "\<dots> \<le> card {..<n}" by (rule card_mono) auto
  finally show ?thesis by simp
qed

lemma card_put:
  assumes "\<And>i. Q i \<Longrightarrow> vl' i = (vl i \<or> i = s)" "Q s" "\<not> vl s"
  shows "card {i :: uint16. Q i \<and> vl' i} = Suc (card {i. Q i \<and> vl i})"
proof -
  have "{i. Q i \<and> vl' i} = insert s {i. Q i \<and> vl i}" using assms by auto
  then show ?thesis using assms(3) by simp
qed

lemma card_drop:
  assumes "\<And>i. Q i \<Longrightarrow> vl' i = (vl i \<and> i \<noteq> s)" "Q s" "vl s"
  shows "card {i :: uint16. Q i \<and> vl' i} = card {i. Q i \<and> vl i} - 1"
proof -
  have "{i. Q i \<and> vl' i} = {i. Q i \<and> vl i} - {s}" using assms by auto
  then show ?thesis using assms(2,3) by (simp add: card_Diff_singleton)
qed

lemma card_same:
  "(\<And>i. Q i \<Longrightarrow> vl' i = vl i) \<Longrightarrow> card {i :: uint16. Q i \<and> vl' i} = card {i. Q i \<and> vl i}"
  by (rule arg_cong [where f = card]) auto

lemma counted_cong:
  "counted te tot vl c x \<Longrightarrow> te \<le> tot \<Longrightarrow> (\<And>i. unat i < tot \<Longrightarrow> vl' i = vl i) \<Longrightarrow> counted te tot vl' c x"
  unfolding counted_def conj_assoc [symmetric]
  using card_same [of "\<lambda>i. unat i < te" vl' vl] card_same [of "\<lambda>i. te \<le> unat i \<and> unat i < tot" vl' vl] by auto

lemma counted_put:
  assumes "counted te tot vl c x" "te \<le> tot" "tot < 65535" "unat s < tot" "\<not> vl s"
    "\<And>i. unat i < tot \<Longrightarrow> vl' i = (vl i \<or> i = s)"
  shows "unat s < te \<Longrightarrow> counted te tot vl' (c + 1) x" "te \<le> unat s \<Longrightarrow> counted te tot vl' c (x + 1)"
proof -
  have b: "card {i. unat i < te \<and> vl i} \<le> te" by (rule card_slots)
  have "card {i. te \<le> unat i \<and> unat i < tot \<and> vl i} \<le> card {i :: uint16. unat i < tot \<and> vl i}"
    by (intro card_mono) auto
  also have "\<dots> \<le> tot" by (rule card_slots)
  finally have e: "card {i. te \<le> unat i \<and> unat i < tot \<and> vl i} \<le> tot" .
  { assume s: "unat s < te"
    have "card {i. te \<le> unat i \<and> unat i < tot \<and> vl' i} = card {i. te \<le> unat i \<and> unat i < tot \<and> vl i}"
      by (rule arg_cong [where f = card]) (use s assms(6) in auto)
    then show "counted te tot vl' (c + 1) x"
      using s assms b card_put [of "\<lambda>i. unat i < te" vl' vl s] unat_Suc16 [of c]
      by (simp add: counted_def) }
  { assume s: "te \<le> unat s"
    have "card {i. unat i < te \<and> vl' i} = card {i. unat i < te \<and> vl i}"
      by (rule arg_cong [where f = card]) (use s assms(2,6) in auto)
    then show "counted te tot vl' c (x + 1)"
      using s assms e card_put [of "\<lambda>i. te \<le> unat i \<and> unat i < tot" vl' vl s] unat_Suc16 [of x]
      by (simp add: counted_def) }
qed

lemma counted_drop:
  assumes "counted te tot vl c x" "te \<le> tot" "unat s < tot" "vl s"
    "\<And>i. unat i < tot \<Longrightarrow> vl' i = (vl i \<and> i \<noteq> s)"
  shows "unat s < te \<Longrightarrow> counted te tot vl' (c - 1) x" "te \<le> unat s \<Longrightarrow> counted te tot vl' c (x - 1)"
proof -
  { assume s: "unat s < te"
    then have "0 < card {i. unat i < te \<and> vl i}" using assms(4) by (auto simp: card_gt_0_iff)
    moreover have "card {i. te \<le> unat i \<and> unat i < tot \<and> vl' i} = card {i. te \<le> unat i \<and> unat i < tot \<and> vl i}"
      by (rule arg_cong [where f = card]) (use s assms(5) in auto)
    ultimately show "counted te tot vl' (c - 1) x"
      using s assms card_drop [of "\<lambda>i. unat i < te" vl' vl s] unat_pred16 [of c]
      by (simp add: counted_def) }
  { assume s: "te \<le> unat s"
    then have "0 < card {i. te \<le> unat i \<and> unat i < tot \<and> vl i}" using assms(3,4) by (auto simp: card_gt_0_iff)
    moreover have "card {i. unat i < te \<and> vl' i} = card {i. unat i < te \<and> vl i}"
      by (rule arg_cong [where f = card]) (use s assms(2,5) in auto)
    ultimately show "counted te tot vl' c (x - 1)"
      using s assms card_drop [of "\<lambda>i. te \<le> unat i \<and> unat i < tot" vl' vl s] unat_pred16 [of x]
      by (simp add: counted_def) }
qed

lemma counted_none: "(\<And>i. unat i < tot \<Longrightarrow> \<not> vl i) \<Longrightarrow> te \<le> tot \<Longrightarrow> counted te tot vl 0 0"
  by (auto simp: counted_def card_eq_0_iff)

end
