(* ===== verification/Ipa_Table_Chains.thy ===== *)
theory Ipa_Table_Chains
  imports Ipa_Table_Dma Ipa_Links
begin

text \<open>
  The table operations keep the collision lists.  The callbacks of a table's owner and the layout
  of its records are the locale \<open>table_iface\<close>; the theorems about insertion, iteration and removal
  are proved once from its laws, for the IPv6CT table, the NAT rule table and the NAT index table.
\<close>

section \<open>The lists of a table in memory\<close>

definition tv :: "('e, 'u) ipa_table_entry_interface \<Rightarrow> 'e ipa_table \<Rightarrow> uint16 \<Rightarrow> bool" where
  "tv ei t x = entry_is_valid ei (recs t ! unat x)"

definition tn :: "('e, 'u) ipa_table_entry_interface \<Rightarrow> 'e ipa_table \<Rightarrow> uint16 \<Rightarrow> uint16" where
  "tn ei t x = entry_get_next_index ei (recs t ! unat x)"

definition tp :: "('e, 'u) ipa_table_entry_interface \<Rightarrow> 'e ipa_table \<Rightarrow> uint16 \<Rightarrow> uint16" where
  "tp ei t x = the (entry_get_prev_index ei (recs t ! unat x) x (tbl_meta t) (table_entries t))"

definition tbl_inv ::
    "('e, 'u) ipa_table_entry_interface \<Rightarrow> int \<Rightarrow> ipa_table_dma_type \<Rightarrow> ipa_table_dma_type \<Rightarrow>
     (dma_help_type \<Rightarrow> nat) \<Rightarrow> bool \<Rightarrow> 'e ipa_table \<Rightarrow> (uint16 \<Rightarrow> uint16 list) \<Rightarrow> bool" where
  "tbl_inv ei esz bt xt off idx t B \<longleftrightarrow>
     tbl_wf esz bt xt off idx t \<and>
     chains (unat (table_entries t)) (tab_sz t) (tv ei t) (tn ei t) (tp ei t) B \<and>
     counted (unat (table_entries t)) (tab_sz t) (tv ei t) (cur_tbl_cnt t) (cur_expn_tbl_cnt t)"

text \<open>The first free expansion slot.\<close>

definition free_slot :: "('e, 'u) ipa_table_entry_interface \<Rightarrow> 'e ipa_table \<Rightarrow> nat option" where
  "free_slot ei t = List.find (\<lambda>s. \<not> tv ei t (of_nat s)) [unat (table_entries t)..<tab_sz t]"

text \<open>Two records that differ in nothing the lists depend on.\<close>

definition same_links :: "('e, 'u) ipa_table_entry_interface \<Rightarrow> 'e \<Rightarrow> 'e \<Rightarrow> bool" where
  "same_links ei e e' \<longleftrightarrow> entry_get_next_index ei e' = entry_get_next_index ei e \<and>
     (\<forall>i m te. entry_get_prev_index ei e' i m te = entry_get_prev_index ei e i m te)"

text \<open>
  An update \<open>g\<close> of a fresh record by its owner, before the command is posted: it keeps the links, and
  the write that enables the updated record leaves it with the key \<open>K\<close>.
\<close>

definition harmless ::
    "('e, 'u) ipa_table_entry_interface \<Rightarrow> ('e \<Rightarrow> uint16 \<Rightarrow> 'e option) \<Rightarrow> ('e \<Rightarrow> uint16 \<Rightarrow> 'u \<Rightarrow> bool) \<Rightarrow>
     ('e \<Rightarrow> 'k) \<Rightarrow> ('e \<Rightarrow> 'e) \<Rightarrow> 'u \<Rightarrow> 'k \<Rightarrow> bool" where
  "harmless ei enable ready key g u K \<longleftrightarrow> (\<forall>e. same_links ei e (g e)) \<and>
     (\<forall>e d. ready e d u \<longrightarrow> (\<exists>e'. enable (g e) d = Some e' \<and> entry_is_valid ei e' \<and> key e' = K \<and>
        same_links ei (g e) e'))"

section \<open>The contract of the callbacks\<close>

text \<open>
  \<open>key\<close> is what a record says apart from its links, \<open>ukey\<close> what the client's data ask for; \<open>ready\<close>
  holds between a written record and the data of the DMA write that will enable it; \<open>delk\<close> is the
  effect on the key of the write that deletes a head with a tail; \<open>clean\<close> is what insertion expects
  of a free record.
\<close>

locale table_iface =
  fixes ei :: "('e, 'u) ipa_table_entry_interface" and zero :: 'e
    and fw :: "'e \<Rightarrow> nat \<Rightarrow> uint16 \<Rightarrow> 'e option"
    and esz :: int and bt xt :: ipa_table_dma_type and off :: "dma_help_type \<Rightarrow> nat" and idx :: bool
    and clean :: "'e \<Rightarrow> bool" and good :: "'u \<Rightarrow> bool" and ready :: "'e \<Rightarrow> uint16 \<Rightarrow> 'u \<Rightarrow> bool"
    and key :: "'e \<Rightarrow> 'k" and ukey :: "'u \<Rightarrow> 'k" and delk :: "'k \<Rightarrow> 'k \<Rightarrow> 'k"
  assumes esz: "0 < esz" "esz \<le> 64" "bt \<noteq> xt"
    and off: "off ht < nat esz"
    and zero_inv: "\<not> entry_is_valid ei zero" "entry_get_next_index ei zero = 0"
    and prev_zero: "unat i < unat te \<Longrightarrow> entry_get_prev_index ei zero i m te = Some 0"
    and prev_total: "meta_fits idx m n \<Longrightarrow> unat i < unat te + n \<Longrightarrow>
      \<exists>p. entry_get_prev_index ei e i m te = Some p"
    and fw_next: "\<exists>e'. fw e (off HELP_UPDATE_ENTRY) d = Some e' \<and> entry_get_next_index ei e' = d \<and>
      entry_is_valid ei e' = entry_is_valid ei e \<and> key e' = key e \<and>
      (\<forall>i m te. entry_get_prev_index ei e' i m te = entry_get_prev_index ei e i m te)"
    and fw_enable: "ready e d u \<Longrightarrow> \<exists>e'. fw e (off HELP_UPDATE_HEAD) d = Some e' \<and>
      entry_is_valid ei e' \<and> key e' = ukey u \<and> same_links ei e e'"
    and fw_disable: "\<exists>e'. fw e (off HELP_UPDATE_HEAD) 0 = Some e' \<and> \<not> entry_is_valid ei e' \<and> same_links ei e e'"
    and fw_delete: "entry_is_valid ei c \<Longrightarrow> entry_is_valid ei x \<Longrightarrow>
      \<exists>e'. fw c (off HELP_DELETE_HEAD) (entry_get_delete_head_dma_command_data ei c x) = Some e' \<and>
        entry_is_valid ei e' \<and> key e' = delk (key c) (key x) \<and> same_links ei c e'"
    and head_insert: "clean e \<Longrightarrow> good u \<Longrightarrow> \<exists>e' d. entry_head_insert ei e u = Some (0, e', d) \<and> ready e' d u \<and>
      entry_is_valid ei e' = entry_is_valid ei e \<and> same_links ei e e'"
    and tail_insert: "idx \<Longrightarrow> clean e \<Longrightarrow> good u \<Longrightarrow> \<exists>e'. entry_tail_insert ei e u = Some (0, e') \<and>
      entry_is_valid ei e' \<and> key e' = ukey u \<and> same_links ei e e'"
    and set_prev: "meta_fits idx m n \<Longrightarrow> unat te \<le> unat i \<Longrightarrow> unat i < unat te + n \<Longrightarrow>
      \<exists>e' m'. entry_set_prev_index ei e i p m te = Some (e', m') \<and> meta_fits idx m' n \<and>
        entry_is_valid ei e' = entry_is_valid ei e \<and> entry_get_next_index ei e' = entry_get_next_index ei e \<and>
        key e' = key e \<and> (\<forall>d u. ready e d u \<longrightarrow> ready e' d u) \<and>
        entry_get_prev_index ei e' i m' te = Some p \<and>
        (\<forall>j x. j \<noteq> i \<longrightarrow> entry_get_prev_index ei x j m' te = entry_get_prev_index ei x j m te)"
begin

abbreviation "linv \<equiv> tbl_inv ei esz bt xt off idx"

abbreviation "free_clean t \<equiv> (\<forall>x. unat x < tab_sz t \<longrightarrow> \<not> tv ei t x \<longrightarrow> clean (recs t ! unat x))"

lemma invD:
  assumes "linv t B"
  shows "tbl_wf esz bt xt off idx t"
    "chains (unat (table_entries t)) (tab_sz t) (tv ei t) (tn ei t) (tp ei t) B"
    "counted (unat (table_entries t)) (tab_sz t) (tv ei t) (cur_tbl_cnt t) (cur_expn_tbl_cnt t)"
  using assms by (simp_all add: tbl_inv_def)

lemma rec_get_in: "tbl_wf esz bt xt off idx t \<Longrightarrow> unat i < tab_sz t \<Longrightarrow> rec_get t i = Some (recs t ! unat i)"
  by (simp add: rec_get_def arr_simps tbl_wfD)

lemma rec_put_in: "tbl_wf esz bt xt off idx t \<Longrightarrow> unat i < tab_sz t \<Longrightarrow>
    rec_put t i e = Some (t\<lparr>recs := (recs t)[unat i := e]\<rparr>)"
  by (simp add: rec_put_def arr_simps tbl_wfD)

lemma entry_by_index: "tbl_wf esz bt xt off idx t \<Longrightarrow> i \<noteq> 0 \<Longrightarrow> unat i < tab_sz t \<Longrightarrow>
    ipa_table_get_entry_by_index t i = Some i"
  by (simp add: ipa_table_get_entry_by_index_def word_le_nat_alt tbl_wfD(9))

text \<open>A fresh table: every record zero.\<close>

lemma inv_fresh:
  assumes "tbl_wf esz bt xt off idx t" "\<And>i. i < tab_sz t \<Longrightarrow> recs t ! i = zero"
    "cur_tbl_cnt t = 0" "cur_expn_tbl_cnt t = 0"
  shows "linv t (\<lambda>_. [])"
  unfolding tbl_inv_def
  using assms tbl_wfD(6) [OF assms(1)] zero_inv prev_zero
  by (auto intro!: chains_empty counted_none simp: tv_def tn_def tp_def)

abbreviation "safe_upd \<equiv> harmless ei (\<lambda>e. fw e (off HELP_UPDATE_HEAD)) ready key"

lemma safe_upd_id: "safe_upd (\<lambda>e. e) u (ukey u)"
  using fw_enable by (auto simp: harmless_def same_links_def)

section \<open>Reading the lists\<close>

lemma iterator_end_loop:
  assumes "lseg (tv ei t) (tn ei t) (tp ei t) p (x # xs) x" "distinct (x # xs)"
    "\<And>y. y \<in> set (x # xs) \<Longrightarrow> unat y < length (recs t)"
  shows "iterator_end_loop ei t x x = Some (True, last (x # xs), last (x # xs))"
  using assms
proof (induction xs arbitrary: p x)
  case Nil
  then show ?case
    by (subst iterator_end_loop.simps) (simp add: rec_get_def arr_simps tn_def VALID_INDEX_def)
next
  case (Cons y ys)
  have n: "entry_get_next_index ei (recs t ! unat x) = y" "y \<noteq> 0" "y \<noteq> x"
    using Cons.prems(1,2) by (auto simp: tn_def)
  have "iterator_end_loop ei t y y = Some (True, last (y # ys), last (y # ys))"
    using Cons.prems by (intro Cons.IH [of x]) (auto simp: tn_def)
  then show ?case
    using n Cons.prems(3) [of x]
    by (subst iterator_end_loop.simps) (simp add: rec_get_def arr_simps VALID_INDEX_def Let_def)
qed

lemma iterator_end_ok:
  assumes "linv t B" "B h \<noteq> []"
  shows "ipa_table_iterator_end ei t h (Some h) =
    Some (0, iterator_zero\<lparr>it_prev_index := last (B h), it_prev_entry := Some (last (B h))\<rparr>)"
proof -
  note I = invD [OF assms(1)]
  note D = chainsD [OF I(2) assms(2)]
  have "iterator_end_loop ei t h h = Some (True, last (h # tl (B h)), last (h # tl (B h)))"
    using D(5,6,7) chains_member(3) [OF I(2), of _ h] tbl_wfD(3) [OF I(1)]
    by (intro iterator_end_loop [of t 0]) (simp_all flip: D(7))
  then show ?thesis by (simp add: ipa_table_iterator_end_def flip: D(7))
qed

text \<open>The search for a free expansion slot returns the first one.\<close>

lemma walk_find:
  assumes "tbl_wf esz bt xt off idx t" "i \<le> tab_sz t" "0 < i"
  shows "walk_loop (\<lambda>x. x) ei WHEN_SLOT_EMPTY mt_slot (tab_sz t) i t =
    Some (case List.find (\<lambda>s. \<not> tv ei t (of_nat s)) [i..<tab_sz t] of None \<Rightarrow> 0 | Some s \<Rightarrow> int s, t)"
  using assms(2,3)
proof (induction "tab_sz t - i" arbitrary: i)
  case 0
  then show ?case by (subst walk_loop.simps) simp
next
  case (Suc d)
  then have lt: "i < tab_sz t" by simp
  have b: "i < 65536" using lt tbl_wfD(7) [OF assms(1)] by simp
  have r: "rec_get t (of_nat i) = Some (recs t ! i)"
    using rec_get_in [OF assms(1), of "of_nat i"] lt b by simp
  have up: "[i..<tab_sz t] = i # [Suc i..<tab_sz t]" using lt by (simp add: upt_conv_Cons)
  have IH: "walk_loop (\<lambda>x. x) ei WHEN_SLOT_EMPTY mt_slot (tab_sz t) (Suc i) t =
    Some (case List.find (\<lambda>s. \<not> tv ei t (of_nat s)) [Suc i..<tab_sz t] of None \<Rightarrow> 0 | Some s \<Rightarrow> int s, t)"
    using Suc by (intro Suc.hyps(1)) auto
  have u: "uint (of_nat i :: uint16) = int i" using b by (simp add: uint_nat del: uint_nat [symmetric])
  show ?case
  proof (cases "entry_is_valid ei (recs t ! i)")
    case True
    then show ?thesis using lt r up b IH by (subst walk_loop.simps) (simp add: tv_def)
  next
    case False
    then show ?thesis using lt r up b u Suc.prems by (subst walk_loop.simps) (simp add: tv_def mt_slot_def Let_def)
  qed
qed

lemma FindExpnTblFreeEntry_eq:
  assumes "tbl_wf esz bt xt off idx t"
  shows "FindExpnTblFreeEntry ei t =
    (case free_slot ei t of None \<Rightarrow> Some (- 1, None, 0) | Some s \<Rightarrow> Some (0, Some (of_nat s), of_nat s))"
proof -
  note W = tbl_wfD [OF assms]
  have pos: "0 < s" if "free_slot ei t = Some s" for s
    using that W(5) by (auto simp: free_slot_def find_Some_iff)
  show ?thesis
  proof (cases "unat (table_entries t) < tab_sz t")
    case True
    then show ?thesis
      using walk_find [OF assms, of "unat (table_entries t)"] W(5,6) pos
      by (auto simp: FindExpnTblFreeEntry_def ipa_table_walk_def free_slot_def Let_def split: option.splits)
  next
    case False
    then show ?thesis using W(6)
      by (simp add: FindExpnTblFreeEntry_def ipa_table_walk_def free_slot_def Let_def)
  qed
qed

lemma free_slotD:
  assumes "tbl_wf esz bt xt off idx t" "free_slot ei t = Some s"
  shows "unat (table_entries t) \<le> s" "s < tab_sz t" "\<not> tv ei t (of_nat s)" "unat (of_nat s :: uint16) = s"
proof -
  show 1: "unat (table_entries t) \<le> s" "s < tab_sz t" "\<not> tv ei t (of_nat s)"
    using assms(2) by (auto simp: free_slot_def find_Some_iff)
  then show "unat (of_nat s :: uint16) = s" using tbl_wfD(7) [OF assms(1)] by simp
qed

lemma free_slot_None:
  assumes "free_slot ei t = None" "unat (table_entries t) \<le> unat x" "unat x < tab_sz t"
  shows "tv ei t x"
proof -
  have "of_nat (unat x) = x" by simp
  moreover have "tv ei t (of_nat (unat x))"
    using assms unfolding free_slot_def find_None_iff by auto
  ultimately show ?thesis by simp
qed

end

end
