(* ===== verification/Ipa_Table_Insert.thy ===== *)
theory Ipa_Table_Insert
  imports Ipa_Table_Chains
begin

text \<open>
  Insertion into a table, for every owner that keeps the contract \<open>table_iface\<close>: the entry goes to
  its base slot or to the end of that slot's list, the command it composes completes it, and
  before the command is posted it can be undone.
\<close>

section \<open>Insertion\<close>

context table_iface
begin

lemma tv_upd: "unat s < length (recs t) \<Longrightarrow> tv ei (t\<lparr>recs := (recs t)[unat s := e]\<rparr>) x =
    (if x = s then entry_is_valid ei e else tv ei t x)"
  by (simp add: tv_def nth_list_update word_unat_eq_iff)

lemma tn_upd: "unat s < length (recs t) \<Longrightarrow> tn ei (t\<lparr>recs := (recs t)[unat s := e]\<rparr>) x =
    (if x = s then entry_get_next_index ei e else tn ei t x)"
  by (simp add: tn_def nth_list_update word_unat_eq_iff)

lemma tp_upd: "unat s < length (recs t) \<Longrightarrow> tp ei (t\<lparr>recs := (recs t)[unat s := e]\<rparr>) x =
    (if x = s then the (entry_get_prev_index ei e s (tbl_meta t) (table_entries t)) else tp ei t x)"
  by (cases "x = s", simp add: tp_def, simp add: tp_def nth_list_update word_unat_eq_iff)

lemma view_counts [simp]:
  "tv ei (t\<lparr>cur_tbl_cnt := c\<rparr>) = tv ei t" "tn ei (t\<lparr>cur_tbl_cnt := c\<rparr>) = tn ei t" "tp ei (t\<lparr>cur_tbl_cnt := c\<rparr>) = tp ei t"
  "tv ei (t\<lparr>cur_expn_tbl_cnt := x\<rparr>) = tv ei t" "tn ei (t\<lparr>cur_expn_tbl_cnt := x\<rparr>) = tn ei t" "tp ei (t\<lparr>cur_expn_tbl_cnt := x\<rparr>) = tp ei t"
  "tv ei (t\<lparr>tbl_meta := m\<rparr>) = tv ei t" "tn ei (t\<lparr>tbl_meta := m\<rparr>) = tn ei t"
  by (simp_all add: fun_eq_iff tv_def tn_def tp_def)

lemma linvI:
  assumes "linv t B" "same_shape t t'" "meta_fits idx (tbl_meta t') (unat (expn_table_entries t))"
    "chains (unat (table_entries t)) (tab_sz t) (tv ei t') (tn ei t') (tp ei t') B'"
    "counted (unat (table_entries t)) (tab_sz t) (tv ei t') (cur_tbl_cnt t') (cur_expn_tbl_cnt t')"
  shows "linv t' B'"
  using assms tbl_wf_same_shape [OF invD(1) [OF assms(1)] assms(2,3)] same_shapeD [OF assms(2)]
  by (simp add: tbl_inv_def)

definition added ::
    "'e ipa_table \<Rightarrow> (uint16 \<Rightarrow> uint16 list) \<Rightarrow> 'u \<Rightarrow> uint16 \<Rightarrow> ipa_ioc_nat_dma_cmd \<Rightarrow>
     'e ipa_table \<Rightarrow> uint16 \<Rightarrow> ipa_ioc_nat_dma_cmd \<Rightarrow> bool" where
  "added t B u h cmd t1 s cmd1 \<longleftrightarrow>
     same_shape t t1 \<and> s \<noteq> 0 \<and> unat s < tab_sz t \<and> \<not> tv ei t s \<and> (unat s < unat (table_entries t) \<longrightarrow> s = h) \<and>
     (\<exists>t'. ipa_table_erase_entry zero t1 s = Some t' \<and> linv t' B \<and> same_shape t t' \<and>
        recs t' ! unat s = zero \<and> (\<forall>x. x \<noteq> s \<longrightarrow> recs t' ! unat x = recs t ! unat x)) \<and>
     (\<exists>ws. dma_posted cmd1 = dma_posted cmd @ ws \<and> (\<forall>one \<in> set ws. d_base_addr one \<in> {bt, xt}) \<and>
       (\<forall>g K. safe_upd g u K \<longrightarrow> (idx \<longrightarrow> g = (\<lambda>e. e) \<and> K = ukey u) \<longrightarrow>
         (\<exists>t2. hw_writes fw bt xt ws (t1\<lparr>recs := (recs t1)[unat s := g (recs t1 ! unat s)]\<rparr>) = Some t2 \<and>
           linv t2 (B(h := B h @ [s])) \<and> same_shape t t2 \<and> key (recs t2 ! unat s) = K \<and>
           (\<forall>x. x \<noteq> s \<longrightarrow> key (recs t2 ! unat x) = key (recs t ! unat x)) \<and>
           (\<forall>x. x \<noteq> s \<longrightarrow> \<not> tv ei t x \<longrightarrow> recs t2 ! unat x = recs t ! unat x))))"

lemma add_head:
  assumes I: "linv t B" and cl: "free_clean t" and u: "good u"
    and h: "0 < unat h" "unat h < unat (table_entries t)" "B h = []"
    and room: "dma_room cmd (Suc n)"
  shows "\<exists>t1 cmd1. ipa_table_add_entry ei t u h cmd = Some (0, t1, h, ucast (MakeEntryHdl t h), cmd1) \<and>
    added t B u h cmd t1 h cmd1 \<and> dma_room cmd1 n"
proof -
  note D = invD [OF I]
  note W = tbl_wfD [OF D(1)]
  have lt: "unat h < tab_sz t" using h(2) W(6) by simp
  have len: "unat h < length (recs t)" using lt W(3) by simp
  have nv: "\<not> tv ei t h" using chains_base [OF D(2) h(2) W(6)] h(3) by simp
  have h0: "h \<noteq> 0" using h(1) by auto
  obtain e' d where ins: "entry_head_insert ei (recs t ! unat h) u = Some (0, e', d)" "ready e' d u"
      "entry_is_valid ei e' = tv ei t h" "same_links ei (recs t ! unat h) e'"
    using head_insert [OF _ u, of "recs t ! unat h"] cl lt nv by (auto simp: tv_def)
  define t0 where "t0 = t\<lparr>recs := (recs t)[unat h := e']\<rparr>"
  define t1 where "t1 = t0\<lparr>cur_tbl_cnt := cur_tbl_cnt t + 1\<rparr>"
  define one where "one = dma_at esz bt xt off t0 (dma_index t0 HELP_UPDATE_HEAD) HELP_UPDATE_HEAD h d"
  have S0: "same_shape t t0" and S1: "same_shape t t1" by (simp_all add: same_shape_def t0_def t1_def)
  have W0: "tbl_wf esz bt xt off idx t0" 
    by (rule tbl_wf_same_shape [OF D(1) S0]) (use W(4) in \<open>simp add: t0_def\<close>)
  have dma: "ipa_table_add_dma_cmd t0 HELP_UPDATE_HEAD (Some h) h d cmd = Some (0, dma_push cmd one)"
    unfolding one_def by (rule add_dma_cmd_at [OF W0 _ room]) (use lt esz S0 in \<open>auto simp: same_shapeD\<close>)
  have mk: "MakeEntryHdl t1 h = MakeEntryHdl t h" by (simp add: MakeEntryHdl_def t1_def t0_def)
  have add: "ipa_table_add_entry ei t u h cmd = Some (0, t1, h, ucast (MakeEntryHdl t h), dma_push cmd one)"
    using nv ins(1) dma rec_get_in [OF D(1) lt] rec_put_in [OF D(1) lt, of e']
    by (simp add: ipa_table_add_entry_def InsertHead_def tv_def mk t0_def [symmetric]) (simp add: t1_def t0_def MakeEntryHdl_def)
  have links: "tn ei t1 = tn ei t" "tp ei t1 = tp ei t" "tv ei t1 = tv ei t"
    using ins(3,4) len by (auto simp: fun_eq_iff t1_def t0_def tv_upd tn_upd tp_upd same_links_def) (simp_all add: tn_def tp_def)
  have I0: "tn ei t h = 0" "tp ei t h = 0" using chains_invalid [OF D(2) lt nv] h(2) by auto
  define tr where "tr = t1\<lparr>recs := (recs t1)[unat h := zero], cur_tbl_cnt := cur_tbl_cnt t1 - 1\<rparr>"
  have er: "ipa_table_erase_entry zero t1 h = Some tr"
    using len h(2) by (simp add: ipa_table_erase_entry_def rec_put_def arr_simps t1_def t0_def tr_def word_less_nat_alt)
  have Ir: "linv tr B"
  proof -
    have Sr: "same_shape t tr" using S1 by (simp add: same_shape_def tr_def)
    have "tv ei tr = tv ei t" "tn ei tr = tn ei t" "tp ei tr = tp ei t"
      using len nv I0 zero_inv prev_zero [OF h(2)]
      by (auto simp: fun_eq_iff tr_def t1_def t0_def tv_upd tn_upd tp_upd)
    then show ?thesis
      using linvI [OF I Sr] D W(4) by (simp add: tr_def t1_def t0_def)
  qed
  have hw: "\<exists>t2. hw_writes fw bt xt [one] (t1\<lparr>recs := (recs t1)[unat h := g (recs t1 ! unat h)]\<rparr>) = Some t2 \<and>
      linv t2 (B(h := B h @ [h])) \<and> same_shape t t2 \<and> key (recs t2 ! unat h) = K \<and>
      (\<forall>x. x \<noteq> h \<longrightarrow> key (recs t2 ! unat x) = key (recs t ! unat x)) \<and>
      (\<forall>x. x \<noteq> h \<longrightarrow> \<not> tv ei t x \<longrightarrow> recs t2 ! unat x = recs t ! unat x)"
    if g: "safe_upd g u K" for g K
  proof -
    obtain e2 where e2: "fw (g e') (off HELP_UPDATE_HEAD) d = Some e2" "entry_is_valid ei e2" "key e2 = K"
        "same_links ei (recs t ! unat h) e2"
      using g ins(2,4) unfolding harmless_def same_links_def by metis
    define tg where "tg = t1\<lparr>recs := (recs t1)[unat h := g (recs t1 ! unat h)]\<rparr>"
    have Sg: "same_shape t0 tg" by (simp add: same_shape_def tg_def t1_def)
    have rg: "recs tg ! unat h = g e'" using len by (simp add: tg_def t1_def t0_def)
    define t2 where "t2 = t1\<lparr>recs := (recs t)[unat h := e2]\<rparr>"
    have w: "hw_writes fw bt xt [one] tg = Some t2"
      using hw_write_at [OF W0 _ esz(1,2) off esz(3) Sg, where i = h and ht = HELP_UPDATE_HEAD and data = d] lt S0 e2(1) rg
      by (simp add: one_def same_shapeD) (simp add: tg_def t2_def t1_def t0_def)
    have S2: "same_shape t t2" using S1 len by (simp add: same_shape_def t2_def)
    have v: "tv ei t2 = (tv ei t)(h := True)" "tn ei t2 = tn ei t" "tp ei t2 = tp ei t"
      using e2(2,4) len by (auto simp: fun_eq_iff t2_def t1_def t0_def tv_def tn_def tp_def same_links_def
          nth_list_update word_unat_eq_iff)
    have "linv t2 (B(h := B h @ [h]))"
      using linvI [OF I S2] chains_insert_head [OF D(2) h(1,2) W(6) nv] W(4,7) h(2,3)
        counted_put(1) [OF D(3) W(6) _ lt nv, of "tv ei t2"]
      unfolding v by (simp add: t2_def t1_def t0_def)
    moreover have "key (recs t2 ! unat h) = K" using len e2(3) by (simp add: t2_def)
    moreover have "\<forall>x. x \<noteq> h \<longrightarrow> key (recs t2 ! unat x) = key (recs t ! unat x)"
      "\<forall>x. x \<noteq> h \<longrightarrow> \<not> tv ei t x \<longrightarrow> recs t2 ! unat x = recs t ! unat x"
      by (auto simp: t2_def nth_list_update word_unat_eq_iff)
    ultimately show ?thesis using w S2 tg_def by blast
  qed
  have "added t B u h cmd t1 h (dma_push cmd one)"
    unfolding added_def
  proof (intro conjI)
    show "\<exists>t'. ipa_table_erase_entry zero t1 h = Some t' \<and> linv t' B \<and> same_shape t t' \<and>
        recs t' ! unat h = zero \<and> (\<forall>x. x \<noteq> h \<longrightarrow> recs t' ! unat x = recs t ! unat x)"
      using er Ir S1 len by (intro exI [of _ tr])
        (auto simp: same_shape_def tr_def t1_def t0_def nth_list_update word_unat_eq_iff)
    show "\<exists>ws. dma_posted (dma_push cmd one) = dma_posted cmd @ ws \<and> (\<forall>one \<in> set ws. d_base_addr one \<in> {bt, xt}) \<and>
       (\<forall>g K. safe_upd g u K \<longrightarrow> (idx \<longrightarrow> g = (\<lambda>e. e) \<and> K = ukey u) \<longrightarrow>
         (\<exists>t2. hw_writes fw bt xt ws (t1\<lparr>recs := (recs t1)[unat h := g (recs t1 ! unat h)]\<rparr>) = Some t2 \<and>
           linv t2 (B(h := B h @ [h])) \<and> same_shape t t2 \<and> key (recs t2 ! unat h) = K \<and>
           (\<forall>x. x \<noteq> h \<longrightarrow> key (recs t2 ! unat x) = key (recs t ! unat x)) \<and>
           (\<forall>x. x \<noteq> h \<longrightarrow> \<not> tv ei t x \<longrightarrow> recs t2 ! unat x = recs t ! unat x)))"
    proof -
      have "d_base_addr one \<in> {bt, xt}" unfolding one_def by (rule dma_at_base)
      then show ?thesis using hw dma_push(1) [OF room] by (intro exI [of _ "[one]"]) auto
    qed
  qed (use S1 h0 lt nv in auto)
  with add dma_push(2) [OF room] show ?thesis by blast
qed

text \<open>The software part of an insertion behind a list: a free slot is filled and linked back.\<close>

lemma add_tail_step:
  assumes I: "linv t B" and cl: "free_clean t" and u: "good u" and h: "B h \<noteq> []" and fr: "free_slot ei t = Some k"
    and room: "dma_room cmd (Suc (Suc n))"
  shows "\<exists>e m d cmd1. ipa_table_add_entry ei t u h cmd =
      Some (0, t\<lparr>recs := (recs t)[k := e], tbl_meta := m, cur_expn_tbl_cnt := cur_expn_tbl_cnt t + 1\<rparr>,
        of_nat k, ucast (MakeEntryHdl t (of_nat k)), cmd1) \<and>
    dma_room cmd1 n \<and>
    dma_posted cmd1 = dma_posted cmd @
      (if idx then [] else [dma_at esz bt xt off t (dma_index t HELP_UPDATE_HEAD) HELP_UPDATE_HEAD (of_nat k) d]) @
      [dma_at esz bt xt off t (dma_index t HELP_UPDATE_ENTRY) HELP_UPDATE_ENTRY (last (B h)) (of_nat k)] \<and>
    meta_fits idx m (unat (expn_table_entries t)) \<and>
    entry_get_next_index ei e = tn ei t (of_nat k) \<and>
    entry_get_prev_index ei e (of_nat k) m (table_entries t) = Some (last (B h)) \<and>
    (\<forall>j x. j \<noteq> of_nat k \<longrightarrow> entry_get_prev_index ei x j m (table_entries t) =
       entry_get_prev_index ei x j (tbl_meta t) (table_entries t)) \<and>
    (if idx then entry_is_valid ei e \<and> key e = ukey u else ready e d u)"
proof -
  note D = invD [OF I]
  note W = tbl_wfD [OF D(1)]
  note F = free_slotD [OF D(1) fr]
  define s :: uint16 where "s = of_nat k"
  have us: "unat s = k" and nv: "\<not> tv ei t s" using F by (simp_all add: s_def)
  have slt: "unat s < tab_sz t" "unat (table_entries t) \<le> unat s" using F us by auto
  have len: "unat s < length (recs t)" using slt W(3) by simp
  define l where "l = last (B h)"
  have lin: "l \<in> set (B h)" using h by (simp add: l_def)
  note lM = chains_member [OF D(2) lin]
  have hv: "tv ei t h" using chainsD(7) [OF D(2) h] chains_member(1) [OF D(2), of h h] by (metis list.set_intros(1))
  have hlt: "unat h < tab_sz t" using chainsD(2,3) [OF D(2) h] by simp
  define r where "r = recs t ! unat s"
  have rc: "clean r" using cl slt(1) nv by (simp add: r_def)
  obtain d e0 where e0: "(if idx then (case entry_tail_insert ei r u of None \<Rightarrow> None | Some (q, x) \<Rightarrow> Some (q, x, 0))
       else entry_head_insert ei r u) = Some (0, e0, d)" "same_links ei r e0"
      "if idx then entry_is_valid ei e0 \<and> key e0 = ukey u else ready e0 d u"
  proof (cases idx)
    case True
    then show ?thesis using tail_insert [OF True rc u] that by auto
  next
    case False
    then show ?thesis using head_insert [OF rc u] that by auto
  qed
  have mf: "meta_fits idx (tbl_meta t) (unat (expn_table_entries t))" by (rule W(4))
  have sx: "unat s < unat (table_entries t) + unat (expn_table_entries t)" using slt by (simp add: tab_sz_def)
  obtain e m where e: "entry_set_prev_index ei e0 s l (tbl_meta t) (table_entries t) = Some (e, m)"
      "meta_fits idx m (unat (expn_table_entries t))" "entry_is_valid ei e = entry_is_valid ei e0"
      "entry_get_next_index ei e = entry_get_next_index ei e0" "key e = key e0"
      "\<forall>d u. ready e0 d u \<longrightarrow> ready e d u" "entry_get_prev_index ei e s m (table_entries t) = Some l"
      "\<forall>j x. j \<noteq> s \<longrightarrow> entry_get_prev_index ei x j m (table_entries t) =
         entry_get_prev_index ei x j (tbl_meta t) (table_entries t)"
    using set_prev [OF mf slt(2) sx, of e0 l] by blast
  define t0 where "t0 = t\<lparr>recs := (recs t)[unat s := e], tbl_meta := m\<rparr>"
  have S0: "same_shape t t0" by (simp add: same_shape_def t0_def)
  have W0: "tbl_wf esz bt xt off idx t0"
    by (rule tbl_wf_same_shape [OF D(1) S0]) (use e(2) in \<open>simp add: t0_def\<close>)
  have at: "dma_at esz bt xt off t0 (dma_index t0 ht) ht i x = dma_at esz bt xt off t (dma_index t ht) ht i x" for ht i x
    by (simp add: dma_at_def dma_index_def t0_def)
  define one where "one = dma_at esz bt xt off t (dma_index t HELP_UPDATE_HEAD) HELP_UPDATE_HEAD s d"
  define two where "two = dma_at esz bt xt off t (dma_index t HELP_UPDATE_ENTRY) HELP_UPDATE_ENTRY l s"
  have d1: "ipa_table_add_dma_cmd t0 HELP_UPDATE_HEAD (Some s) s d cmd = Some (0, dma_push cmd one)"
    using add_dma_cmd_at [OF W0 _ room, of s HELP_UPDATE_HEAD d] slt(1) esz same_shapeD(10) [OF S0]
    by (simp add: at one_def)
  have d2: "ipa_table_add_dma_cmd t0 HELP_UPDATE_ENTRY (Some l) l s c = Some (0, dma_push c two)"
    if "dma_room c (Suc n)" for c
    using add_dma_cmd_at [OF W0 _ that, of l HELP_UPDATE_ENTRY s] lM(3) esz same_shapeD(10) [OF S0]
    by (simp add: at two_def)
  have r1: "dma_room (dma_push cmd one) (Suc n)" "dma_room cmd (Suc n)"
    using dma_push(2) [OF room] dma_room_mono [OF room] by auto
  define cmd1 where "cmd1 = (if idx then dma_push cmd two else dma_push (dma_push cmd one) two)"
  have c: "dma_posted cmd1 = dma_posted cmd @ (if idx then [] else [one]) @ [two]" "dma_room cmd1 n"
    using dma_push [OF r1(1)] dma_push [OF r1(2)] dma_push [OF room] by (auto simp: cmd1_def)
  have mk: "MakeEntryHdl (t0\<lparr>cur_expn_tbl_cnt := cur_expn_tbl_cnt t + 1\<rparr>) s = MakeEntryHdl t s"
    by (simp add: MakeEntryHdl_def t0_def)
  have put: "rec_put t s e0 = Some (t\<lparr>recs := (recs t)[unat s := e0]\<rparr>)"
      "rec_put (t\<lparr>recs := (recs t)[unat s := e0]\<rparr>) s e = Some (t\<lparr>recs := (recs t)[unat s := e]\<rparr>)"
    using len by (simp_all add: rec_put_def arr_simps)
  have add: "ipa_table_add_entry ei t u h cmd =
      Some (0, t0\<lparr>cur_expn_tbl_cnt := cur_expn_tbl_cnt t + 1\<rparr>, s, ucast (MakeEntryHdl t s), cmd1)"
  proof (cases idx)
    case True
    with mf obtain ms where "tbl_meta t = Some ms" by (auto simp: meta_fits_def split: option.splits)
    with True show ?thesis
      using hv iterator_end_ok [OF I h] FindExpnTblFreeEntry_eq [OF D(1)] fr e0(1) e(1) d2 r1 mk
        rec_get_in [OF D(1) hlt] rec_get_in [OF D(1) slt(1)] put
      by (simp add: ipa_table_add_entry_def InsertTail_def tv_def r_def s_def [symmetric] l_def [symmetric]
          cmd1_def t0_def Let_def split: option.splits)
  next
    case False
    with mf have "tbl_meta t = None" by (auto simp: meta_fits_def split: option.splits)
    with False show ?thesis
      using hv iterator_end_ok [OF I h] FindExpnTblFreeEntry_eq [OF D(1)] fr e0(1) e(1) d1 d2 r1 mk
        rec_get_in [OF D(1) hlt] rec_get_in [OF D(1) slt(1)] put
      by (simp add: ipa_table_add_entry_def InsertTail_def tv_def r_def s_def [symmetric] l_def [symmetric]
          cmd1_def t0_def Let_def)
  qed
  then show ?thesis
    using c e e0(2,3) us
    by (intro exI [of _ e] exI [of _ m] exI [of _ d] exI [of _ cmd1])
      (auto simp: t0_def one_def two_def s_def [symmetric] l_def [symmetric] same_links_def tn_def r_def)
qed

text \<open>Undoing it before the command is posted, and what the posted command completes.\<close>

lemma tail_views:
  assumes "linv t B" "free_slot ei t = Some k" "meta_fits idx m (unat (expn_table_entries t))"
    "\<forall>j x. j \<noteq> of_nat k \<longrightarrow> entry_get_prev_index ei x j m (table_entries t) =
       entry_get_prev_index ei x j (tbl_meta t) (table_entries t)"
    and t1_def: "t1 = t\<lparr>recs := (recs t)[k := e], tbl_meta := m, cur_expn_tbl_cnt := c\<rparr>"
  shows "tv ei t1 x = (if x = of_nat k then entry_is_valid ei e else tv ei t x)"
    "tn ei t1 x = (if x = of_nat k then entry_get_next_index ei e else tn ei t x)"
    "tp ei t1 x = (if x = of_nat k then the (entry_get_prev_index ei e x m (table_entries t)) else tp ei t x)"
proof -
  note F = free_slotD [OF invD(1) [OF assms(1)] assms(2)]
  have k: "unat (of_nat k :: uint16) = k" "k < length (recs t)"
    using F tbl_wfD(3) [OF invD(1) [OF assms(1)]] by auto
  have x: "unat x = k \<longleftrightarrow> x = of_nat k" using k(1) by (auto simp: word_unat_eq_iff)
  show "tv ei t1 x = (if x = of_nat k then entry_is_valid ei e else tv ei t x)"
    "tn ei t1 x = (if x = of_nat k then entry_get_next_index ei e else tn ei t x)"
    using k by (auto simp: tv_def tn_def t1_def nth_list_update x simp flip: x)
  show "tp ei t1 x = (if x = of_nat k then the (entry_get_prev_index ei e x m (table_entries t)) else tp ei t x)"
    using k assms(4) x by (auto simp: tp_def t1_def nth_list_update)
qed

lemma tail_rollback:
  assumes I: "linv t B" and fr: "free_slot ei t = Some k"
    and m: "meta_fits idx m (unat (expn_table_entries t))"
    "\<forall>j x. j \<noteq> of_nat k \<longrightarrow> entry_get_prev_index ei x j m (table_entries t) =
       entry_get_prev_index ei x j (tbl_meta t) (table_entries t)"
  shows "\<exists>t'. ipa_table_erase_entry zero
      (t\<lparr>recs := (recs t)[k := e], tbl_meta := m, cur_expn_tbl_cnt := cur_expn_tbl_cnt t + 1\<rparr>) (of_nat k) = Some t' \<and>
    linv t' B \<and> same_shape t t' \<and> recs t' ! k = zero \<and>
    (\<forall>x :: uint16. x \<noteq> of_nat k \<longrightarrow> recs t' ! unat x = recs t ! unat x)"
proof -
  note D = invD [OF I]
  note W = tbl_wfD [OF D(1)]
  note F = free_slotD [OF D(1) fr]
  define t' where "t' = t\<lparr>recs := (recs t)[k := zero], tbl_meta := m, cur_expn_tbl_cnt := cur_expn_tbl_cnt t\<rparr>"
  have "ipa_table_erase_entry zero
      (t\<lparr>recs := (recs t)[k := e], tbl_meta := m, cur_expn_tbl_cnt := cur_expn_tbl_cnt t + 1\<rparr>) (of_nat k) = Some t'"
    using F W(3) by (simp add: ipa_table_erase_entry_def rec_put_def arr_simps t'_def word_less_nat_alt)
  moreover have S: "same_shape t t'" by (simp add: same_shape_def t'_def)
  moreover have "linv t' B"
  proof (rule linvI [OF I S])
    note V = tail_views [OF I fr m t'_def]
    have k: "tn ei t (of_nat k) = 0" using chains_invalid [OF D(2) _ F(3)] F by simp
    show "chains (unat (table_entries t)) (tab_sz t) (tv ei t') (tn ei t') (tp ei t') B"
      by (rule chains_cong [OF D(2)]) (use V F k zero_inv in auto)
    have "tv ei t' = tv ei t" using V(1) F(3) zero_inv by (auto simp: fun_eq_iff)
    then show "counted (unat (table_entries t)) (tab_sz t) (tv ei t') (cur_tbl_cnt t') (cur_expn_tbl_cnt t')"
      using D(3) by (simp add: t'_def)
  qed (use m in \<open>simp add: t'_def\<close>)
  moreover have "\<forall>x :: uint16. x \<noteq> of_nat k \<longrightarrow> recs t' ! unat x = recs t ! unat x"
  proof (intro allI impI)
    fix x :: uint16 assume "x \<noteq> of_nat k"
    then have "k \<noteq> unat x" by auto
    then show "recs t' ! unat x = recs t ! unat x" by (simp add: t'_def)
  qed
  moreover have "recs t' ! k = zero" using F(2) W(3) by (simp add: t'_def)
  ultimately show ?thesis by blast
qed

lemma tail_done:
  assumes I: "linv t B" and h: "B h \<noteq> []" and fr: "free_slot ei t = Some k"
    and m: "meta_fits idx m (unat (expn_table_entries t))"
    "\<forall>j x. j \<noteq> of_nat k \<longrightarrow> entry_get_prev_index ei x j m (table_entries t) =
       entry_get_prev_index ei x j (tbl_meta t) (table_entries t)"
    and e: "entry_is_valid ei e" "entry_get_next_index ei e = tn ei t (of_nat k)"
      "entry_get_prev_index ei e (of_nat k) m (table_entries t) = Some (last (B h))" "key e = K"
    and el: "entry_get_next_index ei el = of_nat k" "entry_is_valid ei el" "key el = key (recs t ! unat (last (B h)))"
      "\<forall>i m te. entry_get_prev_index ei el i m te = entry_get_prev_index ei (recs t ! unat (last (B h))) i m te"
    and t2_def: "t2 = t\<lparr>recs := (recs t)[k := e, unat (last (B h)) := el], tbl_meta := m,
      cur_expn_tbl_cnt := cur_expn_tbl_cnt t + 1\<rparr>"
  shows "linv t2 (B(h := B h @ [of_nat k]))" "same_shape t t2" "key (recs t2 ! k) = K"
    "\<forall>x :: uint16. x \<noteq> of_nat k \<longrightarrow> key (recs t2 ! unat x) = key (recs t ! unat x)"
    "\<forall>x :: uint16. x \<noteq> of_nat k \<longrightarrow> \<not> tv ei t x \<longrightarrow> recs t2 ! unat x = recs t ! unat x"
proof -
  note D = invD [OF I]
  note W = tbl_wfD [OF D(1)]
  note F = free_slotD [OF D(1) fr]
  define l where "l = last (B h)"
  have lin: "l \<in> set (B h)" using h by (simp add: l_def)
  note L = chains_member [OF D(2) lin]
  define t1 where "t1 = t\<lparr>recs := (recs t)[k := e], tbl_meta := m, cur_expn_tbl_cnt := cur_expn_tbl_cnt t + 1\<rparr>"
  have lk: "l \<noteq> of_nat k" "unat l \<noteq> k" using L(1) F(3,4) by auto
  have len: "unat l < length (recs t)" "k < length (recs t)" using L(3) F(2) W(3) by auto
  have t2: "t2 = t1\<lparr>recs := (recs t1)[unat l := el]\<rparr>" by (simp add: t2_def t1_def l_def)
  have rl: "recs t1 ! unat l = recs t ! unat l" using lk by (simp add: t1_def)
  note V = tail_views [OF I fr m t1_def]
  have len1: "unat l < length (recs t1)" using len by (simp add: t1_def)
  have v: "tv ei t2 = (tv ei t)(of_nat k := True)"
    unfolding t2 using V(1) L(1) e(1) el(2) lk by (auto simp: fun_eq_iff tv_upd [OF len1])
  have n: "tn ei t2 = (tn ei t)(l := of_nat k)"
    unfolding t2 using V(2) e(2) el(1) lk by (auto simp: fun_eq_iff tn_upd [OF len1])
  have p: "tp ei t2 = (tp ei t)(of_nat k := l)"
    unfolding t2 using V(3) e(3) el(4) lk m(2)
    by (auto simp: fun_eq_iff tp_upd [OF len1] l_def [symmetric]) (simp add: tp_def t1_def)
  show S: "same_shape t t2" by (simp add: same_shape_def t2_def)
  show "linv t2 (B(h := B h @ [of_nat k]))"
  proof (rule linvI [OF I S])
    show "chains (unat (table_entries t)) (tab_sz t) (tv ei t2) (tn ei t2) (tp ei t2) (B(h := B h @ [of_nat k]))"
      using chains_insert_tail [OF D(2) h, of "of_nat k"] F by (simp add: v n p l_def)
    show "counted (unat (table_entries t)) (tab_sz t) (tv ei t2) (cur_tbl_cnt t2) (cur_expn_tbl_cnt t2)"
    proof -
      have "cur_tbl_cnt t2 = cur_tbl_cnt t" "cur_expn_tbl_cnt t2 = cur_expn_tbl_cnt t + 1"
        by (simp_all add: t2_def)
      then show ?thesis
        using counted_put(2) [OF D(3) W(6) _ _ F(3), of "tv ei t2"] F W(7) by (simp add: v)
    qed
  qed (use m in \<open>simp add: t2_def\<close>)
  show "key (recs t2 ! k) = K" using e(4) lk len by (simp add: t2_def l_def [symmetric])
  show "\<forall>x :: uint16. x \<noteq> of_nat k \<longrightarrow> key (recs t2 ! unat x) = key (recs t ! unat x)"
    using el(3) len by (auto simp: t2_def l_def [symmetric] nth_list_update word_unat_eq_iff)
  show "\<forall>x :: uint16. x \<noteq> of_nat k \<longrightarrow> \<not> tv ei t x \<longrightarrow> recs t2 ! unat x = recs t ! unat x"
  proof (intro allI impI)
    fix x :: uint16 assume x: "x \<noteq> of_nat k" "\<not> tv ei t x"
    then have "x \<noteq> l" using L(1) by auto
    moreover have "k \<noteq> unat x" using x(1) by auto
    ultimately show "recs t2 ! unat x = recs t ! unat x"
      by (auto simp: t2_def l_def [symmetric] nth_list_update word_unat_eq_iff)
  qed
qed

lemma add_tail:
  assumes I: "linv t B" and cl: "free_clean t" and u: "good u" and h: "B h \<noteq> []" and fr: "free_slot ei t = Some k"
    and room: "dma_room cmd (Suc (Suc n))"
  shows "\<exists>t1 cmd1. ipa_table_add_entry ei t u h cmd =
      Some (0, t1, of_nat k, ucast (MakeEntryHdl t (of_nat k)), cmd1) \<and>
    added t B u h cmd t1 (of_nat k) cmd1 \<and> dma_room cmd1 n"
proof -
  note D = invD [OF I]
  note W = tbl_wfD [OF D(1)]
  note F = free_slotD [OF D(1) fr]
  define s :: uint16 where "s = of_nat k"
  define l where "l = last (B h)"
  obtain e m d cmd1 where st: "ipa_table_add_entry ei t u h cmd =
      Some (0, t\<lparr>recs := (recs t)[k := e], tbl_meta := m, cur_expn_tbl_cnt := cur_expn_tbl_cnt t + 1\<rparr>,
        s, ucast (MakeEntryHdl t s), cmd1)" "dma_room cmd1 n"
    "dma_posted cmd1 = dma_posted cmd @
      (if idx then [] else [dma_at esz bt xt off t (dma_index t HELP_UPDATE_HEAD) HELP_UPDATE_HEAD s d]) @
      [dma_at esz bt xt off t (dma_index t HELP_UPDATE_ENTRY) HELP_UPDATE_ENTRY l s]"
    and m: "meta_fits idx m (unat (expn_table_entries t))"
    "\<forall>j x. j \<noteq> of_nat k \<longrightarrow> entry_get_prev_index ei x j m (table_entries t) =
       entry_get_prev_index ei x j (tbl_meta t) (table_entries t)"
    and e: "entry_get_next_index ei e = tn ei t s"
      "entry_get_prev_index ei e s m (table_entries t) = Some l"
      "if idx then entry_is_valid ei e \<and> key e = ukey u else ready e d u"
    using add_tail_step [OF I cl u h fr room] unfolding s_def l_def by blast
  define t1 where "t1 = t\<lparr>recs := (recs t)[k := e], tbl_meta := m, cur_expn_tbl_cnt := cur_expn_tbl_cnt t + 1\<rparr>"
  define w1 where "w1 = dma_at esz bt xt off t (dma_index t HELP_UPDATE_HEAD) HELP_UPDATE_HEAD s d"
  define w2 where "w2 = dma_at esz bt xt off t (dma_index t HELP_UPDATE_ENTRY) HELP_UPDATE_ENTRY l s"
  have us: "unat s = k" and sk: "s \<noteq> 0" and nv: "\<not> tv ei t s"
    using F W(5) by (auto simp: s_def)
  have slt: "unat s < tab_sz t" using F us by simp
  have lin: "l \<in> set (B h)" using h by (simp add: l_def)
  note L = chains_member [OF D(2) lin]
  have "l \<noteq> s" using L(1) nv by auto
  then have lk: "l \<noteq> s" "unat l \<noteq> k" using us by (simp, metis word_unat_eq_iff)
  have len: "unat l < length (recs t)" "k < length (recs t)" using L(3) slt us W(3) by auto
  have S1: "same_shape t t1" by (simp add: same_shape_def t1_def)
  obtain el where el: "fw (recs t ! unat l) (off HELP_UPDATE_ENTRY) s = Some el"
      "entry_get_next_index ei el = s" "entry_is_valid ei el" "key el = key (recs t ! unat l)"
      "\<forall>i m te. entry_get_prev_index ei el i m te = entry_get_prev_index ei (recs t ! unat l) i m te"
    using fw_next [of "recs t ! unat l" s] L(1) by (auto simp: tv_def)
  have hw2: "hw_write fw bt xt w2 t' = Some (t'\<lparr>recs := (recs t')[unat l := el]\<rparr>)"
    if "same_shape t t'" "recs t' ! unat l = recs t ! unat l" for t'
    using hw_write_at [OF D(1) L(3) esz(1,2) off esz(3) that(1), where ht = HELP_UPDATE_ENTRY and data = s] el(1) that(2)
    by (simp add: w2_def)
  have hw: "\<exists>t2. hw_writes fw bt xt ((if idx then [] else [w1]) @ [w2])
        (t1\<lparr>recs := (recs t1)[unat s := g (recs t1 ! unat s)]\<rparr>) = Some t2 \<and>
      linv t2 (B(h := B h @ [s])) \<and> same_shape t t2 \<and> key (recs t2 ! unat s) = K \<and>
      (\<forall>x. x \<noteq> s \<longrightarrow> key (recs t2 ! unat x) = key (recs t ! unat x)) \<and>
      (\<forall>x. x \<noteq> s \<longrightarrow> \<not> tv ei t x \<longrightarrow> recs t2 ! unat x = recs t ! unat x)"
    if g: "safe_upd g u K" "idx \<longrightarrow> g = (\<lambda>e. e) \<and> K = ukey u" for g K
  proof -
    have "\<exists>e2. (if idx then e2 = e else fw (g e) (off HELP_UPDATE_HEAD) d = Some e2) \<and>
        entry_is_valid ei e2 \<and> key e2 = K \<and> same_links ei e e2"
    proof (cases idx)
      case True
      then show ?thesis using e(3) g(2) by (simp add: same_links_def)
    next
      case False
      then have "ready e d u" using e(3) by simp
      then show ?thesis using False g(1) unfolding harmless_def same_links_def by metis
    qed
    then obtain e2 where e2: "if idx then e2 = e else fw (g e) (off HELP_UPDATE_HEAD) d = Some e2"
        "entry_is_valid ei e2" "key e2 = K" "same_links ei e e2" by blast
    define tg where "tg = t1\<lparr>recs := (recs t1)[unat s := g (recs t1 ! unat s)]\<rparr>"
    define th where "th = t1\<lparr>recs := (recs t)[k := e2]\<rparr>"
    have Sg: "same_shape t tg" "same_shape t th" by (simp_all add: same_shape_def tg_def th_def t1_def)
    have "hw_writes fw bt xt (if idx then [] else [w1]) tg = Some th"
    proof (cases idx)
      case True
      then show ?thesis using e2(1) g(2) by (simp add: tg_def th_def t1_def us)
    next
      case False
      have "recs tg ! unat s = g e" using len us by (simp add: tg_def t1_def)
      then show ?thesis
        using hw_write_at [OF D(1) slt esz(1,2) off esz(3) Sg(1), where ht = HELP_UPDATE_HEAD and data = d] e2(1) False
        by (simp add: w1_def us) (simp add: tg_def th_def t1_def us)
    qed
    moreover have "hw_write fw bt xt w2 th = Some (th\<lparr>recs := (recs th)[unat l := el]\<rparr>)"
      using hw2 [OF Sg(2)] lk by (simp add: th_def)
    ultimately have w: "hw_writes fw bt xt ((if idx then [] else [w1]) @ [w2]) tg =
        Some (th\<lparr>recs := (recs th)[unat l := el]\<rparr>)"
      by (simp add: hw_writes_append)
    have n: "entry_get_next_index ei e2 = tn ei t s" "entry_get_prev_index ei e2 s m (table_entries t) = Some l"
      using e(1,2) e2(4) by (simp_all add: same_links_def)
    note T0 = tail_done [OF I h fr m, folded l_def s_def]
    note T = T0 [OF e2(2) n e2(3) el(2,3,4,5) refl]
    have eq: "th\<lparr>recs := (recs th)[unat l := el]\<rparr> =
        t\<lparr>recs := (recs t)[k := e2, unat l := el], tbl_meta := m, cur_expn_tbl_cnt := cur_expn_tbl_cnt t + 1\<rparr>"
      by (simp add: th_def t1_def)
    show ?thesis
      using w T unfolding eq tg_def us by blast
  qed
  have "added t B u h cmd t1 s cmd1"
    unfolding added_def
  proof (intro conjI)
    show "\<exists>t'. ipa_table_erase_entry zero t1 s = Some t' \<and> linv t' B \<and> same_shape t t' \<and>
        recs t' ! unat s = zero \<and> (\<forall>x. x \<noteq> s \<longrightarrow> recs t' ! unat x = recs t ! unat x)"
      using tail_rollback [OF I fr m] unfolding t1_def us unfolding s_def by blast
    have "d_base_addr w1 \<in> {bt, xt}" "d_base_addr w2 \<in> {bt, xt}"
      unfolding w1_def w2_def by (rule dma_at_base)+
    then show "\<exists>ws. dma_posted cmd1 = dma_posted cmd @ ws \<and> (\<forall>one \<in> set ws. d_base_addr one \<in> {bt, xt}) \<and>
       (\<forall>g K. safe_upd g u K \<longrightarrow> (idx \<longrightarrow> g = (\<lambda>e. e) \<and> K = ukey u) \<longrightarrow>
         (\<exists>t2. hw_writes fw bt xt ws (t1\<lparr>recs := (recs t1)[unat s := g (recs t1 ! unat s)]\<rparr>) = Some t2 \<and>
           linv t2 (B(h := B h @ [s])) \<and> same_shape t t2 \<and> key (recs t2 ! unat s) = K \<and>
           (\<forall>x. x \<noteq> s \<longrightarrow> key (recs t2 ! unat x) = key (recs t ! unat x)) \<and>
           (\<forall>x. x \<noteq> s \<longrightarrow> \<not> tv ei t x \<longrightarrow> recs t2 ! unat x = recs t ! unat x)))"
      using hw st(3) unfolding w1_def [symmetric] w2_def [symmetric]
      by (intro exI [of _ "(if idx then [] else [w1]) @ [w2]"]) auto
  qed (use S1 sk slt nv F us in \<open>auto simp: s_def\<close>)
  then show ?thesis using st(1,2) unfolding t1_def [symmetric] s_def by blast
qed

text \<open>No free slot: nothing changes.  A client's data that the owner rejects: no slot becomes valid.\<close>

lemma list_head:
  assumes "linv t B" "B h \<noteq> []"
  shows "tv ei t h" "unat h < tab_sz t" "rec_get t h = Some (recs t ! unat h)"
proof -
  note D = invD [OF assms(1)]
  show "tv ei t h"
    using chainsD(7) [OF D(2) assms(2)] chains_member(1) [OF D(2), of h h] by (metis list.set_intros(1))
  show "unat h < tab_sz t" using chainsD(2,3) [OF D(2) assms(2)] by simp
  then show "rec_get t h = Some (recs t ! unat h)" by (rule rec_get_in [OF D(1)])
qed

lemma add_full:
  assumes "linv t B" "B h \<noteq> []" "free_slot ei t = None"
  shows "ipa_table_add_entry ei t u h cmd = Some (- 1, t, h, 0, cmd)"
  using list_head [OF assms(1,2)] iterator_end_ok [OF assms(1,2)]
    FindExpnTblFreeEntry_eq [OF invD(1) [OF assms(1)]] assms(3)
  by (simp add: ipa_table_add_entry_def InsertTail_def tv_def)

lemma upd_same:
  assumes I: "linv t B" and i: "unat i < tab_sz t"
    and e: "entry_is_valid ei e = tv ei t i" "same_links ei (recs t ! unat i) e"
  shows "linv (t\<lparr>recs := (recs t)[unat i := e]\<rparr>) B" "same_shape t (t\<lparr>recs := (recs t)[unat i := e]\<rparr>)"
proof -
  note D = invD [OF I]
  have len: "unat i < length (recs t)" using i tbl_wfD(3) [OF D(1)] by simp
  let ?t = "t\<lparr>recs := (recs t)[unat i := e]\<rparr>"
  show S: "same_shape t ?t" by (simp add: same_shape_def)
  have "tv ei ?t = tv ei t" "tn ei ?t = tn ei t" "tp ei ?t = tp ei t"
    using e len by (auto simp: fun_eq_iff tv_upd tn_upd tp_upd same_links_def) (simp_all add: tn_def tp_def)
  then show "linv ?t B"
    using linvI [OF I S] D tbl_wfD(4) [OF D(1)] by simp
qed

lemma add_rejected:
  assumes I: "linv t B" and ni: "\<not> idx" and h: "0 < unat h" "unat h < unat (table_entries t)" and r: "r \<noteq> 0"
    and rej: "\<And>e. \<exists>e' d. entry_head_insert ei e u = Some (r, e', d) \<and>
      entry_is_valid ei e' = entry_is_valid ei e \<and> same_links ei e e'"
  shows "\<exists>r' t'. ipa_table_add_entry ei t u h cmd = Some (r', t', h, 0, cmd) \<and> r' \<noteq> 0 \<and> r' \<in> {- 1, r} \<and>
    linv t' B \<and> same_shape t t' \<and>
    (\<forall>x :: uint16. recs t' ! unat x = recs t ! unat x \<or> \<not> tv ei t x \<and>
      (\<exists>d. entry_head_insert ei (recs t ! unat x) u = Some (r, recs t' ! unat x, d)))"
proof -
  note D = invD [OF I]
  note W = tbl_wfD [OF D(1)]
  have m: "tbl_meta t = None" using W(4) ni by (auto simp: meta_fits_def split: option.splits)
  have hlt: "unat h < tab_sz t" using h(2) W(6) by simp
  have frame: "\<forall>x :: uint16. (recs t)[unat i := e'] ! unat x = recs t ! unat x \<or> \<not> tv ei t x \<and>
      (\<exists>d. entry_head_insert ei (recs t ! unat x) u = Some (r, (recs t)[unat i := e'] ! unat x, d))"
    if "unat i < tab_sz t" "\<not> tv ei t i" "entry_head_insert ei (recs t ! unat i) u = Some (r, e', d)" for i :: uint16 and e' d
  proof
    fix x :: uint16
    show "(recs t)[unat i := e'] ! unat x = recs t ! unat x \<or> \<not> tv ei t x \<and>
      (\<exists>d. entry_head_insert ei (recs t ! unat x) u = Some (r, (recs t)[unat i := e'] ! unat x, d))"
      using that W(3) by (cases "x = i", simp, simp add: nth_list_update word_unat_eq_iff)
  qed
  show ?thesis
  proof (cases "B h = []")
    case True
    then have nv: "\<not> tv ei t h" using chains_base [OF D(2) h(2) W(6)] by simp
    obtain e' d where e: "entry_head_insert ei (recs t ! unat h) u = Some (r, e', d)"
        "entry_is_valid ei e' = tv ei t h" "same_links ei (recs t ! unat h) e'"
      using rej [of "recs t ! unat h"] by (auto simp: tv_def)
    then show ?thesis
      using nv r rec_get_in [OF D(1) hlt] rec_put_in [OF D(1) hlt] upd_same [OF I hlt] frame [OF hlt nv e(1)]
      by (simp add: ipa_table_add_entry_def InsertHead_def tv_def)
  next
    case False
    note H = list_head [OF I False]
    show ?thesis
    proof (cases "free_slot ei t")
      case None
      then show ?thesis using add_full [OF I False] I same_shape_refl by auto
    next
      case (Some k)
      note F = free_slotD [OF D(1) Some]
      define s :: uint16 where "s = of_nat k"
      have slt: "unat s < tab_sz t" using F by (simp add: s_def)
      obtain e' d where e: "entry_head_insert ei (recs t ! unat s) u = Some (r, e', d)"
          "entry_is_valid ei e' = tv ei t s" "same_links ei (recs t ! unat s) e'"
        using rej [of "recs t ! unat s"] by (auto simp: tv_def)
      then show ?thesis
        using frame [OF slt _ e(1)] F(3) H r m iterator_end_ok [OF I False] FindExpnTblFreeEntry_eq [OF D(1)] Some
          rec_get_in [OF D(1) slt] rec_put_in [OF D(1) slt] upd_same [OF I slt]
        by (simp add: ipa_table_add_entry_def InsertTail_def tv_def s_def [symmetric])
    qed
  qed
qed

end

end
