(* ===== verification/Ipa_Table_Remove.thy ===== *)
theory Ipa_Table_Remove
  imports Ipa_Table_Insert
begin

text \<open>
  Iteration over and removal from a table, for every owner that keeps the contract \<open>table_iface\<close>:
  the iterator describes its place in the list, the delete command unlinks the entry for the
  hardware, and the library then links the successor back and zeroes the slot.
\<close>

section \<open>Searching a list\<close>

text \<open>
  The search of the hardware: from a base slot it follows the next indices to the first record
  that matches, at most \<open>n\<close> records.
\<close>

fun chain_search ::
    "('e, 'u) ipa_table_entry_interface \<Rightarrow> nat \<Rightarrow> 'e ipa_table \<Rightarrow> ('e \<Rightarrow> bool) \<Rightarrow> uint16 \<Rightarrow> uint16 option" where
  "chain_search ei 0 t P i = None"
| "chain_search ei (Suc n) t P i =
     (if i = 0 then None else if P (recs t ! unat i) then Some i
      else chain_search ei n t P (entry_get_next_index ei (recs t ! unat i)))"

lemma chain_search_lseg:
  "lseg (tv ei t) (tn ei t) (tp ei t) p xs i \<Longrightarrow> length xs < n \<Longrightarrow>
   chain_search ei n t P i = List.find (\<lambda>x. P (recs t ! unat x)) xs"
proof (induction xs arbitrary: p i n)
  case Nil
  then show ?case by (cases n) simp_all
next
  case (Cons x xs)
  then obtain m where "n = Suc m" by (cases n) auto
  with Cons.prems Cons.IH [of x "tn ei t x" m] show ?case by (auto simp: tn_def)
qed

context table_iface
begin

lemma search_ok:
  assumes I: "linv t B" and x: "x \<in> set (B h)" "P (recs t ! unat x)"
  shows "\<exists>y \<in> set (B h). chain_search ei (Suc (tab_sz t)) t P h = Some y \<and> P (recs t ! unat y)"
proof -
  note D = invD [OF I]
  have ne: "B h \<noteq> []" using x(1) by auto
  note C = chainsD [OF D(2) ne]
  have "length (B h) = card (unat ` set (B h))"
    using C(5) distinct_card [of "B h"] card_image [of unat "set (B h)"]
    by (simp add: inj_on_def word_unat_eq_iff)
  also have "\<dots> \<le> card {..<tab_sz t}"
    using chains_member(3) [OF D(2)] by (intro card_mono) auto
  finally have "length (B h) < Suc (tab_sz t)" by simp
  from chain_search_lseg [OF C(6) this, of P]
  have s: "chain_search ei (Suc (tab_sz t)) t P h = List.find (\<lambda>x. P (recs t ! unat x)) (B h)" .
  show ?thesis
  proof (cases "List.find (\<lambda>x. P (recs t ! unat x)) (B h)")
    case None
    then show ?thesis using x by (auto simp: find_None_iff)
  next
    case (Some y)
    then show ?thesis using s by (auto simp: find_Some_iff)
  qed
qed

end

section \<open>Removal\<close>

text \<open>The iterator at slot \<open>x\<close> of a list \<open>ys @ x # zs\<close>.\<close>

definition iter_at :: "uint16 list \<Rightarrow> uint16 \<Rightarrow> uint16 list \<Rightarrow> ipa_table_iterator" where
  "iter_at ys x zs =
     \<lparr>it_prev_index = (if ys = [] then 0 else last ys), it_prev_entry = (if ys = [] then None else Some (last ys)),
      it_curr_index = x, it_curr_entry = Some x,
      it_next_index = (case zs of [] \<Rightarrow> 0 | z # _ \<Rightarrow> z),
      it_next_entry = (case zs of [] \<Rightarrow> None | z # _ \<Rightarrow> Some z)\<rparr>"

context table_iface
begin

lemma list_facts:
  assumes "linv t B" "B h = ys @ x # zs"
  shows "tv ei t x" "x \<noteq> 0" "unat x < tab_sz t" "tn ei t x = (case zs of [] \<Rightarrow> 0 | z # _ \<Rightarrow> z)"
    "tp ei t x = (if ys = [] then 0 else last ys)" "ys = [] \<longleftrightarrow> x = h"
    "ys \<noteq> [] \<Longrightarrow> unat (table_entries t) \<le> unat x" "unat h < unat (table_entries t)"
    "distinct (ys @ x # zs)"
proof -
  note D = invD [OF assms(1)]
  have ne: "B h \<noteq> []" "x \<in> set (B h)" using assms(2) by auto
  note C = chainsD [OF D(2) ne(1)]
  note M = chains_member [OF D(2) ne(2)]
  show "tv ei t x" "x \<noteq> 0" "unat x < tab_sz t" using M by auto
  show "tn ei t x = (case zs of [] \<Rightarrow> 0 | z # _ \<Rightarrow> z)" "tp ei t x = (if ys = [] then 0 else last ys)"
    using lseg_next lseg_prev C(6) assms(2) by metis+
  show d: "distinct (ys @ x # zs)" using C(5) assms(2) by simp
  show y: "ys = [] \<longleftrightarrow> x = h" using C(4) d assms(2) by (cases ys) auto
  show "unat h < unat (table_entries t)" by (rule C(2))
  show "unat (table_entries t) \<le> unat x" if "ys \<noteq> []" using M(4) y that by auto
qed

lemma prev_index_in:
  assumes "linv t B" "unat x < tab_sz t"
  shows "entry_get_prev_index ei (recs t ! unat x) x (tbl_meta t) (table_entries t) = Some (tp ei t x)"
  using prev_total [OF tbl_wfD(4) [OF invD(1) [OF assms(1)]], of x "table_entries t" "recs t ! unat x"] assms(2)
  by (auto simp: tp_def tab_sz_def)

lemma iterator_init_ok:
  assumes I: "linv t B" and B: "B h = ys @ x # zs"
  shows "ipa_table_iterator_init ei t x x = Some (0, iter_at ys x zs)"
proof -
  note F = list_facts [OF I B]
  note W = invD(1) [OF I]
  have p: "ipa_table_get_entry_by_index t (last ys) = Some (last ys)" "last ys \<noteq> 0" if "ys \<noteq> []"
  proof -
    have "B h = butlast ys @ last ys # x # zs" using B that by simp
    note G = list_facts [OF I this]
    show "ipa_table_get_entry_by_index t (last ys) = Some (last ys)" "last ys \<noteq> 0"
      using entry_by_index [OF W] G by auto
  qed
  have n: "ipa_table_get_entry_by_index t z = Some z" "z \<noteq> 0" if "zs = z # zt" for z zt
  proof -
    have "B h = (ys @ [x]) @ z # zt" using B that by simp
    note G = list_facts [OF I this]
    show "ipa_table_get_entry_by_index t z = Some z" "z \<noteq> 0" using entry_by_index [OF W] G by auto
  qed
  show ?thesis
    using F(1,4,5) p n prev_index_in [OF I F(3)] rec_get_in [OF W F(3)]
    by (cases "ys = []"; cases zs)
      (simp_all add: ipa_table_iterator_init_def tv_def tn_def VALID_INDEX_def iter_at_def iterator_zero_def Let_def)
qed

lemma iterator_init_free:
  assumes "linv t B" "unat x < tab_sz t" "\<not> tv ei t x"
  shows "ipa_table_iterator_init ei t x x = Some (- EINVAL, iterator_zero)"
  using assms rec_get_in [OF invD(1) [OF assms(1)] assms(2)] by (simp add: ipa_table_iterator_init_def tv_def)

lemma iterator_next_ok:
  assumes I: "linv t B" and B: "B h = ys @ x # z # zs"
  shows "ipa_table_iterator_next ei (iter_at ys x (z # zs)) t = Some (0, iter_at (ys @ [x]) z zs)"
proof -
  have B1: "B h = (ys @ [x]) @ z # zs" using B by simp
  note F = list_facts [OF I B1]
  note W = invD(1) [OF I]
  have n: "ipa_table_get_entry_by_index t y = Some y" "y \<noteq> 0" if "zs = y # yt" for y yt
  proof -
    have "B h = (ys @ [x, z]) @ y # yt" using B that by simp
    note G = list_facts [OF I this]
    show "ipa_table_get_entry_by_index t y = Some y" "y \<noteq> 0" using entry_by_index [OF W] G by auto
  qed
  show ?thesis
    using F(4) n rec_get_in [OF W F(3)]
    by (cases zs) (simp_all add: ipa_table_iterator_next_def tn_def VALID_INDEX_def iter_at_def Let_def)
qed

text \<open>The write of the delete command.\<close>

definition del_write :: "'e ipa_table \<Rightarrow> uint16 list \<Rightarrow> uint16 \<Rightarrow> uint16 list \<Rightarrow> ipa_ioc_nat_dma_one" where
  "del_write t ys x zs =
     (if ys \<noteq> [] then dma_at esz bt xt off t (dma_index t HELP_UPDATE_ENTRY) HELP_UPDATE_ENTRY (last ys)
        (case zs of [] \<Rightarrow> 0 | z # _ \<Rightarrow> z)
      else case zs of
        [] \<Rightarrow> dma_at esz bt xt off t (dma_index t HELP_UPDATE_HEAD) HELP_UPDATE_HEAD x 0
      | z # _ \<Rightarrow> dma_at esz bt xt off t (dma_index t HELP_DELETE_HEAD) HELP_DELETE_HEAD x
          (entry_get_delete_head_dma_command_data ei (recs t ! unat x) (recs t ! unat z)))"

lemma del_write_base: "d_base_addr (del_write t ys x zs) \<in> {bt, xt}"
  by (auto simp: del_write_def dma_at_def split: list.splits)

lemma create_delete_command_ok:
  assumes I: "linv t B" and B: "B h = ys @ x # zs" and room: "dma_room cmd (Suc n)"
  shows "ipa_table_create_delete_command ei t cmd (iter_at ys x zs) = Some (dma_push cmd (del_write t ys x zs))"
proof -
  note F = list_facts [OF I B]
  note W = invD(1) [OF I]
  have A: "ipa_table_add_dma_cmd t ht (Some i) i d cmd =
      Some (0, dma_push cmd (dma_at esz bt xt off t (dma_index t ht) ht i d))" if "unat i < tab_sz t" for ht i d
    using add_dma_cmd_at [OF W that room] esz by simp
  show ?thesis
  proof (cases "ys = []")
    case True
    show ?thesis
    proof (cases zs)
      case Nil
      then show ?thesis using True A [OF F(3)]
        by (simp add: ipa_table_create_delete_command_def iter_at_def del_write_def VALID_INDEX_def)
    next
      case (Cons z zt)
      have "B h = (ys @ [x]) @ z # zt" using B Cons by simp
      note G = list_facts [OF I this]
      show ?thesis using True Cons A [OF F(3)] G(2) rec_get_in [OF W F(3)] rec_get_in [OF W G(3)]
        by (simp add: ipa_table_create_delete_command_def iter_at_def del_write_def VALID_INDEX_def)
    qed
  next
    case False
    then have "B h = butlast ys @ last ys # x # zs" using B by simp
    note G = list_facts [OF I this]
    show ?thesis using False A [OF G(3)] G(2)
      by (simp add: ipa_table_create_delete_command_def iter_at_def del_write_def VALID_INDEX_def split: list.splits)
  qed
qed

text \<open>A head with a tail: the write alters its key and nothing else.\<close>

lemma delete_head_with_tail:
  assumes I: "linv t B" and B: "B h = h # z # zs"
  shows "\<exists>t'. hw_write fw bt xt (del_write t [] h (z # zs)) t = Some t' \<and> linv t' B \<and> same_shape t t' \<and>
    key (recs t' ! unat h) = delk (key (recs t ! unat h)) (key (recs t ! unat z)) \<and>
    (\<forall>y. y \<noteq> h \<longrightarrow> recs t' ! unat y = recs t ! unat y)"
proof -
  have B1: "B h = [] @ h # z # zs" "B h = [h] @ z # zs" using B by simp_all
  note F = list_facts [OF I B1(1)] and G = list_facts [OF I B1(2)]
  note D = invD [OF I]
  have len: "unat h < length (recs t)" using F(3) tbl_wfD(3) [OF D(1)] by simp
  obtain e where e: "fw (recs t ! unat h) (off HELP_DELETE_HEAD)
        (entry_get_delete_head_dma_command_data ei (recs t ! unat h) (recs t ! unat z)) = Some e"
      "entry_is_valid ei e" "key e = delk (key (recs t ! unat h)) (key (recs t ! unat z))"
      "same_links ei (recs t ! unat h) e"
    using fw_delete [of "recs t ! unat h" "recs t ! unat z"] F(1) G(1) by (auto simp: tv_def)
  define t' where "t' = t\<lparr>recs := (recs t)[unat h := e]\<rparr>"
  have S: "same_shape t t'" by (simp add: same_shape_def t'_def)
  have v: "tv ei t' = tv ei t" "tn ei t' = tn ei t" "tp ei t' = tp ei t"
    using e(2,4) F(1) len by (auto simp: fun_eq_iff t'_def tv_upd tn_upd tp_upd same_links_def) (simp_all add: tn_def tp_def)
  have "hw_write fw bt xt (del_write t [] h (z # zs)) t = Some t'"
    using hw_write_at [OF D(1) F(3) esz(1,2) off esz(3) same_shape_refl] e(1)
    by (simp add: del_write_def t'_def)
  moreover have "linv t' B"
    using linvI [OF I S] D tbl_wfD(4) [OF D(1)] unfolding v by (simp add: t'_def)
  ultimately show ?thesis
    using S len e(3) by (intro exI [of _ t']) (auto simp: t'_def nth_list_update word_unat_eq_iff)
qed


text \<open>
  A member \<open>x\<close> behind \<open>q\<close>: the write makes \<open>q\<close> skip it, then the library links its successor back
  to \<open>q\<close> and zeroes it.
\<close>

lemma unlink_write:
  assumes I: "linv t B" and B: "B h = ys @ q # x # zs"
  shows "\<exists>e. hw_write fw bt xt (del_write t (ys @ [q]) x zs) t = Some (t\<lparr>recs := (recs t)[unat q := e]\<rparr>) \<and>
    entry_get_next_index ei e = tn ei t x \<and> entry_is_valid ei e \<and> key e = key (recs t ! unat q) \<and>
    (\<forall>i m te. entry_get_prev_index ei e i m te = entry_get_prev_index ei (recs t ! unat q) i m te)"
proof -
  have B2: "B h = (ys @ [q]) @ x # zs" using B by simp
  note F = list_facts [OF I B] and G = list_facts [OF I B2]
  obtain e where e: "fw (recs t ! unat q) (off HELP_UPDATE_ENTRY) (tn ei t x) = Some e"
      "entry_get_next_index ei e = tn ei t x" "entry_is_valid ei e" "key e = key (recs t ! unat q)"
      "\<forall>i m te. entry_get_prev_index ei e i m te = entry_get_prev_index ei (recs t ! unat q) i m te"
    using fw_next [of "recs t ! unat q" "tn ei t x"] F(1) by (auto simp: tv_def)
  then show ?thesis
    using hw_write_at [OF invD(1) [OF I] F(3) esz(1,2) off esz(3) same_shape_refl, where ht = HELP_UPDATE_ENTRY] G(4)
    by (intro exI [of _ e]) (simp add: del_write_def)
qed

lemma unlink_link_back:
  assumes I: "linv t B" and B: "B h = ys @ q # x # zs" and th: "same_shape t th" "tbl_meta th = tbl_meta t"
    "\<And>y. y \<noteq> q \<Longrightarrow> recs th ! unat y = recs t ! unat y"
    and pe: "pe \<Longrightarrow> zs \<noteq> []"
  shows "\<exists>t1. ipa_table_delete_entry ei zero th (iter_at (ys @ [q]) x zs) pe = ipa_table_erase_entry zero t1 x \<and>
    same_shape th t1 \<and> meta_fits idx (tbl_meta t1) (unat (expn_table_entries t)) \<and>
    cur_tbl_cnt t1 = cur_tbl_cnt th \<and> cur_expn_tbl_cnt t1 = cur_expn_tbl_cnt th \<and>
    (\<forall>y. tv ei t1 y = tv ei th y \<and> tn ei t1 y = tn ei th y \<and> key (recs t1 ! unat y) = key (recs th ! unat y)) \<and>
    (\<forall>y. y \<noteq> x \<longrightarrow> tp ei t1 y = (if zs \<noteq> [] \<and> y = hd zs then q else tp ei th y)) \<and>
    (\<forall>y. \<not> tv ei t y \<longrightarrow> recs t1 ! unat y = recs th ! unat y)"
proof (cases zs)
  case Nil
  then have "\<not> pe" using pe by auto
  then show ?thesis
    using Nil th(1,2) tbl_wfD(4) [OF invD(1) [OF I]]
    by (intro exI [of _ th]) (simp add: ipa_table_delete_entry_def iter_at_def VALID_INDEX_def same_shape_refl)
next
  case (Cons z zt)
  note S = same_shapeD [OF th(1)]
  note D = invD [OF I]
  have B3: "B h = (ys @ [q, x]) @ z # zt" using B Cons by simp
  note G = list_facts [OF I B3]
  have mf: "meta_fits idx (tbl_meta th) (unat (expn_table_entries th))" using tbl_wfD(4) [OF D(1)] th(2) S by simp
  have zi: "unat (table_entries th) \<le> unat z" "unat z < unat (table_entries th) + unat (expn_table_entries th)"
    using G(3,7) S by (simp_all add: tab_sz_def)
  obtain e m where e: "entry_set_prev_index ei (recs th ! unat z) z q (tbl_meta th) (table_entries th) = Some (e, m)"
      "meta_fits idx m (unat (expn_table_entries th))"
      "entry_is_valid ei e = tv ei th z" "entry_get_next_index ei e = tn ei th z" "key e = key (recs th ! unat z)"
      "entry_get_prev_index ei e z m (table_entries th) = Some q"
      "\<forall>j y. j \<noteq> z \<longrightarrow> entry_get_prev_index ei y j m (table_entries th) =
         entry_get_prev_index ei y j (tbl_meta th) (table_entries th)"
    using set_prev [OF mf zi, of "recs th ! unat z" q] unfolding tv_def tn_def by blast
  have len: "unat z < length (recs th)" using G(3) S tbl_wfD(3) [OF D(1)] by simp
  define t1 where "t1 = th\<lparr>recs := (recs th)[unat z := e], tbl_meta := m\<rparr>"
  have "ipa_table_delete_entry ei zero th (iter_at (ys @ [q]) x zs) pe = ipa_table_erase_entry zero t1 x"
    using Cons G(2) len e(1)
    by (simp add: ipa_table_delete_entry_def iter_at_def VALID_INDEX_def rec_get_def rec_put_def arr_simps t1_def)
  moreover have "same_shape th t1" by (simp add: same_shape_def t1_def)
  moreover have "tv ei t1 y = tv ei th y \<and> tn ei t1 y = tn ei th y \<and> key (recs t1 ! unat y) = key (recs th ! unat y)" for y
    using e(3,4,5) len by (cases "y = z")
      (simp_all add: t1_def tv_def tn_def nth_list_update word_unat_eq_iff)
  moreover have "tp ei t1 y = (if zs \<noteq> [] \<and> y = hd zs then q else tp ei th y)" for y
    using e(6,7) len Cons
    by (cases "y = z", simp add: t1_def tp_def, simp add: t1_def tp_def nth_list_update word_unat_eq_iff)
  moreover have "recs t1 ! unat y = recs th ! unat y" if "\<not> tv ei t y" for y
    using that G(1) by (cases "y = z") (simp_all add: t1_def nth_list_update word_unat_eq_iff)
  ultimately show ?thesis using e(2) S by (intro exI [of _ t1]) (simp add: t1_def)
qed

lemma delete_member:
  assumes I: "linv t B" and B: "B h = ys @ q # x # zs"
  shows "\<exists>th. hw_write fw bt xt (del_write t (ys @ [q]) x zs) t = Some th \<and> same_shape t th \<and>
    (\<forall>y :: uint16. key (recs th ! unat y) = key (recs t ! unat y)) \<and>
    (\<forall>pe. (pe \<longrightarrow> zs \<noteq> []) \<longrightarrow>
      (\<exists>t'. ipa_table_delete_entry ei zero th (iter_at (ys @ [q]) x zs) pe = Some t' \<and>
        linv t' (B(h := ys @ q # zs)) \<and> same_shape t t' \<and> recs t' ! unat x = zero \<and>
        (\<forall>y. y \<noteq> x \<longrightarrow> key (recs t' ! unat y) = key (recs t ! unat y)) \<and>
        (\<forall>y. \<not> tv ei t y \<longrightarrow> recs t' ! unat y = recs t ! unat y)))"
proof -
  note D = invD [OF I]
  note W = tbl_wfD [OF D(1)]
  have B2: "B h = (ys @ [q]) @ x # zs" using B by simp
  note F = list_facts [OF I B] and G = list_facts [OF I B2]
  have qx: "q \<noteq> x" "unat q \<noteq> unat x" using F(9) by (auto simp: word_unat_eq_iff)
  have len: "unat q < length (recs t)" "unat x < length (recs t)" using F(3) G(3) W(3) by auto
  obtain e where e: "hw_write fw bt xt (del_write t (ys @ [q]) x zs) t = Some (t\<lparr>recs := (recs t)[unat q := e]\<rparr>)"
      "entry_get_next_index ei e = tn ei t x" "entry_is_valid ei e" "key e = key (recs t ! unat q)"
      "\<forall>i m te. entry_get_prev_index ei e i m te = entry_get_prev_index ei (recs t ! unat q) i m te"
    using unlink_write [OF I B] by blast
  define th where "th = t\<lparr>recs := (recs t)[unat q := e]\<rparr>"
  have S: "same_shape t th" by (simp add: same_shape_def th_def)
  have keep: "recs th ! unat y = recs t ! unat y" if "y \<noteq> q" for y
    using that by (auto simp: th_def nth_list_update word_unat_eq_iff)
  have K: "key (recs th ! unat y) = key (recs t ! unat y)" for y :: uint16
    using keep [of y] e(4) len by (cases "y = q") (auto simp: th_def)
  have vh: "tv ei th y = tv ei t y" "tn ei th y = (if y = q then tn ei t x else tn ei t y)" "tp ei th y = tp ei t y" for y
    using keep [of y] e(2,3,5) F(1) len by (cases "y = q"; simp add: th_def tv_def tn_def tp_def)+
  have "\<exists>t'. ipa_table_delete_entry ei zero th (iter_at (ys @ [q]) x zs) pe = Some t' \<and>
        linv t' (B(h := ys @ q # zs)) \<and> same_shape t t' \<and> recs t' ! unat x = zero \<and>
        (\<forall>y. y \<noteq> x \<longrightarrow> key (recs t' ! unat y) = key (recs t ! unat y)) \<and>
        (\<forall>y. \<not> tv ei t y \<longrightarrow> recs t' ! unat y = recs t ! unat y)" if pe: "pe \<longrightarrow> zs \<noteq> []" for pe
  proof -
    have mth: "tbl_meta th = tbl_meta t" by (simp add: th_def)
    obtain t1 where t1: "ipa_table_delete_entry ei zero th (iter_at (ys @ [q]) x zs) pe = ipa_table_erase_entry zero t1 x"
        "same_shape th t1" "meta_fits idx (tbl_meta t1) (unat (expn_table_entries t))"
        "cur_tbl_cnt t1 = cur_tbl_cnt t" "cur_expn_tbl_cnt t1 = cur_expn_tbl_cnt t"
        "\<forall>y. tv ei t1 y = tv ei th y \<and> tn ei t1 y = tn ei th y \<and> key (recs t1 ! unat y) = key (recs th ! unat y)"
        "\<forall>y. y \<noteq> x \<longrightarrow> tp ei t1 y = (if zs \<noteq> [] \<and> y = hd zs then q else tp ei th y)"
        "\<forall>y. \<not> tv ei t y \<longrightarrow> recs t1 ! unat y = recs th ! unat y"
      using unlink_link_back [OF I B S mth keep, where pe = pe] pe by (auto simp: th_def)
    have S1: "same_shape t t1" using same_shape_trans [OF S t1(2)] .
    define t' where "t' = t1\<lparr>recs := (recs t1)[unat x := zero], cur_expn_tbl_cnt := cur_expn_tbl_cnt t - 1\<rparr>"
    have S': "same_shape t t'" using S1 by (simp add: same_shape_def t'_def)
    have len1: "unat x < length (recs t1)" using same_shapeD(9) [OF S1] len by simp
    have er: "ipa_table_erase_entry zero t1 x = Some t'"
      using len1 G(7) same_shapeD(3) [OF S1] t1(5)
      by (simp add: ipa_table_erase_entry_def rec_put_def arr_simps t'_def word_less_nat_alt)
    have v: "tv ei t' y = (tv ei t y \<and> y \<noteq> x)" "tn ei t' y = (if y = q then tn ei t x else if y = x then 0 else tn ei t y)"
      "y \<noteq> x \<Longrightarrow> tp ei t' y = (if zs \<noteq> [] \<and> y = hd zs then q else tp ei t y)" for y
      using t1(6,7) vh zero_inv qx by (auto simp: t'_def tv_upd [OF len1] tn_upd [OF len1] tp_upd [OF len1])
    have "linv t' (B(h := ys @ q # zs))"
    proof (rule linvI [OF I S'])
      show "chains (unat (table_entries t)) (tab_sz t) (tv ei t') (tn ei t') (tp ei t') (B(h := ys @ q # zs))"
        by (rule chains_unlink [OF D(2) B]) (use v in auto)
      show "counted (unat (table_entries t)) (tab_sz t) (tv ei t') (cur_tbl_cnt t') (cur_expn_tbl_cnt t')"
        using counted_drop(2) [OF D(3) W(6) G(3,1) v(1)] G(7) t1(4) by (simp add: t'_def)
    qed (use t1(3) in \<open>simp add: t'_def\<close>)
    moreover have "recs t' ! unat x = zero" using len1 by (simp add: t'_def)
    moreover have "\<forall>y. y \<noteq> x \<longrightarrow> key (recs t' ! unat y) = key (recs t ! unat y)"
      using t1(6) K by (auto simp: t'_def nth_list_update word_unat_eq_iff)
    moreover have "recs t' ! unat y = recs t ! unat y" if "\<not> tv ei t y" for y
    proof -
      have "y \<noteq> x" "y \<noteq> q" using that F(1) G(1) by auto
      then show ?thesis using t1(8) keep that by (simp add: t'_def nth_list_update word_unat_eq_iff)
    qed
    ultimately show ?thesis using t1(1) er S' by auto
  qed
  then show ?thesis using e(1) S K unfolding th_def [symmetric] by blast
qed

text \<open>A head without a tail: the write disables it, then the library zeroes it.\<close>

lemma zero_lone_head:
  assumes I: "linv t B" and B: "B h = [h]"
    and t'_def: "t' = t\<lparr>recs := (recs t)[unat h := zero], cur_tbl_cnt := cur_tbl_cnt t - 1\<rparr>"
  shows "linv t' (B(h := []))" "same_shape t t'" "recs t' ! unat h = zero"
    "\<forall>y. y \<noteq> h \<longrightarrow> recs t' ! unat y = recs t ! unat y"
proof -
  have B1: "B h = [] @ h # []" using B by simp
  note F = list_facts [OF I B1]
  note D = invD [OF I]
  note W = tbl_wfD [OF D(1)]
  have len: "unat h < length (recs t)" using F(3) W(3) by simp
  show S': "same_shape t t'" by (simp add: same_shape_def t'_def)
  have v: "tv ei t' y = (tv ei t y \<and> y \<noteq> h)" "y \<noteq> h \<Longrightarrow> tn ei t' y = tn ei t y" "tn ei t' h = 0"
      "y \<noteq> h \<Longrightarrow> tp ei t' y = tp ei t y" "tp ei t' h = 0" for y
    using zero_inv prev_zero [OF F(8)] len by (auto simp: t'_def tv_upd tn_upd tp_upd)
  show "linv t' (B(h := []))"
  proof (rule linvI [OF I S'])
    show "chains (unat (table_entries t)) (tab_sz t) (tv ei t') (tn ei t') (tp ei t') (B(h := []))"
      by (rule chains_drop_head [OF D(2) B]) (use v in auto)
    show "counted (unat (table_entries t)) (tab_sz t) (tv ei t') (cur_tbl_cnt t') (cur_expn_tbl_cnt t')"
      using counted_drop(1) [OF D(3) W(6) F(3,1) v(1)] F(8) by (simp add: t'_def)
  qed (use W(4) in \<open>simp add: t'_def\<close>)
  show "recs t' ! unat h = zero" "\<forall>y. y \<noteq> h \<longrightarrow> recs t' ! unat y = recs t ! unat y"
    using len by (auto simp: t'_def nth_list_update word_unat_eq_iff)
qed

lemma delete_lone_head:
  assumes I: "linv t B" and B: "B h = [h]"
  shows "\<exists>th t'. hw_write fw bt xt (del_write t [] h []) t = Some th \<and> same_shape t th \<and>
    ipa_table_delete_entry ei zero th (iter_at [] h []) pe = Some t' \<and>
    linv t' (B(h := [])) \<and> same_shape t t' \<and> recs t' ! unat h = zero \<and>
    (\<forall>y. y \<noteq> h \<longrightarrow> recs t' ! unat y = recs t ! unat y)"
proof -
  have B1: "B h = [] @ h # []" using B by simp
  note F = list_facts [OF I B1]
  note W = invD(1) [OF I]
  have len: "unat h < length (recs t)" using F(3) tbl_wfD(3) [OF W] by simp
  obtain e where e: "fw (recs t ! unat h) (off HELP_UPDATE_HEAD) 0 = Some e"
    using fw_disable [of "recs t ! unat h"] by blast
  define th where "th = t\<lparr>recs := (recs t)[unat h := e]\<rparr>"
  have "same_shape t th" by (simp add: same_shape_def th_def)
  moreover have "hw_write fw bt xt (del_write t [] h []) t = Some th"
    using hw_write_at [OF W F(3) esz(1,2) off esz(3) same_shape_refl] e by (simp add: del_write_def th_def)
  moreover have "ipa_table_delete_entry ei zero th (iter_at [] h []) pe =
      Some (t\<lparr>recs := (recs t)[unat h := zero], cur_tbl_cnt := cur_tbl_cnt t - 1\<rparr>)"
    using len F(8) by (simp add: ipa_table_delete_entry_def iter_at_def VALID_INDEX_def ipa_table_erase_entry_def
        rec_put_def arr_simps th_def word_less_nat_alt)
  ultimately show ?thesis using zero_lone_head [OF I B refl] by blast
qed

text \<open>The only member behind a head that is functionally deleted: both slots are freed.\<close>

lemma delete_last_member:
  assumes I: "linv t B" and B: "B h = [h, x]"
  shows "\<exists>th t'. hw_write fw bt xt (del_write t [h] x []) t = Some th \<and> same_shape t th \<and>
    (\<forall>y :: uint16. key (recs th ! unat y) = key (recs t ! unat y)) \<and>
    ipa_table_delete_entry ei zero th (iter_at [h] x []) True = Some t' \<and>
    linv t' (B(h := [])) \<and> same_shape t t' \<and> recs t' ! unat x = zero \<and> recs t' ! unat h = zero \<and>
    (\<forall>y. y \<noteq> x \<longrightarrow> y \<noteq> h \<longrightarrow> key (recs t' ! unat y) = key (recs t ! unat y)) \<and>
    (\<forall>y. \<not> tv ei t y \<longrightarrow> recs t' ! unat y = recs t ! unat y)"
proof -
  have B0: "B h = [] @ h # x # []" and B2: "B h = [h] @ x # []" using B by simp_all
  note F = list_facts [OF I B0] and G = list_facts [OF I B2]
  obtain th t1 where th: "hw_write fw bt xt (del_write t [h] x []) t = Some th" "same_shape t th"
      "\<forall>y :: uint16. key (recs th ! unat y) = key (recs t ! unat y)"
      "ipa_table_delete_entry ei zero th (iter_at [h] x []) False = Some t1"
      "linv t1 (B(h := [h]))" "same_shape t t1" "recs t1 ! unat x = zero"
      "\<forall>y. y \<noteq> x \<longrightarrow> key (recs t1 ! unat y) = key (recs t ! unat y)"
      "\<forall>y. \<not> tv ei t y \<longrightarrow> recs t1 ! unat y = recs t ! unat y"
    using delete_member [OF I B0] by fastforce
  have hx: "h \<noteq> x" "unat h \<noteq> unat x" using F(9) by (auto simp: word_unat_eq_iff)
  note S = same_shapeD [OF th(2)]
  have len: "unat h < length (recs th)" "unat x < length (recs th)"
    using S F(3) G(3) tbl_wfD(3) [OF invD(1) [OF I]] by auto
  have t1: "t1 = th\<lparr>recs := (recs th)[unat x := zero], cur_expn_tbl_cnt := cur_expn_tbl_cnt th - 1\<rparr>"
    using th(4) len G(7) S(3)
    by (simp add: ipa_table_delete_entry_def iter_at_def VALID_INDEX_def ipa_table_erase_entry_def
        rec_put_def arr_simps word_less_nat_alt)
  define t' where "t' = t1\<lparr>recs := (recs t1)[unat h := zero], cur_tbl_cnt := cur_tbl_cnt t1 - 1\<rparr>"
  have d: "ipa_table_delete_entry ei zero th (iter_at [h] x []) True = Some t'"
    using len G(7) S(3) hx
    by (simp add: ipa_table_delete_entry_def iter_at_def VALID_INDEX_def ipa_table_erase_entry_def
        rec_put_def arr_simps word_less_nat_alt t'_def t1 list_update_swap)
  have v: "(B(h := [h])) h = [h]" by simp
  note Z = zero_lone_head [OF th(5) v t'_def]
  have e: "(B(h := [h]))(h := []) = B(h := [])" by simp
  have "recs t' ! unat x = zero" using Z(4) hx th(7) by metis
  moreover have "\<forall>y. y \<noteq> x \<longrightarrow> y \<noteq> h \<longrightarrow> key (recs t' ! unat y) = key (recs t ! unat y)"
    using Z(4) th(8) by metis
  moreover have "\<forall>y. \<not> tv ei t y \<longrightarrow> recs t' ! unat y = recs t ! unat y"
    using Z(4) th(9) F(1) by metis
  ultimately show ?thesis
    using th(1-3) d Z(1) [unfolded e] Z(3) same_shape_trans [OF th(6) Z(2)] by blast
qed

end
end
