(* ===== verification/Ipa_Nat_Rule.thy ===== *)
theory Ipa_Nat_Rule
  imports Ipa_Table_Remove Ipa_Mem_Descriptor
begin

text \<open>
  The records of the IPv4 NAT tables of \<open>ipa_nat_drvi.c\<close> and the callbacks it gives to the generic
  table: the rule table, whose records carry their own links, and the index table, whose
  expansion slots keep their back links in a separate array of meta records.  The checksum
  differences a rule carries and the two hashes are here too.  Names that also occur in
  \<open>ipa_ipv6ct.c\<close> carry the prefix \<open>nat_\<close>.
\<close>

section \<open>Data\<close>

abbreviation (input) IPA_NAT_MAX_IP4_TBLS :: nat where "IPA_NAT_MAX_IP4_TBLS \<equiv> 1"
abbreviation (input) IPA_MAX_PDN_NUM :: nat where "IPA_MAX_PDN_NUM \<equiv> 16"
abbreviation (input) IPA_NAT_RULE_FLAG_FIELD_OFFSET :: nat where "IPA_NAT_RULE_FLAG_FIELD_OFFSET \<equiv> 18"
abbreviation (input) IPA_NAT_RULE_NEXT_FIELD_OFFSET :: nat where "IPA_NAT_RULE_NEXT_FIELD_OFFSET \<equiv> 8"
abbreviation (input) IPA_NAT_RULE_PROTO_FIELD_OFFSET :: nat where "IPA_NAT_RULE_PROTO_FIELD_OFFSET \<equiv> 22"
abbreviation (input) IPA_NAT_INDEX_RULE_NEXT_FIELD_OFFSET :: nat where "IPA_NAT_INDEX_RULE_NEXT_FIELD_OFFSET \<equiv> 2"
abbreviation (input) IPA_NAT_INDEX_RULE_NAT_INDEX_FIELD_OFFSET :: nat where "IPA_NAT_INDEX_RULE_NAT_INDEX_FIELD_OFFSET \<equiv> 0"
abbreviation (input) IPA_NAT_INVALID_PROTO_FIELD_VALUE :: uint16 where "IPA_NAT_INVALID_PROTO_FIELD_VALUE \<equiv> 0xFF00"
abbreviation (input) IPAHAL_NAT_INVALID_PROTOCOL :: uint8 where "IPAHAL_NAT_INVALID_PROTOCOL \<equiv> 0xFF"
abbreviation (input) IPPROTO_TCP :: uint8 where "IPPROTO_TCP \<equiv> 6"
abbreviation (input) IPPROTO_UDP :: uint8 where "IPPROTO_UDP \<equiv> 17"

text \<open>The record in memory (32 bytes), without its reserved bits; a bit-field keeps its width.\<close>

record ipa_nat_rule =
  nr_private_ip :: uint32
  nr_target_ip :: uint32
  nr_next_index :: uint16
  nr_public_port :: uint16
  nr_private_port :: uint16
  nr_target_port :: uint16
  nr_ip_chksum :: uint16
  nr_uc_activation_index :: "13 word"
  nr_s :: bool
  nr_redirect :: bool
  nr_enable :: bool
  nr_time_stamp :: "24 word"
  nr_protocol :: uint8
  nr_prev_index :: uint16
  nr_indx_tbl_entry :: uint16
  nr_dst_only :: bool
  nr_src_only :: bool
  nr_ucp :: bool
  nr_pdn_index :: "4 word"
  nr_tcp_udp_chksum :: uint16

definition nat_rule_zero :: ipa_nat_rule where
  "nat_rule_zero = \<lparr>nr_private_ip = 0, nr_target_ip = 0, nr_next_index = 0, nr_public_port = 0,
     nr_private_port = 0, nr_target_port = 0, nr_ip_chksum = 0, nr_uc_activation_index = 0,
     nr_s = False, nr_redirect = False, nr_enable = False, nr_time_stamp = 0, nr_protocol = 0,
     nr_prev_index = 0, nr_indx_tbl_entry = 0, nr_dst_only = False, nr_src_only = False,
     nr_ucp = False, nr_pdn_index = 0, nr_tcp_udp_chksum = 0\<rparr>"

record ipa_nat_indx_tbl_rule =
  ix_tbl_entry :: uint16
  ix_next_index :: uint16

definition nat_indx_zero :: ipa_nat_indx_tbl_rule where
  "nat_indx_zero = \<lparr>ix_tbl_entry = 0, ix_next_index = 0\<rparr>"

text \<open>What the client asks for.\<close>

record ipa_nat_ipv4_rule =
  v4_target_ip :: uint32
  v4_private_ip :: uint32
  v4_target_port :: uint16
  v4_private_port :: uint16
  v4_public_port :: uint16
  v4_protocol :: uint8
  v4_pdn_index :: uint8
  v4_redirect :: uint8
  v4_enable :: uint8
  v4_time_stamp :: uint32
  v4_uc_activation_index :: uint16
  v4_s :: bool
  v4_ucp :: bool
  v4_dst_only :: bool
  v4_src_only :: bool

record ipa_nat_pdn_entry =
  pdn_public_ip :: uint32
  pdn_src_metadata :: uint32
  pdn_dst_metadata :: uint32

definition pdn_zero :: ipa_nat_pdn_entry where
  "pdn_zero = \<lparr>pdn_public_ip = 0, pdn_src_metadata = 0, pdn_dst_metadata = 0\<rparr>"

section \<open>Checksum differences\<close>

text \<open>The statement \<open>if (cksum >> 16) { cksum = cksum & 0x0000FFFF; cksum += 1; }\<close>.\<close>

definition cksum_carry :: "uint32 \<Rightarrow> uint32" where
  "cksum_carry cksum = (if drop_bit 16 cksum \<noteq> 0 then (cksum AND 0x0000FFFF) + 1 else cksum)"

definition ipa_nati_calc_ip_cksum :: "uint32 \<Rightarrow> uint32 \<Rightarrow> uint16" where
  "ipa_nati_calc_ip_cksum pub_ip_addr priv_ip_addr =
     (let cksum = 0 + (pub_ip_addr AND 0xFFFF);
          cksum = cksum_carry (cksum + drop_bit 16 pub_ip_addr);
          priv_ip_addr = NOT priv_ip_addr;
          cksum = cksum_carry (cksum + (priv_ip_addr AND 0xFFFF));
          cksum = cksum_carry (cksum + drop_bit 16 priv_ip_addr)
      in ucast cksum)"

definition ipa_nati_calc_tcp_udp_cksum :: "uint32 \<Rightarrow> uint16 \<Rightarrow> uint32 \<Rightarrow> uint16 \<Rightarrow> uint16" where
  "ipa_nati_calc_tcp_udp_cksum pub_ip_addr pub_port priv_ip_addr priv_port =
     (let cksum = 0 + (pub_ip_addr AND 0xFFFF);
          cksum = cksum_carry (cksum + drop_bit 16 pub_ip_addr);
          cksum = cksum_carry (cksum + ucast pub_port);
          priv_ip_addr = NOT priv_ip_addr;
          cksum = cksum_carry (cksum + (priv_ip_addr AND 0xFFFF));
          cksum = cksum_carry (cksum + drop_bit 16 priv_ip_addr);
          priv_port = NOT priv_port;
          cksum = cksum_carry (cksum + ucast priv_port)
      in ucast cksum)"

section \<open>Callbacks of the rule table\<close>

text \<open>The global array \<open>pdns\<close> that the insertion reads is passed with the client's rule.\<close>

type_synonym nat_user = "ipa_nat_pdn_entry list \<times> ipa_nat_ipv4_rule"

definition nat_table_entry_is_valid :: "ipa_nat_rule \<Rightarrow> bool" where
  "nat_table_entry_is_valid e = nr_enable e"

definition nat_table_entry_get_next_index :: "ipa_nat_rule \<Rightarrow> uint16" where
  "nat_table_entry_get_next_index e = nr_next_index e"

definition nat_table_entry_get_prev_index ::
    "ipa_nat_rule \<Rightarrow> uint16 \<Rightarrow> uint16 list option \<Rightarrow> uint16 \<Rightarrow> uint16 option" where
  "nat_table_entry_get_prev_index e entry_index meta base_table_size = Some (nr_prev_index e)"

definition nat_table_entry_set_prev_index ::
    "ipa_nat_rule \<Rightarrow> uint16 \<Rightarrow> uint16 \<Rightarrow> uint16 list option \<Rightarrow> uint16 \<Rightarrow>
     (ipa_nat_rule \<times> uint16 list option) option" where
  "nat_table_entry_set_prev_index e entry_index prev_index meta base_table_size =
     Some (e\<lparr>nr_prev_index := prev_index\<rparr>, meta)"

definition nat_table_entry_copy_from_user ::
    "ipa_nat_rule \<Rightarrow> nat_user \<Rightarrow> (int \<times> ipa_nat_rule) option" where
  "nat_table_entry_copy_from_user e user = (case user of (pdns, u) \<Rightarrow>
     do {
       pdn \<leftarrow> arr_get pdns (unat (v4_pdn_index u));
       let pub_ip_addr = pdn_public_ip pdn;
       let e = e\<lparr>nr_private_ip := v4_private_ip u, nr_private_port := v4_private_port u,
                 nr_protocol := v4_protocol u, nr_public_port := v4_public_port u,
                 nr_target_ip := v4_target_ip u, nr_target_port := v4_target_port u,
                 nr_pdn_index := ucast (v4_pdn_index u),
                 nr_uc_activation_index := ucast (v4_uc_activation_index u), nr_s := v4_s u,
                 nr_ucp := v4_ucp u, nr_dst_only := v4_dst_only u, nr_src_only := v4_src_only u,
                 nr_ip_chksum := ipa_nati_calc_ip_cksum pub_ip_addr (v4_private_ip u)\<rparr>;
       let e = (if nr_protocol e = IPPROTO_TCP \<or> nr_protocol e = IPPROTO_UDP
                then e\<lparr>nr_tcp_udp_chksum := ipa_nati_calc_tcp_udp_cksum pub_ip_addr (v4_public_port u)
                         (v4_private_ip u) (v4_private_port u)\<rparr>
                else e);
       Some (0, e)
     })"

text \<open>The flags of a DMA write: bit 15 is \<open>enable\<close>, 14 \<open>redirect\<close>, 13 \<open>s\<close>, the others the
  activation index.\<close>

definition ipa_nat_flags :: "bool \<Rightarrow> bool \<Rightarrow> 13 word \<Rightarrow> uint16" where
  "ipa_nat_flags enable s uc =
     push_bit 15 (if enable then 1 else 0) OR push_bit 13 (if s then 1 else 0) OR ucast uc"

definition nat_table_entry_head_insert ::
    "ipa_nat_rule \<Rightarrow> nat_user \<Rightarrow> (int \<times> ipa_nat_rule \<times> uint16) option" where
  "nat_table_entry_head_insert e user =
     do {
       (ret, e) \<leftarrow> nat_table_entry_copy_from_user e user;
       if ret \<noteq> 0 then Some (ret, e, 0)
       else Some (0, e, ipa_nat_flags True (nr_s e) (nr_uc_activation_index e))
     }"

definition nat_table_entry_tail_insert ::
    "ipa_nat_rule \<Rightarrow> nat_user \<Rightarrow> (int \<times> ipa_nat_rule) option" where
  "nat_table_entry_tail_insert e user =
     do {
       (ret, e) \<leftarrow> nat_table_entry_copy_from_user e user;
       if ret \<noteq> 0 then Some (ret, e) else Some (0, e\<lparr>nr_enable := True\<rparr>)
     }"

definition nat_table_entry_get_delete_head_dma_command_data ::
    "ipa_nat_rule \<Rightarrow> ipa_nat_rule \<Rightarrow> uint16" where
  "nat_table_entry_get_delete_head_dma_command_data head next_entry = IPA_NAT_INVALID_PROTO_FIELD_VALUE"

definition nat_entry_interface :: "(ipa_nat_rule, nat_user) ipa_table_entry_interface" where
  "nat_entry_interface =
     \<lparr>entry_is_valid = nat_table_entry_is_valid,
      entry_get_next_index = nat_table_entry_get_next_index,
      entry_get_prev_index = nat_table_entry_get_prev_index,
      entry_set_prev_index = nat_table_entry_set_prev_index,
      entry_head_insert = nat_table_entry_head_insert,
      entry_tail_insert = nat_table_entry_tail_insert,
      entry_get_delete_head_dma_command_data = nat_table_entry_get_delete_head_dma_command_data\<rparr>"

section \<open>Callbacks of the index table\<close>

definition index_table_entry_is_valid :: "ipa_nat_indx_tbl_rule \<Rightarrow> bool" where
  "index_table_entry_is_valid e \<longleftrightarrow> ix_tbl_entry e \<noteq> 0"

definition index_table_entry_get_next_index :: "ipa_nat_indx_tbl_rule \<Rightarrow> uint16" where
  "index_table_entry_get_next_index e = ix_next_index e"

definition index_table_entry_get_prev_index ::
    "ipa_nat_indx_tbl_rule \<Rightarrow> uint16 \<Rightarrow> uint16 list option \<Rightarrow> uint16 \<Rightarrow> uint16 option" where
  "index_table_entry_get_prev_index e entry_index meta base_table_size =
     (if entry_index \<ge> base_table_size
      then do { m \<leftarrow> meta; arr_get m (unat (entry_index - base_table_size)) }
      else Some 0)"

definition index_table_entry_set_prev_index ::
    "ipa_nat_indx_tbl_rule \<Rightarrow> uint16 \<Rightarrow> uint16 \<Rightarrow> uint16 list option \<Rightarrow> uint16 \<Rightarrow>
     (ipa_nat_indx_tbl_rule \<times> uint16 list option) option" where
  "index_table_entry_set_prev_index e entry_index prev_index meta base_table_size =
     (if entry_index \<ge> base_table_size
      then do {
        m \<leftarrow> meta;
        m' \<leftarrow> arr_put m (unat (entry_index - base_table_size)) prev_index;
        Some (e, Some m')
      }
      else Some (e, meta))"

definition index_table_entry_head_insert ::
    "ipa_nat_indx_tbl_rule \<Rightarrow> uint16 \<Rightarrow> (int \<times> ipa_nat_indx_tbl_rule \<times> uint16) option" where
  "index_table_entry_head_insert e user_data = Some (0, e, user_data)"

definition index_table_entry_tail_insert ::
    "ipa_nat_indx_tbl_rule \<Rightarrow> uint16 \<Rightarrow> (int \<times> ipa_nat_indx_tbl_rule) option" where
  "index_table_entry_tail_insert e user_data = Some (0, e\<lparr>ix_tbl_entry := user_data\<rparr>)"

definition index_table_entry_get_delete_head_dma_command_data ::
    "ipa_nat_indx_tbl_rule \<Rightarrow> ipa_nat_indx_tbl_rule \<Rightarrow> uint16" where
  "index_table_entry_get_delete_head_dma_command_data head next_entry = ix_tbl_entry next_entry"

definition index_entry_interface :: "(ipa_nat_indx_tbl_rule, uint16) ipa_table_entry_interface" where
  "index_entry_interface =
     \<lparr>entry_is_valid = index_table_entry_is_valid,
      entry_get_next_index = index_table_entry_get_next_index,
      entry_get_prev_index = index_table_entry_get_prev_index,
      entry_set_prev_index = index_table_entry_set_prev_index,
      entry_head_insert = index_table_entry_head_insert,
      entry_tail_insert = index_table_entry_tail_insert,
      entry_get_delete_head_dma_command_data = index_table_entry_get_delete_head_dma_command_data\<rparr>"

section \<open>Hashes\<close>

text \<open>\<open>dst_hash\<close> reads the hardware version of its cache, passed as \<open>ver\<close>.\<close>

definition dst_hash :: "nat \<Rightarrow> uint32 \<Rightarrow> uint32 \<Rightarrow> uint16 \<Rightarrow> uint16 \<Rightarrow> uint8 \<Rightarrow> uint16 \<Rightarrow> uint16" where
  "dst_hash ver public_ip trgt_ip trgt_port public_port proto sz =
     (let hash = ucast trgt_ip XOR ucast (drop_bit 16 trgt_ip) XOR trgt_port XOR public_port XOR ucast proto;
          hash = (if ver \<ge> IPA_HW_v4_0
                  then hash XOR (ucast public_ip XOR ucast (drop_bit 16 public_ip)) else hash);
          hash = hash AND sz
      in if hash = 0 then sz else hash)"

definition src_hash :: "uint32 \<Rightarrow> uint16 \<Rightarrow> uint32 \<Rightarrow> uint16 \<Rightarrow> uint8 \<Rightarrow> uint16 \<Rightarrow> uint16" where
  "src_hash priv_ip priv_port trgt_ip trgt_port proto sz =
     (let hash = ucast priv_ip XOR ucast (drop_bit 16 priv_ip) XOR priv_port XOR
            ucast trgt_ip XOR ucast (drop_bit 16 trgt_ip) XOR trgt_port XOR ucast proto;
          hash = hash AND sz
      in if hash = 0 then sz else hash)"

end
