(* ===== verification/Ipa_Table_Props.thy ===== *)
theory Ipa_Table_Props
  imports Ipa_Table_Sizing Ipa_Sim_Os Ipa_Nat_Rule
begin

text \<open>
  The properties of the table sizes, of the rule handles and of the table memory that both the
  NAT and the IPv6CT module rest on.
\<close>

section \<open>Sizes\<close>

text \<open>C31: The number of slots of a table, computed by the code in floating point, is exactly: four fifths
  of the request rounded up to a power of two in the base table and one fifth rounded up to an even
  number in the expansion table (for SRAM all of it, and 43 percent of it); a request above 5120, or one
  whose two parts exceed 5120 together, is refused.\<close>

theorem table_sizes_exact:
  "ipa_table_calculate_entries_num t num nmi =
     (let n = unat num; b = base_want nmi n; x = expn_want nmi n in
      if n > 5120 then (- EINVAL, t)
      else if b + x > 5120 then (- EINVAL, t\<lparr>tot_tbl_ents := of_nat (b + x)\<rparr>)
      else (0, t\<lparr>tot_tbl_ents := of_nat (b + x), table_entries := of_nat b,
               expn_table_entries := of_nat x\<rparr>))"
  by (rule calculate_entries_num_eq)

lemma table_sizes_granted:
  assumes "ipa_table_calculate_entries_num t num nmi = (0, t')"
  shows "unat num \<le> 5120" "unat (table_entries t') = base_want nmi (unat num)"
    "unat (expn_table_entries t') = expn_want nmi (unat num)"
    "base_want nmi (unat num) + expn_want nmi (unat num) \<le> 5120"
proof -
  have *: "unat num \<le> 5120 \<and> base_want nmi (unat num) + expn_want nmi (unat num) \<le> 5120 \<and>
      t' = t\<lparr>tot_tbl_ents := of_nat (base_want nmi (unat num) + expn_want nmi (unat num)),
        table_entries := of_nat (base_want nmi (unat num)), expn_table_entries := of_nat (expn_want nmi (unat num))\<rparr>"
    using assms by (auto simp: calculate_entries_num_eq Let_def split: if_splits)
  then show "unat num \<le> 5120" "base_want nmi (unat num) + expn_want nmi (unat num) \<le> 5120"
    "unat (table_entries t') = base_want nmi (unat num)"
    "unat (expn_table_entries t') = expn_want nmi (unat num)"
    by (simp_all add: unat_of_nat)
qed

lemma want_ddr: "n \<le> base_want IPA_NAT_MEM_IN_DDR n + expn_want IPA_NAT_MEM_IN_DDR n + 1"
proof -
  have "4 * n div 5 \<le> base_want IPA_NAT_MEM_IN_DDR n" "n div 5 \<le> expn_want IPA_NAT_MEM_IN_DDR n"
    using pow2_ceil_bounds(1) even_ceil_bounds(1) by (auto simp: base_want_def expn_want_def)
  then show ?thesis by linarith
qed

lemma want_sram: "n \<le> base_want IPA_NAT_MEM_IN_SRAM n"
  using pow2_ceil_bounds(1) by (simp add: base_want_def)

text \<open>A granted table has a power of two of base slots between 2 and 4096, an expansion table of at
  least 2 slots, at most 5120 slots together, and in DDR at most one slot less than was asked for (in
  SRAM never less).\<close>

theorem table_sizes_bounds:
  assumes "ipa_table_calculate_entries_num t num nmi = (0, t')"
  shows "(\<exists>k. 1 \<le> k \<and> k \<le> 12 \<and> unat (table_entries t') = 2 ^ k) \<and> 2 \<le> unat (expn_table_entries t') \<and>
    even (unat (expn_table_entries t')) \<and> tbl_sized t' \<and>
    unat num \<le> tab_sz t' + (if nmi = IPA_NAT_MEM_IN_DDR then 1 else 0)"
proof -
  note G = table_sizes_granted [OF assms] and S = calculate_entries_num_sized [OF assms]
  have "2 \<le> expn_want nmi (unat num)" "even (expn_want nmi (unat num))"
    using even_ceil_bounds(3,4) by (auto simp: expn_want_def)
  moreover have "unat num \<le> tab_sz t' + (if nmi = IPA_NAT_MEM_IN_DDR then 1 else 0)"
    using want_ddr [of "unat num"] want_sram [of "unat num"] G(2,3) by (cases nmi) (auto simp: tab_sz_def)
  ultimately show ?thesis using S(1,4) G(3) by simp
qed

lemma pow2_ceil_power: "1 \<le> k \<Longrightarrow> pow2_ceil (2 ^ k) = 2 ^ k"
  by (rule pow2_ceil_eqI) (simp_all add: two_power_le_iff)

lemma table_sizes_bounds_witness:
  "\<exists>t'. ipa_table_calculate_entries_num tbl_zero 5 IPA_NAT_MEM_IN_DDR = (0, t') \<and>
     5 \<le> tab_sz t' + 1 \<and> tbl_sized (t' :: ipa_nat_rule ipa_table)"
proof -
  have "pow2_ceil 4 = 4" using pow2_ceil_power [of 2] by simp
  then have "ipa_table_calculate_entries_num tbl_zero 5 IPA_NAT_MEM_IN_DDR =
      (0, tbl_zero\<lparr>tot_tbl_ents := 6, table_entries := 4, expn_table_entries := 2\<rparr> :: ipa_nat_rule ipa_table)"
    by (simp add: calculate_entries_num_eq Let_def base_want_def expn_want_def even_ceil_def)
  with table_sizes_bounds [OF this] show ?thesis by simp
qed

text \<open>A request for 21 entries in DDR gets a table of 20 slots: both shares are cut to whole numbers
  before they are rounded up.\<close>

theorem table_of_21_has_20_slots:
  "\<exists>t'. ipa_table_calculate_entries_num t 21 IPA_NAT_MEM_IN_DDR = (0, t') \<and> tab_sz t' = 20"
proof -
  have "pow2_ceil 16 = 16" using pow2_ceil_power [of 4] by simp
  then show ?thesis
    by (simp add: calculate_entries_num_eq Let_def base_want_def expn_want_def even_ceil_def tab_sz_def)
qed

text \<open>The search for the largest table that fits in SRAM ends, below 32768 requests, with the largest
  number of entries such that every number up to it fits; it reports \<open>-1\<close> when not even one entry fits.\<close>

theorem sram_entries_maximal:
  assumes "unat sz1 + unat sz2 \<le> 4096" "unat sram < (unat sz1 + unat sz2) * 32768"
  shows "\<exists>n < 32768. ipa_calc_num_sram_table_entries sram sz1 sz2 = Some (if n = 0 then - 1 else 0, of_nat n)
    \<and> (\<forall>i. 1 \<le> i \<and> i \<le> n \<longrightarrow> sram_fits sram sz1 sz2 (of_nat i))
    \<and> \<not> sram_fits sram sz1 sz2 (of_nat (Suc n))"
  using calc_num_sram_eq [OF assms] .

lemma sram_entries_maximal_witness:
  "\<exists>n < 32768. ipa_calc_num_sram_table_entries 0x2000 32 4 = Some (if n = 0 then - 1 else 0, of_nat n)"
  using sram_entries_maximal [of 32 4 "0x2000"] by auto

section \<open>Rule handles\<close>

text \<open>Every slot of a table of legal size has a handle different from 0 (slot 0 is never used) that
  fits in sixteen bits and leads back to the slot, to its kind of memory and to its part of the table.\<close>

theorem rule_handle_roundtrip:
  assumes "tbl_sized t" "unat i < tab_sz t" "i \<noteq> 0"
  shows "ucast (MakeEntryHdl t i) \<noteq> (0 :: uint32) \<and> ipa_table_get_entry t (ucast (MakeEntryHdl t i)) = (0, Some i, i) \<and>
    BREAK_RULE_HDL t (ucast (MakeEntryHdl t i)) = (nmi_bit (tbl_nmi t), if i \<ge> table_entries t then 1 else 0, i)"
  using made_hdl_nonzero [OF assms] get_entry_made_hdl [OF assms(1,2)] break_make_hdl [OF assms(1,2)] by simp

definition handle_demo :: "ipa_nat_rule ipa_table" where
  "handle_demo = tbl_zero\<lparr>tbl_nmi := IPA_NAT_MEM_IN_SRAM, tot_tbl_ents := 6, table_entries := 4, expn_table_entries := 2\<rparr>"

lemma rule_handle_roundtrip_witness:
  "ipa_table_get_entry handle_demo (ucast (MakeEntryHdl handle_demo 5)) = (0, Some 5, 5)"
  using rule_handle_roundtrip [of handle_demo 5] by (simp add: tbl_sized_def tab_sz_def handle_demo_def)

section \<open>Table memory\<close>

text \<open>A table whose memory was granted and later deleted has given back everything: as many
  deletions as granted allocations, as many unmaps as maps, and every device file that was opened is
  closed.  An allocation that fails has given back the kernel's grant and the device file.\<close>

theorem table_memory_balanced:
  assumes "ipa_mem_descriptor_allocate_memory (logged os) desc fd (w, []) = ((ret, desc'), (w', l'))"
  shows "evs is_open l' = evs is_close l' \<and> (ret \<noteq> 0 \<longrightarrow> evs is_alloc l' = evs is_del l') \<and>
    (ret = 0 \<longrightarrow> (\<forall>r d w2 l2. ipa_mem_descriptor_delete (logged os) desc' fd (w', l') = ((r, d), (w2, l2)) \<longrightarrow>
       evs is_alloc l2 = evs is_del l2 \<and> evs is_map l2 = evs is_unmap l2 \<and> \<not> md_valid d))"
proof -
  note A = allocate_memory_log [OF assms]
  have z: "evs p [] = 0" for p by (simp add: evs_def)
  have "evs is_alloc l2 = evs is_del l2 \<and> evs is_map l2 = evs is_unmap l2 \<and> \<not> md_valid d"
    if "ret = 0" "ipa_mem_descriptor_delete (logged os) desc' fd (w', l') = ((r, d), (w2, l2))" for r d w2 l2
  proof -
    have "md_valid desc'" using allocate_memory_fields [OF assms] that(1) by simp
    then show ?thesis using A that(1) delete_log [OF that(2)] by (simp add: z)
  qed
  then show ?thesis using A by (simp add: z)
qed

definition mem_sim :: "(unit, unit) ipa_os" where
  "mem_sim = sim_os (\<lambda>fd cmd m w. ((0, m), w))"

definition mem_demo :: ipa_mem_descriptor where
  "mem_demo = ipa_mem_descriptor_init mem_desc_zero ''ipaNatTable'' 4096 0 NAT_TABLE_DEV True"

lemma mem_demo_alloc:
  "\<exists>d l. ipa_mem_descriptor_allocate_memory (logged mem_sim) mem_demo 3 ((), []) =
     ((0, d), ((), l)) \<and> evs is_map l = 1"
  by (simp add: mem_demo_def mem_sim_def mem_desc_simps logged_def sim_os_def ipa_mem_descriptor_init_def mem_desc_zero_def evs_def)

lemma table_memory_balanced_witness:
  "\<exists>d l. ipa_mem_descriptor_allocate_memory (logged mem_sim) mem_demo 3 ((), []) =
     ((0, d), ((), l)) \<and> evs is_open l = evs is_close l"
proof -
  obtain d l where A: "ipa_mem_descriptor_allocate_memory (logged mem_sim) mem_demo 3 ((), []) =
     ((0, d), ((), l))" using mem_demo_alloc by blast
  from A table_memory_balanced [OF A] show ?thesis by blast
qed

text \<open>Where the memory of a granted table lies: in SRAM only when its owner allows it, SRAM is
  available and the table fits in it, at the offset the kernel gives inside a mapping of the size the
  kernel asks for; otherwise the mapping is the table.\<close>

theorem table_memory_placement:
  assumes "ipa_mem_descriptor_allocate_memory os desc fd w = ((0, desc'), w')"
  shows "(sram_to_be_used desc' \<longrightarrow> consider_using_sram desc \<and> sram_available desc' \<and>
      (of_int (orig_rqst_size desc) :: uint32) \<le> sram_mem_available_for_nat (nat_sram_info desc')) \<and>
    base_addr desc' = mmap_addr desc' +
      (if sram_to_be_used desc' then ucast (nat_table_offset_into_mmap (nat_sram_info desc')) else 0) \<and>
    (\<not> sram_to_be_used desc' \<longrightarrow> mmap_size desc' = orig_rqst_size desc)"
  using allocate_memory_ok [OF assms] .

lemma table_memory_placement_witness:
  "\<exists>d w. ipa_mem_descriptor_allocate_memory (logged mem_sim) mem_demo 3 ((), []) = ((0, d), w) \<and>
     (\<not> sram_to_be_used d \<longrightarrow> mmap_size d = orig_rqst_size mem_demo)"
proof -
  obtain d l where A: "ipa_mem_descriptor_allocate_memory (logged mem_sim) mem_demo 3 ((), []) =
     ((0, d), ((), l))" using mem_demo_alloc by blast
  from A table_memory_placement [OF A] show ?thesis by blast
qed

text \<open>When closing the device file fails after the memory has been mapped, the allocation is
  reported as failed and the kernel's grant is given back, but the mapping is never removed.\<close>

theorem close_failure_leaks_mapping:
  "\<exists>d l. ipa_mem_descriptor_allocate_memory
       (logged (mem_sim\<lparr>os_close := (\<lambda>fd w. (- 1, w))\<rparr>)) mem_demo 3 ((), []) =
     ((- EINVAL, d), ((), l)) \<and> evs is_map l = 1 \<and> evs is_unmap l = 0 \<and> evs is_alloc l = evs is_del l"
  by (simp add: mem_demo_def mem_sim_def mem_desc_simps logged_def sim_os_def ipa_mem_descriptor_init_def mem_desc_zero_def evs_def)

end
