(* ===== verification/Ipa_Table_Marked.thy ===== *)
theory Ipa_Table_Marked
  imports Ipa_Table_Remove
begin

text \<open>
  Tables whose records can be dead: a deleted head that still carries its list.  Over the lists of
  \<open>table_iface\<close> this adds what a slot says (the rules of the table, by slot), where a rule may be
  (its home, the slot its hash selects) and what adding and removing a slot does to both.  The IPv6CT
  table, the NAT rule table and the NAT index table (where no record is ever dead) are instances.
\<close>

section \<open>Rules and homes\<close>

definition tbl_rules ::
    "('e, 'u) ipa_table_entry_interface \<Rightarrow> ('e \<Rightarrow> 'k) \<Rightarrow> ('k \<Rightarrow> bool) \<Rightarrow> 'e ipa_table \<Rightarrow> uint16 \<Rightarrow> 'k option" where
  "tbl_rules ei key dead t x =
     (if unat x < tab_sz t \<and> tv ei t x \<and> \<not> dead (key (recs t ! unat x)) then Some (key (recs t ! unat x)) else None)"

definition tbl_homes ::
    "('e \<Rightarrow> 'k) \<Rightarrow> ('k \<Rightarrow> bool) \<Rightarrow> (uint16 \<Rightarrow> 'k \<Rightarrow> uint16 \<Rightarrow> bool) \<Rightarrow> 'e ipa_table \<Rightarrow> (uint16 \<Rightarrow> uint16 list) \<Rightarrow> bool" where
  "tbl_homes key dead home t B \<longleftrightarrow> (\<forall>h. \<forall>x \<in> set (B h).
     let k = key (recs t ! unat x) in
     if dead k then x = h \<and> B h \<noteq> [h] else home (table_entries t) k h)"

lemma MakeEntryHdl_same_shape: "same_shape t t' \<Longrightarrow> MakeEntryHdl t' s = MakeEntryHdl t s"
  by (simp add: MakeEntryHdl_def same_shapeD)

lemma member_drop:
  assumes "set (B h) \<subseteq> D" "y \<notin> D"
  shows "(\<exists>k. y \<in> set ((B(h := [])) k)) = (\<exists>k. y \<in> set (B k))"
proof
  assume "\<exists>k. y \<in> set (B k)"
  then obtain k where k: "y \<in> set (B k)" by blast
  with assms have "k \<noteq> h" by auto
  with k show "\<exists>k. y \<in> set ((B(h := [])) k)" by (intro exI [of _ k]) simp
qed (auto split: if_splits)

locale marked_table = table_iface +
  fixes dead :: "'c \<Rightarrow> bool" and home :: "uint16 \<Rightarrow> 'c \<Rightarrow> uint16 \<Rightarrow> bool"
  assumes clean_zero: "clean zero"
    and delk_ok: "dead (delk a b) \<or> home te (delk a b) h"
begin

abbreviation "rules \<equiv> tbl_rules ei key dead"
abbreviation "homes \<equiv> tbl_homes key dead home"
abbreviation "tab_inv t B \<equiv> linv t B \<and> homes t B \<and> free_clean t"

lemma tv_iff:
  assumes "linv t B" "unat x < tab_sz t"
  shows "tv ei t x \<longleftrightarrow> (\<exists>h. x \<in> set (B h))"
  using chains_valid_in [OF invD(2) [OF assms(1)] assms(2)] chains_member(1) [OF invD(2) [OF assms(1)]] by blast

text \<open>A table without rules has no slot in use.\<close>

lemma empty_free:
  assumes I: "linv t B" "homes t B" "rules t = Map.empty" and x: "unat x < tab_sz t"
  shows "\<not> tv ei t x"
proof
  assume v: "tv ei t x"
  obtain h where h: "x \<in> set (B h)" using tv_iff [OF I(1) x] v by blast
  have "y = h \<and> B h \<noteq> [h]" if y: "y \<in> set (B h)" for y
  proof -
    have "rules t y = None" using I(3) by simp
    then have "dead (key (recs t ! unat y))"
      using chains_member(1,3) [OF invD(2) [OF I(1)] y] by (simp add: tbl_rules_def split: if_splits)
    then show ?thesis using I(2) y unfolding tbl_homes_def by (fastforce simp: Let_def)
  qed
  moreover have "B h \<noteq> []" using h by auto
  moreover have "distinct (B h)" using chainsD(5) [OF invD(2) [OF I(1)] \<open>B h \<noteq> []\<close>] .
  ultimately show False by (metis distinct_length_2_or_more list.set_intros(1) list.set_intros(2) neq_Nil_conv)
qed

text \<open>When no expansion slot is free each of them holds a rule.\<close>

lemma full_expansion:
  assumes I: "linv t B" "homes t B" and f: "free_slot ei t = None"
  shows "unat (expn_table_entries t) \<le> card (dom (rules t))"
proof -
  note W = tbl_wfD [OF invD(1) [OF I(1)]] and C = invD(2) [OF I(1)]
  let ?X = "{unat (table_entries t)..<tab_sz t}"
  have u: "unat (of_nat i :: uint16) = i" if "i \<in> ?X" for i using W(7) that by simp
  have "of_nat i \<in> dom (rules t)" if i: "i \<in> ?X" for i
  proof -
    have v: "tv ei t (of_nat i)" using free_slot_None [OF f, of "of_nat i"] u [OF i] i by simp
    then obtain h where h: "of_nat i \<in> set (B h)" using tv_iff [OF I(1), of "of_nat i"] u [OF i] i by auto
    have "of_nat i \<noteq> h" using chains_member(4) [OF C h] u [OF i] i by simp
    then have "\<not> dead (key (recs t ! i))"
      using I(2) h u [OF i] unfolding tbl_homes_def by (fastforce simp: Let_def)
    then show ?thesis using v u [OF i] i by (simp add: tbl_rules_def domIff)
  qed
  then have s: "of_nat ` ?X \<subseteq> dom (rules t)" by blast
  have "inj_on (of_nat :: nat \<Rightarrow> uint16) ?X" by (rule inj_on_inverseI [of _ unat]) (rule u)
  from card_inj_on_le [OF this s] have "card ?X \<le> card (dom (rules t))" by simp
  then show ?thesis by (simp add: tab_sz_def)
qed

text \<open>Two tables with the same lists, up to slot \<open>s\<close>.\<close>

lemma rules_step:
  assumes I: "linv t B" "linv t' B'" and S: "same_shape t t'"
    and m: "\<And>x. x \<noteq> s \<Longrightarrow> (\<exists>h. x \<in> set (B' h)) \<longleftrightarrow> (\<exists>h. x \<in> set (B h))"
    and k: "\<And>x. x \<noteq> s \<Longrightarrow> key (recs t' ! unat x) = key (recs t ! unat x)"
  shows "rules t' = (rules t)(s := rules t' s)"
proof (rule ext)
  fix x
  show "rules t' x = ((rules t)(s := rules t' s)) x"
    using tv_iff [OF I(1), of x] tv_iff [OF I(2), of x] m [of x] k [of x] same_shapeD(10) [OF S]
    by (cases "x = s") (auto simp: tbl_rules_def)
qed

lemma homes_sub:
  assumes C: "homes t B" and te: "table_entries t' = table_entries t"
    and sub: "\<And>k y. y \<in> set (B' k) \<Longrightarrow> y \<in> set (B k) \<and> key (recs t' ! unat y) = key (recs t ! unat y)"
    and ne: "\<And>k. B' k = [k] \<Longrightarrow> B k \<noteq> [k] \<Longrightarrow> \<not> dead (key (recs t ! unat k))"
  shows "homes t' B'"
  unfolding tbl_homes_def
proof (intro allI ballI)
  fix k y assume y: "y \<in> set (B' k)"
  have "if dead (key (recs t ! unat y)) then y = k \<and> B k \<noteq> [k] else home (table_entries t) (key (recs t ! unat y)) k"
    using C sub [OF y] unfolding tbl_homes_def Let_def by blast
  then show "let k' = key (recs t' ! unat y) in
      if dead k' then y = k \<and> B' k \<noteq> [k] else home (table_entries t') k' k"
    using sub [OF y] te ne [of k] by (cases "B k = [k]") (auto simp: Let_def split: if_splits)
qed

section \<open>Adding\<close>

lemma add_inv:
  assumes I: "tab_inv t B" and K: "\<not> dead K" "home (table_entries t) K h"
    and s: "\<not> tv ei t s" "unat s < tab_sz t"
    and t': "linv t' (B(h := B h @ [s]))" "same_shape t t'" "key (recs t' ! unat s) = K"
      "\<forall>x. x \<noteq> s \<longrightarrow> key (recs t' ! unat x) = key (recs t ! unat x)"
      "\<forall>x. x \<noteq> s \<longrightarrow> \<not> tv ei t x \<longrightarrow> recs t' ! unat x = recs t ! unat x"
  shows "tab_inv t' (B(h := B h @ [s]))" "rules t' = (rules t)(s \<mapsto> K)" "rules t s = None"
proof -
  have L: "linv t B" and C: "homes t B" and F: "free_clean t" using I by simp_all
  note S = same_shapeD [OF t'(2)]
  have out: "s \<notin> set (B k)" for k using tv_iff [OF L s(2)] s(1) by blast
  have tv: "tv ei t' x \<longleftrightarrow> tv ei t x \<or> x = s" if "unat x < tab_sz t" for x
    using tv_iff [OF L that] tv_iff [OF t'(1), of x] that S(10) by auto
  have "homes t' (B(h := B h @ [s]))"
    unfolding tbl_homes_def
  proof (intro allI ballI)
    fix k x assume x: "x \<in> set ((B(h := B h @ [s])) k)"
    show "let k' = key (recs t' ! unat x) in
      if dead k' then x = k \<and> (B(h := B h @ [s])) k \<noteq> [k] else home (table_entries t') k' k"
    proof (cases "x = s")
      case True
      then have "k = h" using x out by (auto split: if_splits)
      then show ?thesis using True K t'(3) S(3) by simp
    next
      case False
      then have "x \<in> set (B k)" using x by (auto split: if_splits)
      then show ?thesis using False C t'(4) S(3) by (fastforce simp: tbl_homes_def Let_def split: if_splits)
    qed
  qed
  moreover have "free_clean t'" using F t'(5) tv S(10) by auto
  ultimately show "tab_inv t' (B(h := B h @ [s]))" using t'(1) by simp
  have "rules t' s = Some K" using tv [OF s(2)] s(2) S(10) t'(3) K(1) by (simp add: tbl_rules_def)
  moreover have "rules t' = (rules t)(s := rules t' s)"
    by (rule rules_step [OF L t'(1,2)]) (use t'(4) in auto)
  ultimately show "rules t' = (rules t)(s \<mapsto> K)" by simp
  show "rules t s = None" using s(1) by (simp add: tbl_rules_def)
qed

lemma erased_inv:
  assumes I: "tab_inv t B" and s: "\<not> tv ei t s" "unat s < tab_sz t"
    and t': "linv t' B" "same_shape t t'" "recs t' ! unat s = zero" "\<forall>x. x \<noteq> s \<longrightarrow> recs t' ! unat x = recs t ! unat x"
  shows "tab_inv t' B" "rules t' = rules t"
proof -
  have L: "linv t B" and C: "homes t B" and F: "free_clean t" using I by simp_all
  note S = same_shapeD [OF t'(2)]
  have out: "s \<notin> set (B k)" for k using tv_iff [OF L s(2)] s(1) by blast
  have "homes t' B"
  proof (rule homes_sub [OF C S(3)])
    fix k y assume y: "y \<in> set (B k)"
    then have "y \<noteq> s" using out [of k] by blast
    with t'(4) y show "y \<in> set (B k) \<and> key (recs t' ! unat y) = key (recs t ! unat y)" by simp
  qed simp
  moreover have "clean (recs t' ! unat x)" if "unat x < tab_sz t'" "\<not> tv ei t' x" for x
    using F t'(3,4) that S(10) clean_zero by (cases "x = s") (auto simp: tv_def)
  ultimately show "tab_inv t' B" using t'(1) by blast
  have "rules t' = (rules t)(s := rules t' s)"
    by (rule rules_step [OF L t'(1,2)]) (use t'(4) in auto)
  moreover have "rules t' s = rules t s" using s zero_inv(1) t'(3) by (simp add: tbl_rules_def tv_def)
  ultimately show "rules t' = rules t" by simp
qed

text \<open>Where there is room, insertion: the slot, what erasing it again gives, and what the command gives.\<close>

lemma add_step:
  assumes I: "tab_inv t B" and u: "good u" and h: "0 < unat h" "unat h < unat (table_entries t)"
    and fr: "B h = [] \<or> free_slot ei t \<noteq> None" and room: "dma_room cmd (Suc (Suc n))"
  shows "\<exists>t1 s cmd1 t3 ws. ipa_table_add_entry ei t u h cmd = Some (0, t1, s, ucast (MakeEntryHdl t s), cmd1) \<and>
    dma_room cmd1 n \<and> same_shape t t1 \<and> s \<noteq> 0 \<and> unat s < tab_sz t \<and> \<not> tv ei t s \<and> rules t s = None \<and>
    ipa_table_erase_entry zero t1 s = Some t3 \<and> tab_inv t3 B \<and> same_shape t t3 \<and> rules t3 = rules t \<and>
    dma_posted cmd1 = dma_posted cmd @ ws \<and> (\<forall>one \<in> set ws. d_base_addr one \<in> {bt, xt}) \<and>
    (\<forall>g K. safe_upd g u K \<longrightarrow> (idx \<longrightarrow> g = (\<lambda>e. e) \<and> K = ukey u) \<longrightarrow> \<not> dead K \<longrightarrow> home (table_entries t) K h \<longrightarrow>
      (\<exists>t2. hw_writes fw bt xt ws (t1\<lparr>recs := (recs t1)[unat s := g (recs t1 ! unat s)]\<rparr>) = Some t2 \<and>
        tab_inv t2 (B(h := B h @ [s])) \<and> same_shape t t2 \<and> rules t2 = (rules t)(s \<mapsto> K)))"
proof -
  have L: "linv t B" and F: "free_clean t" using I by simp_all
  have r: "dma_room cmd (Suc n)" using dma_room_mono [OF room] by simp
  obtain t1 s cmd1 where a: "ipa_table_add_entry ei t u h cmd = Some (0, t1, s, ucast (MakeEntryHdl t s), cmd1)"
      "added t B u h cmd t1 s cmd1" "dma_room cmd1 n"
  proof (cases "B h = []")
    case True
    then show ?thesis using add_head [OF L F u h True r] that by blast
  next
    case False
    then obtain k where "free_slot ei t = Some k" using fr by auto
    then show ?thesis using add_tail [OF L F u False _ room] that by blast
  qed
  from a(2) obtain t3 ws where b: "same_shape t t1" "s \<noteq> 0" "unat s < tab_sz t" "\<not> tv ei t s"
      "ipa_table_erase_entry zero t1 s = Some t3" "linv t3 B" "same_shape t t3"
      "recs t3 ! unat s = zero" "\<forall>x. x \<noteq> s \<longrightarrow> recs t3 ! unat x = recs t ! unat x"
      "dma_posted cmd1 = dma_posted cmd @ ws" "\<forall>one \<in> set ws. d_base_addr one \<in> {bt, xt}"
      "\<forall>g K. safe_upd g u K \<longrightarrow> (idx \<longrightarrow> g = (\<lambda>e. e) \<and> K = ukey u) \<longrightarrow>
         (\<exists>t2. hw_writes fw bt xt ws (t1\<lparr>recs := (recs t1)[unat s := g (recs t1 ! unat s)]\<rparr>) = Some t2 \<and>
           linv t2 (B(h := B h @ [s])) \<and> same_shape t t2 \<and> key (recs t2 ! unat s) = K \<and>
           (\<forall>x. x \<noteq> s \<longrightarrow> key (recs t2 ! unat x) = key (recs t ! unat x)) \<and>
           (\<forall>x. x \<noteq> s \<longrightarrow> \<not> tv ei t x \<longrightarrow> recs t2 ! unat x = recs t ! unat x))"
    unfolding added_def by blast
  note E = erased_inv [OF I b(4,3,6-9)]
  have fin: "\<exists>t2. hw_writes fw bt xt ws (t1\<lparr>recs := (recs t1)[unat s := g (recs t1 ! unat s)]\<rparr>) = Some t2 \<and>
      tab_inv t2 (B(h := B h @ [s])) \<and> same_shape t t2 \<and> rules t2 = (rules t)(s \<mapsto> K)"
    if g: "safe_upd g u K" "idx \<longrightarrow> g = (\<lambda>e. e) \<and> K = ukey u" "\<not> dead K" "home (table_entries t) K h" for g K
    using b(12) [rule_format, OF g(1)] g(2) add_inv [OF I g(3,4) b(4,3)] by blast
  have "rules t s = None" using b(4) by (simp add: tbl_rules_def)
  then show ?thesis using a(1,3) b(1-5,7,10,11) E fin by blast
qed

section \<open>Removing\<close>

lemma remove_lone:
  assumes I: "tab_inv t B" and B: "B h = [h]"
  shows "\<exists>th t'. hw_writes fw bt xt [del_write t [] h []] t = Some th \<and> same_shape t th \<and>
    ipa_table_delete_entry ei zero th (iter_at [] h []) pe = Some t' \<and>
    tab_inv t' (B(h := [])) \<and> same_shape t t' \<and> rules t' = (rules t)(h := None)"
proof -
  have L: "linv t B" and C: "homes t B" and F: "free_clean t" using I by simp_all
  obtain th t' where th: "hw_write fw bt xt (del_write t [] h []) t = Some th"
      "same_shape t th" "ipa_table_delete_entry ei zero th (iter_at [] h []) pe = Some t'"
      "linv t' (B(h := []))" "same_shape t t'" "recs t' ! unat h = zero"
      "\<forall>y. y \<noteq> h \<longrightarrow> recs t' ! unat y = recs t ! unat y"
    using delete_lone_head [OF L B] by blast
  note S = same_shapeD [OF th(5)]
  have hin: "h \<in> set (B h)" using B by simp
  have out: "h \<notin> set (B k)" if "k \<noteq> h" for k
    using chains_disjoint [OF invD(2) [OF L] hin] that by blast
  have "homes t' (B(h := []))"
    by (rule homes_sub [OF C S(3)])
      (use th(7) out in \<open>metis empty_iff empty_set fun_upd_apply\<close>, use th(7) in \<open>simp split: if_splits\<close>)
  moreover have "clean (recs t' ! unat x)" if "unat x < tab_sz t'" "\<not> tv ei t' x" for x
    using F that th(6,7) S(10) clean_zero by (cases "x = h") (auto simp: tv_def)
  moreover have "rules t' h = None" using th(6) zero_inv(1) by (simp add: tbl_rules_def tv_def)
  moreover have "rules t' = (rules t)(h := rules t' h)"
    by (rule rules_step [OF L th(4,5)]) (use th(7) member_drop [of B h "{h}"] B in \<open>simp_all del: fun_upd_apply\<close>)
  ultimately show ?thesis using th by auto
qed

text \<open>A head with a tail is only marked, or takes over what the slot behind it says.\<close>

lemma remove_head:
  assumes I: "tab_inv t B" and B: "B h = h # z # zs"
  shows "\<exists>t'. hw_writes fw bt xt [del_write t [] h (z # zs)] t = Some t' \<and> tab_inv t' B \<and> same_shape t t' \<and>
    key (recs t' ! unat h) = delk (key (recs t ! unat h)) (key (recs t ! unat z)) \<and>
    (\<forall>y. y \<noteq> h \<longrightarrow> recs t' ! unat y = recs t ! unat y) \<and>
    rules t' = (rules t)(h := if dead (key (recs t' ! unat h)) then None else Some (key (recs t' ! unat h)))"
proof -
  have L: "linv t B" and C: "homes t B" and F: "free_clean t" using I by simp_all
  obtain t' where t': "hw_write fw bt xt (del_write t [] h (z # zs)) t = Some t'"
      "linv t' B" "same_shape t t'"
      "key (recs t' ! unat h) = delk (key (recs t ! unat h)) (key (recs t ! unat z))"
      "\<forall>y. y \<noteq> h \<longrightarrow> recs t' ! unat y = recs t ! unat y"
    using delete_head_with_tail [OF L B] by blast
  note S = same_shapeD [OF t'(3)]
  have hin: "h \<in> set (B h)" using B by simp
  have out: "h \<in> set (B k) \<Longrightarrow> k = h" for k
    using chains_disjoint [OF invD(2) [OF L] hin] by blast
  have "homes t' B"
    unfolding tbl_homes_def
  proof (intro allI ballI)
    fix k x assume x: "x \<in> set (B k)"
    show "let k' = key (recs t' ! unat x) in if dead k' then x = k \<and> B k \<noteq> [k] else home (table_entries t') k' k"
      using C x t'(4,5) S(3) out B
        delk_ok [of "key (recs t ! unat h)" "key (recs t ! unat z)" "table_entries t" k]
      unfolding tbl_homes_def by (cases "x = h") (auto simp: Let_def)
  qed
  moreover have tve: "tv ei t' x = tv ei t x" if "unat x < tab_sz t" for x
    using tv_iff [OF L that] tv_iff [OF t'(2), of x] that S(10) by auto
  moreover have hv: "unat h < tab_sz t" "tv ei t h" using list_head [OF L, of h] B by auto
  ultimately have "tab_inv t' B" using F t'(2,5) S(10) by metis
  moreover have "rules t' = (rules t)(h := rules t' h)"
    by (rule rules_step [OF L t'(2,3)]) (use t'(5) in auto)
  moreover have "rules t' h = (if dead (key (recs t' ! unat h)) then None else Some (key (recs t' ! unat h)))"
    using hv tve [of h] S(10) by (simp add: tbl_rules_def)
  ultimately show ?thesis using t' by auto
qed

text \<open>
  A slot behind another.  When it was the last one behind a dead head, the head goes with it, as
  the caller of the deletion finds out by looking at the slot before.
\<close>

lemma remove_member:
  assumes I: "tab_inv t B" and B: "B h = ys @ q # x # zs"
  shows "\<exists>th t' B'. hw_writes fw bt xt [del_write t (ys @ [q]) x zs] t = Some th \<and> same_shape t th \<and>
    ipa_table_delete_entry ei zero th (iter_at (ys @ [q]) x zs) (dead (key (recs th ! unat q))) = Some t' \<and>
    tab_inv t' B' \<and> same_shape t t' \<and> rules t' = (rules t)(x := None)"
proof -
  have L: "linv t B" and C: "homes t B" and F: "free_clean t" using I by simp_all
  have Bx: "B h = (ys @ [q]) @ x # zs" using B by simp
  note fq = list_facts [OF L B] and fx = list_facts [OF L Bx]
  define pe where "pe = dead (key (recs t ! unat q))"
  have Cq: "pe \<Longrightarrow> q = h" using C B unfolding tbl_homes_def pe_def by (fastforce simp: Let_def)
  have disj: "y \<in> set (B k) \<Longrightarrow> y \<in> set (B h) \<Longrightarrow> k = h" for y k
    using chains_disjoint [OF invD(2) [OF L]] by blast
  have nz: "\<not> tv ei t' s" if "recs t' ! unat s = zero" for t' and s :: uint16
    using that zero_inv(1) by (simp add: tv_def)
  show ?thesis
  proof (cases "pe \<and> zs = []")
    case True
    then have qh: "q = h" "ys = []" using Cq fq(6) by auto
    have B2: "B h = [h, x]" using B qh True by simp
    obtain th t' where th: "hw_write fw bt xt (del_write t [h] x []) t = Some th"
        "same_shape t th" "\<forall>y :: uint16. key (recs th ! unat y) = key (recs t ! unat y)"
        "ipa_table_delete_entry ei zero th (iter_at [h] x []) True = Some t'"
        "linv t' (B(h := []))" "same_shape t t'" "recs t' ! unat x = zero" "recs t' ! unat h = zero"
        "\<forall>y. y \<noteq> x \<longrightarrow> y \<noteq> h \<longrightarrow> key (recs t' ! unat y) = key (recs t ! unat y)"
        "\<forall>y. \<not> tv ei t y \<longrightarrow> recs t' ! unat y = recs t ! unat y"
      using delete_last_member [OF L B2] by blast
    note S = same_shapeD [OF th(6)]
    have mem: "(\<exists>k. y \<in> set ((B(h := [])) k)) = (\<exists>k. y \<in> set (B k))" if "y \<noteq> x" "y \<noteq> h" for y
      by (rule member_drop [where D = "{h, x}"]) (use that B2 in auto)
    have "homes t' (B(h := []))"
    proof (rule homes_sub [OF C S(3)])
      fix k y assume "y \<in> set ((B(h := [])) k)"
      then have k: "k \<noteq> h" "y \<in> set (B k)" by (auto split: if_splits)
      then have "y \<noteq> x" "y \<noteq> h" using disj [of y k] B2 by auto
      then show "y \<in> set (B k) \<and> key (recs t' ! unat y) = key (recs t ! unat y)" using k th(9) by simp
    qed (auto split: if_splits)
    moreover have "clean (recs t' ! unat y)" if y: "unat y < tab_sz t'" "\<not> tv ei t' y" for y
    proof (cases "y = x \<or> y = h")
      case True
      then show ?thesis using th(7,8) clean_zero by auto
    next
      case False
      then have "\<not> tv ei t y"
        using mem [of y] tv_iff [OF L, of y] tv_iff [OF th(5), of y] y S(10) by auto
      then show ?thesis using F th(10) y S(10) by auto
    qed
    moreover have "rules t' = (rules t)(x := None)"
    proof
      fix y
      have n: "rules t' h = None" "rules t' x = None" using nz th(7,8) by (simp_all add: tbl_rules_def)
      have o: "rules t h = None" using True qh by (simp add: tbl_rules_def pe_def)
      show "rules t' y = ((rules t)(x := None)) y"
        using n o th(9) mem [of y] tv_iff [OF L, of y] tv_iff [OF th(5), of y] S(10)
        by (cases "y = x \<or> y = h") (auto simp: tbl_rules_def)
    qed
    moreover have "dead (key (recs th ! unat q))" using th(3) True by (simp add: pe_def)
    ultimately show ?thesis
      using th qh True by (intro exI [of _ th] exI [of _ t'] exI [of _ "B(h := [])"]) auto
  next
    case False
    obtain th where th: "hw_write fw bt xt (del_write t (ys @ [q]) x zs) t = Some th"
        "same_shape t th" "\<forall>y :: uint16. key (recs th ! unat y) = key (recs t ! unat y)"
      and del: "\<forall>pe. (pe \<longrightarrow> zs \<noteq> []) \<longrightarrow>
      (\<exists>t'. ipa_table_delete_entry ei zero th (iter_at (ys @ [q]) x zs) pe = Some t' \<and>
        linv t' (B(h := ys @ q # zs)) \<and> same_shape t t' \<and> recs t' ! unat x = zero \<and>
        (\<forall>y. y \<noteq> x \<longrightarrow> key (recs t' ! unat y) = key (recs t ! unat y)) \<and>
        (\<forall>y. \<not> tv ei t y \<longrightarrow> recs t' ! unat y = recs t ! unat y))"
      using delete_member [OF L B] by blast
    have pt: "dead (key (recs th ! unat q)) = pe" using th(3) by (simp add: pe_def)
    obtain t' where t': "ipa_table_delete_entry ei zero th (iter_at (ys @ [q]) x zs) pe = Some t'"
        "linv t' (B(h := ys @ q # zs))" "same_shape t t'" "recs t' ! unat x = zero"
        "\<forall>y. y \<noteq> x \<longrightarrow> key (recs t' ! unat y) = key (recs t ! unat y)"
        "\<forall>y. \<not> tv ei t y \<longrightarrow> recs t' ! unat y = recs t ! unat y"
      using del [rule_format, of pe] False by auto
    note S = same_shapeD [OF t'(3)]
    let ?B = "B(h := ys @ q # zs)"
    have mem: "(\<exists>k. y \<in> set (?B k)) = (\<exists>k. y \<in> set (B k))" if "y \<noteq> x" for y
    proof
      assume "\<exists>k. y \<in> set (?B k)"
      then obtain k where "y \<in> set (?B k)" by blast
      then show "\<exists>k. y \<in> set (B k)" using B by (intro exI [of _ k]) (auto split: if_splits)
    next
      assume "\<exists>k. y \<in> set (B k)"
      then obtain k where "y \<in> set (B k)" by blast
      then show "\<exists>k. y \<in> set (?B k)" using B that by (intro exI [of _ k]) auto
    qed
    have xo: "x \<notin> set (?B k)" for k
      using disj [of x k] B fx(9) by (auto split: if_splits)
    have "homes t' ?B"
    proof (rule homes_sub [OF C S(3)])
      fix k y assume y: "y \<in> set (?B k)"
      then have "y \<noteq> x" using xo [of k] by blast
      moreover have "y \<in> set (B k)" using y B by (cases "k = h") auto
      ultimately show "y \<in> set (B k) \<and> key (recs t' ! unat y) = key (recs t ! unat y)" using t'(5) by simp
    next
      fix k assume k: "?B k = [k]" "B k \<noteq> [k]"
      then have "k = h" by (auto split: if_splits)
      with k have "ys = []" "q = h" "zs = []" by (auto simp: append_eq_Cons_conv)
      with False \<open>k = h\<close> show "\<not> dead (key (recs t ! unat k))" by (simp add: pe_def)
    qed
    moreover have "clean (recs t' ! unat y)" if y: "unat y < tab_sz t'" "\<not> tv ei t' y" for y
    proof (cases "y = x")
      case True
      then show ?thesis using t'(4) clean_zero by simp
    next
      case False
      then have "\<not> tv ei t y"
        using tv_iff [OF L, of y] tv_iff [OF t'(2), of y] y S(10) mem by auto
      then show ?thesis using F t'(6) y S(10) by auto
    qed
    moreover have "rules t' x = None" using nz [OF t'(4)] by (simp add: tbl_rules_def)
    moreover have "rules t' = (rules t)(x := rules t' x)"
      by (rule rules_step [OF L t'(2,3)]) (use t'(5) mem in auto)
    ultimately show ?thesis
      using th(1,2) t'(1,2,3) pt by (intro exI [of _ th] exI [of _ t'] exI [of _ ?B]) auto
  qed
qed

text \<open>Both at once, for every slot that is not a head with a tail.\<close>

lemma remove_plain:
  assumes I: "tab_inv t B" and B: "B h = ys @ x # zs" and p: "ys \<noteq> [] \<or> zs = []"
  shows "\<exists>th t' B'. hw_writes fw bt xt [del_write t ys x zs] t = Some th \<and> same_shape t th \<and>
    ipa_table_delete_entry ei zero th (iter_at ys x zs) (ys \<noteq> [] \<and> dead (key (recs th ! unat (last ys)))) = Some t' \<and>
    tab_inv t' B' \<and> same_shape t t' \<and> rules t' = (rules t)(x := None)"
proof (cases "ys = []")
  case True
  then have B1: "B h = [h]" "x = h" "zs = []" using p list_facts(6) [OF conjunct1 [OF I] B] B by auto
  from remove_lone [OF I B1(1), of False] show ?thesis using True B1 by (auto simp del: fun_upd_apply)
next
  case False
  then have Bq: "B h = butlast ys @ last ys # x # zs" "ys = butlast ys @ [last ys]" using B by simp_all
  from remove_member [OF I Bq(1), folded Bq(2)] show ?thesis using False by simp
qed

lemma head_with_tail_iff:
  assumes L: "linv t B" and B: "B h = ys @ x # zs"
  shows "ipa_table_iterator_is_head_with_tail (iter_at ys x zs) \<longleftrightarrow> zs \<noteq> [] \<and> ys = []"
proof -
  have "z \<noteq> 0" if "zs = z # zt" for z zt
    using list_facts(2) [OF L, of h "ys @ [x]" z zt] B that by simp
  moreover have "last ys \<noteq> 0" if "ys \<noteq> []"
    using list_facts(2) [OF L, of h "butlast ys" "last ys" "x # zs"] B that by simp
  ultimately show ?thesis
    by (auto simp: ipa_table_iterator_is_head_with_tail_def iter_at_def VALID_INDEX_def split: list.splits)
qed

end

end
