(* ===== verification/Ipa_Ipv6ct.thy ===== *)
theory Ipa_Ipv6ct
  imports Ipa_Table_Remove Ipa_Mem_Descriptor
begin

text \<open>
  The IPv6 connection tracking table of \<open>ipa_ipv6ct.c\<close>: its records, the callbacks it gives to the
  generic table, the hash, and the operations of its API.  The static functions whose names also
  occur in \<open>ipa_nat_drvi.c\<close> carry the prefix \<open>ct_\<close>.
\<close>

section \<open>Data\<close>

abbreviation (input) IPA_IPV6CT_MAX_TBLS :: nat where "IPA_IPV6CT_MAX_TBLS \<equiv> 1"
abbreviation (input) IPA_IPV6CT_RULE_FLAG_FIELD_OFFSET :: nat where "IPA_IPV6CT_RULE_FLAG_FIELD_OFFSET \<equiv> 34"
abbreviation (input) IPA_IPV6CT_RULE_NEXT_FIELD_OFFSET :: nat where "IPA_IPV6CT_RULE_NEXT_FIELD_OFFSET \<equiv> 40"
abbreviation (input) IPA_IPV6CT_RULE_PROTO_FIELD_OFFSET :: nat where "IPA_IPV6CT_RULE_PROTO_FIELD_OFFSET \<equiv> 38"
abbreviation (input) IPA_IPV6CT_INVALID_PROTO_FIELD_VALUE :: uint16 where "IPA_IPV6CT_INVALID_PROTO_FIELD_VALUE \<equiv> 0xFF00"
abbreviation (input) IPA_IPV6CT_INVALID_PROTO_FIELD_CMP :: uint8 where "IPA_IPV6CT_INVALID_PROTO_FIELD_CMP \<equiv> 0xFF"

text \<open>The record in memory (64 bytes), without its reserved bits; a bit-field keeps its width.\<close>

record ipa_ipv6ct_hw_entry =
  ce_src_lsb :: uint64
  ce_src_msb :: uint64
  ce_dest_lsb :: uint64
  ce_dest_msb :: uint64
  ce_uc_activation_index :: "13 word"
  ce_s :: bool
  ce_redirect :: bool
  ce_enable :: bool
  ce_time_stamp :: "24 word"
  ce_protocol :: uint8
  ce_next_index :: uint16
  ce_dest_port :: uint16
  ce_src_port :: uint16
  ce_ucp :: bool
  ce_out_allowed :: bool
  ce_in_allowed :: bool
  ce_prev_index :: uint16

definition ct_entry_zero :: ipa_ipv6ct_hw_entry where
  "ct_entry_zero = \<lparr>ce_src_lsb = 0, ce_src_msb = 0, ce_dest_lsb = 0, ce_dest_msb = 0,
     ce_uc_activation_index = 0, ce_s = False, ce_redirect = False, ce_enable = False,
     ce_time_stamp = 0, ce_protocol = 0, ce_next_index = 0, ce_dest_port = 0, ce_src_port = 0,
     ce_ucp = False, ce_out_allowed = False, ce_in_allowed = False, ce_prev_index = 0\<rparr>"

text \<open>What the client asks for; the direction is an \<open>enum\<close>, which C lets hold any number.\<close>

record ipa_ipv6ct_rule =
  cr_src_lsb :: uint64
  cr_src_msb :: uint64
  cr_dest_lsb :: uint64
  cr_dest_msb :: uint64
  cr_direction :: uint32
  cr_ucp :: bool
  cr_s :: bool
  cr_uc_activation_index :: uint16
  cr_src_port :: uint16
  cr_dest_port :: uint16
  cr_protocol :: uint8

abbreviation (input) IPA_IPV6CT_DIRECTION_DENY_ALL :: uint32 where "IPA_IPV6CT_DIRECTION_DENY_ALL \<equiv> 0"
abbreviation (input) IPA_IPV6CT_DIRECTION_ALLOW_OUT :: uint32 where "IPA_IPV6CT_DIRECTION_ALLOW_OUT \<equiv> 1"
abbreviation (input) IPA_IPV6CT_DIRECTION_ALLOW_IN :: uint32 where "IPA_IPV6CT_DIRECTION_ALLOW_IN \<equiv> 2"
abbreviation (input) IPA_IPV6CT_DIRECTION_ALLOW_ALL :: uint32 where "IPA_IPV6CT_DIRECTION_ALLOW_ALL \<equiv> 3"

record ipa_ipv6ct_table =
  ct_mem :: ipa_mem_descriptor
  ct_tab :: "ipa_ipv6ct_hw_entry ipa_table"

record ipa_ipv6ct =
  ct_desc :: "ipa_descriptor option"
  ct_tables :: "ipa_ipv6ct_table list"
  ct_cnt :: uint8

definition ct_table_zero :: ipa_ipv6ct_table where
  "ct_table_zero = \<lparr>ct_mem = mem_desc_zero, ct_tab = tbl_zero\<rparr>"

text \<open>The static variable \<open>ipv6ct\<close> before the first call.\<close>

definition ipv6ct_initial :: ipa_ipv6ct where
  "ipv6ct_initial = \<lparr>ct_desc = None, ct_tables = replicate IPA_IPV6CT_MAX_TBLS ct_table_zero, ct_cnt = 0\<rparr>"

section \<open>Hash\<close>

function xor_segments_loop :: "uint64 \<Rightarrow> uint16 \<Rightarrow> uint16" where
  "xor_segments_loop num ret =
     (if num \<noteq> 0 then xor_segments_loop (drop_bit 16 num) (ret XOR ucast (num AND 0xffff)) else ret)"
  by pat_completeness auto
termination
proof (relation "measure (\<lambda>(num, ret). unat num)")
  fix num :: uint64 and ret :: uint16
  assume "num \<noteq> 0"
  then have "unat num div 65536 < unat num" by (intro div_less_dividend) (auto simp: unat_gt_0)
  then show "((drop_bit 16 num, ret XOR ucast (num AND 0xffff)), num, ret) \<in> measure (\<lambda>(num, ret). unat num)"
    by (simp add: drop_bit_eq_div unat_div)
qed simp

declare xor_segments_loop.simps [simp del]

definition ipa_ipv6ct_xor_segments :: "uint64 \<Rightarrow> uint16" where
  "ipa_ipv6ct_xor_segments num = xor_segments_loop num 0"

definition ipa_ipv6ct_hash :: "ipa_ipv6ct_rule \<Rightarrow> uint16 \<Rightarrow> uint16" where
  "ipa_ipv6ct_hash rule sz =
     (let h = ipa_ipv6ct_xor_segments (cr_src_lsb rule);
          h = h XOR ipa_ipv6ct_xor_segments (cr_src_msb rule);
          h = h XOR ipa_ipv6ct_xor_segments (cr_dest_lsb rule);
          h = h XOR ipa_ipv6ct_xor_segments (cr_dest_msb rule);
          h = h XOR cr_src_port rule;
          h = h XOR cr_dest_port rule;
          h = h XOR ucast (cr_protocol rule);
          h = h AND sz
      in if h = 0 then sz else h)"

section \<open>Callbacks\<close>

definition ct_table_entry_is_valid :: "ipa_ipv6ct_hw_entry \<Rightarrow> bool" where
  "ct_table_entry_is_valid e = ce_enable e"

definition ct_table_entry_get_next_index :: "ipa_ipv6ct_hw_entry \<Rightarrow> uint16" where
  "ct_table_entry_get_next_index e = ce_next_index e"

definition ct_table_entry_get_prev_index ::
    "ipa_ipv6ct_hw_entry \<Rightarrow> uint16 \<Rightarrow> uint16 list option \<Rightarrow> uint16 \<Rightarrow> uint16 option" where
  "ct_table_entry_get_prev_index e entry_index meta base_table_size = Some (ce_prev_index e)"

definition ct_table_entry_set_prev_index ::
    "ipa_ipv6ct_hw_entry \<Rightarrow> uint16 \<Rightarrow> uint16 \<Rightarrow> uint16 list option \<Rightarrow> uint16 \<Rightarrow>
     (ipa_ipv6ct_hw_entry \<times> uint16 list option) option" where
  "ct_table_entry_set_prev_index e entry_index prev_index meta base_table_size =
     Some (e\<lparr>ce_prev_index := prev_index\<rparr>, meta)"

definition ct_table_entry_copy_from_user ::
    "ipa_ipv6ct_hw_entry \<Rightarrow> ipa_ipv6ct_rule \<Rightarrow> int \<times> ipa_ipv6ct_hw_entry" where
  "ct_table_entry_copy_from_user e u =
     (let e = e\<lparr>ce_src_lsb := cr_src_lsb u, ce_src_msb := cr_src_msb u,
                ce_dest_lsb := cr_dest_lsb u, ce_dest_msb := cr_dest_msb u,
                ce_protocol := cr_protocol u, ce_src_port := cr_src_port u,
                ce_dest_port := cr_dest_port u, ce_ucp := cr_ucp u,
                ce_uc_activation_index := ucast (cr_uc_activation_index u), ce_s := cr_s u\<rparr>
      in if cr_direction u = IPA_IPV6CT_DIRECTION_DENY_ALL then (0, e)
         else if cr_direction u = IPA_IPV6CT_DIRECTION_ALLOW_OUT then (0, e\<lparr>ce_out_allowed := True\<rparr>)
         else if cr_direction u = IPA_IPV6CT_DIRECTION_ALLOW_IN then (0, e\<lparr>ce_in_allowed := True\<rparr>)
         else if cr_direction u = IPA_IPV6CT_DIRECTION_ALLOW_ALL
              then (0, e\<lparr>ce_out_allowed := True, ce_in_allowed := True\<rparr>)
         else (- EINVAL, e))"

text \<open>The flags of a DMA write: bit 15 is \<open>enable\<close>, bit 14 \<open>redirect\<close>, the others are reserved.\<close>

definition ct_table_entry_head_insert ::
    "ipa_ipv6ct_hw_entry \<Rightarrow> ipa_ipv6ct_rule \<Rightarrow> (int \<times> ipa_ipv6ct_hw_entry \<times> uint16) option" where
  "ct_table_entry_head_insert e u =
     (let (ret, e) = ct_table_entry_copy_from_user e u in
      if ret \<noteq> 0 then Some (ret, e, 0) else Some (0, e, push_bit 15 1))"

definition ct_table_entry_tail_insert ::
    "ipa_ipv6ct_hw_entry \<Rightarrow> ipa_ipv6ct_rule \<Rightarrow> (int \<times> ipa_ipv6ct_hw_entry) option" where
  "ct_table_entry_tail_insert e u =
     (let (ret, e) = ct_table_entry_copy_from_user e u in
      if ret \<noteq> 0 then Some (ret, e) else Some (0, e\<lparr>ce_enable := True\<rparr>))"

definition ct_table_entry_get_delete_head_dma_command_data ::
    "ipa_ipv6ct_hw_entry \<Rightarrow> ipa_ipv6ct_hw_entry \<Rightarrow> uint16" where
  "ct_table_entry_get_delete_head_dma_command_data head next_entry = IPA_IPV6CT_INVALID_PROTO_FIELD_VALUE"

definition ct_entry_interface ::
    "(ipa_ipv6ct_hw_entry, ipa_ipv6ct_rule) ipa_table_entry_interface" where
  "ct_entry_interface =
     \<lparr>entry_is_valid = ct_table_entry_is_valid,
      entry_get_next_index = ct_table_entry_get_next_index,
      entry_get_prev_index = ct_table_entry_get_prev_index,
      entry_set_prev_index = ct_table_entry_set_prev_index,
      entry_head_insert = ct_table_entry_head_insert,
      entry_tail_insert = ct_table_entry_tail_insert,
      entry_get_delete_head_dma_command_data = ct_table_entry_get_delete_head_dma_command_data\<rparr>"

section \<open>Creating and destroying the table\<close>

definition ipa_ipv6ct_create_table_dma_cmd_helpers :: "ipa_ipv6ct_table \<Rightarrow> uint8 \<Rightarrow> ipa_ipv6ct_table" where
  "ipa_ipv6ct_create_table_dma_cmd_helpers tbl table_indx =
     (let helper = (\<lambda>field. ipa_table_dma_cmd_helper_init table_indx IPA_IPV6CT_BASE_TBL IPA_IPV6CT_EXPN_TBL
                      (addr_offset (ct_mem tbl) + of_nat field))
      in tbl\<lparr>ct_tab := (ct_tab tbl)\<lparr>dma_help := (\<lambda>ht. case ht of
           HELP_UPDATE_HEAD \<Rightarrow> Some (helper IPA_IPV6CT_RULE_FLAG_FIELD_OFFSET)
         | HELP_UPDATE_ENTRY \<Rightarrow> Some (helper IPA_IPV6CT_RULE_NEXT_FIELD_OFFSET)
         | HELP_DELETE_HEAD \<Rightarrow> Some (helper IPA_IPV6CT_RULE_PROTO_FIELD_OFFSET))\<rparr>\<rparr>)"

definition ipa_ipv6ct_create_table ::
    "('w, 'm) ipa_os \<Rightarrow> int \<Rightarrow> ipa_ipv6ct_table \<Rightarrow> uint16 \<Rightarrow> uint8 \<Rightarrow> 'w \<Rightarrow>
     (int \<times> ipa_ipv6ct_table) \<times> 'w" where
  "ipa_ipv6ct_create_table os fd tbl number_of_entries tbl_index w =
     (let tbl = tbl\<lparr>ct_tab := ipa_table_init ''IPA IPv6CT table'' IPA_NAT_MEM_IN_DDR 64 None 0\<rparr>;
          (ret, t) = ipa_table_calculate_entries_num (ct_tab tbl) number_of_entries IPA_NAT_MEM_IN_DDR;
          tbl = tbl\<lparr>ct_tab := t\<rparr>
      in if ret \<noteq> 0 then ((ret, tbl), w)
      else
        let sz = ipa_table_calculate_size (ct_tab tbl);
            tbl = tbl\<lparr>ct_mem := ipa_mem_descriptor_init (ct_mem tbl) ''ipaIpv6CTTable'' sz tbl_index IPV6CT_TABLE_DEV False\<rparr>;
            ((ret, md), w) = ipa_mem_descriptor_allocate_memory os (ct_mem tbl) fd w;
            tbl = tbl\<lparr>ct_mem := md\<rparr>
        in if ret \<noteq> 0 then ((ret, ct_table_zero), w)
        else
          let tbl = tbl\<lparr>ct_tab := fst (ipa_table_calculate_addresses (ct_tab tbl) (base_addr (ct_mem tbl)))\<rparr>;
              tbl = tbl\<lparr>ct_tab := ipa_table_reset ct_entry_zero (ct_tab tbl)\<rparr>
          in ((0, ipa_ipv6ct_create_table_dma_cmd_helpers tbl tbl_index), w))"

definition ipa_ipv6ct_destroy_table ::
    "('w, 'm) ipa_os \<Rightarrow> int \<Rightarrow> ipa_ipv6ct_table \<Rightarrow> 'w \<Rightarrow> (int \<times> ipa_ipv6ct_table) \<times> 'w" where
  "ipa_ipv6ct_destroy_table os fd tbl w =
     (let ((ret, md), w) = ipa_mem_descriptor_delete os (ct_mem tbl) fd w in ((ret, ct_table_zero), w))"

section \<open>Requests to the hardware\<close>

definition ipa_ipv6ct_post_init_cmd ::
    "('w, 'm) ipa_os \<Rightarrow> int \<Rightarrow> ipa_ipv6ct_table \<Rightarrow> uint8 \<Rightarrow> 'w \<Rightarrow> int \<times> 'w" where
  "ipa_ipv6ct_post_init_cmd os fd tbl tbl_index w =
     os_init_ipv6ct os fd
       \<lparr>v6i_base_table_offset = addr_offset (ct_mem tbl),
        v6i_expn_table_offset = addr_offset (ct_mem tbl) + ucast (table_entries (ct_tab tbl)) * 64,
        v6i_table_entries = table_entries (ct_tab tbl) - 1,
        v6i_expn_table_entries = expn_table_entries (ct_tab tbl),
        v6i_tbl_index = tbl_index\<rparr> w"

text \<open>The memory the hardware writes: the number of base slots and the records.\<close>

type_synonym ct_memory = "uint16 \<times> ipa_ipv6ct_hw_entry list"

definition ipa_ipv6ct_post_dma_cmd ::
    "('w, ct_memory) ipa_os \<Rightarrow> int \<Rightarrow> ipa_ioc_nat_dma_cmd \<Rightarrow> ipa_ipv6ct_hw_entry ipa_table \<Rightarrow> 'w \<Rightarrow>
     (int \<times> ipa_ipv6ct_hw_entry ipa_table) \<times> 'w" where
  "ipa_ipv6ct_post_dma_cmd os fd cmd t w =
     (let ((ret, m), w) = os_dma os fd (cmd\<lparr>dma_mem_type := IPA_NAT_MEM_IN_DDR\<rparr>) (table_entries t, recs t) w;
          t = t\<lparr>recs := snd m\<rparr>
      in if ret \<noteq> 0 then ((- EIO, t), w) else ((0, t), w))"

section \<open>The API\<close>

text \<open>
  Every operation returns its result, the state of the module and the state of the system.  The
  result is undefined (\<open>None\<close>) when no descriptor is open, because the code reads
  \<open>ipv6ct.ipa_desc->ver\<close> without a check.
\<close>

definition ct_close_desc :: "('w, 'm) ipa_os \<Rightarrow> ipa_ipv6ct \<Rightarrow> 'w \<Rightarrow> ipa_ipv6ct \<times> 'w" where
  "ct_close_desc os st w =
     (if ct_cnt st = 0 then (st\<lparr>ct_desc := None\<rparr>, ipa_descriptor_close os (ct_desc st) w) else (st, w))"

definition ipa_ipv6ct_add_tbl ::
    "('w, ct_memory) ipa_os \<Rightarrow> uint16 \<Rightarrow> bool \<Rightarrow> ipa_ipv6ct \<Rightarrow> 'w \<Rightarrow>
     ((int \<times> uint32 option) \<times> ipa_ipv6ct \<times> 'w) option" where
  "ipa_ipv6ct_add_tbl os number_of_entries has_out st w =
     (if \<not> has_out \<or> number_of_entries = 0 then Some ((- EINVAL, None), st, w)
      else if unat (ct_cnt st) \<ge> IPA_IPV6CT_MAX_TBLS then Some ((- EINVAL, Some 0), st, w)
      else
        let (st, w) = (case ct_desc st of
              None \<Rightarrow> (let (d, w) = ipa_descriptor_open os w in (st\<lparr>ct_desc := d\<rparr>, w))
            | Some _ \<Rightarrow> (st, w))
        in case ct_desc st of None \<Rightarrow> Some ((- EIO, Some 0), st, w)
           | Some desc \<Rightarrow>
             if desc_ver desc < IPA_HW_v4_0 then
               (let (st, w) = ct_close_desc os st w in Some ((- EPERM, Some 0), st, w))
             else do {
               tbl \<leftarrow> arr_get (ct_tables st) (unat (ct_cnt st));
               let ((ret, tbl), w) =
                 ipa_ipv6ct_create_table os (desc_fd desc) tbl number_of_entries (ct_cnt st) w;
               tbls \<leftarrow> arr_put (ct_tables st) (unat (ct_cnt st)) tbl;
               let st = st\<lparr>ct_tables := tbls\<rparr>;
               if ret \<noteq> 0 then (let (st, w) = ct_close_desc os st w in Some ((ret, Some 0), st, w))
               else (let (ret, w) = ipa_ipv6ct_post_init_cmd os (desc_fd desc) tbl (ct_cnt st) w in
                 if ret \<noteq> 0 then
                   (let ((_, tbl), w) = ipa_ipv6ct_destroy_table os (desc_fd desc) tbl w;
                        st = st\<lparr>ct_tables := (ct_tables st)[unat (ct_cnt st) := tbl]\<rparr>;
                        (st, w) = ct_close_desc os st w
                    in Some ((ret, Some 0), st, w))
                 else Some ((0, Some (ucast (ct_cnt st + 1))), st\<lparr>ct_cnt := ct_cnt st + 1\<rparr>, w))
             })"

text \<open>
  The end of an operation, which keeps an earlier error when the unlock fails, and the check of a
  table handle.
\<close>

definition ct_unlock ::
    "('w, 'm) ipa_os \<Rightarrow> int \<times> 'r \<Rightarrow> 'w \<Rightarrow> (int \<times> 'r) \<times> 'w" where
  "ct_unlock os res w =
     (let (u, w) = os_unlock os w; (ret, r) = res in
      if u \<noteq> 0 then ((if ret \<noteq> 0 then ret else - EPERM, r), w) else ((ret, r), w))"

definition ct_bad_handle :: "uint32 \<Rightarrow> bool" where
  "ct_bad_handle table_handle \<longleftrightarrow>
     table_handle = IPA_TABLE_INVALID_ENTRY \<or> unat table_handle > IPA_IPV6CT_MAX_TBLS"

definition ipa_ipv6ct_del_tbl ::
    "('w, ct_memory) ipa_os \<Rightarrow> uint32 \<Rightarrow> ipa_ipv6ct \<Rightarrow> 'w \<Rightarrow> (int \<times> ipa_ipv6ct \<times> 'w) option" where
  "ipa_ipv6ct_del_tbl os table_handle st w =
     do {
       desc \<leftarrow> ct_desc st;
       if desc_ver desc < IPA_HW_v4_0 then Some (- EINVAL, st, w)
       else if ct_bad_handle table_handle then Some (- EINVAL, st, w)
       else do {
         let (l, w) = os_lock os w;
         if l \<noteq> 0 then Some (- EINVAL, st, w)
         else do {
           let i = unat (table_handle - 1);
           tbl \<leftarrow> arr_get (ct_tables st) i;
           let (ret, st, w) =
             (if \<not> md_valid (ct_mem tbl) then (- EINVAL, st, w)
              else
                let ((ret, tbl), w) = ipa_ipv6ct_destroy_table os (desc_fd desc) tbl w;
                    st = st\<lparr>ct_tables := (ct_tables st)[i := tbl]\<rparr>
                in if ret \<noteq> 0 then (ret, st, w)
                else (let st = st\<lparr>ct_cnt := ct_cnt st - 1\<rparr>; (st, w) = ct_close_desc os st w in (ret, st, w)));
           let ((ret, _), w) = ct_unlock os (ret, ()) w;
           Some (ret, st, w)
         }
       }
     }"

definition ipa_ipv6ct_add_rule ::
    "('w, ct_memory) ipa_os \<Rightarrow> uint32 \<Rightarrow> ipa_ipv6ct_rule option \<Rightarrow> bool \<Rightarrow> ipa_ipv6ct \<Rightarrow> 'w \<Rightarrow>
     ((int \<times> uint32 option) \<times> ipa_ipv6ct \<times> 'w) option" where
  "ipa_ipv6ct_add_rule os table_handle user_rule has_out st w =
     do {
       desc \<leftarrow> ct_desc st;
       if desc_ver desc < IPA_HW_v4_0 then Some ((- EINVAL, None), st, w)
       else case user_rule of None \<Rightarrow> Some ((- EINVAL, None), st, w)
       | Some rule \<Rightarrow>
       if ct_bad_handle table_handle \<or> \<not> has_out then Some ((- EINVAL, None), st, w)
       else if cr_protocol rule = IPA_IPV6CT_INVALID_PROTO_FIELD_CMP then Some ((- EINVAL, None), st, w)
       else do {
         let (l, w) = os_lock os w;
         if l \<noteq> 0 then Some ((- EINVAL, None), st, w)
         else do {
           let i = unat (table_handle - 1);
           tbl \<leftarrow> arr_get (ct_tables st) i;
           if \<not> md_valid (ct_mem tbl) then Some ((- EINVAL, None), st, snd (os_unlock os w))
           else do {
             let t = ct_tab tbl;
             (ret, t, new_entry_index, new_entry_handle, cmd) \<leftarrow>
               ipa_table_add_entry ct_entry_interface t rule
                 (ipa_ipv6ct_hash rule (table_entries t - 1)) (dma_cmd_init 2);
             let put = (\<lambda>t. st\<lparr>ct_tables := (ct_tables st)[i := tbl\<lparr>ct_tab := t\<rparr>]\<rparr>);
             if ret \<noteq> 0 then Some ((ret, None), put t, snd (os_unlock os w))
             else do {
               let ((ret, t), w) = ipa_ipv6ct_post_dma_cmd os (desc_fd desc) cmd t w;
               if ret \<noteq> 0 then do {
                 t \<leftarrow> ipa_table_erase_entry ct_entry_zero t new_entry_index;
                 Some ((ret, None), put t, snd (os_unlock os w))
               }
               else do {
                 let (u, w) = os_unlock os w;
                 if u \<noteq> 0 then Some ((- EPERM, None), put t, w)
                 else Some ((0, Some new_entry_handle), put t, w)
               }
             }
           }
         }
       }
     }"

definition ipa_ipv6ct_del_rule ::
    "('w, ct_memory) ipa_os \<Rightarrow> uint32 \<Rightarrow> uint32 \<Rightarrow> ipa_ipv6ct \<Rightarrow> 'w \<Rightarrow>
     (int \<times> ipa_ipv6ct \<times> 'w) option" where
  "ipa_ipv6ct_del_rule os table_handle rule_handle st w =
     do {
       desc \<leftarrow> ct_desc st;
       if desc_ver desc < IPA_HW_v4_0 then Some (- EINVAL, st, w)
       else if ct_bad_handle table_handle \<or> rule_handle = IPA_TABLE_INVALID_ENTRY then Some (- EINVAL, st, w)
       else do {
         let (l, w) = os_lock os w;
         if l \<noteq> 0 then Some (- EINVAL, st, w)
         else do {
           let i = unat (table_handle - 1);
           tbl \<leftarrow> arr_get (ct_tables st) i;
           (ret, t, w) \<leftarrow>
             (let t = ct_tab tbl in
              if \<not> md_valid (ct_mem tbl) then Some (- EINVAL, t, w)
              else do {
                let (ret, entry, index) = ipa_table_get_entry t rule_handle;
                if ret \<noteq> 0 then Some (ret, t, w)
                else do {
                  e \<leftarrow> entry;
                  (ret, it) \<leftarrow> ipa_table_iterator_init ct_entry_interface t e index;
                  if ret \<noteq> 0 then Some (ret, t, w)
                  else do {
                    cmd \<leftarrow> ipa_table_create_delete_command ct_entry_interface t (dma_cmd_init 2) it;
                    let ((ret, t), w) = ipa_ipv6ct_post_dma_cmd os (desc_fd desc) cmd t w;
                    if ret \<noteq> 0 then Some (ret, t, w)
                    else if ipa_table_iterator_is_head_with_tail it then Some (ret, t, w)
                    else do {
                      is_prev_empty \<leftarrow> (case it_prev_entry it of None \<Rightarrow> Some False
                        | Some p \<Rightarrow> (case rec_get t p of None \<Rightarrow> None
                            | Some pe \<Rightarrow> Some (ce_protocol pe = IPA_IPV6CT_INVALID_PROTO_FIELD_CMP)));
                      t \<leftarrow> ipa_table_delete_entry ct_entry_interface ct_entry_zero t it is_prev_empty;
                      Some (ret, t, w)
                    }
                  }
                }
              });
           let ((ret, _), w) = ct_unlock os (ret, ()) w;
           Some (ret, st\<lparr>ct_tables := (ct_tables st)[i := tbl\<lparr>ct_tab := t\<rparr>]\<rparr>, w)
         }
       }
     }"

definition ipa_ipv6ct_query_timestamp ::
    "('w, ct_memory) ipa_os \<Rightarrow> uint32 \<Rightarrow> uint32 \<Rightarrow> bool \<Rightarrow> ipa_ipv6ct \<Rightarrow> 'w \<Rightarrow>
     ((int \<times> uint32 option) \<times> ipa_ipv6ct \<times> 'w) option" where
  "ipa_ipv6ct_query_timestamp os table_handle rule_handle has_out st w =
     do {
       desc \<leftarrow> ct_desc st;
       if desc_ver desc < IPA_HW_v4_0 then Some ((- EINVAL, None), st, w)
       else if ct_bad_handle table_handle \<or> rule_handle = IPA_TABLE_INVALID_ENTRY \<or> \<not> has_out
       then Some ((- EINVAL, None), st, w)
       else do {
         let (l, w) = os_lock os w;
         if l \<noteq> 0 then Some ((- EINVAL, None), st, w)
         else do {
           tbl \<leftarrow> arr_get (ct_tables st) (unat (table_handle - 1));
           res \<leftarrow>
             (if \<not> md_valid (ct_mem tbl) then Some (- EINVAL, None)
              else
                let (ret, entry, _) = ipa_table_get_entry (ct_tab tbl) rule_handle in
                if ret \<noteq> 0 then Some (ret, None)
                else do {
                  p \<leftarrow> entry;
                  e \<leftarrow> rec_get (ct_tab tbl) p;
                  Some (ret, Some (ucast (ce_time_stamp e)))
                });
           let (r, w) = ct_unlock os res w;
           Some (r, st, w)
         }
       }
     }"

end
