(* ===== verification/Ipa_Ipv6ct_Tables.thy ===== *)
theory Ipa_Ipv6ct_Tables
  imports Ipa_Table_Marked Ipa_Ipv6ct
begin

text \<open>
  The IPv6CT table keeps the contract of the generic table: the layout of its record, the
  interpretation of \<open>table_iface\<close>, and the hash that selects a base slot.
\<close>

section \<open>The layout of a record\<close>

text \<open>
  A 16-bit write at a byte of the record.  At byte 34 lie the upper 14 bits of the reserved field,
  \<open>redirect\<close> and \<open>enable\<close>; at byte 38 the upper 8 bits of the time stamp and the protocol; at byte
  40 the next index.  The library writes nowhere else.
\<close>

definition ct_fw :: "ipa_ipv6ct_hw_entry \<Rightarrow> nat \<Rightarrow> uint16 \<Rightarrow> ipa_ipv6ct_hw_entry option" where
  "ct_fw e byte d =
     (if byte = IPA_IPV6CT_RULE_FLAG_FIELD_OFFSET then Some (e\<lparr>ce_redirect := bit d 14, ce_enable := bit d 15\<rparr>)
      else if byte = IPA_IPV6CT_RULE_PROTO_FIELD_OFFSET then
        Some (e\<lparr>ce_time_stamp := (ce_time_stamp e AND 0xFFFF) OR push_bit 16 (ucast (d AND 0xFF)),
                ce_protocol := ucast (drop_bit 8 d)\<rparr>)
      else if byte = IPA_IPV6CT_RULE_NEXT_FIELD_OFFSET then Some (e\<lparr>ce_next_index := d\<rparr>)
      else None)"

fun ct_off :: "dma_help_type \<Rightarrow> nat" where
  "ct_off HELP_UPDATE_HEAD = IPA_IPV6CT_RULE_FLAG_FIELD_OFFSET"
| "ct_off HELP_UPDATE_ENTRY = IPA_IPV6CT_RULE_NEXT_FIELD_OFFSET"
| "ct_off HELP_DELETE_HEAD = IPA_IPV6CT_RULE_PROTO_FIELD_OFFSET"

text \<open>
  What a record says: all fields but its links and those the hardware maintains.  A free record
  must not carry directions, because insertion only sets those bits.
\<close>

definition ct_key :: "ipa_ipv6ct_hw_entry \<Rightarrow> ipa_ipv6ct_hw_entry" where
  "ct_key e = e\<lparr>ce_redirect := False, ce_enable := False, ce_time_stamp := 0, ce_next_index := 0,
     ce_prev_index := 0\<rparr>"

definition ct_ukey :: "ipa_ipv6ct_rule \<Rightarrow> ipa_ipv6ct_hw_entry" where
  "ct_ukey u = snd (ct_table_entry_copy_from_user ct_entry_zero u)"

definition ct_clean :: "ipa_ipv6ct_hw_entry \<Rightarrow> bool" where
  "ct_clean e \<longleftrightarrow> \<not> ce_out_allowed e \<and> \<not> ce_in_allowed e"

definition ct_good :: "ipa_ipv6ct_rule \<Rightarrow> bool" where
  "ct_good u \<longleftrightarrow> cr_direction u \<in> {IPA_IPV6CT_DIRECTION_DENY_ALL, IPA_IPV6CT_DIRECTION_ALLOW_OUT,
     IPA_IPV6CT_DIRECTION_ALLOW_IN, IPA_IPV6CT_DIRECTION_ALLOW_ALL}"

definition ct_ready :: "ipa_ipv6ct_hw_entry \<Rightarrow> uint16 \<Rightarrow> ipa_ipv6ct_rule \<Rightarrow> bool" where
  "ct_ready e d u \<longleftrightarrow> d = push_bit 15 1 \<and> ct_key e = ct_ukey u"

text \<open>The delete write on a head: its protocol becomes the invalid one.\<close>

definition ct_delk :: "ipa_ipv6ct_hw_entry \<Rightarrow> ipa_ipv6ct_hw_entry \<Rightarrow> ipa_ipv6ct_hw_entry" where
  "ct_delk k n = k\<lparr>ce_protocol := IPA_IPV6CT_INVALID_PROTO_FIELD_CMP\<rparr>"

lemmas ct_callbacks = ct_entry_interface_def ct_table_entry_is_valid_def ct_table_entry_get_next_index_def
  ct_table_entry_get_prev_index_def ct_table_entry_set_prev_index_def ct_table_entry_head_insert_def
  ct_table_entry_tail_insert_def ct_table_entry_get_delete_head_dma_command_data_def

lemma ct_iface_simps [simp]:
  "entry_is_valid ct_entry_interface e = ce_enable e"
  "entry_get_next_index ct_entry_interface e = ce_next_index e"
  "entry_get_prev_index ct_entry_interface e i m te = Some (ce_prev_index e)"
  "entry_set_prev_index ct_entry_interface e i p m te = Some (e\<lparr>ce_prev_index := p\<rparr>, m)"
  "entry_head_insert ct_entry_interface e u = ct_table_entry_head_insert e u"
  "entry_tail_insert ct_entry_interface e u = ct_table_entry_tail_insert e u"
  "entry_get_delete_head_dma_command_data ct_entry_interface c x = IPA_IPV6CT_INVALID_PROTO_FIELD_VALUE"
  "same_links ct_entry_interface e e' \<longleftrightarrow> ce_next_index e' = ce_next_index e \<and> ce_prev_index e' = ce_prev_index e"
  by (simp_all add: ct_entry_interface_def ct_table_entry_is_valid_def ct_table_entry_get_next_index_def
      ct_table_entry_get_prev_index_def ct_table_entry_set_prev_index_def
      ct_table_entry_get_delete_head_dma_command_data_def same_links_def)

lemma ct_copy_key:
  assumes "ct_clean e" "ct_good u"
  shows "\<exists>e'. ct_table_entry_copy_from_user e u = (0, e') \<and> ct_key e' = ct_ukey u \<and>
    ce_enable e' = ce_enable e \<and> ce_next_index e' = ce_next_index e \<and> ce_prev_index e' = ce_prev_index e"
  using assms
  by (auto simp: ct_good_def ct_table_entry_copy_from_user_def ct_ukey_def ct_key_def ct_clean_def ct_entry_zero_def
      intro!: ipa_ipv6ct_hw_entry.equality)

lemma ct_head_insert_good:
  assumes "ct_clean e" "ct_good u"
  shows "\<exists>e' d. ct_table_entry_head_insert e u = Some (0, e', d) \<and> ct_ready e' d u \<and>
    ce_enable e' = ce_enable e \<and> ce_next_index e' = ce_next_index e \<and> ce_prev_index e' = ce_prev_index e"
  using ct_copy_key [OF assms] by (auto simp: ct_table_entry_head_insert_def ct_ready_def)

lemma ct_key_upd [simp]:
  "ct_key (e\<lparr>ce_next_index := n\<rparr>) = ct_key e" "ct_key (e\<lparr>ce_prev_index := n\<rparr>) = ct_key e"
  "ct_key (e\<lparr>ce_redirect := r, ce_enable := v\<rparr>) = ct_key e"
  "ct_key (e\<lparr>ce_time_stamp := ts, ce_protocol := p\<rparr>) = (ct_key e)\<lparr>ce_protocol := p\<rparr>"
  by (simp_all add: ct_key_def)

lemma bit_push_15: "bit (push_bit 15 1 :: uint16) 15"
  by (simp add: bit_simps)

interpretation ctt: table_iface ct_entry_interface ct_entry_zero ct_fw 64 IPA_IPV6CT_BASE_TBL
    IPA_IPV6CT_EXPN_TBL ct_off False ct_clean ct_good ct_ready ct_key ct_ukey ct_delk
proof (unfold_locales, goal_cases)
  case (4 ht) then show ?case by (cases ht) simp_all
next
  case (10 e d u) then show ?case by (simp add: ct_fw_def ct_ready_def bit_push_15)
next
  case (13 e u) then show ?case using ct_head_insert_good by simp
qed (auto simp: ct_fw_def ct_entry_zero_def ct_delk_def ct_ready_def)

section \<open>The hash\<close>

lemma xor_segments_loop_eq:
  "xor_segments_loop num ret = ret XOR ucast num XOR ucast (drop_bit 16 num) XOR ucast (drop_bit 32 num) XOR
     ucast (drop_bit 48 num)"
proof -
  have m: "(ucast (n AND 0xffff) :: uint16) = ucast n" for n :: uint64
  proof -
    have E: "(0xffff :: uint64) = mask 16" by (simp add: mask_eq_exp_minus_1)
    show ?thesis unfolding E by (rule bit_word_eqI) (auto simp: bit_simps)
  qed
  have step: "xor_segments_loop n r = xor_segments_loop (drop_bit 16 n) (r XOR ucast n)" for n r
    by (subst xor_segments_loop.simps) (simp add: m xor_segments_loop.simps [of 0])
  have z: "drop_bit 64 n = 0" for n :: uint64
    by (rule bit_word_eqI) (auto simp: bit_simps dest: bit_imp_le_length)
  show ?thesis
    unfolding step [of num] step [of "drop_bit 16 num"] step [of "drop_bit 16 (drop_bit 16 num)"]
      step [of "drop_bit 16 (drop_bit 16 (drop_bit 16 num))"]
    by (simp add: drop_bit_drop_bit z xor_segments_loop.simps [of 0] xor.assoc)
qed

lemma xor_segments_eq:
  "ipa_ipv6ct_xor_segments num = ucast num XOR ucast (drop_bit 16 num) XOR ucast (drop_bit 32 num) XOR
     ucast (drop_bit 48 num)"
  by (simp add: ipa_ipv6ct_xor_segments_def xor_segments_loop_eq)

lemma ct_hash_range:
  assumes "sz \<noteq> 0"
  shows "0 < unat (ipa_ipv6ct_hash rule sz) \<and> unat (ipa_ipv6ct_hash rule sz) \<le> unat sz"
  using assms unat_and_le2 [of _ sz] by (auto simp: ipa_ipv6ct_hash_def Let_def unat_gt_0)

text \<open>The rule a record carries, as far as the hash is concerned.\<close>

definition ct_rule_of :: "ipa_ipv6ct_hw_entry \<Rightarrow> ipa_ipv6ct_rule" where
  "ct_rule_of e = \<lparr>cr_src_lsb = ce_src_lsb e, cr_src_msb = ce_src_msb e, cr_dest_lsb = ce_dest_lsb e,
     cr_dest_msb = ce_dest_msb e, cr_direction = 0, cr_ucp = ce_ucp e, cr_s = ce_s e,
     cr_uc_activation_index = 0, cr_src_port = ce_src_port e, cr_dest_port = ce_dest_port e,
     cr_protocol = ce_protocol e\<rparr>"

lemma ct_hash_ukey: "ipa_ipv6ct_hash (ct_rule_of (ct_ukey u)) sz = ipa_ipv6ct_hash u sz"
  by (simp add: ipa_ipv6ct_hash_def ct_rule_of_def ct_ukey_def ct_table_entry_copy_from_user_def Let_def)

lemma ct_ukey_protocol: "ce_protocol (ct_ukey u) = cr_protocol u"
  by (simp add: ct_ukey_def ct_table_entry_copy_from_user_def Let_def)

lemma ct_key_facts: "ct_rule_of (ct_key e) = ct_rule_of e" "ce_protocol (ct_key e) = ce_protocol e"
  by (simp_all add: ct_rule_of_def ct_key_def)

section \<open>The table\<close>

abbreviation "ct_linv \<equiv> tbl_inv ct_entry_interface 64 IPA_IPV6CT_BASE_TBL IPA_IPV6CT_EXPN_TBL ct_off False"

abbreviation "ct_hw \<equiv> hw_writes ct_fw IPA_IPV6CT_BASE_TBL IPA_IPV6CT_EXPN_TBL"

text \<open>
  Every list starts at the hash of its rules; only a head with a tail may carry the invalid
  protocol of a functionally deleted rule.
\<close>

definition ct_chain_ok :: "ipa_ipv6ct_hw_entry ipa_table \<Rightarrow> (uint16 \<Rightarrow> uint16 list) \<Rightarrow> bool" where
  "ct_chain_ok t B \<longleftrightarrow> (\<forall>h. \<forall>x \<in> set (B h).
     let k = ct_key (recs t ! unat x) in
     if ce_protocol k = IPA_IPV6CT_INVALID_PROTO_FIELD_CMP then x = h \<and> B h \<noteq> [h]
     else ipa_ipv6ct_hash (ct_rule_of k) (table_entries t - 1) = h)"

definition ct_tab_inv :: "ipa_ipv6ct_hw_entry ipa_table \<Rightarrow> (uint16 \<Rightarrow> uint16 list) \<Rightarrow> bool" where
  "ct_tab_inv t B \<longleftrightarrow> ct_linv t B \<and> ct_chain_ok t B \<and>
     (\<forall>x. unat x < tab_sz t \<longrightarrow> \<not> tv ct_entry_interface t x \<longrightarrow> ct_clean (recs t ! unat x))"

text \<open>The rules a table holds, by slot.\<close>

definition ct_rules :: "ipa_ipv6ct_hw_entry ipa_table \<Rightarrow> uint16 \<Rightarrow> ipa_ipv6ct_hw_entry option" where
  "ct_rules t x =
     (if unat x < tab_sz t \<and> ce_enable (recs t ! unat x) \<and>
         ce_protocol (recs t ! unat x) \<noteq> IPA_IPV6CT_INVALID_PROTO_FIELD_CMP
      then Some (ct_key (recs t ! unat x)) else None)"

lemma ct_rules_alt:
  "ct_rules t x = (if unat x < tab_sz t \<and> tv ct_entry_interface t x \<and>
     ce_protocol (ct_key (recs t ! unat x)) \<noteq> IPA_IPV6CT_INVALID_PROTO_FIELD_CMP
   then Some (ct_key (recs t ! unat x)) else None)"
  by (simp add: ct_rules_def tv_def ct_key_facts)

text \<open>The module's table as a table of marked records: a rule lives in the list of its hash.\<close>

definition ct_dead :: "ipa_ipv6ct_hw_entry \<Rightarrow> bool" where
  "ct_dead k \<longleftrightarrow> ce_protocol k = IPA_IPV6CT_INVALID_PROTO_FIELD_CMP"

definition ct_home :: "uint16 \<Rightarrow> ipa_ipv6ct_hw_entry \<Rightarrow> uint16 \<Rightarrow> bool" where
  "ct_home te k h \<longleftrightarrow> ipa_ipv6ct_hash (ct_rule_of k) (te - 1) = h"

interpretation ctm: marked_table ct_entry_interface ct_entry_zero ct_fw 64 IPA_IPV6CT_BASE_TBL
    IPA_IPV6CT_EXPN_TBL ct_off False ct_clean ct_good ct_ready ct_key ct_ukey ct_delk ct_dead ct_home
  by unfold_locales (simp_all add: ct_clean_def ct_entry_zero_def ct_dead_def ct_delk_def)

lemma ct_marked:
  "tbl_rules ct_entry_interface ct_key ct_dead = ct_rules"
  "tbl_homes ct_key ct_dead ct_home = ct_chain_ok"
  by (simp_all add: fun_eq_iff tbl_rules_def ct_rules_alt ct_dead_def tbl_homes_def ct_chain_ok_def ct_home_def
      Let_def cong: if_cong)

lemma ct_tab_inv_marked:
  "(ct_linv t B \<and> ct_chain_ok t B \<and> (\<forall>x. unat x < tab_sz t \<longrightarrow> \<not> tv ct_entry_interface t x \<longrightarrow>
     ct_clean (recs t ! unat x))) = ct_tab_inv t B"
  by (simp add: ct_tab_inv_def)

lemmas ct_tv_iff = ctm.tv_iff
lemmas ct_rules_step = ctm.rules_step [unfolded ct_marked]
lemmas ct_chain_ok_sub = ctm.homes_sub [unfolded ct_marked, unfolded ct_dead_def]
lemmas ct_add_generic = ctm.add_step [unfolded ct_marked ct_tab_inv_marked]
lemmas ct_remove_head = ctm.remove_head [unfolded ct_marked ct_tab_inv_marked]
lemmas ct_remove_plain = ctm.remove_plain [unfolded ct_marked ct_tab_inv_marked]

end
