(* ===== verification/Ipa_Ipv6ct_Api.thy ===== *)
theory Ipa_Ipv6ct_Api
  imports Ipa_Ipv6ct_Tables
begin

text \<open>
  The API of the IPv6CT module as a map from slots to rules: what adding and deleting a rule does to
  it, for every system whose DMA request behaves as documented, error paths included.
\<close>

section \<open>The hardware and the module state\<close>

text \<open>
  The documented behaviour of the request \<open>IPA_IOC_TABLE_DMA_CMD\<close>: when it succeeds the writes of
  the command have been done, when it fails none has.
\<close>

definition ct_dma_spec :: "('w, ct_memory) ipa_os \<Rightarrow> bool" where
  "ct_dma_spec os \<longleftrightarrow> (\<forall>fd cmd te rs w r m w'. os_dma os fd cmd (te, rs) w = ((r, m), w') \<longrightarrow>
     (r \<noteq> 0 \<longrightarrow> snd m = rs) \<and>
     (r = 0 \<longrightarrow> (\<forall>t t'. table_entries t = te \<and> recs t = rs \<and> entry_size t = 64 \<and>
        ct_hw (dma_posted cmd) t = Some t' \<longrightarrow> snd m = recs t')))"

text \<open>The module with its one table in use.\<close>

definition ct_table_of :: "ipa_ipv6ct \<Rightarrow> ipa_ipv6ct_hw_entry ipa_table" where
  "ct_table_of st = ct_tab (ct_tables st ! 0)"

definition ct_inv :: "ipa_ipv6ct \<Rightarrow> bool" where
  "ct_inv st \<longleftrightarrow> (\<exists>desc. ct_desc st = Some desc \<and> desc_ver desc \<ge> IPA_HW_v4_0) \<and>
     length (ct_tables st) = 1 \<and> ct_cnt st = 1 \<and> md_valid (ct_mem (ct_tables st ! 0)) \<and>
     (\<exists>B. ct_tab_inv (ct_table_of st) B)"

text \<open>The rules it holds, by slot, and the handle of a slot.\<close>

definition ct_rules_of :: "ipa_ipv6ct \<Rightarrow> uint16 \<Rightarrow> ipa_ipv6ct_hw_entry option" where
  "ct_rules_of st = ct_rules (ct_table_of st)"

definition ct_handle :: "ipa_ipv6ct \<Rightarrow> uint16 \<Rightarrow> uint32" where
  "ct_handle st s = ucast (MakeEntryHdl (ct_table_of st) s)"

definition ct_slot :: "ipa_ipv6ct \<Rightarrow> uint32 \<Rightarrow> uint16" where
  "ct_slot st hdl = snd (snd (BREAK_RULE_HDL (ct_table_of st) hdl))"

lemma ct_post:
  assumes "ct_dma_spec os" "entry_size t = 64" "ipa_ipv6ct_post_dma_cmd os fd cmd t w = ((r, t'), w')"
  shows "r = 0 \<Longrightarrow> ct_hw (dma_posted cmd) t = Some t2 \<Longrightarrow> t' = t2" "r \<noteq> 0 \<Longrightarrow> t' = t \<and> r = - EIO"
proof -
  obtain q m v where d: "os_dma os fd (cmd\<lparr>dma_mem_type := IPA_NAT_MEM_IN_DDR\<rparr>) (table_entries t, recs t) w = ((q, m), v)"
    by (metis surj_pair)
  have p: "dma_posted (cmd\<lparr>dma_mem_type := IPA_NAT_MEM_IN_DDR\<rparr>) = dma_posted cmd" by (simp add: dma_posted_def)
  have e: "t' = t\<lparr>recs := snd m\<rparr>" "r = (if q = 0 then 0 else - EIO)"
    using assms(3) d by (auto simp: ipa_ipv6ct_post_dma_cmd_def Let_def split: if_splits)
  have sp: "(q \<noteq> 0 \<longrightarrow> snd m = recs t) \<and>
     (q = 0 \<longrightarrow> (\<forall>s s'. table_entries s = table_entries t \<and> recs s = recs t \<and> entry_size s = 64 \<and>
        ct_hw (dma_posted cmd) s = Some s' \<longrightarrow> snd m = recs s'))"
    using assms(1) d unfolding ct_dma_spec_def by (metis p)
  { assume "r = 0" and h: "ct_hw (dma_posted cmd) t = Some t2"
    then have "q = 0" using e(2) by (auto split: if_splits)
    then have "snd m = recs t2" using sp h assms(2) by blast
    then show "t' = t2" using e(1) hw_writes_recs [OF h] by simp }
  { assume "r \<noteq> 0"
    then show "t' = t \<and> r = - EIO" using e sp by (auto split: if_splits) }
qed

section \<open>Adding a rule\<close>

lemma ct_te_pos:
  assumes "ct_tab_inv t B"
  shows "0 < unat (ipa_ipv6ct_hash u (table_entries t - 1))"
    "unat (ipa_ipv6ct_hash u (table_entries t - 1)) < unat (table_entries t)"
proof -
  have te: "2 \<le> unat (table_entries t)"
    using assms tbl_wfD(5) [OF ctt.invD(1)] by (auto simp: ct_tab_inv_def)
  then have m: "unat (table_entries t - 1) = unat (table_entries t) - 1" by (intro unat_pred16) simp
  have "table_entries t - 1 \<noteq> 0"
  proof
    assume "table_entries t - 1 = 0"
    then have "unat (table_entries t - 1) = 0" by simp
    with m te show False by simp
  qed
  from ct_hash_range [OF this, of u] m te
  show "0 < unat (ipa_ipv6ct_hash u (table_entries t - 1))"
    "unat (ipa_ipv6ct_hash u (table_entries t - 1)) < unat (table_entries t)" by linarith+
qed

text \<open>The table operation and the posted command together.\<close>

lemma ct_add_step:
  assumes I: "ct_tab_inv t B" and u: "ct_good u" "cr_protocol u \<noteq> IPA_IPV6CT_INVALID_PROTO_FIELD_CMP"
    and room: "B (ipa_ipv6ct_hash u (table_entries t - 1)) = [] \<or> free_slot ct_entry_interface t \<noteq> None"
  shows "\<exists>t1 s cmd1 t2 t3 B'. ipa_table_add_entry ct_entry_interface t u
      (ipa_ipv6ct_hash u (table_entries t - 1)) (dma_cmd_init 2) = Some (0, t1, s, ucast (MakeEntryHdl t s), cmd1) \<and>
    same_shape t t1 \<and> s \<noteq> 0 \<and> ct_rules t s = None \<and>
    ct_hw (dma_posted cmd1) t1 = Some t2 \<and> same_shape t t2 \<and> ct_tab_inv t2 B' \<and>
    ct_rules t2 = (ct_rules t)(s \<mapsto> ct_ukey u) \<and>
    ipa_table_erase_entry ct_entry_zero t1 s = Some t3 \<and> same_shape t t3 \<and> ct_tab_inv t3 B \<and> ct_rules t3 = ct_rules t"
proof -
  have r: "dma_room (dma_cmd_init 2) (Suc (Suc 0))" "dma_posted (dma_cmd_init 2) = []"
    using dma_cmd_init [of 2] by (auto simp: eval_nat_numeral)
  have K: "\<not> ct_dead (ct_ukey u)" "ct_home (table_entries t) (ct_ukey u) (ipa_ipv6ct_hash u (table_entries t - 1))"
    using u(2) by (simp_all add: ct_dead_def ct_home_def ct_hash_ukey ct_ukey_protocol)
  obtain t1 s cmd1 t3 ws where A: "ipa_table_add_entry ct_entry_interface t u
        (ipa_ipv6ct_hash u (table_entries t - 1)) (dma_cmd_init 2) = Some (0, t1, s, ucast (MakeEntryHdl t s), cmd1)"
      "same_shape t t1" "s \<noteq> 0" "ct_rules t s = None" "ipa_table_erase_entry ct_entry_zero t1 s = Some t3"
      "ct_tab_inv t3 B" "same_shape t t3" "ct_rules t3 = ct_rules t" "dma_posted cmd1 = ws"
      and G: "\<forall>g K. ctt.safe_upd g u K \<longrightarrow> \<not> ct_dead K \<longrightarrow> ct_home (table_entries t) K (ipa_ipv6ct_hash u (table_entries t - 1)) \<longrightarrow>
        (\<exists>t2. ct_hw ws (t1\<lparr>recs := (recs t1)[unat s := g (recs t1 ! unat s)]\<rparr>) = Some t2 \<and>
          ct_tab_inv t2 (B(ipa_ipv6ct_hash u (table_entries t - 1) := B (ipa_ipv6ct_hash u (table_entries t - 1)) @ [s])) \<and>
          same_shape t t2 \<and> ct_rules t2 = (ct_rules t)(s \<mapsto> K))"
    using ct_add_generic [OF I u(1) ct_te_pos(1,2) [OF I, of u] room r(1)] unfolding r(2) append_Nil by blast
  have id: "t1\<lparr>recs := (recs t1)[unat s := recs t1 ! unat s]\<rparr> = t1" by simp
  show ?thesis using A G [rule_format, OF ctt.safe_upd_id K, unfolded id] by blast
qed

lemma ct_add_full:
  assumes I: "ct_tab_inv t B"
    and "\<not> (B (ipa_ipv6ct_hash u (table_entries t - 1)) = [] \<or> free_slot ct_entry_interface t \<noteq> None)"
  shows "ipa_table_add_entry ct_entry_interface t u (ipa_ipv6ct_hash u (table_entries t - 1)) (dma_cmd_init 2) =
    Some (- 1, t, ipa_ipv6ct_hash u (table_entries t - 1), 0, dma_cmd_init 2)"
  using assms ctt.add_full [of t B "ipa_ipv6ct_hash u (table_entries t - 1)"] by (simp add: ct_tab_inv_def)

text \<open>The call on a module in use, once its arguments are accepted.\<close>

lemma ct_invE:
  assumes "ct_inv st"
  obtains desc tbl B where "ct_desc st = Some desc" "\<not> desc_ver desc < IPA_HW_v4_0" "ct_tables st = [tbl]"
    "ct_cnt st = 1" "md_valid (ct_mem tbl)" "ct_tab_inv (ct_tab tbl) B" "ct_table_of st = ct_tab tbl"
  using assms by (cases "ct_tables st") (auto simp: ct_inv_def ct_table_of_def)

lemma ct_inv_upd:
  assumes "ct_inv st" "ct_tables st = [tbl]" "ct_tab_inv t B"
  shows "ct_inv (st\<lparr>ct_tables := (ct_tables st)[0 := tbl\<lparr>ct_tab := t\<rparr>]\<rparr>)"
    "ct_table_of (st\<lparr>ct_tables := (ct_tables st)[0 := tbl\<lparr>ct_tab := t\<rparr>]\<rparr>) = t"
  using assms by (auto simp: ct_inv_def ct_table_of_def)

definition add_outcome ::
    "('w, ct_memory) ipa_os \<Rightarrow> ipa_ipv6ct \<Rightarrow> ipa_ipv6ct_rule \<Rightarrow> (int \<times> uint32 option) \<Rightarrow> ipa_ipv6ct \<Rightarrow> bool" where
  "add_outcome os st u res st' \<longleftrightarrow>
     (\<exists>s. s \<noteq> 0 \<and> ct_rules_of st s = None \<and> ct_rules_of st' = (ct_rules_of st)(s \<mapsto> ct_ukey u) \<and>
        res \<in> {(0, Some (ct_handle st s)), (- EPERM, None)}) \<or>
     (ct_rules_of st' = ct_rules_of st \<and> res \<in> {(- EIO, None), (- 1, None), (- EINVAL, None)})"

lemma ct_add_rule:
  assumes I: "ct_inv st" and spec: "ct_dma_spec os" and u: "ct_good u" "cr_protocol u \<noteq> IPA_IPV6CT_INVALID_PROTO_FIELD_CMP"
  shows "\<exists>res st' w'. ipa_ipv6ct_add_rule os 1 (Some u) True st w = Some (res, st', w') \<and>
    ct_inv st' \<and> add_outcome os st u res st' \<and> same_shape (ct_table_of st) (ct_table_of st')"
proof -
  obtain desc tbl B where S: "ct_desc st = Some desc" "\<not> desc_ver desc < IPA_HW_v4_0" "ct_tables st = [tbl]"
      "ct_cnt st = 1" "md_valid (ct_mem tbl)" "ct_tab_inv (ct_tab tbl) B" "ct_table_of st = ct_tab tbl"
    using ct_invE [OF I] .
  define t where "t = ct_tab tbl"
  have L: "ct_linv t B" using S(6) by (simp add: ct_tab_inv_def t_def)
  obtain l w1 where l: "os_lock os w = (l, w1)" by fastforce
  have bh: "\<not> ct_bad_handle 1" by (simp add: ct_bad_handle_def)
  note U = ct_inv_upd [OF I S(3)]
  have R: "ct_rules_of st = ct_rules t" by (simp add: ct_rules_of_def S(7) t_def)
  show ?thesis
  proof (cases "l = 0")
    case False
    then show ?thesis
      using S(1,2) bh l u(2) I by (simp add: ipa_ipv6ct_add_rule_def add_outcome_def same_shape_refl)
  next
    case True
    show ?thesis
    proof (cases "B (ipa_ipv6ct_hash u (table_entries t - 1)) = [] \<or> free_slot ct_entry_interface t \<noteq> None")
      case False
      note full = ct_add_full [OF S(6) False [unfolded t_def]]
      show ?thesis
        using S(1,2,3,5) bh l True u(2) full U [OF S(6)] R
        by (auto simp: ipa_ipv6ct_add_rule_def arr_simps add_outcome_def ct_rules_of_def t_def same_shape_refl S(7))
    next
      case room: True
      obtain t1 s cmd1 t2 t3 B' where A: "ipa_table_add_entry ct_entry_interface t u
            (ipa_ipv6ct_hash u (table_entries t - 1)) (dma_cmd_init 2) = Some (0, t1, s, ucast (MakeEntryHdl t s), cmd1)"
          "same_shape t t1" "s \<noteq> 0" "ct_rules t s = None" "ct_hw (dma_posted cmd1) t1 = Some t2" "same_shape t t2"
          "ct_tab_inv t2 B'" "ct_rules t2 = (ct_rules t)(s \<mapsto> ct_ukey u)"
          "ipa_table_erase_entry ct_entry_zero t1 s = Some t3" "same_shape t t3" "ct_tab_inv t3 B" "ct_rules t3 = ct_rules t"
        using ct_add_step [OF S(6) u room [unfolded t_def], folded t_def] by blast
      have e1: "entry_size t1 = 64" using tbl_wfD(2) [OF ctt.invD(1) [OF L]] same_shapeD(2) [OF A(2)] by simp
      obtain r tp w2 where p: "ipa_ipv6ct_post_dma_cmd os (desc_fd desc) cmd1 t1 w1 = ((r, tp), w2)" by (metis surj_pair)
      note P = ct_post [OF spec e1 p]
      show ?thesis
      proof (cases "r = 0")
        case True
        then have tp: "tp = t2" using P(1) A(5) by blast
        obtain v w3 where v: "os_unlock os w2 = (v, w3)" by fastforce
        have "ipa_ipv6ct_add_rule os 1 (Some u) True st w =
            Some (if v \<noteq> 0 then (- EPERM, None) else (0, Some (ct_handle st s)),
              st\<lparr>ct_tables := (ct_tables st)[0 := tbl\<lparr>ct_tab := t2\<rparr>]\<rparr>, w3)"
          using S(1,2,3,5) bh l \<open>l = 0\<close> u(2) A(1) p v \<open>r = 0\<close>
          by (simp add: ipa_ipv6ct_add_rule_def arr_simps t_def tp ct_handle_def S(7))
        then show ?thesis
          using U [OF A(7)] A(3,4,6,8) R by (auto simp: add_outcome_def ct_rules_of_def S(7) t_def)
      next
        case False
        then have tp: "tp = t1" "r = - EIO" using P(2) by auto
        have "ipa_ipv6ct_add_rule os 1 (Some u) True st w =
            Some ((- EIO, None), st\<lparr>ct_tables := (ct_tables st)[0 := tbl\<lparr>ct_tab := t3\<rparr>]\<rparr>, snd (os_unlock os w2))"
          using S(1,2,3,5) bh l \<open>l = 0\<close> u(2) A(1,9) p False
          by (simp add: ipa_ipv6ct_add_rule_def arr_simps t_def tp)
        then show ?thesis
          using U [OF A(11)] A(10,12) R by (auto simp: add_outcome_def ct_rules_of_def S(7) t_def)
      qed
    qed
  qed
qed


text \<open>When the system answers, the rule is added exactly if a slot is free for it.\<close>

definition ct_reliable :: "('w, ct_memory) ipa_os \<Rightarrow> bool" where
  "ct_reliable os \<longleftrightarrow> (\<forall>w. fst (os_lock os w) = 0 \<and> fst (os_unlock os w) = 0) \<and>
     (\<forall>fd cmd m w. fst (fst (os_dma os fd cmd m w)) = 0)"

definition ct_has_room :: "ipa_ipv6ct \<Rightarrow> ipa_ipv6ct_rule \<Rightarrow> bool" where
  "ct_has_room st u \<longleftrightarrow> (let t = ct_table_of st in
     \<not> tv ct_entry_interface t (ipa_ipv6ct_hash u (table_entries t - 1)) \<or> free_slot ct_entry_interface t \<noteq> None)"

lemma ct_post_reliable:
  "ct_reliable os \<Longrightarrow> \<exists>t' w'. ipa_ipv6ct_post_dma_cmd os fd cmd t w = ((0, t'), w')"
proof -
  assume r: "ct_reliable os"
  obtain q m v where d: "os_dma os fd (cmd\<lparr>dma_mem_type := IPA_NAT_MEM_IN_DDR\<rparr>) (table_entries t, recs t) w = ((q, m), v)"
    by (metis surj_pair)
  then have "q = 0" using r unfolding ct_reliable_def by (metis fst_conv)
  with d show ?thesis by (simp add: ipa_ipv6ct_post_dma_cmd_def)
qed

lemma ct_add_rule_reliable:
  assumes I: "ct_inv st" and spec: "ct_dma_spec os" "ct_reliable os"
    and u: "ct_good u" "cr_protocol u \<noteq> IPA_IPV6CT_INVALID_PROTO_FIELD_CMP"
  shows "\<exists>hdl st' w'. ipa_ipv6ct_add_rule os 1 (Some u) True st w = Some ((if ct_has_room st u then 0 else - 1, hdl), st', w') \<and>
    (ct_has_room st u \<longrightarrow> hdl \<noteq> None) \<and> (\<not> ct_has_room st u \<longrightarrow> st' = st)"
proof -
  obtain desc tbl B where S: "ct_desc st = Some desc" "\<not> desc_ver desc < IPA_HW_v4_0" "ct_tables st = [tbl]"
      "ct_cnt st = 1" "md_valid (ct_mem tbl)" "ct_tab_inv (ct_tab tbl) B" "ct_table_of st = ct_tab tbl"
    using ct_invE [OF I] .
  define t where "t = ct_tab tbl"
  have L: "ct_linv t B" using S(6) by (simp add: ct_tab_inv_def t_def)
  define h where "h = ipa_ipv6ct_hash u (table_entries t - 1)"
  have bh: "\<not> ct_bad_handle 1" by (simp add: ct_bad_handle_def)
  obtain w1 where l: "os_lock os w = (0, w1)" using spec(2) by (metis ct_reliable_def fst_conv surj_pair)
  have hv: "tv ct_entry_interface t h \<longleftrightarrow> B h \<noteq> []"
    using chains_base [OF ctt.invD(2) [OF L]] ct_te_pos [OF S(6)] tbl_wfD(6) [OF ctt.invD(1) [OF L]]
    by (simp add: h_def t_def)
  have room: "ct_has_room st u \<longleftrightarrow> B h = [] \<or> free_slot ct_entry_interface t \<noteq> None"
    using hv by (auto simp: ct_has_room_def S(7) Let_def h_def t_def)
  show ?thesis
  proof (cases "ct_has_room st u")
    case False
    have "\<not> (B (ipa_ipv6ct_hash u (table_entries t - 1)) = [] \<or> free_slot ct_entry_interface t \<noteq> None)"
      using False room by (simp add: h_def)
    note full = ct_add_full [OF S(6) this [unfolded t_def]]
    have "(ct_tables st)[0 := tbl\<lparr>ct_tab := ct_tab tbl\<rparr>] = ct_tables st" using S(3) by simp
    then have "st\<lparr>ct_tables := (ct_tables st)[0 := tbl\<lparr>ct_tab := ct_tab tbl\<rparr>]\<rparr> = st" by simp
    then show ?thesis
      using S(1,2,3,5) bh l u(2) full False by (simp add: ipa_ipv6ct_add_rule_def arr_simps)
  next
    case True
    then have r: "B (ipa_ipv6ct_hash u (table_entries t - 1)) = [] \<or> free_slot ct_entry_interface t \<noteq> None"
      using room by (simp add: h_def)
    obtain t1 s cmd1 t2 t3 B' where A: "ipa_table_add_entry ct_entry_interface t u
            (ipa_ipv6ct_hash u (table_entries t - 1)) (dma_cmd_init 2) = Some (0, t1, s, ucast (MakeEntryHdl t s), cmd1)"
          "same_shape t t1" "s \<noteq> 0" "ct_rules t s = None" "ct_hw (dma_posted cmd1) t1 = Some t2" "same_shape t t2"
          "ct_tab_inv t2 B'" "ct_rules t2 = (ct_rules t)(s \<mapsto> ct_ukey u)"
          "ipa_table_erase_entry ct_entry_zero t1 s = Some t3" "same_shape t t3" "ct_tab_inv t3 B" "ct_rules t3 = ct_rules t"
        using ct_add_step [OF S(6) u r [unfolded t_def], folded t_def] by blast
    obtain tp w2 where p: "ipa_ipv6ct_post_dma_cmd os (desc_fd desc) cmd1 t1 w1 = ((0, tp), w2)"
      using ct_post_reliable [OF spec(2)] by blast
    obtain w3 where v: "os_unlock os w2 = (0, w3)" using spec(2) by (metis ct_reliable_def fst_conv surj_pair)
    show ?thesis
      using S(1,2,3,5) bh l u(2) A(1) p v True
      by (simp add: ipa_ipv6ct_add_rule_def arr_simps t_def)
  qed
qed

section \<open>Deleting a rule\<close>

lemma ct_get_entry:
  assumes "ct_linv t B"
  shows "ipa_table_get_entry t hdl = (let s = snd (snd (BREAK_RULE_HDL t hdl)) in
    if unat s < tab_sz t then (0, Some s, s) else (- EINVAL, None, 0))"
  using tbl_wfD(9) [OF ctt.invD(1) [OF assms]]
  by (auto simp: ipa_table_get_entry_def Let_def word_le_nat_alt split: prod.splits)

lemma ct_remove:
  assumes I: "ct_tab_inv t B" and v: "tv ct_entry_interface t x" "unat x < tab_sz t"
  shows "\<exists>it cmd th t' B'. ipa_table_iterator_init ct_entry_interface t x x = Some (0, it) \<and>
    ipa_table_create_delete_command ct_entry_interface t (dma_cmd_init 2) it = Some cmd \<and>
    ct_hw (dma_posted cmd) t = Some th \<and> same_shape t th \<and>
    (if ipa_table_iterator_is_head_with_tail it then t' = th
     else \<exists>pe. (case it_prev_entry it of None \<Rightarrow> Some False
            | Some p \<Rightarrow> (case rec_get th p of None \<Rightarrow> None
                | Some e \<Rightarrow> Some (ce_protocol e = IPA_IPV6CT_INVALID_PROTO_FIELD_CMP))) = Some pe \<and>
          ipa_table_delete_entry ct_entry_interface ct_entry_zero th it pe = Some t') \<and>
    ct_tab_inv t' B' \<and> same_shape t t' \<and> ct_rules t' = (ct_rules t)(x := None)"
proof -
  have L: "ct_linv t B" using I by (simp add: ct_tab_inv_def)
  obtain h where h: "x \<in> set (B h)" using ct_tv_iff [OF L v(2)] v(1) by blast
  then obtain ys zs where B: "B h = ys @ x # zs" by (meson split_list)
  have r: "dma_room (dma_cmd_init 2) (Suc 0)" "dma_posted (dma_cmd_init 2) = []"
    using dma_cmd_init [of 2] dma_room_mono by (auto simp: eval_nat_numeral)
  note it = ctt.iterator_init_ok [OF L B] and cmd = ctt.create_delete_command_ok [OF L B r(1)]
  have posted: "dma_posted (dma_push (dma_cmd_init 2) (ctt.del_write t ys x zs)) = [ctt.del_write t ys x zs]"
    using dma_push(1) [OF r(1)] r(2) by simp
  note hwt = ctm.head_with_tail_iff [OF L B]
  show ?thesis
  proof (cases "ys = [] \<and> zs \<noteq> []")
    case True
    then obtain z zt where Bh: "B h = h # z # zt" "zs = z # zt" "x = h" "ys = []"
      using B ctt.list_facts(6) [OF L B] by (cases zs) auto
    obtain t' where "ct_hw [ctt.del_write t [] h (z # zt)] t = Some t'" "ct_tab_inv t' B" "same_shape t t'"
        "ct_rules t' = (ct_rules t)(h := None)"
      using ct_remove_head [OF I Bh(1)] by (auto simp: ct_dead_def ct_delk_def)
    then show ?thesis
      using it cmd posted hwt True Bh
      by (intro exI [of _ "iter_at ys x zs"] exI [of _ "dma_push (dma_cmd_init 2) (ctt.del_write t ys x zs)"]
          exI [of _ t'] exI [of _ t'] exI [of _ B]) (simp del: fun_upd_apply)
  next
    case False
    then have "ys \<noteq> [] \<or> zs = []" by blast
    from ct_remove_plain [OF I B this] obtain th t' B' where R:
      "ct_hw [ctt.del_write t ys x zs] t = Some th" "same_shape t th"
      "ipa_table_delete_entry ct_entry_interface ct_entry_zero th (iter_at ys x zs)
        (ys \<noteq> [] \<and> ct_dead (ct_key (recs th ! unat (last ys)))) = Some t'"
      "ct_tab_inv t' B'" "same_shape t t'" "ct_rules t' = (ct_rules t)(x := None)" by blast
    have "rec_get th (last ys) = Some (recs th ! unat (last ys))" if "ys \<noteq> []"
    proof -
      have "B h = butlast ys @ last ys # x # zs" using B that by simp
      then have "unat (last ys) < tab_sz t" by (rule ctt.list_facts(3) [OF L])
      then show ?thesis
        using same_shapeD(9) [OF R(2)] tbl_wfD(3) [OF ctt.invD(1) [OF L]] by (simp add: rec_get_def arr_simps)
    qed
    then have "(case it_prev_entry (iter_at ys x zs) of None \<Rightarrow> Some False
            | Some p \<Rightarrow> (case rec_get th p of None \<Rightarrow> None
                | Some e \<Rightarrow> Some (ce_protocol e = IPA_IPV6CT_INVALID_PROTO_FIELD_CMP))) =
        Some (ys \<noteq> [] \<and> ct_dead (ct_key (recs th ! unat (last ys))))"
      by (cases "ys = []") (simp_all add: iter_at_def ct_dead_def ct_key_facts)
    moreover have "\<not> ipa_table_iterator_is_head_with_tail (iter_at ys x zs)" using hwt False by blast
    ultimately show ?thesis
      using it cmd posted R
      by (intro exI [of _ "iter_at ys x zs"] exI [of _ "dma_push (dma_cmd_init 2) (ctt.del_write t ys x zs)"]
          exI [of _ th] exI [of _ t'] exI [of _ B']) (simp del: fun_upd_apply)
  qed
qed

lemma ct_del_rule:
  assumes I: "ct_inv st" and spec: "ct_dma_spec os" and hdl: "hdl \<noteq> 0"
  shows "\<exists>r st' w'. ipa_ipv6ct_del_rule os 1 hdl st w = Some (r, st', w') \<and> ct_inv st' \<and>
    (r = 0 \<longrightarrow> ct_rules_of st' = (ct_rules_of st)(ct_slot st hdl := None)) \<and>
    (r \<noteq> 0 \<longrightarrow> ct_rules_of st' = ct_rules_of st \<or>
       r = - EPERM \<and> ct_rules_of st' = (ct_rules_of st)(ct_slot st hdl := None)) \<and>
    (ct_reliable os \<longrightarrow> (r = 0 \<longleftrightarrow> unat (ct_slot st hdl) < tab_sz (ct_table_of st) \<and>
       tv ct_entry_interface (ct_table_of st) (ct_slot st hdl)))"
proof -
  obtain desc tbl B where S: "ct_desc st = Some desc" "\<not> desc_ver desc < IPA_HW_v4_0" "ct_tables st = [tbl]"
      "ct_cnt st = 1" "md_valid (ct_mem tbl)" "ct_tab_inv (ct_tab tbl) B" "ct_table_of st = ct_tab tbl"
    using ct_invE [OF I] .
  define t where "t = ct_tab tbl"
  define x where "x = ct_slot st hdl"
  have L: "ct_linv t B" using S(6) by (simp add: ct_tab_inv_def t_def)
  have bh: "\<not> ct_bad_handle 1" by (simp add: ct_bad_handle_def)
  note U = ct_inv_upd [OF I S(3)]
  have R: "ct_rules_of st = ct_rules t" by (simp add: ct_rules_of_def S(7) t_def)
  have ge: "ipa_table_get_entry t hdl = (if unat x < tab_sz t then (0, Some x, x) else (- EINVAL, None, 0))"
    using ct_get_entry [OF L, of hdl] by (simp add: x_def ct_slot_def S(7) t_def Let_def)
  obtain l w1 where l: "os_lock os w = (l, w1)" by fastforce
  have same: "st\<lparr>ct_tables := (ct_tables st)[0 := tbl\<lparr>ct_tab := t\<rparr>]\<rparr> = st" using S(3) by (simp add: t_def)
  show ?thesis
  proof (cases "l = 0")
    case False
    then show ?thesis
      using S(1,2) bh l hdl I by (auto simp: ipa_ipv6ct_del_rule_def ct_reliable_def dest!: HOL.spec [of _ w])
  next
    case l0: True
    show ?thesis
    proof (cases "unat x < tab_sz t \<and> tv ct_entry_interface t x")
      case False
      obtain v w2 where v: "os_unlock os w1 = (v, w2)" by fastforce
      have "ipa_ipv6ct_del_rule os 1 hdl st w = Some (- EINVAL, st, w2)"
        using S(1,2,3,5) bh l l0 hdl ge False v same ctt.iterator_init_free [OF L, of x]
        by (cases "unat x < tab_sz t") (simp_all add: ipa_ipv6ct_del_rule_def arr_simps t_def ct_unlock_def)
      then show ?thesis using I False S(7) by (simp add: x_def t_def)
    next
      case True
      obtain it cmd th t' B' where A: "ipa_table_iterator_init ct_entry_interface t x x = Some (0, it)"
          "ipa_table_create_delete_command ct_entry_interface t (dma_cmd_init 2) it = Some cmd"
          "ct_hw (dma_posted cmd) t = Some th" "same_shape t th"
          "if ipa_table_iterator_is_head_with_tail it then t' = th
     else \<exists>pe. (case it_prev_entry it of None \<Rightarrow> Some False
            | Some p \<Rightarrow> (case rec_get th p of None \<Rightarrow> None
                | Some e \<Rightarrow> Some (ce_protocol e = IPA_IPV6CT_INVALID_PROTO_FIELD_CMP))) = Some pe \<and>
          ipa_table_delete_entry ct_entry_interface ct_entry_zero th it pe = Some t'"
          "ct_tab_inv t' B'" "ct_rules t' = (ct_rules t)(x := None)"
        using ct_remove [OF S(6), folded t_def] True by blast
      obtain r tp w2 where p: "ipa_ipv6ct_post_dma_cmd os (desc_fd desc) cmd t w1 = ((r, tp), w2)" by (metis surj_pair)
      have e1: "entry_size t = 64" using tbl_wfD(2) [OF ctt.invD(1) [OF L]] .
      note P = ct_post [OF spec e1 p]
      obtain v w3 where v: "os_unlock os w2 = (v, w3)" by fastforce
      have rel: "ct_reliable os \<Longrightarrow> r = 0 \<and> v = 0"
        using ct_post_reliable [of os "desc_fd desc" cmd t w1] p v by (auto simp: ct_reliable_def dest!: HOL.spec [of _ w2])
      show ?thesis
      proof (cases "r = 0")
        case False
        then have tp: "tp = t" "r = - EIO" using P(2) by auto
        have "ipa_ipv6ct_del_rule os 1 hdl st w = Some (- EIO, st, w3)"
          using S(1,2,3,5) bh l l0 hdl ge True v same A(1,2) p False
          by (simp add: ipa_ipv6ct_del_rule_def arr_simps t_def ct_unlock_def tp)
        then show ?thesis using I False rel by auto
      next
        case r0: True
        then have tp: "tp = th" using P(1) A(3) by blast
        have "ipa_ipv6ct_del_rule os 1 hdl st w =
            Some (if v \<noteq> 0 then - EPERM else 0, st\<lparr>ct_tables := (ct_tables st)[0 := tbl\<lparr>ct_tab := t'\<rparr>]\<rparr>, w3)"
        proof (cases "ipa_table_iterator_is_head_with_tail it")
          case True
          then show ?thesis
            using S(1,2,3,5) bh l l0 hdl ge \<open>unat x < tab_sz t \<and> _\<close> v A(1,2,5) p r0
            by (simp add: ipa_ipv6ct_del_rule_def arr_simps t_def ct_unlock_def tp)
        next
          case False
          then show ?thesis
            using S(1,2,3,5) bh l l0 hdl ge True v A(1,2,5) p r0
            by (auto simp: ipa_ipv6ct_del_rule_def arr_simps t_def ct_unlock_def tp)
        qed
        then show ?thesis
          using U [OF A(6)] A(7) R rel True by (auto simp: ct_rules_of_def x_def [symmetric] t_def S(7))
      qed
    qed
  qed
qed


section \<open>Creating and deleting the table\<close>

lemma ct_create_table:
  assumes "alloc_spec os" "ipa_ipv6ct_create_table os fd tbl n i w = ((0, tbl'), w')"
  shows "md_valid (ct_mem tbl')" "ct_tab_inv (ct_tab tbl') (\<lambda>_. [])" "ct_rules (ct_tab tbl') = Map.empty"
proof -
  define t0 where "t0 = (ipa_table_init ''IPA IPv6CT table'' IPA_NAT_MEM_IN_DDR 64 None 0 :: ipa_ipv6ct_hw_entry ipa_table)"
  obtain t1 where c: "ipa_table_calculate_entries_num t0 n IPA_NAT_MEM_IN_DDR = (0, t1)"
    using assms(2) by (auto simp: ipa_ipv6ct_create_table_def Let_def t0_def split: prod.splits if_splits)
  define md where "md = ipa_mem_descriptor_init (ct_mem tbl) ''ipaIpv6CTTable'' (ipa_table_calculate_size t1) i IPV6CT_TABLE_DEV False"
  obtain md' where m: "ipa_mem_descriptor_allocate_memory os md fd w = ((0, md'), w')"
      "tbl' = ipa_ipv6ct_create_table_dma_cmd_helpers
        (tbl\<lparr>ct_mem := md', ct_tab := ipa_table_reset ct_entry_zero (fst (ipa_table_calculate_addresses t1 (base_addr md')))\<rparr>) i"
    using assms(2) c by (auto simp: ipa_ipv6ct_create_table_def Let_def t0_def [symmetric] md_def split: prod.splits if_splits)
  note O = conjunct1 [OF allocate_memory_offset [OF assms(1) m(1)]] conjunct2 [OF allocate_memory_offset [OF assms(1) m(1)]]
  show "md_valid (ct_mem tbl')" using O(2) by (simp add: m(2) ipa_ipv6ct_create_table_dma_cmd_helpers_def Let_def)
  have t1: "entry_size t1 = 64" "tbl_meta t1 = None" "cur_tbl_cnt t1 = 0" "cur_expn_tbl_cnt t1 = 0" 
    using c by (auto simp: ipa_table_calculate_entries_num_def t0_def ipa_table_init_def Let_def split: if_splits)
  note Z = calculate_entries_num_sized [OF c]
  define t where "t = ct_tab tbl'"
  have t: "tab_sz t = tab_sz t1" "table_entries t = table_entries t1" "expn_table_entries t = expn_table_entries t1"
      "recs t = replicate (tab_sz t1) ct_entry_zero" "entry_size t = 64" "tbl_meta t = None"
      "cur_tbl_cnt t = 0" "cur_expn_tbl_cnt t = 0" "tbl_sized t"
      "expn_table_addr t = table_addr t + of_int (64 * uint (table_entries t))"
    using t1 Z(1) by (simp_all add: t_def m(2) ipa_ipv6ct_create_table_dma_cmd_helpers_def Let_def
        ipa_table_reset_def ipa_table_calculate_addresses_def tab_sz_def tbl_sized_def replicate_add [symmetric])
  have wf: "tbl_wf 64 IPA_IPV6CT_BASE_TBL IPA_IPV6CT_EXPN_TBL ct_off False t"
    unfolding tbl_wf_def
  proof (intro conjI ballI)
    fix ht
    show "case dma_help t ht of None \<Rightarrow> False | Some h \<Rightarrow> h_offset h = of_nat (ct_off ht) \<and>
        h_table_type h = IPA_IPV6CT_BASE_TBL \<and> h_expn_table_type h = IPA_IPV6CT_EXPN_TBL"
      using O(1) by (cases ht) (simp_all add: t_def m(2) ipa_ipv6ct_create_table_dma_cmd_helpers_def Let_def
        ipa_table_dma_cmd_helper_init_def)
  qed (use t Z(2) in \<open>simp_all add: word_le_nat_alt meta_fits_def\<close>)
  have z: "recs t ! i = ct_entry_zero" if "i < tab_sz t" for i using t(1,4) that by simp
  have nv: "\<not> tv ct_entry_interface t x" if "unat x < tab_sz t" for x
    using z [OF that] by (simp add: tv_def ct_entry_zero_def)
  show "ct_tab_inv (ct_tab tbl') (\<lambda>_. [])"
    using ctt.inv_fresh [OF wf z t(7,8)] z
    by (simp add: ct_tab_inv_def t_def [symmetric] ct_chain_ok_def ct_clean_def ct_entry_zero_def)
  show "ct_rules (ct_tab tbl') = Map.empty"
    using nv by (auto simp: fun_eq_iff ct_rules_alt t_def [symmetric])
qed

text \<open>The idle module: no descriptor, no table.\<close>

definition ct_idle :: "ipa_ipv6ct \<Rightarrow> bool" where
  "ct_idle st \<longleftrightarrow> ct_desc st = None \<and> ct_cnt st = 0 \<and> length (ct_tables st) = 1 \<and>
     \<not> md_valid (ct_mem (ct_tables st ! 0))"

lemma ct_idle_initial: "ct_idle ipv6ct_initial"
  by (simp add: ct_idle_def ipv6ct_initial_def ct_table_zero_def mem_desc_zero_def)

lemma ct_create_fail_invalid:
  assumes "ipa_ipv6ct_create_table os fd tbl n i w = ((r, tbl'), w')" "r \<noteq> 0" "\<not> md_valid (ct_mem tbl)"
  shows "\<not> md_valid (ct_mem tbl')"
  using assms by (auto simp: ipa_ipv6ct_create_table_def ct_table_zero_def mem_desc_zero_def Let_def split: prod.splits if_splits)

lemma ct_add_tbl:
  assumes "alloc_spec os" "ct_idle st" "n \<noteq> 0"
  shows "\<exists>r h st' w'. ipa_ipv6ct_add_tbl os n True st w = Some ((r, h), st', w') \<and>
    (if r = 0 then h = Some 1 \<and> ct_inv st' \<and> ct_rules_of st' = Map.empty else h = Some 0 \<and> ct_idle st')"
proof -
  obtain tbl where S: "ct_desc st = None" "ct_cnt st = 0" "ct_tables st = [tbl]" "\<not> md_valid (ct_mem tbl)"
    using assms(2) by (cases "ct_tables st") (auto simp: ct_idle_def)
  obtain d w1 where d: "ipa_descriptor_open os w = (d, w1)" by fastforce
  show ?thesis
  proof (cases d)
    case None
    then show ?thesis using S d assms(2,3) by (auto simp: ipa_ipv6ct_add_tbl_def Let_def ct_idle_def)
  next
    case (Some desc)
    show ?thesis
    proof (cases "desc_ver desc < IPA_HW_v4_0")
      case True
      then show ?thesis using S d Some assms(3) by (auto simp: ipa_ipv6ct_add_tbl_def Let_def ct_close_desc_def ct_idle_def)
    next
      case False
      obtain r tbl' w2 where c: "ipa_ipv6ct_create_table os (desc_fd desc) tbl n 0 w1 = ((r, tbl'), w2)" by (metis surj_pair)
      show ?thesis
      proof (cases "r = 0")
        case False
        then show ?thesis
          using S d Some assms(3) c \<open>\<not> desc_ver desc < _\<close> ct_create_fail_invalid [OF c]
          by (auto simp: ipa_ipv6ct_add_tbl_def Let_def ct_close_desc_def ct_idle_def arr_simps)
      next
        case True
        note T = ct_create_table [OF assms(1) c [unfolded True]]
        obtain q w3 where q: "ipa_ipv6ct_post_init_cmd os (desc_fd desc) tbl' 0 w2 = (q, w3)" by fastforce
        obtain y tz w4 where z: "ipa_ipv6ct_destroy_table os (desc_fd desc) tbl' w3 = ((y, tz), w4)" by (metis surj_pair)
        then have tz: "tz = ct_table_zero" by (auto simp: ipa_ipv6ct_destroy_table_def split: prod.splits)
        show ?thesis
          using S d Some assms(3) c True q z \<open>\<not> desc_ver desc < _\<close> T
          by (auto simp: ipa_ipv6ct_add_tbl_def Let_def ct_close_desc_def ct_idle_def ct_inv_def ct_table_of_def
              ct_rules_of_def arr_simps tz ct_table_zero_def mem_desc_zero_def)
      qed
    qed
  qed
qed

lemma ct_del_tbl:
  assumes I: "ct_inv st"
  shows "\<exists>r st' w'. ipa_ipv6ct_del_tbl os 1 st w = Some (r, st', w') \<and>
    (r = 0 \<longrightarrow> ct_idle st') \<and> (fst (os_lock os w) \<noteq> 0 \<longrightarrow> r = - EINVAL \<and> st' = st)"
proof -
  obtain desc tbl B where S: "ct_desc st = Some desc" "\<not> desc_ver desc < IPA_HW_v4_0" "ct_tables st = [tbl]"
      "ct_cnt st = 1" "md_valid (ct_mem tbl)" "ct_tab_inv (ct_tab tbl) B" "ct_table_of st = ct_tab tbl"
    using ct_invE [OF I] .
  have bh: "\<not> ct_bad_handle 1" by (simp add: ct_bad_handle_def)
  obtain l w1 where l: "os_lock os w = (l, w1)" by fastforce
  obtain y tz w2 where z: "ipa_ipv6ct_destroy_table os (desc_fd desc) tbl w1 = ((y, tz), w2)" by (metis surj_pair)
  then have tz: "tz = ct_table_zero" by (auto simp: ipa_ipv6ct_destroy_table_def split: prod.splits)
  show ?thesis
    using S bh l z
    by (auto simp: ipa_ipv6ct_del_tbl_def arr_simps ct_close_desc_def ct_unlock_def ct_idle_def tz
        ct_table_zero_def mem_desc_zero_def Let_def split: prod.splits)
qed

end
