(* ===== verification/Ipa_Ipv6ct_Run.thy ===== *)
theory Ipa_Ipv6ct_Run
  imports Ipa_Ipv6ct_Api
begin

text \<open>
  Histories of the IPv6CT module: every call a client can make, with any arguments, as a step
  relation on the state of the module and of the system, and the invariant of the states it reaches.
\<close>

section \<open>Calls that are refused\<close>

lemma ct_reject_callback:
  assumes "\<not> ct_good u"
  shows "\<exists>e' d. entry_head_insert ct_entry_interface e u = Some (- EINVAL, e', d) \<and>
    entry_is_valid ct_entry_interface e' = entry_is_valid ct_entry_interface e \<and>
    same_links ct_entry_interface e e'"
  using assms
  by (simp add: ct_table_entry_head_insert_def ct_table_entry_copy_from_user_def ct_good_def Let_def)

lemma ct_reject_clean:
  assumes "\<not> ct_good u" "ct_table_entry_head_insert e u = Some (r, e', d)" "ct_clean e"
  shows "ct_clean e' \<and> ce_enable e' = ce_enable e"
  using assms
  by (auto simp: ct_table_entry_head_insert_def ct_table_entry_copy_from_user_def ct_good_def ct_clean_def Let_def)

text \<open>A rule with an unknown direction leaves the table as it was, up to the contents of a free slot.\<close>

lemma ct_add_rejected:
  assumes I: "ct_tab_inv t B" and u: "\<not> ct_good u"
  shows "\<exists>r t'. ipa_table_add_entry ct_entry_interface t u (ipa_ipv6ct_hash u (table_entries t - 1)) (dma_cmd_init 2) =
      Some (r, t', ipa_ipv6ct_hash u (table_entries t - 1), 0, dma_cmd_init 2) \<and>
    r \<in> {- 1, - EINVAL} \<and> ct_tab_inv t' B \<and> ct_rules t' = ct_rules t"
proof -
  have L: "ct_linv t B" and C: "ct_chain_ok t B"
    and F: "\<forall>x. unat x < tab_sz t \<longrightarrow> \<not> tv ct_entry_interface t x \<longrightarrow> ct_clean (recs t ! unat x)"
    using I by (simp_all add: ct_tab_inv_def)
  define h where "h = ipa_ipv6ct_hash u (table_entries t - 1)"
  have "- EINVAL \<noteq> 0" by simp
  from ctt.add_rejected [OF L _ ct_te_pos(1,2) [OF I, of u] this ct_reject_callback [OF u]]
  obtain r' t' where A: "ipa_table_add_entry ct_entry_interface t u h (dma_cmd_init 2) = Some (r', t', h, 0, dma_cmd_init 2)"
      "r' \<in> {- 1, - EINVAL}" "ct_linv t' B" "same_shape t t'"
      "\<forall>x :: uint16. recs t' ! unat x = recs t ! unat x \<or> \<not> tv ct_entry_interface t x \<and>
        (\<exists>d. entry_head_insert ct_entry_interface (recs t ! unat x) u = Some (- EINVAL, recs t' ! unat x, d))"
    unfolding h_def by blast
  note S = same_shapeD [OF A(4)]
  have cl: "ct_clean (recs t ! unat x)" if "unat x < tab_sz t" "\<not> tv ct_entry_interface t x" for x
    using F that by blast
  have same: "recs t' ! unat x = recs t ! unat x" if "tv ct_entry_interface t x" for x
    using A(5) that by blast
  have tve: "tv ct_entry_interface t' x = tv ct_entry_interface t x" if "unat x < tab_sz t" for x
    using ct_tv_iff [OF L that] ct_tv_iff [OF A(3), of x] that S(10) by simp
  have "ct_chain_ok t' B"
  proof (rule ct_chain_ok_sub [OF C S(3)])
    fix k y assume "y \<in> set (B k)"
    then have "tv ct_entry_interface t y" using chains_member(1) [OF ctt.invD(2) [OF L]] by blast
    then show "y \<in> set (B k) \<and> ct_key (recs t' ! unat y) = ct_key (recs t ! unat y)"
      using \<open>y \<in> set (B k)\<close> same by simp
  qed simp
  moreover have "ct_clean (recs t' ! unat x)" if "unat x < tab_sz t'" "\<not> tv ct_entry_interface t' x" for x
    using A(5) [rule_format, of x] cl [of x] that S(10) tve [of x] ct_reject_clean [OF u]
    by (metis ct_iface_simps(5))
  moreover have "ct_rules t' x = ct_rules t x" for x
    using same [of x] tve [of x] S(10)
    by (cases "unat x < tab_sz t \<and> tv ct_entry_interface t x") (auto simp: ct_rules_alt)
  then have "ct_rules t' = ct_rules t" by blast
  ultimately show ?thesis using A(1,2,3) by (auto simp: ct_tab_inv_def h_def)
qed

lemma ct_add_rule_rejected:
  assumes I: "ct_inv st" and u: "\<not> ct_good u"
  shows "\<exists>r st' w'. ipa_ipv6ct_add_rule os 1 (Some u) True st w = Some ((r, None), st', w') \<and>
    r \<in> {- 1, - EINVAL} \<and> ct_inv st' \<and> ct_rules_of st' = ct_rules_of st"
proof -
  obtain desc tbl B where S: "ct_desc st = Some desc" "\<not> desc_ver desc < IPA_HW_v4_0" "ct_tables st = [tbl]"
      "ct_cnt st = 1" "md_valid (ct_mem tbl)" "ct_tab_inv (ct_tab tbl) B" "ct_table_of st = ct_tab tbl"
    using ct_invE [OF I] .
  have bh: "\<not> ct_bad_handle 1" by (simp add: ct_bad_handle_def)
  obtain l w1 where l: "os_lock os w = (l, w1)" by fastforce
  obtain r t' where A: "ipa_table_add_entry ct_entry_interface (ct_tab tbl) u
        (ipa_ipv6ct_hash u (table_entries (ct_tab tbl) - 1)) (dma_cmd_init 2) =
        Some (r, t', ipa_ipv6ct_hash u (table_entries (ct_tab tbl) - 1), 0, dma_cmd_init 2)"
      "r \<in> {- 1, - EINVAL}" "ct_tab_inv t' B" "ct_rules t' = ct_rules (ct_tab tbl)"
    using ct_add_rejected [OF S(6) u] by blast
  have "r \<noteq> 0" using A(2) by auto
  then show ?thesis
    using S(1,2,3,5,7) bh l A ct_inv_upd [OF I S(3) A(3)] I
    by (auto simp: ipa_ipv6ct_add_rule_def arr_simps ct_rules_of_def)
qed

section \<open>A table that could not be deleted\<close>

text \<open>
  When the kernel refuses to delete the table, the module has already cleared it, but still counts
  it: no rule can be reached, and no other table can be created.
\<close>

definition ct_stuck :: "ipa_ipv6ct \<Rightarrow> bool" where
  "ct_stuck st \<longleftrightarrow> ct_desc st \<noteq> None \<and> ct_cnt st = 1 \<and> length (ct_tables st) = 1 \<and>
     \<not> md_valid (ct_mem (ct_tables st ! 0))"

lemma ct_stuckE:
  assumes "ct_stuck st"
  obtains desc tbl where "ct_desc st = Some desc" "ct_cnt st = 1" "ct_tables st = [tbl]" "\<not> md_valid (ct_mem tbl)"
  using assms by (cases "ct_tables st") (auto simp: ct_stuck_def)

lemma ct_handle_one: "\<not> ct_bad_handle h \<Longrightarrow> h = 1"
proof -
  assume "\<not> ct_bad_handle h"
  then have "h \<noteq> 0" "unat h \<le> 1" by (auto simp: ct_bad_handle_def)
  then have "unat h = 1" by (metis le_SucE le_zero_eq One_nat_def unat_eq_zero)
  then show ?thesis by (metis unat_1 word_unat_eq_iff)
qed

lemma ct_stuck_same: "ct_stuck st \<Longrightarrow> ct_tables st = [tbl] \<Longrightarrow>
    st\<lparr>ct_tables := (ct_tables st)[0 := tbl\<lparr>ct_tab := ct_tab tbl\<rparr>]\<rparr> = st"
  by simp

text \<open>Every call on a stuck module fails and changes nothing.\<close>

lemma ct_stuck_calls:
  assumes "ct_stuck st"
  shows "ipa_ipv6ct_add_tbl os n out st w = Some (rt, st1, w1) \<Longrightarrow> fst rt \<noteq> 0 \<and> st1 = st"
    "ipa_ipv6ct_del_tbl os h st w = Some (r, st2, w2) \<Longrightarrow> r \<noteq> 0 \<and> st2 = st"
    "ipa_ipv6ct_add_rule os h u out st w = Some (ra, st3, w3) \<Longrightarrow> fst ra \<noteq> 0 \<and> st3 = st"
    "ipa_ipv6ct_del_rule os h x st w = Some (rd, st4, w4) \<Longrightarrow> rd \<noteq> 0 \<and> st4 = st"
proof -
  obtain desc tbl where S: "ct_desc st = Some desc" "ct_cnt st = 1" "ct_tables st = [tbl]" "\<not> md_valid (ct_mem tbl)"
    using ct_stuckE [OF assms] .
  show "ipa_ipv6ct_add_tbl os n out st w = Some (rt, st1, w1) \<Longrightarrow> fst rt \<noteq> 0 \<and> st1 = st"
    using S by (auto simp: ipa_ipv6ct_add_tbl_def split: if_splits)
  show "ipa_ipv6ct_del_tbl os h st w = Some (r, st2, w2) \<Longrightarrow> r \<noteq> 0 \<and> st2 = st"
    using S ct_handle_one [of h]
    by (auto simp: ipa_ipv6ct_del_tbl_def arr_simps ct_unlock_def Let_def split: if_splits prod.splits)
  show "ipa_ipv6ct_add_rule os h u out st w = Some (ra, st3, w3) \<Longrightarrow> fst ra \<noteq> 0 \<and> st3 = st"
    using S ct_handle_one [of h]
    by (auto simp: ipa_ipv6ct_add_rule_def arr_simps Let_def split: if_splits prod.splits option.splits)
  show "ipa_ipv6ct_del_rule os h x st w = Some (rd, st4, w4) \<Longrightarrow> rd \<noteq> 0 \<and> st4 = st"
    using S ct_handle_one [of h] ct_stuck_same [OF assms S(3)]
    by (auto simp: ipa_ipv6ct_del_rule_def arr_simps ct_unlock_def Let_def split: if_splits prod.splits)
qed

section \<open>Histories\<close>

inductive ct_step :: "('w, ct_memory) ipa_os \<Rightarrow> ipa_ipv6ct \<times> 'w \<Rightarrow> ipa_ipv6ct \<times> 'w \<Rightarrow> bool" for os where
  step_add_tbl: "ipa_ipv6ct_add_tbl os n out st w = Some (r, st', w') \<Longrightarrow> ct_step os (st, w) (st', w')"
| step_del_tbl: "ipa_ipv6ct_del_tbl os h st w = Some (r, st', w') \<Longrightarrow> ct_step os (st, w) (st', w')"
| step_add_rule: "ipa_ipv6ct_add_rule os h u out st w = Some (r, st', w') \<Longrightarrow> ct_step os (st, w) (st', w')"
| step_del_rule: "ipa_ipv6ct_del_rule os h x st w = Some (r, st', w') \<Longrightarrow> ct_step os (st, w) (st', w')"
| step_query: "ipa_ipv6ct_query_timestamp os h x out st w = Some (r, st', w') \<Longrightarrow> ct_step os (st, w) (st', w')"

inductive ct_reachable :: "('w, ct_memory) ipa_os \<Rightarrow> 'w \<Rightarrow> ipa_ipv6ct \<times> 'w \<Rightarrow> bool" for os w0 where
  reach_init: "ct_reachable os w0 (ipv6ct_initial, w0)"
| reach_step: "ct_reachable os w0 s \<Longrightarrow> ct_step os s s' \<Longrightarrow> ct_reachable os w0 s'"

inductive_cases ct_stepE: "ct_step os (st, w) (st', w')"

definition ct_mode :: "ipa_ipv6ct \<Rightarrow> bool" where
  "ct_mode st \<longleftrightarrow> ct_idle st \<or> ct_inv st \<or> ct_stuck st"

lemma ct_idle_calls:
  assumes "ct_idle st"
  shows "ipa_ipv6ct_del_tbl os h st w = None" "ipa_ipv6ct_add_rule os h u out st w = None"
    "ipa_ipv6ct_del_rule os h x st w = None" "ipa_ipv6ct_query_timestamp os h x out st w = None"
  using assms
  by (simp_all add: ct_idle_def ipa_ipv6ct_del_tbl_def ipa_ipv6ct_add_rule_def ipa_ipv6ct_del_rule_def
      ipa_ipv6ct_query_timestamp_def)

lemma ct_query_same: "ipa_ipv6ct_query_timestamp os h x out st w = Some (r, st', w') \<Longrightarrow> st' = st"
  by (auto simp: ipa_ipv6ct_query_timestamp_def Let_def split: Option.bind_splits if_splits prod.splits)

text \<open>The calls on a module in use, with any argument.\<close>

lemma ct_inv_add_tbl:
  "ct_inv st \<Longrightarrow> ipa_ipv6ct_add_tbl os n out st w = Some (r, st', w') \<Longrightarrow> fst r = - EINVAL \<and> st' = st"
  by (auto simp: ct_inv_def ipa_ipv6ct_add_tbl_def split: if_splits)

lemma ct_inv_del_tbl:
  assumes "ct_inv st" "ipa_ipv6ct_del_tbl os h st w = Some (r, st', w')"
  shows "ct_mode st'"
proof -
  obtain desc tbl B where S: "ct_desc st = Some desc" "\<not> desc_ver desc < IPA_HW_v4_0" "ct_tables st = [tbl]"
      "ct_cnt st = 1" "md_valid (ct_mem tbl)" "ct_tab_inv (ct_tab tbl) B" "ct_table_of st = ct_tab tbl"
    using ct_invE [OF assms(1)] .
  have z: "ipa_ipv6ct_destroy_table os fd tbl v = ((y, tz), v') \<Longrightarrow> tz = ct_table_zero" for fd v y tz v'
    by (auto simp: ipa_ipv6ct_destroy_table_def split: prod.splits)
  show ?thesis
  proof (cases "ct_bad_handle h \<or> fst (os_lock os w) \<noteq> 0")
    case True
    then have "st' = st"
      using assms(2) S(1,2) by (cases "os_lock os w") (auto simp: ipa_ipv6ct_del_tbl_def Let_def split: if_splits)
    then show ?thesis using assms(1) by (simp add: ct_mode_def)
  next
    case False
    then have h: "h = 1" "\<not> ct_bad_handle 1" using ct_handle_one by auto
    obtain w1 where l: "os_lock os w = (0, w1)" using False by (metis prod.collapse)
    obtain y tz w2 where d: "ipa_ipv6ct_destroy_table os (desc_fd desc) tbl w1 = ((y, tz), w2)" by (metis surj_pair)
    show ?thesis
      using assms(2) S h l d z [OF d]
      by (auto simp: ipa_ipv6ct_del_tbl_def arr_simps ct_close_desc_def ct_unlock_def ct_mode_def ct_stuck_def
          ct_idle_def ct_table_zero_def mem_desc_zero_def Let_def split: prod.splits if_splits)
  qed
qed

lemma ct_inv_add_rule:
  assumes "ct_inv st" "ct_dma_spec os" "ipa_ipv6ct_add_rule os h u out st w = Some (r, st', w')"
  shows "ct_inv st'"
proof (cases "\<exists>v. u = Some v \<and> \<not> ct_bad_handle h \<and> out \<and> cr_protocol v \<noteq> IPA_IPV6CT_INVALID_PROTO_FIELD_CMP")
  case True
  then obtain v where v: "u = Some v" "h = 1" "out" "cr_protocol v \<noteq> IPA_IPV6CT_INVALID_PROTO_FIELD_CMP"
    using ct_handle_one by blast
  show ?thesis
  proof (cases "ct_good v")
    case True
    then show ?thesis using ct_add_rule [OF assms(1,2) True v(4), of w] assms(3) v(1-3) by auto
  next
    case False
    then show ?thesis using ct_add_rule_rejected [OF assms(1) False, of os w] assms(3) v(1-3) by auto
  qed
next
  case False
  obtain desc where "ct_desc st = Some desc" using assms(1) by (auto simp: ct_inv_def)
  then have "st' = st"
    using False assms(3) by (auto simp: ipa_ipv6ct_add_rule_def split: option.splits if_splits)
  then show ?thesis using assms(1) by simp
qed

lemma ct_inv_del_rule:
  assumes "ct_inv st" "ct_dma_spec os" "ipa_ipv6ct_del_rule os h x st w = Some (r, st', w')"
  shows "ct_inv st'"
proof (cases "ct_bad_handle h \<or> x = 0")
  case True
  obtain desc where "ct_desc st = Some desc" using assms(1) by (auto simp: ct_inv_def)
  then have "st' = st" using True assms(3) by (auto simp: ipa_ipv6ct_del_rule_def split: if_splits)
  then show ?thesis using assms(1) by simp
next
  case False
  then have "h = 1" "x \<noteq> 0" using ct_handle_one by auto
  then show ?thesis using ct_del_rule [OF assms(1,2), of x w] assms(3) by auto
qed

lemma ct_mode_step:
  assumes "alloc_spec os" "ct_dma_spec os" "ct_mode st" "ct_step os (st, w) (st', w')"
  shows "ct_mode st'"
  using assms(4)
proof (elim ct_stepE, goal_cases)
  case (1 n out r)
  show ?thesis
  proof (cases "ct_idle st")
    case True
    show ?thesis
    proof (cases "n = 0 \<or> \<not> out")
      case True
      then have "st' = st" using 1 by (auto simp: ipa_ipv6ct_add_tbl_def)
      then show ?thesis using assms(3) by simp
    next
      case False
      then show ?thesis
        using ct_add_tbl [OF assms(1) True, of n w] 1 by (auto simp: ct_mode_def split: if_splits)
    qed
  next
    case False
    then have "st' = st"
      using assms(3) ct_inv_add_tbl [OF _ 1(1)] ct_stuck_calls(1) [OF _ 1(1)] by (auto simp: ct_mode_def)
    then show ?thesis using assms(3) by simp
  qed
next
  case (2 h r)
  then show ?thesis
    using assms(3) ct_idle_calls(1) [of st os h w] ct_inv_del_tbl ct_stuck_calls(2) [of st os h w r st' w']
    unfolding ct_mode_def by fastforce
next
  case (3 h u out r)
  then show ?thesis
    using assms(3) ct_idle_calls(2) [of st os h u out w] ct_inv_add_rule [OF _ assms(2)]
      ct_stuck_calls(3) [of st os h u out w r st' w']
    unfolding ct_mode_def by fastforce
next
  case (4 h x r)
  then show ?thesis
    using assms(3) ct_idle_calls(3) [of st os h x w] ct_inv_del_rule [OF _ assms(2)]
      ct_stuck_calls(4) [of st os h x w r st' w']
    unfolding ct_mode_def by fastforce
next
  case (5 h x out r)
  then show ?thesis using ct_query_same [OF 5(1)] assms(3) by simp
qed

lemma ct_reachable_mode:
  assumes "ct_reachable os w0 s" "alloc_spec os" "ct_dma_spec os"
  shows "ct_mode (fst s)"
  using assms(1)
proof induction
  case reach_init
  then show ?case by (simp add: ct_mode_def ct_idle_initial)
next
  case (reach_step s s')
  then show ?case using ct_mode_step [OF assms(2,3)] by (metis prod.collapse)
qed

section \<open>Adding and deleting\<close>

lemma ct_rules_slot: "ct_rules_of st s \<noteq> None \<Longrightarrow>
    unat s < tab_sz (ct_table_of st) \<and> tv ct_entry_interface (ct_table_of st) s"
  by (auto simp: ct_rules_of_def ct_rules_alt split: if_splits)

lemma ct_inv_sized: "ct_inv st \<Longrightarrow> tbl_sized (ct_table_of st)"
  using ctt.invD(1) tbl_wfD(1) by (fastforce simp: ct_inv_def ct_tab_inv_def)

text \<open>The handle of a slot that holds a rule leads back to the slot.\<close>

lemma ct_handle_slot:
  assumes "ct_inv st" "ct_rules_of st s \<noteq> None" "s \<noteq> 0"
  shows "ct_slot st (ct_handle st s) = s" "ct_handle st s \<noteq> 0"
  using break_make_hdl [OF ct_inv_sized] made_hdl_nonzero [OF ct_inv_sized] ct_rules_slot assms
  by (simp_all add: ct_slot_def ct_handle_def)

lemma ct_add_del:
  assumes I: "ct_inv st" and spec: "ct_dma_spec os" "ct_reliable os"
    and u: "ct_good u" "cr_protocol u \<noteq> IPA_IPV6CT_INVALID_PROTO_FIELD_CMP" "ct_has_room st u"
  shows "\<exists>h st1 w1 st2 w2. ipa_ipv6ct_add_rule os 1 (Some u) True st w = Some ((0, Some h), st1, w1) \<and>
    ipa_ipv6ct_del_rule os 1 h st1 w1 = Some (0, st2, w2) \<and> ct_rules_of st2 = ct_rules_of st"
proof -
  obtain h st1 w1 where A: "ipa_ipv6ct_add_rule os 1 (Some u) True st w = Some ((0, Some h), st1, w1)"
    using ct_add_rule_reliable [OF I spec u(1,2), of w] u(3) by auto
  obtain s where s: "ct_inv st1" "s \<noteq> 0" "ct_rules_of st s = None" "ct_rules_of st1 = (ct_rules_of st)(s \<mapsto> ct_ukey u)"
      "h = ct_handle st s" "same_shape (ct_table_of st) (ct_table_of st1)"
    using ct_add_rule [OF I spec(1) u(1,2), of w] A by (auto simp: add_outcome_def)
  have h: "h = ct_handle st1 s" using s(5) MakeEntryHdl_same_shape [OF s(6)] by (simp add: ct_handle_def)
  have n: "ct_rules_of st1 s \<noteq> None" using s(4) by simp
  note H = ct_handle_slot [OF s(1) n s(2)]
  obtain r st2 w2 where D: "ipa_ipv6ct_del_rule os 1 h st1 w1 = Some (r, st2, w2)"
      "r = 0 \<longrightarrow> ct_rules_of st2 = (ct_rules_of st1)(ct_slot st1 h := None)"
      "r = 0 \<longleftrightarrow> unat (ct_slot st1 h) < tab_sz (ct_table_of st1) \<and> tv ct_entry_interface (ct_table_of st1) (ct_slot st1 h)"
    using ct_del_rule [OF s(1) spec(1), of h w1] H(2) spec(2) unfolding h [symmetric] by auto
  have "r = 0" "ct_slot st1 h = s" using D(3) H(1) h ct_rules_slot [OF n] by auto
  moreover have "(ct_rules_of st1)(s := None) = ct_rules_of st" using s(3,4) by (simp add: fun_upd_idem)
  ultimately show ?thesis using A D by auto
qed

text \<open>The time stamp of a slot.\<close>

lemma ct_query:
  assumes I: "ct_inv st" and l: "fst (os_lock os w) = 0" "\<And>v. fst (os_unlock os v) = 0" and h: "x \<noteq> 0"
  shows "\<exists>w'. ipa_ipv6ct_query_timestamp os 1 x True st w =
    Some (if unat (ct_slot st x) < tab_sz (ct_table_of st)
          then (0, Some (ucast (ce_time_stamp (recs (ct_table_of st) ! unat (ct_slot st x)))))
          else (- EINVAL, None), st, w')"
proof -
  obtain desc tbl B where S: "ct_desc st = Some desc" "\<not> desc_ver desc < IPA_HW_v4_0" "ct_tables st = [tbl]"
      "ct_cnt st = 1" "md_valid (ct_mem tbl)" "ct_tab_inv (ct_tab tbl) B" "ct_table_of st = ct_tab tbl"
    using ct_invE [OF I] .
  have L: "ct_linv (ct_tab tbl) B" using S(6) by (simp add: ct_tab_inv_def)
  have bh: "\<not> ct_bad_handle 1" by (simp add: ct_bad_handle_def)
  obtain w1 where w1: "os_lock os w = (0, w1)" using l(1) by (metis prod.collapse)
  have u: "\<exists>w'. os_unlock os v = (0, w')" for v using l(2) by (metis prod.collapse)
  obtain w2 where w2: "os_unlock os w1 = (0, w2)" using u by blast
  show ?thesis
    using S(1,2,3,5,7) bh w1 w2 h ct_get_entry [OF L, of x] ctt.rec_get_in [OF ctt.invD(1) [OF L]]
    by (auto simp: ipa_ipv6ct_query_timestamp_def arr_simps ct_unlock_def ct_slot_def Let_def)
qed

text \<open>The hardware, which starts at the slot of the hash, finds every rule.\<close>

lemma ct_search:
  assumes "ct_inv st" "ct_rules_of st s = Some k"
  shows "\<exists>y. chain_search ct_entry_interface (Suc (tab_sz (ct_table_of st))) (ct_table_of st) (\<lambda>e. ct_key e = k)
    (ipa_ipv6ct_hash (ct_rule_of k) (table_entries (ct_table_of st) - 1)) = Some y \<and> ct_rules_of st y = Some k"
proof -
  define t where "t = ct_table_of st"
  obtain B where I: "ct_tab_inv t B" using assms(1) by (auto simp: ct_inv_def t_def)
  then have L: "ct_linv t B" and C: "ct_chain_ok t B" by (simp_all add: ct_tab_inv_def)
  have s: "unat s < tab_sz t" "tv ct_entry_interface t s" "ct_key (recs t ! unat s) = k"
      "ce_protocol k \<noteq> IPA_IPV6CT_INVALID_PROTO_FIELD_CMP"
    using assms(2) by (auto simp: ct_rules_of_def ct_rules_alt t_def split: if_splits)
  obtain h where h: "s \<in> set (B h)" using ct_tv_iff [OF L s(1)] s(2) by blast
  then have hh: "ipa_ipv6ct_hash (ct_rule_of k) (table_entries t - 1) = h"
    using C s(3,4) unfolding ct_chain_ok_def by (fastforce simp: Let_def)
  obtain y where y: "y \<in> set (B h)" "ct_key (recs t ! unat y) = k"
      "chain_search ct_entry_interface (Suc (tab_sz t)) t (\<lambda>e. ct_key e = k) h = Some y"
    using ctt.search_ok [OF L h, of "\<lambda>e. ct_key e = k"] s(3) by blast
  have "ct_rules t y = Some k"
    using chains_member(1,3) [OF ctt.invD(2) [OF L] y(1)] y(2) s(4) by (simp add: ct_rules_alt)
  then show ?thesis using y(3) hh by (auto simp: ct_rules_of_def t_def)
qed

text \<open>A table without rules has no slot in use.\<close>

lemma ct_empty_free:
  assumes I: "ct_inv st" "ct_rules_of st = Map.empty" and x: "unat x < tab_sz (ct_table_of st)"
  shows "\<not> tv ct_entry_interface (ct_table_of st) x"
proof -
  obtain B where "ct_tab_inv (ct_table_of st) B" using I(1) by (auto simp: ct_inv_def)
  then show ?thesis
    using ctm.empty_free [unfolded ct_marked, of "ct_table_of st" B x] I(2) x
    by (simp add: ct_tab_inv_marked [symmetric] ct_rules_of_def)
qed

lemma ct_stuck_step:
  assumes "ct_stuck st" "ct_step os (st, w) (st', w')"
  shows "st' = st"
  using assms(2)
  by (elim ct_stepE) (use ct_stuck_calls [OF assms(1), of os] ct_query_same [of os] in simp_all)

end
