(* ===== verification/Ipa_Ipv6ct_Props.thy ===== *)
theory Ipa_Ipv6ct_Props
  imports Ipa_Ipv6ct_Run Ipa_Sim_Os
begin

text \<open>
  The properties of the IPv6CT module, and the concrete module state at which the hypotheses of
  each are shown to hold.
\<close>

section \<open>A concrete system and module\<close>

text \<open>A device that does the writes of a command, and ignores one it cannot do.\<close>

definition ct_sim_dma :: "int \<Rightarrow> ipa_ioc_nat_dma_cmd \<Rightarrow> ct_memory \<Rightarrow> unit \<Rightarrow> (int \<times> ct_memory) \<times> unit" where
  "ct_sim_dma fd cmd m w =
     ((0, case ct_hw (dma_posted cmd) (tbl_zero\<lparr>table_entries := fst m, recs := snd m, entry_size := 64\<rparr>) of
            None \<Rightarrow> m | Some t \<Rightarrow> (fst m, recs t)), w)"

lemma ct_sim_dma_spec: "ct_dma_spec (sim_os ct_sim_dma)"
  unfolding ct_dma_spec_def
proof (intro allI impI)
  fix fd cmd te rs w r m w'
  assume d: "os_dma (sim_os ct_sim_dma) fd cmd (te, rs) w = ((r, m), w')"
  define z :: "ipa_ipv6ct_hw_entry ipa_table" where "z = tbl_zero\<lparr>table_entries := te, recs := rs, entry_size := 64\<rparr>"
  have "snd m = recs t'"
    if t: "table_entries t = te" "recs t = rs" "entry_size t = 64" "ct_hw (dma_posted cmd) t = Some t'" for t t'
  proof -
    have "map_option recs (ct_hw (dma_posted cmd) t) = map_option recs (ct_hw (dma_posted cmd) z)"
      by (rule hw_writes_cong) (use t in \<open>simp_all add: z_def\<close>)
    then have "map_option recs (ct_hw (dma_posted cmd) z) = Some (recs t')" using t(4) by simp
    then obtain tz where "ct_hw (dma_posted cmd) z = Some tz" "recs tz = recs t'" by (auto simp: map_option_eq_Some)
    then show ?thesis using d by (auto simp: sim_os_def ct_sim_dma_def z_def)
  qed
  moreover have "r = 0" using d by (simp add: sim_os_def ct_sim_dma_def)
  ultimately show "(r \<noteq> 0 \<longrightarrow> snd m = rs) \<and>
     (r = 0 \<longrightarrow> (\<forall>t t'. table_entries t = te \<and> recs t = rs \<and> entry_size t = 64 \<and>
        ct_hw (dma_posted cmd) t = Some t' \<longrightarrow> snd m = recs t'))"
    by blast
qed

lemma ct_sim_reliable: "ct_reliable (sim_os ct_sim_dma)"
  by (simp add: ct_reliable_def sim_os_def ct_sim_dma_def)

lemma ct_sim_alloc_spec: "alloc_spec (sim_os ct_sim_dma)"
  by (simp add: alloc_spec_def sim_os_def)

definition ct_demo_rule :: "uint16 \<Rightarrow> ipa_ipv6ct_rule" where
  "ct_demo_rule port = \<lparr>cr_src_lsb = 0x1122334455667788, cr_src_msb = 0xfe80000000000000, cr_dest_lsb = 7,
     cr_dest_msb = 9, cr_direction = 3, cr_ucp = False, cr_s = True, cr_uc_activation_index = 5,
     cr_src_port = port, cr_dest_port = 443, cr_protocol = 6\<rparr>"

definition ct_demo_st :: ipa_ipv6ct where
  "ct_demo_st = fst (snd (the (ipa_ipv6ct_add_tbl (sim_os ct_sim_dma) 5 True ipv6ct_initial ())))"

lemma ct_demo_ret:
  "\<exists>st. ipa_ipv6ct_add_tbl (sim_os ct_sim_dma) 5 True ipv6ct_initial () = Some ((0, Some 1), st, ())"
  by (simp add: ipa_ipv6ct_add_tbl_def ipv6ct_initial_def ct_table_zero_def arr_simps ipa_descriptor_open_def
      sim_os_def ipa_ipv6ct_create_table_def demo_calc mem_desc_simps ipa_mem_descriptor_init_def
      ipa_ipv6ct_post_init_cmd_def ipa_ipv6ct_create_table_dma_cmd_helpers_def ipa_table_reset_def
      ipa_table_calculate_addresses_def)

lemma ct_demo_inv: "ct_inv ct_demo_st" "ct_rules_of ct_demo_st = Map.empty"
proof -
  obtain st where st: "ipa_ipv6ct_add_tbl (sim_os ct_sim_dma) 5 True ipv6ct_initial () = Some ((0, Some 1), st, ())"
    using ct_demo_ret by blast
  have n: "(5 :: uint16) \<noteq> 0" by simp
  have "ct_inv st" "ct_rules_of st = Map.empty"
    using ct_add_tbl [OF ct_sim_alloc_spec ct_idle_initial n, of "()"] st by auto
  then show "ct_inv ct_demo_st" "ct_rules_of ct_demo_st = Map.empty" by (simp_all add: ct_demo_st_def st)
qed

lemma ct_demo_rule_ok: "ct_good (ct_demo_rule p)" "cr_protocol (ct_demo_rule p) \<noteq> 0xFF"
  by (simp_all add: ct_good_def ct_demo_rule_def)

text \<open>An empty table has room; the module with the demonstration rule in it.\<close>

lemma ct_demo_room: "ct_has_room ct_demo_st (ct_demo_rule p)"
proof -
  obtain B where B: "ct_tab_inv (ct_table_of ct_demo_st) B" using ct_demo_inv(1) by (auto simp: ct_inv_def)
  then have "unat (ipa_ipv6ct_hash (ct_demo_rule p) (table_entries (ct_table_of ct_demo_st) - 1)) <
      tab_sz (ct_table_of ct_demo_st)"
    using ct_te_pos(2) [OF B, of "ct_demo_rule p"] tbl_wfD(6) [OF ctt.invD(1)] unfolding ct_tab_inv_def by fastforce
  then show ?thesis using ct_empty_free [OF ct_demo_inv] by (simp add: ct_has_room_def Let_def)
qed

definition ct_demo_added :: "uint32 \<times> ipa_ipv6ct" where
  "ct_demo_added = (case the (ipa_ipv6ct_add_rule (sim_os ct_sim_dma) 1 (Some (ct_demo_rule 80)) True ct_demo_st ()) of
     ((_, h), st, _) \<Rightarrow> (the h, st))"

lemma ct_demo_added:
  "ct_inv (snd ct_demo_added) \<and> fst ct_demo_added \<noteq> 0 \<and>
   ct_rules_of (snd ct_demo_added) (ct_slot (snd ct_demo_added) (fst ct_demo_added)) = Some (ct_ukey (ct_demo_rule 80))"
proof -
  obtain h st w where A: "ipa_ipv6ct_add_rule (sim_os ct_sim_dma) 1 (Some (ct_demo_rule 80)) True ct_demo_st () =
      Some ((0, Some h), st, w)"
    using ct_add_rule_reliable [OF ct_demo_inv(1) ct_sim_dma_spec ct_sim_reliable ct_demo_rule_ok, of 80 "()"]
      ct_demo_room by auto
  obtain s where s: "ct_inv st" "s \<noteq> 0" "ct_rules_of st = (ct_rules_of ct_demo_st)(s \<mapsto> ct_ukey (ct_demo_rule 80))"
      "h = ct_handle ct_demo_st s" "same_shape (ct_table_of ct_demo_st) (ct_table_of st)"
    using ct_add_rule [OF ct_demo_inv(1) ct_sim_dma_spec ct_demo_rule_ok, of 80 "()"] A
    by (auto simp: add_outcome_def ct_demo_inv(2))
  have h: "h = ct_handle st s" using s(4) MakeEntryHdl_same_shape [OF s(5)] by (simp add: ct_handle_def)
  show ?thesis
    using s(1,3) h ct_handle_slot [OF s(1) _ s(2)] by (simp add: ct_demo_added_def A)
qed

section \<open>Properties\<close>



text \<open>On a system that answers every request, adding an IPv6CT rule succeeds exactly when its
  hash slot or some expansion slot is free; otherwise it returns \<open>-1\<close> and changes nothing.\<close>

theorem ipv6ct_add_rule_succeeds_iff_room:
  assumes "ct_inv st" "ct_dma_spec os" "ct_reliable os" "ct_good u" "cr_protocol u \<noteq> IPA_IPV6CT_INVALID_PROTO_FIELD_CMP"
  shows "\<exists>hdl st' w'. ipa_ipv6ct_add_rule os 1 (Some u) True st w =
      Some ((if ct_has_room st u then 0 else - 1, hdl), st', w') \<and>
    (ct_has_room st u \<longrightarrow> hdl \<noteq> None) \<and> (\<not> ct_has_room st u \<longrightarrow> st' = st)"
  using ct_add_rule_reliable [OF assms] .

lemma ipv6ct_add_rule_succeeds_iff_room_witness:
  "\<exists>hdl st' w'. ipa_ipv6ct_add_rule (sim_os ct_sim_dma) 1 (Some (ct_demo_rule 80)) True ct_demo_st () =
     Some ((0, Some hdl), st', w')"
  using ipv6ct_add_rule_succeeds_iff_room
      [OF ct_demo_inv(1) ct_sim_dma_spec ct_sim_reliable ct_demo_rule_ok, of 80 "()"] ct_demo_room by auto

text \<open>C16: Deleting an IPv6CT rule.  For every nonzero handle the call returns and the table stays well
  formed; on success exactly the rule at the slot of the handle is gone, on an error the rules are
  unchanged (only a failing unlock reports \<open>-EPERM\<close> after the rule is gone), and on a system that answers
  every request it succeeds exactly when the slot exists and is in use.\<close>

theorem ipv6ct_del_rule_map:
  assumes "ct_inv st" "ct_dma_spec os" "hdl \<noteq> 0"
  shows "\<exists>r st' w'. ipa_ipv6ct_del_rule os 1 hdl st w = Some (r, st', w') \<and> ct_inv st' \<and>
    (r = 0 \<longrightarrow> ct_rules_of st' = (ct_rules_of st)(ct_slot st hdl := None)) \<and>
    (r \<noteq> 0 \<longrightarrow> ct_rules_of st' = ct_rules_of st \<or>
       r = - EPERM \<and> ct_rules_of st' = (ct_rules_of st)(ct_slot st hdl := None)) \<and>
    (ct_reliable os \<longrightarrow> (r = 0 \<longleftrightarrow> unat (ct_slot st hdl) < tab_sz (ct_table_of st) \<and>
       tv ct_entry_interface (ct_table_of st) (ct_slot st hdl)))"
  using ct_del_rule [OF assms] .

lemma ipv6ct_del_rule_map_witness:
  "\<exists>r st' w'. ipa_ipv6ct_del_rule (sim_os ct_sim_dma) 1 (fst ct_demo_added) (snd ct_demo_added) () =
     Some (r, st', w') \<and> ct_inv st'"
  using ipv6ct_del_rule_map [OF conjunct1 [OF ct_demo_added] ct_sim_dma_spec
      conjunct1 [OF conjunct2 [OF ct_demo_added]], of "()"] by blast

text \<open>Adding a rule and deleting it by the handle that was returned gives back the rules there were:
  insertion into a hash slot or at the end of its list is undone exactly.\<close>

theorem ipv6ct_add_del_roundtrip:
  assumes "ct_inv st" "ct_dma_spec os" "ct_reliable os" "ct_good u"
    "cr_protocol u \<noteq> IPA_IPV6CT_INVALID_PROTO_FIELD_CMP" "ct_has_room st u"
  shows "\<exists>h st1 w1 st2 w2. ipa_ipv6ct_add_rule os 1 (Some u) True st w = Some ((0, Some h), st1, w1) \<and>
    ipa_ipv6ct_del_rule os 1 h st1 w1 = Some (0, st2, w2) \<and> ct_rules_of st2 = ct_rules_of st"
  using ct_add_del [OF assms] .

lemma ipv6ct_add_del_roundtrip_witness:
  "\<exists>h st1 st2. ipa_ipv6ct_add_rule (sim_os ct_sim_dma) 1 (Some (ct_demo_rule 80)) True ct_demo_st () =
      Some ((0, Some h), st1, ()) \<and> ipa_ipv6ct_del_rule (sim_os ct_sim_dma) 1 h st1 () = Some (0, st2, ()) \<and>
    ct_rules_of st2 = Map.empty"
  using ipv6ct_add_del_roundtrip
      [OF ct_demo_inv(1) ct_sim_dma_spec ct_sim_reliable ct_demo_rule_ok ct_demo_room, of 80 "()"]
  by (simp add: ct_demo_inv(2))

text \<open>A rule whose direction setting is none of the four is refused with an error, and the rules of
  the table are what they were, although the record of the free slot has been written.\<close>

theorem ipv6ct_bad_direction_rejected:
  assumes "ct_inv st" "\<not> ct_good u"
  shows "\<exists>r st' w'. ipa_ipv6ct_add_rule os 1 (Some u) True st w = Some ((r, None), st', w') \<and>
    r \<in> {- 1, - EINVAL} \<and> ct_inv st' \<and> ct_rules_of st' = ct_rules_of st"
  using ct_add_rule_rejected [OF assms] .

lemma ipv6ct_bad_direction_rejected_witness:
  "\<exists>r st' w'. ipa_ipv6ct_add_rule (sim_os ct_sim_dma) 1 (Some ((ct_demo_rule 80)\<lparr>cr_direction := 7\<rparr>)) True
      ct_demo_st () = Some ((r, None), st', w') \<and> r \<noteq> 0 \<and> ct_rules_of st' = Map.empty"
proof -
  have "\<not> ct_good ((ct_demo_rule 80)\<lparr>cr_direction := 7\<rparr>)" by (simp add: ct_good_def ct_demo_rule_def)
  from ipv6ct_bad_direction_rejected [OF ct_demo_inv(1) this, of "sim_os ct_sim_dma" "()"]
  show ?thesis by (fastforce simp: ct_demo_inv(2))
qed

text \<open>C20: In every history of calls with any arguments, the module is idle, or its table is well formed,
  or the table could not be deleted and is cleared but still counted.\<close>

theorem ipv6ct_history_invariant:
  assumes "ct_reachable os w0 s" "alloc_spec os" "ct_dma_spec os"
  shows "ct_idle (fst s) \<or> ct_inv (fst s) \<or> ct_stuck (fst s)"
  using ct_reachable_mode [OF assms] by (simp add: ct_mode_def)

lemma ipv6ct_history_invariant_witness:
  "\<exists>st. ct_reachable (sim_os ct_sim_dma) () (st, ()) \<and> (ct_idle st \<or> ct_inv st \<or> ct_stuck st)"
proof -
  obtain st where st: "ipa_ipv6ct_add_tbl (sim_os ct_sim_dma) 5 True ipv6ct_initial () = Some ((0, Some 1), st, ())"
    using ct_demo_ret by blast
  then have "ct_step (sim_os ct_sim_dma) (ipv6ct_initial, ()) (st, ())" by (rule step_add_tbl)
  then have "ct_reachable (sim_os ct_sim_dma) () (st, ())" by (rule reach_step [OF reach_init])
  then show ?thesis
    using ipv6ct_history_invariant [OF _ ct_sim_alloc_spec ct_sim_dma_spec, of "()" "(st, ())"] by auto
qed

text \<open>On the idle module, creating a table returns handle 1 and an empty well-formed table, or it
  reports an error with handle 0 and the module is idle again.\<close>

theorem ipv6ct_add_tbl_fresh:
  assumes "alloc_spec os" "ct_idle st" "n \<noteq> 0"
  shows "\<exists>r h st' w'. ipa_ipv6ct_add_tbl os n True st w = Some ((r, h), st', w') \<and>
    (if r = 0 then h = Some 1 \<and> ct_inv st' \<and> ct_rules_of st' = Map.empty else h = Some 0 \<and> ct_idle st')"
  using ct_add_tbl [OF assms] .

lemma ipv6ct_add_tbl_fresh_witness:
  "\<exists>r h st' w'. ipa_ipv6ct_add_tbl (sim_os ct_sim_dma) 5 True ipv6ct_initial () = Some ((r, h), st', w') \<and>
     h \<noteq> None"
proof -
  have "(5 :: uint16) \<noteq> 0" by simp
  from ipv6ct_add_tbl_fresh [OF ct_sim_alloc_spec ct_idle_initial this, of "()"]
  show ?thesis by (fastforce split: if_splits)
qed

text \<open>Every rule the table holds is found by following next links from the slot its hash selects, in
  no more steps than there are slots: the search the hardware does.\<close>

theorem ipv6ct_rules_searchable:
  assumes "ct_inv st" "ct_rules_of st s = Some k"
  shows "\<exists>y. chain_search ct_entry_interface (Suc (tab_sz (ct_table_of st))) (ct_table_of st) (\<lambda>e. ct_key e = k)
    (ipa_ipv6ct_hash (ct_rule_of k) (table_entries (ct_table_of st) - 1)) = Some y \<and> ct_rules_of st y = Some k"
  using ct_search [OF assms] .

lemma ipv6ct_rules_searchable_witness:
  "\<exists>y. ct_rules_of (snd ct_demo_added) y = Some (ct_ukey (ct_demo_rule 80))"
  using ipv6ct_rules_searchable [OF conjunct1 [OF ct_demo_added] conjunct2 [OF conjunct2 [OF ct_demo_added]]] by blast

text \<open>The hash of a rule in closed form, in terms of the sixteen-bit halves of its addresses: masked
  by the size, and the size itself in place of 0, so that the invalid slot 0 is never selected.\<close>

theorem ipv6ct_hash_closed:
  "ipa_ipv6ct_hash u sz =
     (let seg = (\<lambda>a. ucast a XOR ucast (drop_bit 16 a) XOR ucast (drop_bit 32 a) XOR ucast (drop_bit 48 a));
          x = (seg (cr_src_lsb u) XOR seg (cr_src_msb u) XOR seg (cr_dest_lsb u) XOR seg (cr_dest_msb u) XOR
               cr_src_port u XOR cr_dest_port u XOR ucast (cr_protocol u)) AND sz
      in if x = 0 then sz else x)"
  by (simp add: ipa_ipv6ct_hash_def xor_segments_eq Let_def ac_simps)

text \<open>Reading the time stamp of a rule changes nothing, and returns the 24 bits of the slot the handle
  names, or \<open>-EINVAL\<close> and no value when that slot is outside the table.\<close>

theorem ipv6ct_query_timestamp_reads:
  assumes "ct_inv st" "fst (os_lock os w) = 0" "\<And>v. fst (os_unlock os v) = 0" "x \<noteq> 0"
  shows "\<exists>w'. ipa_ipv6ct_query_timestamp os 1 x True st w =
    Some (if unat (ct_slot st x) < tab_sz (ct_table_of st)
          then (0, Some (ucast (ce_time_stamp (recs (ct_table_of st) ! unat (ct_slot st x)))))
          else (- EINVAL, None), st, w')"
  using ct_query [OF assms] .

lemma ipv6ct_query_timestamp_reads_witness:
  "\<exists>ts w'. ipa_ipv6ct_query_timestamp (sim_os ct_sim_dma) 1 (fst ct_demo_added) True (snd ct_demo_added) () =
     Some ((0, Some ts), snd ct_demo_added, w')"
proof -
  have s: "unat (ct_slot (snd ct_demo_added) (fst ct_demo_added)) < tab_sz (ct_table_of (snd ct_demo_added))"
    using ct_rules_slot ct_demo_added by (metis option.discI)
  have l: "fst (os_lock (sim_os ct_sim_dma) ()) = 0" "\<And>v. fst (os_unlock (sim_os ct_sim_dma) v) = 0"
    by (simp_all add: sim_os_def)
  show ?thesis
    using ipv6ct_query_timestamp_reads [OF conjunct1 [OF ct_demo_added] l conjunct1 [OF conjunct2 [OF ct_demo_added]]] s
    by auto
qed

text \<open>A rule call on the module before its first table, or after its table is gone, follows a null
  device pointer: the argument checks come only after the device is read.\<close>

theorem ipv6ct_rule_calls_without_table:
  assumes "ct_idle st"
  shows "ipa_ipv6ct_add_rule os h u out st w = None \<and> ipa_ipv6ct_del_rule os h x st w = None \<and>
    ipa_ipv6ct_query_timestamp os h x out st w = None \<and> ipa_ipv6ct_del_tbl os h st w = None"
  by (simp add: ct_idle_calls [OF assms])

lemma ipv6ct_rule_calls_without_table_witness:
  "ipa_ipv6ct_del_tbl (sim_os ct_sim_dma) 1 ipv6ct_initial () = None"
  by (simp add: ipv6ct_rule_calls_without_table [OF ct_idle_initial])

text \<open>When the kernel refuses to delete the table, the module is stuck: no later call changes its
  state, and no table can be created again.\<close>

theorem ipv6ct_stuck_forever:
  assumes "ct_stuck st" "ct_step os (st, w) (st', w')"
  shows "st' = st \<and> ipa_ipv6ct_add_tbl os n True st' w' = Some ((- EINVAL, if n = 0 then None else Some 0), st, w')"
  using ct_stuck_step [OF assms] assms(1) by (auto simp: ipa_ipv6ct_add_tbl_def ct_stuck_def)

lemma ipv6ct_stuck_forever_witness:
  "ipa_ipv6ct_add_tbl (sim_os ct_sim_dma) 5 True (ipv6ct_initial\<lparr>ct_desc := Some \<lparr>desc_fd = 3, desc_ver = 14\<rparr>, ct_cnt := 1\<rparr>) () =
     Some ((- EINVAL, Some 0), ipv6ct_initial\<lparr>ct_desc := Some \<lparr>desc_fd = 3, desc_ver = 14\<rparr>, ct_cnt := 1\<rparr>, ())"
proof -
  let ?st = "ipv6ct_initial\<lparr>ct_desc := Some \<lparr>desc_fd = 3, desc_ver = 14\<rparr>, ct_cnt := 1\<rparr>"
  have s: "ct_stuck ?st" by (simp add: ct_stuck_def ipv6ct_initial_def ct_table_zero_def mem_desc_zero_def)
  have "ipa_ipv6ct_add_tbl (sim_os ct_sim_dma) 0 True ?st () = Some ((- EINVAL, None), ?st, ())"
    by (simp add: ipa_ipv6ct_add_tbl_def)
  from ipv6ct_stuck_forever [OF s step_add_tbl [OF this], of 5] show ?thesis by simp
qed

end
