(* ===== verification/Ipa_Nat_Drvi.thy ===== *)
theory Ipa_Nat_Drvi
  imports Ipa_Nat_Rule
begin

text \<open>
  The IPv4 NAT driver of \<open>ipa_nat_drvi.c\<close>: one cache per kind of memory (DDR and SRAM), each with its
  rule table and index table, the table of PDNs, and the operations on them that the state machine
  and the API call.  Messages and debug output are not modelled.
\<close>

section \<open>State\<close>

text \<open>
  The array \<open>index_expn_table_meta\<close> of the C structure is the array \<open>meta\<close> of its index table: both
  pointers are set to the same allocation, so the model keeps it in the index table only.
\<close>

record ipa_nat_ip4_table_cache =
  nt_public_addr :: uint32
  nt_mem_desc :: ipa_mem_descriptor
  nt_table :: "ipa_nat_rule ipa_table"
  nt_index_table :: "ipa_nat_indx_tbl_rule ipa_table"

record ipa_nat_cache =
  nc_desc :: "ipa_descriptor option"
  nc_tbl :: "ipa_nat_ip4_table_cache list"
  nc_table_cnt :: uint8
  nc_nmi :: ipa3_nat_mem_in

text \<open>
  The static variables of the file.  \<open>active_nat_cache_ptr\<close> is the kind of memory it points to.
  \<open>Hash_token\<close> only enters sums that are cut to 16 bits, so it is kept as an unbounded integer.
\<close>

record nat_state =
  ns_cache :: "ipa3_nat_mem_in \<Rightarrow> ipa_nat_cache"
  ns_active :: "ipa3_nat_mem_in option"
  ns_pdns :: "ipa_nat_pdn_entry list"
  ns_num_pdns :: int
  ns_hash_token :: int

definition nat_table_zero :: ipa_nat_ip4_table_cache where
  "nat_table_zero = \<lparr>nt_public_addr = 0, nt_mem_desc = mem_desc_zero, nt_table = tbl_zero,
     nt_index_table = tbl_zero\<rparr>"

definition nat_initial :: nat_state where
  "nat_initial = \<lparr>ns_cache = (\<lambda>_. \<lparr>nc_desc = None, nc_tbl = replicate IPA_NAT_MAX_IP4_TBLS nat_table_zero,
       nc_table_cnt = 0, nc_nmi = IPA_NAT_MEM_IN_DDR\<rparr>),
     ns_active = None, ns_pdns = replicate IPA_MAX_PDN_NUM pdn_zero, ns_num_pdns = 0, ns_hash_token = 69\<rparr>"

definition set_cache :: "ipa3_nat_mem_in \<Rightarrow> ipa_nat_cache \<Rightarrow> nat_state \<Rightarrow> nat_state" where
  "set_cache nmi c st = st\<lparr>ns_cache := (ns_cache st)(nmi := c)\<rparr>"

definition set_tbl :: "ipa3_nat_mem_in \<Rightarrow> nat \<Rightarrow> ipa_nat_ip4_table_cache \<Rightarrow> nat_state \<Rightarrow> nat_state" where
  "set_tbl nmi i tbl st =
     set_cache nmi ((ns_cache st nmi)\<lparr>nc_tbl := (nc_tbl (ns_cache st nmi))[i := tbl]\<rparr>) st"

text \<open>The table handle: the number of the table, and in bit 31 the kind of memory.\<close>

definition MAKE_TBL_HDL :: "uint32 \<Rightarrow> ipa3_nat_mem_in \<Rightarrow> uint32" where
  "MAKE_TBL_HDL hdl mt = push_bit 31 (nmi_bit mt) OR hdl"

definition BREAK_TBL_HDL :: "uint32 \<Rightarrow> ipa3_nat_mem_in \<times> uint32" where
  "BREAK_TBL_HDL hdl_in =
     ((if drop_bit 31 hdl_in AND 1 = 0 then IPA_NAT_MEM_IN_DDR else IPA_NAT_MEM_IN_SRAM), hdl_in AND 0xFF)"

definition VALID_TBL_HDL :: "uint32 \<Rightarrow> bool" where
  "VALID_TBL_HDL h \<longleftrightarrow> h AND 0xFF = of_nat IPA_NAT_MAX_IP4_TBLS"

text \<open>The end of most operations: a failing unlock is reported unless there is an earlier error.\<close>

definition nat_unlock :: "('w, 'm) ipa_os \<Rightarrow> int \<Rightarrow> 'w \<Rightarrow> int \<times> 'w" where
  "nat_unlock os ret w =
     (let (u, w) = os_unlock os w in (if u \<noteq> 0 then (if ret \<noteq> 0 then ret else - EPERM) else ret, w))"

section \<open>Creating and destroying a table\<close>

definition ipa_nati_create_table_dma_cmd_helpers ::
    "ipa_nat_ip4_table_cache \<Rightarrow> uint8 \<Rightarrow> ipa_nat_ip4_table_cache" where
  "ipa_nati_create_table_dma_cmd_helpers nat_table table_indx =
     (let helper = (\<lambda>bt xt field. ipa_table_dma_cmd_helper_init table_indx bt xt
                      (addr_offset (nt_mem_desc nat_table) + of_nat field))
      in nat_table
        \<lparr>nt_table := (nt_table nat_table)\<lparr>dma_help := (\<lambda>ht. case ht of
             HELP_UPDATE_HEAD \<Rightarrow> Some (helper IPA_NAT_BASE_TBL IPA_NAT_EXPN_TBL IPA_NAT_RULE_FLAG_FIELD_OFFSET)
           | HELP_UPDATE_ENTRY \<Rightarrow> Some (helper IPA_NAT_BASE_TBL IPA_NAT_EXPN_TBL IPA_NAT_RULE_NEXT_FIELD_OFFSET)
           | HELP_DELETE_HEAD \<Rightarrow> Some (helper IPA_NAT_BASE_TBL IPA_NAT_EXPN_TBL IPA_NAT_RULE_PROTO_FIELD_OFFSET))\<rparr>,
         nt_index_table := (nt_index_table nat_table)\<lparr>dma_help := (\<lambda>ht. case ht of
             HELP_UPDATE_HEAD \<Rightarrow> Some (helper IPA_NAT_INDX_TBL IPA_NAT_INDEX_EXPN_TBL IPA_NAT_INDEX_RULE_NAT_INDEX_FIELD_OFFSET)
           | HELP_UPDATE_ENTRY \<Rightarrow> Some (helper IPA_NAT_INDX_TBL IPA_NAT_INDEX_EXPN_TBL IPA_NAT_INDEX_RULE_NEXT_FIELD_OFFSET)
           | HELP_DELETE_HEAD \<Rightarrow> Some (helper IPA_NAT_INDX_TBL IPA_NAT_INDEX_EXPN_TBL IPA_NAT_INDEX_RULE_NAT_INDEX_FIELD_OFFSET))\<rparr>\<rparr>)"

text \<open>
  The code without the build option \<open>IPA_ON_R3PC\<close>.  When the number of entries is refused, or the
  meta array cannot be allocated, the half-built table stays behind (its descriptor is invalid);
  when the table memory cannot be had it is cleared.
\<close>

definition nat_index_table_init ::
    "ipa_nat_rule ipa_table \<Rightarrow> ipa3_nat_mem_in \<Rightarrow> ipa_nat_indx_tbl_rule ipa_table" where
  "nat_index_table_init t nmi =
     (ipa_table_init ''IPA NAT index table'' nmi 4 (Some (replicate (unat (expn_table_entries t)) 0)) 2)
       \<lparr>table_entries := table_entries t, expn_table_entries := expn_table_entries t,
        tot_tbl_ents := tot_tbl_ents t\<rparr>"

definition ipa_nati_create_table ::
    "('w, 'm) ipa_os \<Rightarrow> ipa_nat_cache \<Rightarrow> ipa_nat_ip4_table_cache \<Rightarrow> uint32 \<Rightarrow> uint16 \<Rightarrow> uint8 \<Rightarrow> 'w \<Rightarrow>
     ((int \<times> ipa_nat_ip4_table_cache) \<times> 'w) option" where
  "ipa_nati_create_table os cache nat_table public_ip_addr number_of_entries tbl_index w =
     (let nmi = nc_nmi cache;
          (ret, t) = ipa_table_calculate_entries_num (ipa_table_init ''IPA NAT table'' nmi 32 None 0)
            number_of_entries nmi;
          nat_table = nat_table\<lparr>nt_public_addr := public_ip_addr, nt_table := t\<rparr>
      in if ret \<noteq> 0 then Some ((ret, nat_table), w)
      else
        let (ok, w) = os_calloc os (unat (expn_table_entries t)) w in
        if \<not> ok then Some ((- ENOMEM, nat_table), w)
        else do {
          let ix = nat_index_table_init t nmi;
          let nat_table = nat_table\<lparr>nt_index_table := ix\<rparr>;
          let sz = ipa_table_calculate_size t + ipa_table_calculate_size ix;
          let md = ipa_mem_descriptor_init (nt_mem_desc nat_table) ''ipaNatTable'' sz tbl_index NAT_TABLE_DEV True;
          desc \<leftarrow> nc_desc cache;
          let ((ret, md), w) = ipa_mem_descriptor_allocate_memory os md (desc_fd desc) w;
          if ret \<noteq> 0 then Some ((ret, nat_table_zero), w)
          else
            let (t, addr) = ipa_table_calculate_addresses t (base_addr md);
                (ix, _) = ipa_table_calculate_addresses ix addr;
                t = ipa_table_reset nat_rule_zero t;
                ix = ipa_table_reset nat_indx_zero ix
            in Some ((0, ipa_nati_create_table_dma_cmd_helpers
                 (nat_table\<lparr>nt_mem_desc := md, nt_table := t, nt_index_table := ix\<rparr>) tbl_index), w)
        })"

definition ipa_nati_destroy_table ::
    "('w, 'm) ipa_os \<Rightarrow> ipa_nat_cache \<Rightarrow> ipa_nat_ip4_table_cache \<Rightarrow> 'w \<Rightarrow>
     ((int \<times> ipa_nat_ip4_table_cache) \<times> 'w) option" where
  "ipa_nati_destroy_table os cache nat_table w =
     do {
       desc \<leftarrow> nc_desc cache;
       let ((ret, _), w) = ipa_mem_descriptor_delete os (nt_mem_desc nat_table) (desc_fd desc) w;
       Some ((ret, nat_table_zero), w)
     }"

section \<open>Requests to the hardware\<close>

definition ipa_nati_post_ipv4_init_cmd ::
    "('w, 'm) ipa_os \<Rightarrow> ipa_nat_cache \<Rightarrow> ipa_nat_ip4_table_cache \<Rightarrow> uint8 \<Rightarrow> bool \<Rightarrow> 'w \<Rightarrow> (int \<times> 'w) option" where
  "ipa_nati_post_ipv4_init_cmd os cache nat_table tbl_index focus_change w =
     do {
       desc \<leftarrow> nc_desc cache;
       let t = nt_table nat_table;
       let ix = nt_index_table nat_table;
       let rules = addr_offset (nt_mem_desc nat_table);
       let expn = rules + ucast (table_entries t) * 32;
       let index = expn + ucast (expn_table_entries t) * 32;
       let index_expn = index + ucast (table_entries ix) * 4;
       Some (os_v4_init_nat os (desc_fd desc)
         \<lparr>v4i_tbl_index = tbl_index, v4i_ipv4_rules_offset = rules, v4i_expn_rules_offset = expn,
          v4i_index_offset = index, v4i_index_expn_offset = index_expn,
          v4i_table_entries = table_entries t - 1, v4i_expn_table_entries = expn_table_entries t,
          v4i_ip_addr = nt_public_addr nat_table, v4i_mem_type = nc_nmi cache,
          v4i_focus_change = focus_change\<rparr> w)
     }"

text \<open>The memory the hardware writes: the number of base slots, the rules and the index records.\<close>

type_synonym nat_memory = "uint16 \<times> ipa_nat_rule list \<times> ipa_nat_indx_tbl_rule list"

definition ipa_nati_post_ipv4_dma_cmd ::
    "('w, nat_memory) ipa_os \<Rightarrow> ipa_nat_cache \<Rightarrow> ipa_ioc_nat_dma_cmd \<Rightarrow> ipa_nat_ip4_table_cache \<Rightarrow> 'w \<Rightarrow>
     ((int \<times> ipa_nat_ip4_table_cache) \<times> 'w) option" where
  "ipa_nati_post_ipv4_dma_cmd os cache cmd nat_table w =
     do {
       desc \<leftarrow> nc_desc cache;
       let t = nt_table nat_table;
       let ix = nt_index_table nat_table;
       let ((ret, m), w) = os_dma os (desc_fd desc) (cmd\<lparr>dma_mem_type := nc_nmi cache\<rparr>)
             (table_entries t, recs t, recs ix) w;
       let nat_table = nat_table\<lparr>nt_table := t\<lparr>recs := fst (snd m)\<rparr>, nt_index_table := ix\<lparr>recs := snd (snd m)\<rparr>\<rparr>;
       Some ((if ret \<noteq> 0 then - EIO else 0, nat_table), w)
     }"

section \<open>PDNs\<close>

definition ipa_nati_modify_pdn ::
    "('w, 'm) ipa_os \<Rightarrow> ipa_ioc_nat_pdn_entry \<Rightarrow> nat_state \<Rightarrow> 'w \<Rightarrow> (int \<times> nat_state \<times> 'w) option" where
  "ipa_nati_modify_pdn os entry st w =
     (let cache = (if nc_desc (ns_cache st IPA_NAT_MEM_IN_DDR) \<noteq> None then ns_cache st IPA_NAT_MEM_IN_DDR
                   else ns_cache st IPA_NAT_MEM_IN_SRAM)
      in case nc_desc cache of
           None \<Rightarrow> Some (- EIO, st, w)
         | Some desc \<Rightarrow>
           let (ret, w) = os_modify_pdn os (desc_fd desc) entry w in
           if ret \<noteq> 0 then Some (ret, st, w)
           else do {
             pdns \<leftarrow> arr_put (ns_pdns st) (unat (pd_pdn_index entry))
               \<lparr>pdn_public_ip = pd_public_ip entry, pdn_src_metadata = pd_src_metadata entry,
                pdn_dst_metadata = pd_dst_metadata entry\<rparr>;
             Some (0, st\<lparr>ns_pdns := pdns\<rparr>, w)
           })"

text \<open>The result of a search through \<open>pdns\<close>, whose last slot is never looked at.\<close>

fun pdn_index_of :: "uint32 \<Rightarrow> ipa_nat_pdn_entry list \<Rightarrow> nat \<Rightarrow> nat option" where
  "pdn_index_of ip [] i = None"
| "pdn_index_of ip (p # ps) i = (if pdn_public_ip p = ip then Some i else pdn_index_of ip ps (Suc i))"

definition ipa_nati_get_pdn_index :: "uint32 \<Rightarrow> nat_state \<Rightarrow> int \<times> uint8 option" where
  "ipa_nati_get_pdn_index public_ip st =
     (case pdn_index_of public_ip (take (IPA_MAX_PDN_NUM - 1) (ns_pdns st)) 0 of
        Some i \<Rightarrow> (0, Some (of_nat i)) | None \<Rightarrow> (- EIO, None))"

datatype pdn_scan_result = Pdn_Same nat | Pdn_Empty nat | Pdn_None

fun pdn_scan :: "uint32 \<Rightarrow> ipa_nat_pdn_entry list \<Rightarrow> nat \<Rightarrow> pdn_scan_result" where
  "pdn_scan ip [] i = Pdn_None"
| "pdn_scan ip (p # ps) i =
     (if pdn_public_ip p = ip then Pdn_Same i
      else if p = pdn_zero then Pdn_Empty i
      else pdn_scan ip ps (Suc i))"

definition ipa_nati_alloc_pdn ::
    "('w, 'm) ipa_os \<Rightarrow> ipa_nat_pdn_entry \<Rightarrow> nat_state \<Rightarrow> 'w \<Rightarrow>
     ((int \<times> uint8 option) \<times> nat_state \<times> 'w) option" where
  "ipa_nati_alloc_pdn os pdn_info st w =
     (if ns_num_pdns st \<ge> int IPA_MAX_PDN_NUM - 1 then Some ((- EIO, None), st, w)
      else case pdn_scan (pdn_public_ip pdn_info) (take (IPA_MAX_PDN_NUM - 1) (ns_pdns st)) 0 of
        Pdn_Same i \<Rightarrow> Some ((0, Some (of_nat i)), st, w)
      | Pdn_None \<Rightarrow> Some ((- EIO, None), st, w)
      | Pdn_Empty i \<Rightarrow> do {
          (ret, st, w) \<leftarrow> ipa_nati_modify_pdn os
            \<lparr>pd_pdn_index = of_nat i, pd_public_ip = pdn_public_ip pdn_info,
             pd_src_metadata = pdn_src_metadata pdn_info, pd_dst_metadata = pdn_dst_metadata pdn_info\<rparr> st w;
          if ret = 0 then Some ((0, Some (of_nat i)), st\<lparr>ns_num_pdns := ns_num_pdns st + 1\<rparr>, w)
          else Some ((ret, None), st, w)
        })"

definition ipa_nati_get_pdn_cnt :: "nat_state \<Rightarrow> int" where
  "ipa_nati_get_pdn_cnt st = ns_num_pdns st"

definition ipa_nati_dealloc_pdn ::
    "('w, 'm) ipa_os \<Rightarrow> uint8 \<Rightarrow> nat_state \<Rightarrow> 'w \<Rightarrow> (int \<times> nat_state \<times> 'w) option" where
  "ipa_nati_dealloc_pdn os pdn_index st w =
     (if ns_num_pdns st = 0 then Some (- EIO, st, w)
      else do {
        p \<leftarrow> arr_get (ns_pdns st) (unat pdn_index);
        if p = pdn_zero then Some (- EIO, st, w)
        else do {
          (ret, st, w) \<leftarrow> ipa_nati_modify_pdn os
            \<lparr>pd_pdn_index = pdn_index, pd_public_ip = 0, pd_src_metadata = 0, pd_dst_metadata = 0\<rparr> st w;
          if ret \<noteq> 0 then Some (- EIO, st, w)
          else do {
            pdns \<leftarrow> arr_put (ns_pdns st) (unat pdn_index) pdn_zero;
            Some (0, st\<lparr>ns_pdns := pdns, ns_num_pdns := ns_num_pdns st - 1\<rparr>, w)
          }
        }
      })"

end
