(* ===== verification/Ipa_Nat_Rule_Props.thy ===== *)
theory Ipa_Nat_Rule_Props
  imports Ipa_Nat_Drvi
begin

text \<open>
  The properties of the parts of a NAT rule: the checksum differences it carries for the hardware,
  the range of the hashes, and the table handles.
\<close>

section \<open>Checksum differences\<close>

lemma unat_low16: "unat (x AND 0xFFFF :: uint32) = unat x mod 65536"
proof -
  have "x AND 0xFFFF = take_bit 16 x" by (simp add: take_bit_eq_mask mask_eq_exp_minus_1)
  then show ?thesis by (simp add: unsigned_take_bit_eq take_bit_nat_def)
qed

lemma unat_high16: "unat (drop_bit 16 x :: uint32) = unat x div 65536"
  by (simp add: unat_drop_bit_eq drop_bit_nat_def)

text \<open>One addition with an end-around carry.\<close>

definition oc_add :: "nat \<Rightarrow> nat \<Rightarrow> nat" where
  "oc_add a b = (if a + b < 65536 then a + b else a + b - 65535)"

lemma oc_add_facts:
  assumes "a < 65536" "b < 65536"
  shows "oc_add a b < 65536" "int (oc_add a b) mod 65535 = (int a + int b) mod 65535"
    "oc_add a b = 0 \<longleftrightarrow> a = 0 \<and> b = 0"
proof -
  show "oc_add a b < 65536" "oc_add a b = 0 \<longleftrightarrow> a = 0 \<and> b = 0" using assms by (auto simp: oc_add_def)
  have "int a + int b = int (oc_add a b) \<or> int a + int b = int (oc_add a b) + 65535"
    using assms by (auto simp: oc_add_def of_nat_diff)
  then show "int (oc_add a b) mod 65535 = (int a + int b) mod 65535" by auto
qed

lemma cksum_step:
  fixes x y :: uint32
  assumes "unat x < 65536" "unat y < 65536"
  shows "unat (cksum_carry (x + y)) = oc_add (unat x) (unat y)"
proof -
  have s: "unat (x + y) = unat x + unat y" using assms by (intro unat_add_lem [THEN iffD1]) simp
  have d: "drop_bit 16 (x + y) \<noteq> 0 \<longleftrightarrow> 65536 \<le> unat x + unat y"
  proof -
    have "drop_bit 16 (x + y) = 0 \<longleftrightarrow> unat (drop_bit 16 (x + y)) = 0" by (simp only: unat_eq_0)
    then show ?thesis by (simp add: unat_high16 s div_eq_0_iff not_less)
  qed
  show ?thesis
  proof (cases "65536 \<le> unat x + unat y")
    case True
    have m: "unat ((x + y) AND 0xFFFF) = unat x + unat y - 65536"
      using assms True by (simp add: unat_low16 s le_mod_geq)
    have "unat (((x + y) AND 0xFFFF) + 1) = unat ((x + y) AND 0xFFFF) + unat (1 :: uint32)"
      by (rule unat_add_lem [THEN iffD1]) (use m assms in simp)
    then show ?thesis using True d m assms by (simp add: cksum_carry_def oc_add_def)
  next
    case False
    then show ?thesis using d s by (simp add: cksum_carry_def oc_add_def)
  qed
qed

lemma unat_not: "unat (NOT x :: uint32) = 4294967295 - unat x"
proof -
  have "NOT x = - 1 - x" by (simp add: not_eq_complement)
  moreover have "unat (- 1 - x) = unat (- 1 :: uint32) - unat x" by (rule unat_sub) simp
  moreover have "unat (- 1 :: uint32) = 4294967295" by (simp add: unsigned_minus_1_eq_mask mask_eq_exp_minus_1)
  ultimately show ?thesis by simp
qed

lemma not_halves:
  fixes x :: uint32
  shows "unat (NOT x AND 0xFFFF) = 65535 - unat x mod 65536" "unat (drop_bit 16 (NOT x)) = 65535 - unat x div 65536"
proof -
  have l: "unat x < 4294967296" using unsigned_less [of x, where 'a = nat] by simp
  define a b where "a = unat x div 65536" and "b = unat x mod 65536"
  have x: "unat x = a * 65536 + b" and b: "b < 65536" and a: "a < 65536"
    using l by (simp_all add: a_def b_def)
  have n: "4294967295 - unat x = (65535 - a) * 65536 + (65535 - b)" using a b by (simp add: x algebra_simps)
  have m: "65535 - b < 65536" by simp
  show "unat (NOT x AND 0xFFFF) = 65535 - unat x mod 65536" "unat (drop_bit 16 (NOT x)) = 65535 - unat x div 65536"
    unfolding unat_low16 unat_high16 unat_not n using m by (simp_all add: a_def [symmetric] b_def [symmetric])
qed

text \<open>The addition of a list of 16-bit numbers, one after the other.\<close>

definition oc_sum :: "nat list \<Rightarrow> nat" where
  "oc_sum xs = foldl oc_add 0 xs"

lemma oc_sum_facts:
  assumes "\<forall>x \<in> set xs. x < 65536"
  shows "oc_sum xs < 65536" "int (oc_sum xs) mod 65535 = int (sum_list xs) mod 65535"
    "oc_sum xs = 0 \<longleftrightarrow> (\<forall>x \<in> set xs. x = 0)"
proof -
  have "a < 65536 \<Longrightarrow> foldl oc_add a xs < 65536 \<and>
      int (foldl oc_add a xs) mod 65535 = (int a + int (sum_list xs)) mod 65535 \<and>
      (foldl oc_add a xs = 0 \<longleftrightarrow> a = 0 \<and> (\<forall>x \<in> set xs. x = 0))" for a
    using assms
  proof (induction xs arbitrary: a)
    case (Cons x xs)
    note F = oc_add_facts [OF Cons.prems(1), of x]
    have x: "x < 65536" using Cons.prems(2) by simp
    have "(int (oc_add a x) + int (sum_list xs)) mod 65535 = (int a + int (sum_list (x # xs))) mod 65535"
      using F(2) [OF x] by (metis (no_types, opaque_lifting) add.assoc mod_add_left_eq of_nat_add sum_list.Cons)
    then show ?case using Cons.IH [OF F(1) [OF x]] Cons.prems(2) F(3) [OF x] by auto
  qed simp
  from this [of 0] show "oc_sum xs < 65536" "int (oc_sum xs) mod 65535 = int (sum_list xs) mod 65535"
    "oc_sum xs = 0 \<longleftrightarrow> (\<forall>x \<in> set xs. x = 0)"
    by (auto simp: oc_sum_def)
qed

lemma oc_add_0: "b < 65536 \<Longrightarrow> oc_add 0 b = b"
  by (simp add: oc_add_def)

lemma cut16: "unat (x :: uint32) < 65536 \<Longrightarrow> unat (ucast x :: uint16) = unat x"
  by (simp add: unsigned_ucast_eq take_bit_nat_def)

lemma half_bounds:
  "unat (x AND 0xFFFF :: uint32) < 65536" "unat (drop_bit 16 x :: uint32) < 65536" "unat (ucast (p :: uint16) :: uint32) < 65536"
proof -
  show "unat (x AND 0xFFFF) < 65536" by (simp add: unat_low16)
  show "unat (drop_bit 16 x) < 65536" using unsigned_less [of x, where 'a = nat] by (simp add: unat_high16)
  show "unat (ucast p :: uint32) < 65536" using unsigned_less [of p, where 'a = nat] by (simp add: unsigned_ucast_eq take_bit_nat_def)
qed

lemmas cksum_simps = cksum_step oc_add_facts(1) cut16 half_bounds

lemma ip_cksum_sum:
  "unat (ipa_nati_calc_ip_cksum pub priv) =
     oc_sum [unat (pub AND 0xFFFF), unat (drop_bit 16 pub), unat (NOT priv AND 0xFFFF), unat (drop_bit 16 (NOT priv))]"
  by (simp add: ipa_nati_calc_ip_cksum_def Let_def cksum_simps oc_sum_def oc_add_0)

lemma tcp_udp_cksum_sum:
  "unat (ipa_nati_calc_tcp_udp_cksum pub pport priv vport) =
     oc_sum [unat (pub AND 0xFFFF), unat (drop_bit 16 pub), unat (ucast pport :: uint32), unat (NOT priv AND 0xFFFF),
       unat (drop_bit 16 (NOT priv)), unat (ucast (NOT vport) :: uint32)]"
  by (simp add: ipa_nati_calc_tcp_udp_cksum_def Let_def cksum_simps oc_sum_def oc_add_0)

text \<open>The halves of an address add up to it modulo 65535, those of its complement to its negation.\<close>

lemma halves_mod:
  fixes x :: uint32
  shows "(int (unat (x AND 0xFFFF)) + int (unat (drop_bit 16 x))) mod 65535 = uint x mod 65535"
    "(int (unat (NOT x AND 0xFFFF)) + int (unat (drop_bit 16 (NOT x)))) mod 65535 = (- uint x) mod 65535"
proof -
  define a b where "a = int (unat x div 65536)" and "b = int (unat x mod 65536)"
  have x: "uint x = 65536 * a + b"
    unfolding a_def b_def uint_nat by (metis mult_div_mod_eq of_nat_add of_nat_mult of_nat_numeral)
  have l: "unat x < 4294967296" using unsigned_less [of x, where 'a = nat] by simp
  have a: "unat x div 65536 \<le> 65535" using l by simp
  have "(b + a) mod 65535 = (b + a + 65535 * a) mod 65535" by (rule mod_mult_self2 [symmetric])
  then show "(int (unat (x AND 0xFFFF)) + int (unat (drop_bit 16 x))) mod 65535 = uint x mod 65535"
    by (simp add: unat_low16 unat_high16 a_def [symmetric] b_def [symmetric] x algebra_simps)
  have "int (unat (NOT x AND 0xFFFF)) + int (unat (drop_bit 16 (NOT x))) = (65535 - b) + (65535 - a)"
    using a by (simp add: not_halves of_nat_diff a_def b_def)
  also have "\<dots> = - uint x + 65535 * (2 + a)" by (simp add: x)
  finally show "(int (unat (NOT x AND 0xFFFF)) + int (unat (drop_bit 16 (NOT x)))) mod 65535 = (- uint x) mod 65535"
    by (metis mod_mult_self2)
qed

lemma not_port: "unat (ucast (NOT p :: uint16) :: uint32) = 65535 - unat p"
proof -
  have "NOT p = - 1 - p" by (simp add: not_eq_complement)
  moreover have "unat (- 1 - p) = unat (- 1 :: uint16) - unat p" by (rule unat_sub) simp
  moreover have "unat (- 1 :: uint16) = 65535" by (simp add: unsigned_minus_1_eq_mask mask_eq_exp_minus_1)
  moreover have "unat (ucast (NOT p) :: uint32) = unat (NOT p)"
    using unsigned_less [of "NOT p", where 'a = nat] by (simp add: unsigned_ucast_eq take_bit_nat_def)
  ultimately show ?thesis by simp
qed

lemma halves_zero:
  "unat (x AND 0xFFFF :: uint32) = 0 \<and> unat (drop_bit 16 x) = 0 \<longleftrightarrow> x = 0"
  "unat (NOT x AND 0xFFFF :: uint32) = 0 \<and> unat (drop_bit 16 (NOT x)) = 0 \<longleftrightarrow> x = 0xFFFFFFFF"
proof -
  have *: "unat (y AND 0xFFFF :: uint32) = 0 \<and> unat (drop_bit 16 y) = 0 \<longleftrightarrow> y = 0" for y :: uint32
  proof
    assume "unat (y AND 0xFFFF) = 0 \<and> unat (drop_bit 16 y) = 0"
    then have "unat y mod 65536 = 0" "unat y div 65536 = 0" by (simp_all add: unat_low16 [symmetric] unat_high16 [symmetric])
    then have "unat y = 0" by (metis add.right_neutral mult_0_right mult_div_mod_eq)
    then show "y = 0" by (simp add: unat_eq_0)
  qed simp
  then show "unat (x AND 0xFFFF :: uint32) = 0 \<and> unat (drop_bit 16 x) = 0 \<longleftrightarrow> x = 0" .
  have "NOT x = 0 \<longleftrightarrow> x = 0xFFFFFFFF" 
  proof
    assume "NOT x = 0"
    then have "NOT (NOT x) = NOT 0" by (rule arg_cong)
    then show "x = 0xFFFFFFFF" by simp
  qed simp
  then show "unat (NOT x AND 0xFFFF :: uint32) = 0 \<and> unat (drop_bit 16 (NOT x)) = 0 \<longleftrightarrow> x = 0xFFFFFFFF"
    using * [of "NOT x"] by simp
qed

section \<open>Properties\<close>

text \<open>The IP checksum difference a rule carries for the hardware is the public minus the private
  address in the ones' complement arithmetic of Internet checksums, in which 0 and 65535 are one
  number; of its two forms, 0 is only used when every term of the sum is 0.\<close>

theorem ip_cksum_difference:
  "uint (ipa_nati_calc_ip_cksum pub priv) mod 65535 = (uint pub - uint priv) mod 65535 \<and>
   (ipa_nati_calc_ip_cksum pub priv = 0 \<longleftrightarrow> pub = 0 \<and> priv = 0xFFFFFFFF)"
proof -
  let ?xs = "[unat (pub AND 0xFFFF), unat (drop_bit 16 pub), unat (NOT priv AND 0xFFFF), unat (drop_bit 16 (NOT priv))]"
  have b: "\<forall>x \<in> set ?xs. x < 65536" using half_bounds(1,2) by simp
  have u: "uint (ipa_nati_calc_ip_cksum pub priv) = int (oc_sum ?xs)" by (simp only: uint_nat ip_cksum_sum)
  have s: "int (sum_list ?xs) = (int (unat (pub AND 0xFFFF)) + int (unat (drop_bit 16 pub))) +
      (int (unat (NOT priv AND 0xFFFF)) + int (unat (drop_bit 16 (NOT priv))))" by simp
  have "int (sum_list ?xs) mod 65535 = (uint pub + - uint priv) mod 65535"
    unfolding s by (rule mod_add_cong [OF halves_mod])
  moreover have "ipa_nati_calc_ip_cksum pub priv = 0 \<longleftrightarrow> oc_sum ?xs = 0"
    by (simp only: ip_cksum_sum [symmetric] unat_eq_0)
  ultimately show ?thesis
    using oc_sum_facts(2,3) [OF b] halves_zero(1) [of pub] halves_zero(2) [of priv] u by auto
qed

text \<open>The TCP/UDP checksum difference is the same for addresses and ports together.\<close>

theorem tcp_udp_cksum_difference:
  "uint (ipa_nati_calc_tcp_udp_cksum pub pport priv vport) mod 65535 =
     (uint pub + uint pport - uint priv - uint vport) mod 65535 \<and>
   (ipa_nati_calc_tcp_udp_cksum pub pport priv vport = 0 \<longleftrightarrow>
     pub = 0 \<and> pport = 0 \<and> priv = 0xFFFFFFFF \<and> vport = 0xFFFF)"
proof -
  let ?xs = "[unat (pub AND 0xFFFF), unat (drop_bit 16 pub), unat (ucast pport :: uint32), unat (NOT priv AND 0xFFFF),
       unat (drop_bit 16 (NOT priv)), unat (ucast (NOT vport) :: uint32)]"
  have b: "\<forall>x \<in> set ?xs. x < 65536" using half_bounds by simp
  have u: "uint (ipa_nati_calc_tcp_udp_cksum pub pport priv vport) = int (oc_sum ?xs)" by (simp only: uint_nat tcp_udp_cksum_sum)
  have "unat vport < 65536" using unsigned_less [of vport, where 'a = nat] by simp
  then have vp: "unat vport \<le> 65535" by linarith
  have pp: "unat (ucast pport :: uint32) = unat pport"
    using unsigned_less [of pport, where 'a = nat] by (simp add: unsigned_ucast_eq take_bit_nat_def)
  have s: "int (sum_list ?xs) = (int (unat (pub AND 0xFFFF)) + int (unat (drop_bit 16 pub))) +
      (int (unat (NOT priv AND 0xFFFF)) + int (unat (drop_bit 16 (NOT priv)))) + (uint pport - uint vport + 65535)"
    using vp by (simp only: pp not_port sum_list.Cons sum_list.Nil) (simp add: of_nat_diff)
  have "int (sum_list ?xs) mod 65535 = (uint pub + - uint priv + (uint pport - uint vport + 65535)) mod 65535"
    unfolding s by (intro mod_add_cong halves_mod refl)
  also have "\<dots> = (uint pub + uint pport - uint priv - uint vport + 65535) mod 65535" by (simp add: algebra_simps)
  also have "\<dots> = (uint pub + uint pport - uint priv - uint vport) mod 65535" by (rule mod_add_self2)
  finally have m: "int (sum_list ?xs) mod 65535 = (uint pub + uint pport - uint priv - uint vport) mod 65535" .
  have "65535 - unat vport = 0 \<longleftrightarrow> unat vport = unat (0xFFFF :: uint16)" using vp by simp
  then have v: "65535 - unat vport = 0 \<longleftrightarrow> vport = 0xFFFF" by (simp only: word_unat_eq_iff)
  have "ipa_nati_calc_tcp_udp_cksum pub pport priv vport = 0 \<longleftrightarrow> oc_sum ?xs = 0"
    by (simp only: tcp_udp_cksum_sum [symmetric] unat_eq_0)
  also have "\<dots> \<longleftrightarrow> pub = 0 \<and> pport = 0 \<and> priv = 0xFFFFFFFF \<and> vport = 0xFFFF"
    unfolding oc_sum_facts(3) [OF b] using halves_zero [of pub] halves_zero [of priv] v
    by (simp only: list.set ball_simps insert_iff pp not_port) (auto simp: unat_eq_0)
  finally show ?thesis using oc_sum_facts(2) [OF b] m u by simp
qed

end
