(* ===== verification/Ipa_Nat_Tables.thy ===== *)
theory Ipa_Nat_Tables
  imports Ipa_Table_Marked Ipa_Nat_Drvi
begin

text \<open>
  The two NAT tables as instances of the generic table: the layout of their records in the memory the
  hardware writes, and the laws of the table interface for the callbacks of the rule table and of
  the index table.
\<close>

section \<open>The rule table\<close>

text \<open>
  Byte 18 of a rule holds the flags (bit 15 enable, 14 redirect, 13 s, the others the activation
  index), byte 22 the top of the time stamp and the protocol, byte 8 the next index.
\<close>

definition nat_fw :: "ipa_nat_rule \<Rightarrow> nat \<Rightarrow> uint16 \<Rightarrow> ipa_nat_rule option" where
  "nat_fw e byte d =
     (if byte = IPA_NAT_RULE_FLAG_FIELD_OFFSET then
        Some (e\<lparr>nr_uc_activation_index := ucast d, nr_s := bit d 13, nr_redirect := bit d 14, nr_enable := bit d 15\<rparr>)
      else if byte = IPA_NAT_RULE_PROTO_FIELD_OFFSET then
        Some (e\<lparr>nr_time_stamp := (nr_time_stamp e AND 0xFFFF) OR push_bit 16 (ucast (d AND 0xFF)),
                nr_protocol := ucast (drop_bit 8 d)\<rparr>)
      else if byte = IPA_NAT_RULE_NEXT_FIELD_OFFSET then Some (e\<lparr>nr_next_index := d\<rparr>)
      else None)"

fun nat_off :: "dma_help_type \<Rightarrow> nat" where
  "nat_off HELP_UPDATE_HEAD = IPA_NAT_RULE_FLAG_FIELD_OFFSET"
| "nat_off HELP_UPDATE_ENTRY = IPA_NAT_RULE_NEXT_FIELD_OFFSET"
| "nat_off HELP_DELETE_HEAD = IPA_NAT_RULE_PROTO_FIELD_OFFSET"

text \<open>
  What a rule says: all fields but its links and those the hardware maintains.  A free record must
  carry neither a transport checksum nor an index entry, because insertion does not always set them.
\<close>

definition nat_key :: "ipa_nat_rule \<Rightarrow> ipa_nat_rule" where
  "nat_key e = e\<lparr>nr_redirect := False, nr_enable := False, nr_time_stamp := 0, nr_next_index := 0,
     nr_prev_index := 0\<rparr>"

definition nat_ukey :: "nat_user \<Rightarrow> ipa_nat_rule" where
  "nat_ukey u = snd (the (nat_table_entry_copy_from_user nat_rule_zero u))"

definition nat_clean :: "ipa_nat_rule \<Rightarrow> bool" where
  "nat_clean e \<longleftrightarrow> nr_tcp_udp_chksum e = 0 \<and> nr_indx_tbl_entry e = 0"

definition nat_good :: "nat_user \<Rightarrow> bool" where
  "nat_good u \<longleftrightarrow> unat (v4_pdn_index (snd u)) < length (fst u)"

definition nat_ready :: "ipa_nat_rule \<Rightarrow> uint16 \<Rightarrow> nat_user \<Rightarrow> bool" where
  "nat_ready e d u \<longleftrightarrow> d = ipa_nat_flags True (nr_s e) (nr_uc_activation_index e) \<and> nat_key e = nat_ukey u"

definition nat_delk :: "ipa_nat_rule \<Rightarrow> ipa_nat_rule \<Rightarrow> ipa_nat_rule" where
  "nat_delk k n = k\<lparr>nr_protocol := IPAHAL_NAT_INVALID_PROTOCOL\<rparr>"

lemmas nat_callbacks = nat_entry_interface_def nat_table_entry_is_valid_def nat_table_entry_get_next_index_def
  nat_table_entry_get_prev_index_def nat_table_entry_set_prev_index_def nat_table_entry_head_insert_def
  nat_table_entry_tail_insert_def nat_table_entry_get_delete_head_dma_command_data_def

lemma nat_iface_simps [simp]:
  "entry_is_valid nat_entry_interface e = nr_enable e"
  "entry_get_next_index nat_entry_interface e = nr_next_index e"
  "entry_get_prev_index nat_entry_interface e i m te = Some (nr_prev_index e)"
  "entry_set_prev_index nat_entry_interface e i p m te = Some (e\<lparr>nr_prev_index := p\<rparr>, m)"
  "entry_head_insert nat_entry_interface e u = nat_table_entry_head_insert e u"
  "entry_tail_insert nat_entry_interface e u = nat_table_entry_tail_insert e u"
  "entry_get_delete_head_dma_command_data nat_entry_interface c x = IPA_NAT_INVALID_PROTO_FIELD_VALUE"
  "same_links nat_entry_interface e e' \<longleftrightarrow> nr_next_index e' = nr_next_index e \<and> nr_prev_index e' = nr_prev_index e"
  by (simp_all add: nat_entry_interface_def nat_table_entry_is_valid_def nat_table_entry_get_next_index_def
      nat_table_entry_get_prev_index_def nat_table_entry_set_prev_index_def same_links_def
      nat_table_entry_get_delete_head_dma_command_data_def)

lemma nat_copy_key:
  assumes "nat_clean e" "nat_good u"
  shows "\<exists>e'. nat_table_entry_copy_from_user e u = Some (0, e') \<and> nat_key e' = nat_ukey u \<and>
    nr_enable e' = nr_enable e \<and> nr_next_index e' = nr_next_index e \<and> nr_prev_index e' = nr_prev_index e"
  using assms
  by (cases u)
    (auto simp: nat_good_def nat_table_entry_copy_from_user_def nat_ukey_def nat_key_def nat_clean_def nat_rule_zero_def
      arr_get_def Let_def intro!: ipa_nat_rule.equality)

lemma nat_head_insert_good:
  assumes "nat_clean e" "nat_good u"
  shows "\<exists>e' d. nat_table_entry_head_insert e u = Some (0, e', d) \<and> nat_ready e' d u \<and>
    nr_enable e' = nr_enable e \<and> nr_next_index e' = nr_next_index e \<and> nr_prev_index e' = nr_prev_index e"
  using nat_copy_key [OF assms] by (auto simp: nat_table_entry_head_insert_def nat_ready_def)

lemma nat_key_upd [simp]:
  "nat_key (e\<lparr>nr_next_index := n\<rparr>) = nat_key e" "nat_key (e\<lparr>nr_prev_index := n\<rparr>) = nat_key e"
  "nat_key (e\<lparr>nr_redirect := r\<rparr>) = nat_key e" "nat_key (e\<lparr>nr_enable := v\<rparr>) = nat_key e"
  "nat_key (e\<lparr>nr_time_stamp := ts\<rparr>) = nat_key e"
  by (simp_all add: nat_key_def)

text \<open>The flags carry what they were made from.\<close>

lemma nat_flags_fields:
  "bit (ipa_nat_flags v s uc) 15 = v" "bit (ipa_nat_flags v s uc) 14 = False" "bit (ipa_nat_flags v s uc) 13 = s"
  "ucast (ipa_nat_flags v s uc) = uc"
proof -
  show "bit (ipa_nat_flags v s uc) 15 = v" "bit (ipa_nat_flags v s uc) 14 = False" "bit (ipa_nat_flags v s uc) 13 = s"
    by (auto simp: ipa_nat_flags_def bit_simps dest: bit_imp_le_length)
  show "ucast (ipa_nat_flags v s uc) = uc"
    by (rule bit_word_eqI) (auto simp: ipa_nat_flags_def bit_simps)
qed

lemma nat_fw_enable:
  "\<exists>e'. nat_fw e 18 (ipa_nat_flags True (nr_s e) (nr_uc_activation_index e)) = Some e' \<and> nr_enable e' \<and>
    nat_key e' = nat_key e \<and> nr_next_index e' = nr_next_index e \<and> nr_prev_index e' = nr_prev_index e"
  by (simp add: nat_fw_def nat_flags_fields nat_key_def)

interpretation natt: table_iface nat_entry_interface nat_rule_zero nat_fw 32 IPA_NAT_BASE_TBL
    IPA_NAT_EXPN_TBL nat_off False nat_clean nat_good nat_ready nat_key nat_ukey nat_delk
proof (unfold_locales, goal_cases)
  case (4 ht) then show ?case by (cases ht) simp_all
next
  case (10 e d u) then show ?case using nat_fw_enable [of e] by (auto simp: nat_ready_def)
next
  case (13 e u) then show ?case using nat_head_insert_good by simp
qed (auto simp: nat_fw_def nat_rule_zero_def nat_delk_def nat_ready_def nat_key_def)

section \<open>The index table\<close>

definition idx_fw :: "ipa_nat_indx_tbl_rule \<Rightarrow> nat \<Rightarrow> uint16 \<Rightarrow> ipa_nat_indx_tbl_rule option" where
  "idx_fw e byte d =
     (if byte = IPA_NAT_INDEX_RULE_NAT_INDEX_FIELD_OFFSET then Some (e\<lparr>ix_tbl_entry := d\<rparr>)
      else if byte = IPA_NAT_INDEX_RULE_NEXT_FIELD_OFFSET then Some (e\<lparr>ix_next_index := d\<rparr>)
      else None)"

fun idx_off :: "dma_help_type \<Rightarrow> nat" where
  "idx_off HELP_UPDATE_HEAD = IPA_NAT_INDEX_RULE_NAT_INDEX_FIELD_OFFSET"
| "idx_off HELP_UPDATE_ENTRY = IPA_NAT_INDEX_RULE_NEXT_FIELD_OFFSET"
| "idx_off HELP_DELETE_HEAD = IPA_NAT_INDEX_RULE_NAT_INDEX_FIELD_OFFSET"

definition idx_good :: "uint16 \<Rightarrow> bool" where
  "idx_good u \<longleftrightarrow> u \<noteq> 0"

definition idx_ready :: "ipa_nat_indx_tbl_rule \<Rightarrow> uint16 \<Rightarrow> uint16 \<Rightarrow> bool" where
  "idx_ready e d u \<longleftrightarrow> d = u \<and> u \<noteq> 0"

lemmas idx_callbacks = index_entry_interface_def index_table_entry_is_valid_def index_table_entry_get_next_index_def
  index_table_entry_get_prev_index_def index_table_entry_set_prev_index_def index_table_entry_head_insert_def
  index_table_entry_tail_insert_def index_table_entry_get_delete_head_dma_command_data_def

lemma idx_iface_simps [simp]:
  "entry_is_valid index_entry_interface e \<longleftrightarrow> ix_tbl_entry e \<noteq> 0"
  "entry_get_next_index index_entry_interface e = ix_next_index e"
  "entry_get_prev_index index_entry_interface e i m te = index_table_entry_get_prev_index e i m te"
  "entry_set_prev_index index_entry_interface e i p m te = index_table_entry_set_prev_index e i p m te"
  "entry_head_insert index_entry_interface e u = Some (0, e, u)"
  "entry_tail_insert index_entry_interface e u = Some (0, e\<lparr>ix_tbl_entry := u\<rparr>)"
  "entry_get_delete_head_dma_command_data index_entry_interface c x = ix_tbl_entry x"
  by (simp_all add: index_entry_interface_def index_table_entry_is_valid_def index_table_entry_get_next_index_def
      index_table_entry_head_insert_def index_table_entry_tail_insert_def
      index_table_entry_get_delete_head_dma_command_data_def)

lemma idx_same_links [simp]: "same_links index_entry_interface e e' \<longleftrightarrow> ix_next_index e' = ix_next_index e"
  by (auto simp: same_links_def index_table_entry_get_prev_index_def)

lemma idx_meta_sub:
  assumes "unat te \<le> unat i" "te \<le> j"
  shows "unat (j - te) = unat (i - te) \<longleftrightarrow> j = (i :: uint16)"
  using assms by (metis add.commute diff_add_cancel word_unat_eq_iff)

lemma idx_set_prev:
  assumes "meta_fits True m n" "unat te \<le> unat i" "unat i < unat te + n"
  shows "\<exists>m'. index_table_entry_set_prev_index e i p m te = Some (e, m') \<and> meta_fits True m' n \<and>
    index_table_entry_get_prev_index e i m' te = Some p \<and>
    (\<forall>j x. j \<noteq> i \<longrightarrow> index_table_entry_get_prev_index x j m' te = index_table_entry_get_prev_index x j m te)"
proof -
  obtain xs where m: "m = Some xs" "length xs = n" using assms(1) by (auto simp: meta_fits_def split: option.splits)
  have le: "te \<le> i" using assms(2) by (simp add: word_le_nat_alt)
  then have u: "unat (i - te) = unat i - unat te" by (simp add: unat_sub)
  then have lt: "unat (i - te) < length xs" using m(2) assms(2,3) by simp
  have "unat (i - te) \<noteq> unat (j - te)" if "te \<le> j" "j \<noteq> i" for j
    using idx_meta_sub [OF assms(2) that(1)] that(2) by simp
  then show ?thesis
    using m lt le
    by (auto simp: index_table_entry_set_prev_index_def index_table_entry_get_prev_index_def arr_put_def arr_get_def
        meta_fits_def nth_list_update)
qed

interpretation idxt: table_iface index_entry_interface nat_indx_zero idx_fw 4 IPA_NAT_INDX_TBL
    IPA_NAT_INDEX_EXPN_TBL idx_off True "\<lambda>e. True" idx_good idx_ready ix_tbl_entry "\<lambda>u. u" "\<lambda>c x. x"
proof (unfold_locales, goal_cases)
  case (4 ht) then show ?case by (cases ht) simp_all
next
  case (8 m n i te e)
  then show ?case
    by (auto simp: index_table_entry_get_prev_index_def meta_fits_def arr_get_def unat_sub word_le_nat_alt
        split: option.splits)
next
  case (9 e d)
  show ?case by (auto simp: idx_fw_def index_table_entry_get_prev_index_def)
next
  case (15 m n te i e p)
  from idx_set_prev [OF this, of e p] show ?case by (auto simp: idx_ready_def)
qed (auto simp: idx_fw_def nat_indx_zero_def idx_ready_def idx_good_def index_table_entry_get_prev_index_def
    word_le_nat_alt)

section \<open>Rules that are deleted but still in their list\<close>

definition nat_dead :: "ipa_nat_rule \<Rightarrow> bool" where
  "nat_dead k \<longleftrightarrow> nr_protocol k = IPAHAL_NAT_INVALID_PROTOCOL"

interpretation natm: marked_table nat_entry_interface nat_rule_zero nat_fw 32 IPA_NAT_BASE_TBL
    IPA_NAT_EXPN_TBL nat_off False nat_clean nat_good nat_ready nat_key nat_ukey nat_delk
    nat_dead "\<lambda>te k h. True"
  by unfold_locales (simp_all add: nat_clean_def nat_rule_zero_def)

interpretation idxm: marked_table index_entry_interface nat_indx_zero idx_fw 4 IPA_NAT_INDX_TBL
    IPA_NAT_INDEX_EXPN_TBL idx_off True "\<lambda>e. True" idx_good idx_ready ix_tbl_entry "\<lambda>u. u" "\<lambda>c x. x"
    "\<lambda>k. False" "\<lambda>te k h. True"
  by unfold_locales simp_all

abbreviation "nat_linv \<equiv> tbl_inv nat_entry_interface 32 IPA_NAT_BASE_TBL IPA_NAT_EXPN_TBL nat_off False"
abbreviation "idx_linv \<equiv> tbl_inv index_entry_interface 4 IPA_NAT_INDX_TBL IPA_NAT_INDEX_EXPN_TBL idx_off True"
abbreviation "nat_hw \<equiv> hw_writes nat_fw IPA_NAT_BASE_TBL IPA_NAT_EXPN_TBL"
abbreviation "idx_hw \<equiv> hw_writes idx_fw IPA_NAT_INDX_TBL IPA_NAT_INDEX_EXPN_TBL"

text \<open>The rules by slot, with the index slot each carries; the rule slot each index slot names.\<close>

definition nat_map :: "ipa_nat_rule ipa_table \<Rightarrow> uint16 \<Rightarrow> ipa_nat_rule option" where
  "nat_map = tbl_rules nat_entry_interface nat_key nat_dead"

definition idx_map :: "ipa_nat_indx_tbl_rule ipa_table \<Rightarrow> uint16 \<Rightarrow> uint16 option" where
  "idx_map = tbl_rules index_entry_interface ix_tbl_entry (\<lambda>k. False)"

text \<open>
  The two tables refer to each other: the index slot a rule carries names the rule, and every index
  slot in use is the one its rule carries.
\<close>

definition nat_linked :: "(uint16 \<Rightarrow> ipa_nat_rule option) \<Rightarrow> (uint16 \<Rightarrow> uint16 option) \<Rightarrow> bool" where
  "nat_linked R X \<longleftrightarrow> (\<forall>x k. R x = Some k \<longrightarrow> X (nr_indx_tbl_entry k) = Some x) \<and>
     (\<forall>y x. X y = Some x \<longrightarrow> (\<exists>k. R x = Some k \<and> nr_indx_tbl_entry k = y))"

definition nat_tab_inv :: "ipa_nat_rule ipa_table \<Rightarrow> (uint16 \<Rightarrow> uint16 list) \<Rightarrow> bool" where
  "nat_tab_inv t B \<longleftrightarrow> nat_linv t B \<and> tbl_homes nat_key nat_dead (\<lambda>te k h. True) t B \<and>
     (\<forall>x. unat x < tab_sz t \<longrightarrow> \<not> tv nat_entry_interface t x \<longrightarrow> nat_clean (recs t ! unat x))"

definition nat_pair_inv :: "ipa_nat_rule ipa_table \<Rightarrow> ipa_nat_indx_tbl_rule ipa_table \<Rightarrow> bool" where
  "nat_pair_inv t ix \<longleftrightarrow> (\<exists>B. nat_tab_inv t B) \<and> (\<exists>C. idx_linv ix C) \<and>
     table_entries ix = table_entries t \<and> nat_linked (nat_map t) (idx_map ix)"

text \<open>No record of the index table is dead, so its lists are all there is to its invariant.\<close>

lemma idx_tab_inv: "idx_linv ix C \<and> tbl_homes ix_tbl_entry (\<lambda>k. False) (\<lambda>te k h. True) ix C \<and>
    (\<forall>x. unat x < tab_sz ix \<longrightarrow> \<not> tv index_entry_interface ix x \<longrightarrow> True) \<longleftrightarrow> idx_linv ix C"
  by (simp add: tbl_homes_def)

lemmas nat_marked = nat_map_def [symmetric] nat_tab_inv_def [symmetric]
lemmas idx_marked = idx_map_def [symmetric] idx_tab_inv

lemmas nat_add_generic = natm.add_step [unfolded nat_marked]
lemmas nat_remove_head = natm.remove_head [unfolded nat_marked]
lemmas nat_remove_plain = natm.remove_plain [unfolded nat_marked]
lemmas idx_add_generic = idxm.add_step [unfolded idx_marked]
lemmas idx_remove_head = idxm.remove_head [unfolded idx_marked]
lemmas idx_remove_plain = idxm.remove_plain [unfolded idx_marked]

end
