(* ===== verification/Ipa_Nat_Ops.thy ===== *)
theory Ipa_Nat_Ops
  imports Ipa_Nat_Drvi
begin

text \<open>
  The operations \<open>ipa_NATI_*\<close> of \<open>ipa_nat_drvi.c\<close> on NAT tables: creation and deletion, insertion and
  removal of rules, time stamps, clearing, walking, copying and statistics.  The result is undefined
  (\<open>None\<close>) where the code indexes \<open>ip4_tbl\<close> with the number of a handle it has not checked.
\<close>

section \<open>Tables\<close>

definition ipa_NATI_post_ipv4_init_cmd ::
    "('w, 'm) ipa_os \<Rightarrow> uint32 \<Rightarrow> nat_state \<Rightarrow> 'w \<Rightarrow> (int \<times> nat_state \<times> 'w) option" where
  "ipa_NATI_post_ipv4_init_cmd os tbl_hdl st w =
     (let (nmi, tbl_hdl) = BREAK_TBL_HDL tbl_hdl;
          cache = ns_cache st nmi;
          (l, w) = os_lock os w
      in if l \<noteq> 0 then Some (- EINVAL, st, w)
      else do {
        (ret, st, w) \<leftarrow>
          (if nc_table_cnt cache = 0 then Some (- EINVAL, st, w)
           else do {
             nat_table \<leftarrow> arr_get (nc_tbl cache) (unat (tbl_hdl - 1));
             (ret, w) \<leftarrow> ipa_nati_post_ipv4_init_cmd os cache nat_table (ucast (tbl_hdl - 1)) True w;
             if ret \<noteq> 0 then Some (ret, st, w) else Some (ret, st\<lparr>ns_active := Some nmi\<rparr>, w)
           });
        let (ret, w) = nat_unlock os ret w;
        Some (ret, st, w)
      })"

text \<open>When no table is left, the device of the cache is closed.\<close>

definition nat_close_desc :: "('w, 'm) ipa_os \<Rightarrow> ipa_nat_cache \<Rightarrow> 'w \<Rightarrow> ipa_nat_cache \<times> 'w" where
  "nat_close_desc os cache w =
     (if nc_table_cnt cache = 0 then (cache\<lparr>nc_desc := None\<rparr>, ipa_descriptor_close os (nc_desc cache) w)
      else (cache, w))"

definition ipa_NATI_add_ipv4_tbl ::
    "('w, 'm) ipa_os \<Rightarrow> ipa3_nat_mem_in \<Rightarrow> uint32 \<Rightarrow> uint16 \<Rightarrow> nat_state \<Rightarrow> 'w \<Rightarrow>
     ((int \<times> uint32) \<times> nat_state \<times> 'w) option" where
  "ipa_NATI_add_ipv4_tbl os nmi public_ip_addr number_of_entries st w =
     (let (l, w) = os_lock os w in
      if l \<noteq> 0 then Some ((- EINVAL, 0), st, w)
      else do {
        let cache = (ns_cache st nmi)\<lparr>nc_nmi := nmi\<rparr>;
        ((ret, hdl), st, w) \<leftarrow>
          (if unat (nc_table_cnt cache) \<ge> IPA_NAT_MAX_IP4_TBLS then Some ((- EINVAL, 0), set_cache nmi cache st, w)
           else
             let (desc, w) = (case nc_desc cache of None \<Rightarrow> ipa_descriptor_open os w | Some d \<Rightarrow> (Some d, w));
                 cache = cache\<lparr>nc_desc := desc\<rparr>
             in if desc = None then Some ((- EIO, 0), set_cache nmi cache st, w)
             else do {
               let i = unat (nc_table_cnt cache);
               nat_table \<leftarrow> arr_get (nc_tbl cache) i;
               ((ret, nat_table), w) \<leftarrow> ipa_nati_create_table os cache nat_table public_ip_addr
                  number_of_entries (nc_table_cnt cache) w;
               let cache = cache\<lparr>nc_tbl := (nc_tbl cache)[i := nat_table]\<rparr>;
               if ret \<noteq> 0 then
                 (let (cache, w) = nat_close_desc os cache w in Some ((ret, 0), set_cache nmi cache st, w))
               else do {
                 (ret, w) \<leftarrow> ipa_nati_post_ipv4_init_cmd os cache nat_table (nc_table_cnt cache) False w;
                 if ret \<noteq> 0 then do {
                   ((_, nat_table), w) \<leftarrow> ipa_nati_destroy_table os cache nat_table w;
                   let cache = cache\<lparr>nc_tbl := (nc_tbl cache)[i := nat_table]\<rparr>;
                   let (cache, w) = nat_close_desc os cache w;
                   Some ((ret, 0), set_cache nmi cache st, w)
                 }
                 else do {
                   p \<leftarrow> arr_get (ns_pdns st) 0;
                   let cache = cache\<lparr>nc_table_cnt := nc_table_cnt cache + 1\<rparr>;
                   let st = set_cache nmi cache
                     (st\<lparr>ns_active := Some nmi, ns_pdns := (ns_pdns st)[0 := p\<lparr>pdn_public_ip := public_ip_addr\<rparr>],
                         ns_num_pdns := 1\<rparr>);
                   Some ((0, MAKE_TBL_HDL (ucast (nc_table_cnt cache)) nmi), st, w)
                 }
               }
             });
        let (u, w) = os_unlock os w;
        Some ((if u \<noteq> 0 then - EPERM else ret, hdl), st, w)
      })"

definition ipa_NATI_del_ipv4_table ::
    "('w, 'm) ipa_os \<Rightarrow> uint32 \<Rightarrow> nat_state \<Rightarrow> 'w \<Rightarrow> (int \<times> nat_state \<times> 'w) option" where
  "ipa_NATI_del_ipv4_table os tbl_hdl st w =
     (let (nmi, tbl_hdl) = BREAK_TBL_HDL tbl_hdl;
          cache = ns_cache st nmi;
          (l, w) = os_lock os w
      in if l \<noteq> 0 then Some (- EINVAL, st, w)
      else do {
        let i = unat (tbl_hdl - 1);
        nat_table \<leftarrow> arr_get (nc_tbl cache) i;
        (ret, st, w) \<leftarrow>
          (if \<not> md_valid (nt_mem_desc nat_table) then Some (- EINVAL, st, w)
           else do {
             ((ret, nat_table), w) \<leftarrow> ipa_nati_destroy_table os cache nat_table w;
             let cache = cache\<lparr>nc_tbl := (nc_tbl cache)[i := nat_table]\<rparr>;
             if ret \<noteq> 0 then Some (ret, set_cache nmi cache st, w)
             else
               let cache = cache\<lparr>nc_table_cnt := nc_table_cnt cache - 1\<rparr>;
                   (cache, w) = nat_close_desc os cache w
               in Some (ret, set_cache nmi cache st, w)
           });
        let (ret, w) = nat_unlock os ret w;
        Some (ret, st, w)
      })"

definition ipa_NATI_query_timestamp ::
    "('w, 'm) ipa_os \<Rightarrow> uint32 \<Rightarrow> uint32 \<Rightarrow> nat_state \<Rightarrow> 'w \<Rightarrow>
     ((int \<times> uint32 option) \<times> nat_state \<times> 'w) option" where
  "ipa_NATI_query_timestamp os tbl_hdl rule_hdl st w =
     (let (nmi, tbl_hdl) = BREAK_TBL_HDL tbl_hdl; (l, w) = os_lock os w
      in if l \<noteq> 0 then Some ((- EINVAL, None), st, w)
      else do {
        nat_table \<leftarrow> arr_get (nc_tbl (ns_cache st nmi)) (unat (tbl_hdl - 1));
        (ret, ts) \<leftarrow>
          (if \<not> md_valid (nt_mem_desc nat_table) then Some (- EINVAL, None)
           else
             let (ret, entry, _) = ipa_table_get_entry (nt_table nat_table) rule_hdl in
             if ret \<noteq> 0 then Some (ret, None)
             else do {
               p \<leftarrow> entry;
               e \<leftarrow> rec_get (nt_table nat_table) p;
               Some (ret, Some (ucast (nr_time_stamp e)))
             });
        let (ret, w) = nat_unlock os ret w;
        Some ((ret, ts), st, w)
      })"

section \<open>Adding a rule\<close>

abbreviation (input) MAX_DMA_ENTRIES_FOR_ADD :: nat where "MAX_DMA_ENTRIES_FOR_ADD \<equiv> 4"
abbreviation (input) MAX_DMA_ENTRIES_FOR_DEL :: nat where "MAX_DMA_ENTRIES_FOR_DEL \<equiv> 3"

text \<open>
  The base slot of a rule whose \<open>src_only\<close> (\<open>dst_only\<close> for the index table) flag is set: its hash,
  moved by \<open>Hash_token\<close>.
\<close>

definition token_slot :: "uint16 \<Rightarrow> int \<Rightarrow> uint16 \<Rightarrow> uint16" where
  "token_slot hash token te =
     (let i = hash + of_int token; i = i AND (te - 1) in if i = 0 then te - 1 else i)"

definition nat_rule_slot ::
    "nat_state \<Rightarrow> ipa_descriptor \<Rightarrow> ipa_nat_rule ipa_table \<Rightarrow> uint32 \<Rightarrow> ipa_nat_ipv4_rule \<Rightarrow> uint16 \<times> nat_state" where
  "nat_rule_slot st desc t public_ip rule =
     (let h = dst_hash (desc_ver desc) public_ip (v4_target_ip rule) (v4_target_port rule)
                (v4_public_port rule) (v4_protocol rule) (table_entries t - 1)
      in if v4_src_only rule
         then (token_slot h (ns_hash_token st) (table_entries t), st\<lparr>ns_hash_token := ns_hash_token st + 1\<rparr>)
         else (h, st))"

definition nat_index_slot ::
    "nat_state \<Rightarrow> ipa_nat_rule ipa_table \<Rightarrow> ipa_nat_ipv4_rule \<Rightarrow> uint16 \<times> nat_state" where
  "nat_index_slot st t rule =
     (let h = src_hash (v4_private_ip rule) (v4_private_port rule) (v4_target_ip rule)
                (v4_target_port rule) (v4_protocol rule) (table_entries t - 1)
      in if v4_dst_only rule
         then (token_slot h (ns_hash_token st) (table_entries t), st\<lparr>ns_hash_token := ns_hash_token st + 1\<rparr>)
         else (h, st))"

text \<open>What the library writes into the new rule itself; a one-bit field keeps the lowest bit.\<close>

definition nat_rule_finish :: "ipa_nat_ipv4_rule \<Rightarrow> uint16 \<Rightarrow> ipa_nat_rule \<Rightarrow> ipa_nat_rule" where
  "nat_rule_finish clnt_rule index_entry rule =
     rule\<lparr>nr_indx_tbl_entry := index_entry, nr_redirect := odd (v4_redirect clnt_rule),
          nr_enable := odd (v4_enable clnt_rule), nr_time_stamp := ucast (v4_time_stamp clnt_rule)\<rparr>"

text \<open>
  From the first hash to the posted command: result, handle, table, state of the module and of the
  system.  The labels \<open>bail\<close> and \<open>fail_add_index_entry\<close> erase what was inserted.
\<close>

definition nat_erase_both ::
    "ipa_nat_ip4_table_cache \<Rightarrow> uint16 \<Rightarrow> uint16 \<Rightarrow> ipa_nat_ip4_table_cache option" where
  "nat_erase_both nat_table index_entry entry =
     do {
       ix \<leftarrow> ipa_table_erase_entry nat_indx_zero (nt_index_table nat_table) index_entry;
       t \<leftarrow> ipa_table_erase_entry nat_rule_zero (nt_table nat_table) entry;
       Some (nat_table\<lparr>nt_table := t, nt_index_table := ix\<rparr>)
     }"

definition nat_add_rule_locked ::
    "('w, nat_memory) ipa_os \<Rightarrow> ipa_nat_cache \<Rightarrow> ipa_nat_ip4_table_cache \<Rightarrow> ipa_nat_ipv4_rule \<Rightarrow>
     nat_state \<Rightarrow> 'w \<Rightarrow> ((int \<times> uint32 \<times> ipa_nat_ip4_table_cache) \<times> nat_state \<times> 'w) option" where
  "nat_add_rule_locked os cache nat_table clnt_rule st w =
     do {
       desc \<leftarrow> nc_desc cache;
       pdn \<leftarrow> arr_get (ns_pdns st) (unat (v4_pdn_index clnt_rule));
       let (new_entry_index, st) = nat_rule_slot st desc (nt_table nat_table) (pdn_public_ip pdn) clnt_rule;
       (ret, t, new_entry_index, new_entry_handle, cmd) \<leftarrow>
         ipa_table_add_entry nat_entry_interface (nt_table nat_table) (ns_pdns st, clnt_rule) new_entry_index
           (dma_cmd_init MAX_DMA_ENTRIES_FOR_ADD);
       let nat_table = nat_table\<lparr>nt_table := t\<rparr>;
       if ret \<noteq> 0 then Some ((ret, 0, nat_table), st, w)
       else do {
         let (new_index_tbl_entry_index, st) = nat_index_slot st t clnt_rule;
         (ret, ix, new_index_tbl_entry_index, _, cmd) \<leftarrow>
           ipa_table_add_entry index_entry_interface (nt_index_table nat_table) new_entry_index
             new_index_tbl_entry_index cmd;
         let nat_table = nat_table\<lparr>nt_index_table := ix\<rparr>;
         if ret \<noteq> 0 then do {
           t \<leftarrow> ipa_table_erase_entry nat_rule_zero t new_entry_index;
           Some ((ret, 0, nat_table\<lparr>nt_table := t\<rparr>), st, w)
         }
         else case ipa_table_get_entry_by_index t new_entry_index of
           None \<Rightarrow> do {
             nat_table \<leftarrow> nat_erase_both nat_table new_index_tbl_entry_index new_entry_index;
             Some ((- EPERM, 0, nat_table), st, w)
           }
         | Some p \<Rightarrow> do {
             rule \<leftarrow> rec_get t p;
             t \<leftarrow> rec_put t p (nat_rule_finish clnt_rule new_index_tbl_entry_index rule);
             ((ret, nat_table), w) \<leftarrow> ipa_nati_post_ipv4_dma_cmd os cache cmd (nat_table\<lparr>nt_table := t\<rparr>) w;
             if ret \<noteq> 0 then do {
               nat_table \<leftarrow> nat_erase_both nat_table new_index_tbl_entry_index new_entry_index;
               Some ((ret, 0, nat_table), st, w)
             }
             else Some ((0, new_entry_handle, nat_table), st, w)
           }
       }
     }"

text \<open>
  The call.  The handle is \<open>None\<close> while \<open>*rule_hdl\<close> is not written.  A table without an open device
  cannot be reached; the code would follow the null pointer.
\<close>

definition ipa_NATI_add_ipv4_rule ::
    "('w, nat_memory) ipa_os \<Rightarrow> uint32 \<Rightarrow> ipa_nat_ipv4_rule option \<Rightarrow> bool \<Rightarrow> nat_state \<Rightarrow> 'w \<Rightarrow>
     ((int \<times> uint32 option) \<times> nat_state \<times> 'w) option" where
  "ipa_NATI_add_ipv4_rule os tbl_hdl clnt has_out st w =
     (case clnt of None \<Rightarrow> Some ((- EINVAL, None), st, w)
      | Some clnt_rule \<Rightarrow>
      if \<not> VALID_TBL_HDL tbl_hdl \<or> \<not> has_out then Some ((- EINVAL, None), st, w)
      else
        let (nmi, tbl_hdl) = BREAK_TBL_HDL tbl_hdl; cache = ns_cache st nmi in
        if v4_protocol clnt_rule = IPAHAL_NAT_INVALID_PROTOCOL then Some ((- EINVAL, Some 0), st, w)
        else if unat (v4_pdn_index clnt_rule) \<ge> IPA_MAX_PDN_NUM then Some ((- EINVAL, Some 0), st, w)
        else do {
          pdn \<leftarrow> arr_get (ns_pdns st) (unat (v4_pdn_index clnt_rule));
          if pdn_public_ip pdn = 0 then Some ((- EINVAL, Some 0), st, w)
          else do {
            let (l, w) = os_lock os w;
            if l \<noteq> 0 then Some ((- EINVAL, Some 0), st, w)
            else do {
              let i = unat (tbl_hdl - 1);
              nat_table \<leftarrow> arr_get (nc_tbl cache) i;
              if \<not> md_valid (nt_mem_desc nat_table)
              then Some ((- EINVAL, Some 0), st, snd (os_unlock os w))
              else do {
                ((ret, hdl, nat_table), st, w) \<leftarrow> nat_add_rule_locked os cache nat_table clnt_rule st w;
                let st = set_tbl nmi i nat_table st;
                let (u, w) = os_unlock os w;
                if ret \<noteq> 0 then Some ((ret, Some 0), st, w)
                else if u \<noteq> 0 then Some ((- EPERM, Some 0), st, w)
                else Some ((0, Some hdl), st, w)
              }
            }
          }
        })"

section \<open>Deleting a rule\<close>

text \<open>
  The index entry behind a deleted head moves into the head: its table entry is copied by a command
  that already exists, its link by this one, and the rule it belongs to is told at once.
\<close>

definition ipa_nati_copy_second_index_entry_to_head ::
    "ipa_nat_ip4_table_cache \<Rightarrow> ipa_table_iterator \<Rightarrow> ipa_ioc_nat_dma_cmd \<Rightarrow>
     (ipa_nat_ip4_table_cache \<times> ipa_ioc_nat_dma_cmd) option" where
  "ipa_nati_copy_second_index_entry_to_head nat_table it cmd =
     do {
       np \<leftarrow> it_next_entry it;
       index_table_rule \<leftarrow> rec_get (nt_index_table nat_table) np;
       (_, cmd) \<leftarrow> ipa_table_add_dma_cmd (nt_index_table nat_table) HELP_UPDATE_ENTRY (it_curr_entry it)
         (it_curr_index it) (ix_next_index index_table_rule) cmd;
       rule \<leftarrow> rec_get (nt_table nat_table) (ix_tbl_entry index_table_rule);
       t \<leftarrow> rec_put (nt_table nat_table) (ix_tbl_entry index_table_rule)
              (rule\<lparr>nr_indx_tbl_entry := it_curr_index it\<rparr>);
       Some (nat_table\<lparr>nt_table := t\<rparr>, cmd)
     }"

text \<open>The assignment to \<open>index_expn_table_meta\<close> after the entry is gone.\<close>

definition nat_clear_meta :: "ipa_nat_indx_tbl_rule ipa_table \<Rightarrow> uint16 \<Rightarrow> ipa_nat_indx_tbl_rule ipa_table option" where
  "nat_clear_meta ix curr_index =
     (if curr_index \<ge> table_entries ix then do {
        m \<leftarrow> tbl_meta ix;
        m \<leftarrow> arr_put m (unat (curr_index - table_entries ix)) IPA_TABLE_INVALID_ENTRY;
        Some (ix\<lparr>tbl_meta := Some m\<rparr>)
      }
      else Some ix)"

definition nat_del_rule_locked ::
    "('w, nat_memory) ipa_os \<Rightarrow> ipa_nat_cache \<Rightarrow> ipa_nat_ip4_table_cache \<Rightarrow> uint32 \<Rightarrow> 'w \<Rightarrow>
     (int \<times> ipa_nat_ip4_table_cache \<times> 'w) option" where
  "nat_del_rule_locked os cache nat_table rule_hdl w =
     (let (ret, entry, index) = ipa_table_get_entry (nt_table nat_table) rule_hdl in
      if ret \<noteq> 0 then Some (ret, nat_table, w)
      else do {
        table_rule \<leftarrow> entry;
        (ret, table_iterator) \<leftarrow> ipa_table_iterator_init nat_entry_interface (nt_table nat_table) table_rule index;
        if ret \<noteq> 0 then Some (ret, nat_table, w)
        else do {
          rule \<leftarrow> rec_get (nt_table nat_table) table_rule;
          let index = nr_indx_tbl_entry rule;
          case ipa_table_get_entry_by_index (nt_index_table nat_table) index of
            None \<Rightarrow> Some (- EPERM, nat_table, w)
          | Some index_table_rule \<Rightarrow> do {
            (ret, index_iterator) \<leftarrow>
              ipa_table_iterator_init index_entry_interface (nt_index_table nat_table) index_table_rule index;
            if ret \<noteq> 0 then Some (ret, nat_table, w)
            else do {
              cmd \<leftarrow> ipa_table_create_delete_command index_entry_interface (nt_index_table nat_table)
                (dma_cmd_init MAX_DMA_ENTRIES_FOR_DEL) index_iterator;
              (ret, index_iterator, nat_table, cmd) \<leftarrow>
                (if ipa_table_iterator_is_head_with_tail index_iterator then do {
                   (nat_table, cmd) \<leftarrow> ipa_nati_copy_second_index_entry_to_head nat_table index_iterator cmd;
                   (ret, it) \<leftarrow> ipa_table_iterator_next index_entry_interface index_iterator (nt_index_table nat_table);
                   Some (ret, it, nat_table, cmd)
                 }
                 else Some (0, index_iterator, nat_table, cmd));
              if ret \<noteq> 0 then Some (ret, nat_table, w)
              else do {
                cmd \<leftarrow> ipa_table_create_delete_command nat_entry_interface (nt_table nat_table) cmd table_iterator;
                ((ret, nat_table), w) \<leftarrow> ipa_nati_post_ipv4_dma_cmd os cache cmd nat_table w;
                if ret \<noteq> 0 then Some (ret, nat_table, w)
                else do {
                  t \<leftarrow>
                    (if ipa_table_iterator_is_head_with_tail table_iterator then Some (nt_table nat_table)
                     else do {
                       is_prev_empty \<leftarrow> (case it_prev_entry table_iterator of None \<Rightarrow> Some False
                         | Some p \<Rightarrow> (case rec_get (nt_table nat_table) p of None \<Rightarrow> None
                             | Some pe \<Rightarrow> Some (nr_protocol pe = IPAHAL_NAT_INVALID_PROTOCOL)));
                       ipa_table_delete_entry nat_entry_interface nat_rule_zero (nt_table nat_table)
                         table_iterator is_prev_empty
                     });
                  ix \<leftarrow> ipa_table_delete_entry index_entry_interface nat_indx_zero (nt_index_table nat_table)
                    index_iterator False;
                  ix \<leftarrow> nat_clear_meta ix (it_curr_index index_iterator);
                  Some (0, nat_table\<lparr>nt_table := t, nt_index_table := ix\<rparr>, w)
                }
              }
            }
          }
        }
      })"

definition ipa_NATI_del_ipv4_rule ::
    "('w, nat_memory) ipa_os \<Rightarrow> uint32 \<Rightarrow> uint32 \<Rightarrow> nat_state \<Rightarrow> 'w \<Rightarrow> (int \<times> nat_state \<times> 'w) option" where
  "ipa_NATI_del_ipv4_rule os tbl_hdl rule_hdl st w =
     (let (nmi, tbl_hdl) = BREAK_TBL_HDL tbl_hdl; cache = ns_cache st nmi; (l, w) = os_lock os w
      in if l \<noteq> 0 then Some (- EINVAL, st, w)
      else do {
        let i = unat (tbl_hdl - 1);
        nat_table \<leftarrow> arr_get (nc_tbl cache) i;
        (ret, nat_table, w) \<leftarrow>
          (if \<not> md_valid (nt_mem_desc nat_table) then Some (- EINVAL, nat_table, w)
           else nat_del_rule_locked os cache nat_table rule_hdl w);
        let (ret, w) = nat_unlock os ret w;
        Some (ret, set_tbl nmi i nat_table st, w)
      })"

section \<open>SRAM and clock\<close>

text \<open>The size is \<open>None\<close> while \<open>*size_ptr\<close> is not written.\<close>

definition ipa_nati_get_sram_size ::
    "('w, 'm) ipa_os \<Rightarrow> nat_state \<Rightarrow> 'w \<Rightarrow> (int \<times> uint32 option) \<times> nat_state \<times> 'w" where
  "ipa_nati_get_sram_size os st w =
     (let (l, w) = os_lock os w in
      if l \<noteq> 0 then ((- EINVAL, None), st, w)
      else
        let cache = ns_cache st IPA_NAT_MEM_IN_SRAM;
            (d, w) = (case nc_desc cache of None \<Rightarrow> ipa_descriptor_open os w | Some d \<Rightarrow> (Some d, w));
            st = set_cache IPA_NAT_MEM_IN_SRAM (cache\<lparr>nc_desc := d\<rparr>) st;
            ((ret, sz), w) =
              (case d of None \<Rightarrow> ((- EIO, None), w)
               | Some desc \<Rightarrow>
                 (let ((ret, info), w) = os_sram_info os (desc_fd desc) w in
                  if ret \<noteq> 0 then ((ret, None), w)
                  else if sram_mem_available_for_nat info = 0 then ((- EINVAL, Some 0), w)
                  else ((ret, Some (sram_mem_available_for_nat info)), w)));
            (ret, w) = nat_unlock os ret w
        in ((ret, sz), st, w))"

definition ipa_nati_vote_clock ::
    "('w, 'm) ipa_os \<Rightarrow> ipa_app_clock_vote_type \<Rightarrow> nat_state \<Rightarrow> 'w \<Rightarrow> int \<times> nat_state \<times> 'w" where
  "ipa_nati_vote_clock os vote_type st w =
     (let cache = ns_cache st IPA_NAT_MEM_IN_SRAM;
          (d, w) = (case nc_desc cache of None \<Rightarrow> ipa_descriptor_open os w | Some d \<Rightarrow> (Some d, w));
          st = set_cache IPA_NAT_MEM_IN_SRAM (cache\<lparr>nc_desc := d\<rparr>) st
      in case d of None \<Rightarrow> (- EIO, st, w)
         | Some desc \<Rightarrow> let (ret, w) = os_clock_vote os (desc_fd desc) vote_type w in (ret, st, w))"

section \<open>Clearing, walking and copying\<close>

definition ipa_NATI_clear_ipv4_tbl ::
    "('w, 'm) ipa_os \<Rightarrow> uint32 \<Rightarrow> nat_state \<Rightarrow> 'w \<Rightarrow> (int \<times> nat_state \<times> 'w) option" where
  "ipa_NATI_clear_ipv4_tbl os tbl_hdl st w =
     (let (nmi, tbl_hdl) = BREAK_TBL_HDL tbl_hdl; cache = ns_cache st nmi; (l, w) = os_lock os w
      in if l \<noteq> 0 then Some (- EINVAL, st, w)
      else do {
        (ret, st) \<leftarrow>
          (if nc_table_cnt cache = 0 then Some (- EINVAL, st)
           else do {
             let i = unat (tbl_hdl - 1);
             nat_table \<leftarrow> arr_get (nc_tbl cache) i;
             let t = (ipa_table_reset nat_rule_zero (nt_table nat_table))\<lparr>cur_tbl_cnt := 0, cur_expn_tbl_cnt := 0\<rparr>;
             let ix = (ipa_table_reset nat_indx_zero (nt_index_table nat_table))\<lparr>cur_tbl_cnt := 0, cur_expn_tbl_cnt := 0\<rparr>;
             Some (0, set_tbl nmi i (nat_table\<lparr>nt_table := t, nt_index_table := ix\<rparr>) st)
           });
        let (ret, w) = nat_unlock os ret w;
        Some (ret, st, w)
      })"

text \<open>
  The table to walk together with the callback for its records (\<open>None\<close>: the null pointer).  A
  callback works on a state \<open>'s\<close> that holds the NAT state (read with \<open>nd\<close>) and on the system.
\<close>

datatype 's nat_walk =
    USE_NAT_TABLE "(ipa_nat_rule, 's) ipa_table_walk_cb option"
  | USE_INDEX_TABLE "(ipa_nat_indx_tbl_rule, 's) ipa_table_walk_cb option"

fun walk_cb_null :: "'s nat_walk \<Rightarrow> bool" where
  "walk_cb_null (USE_NAT_TABLE cb) = (cb = None)"
| "walk_cb_null (USE_INDEX_TABLE cb) = (cb = None)"

definition ipa_NATI_walk_ipv4_tbl ::
    "('w, 'm) ipa_os \<Rightarrow> ('s \<Rightarrow> nat_state) \<Rightarrow> uint32 \<Rightarrow> ('s \<times> 'w) nat_walk \<Rightarrow> 's \<Rightarrow> 'w \<Rightarrow>
     (int \<times> 's \<times> 'w) option" where
  "ipa_NATI_walk_ipv4_tbl os nd tbl_hdl which s w =
     (if \<not> VALID_TBL_HDL tbl_hdl \<or> walk_cb_null which then Some (- EINVAL, s, w)
      else
        let (l, w) = os_lock os w in
        if l \<noteq> 0 then Some (- EINVAL, s, w)
        else do {
          let (nmi, hdl) = BREAK_TBL_HDL tbl_hdl;
          (ret, s, w) \<leftarrow>
            (if nc_table_cnt (ns_cache (nd s) nmi) = 0 then Some (- EINVAL, s, w)
             else do {
               let i = unat (hdl - 1);
               _ \<leftarrow> arr_get (nc_tbl (ns_cache (nd s) nmi)) i;
               let tbl = (\<lambda>(s, w). nc_tbl (ns_cache (nd s) nmi) ! i);
               case which of
                 USE_NAT_TABLE cb \<Rightarrow> do {
                   cb \<leftarrow> cb;
                   ipa_table_walk (\<lambda>x. nt_table (tbl x)) nat_entry_interface 0 WHEN_SLOT_FILLED cb (s, w)
                 }
               | USE_INDEX_TABLE cb \<Rightarrow> do {
                   cb \<leftarrow> cb;
                   ipa_table_walk (\<lambda>x. nt_index_table (tbl x)) index_entry_interface 0 WHEN_SLOT_FILLED cb (s, w)
                 }
             });
          let (ret, w) = nat_unlock os ret w;
          Some (ret, s, w)
        })"

text \<open>\<open>upd\<close> puts a NAT state back into \<open>'s\<close>; the callback already knows the destination table.\<close>

definition ipa_nati_copy_ipv4_tbl ::
    "('w, 'm) ipa_os \<Rightarrow> ('s \<Rightarrow> nat_state) \<Rightarrow> (nat_state \<Rightarrow> 's \<Rightarrow> 's) \<Rightarrow> uint32 \<Rightarrow> uint32 \<Rightarrow>
     (ipa_nat_rule, 's \<times> 'w) ipa_table_walk_cb option \<Rightarrow> 's \<Rightarrow> 'w \<Rightarrow> (int \<times> 's \<times> 'w) option" where
  "ipa_nati_copy_ipv4_tbl os nd upd src_tbl_hdl dst_tbl_hdl copy_cb s w =
     (if copy_cb = None then Some (- EINVAL, s, w)
      else
        let (l, w) = os_lock os w in
        if l \<noteq> 0 then Some (- EINVAL, s, w)
        else do {
          (ret, st, w) \<leftarrow> ipa_NATI_clear_ipv4_tbl os dst_tbl_hdl (nd s) w;
          let s = upd st s;
          (ret, s, w) \<leftarrow>
            (if ret = 0 then ipa_NATI_walk_ipv4_tbl os nd src_tbl_hdl (USE_NAT_TABLE copy_cb) s w
             else Some (ret, s, w));
          let (ret, w) = nat_unlock os ret w;
          Some (ret, s, w)
        })"

section \<open>Statistics\<close>

text \<open>The average is kept as the two operands of the floating-point division.\<close>

record ipa_nati_tbl_stats =
  st_nmi :: ipa3_nat_mem_in
  st_tot_ents :: uint32
  st_tot_base_ents :: uint32
  st_tot_base_ents_filled :: uint32
  st_tot_expn_ents :: uint32
  st_tot_expn_ents_filled :: uint32
  st_tot_chains :: uint32
  st_min_chain_len :: uint32
  st_max_chain_len :: uint32
  st_avg_chain_len :: "(uint32 \<times> uint32) option"

definition stats_zero :: ipa_nati_tbl_stats where
  "stats_zero = \<lparr>st_nmi = IPA_NAT_MEM_IN_DDR, st_tot_ents = 0, st_tot_base_ents = 0, st_tot_base_ents_filled = 0,
     st_tot_expn_ents = 0, st_tot_expn_ents_filled = 0, st_tot_chains = 0, st_min_chain_len = 0,
     st_max_chain_len = 0, st_avg_chain_len = None\<rparr>"

text \<open>The loop \<open>while (list_elem_ptr->next_index)\<close>, which follows a list without a bound.\<close>

partial_function (option) chain_len_loop ::
    "('e \<Rightarrow> uint16) \<Rightarrow> 'e ipa_table \<Rightarrow> 'e \<Rightarrow> uint32 \<Rightarrow> uint32 option" where
  "chain_len_loop nx t e len =
     (if nx e = 0 then Some len
      else case rec_get t (nx e) of None \<Rightarrow> None | Some e' \<Rightarrow> chain_len_loop nx t e' (len + 1))"

text \<open>The state of the callback: the statistics and \<open>tot_for_avg\<close>.\<close>

definition gen_chain_stats :: "('e \<Rightarrow> uint16) \<Rightarrow> ('e, ipa_nati_tbl_stats \<times> uint32) ipa_table_walk_cb" where
  "gen_chain_stats nx t rule_hdl record_ptr record_index meta_ptr meta_index csh =
     (let (_, is_expn_tbl, _) = BREAK_RULE_HDL t rule_hdl; (stats, tot_for_avg) = csh in
      if is_expn_tbl \<noteq> 0 then Some (1, csh)
      else do {
        e \<leftarrow> rec_get t record_ptr;
        chain_len \<leftarrow> (if nx e \<noteq> 0 then chain_len_loop nx t e 1 else Some 0);
        if chain_len = 0 then Some (0, csh)
        else
          Some (0, stats\<lparr>st_tot_chains := st_tot_chains stats + 1,
              st_min_chain_len := (if st_min_chain_len stats = 0 then chain_len
                else if st_min_chain_len stats < chain_len then st_min_chain_len stats else chain_len),
              st_max_chain_len := (if st_max_chain_len stats > chain_len then st_max_chain_len stats else chain_len)\<rparr>,
            tot_for_avg + chain_len)
      })"

definition tbl_stats ::
    "('e, 'u) ipa_table_entry_interface \<Rightarrow> ('e \<Rightarrow> uint16) \<Rightarrow> ipa3_nat_mem_in \<Rightarrow> 'e ipa_table \<Rightarrow>
     (int \<times> ipa_nati_tbl_stats) option" where
  "tbl_stats ei nx nmi t =
     (let base = ucast (table_entries t); expn = ucast (expn_table_entries t);
          stats = stats_zero\<lparr>st_nmi := nmi, st_tot_base_ents := base, st_tot_expn_ents := expn,
            st_tot_ents := base + expn, st_tot_base_ents_filled := ucast (cur_tbl_cnt t),
            st_tot_expn_ents_filled := ucast (cur_expn_tbl_cnt t)\<rparr>
      in do {
        (ret, stats, tot_for_avg) \<leftarrow>
          ipa_table_walk (\<lambda>_. t) ei 0 WHEN_SLOT_FILLED (gen_chain_stats nx) (stats, 0);
        if ret < 0 then Some (- EINVAL, stats)
        else if tot_for_avg \<noteq> 0 \<and> st_tot_chains stats \<noteq> 0
        then Some (0, stats\<lparr>st_avg_chain_len := Some (tot_for_avg, st_tot_chains stats)\<rparr>)
        else Some (0, stats)
      })"

text \<open>The results are \<open>None\<close> while the client's structures are not written.\<close>

definition ipa_NATI_ipv4_tbl_stats ::
    "('w, 'm) ipa_os \<Rightarrow> uint32 \<Rightarrow> bool \<Rightarrow> bool \<Rightarrow> nat_state \<Rightarrow> 'w \<Rightarrow>
     ((int \<times> (ipa_nati_tbl_stats \<times> ipa_nati_tbl_stats) option) \<times> 'w) option" where
  "ipa_NATI_ipv4_tbl_stats os tbl_hdl has_nat has_idx st w =
     (if \<not> VALID_TBL_HDL tbl_hdl \<or> \<not> has_nat \<or> \<not> has_idx then Some ((- EINVAL, None), w)
      else
        let (l, w) = os_lock os w in
        if l \<noteq> 0 then Some ((- EINVAL, None), w)
        else do {
          let (nmi, hdl) = BREAK_TBL_HDL tbl_hdl;
          (ret, nat_stats, idx_stats) \<leftarrow>
            (if nc_table_cnt (ns_cache st nmi) = 0 then Some (- EINVAL, stats_zero, stats_zero)
             else do {
               nat_table \<leftarrow> arr_get (nc_tbl (ns_cache st nmi)) (unat (hdl - 1));
               (ret, nat_stats) \<leftarrow> tbl_stats nat_entry_interface nr_next_index nmi (nt_table nat_table);
               if ret \<noteq> 0 then Some (ret, nat_stats, stats_zero)
               else do {
                 (ret, idx_stats) \<leftarrow> tbl_stats index_entry_interface ix_next_index nmi (nt_index_table nat_table);
                 Some (ret, nat_stats, idx_stats)
               }
             });
          let (ret, w) = nat_unlock os ret w;
          Some ((ret, Some (nat_stats, idx_stats)), w)
        })"

end
