(* ===== verification/Ipa_Nat_Add.thy ===== *)
theory Ipa_Nat_Add
  imports Ipa_Nat_Tables Ipa_Nat_Ops
begin

text \<open>
  Adding a NAT rule: the slots of the two tables, the hardware request, and the whole of
  \<open>ipa_NATI_add_ipv4_rule\<close> as an operation on the map of rules, error paths included.
\<close>

section \<open>Slots\<close>

lemma nat_hash_range:
  assumes "sz \<noteq> 0"
  shows "0 < unat (dst_hash v pip tip tport pp pr sz) \<and> unat (dst_hash v pip tip tport pp pr sz) \<le> unat sz"
    "0 < unat (src_hash ip ipt tip2 tpt pr2 sz) \<and> unat (src_hash ip ipt tip2 tpt pr2 sz) \<le> unat sz"
  using assms unat_and_le2 [of _ sz] by (auto simp: dst_hash_def src_hash_def Let_def unat_gt_0)

lemma token_slot_range:
  assumes "te - 1 \<noteq> 0"
  shows "0 < unat (token_slot h k te) \<and> unat (token_slot h k te) \<le> unat (te - 1)"
  using assms unat_and_le2 [of _ "te - 1"] by (auto simp: token_slot_def Let_def unat_gt_0)

lemma nat_slot_range:
  assumes "2 \<le> unat (table_entries t)"
  shows "0 < unat (fst (nat_rule_slot st desc t ip u)) \<and> unat (fst (nat_rule_slot st desc t ip u)) < unat (table_entries t)"
    "0 < unat (fst (nat_index_slot st t u)) \<and> unat (fst (nat_index_slot st t u)) < unat (table_entries t)"
proof -
  have m: "unat (table_entries t - 1) = unat (table_entries t) - 1" using assms by (intro unat_pred16) simp
  have n: "table_entries t - 1 \<noteq> 0"
  proof
    assume "table_entries t - 1 = 0"
    then have "unat (table_entries t - 1) = 0" by simp
    with m assms show False by simp
  qed
  note H = nat_hash_range [OF n] token_slot_range [OF n]
  have lt: "0 < unat x \<and> unat x < unat (table_entries t)" if "0 < unat x \<and> unat x \<le> unat (table_entries t - 1)" for x :: uint16
    using that m assms by linarith
  show "0 < unat (fst (nat_rule_slot st desc t ip u)) \<and> unat (fst (nat_rule_slot st desc t ip u)) < unat (table_entries t)"
    by (intro lt) (simp add: nat_rule_slot_def Let_def H)
  show "0 < unat (fst (nat_index_slot st t u)) \<and> unat (fst (nat_index_slot st t u)) < unat (table_entries t)"
    by (intro lt) (simp add: nat_index_slot_def Let_def H)
qed

text \<open>Choosing a slot only moves the hash token.\<close>

lemma nat_slot_token:
  "\<exists>k. snd (nat_rule_slot st desc t ip u) = st\<lparr>ns_hash_token := k\<rparr>"
  "\<exists>k. snd (nat_index_slot st t u) = st\<lparr>ns_hash_token := k\<rparr>"
  by (auto simp: nat_rule_slot_def nat_index_slot_def Let_def intro: exI [of _ "ns_hash_token st"])

section \<open>The hardware\<close>

text \<open>
  The documented behaviour of \<open>IPA_IOC_TABLE_DMA_CMD\<close> on the two NAT tables: when it succeeds the
  writes of the command have been done, when it fails none has.
\<close>

definition nat_dma_spec :: "('w, nat_memory) ipa_os \<Rightarrow> bool" where
  "nat_dma_spec os \<longleftrightarrow> (\<forall>fd cmd te rs xs w r m w'. os_dma os fd cmd (te, rs, xs) w = ((r, m), w') \<longrightarrow>
     (r \<noteq> 0 \<longrightarrow> snd m = (rs, xs)) \<and>
     (r = 0 \<longrightarrow> (\<forall>t t' x x'. table_entries t = te \<and> recs t = rs \<and> entry_size t = 32 \<and>
        nat_hw (dma_posted cmd) t = Some t' \<and> table_entries x = te \<and> recs x = xs \<and> entry_size x = 4 \<and>
        idx_hw (dma_posted cmd) x = Some x' \<longrightarrow> snd m = (recs t', recs x'))))"

lemma nat_post:
  assumes spec: "nat_dma_spec os" and desc: "nc_desc cache = Some desc"
    and t: "entry_size t = 32" "nat_hw (dma_posted cmd) t = Some t2"
    and x: "entry_size x = 4" "table_entries x = table_entries t" "idx_hw (dma_posted cmd) x = Some x2"
  shows "\<exists>(r :: int) w'. ipa_nati_post_ipv4_dma_cmd os cache cmd (T\<lparr>nt_table := t, nt_index_table := x\<rparr>) w =
    Some (if r = 0 then (0, T\<lparr>nt_table := t2, nt_index_table := x2\<rparr>)
          else (- EIO, T\<lparr>nt_table := t, nt_index_table := x\<rparr>), w') \<and>
    (r = 0 \<longleftrightarrow> fst (fst (os_dma os (desc_fd desc) (cmd\<lparr>dma_mem_type := nc_nmi cache\<rparr>) (table_entries t, recs t, recs x) w)) = 0)"
proof -
  obtain r m w' where d: "os_dma os (desc_fd desc) (cmd\<lparr>dma_mem_type := nc_nmi cache\<rparr>) (table_entries t, recs t, recs x) w = ((r, m), w')"
    by (metis surj_pair)
  have p: "dma_posted (cmd\<lparr>dma_mem_type := nc_nmi cache\<rparr>) = dma_posted cmd" by (simp add: dma_posted_def)
  have *: "(r \<noteq> 0 \<longrightarrow> snd m = (recs t, recs x)) \<and> (r = 0 \<longrightarrow> snd m = (recs t2, recs x2))"
    using spec [unfolded nat_dma_spec_def, rule_format, OF d] t x p by metis
  have e: "t\<lparr>recs := recs t2\<rparr> = t2" "x\<lparr>recs := recs x2\<rparr> = x2"
    using hw_writes_recs [OF t(2)] hw_writes_recs [OF x(3)] by simp_all
  show ?thesis
  proof (rule exI [of _ r], rule exI [of _ w'], rule conjI)
    show "ipa_nati_post_ipv4_dma_cmd os cache cmd (T\<lparr>nt_table := t, nt_index_table := x\<rparr>) w =
      Some (if r = 0 then (0, T\<lparr>nt_table := t2, nt_index_table := x2\<rparr>)
            else (- EIO, T\<lparr>nt_table := t, nt_index_table := x\<rparr>), w')"
      using * d desc e by (simp add: ipa_nati_post_ipv4_dma_cmd_def)
    show "(r = 0) = (fst (fst (os_dma os (desc_fd desc) (cmd\<lparr>dma_mem_type := nc_nmi cache\<rparr>)
        (table_entries t, recs t, recs x) w)) = 0)"
      using d by simp
  qed
qed

lemma nat_idx_disjoint:
  assumes "\<forall>one \<in> set ws. d_base_addr one \<in> {IPA_NAT_BASE_TBL, IPA_NAT_EXPN_TBL}"
    "\<forall>one \<in> set vs. d_base_addr one \<in> {IPA_NAT_INDX_TBL, IPA_NAT_INDEX_EXPN_TBL}"
  shows "nat_hw vs t = Some t" "idx_hw ws x = Some x"
  using assms by (auto intro!: hw_writes_other)

section \<open>Insertion\<close>

lemma nat_finish_safe:
  "natt.safe_upd (nat_rule_finish u y) v ((nat_ukey v)\<lparr>nr_indx_tbl_entry := y\<rparr>)"
proof -
  have "nat_key (e\<lparr>nr_indx_tbl_entry := y, nr_redirect := a, nr_enable := b, nr_time_stamp := c,
      nr_uc_activation_index := nr_uc_activation_index e, nr_s := nr_s e, nr_redirect := d, nr_enable := f\<rparr>) =
    (nat_key e)\<lparr>nr_indx_tbl_entry := y\<rparr>" for e a b c d f
    by (simp add: nat_key_def)
  then show ?thesis
    by (auto simp: harmless_def nat_rule_finish_def nat_ready_def nat_fw_def nat_flags_fields)
qed

lemma nat_ukey_protocol: "nat_good (pdns, u) \<Longrightarrow> nr_protocol (nat_ukey (pdns, u)) = v4_protocol u"
  by (auto simp: nat_ukey_def nat_good_def nat_table_entry_copy_from_user_def arr_get_def Let_def)

lemma nat_linked_add:
  assumes "nat_linked R X" "R s = None" "X y = None" "nr_indx_tbl_entry k = y"
  shows "nat_linked (R(s \<mapsto> k)) (X(y \<mapsto> s))"
proof -
  have 1: "X (nr_indx_tbl_entry k') = Some x" if "R x = Some k'" for x k'
    using assms(1) that unfolding nat_linked_def by blast
  have 2: "\<exists>k'. R x = Some k' \<and> nr_indx_tbl_entry k' = y'" if "X y' = Some x" for x y'
    using assms(1) that unfolding nat_linked_def by blast
  have "(X(y \<mapsto> s)) (nr_indx_tbl_entry k') = Some x" if "(R(s \<mapsto> k)) x = Some k'" for x k'
    using that 1 [of x k'] assms(3,4) by (cases "x = s") auto
  moreover have "\<exists>k'. (R(s \<mapsto> k)) x = Some k' \<and> nr_indx_tbl_entry k' = y'" if "(X(y \<mapsto> s)) y' = Some x" for x y'
    using that 2 [of y' x] assms(2,4) by (cases "y' = y") auto
  ultimately show ?thesis unfolding nat_linked_def by blast
qed

lemma nt_swap: "T\<lparr>nt_index_table := a, nt_table := b\<rparr> = T\<lparr>nt_table := b, nt_index_table := a\<rparr>"
  by simp

lemma erase_after_update:
  assumes "unat i < length (recs t)"
  shows "ipa_table_erase_entry z (t\<lparr>recs := (recs t)[unat i := e]\<rparr>) i = ipa_table_erase_entry z t i"
  using assms by (simp add: ipa_table_erase_entry_def rec_put_def arr_put_def)

text \<open>Systems whose DMA requests always succeed, and those that answer every request.\<close>

definition nat_dma_total :: "('w, nat_memory) ipa_os \<Rightarrow> bool" where
  "nat_dma_total os \<longleftrightarrow> (\<forall>fd cmd m w. fst (fst (os_dma os fd cmd m w)) = 0)"

definition nat_reliable :: "('w, nat_memory) ipa_os \<Rightarrow> bool" where
  "nat_reliable os \<longleftrightarrow> (\<forall>w. fst (os_lock os w) = 0 \<and> fst (os_unlock os w) = 0) \<and> nat_dma_total os"

text \<open>There is room when each table has its hash slot or an expansion slot free.\<close>

definition nat_has_room :: "nat_state \<Rightarrow> ipa_descriptor \<Rightarrow> ipa_nat_ip4_table_cache \<Rightarrow> ipa_nat_ipv4_rule \<Rightarrow> bool" where
  "nat_has_room st desc T u \<longleftrightarrow>
     (let t = nt_table T; ix = nt_index_table T;
          (h, st1) = nat_rule_slot st desc t (pdn_public_ip (ns_pdns st ! unat (v4_pdn_index u))) u;
          (hi, _) = nat_index_slot st1 t u
      in (\<not> tv nat_entry_interface t h \<or> free_slot nat_entry_interface t \<noteq> None) \<and>
         (\<not> tv index_entry_interface ix hi \<or> free_slot index_entry_interface ix \<noteq> None))"

definition nat_pair_of :: "ipa_nat_ip4_table_cache \<Rightarrow> bool" where
  "nat_pair_of T \<longleftrightarrow> nat_pair_inv (nt_table T) (nt_index_table T)"

definition nat_same_but_tables :: "ipa_nat_ip4_table_cache \<Rightarrow> ipa_nat_ip4_table_cache \<Rightarrow> bool" where
  "nat_same_but_tables T T' \<longleftrightarrow> same_shape (nt_table T) (nt_table T') \<and>
     same_shape (nt_index_table T) (nt_index_table T') \<and>
     T' = T\<lparr>nt_table := nt_table T', nt_index_table := nt_index_table T'\<rparr>"

text \<open>A rule without the index slot it happens to have.\<close>

definition nat_rule_at :: "ipa_nat_ip4_table_cache \<Rightarrow> uint16 \<Rightarrow> ipa_nat_rule option" where
  "nat_rule_at T x = map_option (\<lambda>k. k\<lparr>nr_indx_tbl_entry := 0\<rparr>) (nat_map (nt_table T) x)"

lemma nat_ukey_index: "(nat_ukey (pdns, u))\<lparr>nr_indx_tbl_entry := 0\<rparr> = nat_ukey (pdns, u)" if "nat_good (pdns, u)"
  using that
  by (auto simp: nat_ukey_def nat_good_def nat_table_entry_copy_from_user_def arr_get_def Let_def nat_rule_zero_def)

lemma nat_pairE:
  assumes "nat_pair_of T"
  obtains B C where "nat_tab_inv (nt_table T) B" "nat_linv (nt_table T) B" "idx_linv (nt_index_table T) C"
    "table_entries (nt_index_table T) = table_entries (nt_table T)"
    "nat_linked (nat_map (nt_table T)) (idx_map (nt_index_table T))"
  using assms by (auto simp: nat_pair_of_def nat_pair_inv_def nat_tab_inv_def)

lemma nat_pairI:
  "nat_tab_inv (nt_table T) B \<Longrightarrow> idx_linv (nt_index_table T) C \<Longrightarrow>
   table_entries (nt_index_table T) = table_entries (nt_table T) \<Longrightarrow>
   nat_linked (nat_map (nt_table T)) (idx_map (nt_index_table T)) \<Longrightarrow> nat_pair_of T"
  by (auto simp: nat_pair_of_def nat_pair_inv_def)

definition nat_add_out ::
    "nat_state \<Rightarrow> ipa_nat_ip4_table_cache \<Rightarrow> ipa_nat_ipv4_rule \<Rightarrow> int \<Rightarrow> uint32 \<Rightarrow> ipa_nat_ip4_table_cache \<Rightarrow> bool" where
  "nat_add_out st T u ret hdl T' \<longleftrightarrow> nat_pair_of T' \<and> nat_same_but_tables T T' \<and>
     (if ret = 0 then \<exists>s. s \<noteq> 0 \<and> nat_rule_at T s = None \<and>
         nat_rule_at T' = (nat_rule_at T)(s \<mapsto> nat_ukey (ns_pdns st, u)) \<and> hdl = ucast (MakeEntryHdl (nt_table T) s)
      else nat_rule_at T' = nat_rule_at T \<and> hdl = 0 \<and> ret \<in> {- 1, - EIO})"

lemma nat_add_locked:
  assumes P: "nat_pair_of T" and desc: "nc_desc cache = Some desc" and spec: "nat_dma_spec os"
    and pd: "unat (v4_pdn_index u) < length (ns_pdns st)" and pr: "v4_protocol u \<noteq> IPAHAL_NAT_INVALID_PROTOCOL"
  shows "\<exists>ret hdl T' tok w'. nat_add_rule_locked os cache T u st w = Some ((ret, hdl, T'), st\<lparr>ns_hash_token := tok\<rparr>, w') \<and>
    nat_add_out st T u ret hdl T' \<and> (nat_dma_total os \<longrightarrow> (ret = 0 \<longleftrightarrow> nat_has_room st desc T u))"
proof -
  define t where "t = nt_table T"
  define ix where "ix = nt_index_table T"
  obtain B C where I: "nat_tab_inv t B" "nat_linv t B" "idx_linv ix C" "table_entries ix = table_entries t"
      "nat_linked (nat_map t) (idx_map ix)"
    using nat_pairE [OF P] unfolding t_def ix_def by blast
  note W = tbl_wfD [OF natt.invD(1) [OF I(2)]] and V = tbl_wfD [OF idxt.invD(1) [OF I(3)]]
  define pdn where "pdn = ns_pdns st ! unat (v4_pdn_index u)"
  have g: "nat_good (ns_pdns st, u)" using pd by (simp add: nat_good_def)
  have ap: "arr_get (ns_pdns st) (unat (v4_pdn_index u)) = Some pdn" using pd by (simp add: arr_get_def pdn_def)
  obtain h st1 where h: "nat_rule_slot st desc t (pdn_public_ip pdn) u = (h, st1)" by fastforce
  obtain k1 where st1: "st1 = st\<lparr>ns_hash_token := k1\<rparr>" using nat_slot_token(1) [of st desc t "pdn_public_ip pdn" u] h by auto
  have pd1: "ns_pdns st1 = ns_pdns st" by (simp add: st1)
  obtain hi st2 where hi: "nat_index_slot st1 t u = (hi, st2)" by fastforce
  obtain k2 where st2: "st2 = st\<lparr>ns_hash_token := k2\<rparr>" using nat_slot_token(2) [of st1 t u] hi st1 by auto
  have hr: "0 < unat h" "unat h < unat (table_entries t)" "0 < unat hi" "unat hi < unat (table_entries t)"
    using nat_slot_range(1) [OF W(5), of st desc "pdn_public_ip pdn" u] nat_slot_range(2) [OF W(5), of st1 u] h hi by simp_all
  have room: "nat_has_room st desc T u \<longleftrightarrow> (B h = [] \<or> free_slot nat_entry_interface t \<noteq> None) \<and>
      (C hi = [] \<or> free_slot index_entry_interface ix \<noteq> None)"
    using chains_base [OF natt.invD(2) [OF I(2)] hr(2) W(6)] chains_base [OF idxt.invD(2) [OF I(3)], of hi] hr(4) V(6) I(4) h hi
    by (simp add: nat_has_room_def t_def ix_def pdn_def) blast
  have stay: "nat_same_but_tables T T" by (simp add: nat_same_but_tables_def same_shape_refl)
  have r: "dma_room (dma_cmd_init 4) (Suc (Suc 2))" "dma_posted (dma_cmd_init 4) = []"
    using dma_cmd_init [of 4] by (auto simp: eval_nat_numeral)
  show ?thesis
  proof (cases "B h = [] \<or> free_slot nat_entry_interface t \<noteq> None")
    case False
    then have "ipa_table_add_entry nat_entry_interface t (ns_pdns st, u) h (dma_cmd_init 4) = Some (- 1, t, h, 0, dma_cmd_init 4)"
      using natt.add_full [OF I(2)] by blast
    then have "nat_add_rule_locked os cache T u st w = Some ((- 1, 0, T), st\<lparr>ns_hash_token := k1\<rparr>, w)"
      using desc ap h st1 by (simp add: nat_add_rule_locked_def t_def [symmetric])
    then show ?thesis using P stay room False by (fastforce simp: nat_add_out_def)
  next
    case True
    obtain t1 s cmd1 t3 ws where A: "ipa_table_add_entry nat_entry_interface t (ns_pdns st, u) h (dma_cmd_init 4) =
          Some (0, t1, s, ucast (MakeEntryHdl t s), cmd1)"
        "dma_room cmd1 2" "same_shape t t1" "s \<noteq> 0" "unat s < tab_sz t" "nat_map t s = None"
        "ipa_table_erase_entry nat_rule_zero t1 s = Some t3" "nat_tab_inv t3 B" "same_shape t t3"
        "nat_map t3 = nat_map t" "dma_posted cmd1 = ws"
        "\<forall>one \<in> set ws. d_base_addr one \<in> {IPA_NAT_BASE_TBL, IPA_NAT_EXPN_TBL}"
        and G: "\<And>g K. natt.safe_upd g (ns_pdns st, u) K \<Longrightarrow> \<not> nat_dead K \<Longrightarrow>
          \<exists>t2. nat_hw ws (t1\<lparr>recs := (recs t1)[unat s := g (recs t1 ! unat s)]\<rparr>) = Some t2 \<and>
            nat_tab_inv t2 (B(h := B h @ [s])) \<and> same_shape t t2 \<and> nat_map t2 = (nat_map t)(s \<mapsto> K)"
      using nat_add_generic [OF I(1) g hr(1,2) True r(1)] unfolding r(2) append_Nil by blast
    have len1: "unat s < length (recs t1)" using same_shapeD(9) [OF A(3)] A(5) W(3) by simp
    have "nat_index_slot st1 t1 u = nat_index_slot st1 t u"
      unfolding nat_index_slot_def same_shapeD(3) [OF A(3)] ..
    then have hi1: "nat_index_slot st1 t1 u = (hi, st2)" using hi by simp
    have erased: "nat_add_out st T u q 0 (T\<lparr>nt_table := t3, nt_index_table := ix'\<rparr>)"
      if "q \<in> {- 1, - EIO}" "idx_linv ix' C" "same_shape ix ix'" "idx_map ix' = idx_map ix" for q ix'
    proof -
      have "nat_pair_of (T\<lparr>nt_table := t3, nt_index_table := ix'\<rparr>)"
        by (rule nat_pairI [of _ B C]) (use A(8,10) that I(4,5) same_shapeD(3) [OF A(9)] same_shapeD(3) [OF that(3)] in simp_all)
      then show ?thesis
        using that(1,3) A(9,10) by (auto simp: nat_add_out_def nat_same_but_tables_def nat_rule_at_def fun_eq_iff t_def ix_def)
    qed
    show ?thesis
    proof (cases "C hi = [] \<or> free_slot index_entry_interface ix \<noteq> None")
      case False
      then have "ipa_table_add_entry index_entry_interface ix s hi cmd1 = Some (- 1, ix, hi, 0, cmd1)"
        using idxt.add_full [OF I(3)] by blast
      then have "nat_add_rule_locked os cache T u st w =
          Some ((- 1, 0, T\<lparr>nt_table := t3, nt_index_table := ix\<rparr>), st\<lparr>ns_hash_token := k2\<rparr>, w)"
        using desc ap h st2 hi1 pd1 A(1,7) by (simp add: nat_add_rule_locked_def t_def [symmetric] ix_def)
      then show ?thesis using erased [of "- 1" ix] I(3) same_shape_refl room False by fastforce
    next
      case iroom: True
      have sg: "idx_good s" using A(4) by (simp add: idx_good_def)
      have hr2: "unat hi < unat (table_entries ix)" using hr(4) I(4) by simp
      have r2: "dma_room cmd1 (Suc (Suc 0))" using A(2) by (simp add: eval_nat_numeral)
      obtain x1 y cmd2 x3 vs where X: "ipa_table_add_entry index_entry_interface ix s hi cmd1 =
            Some (0, x1, y, ucast (MakeEntryHdl ix y), cmd2)"
          "same_shape ix x1" "unat y < tab_sz ix" "idx_map ix y = None"
          "ipa_table_erase_entry nat_indx_zero x1 y = Some x3" "idx_linv x3 C" "same_shape ix x3" "idx_map x3 = idx_map ix"
          "dma_posted cmd2 = ws @ vs" "\<forall>one \<in> set vs. d_base_addr one \<in> {IPA_NAT_INDX_TBL, IPA_NAT_INDEX_EXPN_TBL}"
          and H: "\<And>g K. idxt.safe_upd g s K \<Longrightarrow> g = (\<lambda>e. e) \<Longrightarrow> K = s \<Longrightarrow>
            \<exists>x2. idx_hw vs (x1\<lparr>recs := (recs x1)[unat y := g (recs x1 ! unat y)]\<rparr>) = Some x2 \<and>
              idx_linv x2 (C(hi := C hi @ [y])) \<and> same_shape ix x2 \<and> idx_map x2 = (idx_map ix)(y \<mapsto> K)"
        using idx_add_generic [OF I(3) sg hr(3) hr2 iroom r2] unfolding A(11) by blast
      obtain x2 where x2: "idx_hw vs x1 = Some x2" "idx_linv x2 (C(hi := C hi @ [y]))" "same_shape ix x2"
          "idx_map x2 = (idx_map ix)(y \<mapsto> s)"
        using H [OF idxt.safe_upd_id] by auto
      define K where "K = (nat_ukey (ns_pdns st, u))\<lparr>nr_indx_tbl_entry := y\<rparr>"
      have Kd: "\<not> nat_dead K" using pr nat_ukey_protocol [OF g] by (simp add: K_def nat_dead_def)
      define t1' where "t1' = t1\<lparr>recs := (recs t1)[unat s := nat_rule_finish u y (recs t1 ! unat s)]\<rparr>"
      obtain t2 where t2: "nat_hw ws t1' = Some t2" "nat_tab_inv t2 (B(h := B h @ [s]))" "same_shape t t2"
          "nat_map t2 = (nat_map t)(s \<mapsto> K)"
        using G [OF nat_finish_safe Kd [unfolded K_def]] unfolding t1'_def K_def by blast
      have by_index: "ipa_table_get_entry_by_index t1 s = Some s" "rec_get t1 s = Some (recs t1 ! unat s)"
          "rec_put t1 s (nat_rule_finish u y (recs t1 ! unat s)) = Some t1'"
        using A(4,5) len1 same_shapeD(5) [OF A(3)] W(9)
        by (simp_all add: ipa_table_get_entry_by_index_def word_le_nat_alt rec_get_def rec_put_def arr_simps t1'_def)
      have hw: "nat_hw (dma_posted cmd2) t1' = Some t2" "idx_hw (dma_posted cmd2) x1 = Some x2"
        using t2(1) x2(1) nat_idx_disjoint [OF A(12) X(10)] by (simp_all add: X(9) hw_writes_append)
      have sz: "entry_size t1' = 32" "entry_size x1 = 4" "table_entries x1 = table_entries t1'"
        using same_shapeD(2,3) [OF A(3)] same_shapeD(2,3) [OF X(2)] W(2) V(2) I(4) by (simp_all add: t1'_def)
      obtain q :: int and w' where q: "ipa_nati_post_ipv4_dma_cmd os cache cmd2 (T\<lparr>nt_table := t1', nt_index_table := x1\<rparr>) w =
          Some (if q = 0 then (0, T\<lparr>nt_table := t2, nt_index_table := x2\<rparr>)
            else (- EIO, T\<lparr>nt_table := t1', nt_index_table := x1\<rparr>), w')"
          "q = 0 \<longleftrightarrow> fst (fst (os_dma os (desc_fd desc) (cmd2\<lparr>dma_mem_type := nc_nmi cache\<rparr>) (table_entries t1', recs t1', recs x1) w)) = 0"
        using nat_post [OF spec desc sz(1) hw(1) sz(2,3) hw(2)] by blast
      show ?thesis
      proof (cases "q = 0")
        case True
        have "nat_add_rule_locked os cache T u st w =
            Some ((0, ucast (MakeEntryHdl t s), T\<lparr>nt_table := t2, nt_index_table := x2\<rparr>), st\<lparr>ns_hash_token := k2\<rparr>, w')"
          using desc ap h st2 hi1 pd1 A(1) X(1) by_index q(1) True
          by (simp add: nat_add_rule_locked_def t_def [symmetric] ix_def [symmetric] nt_swap)
        moreover have "nat_pair_of (T\<lparr>nt_table := t2, nt_index_table := x2\<rparr>)"
        proof (rule nat_pairI)
          show "nat_linked (nat_map (nt_table (T\<lparr>nt_table := t2, nt_index_table := x2\<rparr>)))
              (idx_map (nt_index_table (T\<lparr>nt_table := t2, nt_index_table := x2\<rparr>)))"
            using nat_linked_add [OF I(5) A(6) X(4), of K] by (simp add: t2(4) x2(4) K_def)
        qed (use t2 x2 I(4) same_shapeD(3) [OF t2(3)] same_shapeD(3) [OF x2(3)] in simp_all)
        moreover have "nat_rule_at (T\<lparr>nt_table := t2, nt_index_table := x2\<rparr>) = (nat_rule_at T)(s \<mapsto> nat_ukey (ns_pdns st, u))"
          using nat_ukey_index [OF g] by (auto simp: nat_rule_at_def t2(4) t_def K_def fun_eq_iff)
        moreover have "nat_rule_at T s = None" using A(6) by (simp add: nat_rule_at_def t_def)
        ultimately show ?thesis
          using A(4) t2(3) x2(3) room iroom \<open>B h = [] \<or> _\<close>
          by (auto simp: nat_add_out_def nat_same_but_tables_def t_def ix_def)
      next
        case False
        have er: "ipa_table_erase_entry nat_rule_zero t1' s = Some t3"
          using erase_after_update [OF len1] A(7) by (simp add: t1'_def)
        have "nat_add_rule_locked os cache T u st w =
            Some ((- EIO, 0, T\<lparr>nt_table := t3, nt_index_table := x3\<rparr>), st\<lparr>ns_hash_token := k2\<rparr>, w')"
          using desc ap h st2 hi1 pd1 A(1) X(1,5) by_index q(1) False er
          by (simp add: nat_add_rule_locked_def t_def [symmetric] ix_def [symmetric] nat_erase_both_def nt_swap)
        moreover have "\<not> nat_dma_total os" using False q(2) unfolding nat_dma_total_def by blast
        ultimately show ?thesis
          using erased [of "- EIO" x3] X(6-8) by fastforce
      qed
    qed
  qed
qed

end
