(* ===== verification/Ipa_Nat_Del.thy ===== *)
theory Ipa_Nat_Del
  imports Ipa_Nat_Add
begin

text \<open>
  Deleting a NAT rule: the index entry behind a deleted head moves into the head, and the rule it
  belongs to is told; both tables are then as if the rule had never been there.
\<close>

section \<open>Clearing a back link\<close>

lemma idx_clear_meta:
  assumes L: "idx_linv x C" and s: "unat s < tab_sz x" "\<not> tv index_entry_interface x s"
  shows "\<exists>x'. nat_clear_meta x s = Some x' \<and> idx_linv x' C \<and> same_shape x x' \<and> idx_map x' = idx_map x"
proof (cases "table_entries x \<le> s")
  case False
  then show ?thesis using L same_shape_refl by (auto simp: nat_clear_meta_def)
next
  case True
  note D = idxt.invD [OF L]
  note W = tbl_wfD [OF D(1)]
  obtain m where m: "tbl_meta x = Some m" "length m = unat (expn_table_entries x)"
    using W(4) by (auto simp: meta_fits_def split: option.splits)
  have le: "unat (table_entries x) \<le> unat s" using True by (simp add: word_le_nat_alt)
  then have lt: "unat (s - table_entries x) < length m"
    using s(1) m(2) by (simp add: unat_sub True tab_sz_def)
  define x' where "x' = x\<lparr>tbl_meta := Some (m[unat (s - table_entries x) := 0])\<rparr>"
  have cl: "nat_clear_meta x s = Some x'"
    using True m(1) lt by (simp add: nat_clear_meta_def arr_put_def x'_def)
  have sh: "same_shape x x'" by (simp add: same_shape_def x'_def)
  have v: "tv index_entry_interface x' = tv index_entry_interface x" "tn index_entry_interface x' = tn index_entry_interface x"
    by (simp_all add: fun_eq_iff tv_def tn_def x'_def)
  have p: "tp index_entry_interface x' i = tp index_entry_interface x i" if "i \<noteq> s" for i
    using that idx_meta_sub [OF le, of i] m(1) lt
    by (auto simp: tp_def x'_def index_table_entry_get_prev_index_def arr_get_def nth_list_update)
  have "chains (unat (table_entries x)) (tab_sz x) (tv index_entry_interface x') (tn index_entry_interface x')
      (tp index_entry_interface x') C"
    by (rule chains_cong [OF D(2)]) (use v p s(2) le in \<open>metis linorder_not_le\<close>)
  then have "idx_linv x' C"
    by (intro idxt.linvI [OF L sh]) (use m D(3) v in \<open>simp_all add: x'_def meta_fits_def\<close>)
  moreover have "idx_map x' = idx_map x"
    by (simp add: fun_eq_iff idx_map_def tbl_rules_def v) (simp add: x'_def tab_sz_def)
  ultimately show ?thesis using cl sh by blast
qed

section \<open>Telling a rule its new index slot\<close>

lemma nat_set_index:
  fixes y :: uint16
  assumes I: "nat_tab_inv t B" and r: "nat_map t r = Some k"
  defines "t0 \<equiv> t\<lparr>recs := (recs t)[unat r := (recs t ! unat r)\<lparr>nr_indx_tbl_entry := y\<rparr>]\<rparr>"
  shows "rec_get t r = Some (recs t ! unat r)" "rec_put t r ((recs t ! unat r)\<lparr>nr_indx_tbl_entry := y\<rparr>) = Some t0"
    "nat_tab_inv t0 B" "same_shape t t0" "nat_map t0 = (nat_map t)(r \<mapsto> k\<lparr>nr_indx_tbl_entry := y\<rparr>)"
proof -
  have L: "nat_linv t B" and C: "tbl_homes nat_key nat_dead (\<lambda>te k h. True) t B"
    and F: "\<forall>x. unat x < tab_sz t \<longrightarrow> \<not> tv nat_entry_interface t x \<longrightarrow> nat_clean (recs t ! unat x)"
    using I by (simp_all add: nat_tab_inv_def)
  note W = tbl_wfD [OF natt.invD(1) [OF L]]
  have rk: "unat r < tab_sz t" "tv nat_entry_interface t r" "nat_key (recs t ! unat r) = k" "\<not> nat_dead k"
    using r by (auto simp: nat_map_def tbl_rules_def split: if_splits)
  have len: "unat r < length (recs t)" using rk(1) W(3) by simp
  show "rec_get t r = Some (recs t ! unat r)" "rec_put t r ((recs t ! unat r)\<lparr>nr_indx_tbl_entry := y\<rparr>) = Some t0"
    using len by (simp_all add: rec_get_def rec_put_def arr_simps t0_def)
  have rec: "recs t0 ! unat x = (if x = r then (recs t ! unat r)\<lparr>nr_indx_tbl_entry := y\<rparr> else recs t ! unat x)" for x :: uint16
    using len by (auto simp: t0_def nth_list_update word_unat_eq_iff)
  have v: "tv nat_entry_interface t0 x = tv nat_entry_interface t x" for x
    using rk(2) by (auto simp: tv_def rec)
  have u: "nat_linv t0 B" "same_shape t t0"
    using natt.upd_same [OF L rk(1), of "(recs t ! unat r)\<lparr>nr_indx_tbl_entry := y\<rparr>"] by (simp_all add: tv_def t0_def)
  show "same_shape t t0" by (rule u(2))
  have key: "nat_key (recs t0 ! unat x) = (if x = r then k\<lparr>nr_indx_tbl_entry := y\<rparr> else nat_key (recs t ! unat x))" for x :: uint16
    by (simp add: rec nat_key_def rk(3) [symmetric])
  have dead: "nat_dead (nat_key (recs t0 ! unat x)) = nat_dead (nat_key (recs t ! unat x))" for x :: uint16
    using rk(3) by (simp add: key nat_dead_def)
  have "tbl_homes nat_key nat_dead (\<lambda>te k h. True) t0 B"
    using C dead by (simp add: tbl_homes_def)
  moreover have "tab_sz t0 = tab_sz t" using same_shapeD(10) [OF u(2)] .
  ultimately show "nat_tab_inv t0 B"
    using u(1) F v rec rk(2) by (auto simp: nat_tab_inv_def)
  show "nat_map t0 = (nat_map t)(r \<mapsto> k\<lparr>nr_indx_tbl_entry := y\<rparr>)"
    using rk v dead key \<open>tab_sz t0 = _\<close> by (auto simp: fun_eq_iff nat_map_def tbl_rules_def nat_dead_def)
qed

section \<open>The maps\<close>

lemma nat_linked_del:
  assumes "nat_linked R X" "R x = Some k" "nr_indx_tbl_entry k = y"
  shows "nat_linked (R(x := None)) (X(y := None))"
proof -
  have "(X(y := None)) (nr_indx_tbl_entry k') = Some x'" if "(R(x := None)) x' = Some k'" for x' k'
    using assms that unfolding nat_linked_def by (metis fun_upd_other fun_upd_same option.distinct(1) option.inject)
  moreover have "\<exists>k'. (R(x := None)) x' = Some k' \<and> nr_indx_tbl_entry k' = y'" if "(X(y := None)) y' = Some x'" for x' y'
    using assms that unfolding nat_linked_def by (metis fun_upd_other fun_upd_same option.distinct(1) option.inject)
  ultimately show ?thesis unfolding nat_linked_def by blast
qed

text \<open>The entry at \<open>z\<close> has moved to \<open>y\<close>, where the deleted rule's was.\<close>

lemma nat_linked_move:
  assumes "nat_linked R X" "R x = Some k" "nr_indx_tbl_entry k = y" "X z = Some r" "R r = Some j" "z \<noteq> y"
  shows "nat_linked ((R(r \<mapsto> j\<lparr>nr_indx_tbl_entry := y\<rparr>))(x := None)) ((X(y \<mapsto> r))(z := None))"
proof -
  have zr: "nr_indx_tbl_entry j = z" using assms(1,4,5) unfolding nat_linked_def by fastforce
  have xr: "x \<noteq> r" using assms(2,3,5,6) zr by auto
  have 1: "X (nr_indx_tbl_entry k') = Some x'" if "R x' = Some k'" for x' k'
    using assms(1) that unfolding nat_linked_def by blast
  have 2: "\<exists>k'. R x' = Some k' \<and> nr_indx_tbl_entry k' = y'" if "X y' = Some x'" for x' y'
    using assms(1) that unfolding nat_linked_def by blast
  have "((X(y \<mapsto> r))(z := None)) (nr_indx_tbl_entry k') = Some x'"
    if k': "((R(r \<mapsto> j\<lparr>nr_indx_tbl_entry := y\<rparr>))(x := None)) x' = Some k'" for x' k'
  proof (cases "x' = r")
    case True
    then show ?thesis using k' xr assms(6) by auto
  next
    case False
    then have "R x' = Some k'" "x' \<noteq> x" using k' by (auto split: if_splits)
    then show ?thesis
      using 1 [of x' k'] 1 [OF assms(2)] assms(3,4) False by (metis fun_upd_other option.inject)
  qed
  moreover have "\<exists>k'. ((R(r \<mapsto> j\<lparr>nr_indx_tbl_entry := y\<rparr>))(x := None)) x' = Some k' \<and> nr_indx_tbl_entry k' = y'"
    if y': "((X(y \<mapsto> r))(z := None)) y' = Some x'" for x' y'
  proof (cases "y' = y")
    case True
    then show ?thesis using y' xr assms(6) by auto
  next
    case False
    then have "X y' = Some x'" "y' \<noteq> z" using y' by (auto split: if_splits)
    then obtain k' where "R x' = Some k'" "nr_indx_tbl_entry k' = y'" using 2 by blast
    then show ?thesis using False \<open>y' \<noteq> z\<close> assms(2,3,5) zr by (intro exI [of _ k']) auto
  qed
  ultimately show ?thesis unfolding nat_linked_def by blast
qed

section \<open>Deletion\<close>

lemma nat_get_entry:
  assumes "nat_linv t B"
  shows "ipa_table_get_entry t hdl = (let s = snd (snd (BREAK_RULE_HDL t hdl)) in
    if unat s < tab_sz t then (0, Some s, s) else (- EINVAL, None, 0))"
  using tbl_wfD(9) [OF natt.invD(1) [OF assms]]
  by (auto simp: ipa_table_get_entry_def Let_def word_less_nat_alt word_le_nat_alt split: prod.splits)

text \<open>
  A rule shares its index slot's list when the slot is a head with a tail: then deleting the rule
  moves another rule's index entry.
\<close>

definition idx_shared :: "ipa_nat_indx_tbl_rule ipa_table \<Rightarrow> uint16 \<Rightarrow> bool" where
  "idx_shared x y \<longleftrightarrow> unat y < unat (table_entries x) \<and> ix_next_index (recs x ! unat y) \<noteq> 0"

text \<open>What is posted for the index table, and what the library does to it afterwards.\<close>

lemma idx_remove_all:
  assumes L: "idx_linv x C" and R: "nat_tab_inv t B" "nat_linked (nat_map t) (idx_map x)"
    and rx: "nat_map t r = Some k" "nr_indx_tbl_entry k = y"
    and T: "nt_table T = t" "nt_index_table T = x"
  shows "\<exists>it0 it cmd t0 ws xh x'. ipa_table_get_entry_by_index x y = Some y \<and>
    ipa_table_iterator_init index_entry_interface x y y = Some (0, it0) \<and>
    (\<exists>cmd0. ipa_table_create_delete_command index_entry_interface x (dma_cmd_init 3) it0 = Some cmd0 \<and>
      (if ipa_table_iterator_is_head_with_tail it0
       then ipa_nati_copy_second_index_entry_to_head T it0 cmd0 = Some (T\<lparr>nt_table := t0\<rparr>, cmd) \<and>
         ipa_table_iterator_next index_entry_interface it0 x = Some (0, it)
       else t0 = t \<and> it = it0 \<and> cmd = cmd0)) \<and>
    dma_room cmd 1 \<and> dma_posted cmd = ws \<and> (\<forall>one \<in> set ws. d_base_addr one \<in> {IPA_NAT_INDX_TBL, IPA_NAT_INDEX_EXPN_TBL}) \<and>
    idx_hw ws x = Some xh \<and> same_shape x xh \<and>
    (\<exists>x1. ipa_table_delete_entry index_entry_interface nat_indx_zero xh it False = Some x1 \<and>
       nat_clear_meta x1 (it_curr_index it) = Some x') \<and>
    (\<exists>C'. idx_linv x' C') \<and> same_shape x x' \<and>
    nat_tab_inv t0 B \<and> same_shape t t0 \<and>
    (\<forall>v. map_option (\<lambda>k. k\<lparr>nr_indx_tbl_entry := 0\<rparr>) (nat_map t0 v) = map_option (\<lambda>k. k\<lparr>nr_indx_tbl_entry := 0\<rparr>) (nat_map t v)) \<and>
    nat_linked ((nat_map t0)(r := None)) (idx_map x') \<and>
    (nat_linked (nat_map t0) (idx_map x) \<longleftrightarrow> \<not> idx_shared x y)"
proof -
  note W = tbl_wfD [OF idxt.invD(1) [OF L]]
  have Xy: "idx_map x y = Some r" using R(2) rx unfolding nat_linked_def by blast
  have iy: "unat y < tab_sz x" "tv index_entry_interface x y" "ix_tbl_entry (recs x ! unat y) = r"
    using Xy by (auto simp: idx_map_def tbl_rules_def split: if_splits)
  obtain c where c: "y \<in> set (C c)" using idxm.tv_iff [OF L iy(1)] iy(2) by blast
  then obtain us vs where Bc: "C c = us @ y # vs" by (meson split_list)
  note F = idxt.list_facts [OF L Bc]
  have bi: "ipa_table_get_entry_by_index x y = Some y"
    by (rule idxt.entry_by_index [OF idxt.invD(1) [OF L] F(2) iy(1)])
  have r3: "dma_room (dma_cmd_init 3) (Suc 2)" "dma_posted (dma_cmd_init 3) = []"
    using dma_cmd_init [of 3] by (auto simp: eval_nat_numeral)
  define w1 where "w1 = idxt.del_write x us y vs"
  define cmd0 where "cmd0 = dma_push (dma_cmd_init 3) w1"
  have c0: "ipa_table_create_delete_command index_entry_interface x (dma_cmd_init 3) (iter_at us y vs) = Some cmd0"
    using idxt.create_delete_command_ok [OF L Bc r3(1)] by (simp add: cmd0_def w1_def)
  have p0: "dma_posted cmd0 = [w1]" "dma_room cmd0 2" using dma_push [OF r3(1), of w1] r3(2) by (simp_all add: cmd0_def)
  have b1: "d_base_addr w1 \<in> {IPA_NAT_INDX_TBL, IPA_NAT_INDEX_EXPN_TBL}"
    unfolding w1_def by (rule idxt.del_write_base)
  note it0 = idxt.iterator_init_ok [OF L Bc] and hwt = idxm.head_with_tail_iff [OF L Bc]
  have finish: "\<exists>x'. nat_clear_meta x1 s = Some x' \<and> idx_linv x' C1 \<and> same_shape x x' \<and> idx_map x' = idx_map x1"
    if f: "idx_linv x1 C1" "same_shape x x1" "unat s < tab_sz x" "idx_map x1 s = None" for x1 C1 s
  proof -
    have "\<not> tv index_entry_interface x1 s"
      using f(3,4) same_shapeD(10) [OF f(2)] by (auto simp: idx_map_def tbl_rules_def split: if_splits)
    then obtain x' where x': "nat_clear_meta x1 s = Some x'" "idx_linv x' C1" "same_shape x1 x'" "idx_map x' = idx_map x1"
      using idx_clear_meta [OF f(1), of s] f(3) same_shapeD(10) [OF f(2)] by auto
    then show ?thesis using same_shape_trans [OF f(2) x'(3)] by blast
  qed
  show ?thesis
  proof (cases "us = [] \<and> vs \<noteq> []")
    case False
    then have "us \<noteq> [] \<or> vs = []" by blast
    from idx_remove_plain [OF L Bc this] obtain xh x1 C1 where P:
      "idx_hw [w1] x = Some xh" "same_shape x xh"
      "ipa_table_delete_entry index_entry_interface nat_indx_zero xh (iter_at us y vs) False = Some x1"
      "idx_linv x1 C1" "same_shape x x1" "idx_map x1 = (idx_map x)(y := None)"
      unfolding w1_def by auto
    obtain x' where x': "nat_clear_meta x1 y = Some x'" "idx_linv x' C1" "same_shape x x'" "idx_map x' = idx_map x1"
      using finish [OF P(4,5) iy(1)] P(6) by auto
    have nh: "\<not> ipa_table_iterator_is_head_with_tail (iter_at us y vs)" using hwt False by blast
    have ci: "it_curr_index (iter_at us y vs) = y" by (simp add: iter_at_def)
    have sh: "\<not> idx_shared x y" using F(4,7) False by (cases vs) (auto simp: idx_shared_def tn_def)
    show ?thesis
      using bi it0 c0 nh p0 b1 P(1,2,3) x' R sh same_shape_refl ci dma_room_mono [OF p0(2), of 1]
        nat_linked_del [OF R(2) rx] P(6)
      by (intro exI [of _ "iter_at us y vs"] exI [of _ cmd0] exI [of _ t] exI [of _ "[w1]"] exI [of _ xh] exI [of _ x'])
        (simp del: fun_upd_apply, blast)
  next
    case True
    then obtain z vt where v: "us = []" "vs = z # vt" by (cases vs) auto
    have Bh: "C c = y # z # vt" "c = y" using Bc v F(6) by auto
    have By: "C y = y # z # vt" using Bh by simp
    obtain xa where xa: "idx_hw [w1] x = Some xa" "idx_linv xa C" "same_shape x xa"
        "ix_tbl_entry (recs xa ! unat y) = ix_tbl_entry (recs x ! unat z)"
        "\<forall>i. i \<noteq> y \<longrightarrow> recs xa ! unat i = recs x ! unat i"
        "idx_map xa = (idx_map x)(y \<mapsto> ix_tbl_entry (recs xa ! unat y))"
      using idx_remove_head [OF L By] v unfolding w1_def by auto
    have Bz: "C y = [y] @ z # vt" using By by simp
    note Z = idxt.list_facts [OF L Bz] and Za = idxt.list_facts [OF xa(2) Bz]
    define q where "q = ix_tbl_entry (recs x ! unat z)"
    have Xz: "idx_map x z = Some q" using Z(1,3) by (simp add: idx_map_def tbl_rules_def q_def)
    obtain j where j: "nat_map t q = Some j" "nr_indx_tbl_entry j = z"
      using R(2) Xz unfolding nat_linked_def by blast
    define t0 where "t0 = t\<lparr>recs := (recs t)[unat q := (recs t ! unat q)\<lparr>nr_indx_tbl_entry := y\<rparr>]\<rparr>"
    note S = nat_set_index(1) [OF R(1) j(1)] nat_set_index(2-5) [OF R(1) j(1), of y, folded t0_def]
    have zy: "z \<noteq> y" using Z(9) by auto
    define w2 where "w2 = idxt.del_write xa [y] z vt"
    define cmd where "cmd = dma_push cmd0 w2"
    have rz: "rec_get x z = Some (recs x ! unat z)" by (rule idxt.rec_get_in [OF idxt.invD(1) [OF L] Z(3)])
    have nz: "ix_next_index (recs x ! unat z) = (case vt of [] \<Rightarrow> 0 | d # _ \<Rightarrow> d)"
      using Z(4) by (simp add: tn_def)
    have di: "dma_index xa HELP_UPDATE_ENTRY = dma_index x HELP_UPDATE_ENTRY"
      using same_shapeD(8) [OF xa(3)] by (simp add: dma_index_def)
    have da: "dma_at 4 IPA_NAT_INDX_TBL IPA_NAT_INDEX_EXPN_TBL idx_off xa = dma_at 4 IPA_NAT_INDX_TBL IPA_NAT_INDEX_EXPN_TBL idx_off x"
      using same_shapeD(3) [OF xa(3)] by (simp add: fun_eq_iff dma_at_def)
    have p02: "dma_room cmd0 (Suc 1)" using p0(2) by (simp add: eval_nat_numeral)
    have add2: "ipa_table_add_dma_cmd x HELP_UPDATE_ENTRY (Some y) y (ix_next_index (recs x ! unat z)) cmd0 = Some (0, cmd)"
      using idxt.esz(1) idxt.invD(1) [OF L] iy(1)
      by (subst add_dma_cmd_at [OF idxt.invD(1) [OF L] iy(1) p02])
        (simp_all add: cmd_def w2_def idxt.del_write_def di da nz)
    have copy: "ipa_nati_copy_second_index_entry_to_head T (iter_at [] y (z # vt)) cmd0 = Some (T\<lparr>nt_table := t0\<rparr>, cmd)"
      using add2 rz S(1,2) T by (simp add: ipa_nati_copy_second_index_entry_to_head_def iter_at_def q_def)
    have nx: "ipa_table_iterator_next index_entry_interface (iter_at [] y (z # vt)) x = Some (0, iter_at [y] z vt)"
      using idxt.iterator_next_ok [OF L, of y "[]" y z vt] By by simp
    from idx_remove_plain [OF xa(2) Bz] obtain xh x1 C1 where P:
      "idx_hw [w2] xa = Some xh" "same_shape xa xh"
      "ipa_table_delete_entry index_entry_interface nat_indx_zero xh (iter_at [y] z vt) False = Some x1"
      "idx_linv x1 C1" "same_shape xa x1" "idx_map x1 = (idx_map xa)(z := None)"
      unfolding w2_def by auto
    have s1: "same_shape x x1" using same_shape_trans [OF xa(3) P(5)] .
    obtain x' where x': "nat_clear_meta x1 z = Some x'" "idx_linv x' C1" "same_shape x x'" "idx_map x' = idx_map x1"
      using finish [OF P(4) s1 Z(3)] P(6) by auto
    have pc: "dma_posted cmd = [w1, w2]" "dma_room cmd 1"
      using dma_push [OF p02, of w2] p0(1) by (simp_all add: cmd_def)
    have b2: "d_base_addr w2 \<in> {IPA_NAT_INDX_TBL, IPA_NAT_INDEX_EXPN_TBL}"
      unfolding w2_def by (rule idxt.del_write_base)
    have hw: "idx_hw [w1, w2] x = Some xh" using xa(1) P(1) by (auto split: Option.bind_splits)
    have ht: "ipa_table_iterator_is_head_with_tail (iter_at [] y (z # vt))" using hwt v by simp
    have map': "idx_map x' = (idx_map x)(y \<mapsto> q, z := None)" using x'(4) P(6) xa(4,6) by (simp add: q_def)
    have lk: "nat_linked ((nat_map t0)(r := None)) (idx_map x')"
      using nat_linked_move [OF R(2) rx Xz j(1) zy] by (simp add: S(5) map')
    have drop: "map_option (\<lambda>k. k\<lparr>nr_indx_tbl_entry := 0\<rparr>) (nat_map t0 i) = map_option (\<lambda>k. k\<lparr>nr_indx_tbl_entry := 0\<rparr>) (nat_map t i)" for i
      using j(1) by (simp add: S(5))
    have ci: "it_curr_index (iter_at [y] z vt) = z" by (simp add: iter_at_def)
    have sh: "idx_shared x y" using F(4,8) v Bh(2) Z(2) by (simp add: idx_shared_def tn_def)
    have qr: "q \<noteq> r" using j rx zy by auto
    have nl: "\<not> nat_linked (nat_map t0) (idx_map x)"
    proof
      assume "nat_linked (nat_map t0) (idx_map x)"
      moreover have "nat_map t0 q = Some (j\<lparr>nr_indx_tbl_entry := y\<rparr>)" by (simp add: S(5))
      ultimately have "idx_map x y = Some q" unfolding nat_linked_def by fastforce
      then show False using Xy qr by simp
    qed
    show ?thesis
      using sh nl bi it0 c0 ht copy nx pc b1 b2 hw same_shape_trans [OF xa(3) P(2)] P(3) x' S(3,4) lk drop v ci
      by (intro exI [of _ "iter_at [] y (z # vt)"] exI [of _ "iter_at [y] z vt"] exI [of _ cmd] exI [of _ t0]
          exI [of _ "[w1, w2]"] exI [of _ xh] exI [of _ x']) (simp del: fun_upd_apply hw_writes.simps, blast)
  qed
qed

text \<open>The whole deletion of a rule that is there.\<close>

lemma nat_same_dead: "nat_dead (nat_key e) \<longleftrightarrow> nr_protocol e = IPAHAL_NAT_INVALID_PROTOCOL"
  by (simp add: nat_dead_def nat_key_def)

definition nat_del_out :: "ipa_nat_ip4_table_cache \<Rightarrow> uint16 \<Rightarrow> int \<Rightarrow> ipa_nat_ip4_table_cache \<Rightarrow> bool" where
  "nat_del_out T x ret T' \<longleftrightarrow> nat_same_but_tables T T' \<and>
     (if ret = 0 then nat_pair_of T' \<and> nat_rule_at T' = (nat_rule_at T)(x := None)
      else ret = - EIO \<and> nat_rule_at T' = nat_rule_at T \<and>
        (nat_pair_of T' \<longleftrightarrow> \<not> idx_shared (nt_index_table T) (nr_indx_tbl_entry (recs (nt_table T) ! unat x))))"

lemma nat_del_locked:
  assumes P: "nat_pair_of T" and desc: "nc_desc cache = Some desc" and spec: "nat_dma_spec os"
    and x: "x = snd (snd (BREAK_RULE_HDL (nt_table T) hdl))" "nat_rule_at T x \<noteq> None"
  shows "\<exists>ret T' w'. nat_del_rule_locked os cache T hdl w = Some (ret, T', w') \<and> nat_del_out T x ret T' \<and>
    (nat_dma_total os \<longrightarrow> ret = 0)"
proof -
  define t where "t = nt_table T"
  define ix where "ix = nt_index_table T"
  obtain B C where I: "nat_tab_inv t B" "nat_linv t B" "idx_linv ix C" "table_entries ix = table_entries t"
      "nat_linked (nat_map t) (idx_map ix)"
    using nat_pairE [OF P] unfolding t_def ix_def by blast
  note W = tbl_wfD [OF natt.invD(1) [OF I(2)]] and V = tbl_wfD [OF idxt.invD(1) [OF I(3)]]
  obtain k where k: "nat_map t x = Some k" using x(2) by (auto simp: nat_rule_at_def t_def)
  then have xk: "unat x < tab_sz t" "tv nat_entry_interface t x" "nat_key (recs t ! unat x) = k"
    by (auto simp: nat_map_def tbl_rules_def split: if_splits)
  have ge: "ipa_table_get_entry t hdl = (0, Some x, x)"
    using nat_get_entry [OF I(2), of hdl] x(1) xk(1) by (simp add: t_def Let_def)
  obtain h where "x \<in> set (B h)" using natm.tv_iff [OF I(2) xk(1)] xk(2) by blast
  then obtain ys zs where Bh: "B h = ys @ x # zs" by (meson split_list)
  note F = natt.list_facts [OF I(2) Bh] and it = natt.iterator_init_ok [OF I(2) Bh]
  have hwt: "ipa_table_iterator_is_head_with_tail (iter_at ys x zs) \<longleftrightarrow> zs \<noteq> [] \<and> ys = []"
    by (rule natm.head_with_tail_iff [OF I(2) Bh])
  have rg: "rec_get t x = Some (recs t ! unat x)" by (rule natt.rec_get_in [OF natt.invD(1) [OF I(2)] xk(1)])
  define y where "y = nr_indx_tbl_entry (recs t ! unat x)"
  have ky: "nr_indx_tbl_entry k = y" using xk(3) by (auto simp: y_def nat_key_def)
  obtain it0 itx cmd t0 ws xh x' cmd0 x1 C' where D: "ipa_table_get_entry_by_index ix y = Some y"
      "ipa_table_iterator_init index_entry_interface ix y y = Some (0, it0)"
      "ipa_table_create_delete_command index_entry_interface ix (dma_cmd_init 3) it0 = Some cmd0"
      "if ipa_table_iterator_is_head_with_tail it0
       then ipa_nati_copy_second_index_entry_to_head T it0 cmd0 = Some (T\<lparr>nt_table := t0\<rparr>, cmd) \<and>
         ipa_table_iterator_next index_entry_interface it0 ix = Some (0, itx)
       else t0 = t \<and> itx = it0 \<and> cmd = cmd0"
      "dma_room cmd 1" "dma_posted cmd = ws"
      "\<forall>one \<in> set ws. d_base_addr one \<in> {IPA_NAT_INDX_TBL, IPA_NAT_INDEX_EXPN_TBL}"
      "idx_hw ws ix = Some xh" "same_shape ix xh"
      "ipa_table_delete_entry index_entry_interface nat_indx_zero xh itx False = Some x1"
      "nat_clear_meta x1 (it_curr_index itx) = Some x'" "idx_linv x' C'" "same_shape ix x'"
      "nat_tab_inv t0 B" "same_shape t t0"
      "\<forall>v. map_option (\<lambda>k. k\<lparr>nr_indx_tbl_entry := 0\<rparr>) (nat_map t0 v) = map_option (\<lambda>k. k\<lparr>nr_indx_tbl_entry := 0\<rparr>) (nat_map t v)"
      "nat_linked ((nat_map t0)(x := None)) (idx_map x')"
      "nat_linked (nat_map t0) (idx_map ix) \<longleftrightarrow> \<not> idx_shared ix y"
    using idx_remove_all [OF I(3,1,5) k ky t_def [symmetric] ix_def [symmetric]]
    by (elim exE conjE) (rule that; assumption)
  have L0: "nat_linv t0 B" using D(14) by (simp add: nat_tab_inv_def)
  have stage: "(if ipa_table_iterator_is_head_with_tail it0 then do {
                   (nat_table, cmd) \<leftarrow> ipa_nati_copy_second_index_entry_to_head T it0 cmd0;
                   (ret, it) \<leftarrow> ipa_table_iterator_next index_entry_interface it0 (nt_index_table nat_table);
                   Some (ret, it, nat_table, cmd)
                 }
                 else Some (0, it0, T, cmd0)) = Some (0, itx, T\<lparr>nt_table := t0\<rparr>, cmd)"
  proof (cases "ipa_table_iterator_is_head_with_tail it0")
    case True
    have e: "nt_index_table (T\<lparr>nt_table := t0\<rparr>) = ix" by (simp add: ix_def)
    from D(4) True have "ipa_nati_copy_second_index_entry_to_head T it0 cmd0 = Some (T\<lparr>nt_table := t0\<rparr>, cmd)"
      "ipa_table_iterator_next index_entry_interface it0 ix = Some (0, itx)" by simp_all
    then show ?thesis using True by (simp add: e)
  next
    case False
    have e: "T\<lparr>nt_table := t\<rparr> = T" by (simp add: t_def)
    from D(4) False have "t0 = t" "itx = it0" "cmd = cmd0" by simp_all
    then show ?thesis using False e by simp
  qed
  have r1: "dma_room cmd (Suc 0)" using D(5) by simp
  define w3 where "w3 = natt.del_write t0 ys x zs"
  have cd: "ipa_table_create_delete_command nat_entry_interface t0 cmd (iter_at ys x zs) = Some (dma_push cmd w3)"
    unfolding w3_def by (rule natt.create_delete_command_ok [OF L0 Bh r1])
  have posted: "dma_posted (dma_push cmd w3) = ws @ [w3]" using dma_push(1) [OF r1] D(6) by simp
  have b3: "\<forall>one \<in> set [w3]. d_base_addr one \<in> {IPA_NAT_BASE_TBL, IPA_NAT_EXPN_TBL}"
    using natt.del_write_base [of t0 ys x zs] by (simp add: w3_def)
  have ihw: "idx_hw (dma_posted (dma_push cmd w3)) ix = Some xh"
    unfolding posted using D(8) nat_idx_disjoint(2) [OF b3 D(7)] by (simp add: hw_writes_append del: hw_writes.simps)
  have sz: "entry_size t0 = 32" "entry_size ix = 4" "table_entries ix = table_entries t0"
    using same_shapeD(2,3) [OF D(15)] W(2) V(2) I(4) by simp_all
  have Tix: "T\<lparr>nt_table := a, nt_index_table := ix\<rparr> = T\<lparr>nt_table := a\<rparr>" for a by (simp add: ix_def)
  have done_rules: "nat_rule_at (T\<lparr>nt_table := a, nt_index_table := b\<rparr>) = (nat_rule_at T)(x := None)"
    if "nat_map a = (nat_map t0)(x := None)" for a b
    using D(16) that by (auto simp: nat_rule_at_def t_def fun_eq_iff)
  have pair: "nat_del_out T x 0 (T\<lparr>nt_table := t', nt_index_table := x'\<rparr>)"
    if t': "nat_tab_inv t' B'" "same_shape t0 t'" "nat_map t' = (nat_map t0)(x := None)" for t' B'
  proof -
    have s: "same_shape t t'" using same_shape_trans [OF D(15) t'(2)] .
    have "nat_pair_of (T\<lparr>nt_table := t', nt_index_table := x'\<rparr>)"
      by (rule nat_pairI [of _ B' C'])
        (use t'(1,3) D(12,17) same_shapeD(3) [OF s] same_shapeD(3) [OF D(13)] I(4) in simp_all)
    then show ?thesis using done_rules [OF t'(3)] s D(13) by (simp add: nat_del_out_def nat_same_but_tables_def t_def ix_def)
  qed
  have "nat_pair_of (T\<lparr>nt_table := t0\<rparr>) \<longleftrightarrow> \<not> idx_shared ix y"
    using D(14,15,18) I(3,4) same_shapeD(3) [OF D(15)] by (auto simp: nat_pair_of_def nat_pair_inv_def ix_def)
  then have failed: "nat_del_out T x (- EIO) (T\<lparr>nt_table := t0\<rparr>)"
    using D(15,16) same_shape_refl by (auto simp: y_def ix_def nat_del_out_def nat_same_but_tables_def nat_rule_at_def t_def fun_eq_iff)
  have reliable: "\<not> nat_dma_total os" if "fst (fst (os_dma os fd c m v)) \<noteq> 0" for fd c m v
    using that unfolding nat_dma_total_def by blast
  show ?thesis
  proof (cases "ys = [] \<and> zs \<noteq> []")
    case True
    then obtain z zt where Bz: "B h = h # z # zt" "zs = z # zt" "x = h" "ys = []" using Bh F(6) by (cases zs) auto
    obtain th where th: "nat_hw [w3] t0 = Some th" "nat_tab_inv th B" "same_shape t0 th" "nat_map th = (nat_map t0)(x := None)"
      using nat_remove_head [OF D(14) Bz(1)] Bz by (auto simp: w3_def nat_dead_def nat_delk_def)
    have nhw: "nat_hw (dma_posted (dma_push cmd w3)) t0 = Some th"
      unfolding posted using th(1) nat_idx_disjoint(1) [OF b3 D(7)] by (simp add: hw_writes_append del: hw_writes.simps)
    obtain q :: int and w' where q: "ipa_nati_post_ipv4_dma_cmd os cache (dma_push cmd w3) (T\<lparr>nt_table := t0\<rparr>) w =
        Some (if q = 0 then (0, T\<lparr>nt_table := th, nt_index_table := xh\<rparr>) else (- EIO, T\<lparr>nt_table := t0\<rparr>), w')"
        "q = 0 \<longleftrightarrow> fst (fst (os_dma os (desc_fd desc) ((dma_push cmd w3)\<lparr>dma_mem_type := nc_nmi cache\<rparr>) (table_entries t0, recs t0, recs ix) w)) = 0"
      using nat_post [OF spec desc sz(1) nhw sz(2,3) ihw, of T w] unfolding Tix by blast
    have ht: "ipa_table_iterator_is_head_with_tail (iter_at ys x zs)" using hwt True by blast
    have "nat_del_rule_locked os cache T hdl w =
        Some (if q = 0 then (0, T\<lparr>nt_table := th, nt_index_table := x'\<rparr>, w') else (- EIO, T\<lparr>nt_table := t0\<rparr>, w'))"
      using ge it rg D(1-3,10,11) stage cd q(1) ht
      by (simp add: nat_del_rule_locked_def t_def [symmetric] ix_def [symmetric] y_def [symmetric])
    then show ?thesis
      using pair [OF th(2-4)] failed q(2) reliable by (cases "q = 0") auto
  next
    case False
    then have "ys \<noteq> [] \<or> zs = []" by blast
    from nat_remove_plain [OF D(14) Bh this] obtain th t' B' where R:
      "nat_hw [w3] t0 = Some th" "same_shape t0 th"
      "ipa_table_delete_entry nat_entry_interface nat_rule_zero th (iter_at ys x zs)
        (ys \<noteq> [] \<and> nat_dead (nat_key (recs th ! unat (last ys)))) = Some t'"
      "nat_tab_inv t' B'" "same_shape t0 t'" "nat_map t' = (nat_map t0)(x := None)"
      unfolding w3_def by blast
    have nhw: "nat_hw (dma_posted (dma_push cmd w3)) t0 = Some th"
      unfolding posted using R(1) nat_idx_disjoint(1) [OF b3 D(7)] by (simp add: hw_writes_append del: hw_writes.simps)
    have "rec_get th (last ys) = Some (recs th ! unat (last ys))" if "ys \<noteq> []"
    proof -
      have "B h = butlast ys @ last ys # x # zs" using Bh that by simp
      then have "unat (last ys) < tab_sz t" by (rule natt.list_facts(3) [OF I(2)])
      then show ?thesis
        using same_shapeD(9) [OF R(2)] same_shapeD(9) [OF D(15)] W(3) by (simp add: rec_get_def arr_simps)
    qed
    then have pe: "(case it_prev_entry (iter_at ys x zs) of None \<Rightarrow> Some False
            | Some p \<Rightarrow> (case rec_get (nt_table (T\<lparr>nt_table := th, nt_index_table := xh\<rparr>)) p of None \<Rightarrow> None
                | Some e \<Rightarrow> Some (nr_protocol e = IPAHAL_NAT_INVALID_PROTOCOL))) =
        Some (ys \<noteq> [] \<and> nat_dead (nat_key (recs th ! unat (last ys))))"
      by (cases "ys = []") (simp_all add: iter_at_def nat_same_dead)
    obtain q :: int and w' where q: "ipa_nati_post_ipv4_dma_cmd os cache (dma_push cmd w3) (T\<lparr>nt_table := t0\<rparr>) w =
        Some (if q = 0 then (0, T\<lparr>nt_table := th, nt_index_table := xh\<rparr>) else (- EIO, T\<lparr>nt_table := t0\<rparr>), w')"
        "q = 0 \<longleftrightarrow> fst (fst (os_dma os (desc_fd desc) ((dma_push cmd w3)\<lparr>dma_mem_type := nc_nmi cache\<rparr>) (table_entries t0, recs t0, recs ix) w)) = 0"
      using nat_post [OF spec desc sz(1) nhw sz(2,3) ihw, of T w] unfolding Tix by blast
    have nh: "\<not> ipa_table_iterator_is_head_with_tail (iter_at ys x zs)" using hwt False by blast
    have "nat_del_rule_locked os cache T hdl w =
        Some (if q = 0 then (0, T\<lparr>nt_table := t', nt_index_table := x'\<rparr>, w') else (- EIO, T\<lparr>nt_table := t0\<rparr>, w'))"
      using ge it rg D(1-3,10,11) stage cd q(1) nh pe R(3)
      by (simp add: nat_del_rule_locked_def t_def [symmetric] ix_def [symmetric] y_def [symmetric])
    then show ?thesis
      using pair [OF R(4-6)] failed q(2) reliable by (cases "q = 0") auto
  qed
qed

end
