(* ===== verification/Ipa_Nat_Api.thy ===== *)
theory Ipa_Nat_Api
  imports Ipa_Nat_Del
begin

text \<open>
  The calls \<open>ipa_NATI_*\<close> on a module whose table is in use, in either kind of memory: insertion and
  deletion as operations on the map of rules, clearing, time stamps, creation and deletion of the
  table, and the states every history of calls stays in.
\<close>

section \<open>The module with its table in use\<close>

definition nat_table_of :: "ipa3_nat_mem_in \<Rightarrow> nat_state \<Rightarrow> ipa_nat_ip4_table_cache" where
  "nat_table_of nmi st = nc_tbl (ns_cache st nmi) ! 0"

definition nat_inv :: "ipa3_nat_mem_in \<Rightarrow> nat_state \<Rightarrow> bool" where
  "nat_inv nmi st \<longleftrightarrow> nc_desc (ns_cache st nmi) \<noteq> None \<and> length (nc_tbl (ns_cache st nmi)) = 1 \<and>
     nc_table_cnt (ns_cache st nmi) = 1 \<and> md_valid (nt_mem_desc (nat_table_of nmi st)) \<and>
     nat_pair_of (nat_table_of nmi st) \<and> tbl_nmi (nt_table (nat_table_of nmi st)) = nmi \<and>
     length (ns_pdns st) = IPA_MAX_PDN_NUM"

definition nat_rules :: "ipa3_nat_mem_in \<Rightarrow> nat_state \<Rightarrow> uint16 \<Rightarrow> ipa_nat_rule option" where
  "nat_rules nmi st = nat_rule_at (nat_table_of nmi st)"

definition nat_handle :: "ipa3_nat_mem_in \<Rightarrow> nat_state \<Rightarrow> uint16 \<Rightarrow> uint32" where
  "nat_handle nmi st s = ucast (MakeEntryHdl (nt_table (nat_table_of nmi st)) s)"

definition nat_slot :: "ipa3_nat_mem_in \<Rightarrow> nat_state \<Rightarrow> uint32 \<Rightarrow> uint16" where
  "nat_slot nmi st h = snd (snd (BREAK_RULE_HDL (nt_table (nat_table_of nmi st)) h))"

definition nat_room :: "ipa3_nat_mem_in \<Rightarrow> nat_state \<Rightarrow> ipa_nat_ipv4_rule \<Rightarrow> bool" where
  "nat_room nmi st u \<longleftrightarrow> nat_has_room st (the (nc_desc (ns_cache st nmi))) (nat_table_of nmi st) u"

text \<open>The handles of the one table in a kind of memory, and the rules the API accepts.\<close>

definition nat_hdl_of :: "ipa3_nat_mem_in \<Rightarrow> uint32 \<Rightarrow> bool" where
  "nat_hdl_of nmi h \<longleftrightarrow> VALID_TBL_HDL h \<and> fst (BREAK_TBL_HDL h) = nmi"

definition nat_accepts :: "nat_state \<Rightarrow> ipa_nat_ipv4_rule \<Rightarrow> bool" where
  "nat_accepts st u \<longleftrightarrow> v4_protocol u \<noteq> IPAHAL_NAT_INVALID_PROTOCOL \<and> unat (v4_pdn_index u) < IPA_MAX_PDN_NUM \<and>
     pdn_public_ip (ns_pdns st ! unat (v4_pdn_index u)) \<noteq> 0"

lemma nat_hdl_break: "nat_hdl_of nmi h \<Longrightarrow> BREAK_TBL_HDL h = (nmi, 1)"
  by (auto simp: nat_hdl_of_def VALID_TBL_HDL_def BREAK_TBL_HDL_def)

lemma nat_invE:
  assumes "nat_inv nmi st"
  obtains desc T where "nc_desc (ns_cache st nmi) = Some desc" "nc_tbl (ns_cache st nmi) = [T]"
    "nc_table_cnt (ns_cache st nmi) = 1" "md_valid (nt_mem_desc T)" "nat_pair_of T"
    "length (ns_pdns st) = IPA_MAX_PDN_NUM" "nat_table_of nmi st = T"
  using assms by (cases "nc_tbl (ns_cache st nmi)") (auto simp: nat_inv_def nat_table_of_def)

text \<open>What an operation on the one table leaves alone.\<close>

definition nat_only :: "ipa3_nat_mem_in \<Rightarrow> nat_state \<Rightarrow> nat_state \<Rightarrow> bool" where
  "nat_only nmi st st' \<longleftrightarrow> (\<forall>m. m \<noteq> nmi \<longrightarrow> ns_cache st' m = ns_cache st m) \<and> ns_pdns st' = ns_pdns st \<and>
     ns_num_pdns st' = ns_num_pdns st \<and> nc_desc (ns_cache st' nmi) = nc_desc (ns_cache st nmi) \<and>
     nc_nmi (ns_cache st' nmi) = nc_nmi (ns_cache st nmi) \<and>
     same_shape (nt_table (nat_table_of nmi st)) (nt_table (nat_table_of nmi st')) \<and>
     same_shape (nt_index_table (nat_table_of nmi st)) (nt_index_table (nat_table_of nmi st'))"

lemma nat_only_refl: "nat_only nmi st st"
  by (simp add: nat_only_def same_shape_refl)

lemma nat_put:
  assumes I: "nat_inv nmi st" and T: "nat_same_but_tables (nat_table_of nmi st) T'"
    and s: "st1 = st\<lparr>ns_hash_token := k\<rparr>"
  shows "(nat_inv nmi (set_tbl nmi 0 T' st1) \<longleftrightarrow> nat_pair_of T') \<and> nat_table_of nmi (set_tbl nmi 0 T' st1) = T' \<and>
    nat_only nmi st (set_tbl nmi 0 T' st1)"
proof -
  from I obtain desc T where N: "nc_desc (ns_cache st nmi) = Some desc" "nc_tbl (ns_cache st nmi) = [T]"
    "nc_table_cnt (ns_cache st nmi) = 1" "md_valid (nt_mem_desc T)" "nat_pair_of T"
    "length (ns_pdns st) = IPA_MAX_PDN_NUM" "nat_table_of nmi st = T" by (rule nat_invE)
  have m: "nt_mem_desc T' = nt_mem_desc T"
    using T unfolding N(7) nat_same_but_tables_def
    by (metis ipa_nat_ip4_table_cache.select_convs(2) ipa_nat_ip4_table_cache.surjective
        ipa_nat_ip4_table_cache.update_convs(3,4))
  show ?thesis
    using N T m I same_shapeD(1) [of "nt_table T" "nt_table T'"]
    by (auto simp: s nat_inv_def nat_only_def nat_table_of_def set_tbl_def set_cache_def nat_same_but_tables_def)
qed

lemma nat_reliableD:
  assumes "nat_reliable os"
  shows "os_lock os w = (l, w1) \<Longrightarrow> l = 0" "os_unlock os w = (l, w1) \<Longrightarrow> l = 0"
  using assms unfolding nat_reliable_def by (metis fst_conv)+

lemma nat_reliable_total: "nat_reliable os \<Longrightarrow> nat_dma_total os"
  by (simp add: nat_reliable_def)

lemma nat_unlock_ret:
  assumes "nat_unlock os ret w = (q, w')"
  shows "q = ret \<or> (ret = 0 \<and> q = - EPERM \<and> \<not> nat_reliable os)"
proof -
  obtain v u where v: "os_unlock os w = (v, u)" by fastforce
  have "nat_reliable os \<Longrightarrow> v = 0" using nat_reliableD(2) [OF _ v] .
  then show ?thesis using assms v by (auto simp: nat_unlock_def split: if_splits)
qed

section \<open>Adding a rule\<close>

lemma nat_add_rule:
  assumes I: "nat_inv nmi st" and spec: "nat_dma_spec os" and h: "nat_hdl_of nmi h" and u: "nat_accepts st u"
  shows "\<exists>ret hdl st' w'. ipa_NATI_add_ipv4_rule os h (Some u) True st w = Some ((ret, Some hdl), st', w') \<and>
    nat_inv nmi st' \<and> nat_only nmi st st' \<and>
    ((\<exists>s. s \<noteq> 0 \<and> nat_rules nmi st s = None \<and>
        nat_rules nmi st' = (nat_rules nmi st)(s \<mapsto> nat_ukey (ns_pdns st, u)) \<and>
        (ret, hdl) \<in> {(0, nat_handle nmi st s), (- EPERM, 0)}) \<or>
     (nat_rules nmi st' = nat_rules nmi st \<and> hdl = 0 \<and> ret \<in> {- 1, - EIO, - EINVAL})) \<and>
    (nat_reliable os \<longrightarrow> (ret = 0 \<longleftrightarrow> nat_room nmi st u) \<and> (ret \<noteq> 0 \<longrightarrow> nat_rules nmi st' = nat_rules nmi st))"
proof -
  from I obtain desc T where N: "nc_desc (ns_cache st nmi) = Some desc" "nc_tbl (ns_cache st nmi) = [T]"
    "nc_table_cnt (ns_cache st nmi) = 1" "md_valid (nt_mem_desc T)" "nat_pair_of T"
    "length (ns_pdns st) = IPA_MAX_PDN_NUM" "nat_table_of nmi st = T" by (rule nat_invE)
  have V: "VALID_TBL_HDL h" "BREAK_TBL_HDL h = (nmi, 1)" using h nat_hdl_break by (auto simp: nat_hdl_of_def)
  have U: "v4_protocol u \<noteq> IPAHAL_NAT_INVALID_PROTOCOL" "unat (v4_pdn_index u) < IPA_MAX_PDN_NUM"
    "pdn_public_ip (ns_pdns st ! unat (v4_pdn_index u)) \<noteq> 0" using u by (auto simp: nat_accepts_def)
  have p: "arr_get (ns_pdns st) (unat (v4_pdn_index u)) = Some (ns_pdns st ! unat (v4_pdn_index u))"
    using U(2) N(6) by (simp add: arr_get_def)
  have t: "arr_get (nc_tbl (ns_cache st nmi)) 0 = Some T" using N(2) by (simp add: arr_get_def)
  obtain l w1 where l: "os_lock os w = (l, w1)" by fastforce
  show ?thesis
  proof (cases "l = 0")
    case False
    then have "\<not> nat_reliable os" using l nat_reliableD(1) by metis
    moreover have "ipa_NATI_add_ipv4_rule os h (Some u) True st w = Some ((- EINVAL, Some 0), st, w1)"
      using V U p l False by (simp add: ipa_NATI_add_ipv4_rule_def)
    ultimately show ?thesis using I nat_only_refl by blast
  next
    case True
    obtain ret hdl T' tok w2 where A: "nat_add_rule_locked os (ns_cache st nmi) T u st w1 =
        Some ((ret, hdl, T'), st\<lparr>ns_hash_token := tok\<rparr>, w2)"
        "nat_add_out st T u ret hdl T'" "nat_dma_total os \<longrightarrow> (ret = 0 \<longleftrightarrow> nat_has_room st desc T u)"
      using nat_add_locked [OF N(5,1) spec _ U(1), of st w1] U(2) N(6) by auto
    define st' where "st' = set_tbl nmi 0 T' (st\<lparr>ns_hash_token := tok\<rparr>)"
    have P: "nat_inv nmi st'" "nat_table_of nmi st' = T'" "nat_only nmi st st'"
      using nat_put [OF I _ refl, of T' tok] A(2) by (simp_all add: nat_add_out_def N(7) st'_def)
    obtain v w3 where v: "os_unlock os w2 = (v, w3)" by fastforce
    have res: "ipa_NATI_add_ipv4_rule os h (Some u) True st w =
        Some ((if ret \<noteq> 0 then ret else if v \<noteq> 0 then - EPERM else 0, Some (if ret = 0 \<and> v = 0 then hdl else 0)), st', w3)"
      using V U p t l True A(1) v N(4) by (simp add: ipa_NATI_add_ipv4_rule_def st'_def)
    have rel: "nat_reliable os \<longrightarrow> v = 0" using v nat_reliableD(2) by metis
    have R: "nat_rules nmi st = nat_rule_at T" "nat_rules nmi st' = nat_rule_at T'" by (simp_all add: nat_rules_def N(7) P(2))
    have Hs: "nat_handle nmi st s = ucast (MakeEntryHdl (nt_table T) s)" for s by (simp add: nat_handle_def N(7))
    have Rm: "nat_room nmi st u = nat_has_room st desc T u" by (simp add: nat_room_def N(1,7))
    show ?thesis
    proof (cases "ret = 0")
      case True
      then obtain s where s: "s \<noteq> 0" "nat_rule_at T s = None" "hdl = ucast (MakeEntryHdl (nt_table T) s)"
          "nat_rule_at T' = (nat_rule_at T)(s \<mapsto> nat_ukey (ns_pdns st, u))"
        using A(2) by (auto simp: nat_add_out_def)
      show ?thesis
      proof (cases "v = 0")
        case v0: True
        then show ?thesis using res True s P R A(3) nat_reliable_total Hs Rm by (intro exI [of _ ret]) auto
      next
        case False
        then show ?thesis using res True s P R rel by (intro exI [of _ "- EPERM :: int"]) auto
      qed
    next
      case False
      then show ?thesis using res A(2,3) nat_reliable_total P R Rm by (intro exI [of _ ret]) (auto simp: nat_add_out_def)
    qed
  qed
qed

section \<open>Deleting a rule\<close>

lemma nat_rules_slot:
  "nat_rules nmi st s \<noteq> None \<Longrightarrow> unat s < tab_sz (nt_table (nat_table_of nmi st)) \<and>
     tv nat_entry_interface (nt_table (nat_table_of nmi st)) s"
  by (auto simp: nat_rules_def nat_rule_at_def nat_map_def tbl_rules_def split: if_splits)

lemma nat_inv_sized: "nat_inv nmi st \<Longrightarrow> tbl_sized (nt_table (nat_table_of nmi st))"
proof -
  assume "nat_inv nmi st"
  then have "nat_pair_of (nat_table_of nmi st)" by (simp add: nat_inv_def)
  then show ?thesis by (rule nat_pairE) (metis natt.invD(1) tbl_wfD(1))
qed

lemma nat_handle_slot:
  assumes "nat_inv nmi st" "nat_rules nmi st s \<noteq> None"
  shows "nat_slot nmi st (nat_handle nmi st s) = s"
  using break_make_hdl [OF nat_inv_sized [OF assms(1)]] nat_rules_slot [OF assms(2)]
  by (simp add: nat_slot_def nat_handle_def)

lemma nat_del_unused:
  assumes P: "nat_pair_of T" and x: "x = snd (snd (BREAK_RULE_HDL (nt_table T) hdl))"
    and n: "\<not> (unat x < tab_sz (nt_table T) \<and> tv nat_entry_interface (nt_table T) x)"
  shows "nat_del_rule_locked os cache T hdl w = Some (- EINVAL, T, w)"
proof -
  obtain B where L: "nat_linv (nt_table T) B" using nat_pairE [OF P] by blast
  show ?thesis
  proof (cases "unat x < tab_sz (nt_table T)")
    case True
    then show ?thesis
      using nat_get_entry [OF L, of hdl] x n natt.iterator_init_free [OF L True]
      by (simp add: nat_del_rule_locked_def Let_def)
  next
    case False
    then show ?thesis using nat_get_entry [OF L, of hdl] x by (simp add: nat_del_rule_locked_def Let_def)
  qed
qed

text \<open>The rule behind a handle shares the list of its index slot.\<close>

definition nat_shared :: "ipa3_nat_mem_in \<Rightarrow> nat_state \<Rightarrow> uint32 \<Rightarrow> bool" where
  "nat_shared nmi st r \<longleftrightarrow> (let T = nat_table_of nmi st in
     idx_shared (nt_index_table T) (nr_indx_tbl_entry (recs (nt_table T) ! unat (nat_slot nmi st r))))"

lemma nat_del_rule:
  assumes I: "nat_inv nmi st" and spec: "nat_dma_spec os" and h: "nat_hdl_of nmi h"
    and x: "nat_rules nmi st (nat_slot nmi st r) \<noteq> None"
  shows "\<exists>ret st' w'. ipa_NATI_del_ipv4_rule os h r st w = Some (ret, st', w') \<and>
    (nat_inv nmi st' \<longleftrightarrow> \<not> (ret = - EIO \<and> nat_shared nmi st r)) \<and> nat_only nmi st st' \<and>
    (ret = 0 \<longrightarrow> nat_rules nmi st' = (nat_rules nmi st)(nat_slot nmi st r := None)) \<and>
    (ret \<noteq> 0 \<longrightarrow> nat_rules nmi st' = nat_rules nmi st \<or>
       ret = - EPERM \<and> nat_rules nmi st' = (nat_rules nmi st)(nat_slot nmi st r := None)) \<and>
    (nat_dma_total os \<longrightarrow> ret \<noteq> - EIO) \<and> (nat_reliable os \<longrightarrow> ret = 0)"
proof -
  from I obtain desc T where N: "nc_desc (ns_cache st nmi) = Some desc" "nc_tbl (ns_cache st nmi) = [T]"
    "nc_table_cnt (ns_cache st nmi) = 1" "md_valid (nt_mem_desc T)" "nat_pair_of T"
    "length (ns_pdns st) = IPA_MAX_PDN_NUM" "nat_table_of nmi st = T" by (rule nat_invE)
  have V: "BREAK_TBL_HDL h = (nmi, 1)" using h by (rule nat_hdl_break)
  have t: "arr_get (nc_tbl (ns_cache st nmi)) 0 = Some T" using N(2) by (simp add: arr_get_def)
  have sl: "nat_slot nmi st r = snd (snd (BREAK_RULE_HDL (nt_table T) r))" by (simp add: nat_slot_def N(7))
  have lv: "nat_rule_at T (nat_slot nmi st r) \<noteq> None" using x by (simp add: nat_rules_def N(7))
  obtain l w1 where l: "os_lock os w = (l, w1)" by fastforce
  show ?thesis
  proof (cases "l = 0")
    case False
    then have "\<not> nat_reliable os" using l nat_reliableD(1) by metis
    moreover have "ipa_NATI_del_ipv4_rule os h r st w = Some (- EINVAL, st, w1)"
      using V l False by (simp add: ipa_NATI_del_ipv4_rule_def)
    ultimately show ?thesis using I nat_only_refl by fastforce
  next
    case True
    obtain ret T' w2 where A: "nat_del_rule_locked os (ns_cache st nmi) T r w1 = Some (ret, T', w2)"
        "nat_del_out T (nat_slot nmi st r) ret T'" "nat_dma_total os \<longrightarrow> ret = 0"
      using nat_del_locked [OF N(5,1) spec sl lv, of w1] by blast
    define st' where "st' = set_tbl nmi 0 T' st"
    have pr: "nat_same_but_tables T T'" "nat_pair_of T' \<longleftrightarrow> \<not> (ret = - EIO \<and> nat_shared nmi st r)"
      using A(2) by (cases "ret = 0"; simp add: nat_del_out_def nat_shared_def N(7))+
    have P: "nat_inv nmi st' \<longleftrightarrow> nat_pair_of T'" "nat_table_of nmi st' = T'" "nat_only nmi st st'"
      using nat_put [OF I, of T' st "ns_hash_token st"] pr(1) by (simp_all add: N(7) st'_def)
    obtain q w3 where q: "nat_unlock os ret w2 = (q, w3)" by fastforce
    have res: "ipa_NATI_del_ipv4_rule os h r st w = Some (q, st', w3)"
      using V t l True A(1) q N(4) by (simp add: ipa_NATI_del_ipv4_rule_def st'_def)
    have uq: "q = ret \<or> (ret = 0 \<and> q = - EPERM \<and> \<not> nat_reliable os)"
      by (rule nat_unlock_ret [OF q])
    have R: "nat_rules nmi st = nat_rule_at T" "nat_rules nmi st' = nat_rule_at T'" by (simp_all add: nat_rules_def N(7) P(2))
    have out: "ret = 0 \<Longrightarrow> nat_rules nmi st' = (nat_rules nmi st)(nat_slot nmi st r := None)"
      "ret \<noteq> 0 \<Longrightarrow> ret = - EIO \<and> nat_rules nmi st' = nat_rules nmi st"
      using A(2) R by (simp_all add: nat_del_out_def)
    show ?thesis
    proof (cases "ret = 0")
      case True
      then show ?thesis using res P(1,3) pr(2) uq out(1) by (intro exI [of _ q]) auto
    next
      case False
      then show ?thesis using res P(1,3) pr(2) uq out(2) A(3) nat_reliable_total by (intro exI [of _ q]) auto
    qed
  qed
qed

lemma nat_del_rule_unused:
  assumes I: "nat_inv nmi st" and h: "nat_hdl_of nmi h"
    and n: "\<not> (unat (nat_slot nmi st r) < tab_sz (nt_table (nat_table_of nmi st)) \<and>
      tv nat_entry_interface (nt_table (nat_table_of nmi st)) (nat_slot nmi st r))"
  shows "\<exists>w'. ipa_NATI_del_ipv4_rule os h r st w = Some (- EINVAL, st, w')"
proof -
  from I obtain desc T where N: "nc_desc (ns_cache st nmi) = Some desc" "nc_tbl (ns_cache st nmi) = [T]"
    "nc_table_cnt (ns_cache st nmi) = 1" "md_valid (nt_mem_desc T)" "nat_pair_of T"
    "length (ns_pdns st) = IPA_MAX_PDN_NUM" "nat_table_of nmi st = T" by (rule nat_invE)
  have V: "BREAK_TBL_HDL h = (nmi, 1)" using h by (rule nat_hdl_break)
  have t: "arr_get (nc_tbl (ns_cache st nmi)) 0 = Some T" using N(2) by (simp add: arr_get_def)
  have D: "nat_del_rule_locked os (ns_cache st nmi) T r w1 = Some (- EINVAL, T, w1)" for w1
    using nat_del_unused [OF N(5) refl] n by (simp add: nat_slot_def N(7))
  have same: "set_tbl nmi 0 T st = st"
    using N(2) by (simp add: set_tbl_def set_cache_def fun_upd_idem)
  show ?thesis
    using V t N(4) D same
    by (auto simp: ipa_NATI_del_ipv4_rule_def nat_unlock_def Let_def split: prod.splits)
qed

text \<open>Adding a rule and deleting it by its handle.\<close>

lemma nat_add_del:
  assumes I: "nat_inv nmi st" and spec: "nat_dma_spec os" "nat_reliable os" and h: "nat_hdl_of nmi h"
    and u: "nat_accepts st u" "nat_room nmi st u"
  shows "\<exists>r st1 w1 st2 w2. ipa_NATI_add_ipv4_rule os h (Some u) True st w = Some ((0, Some r), st1, w1) \<and>
    ipa_NATI_del_ipv4_rule os h r st1 w1 = Some (0, st2, w2) \<and> nat_inv nmi st2 \<and>
    nat_rules nmi st2 = nat_rules nmi st"
proof -
  obtain ret r st1 w1 where A: "ipa_NATI_add_ipv4_rule os h (Some u) True st w = Some ((ret, Some r), st1, w1)"
      "nat_inv nmi st1" "nat_only nmi st st1" "nat_reliable os \<longrightarrow> (ret = 0 \<longleftrightarrow> nat_room nmi st u) \<and> (ret \<noteq> 0 \<longrightarrow> nat_rules nmi st1 = nat_rules nmi st)"
      "(\<exists>s. s \<noteq> 0 \<and> nat_rules nmi st s = None \<and>
        nat_rules nmi st1 = (nat_rules nmi st)(s \<mapsto> nat_ukey (ns_pdns st, u)) \<and>
        (ret, r) \<in> {(0, nat_handle nmi st s), (- EPERM, 0)}) \<or>
      (nat_rules nmi st1 = nat_rules nmi st \<and> r = 0 \<and> ret \<in> {- 1, - EIO, - EINVAL})"
    using nat_add_rule [OF I spec(1) h u(1), of w] by blast
  have "ret = 0" using A(4) spec(2) u(2) by simp
  then obtain s where s: "nat_rules nmi st s = None" "nat_rules nmi st1 = (nat_rules nmi st)(s \<mapsto> nat_ukey (ns_pdns st, u))"
      "r = nat_handle nmi st s" using A(5) by auto
  have r: "r = nat_handle nmi st1 s"
    using A(3) MakeEntryHdl_same_shape [of "nt_table (nat_table_of nmi st)" "nt_table (nat_table_of nmi st1)"] s(3)
    by (simp add: nat_only_def nat_handle_def)
  have sl: "nat_slot nmi st1 r = s" using nat_handle_slot [OF A(2), of s] s(2) r by simp
  obtain q st2 w2 where D: "ipa_NATI_del_ipv4_rule os h r st1 w1 = Some (q, st2, w2)" "nat_inv nmi st2 \<longleftrightarrow> \<not> (q = - EIO \<and> nat_shared nmi st1 r)"
      "q = 0 \<longrightarrow> nat_rules nmi st2 = (nat_rules nmi st1)(s := None)" "nat_reliable os \<longrightarrow> q = 0"
    using nat_del_rule [OF A(2) spec(1) h, of r w1] s(2) sl by auto
  have "(nat_rules nmi st1)(s := None) = nat_rules nmi st" using s(1,2) by (simp add: fun_upd_idem)
  then show ?thesis using A(1) \<open>ret = 0\<close> D spec(2) by auto
qed

end
