(* ===== verification/Ipa_Nat_Run.thy ===== *)
theory Ipa_Nat_Run
  imports Ipa_Nat_Api
begin

text \<open>
  The life of a NAT table: creation, clearing and deletion, and the states a module can be in after
  any history of calls in which rules are deleted only once.
\<close>

section \<open>Fresh tables\<close>

lemma tbl_wf_reset:
  assumes "tbl_wf esz bt xt off idx t"
  shows "tbl_wf esz bt xt off idx ((ipa_table_reset z t)\<lparr>cur_tbl_cnt := a, cur_expn_tbl_cnt := b\<rparr>)"
    "same_shape t ((ipa_table_reset z t)\<lparr>cur_tbl_cnt := a, cur_expn_tbl_cnt := b\<rparr>)"
proof -
  show s: "same_shape t ((ipa_table_reset z t)\<lparr>cur_tbl_cnt := a, cur_expn_tbl_cnt := b\<rparr>)"
    using tbl_wfD(3) [OF assms] by (simp add: same_shape_def ipa_table_reset_def tab_sz_def)
  show "tbl_wf esz bt xt off idx ((ipa_table_reset z t)\<lparr>cur_tbl_cnt := a, cur_expn_tbl_cnt := b\<rparr>)"
    by (rule tbl_wf_same_shape [OF assms s]) (simp add: ipa_table_reset_def tbl_wfD(4) [OF assms])
qed

lemma reset_zero: "i < tab_sz t \<Longrightarrow> recs (ipa_table_reset z t) ! i = z"
  by (simp add: ipa_table_reset_def tab_sz_def replicate_add [symmetric])

lemma nat_fresh_pair:
  assumes wf: "tbl_wf 32 IPA_NAT_BASE_TBL IPA_NAT_EXPN_TBL nat_off False (nt_table T)"
      "tbl_wf 4 IPA_NAT_INDX_TBL IPA_NAT_INDEX_EXPN_TBL idx_off True (nt_index_table T)"
    and zero: "\<And>i. i < tab_sz (nt_table T) \<Longrightarrow> recs (nt_table T) ! i = nat_rule_zero"
      "\<And>i. i < tab_sz (nt_index_table T) \<Longrightarrow> recs (nt_index_table T) ! i = nat_indx_zero"
    and cnt: "cur_tbl_cnt (nt_table T) = 0" "cur_expn_tbl_cnt (nt_table T) = 0"
      "cur_tbl_cnt (nt_index_table T) = 0" "cur_expn_tbl_cnt (nt_index_table T) = 0"
    and te: "table_entries (nt_index_table T) = table_entries (nt_table T)"
  shows "nat_pair_of T \<and> nat_rule_at T = Map.empty"
proof -
  have m: "nat_map (nt_table T) = Map.empty" "idx_map (nt_index_table T) = Map.empty"
    using zero by (auto simp: fun_eq_iff nat_map_def idx_map_def tbl_rules_def tv_def nat_rule_zero_def nat_indx_zero_def)
  have "nat_tab_inv (nt_table T) (\<lambda>_. [])"
    using natt.inv_fresh [OF wf(1) zero(1) cnt(1,2)] zero(1)
    by (simp add: nat_tab_inv_def tbl_homes_def nat_clean_def nat_rule_zero_def)
  moreover have "idx_linv (nt_index_table T) (\<lambda>_. [])"
    by (rule idxt.inv_fresh [OF wf(2) zero(2) cnt(3,4)])
  ultimately show ?thesis
    using te m by (auto simp: nat_pair_of_def nat_pair_inv_def nat_linked_def nat_rule_at_def)
qed

section \<open>Clearing\<close>

lemma nat_clear:
  fixes os :: "('w, nat_memory) ipa_os"
  assumes I: "nat_inv nmi st" and h: "nat_hdl_of nmi h"
  shows "\<exists>ret st' w'. ipa_NATI_clear_ipv4_tbl os h st w = Some (ret, st', w') \<and> nat_inv nmi st' \<and> nat_only nmi st st' \<and>
    (if fst (os_lock os w) \<noteq> 0 then ret = - EINVAL \<and> st' = st
     else nat_rules nmi st' = Map.empty \<and> ret \<in> {0, - EPERM}) \<and> (nat_reliable os \<longrightarrow> ret = 0)"
proof -
  from I obtain desc T where N: "nc_desc (ns_cache st nmi) = Some desc" "nc_tbl (ns_cache st nmi) = [T]"
    "nc_table_cnt (ns_cache st nmi) = 1" "md_valid (nt_mem_desc T)" "nat_pair_of T"
    "length (ns_pdns st) = IPA_MAX_PDN_NUM" "nat_table_of nmi st = T" by (rule nat_invE)
  have V: "BREAK_TBL_HDL h = (nmi, 1)" using h by (rule nat_hdl_break)
  have t: "arr_get (nc_tbl (ns_cache st nmi)) 0 = Some T" using N(2) by (simp add: arr_get_def)
  obtain B C where L: "nat_linv (nt_table T) B" "idx_linv (nt_index_table T) C"
      "table_entries (nt_index_table T) = table_entries (nt_table T)" using nat_pairE [OF N(5)] by blast
  note W = natt.invD(1) [OF L(1)] and X = idxt.invD(1) [OF L(2)]
  define t' where "t' = (ipa_table_reset nat_rule_zero (nt_table T))\<lparr>cur_tbl_cnt := 0, cur_expn_tbl_cnt := 0\<rparr>"
  define x' where "x' = (ipa_table_reset nat_indx_zero (nt_index_table T))\<lparr>cur_tbl_cnt := 0, cur_expn_tbl_cnt := 0\<rparr>"
  define T' where "T' = T\<lparr>nt_table := t', nt_index_table := x'\<rparr>"
  note R = tbl_wf_reset [OF W, where z = nat_rule_zero and a = 0 and b = 0, folded t'_def]
    tbl_wf_reset [OF X, where z = nat_indx_zero and a = 0 and b = 0, folded x'_def]
  have F: "nat_pair_of T' \<and> nat_rule_at T' = Map.empty"
    by (rule nat_fresh_pair)
      (use R L(3) in \<open>simp_all add: T'_def same_shapeD, simp_all add: t'_def x'_def reset_zero\<close>)
  have sb: "nat_same_but_tables T T'" using R(2,4) by (simp add: nat_same_but_tables_def T'_def)
  have P: "nat_inv nmi (set_tbl nmi 0 T' st)" "nat_table_of nmi (set_tbl nmi 0 T' st) = T'"
      "nat_only nmi st (set_tbl nmi 0 T' st)"
    using nat_put [OF I, of T' st "ns_hash_token st"] sb F by (simp_all add: N(7))
  obtain l w1 where l: "os_lock os w = (l, w1)" by fastforce
  show ?thesis
  proof (cases "l = 0")
    case False
    then have "ipa_NATI_clear_ipv4_tbl os h st w = Some (- EINVAL, st, w1)"
      using V l by (simp add: ipa_NATI_clear_ipv4_tbl_def)
    then show ?thesis using I nat_only_refl l False nat_reliableD(1) [OF _ l] by fastforce
  next
    case True
    obtain q w2 where q: "nat_unlock os 0 w1 = (q, w2)" by fastforce
    have "ipa_NATI_clear_ipv4_tbl os h st w = Some (q, set_tbl nmi 0 T' st, w2)"
      using V t l True q N(3) by (simp add: ipa_NATI_clear_ipv4_tbl_def T'_def t'_def x'_def)
    moreover have "q \<in> {0, - EPERM}" "nat_reliable os \<longrightarrow> q = 0" using nat_unlock_ret [OF q] by auto
    ultimately show ?thesis using P F l True by (simp add: nat_rules_def)
  qed
qed

section \<open>Creating and deleting the table\<close>

lemma nat_create_table:
  assumes spec: "alloc_spec os" and c: "ipa_nati_create_table os cache T0 ip n i w = Some ((0, T), w')"
  shows "md_valid (nt_mem_desc T) \<and> nat_pair_of T \<and> nat_rule_at T = Map.empty \<and> tbl_nmi (nt_table T) = nc_nmi cache"
proof -
  define nmi where "nmi = nc_nmi cache"
  define t0 where "t0 = (ipa_table_init ''IPA NAT table'' nmi 32 None 0 :: ipa_nat_rule ipa_table)"
  obtain t1 where e: "ipa_table_calculate_entries_num t0 n nmi = (0, t1)"
    using c by (auto simp: ipa_nati_create_table_def Let_def t0_def nmi_def split: prod.splits if_splits)
  define x1 where "x1 = nat_index_table_init t1 nmi"
  define md where "md = ipa_mem_descriptor_init (nt_mem_desc T0) ''ipaNatTable''
    (ipa_table_calculate_size t1 + ipa_table_calculate_size x1) i NAT_TABLE_DEV True"
  obtain ok u where k: "os_calloc os (unat (expn_table_entries t1)) w = (ok, u)" by fastforce
  obtain desc where d: "ok" "nc_desc cache = Some desc"
    using c e k by (cases "nc_desc cache") (auto simp: ipa_nati_create_table_def t0_def nmi_def Let_def split: if_splits)
  obtain q md' u' where al: "ipa_mem_descriptor_allocate_memory os md (desc_fd desc) u = ((q, md'), u')"
    by (metis surj_pair)
  obtain t2 a2 where a: "ipa_table_calculate_addresses t1 (base_addr md') = (t2, a2)" by fastforce
  obtain x2 b2 where b: "ipa_table_calculate_addresses x1 a2 = (x2, b2)" by fastforce
  have cc: "ipa_nati_create_table os cache T0 ip n i w = Some (if q \<noteq> 0 then ((q, nat_table_zero), u')
      else ((0, ipa_nati_create_table_dma_cmd_helpers (T0\<lparr>nt_public_addr := ip, nt_mem_desc := md',
        nt_table := ipa_table_reset nat_rule_zero t2, nt_index_table := ipa_table_reset nat_indx_zero x2\<rparr>) i), u'))"
    using e k d al [unfolded md_def x1_def] a b [unfolded x1_def]
    by (simp add: ipa_nati_create_table_def t0_def nmi_def)
  have m: "ipa_mem_descriptor_allocate_memory os md (desc_fd desc) u = ((0, md'), w')"
      "T = ipa_nati_create_table_dma_cmd_helpers (T0\<lparr>nt_public_addr := ip, nt_mem_desc := md',
        nt_table := ipa_table_reset nat_rule_zero t2, nt_index_table := ipa_table_reset nat_indx_zero x2\<rparr>) i"
    using c cc al by (auto split: if_splits)
  have t2: "t2 = t1\<lparr>table_addr := base_addr md', expn_table_addr := base_addr md' + of_int (entry_size t1 * uint (table_entries t1))\<rparr>"
    and x2: "x2 = x1\<lparr>table_addr := a2, expn_table_addr := a2 + of_int (entry_size x1 * uint (table_entries x1))\<rparr>"
    using a b by (auto simp: ipa_table_calculate_addresses_def Let_def)
  note O = conjunct1 [OF allocate_memory_offset [OF spec m(1)]] conjunct2 [OF allocate_memory_offset [OF spec m(1)]]
  have t1: "tbl_nmi t1 = nmi" "entry_size t1 = 32" "tbl_meta t1 = None" "cur_tbl_cnt t1 = 0" "cur_expn_tbl_cnt t1 = 0"
    using e by (auto simp: ipa_table_calculate_entries_num_def t0_def ipa_table_init_def Let_def split: if_splits)
  have x1: "entry_size x1 = 4" "tbl_meta x1 = Some (replicate (unat (expn_table_entries t1)) 0)" "cur_tbl_cnt x1 = 0"
      "cur_expn_tbl_cnt x1 = 0" "table_entries x1 = table_entries t1" "expn_table_entries x1 = expn_table_entries t1"
      "tot_tbl_ents x1 = tot_tbl_ents t1"
    by (simp_all add: x1_def nat_index_table_init_def ipa_table_init_def)
  note Z = calculate_entries_num_sized [OF e]
  note unf = m(2) ipa_nati_create_table_dma_cmd_helpers_def Let_def ipa_table_reset_def t2 x2
  have t: "tab_sz (nt_table T) = tab_sz t1" "table_entries (nt_table T) = table_entries t1"
      "expn_table_entries (nt_table T) = expn_table_entries t1" "recs (nt_table T) = replicate (tab_sz t1) nat_rule_zero"
      "entry_size (nt_table T) = 32" "tbl_meta (nt_table T) = None" "cur_tbl_cnt (nt_table T) = 0"
      "cur_expn_tbl_cnt (nt_table T) = 0" "tbl_sized (nt_table T)"
      "expn_table_addr (nt_table T) = table_addr (nt_table T) + of_int (32 * uint (table_entries (nt_table T)))"
    using t1 Z(1) by (simp_all add: unf tab_sz_def tbl_sized_def replicate_add [symmetric])
  have x: "tab_sz (nt_index_table T) = tab_sz t1" "table_entries (nt_index_table T) = table_entries t1"
      "expn_table_entries (nt_index_table T) = expn_table_entries t1"
      "recs (nt_index_table T) = replicate (tab_sz t1) nat_indx_zero"
      "entry_size (nt_index_table T) = 4" "tbl_meta (nt_index_table T) = Some (replicate (unat (expn_table_entries t1)) 0)"
      "cur_tbl_cnt (nt_index_table T) = 0" "cur_expn_tbl_cnt (nt_index_table T) = 0" "tbl_sized (nt_index_table T)"
      "expn_table_addr (nt_index_table T) = table_addr (nt_index_table T) + of_int (4 * uint (table_entries (nt_index_table T)))"
    using x1 Z(1) by (simp_all add: unf tab_sz_def tbl_sized_def replicate_add [symmetric])
  have wt: "tbl_wf 32 IPA_NAT_BASE_TBL IPA_NAT_EXPN_TBL nat_off False (nt_table T)"
    unfolding tbl_wf_def
  proof (intro conjI ballI)
    fix ht
    show "case dma_help (nt_table T) ht of None \<Rightarrow> False | Some h \<Rightarrow> h_offset h = of_nat (nat_off ht) \<and>
        h_table_type h = IPA_NAT_BASE_TBL \<and> h_expn_table_type h = IPA_NAT_EXPN_TBL"
      using O(1) by (cases ht) (simp_all add: unf ipa_table_dma_cmd_helper_init_def)
  qed (use t Z(2) in \<open>simp_all add: word_le_nat_alt meta_fits_def\<close>)
  have wx: "tbl_wf 4 IPA_NAT_INDX_TBL IPA_NAT_INDEX_EXPN_TBL idx_off True (nt_index_table T)"
    unfolding tbl_wf_def
  proof (intro conjI ballI)
    fix ht
    show "case dma_help (nt_index_table T) ht of None \<Rightarrow> False | Some h \<Rightarrow> h_offset h = of_nat (idx_off ht) \<and>
        h_table_type h = IPA_NAT_INDX_TBL \<and> h_expn_table_type h = IPA_NAT_INDEX_EXPN_TBL"
      using O(1) by (cases ht) (simp_all add: unf ipa_table_dma_cmd_helper_init_def)
  qed (use x Z(2) in \<open>simp_all add: word_le_nat_alt meta_fits_def\<close>)
  have "nat_pair_of T \<and> nat_rule_at T = Map.empty"
    by (rule nat_fresh_pair [OF wt wx]) (use t x in simp_all)
  moreover have "md_valid (nt_mem_desc T)" using O(2) by (simp add: unf)
  moreover have "tbl_nmi (nt_table T) = nc_nmi cache" using t1(1) by (simp add: unf nmi_def)
  ultimately show ?thesis by blast
qed

text \<open>
  A module without a table, and one whose table could not be given back: it is cleared, but counted.
\<close>

definition nat_idle :: "ipa3_nat_mem_in \<Rightarrow> nat_state \<Rightarrow> bool" where
  "nat_idle nmi st \<longleftrightarrow> nc_table_cnt (ns_cache st nmi) = 0 \<and> length (nc_tbl (ns_cache st nmi)) = 1 \<and>
     \<not> md_valid (nt_mem_desc (nat_table_of nmi st)) \<and> length (ns_pdns st) = IPA_MAX_PDN_NUM"

definition nat_stuck :: "ipa3_nat_mem_in \<Rightarrow> nat_state \<Rightarrow> bool" where
  "nat_stuck nmi st \<longleftrightarrow> nc_table_cnt (ns_cache st nmi) = 1 \<and> length (nc_tbl (ns_cache st nmi)) = 1 \<and>
     nc_desc (ns_cache st nmi) \<noteq> None \<and> \<not> md_valid (nt_mem_desc (nat_table_of nmi st)) \<and>
     length (ns_pdns st) = IPA_MAX_PDN_NUM"

lemma nat_idle_initial: "nat_idle nmi nat_initial"
  by (simp add: nat_idle_def nat_initial_def nat_table_of_def nat_table_zero_def mem_desc_zero_def)

lemma nat_zero_invalid [simp]: "\<not> md_valid (nt_mem_desc nat_table_zero)"
  by (simp add: nat_table_zero_def mem_desc_zero_def)

lemma nat_create_defined:
  assumes "nc_desc cache = Some desc"
  shows "\<exists>r T w'. ipa_nati_create_table os cache T0 ip n i w = Some ((r, T), w')"
  using assms by (auto simp: ipa_nati_create_table_def Let_def split: prod.split)

lemma nat_post_init_defined:
  assumes "nc_desc cache = Some desc"
  shows "\<exists>r w'. ipa_nati_post_ipv4_init_cmd os cache T i f w = Some (r, w')"
  using assms by (simp add: ipa_nati_post_ipv4_init_cmd_def Let_def)

lemma nat_destroy_defined:
  assumes "nc_desc cache = Some desc"
  shows "\<exists>r w'. ipa_nati_destroy_table os cache T w = Some ((r, nat_table_zero), w')"
  using assms by (auto simp: ipa_nati_destroy_table_def split: prod.split)

lemma nat_create_fail_invalid:
  assumes "ipa_nati_create_table os cache T0 ip n i w = Some ((r, T), w')" "r \<noteq> 0" "\<not> md_valid (nt_mem_desc T0)"
  shows "\<not> md_valid (nt_mem_desc T)"
  using assms by (auto simp: ipa_nati_create_table_def Let_def split: prod.splits if_splits Option.bind_splits)

lemma nat_made_hdl: "nat_hdl_of nmi (MAKE_TBL_HDL 1 nmi)"
  by (cases nmi) (simp_all add: nat_hdl_of_def VALID_TBL_HDL_def BREAK_TBL_HDL_def MAKE_TBL_HDL_def)

lemma nat_add_tbl:
  assumes spec: "alloc_spec os" and I: "nat_idle nmi st"
  shows "\<exists>r h st' w'. ipa_NATI_add_ipv4_tbl os nmi ip n st w = Some ((r, h), st', w') \<and>
    (\<forall>m. m \<noteq> nmi \<longrightarrow> ns_cache st' m = ns_cache st m) \<and> length (ns_pdns st') = IPA_MAX_PDN_NUM \<and>
    (r \<in> {0, - EPERM} \<and> h = MAKE_TBL_HDL 1 nmi \<and> nat_inv nmi st' \<and> nat_rules nmi st' = Map.empty \<and>
       pdn_public_ip (ns_pdns st' ! 0) = ip \<or>
     r \<noteq> 0 \<and> h = 0 \<and> nat_idle nmi st' \<and> ns_pdns st' = ns_pdns st)"
proof -
  obtain l w1 where l: "os_lock os w = (l, w1)" by fastforce
  have J: "nc_table_cnt (ns_cache st nmi) = 0" "\<not> md_valid (nt_mem_desc (nc_tbl (ns_cache st nmi) ! 0))"
      "length (nc_tbl (ns_cache st nmi)) = 1" "length (ns_pdns st) = IPA_MAX_PDN_NUM"
    using I by (simp_all add: nat_idle_def nat_table_of_def)
  then obtain T0 where T0: "nc_tbl (ns_cache st nmi) = [T0]" "\<not> md_valid (nt_mem_desc T0)"
    by (cases "nc_tbl (ns_cache st nmi)") auto
  show ?thesis
  proof (cases "l = 0")
    case False
    then show ?thesis using l I J(4) by (simp add: ipa_NATI_add_ipv4_tbl_def)
  next
    case l0: True
    obtain dd w2 where dd: "(case nc_desc (ns_cache st nmi) of None \<Rightarrow> ipa_descriptor_open os w1 | Some d \<Rightarrow> (Some d, w1)) = (dd, w2)"
      by fastforce
    define c0 where "c0 = (ns_cache st nmi)\<lparr>nc_nmi := nmi, nc_desc := dd\<rparr>"
    have idle: "nat_idle nmi (set_cache nmi (c0\<lparr>nc_tbl := [T], nc_desc := e\<rparr>) st)" if "\<not> md_valid (nt_mem_desc T)" for T e
      using J that by (simp add: nat_idle_def set_cache_def nat_table_of_def c0_def)
    show ?thesis
    proof (cases dd)
      case None
      obtain q w3 where q: "os_unlock os w2 = (q, w3)" by fastforce
      have "ipa_NATI_add_ipv4_tbl os nmi ip n st w =
          Some ((if q \<noteq> 0 then - EPERM else - EIO, 0), set_cache nmi c0 st, w3)"
        using l l0 dd None J q by (simp add: ipa_NATI_add_ipv4_tbl_def c0_def)
      moreover have "c0 = c0\<lparr>nc_tbl := [T0], nc_desc := dd\<rparr>" using T0 by (simp add: c0_def)
      ultimately show ?thesis using idle [OF T0(2), of dd] J(4) by (auto simp: set_cache_def)
    next
      case (Some desc)
      have cd: "nc_desc c0 = Some desc" by (simp add: c0_def Some)
      obtain r T w3 where c: "ipa_nati_create_table os c0 T0 ip n 0 w2 = Some ((r, T), w3)"
        using nat_create_defined [OF cd, of os T0 ip n 0 w2] by auto
      define c1 where "c1 = c0\<lparr>nc_tbl := [T]\<rparr>"
      show ?thesis
      proof (cases "r = 0")
        case False
        obtain q w4 where q: "os_unlock os (ipa_descriptor_close os (Some desc) w3) = (q, w4)" by fastforce
        have "ipa_NATI_add_ipv4_tbl os nmi ip n st w = Some ((if q \<noteq> 0 then - EPERM else r, 0),
            set_cache nmi (c0\<lparr>nc_tbl := [T], nc_desc := None\<rparr>) st, w4)"
          using l l0 dd Some J T0 c False q
          by (simp add: ipa_NATI_add_ipv4_tbl_def c0_def arr_get_def nat_close_desc_def)
        then show ?thesis using idle [OF nat_create_fail_invalid [OF c False T0(2)], of None] J(4) False
          by (auto simp: set_cache_def)
      next
        case True
        note F = nat_create_table [OF spec c [unfolded True]]
        obtain p w4 where p: "ipa_nati_post_ipv4_init_cmd os c1 T 0 False w3 = Some (p, w4)"
          using nat_post_init_defined [of c1 desc os T 0 False w3] cd by (auto simp: c1_def)
        show ?thesis
        proof (cases "p = 0")
          case False
          obtain z w5 where z: "ipa_nati_destroy_table os c1 T w4 = Some ((z, nat_table_zero), w5)"
            using nat_destroy_defined [of c1 desc os T w4] cd by (auto simp: c1_def)
          obtain q w6 where q: "os_unlock os (ipa_descriptor_close os (Some desc) w5) = (q, w6)" by fastforce
          have "ipa_NATI_add_ipv4_tbl os nmi ip n st w = Some ((if q \<noteq> 0 then - EPERM else p, 0),
              set_cache nmi (c0\<lparr>nc_tbl := [nat_table_zero], nc_desc := None\<rparr>) st, w6)"
            using l l0 dd Some J T0 c True p False z q
            by (simp add: ipa_NATI_add_ipv4_tbl_def c0_def c1_def arr_get_def nat_close_desc_def)
          then show ?thesis using idle [OF nat_zero_invalid, of None] J(4) False
            by (auto simp: set_cache_def)
        next
          case p0: True
          define c2 where "c2 = c1\<lparr>nc_table_cnt := 1\<rparr>"
          define st' where "st' = set_cache nmi c2 (st\<lparr>ns_active := Some nmi,
              ns_pdns := (ns_pdns st)[0 := (ns_pdns st ! 0)\<lparr>pdn_public_ip := ip\<rparr>], ns_num_pdns := 1\<rparr>)"
          obtain q w5 where q: "os_unlock os w4 = (q, w5)" by fastforce
          have "ipa_NATI_add_ipv4_tbl os nmi ip n st w = Some ((if q \<noteq> 0 then - EPERM else 0, MAKE_TBL_HDL 1 nmi), st', w5)"
            using l l0 dd Some J T0 c True p p0 q
            by (simp add: ipa_NATI_add_ipv4_tbl_def c0_def c1_def c2_def st'_def arr_get_def)
          moreover have "nat_inv nmi st'" "nat_rules nmi st' = Map.empty"
            using F J(4) cd
            by (simp_all add: c0_def nat_inv_def nat_rules_def nat_table_of_def st'_def set_cache_def c2_def c1_def)
          ultimately show ?thesis using J(4) by (auto simp: st'_def set_cache_def)
        qed
      qed
    qed
  qed
qed

lemma nat_del_tbl:
  assumes I: "nat_inv nmi st" and h: "nat_hdl_of nmi h"
  shows "\<exists>r st' w'. ipa_NATI_del_ipv4_table os h st w = Some (r, st', w') \<and>
    (\<forall>m. m \<noteq> nmi \<longrightarrow> ns_cache st' m = ns_cache st m) \<and> ns_pdns st' = ns_pdns st \<and>
    (st' = st \<and> r = - EINVAL \<or> nat_idle nmi st' \<or> nat_stuck nmi st' \<and> r \<noteq> 0)"
proof -
  from I obtain desc T where N: "nc_desc (ns_cache st nmi) = Some desc" "nc_tbl (ns_cache st nmi) = [T]"
    "nc_table_cnt (ns_cache st nmi) = 1" "md_valid (nt_mem_desc T)" "nat_pair_of T"
    "length (ns_pdns st) = IPA_MAX_PDN_NUM" "nat_table_of nmi st = T" by (rule nat_invE)
  have V: "BREAK_TBL_HDL h = (nmi, 1)" using h by (rule nat_hdl_break)
  obtain l w1 where l: "os_lock os w = (l, w1)" by fastforce
  show ?thesis
  proof (cases "l = 0")
    case False
    then show ?thesis using V l by (simp add: ipa_NATI_del_ipv4_table_def)
  next
    case True
    obtain z w2 where z: "ipa_nati_destroy_table os (ns_cache st nmi) T w1 = Some ((z, nat_table_zero), w2)"
      using nat_destroy_defined [OF N(1), of os T w1] by blast
    show ?thesis
    proof (cases "z = 0")
      case z0: True
      obtain q w3 where q: "nat_unlock os 0 (ipa_descriptor_close os (Some desc) w2) = (q, w3)" by fastforce
      have "ipa_NATI_del_ipv4_table os h st w = Some (q, set_cache nmi
          ((ns_cache st nmi)\<lparr>nc_tbl := [nat_table_zero], nc_table_cnt := 0, nc_desc := None\<rparr>) st, w3)"
        using V l True N z z0 q by (simp add: ipa_NATI_del_ipv4_table_def arr_get_def nat_close_desc_def)
      then show ?thesis using N(6) by (simp add: nat_idle_def set_cache_def nat_table_of_def)
    next
      case False
      obtain q w3 where q: "nat_unlock os z w2 = (q, w3)" by fastforce
      have "ipa_NATI_del_ipv4_table os h st w = Some (q, set_cache nmi ((ns_cache st nmi)\<lparr>nc_tbl := [nat_table_zero]\<rparr>) st, w3)"
        using V l True N z False q by (simp add: ipa_NATI_del_ipv4_table_def arr_get_def)
      moreover have "q \<noteq> 0" using q False by (auto simp: nat_unlock_def Let_def split: prod.splits if_splits)
      ultimately show ?thesis using N by (simp add: nat_stuck_def set_cache_def nat_table_of_def)
    qed
  qed
qed

section \<open>Calls on a module without a table\<close>

lemma nat_off:
  assumes "nat_idle nmi st \<or> nat_stuck nmi st"
  shows "\<not> md_valid (nt_mem_desc (nc_tbl (ns_cache st nmi) ! 0))" "length (nc_tbl (ns_cache st nmi)) = 1"
  using assms by (auto simp: nat_idle_def nat_stuck_def nat_table_of_def)

lemma nat_off_get:
  assumes "nat_idle nmi st \<or> nat_stuck nmi st" "arr_get (nc_tbl (ns_cache st nmi)) i = Some T"
  shows "i = 0 \<and> T = nc_tbl (ns_cache st nmi) ! 0 \<and> \<not> md_valid (nt_mem_desc T) \<and> set_tbl nmi i T st = st"
proof -
  obtain T0 where T0: "nc_tbl (ns_cache st nmi) = [T0]" using nat_off(2) [OF assms(1)] by (cases "nc_tbl (ns_cache st nmi)") auto
  then have "i = 0" "T = T0" using assms(2) by (auto simp: arr_get_def split: if_splits)
  then show ?thesis using T0 nat_off(1) [OF assms(1)] by (simp add: set_tbl_def set_cache_def fun_upd_idem)
qed

lemma nat_off_calls:
  assumes M: "nat_idle nmi st \<or> nat_stuck nmi st" and h: "fst (BREAK_TBL_HDL h) = nmi"
  shows "ipa_NATI_add_ipv4_rule os h u out st w = Some (res, st', w') \<Longrightarrow> st' = st"
    "ipa_NATI_del_ipv4_rule os h r st w = Some (ret, st', w') \<Longrightarrow> st' = st"
    "ipa_NATI_del_ipv4_table os h st w = Some (ret, st', w') \<Longrightarrow> st' = st"
proof -
  obtain n where n: "BREAK_TBL_HDL h = (nmi, n)" using h by (metis prod.collapse)
  show "st' = st" if "ipa_NATI_add_ipv4_rule os h u out st w = Some (res, st', w')"
    using that n nat_off_get [OF M]
    by (auto simp: ipa_NATI_add_ipv4_rule_def Let_def split: option.splits prod.splits if_splits Option.bind_splits)
  show "st' = st" if "ipa_NATI_del_ipv4_rule os h r st w = Some (ret, st', w')"
    using that n nat_off_get [OF M]
    by (auto simp: ipa_NATI_del_ipv4_rule_def Let_def split: prod.splits if_splits Option.bind_splits)
  show "st' = st" if "ipa_NATI_del_ipv4_table os h st w = Some (ret, st', w')"
    using that n nat_off_get [OF M]
    by (auto simp: ipa_NATI_del_ipv4_table_def Let_def split: prod.splits if_splits Option.bind_splits)
qed

lemma nat_off_clear:
  assumes M: "nat_idle nmi st \<or> nat_stuck nmi st" and h: "fst (BREAK_TBL_HDL h) = nmi"
    and c: "ipa_NATI_clear_ipv4_tbl os h st w = Some (ret, st', w')"
  shows "(nat_idle nmi st' \<or> nat_stuck nmi st') \<and> (\<forall>m. m \<noteq> nmi \<longrightarrow> ns_cache st' m = ns_cache st m) \<and> ns_pdns st' = ns_pdns st"
proof -
  obtain n where n: "BREAK_TBL_HDL h = (nmi, n)" using h by (metis prod.collapse)
  have *: "nat_idle nmi (set_tbl nmi 0 T' st) = nat_idle nmi st \<and> nat_stuck nmi (set_tbl nmi 0 T' st) = nat_stuck nmi st"
    if "nt_mem_desc T' = nt_mem_desc (nc_tbl (ns_cache st nmi) ! 0)" for T'
    using that nat_off(2) [OF M] by (simp add: nat_idle_def nat_stuck_def nat_table_of_def set_tbl_def set_cache_def)
  have "st' = st \<or> (\<exists>T'. st' = set_tbl nmi 0 T' st \<and> nt_mem_desc T' = nt_mem_desc (nc_tbl (ns_cache st nmi) ! 0))"
    using c n nat_off_get [OF M]
    by (auto simp: ipa_NATI_clear_ipv4_tbl_def Let_def split: prod.splits if_splits Option.bind_splits) fastforce
  then show ?thesis using M * by (auto simp: set_tbl_def set_cache_def)
qed

section \<open>Histories\<close>

text \<open>
  A rule handle is spent when its slot still carries a list but its rule is deleted already: no
  client that deletes each of its rules once passes such a handle.
\<close>

definition nat_spent :: "nat_state \<Rightarrow> uint32 \<Rightarrow> uint32 \<Rightarrow> bool" where
  "nat_spent st h r \<longleftrightarrow> (let nmi = fst (BREAK_TBL_HDL h); s = nat_slot nmi st r; t = nt_table (nat_table_of nmi st) in
     unat s < tab_sz t \<and> tv nat_entry_interface t s \<and> nat_rules nmi st s = None)"

text \<open>
  A deletion whose DMA command failed although the index slot of the rule heads a list of several: the
  index table is then as it was, but the rule table has already been changed for the new head.
\<close>

definition nat_torn :: "nat_state \<Rightarrow> uint32 \<Rightarrow> uint32 \<Rightarrow> int \<Rightarrow> bool" where
  "nat_torn st h r ret \<longleftrightarrow> ret = - EIO \<and> nat_shared (fst (BREAK_TBL_HDL h)) st r"

inductive nat_step :: "('w, nat_memory) ipa_os \<Rightarrow> nat_state \<times> 'w \<Rightarrow> nat_state \<times> 'w \<Rightarrow> bool" for os where
  ns_add_tbl: "ipa_NATI_add_ipv4_tbl os nmi ip n st w = Some (res, st', w') \<Longrightarrow> nat_step os (st, w) (st', w')"
| ns_del_tbl: "ipa_NATI_del_ipv4_table os h st w = Some (ret, st', w') \<Longrightarrow> nat_step os (st, w) (st', w')"
| ns_add_rule: "ipa_NATI_add_ipv4_rule os h u out st w = Some (res, st', w') \<Longrightarrow> nat_step os (st, w) (st', w')"
| ns_del_rule: "ipa_NATI_del_ipv4_rule os h r st w = Some (ret, st', w') \<Longrightarrow> \<not> nat_spent st h r \<Longrightarrow>
    \<not> nat_torn st h r ret \<Longrightarrow> nat_step os (st, w) (st', w')"
| ns_clear: "ipa_NATI_clear_ipv4_tbl os h st w = Some (ret, st', w') \<Longrightarrow> nat_step os (st, w) (st', w')"
| ns_focus: "ipa_NATI_post_ipv4_init_cmd os h st w = Some (ret, st', w') \<Longrightarrow> nat_step os (st, w) (st', w')"
| ns_query: "ipa_NATI_query_timestamp os h r st w = Some (qr, st', w') \<Longrightarrow> nat_step os (st, w) (st', w')"
| ns_modify_pdn: "ipa_nati_modify_pdn os e st w = Some (ret, st', w') \<Longrightarrow> nat_step os (st, w) (st', w')"
| ns_alloc_pdn: "ipa_nati_alloc_pdn os p st w = Some (pr, st', w') \<Longrightarrow> nat_step os (st, w) (st', w')"
| ns_dealloc_pdn: "ipa_nati_dealloc_pdn os i st w = Some (ret, st', w') \<Longrightarrow> nat_step os (st, w) (st', w')"
| ns_sram_size: "ipa_nati_get_sram_size os st w = (zr, st', w') \<Longrightarrow> nat_step os (st, w) (st', w')"
| ns_vote: "ipa_nati_vote_clock os v st w = (ret, st', w') \<Longrightarrow> nat_step os (st, w) (st', w')"

inductive nat_reachable :: "('w, nat_memory) ipa_os \<Rightarrow> 'w \<Rightarrow> nat_state \<times> 'w \<Rightarrow> bool" for os w0 where
  nr_init: "nat_reachable os w0 (nat_initial, w0)"
| nr_step: "nat_reachable os w0 s \<Longrightarrow> nat_step os s s' \<Longrightarrow> nat_reachable os w0 s'"

inductive_cases nat_stepE: "nat_step os (st, w) (st', w')"

definition nat_mode :: "ipa3_nat_mem_in \<Rightarrow> nat_state \<Rightarrow> bool" where
  "nat_mode nmi st \<longleftrightarrow> nat_idle nmi st \<or> nat_inv nmi st \<or> nat_stuck nmi st"

lemma nat_mode_cong:
  assumes "ns_cache st' nmi = ns_cache st nmi" "length (ns_pdns st') = length (ns_pdns st)"
  shows "nat_mode nmi st' = nat_mode nmi st"
  using assms by (simp add: nat_mode_def nat_idle_def nat_inv_def nat_stuck_def nat_table_of_def)

lemma nat_mode_pdns: "nat_mode nmi st \<Longrightarrow> length (ns_pdns st) = IPA_MAX_PDN_NUM"
  by (auto simp: nat_mode_def nat_idle_def nat_inv_def nat_stuck_def)

text \<open>An operation on one kind of memory leaves the mode of the other alone.\<close>

lemma nat_mode_all:
  assumes "\<forall>m. nat_mode m st" "nat_mode nmi st'" "\<forall>m. m \<noteq> nmi \<longrightarrow> ns_cache st' m = ns_cache st m"
  shows "\<forall>m. nat_mode m st'"
proof
  fix m
  show "nat_mode m st'"
  proof (cases "m = nmi")
    case False
    then show ?thesis
      using nat_mode_cong [of st' m st] nat_mode_pdns [OF assms(2)] nat_mode_pdns [of m st] assms(1,3) by simp
  qed (use assms(2) in simp)
qed

lemma pdn_ops_cache:
  "ipa_nati_modify_pdn os e st w = Some (ret, st', w') \<Longrightarrow> ns_cache st' = ns_cache st \<and> length (ns_pdns st') = length (ns_pdns st)"
  "ipa_nati_alloc_pdn os p st w = Some (pr, st', w') \<Longrightarrow> ns_cache st' = ns_cache st \<and> length (ns_pdns st') = length (ns_pdns st)"
  "ipa_nati_dealloc_pdn os i st w = Some (ret, st', w') \<Longrightarrow> ns_cache st' = ns_cache st \<and> length (ns_pdns st') = length (ns_pdns st)"
proof -
  have M: "ns_cache st' = ns_cache st \<and> length (ns_pdns st') = length (ns_pdns st)"
    if "ipa_nati_modify_pdn os e st w = Some (ret, st', w')" for e st w ret st' w'
    using that
    by (auto simp: ipa_nati_modify_pdn_def Let_def arr_put_def split: option.splits prod.splits if_splits Option.bind_splits)
  show "ipa_nati_modify_pdn os e st w = Some (ret, st', w') \<Longrightarrow> ns_cache st' = ns_cache st \<and> length (ns_pdns st') = length (ns_pdns st)"
    by (rule M)
  show "ipa_nati_alloc_pdn os p st w = Some (pr, st', w') \<Longrightarrow> ns_cache st' = ns_cache st \<and> length (ns_pdns st') = length (ns_pdns st)"
    by (auto simp: ipa_nati_alloc_pdn_def Let_def split: pdn_scan_result.splits if_splits Option.bind_splits prod.splits dest!: M)
  show "ipa_nati_dealloc_pdn os i st w = Some (ret, st', w') \<Longrightarrow> ns_cache st' = ns_cache st \<and> length (ns_pdns st') = length (ns_pdns st)"
    by (auto simp: ipa_nati_dealloc_pdn_def Let_def arr_put_def split: if_splits Option.bind_splits prod.splits dest!: M)
qed

text \<open>The SRAM size and the clock open the device of a cache that has none.\<close>

lemma nat_mode_open:
  assumes "\<forall>m. nat_mode m st" "nc_desc (ns_cache st nmi) = None"
  shows "\<forall>m. nat_mode m (set_cache nmi ((ns_cache st nmi)\<lparr>nc_desc := d\<rparr>) st)"
proof -
  have "nat_idle nmi st" using assms by (auto simp: nat_mode_def nat_inv_def nat_stuck_def)
  then have "nat_mode nmi (set_cache nmi ((ns_cache st nmi)\<lparr>nc_desc := d\<rparr>) st)"
    by (simp add: nat_mode_def nat_idle_def set_cache_def nat_table_of_def)
  then show ?thesis by (rule nat_mode_all [OF assms(1)]) (simp add: set_cache_def)
qed

lemma nat_sram_calls:
  assumes "\<forall>m. nat_mode m st"
  shows "ipa_nati_get_sram_size os st w = (zr, st', w') \<Longrightarrow> \<forall>m. nat_mode m st'"
    "ipa_nati_vote_clock os v st w = (ret, st', w') \<Longrightarrow> \<forall>m. nat_mode m st'"
proof -
  have same: "set_cache nmi ((ns_cache st nmi)\<lparr>nc_desc := nc_desc (ns_cache st nmi)\<rparr>) st = st" for nmi
    by (simp add: set_cache_def)
  have *: "st' = st \<or> (nc_desc (ns_cache st IPA_NAT_MEM_IN_SRAM) = None \<and>
      (\<exists>d. st' = set_cache IPA_NAT_MEM_IN_SRAM ((ns_cache st IPA_NAT_MEM_IN_SRAM)\<lparr>nc_desc := d\<rparr>) st))"
    if "ipa_nati_get_sram_size os st w = (zr, st', w')"
    using that same [of IPA_NAT_MEM_IN_SRAM]
    by (cases "nc_desc (ns_cache st IPA_NAT_MEM_IN_SRAM)")
      (auto simp: ipa_nati_get_sram_size_def Let_def split: prod.splits if_splits)
  show "ipa_nati_get_sram_size os st w = (zr, st', w') \<Longrightarrow> \<forall>m. nat_mode m st'"
    using * nat_mode_open [OF assms] assms by blast
  have "st' = st \<or> (nc_desc (ns_cache st IPA_NAT_MEM_IN_SRAM) = None \<and>
      (\<exists>d. st' = set_cache IPA_NAT_MEM_IN_SRAM ((ns_cache st IPA_NAT_MEM_IN_SRAM)\<lparr>nc_desc := d\<rparr>) st))"
    if "ipa_nati_vote_clock os v st w = (ret, st', w')"
    using that same [of IPA_NAT_MEM_IN_SRAM]
    by (cases "nc_desc (ns_cache st IPA_NAT_MEM_IN_SRAM)")
      (auto simp: ipa_nati_vote_clock_def Let_def split: prod.splits if_splits option.splits)
  then show "ipa_nati_vote_clock os v st w = (ret, st', w') \<Longrightarrow> \<forall>m. nat_mode m st'"
    using nat_mode_open [OF assms] assms by blast
qed

text \<open>Handles that name no table.\<close>

lemma nat_bad_hdl:
  assumes M: "length (nc_tbl (ns_cache st nmi)) = 1" and h: "BREAK_TBL_HDL h = (nmi, n)" "n \<noteq> 1"
  shows "ipa_NATI_add_ipv4_rule os h u out st w = Some (res, st', w') \<Longrightarrow> st' = st"
    "ipa_NATI_del_ipv4_rule os h r st w = Some (ret, st', w') \<Longrightarrow> st' = st"
    "ipa_NATI_del_ipv4_table os h st w = Some (ret, st', w') \<Longrightarrow> st' = st"
    "ipa_NATI_clear_ipv4_tbl os h st w = Some (ret, st', w') \<Longrightarrow> st' = st"
proof -
  have n: "unat (n - 1) \<noteq> 0"
  proof
    assume "unat (n - 1) = 0"
    then have "n - 1 = 0" by (simp add: unat_eq_0)
    then show False using h(2) by simp
  qed
  have none: "arr_get (nc_tbl (ns_cache st nmi)) (unat (n - 1)) = None" using n M by (simp add: arr_get_def)
  have nv: "\<not> VALID_TBL_HDL h" using h by (auto simp: VALID_TBL_HDL_def BREAK_TBL_HDL_def)
  show "st' = st" if "ipa_NATI_add_ipv4_rule os h u out st w = Some (res, st', w')"
    using that nv by (auto simp: ipa_NATI_add_ipv4_rule_def split: option.splits)
  show "st' = st" if "ipa_NATI_del_ipv4_rule os h r st w = Some (ret, st', w')"
    using that h(1) none by (auto simp: ipa_NATI_del_ipv4_rule_def Let_def split: prod.splits if_splits)
  show "st' = st" if "ipa_NATI_del_ipv4_table os h st w = Some (ret, st', w')"
    using that h(1) none by (auto simp: ipa_NATI_del_ipv4_table_def Let_def split: prod.splits if_splits)
  show "st' = st" if "ipa_NATI_clear_ipv4_tbl os h st w = Some (ret, st', w')"
    using that h(1) none by (auto simp: ipa_NATI_clear_ipv4_tbl_def Let_def split: prod.splits if_splits)
qed

text \<open>Arguments that \<open>ipa_NATI_add_ipv4_rule\<close> refuses before it takes the lock.\<close>

lemma nat_add_rule_refused:
  assumes "length (ns_pdns st) = IPA_MAX_PDN_NUM"
    "u = None \<or> \<not> out \<or> \<not> VALID_TBL_HDL h \<or> \<not> nat_accepts st (the u)"
  shows "ipa_NATI_add_ipv4_rule os h u out st w =
    Some ((- EINVAL, if u = None \<or> \<not> out \<or> \<not> VALID_TBL_HDL h then None else Some 0), st, w)"
  using assms
  by (cases u) (auto simp: ipa_NATI_add_ipv4_rule_def nat_accepts_def arr_get_def Let_def split: prod.split)

lemma nat_unused_slot:
  assumes "\<not> nat_spent st h r" "fst (BREAK_TBL_HDL h) = nmi" "nat_rules nmi st (nat_slot nmi st r) = None"
  shows "\<not> (unat (nat_slot nmi st r) < tab_sz (nt_table (nat_table_of nmi st)) \<and>
      tv nat_entry_interface (nt_table (nat_table_of nmi st)) (nat_slot nmi st r))"
  using assms by (auto simp: nat_spent_def Let_def)

lemma nat_query_same:
  "ipa_NATI_query_timestamp os h r st w = Some (qr, st', w') \<Longrightarrow> st' = st"
  "ipa_NATI_post_ipv4_init_cmd os h st w = Some (ret, st', w') \<Longrightarrow> ns_cache st' = ns_cache st \<and> ns_pdns st' = ns_pdns st"
  by (auto simp: ipa_NATI_query_timestamp_def ipa_NATI_post_ipv4_init_cmd_def Let_def
      split: prod.splits if_splits Option.bind_splits)

text \<open>The mode of the memory a handle names, after an operation with that handle.\<close>

lemma nat_mode_on:
  assumes M: "nat_mode nmi st" and spec: "nat_dma_spec os" and h: "fst (BREAK_TBL_HDL h) = nmi"
  shows "ipa_NATI_add_ipv4_rule os h u out st w = Some (res, st', w') \<Longrightarrow>
      nat_mode nmi st' \<and> (\<forall>m. m \<noteq> nmi \<longrightarrow> ns_cache st' m = ns_cache st m)"
    "ipa_NATI_del_ipv4_rule os h r st w = Some (ret, st', w') \<Longrightarrow> \<not> nat_spent st h r \<Longrightarrow> \<not> nat_torn st h r ret \<Longrightarrow>
      nat_mode nmi st' \<and> (\<forall>m. m \<noteq> nmi \<longrightarrow> ns_cache st' m = ns_cache st m)"
    "ipa_NATI_clear_ipv4_tbl os h st w = Some (ret, st', w') \<Longrightarrow>
      nat_mode nmi st' \<and> (\<forall>m. m \<noteq> nmi \<longrightarrow> ns_cache st' m = ns_cache st m)"
    "ipa_NATI_del_ipv4_table os h st w = Some (ret, st', w') \<Longrightarrow>
      nat_mode nmi st' \<and> (\<forall>m. m \<noteq> nmi \<longrightarrow> ns_cache st' m = ns_cache st m)"
proof -
  obtain n where n: "BREAK_TBL_HDL h = (nmi, n)" using h by (metis prod.collapse)
  have len: "length (nc_tbl (ns_cache st nmi)) = 1"
    using M by (auto simp: nat_mode_def nat_idle_def nat_inv_def nat_stuck_def)
  have pd: "length (ns_pdns st) = IPA_MAX_PDN_NUM" by (rule nat_mode_pdns [OF M])
  note bad = nat_bad_hdl [OF len n]
  have ok: "nat_hdl_of nmi h" if "n = 1"
    using that n by (auto simp: nat_hdl_of_def VALID_TBL_HDL_def BREAK_TBL_HDL_def)
  consider (off) "nat_idle nmi st \<or> nat_stuck nmi st" | (bad) "n \<noteq> 1" | (on) "nat_inv nmi st" "n = 1"
    using M unfolding nat_mode_def by blast
  then have C: "nat_mode nmi st' \<and> (\<forall>m. m \<noteq> nmi \<longrightarrow> ns_cache st' m = ns_cache st m)"
    if "ipa_NATI_add_ipv4_rule os h u out st w = Some (res, st', w') \<or>
        ipa_NATI_del_ipv4_rule os h r st w = Some (ret, st', w') \<and> \<not> nat_spent st h r \<and> \<not> nat_torn st h r ret \<or>
        ipa_NATI_clear_ipv4_tbl os h st w = Some (ret, st', w') \<or>
        ipa_NATI_del_ipv4_table os h st w = Some (ret, st', w')" for u out res r ret w w' st'
  proof cases
    case off
    show ?thesis using that M nat_off_calls [OF off h, where os = os] nat_off_clear [OF off h, where os = os]
      unfolding nat_mode_def by blast
  next
    case bad
    then show ?thesis using that M nat_bad_hdl [OF len n bad, where os = os] by blast
  next
    case on
    have "nat_mode nmi st' \<and> (\<forall>m. m \<noteq> nmi \<longrightarrow> ns_cache st' m = ns_cache st m)"
      if a: "ipa_NATI_add_ipv4_rule os h u out st w = Some (res, st', w')"
    proof (cases "u = None \<or> \<not> out \<or> \<not> VALID_TBL_HDL h \<or> \<not> nat_accepts st (the u)")
      case True
      then show ?thesis using nat_add_rule_refused [OF pd True, of os w] a M by simp
    next
      case False
      then show ?thesis
        using nat_add_rule [OF on(1) spec ok [OF on(2)], of "the u" w] a
        by (auto simp: nat_mode_def nat_only_def)
    qed
    moreover have "nat_mode nmi st' \<and> (\<forall>m. m \<noteq> nmi \<longrightarrow> ns_cache st' m = ns_cache st m)"
      if d: "ipa_NATI_del_ipv4_rule os h r st w = Some (ret, st', w')" "\<not> nat_spent st h r" "\<not> nat_torn st h r ret"
    proof (cases "nat_rules nmi st (nat_slot nmi st r) = None")
      case True
      then show ?thesis
        using nat_del_rule_unused [OF on(1) ok [OF on(2)] nat_unused_slot [OF d(2) h True], of os w] d(1) M by auto
    next
      case False
      then show ?thesis
        using nat_del_rule [OF on(1) spec ok [OF on(2)] False, of w] d(1,3) h
        by (auto simp: nat_mode_def nat_only_def nat_torn_def)
    qed
    moreover have "nat_mode nmi st' \<and> (\<forall>m. m \<noteq> nmi \<longrightarrow> ns_cache st' m = ns_cache st m)"
      if "ipa_NATI_clear_ipv4_tbl os h st w = Some (ret, st', w')"
      using nat_clear [OF on(1) ok [OF on(2)], of os w] that by (auto simp: nat_mode_def nat_only_def)
    moreover have "nat_mode nmi st' \<and> (\<forall>m. m \<noteq> nmi \<longrightarrow> ns_cache st' m = ns_cache st m)"
      if "ipa_NATI_del_ipv4_table os h st w = Some (ret, st', w')"
      using nat_del_tbl [OF on(1) ok [OF on(2)], of os w] that M by (auto simp: nat_mode_def)
    ultimately show ?thesis using that by blast
  qed
  show "ipa_NATI_add_ipv4_rule os h u out st w = Some (res, st', w') \<Longrightarrow>
      nat_mode nmi st' \<and> (\<forall>m. m \<noteq> nmi \<longrightarrow> ns_cache st' m = ns_cache st m)"
    "ipa_NATI_del_ipv4_rule os h r st w = Some (ret, st', w') \<Longrightarrow> \<not> nat_spent st h r \<Longrightarrow> \<not> nat_torn st h r ret \<Longrightarrow>
      nat_mode nmi st' \<and> (\<forall>m. m \<noteq> nmi \<longrightarrow> ns_cache st' m = ns_cache st m)"
    "ipa_NATI_clear_ipv4_tbl os h st w = Some (ret, st', w') \<Longrightarrow>
      nat_mode nmi st' \<and> (\<forall>m. m \<noteq> nmi \<longrightarrow> ns_cache st' m = ns_cache st m)"
    "ipa_NATI_del_ipv4_table os h st w = Some (ret, st', w') \<Longrightarrow>
      nat_mode nmi st' \<and> (\<forall>m. m \<noteq> nmi \<longrightarrow> ns_cache st' m = ns_cache st m)"
    using C by blast+
qed

lemma nat_add_tbl_mode:
  assumes M: "nat_mode nmi st" and spec: "alloc_spec os"
    and a: "ipa_NATI_add_ipv4_tbl os nmi ip n st w = Some (res, st', w')"
  shows "nat_mode nmi st' \<and> (\<forall>m. m \<noteq> nmi \<longrightarrow> ns_cache st' m = ns_cache st m)"
proof (cases "nat_idle nmi st")
  case True
  show ?thesis using nat_add_tbl [OF spec True, of ip n w] a by (auto simp: nat_mode_def)
next
  case False
  then have M': "nat_inv nmi st \<or> nat_stuck nmi st" using M by (simp add: nat_mode_def)
  then have c: "nc_table_cnt (ns_cache st nmi) = 1" by (auto simp: nat_inv_def nat_stuck_def)
  then have "st' = st \<or> st' = set_cache nmi ((ns_cache st nmi)\<lparr>nc_nmi := nmi\<rparr>) st"
    using a by (auto simp: ipa_NATI_add_ipv4_tbl_def split: prod.splits if_splits)
  then show ?thesis using M'
    by (auto simp: nat_mode_def nat_inv_def nat_stuck_def set_cache_def nat_table_of_def)
qed

lemma nat_step_mode:
  assumes "nat_step os (st, w) (st', w')" "\<forall>m. nat_mode m st" "alloc_spec os" "nat_dma_spec os"
  shows "\<forall>m. nat_mode m st'"
  using assms(1)
proof (elim nat_stepE, goal_cases)
  case (1 nmi ip n res)
  then show ?case using nat_mode_all [OF assms(2)] nat_add_tbl_mode [OF _ assms(3)] assms(2) by blast
next
  case (2 h ret)
  then show ?case using nat_mode_all [OF assms(2)] nat_mode_on(4) [OF _ assms(4) refl] assms(2) by blast
next
  case (3 h u out res)
  then show ?case using nat_mode_all [OF assms(2)] nat_mode_on(1) [OF _ assms(4) refl] assms(2) by blast
next
  case (4 h r ret)
  then show ?case using nat_mode_all [OF assms(2)] nat_mode_on(2) [OF _ assms(4) refl] assms(2) by blast
next
  case (5 h ret)
  then show ?case using nat_mode_all [OF assms(2)] nat_mode_on(3) [OF _ assms(4) refl] assms(2) by blast
next
  case (6 h ret)
  then show ?case using nat_query_same(2) [OF 6] nat_mode_cong [of st' _ st] assms(2) by simp
next
  case (7 h r qr)
  then show ?case using nat_query_same(1) [OF 7] assms(2) by simp
next
  case (8 e ret)
  then show ?case using pdn_ops_cache(1) [OF 8] nat_mode_cong [of st' _ st] assms(2) by simp
next
  case (9 p pr)
  then show ?case using pdn_ops_cache(2) [OF 9] nat_mode_cong [of st' _ st] assms(2) by simp
next
  case (10 i ret)
  then show ?case using pdn_ops_cache(3) [OF 10] nat_mode_cong [of st' _ st] assms(2) by simp
next
  case (11 zr)
  then show ?case by (rule nat_sram_calls(1) [OF assms(2)])
next
  case (12 v ret)
  then show ?case by (rule nat_sram_calls(2) [OF assms(2)])
qed

lemma nat_reachable_mode:
  assumes "nat_reachable os w0 s" "alloc_spec os" "nat_dma_spec os"
  shows "\<forall>m. nat_mode m (fst s)"
  using assms(1)
proof induction
  case nr_init
  then show ?case using nat_idle_initial by (simp add: nat_mode_def)
next
  case (nr_step s s')
  then show ?case using nat_step_mode [of os "fst s" "snd s" "fst s'" "snd s'"] assms(2,3) by simp
qed

end
