(* ===== verification/Ipa_Nat_Props.thy ===== *)
theory Ipa_Nat_Props
  imports Ipa_Nat_Run Ipa_Sim_Os
begin

text \<open>
  The properties of the NAT driver, and the concrete module states at which the hypotheses of each
  are shown to hold.
\<close>

section \<open>A concrete system and module\<close>

text \<open>A device that does the writes of a command, and ignores one it cannot do.\<close>

definition nat_sim_dma :: "int \<Rightarrow> ipa_ioc_nat_dma_cmd \<Rightarrow> nat_memory \<Rightarrow> unit \<Rightarrow> (int \<times> nat_memory) \<times> unit" where
  "nat_sim_dma fd cmd m w =
     ((0, case (nat_hw (dma_posted cmd) (tbl_zero\<lparr>table_entries := fst m, recs := fst (snd m), entry_size := 32\<rparr>),
                idx_hw (dma_posted cmd) (tbl_zero\<lparr>table_entries := fst m, recs := snd (snd m), entry_size := 4\<rparr>)) of
            (Some t, Some x) \<Rightarrow> (fst m, recs t, recs x) | _ \<Rightarrow> m), w)"

lemma hw_writes_like:
  assumes "hw_writes fw bt xt ws t = Some t'" "table_entries z = table_entries t" "recs z = recs t" "entry_size z = entry_size t"
  shows "\<exists>z'. hw_writes fw bt xt ws z = Some z' \<and> recs z' = recs t'"
proof -
  have "map_option recs (hw_writes fw bt xt ws z) = map_option recs (hw_writes fw bt xt ws t)"
    by (rule hw_writes_cong) (use assms in simp_all)
  then show ?thesis using assms(1) by (auto simp: map_option_eq_Some)
qed

lemma nat_sim_dma_spec: "nat_dma_spec (sim_os nat_sim_dma)"
  unfolding nat_dma_spec_def
proof (intro allI impI)
  fix fd cmd te rs xs w r m w'
  assume d: "os_dma (sim_os nat_sim_dma) fd cmd (te, rs, xs) w = ((r, m), w')"
  have "snd m = (recs t', recs x')"
    if t: "table_entries t = te" "recs t = rs" "entry_size t = 32" "nat_hw (dma_posted cmd) t = Some t'"
      and x: "table_entries x = te" "recs x = xs" "entry_size x = 4" "idx_hw (dma_posted cmd) x = Some x'" for t t' x x'
  proof -
    obtain tz where "nat_hw (dma_posted cmd) (tbl_zero\<lparr>table_entries := te, recs := rs, entry_size := 32\<rparr>) = Some tz"
        "recs tz = recs t'"
      using hw_writes_like [OF t(4), of "tbl_zero\<lparr>table_entries := te, recs := rs, entry_size := 32\<rparr>"] t by auto
    moreover obtain xz where "idx_hw (dma_posted cmd) (tbl_zero\<lparr>table_entries := te, recs := xs, entry_size := 4\<rparr>) = Some xz"
        "recs xz = recs x'"
      using hw_writes_like [OF x(4), of "tbl_zero\<lparr>table_entries := te, recs := xs, entry_size := 4\<rparr>"] x by auto
    ultimately show ?thesis using d by (auto simp: sim_os_def nat_sim_dma_def)
  qed
  moreover have "r = 0" using d by (simp add: sim_os_def nat_sim_dma_def)
  ultimately show "(r \<noteq> 0 \<longrightarrow> snd m = (rs, xs)) \<and>
     (r = 0 \<longrightarrow> (\<forall>t t' x x'. table_entries t = te \<and> recs t = rs \<and> entry_size t = 32 \<and>
        nat_hw (dma_posted cmd) t = Some t' \<and> table_entries x = te \<and> recs x = xs \<and> entry_size x = 4 \<and>
        idx_hw (dma_posted cmd) x = Some x' \<longrightarrow> snd m = (recs t', recs x')))"
    by blast
qed

lemma nat_sim_reliable: "nat_reliable (sim_os nat_sim_dma)" "nat_dma_total (sim_os nat_sim_dma)"
  by (simp_all add: nat_reliable_def nat_dma_total_def sim_os_def nat_sim_dma_def)

lemma nat_sim_alloc_spec: "alloc_spec (sim_os nat_sim_dma)"
  by (simp add: alloc_spec_def sim_os_def)

definition nat_demo_rule :: "uint16 \<Rightarrow> ipa_nat_ipv4_rule" where
  "nat_demo_rule port = \<lparr>v4_target_ip = 0x08080808, v4_private_ip = 0xC0A80102, v4_target_port = 443,
     v4_private_port = port, v4_public_port = port, v4_protocol = 17, v4_pdn_index = 0, v4_redirect = 0, v4_enable = 0,
     v4_time_stamp = 0, v4_uc_activation_index = 5, v4_s = True, v4_ucp = False, v4_dst_only = False,
     v4_src_only = False\<rparr>"

abbreviation (input) nat_demo_ip :: uint32 where "nat_demo_ip \<equiv> 0x0A000001"

definition nat_demo_st :: nat_state where
  "nat_demo_st = fst (snd (the (ipa_NATI_add_ipv4_tbl (sim_os nat_sim_dma) IPA_NAT_MEM_IN_DDR nat_demo_ip 5 nat_initial ())))"

lemma sim_allocate: "\<exists>d'. ipa_mem_descriptor_allocate_memory (sim_os dma) d fd w = ((0, d'), w)"
  by (simp add: mem_desc_simps sim_os_def)

lemma nat_demo_create:
  assumes "nc_desc cache = Some desc"
  shows "\<exists>T. ipa_nati_create_table (sim_os dma) cache T0 ip 5 i w = Some ((0, T), w)"
proof -
  have c: "os_calloc (sim_os dma) n w = (True, w)" for n by (simp add: sim_os_def)
  obtain t1 :: "ipa_nat_rule ipa_table" where t1: "ipa_table_calculate_entries_num (ipa_table_init ''IPA NAT table'' (nc_nmi cache) 32 None 0) 5 (nc_nmi cache) = (0, t1)"
    using demo_calc by blast
  define ix where "ix = nat_index_table_init t1 (nc_nmi cache)"
  obtain d' where d': "ipa_mem_descriptor_allocate_memory (sim_os dma) (ipa_mem_descriptor_init (nt_mem_desc T0) ''ipaNatTable''
      (ipa_table_calculate_size t1 + ipa_table_calculate_size ix) i NAT_TABLE_DEV True) (desc_fd desc) w = ((0, d'), w)"
    using sim_allocate [of dma] by fast
  obtain t2 a2 where a: "ipa_table_calculate_addresses t1 (base_addr d') = (t2, a2)" by fastforce
  obtain x2 b2 where b: "ipa_table_calculate_addresses ix a2 = (x2, b2)" by fastforce
  show ?thesis
    using assms c d' a b t1 by (simp add: ipa_nati_create_table_def ix_def [symmetric])
qed

lemma nat_demo_ret:
  assumes "ns_cache st nmi = ns_cache nat_initial nmi" "length (ns_pdns st) = 16"
  shows "\<exists>h st'. ipa_NATI_add_ipv4_tbl (sim_os nat_sim_dma) nmi nat_demo_ip 5 st () = Some ((0, h), st', ())"
proof -
  let ?os = "sim_os nat_sim_dma"
  define cache where "cache = (ns_cache nat_initial nmi)\<lparr>nc_nmi := nmi, nc_desc := Some \<lparr>desc_fd = 3, desc_ver = 14\<rparr>\<rparr>"
  have l: "os_lock ?os w = (0, w)" "os_unlock ?os w = (0, w)" for w by (simp_all add: sim_os_def)
  have o: "ipa_descriptor_open ?os () = (Some \<lparr>desc_fd = 3, desc_ver = 14\<rparr>, ())"
    by (simp add: ipa_descriptor_open_def sim_os_def)
  obtain T where T: "ipa_nati_create_table ?os cache nat_table_zero nat_demo_ip 5 0 () = Some ((0, T), ())"
    using nat_demo_create [of cache _ nat_sim_dma nat_table_zero nat_demo_ip 0 "()"] by (auto simp: cache_def)
  have p: "ipa_nati_post_ipv4_init_cmd ?os (cache\<lparr>nc_tbl := [T]\<rparr>) T 0 False () = Some (0, ())"
    by (simp add: ipa_nati_post_ipv4_init_cmd_def cache_def sim_os_def)
  have n: "nc_tbl (ns_cache nat_initial nmi) = [nat_table_zero]" "nc_table_cnt (ns_cache nat_initial nmi) = 0"
      "nc_desc (ns_cache nat_initial nmi) = None"
    by (simp_all add: nat_initial_def)
  show ?thesis
    using T p assms by (simp add: ipa_NATI_add_ipv4_tbl_def n l o cache_def arr_get_def)
qed

lemma nat_demo_inv:
  "nat_inv IPA_NAT_MEM_IN_DDR nat_demo_st" "nat_rules IPA_NAT_MEM_IN_DDR nat_demo_st = Map.empty"
  "nat_accepts nat_demo_st (nat_demo_rule p)" "nat_hdl_of IPA_NAT_MEM_IN_DDR 1"
proof -
  obtain h st where st: "ipa_NATI_add_ipv4_tbl (sim_os nat_sim_dma) IPA_NAT_MEM_IN_DDR nat_demo_ip 5 nat_initial () = Some ((0, h), st, ())"
    using nat_demo_ret [of nat_initial IPA_NAT_MEM_IN_DDR] by (auto simp: nat_initial_def)
  have "nat_inv IPA_NAT_MEM_IN_DDR st" "nat_rules IPA_NAT_MEM_IN_DDR st = Map.empty" "pdn_public_ip (ns_pdns st ! 0) = nat_demo_ip"
    using nat_add_tbl [OF nat_sim_alloc_spec nat_idle_initial, of IPA_NAT_MEM_IN_DDR nat_demo_ip 5 "()"] st by auto
  then show "nat_inv IPA_NAT_MEM_IN_DDR nat_demo_st" "nat_rules IPA_NAT_MEM_IN_DDR nat_demo_st = Map.empty"
      "nat_accepts nat_demo_st (nat_demo_rule p)"
    by (simp_all add: nat_demo_st_def st nat_accepts_def nat_demo_rule_def)
  show "nat_hdl_of IPA_NAT_MEM_IN_DDR 1"
    by (simp add: nat_hdl_of_def VALID_TBL_HDL_def BREAK_TBL_HDL_def)
qed

text \<open>A table without rules has room for any rule.\<close>

lemma nat_empty_room:
  assumes I: "nat_inv nmi st" "nat_rules nmi st = Map.empty"
  shows "nat_room nmi st u"
proof -
  define T where "T = nat_table_of nmi st"
  have P: "nat_pair_of T" using I(1) by (simp add: nat_inv_def T_def)
  obtain B C where L: "nat_tab_inv (nt_table T) B" "nat_linv (nt_table T) B" "idx_linv (nt_index_table T) C"
      "table_entries (nt_index_table T) = table_entries (nt_table T)"
      "nat_linked (nat_map (nt_table T)) (idx_map (nt_index_table T))"
    using nat_pairE [OF P] .
  note W = tbl_wfD [OF natt.invD(1) [OF L(2)]] and X = tbl_wfD [OF idxt.invD(1) [OF L(3)]]
  have m: "nat_map (nt_table T) = Map.empty"
    using I(2) by (auto simp: nat_rules_def T_def nat_rule_at_def fun_eq_iff)
  then have i: "idx_map (nt_index_table T) = Map.empty"
    using L(5) unfolding nat_linked_def by (metis not_None_eq ext option.distinct(1))
  have nv: "\<not> tv nat_entry_interface (nt_table T) x" if "unat x < tab_sz (nt_table T)" for x
    using natm.empty_free [OF L(2) _ _ that] L(1) m by (simp add: nat_tab_inv_def nat_map_def)
  have iv: "\<not> tv index_entry_interface (nt_index_table T) x" if "unat x < tab_sz (nt_index_table T)" for x
    using idxm.empty_free [OF L(3) _ _ that] i by (simp add: idx_map_def tbl_homes_def)
  have "unat (fst (nat_rule_slot s d (nt_table T) ip u)) < tab_sz (nt_table T)"
    "unat (fst (nat_index_slot s (nt_table T) u)) < tab_sz (nt_index_table T)" for s d ip
    using nat_slot_range(1) [OF W(5), of s d ip u] nat_slot_range(2) [OF W(5), of s u] W(6) X(6) L(4) by simp_all
  then show ?thesis
    using nv iv by (simp add: nat_room_def nat_has_room_def Let_def T_def [symmetric] split: prod.split) (metis fst_conv)
qed

definition nat_demo_added :: "uint32 \<times> nat_state" where
  "nat_demo_added = (case the (ipa_NATI_add_ipv4_rule (sim_os nat_sim_dma) 1 (Some (nat_demo_rule 80)) True nat_demo_st ()) of
     ((_, h), st, _) \<Rightarrow> (the h, st))"

lemma nat_demo_added:
  "nat_inv IPA_NAT_MEM_IN_DDR (snd nat_demo_added)"
  "nat_rules IPA_NAT_MEM_IN_DDR (snd nat_demo_added) (nat_slot IPA_NAT_MEM_IN_DDR (snd nat_demo_added) (fst nat_demo_added)) \<noteq> None"
proof -
  obtain ret r st' w' s where A: "ipa_NATI_add_ipv4_rule (sim_os nat_sim_dma) 1 (Some (nat_demo_rule 80)) True nat_demo_st () =
        Some ((ret, Some r), st', w')" "nat_inv IPA_NAT_MEM_IN_DDR st'" "nat_only IPA_NAT_MEM_IN_DDR nat_demo_st st'"
      "nat_rules IPA_NAT_MEM_IN_DDR st' s \<noteq> None" "r = nat_handle IPA_NAT_MEM_IN_DDR nat_demo_st s"
    using nat_add_rule [OF nat_demo_inv(1) nat_sim_dma_spec nat_demo_inv(4,3), of 80 "()"] nat_sim_reliable(1)
      nat_empty_room [OF nat_demo_inv(1,2), of "nat_demo_rule 80"] by auto
  have r: "r = nat_handle IPA_NAT_MEM_IN_DDR st' s"
    using A(3,5) MakeEntryHdl_same_shape [of "nt_table (nat_table_of IPA_NAT_MEM_IN_DDR nat_demo_st)" "nt_table (nat_table_of IPA_NAT_MEM_IN_DDR st')"]
    by (simp add: nat_only_def nat_handle_def)
  show "nat_inv IPA_NAT_MEM_IN_DDR (snd nat_demo_added)"
    "nat_rules IPA_NAT_MEM_IN_DDR (snd nat_demo_added) (nat_slot IPA_NAT_MEM_IN_DDR (snd nat_demo_added) (fst nat_demo_added)) \<noteq> None"
    using A(1,2,4) nat_handle_slot [OF A(2,4)] r by (simp_all add: nat_demo_added_def)
qed

section \<open>Properties\<close>



text \<open>C39: On a system that answers every request, adding a NAT rule succeeds exactly when both the rule
  table and the index table have their hash slot or an expansion slot free; otherwise an error is
  returned and the rules are unchanged.\<close>

theorem nat_add_succeeds_iff_room:
  assumes "nat_inv nmi st" "nat_dma_spec os" "nat_reliable os" "nat_hdl_of nmi h" "nat_accepts st u"
  shows "\<exists>ret hdl st' w'. ipa_NATI_add_ipv4_rule os h (Some u) True st w = Some ((ret, Some hdl), st', w') \<and>
    (ret = 0 \<longleftrightarrow> nat_room nmi st u) \<and> (\<not> nat_room nmi st u \<longrightarrow> nat_rules nmi st' = nat_rules nmi st)"
  using nat_add_rule [OF assms(1,2,4,5), of w] assms(3) by blast

lemma nat_add_succeeds_iff_room_witness:
  "\<exists>hdl st' w'. ipa_NATI_add_ipv4_rule (sim_os nat_sim_dma) 1 (Some (nat_demo_rule 80)) True nat_demo_st () =
     Some ((0, Some hdl), st', w')"
  using nat_add_succeeds_iff_room [OF nat_demo_inv(1) nat_sim_dma_spec nat_sim_reliable(1) nat_demo_inv(4,3), of 80 "()"]
    nat_empty_room [OF nat_demo_inv(1,2), of "nat_demo_rule 80"] by auto

text \<open>C4: Deleting a NAT rule by the handle of a slot that holds one.  The call returns; on success exactly
  that rule is gone from the table, and both tables stay well formed and linked; on an error the
  rules are unchanged (only a failing unlock reports \<open>-EPERM\<close> after the rule is gone).  The module is well
  formed afterwards unless the DMA command failed and the index entry of another rule had already been
  renumbered: then, and only then, the two tables disagree.\<close>

theorem nat_del_rule_map:
  assumes "nat_inv nmi st" "nat_dma_spec os" "nat_hdl_of nmi h" "nat_rules nmi st (nat_slot nmi st r) \<noteq> None"
  shows "\<exists>ret st' w'. ipa_NATI_del_ipv4_rule os h r st w = Some (ret, st', w') \<and>
    (nat_inv nmi st' \<longleftrightarrow> \<not> (ret = - EIO \<and> nat_shared nmi st r)) \<and> nat_only nmi st st' \<and>
    (ret = 0 \<longrightarrow> nat_rules nmi st' = (nat_rules nmi st)(nat_slot nmi st r := None)) \<and>
    (ret \<noteq> 0 \<longrightarrow> nat_rules nmi st' = nat_rules nmi st \<or>
       ret = - EPERM \<and> nat_rules nmi st' = (nat_rules nmi st)(nat_slot nmi st r := None)) \<and>
    (nat_dma_total os \<longrightarrow> ret \<noteq> - EIO) \<and> (nat_reliable os \<longrightarrow> ret = 0)"
  using nat_del_rule [OF assms] .

lemma nat_del_rule_map_witness:
  "\<exists>st' w'. ipa_NATI_del_ipv4_rule (sim_os nat_sim_dma) 1 (fst nat_demo_added) (snd nat_demo_added) () =
     Some (0, st', w')"
  using nat_del_rule_map [OF nat_demo_added(1) nat_sim_dma_spec nat_demo_inv(4) nat_demo_added(2), of "()"]
    nat_sim_reliable(1) by fastforce

text \<open>C29: Adding a NAT rule and deleting it by the handle that was returned gives back the rules there
  were, in whichever slots and lists of the two tables the rule and its index entry had been put.\<close>

theorem nat_add_del_roundtrip:
  assumes "nat_inv nmi st" "nat_dma_spec os" "nat_reliable os" "nat_hdl_of nmi h" "nat_accepts st u" "nat_room nmi st u"
  shows "\<exists>r st1 w1 st2 w2. ipa_NATI_add_ipv4_rule os h (Some u) True st w = Some ((0, Some r), st1, w1) \<and>
    ipa_NATI_del_ipv4_rule os h r st1 w1 = Some (0, st2, w2) \<and> nat_inv nmi st2 \<and>
    nat_rules nmi st2 = nat_rules nmi st"
  using nat_add_del [OF assms] .

lemma nat_add_del_roundtrip_witness:
  "\<exists>r st1 st2. ipa_NATI_add_ipv4_rule (sim_os nat_sim_dma) 1 (Some (nat_demo_rule 80)) True nat_demo_st () =
      Some ((0, Some r), st1, ()) \<and> ipa_NATI_del_ipv4_rule (sim_os nat_sim_dma) 1 r st1 () = Some (0, st2, ()) \<and>
    nat_rules IPA_NAT_MEM_IN_DDR st2 = Map.empty"
  using nat_add_del_roundtrip [OF nat_demo_inv(1) nat_sim_dma_spec nat_sim_reliable(1) nat_demo_inv(4,3)
      nat_empty_room [OF nat_demo_inv(1,2)], of 80 "()"]
  by (fastforce simp: nat_demo_inv(2))

text \<open>C17: In every history of calls to the NAT driver with any arguments, on a system whose DMA request does
  all writes of a command or fails and does none, each kind of memory has no table, or a table and an index
  table that are well formed and linked, or a table that the kernel refused to delete.  DMA requests may
  fail; left out are two kinds of calls that break the tables: a second deletion of a rule, and a deletion
  whose DMA command fails while the rule's index slot heads a list of several.\<close>

theorem nat_history_invariant:
  assumes "nat_reachable os w0 s" "alloc_spec os" "nat_dma_spec os"
  shows "nat_idle nmi (fst s) \<or> nat_inv nmi (fst s) \<or> nat_stuck nmi (fst s)"
  using nat_reachable_mode [OF assms] by (simp add: nat_mode_def)

lemma nat_history_invariant_witness:
  "\<exists>st. nat_reachable (sim_os nat_sim_dma) () (st, ()) \<and>
     (nat_idle IPA_NAT_MEM_IN_SRAM st \<or> nat_inv IPA_NAT_MEM_IN_SRAM st \<or> nat_stuck IPA_NAT_MEM_IN_SRAM st)"
proof -
  obtain h st where st: "ipa_NATI_add_ipv4_tbl (sim_os nat_sim_dma) IPA_NAT_MEM_IN_DDR nat_demo_ip 5 nat_initial () = Some ((0, h), st, ())"
    using nat_demo_ret [of nat_initial IPA_NAT_MEM_IN_DDR] by (auto simp: nat_initial_def)
  then have "nat_step (sim_os nat_sim_dma) (nat_initial, ()) (st, ())" by (rule ns_add_tbl)
  then have "nat_reachable (sim_os nat_sim_dma) () (st, ())" by (rule nr_step [OF nr_init])
  then show ?thesis
    using nat_history_invariant [OF _ nat_sim_alloc_spec nat_sim_dma_spec, of "()" "(st, ())"] by auto
qed

text \<open>Creating the NAT table of a kind of memory that has none gives an empty well-formed table, its
  handle, and the public address as the first PDN; or an error and no handle, with no table left
  behind.  The other kind of memory is untouched.\<close>

theorem nat_add_tbl_fresh:
  assumes "alloc_spec os" "nat_idle nmi st"
  shows "\<exists>r h st' w'. ipa_NATI_add_ipv4_tbl os nmi ip n st w = Some ((r, h), st', w') \<and>
    (\<forall>m. m \<noteq> nmi \<longrightarrow> ns_cache st' m = ns_cache st m) \<and> length (ns_pdns st') = IPA_MAX_PDN_NUM \<and>
    (r \<in> {0, - EPERM} \<and> h = MAKE_TBL_HDL 1 nmi \<and> nat_inv nmi st' \<and> nat_rules nmi st' = Map.empty \<and>
       pdn_public_ip (ns_pdns st' ! 0) = ip \<or>
     r \<noteq> 0 \<and> h = 0 \<and> nat_idle nmi st' \<and> ns_pdns st' = ns_pdns st)"
  using nat_add_tbl [OF assms] .

lemma nat_add_tbl_fresh_witness:
  "\<exists>r h st' w'. ipa_NATI_add_ipv4_tbl (sim_os nat_sim_dma) IPA_NAT_MEM_IN_SRAM 7 100 nat_initial () = Some ((r, h), st', w') \<and>
     ns_cache st' IPA_NAT_MEM_IN_DDR = ns_cache nat_initial IPA_NAT_MEM_IN_DDR"
  using nat_add_tbl_fresh [OF nat_sim_alloc_spec nat_idle_initial, of IPA_NAT_MEM_IN_SRAM 7 100 "()"] by fastforce

text \<open>A rule with the reserved protocol, a PDN index that is out of range or a PDN that has no public
  address, a missing rule or result pointer and a handle that names no table are refused with
  \<open>-EINVAL\<close> before the lock is taken, and nothing changes.\<close>

theorem nat_add_rule_arguments_checked:
  assumes "length (ns_pdns st) = IPA_MAX_PDN_NUM"
    "u = None \<or> \<not> out \<or> \<not> VALID_TBL_HDL h \<or> \<not> nat_accepts st (the u)"
  shows "ipa_NATI_add_ipv4_rule os h u out st w =
    Some ((- EINVAL, if u = None \<or> \<not> out \<or> \<not> VALID_TBL_HDL h then None else Some 0), st, w)"
  using nat_add_rule_refused [OF assms] .

lemma nat_add_rule_arguments_checked_witness:
  "ipa_NATI_add_ipv4_rule (sim_os nat_sim_dma) 1 (Some ((nat_demo_rule 80)\<lparr>v4_pdn_index := 16\<rparr>)) True nat_initial () =
     Some ((- EINVAL, Some 0), nat_initial, ())"
proof -
  have p: "length (ns_pdns nat_initial) = IPA_MAX_PDN_NUM" by (simp add: nat_initial_def)
  have "\<not> nat_accepts nat_initial (the (Some ((nat_demo_rule 80)\<lparr>v4_pdn_index := 16\<rparr>)))" by (simp add: nat_accepts_def)
  then have "Some ((nat_demo_rule 80)\<lparr>v4_pdn_index := 16\<rparr>) = None \<or> \<not> True \<or> \<not> VALID_TBL_HDL 1 \<or>
      \<not> nat_accepts nat_initial (the (Some ((nat_demo_rule 80)\<lparr>v4_pdn_index := 16\<rparr>)))" by blast
  from nat_add_rule_arguments_checked [OF p this, of "sim_os nat_sim_dma" "()"]
  show ?thesis by (simp add: VALID_TBL_HDL_def)
qed

text \<open>Clearing the NAT table removes every rule and keeps both tables well formed, whatever lists they
  held; when the lock cannot be taken nothing changes.\<close>

theorem nat_clear_empties:
  fixes os :: "('w, nat_memory) ipa_os"
  assumes "nat_inv nmi st" "nat_hdl_of nmi h"
  shows "\<exists>ret st' w'. ipa_NATI_clear_ipv4_tbl os h st w = Some (ret, st', w') \<and> nat_inv nmi st' \<and> nat_only nmi st st' \<and>
    (if fst (os_lock os w) \<noteq> 0 then ret = - EINVAL \<and> st' = st
     else nat_rules nmi st' = Map.empty \<and> ret \<in> {0, - EPERM})"
  using nat_clear [OF assms, of os w] by (elim exE conjE) (intro exI conjI)

lemma nat_clear_empties_witness:
  "\<exists>ret st' w'. ipa_NATI_clear_ipv4_tbl (sim_os nat_sim_dma) 1 (snd nat_demo_added) () = Some (ret, st', w') \<and>
     nat_rules IPA_NAT_MEM_IN_DDR st' = Map.empty"
  using nat_clear_empties [OF nat_demo_added(1) nat_demo_inv(4), of "sim_os nat_sim_dma" "()"] by (auto simp: sim_os_def)

end
