(* ===== verification/Ipa_Nat_Map.thy ===== *)
theory Ipa_Nat_Map
  imports Ipa_Prelude
begin

text \<open>
  The maps of \<open>ipa_nat_map.cpp\<close>, which relate the rule handles a client holds to the handles the
  rules have now.  A \<open>std::map\<close> is a partial function; the array of maps is a function of the number
  of the map, whose check \<open>VALID_IPA_USE_MAP\<close> accepts every number (it is a disjunction where a
  conjunction is meant).
\<close>

datatype ipa_which_map = MAP_NUM_00 | MAP_NUM_01 | MAP_NUM_02 | MAP_NUM_03 | MAP_NUM_99

type_synonym nat_maps = "ipa_which_map \<Rightarrow> uint32 \<rightharpoonup> uint32"

definition ipa_nat_map_add :: "ipa_which_map \<Rightarrow> uint32 \<Rightarrow> uint32 \<Rightarrow> nat_maps \<Rightarrow> int \<times> nat_maps" where
  "ipa_nat_map_add which key val maps =
     (if maps which key \<noteq> None then (- 1, maps) else (0, maps(which := (maps which)(key \<mapsto> val))))"

definition ipa_nat_map_find :: "ipa_which_map \<Rightarrow> uint32 \<Rightarrow> nat_maps \<Rightarrow> int \<times> uint32 option" where
  "ipa_nat_map_find which key maps =
     (case maps which key of None \<Rightarrow> (- 1, None) | Some v \<Rightarrow> (0, Some v))"

definition ipa_nat_map_del :: "ipa_which_map \<Rightarrow> uint32 \<Rightarrow> nat_maps \<Rightarrow> int \<times> uint32 option \<times> nat_maps" where
  "ipa_nat_map_del which key maps =
     (case maps which key of None \<Rightarrow> (- 1, None, maps)
      | Some v \<Rightarrow> (0, Some v, maps(which := (maps which)(key := None))))"

definition ipa_nat_map_clear :: "ipa_which_map \<Rightarrow> nat_maps \<Rightarrow> nat_maps" where
  "ipa_nat_map_clear which maps = maps(which := Map.empty)"

end
