(* ===== verification/Ipa_Nat_Statemach.thy ===== *)
theory Ipa_Nat_Statemach
  imports Ipa_Nat_Ops Ipa_Nat_Map
begin

text \<open>
  The state machine of \<open>ipa_nat_statemach.c\<close>, which hides from the client whether its NAT table is in
  SRAM, in DDR or in both.  A call is a trigger; the table \<open>_state_mach_tbl\<close> selects the handler by
  state and trigger, and handlers run further triggers, so the machine is recursive.  The recursion
  is bounded by fuel; the theory of its properties shows that three levels are always enough.

  The clock readings and the statistics that handlers collect only to print them are not modelled.
\<close>

section \<open>State\<close>

datatype ipa_nati_state =
  NATI_STATE_NULL | NATI_STATE_DDR_ONLY | NATI_STATE_SRAM_ONLY | NATI_STATE_HYBRID
  | NATI_STATE_HYBRID_DDR | NATI_STATE_LAST

datatype ipa_nati_trigger =
  NATI_TRIG_NULL | NATI_TRIG_ADD_TABLE | NATI_TRIG_DEL_TABLE | NATI_TRIG_CLR_TABLE
  | NATI_TRIG_WLK_TABLE | NATI_TRIG_TBL_STATS | NATI_TRIG_ADD_RULE | NATI_TRIG_DEL_RULE
  | NATI_TRIG_TBL_SWITCH | NATI_TRIG_GOTO_DDR | NATI_TRIG_GOTO_SRAM | NATI_TRIG_GET_TSTAMP
  | NATI_TRIG_LAST

record nati_switch_stats =
  sw_pass :: uint32
  sw_fail :: uint32

text \<open>The arrays indexed by \<open>DDR_SUB\<close> and \<open>SRAM_SUB\<close> are functions of the kind of memory.\<close>

record ipa_nati_obj =
  no_prev_state :: ipa_nati_state
  no_curr_state :: ipa_nati_state
  no_hold_state :: bool
  no_state_to_hold :: ipa_nati_state
  no_ddr_tbl_hdl :: uint32
  no_sram_tbl_hdl :: uint32
  no_tot_slots_in_sram :: uint32
  no_back_to_sram_thresh :: uint32
  no_tot_rules_in_table :: "ipa3_nat_mem_in \<Rightarrow> uint32"
  no_sw_stats :: "ipa3_nat_mem_in \<Rightarrow> nati_switch_stats"

abbreviation (input) DDR_SUB :: ipa3_nat_mem_in where "DDR_SUB \<equiv> IPA_NAT_MEM_IN_DDR"
abbreviation (input) SRAM_SUB :: ipa3_nat_mem_in where "SRAM_SUB \<equiv> IPA_NAT_MEM_IN_SRAM"

text \<open>The member \<open>map_pairs\<close> never changes.\<close>

fun orig2new_map :: "ipa3_nat_mem_in \<Rightarrow> ipa_which_map" where
  "orig2new_map IPA_NAT_MEM_IN_DDR = MAP_NUM_00"
| "orig2new_map IPA_NAT_MEM_IN_SRAM = MAP_NUM_02"

fun new2orig_map :: "ipa3_nat_mem_in \<Rightarrow> ipa_which_map" where
  "new2orig_map IPA_NAT_MEM_IN_DDR = MAP_NUM_01"
| "new2orig_map IPA_NAT_MEM_IN_SRAM = MAP_NUM_03"

text \<open>The state the NAT library keeps between calls.\<close>

record nat_sys =
  sy_drv :: nat_state
  sy_obj :: ipa_nati_obj
  sy_maps :: nat_maps
  sy_mutex_init :: bool

definition nati_obj_initial :: ipa_nati_obj where
  "nati_obj_initial = \<lparr>no_prev_state = NATI_STATE_NULL, no_curr_state = NATI_STATE_NULL, no_hold_state = False,
     no_state_to_hold = NATI_STATE_NULL, no_ddr_tbl_hdl = 0, no_sram_tbl_hdl = 0, no_tot_slots_in_sram = 0,
     no_back_to_sram_thresh = 0, no_tot_rules_in_table = (\<lambda>_. 0),
     no_sw_stats = (\<lambda>_. \<lparr>sw_pass = 0, sw_fail = 0\<rparr>)\<rparr>"

definition nat_sys_initial :: nat_sys where
  "nat_sys_initial = \<lparr>sy_drv = nat_initial, sy_obj = nati_obj_initial, sy_maps = (\<lambda>_. Map.empty),
     sy_mutex_init = False\<rparr>"

definition set_drv :: "nat_state \<Rightarrow> nat_sys \<Rightarrow> nat_sys" where
  "set_drv d sy = sy\<lparr>sy_drv := d\<rparr>"

definition upd_obj :: "(ipa_nati_obj \<Rightarrow> ipa_nati_obj) \<Rightarrow> nat_sys \<Rightarrow> nat_sys" where
  "upd_obj f sy = sy\<lparr>sy_obj := f (sy_obj sy)\<rparr>"

section \<open>The macros of the header\<close>

definition SET_NATIOBJ_STATE :: "ipa_nati_state \<Rightarrow> ipa_nati_obj \<Rightarrow> ipa_nati_obj" where
  "SET_NATIOBJ_STATE s ob = ob\<lparr>no_prev_state := no_curr_state ob, no_curr_state := s\<rparr>"

definition BACK2_UNSTARTED_STATE :: "ipa_nati_obj \<Rightarrow> ipa_nati_obj" where
  "BACK2_UNSTARTED_STATE ob = ob\<lparr>no_prev_state := NATI_STATE_NULL, no_curr_state := NATI_STATE_NULL\<rparr>"

definition IN_UNSTARTED_STATE :: "ipa_nati_obj \<Rightarrow> bool" where
  "IN_UNSTARTED_STATE ob \<longleftrightarrow> no_prev_state ob = NATI_STATE_NULL"

definition IN_HYBRID_STATE :: "ipa_nati_obj \<Rightarrow> bool" where
  "IN_HYBRID_STATE ob \<longleftrightarrow> no_curr_state ob = NATI_STATE_HYBRID \<or> no_curr_state ob = NATI_STATE_HYBRID_DDR"

definition COMPATIBLE_NMI_4SWITCH :: "ipa_nati_obj \<Rightarrow> ipa3_nat_mem_in \<Rightarrow> bool" where
  "COMPATIBLE_NMI_4SWITCH ob n \<longleftrightarrow>
     n = IPA_NAT_MEM_IN_SRAM \<and> no_curr_state ob = NATI_STATE_HYBRID_DDR \<or>
     n = IPA_NAT_MEM_IN_DDR \<and> no_curr_state ob = NATI_STATE_HYBRID \<or>
     n = IPA_NAT_MEM_IN_DDR \<and> no_curr_state ob = NATI_STATE_DDR_ONLY \<or>
     n = IPA_NAT_MEM_IN_SRAM \<and> no_curr_state ob = NATI_STATE_SRAM_ONLY"

definition GEN_HOLD_STATE :: "ipa_nati_obj \<Rightarrow> ipa_nati_state" where
  "GEN_HOLD_STATE ob =
     (if \<not> IN_HYBRID_STATE ob then no_curr_state ob
      else if no_curr_state ob = NATI_STATE_HYBRID then NATI_STATE_SRAM_ONLY else NATI_STATE_DDR_ONLY)"

definition SRAM_CURRENTLY_ACTIVE :: "ipa_nati_obj \<Rightarrow> bool" where
  "SRAM_CURRENTLY_ACTIVE ob \<longleftrightarrow> no_curr_state ob = NATI_STATE_SRAM_ONLY \<or> no_curr_state ob = NATI_STATE_HYBRID"

definition SRAM_TO_BE_ACCESSED :: "ipa_nati_obj \<Rightarrow> ipa_nati_trigger \<Rightarrow> bool" where
  "SRAM_TO_BE_ACCESSED ob t \<longleftrightarrow>
     SRAM_CURRENTLY_ACTIVE ob \<or> t = NATI_TRIG_GOTO_SRAM \<or> t = NATI_TRIG_TBL_SWITCH"

definition VOTE_REQUIRED :: "ipa_nati_obj \<Rightarrow> ipa_nati_trigger \<Rightarrow> bool" where
  "VOTE_REQUIRED ob t \<longleftrightarrow> SRAM_TO_BE_ACCESSED ob t \<and> t \<noteq> NATI_TRIG_GET_TSTAMP \<and> t \<noteq> NATI_TRIG_ADD_TABLE"

definition CHOOSE_MEM_SUB :: "ipa_nati_obj \<Rightarrow> ipa3_nat_mem_in" where
  "CHOOSE_MEM_SUB ob = (if no_curr_state ob = NATI_STATE_HYBRID then SRAM_SUB else DDR_SUB)"

text \<open>\<open>strcasecmp\<close> on ASCII strings, and the state a memory type asks for.\<close>

definition ascii_lower :: "char \<Rightarrow> char" where
  "ascii_lower c = (let n = of_char c :: nat in if 65 \<le> n \<and> n \<le> 90 then char_of (n + 32) else c)"

definition strcasesame :: "string \<Rightarrow> string \<Rightarrow> bool" where
  "strcasesame a b \<longleftrightarrow> map ascii_lower a = map ascii_lower b"

definition mem_type_str_to_ipa_nati_state :: "string option \<Rightarrow> ipa_nati_state" where
  "mem_type_str_to_ipa_nati_state str =
     (case str of
        None \<Rightarrow> NATI_STATE_DDR_ONLY
      | Some s \<Rightarrow> if strcasesame s ''HYBRID'' then NATI_STATE_HYBRID
                  else if strcasesame s ''SRAM'' then NATI_STATE_SRAM_ONLY
                  else NATI_STATE_DDR_ONLY)"

section \<open>The mutex\<close>

text \<open>\<open>os_mutex_init\<close> stands for the three \<open>pthread\<close> calls of \<open>mutex_init\<close>.\<close>

definition mutex_init :: "('w, 'm) ipa_os \<Rightarrow> nat_sys \<Rightarrow> 'w \<Rightarrow> int \<times> nat_sys \<times> 'w" where
  "mutex_init os sy w =
     (let (ret, w) = os_mutex_init os w in
      if ret \<noteq> 0 then (ret, sy, w) else (ret, sy\<lparr>sy_mutex_init := True\<rparr>, w))"

definition take_mutex :: "('w, 'm) ipa_os \<Rightarrow> nat_sys \<Rightarrow> 'w \<Rightarrow> int \<times> nat_sys \<times> 'w" where
  "take_mutex os sy w =
     (if sy_mutex_init sy then (let (ret, w) = os_lock os w in (ret, sy, w))
      else
        let (ret, sy, w) = mutex_init os sy w in
        if ret = 0 then (let (ret, w) = os_lock os w in (ret, sy, w)) else (ret, sy, w))"

definition give_mutex :: "('w, 'm) ipa_os \<Rightarrow> nat_sys \<Rightarrow> 'w \<Rightarrow> int \<times> 'w" where
  "give_mutex os sy w = (if sy_mutex_init sy then os_unlock os w else (- 1, w))"

text \<open>\<open>ipa_nat_vote_clock\<close> of \<open>ipa_nat_drv.c\<close>; every value of the type is in its range.\<close>

definition ipa_nat_vote_clock ::
    "('w, 'm) ipa_os \<Rightarrow> ipa_app_clock_vote_type \<Rightarrow> nat_sys \<Rightarrow> 'w \<Rightarrow> int \<times> nat_sys \<times> 'w" where
  "ipa_nat_vote_clock os vote_type sy w =
     (let (ret, d, w) = ipa_nati_vote_clock os vote_type (sy_drv sy) w in (ret, set_drv d sy, w))"

section \<open>Arguments and results\<close>

text \<open>
  The array of arguments, one shape per kind of call, and what a call writes through its result
  pointers.  A handler that is given another shape reads memory it does not own: undefined.
\<close>

datatype 'w nati_args =
    A_Null
  | A_AddTbl uint32 uint16 "string option"
  | A_Tbl uint32
  | A_Walk uint32 "(nat_sys \<times> 'w) nat_walk"
  | A_Stats uint32 bool bool
  | A_AddRule uint32 ipa_nat_ipv4_rule bool
  | A_DelRule uint32 uint32
  | A_TStamp uint32 uint32

datatype nati_out =
    Out_None
  | Out_Val uint32
  | Out_Stats ipa_nati_tbl_stats ipa_nati_tbl_stats

type_synonym 'w sm_result = "((int \<times> nati_out) \<times> nat_sys \<times> 'w) option"

type_synonym 'w sm_fun = "ipa_nati_trigger \<Rightarrow> 'w nati_args \<Rightarrow> nat_sys \<Rightarrow> 'w \<Rightarrow> 'w sm_result"

definition out_opt :: "uint32 option \<Rightarrow> nati_out" where
  "out_opt v = (case v of None \<Rightarrow> Out_None | Some x \<Rightarrow> Out_Val x)"

section \<open>Moving a rule between tables\<close>

definition rule_of_record :: "ipa_nat_rule \<Rightarrow> ipa_nat_ipv4_rule" where
  "rule_of_record r = \<lparr>v4_target_ip = nr_target_ip r, v4_private_ip = nr_private_ip r,
     v4_target_port = nr_target_port r, v4_private_port = nr_private_port r, v4_public_port = nr_public_port r,
     v4_protocol = nr_protocol r, v4_pdn_index = ucast (nr_pdn_index r),
     v4_redirect = (if nr_redirect r then 1 else 0), v4_enable = (if nr_enable r then 1 else 0),
     v4_time_stamp = ucast (nr_time_stamp r), v4_uc_activation_index = ucast (nr_uc_activation_index r),
     v4_s = nr_s r, v4_ucp = nr_ucp r, v4_dst_only = nr_dst_only r, v4_src_only = nr_src_only r\<rparr>"

fun other_mem :: "ipa3_nat_mem_in \<Rightarrow> ipa3_nat_mem_in" where
  "other_mem IPA_NAT_MEM_IN_SRAM = IPA_NAT_MEM_IN_DDR"
| "other_mem IPA_NAT_MEM_IN_DDR = IPA_NAT_MEM_IN_SRAM"

definition migrate_rule ::
    "('w, nat_memory) ipa_os \<Rightarrow> uint32 \<Rightarrow> (ipa_nat_rule, nat_sys \<times> 'w) ipa_table_walk_cb" where
  "migrate_rule os dst_tbl_hdl t tbl_rule_hdl record_ptr record_index meta_ptr meta_index s =
     (case s of (sy, w) \<Rightarrow>
      do {
        rule \<leftarrow> rec_get t record_ptr;
        let src = tbl_nmi t;
        let dst = other_mem src;
        if nr_protocol rule = 0xFF then Some (0, sy, w)
        else
          let (ret, orig) = ipa_nat_map_find (new2orig_map src) tbl_rule_hdl (sy_maps sy) in
          case orig of None \<Rightarrow> Some (ret, sy, w)
          | Some orig_rule_hdl \<Rightarrow> do {
            ((ret, hdl), d, w) \<leftarrow> ipa_NATI_add_ipv4_rule os dst_tbl_hdl (Some (rule_of_record rule)) True (sy_drv sy) w;
            let sy = set_drv d sy;
            if ret \<noteq> 0 then Some (ret, sy, w)
            else do {
              new_rule_hdl \<leftarrow> hdl;
              let sy = upd_obj (\<lambda>ob. ob\<lparr>no_tot_rules_in_table :=
                    (no_tot_rules_in_table ob)(dst := no_tot_rules_in_table ob dst + 1)\<rparr>) sy;
              let (ret, maps) = ipa_nat_map_add (orig2new_map dst) orig_rule_hdl new_rule_hdl (sy_maps sy);
              let sy = sy\<lparr>sy_maps := maps\<rparr>;
              if ret \<noteq> 0 then Some (ret, sy, w)
              else
                let (ret, maps) = ipa_nat_map_add (new2orig_map dst) new_rule_hdl orig_rule_hdl (sy_maps sy)
                in Some (ret, sy\<lparr>sy_maps := maps\<rparr>, w)
            }
          }
      })"

section \<open>Handlers\<close>

definition smUndef :: "('w, nat_memory) ipa_os \<Rightarrow> 'w nati_args \<Rightarrow> nat_sys \<Rightarrow> 'w \<Rightarrow> 'w sm_result" where
  "smUndef os args sy w = Some ((- 1, Out_None), sy, w)"

definition smDelTbl :: "('w, nat_memory) ipa_os \<Rightarrow> 'w nati_args \<Rightarrow> nat_sys \<Rightarrow> 'w \<Rightarrow> 'w sm_result" where
  "smDelTbl os args sy w =
     (case args of A_Tbl tbl_hdl \<Rightarrow> do {
        (ret, d, w) \<leftarrow> ipa_NATI_del_ipv4_table os tbl_hdl (sy_drv sy) w;
        let sy = set_drv d sy;
        let sy = (if ret = 0 \<and> \<not> IN_HYBRID_STATE (sy_obj sy) then upd_obj BACK2_UNSTARTED_STATE sy else sy);
        Some ((ret, Out_None), sy, w)
      } | _ \<Rightarrow> None)"

definition smFirstTbl ::
    "'w sm_fun \<Rightarrow> ('w, nat_memory) ipa_os \<Rightarrow> 'w nati_args \<Rightarrow> nat_sys \<Rightarrow> 'w \<Rightarrow> 'w sm_result" where
  "smFirstTbl sm os args sy w =
     (case args of A_AddTbl public_ip_addr number_of_entries mem_type \<Rightarrow>
        let ob = sy_obj sy;
            s = (if no_hold_state ob \<and> no_state_to_hold ob \<noteq> NATI_STATE_NULL then no_state_to_hold ob
                 else mem_type_str_to_ipa_nati_state mem_type)
        in sm NATI_TRIG_ADD_TABLE args (upd_obj (SET_NATIOBJ_STATE s) sy) w
      | _ \<Rightarrow> None)"

text \<open>The table handle of the object is written whatever the result; the client's on success.\<close>

definition smAddDdrTbl :: "('w, nat_memory) ipa_os \<Rightarrow> 'w nati_args \<Rightarrow> nat_sys \<Rightarrow> 'w \<Rightarrow> 'w sm_result" where
  "smAddDdrTbl os args sy w =
     (case args of A_AddTbl public_ip_addr number_of_entries mem_type \<Rightarrow> do {
        ((ret, hdl), d, w) \<leftarrow> ipa_NATI_add_ipv4_tbl os IPA_NAT_MEM_IN_DDR public_ip_addr number_of_entries (sy_drv sy) w;
        let sy = upd_obj (\<lambda>ob. ob\<lparr>no_ddr_tbl_hdl := hdl\<rparr>) (set_drv d sy);
        Some ((ret, if ret = 0 then Out_Val hdl else Out_None), sy, w)
      } | _ \<Rightarrow> None)"

text \<open>
  The number of slots is computed through a pointer to 16 bits into a 32-bit member, so the upper
  half keeps its old value (little-endian).  The threshold is a quarter of it, cut to an integer.
\<close>

definition smAddSramTbl :: "('w, nat_memory) ipa_os \<Rightarrow> 'w nati_args \<Rightarrow> nat_sys \<Rightarrow> 'w \<Rightarrow> 'w sm_result" where
  "smAddSramTbl os args sy w =
     (case args of A_AddTbl public_ip_addr number_of_entries mem_type \<Rightarrow> (
        let ((ret, sz), d, w) = ipa_nati_get_sram_size os (sy_drv sy) w; sy = set_drv d sy in
        if ret \<noteq> 0 then Some ((ret, Out_None), sy, w)
        else do {
          sram_size \<leftarrow> sz;
          (ret, n) \<leftarrow> ipa_calc_num_sram_table_entries sram_size 32 4;
          let slots = (no_tot_slots_in_sram (sy_obj sy) AND 0xFFFF0000) OR ucast n;
          let sy = upd_obj (\<lambda>ob. ob\<lparr>no_tot_slots_in_sram := slots\<rparr>) sy;
          if ret \<noteq> 0 then Some ((ret, Out_None), sy, w)
          else
            let sy = upd_obj (\<lambda>ob. ob\<lparr>no_back_to_sram_thresh := slots div 4\<rparr>) sy;
                (ret, sy, w) = ipa_nat_vote_clock os IPA_APP_CLK_VOTE sy w
            in if ret \<noteq> 0 then Some ((ret, Out_None), sy, w)
            else do {
              ((ret, hdl), d, w) \<leftarrow> ipa_NATI_add_ipv4_tbl os IPA_NAT_MEM_IN_SRAM public_ip_addr (ucast slots) (sy_drv sy) w;
              let sy = upd_obj (\<lambda>ob. ob\<lparr>no_sram_tbl_hdl := hdl\<rparr>) (set_drv d sy);
              let (_, sy, w) = ipa_nat_vote_clock os IPA_APP_CLK_DEVOTE sy w;
              Some ((ret, if ret = 0 then Out_Val hdl else Out_None), sy, w)
            }
        }) | _ \<Rightarrow> None)"

definition clear_mem :: "ipa3_nat_mem_in \<Rightarrow> nat_sys \<Rightarrow> nat_sys" where
  "clear_mem m sy =
     (upd_obj (\<lambda>ob. ob\<lparr>no_tot_rules_in_table := (no_tot_rules_in_table ob)(m := 0)\<rparr>) sy)
       \<lparr>sy_maps := ipa_nat_map_clear (new2orig_map m) (ipa_nat_map_clear (orig2new_map m) (sy_maps sy))\<rparr>"

definition smAddSramAndDdrTbl ::
    "'w sm_fun \<Rightarrow> ('w, nat_memory) ipa_os \<Rightarrow> 'w nati_args \<Rightarrow> nat_sys \<Rightarrow> 'w \<Rightarrow> 'w sm_result" where
  "smAddSramAndDdrTbl sm os args sy w =
     (case args of A_AddTbl public_ip_addr number_of_entries mem_type \<Rightarrow> do {
        let sy = clear_mem DDR_SUB (clear_mem SRAM_SUB sy);
        ((ret, out), sy, w) \<leftarrow> smAddSramTbl os args sy w;
        if ret = 0 then
          (if no_tot_slots_in_sram (sy_obj sy) \<ge> ucast number_of_entries
           then Some ((ret, out), upd_obj (SET_NATIOBJ_STATE NATI_STATE_SRAM_ONLY) sy, w)
           else do {
             ((ret, _), sy, w) \<leftarrow> smAddDdrTbl os (A_AddTbl public_ip_addr number_of_entries None) sy w;
             if ret = 0 then do {
               ((ret, _), sy, w) \<leftarrow> sm NATI_TRIG_GOTO_SRAM A_Null sy w;
               Some ((ret, out), sy, w)
             }
             else Some ((ret, out), sy, w)
           })
        else do {
          ((ret, out), sy, w) \<leftarrow> smAddDdrTbl os args sy w;
          Some ((ret, out), if ret = 0 then upd_obj (SET_NATIOBJ_STATE NATI_STATE_DDR_ONLY) sy else sy, w)
        }
      } | _ \<Rightarrow> None)"

definition smDelSramAndDdrTbl :: "('w, nat_memory) ipa_os \<Rightarrow> 'w nati_args \<Rightarrow> nat_sys \<Rightarrow> 'w \<Rightarrow> 'w sm_result" where
  "smDelSramAndDdrTbl os args sy w =
     do {
       let sy = clear_mem DDR_SUB (clear_mem SRAM_SUB sy);
       ((ret, _), sy, w) \<leftarrow> smDelTbl os args sy w;
       ((ret, _), sy, w) \<leftarrow>
         (if ret = 0 then smDelTbl os (A_Tbl (no_ddr_tbl_hdl (sy_obj sy))) sy w
          else Some ((ret, Out_None), sy, w));
       Some ((ret, Out_None), if ret = 0 then upd_obj BACK2_UNSTARTED_STATE sy else sy, w)
     }"

definition smClrTbl :: "('w, nat_memory) ipa_os \<Rightarrow> 'w nati_args \<Rightarrow> nat_sys \<Rightarrow> 'w \<Rightarrow> 'w sm_result" where
  "smClrTbl os args sy w =
     (case args of A_Tbl tbl_hdl \<Rightarrow> do {
        let sy = clear_mem (fst (BREAK_TBL_HDL tbl_hdl)) sy;
        (ret, d, w) \<leftarrow> ipa_NATI_clear_ipv4_tbl os tbl_hdl (sy_drv sy) w;
        Some ((ret, Out_None), set_drv d sy, w)
      } | _ \<Rightarrow> None)"

text \<open>In a hybrid state the client's table handle is the one in SRAM; in DDR another one is used.\<close>

definition hybrid_hdl :: "ipa_nati_obj \<Rightarrow> uint32 \<Rightarrow> uint32" where
  "hybrid_hdl ob tbl_hdl = (if no_curr_state ob = NATI_STATE_HYBRID then tbl_hdl else no_ddr_tbl_hdl ob)"

definition smClrTblHybrid :: "('w, nat_memory) ipa_os \<Rightarrow> 'w nati_args \<Rightarrow> nat_sys \<Rightarrow> 'w \<Rightarrow> 'w sm_result" where
  "smClrTblHybrid os args sy w =
     (case args of A_Tbl tbl_hdl \<Rightarrow> smClrTbl os (A_Tbl (hybrid_hdl (sy_obj sy) tbl_hdl)) sy w | _ \<Rightarrow> None)"

definition smWalkTbl :: "('w, nat_memory) ipa_os \<Rightarrow> 'w nati_args \<Rightarrow> nat_sys \<Rightarrow> 'w \<Rightarrow> 'w sm_result" where
  "smWalkTbl os args sy w =
     (case args of A_Walk tbl_hdl which \<Rightarrow> do {
        (ret, sy, w) \<leftarrow> ipa_NATI_walk_ipv4_tbl os sy_drv tbl_hdl which sy w;
        Some ((ret, Out_None), sy, w)
      } | _ \<Rightarrow> None)"

definition smWalkTblHybrid :: "('w, nat_memory) ipa_os \<Rightarrow> 'w nati_args \<Rightarrow> nat_sys \<Rightarrow> 'w \<Rightarrow> 'w sm_result" where
  "smWalkTblHybrid os args sy w =
     (case args of A_Walk tbl_hdl which \<Rightarrow> smWalkTbl os (A_Walk (hybrid_hdl (sy_obj sy) tbl_hdl) which) sy w | _ \<Rightarrow> None)"

definition smStatTbl :: "('w, nat_memory) ipa_os \<Rightarrow> 'w nati_args \<Rightarrow> nat_sys \<Rightarrow> 'w \<Rightarrow> 'w sm_result" where
  "smStatTbl os args sy w =
     (case args of A_Stats tbl_hdl has_nat has_idx \<Rightarrow> do {
        ((ret, stats), w) \<leftarrow> ipa_NATI_ipv4_tbl_stats os tbl_hdl has_nat has_idx (sy_drv sy) w;
        Some ((ret, case stats of None \<Rightarrow> Out_None | Some (a, b) \<Rightarrow> Out_Stats a b), sy, w)
      } | _ \<Rightarrow> None)"

definition smStatTblHybrid :: "('w, nat_memory) ipa_os \<Rightarrow> 'w nati_args \<Rightarrow> nat_sys \<Rightarrow> 'w \<Rightarrow> 'w sm_result" where
  "smStatTblHybrid os args sy w =
     (case args of A_Stats tbl_hdl has_nat has_idx \<Rightarrow>
        smStatTbl os (A_Stats (hybrid_hdl (sy_obj sy) tbl_hdl) has_nat has_idx) sy w | _ \<Rightarrow> None)"

text \<open>The three members the client must not set are cleared in its own rule.\<close>

definition clear_internal :: "ipa_nat_ipv4_rule \<Rightarrow> ipa_nat_ipv4_rule" where
  "clear_internal rule = rule\<lparr>v4_redirect := 0, v4_enable := 0, v4_time_stamp := 0\<rparr>"

definition count_rule :: "(uint32 \<Rightarrow> uint32) \<Rightarrow> ipa_nati_obj \<Rightarrow> ipa_nati_obj" where
  "count_rule f ob =
     (let sub = CHOOSE_MEM_SUB ob in
      ob\<lparr>no_tot_rules_in_table := (no_tot_rules_in_table ob)(sub := f (no_tot_rules_in_table ob sub))\<rparr>)"

definition smAddRuleToTbl :: "('w, nat_memory) ipa_os \<Rightarrow> 'w nati_args \<Rightarrow> nat_sys \<Rightarrow> 'w \<Rightarrow> 'w sm_result" where
  "smAddRuleToTbl os args sy w =
     (case args of A_AddRule tbl_hdl clnt_rule has_out \<Rightarrow> do {
        ((ret, hdl), d, w) \<leftarrow>
          ipa_NATI_add_ipv4_rule os tbl_hdl (Some (clear_internal clnt_rule)) has_out (sy_drv sy) w;
        let sy = set_drv d sy;
        let sy = (if ret = 0 then upd_obj (count_rule (\<lambda>n. n + 1)) sy else sy);
        Some ((ret, out_opt hdl), sy, w)
      } | _ \<Rightarrow> None)"

definition smDelRuleFromTbl :: "('w, nat_memory) ipa_os \<Rightarrow> 'w nati_args \<Rightarrow> nat_sys \<Rightarrow> 'w \<Rightarrow> 'w sm_result" where
  "smDelRuleFromTbl os args sy w =
     (case args of A_DelRule tbl_hdl rule_hdl \<Rightarrow> do {
        (ret, d, w) \<leftarrow> ipa_NATI_del_ipv4_rule os tbl_hdl rule_hdl (sy_drv sy) w;
        let sy = set_drv d sy;
        let sy = (if ret = 0 then upd_obj (count_rule (\<lambda>n. n - 1)) sy else sy);
        Some ((ret, Out_None), sy, w)
      } | _ \<Rightarrow> None)"

definition smAddRuleHybrid ::
    "'w sm_fun \<Rightarrow> ('w, nat_memory) ipa_os \<Rightarrow> ipa_nati_trigger \<Rightarrow> 'w nati_args \<Rightarrow> nat_sys \<Rightarrow> 'w \<Rightarrow> 'w sm_result" where
  "smAddRuleHybrid sm os trigger args sy w =
     (case args of A_AddRule tbl_hdl clnt_rule has_out \<Rightarrow> do {
        ((ret, out), sy, w) \<leftarrow>
          smAddRuleToTbl os (A_AddRule (hybrid_hdl (sy_obj sy) tbl_hdl) clnt_rule has_out) sy w;
        if ret = 0 then
          (case out of Out_Val rule_hdl \<Rightarrow>
             let sub = CHOOSE_MEM_SUB (sy_obj sy);
                 (ret, maps) = ipa_nat_map_add (orig2new_map sub) rule_hdl rule_hdl (sy_maps sy)
             in if ret = 0 then
                  (let (ret, maps) = ipa_nat_map_add (new2orig_map sub) rule_hdl rule_hdl maps
                   in Some ((ret, out), sy\<lparr>sy_maps := maps\<rparr>, w))
                else Some ((ret, out), sy\<lparr>sy_maps := maps\<rparr>, w)
           | _ \<Rightarrow> None)
        else if no_curr_state (sy_obj sy) = NATI_STATE_HYBRID \<and> \<not> no_hold_state (sy_obj sy) then do {
          ((ret, _), sy, w) \<leftarrow> sm NATI_TRIG_TBL_SWITCH A_Null sy w;
          if ret = 0 then do {
            ((ret, out2), sy, w) \<leftarrow> sm trigger args (upd_obj (SET_NATIOBJ_STATE NATI_STATE_HYBRID_DDR) sy) w;
            Some ((ret, if out2 = Out_None then out else out2), sy, w)
          }
          else Some ((ret, out), sy, w)
        }
        else Some ((ret, out), sy, w)
      } | _ \<Rightarrow> None)"

definition smDelRuleHybrid ::
    "'w sm_fun \<Rightarrow> ('w, nat_memory) ipa_os \<Rightarrow> 'w nati_args \<Rightarrow> nat_sys \<Rightarrow> 'w \<Rightarrow> 'w sm_result" where
  "smDelRuleHybrid sm os args sy w =
     (case args of A_DelRule tbl_hdl orig_rule_hdl \<Rightarrow>
        (let sub = CHOOSE_MEM_SUB (sy_obj sy);
             (ret, new, maps) = ipa_nat_map_del (orig2new_map sub) orig_rule_hdl (sy_maps sy)
         in case new of None \<Rightarrow> Some ((ret, Out_None), sy\<lparr>sy_maps := maps\<rparr>, w)
         | Some new_rule_hdl \<Rightarrow> do {
           let (_, _, maps) = ipa_nat_map_del (new2orig_map sub) new_rule_hdl maps;
           ((ret, _), sy, w) \<leftarrow>
             smDelRuleFromTbl os (A_DelRule (hybrid_hdl (sy_obj sy) tbl_hdl) new_rule_hdl) (sy\<lparr>sy_maps := maps\<rparr>) w;
           let ob = sy_obj sy;
           if ret = 0 \<and> no_curr_state ob = NATI_STATE_HYBRID_DDR \<and>
              no_tot_rules_in_table ob (CHOOSE_MEM_SUB ob) \<le> no_back_to_sram_thresh ob \<and> \<not> no_hold_state ob
           then do {
             ((ret, _), sy, w) \<leftarrow> sm NATI_TRIG_TBL_SWITCH A_Null sy w;
             Some ((0, Out_None), if ret = 0 then upd_obj (SET_NATIOBJ_STATE NATI_STATE_HYBRID) sy else sy, w)
           }
           else Some ((ret, Out_None), sy, w)
         })
      | _ \<Rightarrow> None)"

definition smGoToDdr :: "('w, nat_memory) ipa_os \<Rightarrow> 'w nati_args \<Rightarrow> nat_sys \<Rightarrow> 'w \<Rightarrow> 'w sm_result" where
  "smGoToDdr os args sy w =
     do {
       (ret, d, w) \<leftarrow> ipa_NATI_post_ipv4_init_cmd os (no_ddr_tbl_hdl (sy_obj sy)) (sy_drv sy) w;
       let sy = set_drv d sy;
       Some ((ret, Out_None), if ret = 0 then upd_obj (SET_NATIOBJ_STATE NATI_STATE_HYBRID_DDR) sy else sy, w)
     }"

definition smGoToSram :: "('w, nat_memory) ipa_os \<Rightarrow> 'w nati_args \<Rightarrow> nat_sys \<Rightarrow> 'w \<Rightarrow> 'w sm_result" where
  "smGoToSram os args sy w =
     do {
       (ret, d, w) \<leftarrow> ipa_NATI_post_ipv4_init_cmd os (no_sram_tbl_hdl (sy_obj sy)) (sy_drv sy) w;
       let sy = set_drv d sy;
       Some ((ret, Out_None), if ret = 0 then upd_obj (SET_NATIOBJ_STATE NATI_STATE_HYBRID) sy else sy, w)
     }"

text \<open>
  Both directions of a switch: focus first, then the destination is cleared and filled.  \<open>sub\<close> is the
  memory whose statistics were chosen before the state changed.  With arguments the handler also
  collects statistics, of which only the use of the mutex is visible.
\<close>

definition count_switch :: "ipa3_nat_mem_in \<Rightarrow> bool \<Rightarrow> ipa_nati_obj \<Rightarrow> ipa_nati_obj" where
  "count_switch sub passed ob =
     (let s = no_sw_stats ob sub in
      ob\<lparr>no_sw_stats := (no_sw_stats ob)(sub :=
           if passed then s\<lparr>sw_pass := sw_pass s + 1\<rparr> else s\<lparr>sw_fail := sw_fail s + 1\<rparr>)\<rparr>)"

definition switch_stats ::
    "('w, nat_memory) ipa_os \<Rightarrow> 'w nati_args \<Rightarrow> uint32 \<Rightarrow> nat_sys \<Rightarrow> 'w \<Rightarrow> 'w option" where
  "switch_stats os args tbl_hdl sy w =
     (if args = A_Null then Some w
      else do { (_, w) \<leftarrow> ipa_NATI_ipv4_tbl_stats os tbl_hdl True True (sy_drv sy) w; Some w })"

definition smSwitchFromDdrToSram ::
    "'w sm_fun \<Rightarrow> ('w, nat_memory) ipa_os \<Rightarrow> 'w nati_args \<Rightarrow> nat_sys \<Rightarrow> 'w \<Rightarrow> 'w sm_result" where
  "smSwitchFromDdrToSram sm os args sy w =
     do {
       let sub = CHOOSE_MEM_SUB (sy_obj sy);
       w \<leftarrow> switch_stats os args (no_ddr_tbl_hdl (sy_obj sy)) sy w;
       ((ret, _), sy, w) \<leftarrow> sm NATI_TRIG_GOTO_SRAM A_Null sy w;
       if ret \<noteq> 0 then Some ((ret, Out_None), sy, w)
       else do {
         let sy = clear_mem SRAM_SUB sy;
         let ob = sy_obj sy;
         (ret, sy, w) \<leftarrow> ipa_nati_copy_ipv4_tbl os sy_drv set_drv (no_ddr_tbl_hdl ob) (no_sram_tbl_hdl ob)
           (Some (migrate_rule os (no_sram_tbl_hdl ob))) sy w;
         Some ((ret, Out_None), upd_obj (count_switch sub (ret = 0)) sy, w)
       }
     }"

definition smSwitchFromSramToDdr ::
    "'w sm_fun \<Rightarrow> ('w, nat_memory) ipa_os \<Rightarrow> 'w nati_args \<Rightarrow> nat_sys \<Rightarrow> 'w \<Rightarrow> 'w sm_result" where
  "smSwitchFromSramToDdr sm os args sy w =
     do {
       let sub = CHOOSE_MEM_SUB (sy_obj sy);
       w \<leftarrow> switch_stats os args (no_sram_tbl_hdl (sy_obj sy)) sy w;
       ((ret, _), sy, w) \<leftarrow> sm NATI_TRIG_GOTO_DDR A_Null sy w;
       if ret \<noteq> 0 then Some ((ret, Out_None), sy, w)
       else do {
         let sy = clear_mem DDR_SUB sy;
         let ob = sy_obj sy;
         (ret, sy, w) \<leftarrow> ipa_nati_copy_ipv4_tbl os sy_drv set_drv (no_sram_tbl_hdl ob) (no_ddr_tbl_hdl ob)
           (Some (migrate_rule os (no_ddr_tbl_hdl ob))) sy w;
         Some ((ret, Out_None), upd_obj (count_switch sub (ret = 0)) sy, w)
       }
     }"

definition smGetTmStmp :: "('w, nat_memory) ipa_os \<Rightarrow> 'w nati_args \<Rightarrow> nat_sys \<Rightarrow> 'w \<Rightarrow> 'w sm_result" where
  "smGetTmStmp os args sy w =
     (case args of A_TStamp tbl_hdl rule_hdl \<Rightarrow> do {
        ((ret, ts), d, w) \<leftarrow> ipa_NATI_query_timestamp os tbl_hdl rule_hdl (sy_drv sy) w;
        Some ((ret, out_opt ts), set_drv d sy, w)
      } | _ \<Rightarrow> None)"

definition smGetTmStmpHybrid :: "('w, nat_memory) ipa_os \<Rightarrow> 'w nati_args \<Rightarrow> nat_sys \<Rightarrow> 'w \<Rightarrow> 'w sm_result" where
  "smGetTmStmpHybrid os args sy w =
     (case args of A_TStamp tbl_hdl orig_rule_hdl \<Rightarrow>
        (let (ret, new) = ipa_nat_map_find (orig2new_map (CHOOSE_MEM_SUB (sy_obj sy))) orig_rule_hdl (sy_maps sy)
         in case new of None \<Rightarrow> Some ((ret, Out_None), sy, w)
            | Some new_rule_hdl \<Rightarrow> smGetTmStmp os (A_TStamp (hybrid_hdl (sy_obj sy) tbl_hdl) new_rule_hdl) sy w)
      | _ \<Rightarrow> None)"

section \<open>The machine\<close>

datatype nati_statemach_cb =
    Sm_Undef | Sm_FirstTbl | Sm_AddDdrTbl | Sm_AddSramTbl | Sm_AddSramAndDdrTbl | Sm_DelTbl
  | Sm_DelSramAndDdrTbl | Sm_ClrTbl | Sm_ClrTblHybrid | Sm_WalkTbl | Sm_WalkTblHybrid | Sm_StatTbl
  | Sm_StatTblHybrid | Sm_AddRuleToTbl | Sm_AddRuleHybrid | Sm_DelRuleFromTbl | Sm_DelRuleHybrid
  | Sm_SwitchFromSramToDdr | Sm_SwitchFromDdrToSram | Sm_GoToDdr | Sm_GoToSram | Sm_GetTmStmp
  | Sm_GetTmStmpHybrid

definition state_mach_tbl :: "ipa_nati_state \<Rightarrow> ipa_nati_trigger \<Rightarrow> nati_statemach_cb" where
  "state_mach_tbl s t = (case s of
     NATI_STATE_NULL \<Rightarrow> (case t of NATI_TRIG_ADD_TABLE \<Rightarrow> Sm_FirstTbl | _ \<Rightarrow> Sm_Undef)
   | NATI_STATE_DDR_ONLY \<Rightarrow> (case t of
       NATI_TRIG_ADD_TABLE \<Rightarrow> Sm_AddDdrTbl | NATI_TRIG_DEL_TABLE \<Rightarrow> Sm_DelTbl | NATI_TRIG_CLR_TABLE \<Rightarrow> Sm_ClrTbl
     | NATI_TRIG_WLK_TABLE \<Rightarrow> Sm_WalkTbl | NATI_TRIG_TBL_STATS \<Rightarrow> Sm_StatTbl | NATI_TRIG_ADD_RULE \<Rightarrow> Sm_AddRuleToTbl
     | NATI_TRIG_DEL_RULE \<Rightarrow> Sm_DelRuleFromTbl | NATI_TRIG_GET_TSTAMP \<Rightarrow> Sm_GetTmStmp | _ \<Rightarrow> Sm_Undef)
   | NATI_STATE_SRAM_ONLY \<Rightarrow> (case t of
       NATI_TRIG_ADD_TABLE \<Rightarrow> Sm_AddSramTbl | NATI_TRIG_DEL_TABLE \<Rightarrow> Sm_DelTbl | NATI_TRIG_CLR_TABLE \<Rightarrow> Sm_ClrTbl
     | NATI_TRIG_WLK_TABLE \<Rightarrow> Sm_WalkTbl | NATI_TRIG_TBL_STATS \<Rightarrow> Sm_StatTbl | NATI_TRIG_ADD_RULE \<Rightarrow> Sm_AddRuleToTbl
     | NATI_TRIG_DEL_RULE \<Rightarrow> Sm_DelRuleFromTbl | NATI_TRIG_GET_TSTAMP \<Rightarrow> Sm_GetTmStmp | _ \<Rightarrow> Sm_Undef)
   | NATI_STATE_HYBRID \<Rightarrow> (case t of
       NATI_TRIG_ADD_TABLE \<Rightarrow> Sm_AddSramAndDdrTbl | NATI_TRIG_DEL_TABLE \<Rightarrow> Sm_DelSramAndDdrTbl
     | NATI_TRIG_CLR_TABLE \<Rightarrow> Sm_ClrTblHybrid | NATI_TRIG_WLK_TABLE \<Rightarrow> Sm_WalkTblHybrid
     | NATI_TRIG_TBL_STATS \<Rightarrow> Sm_StatTblHybrid | NATI_TRIG_ADD_RULE \<Rightarrow> Sm_AddRuleHybrid
     | NATI_TRIG_DEL_RULE \<Rightarrow> Sm_DelRuleHybrid | NATI_TRIG_TBL_SWITCH \<Rightarrow> Sm_SwitchFromSramToDdr
     | NATI_TRIG_GOTO_DDR \<Rightarrow> Sm_GoToDdr | NATI_TRIG_GOTO_SRAM \<Rightarrow> Sm_GoToSram
     | NATI_TRIG_GET_TSTAMP \<Rightarrow> Sm_GetTmStmpHybrid | _ \<Rightarrow> Sm_Undef)
   | NATI_STATE_HYBRID_DDR \<Rightarrow> (case t of
       NATI_TRIG_DEL_TABLE \<Rightarrow> Sm_DelSramAndDdrTbl
     | NATI_TRIG_CLR_TABLE \<Rightarrow> Sm_ClrTblHybrid | NATI_TRIG_WLK_TABLE \<Rightarrow> Sm_WalkTblHybrid
     | NATI_TRIG_TBL_STATS \<Rightarrow> Sm_StatTblHybrid | NATI_TRIG_ADD_RULE \<Rightarrow> Sm_AddRuleHybrid
     | NATI_TRIG_DEL_RULE \<Rightarrow> Sm_DelRuleHybrid | NATI_TRIG_TBL_SWITCH \<Rightarrow> Sm_SwitchFromDdrToSram
     | NATI_TRIG_GOTO_DDR \<Rightarrow> Sm_GoToDdr | NATI_TRIG_GOTO_SRAM \<Rightarrow> Sm_GoToSram
     | NATI_TRIG_GET_TSTAMP \<Rightarrow> Sm_GetTmStmpHybrid | _ \<Rightarrow> Sm_Undef)
   | NATI_STATE_LAST \<Rightarrow> Sm_Undef)"

definition sm_cb ::
    "nati_statemach_cb \<Rightarrow> 'w sm_fun \<Rightarrow> ('w, nat_memory) ipa_os \<Rightarrow> ipa_nati_trigger \<Rightarrow> 'w nati_args \<Rightarrow>
     nat_sys \<Rightarrow> 'w \<Rightarrow> 'w sm_result" where
  "sm_cb cb sm os trigger args sy w = (case cb of
     Sm_Undef \<Rightarrow> smUndef os args sy w
   | Sm_FirstTbl \<Rightarrow> smFirstTbl sm os args sy w
   | Sm_AddDdrTbl \<Rightarrow> smAddDdrTbl os args sy w
   | Sm_AddSramTbl \<Rightarrow> smAddSramTbl os args sy w
   | Sm_AddSramAndDdrTbl \<Rightarrow> smAddSramAndDdrTbl sm os args sy w
   | Sm_DelTbl \<Rightarrow> smDelTbl os args sy w
   | Sm_DelSramAndDdrTbl \<Rightarrow> smDelSramAndDdrTbl os args sy w
   | Sm_ClrTbl \<Rightarrow> smClrTbl os args sy w
   | Sm_ClrTblHybrid \<Rightarrow> smClrTblHybrid os args sy w
   | Sm_WalkTbl \<Rightarrow> smWalkTbl os args sy w
   | Sm_WalkTblHybrid \<Rightarrow> smWalkTblHybrid os args sy w
   | Sm_StatTbl \<Rightarrow> smStatTbl os args sy w
   | Sm_StatTblHybrid \<Rightarrow> smStatTblHybrid os args sy w
   | Sm_AddRuleToTbl \<Rightarrow> smAddRuleToTbl os args sy w
   | Sm_AddRuleHybrid \<Rightarrow> smAddRuleHybrid sm os trigger args sy w
   | Sm_DelRuleFromTbl \<Rightarrow> smDelRuleFromTbl os args sy w
   | Sm_DelRuleHybrid \<Rightarrow> smDelRuleHybrid sm os args sy w
   | Sm_SwitchFromSramToDdr \<Rightarrow> smSwitchFromSramToDdr sm os args sy w
   | Sm_SwitchFromDdrToSram \<Rightarrow> smSwitchFromDdrToSram sm os args sy w
   | Sm_GoToDdr \<Rightarrow> smGoToDdr os args sy w
   | Sm_GoToSram \<Rightarrow> smGoToSram os args sy w
   | Sm_GetTmStmp \<Rightarrow> smGetTmStmp os args sy w
   | Sm_GetTmStmpHybrid \<Rightarrow> smGetTmStmpHybrid os args sy w)"

text \<open>
  \<open>ipa_nati_statemach\<close>.  As in the code, the result of giving the mutex back is the result of the
  call, whatever the handler returned.
\<close>

primrec ipa_nati_statemach :: "nat \<Rightarrow> ('w, nat_memory) ipa_os \<Rightarrow> 'w sm_fun" where
  "ipa_nati_statemach 0 os trigger args sy w = None"
| "ipa_nati_statemach (Suc fuel) os trigger args sy w =
     (let (ret, sy, w) = take_mutex os sy w in
      if ret \<noteq> 0 then Some ((ret, Out_None), sy, w)
      else
        let vote = VOTE_REQUIRED (sy_obj sy) trigger;
            (ret, sy, w) = (if vote then ipa_nat_vote_clock os IPA_APP_CLK_VOTE sy w else (0, sy, w))
        in if ret \<noteq> 0 then
             (let (ret, w) = give_mutex os sy w in Some ((ret, Out_None), sy, w))
        else do {
          ((_, out), sy, w) \<leftarrow> sm_cb (state_mach_tbl (no_curr_state (sy_obj sy)) trigger)
            (ipa_nati_statemach fuel os) os trigger args sy w;
          let (_, sy, w) = (if vote then ipa_nat_vote_clock os IPA_APP_CLK_DEVOTE sy w else (0, sy, w));
          let (ret, w) = give_mutex os sy w;
          Some ((ret, out), sy, w)
        })"

abbreviation (input) STATEMACH_DEPTH :: nat where "STATEMACH_DEPTH \<equiv> 3"

section \<open>The functions that replace the NAT API\<close>

definition ipa_nati_add_ipv4_tbl ::
    "('w, nat_memory) ipa_os \<Rightarrow> uint32 \<Rightarrow> string option \<Rightarrow> uint16 \<Rightarrow> nat_sys \<Rightarrow> 'w \<Rightarrow> 'w sm_result" where
  "ipa_nati_add_ipv4_tbl os public_ip_addr mem_type number_of_entries sy w =
     ipa_nati_statemach STATEMACH_DEPTH os NATI_TRIG_ADD_TABLE (A_AddTbl public_ip_addr number_of_entries mem_type) sy w"

definition ipa_nati_del_ipv4_table :: "('w, nat_memory) ipa_os \<Rightarrow> uint32 \<Rightarrow> nat_sys \<Rightarrow> 'w \<Rightarrow> 'w sm_result" where
  "ipa_nati_del_ipv4_table os tbl_hdl sy w =
     ipa_nati_statemach STATEMACH_DEPTH os NATI_TRIG_DEL_TABLE (A_Tbl tbl_hdl) sy w"

definition ipa_nati_clear_ipv4_tbl :: "('w, nat_memory) ipa_os \<Rightarrow> uint32 \<Rightarrow> nat_sys \<Rightarrow> 'w \<Rightarrow> 'w sm_result" where
  "ipa_nati_clear_ipv4_tbl os tbl_hdl sy w =
     ipa_nati_statemach STATEMACH_DEPTH os NATI_TRIG_CLR_TABLE (A_Tbl tbl_hdl) sy w"

definition ipa_nati_walk_ipv4_tbl ::
    "('w, nat_memory) ipa_os \<Rightarrow> uint32 \<Rightarrow> (nat_sys \<times> 'w) nat_walk \<Rightarrow> nat_sys \<Rightarrow> 'w \<Rightarrow> 'w sm_result" where
  "ipa_nati_walk_ipv4_tbl os tbl_hdl which sy w =
     ipa_nati_statemach STATEMACH_DEPTH os NATI_TRIG_WLK_TABLE (A_Walk tbl_hdl which) sy w"

definition ipa_nati_ipv4_tbl_stats ::
    "('w, nat_memory) ipa_os \<Rightarrow> uint32 \<Rightarrow> bool \<Rightarrow> bool \<Rightarrow> nat_sys \<Rightarrow> 'w \<Rightarrow> 'w sm_result" where
  "ipa_nati_ipv4_tbl_stats os tbl_hdl has_nat has_idx sy w =
     ipa_nati_statemach STATEMACH_DEPTH os NATI_TRIG_TBL_STATS (A_Stats tbl_hdl has_nat has_idx) sy w"

definition ipa_nati_add_ipv4_rule ::
    "('w, nat_memory) ipa_os \<Rightarrow> uint32 \<Rightarrow> ipa_nat_ipv4_rule \<Rightarrow> bool \<Rightarrow> nat_sys \<Rightarrow> 'w \<Rightarrow> 'w sm_result" where
  "ipa_nati_add_ipv4_rule os tbl_hdl clnt_rule has_out sy w =
     ipa_nati_statemach STATEMACH_DEPTH os NATI_TRIG_ADD_RULE (A_AddRule tbl_hdl clnt_rule has_out) sy w"

definition ipa_nati_del_ipv4_rule ::
    "('w, nat_memory) ipa_os \<Rightarrow> uint32 \<Rightarrow> uint32 \<Rightarrow> nat_sys \<Rightarrow> 'w \<Rightarrow> 'w sm_result" where
  "ipa_nati_del_ipv4_rule os tbl_hdl rule_hdl sy w =
     ipa_nati_statemach STATEMACH_DEPTH os NATI_TRIG_DEL_RULE (A_DelRule tbl_hdl rule_hdl) sy w"

definition ipa_nati_query_timestamp ::
    "('w, nat_memory) ipa_os \<Rightarrow> uint32 \<Rightarrow> uint32 \<Rightarrow> nat_sys \<Rightarrow> 'w \<Rightarrow> 'w sm_result" where
  "ipa_nati_query_timestamp os tbl_hdl rule_hdl sy w =
     ipa_nati_statemach STATEMACH_DEPTH os NATI_TRIG_GET_TSTAMP (A_TStamp tbl_hdl rule_hdl) sy w"

text \<open>The end of \<open>ipa_nat_switch_to\<close> also returns what giving the mutex back returns.\<close>

definition ipa_nat_switch_to ::
    "('w, nat_memory) ipa_os \<Rightarrow> ipa3_nat_mem_in \<Rightarrow> bool \<Rightarrow> nat_sys \<Rightarrow> 'w \<Rightarrow> (int \<times> nat_sys \<times> 'w) option" where
  "ipa_nat_switch_to os nmi hold_state sy w =
     (let (ret, sy, w) = take_mutex os sy w in
      if ret \<noteq> 0 then Some (ret, sy, w)
      else do {
        let ob = sy_obj sy;
        (sy, w) \<leftarrow>
          (if IN_UNSTARTED_STATE ob then
             Some (upd_obj (\<lambda>ob. ob\<lparr>no_hold_state := hold_state,
               no_state_to_hold := (if nmi = IPA_NAT_MEM_IN_DDR then NATI_STATE_DDR_ONLY else NATI_STATE_SRAM_ONLY)\<rparr>) sy, w)
           else if IN_HYBRID_STATE ob then do {
             ((ret, _), sy, w) \<leftarrow>
               (if COMPATIBLE_NMI_4SWITCH ob nmi
                then ipa_nati_statemach STATEMACH_DEPTH os NATI_TRIG_TBL_SWITCH A_Null sy w
                else Some ((0, Out_None), sy, w));
             Some (if ret = 0
                   then upd_obj (\<lambda>ob. ob\<lparr>no_hold_state := hold_state,
                          no_state_to_hold := (if hold_state then GEN_HOLD_STATE ob else no_state_to_hold ob)\<rparr>) sy
                   else sy, w)
           }
           else if hold_state then
             (if COMPATIBLE_NMI_4SWITCH ob nmi
              then Some (upd_obj (\<lambda>ob. ob\<lparr>no_state_to_hold := GEN_HOLD_STATE ob, no_hold_state := hold_state\<rparr>) sy, w)
              else Some (sy, w))
           else Some (upd_obj (\<lambda>ob. ob\<lparr>no_state_to_hold := NATI_STATE_NULL, no_hold_state := hold_state\<rparr>) sy, w));
        let (ret, w) = give_mutex os sy w;
        Some (ret, sy, w)
      })"

definition ipa_nat_is_sram_supported :: "nat_sys \<Rightarrow> bool" where
  "ipa_nat_is_sram_supported sy = VALID_TBL_HDL (no_sram_tbl_hdl (sy_obj sy))"

end
