(* ===== verification/Ipa_Nat_Drv.thy ===== *)
theory Ipa_Nat_Drv
  imports Ipa_Nat_Statemach
begin

text \<open>
  The public NAT API of \<open>ipa_nat_drv.c\<close>: it checks arguments and calls the state machine, and for PDNs
  the driver.  A flag says whether the client passed a pointer for a result; a pointer to data is an
  option.
\<close>

type_synonym 'w nat_api_result = "((int \<times> nati_out) \<times> nat_sys \<times> 'w) option"

definition ipa_nat_add_ipv4_tbl ::
    "('w, nat_memory) ipa_os \<Rightarrow> uint32 \<Rightarrow> string option \<Rightarrow> uint16 \<Rightarrow> bool \<Rightarrow> nat_sys \<Rightarrow> 'w \<Rightarrow> 'w nat_api_result" where
  "ipa_nat_add_ipv4_tbl os public_ip_addr mem_type number_of_entries has_out sy w =
     (if \<not> has_out \<or> mem_type = None \<or> number_of_entries = 0 then Some ((- EINVAL, Out_None), sy, w)
      else do {
        ((ret, out), sy, w) \<leftarrow> ipa_nati_add_ipv4_tbl os public_ip_addr mem_type number_of_entries sy w;
        Some ((ret, if out = Out_None then Out_Val 0 else out), sy, w)
      })"

definition ipa_nat_del_ipv4_tbl :: "('w, nat_memory) ipa_os \<Rightarrow> uint32 \<Rightarrow> nat_sys \<Rightarrow> 'w \<Rightarrow> 'w nat_api_result" where
  "ipa_nat_del_ipv4_tbl os tbl_hdl sy w =
     (if \<not> VALID_TBL_HDL tbl_hdl then Some ((- EINVAL, Out_None), sy, w)
      else ipa_nati_del_ipv4_table os tbl_hdl sy w)"

definition ipa_nat_add_ipv4_rule ::
    "('w, nat_memory) ipa_os \<Rightarrow> uint32 \<Rightarrow> ipa_nat_ipv4_rule option \<Rightarrow> bool \<Rightarrow> nat_sys \<Rightarrow> 'w \<Rightarrow> 'w nat_api_result" where
  "ipa_nat_add_ipv4_rule os tbl_hdl clnt has_out sy w =
     (case clnt of None \<Rightarrow> Some ((- EINVAL, Out_None), sy, w)
      | Some clnt_rule \<Rightarrow>
        if \<not> VALID_TBL_HDL tbl_hdl \<or> \<not> has_out then Some ((- EINVAL, Out_None), sy, w)
        else do {
          ((ret, out), sy, w) \<leftarrow> ipa_nati_add_ipv4_rule os tbl_hdl clnt_rule has_out sy w;
          Some ((if ret \<noteq> 0 then - EINVAL else 0, out), sy, w)
        })"

definition ipa_nat_del_ipv4_rule ::
    "('w, nat_memory) ipa_os \<Rightarrow> uint32 \<Rightarrow> uint32 \<Rightarrow> nat_sys \<Rightarrow> 'w \<Rightarrow> 'w nat_api_result" where
  "ipa_nat_del_ipv4_rule os tbl_hdl rule_hdl sy w =
     (if \<not> VALID_TBL_HDL tbl_hdl \<or> \<not> VALID_RULE_HDL rule_hdl then Some ((- EINVAL, Out_None), sy, w)
      else ipa_nati_del_ipv4_rule os tbl_hdl rule_hdl sy w)"

definition ipa_nat_query_timestamp ::
    "('w, nat_memory) ipa_os \<Rightarrow> uint32 \<Rightarrow> uint32 \<Rightarrow> bool \<Rightarrow> nat_sys \<Rightarrow> 'w \<Rightarrow> 'w nat_api_result" where
  "ipa_nat_query_timestamp os tbl_hdl rule_hdl has_out sy w =
     (if \<not> VALID_TBL_HDL tbl_hdl \<or> \<not> VALID_RULE_HDL rule_hdl \<or> \<not> has_out
      then Some ((- EINVAL, Out_None), sy, w)
      else ipa_nati_query_timestamp os tbl_hdl rule_hdl sy w)"

text \<open>The check of a PDN index lets \<open>IPA_MAX_PDN_NUM\<close> itself pass.\<close>

definition ipa_nat_modify_pdn ::
    "('w, nat_memory) ipa_os \<Rightarrow> uint32 \<Rightarrow> uint8 \<Rightarrow> ipa_nat_pdn_entry option \<Rightarrow> nat_sys \<Rightarrow> 'w \<Rightarrow>
     (int \<times> nat_sys \<times> 'w) option" where
  "ipa_nat_modify_pdn os tbl_hdl pdn_index pdn_info sy w =
     (case pdn_info of None \<Rightarrow> Some (- EINVAL, sy, w)
      | Some info \<Rightarrow>
        if \<not> VALID_TBL_HDL tbl_hdl then Some (- EINVAL, sy, w)
        else if unat pdn_index > IPA_MAX_PDN_NUM then Some (- EINVAL, sy, w)
        else do {
          (ret, d, w) \<leftarrow> ipa_nati_modify_pdn os
            \<lparr>pd_pdn_index = pdn_index, pd_public_ip = pdn_public_ip info,
             pd_src_metadata = pdn_src_metadata info, pd_dst_metadata = pdn_dst_metadata info\<rparr> (sy_drv sy) w;
          Some (ret, set_drv d sy, w)
        })"

definition ipa_nat_get_pdn_index :: "uint32 \<Rightarrow> bool \<Rightarrow> nat_sys \<Rightarrow> int \<times> uint8 option" where
  "ipa_nat_get_pdn_index public_ip has_out sy =
     (if \<not> has_out then (- EINVAL, None) else ipa_nati_get_pdn_index public_ip (sy_drv sy))"

definition ipa_nat_alloc_pdn ::
    "('w, nat_memory) ipa_os \<Rightarrow> ipa_nat_pdn_entry option \<Rightarrow> bool \<Rightarrow> nat_sys \<Rightarrow> 'w \<Rightarrow>
     ((int \<times> uint8 option) \<times> nat_sys \<times> 'w) option" where
  "ipa_nat_alloc_pdn os pdn_info has_out sy w =
     (case pdn_info of None \<Rightarrow> Some ((- EINVAL, None), sy, w)
      | Some info \<Rightarrow>
        if \<not> has_out then Some ((- EINVAL, None), sy, w)
        else do {
          (r, d, w) \<leftarrow> ipa_nati_alloc_pdn os info (sy_drv sy) w;
          Some (r, set_drv d sy, w)
        })"

definition ipa_nat_get_pdn_count :: "bool \<Rightarrow> nat_sys \<Rightarrow> int \<times> uint8 option" where
  "ipa_nat_get_pdn_count has_out sy =
     (if \<not> has_out then (- EINVAL, None) else (0, Some (of_int (ipa_nati_get_pdn_cnt (sy_drv sy)))))"

definition ipa_nat_dealloc_pdn ::
    "('w, nat_memory) ipa_os \<Rightarrow> uint8 \<Rightarrow> nat_sys \<Rightarrow> 'w \<Rightarrow> (int \<times> nat_sys \<times> 'w) option" where
  "ipa_nat_dealloc_pdn os pdn_index sy w =
     (if unat pdn_index > IPA_MAX_PDN_NUM then Some (- EINVAL, sy, w)
      else do {
        (ret, d, w) \<leftarrow> ipa_nati_dealloc_pdn os pdn_index (sy_drv sy) w;
        Some (ret, set_drv d sy, w)
      })"

end
