(* ===== verification/Ipa_Nat_Pdn_Props.thy ===== *)
theory Ipa_Nat_Pdn_Props
  imports Ipa_Nat_Drv Ipa_Nat_Props
begin

text \<open>
  The table of PDNs: allocating, finding and freeing an entry.
\<close>

section \<open>The two searches\<close>

lemma pdn_index_of_Some:
  "pdn_index_of ip ps k = Some i \<longleftrightarrow> k \<le> i \<and> i - k < length ps \<and> pdn_public_ip (ps ! (i - k)) = ip \<and>
     (\<forall>j < i - k. pdn_public_ip (ps ! j) \<noteq> ip)"
proof (induction ps arbitrary: k)
  case (Cons p ps)
  show ?case
  proof (cases "pdn_public_ip p = ip")
    case True
    then show ?thesis by (auto intro: Suc_leI simp: le_less) (metis diff_is_0_eq le_less_trans less_le nth_Cons_0 zero_less_diff)+
  next
    case False
    have s: "i - k = Suc (i - Suc k)" if "Suc k \<le> i" using that by simp
    show ?thesis
      using False Cons.IH [of "Suc k"]
      by (cases "Suc k \<le> i") (auto simp: s less_Suc_eq_0_disj not_less_eq_eq le_Suc_eq)
  qed
qed simp

lemma pdn_scan_Same:
  "pdn_scan ip ps k = Pdn_Same i \<Longrightarrow> k \<le> i \<and> i - k < length ps \<and> pdn_public_ip (ps ! (i - k)) = ip"
  by (induction ps arbitrary: k) (force simp: nth_Cons' split: if_splits)+

lemma pdn_scan_Empty:
  "pdn_scan ip ps k = Pdn_Empty i \<Longrightarrow> k \<le> i \<and> i - k < length ps \<and> ps ! (i - k) = pdn_zero"
  by (induction ps arbitrary: k) (force simp: nth_Cons' split: if_splits)+

lemma pdn_scan_None:
  "pdn_scan ip ps k = Pdn_None \<longleftrightarrow> (\<forall>p \<in> set ps. pdn_public_ip p \<noteq> ip \<and> p \<noteq> pdn_zero)"
  by (induction ps arbitrary: k) auto

section \<open>One entry\<close>

lemma modify_pdn_cases:
  assumes "length (ns_pdns st) = IPA_MAX_PDN_NUM" "unat (pd_pdn_index e) < IPA_MAX_PDN_NUM"
  shows "\<exists>ret w'. ipa_nati_modify_pdn os e st w = Some (ret, if ret = 0 then st\<lparr>ns_pdns := (ns_pdns st)[unat (pd_pdn_index e) :=
      \<lparr>pdn_public_ip = pd_public_ip e, pdn_src_metadata = pd_src_metadata e, pdn_dst_metadata = pd_dst_metadata e\<rparr>]\<rparr> else st, w') \<and>
    ((\<forall>fd e w. fst (os_modify_pdn os fd e w) = 0) \<and> (\<exists>m. nc_desc (ns_cache st m) \<noteq> None) \<longrightarrow> ret = 0)"
proof -
  define cache where "cache = (if nc_desc (ns_cache st IPA_NAT_MEM_IN_DDR) \<noteq> None then ns_cache st IPA_NAT_MEM_IN_DDR
                   else ns_cache st IPA_NAT_MEM_IN_SRAM)"
  show ?thesis
  proof (cases "nc_desc cache")
    case None
    then have "nc_desc (ns_cache st m) = None" for m by (cases m) (simp_all add: cache_def split: if_splits)
    moreover have "ipa_nati_modify_pdn os e st w = Some (- EIO, st, w)"
      using None unfolding ipa_nati_modify_pdn_def cache_def [symmetric] by simp
    ultimately show ?thesis by simp
  next
    case (Some desc)
    obtain r w' where r: "os_modify_pdn os (desc_fd desc) e w = (r, w')" by fastforce
    have "ipa_nati_modify_pdn os e st w = Some (r, if r = 0 then st\<lparr>ns_pdns := (ns_pdns st)[unat (pd_pdn_index e) :=
      \<lparr>pdn_public_ip = pd_public_ip e, pdn_src_metadata = pd_src_metadata e, pdn_dst_metadata = pd_dst_metadata e\<rparr>]\<rparr> else st, w')"
      using Some r assms unfolding ipa_nati_modify_pdn_def cache_def [symmetric] by (simp add: arr_put_def)
    moreover have "(\<forall>fd e w. fst (os_modify_pdn os fd e w) = 0) \<longrightarrow> r = 0" using r by (metis fst_conv)
    ultimately show ?thesis by blast
  qed
qed

lemma unat_small: "i < 15 \<Longrightarrow> unat (of_nat i :: uint8) = i"
  by (simp add: unat_of_nat take_bit_nat_eq_self)

lemma alloc_pdn:
  assumes L: "length (ns_pdns st) = IPA_MAX_PDN_NUM"
  shows "\<exists>ret i st' w'. ipa_nati_alloc_pdn os p st w = Some ((ret, i), st', w') \<and>
    (case i of None \<Rightarrow> ret \<noteq> 0 \<and> st' = st
     | Some i \<Rightarrow> ret = 0 \<and> unat i < IPA_MAX_PDN_NUM - 1 \<and> pdn_public_ip (ns_pdns st' ! unat i) = pdn_public_ip p \<and>
       (st' = st \<or> ns_pdns st ! unat i = pdn_zero \<and>
          st' = st\<lparr>ns_pdns := (ns_pdns st)[unat i := p], ns_num_pdns := ns_num_pdns st + 1\<rparr>))"
proof (cases "ns_num_pdns st \<ge> int IPA_MAX_PDN_NUM - 1")
  case True
  then show ?thesis by (simp add: ipa_nati_alloc_pdn_def)
next
  case False
  let ?ps = "take (IPA_MAX_PDN_NUM - 1) (ns_pdns st)"
  show ?thesis
  proof (cases "pdn_scan (pdn_public_ip p) ?ps 0")
    case (Pdn_Same i)
    then have "i < 15" "pdn_public_ip (ns_pdns st ! i) = pdn_public_ip p" using pdn_scan_Same [OF Pdn_Same] L by auto
    then show ?thesis using False Pdn_Same by (simp add: ipa_nati_alloc_pdn_def unat_small)
  next
    case Pdn_None
    then show ?thesis using False by (simp add: ipa_nati_alloc_pdn_def)
  next
    case (Pdn_Empty i)
    then have i: "i < 15" "ns_pdns st ! i = pdn_zero" using pdn_scan_Empty [OF Pdn_Empty] L by auto
    define e where "e = \<lparr>pd_pdn_index = of_nat i, pd_public_ip = pdn_public_ip p,
             pd_src_metadata = pdn_src_metadata p, pd_dst_metadata = pdn_dst_metadata p\<rparr>"
    have u: "unat (pd_pdn_index e) = i" using i(1) by (simp add: e_def unat_small)
    have pe: "\<lparr>pdn_public_ip = pd_public_ip e, pdn_src_metadata = pd_src_metadata e, pdn_dst_metadata = pd_dst_metadata e\<rparr> = p"
      by (simp add: e_def)
    have lt: "unat (pd_pdn_index e) < IPA_MAX_PDN_NUM" using i(1) by (simp add: u)
    obtain ret w' where m: "ipa_nati_modify_pdn os e st w = Some (ret, if ret = 0 then st\<lparr>ns_pdns := (ns_pdns st)[i := p]\<rparr> else st, w')"
      using modify_pdn_cases [OF L lt, of os w] unfolding pe u by blast
    have "ipa_nati_alloc_pdn os p st w = (if ret = 0
        then Some ((0, Some (of_nat i)), st\<lparr>ns_pdns := (ns_pdns st)[i := p], ns_num_pdns := ns_num_pdns st + 1\<rparr>, w')
        else Some ((ret, None), st, w'))"
      using False Pdn_Empty m by (simp add: ipa_nati_alloc_pdn_def e_def)
    then show ?thesis using i L by (cases "ret = 0") (simp_all add: unat_small)
  qed
qed

lemma get_pdn_index:
  assumes "length (ns_pdns st) = IPA_MAX_PDN_NUM" "k < IPA_MAX_PDN_NUM - 1" "pdn_public_ip (ns_pdns st ! k) = ip"
  shows "\<exists>j. ipa_nati_get_pdn_index ip st = (0, Some j) \<and> unat j \<le> k \<and> pdn_public_ip (ns_pdns st ! unat j) = ip"
proof -
  let ?ps = "take (IPA_MAX_PDN_NUM - 1) (ns_pdns st)"
  define j where "j = (LEAST j. pdn_public_ip (ns_pdns st ! j) = ip)"
  have j: "pdn_public_ip (ns_pdns st ! j) = ip" "j \<le> k" "\<And>i. i < j \<Longrightarrow> pdn_public_ip (ns_pdns st ! i) \<noteq> ip"
    unfolding j_def using LeastI [of "\<lambda>j. pdn_public_ip (ns_pdns st ! j) = ip", OF assms(3)]
      Least_le [of "\<lambda>j. pdn_public_ip (ns_pdns st ! j) = ip", OF assms(3)] not_less_Least by blast+
  have "pdn_index_of ip ?ps 0 = Some j" using j assms(1,2) by (subst pdn_index_of_Some) auto
  then show ?thesis using j assms(2) by (simp add: ipa_nati_get_pdn_index_def unat_small)
qed

section \<open>Properties\<close>

text \<open>Allocating a PDN.  It fails and changes nothing, or it returns an index below 15 whose entry has
  the client's public address: an entry that was there already, or an entry that was all zero and now holds
  the client's, all others being untouched.  The address can then be found: the search returns an index
  whose entry has it.\<close>

theorem pdn_alloc_then_found:
  assumes "length (ns_pdns st) = IPA_MAX_PDN_NUM"
  shows "\<exists>ret i st' w'. ipa_nati_alloc_pdn os p st w = Some ((ret, i), st', w') \<and>
    (case i of None \<Rightarrow> ret \<noteq> 0 \<and> st' = st
     | Some i \<Rightarrow> ret = 0 \<and> unat i < IPA_MAX_PDN_NUM - 1 \<and> pdn_public_ip (ns_pdns st' ! unat i) = pdn_public_ip p \<and>
       (st' = st \<or> ns_pdns st ! unat i = pdn_zero \<and>
          st' = st\<lparr>ns_pdns := (ns_pdns st)[unat i := p], ns_num_pdns := ns_num_pdns st + 1\<rparr>) \<and>
       (\<exists>j. ipa_nati_get_pdn_index (pdn_public_ip p) st' = (0, Some j) \<and> j \<le> i \<and>
          pdn_public_ip (ns_pdns st' ! unat j) = pdn_public_ip p))"
proof -
  obtain ret i st' w' where A: "ipa_nati_alloc_pdn os p st w = Some ((ret, i), st', w')"
    "case i of None \<Rightarrow> ret \<noteq> 0 \<and> st' = st
     | Some i \<Rightarrow> ret = 0 \<and> unat i < IPA_MAX_PDN_NUM - 1 \<and> pdn_public_ip (ns_pdns st' ! unat i) = pdn_public_ip p \<and>
       (st' = st \<or> ns_pdns st ! unat i = pdn_zero \<and>
          st' = st\<lparr>ns_pdns := (ns_pdns st)[unat i := p], ns_num_pdns := ns_num_pdns st + 1\<rparr>)"
    using alloc_pdn [OF assms, of os p w] by blast
  show ?thesis
  proof (cases i)
    case None
    then show ?thesis using A by auto
  next
    case (Some x)
    then have "length (ns_pdns st') = IPA_MAX_PDN_NUM" "unat x < IPA_MAX_PDN_NUM - 1" "pdn_public_ip (ns_pdns st' ! unat x) = pdn_public_ip p"
      using A(2) assms by auto
    from get_pdn_index [OF this] show ?thesis using A Some by (auto simp: word_le_nat_alt)
  qed
qed

lemma pdn_alloc_then_found_witness:
  "\<exists>ret i st' w'. ipa_nati_alloc_pdn (sim_os nat_sim_dma) \<lparr>pdn_public_ip = 9, pdn_src_metadata = 1, pdn_dst_metadata = 2\<rparr> nat_demo_st () =
     Some ((ret, i), st', w') \<and> (i = None \<longrightarrow> ret \<noteq> 0)"
proof -
  have "length (ns_pdns nat_demo_st) = IPA_MAX_PDN_NUM" using nat_demo_inv(1) by (simp add: nat_inv_def)
  from pdn_alloc_then_found [OF this, of "sim_os nat_sim_dma" _ "()"] show ?thesis by (fastforce split: option.splits)
qed

text \<open>When the kernel accepts the changes, freeing an entry that has just been allocated gives back the
  table of PDNs and the count there were.\<close>

theorem pdn_alloc_dealloc_roundtrip:
  assumes "length (ns_pdns st) = IPA_MAX_PDN_NUM" "nc_desc (ns_cache st m) \<noteq> None" "\<And>fd e w. fst (os_modify_pdn os fd e w) = 0"
    "ipa_nati_alloc_pdn os p st w = Some ((0, Some i), st1, w1)" "st1 \<noteq> st" "p \<noteq> pdn_zero" "ns_num_pdns st \<ge> 0"
  shows "\<exists>w2. ipa_nati_dealloc_pdn os i st1 w1 = Some (0, st, w2)"
proof -
  have A: "unat i < 15" "ns_pdns st ! unat i = pdn_zero"
    "st1 = st\<lparr>ns_pdns := (ns_pdns st)[unat i := p], ns_num_pdns := ns_num_pdns st + 1\<rparr>"
    using alloc_pdn [OF assms(1), of os p w] assms(4,5) by auto
  define e where "e = \<lparr>pd_pdn_index = i, pd_public_ip = 0, pd_src_metadata = 0, pd_dst_metadata = 0\<rparr>"
  have L: "length (ns_pdns st1) = IPA_MAX_PDN_NUM" "unat (pd_pdn_index e) < IPA_MAX_PDN_NUM" "nc_desc (ns_cache st1 m) \<noteq> None"
    using A assms(1,2) by (simp_all add: e_def)
  have z: "\<lparr>pdn_public_ip = pd_public_ip e, pdn_src_metadata = pd_src_metadata e, pdn_dst_metadata = pd_dst_metadata e\<rparr> = pdn_zero"
    by (simp add: e_def pdn_zero_def)
  obtain w2 where m: "ipa_nati_modify_pdn os e st1 w1 = Some (0, st1\<lparr>ns_pdns := (ns_pdns st1)[unat i := pdn_zero]\<rparr>, w2)"
    using modify_pdn_cases [OF L(1,2), of os w1] assms(3) L(3) unfolding z by (auto simp: e_def)
  have "(ns_pdns st)[unat i := pdn_zero] = ns_pdns st" using A(2) by (metis list_update_id)
  then show ?thesis
    using A m L(1) assms(1,6,7) by (simp add: ipa_nati_dealloc_pdn_def arr_get_def arr_put_def e_def [symmetric])
qed

lemma pdn_alloc_dealloc_roundtrip_witness:
  "\<exists>i st1 w1 w2. ipa_nati_alloc_pdn (sim_os nat_sim_dma) \<lparr>pdn_public_ip = 9, pdn_src_metadata = 1, pdn_dst_metadata = 2\<rparr>
       (nat_initial\<lparr>ns_cache := (\<lambda>m. (ns_cache nat_initial m)\<lparr>nc_desc := Some \<lparr>desc_fd = 3, desc_ver = 14\<rparr>\<rparr>)\<rparr>) () = Some ((0, Some i), st1, w1) \<and>
     ipa_nati_dealloc_pdn (sim_os nat_sim_dma) i st1 w1 =
       Some (0, nat_initial\<lparr>ns_cache := (\<lambda>m. (ns_cache nat_initial m)\<lparr>nc_desc := Some \<lparr>desc_fd = 3, desc_ver = 14\<rparr>\<rparr>)\<rparr>, w2)"
proof -
  define st where "st = nat_initial\<lparr>ns_cache := (\<lambda>m. (ns_cache nat_initial m)\<lparr>nc_desc := Some \<lparr>desc_fd = 3, desc_ver = 14\<rparr>\<rparr>)\<rparr>"
  define p where "p = \<lparr>pdn_public_ip = 9, pdn_src_metadata = 1, pdn_dst_metadata = 2\<rparr>"
  have st: "length (ns_pdns st) = IPA_MAX_PDN_NUM" "nc_desc (ns_cache st IPA_NAT_MEM_IN_DDR) \<noteq> None" "ns_num_pdns st \<ge> 0"
    by (simp_all add: st_def nat_initial_def)
  have os: "fst (os_modify_pdn (sim_os nat_sim_dma) fd e w) = 0" for fd e w by (simp add: sim_os_def)
  have "replicate 15 x = x # replicate 14 x" for x :: ipa_nat_pdn_entry by (simp add: eval_nat_numeral)
  then have scan: "pdn_scan 9 (replicate 15 pdn_zero) 0 = Pdn_Empty 0" by (simp add: pdn_zero_def)
  have a: "ipa_nati_alloc_pdn (sim_os nat_sim_dma) p st () =
      Some ((0, Some 0), st\<lparr>ns_pdns := (ns_pdns st)[0 := p], ns_num_pdns := 1\<rparr>, ())"
    by (simp add: ipa_nati_alloc_pdn_def ipa_nati_modify_pdn_def st_def nat_initial_def p_def sim_os_def arr_put_def scan)
  have "p \<noteq> pdn_zero" "st\<lparr>ns_pdns := (ns_pdns st)[0 := p], ns_num_pdns := 1\<rparr> \<noteq> st"
    by (simp_all add: p_def pdn_zero_def st_def nat_initial_def)
  from pdn_alloc_dealloc_roundtrip [OF st(1,2) os a this(2,1) st(3)] a show ?thesis unfolding st_def p_def by blast
qed

text \<open>The public functions let the index 16 pass, one past the last of the 16 entries: freeing it reads
  outside the table, and it is the only index at which the call is not defined.\<close>

theorem pdn_index_16_out_of_bounds:
  assumes "length (ns_pdns (sy_drv sy)) = IPA_MAX_PDN_NUM" "ns_num_pdns (sy_drv sy) \<noteq> 0"
  shows "ipa_nat_dealloc_pdn os i sy w = None \<longleftrightarrow> i = 16"
proof (cases "unat i \<ge> 16")
  case True
  then have "unat i > 16 \<or> i = 16" by (auto simp: le_less word_unat_eq_iff)
  then show ?thesis
    using assms by (auto simp: ipa_nat_dealloc_pdn_def ipa_nati_dealloc_pdn_def arr_get_def word_unat_eq_iff)
next
  case False
  define e where "e = \<lparr>pd_pdn_index = i, pd_public_ip = 0, pd_src_metadata = 0, pd_dst_metadata = 0\<rparr>"
  have lt: "unat (pd_pdn_index e) < IPA_MAX_PDN_NUM" using False by (simp add: e_def)
  obtain ret d w' where m: "ipa_nati_modify_pdn os e (sy_drv sy) w = Some (ret, d, w')" "length (ns_pdns d) = 16"
  proof -
    from modify_pdn_cases [OF assms(1) lt, of os w] show thesis
      using assms(1) by (elim exE conjE) (rule that, assumption, simp)
  qed
  have "ipa_nati_dealloc_pdn os i (sy_drv sy) w \<noteq> None"
    using False assms m by (auto simp: ipa_nati_dealloc_pdn_def arr_get_def arr_put_def e_def [symmetric])
  then show ?thesis using False by (auto simp: ipa_nat_dealloc_pdn_def)
qed

lemma pdn_index_16_out_of_bounds_witness:
  "ipa_nat_dealloc_pdn (sim_os nat_sim_dma) 16 (nat_sys_initial\<lparr>sy_drv := nat_initial\<lparr>ns_num_pdns := 1\<rparr>\<rparr>) () = None"
  using pdn_index_16_out_of_bounds [of "nat_sys_initial\<lparr>sy_drv := nat_initial\<lparr>ns_num_pdns := 1\<rparr>\<rparr>" "sim_os nat_sim_dma" 16 "()"]
  by (simp add: nat_initial_def)

end
