(* ===== verification/Ipa_Nat_Machine.thy ===== *)
theory Ipa_Nat_Machine
  imports Ipa_Nat_Statemach
begin

text \<open>
  The state machine as a whole: how deep it calls itself, what its callers see of a handler's result,
  and the calls on a table that is in DDR only.
\<close>

section \<open>The depth of the recursion\<close>

text \<open>The handlers that run further triggers.\<close>

definition sm_inner :: "nati_statemach_cb \<Rightarrow> bool" where
  "sm_inner cb \<longleftrightarrow> cb \<in> {Sm_FirstTbl, Sm_AddSramAndDdrTbl, Sm_AddRuleHybrid, Sm_DelRuleHybrid,
     Sm_SwitchFromSramToDdr, Sm_SwitchFromDdrToSram}"

lemma sm_cb_leaf: "\<not> sm_inner cb \<Longrightarrow> sm_cb cb sm os t args sy w = sm_cb cb sm' os t args sy w"
  by (cases cb) (simp_all add: sm_inner_def sm_cb_def)

lemma sm_inner_cong:
  "sm NATI_TRIG_GOTO_SRAM = sm' NATI_TRIG_GOTO_SRAM \<Longrightarrow> smAddSramAndDdrTbl sm = smAddSramAndDdrTbl sm'"
  "sm NATI_TRIG_TBL_SWITCH = sm' NATI_TRIG_TBL_SWITCH \<Longrightarrow> smDelRuleHybrid sm = smDelRuleHybrid sm'"
  "sm NATI_TRIG_GOTO_DDR = sm' NATI_TRIG_GOTO_DDR \<Longrightarrow> smSwitchFromSramToDdr sm = smSwitchFromSramToDdr sm'"
  "sm NATI_TRIG_GOTO_SRAM = sm' NATI_TRIG_GOTO_SRAM \<Longrightarrow> smSwitchFromDdrToSram sm = smSwitchFromDdrToSram sm'"
proof -
  show "smAddSramAndDdrTbl sm = smAddSramAndDdrTbl sm'" if "sm NATI_TRIG_GOTO_SRAM = sm' NATI_TRIG_GOTO_SRAM"
    by (intro ext) (unfold smAddSramAndDdrTbl_def that, rule refl)
  show "smDelRuleHybrid sm = smDelRuleHybrid sm'" if "sm NATI_TRIG_TBL_SWITCH = sm' NATI_TRIG_TBL_SWITCH"
    by (intro ext) (unfold smDelRuleHybrid_def that, rule refl)
  show "smSwitchFromSramToDdr sm = smSwitchFromSramToDdr sm'" if "sm NATI_TRIG_GOTO_DDR = sm' NATI_TRIG_GOTO_DDR"
    by (intro ext) (unfold smSwitchFromSramToDdr_def that, rule refl)
  show "smSwitchFromDdrToSram sm = smSwitchFromDdrToSram sm'" if "sm NATI_TRIG_GOTO_SRAM = sm' NATI_TRIG_GOTO_SRAM"
    by (intro ext) (unfold smSwitchFromDdrToSram_def that, rule refl)
qed

text \<open>Taking the mutex and voting for the clock leave the state of the machine alone.\<close>

lemma take_mutex_obj: "take_mutex os sy w = (r, sy', w') \<Longrightarrow> sy_obj sy' = sy_obj sy"
  by (auto simp: take_mutex_def mutex_init_def Let_def split: prod.splits if_splits)

lemma vote_obj: "ipa_nat_vote_clock os v sy w = (r, sy', w') \<Longrightarrow> sy_obj sy' = sy_obj sy"
  by (auto simp: ipa_nat_vote_clock_def set_drv_def split: prod.splits)

text \<open>
  Two machines agree on a trigger when their inner machines agree wherever the handler it selects
  calls them; the handler runs in the state of the call.
\<close>

lemma sm_level:
  assumes "\<And>sy' w'. sy_obj sy' = sy_obj sy \<Longrightarrow>
    sm_cb (state_mach_tbl (no_curr_state (sy_obj sy)) t) (ipa_nati_statemach n os) os t args sy' w' =
    sm_cb (state_mach_tbl (no_curr_state (sy_obj sy)) t) (ipa_nati_statemach m os) os t args sy' w'"
  shows "ipa_nati_statemach (Suc n) os t args sy w = ipa_nati_statemach (Suc m) os t args sy w"
proof -
  obtain r1 sy1 w1 where t1: "take_mutex os sy w = (r1, sy1, w1)" by (metis surj_pair)
  note o1 = take_mutex_obj [OF t1]
  define vote where "vote = VOTE_REQUIRED (sy_obj sy1) t"
  obtain r2 sy2 w2 where t2: "(if vote then ipa_nat_vote_clock os IPA_APP_CLK_VOTE sy1 w1 else (0, sy1, w1)) = (r2, sy2, w2)"
    by (metis surj_pair)
  have o2: "sy_obj sy2 = sy_obj sy" using t2 o1 by (auto split: if_splits dest!: vote_obj)
  have e: "sm_cb (state_mach_tbl (no_curr_state (sy_obj sy2)) t) (ipa_nati_statemach n os) os t args sy2 w2 =
      sm_cb (state_mach_tbl (no_curr_state (sy_obj sy2)) t) (ipa_nati_statemach m os) os t args sy2 w2"
    using assms [OF o2] o2 by simp
  show ?thesis
    by (simp only: ipa_nati_statemach.simps t1 prod.case Let_def vote_def [symmetric] t2 e)
qed

lemma sm_leaf_level:
  assumes "\<not> sm_inner (state_mach_tbl (no_curr_state (sy_obj sy)) t)"
  shows "ipa_nati_statemach (Suc n) os t args sy w = ipa_nati_statemach (Suc m) os t args sy w"
  by (rule sm_level) (rule sm_cb_leaf [OF assms])

lemma sm_goto:
  "t \<in> {NATI_TRIG_GOTO_DDR, NATI_TRIG_GOTO_SRAM} \<Longrightarrow>
   ipa_nati_statemach (Suc n) os t args sy w = ipa_nati_statemach (Suc m) os t args sy w"
  by (rule sm_leaf_level)
    (auto simp: state_mach_tbl_def sm_inner_def split: ipa_nati_state.split)

lemma sm_switch:
  "ipa_nati_statemach (Suc (Suc n)) os NATI_TRIG_TBL_SWITCH args sy w =
   ipa_nati_statemach (Suc (Suc m)) os NATI_TRIG_TBL_SWITCH args sy w"
proof (rule sm_level)
  fix sy' :: nat_sys and w' assume "sy_obj sy' = sy_obj sy"
  have g: "ipa_nati_statemach (Suc n) os t a s v = ipa_nati_statemach (Suc m) os t a s v"
    if "t \<in> {NATI_TRIG_GOTO_DDR, NATI_TRIG_GOTO_SRAM}" for t a s v
    using sm_goto [OF that] .
  show "sm_cb (state_mach_tbl (no_curr_state (sy_obj sy)) NATI_TRIG_TBL_SWITCH) (ipa_nati_statemach (Suc n) os) os
      NATI_TRIG_TBL_SWITCH args sy' w' =
    sm_cb (state_mach_tbl (no_curr_state (sy_obj sy)) NATI_TRIG_TBL_SWITCH) (ipa_nati_statemach (Suc m) os) os
      NATI_TRIG_TBL_SWITCH args sy' w'"
    using g [of NATI_TRIG_GOTO_DDR] g [of NATI_TRIG_GOTO_SRAM]
    by (cases "no_curr_state (sy_obj sy)")
      (simp_all add: state_mach_tbl_def sm_cb_def smSwitchFromSramToDdr_def smSwitchFromDdrToSram_def
        del: ipa_nati_statemach.simps)
qed

text \<open>A trigger to add a table, once a state is chosen, and a trigger to add a rule in DDR.\<close>

lemma sm_add_table:
  assumes "no_curr_state (sy_obj sy) \<noteq> NATI_STATE_NULL"
  shows "ipa_nati_statemach (Suc (Suc n)) os NATI_TRIG_ADD_TABLE args sy w =
   ipa_nati_statemach (Suc (Suc m)) os NATI_TRIG_ADD_TABLE args sy w"
proof (rule sm_level)
  fix sy' :: nat_sys and w' assume "sy_obj sy' = sy_obj sy"
  have g: "ipa_nati_statemach (Suc n) os NATI_TRIG_GOTO_SRAM = ipa_nati_statemach (Suc m) os NATI_TRIG_GOTO_SRAM"
    by (intro ext sm_goto) simp
  show "sm_cb (state_mach_tbl (no_curr_state (sy_obj sy)) NATI_TRIG_ADD_TABLE) (ipa_nati_statemach (Suc n) os) os
      NATI_TRIG_ADD_TABLE args sy' w' =
    sm_cb (state_mach_tbl (no_curr_state (sy_obj sy)) NATI_TRIG_ADD_TABLE) (ipa_nati_statemach (Suc m) os) os
      NATI_TRIG_ADD_TABLE args sy' w'"
    using assms
    by (cases "no_curr_state (sy_obj sy)")
      (simp_all add: state_mach_tbl_def sm_cb_def sm_inner_cong(1) [of "ipa_nati_statemach (Suc n) os" "ipa_nati_statemach (Suc m) os", OF g]
        del: ipa_nati_statemach.simps)
qed

lemma add_rule_state:
  "smAddRuleToTbl os args sy w = Some (r, sy', w') \<Longrightarrow> no_curr_state (sy_obj sy') = no_curr_state (sy_obj sy)"
  by (auto simp: smAddRuleToTbl_def set_drv_def upd_obj_def count_rule_def Let_def
      split: nati_args.splits Option.bind_splits prod.splits if_splits)

lemma sm_add_rule_ddr:
  assumes "no_curr_state (sy_obj sy) = NATI_STATE_HYBRID_DDR"
  shows "ipa_nati_statemach (Suc n) os NATI_TRIG_ADD_RULE args sy w = ipa_nati_statemach (Suc m) os NATI_TRIG_ADD_RULE args sy w"
proof (rule sm_level)
  fix sy' :: nat_sys and w' assume o: "sy_obj sy' = sy_obj sy"
  have n: "no_curr_state (sy_obj s) \<noteq> NATI_STATE_HYBRID" if "smAddRuleToTbl os a sy' w' = Some (r, s, v)" for a r s v
    using add_rule_state [OF that] o assms by simp
  have "smAddRuleHybrid sm os NATI_TRIG_ADD_RULE args sy' w' = smAddRuleHybrid sm' os NATI_TRIG_ADD_RULE args sy' w'" for sm sm'
    unfolding smAddRuleHybrid_def using n
    by (cases args) (auto intro!: bind_option_cong simp: Let_def)
  then show "sm_cb (state_mach_tbl (no_curr_state (sy_obj sy)) NATI_TRIG_ADD_RULE) (ipa_nati_statemach n os) os
      NATI_TRIG_ADD_RULE args sy' w' =
    sm_cb (state_mach_tbl (no_curr_state (sy_obj sy)) NATI_TRIG_ADD_RULE) (ipa_nati_statemach m os) os
      NATI_TRIG_ADD_RULE args sy' w'"
    using assms by (simp add: state_mach_tbl_def sm_cb_def)
qed

lemma state_chosen:
  "no_curr_state (sy_obj (upd_obj (SET_NATIOBJ_STATE s) sy)) = s"
  by (simp add: upd_obj_def SET_NATIOBJ_STATE_def)

lemma mem_type_not_null: "mem_type_str_to_ipa_nati_state str \<noteq> NATI_STATE_NULL"
  by (simp add: mem_type_str_to_ipa_nati_state_def split: option.split)

lemma sm_depth:
  "ipa_nati_statemach (Suc (Suc (Suc n))) os t args sy w = ipa_nati_statemach (Suc (Suc (Suc m))) os t args sy w"
proof (rule sm_level)
  fix sy' :: nat_sys and w'
  let ?n = "ipa_nati_statemach (Suc (Suc n)) os" and ?m = "ipa_nati_statemach (Suc (Suc m)) os"
  have goto: "?n NATI_TRIG_GOTO_DDR = ?m NATI_TRIG_GOTO_DDR" "?n NATI_TRIG_GOTO_SRAM = ?m NATI_TRIG_GOTO_SRAM"
    by (intro ext sm_goto, simp)+
  have switch: "?n NATI_TRIG_TBL_SWITCH = ?m NATI_TRIG_TBL_SWITCH"
    by (intro ext sm_switch)
  have add: "?n NATI_TRIG_ADD_TABLE args (upd_obj (SET_NATIOBJ_STATE s) sy) w = ?m NATI_TRIG_ADD_TABLE args (upd_obj (SET_NATIOBJ_STATE s) sy) w"
    if "s \<noteq> NATI_STATE_NULL" for s sy w args
    by (rule sm_add_table) (simp add: state_chosen that)
  have rule: "?n NATI_TRIG_ADD_RULE args (upd_obj (SET_NATIOBJ_STATE NATI_STATE_HYBRID_DDR) sy) w =
      ?m NATI_TRIG_ADD_RULE args (upd_obj (SET_NATIOBJ_STATE NATI_STATE_HYBRID_DDR) sy) w" for sy w args
    by (rule sm_add_rule_ddr) (simp add: state_chosen)
  have first: "smFirstTbl ?n os args sy' w' = smFirstTbl ?m os args sy' w'"
    by (cases args) (simp_all add: smFirstTbl_def Let_def add mem_type_not_null del: ipa_nati_statemach.simps)
  have hadd: "smAddRuleHybrid ?n os NATI_TRIG_ADD_RULE args sy' w' = smAddRuleHybrid ?m os NATI_TRIG_ADD_RULE args sy' w'"
    unfolding smAddRuleHybrid_def switch rule ..
  show "sm_cb (state_mach_tbl (no_curr_state (sy_obj sy)) t) ?n os t args sy' w' =
    sm_cb (state_mach_tbl (no_curr_state (sy_obj sy)) t) ?m os t args sy' w'"
  proof (cases "sm_inner (state_mach_tbl (no_curr_state (sy_obj sy)) t)")
    case False
    then show ?thesis by (rule sm_cb_leaf)
  next
    case True
    then have h: "state_mach_tbl (no_curr_state (sy_obj sy)) t = Sm_AddRuleHybrid \<Longrightarrow> t = NATI_TRIG_ADD_RULE"
      by (auto simp: state_mach_tbl_def split: ipa_nati_state.splits ipa_nati_trigger.splits)
    show ?thesis
      using True h first hadd
      by (auto simp: sm_inner_def sm_cb_def sm_inner_cong(1,4) [of ?n ?m, OF goto(2)] sm_inner_cong(2) [of ?n ?m, OF switch]
          sm_inner_cong(3) [of ?n ?m, OF goto(1)] simp del: ipa_nati_statemach.simps)
  qed
qed

section \<open>What a caller sees\<close>

lemma sm_result:
  assumes "\<And>w. fst (os_lock os w) = 0" "\<And>w. fst (os_unlock os w) = 0" "\<And>w. fst (os_mutex_init os w) = 0"
    and r: "ipa_nati_statemach n os t args sy w = Some ((ret, out), sy', w')" and i: "sy_mutex_init sy'"
  shows "ret = 0"
proof (cases n)
  case (Suc k)
  have g: "fst (give_mutex os sy' v) = 0" for v using i assms(2) by (simp add: give_mutex_def)
  have t: "fst (take_mutex os sy w) = 0"
    using assms(1,3) by (simp add: take_mutex_def mutex_init_def Let_def split: prod.splits) (metis fst_conv)
  show ?thesis
    using r g t unfolding Suc
    by (auto simp: Let_def split: prod.splits if_splits Option.bind_splits) (metis fst_conv)+
qed (use r in simp)

end
