(* ===== verification/Ipa_Nat_Hybrid.thy ===== *)
theory Ipa_Nat_Hybrid
  imports Ipa_Nat_Machine Ipa_Nat_Run
begin

text \<open>
  The hybrid mode: the client's handles, the maps that follow a rule from one memory to the other, and
  the migration of a whole table.  The client's view of the library is a map from its handles to rules;
  adding, deleting and migrating are operations on that map.
\<close>

section \<open>A rule read back from its record\<close>

lemma ucast_pdn: "unat (p :: uint8) < 16 \<Longrightarrow> ucast (ucast p :: 4 word) = p"
  by (rule word_unat_eq_iff [THEN iffD2]) (simp add: unsigned_ucast_eq unsigned_take_bit_eq take_bit_nat_def)

lemma ucast13: "ucast (ucast (a :: 13 word) :: uint16) = a"
  by (rule bit_word_eqI) (simp add: bit_simps)


lemma nat_ukey_eq:
  assumes "nat_good (pdns, u)"
  shows "nat_ukey (pdns, u) = (let pub = pdn_public_ip (pdns ! unat (v4_pdn_index u)) in
    \<lparr>nr_private_ip = v4_private_ip u, nr_target_ip = v4_target_ip u, nr_next_index = 0,
     nr_public_port = v4_public_port u, nr_private_port = v4_private_port u, nr_target_port = v4_target_port u,
     nr_ip_chksum = ipa_nati_calc_ip_cksum pub (v4_private_ip u),
     nr_uc_activation_index = ucast (v4_uc_activation_index u), nr_s = v4_s u, nr_redirect = False, nr_enable = False,
     nr_time_stamp = 0, nr_protocol = v4_protocol u, nr_prev_index = 0, nr_indx_tbl_entry = 0,
     nr_dst_only = v4_dst_only u, nr_src_only = v4_src_only u, nr_ucp = v4_ucp u, nr_pdn_index = ucast (v4_pdn_index u),
     nr_tcp_udp_chksum = (if v4_protocol u = IPPROTO_TCP \<or> v4_protocol u = IPPROTO_UDP
       then ipa_nati_calc_tcp_udp_cksum pub (v4_public_port u) (v4_private_ip u) (v4_private_port u) else 0)\<rparr>)"
  using assms
  by (simp add: nat_ukey_def nat_good_def nat_table_entry_copy_from_user_def arr_get_def Let_def nat_rule_zero_def)

lemma rule_of_ukey:
  assumes "nat_good (pdns, u)" "unat (v4_pdn_index u) < 16"
  shows "rule_of_record (nat_ukey (pdns, u)) =
    u\<lparr>v4_redirect := 0, v4_enable := 0, v4_time_stamp := 0,
      v4_uc_activation_index := ucast (ucast (v4_uc_activation_index u) :: 13 word)\<rparr>"
  using ucast_pdn [OF assms(2)] by (simp add: nat_ukey_eq [OF assms(1)] rule_of_record_def Let_def)

lemma copy_rule_of_record:
  assumes "nat_good (pdns, u)" "unat (v4_pdn_index u) < 16"
  shows "nat_ukey (pdns, rule_of_record (nat_ukey (pdns, u))) = nat_ukey (pdns, u)"
proof -
  let ?v = "u\<lparr>v4_redirect := 0, v4_enable := 0, v4_time_stamp := 0,
      v4_uc_activation_index := ucast (ucast (v4_uc_activation_index u) :: 13 word)\<rparr>"
  have g: "nat_good (pdns, ?v)" using assms by (simp add: nat_good_def)
  show ?thesis
    unfolding rule_of_ukey [OF assms] unfolding nat_ukey_eq [OF g] nat_ukey_eq [OF assms(1)]
    by (simp add: Let_def ucast13)
qed

text \<open>What a rule becomes when it is copied with the PDNs of the moment.\<close>

definition migrated :: "ipa_nat_pdn_entry list \<Rightarrow> ipa_nat_rule \<Rightarrow> ipa_nat_rule" where
  "migrated pdns k = nat_ukey (pdns, rule_of_record k)"

lemma pdn_index_bound: "unat (ucast (p :: 4 word) :: uint8) < 16"
  using unsigned_less [of p, where 'a = nat] by (simp add: unsigned_ucast_eq take_bit_nat_def)

lemma rule_of_record_good: "length pdns = 16 \<Longrightarrow> nat_good (pdns, rule_of_record k)"
  using pdn_index_bound by (simp add: nat_good_def rule_of_record_def)

lemma migrated_key:
  assumes "length pdns = 16"
  shows "nat_ukey (pdns, rule_of_record e) = migrated pdns ((nat_key e)\<lparr>nr_indx_tbl_entry := 0\<rparr>)"
proof -
  have "rule_of_record ((nat_key e)\<lparr>nr_indx_tbl_entry := 0\<rparr>) =
      (rule_of_record e)\<lparr>v4_redirect := 0, v4_enable := 0, v4_time_stamp := 0\<rparr>"
    by (simp add: rule_of_record_def nat_key_def)
  moreover have "nat_ukey (pdns, u\<lparr>v4_redirect := a, v4_enable := b, v4_time_stamp := c\<rparr>) = nat_ukey (pdns, u)"
    if "nat_good (pdns, u)" for u a b c
    using that by (simp add: nat_ukey_eq nat_good_def Let_def)
  ultimately show ?thesis using rule_of_record_good [OF assms] by (simp add: migrated_def)
qed

section \<open>The client's view\<close>

abbreviation "o2n m sy \<equiv> sy_maps sy (orig2new_map m)"
abbreviation "n2o m sy \<equiv> sy_maps sy (new2orig_map m)"

text \<open>The two maps of a memory are inverse to each other, and lead to the rules that are there.\<close>

definition nat_maps_ok :: "ipa3_nat_mem_in \<Rightarrow> nat_sys \<Rightarrow> bool" where
  "nat_maps_ok m sy \<longleftrightarrow> (\<forall>o' n. o2n m sy o' = Some n \<longleftrightarrow> n2o m sy n = Some o') \<and>
     (\<forall>n. n2o m sy n \<noteq> None \<longleftrightarrow> (\<exists>s. nat_rules m (sy_drv sy) s \<noteq> None \<and> n = nat_handle m (sy_drv sy) s))"

definition client_view :: "ipa3_nat_mem_in \<Rightarrow> nat_sys \<Rightarrow> uint32 \<Rightarrow> ipa_nat_rule option" where
  "client_view m sy o' = Option.bind (o2n m sy o') (\<lambda>n. nat_rules m (sy_drv sy) (nat_slot m (sy_drv sy) n))"

definition hybrid_inv :: "ipa3_nat_mem_in \<Rightarrow> nat_sys \<Rightarrow> bool" where
  "hybrid_inv m sy \<longleftrightarrow> nat_inv m (sy_drv sy) \<and> nat_maps_ok m sy"

text \<open>The count of rules a memory keeps, and the number of rules it stands for.\<close>

abbreviation "rule_count m sy \<equiv> no_tot_rules_in_table (sy_obj sy) m"

definition rules_counted :: "ipa3_nat_mem_in \<Rightarrow> nat_sys \<Rightarrow> bool" where
  "rules_counted m sy \<longleftrightarrow> rule_count m sy = of_nat (card (dom (client_view m sy)))"

lemma card_dom_upd: "f x = None \<Longrightarrow> card (dom (f(x \<mapsto> y))) = Suc (card (dom f))" for f :: "uint32 \<Rightarrow> 'b option"
  by (simp add: domIff)

lemma map_ids [simp]:
  "orig2new_map m \<noteq> new2orig_map m'" "new2orig_map m' \<noteq> orig2new_map m"
  "orig2new_map m = orig2new_map m' \<longleftrightarrow> m = m'" "new2orig_map m = new2orig_map m' \<longleftrightarrow> m = m'"
  "other_mem m \<noteq> m" "m \<noteq> other_mem m"
  by (cases m; cases m'; simp)+

text \<open>Handles of one table stay what they are when rules come and go.\<close>

lemma nat_only_handle:
  assumes "nat_only m st st'"
  shows "nat_handle m st' s = nat_handle m st s" "nat_slot m st' n = nat_slot m st n"
proof -
  have s: "same_shape (nt_table (nat_table_of m st)) (nt_table (nat_table_of m st'))" using assms by (simp add: nat_only_def)
  show "nat_handle m st' s = nat_handle m st s" by (simp add: nat_handle_def MakeEntryHdl_same_shape [OF s])
  show "nat_slot m st' n = nat_slot m st n" by (simp add: nat_slot_def BREAK_RULE_HDL_def same_shapeD(3) [OF s] Let_def)
qed

lemma nat_handle_eq:
  assumes "nat_inv m st" "nat_rules m st s \<noteq> None" "nat_rules m st s' \<noteq> None"
  shows "nat_handle m st s = nat_handle m st s' \<longleftrightarrow> s = s'"
  using nat_handle_slot [OF assms(1,2)] nat_handle_slot [OF assms(1,3)] by metis

text \<open>What the map operations do when they succeed.\<close>

lemma map_add_both:
  assumes "maps a k = None" "maps b v = None" "a \<noteq> b"
  shows "ipa_nat_map_add a k v maps = (0, maps(a := (maps a)(k \<mapsto> v)))"
    "ipa_nat_map_add b v k (maps(a := (maps a)(k \<mapsto> v))) = (0, maps(a := (maps a)(k \<mapsto> v), b := (maps b)(v \<mapsto> k)))"
  using assms by (simp_all add: ipa_nat_map_add_def)

text \<open>Recording a rule that has just been put into a free slot.\<close>

lemma maps_ok_add:
  assumes M: "nat_maps_ok m sy" and I: "nat_inv m (sy_drv sy)" "nat_inv m d"
    and only: "nat_only m (sy_drv sy) d"
    and s: "nat_rules m (sy_drv sy) s = None" "nat_rules m d = (nat_rules m (sy_drv sy))(s \<mapsto> k)"
    and o': "o2n m sy o' = None" and h: "h = nat_handle m (sy_drv sy) s"
    and sy': "sy_drv sy' = d" "o2n m sy' = (o2n m sy)(o' \<mapsto> h)" "n2o m sy' = (n2o m sy)(h \<mapsto> o')"
  shows "n2o m sy h = None" "nat_maps_ok m sy'" "client_view m sy' = (client_view m sy)(o' \<mapsto> k)"
proof -
  note H = nat_only_handle(1) [OF only] and S = nat_only_handle(2) [OF only]
  have ns: "nat_slot m d h = s" using nat_handle_slot [OF I(2), of s] s(2) H h by simp
  have fresh: "nat_handle m (sy_drv sy) x \<noteq> h" if "nat_rules m (sy_drv sy) x \<noteq> None" for x
  proof
    assume "nat_handle m (sy_drv sy) x = h"
    then have "nat_slot m d h = x" using nat_handle_slot [OF I(1) that] S by simp
    then show False using ns that s(1) by simp
  qed
  show n: "n2o m sy h = None" using M fresh unfolding nat_maps_ok_def by metis
  have inv: "o2n m sy x = Some y \<longleftrightarrow> n2o m sy y = Some x" for x y using M unfolding nat_maps_ok_def by blast
  have live: "n2o m sy y \<noteq> None \<longleftrightarrow> (\<exists>x. nat_rules m (sy_drv sy) x \<noteq> None \<and> y = nat_handle m (sy_drv sy) x)" for y
    using M unfolding nat_maps_ok_def by blast
  show "nat_maps_ok m sy'"
    unfolding nat_maps_ok_def sy' s(2) H
  proof (intro conjI allI)
    fix x y
    show "((o2n m sy)(o' \<mapsto> h)) x = Some y \<longleftrightarrow> ((n2o m sy)(h \<mapsto> o')) y = Some x"
      using inv [of x y] inv [of x h] inv [of o' y] n o' by auto
  next
    fix y
    show "((n2o m sy)(h \<mapsto> o')) y \<noteq> None \<longleftrightarrow>
      (\<exists>x. ((nat_rules m (sy_drv sy))(s \<mapsto> k)) x \<noteq> None \<and> y = nat_handle m (sy_drv sy) x)"
      using live [of y] h s(1) by auto
  qed
  show "client_view m sy' = (client_view m sy)(o' \<mapsto> k)"
  proof (rule ext)
    fix x
    show "client_view m sy' x = ((client_view m sy)(o' \<mapsto> k)) x"
    proof (cases "x = o'")
      case True
      then show ?thesis using ns s(2) by (simp add: client_view_def sy')
    next
      case False
      have "nat_slot m (sy_drv sy) y \<noteq> s" if "o2n m sy x = Some y" for y
      proof -
        have "n2o m sy y \<noteq> None" using inv [of x y] that by simp
        then obtain z where "nat_rules m (sy_drv sy) z \<noteq> None" "y = nat_handle m (sy_drv sy) z"
          using live [of y] by blast
        then show ?thesis using nat_handle_slot [OF I(1)] s(1) by auto
      qed
      then show ?thesis
        using False by (cases "o2n m sy x") (simp_all add: client_view_def sy' s(2) S)
    qed
  qed
qed

section \<open>Migrating a table\<close>

lemma maps_okD:
  assumes "nat_maps_ok m sy"
  shows "o2n m sy o' = Some n \<longleftrightarrow> n2o m sy n = Some o'"
    "nat_rules m (sy_drv sy) s \<noteq> None \<Longrightarrow> \<exists>o'. n2o m sy (nat_handle m (sy_drv sy) s) = Some o'"
    "o2n m sy o' = Some n \<Longrightarrow> \<exists>s. nat_rules m (sy_drv sy) s \<noteq> None \<and> n = nat_handle m (sy_drv sy) s"
proof -
  show 1: "o2n m sy o' = Some n \<longleftrightarrow> n2o m sy n = Some o'" using assms by (simp add: nat_maps_ok_def)
  show "nat_rules m (sy_drv sy) s \<noteq> None \<Longrightarrow> \<exists>o'. n2o m sy (nat_handle m (sy_drv sy) s) = Some o'"
    using assms unfolding nat_maps_ok_def by blast
  show "o2n m sy o' = Some n \<Longrightarrow> \<exists>s. nat_rules m (sy_drv sy) s \<noteq> None \<and> n = nat_handle m (sy_drv sy) s"
    using assms 1 unfolding nat_maps_ok_def by (metis option.distinct(1))
qed

lemma client_view_dom:
  assumes "nat_inv m (sy_drv sy)" "nat_maps_ok m sy"
  shows "client_view m sy o' = None \<longleftrightarrow> o2n m sy o' = None"
proof (cases "o2n m sy o'")
  case (Some n)
  obtain s where s: "nat_rules m (sy_drv sy) s \<noteq> None" "n = nat_handle m (sy_drv sy) s" using maps_okD(3) [OF assms(2) Some] by blast
  then show ?thesis using nat_handle_slot [OF assms(1) s(1)] Some by (simp add: client_view_def)
qed (simp add: client_view_def)

text \<open>The machine's own state, apart from the counts of rules.\<close>

definition same_obj :: "ipa_nati_obj \<Rightarrow> ipa_nati_obj \<Rightarrow> bool" where
  "same_obj ob ob' \<longleftrightarrow> no_curr_state ob' = no_curr_state ob \<and> no_hold_state ob' = no_hold_state ob \<and>
     no_ddr_tbl_hdl ob' = no_ddr_tbl_hdl ob \<and> no_sram_tbl_hdl ob' = no_sram_tbl_hdl ob \<and>
     no_back_to_sram_thresh ob' = no_back_to_sram_thresh ob"

text \<open>What a walk leaves alone, and what it has done when it reaches slot \<open>i\<close>.\<close>

definition dest_shape :: "ipa3_nat_mem_in \<Rightarrow> nat_sys \<Rightarrow> nat_sys \<Rightarrow> bool" where
  "dest_shape m s0 s \<longleftrightarrow>
     same_shape (nt_table (nat_table_of (other_mem m) (sy_drv s0))) (nt_table (nat_table_of (other_mem m) (sy_drv s))) \<and>
     same_shape (nt_index_table (nat_table_of (other_mem m) (sy_drv s0))) (nt_index_table (nat_table_of (other_mem m) (sy_drv s)))"

lemma dest_shape_trans: "dest_shape m s0 s1 \<Longrightarrow> dest_shape m s1 s \<Longrightarrow> dest_shape m s0 s"
  unfolding dest_shape_def by (elim conjE, intro conjI; erule (1) same_shape_trans)

lemma nat_only_dest: "nat_only (other_mem m) (sy_drv s) (sy_drv s') \<Longrightarrow> dest_shape m s s'"
  by (simp add: nat_only_def dest_shape_def)

definition mig_base :: "ipa3_nat_mem_in \<Rightarrow> nat_sys \<Rightarrow> nat_sys \<Rightarrow> bool" where
  "mig_base m s0 s \<longleftrightarrow> nat_inv (other_mem m) (sy_drv s) \<and> ns_cache (sy_drv s) m = ns_cache (sy_drv s0) m \<and>
     ns_pdns (sy_drv s) = ns_pdns (sy_drv s0) \<and> o2n m s = o2n m s0 \<and> n2o m s = n2o m s0 \<and>
     same_obj (sy_obj s0) (sy_obj s) \<and> sy_mutex_init s = sy_mutex_init s0 \<and> dest_shape m s0 s"

definition mig_upto :: "ipa3_nat_mem_in \<Rightarrow> nat \<Rightarrow> nat_sys \<Rightarrow> nat_sys \<Rightarrow> bool" where
  "mig_upto m i s0 s \<longleftrightarrow> mig_base m s0 s \<and> nat_maps_ok (other_mem m) s \<and> rules_counted (other_mem m) s \<and>
     (\<forall>o'. client_view (other_mem m) s o' = Option.bind (o2n m s0 o') (\<lambda>n.
        let x = nat_slot m (sy_drv s0) n in
        if unat x < i then map_option (migrated (ns_pdns (sy_drv s0))) (nat_rules m (sy_drv s0) x) else None))"

lemma same_cache:
  assumes "ns_cache d m = ns_cache d0 m"
  shows "nat_table_of m d = nat_table_of m d0" "nat_rules m d = nat_rules m d0" "nat_handle m d = nat_handle m d0"
    "nat_slot m d = nat_slot m d0"
  using assms by (simp_all add: nat_table_of_def nat_rules_def nat_handle_def nat_slot_def fun_eq_iff)

lemma mig_skip:
  assumes "mig_upto m i s0 s" "\<And>x. unat x = i \<Longrightarrow> nat_rules m (sy_drv s0) x = None"
  shows "mig_upto m (Suc i) s0 s"
proof -
  have "(if unat x < Suc i then map_option f (nat_rules m (sy_drv s0) x) else None) =
      (if unat x < i then map_option f (nat_rules m (sy_drv s0) x) else None)" for x and f :: "ipa_nat_rule \<Rightarrow> ipa_nat_rule"
    using assms(2) [of x] by (auto simp: less_Suc_eq)
  then show ?thesis using assms(1) by (simp add: mig_upto_def Let_def)
qed

lemma clear_internal_same:
  "nat_room nmi st (clear_internal u) = nat_room nmi st u" "nat_accepts st (clear_internal u) = nat_accepts st u"
  "nat_good (pdns, u) \<Longrightarrow> nat_ukey (pdns, clear_internal u) = nat_ukey (pdns, u)"
  by (simp_all add: clear_internal_def nat_room_def nat_has_room_def nat_rule_slot_def nat_index_slot_def nat_accepts_def
      nat_good_def nat_ukey_def nat_table_entry_copy_from_user_def arr_get_def Let_def)

lemma rule_of_key: "rule_of_record ((nat_key e)\<lparr>nr_indx_tbl_entry := 0\<rparr>) = clear_internal (rule_of_record e)"
  by (simp add: rule_of_record_def nat_key_def clear_internal_def)

text \<open>A call that leaves the rules of the destination alone does not change what has been copied.\<close>

lemma mig_same:
  assumes U: "mig_upto m i s0 s" and d: "nat_inv (other_mem m) d" "nat_only (other_mem m) (sy_drv s) d"
    "nat_rules (other_mem m) d = nat_rules (other_mem m) (sy_drv s)"
  shows "mig_upto m i s0 (set_drv d s)"
proof -
  note H = nat_only_handle [OF d(2)]
  have e: "sy_drv (set_drv d s) = d" "sy_maps (set_drv d s) = sy_maps s" "sy_obj (set_drv d s) = sy_obj s"
    "sy_mutex_init (set_drv d s) = sy_mutex_init s" by (simp_all add: set_drv_def)
  have "client_view (other_mem m) (set_drv d s) = client_view (other_mem m) s"
    by (simp add: client_view_def fun_eq_iff e d(3) H)
  moreover have "nat_maps_ok (other_mem m) (set_drv d s) = nat_maps_ok (other_mem m) s"
    by (simp add: nat_maps_ok_def e d(3) H)
  moreover have "ns_cache d m = ns_cache (sy_drv s) m" "ns_pdns d = ns_pdns (sy_drv s)"
    "dest_shape m s0 s \<Longrightarrow> dest_shape m s0 (set_drv d s)"
    using d(2) nat_only_dest [of m s "set_drv d s"] dest_shape_trans by (auto simp: nat_only_def e)
  ultimately show ?thesis using U d(1) by (simp add: mig_upto_def mig_base_def rules_counted_def e)
qed

text \<open>A state of the driver from which an insertion without effect leads to \<open>st\<close>: same rules, shape, PDNs.\<close>

definition nat_before :: "ipa3_nat_mem_in \<Rightarrow> nat_state \<Rightarrow> nat_state \<Rightarrow> bool" where
  "nat_before m d st \<longleftrightarrow> nat_inv m d \<and> nat_only m d st \<and> nat_rules m d = nat_rules m st"

text \<open>The copy has stopped at a rule for which the destination had no room, or whose PDN is gone.\<close>

definition mig_stop :: "ipa3_nat_mem_in \<Rightarrow> nat_sys \<Rightarrow> nat_sys \<Rightarrow> bool" where
  "mig_stop m s0 s' \<longleftrightarrow> (\<exists>x k d. nat_rules m (sy_drv s0) x = Some k \<and> mig_upto m (unat x) s0 s' \<and> nat_before (other_mem m) d (sy_drv s') \<and>
     \<not> (nat_accepts d (rule_of_record k) \<and> nat_room (other_mem m) d (rule_of_record k)))"

lemma mig_step:
  assumes U: "mig_upto m i s0 s" and H: "hybrid_inv m s0" and spec: "nat_dma_spec os" "nat_reliable os"
    and h: "nat_hdl_of (other_mem m) h" and i: "i < tab_sz (nt_table (nat_table_of m (sy_drv s0)))"
    and r: "nat_rules m (sy_drv s0) (of_nat i) \<noteq> None"
  shows "\<exists>ret s' w'. migrate_rule os h (nt_table (nat_table_of m (sy_drv s))) (nat_handle m (sy_drv s) (of_nat i)) (of_nat i) ix mp mi (s, w) =
      Some (ret, s', w') \<and> mig_base m s0 s' \<and> (if ret = 0 then mig_upto m (Suc i) s0 s' else mig_stop m s0 s')"
proof -
  let ?m' = "other_mem m"
  define x :: uint16 where "x = of_nat i"
  define pdns where "pdns = ns_pdns (sy_drv s0)"
  have I0: "nat_inv m (sy_drv s0)" and M0: "nat_maps_ok m s0" using H by (simp_all add: hybrid_inv_def)
  have B: "nat_inv ?m' (sy_drv s)" "ns_cache (sy_drv s) m = ns_cache (sy_drv s0) m" "ns_pdns (sy_drv s) = pdns"
      "o2n m s = o2n m s0" "n2o m s = n2o m s0" "mig_base m s0 s" "nat_maps_ok ?m' s"
    using U by (simp_all add: mig_upto_def mig_base_def pdns_def)
  note C = same_cache [OF B(2)]
  define t where "t = nt_table (nat_table_of m (sy_drv s0))"
  obtain K where L: "nat_linv t K"
    using I0 nat_pairE unfolding nat_inv_def t_def by blast
  note W = tbl_wfD [OF natt.invD(1) [OF L]]
  have ux: "unat x = i" using W(7) i by (simp add: x_def t_def)
  define e where "e = recs t ! unat x"
  obtain k where k: "nat_rules m (sy_drv s0) x = Some k" using r by (auto simp: x_def)
  then have ke: "k = (nat_key e)\<lparr>nr_indx_tbl_entry := 0\<rparr>" "nr_protocol e \<noteq> 0xFF"
    by (auto simp: nat_rules_def nat_rule_at_def nat_map_def tbl_rules_def e_def t_def nat_dead_def nat_key_def split: if_splits)
  have rg: "rec_get t x = Some e" using W(3) i ux by (simp add: rec_get_def arr_get_def e_def t_def)
  have nm: "tbl_nmi t = m" using I0 by (simp add: nat_inv_def t_def)
  define n where "n = nat_handle m (sy_drv s0) x"
  obtain orig where orig: "n2o m s0 n = Some orig" using maps_okD(2) [OF M0, of x] k by (auto simp: n_def)
  then have oo: "o2n m s0 orig = Some n" using maps_okD(1) [OF M0] by simp
  have sl: "nat_slot m (sy_drv s0) n = x" using nat_handle_slot [OF I0, of x] k by (simp add: n_def)
  have find: "ipa_nat_map_find (new2orig_map m) n (sy_maps s) = (0, Some orig)"
    using orig B(5) by (simp add: ipa_nat_map_find_def)
  have len: "length (ns_pdns (sy_drv s)) = 16" using B(1) by (simp add: nat_inv_def)
  have V: "VALID_TBL_HDL h" using h by (simp add: nat_hdl_of_def)
  define u where "u = rule_of_record e"
  have uk: "nat_ukey (ns_pdns (sy_drv s), u) = migrated pdns k"
    using migrated_key [OF len, of e] by (simp add: u_def ke(1) B(3))
  have args: "migrate_rule os h (nt_table (nat_table_of m (sy_drv s))) (nat_handle m (sy_drv s) (of_nat i)) (of_nat i) ix mp mi (s, w) =
      migrate_rule os h t n x ix mp mi (s, w)"
    by (simp only: C t_def n_def x_def)
  have kr: "rule_of_record k = clear_internal u" by (simp add: u_def ke(1) rule_of_key)
  have stop: "mig_stop m s0 s'" if "mig_upto m i s0 s'" "nat_before ?m' (sy_drv s) (sy_drv s')"
      "\<not> (nat_accepts (sy_drv s) u \<and> nat_room ?m' (sy_drv s) u)" for s'
    unfolding mig_stop_def using ux k that kr by (intro exI [of _ x] exI [of _ k] exI [of _ "sy_drv s"]) (simp add: clear_internal_same)
  show ?thesis
    unfolding args
  proof (cases "nat_accepts (sy_drv s) u")
    case False
    have "ipa_NATI_add_ipv4_rule os h (Some u) True (sy_drv s) w = Some ((- EINVAL, Some 0), sy_drv s, w)"
      using nat_add_rule_refused [of "sy_drv s" "Some u" True h os w] False len V by simp
    then have "migrate_rule os h t n x ix mp mi (s, w) = Some (- EINVAL, s, w)"
      using rg ke(2) nm find by (simp add: migrate_rule_def u_def set_drv_def)
    then show "\<exists>ret s' w'. migrate_rule os h t n x ix mp mi (s, w) = Some (ret, s', w') \<and> mig_base m s0 s' \<and>
        (if ret = 0 then mig_upto m (Suc i) s0 s' else mig_stop m s0 s')" using B(1,6) stop [of s] U False by (simp add: nat_before_def nat_only_refl)
  next
    case True
    obtain ret hdl d w1 where A: "ipa_NATI_add_ipv4_rule os h (Some u) True (sy_drv s) w = Some ((ret, Some hdl), d, w1)"
        "nat_inv ?m' d" "nat_only ?m' (sy_drv s) d"
        "(\<exists>z. z \<noteq> 0 \<and> nat_rules ?m' (sy_drv s) z = None \<and>
          nat_rules ?m' d = (nat_rules ?m' (sy_drv s))(z \<mapsto> nat_ukey (ns_pdns (sy_drv s), u)) \<and>
          (ret, hdl) \<in> {(0, nat_handle ?m' (sy_drv s) z), (- EPERM, 0)}) \<or>
        (nat_rules ?m' d = nat_rules ?m' (sy_drv s) \<and> hdl = 0 \<and> ret \<in> {- 1, - EIO, - EINVAL})"
        "(ret = 0 \<longleftrightarrow> nat_room ?m' (sy_drv s) u)" "ret \<noteq> 0 \<longrightarrow> nat_rules ?m' d = nat_rules ?m' (sy_drv s)"
      using nat_add_rule [OF B(1) spec(1) h True, of w] spec(2) by blast
    have d: "ns_cache d m = ns_cache (sy_drv s0) m" "ns_pdns d = pdns" using A(3) B(2,3) by (simp_all add: nat_only_def)
    have sh: "dest_shape m s0 s'" if "sy_drv s' = d" for s'
      using U A(3) that nat_only_dest [of m s s'] dest_shape_trans [of m s0 s s'] by (simp add: mig_upto_def mig_base_def)
    have base: "mig_base m s0 s'"
      if "sy_drv s' = d" "o2n m s' = o2n m s" "n2o m s' = n2o m s" "same_obj (sy_obj s) (sy_obj s')"
        "sy_mutex_init s' = sy_mutex_init s" for s'
      using that d A(2) B(4-6) sh by (simp add: mig_base_def pdns_def same_obj_def)
    show "\<exists>ret s' w'. migrate_rule os h t n x ix mp mi (s, w) = Some (ret, s', w') \<and> mig_base m s0 s' \<and>
        (if ret = 0 then mig_upto m (Suc i) s0 s' else mig_stop m s0 s')"
    proof (cases "ret = 0")
      case False
      then have "migrate_rule os h t n x ix mp mi (s, w) = Some (ret, set_drv d s, w1)"
        using rg ke(2) nm find A(1) by (simp add: migrate_rule_def u_def)
      moreover have "mig_base m s0 (set_drv d s)" by (rule base) (simp_all add: set_drv_def same_obj_def)
      moreover have "mig_stop m s0 (set_drv d s)"
        by (rule stop [OF mig_same [OF U A(2,3)]]) (use A(3,5,6) B(1) False in \<open>simp_all add: nat_before_def set_drv_def\<close>)
      ultimately show ?thesis using False by simp
    next
      case r0: True
      then obtain z where z: "nat_rules ?m' (sy_drv s) z = None" "hdl = nat_handle ?m' (sy_drv s) z"
          "nat_rules ?m' d = (nat_rules ?m' (sy_drv s))(z \<mapsto> migrated pdns k)"
        using A(4) uk by auto
      have view: "client_view ?m' s o' = Option.bind (o2n m s0 o') (\<lambda>n.
          let x = nat_slot m (sy_drv s0) n in
          if unat x < i then map_option (migrated pdns) (nat_rules m (sy_drv s0) x) else None)" for o'
        using U unfolding mig_upto_def pdns_def by blast
      have o0: "o2n ?m' s orig = None"
        using view [of orig] client_view_dom [OF B(1,7), of orig] oo sl ux by simp
      define s1 where "s1 = upd_obj (\<lambda>ob. ob\<lparr>no_tot_rules_in_table :=
          (no_tot_rules_in_table ob)(?m' := no_tot_rules_in_table ob ?m' + 1)\<rparr>) (set_drv d s)"
      define s' where "s' = s1\<lparr>sy_maps := (sy_maps s)(orig2new_map ?m' := (o2n ?m' s)(orig \<mapsto> hdl), new2orig_map ?m' := (n2o ?m' s)(hdl \<mapsto> orig))\<rparr>"
      have s': "sy_drv s' = d" "o2n ?m' s' = (o2n ?m' s)(orig \<mapsto> hdl)" "n2o ?m' s' = (n2o ?m' s)(hdl \<mapsto> orig)"
        "o2n m s' = o2n m s" "n2o m s' = n2o m s" "same_obj (sy_obj s) (sy_obj s')" "sy_mutex_init s' = sy_mutex_init s"
        "rule_count ?m' s' = rule_count ?m' s + 1"
        by (simp_all add: s'_def s1_def upd_obj_def set_drv_def same_obj_def)
      note N = maps_ok_add [OF B(7,1) A(2,3) z(1,3) o0 z(2) s'(1-3)]
      have "migrate_rule os h t n x ix mp mi (s, w) = Some (0, s', w1)"
        using rg ke(2) nm find A(1) r0 o0 N(1)
        by (simp add: migrate_rule_def u_def s'_def s1_def upd_obj_def set_drv_def ipa_nat_map_add_def Let_def)
      moreover have "mig_upto m (Suc i) s0 s'"
        unfolding mig_upto_def
      proof (intro conjI allI)
        show "mig_base m s0 s'" by (rule base [OF s'(1,4-7)])
        show "nat_maps_ok ?m' s'" by (rule N(2))
        have "client_view ?m' s orig = None" using client_view_dom [OF B(1,7)] o0 by simp
        then show "rules_counted ?m' s'" using U s'(8) by (simp add: rules_counted_def mig_upto_def N(3) card_dom_upd del: dom_fun_upd)
        fix o'
        show "client_view ?m' s' o' = Option.bind (o2n m s0 o') (\<lambda>n.
          let x = nat_slot m (sy_drv s0) n in
          if unat x < Suc i then map_option (migrated (ns_pdns (sy_drv s0))) (nat_rules m (sy_drv s0) x) else None)"
        proof (cases "o' = orig")
          case True
          then show ?thesis using oo sl ux k by (simp add: N(3) pdns_def)
        next
          case False
          have "unat (nat_slot m (sy_drv s0) y) \<noteq> i" if oy: "o2n m s0 o' = Some y" for y
          proof
            assume "unat (nat_slot m (sy_drv s0) y) = i"
            then have e: "nat_slot m (sy_drv s0) y = x" using ux by (simp add: word_unat_eq_iff)
            obtain q where q: "nat_rules m (sy_drv s0) q \<noteq> None" "y = nat_handle m (sy_drv s0) q" using maps_okD(3) [OF M0 oy] by blast
            then have "y = n" using nat_handle_slot [OF I0 q(1)] e by (simp add: n_def)
            then show False using oy orig maps_okD(1) [OF M0] False by auto
          qed
          then show ?thesis
            using False view [of o'] by (cases "o2n m s0 o'") (auto simp: N(3) Let_def less_Suc_eq pdns_def)
        qed
      qed
      ultimately show ?thesis using base [OF s'(1,4-7)] by (intro exI [of _ 0] exI [of _ s'] exI [of _ w1]) simp
    qed
  qed
qed

lemma mig_walk:
  assumes H: "hybrid_inv m s0" and spec: "nat_dma_spec os" "nat_reliable os" and h: "nat_hdl_of (other_mem m) h"
    and tot: "tot = tab_sz (nt_table (nat_table_of m (sy_drv s0)))" and i: "i \<le> tot" and U: "mig_upto m i s0 s"
    and get: "\<And>s w. get (s, w) = nt_table (nat_table_of m (sy_drv s))"
  shows "\<exists>ret s' w'. walk_loop get nat_entry_interface WHEN_SLOT_FILLED (migrate_rule os h) tot i (s, w) = Some (ret, s', w') \<and>
    mig_base m s0 s' \<and> (if ret = 0 then mig_upto m tot s0 s' else mig_stop m s0 s')"
  using i U
proof (induction "tot - i" arbitrary: i s w)
  case 0
  then show ?case by (subst walk_loop.simps) (simp add: mig_upto_def)
next
  case (Suc k)
  then have lt: "i < tot" by simp
  define t where "t = nt_table (nat_table_of m (sy_drv s0))"
  have I0: "nat_inv m (sy_drv s0)" using H by (simp add: hybrid_inv_def)
  obtain K where L: "nat_linv t K"
    using I0 nat_pairE unfolding nat_inv_def t_def by blast
  note W = tbl_wfD [OF natt.invD(1) [OF L]]
  have ux: "unat (of_nat i :: uint16) = i" using W(7) lt by (simp add: t_def tot)
  have C: "ns_cache (sy_drv s) m = ns_cache (sy_drv s0) m" using Suc.prems(2) by (simp add: mig_upto_def mig_base_def)
  note C' = same_cache [OF C]
  have gt: "get (s, w) = t" by (simp add: get C' t_def)
  have rg: "rec_get t (of_nat i) = Some (recs t ! i)" using W(3) lt ux by (simp add: rec_get_def arr_get_def t_def tot)
  have IH: "mig_upto m (Suc i) s0 s' \<Longrightarrow> \<exists>ret s'' w''. walk_loop get nat_entry_interface WHEN_SLOT_FILLED (migrate_rule os h) tot (Suc i) (s', w') =
      Some (ret, s'', w'') \<and> mig_base m s0 s'' \<and> (if ret = 0 then mig_upto m tot s0 s'' else mig_stop m s0 s'')" for s' w'
    using Suc.hyps(1) [of "Suc i" s' w'] Suc.hyps(2) lt by simp
  have live: "nat_rules m (sy_drv s0) (of_nat i) = None \<longleftrightarrow>
      \<not> tv nat_entry_interface t (of_nat i) \<or> nr_protocol (recs t ! i) = IPAHAL_NAT_INVALID_PROTOCOL"
    using lt ux by (simp add: nat_rules_def nat_rule_at_def nat_map_def tbl_rules_def t_def tot nat_dead_def nat_key_def)
  show ?case
  proof (cases "nat_rules m (sy_drv s0) (of_nat i) = None")
    case True
    have "mig_upto m (Suc i) s0 s"
      by (rule mig_skip [OF Suc.prems(2)]) (use True in auto)
    note S = IH [OF this, of w]
    show ?thesis
    proof (cases "tv nat_entry_interface t (of_nat i)")
      case False
      then show ?thesis using S lt rg gt ux by (subst walk_loop.simps) (simp add: tv_def)
    next
      case v: True
      then have "nr_protocol (recs t ! i) = 0xFF" using True live by simp
      then have "migrate_rule os h t hd (of_nat i) ix mp mi (s, w) = Some (0, s, w)" for hd ix mp mi
        using rg by (simp add: migrate_rule_def)
      then show ?thesis using S lt rg gt ux v by (subst walk_loop.simps) (simp add: tv_def Let_def)
    qed
  next
    case False
    then have v: "tv nat_entry_interface t (of_nat i)" using live by simp
    have st: "\<exists>ret s' w'. migrate_rule os h t (nat_handle m (sy_drv s) (of_nat i)) (of_nat i) ix mp mi (s, w) =
        Some (ret, s', w') \<and> mig_base m s0 s' \<and> (if ret = 0 then mig_upto m (Suc i) s0 s' else mig_stop m s0 s')" for ix mp mi
      using mig_step [OF Suc.prems(2) H spec h _ False, of ix mp mi w] lt by (simp add: tot t_def C')
    have hd: "nat_handle m (sy_drv s) (of_nat i) = ucast (MakeEntryHdl t (of_nat i))" by (simp add: nat_handle_def C' t_def)
    obtain ret s' w' where M0: "migrate_rule os h t (ucast (MakeEntryHdl t (of_nat i))) (of_nat i) 0 None 0 (s, w) =
        Some (ret, s', w')" "mig_base m s0 s'" "if ret = 0 then mig_upto m (Suc i) s0 s' else mig_stop m s0 s'"
      using st [of 0 None 0] unfolding hd by blast
    have M: "migrate_rule os h t (ucast (MakeEntryHdl t (of_nat i))) (of_nat i) ix mp mi (s, w) = Some (ret, s', w')" for ix mp mi
      using M0(1) by (simp add: migrate_rule_def)
    have unf: "walk_loop get nat_entry_interface WHEN_SLOT_FILLED (migrate_rule os h) tot i (s, w) =
        (if ret \<noteq> 0 then Some (ret, s', w')
         else walk_loop get nat_entry_interface WHEN_SLOT_FILLED (migrate_rule os h) tot (Suc i) (s', w'))"
      using lt rg gt ux v M by (subst walk_loop.simps) (simp add: tv_def Let_def)
    show ?thesis
    proof (cases "ret = 0")
      case True
      then show ?thesis using IH [of s' w'] M0(3) unf by simp
    next
      case False
      then show ?thesis using M0(2,3) unf by simp
    qed
  qed
qed

text \<open>
  The whole copy, once the maps of the destination are cleared: the source is as before, and if no
  error is reported every client handle leads to the same rule as before.
\<close>

lemma mig_start:
  assumes "nat_inv (other_mem m) (sy_drv s0)" "nat_rules (other_mem m) (sy_drv s0) = Map.empty"
    "o2n (other_mem m) s0 = Map.empty" "n2o (other_mem m) s0 = Map.empty" "rule_count (other_mem m) s0 = 0"
  shows "mig_upto m 0 s0 s0"
proof -
  have v: "client_view (other_mem m) s0 o' = None" for o' using assms(3) by (simp add: client_view_def)
  have "nat_maps_ok (other_mem m) s0" using assms by (simp add: nat_maps_ok_def)
  moreover have "Option.bind (o2n m s0 o') (\<lambda>n. None) = None" for o' by (cases "o2n m s0 o'") simp_all
  moreover have "dom (client_view (other_mem m) s0) = {}" using v by auto
  ultimately show ?thesis using assms(1,5) v
    by (simp add: mig_upto_def mig_base_def same_obj_def Let_def rules_counted_def dest_shape_def same_shape_refl)
qed

text \<open>
  What the destination holds when exactly the rules in the slots of the source below \<open>i\<close> have been
  copied: the client's handles of those rules, each with its rule made again from its record.
\<close>

definition copied_below :: "ipa3_nat_mem_in \<Rightarrow> nat \<Rightarrow> nat_sys \<Rightarrow> nat_sys \<Rightarrow> bool" where
  "copied_below m i s0 s \<longleftrightarrow> hybrid_inv (other_mem m) s \<and> rules_counted (other_mem m) s \<and> dest_shape m s0 s \<and>
     ns_pdns (sy_drv s) = ns_pdns (sy_drv s0) \<and>
     (\<forall>o'. client_view (other_mem m) s o' =
        (if \<exists>n. o2n m s0 o' = Some n \<and> unat (nat_slot m (sy_drv s0) n) < i
         then map_option (migrated (ns_pdns (sy_drv s0))) (client_view m s0 o') else None))"

text \<open>The whole table has been copied.\<close>

definition copied :: "ipa3_nat_mem_in \<Rightarrow> nat_sys \<Rightarrow> nat_sys \<Rightarrow> bool" where
  "copied m s0 s \<longleftrightarrow> hybrid_inv (other_mem m) s \<and> rules_counted (other_mem m) s \<and> dest_shape m s0 s \<and>
     ns_pdns (sy_drv s) = ns_pdns (sy_drv s0) \<and>
     (\<forall>o'. client_view (other_mem m) s o' = map_option (migrated (ns_pdns (sy_drv s0))) (client_view m s0 o'))"

text \<open>
  The copy stopped at the rule \<open>k\<close> in slot \<open>x\<close> of the source: exactly the rules in the slots before
  it have been copied, and the destination, holding just these, has no room for \<open>k\<close> or does not accept
  its PDN.
\<close>

definition copy_stopped :: "ipa3_nat_mem_in \<Rightarrow> nat_sys \<Rightarrow> nat_sys \<Rightarrow> bool" where
  "copy_stopped m s0 s \<longleftrightarrow> (\<exists>x k d. nat_rules m (sy_drv s0) x = Some k \<and> copied_below m (unat x) s0 s \<and>
     nat_before (other_mem m) d (sy_drv s) \<and>
     \<not> (nat_accepts d (rule_of_record k) \<and> nat_room (other_mem m) d (rule_of_record k)))"

text \<open>
  When a copy cannot stop: the PDNs of all rules are accepted, and each table of the destination has at
  least as many expansion slots as the client has rules.
\<close>

definition dest_fits :: "ipa3_nat_mem_in \<Rightarrow> nat_sys \<Rightarrow> bool" where
  "dest_fits m sy \<longleftrightarrow> (\<forall>x k. nat_rules m (sy_drv sy) x = Some k \<longrightarrow> nat_accepts (sy_drv sy) (rule_of_record k)) \<and>
     (let T = nat_table_of (other_mem m) (sy_drv sy); n = card (dom (client_view m sy)) in
      n \<le> unat (expn_table_entries (nt_table T)) \<and> n \<le> unat (expn_table_entries (nt_index_table T)))"

lemma no_room_full:
  assumes I: "nat_inv m d" and r: "\<not> nat_room m d u"
  shows "unat (expn_table_entries (nt_table (nat_table_of m d))) \<le> card (dom (nat_rules m d)) \<or>
    unat (expn_table_entries (nt_index_table (nat_table_of m d))) \<le> card (dom (nat_rules m d))"
proof -
  define T where "T = nat_table_of m d"
  have P: "nat_pair_of T" using I by (simp add: nat_inv_def T_def)
  obtain B C where L: "nat_tab_inv (nt_table T) B" "nat_linv (nt_table T) B" "idx_linv (nt_index_table T) C"
      "nat_linked (nat_map (nt_table T)) (idx_map (nt_index_table T))"
    using nat_pairE [OF P] by blast
  have d: "dom (nat_rules m d) = dom (nat_map (nt_table T))"
    by (auto simp: nat_rules_def nat_rule_at_def T_def)
  have "free_slot nat_entry_interface (nt_table T) = None \<or> free_slot index_entry_interface (nt_index_table T) = None"
    using r by (auto simp: nat_room_def nat_has_room_def T_def Let_def split: prod.splits)
  then show ?thesis
  proof
    assume "free_slot nat_entry_interface (nt_table T) = None"
    then have "unat (expn_table_entries (nt_table T)) \<le> card (dom (nat_map (nt_table T)))"
      using natm.full_expansion [OF L(2)] L(1) by (simp add: nat_map_def nat_tab_inv_def)
    then show ?thesis by (simp add: T_def d)
  next
    assume "free_slot index_entry_interface (nt_index_table T) = None"
    then have e: "unat (expn_table_entries (nt_index_table T)) \<le> card (dom (idx_map (nt_index_table T)))"
      using idxm.full_expansion [OF L(3)] idx_tab_inv [of "nt_index_table T" C] L(3) by (simp add: idx_map_def)
    let ?f = "\<lambda>y. the (idx_map (nt_index_table T) y)"
    have lk: "\<exists>k. nat_map (nt_table T) (?f y) = Some k \<and> nr_indx_tbl_entry k = y" if "y \<in> dom (idx_map (nt_index_table T))" for y
      using L(4) that unfolding nat_linked_def by force
    have "inj_on ?f (dom (idx_map (nt_index_table T)))" by (rule inj_onI) (metis lk option.inject)
    moreover have "?f ` dom (idx_map (nt_index_table T)) \<subseteq> dom (nat_map (nt_table T))" using lk by blast
    ultimately have "card (dom (idx_map (nt_index_table T))) \<le> card (dom (nat_map (nt_table T)))"
      by (intro card_inj_on_le) simp_all
    then show ?thesis using e by (simp add: T_def d)
  qed
qed

lemma rules_view_card:
  assumes "hybrid_inv m s"
  shows "card (dom (nat_rules m (sy_drv s))) \<le> card (dom (client_view m s))"
proof -
  have I: "nat_inv m (sy_drv s)" and M: "nat_maps_ok m s" using assms by (simp_all add: hybrid_inv_def)
  define f where "f x = the (n2o m s (nat_handle m (sy_drv s) x))" for x
  have o': "o2n m s (f x) = Some (nat_handle m (sy_drv s) x)" if "x \<in> dom (nat_rules m (sy_drv s))" for x
    using maps_okD(2) [OF M, of x] maps_okD(1) [OF M] that by (auto simp: f_def domIff)
  have "inj_on f (dom (nat_rules m (sy_drv s)))"
    by (rule inj_onI) (metis (mono_tags) domIff nat_handle_eq [OF I] o' option.inject)
  moreover have "f ` dom (nat_rules m (sy_drv s)) \<subseteq> dom (client_view m s)"
  proof (rule image_subsetI)
    fix x assume "x \<in> dom (nat_rules m (sy_drv s))"
    then have "client_view m s (f x) \<noteq> None" using client_view_dom [OF I M, of "f x"] o' by simp
    then show "f x \<in> dom (client_view m s)" by blast
  qed
  ultimately show ?thesis by (intro card_inj_on_le) simp_all
qed

lemma fits_not_stopped:
  assumes H: "hybrid_inv m s0" and F: "dest_fits m s0"
  shows "\<not> copy_stopped m s0 s"
proof
  assume "copy_stopped m s0 s"
  then obtain x k d where x: "nat_rules m (sy_drv s0) x = Some k" "copied_below m (unat x) s0 s" "nat_before (other_mem m) d (sy_drv s)"
     "\<not> (nat_accepts d (rule_of_record k) \<and> nat_room (other_mem m) d (rule_of_record k))"
    unfolding copy_stopped_def by blast
  let ?m = "other_mem m"
  have I0: "nat_inv m (sy_drv s0)" and M0: "nat_maps_ok m s0" using H by (simp_all add: hybrid_inv_def)
  have d: "nat_inv ?m d" "nat_rules ?m d = nat_rules ?m (sy_drv s)" "nat_only ?m d (sy_drv s)"
    using x(3) by (simp_all add: nat_before_def)
  have "ns_pdns d = ns_pdns (sy_drv s0)" using d(3) x(2) by (simp add: nat_only_def copied_below_def)
  then have "nat_accepts d (rule_of_record k)" using F x(1) by (simp add: dest_fits_def nat_accepts_def)
  then have "\<not> nat_room ?m d (rule_of_record k)" using x(4) by simp
  note full = no_room_full [OF d(1) this]
  have sz: "expn_table_entries (nt_table (nat_table_of ?m d)) = expn_table_entries (nt_table (nat_table_of ?m (sy_drv s0)))"
    "expn_table_entries (nt_index_table (nat_table_of ?m d)) = expn_table_entries (nt_index_table (nat_table_of ?m (sy_drv s0)))"
    using d(3) x(2) same_shapeD(4) by (metis nat_only_def copied_below_def dest_shape_def)+
  define n where "n = nat_handle m (sy_drv s0) x"
  obtain o' where "n2o m s0 n = Some o'" using maps_okD(2) [OF M0, of x] x(1) by (auto simp: n_def)
  then have oo: "o2n m s0 o' = Some n" using maps_okD(1) [OF M0] by simp
  have sl: "nat_slot m (sy_drv s0) n = x" using nat_handle_slot [OF I0, of x] x(1) by (simp add: n_def)
  have v: "client_view ?m s o'' = (if \<exists>n. o2n m s0 o'' = Some n \<and> unat (nat_slot m (sy_drv s0) n) < unat x
         then map_option (migrated (ns_pdns (sy_drv s0))) (client_view m s0 o'') else None)" for o''
    using x(2) unfolding copied_below_def by blast
  have "dom (client_view ?m s) \<subseteq> dom (client_view m s0) - {o'}"
    using oo sl by (auto simp: v split: if_splits)
  moreover have "o' \<in> dom (client_view m s0)" using oo sl x(1) by (simp add: client_view_def domIff)
  ultimately have "dom (client_view ?m s) \<subset> dom (client_view m s0)" by blast
  then have "card (dom (client_view ?m s)) < card (dom (client_view m s0))" by (intro psubset_card_mono) simp_all
  moreover have "card (dom (nat_rules ?m d)) \<le> card (dom (client_view ?m s))"
    using rules_view_card [of ?m s] x(2) d(2) by (simp add: copied_below_def)
  ultimately show False using full F unfolding sz dest_fits_def Let_def by linarith
qed

lemma mig_below:
  assumes U: "mig_upto m i s0 s"
  shows "copied_below m i s0 s"
proof -
  have "client_view (other_mem m) s o' = Option.bind (o2n m s0 o') (\<lambda>n. let x = nat_slot m (sy_drv s0) n in
        if unat x < i then map_option (migrated (ns_pdns (sy_drv s0))) (nat_rules m (sy_drv s0) x) else None)" for o'
    using U unfolding mig_upto_def by blast
  then have "client_view (other_mem m) s o' = (if \<exists>n. o2n m s0 o' = Some n \<and> unat (nat_slot m (sy_drv s0) n) < i
         then map_option (migrated (ns_pdns (sy_drv s0))) (client_view m s0 o') else None)" for o'
    by (cases "o2n m s0 o'") (simp_all add: client_view_def Let_def)
  then show ?thesis using U by (simp add: copied_below_def mig_upto_def mig_base_def hybrid_inv_def)
qed

lemma mig_end:
  assumes H: "hybrid_inv m s0" and U: "mig_upto m (tab_sz (nt_table (nat_table_of m (sy_drv s0)))) s0 s"
  shows "copied m s0 s"
proof -
  have M0: "nat_maps_ok m s0" and I0: "nat_inv m (sy_drv s0)" using H by (simp_all add: hybrid_inv_def)
  have B: "copied_below m (tab_sz (nt_table (nat_table_of m (sy_drv s0)))) s0 s" by (rule mig_below [OF U])
  have "client_view (other_mem m) s o' = map_option (migrated (ns_pdns (sy_drv s0))) (client_view m s0 o')" for o'
  proof (cases "o2n m s0 o'")
    case None
    then show ?thesis using B by (simp add: copied_below_def client_view_def)
  next
    case (Some n)
    obtain x where x: "nat_rules m (sy_drv s0) x \<noteq> None" "n = nat_handle m (sy_drv s0) x" using maps_okD(3) [OF M0 Some] by blast
    then have "nat_slot m (sy_drv s0) n = x" using nat_handle_slot [OF I0 x(1)] by simp
    then show ?thesis using B Some nat_rules_slot [OF x(1)] by (simp add: copied_below_def)
  qed
  then show ?thesis using B by (simp add: copied_def copied_below_def)
qed

lemma mig_stopped: "mig_stop m s0 s' \<Longrightarrow> copy_stopped m s0 s'"
  unfolding mig_stop_def copy_stopped_def using mig_below by blast

lemma mig_copy:
  assumes H: "hybrid_inv m sy" and I: "nat_inv (other_mem m) (sy_drv sy)"
    and maps: "o2n (other_mem m) sy = Map.empty" "n2o (other_mem m) sy = Map.empty" "rule_count (other_mem m) sy = 0"
    and spec: "nat_dma_spec os" "nat_reliable os" and h: "nat_hdl_of m hs" "nat_hdl_of (other_mem m) h'"
  shows "\<exists>ret s' w'. ipa_nati_copy_ipv4_tbl os sy_drv set_drv hs h' (Some (migrate_rule os h')) sy w = Some (ret, s', w') \<and>
    mig_base m sy s' \<and> (if ret = 0 then copied m sy s' else copy_stopped m sy s')"
proof -
  obtain w1 where w1: "os_lock os w = (0, w1)" using nat_reliableD(1) [OF spec(2)] by (metis surj_pair)
  have l1: "fst (os_lock os w1) = 0" using nat_reliableD(1) [OF spec(2)] by (metis prod.collapse)
  obtain d w2 where c: "ipa_NATI_clear_ipv4_tbl os h' (sy_drv sy) w1 = Some (0, d, w2)" "nat_inv (other_mem m) d"
      "nat_only (other_mem m) (sy_drv sy) d" "nat_rules (other_mem m) d = Map.empty"
    using nat_clear [OF I h(2), of os w1] l1 spec(2) by auto
  define s0 where "s0 = set_drv d sy"
  have cm: "ns_cache d m = ns_cache (sy_drv sy) m" "ns_pdns d = ns_pdns (sy_drv sy)" using c(3) by (simp_all add: nat_only_def)
  have s0: "sy_drv s0 = d" "o2n k s0 = o2n k sy" "n2o k s0 = n2o k sy" "sy_obj s0 = sy_obj sy" "sy_mutex_init s0 = sy_mutex_init sy" for k
    by (simp_all add: s0_def set_drv_def)
  note C = same_cache [OF cm(1)]
  have I0: "nat_inv m d" using H cm C(1) by (simp add: hybrid_inv_def nat_inv_def)
  have H0: "hybrid_inv m s0" using H I0 by (simp add: hybrid_inv_def nat_maps_ok_def s0 C)
  have U0: "mig_upto m 0 s0 s0" by (rule mig_start) (use c(2,4) maps s0 in simp_all)
  have view0: "client_view m s0 = client_view m sy" by (simp add: fun_eq_iff client_view_def s0 C)
  obtain desc T where N: "nc_tbl (ns_cache d m) = [T]" "nc_table_cnt (ns_cache d m) = 1" "nat_table_of m d = T" "nat_pair_of T"
    using I0 by (elim nat_invE) blast
  obtain K where L: "nat_linv (nt_table T) K" using nat_pairE [OF N(4)] by blast
  have pos: "0 < tab_sz (nt_table T)" using tbl_wfD(5,6) [OF natt.invD(1) [OF L]] by linarith
  define get where "get = (\<lambda>(s :: nat_sys, w :: 'a). nt_table (nc_tbl (ns_cache (sy_drv s) m) ! 0))"
  have get: "get (s, v) = nt_table (nat_table_of m (sy_drv s))" for s v by (simp add: get_def nat_table_of_def)
  obtain w3 where w3: "os_lock os w2 = (0, w3)" using nat_reliableD(1) [OF spec(2)] by (metis surj_pair)
  obtain ret s' w4 where W: "walk_loop get nat_entry_interface WHEN_SLOT_FILLED (migrate_rule os h') (tab_sz (nt_table T)) 0 (s0, w3) =
      Some (ret, s', w4)" "mig_base m s0 s'" "if ret = 0 then mig_upto m (tab_sz (nt_table T)) s0 s' else mig_stop m s0 s'"
    using mig_walk [OF H0 spec h(2) refl _ U0 get, of w3] N(3) s0(1) by auto
  have walk: "ipa_table_walk get nat_entry_interface 0 WHEN_SLOT_FILLED (migrate_rule os h') (s0, w3) = Some (ret, s', w4)"
    using W(1) pos by (simp add: ipa_table_walk_def get s0(1) N(3))
  obtain q w5 where q: "nat_unlock os ret w4 = (q, w5)" by fastforce
  obtain q' w6 where q': "nat_unlock os q w5 = (q', w6)" by fastforce
  have rq: "q = ret" "q' = q" using nat_unlock_ret [OF q] nat_unlock_ret [OF q'] spec(2) by auto
  have V: "VALID_TBL_HDL hs" "BREAK_TBL_HDL hs = (m, 1)" using h(1) nat_hdl_break by (auto simp: nat_hdl_of_def)
  have "ipa_NATI_walk_ipv4_tbl os sy_drv hs (USE_NAT_TABLE (Some (migrate_rule os h'))) s0 w2 = Some (q, s', w5)"
    using V w3 N(1,2) walk q s0(1) by (simp add: ipa_NATI_walk_ipv4_tbl_def arr_get_def get_def case_prod_beta')
  then have "ipa_nati_copy_ipv4_tbl os sy_drv set_drv hs h' (Some (migrate_rule os h')) sy w = Some (q', s', w6)"
    using w1 c(1) q' by (simp add: ipa_nati_copy_ipv4_tbl_def s0_def)
  moreover have sh: "dest_shape m sy s" if "dest_shape m s0 s" for s
    using nat_only_dest [of m sy s0] dest_shape_trans [OF _ that] c(3) by (simp add: s0)
  moreover have "mig_base m sy s'" using W(2) sh by (simp add: mig_base_def s0 cm)
  moreover have "copied_below m i sy s" if "copied_below m i s0 s" for i s
    using that sh by (simp add: copied_below_def view0 s0 cm C cong: if_cong)
  then have "copy_stopped m sy s'" if "mig_stop m s0 s'"
    using mig_stopped [OF that] unfolding copy_stopped_def s0(1) C by blast
  moreover have "copied m sy s'" if "copied m s0 s'"
    using that sh by (simp add: copied_def view0 s0 cm)
  ultimately show ?thesis
    using W(3) mig_end [OF H0, of s'] rq by (auto simp: s0 N(3))
qed

section \<open>Deleting and adding by the client's handle\<close>

lemma maps_ok_del:
  assumes M: "nat_maps_ok m sy" and I: "nat_inv m (sy_drv sy)" and only: "nat_only m (sy_drv sy) d"
    and n: "o2n m sy o' = Some n" and s: "nat_rules m d = (nat_rules m (sy_drv sy))(nat_slot m (sy_drv sy) n := None)"
    and sy': "sy_drv sy' = d" "o2n m sy' = (o2n m sy)(o' := None)" "n2o m sy' = (n2o m sy)(n := None)"
  shows "nat_maps_ok m sy'" "client_view m sy' = (client_view m sy)(o' := None)"
proof -
  note H = nat_only_handle(1) [OF only] and S = nat_only_handle(2) [OF only]
  obtain x where x: "nat_rules m (sy_drv sy) x \<noteq> None" "n = nat_handle m (sy_drv sy) x" using maps_okD(3) [OF M n] by blast
  have nx: "nat_slot m (sy_drv sy) n = x" using nat_handle_slot [OF I x(1)] x(2) by simp
  have inv: "o2n m sy a = Some b \<longleftrightarrow> n2o m sy b = Some a" for a b using maps_okD(1) [OF M] .
  have live: "n2o m sy y \<noteq> None \<longleftrightarrow> (\<exists>x. nat_rules m (sy_drv sy) x \<noteq> None \<and> y = nat_handle m (sy_drv sy) x)" for y
    using M unfolding nat_maps_ok_def by blast
  have e: "nat_handle m (sy_drv sy) z = n \<longleftrightarrow> z = x" if "nat_rules m (sy_drv sy) z \<noteq> None" for z
    using nat_handle_eq [OF I that x(1)] x(2) by simp
  show "nat_maps_ok m sy'"
    unfolding nat_maps_ok_def sy' s H nx
  proof (intro conjI allI)
    fix a b
    show "((o2n m sy)(o' := None)) a = Some b \<longleftrightarrow> ((n2o m sy)(n := None)) b = Some a"
      using inv [of a b] inv [of a n] inv [of o' b] n by auto
  next
    fix y
    show "((n2o m sy)(n := None)) y \<noteq> None \<longleftrightarrow>
      (\<exists>z. ((nat_rules m (sy_drv sy))(x := None)) z \<noteq> None \<and> y = nat_handle m (sy_drv sy) z)"
      unfolding fun_upd_def using live [of y] e by (metis (full_types))
  qed
  show "client_view m sy' = (client_view m sy)(o' := None)"
  proof (rule ext)
    fix a
    show "client_view m sy' a = ((client_view m sy)(o' := None)) a"
    proof (cases "a = o'")
      case False
      have "nat_slot m (sy_drv sy) y \<noteq> x" if y: "o2n m sy a = Some y" for y
      proof -
        obtain z where "nat_rules m (sy_drv sy) z \<noteq> None" "y = nat_handle m (sy_drv sy) z" using maps_okD(3) [OF M y] by blast
        moreover have "y \<noteq> n" using y n inv [of a y] inv [of o' n] False by auto
        ultimately show ?thesis using nat_handle_slot [OF I] x by metis
      qed
      then show ?thesis using False by (cases "o2n m sy a") (simp_all add: client_view_def sy' s S nx)
    qed (simp add: client_view_def sy')
  qed
qed

text \<open>
  A rule is added to the table in use; its handle becomes the client's handle.  When the client already
  holds a rule under that handle (it was given out before a migration), the rule stays in the table
  without a handle that leads to it.
\<close>

lemma hybrid_add:
  assumes H: "hybrid_inv m sy" and m: "CHOOSE_MEM_SUB (sy_obj sy) = m" and spec: "nat_dma_spec os" "nat_reliable os"
    and h: "nat_hdl_of m (hybrid_hdl (sy_obj sy) h)" and u: "nat_accepts (sy_drv sy) (clear_internal u)"
      "nat_room m (sy_drv sy) (clear_internal u)"
  shows "\<exists>r s sy' w'. smAddRuleHybrid sm os t (A_AddRule h u True) sy w =
      Some ((if o2n m sy r = None then 0 else - 1, Out_Val r), sy', w') \<and>
    same_obj (sy_obj sy) (sy_obj sy') \<and> nat_inv m (sy_drv sy') \<and> nat_only m (sy_drv sy) (sy_drv sy') \<and>
    sy_mutex_init sy' = sy_mutex_init sy \<and> rule_count m sy' = rule_count m sy + 1 \<and>
    s \<noteq> 0 \<and> nat_rules m (sy_drv sy) s = None \<and> r = nat_handle m (sy_drv sy) s \<and>
    nat_rules m (sy_drv sy') = (nat_rules m (sy_drv sy))(s \<mapsto> nat_ukey (ns_pdns (sy_drv sy), clear_internal u)) \<and>
    (if o2n m sy r = None
     then hybrid_inv m sy' \<and> client_view m sy' = (client_view m sy)(r \<mapsto> nat_ukey (ns_pdns (sy_drv sy), clear_internal u))
     else \<not> hybrid_inv m sy' \<and> client_view m sy' = client_view m sy)"
proof -
  have I: "nat_inv m (sy_drv sy)" and M: "nat_maps_ok m sy" using H by (simp_all add: hybrid_inv_def)
  define k where "k = nat_ukey (ns_pdns (sy_drv sy), clear_internal u)"
  obtain r s d w1 where A: "ipa_NATI_add_ipv4_rule os (hybrid_hdl (sy_obj sy) h) (Some (clear_internal u)) True (sy_drv sy) w =
        Some ((0, Some r), d, w1)" "nat_inv m d" "nat_only m (sy_drv sy) d" "s \<noteq> 0" "nat_rules m (sy_drv sy) s = None"
      "nat_rules m d = (nat_rules m (sy_drv sy))(s \<mapsto> k)" "r = nat_handle m (sy_drv sy) s"
    using nat_add_rule [OF I spec(1) h u(1), of w] spec(2) u(2) unfolding k_def by (elim exE conjE) auto
  define s1 where "s1 = upd_obj (count_rule (\<lambda>n. n + 1)) (set_drv d sy)"
  have s1: "sy_drv s1 = d" "sy_maps s1 = sy_maps sy" "same_obj (sy_obj sy) (sy_obj s1)" "sy_mutex_init s1 = sy_mutex_init sy"
      "CHOOSE_MEM_SUB (sy_obj s1) = m" "rule_count m s1 = rule_count m sy + 1"
    using m by (simp_all add: s1_def upd_obj_def set_drv_def count_rule_def Let_def CHOOSE_MEM_SUB_def same_obj_def)
  have add: "smAddRuleToTbl os (A_AddRule (hybrid_hdl (sy_obj sy) h) u True) sy w = Some ((0, Out_Val r), s1, w1)"
    using A(1) by (simp add: smAddRuleToTbl_def s1_def out_opt_def)
  note N = maps_ok_add [OF M I A(2,3,5,6)]
  have out: "\<exists>sy'. smAddRuleHybrid sm os t (A_AddRule h u True) sy w =
        Some ((if o2n m sy r = None then 0 else - 1, Out_Val r), sy', w1) \<and>
      sy_drv sy' = d \<and> same_obj (sy_obj sy) (sy_obj sy') \<and> sy_mutex_init sy' = sy_mutex_init sy \<and>
      rule_count m sy' = rule_count m sy + 1 \<and>
      (if o2n m sy r = None then o2n m sy' = (o2n m sy)(r \<mapsto> r) \<and> n2o m sy' = (n2o m sy)(r \<mapsto> r) else sy_maps sy' = sy_maps sy)"
  proof (cases "o2n m sy r = None")
    case True
    define s2 where "s2 = s1\<lparr>sy_maps := (sy_maps sy)(orig2new_map m := (o2n m sy)(r \<mapsto> r), new2orig_map m := (n2o m sy)(r \<mapsto> r))\<rparr>"
    have n: "n2o m sy r = None" by (rule N(1) [OF True A(7), of s2]) (simp_all add: s2_def s1)
    have "smAddRuleHybrid sm os t (A_AddRule h u True) sy w = Some ((0, Out_Val r), s2, w1)"
      using add True n s1 by (simp add: smAddRuleHybrid_def ipa_nat_map_add_def Let_def s2_def)
    then show ?thesis using True s1 by (intro exI [of _ s2]) (simp add: s2_def)
  next
    case False
    then have "smAddRuleHybrid sm os t (A_AddRule h u True) sy w = Some ((- 1, Out_Val r), s1, w1)"
      using add s1 by (auto simp: smAddRuleHybrid_def ipa_nat_map_add_def Let_def)
    then show ?thesis using False s1 by (intro exI [of _ s1]) simp
  qed
  then obtain sy' where sy': "smAddRuleHybrid sm os t (A_AddRule h u True) sy w =
        Some ((if o2n m sy r = None then 0 else - 1, Out_Val r), sy', w1)"
      "sy_drv sy' = d" "same_obj (sy_obj sy) (sy_obj sy')" "sy_mutex_init sy' = sy_mutex_init sy"
      "rule_count m sy' = rule_count m sy + 1"
      "if o2n m sy r = None then o2n m sy' = (o2n m sy)(r \<mapsto> r) \<and> n2o m sy' = (n2o m sy)(r \<mapsto> r) else sy_maps sy' = sy_maps sy"
    by blast
  have fin: "if o2n m sy r = None
     then hybrid_inv m sy' \<and> client_view m sy' = (client_view m sy)(r \<mapsto> k)
     else \<not> hybrid_inv m sy' \<and> client_view m sy' = client_view m sy"
  proof (cases "o2n m sy r = None")
    case True
    then show ?thesis using N(2,3) [OF True A(7) sy'(2)] sy'(2,6) A(2) by (simp add: hybrid_inv_def)
  next
    case False
    have fresh: "nat_slot m (sy_drv sy) y \<noteq> s" if y: "o2n m sy x = Some y" for x y
    proof -
      obtain z where "nat_rules m (sy_drv sy) z \<noteq> None" "y = nat_handle m (sy_drv sy) z" using maps_okD(3) [OF M y] by blast
      then show ?thesis using nat_handle_slot [OF I] A(5) by auto
    qed
    have "client_view m sy' x = client_view m sy x" for x
      using fresh False sy'(6) by (cases "o2n m sy x") (simp_all add: client_view_def sy'(2) A(6) nat_only_handle(2) [OF A(3)])
    moreover have "\<not> nat_maps_ok m sy'"
    proof
      assume "nat_maps_ok m sy'"
      then obtain y where y: "n2o m sy' (nat_handle m d s) = Some y"
        using maps_okD(2) [of m sy' s] A(6) sy'(2) by auto
      then have "n2o m sy r = Some y" using False sy'(6) A(7) nat_only_handle(1) [OF A(3)] by simp
      then have "o2n m sy y = Some r" using maps_okD(1) [OF M] by simp
      from maps_okD(3) [OF M this] obtain z where z: "nat_rules m (sy_drv sy) z \<noteq> None" "r = nat_handle m (sy_drv sy) z" by blast
      have "nat_slot m d r = z" using nat_handle_slot [OF I z(1)] z(2) nat_only_handle(2) [OF A(3)] by simp
      moreover have "nat_slot m d r = s"
        using nat_handle_slot [OF A(2), of s] A(6,7) nat_only_handle(1) [OF A(3)] by simp
      ultimately show False using z(1) A(5) by simp
    qed
    ultimately show ?thesis using False by (simp add: hybrid_inv_def fun_eq_iff)
  qed
  show ?thesis
    unfolding k_def [symmetric]
    by (rule exI [of _ r], rule exI [of _ s], rule exI [of _ sy'], rule exI [of _ w1])
      (use sy'(1-5) A(2-7) fin in simp)
qed

text \<open>A rule for which there is no room changes neither the rules nor the maps.\<close>

lemma add_no_room:
  assumes I: "nat_inv m (sy_drv sy)" and spec: "nat_dma_spec os" "nat_reliable os" and h: "nat_hdl_of m h"
    and u: "nat_accepts (sy_drv sy) u" "\<not> nat_room m (sy_drv sy) u"
  shows "\<exists>ret d w'. smAddRuleToTbl os (A_AddRule h u True) sy w = Some ((ret, Out_Val 0), set_drv d sy, w') \<and> ret \<noteq> 0 \<and>
    nat_inv m d \<and> nat_only m (sy_drv sy) d \<and> nat_rules m d = nat_rules m (sy_drv sy)"
proof -
  obtain ret hdl d w1 where A: "ipa_NATI_add_ipv4_rule os h (Some (clear_internal u)) True (sy_drv sy) w = Some ((ret, Some hdl), d, w1)"
      "nat_inv m d" "nat_only m (sy_drv sy) d" "ret \<noteq> 0" "nat_rules m d = nat_rules m (sy_drv sy)"
      "(\<exists>s. s \<noteq> 0 \<and> nat_rules m (sy_drv sy) s = None \<and>
        nat_rules m d = (nat_rules m (sy_drv sy))(s \<mapsto> nat_ukey (ns_pdns (sy_drv sy), clear_internal u)) \<and>
        (ret, hdl) \<in> {(0, nat_handle m (sy_drv sy) s), (- EPERM, 0)}) \<or>
     (nat_rules m d = nat_rules m (sy_drv sy) \<and> hdl = 0 \<and> ret \<in> {- 1, - EIO, - EINVAL})"
    using nat_add_rule [OF I spec(1) h, of "clear_internal u" w] u spec(2) unfolding clear_internal_same by blast
  have "hdl = 0" using A(4,6) by auto
  then show ?thesis using A(1-5) by (auto simp: smAddRuleToTbl_def out_opt_def)
qed

text \<open>Deleting follows the client's handle to the handle of the table in use.\<close>

lemma hybrid_del_stage:
  assumes H: "hybrid_inv m sy" and m: "CHOOSE_MEM_SUB (sy_obj sy) = m" and spec: "nat_dma_spec os" "nat_reliable os"
    and h: "nat_hdl_of m (hybrid_hdl (sy_obj sy) h)" and r: "client_view m sy r \<noteq> None"
  shows "\<exists>s1 w1. smDelRuleHybrid sm os (A_DelRule h r) sy w =
      (if no_curr_state (sy_obj s1) = NATI_STATE_HYBRID_DDR \<and> \<not> no_hold_state (sy_obj s1) \<and>
          no_tot_rules_in_table (sy_obj s1) m \<le> no_back_to_sram_thresh (sy_obj s1)
       then do { ((ret, _), sy, w) \<leftarrow> sm NATI_TRIG_TBL_SWITCH A_Null s1 w1;
            Some ((0, Out_None), if ret = 0 then upd_obj (SET_NATIOBJ_STATE NATI_STATE_HYBRID) sy else sy, w) }
       else Some ((0, Out_None), s1, w1)) \<and>
    hybrid_inv m s1 \<and> client_view m s1 = (client_view m sy)(r := None) \<and>
    nat_only m (sy_drv sy) (sy_drv s1) \<and> sy_mutex_init s1 = sy_mutex_init sy \<and> same_obj (sy_obj sy) (sy_obj s1) \<and>
    rule_count m s1 = rule_count m sy - 1"
proof -
  have I: "nat_inv m (sy_drv sy)" and M: "nat_maps_ok m sy" using H by (simp_all add: hybrid_inv_def)
  obtain n where Some: "o2n m sy r = Some n" using client_view_dom [OF I M, of r] r by auto
  then have live: "nat_rules m (sy_drv sy) (nat_slot m (sy_drv sy) n) \<noteq> None" using r by (simp add: client_view_def)
  obtain d w1 where D: "ipa_NATI_del_ipv4_rule os (hybrid_hdl (sy_obj sy) h) n (sy_drv sy) w = Some (0, d, w1)"
      "nat_inv m d" "nat_only m (sy_drv sy) d"
      "nat_rules m d = (nat_rules m (sy_drv sy))(nat_slot m (sy_drv sy) n := None)"
    using nat_del_rule [OF I spec(1) h live, of w] spec(2) by auto
  define s0 where "s0 = sy\<lparr>sy_maps := (sy_maps sy)(orig2new_map m := (o2n m sy)(r := None), new2orig_map m := (n2o m sy)(n := None))\<rparr>"
  define s1 where "s1 = upd_obj (count_rule (\<lambda>n. n - 1)) (set_drv d s0)"
  have s1: "sy_drv s1 = d" "o2n m s1 = (o2n m sy)(r := None)" "n2o m s1 = (n2o m sy)(n := None)"
      "same_obj (sy_obj sy) (sy_obj s1)" "CHOOSE_MEM_SUB (sy_obj s1) = m" "sy_mutex_init s1 = sy_mutex_init sy"
      "rule_count m s1 = rule_count m sy - 1"
    using m by (simp_all add: s1_def s0_def upd_obj_def set_drv_def count_rule_def Let_def same_obj_def CHOOSE_MEM_SUB_def)
  have n: "n2o m sy n = Some r" using maps_okD(1) [OF M] Some by simp
  have "smDelRuleFromTbl os (A_DelRule (hybrid_hdl (sy_obj sy) h) n) s0 w = Some ((0, Out_None), s1, w1)"
    using D(1) by (simp add: smDelRuleFromTbl_def s1_def s0_def)
  then have "smDelRuleHybrid sm os (A_DelRule h r) sy w =
      (if no_curr_state (sy_obj s1) = NATI_STATE_HYBRID_DDR \<and> \<not> no_hold_state (sy_obj s1) \<and>
          no_tot_rules_in_table (sy_obj s1) m \<le> no_back_to_sram_thresh (sy_obj s1)
       then do { ((ret, _), sy, w) \<leftarrow> sm NATI_TRIG_TBL_SWITCH A_Null s1 w1;
            Some ((0, Out_None), if ret = 0 then upd_obj (SET_NATIOBJ_STATE NATI_STATE_HYBRID) sy else sy, w) }
       else Some ((0, Out_None), s1, w1))"
    using Some n m s1(5) by (simp add: smDelRuleHybrid_def ipa_nat_map_del_def s0_def Let_def conj_ac)
  moreover note maps_ok_del [OF M I D(3) Some D(4) s1(1-3)]
  ultimately show ?thesis using D(2,3) s1(1,4,6,7) by (intro exI [of _ s1] exI [of _ w1]) (simp add: hybrid_inv_def)
qed

lemma hybrid_del_unknown:
  assumes H: "hybrid_inv m sy" and m: "CHOOSE_MEM_SUB (sy_obj sy) = m" and r: "client_view m sy r = None"
  shows "smDelRuleHybrid sm os (A_DelRule h r) sy w = Some ((- 1, Out_None), sy, w)"
proof -
  have "o2n m sy r = None" using H r client_view_dom by (simp add: hybrid_inv_def)
  then show ?thesis using m by (simp add: smDelRuleHybrid_def ipa_nat_map_del_def)
qed

end
