(* ===== verification/Ipa_Nat_Switch.thy ===== *)
theory Ipa_Nat_Switch
  imports Ipa_Nat_Hybrid
begin

text \<open>
  The switch of the hybrid mode through the state machine: the focus moves to the other memory, whose
  table is filled with the client's rules, and adding a rule that finds SRAM full switches to DDR.
\<close>

section \<open>A system whose requests succeed\<close>

definition nat_os_ok :: "('w, nat_memory) ipa_os \<Rightarrow> bool" where
  "nat_os_ok os \<longleftrightarrow> nat_dma_spec os \<and> nat_reliable os \<and> (\<forall>fd c w. fst (os_v4_init_nat os fd c w) = 0) \<and>
     (\<forall>fd v w. fst (os_clock_vote os fd v w) = 0)"

lemma nat_os_okD:
  assumes "nat_os_ok os"
  shows "nat_dma_spec os" "nat_reliable os" "\<exists>w'. os_v4_init_nat os fd c w = (0, w')" "\<exists>w'. os_clock_vote os fd v w = (0, w')"
    "\<exists>w'. os_lock os w = (0, w')" "\<exists>w'. os_unlock os w = (0, w')"
proof -
  show "nat_dma_spec os" "nat_reliable os" using assms by (simp_all add: nat_os_ok_def)
  then show "\<exists>w'. os_lock os w = (0, w')" "\<exists>w'. os_unlock os w = (0, w')"
    using nat_reliableD by (metis surj_pair)+
  show "\<exists>w'. os_v4_init_nat os fd c w = (0, w')" "\<exists>w'. os_clock_vote os fd v w = (0, w')"
    using assms unfolding nat_os_ok_def by (metis prod.collapse)+
qed

text \<open>The module while it is in a hybrid state: both tables exist and their handles are known.\<close>

definition mem_hdl :: "ipa3_nat_mem_in \<Rightarrow> ipa_nati_obj \<Rightarrow> uint32" where
  "mem_hdl m ob = (case m of IPA_NAT_MEM_IN_DDR \<Rightarrow> no_ddr_tbl_hdl ob | IPA_NAT_MEM_IN_SRAM \<Rightarrow> no_sram_tbl_hdl ob)"

definition mem_state :: "ipa3_nat_mem_in \<Rightarrow> ipa_nati_state" where
  "mem_state m = (case m of IPA_NAT_MEM_IN_DDR \<Rightarrow> NATI_STATE_HYBRID_DDR | IPA_NAT_MEM_IN_SRAM \<Rightarrow> NATI_STATE_HYBRID)"

definition hybrid_sys :: "nat_sys \<Rightarrow> bool" where
  "hybrid_sys sy \<longleftrightarrow> (\<forall>m. nat_inv m (sy_drv sy) \<and> nat_hdl_of m (mem_hdl m (sy_obj sy))) \<and> sy_mutex_init sy"

lemma hybrid_sysD:
  assumes "hybrid_sys sy"
  shows "nat_inv m (sy_drv sy)" "nat_hdl_of m (mem_hdl m (sy_obj sy))" "sy_mutex_init sy"
  using assms by (simp_all add: hybrid_sys_def)

text \<open>Two states with the same tables, maps and handles.\<close>

definition same_sys :: "nat_sys \<Rightarrow> nat_sys \<Rightarrow> bool" where
  "same_sys sy sy' \<longleftrightarrow> ns_cache (sy_drv sy') = ns_cache (sy_drv sy) \<and> ns_pdns (sy_drv sy') = ns_pdns (sy_drv sy) \<and>
     sy_maps sy' = sy_maps sy \<and> sy_mutex_init sy' = sy_mutex_init sy \<and> no_hold_state (sy_obj sy') = no_hold_state (sy_obj sy) \<and>
     no_tot_rules_in_table (sy_obj sy') = no_tot_rules_in_table (sy_obj sy) \<and> ns_num_pdns (sy_drv sy') = ns_num_pdns (sy_drv sy) \<and>
     (\<forall>m. mem_hdl m (sy_obj sy') = mem_hdl m (sy_obj sy))"

lemma same_sysD:
  assumes "same_sys sy sy'"
  shows "nat_inv m (sy_drv sy') = nat_inv m (sy_drv sy)" "hybrid_inv m sy' = hybrid_inv m sy" "client_view m sy' = client_view m sy"
    "hybrid_sys sy' = hybrid_sys sy" "o2n m sy' = o2n m sy" "nat_rules m (sy_drv sy') = nat_rules m (sy_drv sy)"
    "nat_slot m (sy_drv sy') = nat_slot m (sy_drv sy)" "ns_pdns (sy_drv sy') = ns_pdns (sy_drv sy)"
    "nat_table_of m (sy_drv sy') = nat_table_of m (sy_drv sy)" "rules_counted m sy' = rules_counted m sy"
proof -
  have t: "nat_table_of k (sy_drv sy') = nat_table_of k (sy_drv sy)" for k using assms by (simp add: same_sys_def nat_table_of_def)
  show I: "nat_inv m (sy_drv sy') = nat_inv m (sy_drv sy)" for m using assms t [of m] by (simp add: nat_inv_def same_sys_def)
  have r: "nat_rules m (sy_drv sy') = nat_rules m (sy_drv sy)" "nat_handle m (sy_drv sy') = nat_handle m (sy_drv sy)"
    "nat_slot m (sy_drv sy') = nat_slot m (sy_drv sy)"
    by (simp_all add: nat_rules_def nat_handle_def nat_slot_def fun_eq_iff t)
  show v: "client_view m sy' = client_view m sy" "hybrid_inv m sy' = hybrid_inv m sy" "o2n m sy' = o2n m sy"
    using assms by (simp_all add: hybrid_inv_def nat_maps_ok_def client_view_def fun_eq_iff r I same_sys_def)
  show "nat_rules m (sy_drv sy') = nat_rules m (sy_drv sy)" "nat_slot m (sy_drv sy') = nat_slot m (sy_drv sy)"
    "ns_pdns (sy_drv sy') = ns_pdns (sy_drv sy)" "nat_table_of m (sy_drv sy') = nat_table_of m (sy_drv sy)"
    "rules_counted m sy' = rules_counted m sy"
    using assms by (simp_all add: r t rules_counted_def v same_sys_def)
  show "hybrid_sys sy' = hybrid_sys sy" using assms by (simp add: hybrid_sys_def I same_sys_def)
qed

section \<open>One call of the machine\<close>

lemma vote_same:
  assumes "nat_os_ok os" "nat_inv IPA_NAT_MEM_IN_SRAM (sy_drv sy)"
  shows "\<exists>w'. ipa_nat_vote_clock os v sy w = (0, sy, w')"
proof -
  obtain desc where d: "nc_desc (ns_cache (sy_drv sy) IPA_NAT_MEM_IN_SRAM) = Some desc" using nat_invE [OF assms(2)] by metis
  then have "(ns_cache (sy_drv sy) IPA_NAT_MEM_IN_SRAM)\<lparr>nc_desc := Some desc\<rparr> = ns_cache (sy_drv sy) IPA_NAT_MEM_IN_SRAM"
    by simp
  moreover obtain w' where "os_clock_vote os (desc_fd desc) v w = (0, w')" using nat_os_okD(4) [OF assms(1)] by blast
  ultimately show ?thesis
    using d by (simp add: ipa_nat_vote_clock_def ipa_nati_vote_clock_def set_cache_def set_drv_def fun_upd_idem)
qed

lemma sm_call:
  assumes ok: "nat_os_ok os" and sy: "nat_inv IPA_NAT_MEM_IN_SRAM (sy_drv sy)" "sy_mutex_init sy"
    and cb: "\<And>w1. \<exists>r out sy2 w2. sm_cb (state_mach_tbl (no_curr_state (sy_obj sy)) t) (ipa_nati_statemach n os) os t args sy w1 =
      Some ((r, out), sy2, w2) \<and> P out sy2"
    and P: "\<And>out sy2. P out sy2 \<Longrightarrow> nat_inv IPA_NAT_MEM_IN_SRAM (sy_drv sy2) \<and> sy_mutex_init sy2"
  shows "\<exists>out sy' w'. ipa_nati_statemach (Suc n) os t args sy w = Some ((0, out), sy', w') \<and> P out sy'"
proof -
  obtain w1 where w1: "os_lock os w = (0, w1)" using nat_os_okD(5) [OF ok] by blast
  then have take: "take_mutex os sy w = (0, sy, w1)" using sy(2) by (simp add: take_mutex_def)
  define vote where "vote = VOTE_REQUIRED (sy_obj sy) t"
  obtain w2 where v: "(if vote then ipa_nat_vote_clock os IPA_APP_CLK_VOTE sy w1 else (0, sy, w1)) = (0, sy, w2)"
    using vote_same [OF ok sy(1), of IPA_APP_CLK_VOTE w1] by (cases vote) auto
  obtain r out sy2 w3 where c: "sm_cb (state_mach_tbl (no_curr_state (sy_obj sy)) t) (ipa_nati_statemach n os) os t args sy w2 =
      Some ((r, out), sy2, w3)" "P out sy2" using cb by blast
  note S2 = P [OF c(2)]
  obtain w4 where d: "(if vote then ipa_nat_vote_clock os IPA_APP_CLK_DEVOTE sy2 w3 else (0, sy2, w3)) = (0, sy2, w4)"
    using vote_same [OF ok, of sy2 IPA_APP_CLK_DEVOTE w3] S2 by (cases vote) auto
  obtain w5 where "os_unlock os w4 = (0, w5)" using nat_os_okD(6) [OF ok] by blast
  then have g: "give_mutex os sy2 w4 = (0, w5)" using S2 by (simp add: give_mutex_def)
  have "ipa_nati_statemach (Suc n) os t args sy w = Some ((0, out), sy2, w5)"
    by (simp only: ipa_nati_statemach.simps take prod.case Let_def vote_def [symmetric] v c(1) d g bind.simps if_False simp_thms)
  then show ?thesis using c(2) by blast
qed

section \<open>Moving the focus\<close>

definition goto_trig :: "ipa3_nat_mem_in \<Rightarrow> ipa_nati_trigger" where
  "goto_trig m = (case m of IPA_NAT_MEM_IN_DDR \<Rightarrow> NATI_TRIG_GOTO_DDR | IPA_NAT_MEM_IN_SRAM \<Rightarrow> NATI_TRIG_GOTO_SRAM)"

lemma post_init_ok:
  assumes ok: "nat_os_ok os" and I: "nat_inv m st" and h: "nat_hdl_of m h"
  shows "\<exists>w'. ipa_NATI_post_ipv4_init_cmd os h st w = Some (0, st\<lparr>ns_active := Some m\<rparr>, w')"
proof -
  from I obtain desc T where N: "nc_desc (ns_cache st m) = Some desc" "nc_tbl (ns_cache st m) = [T]"
    "nc_table_cnt (ns_cache st m) = 1" by (rule nat_invE)
  obtain w1 where w1: "os_lock os w = (0, w1)" using nat_os_okD(5) [OF ok] by blast
  obtain w2 where p: "ipa_nati_post_ipv4_init_cmd os (ns_cache st m) T 0 True w1 = Some (0, w2)"
    using N(1) nat_os_okD(3) [OF ok] by (fastforce simp: ipa_nati_post_ipv4_init_cmd_def Let_def)
  obtain w3 where "os_unlock os w2 = (0, w3)" using nat_os_okD(6) [OF ok] by blast
  then show ?thesis
    using w1 p N by (simp add: ipa_NATI_post_ipv4_init_cmd_def nat_hdl_break [OF h] arr_get_def nat_unlock_def)
qed

lemma sm_goto_ok:
  assumes ok: "nat_os_ok os" and sy: "hybrid_sys sy" and st: "no_curr_state (sy_obj sy) = mem_state k"
  shows "\<exists>out sy' w'. ipa_nati_statemach (Suc n) os (goto_trig m) A_Null sy w = Some ((0, out), sy', w') \<and>
    same_sys sy sy' \<and> no_curr_state (sy_obj sy') = mem_state m"
proof (rule sm_call [OF ok hybrid_sysD(1,3) [OF sy]])
  fix w1
  obtain w2 where p: "ipa_NATI_post_ipv4_init_cmd os (mem_hdl m (sy_obj sy)) (sy_drv sy) w1 =
      Some (0, (sy_drv sy)\<lparr>ns_active := Some m\<rparr>, w2)"
    using post_init_ok [OF ok hybrid_sysD(1,2) [OF sy]] by blast
  define sy' where "sy' = upd_obj (SET_NATIOBJ_STATE (mem_state m)) (set_drv ((sy_drv sy)\<lparr>ns_active := Some m\<rparr>) sy)"
  have "mem_hdl j (SET_NATIOBJ_STATE x ob) = mem_hdl j ob" for j x ob by (simp add: mem_hdl_def SET_NATIOBJ_STATE_def split: ipa3_nat_mem_in.split)
  then have "same_sys sy sy'" "no_curr_state (sy_obj sy') = mem_state m"
    by (simp_all add: same_sys_def sy'_def upd_obj_def set_drv_def SET_NATIOBJ_STATE_def)
  moreover have "sm_cb (state_mach_tbl (no_curr_state (sy_obj sy)) (goto_trig m)) (ipa_nati_statemach n os) os (goto_trig m) A_Null sy w1 =
      Some ((0, Out_None), sy', w2)"
    using p by (cases m; cases k)
      (simp_all add: st goto_trig_def state_mach_tbl_def sm_cb_def smGoToDdr_def smGoToSram_def mem_hdl_def mem_state_def sy'_def)
  ultimately show "\<exists>r out sy2 w2. sm_cb (state_mach_tbl (no_curr_state (sy_obj sy)) (goto_trig m)) (ipa_nati_statemach n os) os
      (goto_trig m) A_Null sy w1 = Some ((r, out), sy2, w2) \<and> same_sys sy sy2 \<and> no_curr_state (sy_obj sy2) = mem_state m"
    by blast
next
  fix out sy2 assume "same_sys sy sy2 \<and> no_curr_state (sy_obj sy2) = mem_state m"
  then show "nat_inv IPA_NAT_MEM_IN_SRAM (sy_drv sy2) \<and> sy_mutex_init sy2"
    using sy same_sysD(4) [of sy sy2] by (auto simp: hybrid_sys_def)
qed

section \<open>Switching\<close>

text \<open>What a switch makes of the rules: all of them are copied, or the copy stops for want of room or of a PDN.\<close>

definition moved :: "ipa3_nat_mem_in \<Rightarrow> nat_sys \<Rightarrow> nat_sys \<Rightarrow> bool" where
  "moved m s0 s \<longleftrightarrow> copied m s0 s \<or> copy_stopped m s0 s \<and> \<not> dest_fits m s0"

definition switched :: "ipa3_nat_mem_in \<Rightarrow> nat_sys \<Rightarrow> nat_sys \<Rightarrow> bool" where
  "switched m sy sy' \<longleftrightarrow> hybrid_sys sy' \<and> no_curr_state (sy_obj sy') = mem_state (other_mem m) \<and>
     no_hold_state (sy_obj sy') = no_hold_state (sy_obj sy) \<and> moved m sy sy'"

lemma clear_mem_same:
  "sy_drv (clear_mem k sy) = sy_drv sy" "sy_mutex_init (clear_mem k sy) = sy_mutex_init sy"
  "no_hold_state (sy_obj (clear_mem k sy)) = no_hold_state (sy_obj sy)" "mem_hdl j (sy_obj (clear_mem k sy)) = mem_hdl j (sy_obj sy)"
  "no_curr_state (sy_obj (clear_mem k sy)) = no_curr_state (sy_obj sy)"
  "o2n k (clear_mem k sy) = Map.empty" "n2o k (clear_mem k sy) = Map.empty"
  "rule_count k (clear_mem k sy) = 0"
  "k \<noteq> m \<Longrightarrow> o2n m (clear_mem k sy) = o2n m sy" "k \<noteq> m \<Longrightarrow> n2o m (clear_mem k sy) = n2o m sy"
  by (simp_all add: clear_mem_def upd_obj_def ipa_nat_map_clear_def mem_hdl_def split: ipa3_nat_mem_in.split)

lemma clear_mem_hdls:
  "no_ddr_tbl_hdl (sy_obj (clear_mem k sy)) = no_ddr_tbl_hdl (sy_obj sy)"
  "no_sram_tbl_hdl (sy_obj (clear_mem k sy)) = no_sram_tbl_hdl (sy_obj sy)"
  by (simp_all add: clear_mem_def upd_obj_def)

text \<open>What has been copied depends on the rules, the maps and the PDNs of the source, and on the shape of the destination.\<close>

lemma copied_source:
  assumes "o2n m s1 = o2n m s0" "nat_rules m (sy_drv s1) = nat_rules m (sy_drv s0)" "nat_slot m (sy_drv s1) = nat_slot m (sy_drv s0)"
    "ns_pdns (sy_drv s1) = ns_pdns (sy_drv s0)" "nat_table_of (other_mem m) (sy_drv s1) = nat_table_of (other_mem m) (sy_drv s0)"
  shows "copied m s1 s = copied m s0 s" "copied_below m i s1 s = copied_below m i s0 s" "copy_stopped m s1 s = copy_stopped m s0 s"
    "dest_fits m s1 = dest_fits m s0" "moved m s1 s = moved m s0 s"
proof -
  have v: "client_view m s1 = client_view m s0" by (simp add: client_view_def fun_eq_iff assms(1-3))
  have d: "dest_shape m s1 s = dest_shape m s0 s" for s by (simp add: dest_shape_def assms(5))
  show c: "copied m s1 s = copied m s0 s" by (simp add: copied_def v d assms(4))
  have b: "copied_below m i s1 s = copied_below m i s0 s" for i unfolding copied_below_def v d assms ..
  show "copied_below m i s1 s = copied_below m i s0 s" by (rule b)
  show st: "copy_stopped m s1 s = copy_stopped m s0 s" unfolding copy_stopped_def b assms ..
  show f: "dest_fits m s1 = dest_fits m s0" unfolding dest_fits_def nat_accepts_def v assms ..
  show "moved m s1 s = moved m s0 s" by (simp add: moved_def c st f)
qed

lemma same_source:
  assumes "same_sys s0 s1"
  shows "copied m s1 s = copied m s0 s" "copied_below m i s1 s = copied_below m i s0 s" "copy_stopped m s1 s = copy_stopped m s0 s"
    "dest_fits m s1 = dest_fits m s0" "moved m s1 s = moved m s0 s"
proof -
  note D = same_sysD [OF assms]
  note E = copied_source [OF D(5) D(6) D(7) D(8) D(9), of m]
  show "copied m s1 s = copied m s0 s" "copied_below m i s1 s = copied_below m i s0 s" "copy_stopped m s1 s = copy_stopped m s0 s"
    "dest_fits m s1 = dest_fits m s0" "moved m s1 s = moved m s0 s" by (rule E)+
qed

lemma same_dest:
  assumes "same_sys s s1"
  shows "moved m s0 s1 = moved m s0 s"
proof -
  note D = same_sysD [OF assms]
  have d: "dest_shape m s0 s1 = dest_shape m s0 s" by (simp add: dest_shape_def D)
  have b: "copied_below m i s0 s1 = copied_below m i s0 s" for i unfolding copied_below_def D d ..
  have "nat_before k e (sy_drv s1) = nat_before k e (sy_drv s)" for k e
    using assms D by (auto simp: nat_before_def nat_only_def same_sys_def)
  then show ?thesis unfolding moved_def copied_def copy_stopped_def b D d by simp
qed

lemma copy_switch:
  assumes ok: "nat_os_ok os" and H: "hybrid_inv m sy" and S: "hybrid_sys sy"
  shows "\<exists>ret s' w'. ipa_nati_copy_ipv4_tbl os sy_drv set_drv (mem_hdl m (sy_obj sy)) (mem_hdl (other_mem m) (sy_obj sy))
      (Some (migrate_rule os (mem_hdl (other_mem m) (sy_obj sy)))) (clear_mem (other_mem m) sy) w = Some (ret, s', w') \<and>
    hybrid_sys s' \<and> hybrid_inv m s' \<and> client_view m s' = client_view m sy \<and>
    same_obj (sy_obj (clear_mem (other_mem m) sy)) (sy_obj s') \<and>
    (if ret = 0 then copied m sy s' else copy_stopped m sy s') \<and> (dest_fits m sy \<longrightarrow> ret = 0)"
proof -
  define s0 where "s0 = clear_mem (other_mem m) sy"
  note C = clear_mem_same [where k = "other_mem m" and sy = sy, folded s0_def]
  have H0: "hybrid_inv m s0" using H C(9,10) [of m] by (simp add: hybrid_inv_def nat_maps_ok_def C(1))
  obtain ret s' w' where M: "ipa_nati_copy_ipv4_tbl os sy_drv set_drv (mem_hdl m (sy_obj sy)) (mem_hdl (other_mem m) (sy_obj sy))
      (Some (migrate_rule os (mem_hdl (other_mem m) (sy_obj sy)))) s0 w = Some (ret, s', w')" "mig_base m s0 s'"
      "if ret = 0 then copied m s0 s' else copy_stopped m s0 s'"
    using mig_copy [OF H0 _ C(6-8) nat_os_okD(1,2) [OF ok] hybrid_sysD(2,2) [OF S], of w] hybrid_sysD(1) [OF S] C(1) by auto
  have i: "nat_inv k (sy_drv s')" for k
  proof (cases "k = m")
    case True
    have "nat_inv m (sy_drv sy)" using hybrid_sysD(1) [OF S] .
    then show ?thesis using True M(2) C(1) by (simp add: mig_base_def nat_inv_def nat_table_of_def)
  next
    case False
    then have "k = other_mem m" by (cases k; cases m) simp_all
    then show ?thesis using M(2) by (simp add: mig_base_def)
  qed
  have h: "mem_hdl k (sy_obj s') = mem_hdl k (sy_obj sy)" for k
    using M(2) C(4) [of k] by (simp add: mig_base_def same_obj_def mem_hdl_def split: ipa3_nat_mem_in.splits)
  have "hybrid_sys s'" using i h hybrid_sysD(2,3) [OF S] M(2) C(2) by (simp add: hybrid_sys_def mig_base_def)
  moreover have B: "ns_cache (sy_drv s') m = ns_cache (sy_drv sy) m" "o2n m s' = o2n m sy" "n2o m s' = n2o m sy"
    "same_obj (sy_obj s0) (sy_obj s')"
    using M(2) C(1) C(9,10) [of m] by (simp_all add: mig_base_def)
  note sc = same_cache [OF B(1)]
  have "client_view m s' = client_view m sy" by (simp add: client_view_def fun_eq_iff B(2) sc)
  moreover have "hybrid_inv m s'" using H i [of m] by (simp add: hybrid_inv_def nat_maps_ok_def B(2,3) sc)
  moreover have src: "copied m s0 s' = copied m sy s'" "copy_stopped m s0 s' = copy_stopped m sy s'"
    by (rule copied_source; simp add: C)+
  ultimately show ?thesis
    using M B(4) fits_not_stopped [OF H, of s'] by (auto simp: s0_def [symmetric])
qed

lemma count_switch_same:
  "no_curr_state (count_switch k b ob) = no_curr_state ob" "no_hold_state (count_switch k b ob) = no_hold_state ob"
  "mem_hdl j (count_switch k b ob) = mem_hdl j ob" "no_tot_rules_in_table (count_switch k b ob) = no_tot_rules_in_table ob"
  by (simp_all add: count_switch_def Let_def mem_hdl_def split: ipa3_nat_mem_in.split)

lemma upd_obj_frame:
  assumes "\<And>j. mem_hdl j (f (sy_obj sy)) = mem_hdl j (sy_obj sy)" "no_hold_state (f (sy_obj sy)) = no_hold_state (sy_obj sy)"
    "no_tot_rules_in_table (f (sy_obj sy)) = no_tot_rules_in_table (sy_obj sy)"
  shows "same_sys sy (upd_obj f sy)"
  using assms by (simp add: same_sys_def upd_obj_def)

lemma sm_switch_ok:
  assumes ok: "nat_os_ok os" and H: "hybrid_inv m sy" and S: "hybrid_sys sy" and st: "no_curr_state (sy_obj sy) = mem_state m"
  shows "\<exists>out sy' w'. ipa_nati_statemach (Suc (Suc n)) os NATI_TRIG_TBL_SWITCH A_Null sy w = Some ((0, out), sy', w') \<and>
    switched m sy sy'"
proof (rule sm_call [OF ok hybrid_sysD(1,3) [OF S]])
  fix w1
  let ?sm = "ipa_nati_statemach (Suc n) os"
  obtain out1 sy1 w2 where g: "?sm (goto_trig (other_mem m)) A_Null sy w1 = Some ((0, out1), sy1, w2)"
      "same_sys sy sy1" "no_curr_state (sy_obj sy1) = mem_state (other_mem m)"
    using sm_goto_ok [OF ok S st] by blast
  note D = same_sysD [OF g(2)]
  have h: "mem_hdl j (sy_obj sy1) = mem_hdl j (sy_obj sy)" for j using g(2) by (simp add: same_sys_def)
  obtain ret s' w3 where c: "ipa_nati_copy_ipv4_tbl os sy_drv set_drv (mem_hdl m (sy_obj sy1)) (mem_hdl (other_mem m) (sy_obj sy1))
      (Some (migrate_rule os (mem_hdl (other_mem m) (sy_obj sy1)))) (clear_mem (other_mem m) sy1) w2 = Some (ret, s', w3)"
      "hybrid_sys s'" "same_obj (sy_obj (clear_mem (other_mem m) sy1)) (sy_obj s')"
      "moved m sy1 s'"
    using copy_switch [OF ok, of m sy1 w2] H S D by (auto simp: moved_def split: if_splits)
  define sy2 where "sy2 = upd_obj (count_switch (CHOOSE_MEM_SUB (sy_obj sy)) (ret = 0)) s'"
  have e: "same_sys s' sy2" unfolding sy2_def by (rule upd_obj_frame) (simp_all add: count_switch_same)
  have "moved m sy sy2" using c(4) by (simp add: same_dest [OF e] same_source(5) [OF g(2)])
  moreover have "no_curr_state (sy_obj sy2) = mem_state (other_mem m)"
    using c(3) g(3) clear_mem_same(5) [of "other_mem m" sy1] by (simp add: sy2_def upd_obj_def count_switch_same same_obj_def)
  moreover have "no_hold_state (sy_obj sy2) = no_hold_state (sy_obj sy)"
    using c(3) g(2) clear_mem_same(3) [of "other_mem m" sy1] e by (simp add: same_sys_def same_obj_def)
  ultimately have "switched m sy sy2" using same_sysD(4) [OF e] c(2) by (simp add: switched_def)
  moreover have "sm_cb (state_mach_tbl (no_curr_state (sy_obj sy)) NATI_TRIG_TBL_SWITCH) ?sm os NATI_TRIG_TBL_SWITCH A_Null sy w1 =
      Some ((ret, Out_None), sy2, w3)"
    using g(1) c(1) by (cases m)
      (simp_all add: st state_mach_tbl_def mem_state_def sm_cb_def smSwitchFromSramToDdr_def smSwitchFromDdrToSram_def switch_stats_def
        goto_trig_def Let_def mem_hdl_def sy2_def clear_mem_hdls del: ipa_nati_statemach.simps)
  ultimately show "\<exists>r out sy2 w2. sm_cb (state_mach_tbl (no_curr_state (sy_obj sy)) NATI_TRIG_TBL_SWITCH) ?sm os
      NATI_TRIG_TBL_SWITCH A_Null sy w1 = Some ((r, out), sy2, w2) \<and> switched m sy sy2"
    by blast
next
  fix out sy2 assume "switched m sy sy2"
  then show "nat_inv IPA_NAT_MEM_IN_SRAM (sy_drv sy2) \<and> sy_mutex_init sy2" by (simp add: switched_def hybrid_sys_def)
qed

section \<open>Adding a rule when SRAM is full\<close>

lemma drv_same:
  assumes d: "nat_inv m d" "nat_only m (sy_drv sy) d" "nat_rules m d = nat_rules m (sy_drv sy)" and H: "hybrid_inv m sy"
  shows "hybrid_inv m (set_drv d sy)" "client_view m (set_drv d sy) = client_view m sy"
proof -
  note h = nat_only_handle [OF d(2)]
  show "client_view m (set_drv d sy) = client_view m sy" by (simp add: client_view_def fun_eq_iff set_drv_def d(3) h)
  show "hybrid_inv m (set_drv d sy)" using H d(1) by (simp add: hybrid_inv_def nat_maps_ok_def set_drv_def d(3) h)
qed

lemma hybrid_sys_only:
  assumes S: "hybrid_sys sy" and d: "nat_inv m (sy_drv sy')" "nat_only m (sy_drv sy) (sy_drv sy')" "same_obj (sy_obj sy) (sy_obj sy')"
    "sy_mutex_init sy' = sy_mutex_init sy"
  shows "hybrid_sys sy'"
proof -
  have "nat_inv k (sy_drv sy')" for k
  proof (cases "k = m")
    case False
    then have "ns_cache (sy_drv sy') k = ns_cache (sy_drv sy) k" "ns_pdns (sy_drv sy') = ns_pdns (sy_drv sy)" using d(2) by (simp_all add: nat_only_def)
    then show ?thesis using hybrid_sysD(1) [OF S, of k] by (simp add: nat_inv_def nat_table_of_def)
  qed (use d(1) in simp)
  moreover have "mem_hdl k (sy_obj sy') = mem_hdl k (sy_obj sy)" for k
    using d(3) by (simp add: mem_hdl_def same_obj_def split: ipa3_nat_mem_in.split)
  ultimately show ?thesis using hybrid_sysD(2,3) [OF S] d(4) by (simp add: hybrid_sys_def)
qed

text \<open>
  What adding a rule to the table of memory \<open>m\<close> gives.  The client's view gains the rule under its handle,
  unless the client holds another rule under that handle already: then the rule is in the table, but the
  maps know nothing of it.
\<close>

definition hybrid_added :: "ipa3_nat_mem_in \<Rightarrow> nat_sys \<Rightarrow> ipa_nat_ipv4_rule \<Rightarrow> nati_out \<Rightarrow> nat_sys \<Rightarrow> bool" where
  "hybrid_added m sy u out sy' \<longleftrightarrow> nat_only m (sy_drv sy) (sy_drv sy') \<and> same_obj (sy_obj sy) (sy_obj sy') \<and> (let v = client_view m; key = nat_ukey (ns_pdns (sy_drv sy), u) in
     if nat_room m (sy_drv sy) u
     then \<exists>s. nat_rules m (sy_drv sy) s = None \<and>
       nat_rules m (sy_drv sy') = (nat_rules m (sy_drv sy))(s \<mapsto> key) \<and> rule_count m sy' = rule_count m sy + 1 \<and>
       (let r = nat_handle m (sy_drv sy) s in
        out = Out_Val r \<and>
        (if o2n m sy r = None then hybrid_inv m sy' \<and> v sy' = (v sy)(r \<mapsto> key)
         else \<not> hybrid_inv m sy' \<and> v sy' = v sy))
     else out = Out_Val 0 \<and> hybrid_inv m sy' \<and> v sy' = v sy \<and> rule_count m sy' = rule_count m sy)"

lemma sm_add_here:
  assumes ok: "nat_os_ok os" and H: "hybrid_inv m sy" and S: "hybrid_sys sy"
    and st: "no_curr_state (sy_obj sy) = mem_state m" and u: "nat_accepts (sy_drv sy) u"
    and h: "nat_hdl_of IPA_NAT_MEM_IN_SRAM h"
    and stay: "nat_room m (sy_drv sy) u \<or> m = IPA_NAT_MEM_IN_DDR \<or> no_hold_state (sy_obj sy)"
  shows "\<exists>out sy' w'. ipa_nati_statemach (Suc n) os NATI_TRIG_ADD_RULE (A_AddRule h u True) sy w = Some ((0, out), sy', w') \<and>
    (hybrid_added m sy u out sy' \<and> hybrid_sys sy' \<and> no_curr_state (sy_obj sy') = mem_state m)"
proof (rule sm_call [OF ok hybrid_sysD(1,3) [OF S]])
  let ?sm = "ipa_nati_statemach n os"
  fix w1
  have c: "CHOOSE_MEM_SUB (sy_obj sy) = m" "nat_hdl_of m (hybrid_hdl (sy_obj sy) h)"
    using st h hybrid_sysD(2) [OF S, of m] by (cases m; simp add: CHOOSE_MEM_SUB_def hybrid_hdl_def mem_hdl_def mem_state_def)+
  have I: "nat_inv m (sy_drv sy)" using H by (simp add: hybrid_inv_def)
  have k: "nat_ukey (ns_pdns (sy_drv sy), clear_internal u) = nat_ukey (ns_pdns (sy_drv sy), u)"
    using u I by (intro clear_internal_same(3)) (simp add: nat_good_def nat_accepts_def nat_inv_def)
  have cb: "sm_cb (state_mach_tbl (no_curr_state (sy_obj sy)) NATI_TRIG_ADD_RULE) ?sm os NATI_TRIG_ADD_RULE (A_AddRule h u True) sy w1 =
      smAddRuleHybrid ?sm os NATI_TRIG_ADD_RULE (A_AddRule h u True) sy w1"
    by (cases m) (simp_all add: st mem_state_def state_mach_tbl_def sm_cb_def)
  show "\<exists>r out sy2 w2. sm_cb (state_mach_tbl (no_curr_state (sy_obj sy)) NATI_TRIG_ADD_RULE) ?sm os NATI_TRIG_ADD_RULE
      (A_AddRule h u True) sy w1 = Some ((r, out), sy2, w2) \<and>
      (hybrid_added m sy u out sy2 \<and> hybrid_sys sy2 \<and> no_curr_state (sy_obj sy2) = mem_state m)"
  proof (cases "nat_room m (sy_drv sy) u")
    case True
    obtain r s sy2 w2 where A: "smAddRuleHybrid ?sm os NATI_TRIG_ADD_RULE (A_AddRule h u True) sy w1 =
          Some ((if o2n m sy r = None then 0 else - 1, Out_Val r), sy2, w2)"
        "same_obj (sy_obj sy) (sy_obj sy2)" "nat_inv m (sy_drv sy2)" "nat_only m (sy_drv sy) (sy_drv sy2)"
        "sy_mutex_init sy2 = sy_mutex_init sy" "rule_count m sy2 = rule_count m sy + 1" "nat_rules m (sy_drv sy) s = None" "r = nat_handle m (sy_drv sy) s"
        "nat_rules m (sy_drv sy2) = (nat_rules m (sy_drv sy))(s \<mapsto> nat_ukey (ns_pdns (sy_drv sy), u))"
        "if o2n m sy r = None
         then hybrid_inv m sy2 \<and> client_view m sy2 = (client_view m sy)(r \<mapsto> nat_ukey (ns_pdns (sy_drv sy), u))
         else \<not> hybrid_inv m sy2 \<and> client_view m sy2 = client_view m sy"
      using hybrid_add [OF H c(1) nat_os_okD(1,2) [OF ok] c(2), of u ?sm NATI_TRIG_ADD_RULE w1] u True
      unfolding clear_internal_same k by blast
    have "hybrid_sys sy2" using hybrid_sys_only [OF S A(3,4,2,5)] .
    moreover have "hybrid_added m sy u (Out_Val r) sy2"
      unfolding hybrid_added_def Let_def using True A(2,4,6-10) by auto
    moreover have "no_curr_state (sy_obj sy2) = mem_state m" using A(2) st by (simp add: same_obj_def)
    ultimately show ?thesis using A(1) cb by auto
  next
    case False
    obtain ret d w2 where A: "smAddRuleToTbl os (A_AddRule (hybrid_hdl (sy_obj sy) h) u True) sy w1 = Some ((ret, Out_Val 0), set_drv d sy, w2)"
        "ret \<noteq> 0" "nat_inv m d" "nat_only m (sy_drv sy) d" "nat_rules m d = nat_rules m (sy_drv sy)"
      using add_no_room [OF I nat_os_okD(1,2) [OF ok] c(2) u False, of w1] by auto
    have e: "sy_obj (set_drv d sy) = sy_obj sy" "sy_mutex_init (set_drv d sy) = sy_mutex_init sy" "sy_drv (set_drv d sy) = d"
      by (simp_all add: set_drv_def)
    have "smAddRuleHybrid ?sm os NATI_TRIG_ADD_RULE (A_AddRule h u True) sy w1 = Some ((ret, Out_Val 0), set_drv d sy, w2)"
      using A(1,2) st stay False by (cases m) (auto simp: smAddRuleHybrid_def e mem_state_def)
    moreover have "hybrid_sys (set_drv d sy)"
      by (rule hybrid_sys_only [OF S]) (use A(3,4) in \<open>simp_all add: e same_obj_def\<close>)
    moreover have "hybrid_added m sy u (Out_Val 0) (set_drv d sy)"
      using False drv_same [OF A(3-5) H] A(4) by (simp add: hybrid_added_def Let_def e same_obj_def)
    ultimately show ?thesis using cb st by (auto simp: e)
  qed
next
  fix out sy2 assume "hybrid_added m sy u out sy2 \<and> hybrid_sys sy2 \<and> no_curr_state (sy_obj sy2) = mem_state m"
  then show "nat_inv IPA_NAT_MEM_IN_SRAM (sy_drv sy2) \<and> sy_mutex_init sy2" by (simp add: hybrid_sys_def)
qed

lemma switched_dest:
  assumes "switched m sy s"
  shows "ns_pdns (sy_drv s) = ns_pdns (sy_drv sy)" "hybrid_inv (other_mem m) s"
  using assms by (auto simp: switched_def moved_def copied_def copy_stopped_def copied_below_def)

lemma sm_overflow:
  assumes ok: "nat_os_ok os" and H: "hybrid_inv IPA_NAT_MEM_IN_SRAM sy" and S: "hybrid_sys sy"
    and st: "no_curr_state (sy_obj sy) = NATI_STATE_HYBRID" "\<not> no_hold_state (sy_obj sy)"
    and h: "nat_hdl_of IPA_NAT_MEM_IN_SRAM h" and u: "nat_accepts (sy_drv sy) u" "\<not> nat_room IPA_NAT_MEM_IN_SRAM (sy_drv sy) u"
  shows "\<exists>out sy' w'. ipa_nati_add_ipv4_rule os h u True sy w = Some ((0, out), sy', w') \<and>
    (hybrid_sys sy' \<and> no_curr_state (sy_obj sy') = NATI_STATE_HYBRID_DDR \<and>
     (\<exists>s. moved IPA_NAT_MEM_IN_SRAM sy s \<and> hybrid_added IPA_NAT_MEM_IN_DDR s u out sy'))"
  unfolding ipa_nati_add_ipv4_rule_def numeral_3_eq_3
proof (rule sm_call [OF ok hybrid_sysD(1,3) [OF S]])
  let ?m = IPA_NAT_MEM_IN_SRAM and ?sm = "ipa_nati_statemach (Suc (Suc 0)) os" and ?args = "A_AddRule h u True"
  fix w1
  have I: "nat_inv ?m (sy_drv sy)" using H by (simp add: hybrid_inv_def)
  obtain ret d w2 where A: "smAddRuleToTbl os ?args sy w1 = Some ((ret, Out_Val 0), set_drv d sy, w2)"
      "ret \<noteq> 0" "nat_inv ?m d" "nat_only ?m (sy_drv sy) d" "nat_rules ?m d = nat_rules ?m (sy_drv sy)"
    using add_no_room [OF I nat_os_okD(1,2) [OF ok] h u, of w1] by auto
  define s1 where "s1 = set_drv d sy"
  have e: "sy_obj s1 = sy_obj sy" "sy_mutex_init s1 = sy_mutex_init sy" "sy_drv s1 = d" by (simp_all add: s1_def set_drv_def)
  note D = drv_same [OF A(3-5) H, folded s1_def]
  have p1: "ns_pdns d = ns_pdns (sy_drv sy)" using A(4) by (simp add: nat_only_def)
  have S1: "hybrid_sys s1" by (rule hybrid_sys_only [OF S]) (use A(3,4) in \<open>simp_all add: e same_obj_def\<close>)
  have st1: "no_curr_state (sy_obj s1) = mem_state ?m" using st(1) by (simp add: e mem_state_def)
  obtain out1 s2 w3 where sw: "?sm NATI_TRIG_TBL_SWITCH A_Null s1 w2 = Some ((0, out1), s2, w3)" "switched ?m s1 s2"
    using sm_switch_ok [OF ok D(1) S1 st1, of 0 w2] by blast
  define s3 where "s3 = upd_obj (SET_NATIOBJ_STATE NATI_STATE_HYBRID_DDR) s2"
  have s23: "same_sys s2 s3" unfolding s3_def
    by (rule upd_obj_frame) (simp_all add: SET_NATIOBJ_STATE_def mem_hdl_def split: ipa3_nat_mem_in.split)
  have s1: "o2n ?m s1 = o2n ?m sy" "nat_rules ?m (sy_drv s1) = nat_rules ?m (sy_drv sy)" "nat_slot ?m (sy_drv s1) = nat_slot ?m (sy_drv sy)"
    "ns_pdns (sy_drv s1) = ns_pdns (sy_drv sy)" "nat_table_of (other_mem ?m) (sy_drv s1) = nat_table_of (other_mem ?m) (sy_drv sy)"
    using A(4,5) nat_only_handle(2) [OF A(4)]
    by (simp_all add: s1_def set_drv_def fun_eq_iff nat_only_def nat_table_of_def)
  have H3: "hybrid_inv IPA_NAT_MEM_IN_DDR s3" and S3: "hybrid_sys s3"
    using same_sysD(2,4) [OF s23] switched_dest(2) [OF sw(2)] sw(2) by (simp_all add: switched_def)
  have "ns_pdns (sy_drv s3) = ns_pdns (sy_drv sy)" using switched_dest(1) [OF sw(2)] s23 p1 e(3) by (simp add: same_sys_def)
  then have u3: "nat_accepts (sy_drv s3) u" using u(1) by (simp add: nat_accepts_def)
  have st3: "no_curr_state (sy_obj s3) = NATI_STATE_HYBRID_DDR" by (simp add: s3_def state_chosen)
  obtain out sy' w4 where ad: "?sm NATI_TRIG_ADD_RULE ?args s3 w3 = Some ((0, out), sy', w4)"
      "hybrid_added IPA_NAT_MEM_IN_DDR s3 u out sy'" "hybrid_sys sy'" "no_curr_state (sy_obj sy') = NATI_STATE_HYBRID_DDR"
    using sm_add_here [OF ok H3 S3 _ u3 h, of "Suc 0" w3] st3 by (auto simp: mem_state_def)
  have out: "out \<noteq> Out_None" using ad(2) by (auto simp: hybrid_added_def Let_def split: if_splits)
  have hh: "hybrid_hdl (sy_obj sy) h = h" using st(1) by (simp add: hybrid_hdl_def)
  have "smAddRuleHybrid ?sm os NATI_TRIG_ADD_RULE ?args sy w1 = Some ((0, out), sy', w4)"
    unfolding smAddRuleHybrid_def using A(1,2) sw(1) ad(1) out st e(1)
    by (simp add: hh s1_def [symmetric] s3_def [symmetric] del: ipa_nati_statemach.simps)
  moreover have "moved ?m sy s3"
    using sw(2) by (simp add: switched_def same_dest [OF s23] copied_source(5) [OF s1])
  ultimately show "\<exists>r out sy2 w2. sm_cb (state_mach_tbl (no_curr_state (sy_obj sy)) NATI_TRIG_ADD_RULE) ?sm os NATI_TRIG_ADD_RULE
      ?args sy w1 = Some ((r, out), sy2, w2) \<and> (hybrid_sys sy2 \<and> no_curr_state (sy_obj sy2) = NATI_STATE_HYBRID_DDR \<and>
       (\<exists>s. moved ?m sy s \<and> hybrid_added IPA_NAT_MEM_IN_DDR s u out sy2))"
    using st(1) ad(2-4) by (auto simp: state_mach_tbl_def sm_cb_def simp del: ipa_nati_statemach.simps)
next
  fix out sy2
  assume "hybrid_sys sy2 \<and> no_curr_state (sy_obj sy2) = NATI_STATE_HYBRID_DDR \<and>
     (\<exists>s. moved IPA_NAT_MEM_IN_SRAM sy s \<and> hybrid_added IPA_NAT_MEM_IN_DDR s u out sy2)"
  then show "nat_inv IPA_NAT_MEM_IN_SRAM (sy_drv sy2) \<and> sy_mutex_init sy2" by (simp add: hybrid_sys_def)
qed

section \<open>Deleting a rule, and going back to SRAM\<close>

text \<open>
  What deleting the rule behind a client's handle gives in the state of memory \<open>m\<close>: the rule leaves the
  table, the maps and the count.  The rules move back to SRAM exactly when they are in DDR, the state is
  not held, and the count that is left is not above the threshold.
\<close>

definition hybrid_left :: "ipa3_nat_mem_in \<Rightarrow> nat_sys \<Rightarrow> uint32 \<Rightarrow> nat_sys \<Rightarrow> bool" where
  "hybrid_left m sy r s \<longleftrightarrow> hybrid_inv m s \<and> client_view m s = (client_view m sy)(r := None) \<and>
     rule_count m s = rule_count m sy - 1 \<and> nat_only m (sy_drv sy) (sy_drv s)"

definition hybrid_deleted :: "ipa3_nat_mem_in \<Rightarrow> nat_sys \<Rightarrow> uint32 \<Rightarrow> nat_sys \<Rightarrow> bool" where
  "hybrid_deleted m sy r sy' \<longleftrightarrow> hybrid_sys sy' \<and>
     (if client_view m sy r = None then sy' = sy
      else if m = IPA_NAT_MEM_IN_DDR \<and> \<not> no_hold_state (sy_obj sy) \<and>
         rule_count m sy - 1 \<le> no_back_to_sram_thresh (sy_obj sy)
      then no_curr_state (sy_obj sy') = NATI_STATE_HYBRID \<and> (\<exists>s. hybrid_left m sy r s \<and> moved m s sy')
      else no_curr_state (sy_obj sy') = mem_state m \<and> hybrid_left m sy r sy')"

lemma sm_del:
  assumes ok: "nat_os_ok os" and H: "hybrid_inv m sy" and S: "hybrid_sys sy" and st: "no_curr_state (sy_obj sy) = mem_state m"
    and h: "nat_hdl_of IPA_NAT_MEM_IN_SRAM h"
  shows "\<exists>out sy' w'. ipa_nati_del_ipv4_rule os h r sy w = Some ((0, out), sy', w') \<and> hybrid_deleted m sy r sy'"
  unfolding ipa_nati_del_ipv4_rule_def numeral_3_eq_3
proof (rule sm_call [OF ok hybrid_sysD(1,3) [OF S]])
  let ?sm = "ipa_nati_statemach (Suc (Suc 0)) os"
  fix w1
  have m: "CHOOSE_MEM_SUB (sy_obj sy) = m" using st by (cases m) (simp_all add: mem_state_def CHOOSE_MEM_SUB_def)
  have hh: "nat_hdl_of m (hybrid_hdl (sy_obj sy) h)"
    using st h hybrid_sysD(2) [OF S, of m] by (cases m) (simp_all add: mem_state_def hybrid_hdl_def mem_hdl_def)
  have cb: "sm_cb (state_mach_tbl (no_curr_state (sy_obj sy)) NATI_TRIG_DEL_RULE) ?sm os NATI_TRIG_DEL_RULE (A_DelRule h r) sy w1 =
      smDelRuleHybrid ?sm os (A_DelRule h r) sy w1"
    by (cases m) (simp_all add: st mem_state_def state_mach_tbl_def sm_cb_def)
  show "\<exists>ret out sy2 w2. sm_cb (state_mach_tbl (no_curr_state (sy_obj sy)) NATI_TRIG_DEL_RULE) ?sm os NATI_TRIG_DEL_RULE
      (A_DelRule h r) sy w1 = Some ((ret, out), sy2, w2) \<and> hybrid_deleted m sy r sy2"
  proof (cases "client_view m sy r")
    case None
    then have "hybrid_deleted m sy r sy" using S by (simp add: hybrid_deleted_def)
    then show ?thesis unfolding cb hybrid_del_unknown [OF H m None] by blast
  next
    case (Some k)
    obtain s1 w2 where D: "smDelRuleHybrid ?sm os (A_DelRule h r) sy w1 =
      (if no_curr_state (sy_obj s1) = NATI_STATE_HYBRID_DDR \<and> \<not> no_hold_state (sy_obj s1) \<and>
          no_tot_rules_in_table (sy_obj s1) m \<le> no_back_to_sram_thresh (sy_obj s1)
       then do { ((ret, _), sy, w) \<leftarrow> ?sm NATI_TRIG_TBL_SWITCH A_Null s1 w2;
            Some ((0, Out_None), if ret = 0 then upd_obj (SET_NATIOBJ_STATE NATI_STATE_HYBRID) sy else sy, w) }
       else Some ((0, Out_None), s1, w2))"
      "hybrid_inv m s1" "client_view m s1 = (client_view m sy)(r := None)" "nat_only m (sy_drv sy) (sy_drv s1)"
      "sy_mutex_init s1 = sy_mutex_init sy" "same_obj (sy_obj sy) (sy_obj s1)" "rule_count m s1 = rule_count m sy - 1"
      using hybrid_del_stage [OF H m nat_os_okD(1,2) [OF ok] hh, of r ?sm w1] Some by auto
    have S1: "hybrid_sys s1" using hybrid_sys_only [OF S _ D(4,6,5)] D(2) by (simp add: hybrid_inv_def)
    have st1: "no_curr_state (sy_obj s1) = mem_state m" using D(6) st by (simp add: same_obj_def)
    have left: "hybrid_left m sy r s1" using D(2-4,7) by (simp add: hybrid_left_def)
    have cond: "(no_curr_state (sy_obj s1) = NATI_STATE_HYBRID_DDR \<and> \<not> no_hold_state (sy_obj s1) \<and>
        no_tot_rules_in_table (sy_obj s1) m \<le> no_back_to_sram_thresh (sy_obj s1)) \<longleftrightarrow>
      (m = IPA_NAT_MEM_IN_DDR \<and> \<not> no_hold_state (sy_obj sy) \<and> rule_count m sy - 1 \<le> no_back_to_sram_thresh (sy_obj sy))"
      using st1 D(6,7) by (cases m) (simp_all add: mem_state_def same_obj_def)
    show ?thesis
    proof (cases "no_curr_state (sy_obj s1) = NATI_STATE_HYBRID_DDR \<and> \<not> no_hold_state (sy_obj s1) \<and>
          no_tot_rules_in_table (sy_obj s1) m \<le> no_back_to_sram_thresh (sy_obj s1)")
      case False
      have "smDelRuleHybrid ?sm os (A_DelRule h r) sy w1 = Some ((0, Out_None), s1, w2)" unfolding D(1) if_not_P [OF False] ..
      moreover have "hybrid_deleted m sy r s1"
        unfolding hybrid_deleted_def if_not_P [OF False [unfolded cond]] using left S1 st1 Some by simp
      ultimately show ?thesis using cb by auto
    next
      case True
      then have md: "m = IPA_NAT_MEM_IN_DDR" using st1 by (cases m) (simp_all add: mem_state_def)
      obtain out s2 w3 where sw: "?sm NATI_TRIG_TBL_SWITCH A_Null s1 w2 = Some ((0, out), s2, w3)" "switched m s1 s2"
        using sm_switch_ok [OF ok D(2) S1 st1, of 0 w2] by blast
      define s3 where "s3 = upd_obj (SET_NATIOBJ_STATE NATI_STATE_HYBRID) s2"
      have s23: "same_sys s2 s3" unfolding s3_def
        by (rule upd_obj_frame) (simp_all add: SET_NATIOBJ_STATE_def mem_hdl_def split: ipa3_nat_mem_in.split)
      have "smDelRuleHybrid ?sm os (A_DelRule h r) sy w1 = Some ((0, Out_None), s3, w3)"
        unfolding D(1) if_P [OF True] using sw(1) by (simp add: s3_def del: ipa_nati_statemach.simps)
      moreover have "hybrid_deleted m sy r s3"
      proof -
        have "hybrid_sys s3" using same_sysD(4) [OF s23] sw(2) by (simp add: switched_def)
        moreover have "moved m s1 s3" using sw(2) by (simp add: switched_def same_dest [OF s23])
        moreover have "no_curr_state (sy_obj s3) = NATI_STATE_HYBRID" by (simp add: s3_def state_chosen)
        ultimately show ?thesis using True [unfolded cond] left Some unfolding hybrid_deleted_def by auto
      qed
      ultimately show ?thesis unfolding cb by blast
    qed
  qed
next
  fix out sy2 assume "hybrid_deleted m sy r sy2"
  then show "nat_inv IPA_NAT_MEM_IN_SRAM (sy_drv sy2) \<and> sy_mutex_init sy2" by (simp add: hybrid_deleted_def hybrid_sys_def)
qed

end
