(* ===== verification/Ipa_Nat_Hybrid_Props.thy ===== *)
theory Ipa_Nat_Hybrid_Props
  imports Ipa_Nat_Switch Ipa_Nat_Props
begin

text \<open>
  The properties of the hybrid mode: the client's handles name the same rules whichever table is in use.
\<close>

section \<open>A concrete system with both tables\<close>

definition nat_demo_two :: nat_state where
  "nat_demo_two = fst (snd (the (ipa_NATI_add_ipv4_tbl (sim_os nat_sim_dma) IPA_NAT_MEM_IN_SRAM nat_demo_ip 5 nat_demo_st ())))"

abbreviation (input) nat_demo_sram :: uint32 where "nat_demo_sram \<equiv> MAKE_TBL_HDL 1 IPA_NAT_MEM_IN_SRAM"

lemma nat_inv_other: "nat_inv m st \<Longrightarrow> ns_cache st' m = ns_cache st m \<Longrightarrow> length (ns_pdns st') = 16 \<Longrightarrow> nat_inv m st'"
  by (simp add: nat_inv_def nat_table_of_def)

lemma nat_demo_st_sram: "ns_cache nat_demo_st IPA_NAT_MEM_IN_SRAM = ns_cache nat_initial IPA_NAT_MEM_IN_SRAM"
  "length (ns_pdns nat_demo_st) = 16"
proof -
  obtain h st where st: "ipa_NATI_add_ipv4_tbl (sim_os nat_sim_dma) IPA_NAT_MEM_IN_DDR nat_demo_ip 5 nat_initial () = Some ((0, h), st, ())"
    using nat_demo_ret [of nat_initial IPA_NAT_MEM_IN_DDR] by (auto simp: nat_initial_def)
  show "ns_cache nat_demo_st IPA_NAT_MEM_IN_SRAM = ns_cache nat_initial IPA_NAT_MEM_IN_SRAM" "length (ns_pdns nat_demo_st) = 16"
    using nat_add_tbl [OF nat_sim_alloc_spec nat_idle_initial, of IPA_NAT_MEM_IN_DDR nat_demo_ip 5 "()"] st
    by (auto simp: nat_demo_st_def)
qed

lemma nat_demo_two:
  "nat_inv IPA_NAT_MEM_IN_DDR nat_demo_two" "nat_inv IPA_NAT_MEM_IN_SRAM nat_demo_two" "nat_rules m nat_demo_two = Map.empty"
  "nat_accepts nat_demo_two (nat_demo_rule p)" "nat_hdl_of IPA_NAT_MEM_IN_SRAM nat_demo_sram"
proof -
  obtain h st where st: "ipa_NATI_add_ipv4_tbl (sim_os nat_sim_dma) IPA_NAT_MEM_IN_SRAM nat_demo_ip 5 nat_demo_st () = Some ((0, h), st, ())"
    using nat_demo_ret [OF nat_demo_st_sram] by blast
  have i: "nat_idle IPA_NAT_MEM_IN_SRAM nat_demo_st"
    using nat_idle_initial [of IPA_NAT_MEM_IN_SRAM] by (simp add: nat_idle_def nat_table_of_def nat_demo_st_sram)
  have S: "nat_inv IPA_NAT_MEM_IN_SRAM st" "nat_rules IPA_NAT_MEM_IN_SRAM st = Map.empty" "length (ns_pdns st) = 16"
      "pdn_public_ip (ns_pdns st ! 0) = nat_demo_ip" "ns_cache st IPA_NAT_MEM_IN_DDR = ns_cache nat_demo_st IPA_NAT_MEM_IN_DDR"
    using nat_add_tbl [OF nat_sim_alloc_spec i, of nat_demo_ip 5 "()"] st by auto
  show "nat_inv IPA_NAT_MEM_IN_DDR nat_demo_two" "nat_inv IPA_NAT_MEM_IN_SRAM nat_demo_two"
    "nat_accepts nat_demo_two (nat_demo_rule p)"
    using S nat_inv_other [OF nat_demo_inv(1) S(5)] by (simp_all add: nat_demo_two_def st nat_accepts_def nat_demo_rule_def)
  show "nat_rules m nat_demo_two = Map.empty"
    using S nat_demo_inv(2) by (cases m) (simp_all add: nat_demo_two_def st nat_rules_def nat_table_of_def)
  show "nat_hdl_of IPA_NAT_MEM_IN_SRAM nat_demo_sram"
    by (simp add: nat_hdl_of_def VALID_TBL_HDL_def BREAK_TBL_HDL_def MAKE_TBL_HDL_def)
qed

text \<open>Both tables are there and empty, and the one in memory \<open>m\<close> is in use.\<close>

definition hybrid_demo :: "ipa3_nat_mem_in \<Rightarrow> nat_sys" where
  "hybrid_demo m = nat_sys_initial\<lparr>sy_drv := nat_demo_two, sy_mutex_init := True,
     sy_obj := nati_obj_initial\<lparr>no_curr_state := mem_state m, no_ddr_tbl_hdl := 1, no_sram_tbl_hdl := nat_demo_sram\<rparr>\<rparr>"

lemma hybrid_demo:
  "hybrid_inv k (hybrid_demo m)" "client_view k (hybrid_demo m) = Map.empty" "sy_drv (hybrid_demo m) = nat_demo_two"
  "sy_maps (hybrid_demo m) = (\<lambda>_. Map.empty)" "rule_count k (hybrid_demo m) = 0" "\<not> no_hold_state (sy_obj (hybrid_demo m))"
  "no_back_to_sram_thresh (sy_obj (hybrid_demo m)) = 0"
proof -
  show d: "sy_drv (hybrid_demo m) = nat_demo_two" "sy_maps (hybrid_demo m) = (\<lambda>_. Map.empty)" "rule_count k (hybrid_demo m) = 0"
    "\<not> no_hold_state (sy_obj (hybrid_demo m))" "no_back_to_sram_thresh (sy_obj (hybrid_demo m)) = 0"
    by (simp_all add: hybrid_demo_def nat_sys_initial_def nati_obj_initial_def)
  then show "client_view k (hybrid_demo m) = Map.empty" by (simp add: client_view_def fun_eq_iff)
  show "hybrid_inv k (hybrid_demo m)"
    using d nat_demo_two(1,2) by (cases k) (simp_all add: hybrid_inv_def nat_maps_ok_def nat_demo_two(3))
qed

lemma nat_sim_ok: "nat_os_ok (sim_os nat_sim_dma)"
  using nat_sim_dma_spec nat_sim_reliable(1) by (simp add: nat_os_ok_def sim_os_def)

lemma hybrid_demo_sys: "hybrid_sys (hybrid_demo m)" "no_curr_state (sy_obj (hybrid_demo m)) = mem_state m"
  "nat_accepts (sy_drv (hybrid_demo m)) (nat_demo_rule p)" "nat_room k (sy_drv (hybrid_demo m)) (nat_demo_rule p)"
proof -
  have "nat_inv k (sy_drv (hybrid_demo m))" for k using nat_demo_two(1,2) by (cases k) (simp_all add: hybrid_demo(3))
  moreover have "nat_hdl_of k (mem_hdl k (sy_obj (hybrid_demo m)))" for k
    using nat_demo_inv(4) nat_demo_two(5) by (cases k) (simp_all add: mem_hdl_def hybrid_demo_def)
  ultimately show "hybrid_sys (hybrid_demo m)" by (simp add: hybrid_sys_def hybrid_demo_def)
  show "no_curr_state (sy_obj (hybrid_demo m)) = mem_state m" by (simp add: hybrid_demo_def)
  show "nat_accepts (sy_drv (hybrid_demo m)) (nat_demo_rule p)" using nat_demo_two(4) by (simp add: hybrid_demo(3))
  have "nat_inv k nat_demo_two" using nat_demo_two(1,2) by (cases k) simp_all
  then show "nat_room k (sy_drv (hybrid_demo m)) (nat_demo_rule p)" using nat_empty_room [OF _ nat_demo_two(3)] by (simp add: hybrid_demo(3))
qed

text \<open>The state after one rule has been added.\<close>

definition hybrid_demo_added :: "ipa3_nat_mem_in \<Rightarrow> uint32 \<times> nat_sys" where
  "hybrid_demo_added m = (case the (ipa_nati_add_ipv4_rule (sim_os nat_sim_dma) nat_demo_sram (nat_demo_rule 80) True (hybrid_demo m) ()) of
     ((_, Out_Val h), sy, _) \<Rightarrow> (h, sy))"

abbreviation (input) nat_demo_key :: ipa_nat_rule where
  "nat_demo_key \<equiv> nat_ukey (ns_pdns nat_demo_two, nat_demo_rule 80)"

lemma hybrid_demo_added:
  "hybrid_inv m (snd (hybrid_demo_added m))" "hybrid_sys (snd (hybrid_demo_added m))"
  "client_view m (snd (hybrid_demo_added m)) = [fst (hybrid_demo_added m) \<mapsto> nat_demo_key]"
  "no_curr_state (sy_obj (snd (hybrid_demo_added m))) = mem_state m"
  "ns_pdns (sy_drv (snd (hybrid_demo_added m))) = ns_pdns nat_demo_two"
  "rule_count m (snd (hybrid_demo_added m)) = 1" "\<not> no_hold_state (sy_obj (snd (hybrid_demo_added m)))"
  "no_back_to_sram_thresh (sy_obj (snd (hybrid_demo_added m))) = 0"
proof -
  obtain out sy' w' where A: "ipa_nati_add_ipv4_rule (sim_os nat_sim_dma) nat_demo_sram (nat_demo_rule 80) True (hybrid_demo m) () =
        Some ((0, out), sy', w')" "hybrid_added m (hybrid_demo m) (nat_demo_rule 80) out sy'" "hybrid_sys sy'"
    using sm_add_here [OF nat_sim_ok hybrid_demo(1) hybrid_demo_sys(1,2,3) nat_demo_two(5), of m 80 2 "()"] hybrid_demo_sys(4)
    by (auto simp: ipa_nati_add_ipv4_rule_def numeral_3_eq_3 numeral_2_eq_2 simp del: ipa_nati_statemach.simps)
  then show "hybrid_inv m (snd (hybrid_demo_added m))" "hybrid_sys (snd (hybrid_demo_added m))"
    "client_view m (snd (hybrid_demo_added m)) = [fst (hybrid_demo_added m) \<mapsto> nat_demo_key]"
    "no_curr_state (sy_obj (snd (hybrid_demo_added m))) = mem_state m"
    "ns_pdns (sy_drv (snd (hybrid_demo_added m))) = ns_pdns nat_demo_two"
    "rule_count m (snd (hybrid_demo_added m)) = 1" "\<not> no_hold_state (sy_obj (snd (hybrid_demo_added m)))"
    "no_back_to_sram_thresh (sy_obj (snd (hybrid_demo_added m))) = 0"
    using hybrid_demo_sys(2,4) hybrid_demo(5-7)
    by (auto simp: hybrid_demo_added_def hybrid_added_def Let_def hybrid_demo(2-4) nat_only_def same_obj_def)
qed

section \<open>Properties\<close>

text \<open>C1: Adding a rule in the hybrid mode, through the state machine, when the system answers its requests.
  The call returns 0 in every case; what it does is settled by the state before it, in three cases.
  (1) There is room in the table in use: the rule is put into it under the handle that is returned, the
  count of rules goes up by one, and the client's view gains the rule under that handle, unless the client
  already holds another rule under it (handles given out before a migration): then the view stays as it
  is and the maps no longer lead to every rule.
  (2) There is no room, and the rules are in DDR or the state is held: handle 0 is returned, and the
  client's view and the count stay as they are.
  (3) There is no room in SRAM and the state is not held: the rules move to DDR, which becomes the table
  in use, and then (1) or (2) applies there.  The move takes all rules when DDR has expansion slots for all
  of them and their PDNs are accepted; otherwise it can also stop at a rule for which the DDR table, with
  exactly the rules copied before it, has no room or whose PDN is not accepted.\<close>

theorem hybrid_add_rule:
  assumes "nat_os_ok os" "hybrid_inv m sy" "hybrid_sys sy" "no_curr_state (sy_obj sy) = mem_state m"
    "nat_hdl_of IPA_NAT_MEM_IN_SRAM h" "nat_accepts (sy_drv sy) u"
  shows "\<exists>out sy' w'. ipa_nati_add_ipv4_rule os h u True sy w = Some ((0, out), sy', w') \<and> hybrid_sys sy' \<and>
    (if nat_room m (sy_drv sy) u \<or> m = IPA_NAT_MEM_IN_DDR \<or> no_hold_state (sy_obj sy)
     then hybrid_added m sy u out sy' \<and> no_curr_state (sy_obj sy') = mem_state m
     else no_curr_state (sy_obj sy') = NATI_STATE_HYBRID_DDR \<and>
       (\<exists>s. moved m sy s \<and> hybrid_added IPA_NAT_MEM_IN_DDR s u out sy'))"
proof (cases "nat_room m (sy_drv sy) u \<or> m = IPA_NAT_MEM_IN_DDR \<or> no_hold_state (sy_obj sy)")
  case True
  then show ?thesis
    unfolding ipa_nati_add_ipv4_rule_def numeral_3_eq_3 using sm_add_here [OF assms(1-4,6,5) True, of "Suc (Suc 0)" w] by auto
next
  case False
  then have m: "m = IPA_NAT_MEM_IN_SRAM" by (cases m) simp_all
  show ?thesis
    using sm_overflow [OF assms(1) _ assms(3) _ _ assms(5,6), of w] assms(2,4) False
    by (simp add: m mem_state_def)
qed

lemma hybrid_add_rule_witness:
  "\<exists>out sy' w'. ipa_nati_add_ipv4_rule (sim_os nat_sim_dma) nat_demo_sram (nat_demo_rule 80) True (hybrid_demo IPA_NAT_MEM_IN_SRAM) () = Some ((0, out), sy', w') \<and>
     hybrid_added IPA_NAT_MEM_IN_SRAM (hybrid_demo IPA_NAT_MEM_IN_SRAM) (nat_demo_rule 80) out sy'"
  using hybrid_add_rule [OF nat_sim_ok hybrid_demo(1) hybrid_demo_sys(1,2) nat_demo_two(5) hybrid_demo_sys(3), of 80 IPA_NAT_MEM_IN_SRAM "()"]
    hybrid_demo_sys(4) by auto

text \<open>C3: Deleting a rule in the hybrid mode by the client's handle, through the state machine.  An unknown
  handle changes nothing at all.  Otherwise the client's view loses exactly that handle, whatever
  migrations the rule has been through, and the count of rules goes down by one.  The rules then move back
  to SRAM exactly when they are in DDR, the state is not held and the count that is left is at most
  the threshold: all of them when SRAM has expansion slots for all and their PDNs are accepted, and
  otherwise up to a rule for which the SRAM table, with exactly the rules copied before it, has no room or
  whose PDN is not accepted.  In every other case the table in use stays the one it was.\<close>

theorem hybrid_del_rule:
  assumes "nat_os_ok os" "hybrid_inv m sy" "hybrid_sys sy" "no_curr_state (sy_obj sy) = mem_state m" "nat_hdl_of IPA_NAT_MEM_IN_SRAM h"
  shows "\<exists>out sy' w'. ipa_nati_del_ipv4_rule os h r sy w = Some ((0, out), sy', w') \<and> hybrid_deleted m sy r sy'"
  using sm_del [OF assms] .

lemma hybrid_del_rule_witness:
  "\<exists>out sy' w'. ipa_nati_del_ipv4_rule (sim_os nat_sim_dma) nat_demo_sram (fst (hybrid_demo_added IPA_NAT_MEM_IN_DDR))
       (snd (hybrid_demo_added IPA_NAT_MEM_IN_DDR)) () = Some ((0, out), sy', w') \<and>
     no_curr_state (sy_obj sy') = NATI_STATE_HYBRID"
  using hybrid_del_rule [OF nat_sim_ok hybrid_demo_added(1,2,4) nat_demo_two(5), of "fst (hybrid_demo_added IPA_NAT_MEM_IN_DDR)"
      IPA_NAT_MEM_IN_DDR "()"]
  by (auto simp: hybrid_deleted_def hybrid_demo_added(3,6-8))





text \<open>A rule that is read back from its record and added again while the PDNs are the same gets the
  same record: moving it between SRAM and DDR any number of times loses nothing but the flags, the
  links and the time stamp.\<close>

theorem migrated_rule_same:
  assumes "length pdns = IPA_MAX_PDN_NUM" "unat (v4_pdn_index u) < IPA_MAX_PDN_NUM"
  shows "\<exists>k. nat_table_entry_copy_from_user nat_rule_zero (pdns, u) = Some (0, k) \<and>
    nat_table_entry_copy_from_user nat_rule_zero (pdns, rule_of_record k) = Some (0, k)"
proof -
  have g: "nat_good (pdns, u)" using assms by (simp add: nat_good_def)
  have d: "nat_good v \<Longrightarrow> nat_table_entry_copy_from_user nat_rule_zero v = Some (0, nat_ukey v)" for v
    by (cases v) (simp add: nat_ukey_def nat_good_def nat_table_entry_copy_from_user_def arr_get_def Let_def)
  show ?thesis
    using d [OF g] d [OF rule_of_record_good [OF assms(1)]] copy_rule_of_record [OF g] assms(2) by auto
qed

lemma migrated_rule_same_witness:
  "\<exists>k. nat_table_entry_copy_from_user nat_rule_zero (ns_pdns nat_initial, nat_demo_rule 80) = Some (0, k) \<and>
     nat_table_entry_copy_from_user nat_rule_zero (ns_pdns nat_initial, rule_of_record k) = Some (0, k)"
  using migrated_rule_same [of "ns_pdns nat_initial" "nat_demo_rule 80"] by (simp add: nat_initial_def nat_demo_rule_def)

end
