(* ===== verification/Ipa_Nat_Machine_Props.thy ===== *)
theory Ipa_Nat_Machine_Props
  imports Ipa_Nat_Drv Ipa_Nat_Hybrid Ipa_Nat_Props
begin

text \<open>
  The properties of the NAT state machine and of the public API above it.
\<close>

section \<open>Calls on a table in DDR\<close>

text \<open>In DDR a call takes the mutex, runs the handler and gives the mutex back.\<close>

lemma sm_ddr:
  assumes "no_curr_state (sy_obj sy) = NATI_STATE_DDR_ONLY" "sy_mutex_init sy" "t \<in> {NATI_TRIG_ADD_RULE, NATI_TRIG_DEL_RULE}"
    "os_lock os w = (0, w1)" "sm_cb (state_mach_tbl NATI_STATE_DDR_ONLY t) (ipa_nati_statemach n os) os t args sy w1 = Some ((r, out), sy2, w2)"
    "sy_mutex_init sy2" "os_unlock os w2 = (0, w3)"
  shows "ipa_nati_statemach (Suc n) os t args sy w = Some ((0, out), sy2, w3)"
proof -
  have v: "\<not> VOTE_REQUIRED (sy_obj sy) t"
    using assms(1,3) by (auto simp: VOTE_REQUIRED_def SRAM_TO_BE_ACCESSED_def SRAM_CURRENTLY_ACTIVE_def)
  show ?thesis
    using assms v by (simp add: take_mutex_def give_mutex_def)
qed

lemma reliable_locks:
  assumes "nat_reliable os"
  obtains w1 where "os_lock os w = (0, w1)"
  using nat_reliableD(1) [OF assms] by (metis surj_pair)

lemma reliable_unlocks:
  assumes "nat_reliable os"
  obtains w1 where "os_unlock os w = (0, w1)"
  using nat_reliableD(2) [OF assms] by (metis surj_pair)

lemma ddr_add:
  assumes I: "nat_inv IPA_NAT_MEM_IN_DDR (sy_drv sy)" and spec: "nat_dma_spec os" "nat_reliable os"
    and st: "no_curr_state (sy_obj sy) = NATI_STATE_DDR_ONLY" "sy_mutex_init sy"
    and h: "nat_hdl_of IPA_NAT_MEM_IN_DDR h" and u: "nat_accepts (sy_drv sy) u"
  shows "\<exists>hdl sy' w'. ipa_nat_add_ipv4_rule os h (Some u) True sy w = Some ((0, Out_Val hdl), sy', w') \<and>
    nat_inv IPA_NAT_MEM_IN_DDR (sy_drv sy') \<and> no_curr_state (sy_obj sy') = NATI_STATE_DDR_ONLY \<and> sy_mutex_init sy' \<and>
    (if nat_room IPA_NAT_MEM_IN_DDR (sy_drv sy) u
     then (\<exists>s. s \<noteq> 0 \<and> nat_rules IPA_NAT_MEM_IN_DDR (sy_drv sy) s = None \<and>
        nat_rules IPA_NAT_MEM_IN_DDR (sy_drv sy') =
          (nat_rules IPA_NAT_MEM_IN_DDR (sy_drv sy))(s \<mapsto> nat_ukey (ns_pdns (sy_drv sy), u)) \<and>
        hdl = nat_handle IPA_NAT_MEM_IN_DDR (sy_drv sy) s)
     else nat_rules IPA_NAT_MEM_IN_DDR (sy_drv sy') = nat_rules IPA_NAT_MEM_IN_DDR (sy_drv sy) \<and> hdl = 0)"
proof -
  obtain w1 where w1: "os_lock os w = (0, w1)" using reliable_locks [OF spec(2)] .
  have V: "VALID_TBL_HDL h" using h by (simp add: nat_hdl_of_def)
  have g: "nat_good (ns_pdns (sy_drv sy), u)" using u I by (simp add: nat_good_def nat_accepts_def nat_inv_def)
  obtain ret hdl d w2 where A: "ipa_NATI_add_ipv4_rule os h (Some (clear_internal u)) True (sy_drv sy) w1 = Some ((ret, Some hdl), d, w2)"
      "nat_inv IPA_NAT_MEM_IN_DDR d"
      "(\<exists>s. s \<noteq> 0 \<and> nat_rules IPA_NAT_MEM_IN_DDR (sy_drv sy) s = None \<and>
        nat_rules IPA_NAT_MEM_IN_DDR d = (nat_rules IPA_NAT_MEM_IN_DDR (sy_drv sy))(s \<mapsto> nat_ukey (ns_pdns (sy_drv sy), u)) \<and>
        (ret, hdl) \<in> {(0, nat_handle IPA_NAT_MEM_IN_DDR (sy_drv sy) s), (- EPERM, 0)}) \<or>
      (nat_rules IPA_NAT_MEM_IN_DDR d = nat_rules IPA_NAT_MEM_IN_DDR (sy_drv sy) \<and> hdl = 0 \<and> ret \<in> {- 1, - EIO, - EINVAL})"
      "ret = 0 \<longleftrightarrow> nat_room IPA_NAT_MEM_IN_DDR (sy_drv sy) u"
      "ret \<noteq> 0 \<longrightarrow> nat_rules IPA_NAT_MEM_IN_DDR d = nat_rules IPA_NAT_MEM_IN_DDR (sy_drv sy)"
    using nat_add_rule [OF I spec(1) h, of "clear_internal u" w1] u spec(2)
    unfolding clear_internal_same clear_internal_same(3) [OF g] by blast
  define sy2 where "sy2 = (if ret = 0 then upd_obj (count_rule (\<lambda>n. n + 1)) (set_drv d sy) else set_drv d sy)"
  have sy2: "sy_drv sy2 = d" "no_curr_state (sy_obj sy2) = NATI_STATE_DDR_ONLY" "sy_mutex_init sy2"
    using st by (simp_all add: sy2_def upd_obj_def set_drv_def count_rule_def Let_def)
  obtain w3 where w3: "os_unlock os w2 = (0, w3)" using reliable_unlocks [OF spec(2)] .
  have cb: "sm_cb (state_mach_tbl NATI_STATE_DDR_ONLY NATI_TRIG_ADD_RULE) (ipa_nati_statemach 2 os) os
      NATI_TRIG_ADD_RULE (A_AddRule h u True) sy w1 = Some ((ret, Out_Val hdl), sy2, w2)"
    using A(1) by (simp add: state_mach_tbl_def sm_cb_def smAddRuleToTbl_def out_opt_def sy2_def)
  have "ipa_nati_add_ipv4_rule os h u True sy w = Some ((0, Out_Val hdl), sy2, w3)"
    using sm_ddr [OF st _ w1 cb sy2(3) w3]
    by (simp add: ipa_nati_add_ipv4_rule_def numeral_3_eq_3 numeral_2_eq_2 del: ipa_nati_statemach.simps)
  then have "ipa_nat_add_ipv4_rule os h (Some u) True sy w = Some ((0, Out_Val hdl), sy2, w3)"
    using V by (simp add: ipa_nat_add_ipv4_rule_def)
  then show ?thesis using A(2-5) sy2 by auto
qed

section \<open>Properties\<close>

text \<open>C40: Handlers run further triggers, but the nesting is bounded: with depth 3, the depth of the model,
  every call of the machine has the result it has with any greater depth, whatever its state, the
  trigger and the arguments.\<close>

theorem statemach_depth_bound:
  "ipa_nati_statemach (STATEMACH_DEPTH + n) os t args sy w = ipa_nati_statemach STATEMACH_DEPTH os t args sy w"
  using sm_depth [of n os t args sy w 0] by (simp only: numeral_3_eq_3 add_Suc add_0)

text \<open>The machine returns what giving the mutex back returns: whatever handler has run, and whatever error
  it has reported, the caller sees 0 when the locks work.\<close>

theorem statemach_hides_errors:
  assumes "\<And>w. fst (os_lock os w) = 0" "\<And>w. fst (os_unlock os w) = 0" "\<And>w. fst (os_mutex_init os w) = 0"
    "ipa_nati_statemach n os t args sy w = Some ((ret, out), sy', w')" "sy_mutex_init sy'"
  shows "ret = 0"
  using sm_result [OF assms] .

lemma statemach_hides_errors_witness:
  "smUndef (sim_os nat_sim_dma) (A_DelRule 1 1) nat_sys_initial () = Some ((- 1, Out_None), nat_sys_initial, ()) \<and>
   (\<exists>ret out sy'. ipa_nati_del_ipv4_rule (sim_os nat_sim_dma) 1 1 nat_sys_initial () = Some ((ret, out), sy', ()) \<and> ret = 0)"
proof -
  have l: "fst (os_lock (sim_os nat_sim_dma) w) = 0" "fst (os_unlock (sim_os nat_sim_dma) w) = 0" "fst (os_mutex_init (sim_os nat_sim_dma) w) = 0" for w
    by (simp_all add: sim_os_def)
  obtain ret out sy' where r: "ipa_nati_del_ipv4_rule (sim_os nat_sim_dma) 1 1 nat_sys_initial () = Some ((ret, out), sy', ())" "sy_mutex_init sy'"
    by (simp add: ipa_nati_del_ipv4_rule_def numeral_3_eq_3 take_mutex_def mutex_init_def nat_sys_initial_def nati_obj_initial_def sim_os_def
        VOTE_REQUIRED_def SRAM_TO_BE_ACCESSED_def SRAM_CURRENTLY_ACTIVE_def state_mach_tbl_def sm_cb_def smUndef_def give_mutex_def)
  have "ret = 0" using statemach_hides_errors [OF l r(1) [unfolded ipa_nati_del_ipv4_rule_def] r(2)] .
  then show ?thesis using r(1) by (simp add: smUndef_def)
qed

text \<open>Adding a rule through the public API when the table is in DDR only.  The call reports success in
  every case; if there is room exactly the client's rule appears at an empty slot and its handle is
  returned, and otherwise the rules are unchanged and the handle is 0, which is all a client can tell
  the failure by.\<close>

theorem api_ddr_add_rule:
  assumes "nat_inv IPA_NAT_MEM_IN_DDR (sy_drv sy)" "nat_dma_spec os" "nat_reliable os"
    "no_curr_state (sy_obj sy) = NATI_STATE_DDR_ONLY" "sy_mutex_init sy" "nat_hdl_of IPA_NAT_MEM_IN_DDR h" "nat_accepts (sy_drv sy) u"
  shows "\<exists>hdl sy' w'. ipa_nat_add_ipv4_rule os h (Some u) True sy w = Some ((0, Out_Val hdl), sy', w') \<and>
    nat_inv IPA_NAT_MEM_IN_DDR (sy_drv sy') \<and> no_curr_state (sy_obj sy') = NATI_STATE_DDR_ONLY \<and> sy_mutex_init sy' \<and>
    (if nat_room IPA_NAT_MEM_IN_DDR (sy_drv sy) u
     then (\<exists>s. s \<noteq> 0 \<and> nat_rules IPA_NAT_MEM_IN_DDR (sy_drv sy) s = None \<and>
        nat_rules IPA_NAT_MEM_IN_DDR (sy_drv sy') =
          (nat_rules IPA_NAT_MEM_IN_DDR (sy_drv sy))(s \<mapsto> nat_ukey (ns_pdns (sy_drv sy), u)) \<and>
        hdl = nat_handle IPA_NAT_MEM_IN_DDR (sy_drv sy) s)
     else nat_rules IPA_NAT_MEM_IN_DDR (sy_drv sy') = nat_rules IPA_NAT_MEM_IN_DDR (sy_drv sy) \<and> hdl = 0)"
  using ddr_add [OF assms] .

lemma api_ddr_add_rule_witness:
  "\<exists>hdl sy' w'. ipa_nat_add_ipv4_rule (sim_os nat_sim_dma) 1 (Some (nat_demo_rule 80)) True
     (nat_sys_initial\<lparr>sy_drv := nat_demo_st, sy_mutex_init := True, sy_obj := nati_obj_initial\<lparr>no_curr_state := NATI_STATE_DDR_ONLY\<rparr>\<rparr>) () =
     Some ((0, Out_Val hdl), sy', w') \<and> nat_rules IPA_NAT_MEM_IN_DDR (sy_drv sy') \<noteq> Map.empty"
proof -
  define sy where "sy = nat_sys_initial\<lparr>sy_drv := nat_demo_st, sy_mutex_init := True,
      sy_obj := nati_obj_initial\<lparr>no_curr_state := NATI_STATE_DDR_ONLY\<rparr>\<rparr>"
  have s: "sy_drv sy = nat_demo_st" "no_curr_state (sy_obj sy) = NATI_STATE_DDR_ONLY" "sy_mutex_init sy" by (simp_all add: sy_def)
  have I: "nat_inv IPA_NAT_MEM_IN_DDR (sy_drv sy)" and u: "nat_accepts (sy_drv sy) (nat_demo_rule 80)"
    using nat_demo_inv(1,3) by (simp_all add: s(1))
  have room: "nat_room IPA_NAT_MEM_IN_DDR (sy_drv sy) (nat_demo_rule 80)" using nat_empty_room [OF nat_demo_inv(1,2)] by (simp add: s(1))
  obtain hdl sy' w' k where "ipa_nat_add_ipv4_rule (sim_os nat_sim_dma) 1 (Some (nat_demo_rule 80)) True sy () = Some ((0, Out_Val hdl), sy', w')"
      "nat_rules IPA_NAT_MEM_IN_DDR (sy_drv sy') k \<noteq> None"
    using api_ddr_add_rule [OF I nat_sim_dma_spec nat_sim_reliable(1) s(2,3) nat_demo_inv(4) u, of "()"]
    unfolding if_P [OF room] by fastforce
  then show ?thesis unfolding sy_def by (intro exI conjI) (assumption, auto)
qed

end
