(* ===== verification/Vidc_Mem.thy ===== *)
theory Vidc_Mem
  imports Ipa_Prelude
begin

text \<open>
  Memory shared with the video firmware: a buffer is its list of bytes, a pointer into it is the
  offset of the byte.  Reading, writing and copying outside the buffer is undefined.  A \<open>u32\<close> is four
  bytes, least significant first.  The second half is about rings: a buffer read and written
  modulo its length.
\<close>

abbreviation (input) ENOENT :: int where "ENOENT \<equiv> 2"
abbreviation (input) ENOTEMPTY :: int where "ENOTEMPTY \<equiv> 39"
abbreviation (input) ENODATA :: int where "ENODATA \<equiv> 61"
abbreviation (input) E2BIG :: int where "E2BIG \<equiv> 7"

section \<open>Words in memory\<close>

definition u32_bytes :: "uint32 \<Rightarrow> uint8 list" where
  "u32_bytes v = [ucast v, ucast (drop_bit 8 v), ucast (drop_bit 16 v), ucast (drop_bit 24 v)]"

definition u32_of_bytes :: "uint8 list \<Rightarrow> uint32" where
  "u32_of_bytes bs = ucast (bs ! 0) OR push_bit 8 (ucast (bs ! 1))
     OR push_bit 16 (ucast (bs ! 2)) OR push_bit 24 (ucast (bs ! 3))"

text \<open>The bytes \<open>off\<close> to \<open>off + n\<close>, and the assignment of bytes from \<open>off\<close> on.\<close>

definition slice :: "uint8 list \<Rightarrow> nat \<Rightarrow> nat \<Rightarrow> uint8 list" where
  "slice m off n = take n (drop off m)"

definition overwrite :: "uint8 list \<Rightarrow> nat \<Rightarrow> uint8 list \<Rightarrow> uint8 list" where
  "overwrite m off bs = take off m @ bs @ drop (off + length bs) m"

definition get_u32 :: "uint8 list \<Rightarrow> nat \<Rightarrow> uint32 option" where
  "get_u32 m off = (if off + 4 \<le> length m then Some (u32_of_bytes (slice m off 4)) else None)"

definition put_u32 :: "uint8 list \<Rightarrow> nat \<Rightarrow> uint32 \<Rightarrow> uint8 list option" where
  "put_u32 m off v = (if off + 4 \<le> length m then Some (overwrite m off (u32_bytes v)) else None)"

text \<open>\<open>memcpy (dst + doff, src + soff, n)\<close> and \<open>memset (dst + doff, 0, n)\<close>.\<close>

definition mem_copy :: "uint8 list \<Rightarrow> nat \<Rightarrow> uint8 list \<Rightarrow> nat \<Rightarrow> nat \<Rightarrow> uint8 list option" where
  "mem_copy dst doff src soff n =
    (if doff + n \<le> length dst \<and> soff + n \<le> length src then Some (overwrite dst doff (slice src soff n))
     else None)"

definition mem_zero :: "uint8 list \<Rightarrow> nat \<Rightarrow> nat \<Rightarrow> uint8 list option" where
  "mem_zero dst doff n = (if doff + n \<le> length dst then Some (overwrite dst doff (replicate n 0)) else None)"

named_theorems mem_simps

lemma length_u32_bytes [simp]: "length (u32_bytes v) = 4"
  by (simp add: u32_bytes_def)

lemma u32_of_bytes_bytes [simp]: "u32_of_bytes (u32_bytes v) = v"
proof (rule bit_word_eqI)
  fix n :: nat
  assume "n < LENGTH(32)"
  then consider "n < 8" | "8 \<le> n" "n < 16" | "16 \<le> n" "n < 24" | "24 \<le> n" "n < 32" by fastforce
  then show "bit (u32_of_bytes (u32_bytes v)) n = bit v n"
    by cases (auto simp: u32_of_bytes_def u32_bytes_def bit_or_iff bit_push_bit_iff bit_ucast_iff bit_drop_bit_eq)
qed

lemma length_slice [simp]: "length (slice m off n) = min n (length m - off)"
  by (simp add: slice_def)

lemma length_overwrite [simp]: "off + length bs \<le> length m \<Longrightarrow> length (overwrite m off bs) = length m"
  by (simp add: overwrite_def)

lemma get_u32_in [mem_simps]: "off + 4 \<le> length m \<Longrightarrow> get_u32 m off = Some (u32_of_bytes (slice m off 4))"
  by (simp add: get_u32_def)

lemma put_u32_in [mem_simps]: "off + 4 \<le> length m \<Longrightarrow> put_u32 m off v = Some (overwrite m off (u32_bytes v))"
  by (simp add: put_u32_def)

lemma mem_copy_in [mem_simps]:
  "doff + n \<le> length dst \<Longrightarrow> soff + n \<le> length src \<Longrightarrow>
    mem_copy dst doff src soff n = Some (overwrite dst doff (slice src soff n))"
  by (simp add: mem_copy_def)

lemma mem_copy_none [mem_simps]: "length dst < doff + n \<Longrightarrow> mem_copy dst doff src soff n = None"
  by (simp add: mem_copy_def)

lemma mem_zero_in [mem_simps]:
  "doff + n \<le> length dst \<Longrightarrow> mem_zero dst doff n = Some (overwrite dst doff (replicate n 0))"
  by (simp add: mem_zero_def)

lemma slice_eq_Nil: "slice m off n = [] \<longleftrightarrow> n = 0 \<or> length m \<le> off"
  by (simp add: slice_def)

lemma slice_all: "length m \<le> n \<Longrightarrow> slice m 0 n = m"
  by (simp add: slice_def)

lemma slice_append1 [simp]: "off + n \<le> length a \<Longrightarrow> slice (a @ b) off n = slice a off n"
  by (simp add: slice_def)

lemma slice_append2 [simp]: "length a \<le> off \<Longrightarrow> slice (a @ b) off n = slice b (off - length a) n"
  by (simp add: slice_def)

lemma slice_slice_0: "n \<le> k \<Longrightarrow> slice (slice m off k) 0 n = slice m off n"
  by (simp add: slice_def min_def)

lemma get_u32_append1 [simp]: "off + 4 \<le> length a \<Longrightarrow> get_u32 (a @ b) off = get_u32 a off"
  by (simp add: get_u32_def)

lemma get_u32_append2: "length a \<le> off \<Longrightarrow> get_u32 (a @ b) off = get_u32 b (off - length a)"
  by (auto simp: get_u32_def)

lemma get_u32_bytes [simp]: "get_u32 (u32_bytes v @ xs) 0 = Some v"
  by (simp add: get_u32_def slice_def)

lemma put_get_u32: "put_u32 m off v = Some m' \<Longrightarrow> get_u32 m' off = Some v"
  by (auto simp: put_u32_def get_u32_def overwrite_def slice_def min_def split: if_splits)

lemma get_u32_take: "4 \<le> n \<Longrightarrow> n \<le> length m \<Longrightarrow> get_u32 (take n m) 0 = get_u32 m 0"
  by (simp add: get_u32_def slice_def min_def)

section \<open>Arithmetic of sizes and offsets\<close>

lemma unat_push2: "unat x < 1073741824 \<Longrightarrow> unat (push_bit 2 x :: uint32) = 4 * unat x"
  by (simp add: push_bit_eq_mult unat_word_ariths)

lemma unat_drop2: "unat (drop_bit 2 x :: uint32) = unat x div 4"
  by (simp add: drop_bit_eq_div unat_div)

lemma unat32_less [simp]: "unat (x :: uint32) < 4294967296"
  using unsigned_less [of x] by simp

lemma unat_drop2_less: "unat (drop_bit 2 x :: uint32) < 1073741824"
  using unat32_less [of x] by (simp add: unat_drop2 less_mult_imp_div_less)

lemma unat_sub32: "b \<le> a \<Longrightarrow> unat (a - b :: uint32) = unat a - unat b"
  by (rule unat_sub)

lemma unat_add32: "unat a + unat b < 4294967296 \<Longrightarrow> unat (a + b :: uint32) = unat a + unat b"
  by (simp add: unat_word_ariths)

section \<open>Rings\<close>

text \<open>Writing bytes into a ring from position \<open>off\<close>, the part that does not fit going to the start.\<close>

definition ring_put :: "uint8 list \<Rightarrow> nat \<Rightarrow> uint8 list \<Rightarrow> uint8 list" where
  "ring_put m off bs =
    (let k = length m - off in
     if length bs < k then overwrite m off bs else overwrite (overwrite m off (take k bs)) 0 (drop k bs))"

text \<open>Reading them.\<close>

definition ring_get :: "uint8 list \<Rightarrow> nat \<Rightarrow> nat \<Rightarrow> uint8 list" where
  "ring_get m off n = take n (rotate off m)"

lemma rotate_split: "off \<le> length m \<Longrightarrow> rotate off m = drop off m @ take off m"
  by (cases "off = length m") (simp_all add: rotate_drop_take)

lemma length_ring_put: "off \<le> length m \<Longrightarrow> length bs \<le> length m \<Longrightarrow> length (ring_put m off bs) = length m"
  by (auto simp: ring_put_def overwrite_def Let_def)

lemma rotate_ring_put:
  assumes off: "off \<le> length m" and len: "length bs \<le> length m"
  shows "rotate off (ring_put m off bs) = bs @ drop (length bs) (rotate off m)"
proof (cases "length bs < length m - off")
  case True
  then show ?thesis using off
    by (simp add: ring_put_def overwrite_def rotate_split add.commute)
next
  case False
  define k where "k = length m - off"
  have "ring_put m off bs = drop k bs @ drop (length bs - k) (take off m @ take k bs)"
    using False off unfolding ring_put_def k_def overwrite_def Let_def by simp
  then show ?thesis using False off len unfolding k_def
    by (simp add: rotate_split length_ring_put)
qed

lemma ring_get_length [simp]: "n \<le> length m \<Longrightarrow> length (ring_get m off n) = n"
  by (simp add: ring_get_def)

text \<open>The bytes between two positions of a ring, and what a write behind them changes.\<close>

lemma ring_put_behind:
  assumes nb: "n + length bs \<le> length m" and w: "w = (r + n) mod length m" "w \<le> length m"
  shows "rotate r (ring_put m w bs) =
    take n (rotate r m) @ bs @ drop (n + length bs) (rotate r m)"
proof -
  let ?v = "rotate r m" and ?m = "ring_put m w bs"
  let ?v' = "rotate r ?m"
  have l: "length ?v = length m" "length ?v' = length m"
    using nb w(2) by (simp_all add: length_ring_put)
  have "rotate n ?v' = rotate w ?m"
    using l unfolding w(1) by (metis add.commute length_rotate rotate_conv_mod rotate_rotate)
  also have "\<dots> = bs @ drop (length bs) (rotate w m)"
    using nb w(2) by (simp add: rotate_ring_put)
  also have "rotate w m = rotate n ?v"
    unfolding w(1) by (metis add.commute rotate_conv_mod rotate_rotate)
  finally have e: "drop n ?v' @ take n ?v' = (bs @ drop (n + length bs) ?v) @ take n ?v"
    using nb l by (simp add: rotate_split add.commute)
  have "length (drop n ?v') = length (bs @ drop (n + length bs) ?v)"
    using nb l by simp
  with e have "drop n ?v' = bs @ drop (n + length bs) ?v \<and> take n ?v' = take n ?v"
    by (metis append_eq_append_conv)
  then show ?thesis
    by (metis append_take_drop_id)
qed

end
