(* ===== verification/Vidc_Hfi_Queue.thy ===== *)
theory Vidc_Hfi_Queue
  imports Vidc_Mem
begin

text \<open>
  The queues through which the video driver and the video firmware exchange packets:
  \<open>venus_hfi_queue.c\<close> and \<open>venus_hfi_queue.h\<close> of \<open>video-driver/driver/vidc\<close>.  A queue is a header and a
  ring of bytes, both in memory the firmware also reads and writes; the indices in the header count
  words of 32 bits.  Pointers into a ring are offsets in bytes, null pointers are \<open>None\<close>.  Printing is
  left out, and so are the memory barriers: a call is one step here.
\<close>

section \<open>Types and constants\<close>

abbreviation (input) HFI_Q_ID_HOST_TO_CTRL_CMD_Q :: uint32 where "HFI_Q_ID_HOST_TO_CTRL_CMD_Q \<equiv> 0"
abbreviation (input) HFI_Q_ID_CTRL_TO_HOST_MSG_Q :: uint32 where "HFI_Q_ID_CTRL_TO_HOST_MSG_Q \<equiv> 1"
abbreviation (input) HFI_Q_ID_CTRL_TO_HOST_DEBUG_Q :: uint32 where "HFI_Q_ID_CTRL_TO_HOST_DEBUG_Q \<equiv> 2"

abbreviation (input) VIDC_IFACEQ_CMDQ_IDX :: nat where "VIDC_IFACEQ_CMDQ_IDX \<equiv> 0"
abbreviation (input) VIDC_IFACEQ_MSGQ_IDX :: nat where "VIDC_IFACEQ_MSGQ_IDX \<equiv> 1"
abbreviation (input) VIDC_IFACEQ_DBGQ_IDX :: nat where "VIDC_IFACEQ_DBGQ_IDX \<equiv> 2"

definition VIDC_IFACEQ_NUMQ :: nat where "VIDC_IFACEQ_NUMQ = 3"
definition VIDC_IFACEQ_DFLT_QHDR :: uint32 where "VIDC_IFACEQ_DFLT_QHDR = 0x01010000"
definition VIDC_IFACEQ_VAR_HUGE_PKT_SIZE :: uint32 where "VIDC_IFACEQ_VAR_HUGE_PKT_SIZE = 1024 * 4"

text \<open>\<open>VIDC_IFACEQ_MAX_PKT_SIZE * VIDC_IFACEQ_MAX_BUF_COUNT * VIDC_IFACE_MAX_PARALLEL_CLNTS\<close>\<close>

definition VIDC_IFACEQ_QUEUE_SIZE :: uint32 where "VIDC_IFACEQ_QUEUE_SIZE = 1024 * 50 * 16"

record hfi_queue_header =
  qhdr_status :: uint32
  qhdr_start_addr :: uint32
  qhdr_type :: uint32
  qhdr_q_size :: uint32
  qhdr_pkt_size :: uint32
  qhdr_pkt_drop_cnt :: uint32
  qhdr_rx_wm :: uint32
  qhdr_tx_wm :: uint32
  qhdr_rx_req :: uint32
  qhdr_tx_req :: uint32
  qhdr_rx_irq_status :: uint32
  qhdr_tx_irq_status :: uint32
  qhdr_read_idx :: uint32
  qhdr_write_idx :: uint32

text \<open>The array of a queue, and a queue.\<close>

record q_array =
  align_device_addr :: uint32
  align_virtual_addr :: "uint8 list option"
  q_mem_size :: uint32

record msm_vidc_iface_q_info =
  q_hdr :: "hfi_queue_header option"
  q_arr :: q_array

section \<open>One queue\<close>

definition set_queue_hdr_defaults :: "hfi_queue_header \<Rightarrow> hfi_queue_header" where
  "set_queue_hdr_defaults q = q\<lparr>
    qhdr_status := 1,
    qhdr_type := VIDC_IFACEQ_DFLT_QHDR,
    qhdr_q_size := VIDC_IFACEQ_QUEUE_SIZE div 4,
    qhdr_pkt_size := 0,
    qhdr_rx_wm := 1,
    qhdr_tx_wm := 1,
    qhdr_rx_req := 1,
    qhdr_tx_req := 0,
    qhdr_rx_irq_status := 0,
    qhdr_tx_irq_status := 0,
    qhdr_read_idx := 0,
    qhdr_write_idx := 0\<rparr>"

text \<open>A queue after a call: its header, and the bytes of its array.\<close>

definition q_with :: "msm_vidc_iface_q_info \<Rightarrow> hfi_queue_header \<Rightarrow> uint8 list \<Rightarrow> msm_vidc_iface_q_info" where
  "q_with qinfo h base =
    qinfo\<lparr>q_hdr := Some h, q_arr := (q_arr qinfo)\<lparr>align_virtual_addr := Some base\<rparr>\<rparr>"

text \<open>
  \<open>__write_queue\<close>.  The sizes and offsets are \<open>u32\<close> and wrap around as they do in C: \<open>write_idx << 2\<close>
  before it is added to a pointer, and the sizes given to \<open>memcpy\<close>.  \<open>rx_req\<close> is the variable
  \<open>rx_req_is_set\<close> points to.
\<close>

definition write_queue ::
  "msm_vidc_iface_q_info \<Rightarrow> uint8 list option \<Rightarrow> bool \<Rightarrow> (int \<times> msm_vidc_iface_q_info \<times> bool) option" where
  "write_queue qinfo pkt rx_req =
    (case pkt of None \<Rightarrow> Some (- EINVAL, qinfo, rx_req)
     | Some packet \<Rightarrow>
    (case align_virtual_addr (q_arr qinfo) of None \<Rightarrow> Some (- EINVAL, qinfo, rx_req)
     | Some base \<Rightarrow>
    (case q_hdr qinfo of None \<Rightarrow> Some (- ENOENT, qinfo, rx_req)
     | Some queue \<Rightarrow> do {
      pkt_size \<leftarrow> get_u32 packet 0;
      let packet_size_in_words = drop_bit 2 pkt_size;
      let mem_size = q_mem_size (q_arr qinfo);
      if packet_size_in_words = 0 \<or> packet_size_in_words > drop_bit 2 mem_size
      then Some (- ENODATA, qinfo, rx_req)
      else do {
        let read_idx = qhdr_read_idx queue;
        let write_idx = qhdr_write_idx queue;
        let empty_space = (if write_idx \<ge> read_idx then drop_bit 2 mem_size - (write_idx - read_idx)
                           else read_idx - write_idx);
        if empty_space \<le> packet_size_in_words
        then Some (- ENOTEMPTY, q_with qinfo (queue\<lparr>qhdr_tx_req := 1\<rparr>) base, rx_req)
        else do {
          let queue = queue\<lparr>qhdr_tx_req := 0\<rparr>;
          let new_write_idx = write_idx + packet_size_in_words;
          let write_off = unat (push_bit 2 write_idx);
          if write_off > unat mem_size then Some (- ENODATA, q_with qinfo queue base, rx_req)
          else if new_write_idx < drop_bit 2 mem_size then do {
            base \<leftarrow> mem_copy base write_off packet 0 (unat (push_bit 2 packet_size_in_words));
            Some (0, q_with qinfo (queue\<lparr>qhdr_write_idx := new_write_idx\<rparr>) base, True)
          } else do {
            let new_write_idx = new_write_idx - drop_bit 2 mem_size;
            let fst_size = unat (push_bit 2 (packet_size_in_words - new_write_idx));
            base \<leftarrow> mem_copy base write_off packet 0 fst_size;
            base \<leftarrow> mem_copy base 0 packet fst_size (unat (push_bit 2 new_write_idx));
            Some (0, q_with qinfo (queue\<lparr>qhdr_write_idx := new_write_idx\<rparr>) base, True)
          }
        }
      }
    })))"

text \<open>
  \<open>__read_queue\<close>.  \<open>pkt\<close> is the buffer the packet is copied to, \<open>tx_req\<close> the variable \<open>pb_tx_req_is_set\<close>
  points to; both are part of the result.
\<close>

definition read_queue ::
  "msm_vidc_iface_q_info \<Rightarrow> uint8 list option \<Rightarrow> uint32
    \<Rightarrow> (int \<times> msm_vidc_iface_q_info \<times> uint8 list option \<times> uint32) option" where
  "read_queue qinfo pkt tx_req =
    (case pkt of None \<Rightarrow> Some (- EINVAL, qinfo, pkt, tx_req)
     | Some packet \<Rightarrow>
    (case align_virtual_addr (q_arr qinfo) of None \<Rightarrow> Some (- EINVAL, qinfo, pkt, tx_req)
     | Some base \<Rightarrow>
    (case q_hdr qinfo of None \<Rightarrow> Some (- ENOMEM, qinfo, pkt, tx_req)
     | Some queue \<Rightarrow> do {
      let mem_size = q_mem_size (q_arr qinfo);
      let receive_request = (if qhdr_type queue AND HFI_Q_ID_CTRL_TO_HOST_MSG_Q \<noteq> 0 then 1 else 0);
      let read_idx = qhdr_read_idx queue;
      let write_idx = qhdr_write_idx queue;
      if read_idx = write_idx
      then Some (- ENODATA, q_with qinfo (queue\<lparr>qhdr_rx_req := receive_request\<rparr>) base, pkt, 0)
      else do {
        let read_off = unat (push_bit 2 read_idx);
        if read_off + 4 > unat mem_size then Some (- ENODATA, qinfo, pkt, tx_req)
        else do {
          pkt_size \<leftarrow> get_u32 base read_off;
          let packet_size_in_words = drop_bit 2 pkt_size;
          if packet_size_in_words = 0 then Some (- ENODATA, qinfo, pkt, tx_req)
          else do {
            let new_read_idx = read_idx + packet_size_in_words;
            (rc, new_read_idx, packet) \<leftarrow>
              (if push_bit 2 packet_size_in_words \<le> VIDC_IFACEQ_VAR_HUGE_PKT_SIZE
                  \<and> read_idx \<le> drop_bit 2 mem_size then
                 if new_read_idx < drop_bit 2 mem_size then do {
                   packet \<leftarrow> mem_copy packet 0 base read_off (unat (push_bit 2 packet_size_in_words));
                   Some (0, new_read_idx, packet)
                 } else do {
                   let new_read_idx = new_read_idx - drop_bit 2 mem_size;
                   let fst_size = unat (push_bit 2 (packet_size_in_words - new_read_idx));
                   packet \<leftarrow> mem_copy packet 0 base read_off fst_size;
                   packet \<leftarrow> mem_copy packet fst_size base 0 (unat (push_bit 2 new_read_idx));
                   Some (0, new_read_idx, packet)
                 }
               else Some (- ENODATA, write_idx, packet));
            Some (rc,
              q_with qinfo (queue\<lparr>qhdr_rx_req := receive_request, qhdr_read_idx := new_read_idx\<rparr>) base,
              Some packet, if qhdr_tx_req queue = 1 then 1 else 0)
          }
        }
      }
    })))"

end
