(* ===== verification/Vidc_Hfi_Ring.thy ===== *)
theory Vidc_Hfi_Ring
  imports Vidc_Hfi_Queue
begin

text \<open>
  What the queues are for: a first-in first-out list of packets.  \<open>q_view\<close> reads the packets between the
  read and the write index; a packet is as long as the size in its first word says, in whole words.
  Writing appends a packet to the view, reading takes the first one off.
\<close>

section \<open>Packets\<close>

text \<open>The length in bytes of the packet that starts here, as the queue counts it.\<close>

definition pkt_len :: "uint8 list \<Rightarrow> nat" where
  "pkt_len bs = 4 * unat (drop_bit 2 (u32_of_bytes (take 4 bs)))"

text \<open>A packet: as long as its first word says.\<close>

definition hfi_pkt :: "uint8 list \<Rightarrow> bool" where
  "hfi_pkt p \<longleftrightarrow> 4 \<le> length p \<and> length p = pkt_len p"

text \<open>The packets a run of bytes consists of.\<close>

function hfi_packets :: "uint8 list \<Rightarrow> uint8 list list option" where
  "hfi_packets bs =
    (if bs = [] then Some []
     else if 4 \<le> length bs \<and> pkt_len bs \<noteq> 0 \<and> pkt_len bs \<le> length bs
       then map_option ((#) (take (pkt_len bs) bs)) (hfi_packets (drop (pkt_len bs) bs))
       else None)"
  by auto
termination by (relation "measure length") auto

declare hfi_packets.simps [simp del]

lemma pkt_len_ge4: "pkt_len bs \<noteq> 0 \<Longrightarrow> 4 \<le> pkt_len bs"
  by (simp add: pkt_len_def)

lemma pkt_len_take: "4 \<le> n \<Longrightarrow> pkt_len (take n bs) = pkt_len bs"
  by (simp add: pkt_len_def min_def)

lemma pkt_len_append: "4 \<le> length p \<Longrightarrow> pkt_len (p @ bs) = pkt_len p"
  by (simp add: pkt_len_def)

lemma pkt_len_dvd [simp]: "4 dvd pkt_len bs"
  by (simp add: pkt_len_def)

lemma hfi_pkt_take:
  "pkt_len bs \<noteq> 0 \<Longrightarrow> pkt_len bs \<le> length bs \<Longrightarrow> hfi_pkt (take (pkt_len bs) bs)"
  using pkt_len_ge4 [of bs] by (simp add: hfi_pkt_def pkt_len_take)

lemma hfi_packets_Cons:
  "hfi_pkt p \<Longrightarrow> hfi_packets (p @ bs) = map_option ((#) p) (hfi_packets bs)"
  by (subst hfi_packets.simps) (auto simp: hfi_pkt_def pkt_len_append)

lemma hfi_packets_concat: "\<forall>p\<in>set ps. hfi_pkt p \<Longrightarrow> hfi_packets (concat ps) = Some ps"
  by (induction ps) (simp_all add: hfi_packets_Cons hfi_packets.simps [of "[]"])

lemma hfi_packets_SomeD:
  "hfi_packets bs = Some ps \<Longrightarrow> bs = concat ps \<and> (\<forall>p\<in>set ps. hfi_pkt p)"
proof (induction bs arbitrary: ps rule: hfi_packets.induct)
  case (1 bs)
  show ?case
  proof (cases "bs = []")
    case True
    then show ?thesis using 1(2) by (simp add: hfi_packets.simps)
  next
    case False
    let ?n = "pkt_len bs"
    have c: "4 \<le> length bs \<and> ?n \<noteq> 0 \<and> ?n \<le> length bs"
      and "map_option ((#) (take ?n bs)) (hfi_packets (drop ?n bs)) = Some ps"
      using False 1(2) by (subst (asm) hfi_packets.simps, simp split: if_splits)+
    then obtain qs where q: "hfi_packets (drop ?n bs) = Some qs" "ps = take ?n bs # qs"
      by auto
    from 1(1) [OF False c q(1)] q(2) c show ?thesis
      by (metis append_take_drop_id concat.simps(2) hfi_pkt_take set_ConsD)
  qed
qed

lemma hfi_packets_iff: "hfi_packets bs = Some ps \<longleftrightarrow> bs = concat ps \<and> (\<forall>p\<in>set ps. hfi_pkt p)"
  using hfi_packets_SomeD hfi_packets_concat by blast

section \<open>The view of a queue\<close>

text \<open>
  A queue in use: header and array are there, the array has the size the queue says, in whole words,
  and the indices are inside it.
\<close>

definition q_ok :: "msm_vidc_iface_q_info \<Rightarrow> hfi_queue_header \<Rightarrow> uint8 list \<Rightarrow> bool" where
  "q_ok q h m \<longleftrightarrow> q_hdr q = Some h \<and> align_virtual_addr (q_arr q) = Some m
    \<and> unat (q_mem_size (q_arr q)) = length m \<and> 4 dvd length m
    \<and> unat (qhdr_read_idx h) < length m div 4 \<and> unat (qhdr_write_idx h) < length m div 4"

text \<open>The number of bytes in use, and these bytes.\<close>

definition q_used :: "hfi_queue_header \<Rightarrow> uint8 list \<Rightarrow> nat" where
  "q_used h m = (4 * unat (qhdr_write_idx h) + length m - 4 * unat (qhdr_read_idx h)) mod length m"

definition q_bytes :: "hfi_queue_header \<Rightarrow> uint8 list \<Rightarrow> uint8 list" where
  "q_bytes h m = ring_get m (4 * unat (qhdr_read_idx h)) (q_used h m)"

definition q_view :: "msm_vidc_iface_q_info \<Rightarrow> uint8 list list option" where
  "q_view q =
    (case (q_hdr q, align_virtual_addr (q_arr q)) of
       (Some h, Some m) \<Rightarrow> if q_ok q h m then hfi_packets (q_bytes h m) else None
     | _ \<Rightarrow> None)"

lemma q_view_SomeE:
  assumes "q_view q = Some ps"
  obtains h m where "q_ok q h m" "q_bytes h m = concat ps" "\<forall>p\<in>set ps. hfi_pkt p"
  using assms by (auto simp: q_view_def hfi_packets_iff split: option.splits if_splits)

lemma q_viewI: "q_ok q h m \<Longrightarrow> q_bytes h m = concat ps \<Longrightarrow> \<forall>p\<in>set ps. hfi_pkt p \<Longrightarrow> q_view q = Some ps"
  by (auto simp: q_view_def hfi_packets_iff q_ok_def)

lemma q_ok_pos: "q_ok q h m \<Longrightarrow> 4 \<le> length m"
  unfolding q_ok_def by (metis div_less less_nat_zero_code linorder_not_le)

lemma q_ok_idx:
  assumes "q_ok q h m"
  shows "4 * unat (qhdr_read_idx h) + 4 \<le> length m" "4 * unat (qhdr_write_idx h) + 4 \<le> length m"
    "length m < 4294967296"
  using assms unat32_less [of "q_mem_size (q_arr q)"] unfolding q_ok_def by auto

lemma ring_distance:
  fixes r w n :: nat
  assumes "r < n" "w < n"
  shows "(w + n - r) mod n = (if r \<le> w then w - r else n - (r - w))"
proof (cases "r \<le> w")
  case True
  then have "(w + n - r) mod n = ((w - r) + n) mod n" by simp
  then show ?thesis using True assms by (simp del: add_diff_assoc2)
next
  case False
  then have "w + n - r = n - (r - w)" "n - (r - w) < n" using assms by simp_all
  then show ?thesis using False by simp
qed

lemma q_used_cases:
  assumes "q_ok q h m"
  shows "q_used h m =
    (if qhdr_write_idx h \<ge> qhdr_read_idx h then 4 * unat (qhdr_write_idx h) - 4 * unat (qhdr_read_idx h)
     else length m - (4 * unat (qhdr_read_idx h) - 4 * unat (qhdr_write_idx h)))"
  using q_ok_idx [OF assms] by (simp add: q_used_def word_le_nat_alt ring_distance)

lemma q_used_less: "q_ok q h m \<Longrightarrow> q_used h m + 4 \<le> length m"
  using q_ok_idx [of q h m] by (auto simp: q_used_cases word_le_nat_alt)

lemma q_bytes_length [simp]: "q_ok q h m \<Longrightarrow> length (q_bytes h m) = q_used h m"
  using q_used_less [of q h m] by (simp add: q_bytes_def)

lemma q_used_dvd: "q_ok q h m \<Longrightarrow> 4 dvd q_used h m"
  using q_ok_idx [of q h m] by (auto simp: q_used_cases q_ok_def)

text \<open>The room the driver computes.\<close>

lemma empty_space_eq:
  assumes "q_ok q h m"
  shows "4 * unat (if qhdr_write_idx h \<ge> qhdr_read_idx h
      then drop_bit 2 (q_mem_size (q_arr q)) - (qhdr_write_idx h - qhdr_read_idx h)
      else qhdr_read_idx h - qhdr_write_idx h) = length m - q_used h m"
proof -
  let ?s = "drop_bit 2 (q_mem_size (q_arr q))" and ?w = "qhdr_write_idx h" and ?r = "qhdr_read_idx h"
  have s: "4 * unat ?s = length m"
    using assms unfolding q_ok_def unat_drop2 by (metis dvd_mult_div_cancel)
  show ?thesis
  proof (cases "?w \<ge> ?r")
    case True
    then have "unat (?w - ?r) = unat ?w - unat ?r" by (rule unat_sub)
    moreover from this have "?w - ?r \<le> ?s"
      using q_ok_idx [OF assms] s by (simp add: word_le_nat_alt)
    ultimately show ?thesis using True s
      by (simp add: unat_sub q_used_cases [OF assms])
  next
    case False
    then show ?thesis using q_ok_idx [OF assms]
      by (simp add: unat_sub q_used_cases [OF assms] word_le_nat_alt)
  qed
qed

lemma q_with_ok:
  assumes "q_ok q h m" "length m' = length m"
    "unat (qhdr_read_idx h') < length m div 4" "unat (qhdr_write_idx h') < length m div 4"
  shows "q_ok (q_with q h' m') h' m'"
  using assms by (simp add: q_ok_def q_with_def)

lemma mod_wrap: "n \<le> x \<Longrightarrow> x < 2 * n \<Longrightarrow> x mod n = x - n" for n x :: nat
  by (simp add: mod_if)

lemma ring_advance:
  fixes r k n :: nat
  assumes "r < n" "k < n"
  shows "((r + k) mod n + n - r) mod n = k"
proof -
  have "(r + k) mod n = (if r + k < n then r + k else r + k - n)"
    using assms by (simp add: mod_if)
  then show ?thesis using assms by (auto simp: ring_distance)
qed

lemma q_write_pos:
  assumes "q_ok q h m"
  shows "4 * unat (qhdr_write_idx h) = (4 * unat (qhdr_read_idx h) + q_used h m) mod length m"
  using q_ok_idx [OF assms] by (auto simp: q_used_cases [OF assms] word_le_nat_alt mod_if)

text \<open>A header whose write index is \<open>k\<close> bytes behind its read index.\<close>

lemma q_bytesI:
  assumes "4 * unat (qhdr_write_idx h) = (4 * unat (qhdr_read_idx h) + k) mod length m"
    "4 * unat (qhdr_read_idx h) < length m" "k < length m"
  shows "q_bytes h m = ring_get m (4 * unat (qhdr_read_idx h)) k"
  using ring_advance [OF assms(2,3)] by (simp add: q_bytes_def q_used_def assms(1))

section \<open>Writing\<close>

text \<open>The size of a packet in words, and the tests \<open>__write_queue\<close> makes on it.\<close>

abbreviation (input) pkt_words :: "uint8 list \<Rightarrow> uint32" where
  "pkt_words p \<equiv> drop_bit 2 (u32_of_bytes (take 4 p))"

lemma get_u32_size: "4 \<le> length p \<Longrightarrow> get_u32 p 0 = Some (u32_of_bytes (take 4 p))"
  by (simp add: get_u32_def slice_def)

lemma unat_pkt_words: "4 * unat (pkt_words p) = pkt_len p"
  by (simp add: pkt_len_def)

lemma mem_words:
  assumes "q_ok q h m"
  shows "4 * unat (drop_bit 2 (q_mem_size (q_arr q))) = length m"
  using assms unfolding q_ok_def unat_drop2 by (metis dvd_mult_div_cancel)

lemma size_in_range:
  assumes "q_ok q h m" "pkt_len p \<noteq> 0" "pkt_len p \<le> length m"
  shows "\<not> (pkt_words p = 0 \<or> pkt_words p > drop_bit 2 (q_mem_size (q_arr q)))"
proof -
  have "unat (pkt_words p) \<noteq> 0" "unat (pkt_words p) \<le> unat (drop_bit 2 (q_mem_size (q_arr q)))"
    using mem_words [OF assms(1)] unat_pkt_words [of p] assms(2,3) by linarith+
  then show ?thesis by (metis linorder_not_less unat_0 word_le_nat_alt)
qed

lemma room_iff:
  assumes "q_ok q h m"
  shows "(if qhdr_write_idx h \<ge> qhdr_read_idx h
      then drop_bit 2 (q_mem_size (q_arr q)) - (qhdr_write_idx h - qhdr_read_idx h)
      else qhdr_read_idx h - qhdr_write_idx h) \<le> pkt_words p \<longleftrightarrow> length m \<le> q_used h m + pkt_len p"
  (is "?e \<le> _ \<longleftrightarrow> _")
proof -
  have "4 * unat ?e = length m - q_used h m" by (rule empty_space_eq [OF assms])
  then have "unat ?e \<le> unat (pkt_words p) \<longleftrightarrow> length m \<le> q_used h m + pkt_len p"
    using unat_pkt_words [of p] by linarith
  then show ?thesis by (simp only: word_le_nat_alt)
qed

lemma q_okD:
  assumes "q_ok q h m"
  shows "q_hdr q = Some h" "align_virtual_addr (q_arr q) = Some m" "unat (q_mem_size (q_arr q)) = length m"
  using assms by (simp_all add: q_ok_def)

text \<open>\<open>__write_queue\<close> on a queue in use, up to the test for room.\<close>

lemma write_queue_ok:
  assumes ok: "q_ok q h m" and n: "pkt_len p \<noteq> 0" "pkt_len p \<le> length m" "4 \<le> length p"
  shows "write_queue q (Some p) rx =
    (if length m \<le> q_used h m + pkt_len p
     then Some (- ENOTEMPTY, q_with q (h\<lparr>qhdr_tx_req := 1\<rparr>) m, rx)
     else
      (let h = h\<lparr>qhdr_tx_req := 0\<rparr>; w = qhdr_write_idx h; mem_size = q_mem_size (q_arr q) in
       if unat (push_bit 2 w) > unat mem_size then Some (- ENODATA, q_with q h m, rx)
       else if w + pkt_words p < drop_bit 2 mem_size then do {
         base \<leftarrow> mem_copy m (unat (push_bit 2 w)) p 0 (unat (push_bit 2 (pkt_words p)));
         Some (0, q_with q (h\<lparr>qhdr_write_idx := w + pkt_words p\<rparr>) base, True)
       } else do {
         let w' = w + pkt_words p - drop_bit 2 mem_size;
         let k = unat (push_bit 2 (pkt_words p - w'));
         base \<leftarrow> mem_copy m (unat (push_bit 2 w)) p 0 k;
         base \<leftarrow> mem_copy base 0 p k (unat (push_bit 2 w'));
         Some (0, q_with q (h\<lparr>qhdr_write_idx := w'\<rparr>) base, True)
       }))"
  unfolding write_queue_def q_okD [OF ok] option.simps get_u32_size [OF n(3)] Option.bind.bind_lunit Let_def
    size_in_range [OF ok n(1,2), THEN Eq_FalseI] if_False room_iff [OF ok]
  by simp

lemma write_queue_full:
  assumes "q_ok q h m" "pkt_len p \<noteq> 0" "pkt_len p \<le> length m" "4 \<le> length p"
    and "length m \<le> q_used h m + pkt_len p"
  shows "write_queue q (Some p) rx = Some (- ENOTEMPTY, q_with q (h\<lparr>qhdr_tx_req := 1\<rparr>) m, rx)"
  using assms by (simp add: write_queue_ok)

lemma write_queue_room:
  assumes ok: "q_ok q h m" and n: "pkt_len p \<noteq> 0" "pkt_len p \<le> length p"
    and room: "q_used h m + pkt_len p < length m"
  obtains w' where
    "write_queue q (Some p) rx = Some (0, q_with q (h\<lparr>qhdr_tx_req := 0, qhdr_write_idx := w'\<rparr>)
       (ring_put m (4 * unat (qhdr_write_idx h)) (take (pkt_len p) p)), True)"
    "4 * unat w' = (4 * unat (qhdr_write_idx h) + pkt_len p) mod length m"
proof -
  let ?w = "qhdr_write_idx h" and ?n = "pkt_len p" and ?N = "pkt_words p" and ?L = "length m"
  let ?S = "drop_bit 2 (q_mem_size (q_arr q))" and ?off = "4 * unat (qhdr_write_idx h)"
  let ?bs = "take (pkt_len p) p"
  note idx = q_ok_idx [OF ok] and S = mem_words [OF ok] and N = unat_pkt_words [of p]
  have p4: "4 \<le> length p" "?n \<le> ?L" and lbs: "length ?bs = ?n"
    using pkt_len_ge4 [of p] n room by linarith+ (simp add: n(2))
  have w: "unat (push_bit 2 ?w) = ?off" and pN: "unat (push_bit 2 ?N) = ?n"
    using idx N room by (simp_all add: unat_push2)
  have a: "unat (?w + ?N) = unat ?w + unat ?N"
    using idx N room by (intro unat_add32) linarith
  have off: "\<not> ?L < ?off" using idx by simp
  let ?q' = "\<lambda>w' base. q_with q (h\<lparr>qhdr_tx_req := 0, qhdr_write_idx := w'\<rparr>) base"
  have W: "write_queue q (Some p) rx =
    (if ?w + ?N < ?S then mem_copy m ?off p 0 ?n \<bind> (\<lambda>base. Some (0, ?q' (?w + ?N) base, True))
     else mem_copy m ?off p 0 (unat (push_bit 2 (?N - (?w + ?N - ?S)))) \<bind>
       (\<lambda>base. mem_copy base 0 p (unat (push_bit 2 (?N - (?w + ?N - ?S)))) (unat (push_bit 2 (?w + ?N - ?S))) \<bind>
         (\<lambda>base. Some (0, ?q' (?w + ?N - ?S) base, True))))"
    using room off unfolding write_queue_ok [OF ok n(1) p4(2,1), of rx] by (simp add: Let_def w pN q_okD(3) [OF ok])
  show thesis
  proof (cases "?w + ?N < ?S")
    case True
    then have lt: "?off + ?n < ?L" using a N S by (simp add: word_less_nat_alt)
    then have "?n < ?L - ?off" by linarith
    then have "ring_put m ?off ?bs = overwrite m ?off (slice p 0 ?n)"
      using n(2) by (simp add: ring_put_def slice_def Let_def min_def)
    then show thesis
      using that [of "?w + ?N"] W True lt room n(2) a N by (simp add: mem_copy_in)
  next
    case False
    let ?w' = "?w + ?N - ?S" and ?k = "?L - ?off"
    have ge: "?S \<le> ?w + ?N" "?L \<le> ?off + ?n" using False a N S by (simp_all add: word_less_nat_alt word_le_nat_alt)
    have w': "4 * unat ?w' = ?n - ?k"
      using a N S idx by (simp add: unat_sub [OF ge(1)])
    then have le: "?w' \<le> ?N" using N by (simp add: word_le_nat_alt)
    have "4 * unat (?N - ?w') = ?k" "4 * unat ?w' = ?n - ?k"
      using w' N idx ge room unfolding unat_sub [OF le] by linarith+
    then have k: "unat (push_bit 2 (?N - ?w')) = ?k" and pw: "unat (push_bit 2 ?w') = ?n - ?k"
      using idx room by (subst unat_push2; linarith)+
    have nk: "\<not> ?n < ?k" "?k \<le> ?n" using ge by linarith+
    have put: "ring_put m ?off ?bs = overwrite (overwrite m ?off (slice p 0 ?k)) 0 (slice p ?k (?n - ?k))"
      using n(2) nk by (simp add: ring_put_def Let_def slice_def drop_take min_def)
    have "mem_copy m ?off p 0 ?k = Some (overwrite m ?off (slice p 0 ?k))"
      "mem_copy (overwrite m ?off (slice p 0 ?k)) 0 p ?k (?n - ?k) = Some (ring_put m ?off ?bs)"
      unfolding put using idx ge n(2) room by (intro mem_copy_in; simp)+
    moreover have "(?off + ?n) mod ?L = ?n - ?k"
      using mod_wrap [OF ge(2)] ge(2) idx room by linarith
    ultimately show thesis
      using that [of ?w'] W [unfolded k pw if_not_P [OF False]] w' by (simp only: Option.bind.bind_lunit)
  qed
qed

text \<open>Written bytes go behind the bytes in use.\<close>

lemma q_bytes_write:
  assumes ok: "q_ok q h m" and bs: "q_used h m + length bs < length m"
    and h': "qhdr_read_idx h' = qhdr_read_idx h"
      "4 * unat (qhdr_write_idx h') = (4 * unat (qhdr_write_idx h) + length bs) mod length m"
  shows "q_bytes h' (ring_put m (4 * unat (qhdr_write_idx h)) bs) = q_bytes h m @ bs"
proof -
  let ?r = "4 * unat (qhdr_read_idx h)" and ?w = "4 * unat (qhdr_write_idx h)"
  let ?m = "ring_put m ?w bs" and ?k = "q_used h m + length bs"
  have l: "length ?m = length m"
    using q_ok_idx [OF ok] bs by (simp add: length_ring_put)
  have "4 * unat (qhdr_write_idx h') = (?r + ?k) mod length m"
    unfolding h'(2) q_write_pos [OF ok] by (metis add.assoc mod_add_left_eq)
  then have "q_bytes h' ?m = ring_get ?m ?r ?k"
    using q_bytesI [of h' ?k ?m] q_ok_idx [OF ok] bs by (simp add: l h'(1))
  also have "rotate ?r ?m = take (q_used h m) (rotate ?r m) @ bs @ drop ?k (rotate ?r m)"
    using q_ok_idx [OF ok] bs q_write_pos [OF ok] by (intro ring_put_behind) simp_all
  then have "ring_get ?m ?r ?k = q_bytes h m @ bs"
    using bs by (simp add: ring_get_def q_bytes_def)
  finally show ?thesis .
qed

section \<open>Reading\<close>

definition receive_request :: "hfi_queue_header \<Rightarrow> uint32" where
  "receive_request h = (if qhdr_type h AND HFI_Q_ID_CTRL_TO_HOST_MSG_Q \<noteq> 0 then 1 else 0)"

definition tx_req_flag :: "hfi_queue_header \<Rightarrow> uint32" where
  "tx_req_flag h = (if qhdr_tx_req h = 1 then 1 else 0)"

lemma q_empty_iff:
  assumes "q_ok q h m"
  shows "q_used h m = 0 \<longleftrightarrow> qhdr_read_idx h = qhdr_write_idx h"
  using q_ok_idx [OF assms]
  by (auto simp: q_used_cases [OF assms] word_le_nat_alt word_unat_eq_iff)

lemma ring_get_slices:
  assumes "off \<le> length m" "n \<le> length m"
  shows "ring_get m off n =
    (if off + n \<le> length m then slice m off n
     else slice m off (length m - off) @ slice m 0 (n - (length m - off)))"
  using assms by (auto simp: ring_get_def rotate_split slice_def)

lemma overwrite_twice:
  "length xs + length ys \<le> length b \<Longrightarrow>
    overwrite (overwrite b 0 xs) (length xs) ys = overwrite b 0 (xs @ ys)"
  by (simp add: overwrite_def add.commute)

text \<open>The packet at the read index.\<close>

lemma head_bytes:
  assumes ok: "q_ok q h m" and b: "q_bytes h m = p @ rest" and p: "4 \<le> length p"
  shows "get_u32 m (4 * unat (qhdr_read_idx h)) = Some (u32_of_bytes (take 4 p))"
    "ring_get m (4 * unat (qhdr_read_idx h)) (length p) = p"
    "length p \<le> q_used h m"
proof -
  let ?r = "4 * unat (qhdr_read_idx h)"
  have used: "q_used h m = length p + length rest"
    using q_bytes_length [OF ok] b by simp
  then show "length p \<le> q_used h m" by simp
  have t: "take k (q_bytes h m) = ring_get m ?r k" if "k \<le> length p" for k
    using that used by (simp add: q_bytes_def ring_get_def min_def)
  from t [of "length p"] show "ring_get m ?r (length p) = p" by (simp add: b)
  from t [of 4] p have "slice m ?r 4 = take 4 p"
    using q_ok_idx [OF ok] by (simp add: b ring_get_slices)
  then show "get_u32 m ?r = Some (u32_of_bytes (take 4 p))"
    using q_ok_idx [OF ok] by (simp add: get_u32_def)
qed

lemma read_queue_empty:
  assumes ok: "q_ok q h m" and e: "q_used h m = 0"
  shows "read_queue q (Some buf) t =
    Some (- ENODATA, q_with q (h\<lparr>qhdr_rx_req := receive_request h\<rparr>) m, Some buf, 0)"
  using e unfolding q_empty_iff [OF ok]
  by (simp add: read_queue_def q_okD [OF ok] Let_def receive_request_def)

text \<open>\<open>__read_queue\<close> on a queue in use that is not empty, up to the copying.\<close>

lemma read_queue_nonempty:
  assumes ok: "q_ok q h m" and b: "q_bytes h m = p @ rest" and p: "hfi_pkt p"
  shows "read_queue q (Some buf) t =
    (if length p \<le> 4096 then
       let r = qhdr_read_idx h; r' = r + pkt_words p; S = drop_bit 2 (q_mem_size (q_arr q)) in
       (if r' < S then mem_copy buf 0 m (4 * unat r) (length p) \<bind> (\<lambda>b. Some (0, r', b))
        else let k = unat (push_bit 2 (pkt_words p - (r' - S))) in
          mem_copy buf 0 m (4 * unat r) k \<bind>
            (\<lambda>b. mem_copy b k m 0 (unat (push_bit 2 (r' - S))) \<bind> (\<lambda>b. Some (0, r' - S, b))))
     else Some (- ENODATA, qhdr_write_idx h, buf)) \<bind>
    (\<lambda>(rc, r', b). Some (rc, q_with q (h\<lparr>qhdr_rx_req := receive_request h, qhdr_read_idx := r'\<rparr>) m,
      Some b, tx_req_flag h))"
proof -
  let ?r = "qhdr_read_idx h"
  have p4: "4 \<le> length p" and len: "pkt_len p = length p" using p by (simp_all add: hfi_pkt_def)
  note hb = head_bytes [OF ok b p4]
  have ne: "?r \<noteq> qhdr_write_idx h"
    using hb(3) p4 by (simp flip: q_empty_iff [OF ok])
  have r: "unat (push_bit 2 ?r) = 4 * unat ?r"
    using q_ok_idx [OF ok] by (intro unat_push2) linarith
  have nb: "\<not> length m < 4 * unat ?r + 4" using q_ok_idx [OF ok] by simp
  have N: "4 * unat (pkt_words p) = length p" using unat_pkt_words [of p] len by simp
  then have nz: "pkt_words p \<noteq> 0" using p4 by auto
  have pN: "unat (push_bit 2 (pkt_words p)) = length p"
    using N unat_drop2_less by (subst unat_push2) simp_all
  then have huge: "push_bit 2 (pkt_words p) \<le> VIDC_IFACEQ_VAR_HUGE_PKT_SIZE \<longleftrightarrow> length p \<le> 4096"
    by (simp add: word_le_nat_alt VIDC_IFACEQ_VAR_HUGE_PKT_SIZE_def)
  have "unat ?r \<le> unat (drop_bit 2 (q_mem_size (q_arr q)))"
    using mem_words [OF ok] q_ok_idx [OF ok] by linarith
  then have rS: "?r \<le> drop_bit 2 (q_mem_size (q_arr q))" by (simp only: word_le_nat_alt)
  show ?thesis
    unfolding read_queue_def q_okD [OF ok] option.simps Let_def if_not_P [OF ne] r if_not_P [OF nb] hb(1)
      Option.bind.bind_lunit if_not_P [OF nz] huge pN receive_request_def [symmetric] tx_req_flag_def
    using rS by simp
qed

lemma read_queue_head:
  assumes ok: "q_ok q h m" and b: "q_bytes h m = p @ rest" and p: "hfi_pkt p"
    and len: "length p \<le> 4096" "length p \<le> length buf"
  obtains r' where
    "read_queue q (Some buf) t = Some (0,
       q_with q (h\<lparr>qhdr_rx_req := receive_request h, qhdr_read_idx := r'\<rparr>) m,
       Some (overwrite buf 0 p), tx_req_flag h)"
    "4 * unat r' = (4 * unat (qhdr_read_idx h) + length p) mod length m"
proof -
  let ?r = "qhdr_read_idx h" and ?n = "length p" and ?N = "pkt_words p" and ?L = "length m"
  let ?S = "drop_bit 2 (q_mem_size (q_arr q))" and ?off = "4 * unat (qhdr_read_idx h)"
  note idx = q_ok_idx [OF ok] and S = mem_words [OF ok] and used = q_used_less [OF ok]
  have p4: "4 \<le> ?n" using p by (simp add: hfi_pkt_def)
  have N: "4 * unat ?N = ?n" using unat_pkt_words [of p] p by (simp add: hfi_pkt_def)
  note hb = head_bytes [OF ok b p4]
  have a: "unat (?r + ?N) = unat ?r + unat ?N"
    using idx N hb(3) used by (intro unat_add32) linarith
  have off: "?off \<le> ?L" "?n \<le> ?L" using idx hb(3) used by linarith+
  note G = hb(2) [unfolded ring_get_slices [OF off]]
  note R = read_queue_nonempty [OF ok b p, of buf t, unfolded Let_def if_P [OF len(1)]]
  show thesis
  proof (cases "?r + ?N < ?S")
    case True
    then have lt: "?off + ?n < ?L" using a N S by (simp add: word_less_nat_alt)
    then have "mem_copy buf 0 m ?off ?n = Some (overwrite buf 0 p)"
      using len G by (simp add: mem_copy_in)
    then show thesis
      using that [of "?r + ?N"] R [unfolded if_P [OF True]] lt a N by simp
  next
    case False
    let ?r' = "?r + ?N - ?S" and ?k = "?L - ?off"
    have ge: "?S \<le> ?r + ?N" "?L \<le> ?off + ?n"
      using False a N S by (simp_all add: word_less_nat_alt word_le_nat_alt)
    have r': "4 * unat ?r' = ?n - ?k"
      using a N S idx by (simp add: unat_sub [OF ge(1)])
    then have le: "?r' \<le> ?N" using N by (simp add: word_le_nat_alt)
    have "4 * unat (?N - ?r') = ?k" "4 * unat ?r' = ?n - ?k"
      using r' N idx ge unfolding unat_sub [OF le] by linarith+
    then have k: "unat (push_bit 2 (?N - ?r')) = ?k" and pr: "unat (push_bit 2 ?r') = ?n - ?k"
      using idx len by (subst unat_push2; linarith)+
    have nk: "?k \<le> ?n" using ge by linarith
    have whole: "slice m ?off ?k @ slice m 0 (?n - ?k) = p"
    proof (cases "?off + ?n = ?L")
      case True
      then have "?n - ?k = 0" "?k = ?n" by linarith+
      then show ?thesis using G by (simp add: True slice_def)
    next
      case False
      then have "\<not> ?off + ?n \<le> ?L" using ge by linarith
      then show ?thesis using G by simp
    qed
    have lk: "length (slice m ?off ?k) = ?k" by simp
    have "mem_copy buf 0 m ?off ?k = Some (overwrite buf 0 (slice m ?off ?k))"
      using len nk off by (intro mem_copy_in) linarith+
    moreover have "mem_copy (overwrite buf 0 (slice m ?off ?k)) ?k m 0 (?n - ?k) = Some (overwrite buf 0 p)"
      using overwrite_twice [of "slice m ?off ?k" "slice m 0 (?n - ?k)" buf, unfolded lk whole] len nk off idx
      by (subst mem_copy_in) simp_all
    moreover have "(?off + ?n) mod ?L = ?n - ?k"
      using mod_wrap [OF ge(2)] ge(2) idx hb(3) used by linarith
    ultimately show thesis
      using that [of ?r'] R [unfolded k pr if_not_P [OF False]] r' by (simp only: Option.bind.bind_lunit prod.case)
  qed
qed

lemma read_queue_huge:
  assumes "q_ok q h m" "q_bytes h m = p @ rest" "hfi_pkt p" "4096 < length p"
  shows "read_queue q (Some buf) t = Some (- ENODATA,
     q_with q (h\<lparr>qhdr_rx_req := receive_request h, qhdr_read_idx := qhdr_write_idx h\<rparr>) m,
     Some buf, tx_req_flag h)"
  using assms(4) by (simp add: read_queue_nonempty [OF assms(1-3)])

text \<open>Read bytes are taken off the front.\<close>

lemma q_bytes_read:
  assumes ok: "q_ok q h m" and b: "q_bytes h m = p @ rest"
    and h': "qhdr_write_idx h' = qhdr_write_idx h"
      "4 * unat (qhdr_read_idx h') = (4 * unat (qhdr_read_idx h) + length p) mod length m"
  shows "q_bytes h' m = rest"
proof -
  let ?r = "4 * unat (qhdr_read_idx h)" and ?r' = "4 * unat (qhdr_read_idx h')" and ?k = "length rest"
  have u: "q_used h m = length p + ?k" using q_bytes_length [OF ok] b by simp
  have pos: "length m \<noteq> 0" using q_ok_pos [OF ok] by auto
  have "4 * unat (qhdr_write_idx h') = (?r' + ?k) mod length m"
    unfolding h' q_write_pos [OF ok] u by (metis add.assoc mod_add_left_eq)
  then have "q_bytes h' m = ring_get m ?r' ?k"
    using q_used_less [OF ok] u pos by (intro q_bytesI) (simp_all add: h'(2))
  also have "rotate ?r' m = rotate (length p) (rotate ?r m)"
    unfolding h'(2) by (metis add.commute rotate_conv_mod rotate_rotate)
  then have "ring_get m ?r' ?k = drop (length p) (take (length p + ?k) (rotate ?r m))"
    using q_used_less [OF ok] u by (simp add: ring_get_def rotate_split drop_take)
  also have "\<dots> = rest"
    using b by (simp add: q_bytes_def ring_get_def u)
  finally show ?thesis .
qed

end
