(* ===== verification/Vidc_Hfi_Packet.thy ===== *)
theory Vidc_Hfi_Packet
  imports Vidc_Mem
begin

text \<open>
  The commands the video driver sends to the firmware: \<open>hfi_packet.c\<close>.  A command is a header of eight
  words and packets behind it, each eight words and a payload; it is built in a buffer of bytes.
\<close>

section \<open>Constants\<close>

abbreviation (input) HFI_PORT_NONE :: uint32 where "HFI_PORT_NONE \<equiv> 0"
abbreviation (input) HFI_PORT_BITSTREAM :: uint32 where "HFI_PORT_BITSTREAM \<equiv> 1"
abbreviation (input) HFI_PORT_RAW :: uint32 where "HFI_PORT_RAW \<equiv> 2"

definition HFI_VIDEO_ARCH_LX :: uint32 where "HFI_VIDEO_ARCH_LX = 1"

definition HFI_HOST_FLAGS_NONE :: uint32 where "HFI_HOST_FLAGS_NONE = 0"
definition HFI_HOST_FLAGS_INTR_REQUIRED :: uint32 where "HFI_HOST_FLAGS_INTR_REQUIRED = 1"
definition HFI_HOST_FLAGS_RESPONSE_REQUIRED :: uint32 where "HFI_HOST_FLAGS_RESPONSE_REQUIRED = 2"
definition HFI_HOST_FLAGS_NON_DISCARDABLE :: uint32 where "HFI_HOST_FLAGS_NON_DISCARDABLE = 4"
definition HFI_HOST_FLAGS_GET_PROPERTY :: uint32 where "HFI_HOST_FLAGS_GET_PROPERTY = 8"

definition HFI_PAYLOAD_NONE :: uint32 where "HFI_PAYLOAD_NONE = 0"
definition HFI_PAYLOAD_U32 :: uint32 where "HFI_PAYLOAD_U32 = 1"
definition HFI_PAYLOAD_U32_ENUM :: uint32 where "HFI_PAYLOAD_U32_ENUM = 9"
definition HFI_PAYLOAD_U32_ARRAY :: uint32 where "HFI_PAYLOAD_U32_ARRAY = 0xb"

definition HFI_CMD_INIT :: uint32 where "HFI_CMD_INIT = 0x01000001"
definition HFI_CMD_POWER_COLLAPSE :: uint32 where "HFI_CMD_POWER_COLLAPSE = 0x01000002"
definition HFI_PROP_IMAGE_VERSION :: uint32 where "HFI_PROP_IMAGE_VERSION = 0x03000001"
definition HFI_PROP_INTRA_FRAME_POWER_COLLAPSE :: uint32 where
  "HFI_PROP_INTRA_FRAME_POWER_COLLAPSE = 0x03000002"
definition HFI_PROP_UBWC_MAX_CHANNELS :: uint32 where "HFI_PROP_UBWC_MAX_CHANNELS = 0x03000003"
definition HFI_PROP_UBWC_MAL_LENGTH :: uint32 where "HFI_PROP_UBWC_MAL_LENGTH = 0x03000004"
definition HFI_PROP_UBWC_HBB :: uint32 where "HFI_PROP_UBWC_HBB = 0x03000005"
definition HFI_PROP_UBWC_BANK_SWZL_LEVEL1 :: uint32 where "HFI_PROP_UBWC_BANK_SWZL_LEVEL1 = 0x03000006"
definition HFI_PROP_UBWC_BANK_SWZL_LEVEL2 :: uint32 where "HFI_PROP_UBWC_BANK_SWZL_LEVEL2 = 0x03000007"
definition HFI_PROP_UBWC_BANK_SWZL_LEVEL3 :: uint32 where "HFI_PROP_UBWC_BANK_SWZL_LEVEL3 = 0x03000008"
definition HFI_PROP_UBWC_BANK_SPREADING :: uint32 where "HFI_PROP_UBWC_BANK_SPREADING = 0x03000009"
definition HFI_PROP_DEBUG_CONFIG :: uint32 where "HFI_PROP_DEBUG_CONFIG = 0x0300000a"
definition HFI_PROP_DEBUG_LOG_LEVEL :: uint32 where "HFI_PROP_DEBUG_LOG_LEVEL = 0x0300000b"
definition HFI_PROP_FENCE_CLIENT_DATA :: uint32 where "HFI_PROP_FENCE_CLIENT_DATA = 0x0300000d"

abbreviation (input) sizeof_hfi_header :: nat where "sizeof_hfi_header \<equiv> 32"
abbreviation (input) sizeof_hfi_packet :: nat where "sizeof_hfi_packet \<equiv> 32"

section \<open>Building a command\<close>

text \<open>Several words in a row.\<close>

fun put_u32s :: "uint8 list \<Rightarrow> (nat \<times> uint32) list \<Rightarrow> uint8 list option" where
  "put_u32s m [] = Some m"
| "put_u32s m ((off, v) # xs) = do { m \<leftarrow> put_u32 m off v; put_u32s m xs }"

text \<open>\<open>hfi_create_header\<close>: size, session, header id, four reserved words, number of packets.\<close>

definition hfi_create_header ::
  "uint8 list option \<Rightarrow> uint32 \<Rightarrow> uint32 \<Rightarrow> uint32 \<Rightarrow> (int \<times> uint8 list option) option" where
  "hfi_create_header pkt packet_size session_id header_id =
    (case pkt of None \<Rightarrow> Some (- EINVAL, pkt)
     | Some packet \<Rightarrow>
      if unat packet_size < sizeof_hfi_header then Some (- EINVAL, pkt)
      else do {
        packet \<leftarrow> mem_zero packet 0 sizeof_hfi_header;
        packet \<leftarrow> put_u32s packet [(0, of_nat sizeof_hfi_header), (4, session_id), (8, header_id), (28, 0)];
        Some (0, Some packet)
      })"

text \<open>
  \<open>hfi_create_packet\<close>: size, type, flags, payload info, port, packet id, two reserved words.  The sum of
  the sizes is a \<open>u32\<close>.
\<close>

definition hfi_create_packet ::
  "uint8 list option \<Rightarrow> uint32 \<Rightarrow> uint32 \<Rightarrow> uint32 \<Rightarrow> uint32 \<Rightarrow> uint32 \<Rightarrow> uint32 \<Rightarrow> uint8 list option \<Rightarrow> uint32
    \<Rightarrow> (int \<times> uint8 list option) option" where
  "hfi_create_packet pkt packet_size pkt_type pkt_flags payload_type port packet_id payload payload_size =
    (case pkt of None \<Rightarrow> Some (- EINVAL, pkt)
     | Some packet \<Rightarrow> do {
      hdr_size \<leftarrow> get_u32 packet 0;
      if unat hdr_size < sizeof_hfi_header then Some (- EINVAL, pkt)
      else do {
        let off = unat hdr_size;
        let pkt_size = of_nat sizeof_hfi_packet + payload_size;
        if packet_size < hdr_size + pkt_size then Some (- EINVAL, pkt)
        else do {
          packet \<leftarrow> mem_zero packet off (unat pkt_size);
          packet \<leftarrow> put_u32s packet [(off, pkt_size), (off + 4, pkt_type), (off + 8, pkt_flags),
            (off + 12, payload_type), (off + 16, port), (off + 20, packet_id)];
          packet \<leftarrow> (if payload_size \<noteq> 0 then do {
              payload \<leftarrow> payload;
              mem_copy packet (off + sizeof_hfi_packet) payload 0 (unat payload_size)
            } else Some packet);
          num_packets \<leftarrow> get_u32 packet 28;
          packet \<leftarrow> put_u32 packet 28 (num_packets + 1);
          hdr_size \<leftarrow> get_u32 packet 0;
          pkt_size \<leftarrow> get_u32 packet off;
          packet \<leftarrow> put_u32 packet 0 (hdr_size + pkt_size);
          Some (0, Some packet)
        }
      }
    })"

section \<open>The commands\<close>

text \<open>The fields of the core the commands are made of.\<close>

record msm_vidc_ubwc_config_data =
  max_channels :: uint32
  mal_length :: uint32
  highest_bank_bit :: uint32
  bank_swzl_level :: uint32
  bank_swz2_level :: uint32
  bank_swz3_level :: uint32
  bank_spreading :: uint32

record hfi_core =
  core_header_id :: uint32
  core_packet_id :: uint32
  sys_init_id :: uint32
  ubwc_config :: msm_vidc_ubwc_config_data
  synx_fence_cap :: bool
  synx_client_id :: uint32
  synx_client_flags :: uint32

text \<open>What a command says of one packet: type, flags, kind of payload and the words of the payload.\<close>

type_synonym pkt_spec = "uint32 \<times> uint32 \<times> uint32 \<times> uint32 list"

definition u32s :: "uint32 list \<Rightarrow> uint8 list" where "u32s vs = concat (map u32_bytes vs)"

text \<open>A run of \<open>hfi_create_packet\<close> calls, each with the next packet id, up to the first that fails.\<close>

fun create_packets ::
  "hfi_core \<Rightarrow> uint8 list option \<Rightarrow> uint32 \<Rightarrow> pkt_spec list \<Rightarrow> (int \<times> hfi_core \<times> uint8 list option) option" where
  "create_packets core pkt pkt_size [] = Some (0, core, pkt)"
| "create_packets core pkt pkt_size ((ty, fl, info, payload) # ps) = do {
    (rc, pkt) \<leftarrow> hfi_create_packet pkt pkt_size ty fl info HFI_PORT_NONE (core_packet_id core)
      (if payload = [] then None else Some (u32s payload)) (of_nat (4 * length payload));
    let core = core\<lparr>core_packet_id := core_packet_id core + 1\<rparr>;
    if rc \<noteq> 0 then Some (rc, core, pkt) else create_packets core pkt pkt_size ps
  }"

text \<open>A command of the system session: the header, then the packets.\<close>

definition sys_command ::
  "(hfi_core \<Rightarrow> hfi_core) \<Rightarrow> pkt_spec list \<Rightarrow> hfi_core \<Rightarrow> uint8 list option \<Rightarrow> uint32
    \<Rightarrow> (int \<times> hfi_core \<times> uint8 list option) option" where
  "sys_command f ps core pkt pkt_size = do {
    (rc, pkt) \<leftarrow> hfi_create_header pkt pkt_size 0 (core_header_id core);
    let core = core\<lparr>core_header_id := core_header_id core + 1\<rparr>;
    if rc \<noteq> 0 then Some (rc, core, pkt) else create_packets (f core) pkt pkt_size ps
  }"

definition sys_init_packets :: "hfi_core \<Rightarrow> pkt_spec list" where
  "sys_init_packets core =
    (let u = ubwc_config core; none = HFI_HOST_FLAGS_NONE; w = HFI_PAYLOAD_U32 in
     [(HFI_CMD_INIT,
        HFI_HOST_FLAGS_RESPONSE_REQUIRED OR HFI_HOST_FLAGS_INTR_REQUIRED OR HFI_HOST_FLAGS_NON_DISCARDABLE,
        w, [HFI_VIDEO_ARCH_LX]),
      (HFI_PROP_UBWC_MAX_CHANNELS, none, w, [max_channels u]),
      (HFI_PROP_UBWC_MAL_LENGTH, none, w, [mal_length u]),
      (HFI_PROP_UBWC_HBB, none, w, [highest_bank_bit u]),
      (HFI_PROP_UBWC_BANK_SWZL_LEVEL1, none, w, [bank_swzl_level u]),
      (HFI_PROP_UBWC_BANK_SWZL_LEVEL2, none, w, [bank_swz2_level u]),
      (HFI_PROP_UBWC_BANK_SWZL_LEVEL3, none, w, [bank_swz3_level u]),
      (HFI_PROP_UBWC_BANK_SPREADING, none, w, [bank_spreading u])] @
     (if synx_fence_cap core
      then [(HFI_PROP_FENCE_CLIENT_DATA, none, HFI_PAYLOAD_U32_ARRAY,
             [synx_client_id core, synx_client_flags core])]
      else []))"

text \<open>The id of the first packet is kept, to recognise the answer.\<close>

definition hfi_packet_sys_init ::
  "hfi_core \<Rightarrow> uint8 list option \<Rightarrow> uint32 \<Rightarrow> (int \<times> hfi_core \<times> uint8 list option) option" where
  "hfi_packet_sys_init core =
    sys_command (\<lambda>core. core\<lparr>sys_init_id := core_packet_id core\<rparr>) (sys_init_packets core) core"

definition hfi_packet_image_version ::
  "hfi_core \<Rightarrow> uint8 list option \<Rightarrow> uint32 \<Rightarrow> (int \<times> hfi_core \<times> uint8 list option) option" where
  "hfi_packet_image_version = sys_command (\<lambda>core. core)
    [(HFI_PROP_IMAGE_VERSION,
      HFI_HOST_FLAGS_RESPONSE_REQUIRED OR HFI_HOST_FLAGS_INTR_REQUIRED OR HFI_HOST_FLAGS_GET_PROPERTY,
      HFI_PAYLOAD_NONE, [])]"

definition hfi_packet_sys_pc_prep ::
  "hfi_core \<Rightarrow> uint8 list option \<Rightarrow> uint32 \<Rightarrow> (int \<times> hfi_core \<times> uint8 list option) option" where
  "hfi_packet_sys_pc_prep = sys_command (\<lambda>core. core)
    [(HFI_CMD_POWER_COLLAPSE, HFI_HOST_FLAGS_NONE, HFI_PAYLOAD_NONE, [])]"

definition hfi_packet_sys_debug_config ::
  "hfi_core \<Rightarrow> uint8 list option \<Rightarrow> uint32 \<Rightarrow> uint32 \<Rightarrow> (int \<times> hfi_core \<times> uint8 list option) option" where
  "hfi_packet_sys_debug_config core pkt pkt_size debug_config = sys_command (\<lambda>core. core)
    [(HFI_PROP_DEBUG_CONFIG, HFI_HOST_FLAGS_NONE, HFI_PAYLOAD_U32_ENUM, [0]),
     (HFI_PROP_DEBUG_LOG_LEVEL, HFI_HOST_FLAGS_NONE, HFI_PAYLOAD_U32_ENUM, [debug_config])]
    core pkt pkt_size"

definition hfi_packet_sys_intraframe_powercollapse ::
  "hfi_core \<Rightarrow> uint8 list option \<Rightarrow> uint32 \<Rightarrow> uint32 \<Rightarrow> (int \<times> hfi_core \<times> uint8 list option) option" where
  "hfi_packet_sys_intraframe_powercollapse core pkt pkt_size enable = sys_command (\<lambda>core. core)
    [(HFI_PROP_INTRA_FRAME_POWER_COLLAPSE, HFI_HOST_FLAGS_NONE, HFI_PAYLOAD_U32, [enable])]
    core pkt pkt_size"

text \<open>A command of a session, built in the session's buffer.\<close>

definition hfi_packet_session_command ::
  "hfi_core \<Rightarrow> uint8 list option \<Rightarrow> uint32 \<Rightarrow> uint32 \<Rightarrow> uint32 \<Rightarrow> uint32 \<Rightarrow> uint32 \<Rightarrow> uint32 \<Rightarrow> uint8 list option \<Rightarrow> uint32
    \<Rightarrow> (int \<times> hfi_core \<times> uint8 list option) option" where
  "hfi_packet_session_command core pkt pkt_size pkt_type flags port session_id payload_type payload payload_size = do {
    (rc, pkt) \<leftarrow> hfi_create_header pkt pkt_size session_id (core_header_id core);
    let core = core\<lparr>core_header_id := core_header_id core + 1\<rparr>;
    if rc \<noteq> 0 then Some (rc, core, pkt)
    else do {
      (rc, pkt) \<leftarrow> hfi_create_packet pkt pkt_size pkt_type flags payload_type port (core_packet_id core)
        payload payload_size;
      Some (rc, core\<lparr>core_packet_id := core_packet_id core + 1\<rparr>, pkt)
    }
  }"

section \<open>Responses\<close>

text \<open>
  \<open>validate_packet\<close>: \<open>off\<close> is the distance of the packet from the response buffer \<open>buf\<close>, whose size the
  driver takes to be \<open>buf_size\<close>.
\<close>

definition validate_packet :: "nat \<Rightarrow> uint8 list \<Rightarrow> uint32 \<Rightarrow> int option" where
  "validate_packet off buf buf_size =
    (if buf_size = 0 then Some (- EINVAL)
     else if off > unat buf_size then Some (- EINVAL)
     else do {
       response_pkt_size \<leftarrow> get_u32 buf off;
       Some (if response_pkt_size = 0 then - EINVAL
         else if unat response_pkt_size < sizeof_hfi_packet then - EINVAL
         else if off + unat response_pkt_size > unat buf_size then - EINVAL
         else 0)
     })"

text \<open>The loop of \<open>validate_hdr_packet\<close>, and the function; the header is at the start of the buffer.\<close>

fun validate_packets :: "nat \<Rightarrow> nat \<Rightarrow> uint8 list \<Rightarrow> uint32 \<Rightarrow> int option" where
  "validate_packets 0 off buf buf_size = Some 0"
| "validate_packets (Suc n) off buf buf_size = do {
    rc \<leftarrow> validate_packet off buf buf_size;
    if rc \<noteq> 0 then Some rc
    else do {
      packet_size \<leftarrow> get_u32 buf off;
      validate_packets n (off + unat packet_size) buf buf_size
    }
  }"

definition validate_hdr_packet :: "uint8 list \<Rightarrow> uint32 \<Rightarrow> int option" where
  "validate_hdr_packet buf buf_size = do {
    hdr_size \<leftarrow> get_u32 buf 0;
    if unat hdr_size < sizeof_hfi_header + sizeof_hfi_packet then Some (- EINVAL)
    else do {
      num_packets \<leftarrow> get_u32 buf 28;
      validate_packets (unat num_packets) sizeof_hfi_header buf buf_size
    }
  }"

end
