(* ===== verification/Vidc_Hfi_Core.thy ===== *)
theory Vidc_Hfi_Core
  imports Vidc_Hfi_Queue Vidc_Hfi_Packet
begin

text \<open>
  The interface queues of the video core: the calls of \<open>venus_hfi_queue.c\<close> that the rest of the driver
  uses.  The core has three queues, for commands, messages and debug output.  Memory management is
  behind a table of function pointers (\<open>mem_ops\<close>), whose implementations call the kernel's DMA
  interface: a parameter.
\<close>

section \<open>The core\<close>

datatype msm_vidc_core_state =
  MSM_VIDC_CORE_DEINIT | MSM_VIDC_CORE_INIT_WAIT | MSM_VIDC_CORE_INIT | MSM_VIDC_CORE_ERROR

datatype vidc_iface_q = CMDQ | MSGQ | DBGQ

datatype msm_vidc_device_region = MSM_VIDC_AON | MSM_VIDC_PROTOCOL_FENCE_CLIENT_VPU | MSM_VIDC_QTIMER

datatype msm_vidc_buffer_region =
  MSM_VIDC_REGION_NONE | MSM_VIDC_NON_SECURE | MSM_VIDC_NON_SECURE_PIXEL | MSM_VIDC_SECURE_PIXEL
  | MSM_VIDC_SECURE_NONPIXEL | MSM_VIDC_SECURE_BITSTREAM | MSM_VIDC_REGION_MAX

text \<open>The fields of \<open>struct msm_vidc_mem\<close> the queues use; \<open>kvaddr\<close> is the memory itself.\<close>

record msm_vidc_mem =
  mem_region :: msm_vidc_buffer_region
  mem_sz :: uint32
  mem_secure :: bool
  mem_map_kernel :: bool
  mem_kvaddr :: "uint8 list option"
  mem_device_addr :: uint64
  mem_phys_addr :: uint64

definition mem0 :: msm_vidc_mem where
  "mem0 = \<lparr>mem_region = MSM_VIDC_REGION_NONE, mem_sz = 0, mem_secure = False, mem_map_kernel = False,
    mem_kvaddr = None, mem_device_addr = 0, mem_phys_addr = 0\<rparr>"

record msm_vidc_mem_addr = q_array +
  ma_mem :: msm_vidc_mem

record device_region_info =
  dr_region :: msm_vidc_device_region
  dr_phy_addr :: uint64
  dr_size :: uint32
  dr_dev_addr :: uint32

record hfi_queue_table_header =
  qtbl_version :: uint32
  qtbl_size :: uint32
  qtbl_qhdr0_offset :: uint32
  qtbl_qhdr_size :: uint32
  qtbl_num_q :: uint32
  qtbl_num_active_q :: uint32
  qtbl_name :: string

text \<open>
  The fields of \<open>struct msm_vidc_core\<close> that are used here; the pointer \<open>state_handle\<close> is the state whose
  handler it points to, and \<open>core_ids\<close> are the fields the commands are made of.
\<close>

record msm_vidc_core =
  core_lock_held :: bool
  core_state :: msm_vidc_core_state
  core_state_handle :: "msm_vidc_core_state option"
  core_sub_state :: uint32
  iface_q_table :: msm_vidc_mem_addr
  q_tbl_hdr :: "hfi_queue_table_header option"
  iface_queues :: "vidc_iface_q \<Rightarrow> msm_vidc_iface_q_info"
  core_sfr :: msm_vidc_mem_addr
  aon_reg :: msm_vidc_mem_addr
  fence_reg :: msm_vidc_mem_addr
  qtimer_reg :: msm_vidc_mem_addr
  mmap_buf :: msm_vidc_mem_addr
  synx_fence_queue :: msm_vidc_mem
  supports_synx_fence :: bool
  device_region_tbl :: "device_region_info list"
  core_packet :: "uint8 list option"
  core_packet_size :: uint32
  core_ids :: hfi_core

text \<open>\<open>mem_ops\<close>: each call takes the memory's descriptor and returns a code and the descriptor.\<close>

record 'w msm_vidc_memory_ops =
  op_alloc_map :: "'w \<Rightarrow> msm_vidc_mem \<Rightarrow> int \<times> msm_vidc_mem \<times> 'w"
  op_unmap_free :: "'w \<Rightarrow> msm_vidc_mem \<Rightarrow> msm_vidc_mem \<times> 'w"
  op_dma_map_page :: "'w \<Rightarrow> msm_vidc_mem \<Rightarrow> int \<times> msm_vidc_mem \<times> 'w"
  op_dma_unmap_page :: "'w \<Rightarrow> msm_vidc_mem \<Rightarrow> msm_vidc_mem \<times> 'w"
  op_iommu_map :: "'w \<Rightarrow> msm_vidc_mem \<Rightarrow> int \<times> msm_vidc_mem \<times> 'w"
  op_iommu_unmap :: "'w \<Rightarrow> msm_vidc_mem \<Rightarrow> msm_vidc_mem \<times> 'w"

section \<open>Commands and messages\<close>

definition strict_check :: "msm_vidc_core \<Rightarrow> int" where
  "strict_check core = (if core_lock_held core then 0 else - EINVAL)"

definition core_in_valid_state :: "msm_vidc_core \<Rightarrow> bool" where
  "core_in_valid_state core \<longleftrightarrow>
    core_state core = MSM_VIDC_CORE_INIT \<or> core_state core = MSM_VIDC_CORE_INIT_WAIT"

definition core_with :: "msm_vidc_core \<Rightarrow> vidc_iface_q \<Rightarrow> msm_vidc_iface_q_info \<Rightarrow> msm_vidc_core" where
  "core_with core i q = core\<lparr>iface_queues := (iface_queues core)(i := q)\<rparr>"

text \<open>
  \<open>__iface_cmdq_write_relaxed\<close>.  The initial value of \<open>rc\<close> is overwritten by the result of the check, and
  a failure of \<open>__write_queue\<close> leaves \<open>rc\<close> as it is.
\<close>

definition iface_cmdq_write_relaxed ::
  "msm_vidc_core \<Rightarrow> uint8 list option \<Rightarrow> bool \<Rightarrow> (int \<times> msm_vidc_core \<times> bool) option" where
  "iface_cmdq_write_relaxed core pkt requires_interrupt =
    (let rc = - E2BIG;
         rc = strict_check core in
     if rc \<noteq> 0 then Some (rc, core, requires_interrupt)
     else if \<not> core_in_valid_state core then Some (- EINVAL, core, requires_interrupt)
     else
      (let q_info = iface_queues core CMDQ in
       if align_virtual_addr (q_arr q_info) = None then Some (- ENODATA, core, requires_interrupt)
       else do {
         (w, q_info, requires_interrupt) \<leftarrow> write_queue q_info pkt requires_interrupt;
         Some (if w = 0 then 0 else rc, core_with core CMDQ q_info, requires_interrupt)
       }))"

text \<open>The last component of the result says whether the firmware got an interrupt.\<close>

definition venus_hfi_queue_cmd_write ::
  "msm_vidc_core \<Rightarrow> uint8 list option \<Rightarrow> (int \<times> msm_vidc_core \<times> bool) option" where
  "venus_hfi_queue_cmd_write core pkt = do {
    (rc, core, needs_interrupt) \<leftarrow> iface_cmdq_write_relaxed core pkt False;
    Some (rc, core, rc = 0 \<and> needs_interrupt)
  }"

definition venus_hfi_queue_cmd_write_intr ::
  "msm_vidc_core \<Rightarrow> uint8 list option \<Rightarrow> bool \<Rightarrow> (int \<times> msm_vidc_core \<times> bool) option" where
  "venus_hfi_queue_cmd_write_intr core pkt allow_intr = do {
    (rc, core, needs_interrupt) \<leftarrow> iface_cmdq_write_relaxed core pkt False;
    Some (rc, core, rc = 0 \<and> allow_intr \<and> needs_interrupt)
  }"

definition venus_hfi_queue_msg_read ::
  "msm_vidc_core \<Rightarrow> uint8 list option \<Rightarrow> (int \<times> msm_vidc_core \<times> uint8 list option) option" where
  "venus_hfi_queue_msg_read core pkt =
    (if pkt = None then Some (- EINVAL, core, pkt)
     else if \<not> core_in_valid_state core then Some (- EINVAL, core, pkt)
     else
      (let q_info = iface_queues core MSGQ in
       if align_virtual_addr (q_arr q_info) = None then Some (- ENODATA, core, pkt)
       else do {
         (r, q_info, pkt, tx_req_is_set) \<leftarrow> read_queue q_info pkt 0;
         Some (if r = 0 then if tx_req_is_set \<noteq> 0 then - EINVAL else 0 else - ENODATA,
           core_with core MSGQ q_info, pkt)
       }))"

definition venus_hfi_queue_dbg_read ::
  "msm_vidc_core \<Rightarrow> uint8 list option \<Rightarrow> (int \<times> msm_vidc_core \<times> uint8 list option) option" where
  "venus_hfi_queue_dbg_read core pkt =
    (if pkt = None then Some (- EINVAL, core, pkt)
     else
      (let q_info = iface_queues core DBGQ in
       if align_virtual_addr (q_arr q_info) = None then Some (- ENODATA, core, pkt)
       else do {
         (r, q_info, pkt, tx_req_is_set) \<leftarrow> read_queue q_info pkt 0;
         Some (if r = 0 then if tx_req_is_set \<noteq> 0 then - EINVAL else 0 else - ENODATA,
           core_with core DBGQ q_info, pkt)
       }))"

section \<open>Setting up the queues\<close>

text \<open>Sizes, with the structures laid out for 64-bit kernels: seven fields and a name, fourteen words.\<close>

definition sizeof_hfi_queue_table_header :: nat where "sizeof_hfi_queue_table_header = 6 * 4 + 8 + 256"
definition sizeof_hfi_queue_header :: nat where "sizeof_hfi_queue_header = 14 * 4"

definition VIDC_IFACEQ_TABLE_SIZE :: nat where
  "VIDC_IFACEQ_TABLE_SIZE = sizeof_hfi_queue_table_header + sizeof_hfi_queue_header * VIDC_IFACEQ_NUMQ"

definition align_up :: "nat \<Rightarrow> nat \<Rightarrow> nat" where
  "align_up x a = (x + a - 1) div a * a"

definition ALIGNED_QUEUE_SIZE :: nat where
  "ALIGNED_QUEUE_SIZE =
    align_up (VIDC_IFACEQ_TABLE_SIZE + unat VIDC_IFACEQ_QUEUE_SIZE * VIDC_IFACEQ_NUMQ) 4096"

definition ALIGNED_SFR_SIZE :: nat where "ALIGNED_SFR_SIZE = align_up 4096 4096"
definition ALIGNED_QDSS_SIZE :: nat where "ALIGNED_QDSS_SIZE = align_up 4096 4096"
definition ALIGNED_MMAP_BUF_SIZE :: nat where "ALIGNED_MMAP_BUF_SIZE = align_up 4096 4096"

definition SHARED_QSIZE :: nat where
  "SHARED_QSIZE =
    align_up (ALIGNED_SFR_SIZE + ALIGNED_QUEUE_SIZE + ALIGNED_QDSS_SIZE + ALIGNED_MMAP_BUF_SIZE) 1048576"

definition TOTAL_QSIZE :: nat where
  "TOTAL_QSIZE = SHARED_QSIZE - ALIGNED_SFR_SIZE - ALIGNED_QDSS_SIZE - ALIGNED_MMAP_BUF_SIZE"

text \<open>\<open>VIDC_IFACEQ_GET_QHDR_START_ADDR\<close>, as an offset.\<close>

definition qhdr_start :: "nat \<Rightarrow> nat" where
  "qhdr_start i = sizeof_hfi_queue_table_header + i * sizeof_hfi_queue_header"

text \<open>The position of a queue's array in the memory of the queues.\<close>

definition q_array_start :: "nat \<Rightarrow> nat" where
  "q_array_start i = VIDC_IFACEQ_TABLE_SIZE + i * unat VIDC_IFACEQ_QUEUE_SIZE"

fun vidc_iface_idx :: "vidc_iface_q \<Rightarrow> nat" where
  "vidc_iface_idx CMDQ = VIDC_IFACEQ_CMDQ_IDX"
| "vidc_iface_idx MSGQ = VIDC_IFACEQ_MSGQ_IDX"
| "vidc_iface_idx DBGQ = VIDC_IFACEQ_DBGQ_IDX"

text \<open>A queue header as it is found in memory.\<close>

definition qhdr_at :: "uint8 list \<Rightarrow> nat \<Rightarrow> hfi_queue_header" where
  "qhdr_at m off =
    (let w = (\<lambda>i. u32_of_bytes (slice m (off + 4 * i) 4)) in
     \<lparr>qhdr_status = w 0, qhdr_start_addr = w 1, qhdr_type = w 2, qhdr_q_size = w 3, qhdr_pkt_size = w 4,
      qhdr_pkt_drop_cnt = w 5, qhdr_rx_wm = w 6, qhdr_tx_wm = w 7, qhdr_rx_req = w 8, qhdr_tx_req = w 9,
      qhdr_rx_irq_status = w 10, qhdr_tx_irq_status = w 11, qhdr_read_idx = w 12, qhdr_write_idx = w 13\<rparr>)"

definition q_upd_hdr ::
  "(hfi_queue_header \<Rightarrow> hfi_queue_header) \<Rightarrow> vidc_iface_q \<Rightarrow> msm_vidc_core \<Rightarrow> msm_vidc_core option" where
  "q_upd_hdr f i core =
    (case q_hdr (iface_queues core i) of None \<Rightarrow> None
     | Some h \<Rightarrow> Some (core_with core i ((iface_queues core i)\<lparr>q_hdr := Some (f h)\<rparr>)))"

text \<open>The addresses and the ids of the three queues (the same lines in both callers).\<close>

definition set_queue_ids :: "msm_vidc_core \<Rightarrow> msm_vidc_core option" where
  "set_queue_ids core = do {
    let start = (\<lambda>i. align_device_addr (q_arr (iface_queues core i)));
    core \<leftarrow> q_upd_hdr (\<lambda>h. h\<lparr>qhdr_start_addr := start CMDQ,
      qhdr_type := qhdr_type h OR HFI_Q_ID_HOST_TO_CTRL_CMD_Q\<rparr>) CMDQ core;
    core \<leftarrow> q_upd_hdr (\<lambda>h. h\<lparr>qhdr_start_addr := start MSGQ,
      qhdr_type := qhdr_type h OR HFI_Q_ID_CTRL_TO_HOST_MSG_Q\<rparr>) MSGQ core;
    q_upd_hdr (\<lambda>h. h\<lparr>qhdr_start_addr := start DBGQ,
      qhdr_type := qhdr_type h OR HFI_Q_ID_CTRL_TO_HOST_DEBUG_Q, qhdr_rx_req := 0\<rparr>) DBGQ core
  }"

definition venus_hfi_reset_queue_header :: "msm_vidc_core \<Rightarrow> (int \<times> msm_vidc_core) option" where
  "venus_hfi_reset_queue_header core = do {
    core \<leftarrow> q_upd_hdr set_queue_hdr_defaults CMDQ core;
    core \<leftarrow> q_upd_hdr set_queue_hdr_defaults MSGQ core;
    core \<leftarrow> q_upd_hdr set_queue_hdr_defaults DBGQ core;
    core \<leftarrow> set_queue_ids core;
    Some (0, core)
  }"

text \<open>\<open>venus_hfi_get_device_region_info\<close>\<close>

definition venus_hfi_get_device_region_info ::
  "msm_vidc_core \<Rightarrow> msm_vidc_device_region \<Rightarrow> device_region_info option" where
  "venus_hfi_get_device_region_info core region =
    List.find (\<lambda>d. dr_region d = region) (device_region_tbl core)"

definition venus_hfi_iommu_map_registers ::
  "'w msm_vidc_memory_ops \<Rightarrow> 'w \<Rightarrow> msm_vidc_core \<Rightarrow> msm_vidc_device_region \<Rightarrow> msm_vidc_buffer_region
    \<Rightarrow> msm_vidc_mem_addr \<Rightarrow> int \<times> msm_vidc_mem_addr \<times> 'w" where
  "venus_hfi_iommu_map_registers ops w core reg_region buf_region core_mem =
    (case venus_hfi_get_device_region_info core reg_region of
       None \<Rightarrow> (0, core_mem, w)
     | Some dev_reg \<Rightarrow>
        let mem = mem0\<lparr>mem_region := buf_region, mem_phys_addr := dr_phy_addr dev_reg,
                       mem_sz := dr_size dev_reg, mem_device_addr := ucast (dr_dev_addr dev_reg)\<rparr>;
            (rc, mem, w) = op_iommu_map ops w mem in
        if rc \<noteq> 0 then (- ENOMEM, core_mem, w)
        else (0, core_mem\<lparr>align_device_addr := ucast (mem_device_addr mem), ma_mem := mem\<rparr>, w))"

text \<open>
  The loop over the queues.  The table header, the queue headers and the arrays are disjoint parts of one
  allocation (\<open>queue_layout\<close> below), and are kept as separate objects here.
\<close>

fun init_queues ::
  "msm_vidc_mem \<Rightarrow> uint8 list \<Rightarrow> nat \<Rightarrow> vidc_iface_q list \<Rightarrow> msm_vidc_core \<Rightarrow> msm_vidc_core" where
  "init_queues mem kv offset [] core = core"
| "init_queues mem kv offset (i # is) core =
    init_queues mem kv (offset + unat VIDC_IFACEQ_QUEUE_SIZE) is
      (core_with core i
        \<lparr>q_hdr = Some (set_queue_hdr_defaults (qhdr_at kv (qhdr_start (vidc_iface_idx i)))),
         q_arr = \<lparr>align_device_addr = ucast (mem_device_addr mem + of_nat offset),
                  align_virtual_addr = Some (slice kv offset (unat VIDC_IFACEQ_QUEUE_SIZE)),
                  q_mem_size = VIDC_IFACEQ_QUEUE_SIZE\<rparr>\<rparr>)"

text \<open>From the allocated memory to the queues; the memory must be large enough for them.\<close>

definition set_up_queues :: "msm_vidc_mem \<Rightarrow> msm_vidc_core \<Rightarrow> msm_vidc_core option" where
  "set_up_queues mem core = do {
    kv \<leftarrow> mem_kvaddr mem;
    if length kv < q_array_start VIDC_IFACEQ_NUMQ then None
    else do {
      let core = core\<lparr>iface_q_table := \<lparr>align_device_addr = ucast (mem_device_addr mem),
        align_virtual_addr = Some kv, q_mem_size = of_nat VIDC_IFACEQ_TABLE_SIZE, ma_mem = mem\<rparr>\<rparr>;
      let core = init_queues mem kv VIDC_IFACEQ_TABLE_SIZE [CMDQ, MSGQ, DBGQ] core;
      let core = core\<lparr>q_tbl_hdr := Some \<lparr>qtbl_version = 0,
        qtbl_size = of_nat VIDC_IFACEQ_TABLE_SIZE,
        qtbl_qhdr0_offset = of_nat sizeof_hfi_queue_table_header,
        qtbl_qhdr_size = of_nat sizeof_hfi_queue_header,
        qtbl_num_q = of_nat VIDC_IFACEQ_NUMQ, qtbl_num_active_q = of_nat VIDC_IFACEQ_NUMQ,
        qtbl_name = ''msm_v4l2_vidc''\<rparr>\<rparr>;
      set_queue_ids core
    }
  }"

text \<open>The memory of the queues, the SFR buffer and the mmap buffer is asked for in the same way.\<close>

definition vidc_alloc ::
  "'w msm_vidc_memory_ops \<Rightarrow> 'w \<Rightarrow> nat \<Rightarrow> int \<times> msm_vidc_mem \<times> 'w" where
  "vidc_alloc ops w n = op_alloc_map ops w
    (mem0\<lparr>mem_region := MSM_VIDC_NON_SECURE, mem_sz := of_nat n, mem_secure := False,
          mem_map_kernel := True\<rparr>)"

text \<open>The address and size of a region in the payload of \<open>HFI_MMAP_ADDR\<close>.\<close>

definition mmap_entry :: "nat \<Rightarrow> msm_vidc_mem \<Rightarrow> uint8 list \<Rightarrow> uint8 list option" where
  "mmap_entry i mem bs =
    (if mem_device_addr mem \<noteq> 0 then do {
       bs \<leftarrow> put_u32 bs (4 * i) (ucast (mem_device_addr mem));
       put_u32 bs (4 * (i + 1)) (mem_sz mem)
     } else Some bs)"

definition init_mmap_buf :: "msm_vidc_mem \<Rightarrow> msm_vidc_core \<Rightarrow> msm_vidc_core option" where
  "init_mmap_buf mem core = do {
    payload \<leftarrow> mem_kvaddr mem;
    payload \<leftarrow> mem_zero payload 0 ALIGNED_MMAP_BUF_SIZE;
    payload \<leftarrow> put_u32 payload 0 1;
    payload \<leftarrow> mmap_entry 11 (ma_mem (aon_reg core)) payload;
    payload \<leftarrow> mmap_entry 13 (synx_fence_queue core) payload;
    payload \<leftarrow> mmap_entry 19 (ma_mem (fence_reg core)) payload;
    payload \<leftarrow> mmap_entry 21 (ma_mem (qtimer_reg core)) payload;
    Some (core\<lparr>mmap_buf := \<lparr>align_device_addr = ucast (mem_device_addr mem),
      align_virtual_addr = Some payload, q_mem_size = of_nat ALIGNED_MMAP_BUF_SIZE, ma_mem = mem\<rparr>\<rparr>)
  }"

text \<open>The second half of the set-up: SFR buffer, fence queue, registers, mmap buffer.\<close>

definition venus_hfi_queue_init_rest ::
  "'w msm_vidc_memory_ops \<Rightarrow> 'w \<Rightarrow> msm_vidc_core \<Rightarrow> (int \<times> msm_vidc_core \<times> 'w) option" where
  "venus_hfi_queue_init_rest ops w core =
    (let (rc, mem, w) = vidc_alloc ops w ALIGNED_SFR_SIZE in
     if rc \<noteq> 0 then Some (- ENOMEM, core, w)
     else do {
       kv \<leftarrow> mem_kvaddr mem;
       kv \<leftarrow> put_u32 kv 0 (of_nat ALIGNED_SFR_SIZE);
       let core = core\<lparr>core_sfr := \<lparr>align_device_addr = ucast (mem_device_addr mem),
         align_virtual_addr = Some kv, q_mem_size = of_nat ALIGNED_SFR_SIZE, ma_mem = mem\<rparr>\<rparr>;
       let (rc, q, w) = (if supports_synx_fence core then op_dma_map_page ops w (synx_fence_queue core)
                         else (0, synx_fence_queue core, w));
       let core = core\<lparr>synx_fence_queue := q\<rparr>;
       if rc \<noteq> 0 then Some (- ENOMEM, core, w)
       else do {
         let (rc, r, w) = venus_hfi_iommu_map_registers ops w core MSM_VIDC_AON MSM_VIDC_NON_SECURE
           (aon_reg core);
         let core = core\<lparr>aon_reg := r\<rparr>;
         if rc \<noteq> 0 then Some (rc, core, w)
         else do {
           let (rc, r, w) = venus_hfi_iommu_map_registers ops w core MSM_VIDC_PROTOCOL_FENCE_CLIENT_VPU
             MSM_VIDC_NON_SECURE (fence_reg core);
           let core = core\<lparr>fence_reg := r\<rparr>;
           if rc \<noteq> 0 then Some (rc, core, w)
           else do {
             let (rc, r, w) = venus_hfi_iommu_map_registers ops w core MSM_VIDC_QTIMER
               MSM_VIDC_NON_SECURE (qtimer_reg core);
             let core = core\<lparr>qtimer_reg := r\<rparr>;
             if rc \<noteq> 0 then Some (rc, core, w)
             else do {
               let (rc, mem, w) = vidc_alloc ops w ALIGNED_MMAP_BUF_SIZE;
               if rc \<noteq> 0 then Some (- ENOMEM, core, w)
               else do {
                 core \<leftarrow> init_mmap_buf mem core;
                 Some (0, core, w)
               }
             }
           }
         }
       }
     })"

definition venus_hfi_queue_init ::
  "'w msm_vidc_memory_ops \<Rightarrow> 'w \<Rightarrow> msm_vidc_core \<Rightarrow> (int \<times> msm_vidc_core \<times> 'w) option" where
  "venus_hfi_queue_init ops w core =
    (if align_virtual_addr (iface_q_table core) \<noteq> None then do {
       (_, core) \<leftarrow> venus_hfi_reset_queue_header core;
       Some (0, core, w)
     } else
      (let (rc, mem, w) = vidc_alloc ops w TOTAL_QSIZE in
       if rc \<noteq> 0 then Some (- ENOMEM, core, w)
       else do {
         core \<leftarrow> set_up_queues mem core;
         venus_hfi_queue_init_rest ops w core
       }))"

text \<open>Taking the queues down.\<close>

definition clear_addrs :: "'a q_array_scheme \<Rightarrow> 'a q_array_scheme" where
  "clear_addrs a = a\<lparr>align_virtual_addr := None, align_device_addr := 0\<rparr>"

definition clear_queue :: "msm_vidc_iface_q_info \<Rightarrow> msm_vidc_iface_q_info" where
  "clear_queue q = q\<lparr>q_hdr := None, q_arr := clear_addrs (q_arr q)\<rparr>"

definition set_ma_mem :: "msm_vidc_mem_addr \<Rightarrow> msm_vidc_mem \<Rightarrow> msm_vidc_mem_addr" where
  "set_ma_mem a m = a\<lparr>ma_mem := m\<rparr>"

definition venus_hfi_queue_deinit ::
  "'w msm_vidc_memory_ops \<Rightarrow> 'w \<Rightarrow> msm_vidc_core \<Rightarrow> msm_vidc_core \<times> 'w" where
  "venus_hfi_queue_deinit ops w core =
    (if align_virtual_addr (iface_q_table core) = None then (core, w)
     else
      (let (m1, w) = op_unmap_free ops w (ma_mem (iface_q_table core));
           (m2, w) = op_unmap_free ops w (ma_mem (core_sfr core));
           (m3, w) = op_iommu_unmap ops w (ma_mem (aon_reg core));
           (m4, w) = op_iommu_unmap ops w (ma_mem (fence_reg core));
           (m5, w) = op_iommu_unmap ops w (ma_mem (qtimer_reg core));
           (m6, w) = op_unmap_free ops w (ma_mem (mmap_buf core));
           (m7, w) = op_dma_unmap_page ops w (synx_fence_queue core) in
       (core\<lparr>
         iface_queues := \<lambda>i. clear_queue (iface_queues core i),
         iface_q_table := clear_addrs (set_ma_mem (iface_q_table core) m1),
         q_tbl_hdr := None,
         core_sfr := clear_addrs (set_ma_mem (core_sfr core) m2),
         aon_reg := clear_addrs (set_ma_mem (aon_reg core) m3),
         fence_reg := clear_addrs (set_ma_mem (fence_reg core) m4),
         qtimer_reg := clear_addrs (set_ma_mem (qtimer_reg core) m5),
         mmap_buf := clear_addrs (set_ma_mem (mmap_buf core) m6),
         synx_fence_queue := m7\<rparr>, w)))"

end
