(* ===== verification/Vidc_Hfi_Fifo.thy ===== *)
theory Vidc_Hfi_Fifo
  imports Vidc_Hfi_Ring Vidc_Hfi_Core
begin

text \<open>
  The specification of a queue as a list of packets, the refinement of it by \<open>__write_queue\<close> and
  \<open>__read_queue\<close>, and what it gives for histories in which driver and firmware take turns.
\<close>

section \<open>Specification\<close>

text \<open>The capacity is in bytes; one word always stays free.\<close>

definition fifo_put :: "nat \<Rightarrow> uint8 list \<Rightarrow> uint8 list list \<Rightarrow> int \<times> uint8 list list" where
  "fifo_put cap p ps =
    (if length (concat ps) + length p < cap then (0, ps @ [p]) else (- ENOTEMPTY, ps))"

text \<open>A packet that is too long for the reader is dropped, and all others with it.\<close>

definition fifo_get :: "uint8 list list \<Rightarrow> int \<times> uint8 list option \<times> uint8 list list" where
  "fifo_get ps =
    (case ps of [] \<Rightarrow> (- ENODATA, None, [])
     | p # ps \<Rightarrow> if length p \<le> 4096 then (0, Some p, ps) else (- ENODATA, None, []))"

definition q_cap :: "msm_vidc_iface_q_info \<Rightarrow> nat" where
  "q_cap q = unat (q_mem_size (q_arr q))"

section \<open>Refinement\<close>

lemma q_with_same [simp]:
  "q_cap (q_with q h m) = q_cap q" "q_hdr (q_with q h m) = Some h"
  "align_virtual_addr (q_arr (q_with q h m)) = Some m"
  "q_mem_size (q_arr (q_with q h m)) = q_mem_size (q_arr q)"
  by (simp_all add: q_cap_def q_with_def)

lemma q_view_hdr:
  assumes "q_ok q h m" "q_bytes h m = concat ps" "\<forall>p\<in>set ps. hfi_pkt p"
    and "qhdr_read_idx h' = qhdr_read_idx h" "qhdr_write_idx h' = qhdr_write_idx h"
  shows "q_view (q_with q h' m) = Some ps"
proof (rule q_viewI)
  show "q_ok (q_with q h' m) h' m"
    using assms(1,4,5) by (simp add: q_ok_def)
  show "q_bytes h' m = concat ps"
    using assms(2,4,5) by (simp add: q_bytes_def q_used_def)
qed (rule assms(3))

lemma idx_in_range: "4 * unat r' = x mod length m \<Longrightarrow> 4 \<le> length m \<Longrightarrow> 4 dvd length m \<Longrightarrow> unat r' < length m div 4"
  for r' :: uint32
proof -
  assume a: "4 * unat r' = x mod length m" "4 \<le> length m" "4 dvd length m"
  have "4 * unat r' < length m" using a mod_less_divisor [of "length m" x] by linarith
  then show ?thesis using a(3) by (metis dvd_mult_div_cancel nat_mult_less_cancel_disj)
qed

lemma write_refines:
  assumes v: "q_view q = Some ps"
    and p: "pkt_len pkt \<noteq> 0" "pkt_len pkt \<le> length pkt" "pkt_len pkt \<le> q_cap q"
    and F: "fifo_put (q_cap q) (take (pkt_len pkt) pkt) ps = (rc, ps')"
  obtains q' where "write_queue q (Some pkt) rx = Some (rc, q', rc = 0 \<or> rx)"
    "q_view q' = Some ps'" "q_cap q' = q_cap q"
proof -
  obtain h m where q: "q_ok q h m" "q_bytes h m = concat ps" "\<forall>p\<in>set ps. hfi_pkt p"
    using q_view_SomeE [OF v] .
  have cap: "q_cap q = length m" using q(1) by (simp add: q_cap_def q_ok_def)
  have used: "length (concat ps) = q_used h m" using q_bytes_length [OF q(1)] by (simp add: q(2))
  have len: "length (take (pkt_len pkt) pkt) = pkt_len pkt" using p(2) by simp
  show thesis
  proof (cases "q_used h m + pkt_len pkt < length m")
    case True
    from write_queue_room [OF q(1) p(1,2) True, of rx] obtain w' where
      w: "write_queue q (Some pkt) rx = Some (0, q_with q (h\<lparr>qhdr_tx_req := 0, qhdr_write_idx := w'\<rparr>)
        (ring_put m (4 * unat (qhdr_write_idx h)) (take (pkt_len pkt) pkt)), True)"
      and w': "4 * unat w' = (4 * unat (qhdr_write_idx h) + pkt_len pkt) mod length m" .
    let ?h = "h\<lparr>qhdr_tx_req := 0, qhdr_write_idx := w'\<rparr>"
    let ?m = "ring_put m (4 * unat (qhdr_write_idx h)) (take (pkt_len pkt) pkt)"
    have "unat w' < length m div 4"
      using w' q_ok_pos [OF q(1)] q(1) by (intro idx_in_range) (simp_all add: q_ok_def)
    then have ok': "q_ok (q_with q ?h ?m) ?h ?m"
      using q(1) q_ok_idx [OF q(1)] True len
      by (intro q_with_ok [OF q(1)]) (simp_all add: length_ring_put q_ok_def)
    have b': "q_bytes ?h ?m = concat (ps @ [take (pkt_len pkt) pkt])"
      using q_bytes_write [OF q(1), of "take (pkt_len pkt) pkt" ?h] True w' len q(2) by simp
    have "\<forall>p\<in>set (ps @ [take (pkt_len pkt) pkt]). hfi_pkt p"
      using q(3) hfi_pkt_take [OF p(1,2)] by simp
    moreover have "rc = 0" "ps' = ps @ [take (pkt_len pkt) pkt]"
      using F True unfolding fifo_put_def cap used len by simp_all
    ultimately show thesis
      using that [of "q_with q ?h ?m"] w q_viewI [OF ok' b'] by simp
  next
    case False
    have "4 \<le> length pkt" using pkt_len_ge4 [OF p(1)] p(2) by simp
    with False have "write_queue q (Some pkt) rx = Some (- ENOTEMPTY, q_with q (h\<lparr>qhdr_tx_req := 1\<rparr>) m, rx)"
      using p by (intro write_queue_full [OF q(1)]) (simp_all add: cap)
    moreover have "q_view (q_with q (h\<lparr>qhdr_tx_req := 1\<rparr>) m) = Some ps"
      by (rule q_view_hdr [OF q]) simp_all
    moreover have "rc = - ENOTEMPTY" "ps' = ps"
      using F False unfolding fifo_put_def cap used len by simp_all
    ultimately show thesis
      using that [of "q_with q (h\<lparr>qhdr_tx_req := 1\<rparr>) m"] by simp
  qed
qed

lemma read_refines:
  assumes v: "q_view q = Some ps" and buf: "4096 \<le> length buf"
    and F: "fifo_get ps = (rc, d, ps')"
  obtains q' tx where "read_queue q (Some buf) t =
      Some (rc, q', Some (case d of None \<Rightarrow> buf | Some p \<Rightarrow> overwrite buf 0 p), tx)"
    "q_view q' = Some ps'" "q_cap q' = q_cap q"
    "\<And>h. q_hdr q = Some h \<Longrightarrow> tx = (if ps = [] then 0 else tx_req_flag h)"
proof -
  obtain h m where q: "q_ok q h m" "q_bytes h m = concat ps" "\<forall>p\<in>set ps. hfi_pkt p"
    using q_view_SomeE [OF v] .
  have used: "length (concat ps) = q_used h m" using q_bytes_length [OF q(1)] by (simp add: q(2))
  show thesis
  proof (cases ps)
    case Nil
    let ?h = "h\<lparr>qhdr_rx_req := receive_request h\<rparr>"
    have "q_view (q_with q ?h m) = Some ps" by (rule q_view_hdr [OF q]) simp_all
    moreover have "rc = - ENODATA" "d = None" "ps' = []"
      using F by (simp_all add: fifo_get_def Nil)
    ultimately show thesis
      using that [of "q_with q ?h m" 0] read_queue_empty [OF q(1), of buf t] used Nil by simp
  next
    case (Cons p rest)
    have b: "q_bytes h m = p @ concat rest" and p: "hfi_pkt p" and r: "\<forall>p\<in>set rest. hfi_pkt p"
      using q Cons by simp_all
    show thesis
    proof (cases "length p \<le> 4096")
      case True
      from read_queue_head [OF q(1) b p True order_trans [OF True buf], of t] obtain r' where
        R: "read_queue q (Some buf) t = Some (0,
          q_with q (h\<lparr>qhdr_rx_req := receive_request h, qhdr_read_idx := r'\<rparr>) m,
          Some (overwrite buf 0 p), tx_req_flag h)"
        and r': "4 * unat r' = (4 * unat (qhdr_read_idx h) + length p) mod length m" .
      let ?h = "h\<lparr>qhdr_rx_req := receive_request h, qhdr_read_idx := r'\<rparr>"
      have "unat r' < length m div 4"
        using r' q_ok_pos [OF q(1)] q(1) by (intro idx_in_range) (simp_all add: q_ok_def)
      then have "q_ok (q_with q ?h m) ?h m"
        using q(1) by (intro q_with_ok [OF q(1)]) (simp_all add: q_ok_def)
      moreover have "q_bytes ?h m = concat rest"
        using r' by (intro q_bytes_read [OF q(1) b]) simp_all
      ultimately have "q_view (q_with q ?h m) = Some rest"
        using r by (intro q_viewI)
      moreover have e: "rc = 0" "d = Some p" "ps' = rest"
        using F by (simp_all add: fifo_get_def Cons True)
      ultimately show thesis
        using R by (intro that [of "q_with q ?h m" "tx_req_flag h"]) (simp_all add: q_okD [OF q(1)] Cons)
    next
      case False
      let ?h = "h\<lparr>qhdr_rx_req := receive_request h, qhdr_read_idx := qhdr_write_idx h\<rparr>"
      have ok: "q_ok (q_with q ?h m) ?h m"
        using q(1) by (intro q_with_ok [OF q(1)]) (simp_all add: q_ok_def)
      have "q_used ?h m = 0" using q_empty_iff [OF ok] by simp
      then have "q_view (q_with q ?h m) = Some []"
        using q_bytes_length [OF ok] by (intro q_viewI [OF ok]) simp_all
      moreover have "read_queue q (Some buf) t = Some (- ENODATA, q_with q ?h m, Some buf, tx_req_flag h)"
        using False by (intro read_queue_huge [OF q(1) b p]) simp
      moreover have "rc = - ENODATA" "d = None" "ps' = []"
        using F by (simp_all add: fifo_get_def Cons False)
      ultimately show thesis
        by (intro that [of "q_with q ?h m" "tx_req_flag h"]) (simp_all add: q_okD [OF q(1)] Cons)
    qed
  qed
qed

end
