(* ===== verification/Vidc_Hfi_Run.thy ===== *)
theory Vidc_Hfi_Run
  imports Vidc_Hfi_Fifo "HOL-Library.Sublist"
begin

text \<open>
  The calls on the command and message queues in terms of the views, and histories of them in which the
  firmware takes commands and sends messages.
\<close>

section \<open>Calls\<close>

text \<open>A buffer that holds the packet its first word announces.\<close>

definition holds_pkt :: "uint8 list \<Rightarrow> bool" where
  "holds_pkt pkt \<longleftrightarrow> 4 \<le> length pkt \<and> pkt_len pkt \<le> length pkt"

definition queue_view :: "msm_vidc_core \<Rightarrow> vidc_iface_q \<Rightarrow> uint8 list list option" where
  "queue_view core i = q_view (iface_queues core i)"

text \<open>A command that can be written at all, and one that fits behind the commands waiting.\<close>

definition cmd_fits :: "msm_vidc_core \<Rightarrow> uint8 list list \<Rightarrow> uint8 list \<Rightarrow> bool" where
  "cmd_fits core ps pkt \<longleftrightarrow> pkt_len pkt \<noteq> 0
    \<and> length (concat ps) + pkt_len pkt < q_cap (iface_queues core CMDQ)"

lemma core_with_simps [simp]:
  "iface_queues (core_with core i q) = (iface_queues core)(i := q)"
  "core_state (core_with core i q) = core_state core"
  "core_lock_held (core_with core i q) = core_lock_held core"
  "core_in_valid_state (core_with core i q) = core_in_valid_state core"
  by (simp_all add: core_with_def core_in_valid_state_def)

lemma queue_view_with [simp]:
  "queue_view (core_with core i q) j = (if j = i then q_view q else queue_view core j)"
  by (simp add: queue_view_def)

lemma q_view_array: "q_view q = Some ps \<Longrightarrow> align_virtual_addr (q_arr q) \<noteq> None"
  by (auto simp: q_view_def split: option.splits)

lemma write_bad_size:
  assumes v: "q_view q = Some ps" and p: "4 \<le> length pkt" "pkt_len pkt = 0 \<or> q_cap q < pkt_len pkt"
  shows "write_queue q (Some pkt) rx = Some (- ENODATA, q, rx)"
proof -
  obtain h m where q: "q_ok q h m" using q_view_SomeE [OF v] .
  have "pkt_words pkt = 0 \<or> pkt_words pkt > drop_bit 2 (q_mem_size (q_arr q))"
  proof (cases "pkt_len pkt = 0")
    case True
    then have "unat (pkt_words pkt) = 0" using unat_pkt_words [of pkt] by linarith
    then show ?thesis by (simp only: unat_eq_zero simp_thms)
  next
    case False
    then have "unat (drop_bit 2 (q_mem_size (q_arr q))) < unat (pkt_words pkt)"
      using p(2) unat_pkt_words [of pkt] mem_words [OF q] q by (simp add: q_cap_def q_ok_def)
    then show ?thesis by (simp only: word_less_nat_alt simp_thms)
  qed
  note P = this [THEN Eq_TrueI]
  show ?thesis
    unfolding write_queue_def q_okD [OF q] option.simps get_u32_size [OF p(1)] Option.bind.bind_lunit Let_def
      P if_True ..
qed

text \<open>\<open>__write_queue\<close> on any packet: it is appended if it fits, and else nothing changes but the header.\<close>

lemma write_cases:
  assumes v: "q_view q = Some ps" and p: "holds_pkt pkt"
  obtains rc q' where "write_queue q (Some pkt) rx = Some (rc, q', rc = 0 \<or> rx)" "q_cap q' = q_cap q"
    "rc = 0 \<longleftrightarrow> pkt_len pkt \<noteq> 0 \<and> length (concat ps) + pkt_len pkt < q_cap q"
    "q_view q' = Some (if rc = 0 then ps @ [take (pkt_len pkt) pkt] else ps)"
proof (cases "pkt_len pkt = 0 \<or> q_cap q < pkt_len pkt")
  case True
  then show thesis
    using that [OF _ refl] write_bad_size [OF v _ True] p v by (force simp: holds_pkt_def)
next
  case False
  obtain rc ps' where F: "fifo_put (q_cap q) (take (pkt_len pkt) pkt) ps = (rc, ps')"
    by (metis prod.exhaust)
  have l: "length (take (pkt_len pkt) pkt) = pkt_len pkt" using p by (simp add: holds_pkt_def)
  have "pkt_len pkt \<noteq> 0" "pkt_len pkt \<le> length pkt" "pkt_len pkt \<le> q_cap q"
    using False p by (simp_all add: holds_pkt_def)
  from write_refines [OF v this F, of rx] obtain q' where
    w: "write_queue q (Some pkt) rx = Some (rc, q', rc = 0 \<or> rx)" "q_view q' = Some ps'" "q_cap q' = q_cap q" .
  show thesis
    using F w(2) False unfolding fifo_put_def l by (intro that [OF w(1,3)]) (auto split: if_splits)
qed

lemma cmd_write_view:
  assumes "core_lock_held core" "core_in_valid_state core" "queue_view core CMDQ = Some ps" "holds_pkt pkt"
  obtains core' where
    "venus_hfi_queue_cmd_write core (Some pkt) = Some (0, core', cmd_fits core ps pkt)"
    "queue_view core' CMDQ = Some (if cmd_fits core ps pkt then ps @ [take (pkt_len pkt) pkt] else ps)"
    "\<And>i. i \<noteq> CMDQ \<Longrightarrow> iface_queues core' i = iface_queues core i"
    "q_cap (iface_queues core' CMDQ) = q_cap (iface_queues core CMDQ)"
proof -
  let ?q = "iface_queues core CMDQ"
  have v: "q_view ?q = Some ps" using assms(3) by (simp add: queue_view_def)
  from write_cases [OF v assms(4), of False] obtain rc q' where
    w: "write_queue ?q (Some pkt) False = Some (rc, q', rc = 0 \<or> False)" "q_cap q' = q_cap ?q"
      "rc = 0 \<longleftrightarrow> pkt_len pkt \<noteq> 0 \<and> length (concat ps) + pkt_len pkt < q_cap ?q"
      "q_view q' = Some (if rc = 0 then ps @ [take (pkt_len pkt) pkt] else ps)" .
  have f: "rc = 0 \<longleftrightarrow> cmd_fits core ps pkt" by (simp add: w(3) cmd_fits_def)
  have "venus_hfi_queue_cmd_write core (Some pkt) = Some (0, core_with core CMDQ q', rc = 0)"
    using assms(1,2) q_view_array [OF v] w(1)
    by (simp add: venus_hfi_queue_cmd_write_def iface_cmdq_write_relaxed_def strict_check_def Let_def)
  then show thesis
    using w(2,4) by (intro that [of "core_with core CMDQ q'"]) (simp_all add: f)
qed

lemma msg_read_view:
  assumes "core_in_valid_state core" "queue_view core MSGQ = Some ps" "4096 \<le> length buf"
    and F: "fifo_get ps = (r, d, ps')"
  obtains core' tx where
    "venus_hfi_queue_msg_read core (Some buf) =
      Some (if r = 0 then if tx then - EINVAL else 0 else - ENODATA, core',
        Some (case d of None \<Rightarrow> buf | Some p \<Rightarrow> overwrite buf 0 p))"
    "queue_view core' MSGQ = Some ps'"
    "\<And>i. i \<noteq> MSGQ \<Longrightarrow> iface_queues core' i = iface_queues core i"
    "q_cap (iface_queues core' MSGQ) = q_cap (iface_queues core MSGQ)"
    "ps \<noteq> [] \<Longrightarrow> tx \<longleftrightarrow> (\<exists>h. q_hdr (iface_queues core MSGQ) = Some h \<and> qhdr_tx_req h = 1)"
proof -
  let ?q = "iface_queues core MSGQ"
  have v: "q_view ?q = Some ps" using assms(2) by (simp add: queue_view_def)
  obtain h m where q: "q_ok ?q h m" using q_view_SomeE [OF v] .
  from read_refines [OF v assms(3) F, of 0] obtain q' tx where
    R: "read_queue ?q (Some buf) 0 = Some (r, q', Some (case d of None \<Rightarrow> buf | Some p \<Rightarrow> overwrite buf 0 p), tx)"
      "q_view q' = Some ps'" "q_cap q' = q_cap ?q" and tx: "tx = (if ps = [] then 0 else tx_req_flag h)"
    using q_okD(1) [OF q] by metis
  have "venus_hfi_queue_msg_read core (Some buf) =
      Some (if r = 0 then if tx \<noteq> 0 then - EINVAL else 0 else - ENODATA, core_with core MSGQ q',
        Some (case d of None \<Rightarrow> buf | Some p \<Rightarrow> overwrite buf 0 p))"
    using assms(1) R(1)
    by (simp add: venus_hfi_queue_msg_read_def Let_def q_okD(2) [OF q])
  then show thesis
    using R(2,3) tx q_okD(1) [OF q]
    by (intro that [of "tx \<noteq> 0" "core_with core MSGQ q'"]) (simp_all add: tx_req_flag_def)
qed

section \<open>Histories\<close>

text \<open>
  \<open>iface_hist core cs ts ss rs\<close>: a history has led to \<open>core\<close> in which \<open>cs\<close> are the commands for which the
  firmware got an interrupt, \<open>ts\<close> those it took, \<open>ss\<close> the messages it sent and \<open>rs\<close> those
  \<open>venus_hfi_queue_msg_read\<close> gave to the driver.  The firmware's steps are what the protocol lets it do: it
  takes the first command off, and it puts a message behind the others.  Everything else may change
  between the calls, but not the queues.
\<close>

inductive iface_hist ::
  "msm_vidc_core \<Rightarrow> uint8 list list \<Rightarrow> uint8 list list \<Rightarrow> uint8 list list \<Rightarrow> uint8 list list \<Rightarrow> bool" where
  hist_start: "queue_view core CMDQ = Some [] \<Longrightarrow> queue_view core MSGQ = Some [] \<Longrightarrow> iface_hist core [] [] [] []"
| hist_cmd: "iface_hist core cs ts ss rs \<Longrightarrow> holds_pkt pkt \<Longrightarrow>
    venus_hfi_queue_cmd_write core (Some pkt) = Some (rc, core', intr) \<Longrightarrow>
    iface_hist core' (if intr then cs @ [take (pkt_len pkt) pkt] else cs) ts ss rs"
| hist_msg: "iface_hist core cs ts ss rs \<Longrightarrow> 4096 \<le> length buf \<Longrightarrow>
    venus_hfi_queue_msg_read core (Some buf) = Some (rc, core', Some buf') \<Longrightarrow>
    iface_hist core' cs ts ss (if rc = 0 then rs @ [take (pkt_len buf') buf'] else rs)"
| hist_take: "iface_hist core cs ts ss rs \<Longrightarrow> queue_view core CMDQ = Some (p # ps) \<Longrightarrow>
    q_view q = Some ps \<Longrightarrow> iface_hist (core_with core CMDQ q) cs (ts @ [p]) ss rs"
| hist_send: "iface_hist core cs ts ss rs \<Longrightarrow> queue_view core MSGQ = Some ps \<Longrightarrow>
    q_view q = Some (ps @ [p]) \<Longrightarrow> iface_hist (core_with core MSGQ q) cs ts (ss @ [p]) rs"
| hist_other: "iface_hist core cs ts ss rs \<Longrightarrow> iface_queues core' = iface_queues core \<Longrightarrow>
    iface_hist core' cs ts ss rs"

text \<open>The commands written are those taken and those in the queue; the messages read are among those
  that have left the queue, in order.\<close>

definition iface_inv ::
  "msm_vidc_core \<Rightarrow> uint8 list list \<Rightarrow> uint8 list list \<Rightarrow> uint8 list list \<Rightarrow> uint8 list list \<Rightarrow> bool" where
  "iface_inv core cs ts ss rs \<longleftrightarrow>
    (\<exists>qs ms ds. queue_view core CMDQ = Some qs \<and> cs = ts @ qs
      \<and> queue_view core MSGQ = Some ms \<and> ss = ds @ ms \<and> subseq rs ds)"

lemma iface_inv_cmd:
  assumes I: "iface_inv core cs ts ss rs" and p: "holds_pkt pkt"
    and w: "venus_hfi_queue_cmd_write core (Some pkt) = Some (rc, core', intr)"
  shows "iface_inv core' (if intr then cs @ [take (pkt_len pkt) pkt] else cs) ts ss rs"
proof -
  obtain qs where q: "queue_view core CMDQ = Some qs" using I by (auto simp: iface_inv_def)
  show ?thesis
  proof (cases "core_lock_held core \<and> core_in_valid_state core")
    case True
    then obtain core2 where c:
      "venus_hfi_queue_cmd_write core (Some pkt) = Some (0, core2, cmd_fits core qs pkt)"
      "queue_view core2 CMDQ = Some (if cmd_fits core qs pkt then qs @ [take (pkt_len pkt) pkt] else qs)"
      "\<And>i. i \<noteq> CMDQ \<Longrightarrow> iface_queues core2 i = iface_queues core i"
      using cmd_write_view [OF _ _ q p] by metis
    then have "core' = core2" "intr = cmd_fits core qs pkt" using w by simp_all
    moreover have "queue_view core2 MSGQ = queue_view core MSGQ"
      using c(3) [of MSGQ] by (simp add: queue_view_def)
    ultimately show ?thesis using I q c(2) by (auto simp: iface_inv_def)
  next
    case False
    with w I show ?thesis
      by (auto simp: venus_hfi_queue_cmd_write_def iface_cmdq_write_relaxed_def strict_check_def Let_def
        split: if_splits)
  qed
qed

lemma fifo_get_cases:
  "fifo_get ps = (r, d, ps') \<Longrightarrow>
    (\<exists>xs. ps = xs @ ps' \<and> (r = 0 \<longrightarrow> (\<exists>p. d = Some p \<and> xs = [p] \<and> length p \<le> 4096)))"
  by (auto simp: fifo_get_def split: list.splits if_splits)

lemma overwrite_front: "length p \<le> length b \<Longrightarrow> overwrite b 0 p = p @ drop (length p) b"
  by (simp add: overwrite_def)

text \<open>What the driver finds in its buffer is the packet.\<close>

lemma packet_in_buffer:
  assumes "hfi_pkt p" "length p \<le> length buf"
  shows "take (pkt_len (overwrite buf 0 p)) (overwrite buf 0 p) = p"
  using assms by (simp add: overwrite_front hfi_pkt_def pkt_len_append)

lemma queue_view_pkts: "queue_view core i = Some ps \<Longrightarrow> \<forall>p\<in>set ps. hfi_pkt p"
  unfolding queue_view_def by (metis q_view_SomeE)

lemma iface_inv_msg:
  assumes I: "iface_inv core cs ts ss rs" and buf: "4096 \<le> length buf"
    and w: "venus_hfi_queue_msg_read core (Some buf) = Some (rc, core', Some buf')"
  shows "iface_inv core' cs ts ss (if rc = 0 then rs @ [take (pkt_len buf') buf'] else rs)"
proof -
  obtain qs ms ds where v: "queue_view core CMDQ = Some qs" "cs = ts @ qs"
      "queue_view core MSGQ = Some ms" "ss = ds @ ms" "subseq rs ds"
    using I by (auto simp: iface_inv_def)
  show ?thesis
  proof (cases "core_in_valid_state core")
    case True
    obtain r d ms' where F: "fifo_get ms = (r, d, ms')" by (metis prod.exhaust)
    from msg_read_view [OF True v(3) buf F] obtain core2 tx where c:
      "venus_hfi_queue_msg_read core (Some buf) =
        Some (if r = 0 then if tx then - EINVAL else 0 else - ENODATA, core2,
          Some (case d of None \<Rightarrow> buf | Some p \<Rightarrow> overwrite buf 0 p))"
      "queue_view core2 MSGQ = Some ms'"
      "\<And>i. i \<noteq> MSGQ \<Longrightarrow> iface_queues core2 i = iface_queues core i" by metis
    have e: "core' = core2" "rc = (if r = 0 then if tx then - EINVAL else 0 else - ENODATA)"
      "buf' = (case d of None \<Rightarrow> buf | Some p \<Rightarrow> overwrite buf 0 p)" using c(1) w by simp_all
    obtain xs where xs: "ms = xs @ ms'" "r = 0 \<Longrightarrow> \<exists>p. d = Some p \<and> xs = [p] \<and> length p \<le> 4096"
      using fifo_get_cases [OF F] by auto
    have sub: "subseq (if rc = 0 then rs @ [take (pkt_len buf') buf'] else rs) (ds @ xs)"
    proof (cases "rc = 0")
      case True
      then have "r = 0" using e(2) by (auto split: if_splits)
      then obtain p where p: "d = Some p" "xs = [p]" "length p \<le> 4096" using xs(2) by auto
      have "hfi_pkt p" using queue_view_pkts [OF v(3)] xs(1) p(2) by simp
      then have "take (pkt_len buf') buf' = p"
        using packet_in_buffer [of p buf] p(1,3) buf e(3) by simp
      then show ?thesis using True v(5) p(2) by (simp add: list_emb_append_mono)
    next
      case False
      then show ?thesis using list_emb_append_mono [OF v(5), of "[]" xs] by simp
    qed
    have "queue_view core2 CMDQ = queue_view core CMDQ"
      using c(3) [of CMDQ] by (simp add: queue_view_def)
    then show ?thesis using v(1,2,4) c(2) xs(1) sub e(1)
      unfolding iface_inv_def by (intro exI [of _ qs] exI [of _ ms'] exI [of _ "ds @ xs"]) simp
  next
    case False
    with w I show ?thesis
      by (auto simp: venus_hfi_queue_msg_read_def Let_def split: if_splits)
  qed
qed

lemma iface_hist_inv: "iface_hist core cs ts ss rs \<Longrightarrow> iface_inv core cs ts ss rs"
proof (induction rule: iface_hist.induct)
  case (hist_start core)
  then show ?case by (simp add: iface_inv_def)
next
  case (hist_cmd core cs ts ss rs pkt rc core' intr)
  then show ?case by (intro iface_inv_cmd)
next
  case (hist_msg core cs ts ss rs buf rc core' buf')
  then show ?case by (intro iface_inv_msg)
next
  case (hist_take core cs ts ss rs p ps q)
  then show ?case by (auto simp: iface_inv_def)
next
  case (hist_send core cs ts ss rs ps q p)
  then show ?case by (auto simp: iface_inv_def)
next
  case (hist_other core cs ts ss rs core')
  then show ?case by (simp add: iface_inv_def queue_view_def)
qed

end
