(* ===== verification/Vidc_Hfi_Setup.thy ===== *)
theory Vidc_Hfi_Setup
  imports Vidc_Hfi_Run
begin

text \<open>
  Setting the queues up: the layout of the shared memory, and the state in which initialisation and
  reset leave the queues.
\<close>

section \<open>Layout\<close>

lemma queue_size [simp]: "unat VIDC_IFACEQ_QUEUE_SIZE = 819200"
  by (simp add: VIDC_IFACEQ_QUEUE_SIZE_def)

lemma table_size: "VIDC_IFACEQ_TABLE_SIZE = 456"
  by (simp add: VIDC_IFACEQ_TABLE_SIZE_def sizeof_hfi_queue_table_header_def sizeof_hfi_queue_header_def
    VIDC_IFACEQ_NUMQ_def)

lemma q_array_start_eq: "q_array_start i = 456 + 819200 * i"
  by (simp add: q_array_start_def table_size)

lemma total_qsize: "TOTAL_QSIZE = 3133440"
  by (simp add: TOTAL_QSIZE_def SHARED_QSIZE_def ALIGNED_SFR_SIZE_def ALIGNED_QUEUE_SIZE_def
    ALIGNED_QDSS_SIZE_def ALIGNED_MMAP_BUF_SIZE_def align_up_def table_size VIDC_IFACEQ_NUMQ_def)

text \<open>Headers behind the table header, arrays behind the headers, all apart and inside the allocation.\<close>

lemma queue_layout:
  "sizeof_hfi_queue_table_header \<le> qhdr_start 0"
  "i < VIDC_IFACEQ_NUMQ \<Longrightarrow> qhdr_start i + sizeof_hfi_queue_header \<le> qhdr_start (i + 1)"
  "qhdr_start VIDC_IFACEQ_NUMQ = q_array_start 0"
  "i < VIDC_IFACEQ_NUMQ \<Longrightarrow> q_array_start i + unat VIDC_IFACEQ_QUEUE_SIZE \<le> q_array_start (i + 1)"
  "q_array_start VIDC_IFACEQ_NUMQ \<le> TOTAL_QSIZE"
  "4 dvd qhdr_start i" "4 dvd q_array_start i"
  by (simp_all add: qhdr_start_def q_array_start_eq total_qsize VIDC_IFACEQ_NUMQ_def
    sizeof_hfi_queue_table_header_def sizeof_hfi_queue_header_def)

section \<open>Fresh queues\<close>

text \<open>What the firmware finds in the header of an interface queue after set-up.\<close>

definition q_fresh :: "vidc_iface_q \<Rightarrow> msm_vidc_iface_q_info \<Rightarrow> bool" where
  "q_fresh i q \<longleftrightarrow> (\<exists>h m. q_ok q h m \<and> q_used h m = 0
    \<and> qhdr_start_addr h = align_device_addr (q_arr q)
    \<and> qhdr_type h = VIDC_IFACEQ_DFLT_QHDR + of_nat (vidc_iface_idx i)
    \<and> qhdr_q_size h = VIDC_IFACEQ_QUEUE_SIZE div 4 \<and> qhdr_tx_req h = 0
    \<and> qhdr_rx_req h = (if i = DBGQ then 0 else 1))"

lemma q_fresh_view: "q_fresh i q \<Longrightarrow> q_view q = Some []"
  unfolding q_fresh_def by (metis concat.simps(1) empty_iff length_0_conv list.set(1) q_bytes_length q_viewI)

text \<open>A queue whose array is in place: the header will be filled in.\<close>

definition q_placed :: "msm_vidc_iface_q_info \<Rightarrow> bool" where
  "q_placed q \<longleftrightarrow> q_hdr q \<noteq> None \<and> (\<exists>m. align_virtual_addr (q_arr q) = Some m
    \<and> length m = unat (q_mem_size (q_arr q)) \<and> 4 dvd length m \<and> length m \<noteq> 0)"

definition q_defaults :: "msm_vidc_iface_q_info \<Rightarrow> bool" where
  "q_defaults q \<longleftrightarrow> q_placed q \<and> (\<exists>h. q_hdr q = Some (set_queue_hdr_defaults h))"

lemma q_placed_fresh:
  assumes p: "q_placed q"
    and h: "qhdr_read_idx h = 0" "qhdr_write_idx h = 0" "qhdr_start_addr h = align_device_addr (q_arr q)"
      "qhdr_type h = VIDC_IFACEQ_DFLT_QHDR + of_nat (vidc_iface_idx i)"
      "qhdr_q_size h = VIDC_IFACEQ_QUEUE_SIZE div 4" "qhdr_tx_req h = 0"
      "qhdr_rx_req h = (if i = DBGQ then 0 else 1)"
  shows "q_fresh i (q\<lparr>q_hdr := Some h\<rparr>)"
proof -
  obtain m where m: "align_virtual_addr (q_arr q) = Some m" "unat (q_mem_size (q_arr q)) = length m"
      "4 dvd length m" "length m \<noteq> 0"
    using p by (auto simp: q_placed_def)
  have "0 < length m div 4" using m(3,4) by (metis dvd_mult_div_cancel gr0I mult_0_right)
  then show ?thesis
    using m(1-3) h unfolding q_fresh_def
    by (intro exI [of _ h] exI [of _ m]) (simp add: q_ok_def q_used_def)
qed

lemma hdr_defaults [simp]:
  "qhdr_type (set_queue_hdr_defaults h) = VIDC_IFACEQ_DFLT_QHDR"
  "qhdr_rx_req (set_queue_hdr_defaults h) = 1" "qhdr_tx_req (set_queue_hdr_defaults h) = 0"
  "qhdr_q_size (set_queue_hdr_defaults h) = VIDC_IFACEQ_QUEUE_SIZE div 4"
  "qhdr_read_idx (set_queue_hdr_defaults h) = 0" "qhdr_write_idx (set_queue_hdr_defaults h) = 0"
  by (simp_all add: set_queue_hdr_defaults_def)

lemma set_queue_ids_fresh:
  assumes "\<And>i. q_defaults (iface_queues core i)"
  obtains core' where "set_queue_ids core = Some core'" "\<And>i. q_fresh i (iface_queues core' i)"
    "\<And>i. q_arr (iface_queues core' i) = q_arr (iface_queues core i)"
    "iface_q_table core' = iface_q_table core"
proof -
  have "\<exists>h. q_hdr (iface_queues core i) = Some (set_queue_hdr_defaults h)" for i
    using assms [of i] by (auto simp: q_defaults_def)
  then obtain hs where hs: "\<And>i. q_hdr (iface_queues core i) = Some (set_queue_hdr_defaults (hs i))"
    by metis
  let ?h = "\<lambda>i. (set_queue_hdr_defaults (hs i))\<lparr>
    qhdr_start_addr := align_device_addr (q_arr (iface_queues core i))\<rparr>"
  let ?f = "\<lambda>i. case i of CMDQ \<Rightarrow> ?h i | MSGQ \<Rightarrow> (?h i)\<lparr>qhdr_type := VIDC_IFACEQ_DFLT_QHDR + 1\<rparr>
    | DBGQ \<Rightarrow> (?h i)\<lparr>qhdr_type := VIDC_IFACEQ_DFLT_QHDR + 2, qhdr_rx_req := 0\<rparr>"
  let ?q = "\<lambda>i. (iface_queues core i)\<lparr>q_hdr := Some (?f i)\<rparr>"
  let ?core = "core_with (core_with (core_with core CMDQ (?q CMDQ)) MSGQ (?q MSGQ)) DBGQ (?q DBGQ)"
  have c: "set_queue_ids core = Some ?core"
    by (simp add: set_queue_ids_def q_upd_hdr_def hs Let_def VIDC_IFACEQ_DFLT_QHDR_def)
  have q: "iface_queues ?core i = ?q i" for i by (cases i) simp_all
  have "q_fresh i (?q i)" for i
    using assms [of i] by (intro q_placed_fresh) (simp_all add: q_defaults_def split: vidc_iface_q.split)
  then show thesis
    by (intro that [OF c]) (simp_all only: q, simp_all add: core_with_def)
qed

section \<open>Initialisation and reset\<close>

lemma upd_hdr_defaults:
  assumes "q_placed (iface_queues core i)"
  obtains q where "q_upd_hdr set_queue_hdr_defaults i core = Some (core_with core i q)" "q_defaults q"
    "q_arr q = q_arr (iface_queues core i)"
  using assms by (force simp: q_upd_hdr_def q_placed_def q_defaults_def)

lemma reset_fresh:
  assumes "\<And>i. q_placed (iface_queues core i)"
  obtains core' where "venus_hfi_reset_queue_header core = Some (0, core')"
    "\<And>i. q_fresh i (iface_queues core' i)"
    "\<And>i. q_arr (iface_queues core' i) = q_arr (iface_queues core i)"
proof -
  obtain q1 where q1: "q_upd_hdr set_queue_hdr_defaults CMDQ core = Some (core_with core CMDQ q1)"
    "q_defaults q1" "q_arr q1 = q_arr (iface_queues core CMDQ)"
    using upd_hdr_defaults [OF assms] .
  let ?c1 = "core_with core CMDQ q1"
  obtain q2 where q2: "q_upd_hdr set_queue_hdr_defaults MSGQ ?c1 = Some (core_with ?c1 MSGQ q2)"
    "q_defaults q2" "q_arr q2 = q_arr (iface_queues core MSGQ)"
    using upd_hdr_defaults [of ?c1 MSGQ] assms [of MSGQ] by auto
  let ?c2 = "core_with ?c1 MSGQ q2"
  obtain q3 where q3: "q_upd_hdr set_queue_hdr_defaults DBGQ ?c2 = Some (core_with ?c2 DBGQ q3)"
    "q_defaults q3" "q_arr q3 = q_arr (iface_queues core DBGQ)"
    using upd_hdr_defaults [of ?c2 DBGQ] assms [of DBGQ] by auto
  let ?c3 = "core_with ?c2 DBGQ q3"
  have "q_defaults (iface_queues ?c3 i)" for i
    using q1(2) q2(2) q3(2) by (cases i) simp_all
  from set_queue_ids_fresh [OF this] obtain core' where c: "set_queue_ids ?c3 = Some core'"
    "\<And>i. q_fresh i (iface_queues core' i)" "\<And>i. q_arr (iface_queues core' i) = q_arr (iface_queues ?c3 i)"
    by blast
  have "q_arr (iface_queues ?c3 i) = q_arr (iface_queues core i)" for i
    using q1(3) q2(3) q3(3) by (cases i) simp_all
  then show thesis
    using that [of core'] c q1(1) q2(1) q3(1) by (simp add: venus_hfi_reset_queue_header_def)
qed

text \<open>What the driver relies on: a successful allocation gives memory of the size asked for.\<close>

definition alloc_maps :: "'w msm_vidc_memory_ops \<Rightarrow> bool" where
  "alloc_maps ops \<longleftrightarrow> (\<forall>w m m' w'. op_alloc_map ops w m = (0, m', w') \<longrightarrow>
    (\<exists>kv. mem_kvaddr m' = Some kv \<and> length kv = unat (mem_sz m)))"

lemma vidc_alloc_ok:
  assumes "alloc_maps ops" "vidc_alloc ops w n = (0, mem, w')" "n < 4294967296"
  obtains kv where "mem_kvaddr mem = Some kv" "length kv = n"
  using assms by (force simp: alloc_maps_def vidc_alloc_def)

lemma set_up_queues_fresh:
  assumes kv: "mem_kvaddr mem = Some kv" "length kv = TOTAL_QSIZE"
  obtains core' where "set_up_queues mem core = Some core'" "\<And>i. q_fresh i (iface_queues core' i)"
    "\<And>i. q_cap (iface_queues core' i) = unat VIDC_IFACEQ_QUEUE_SIZE"
    "align_virtual_addr (iface_q_table core') = Some kv"
    "\<And>i. align_device_addr (q_arr (iface_queues core' i)) =
      ucast (mem_device_addr mem + of_nat (q_array_start (vidc_iface_idx i)))"
proof -
  let ?t = "\<lparr>align_device_addr = ucast (mem_device_addr mem), align_virtual_addr = Some kv,
    q_mem_size = of_nat VIDC_IFACEQ_TABLE_SIZE, ma_mem = mem\<rparr>"
  let ?h = "Some \<lparr>qtbl_version = 0, qtbl_size = of_nat VIDC_IFACEQ_TABLE_SIZE,
        qtbl_qhdr0_offset = of_nat sizeof_hfi_queue_table_header,
        qtbl_qhdr_size = of_nat sizeof_hfi_queue_header,
        qtbl_num_q = of_nat VIDC_IFACEQ_NUMQ, qtbl_num_active_q = of_nat VIDC_IFACEQ_NUMQ,
        qtbl_name = ''msm_v4l2_vidc''\<rparr>"
  let ?c = "(init_queues mem kv VIDC_IFACEQ_TABLE_SIZE [CMDQ, MSGQ, DBGQ] (core\<lparr>iface_q_table := ?t\<rparr>))
    \<lparr>q_tbl_hdr := ?h\<rparr>"
  let ?q = "\<lambda>i. \<lparr>q_hdr = Some (set_queue_hdr_defaults (qhdr_at kv (qhdr_start (vidc_iface_idx i)))),
    q_arr = \<lparr>align_device_addr = ucast (mem_device_addr mem + of_nat (q_array_start (vidc_iface_idx i))),
      align_virtual_addr = Some (slice kv (q_array_start (vidc_iface_idx i)) (unat VIDC_IFACEQ_QUEUE_SIZE)),
      q_mem_size = VIDC_IFACEQ_QUEUE_SIZE\<rparr>\<rparr>"
  have q: "iface_queues ?c i = ?q i" for i
    by (cases i) (simp_all add: q_array_start_eq table_size core_with_def)
  have t: "iface_q_table ?c = ?t" by (simp add: core_with_def)
  have "q_defaults (?q i)" for i
    by (cases i) (auto simp: q_defaults_def q_placed_def kv total_qsize q_array_start_eq slice_eq_Nil)
  then have "q_defaults (iface_queues ?c i)" for i unfolding q .
  from set_queue_ids_fresh [OF this] obtain core' where c: "set_queue_ids ?c = Some core'"
    "\<And>i. q_fresh i (iface_queues core' i)" "\<And>i. q_arr (iface_queues core' i) = q_arr (iface_queues ?c i)"
    "iface_q_table core' = iface_q_table ?c" by blast
  have "set_up_queues mem core = Some core'"
    using c(1) by (simp add: set_up_queues_def kv Let_def q_array_start_eq total_qsize VIDC_IFACEQ_NUMQ_def)
  then show thesis
    using c(2) by (rule that) (simp_all only: q_cap_def c(3,4) q t, simp_all)
qed

text \<open>The rest of the initialisation leaves the queues alone; it is defined if memory is what was asked for.\<close>

lemma sfr_size: "align_up 4096 4096 = 4096"
  by (simp add: align_up_def)

lemma length_mem_zero: "mem_zero m off n = Some m' \<Longrightarrow> length m' = length m"
  by (auto simp: mem_zero_def split: if_splits)

lemma length_put_u32: "put_u32 m off v = Some m' \<Longrightarrow> length m' = length m"
  by (auto simp: put_u32_def split: if_splits)

lemma put_u32_total: "off + 4 \<le> length m \<Longrightarrow> \<exists>m'. put_u32 m off v = Some m' \<and> length m' = length m"
  by (simp add: put_u32_def)

lemma mmap_entry_total:
  "4 * i + 8 \<le> length m \<Longrightarrow> \<exists>m'. mmap_entry i mem m = Some m' \<and> length m' = length m"
  by (auto simp: mmap_entry_def put_u32_def)

lemma init_mmap_buf_total:
  assumes kv: "mem_kvaddr mem = Some kv" "length kv = 4096"
  obtains core' where "init_mmap_buf mem core = Some core'" "iface_queues core' = iface_queues core"
    "iface_q_table core' = iface_q_table core"
proof -
  obtain m0 where m0: "mem_zero kv 0 ALIGNED_MMAP_BUF_SIZE = Some m0" "length m0 = 4096"
    using kv by (simp add: mem_zero_def ALIGNED_MMAP_BUF_SIZE_def align_up_def)
  obtain m1 where m1: "put_u32 m0 0 1 = Some m1" "length m1 = 4096"
    using put_u32_total [of 0 m0 1] m0 by auto
  obtain m2 where m2: "mmap_entry 11 (ma_mem (aon_reg core)) m1 = Some m2" "length m2 = 4096"
    using mmap_entry_total [of 11 m1] m1 by fastforce
  obtain m3 where m3: "mmap_entry 13 (synx_fence_queue core) m2 = Some m3" "length m3 = 4096"
    using mmap_entry_total [of 13 m2] m2 by fastforce
  obtain m4 where m4: "mmap_entry 19 (ma_mem (fence_reg core)) m3 = Some m4" "length m4 = 4096"
    using mmap_entry_total [of 19 m3] m3 by fastforce
  obtain m5 where m5: "mmap_entry 21 (ma_mem (qtimer_reg core)) m4 = Some m5"
    using mmap_entry_total [of 21 m4] m4 by fastforce
  have "init_mmap_buf mem core = Some (core\<lparr>mmap_buf := \<lparr>align_device_addr = ucast (mem_device_addr mem),
      align_virtual_addr = Some m5, q_mem_size = of_nat ALIGNED_MMAP_BUF_SIZE, ma_mem = mem\<rparr>\<rparr>)"
    by (simp add: init_mmap_buf_def kv m0 m1 m2 m3 m4 m5)
  then show thesis by (rule that) simp_all
qed

text \<open>A defined result that has left the queues alone, and its rules.\<close>

definition keeps_queues :: "msm_vidc_core \<Rightarrow> (int \<times> msm_vidc_core \<times> 'w) option \<Rightarrow> bool" where
  "keeps_queues core res \<longleftrightarrow> (\<exists>rc core' w'. res = Some (rc, core', w')
    \<and> iface_queues core' = iface_queues core \<and> iface_q_table core' = iface_q_table core)"

lemma keeps_Some:
  "iface_queues c = iface_queues core \<Longrightarrow> iface_q_table c = iface_q_table core \<Longrightarrow>
    keeps_queues core (Some (rc, c, w))"
  by (simp add: keeps_queues_def)

lemma keeps_if:
  "(b \<Longrightarrow> keeps_queues core x) \<Longrightarrow> (\<not> b \<Longrightarrow> keeps_queues core y) \<Longrightarrow> keeps_queues core (if b then x else y)"
  by simp

lemma keeps_case:
  "(\<And>a b c. e = (a, b, c) \<Longrightarrow> keeps_queues core (f a b c)) \<Longrightarrow>
    keeps_queues core (case e of (a, b, c) \<Rightarrow> f a b c)"
  by (cases e) simp

lemma keeps_bind:
  "m = Some x \<Longrightarrow> keeps_queues core (f x) \<Longrightarrow> keeps_queues core (m \<bind> f)"
  by simp

lemma keeps_alloc:
  assumes "alloc_maps ops" "vidc_alloc ops w n = (rc, m, w')" "\<not> rc \<noteq> 0" "n < 4294967296"
    and "\<And>kv. mem_kvaddr m = Some kv \<Longrightarrow> length kv = n \<Longrightarrow> keeps_queues core (f kv)"
  shows "keeps_queues core (mem_kvaddr m \<bind> f)"
proof -
  have "vidc_alloc ops w n = (0, m, w')" using assms(2,3) by simp
  from vidc_alloc_ok [OF assms(1) this assms(4)] obtain kv where kv: "mem_kvaddr m = Some kv" "length kv = n" .
  from kv(1) assms(5) [OF kv] show ?thesis by (rule keeps_bind)
qed

lemma keeps_put:
  "off + 4 \<le> length m \<Longrightarrow> (\<And>m'. keeps_queues core (f m')) \<Longrightarrow> keeps_queues core (put_u32 m off v \<bind> f)"
  by (simp add: put_u32_def)

lemma keeps_mmap:
  assumes "alloc_maps ops" "vidc_alloc ops v ALIGNED_MMAP_BUF_SIZE = (rc, m, v')" "\<not> rc \<noteq> 0"
    "iface_queues c = iface_queues core" "iface_q_table c = iface_q_table core"
  shows "keeps_queues core (init_mmap_buf m c \<bind> (\<lambda>c. Some (0, c, v')))"
proof -
  have "vidc_alloc ops v 4096 = (0, m, v')"
    using assms(2,3) by (simp add: ALIGNED_MMAP_BUF_SIZE_def sfr_size)
  from vidc_alloc_ok [OF assms(1) this] obtain kv where "mem_kvaddr m = Some kv" "length kv = 4096"
    by auto
  from init_mmap_buf_total [OF this, of c] obtain c' where
    "init_mmap_buf m c = Some c'" "iface_queues c' = iface_queues c" "iface_q_table c' = iface_q_table c" .
  then show ?thesis using assms(4,5) by (simp add: keeps_queues_def)
qed

lemma init_rest_total:
  assumes ops: "alloc_maps ops"
  shows "keeps_queues core (venus_hfi_queue_init_rest ops w core)"
  unfolding venus_hfi_queue_init_rest_def Let_def
  apply (rule keeps_case, rule keeps_if, rule keeps_Some, simp, simp)
  apply (rule keeps_alloc [OF ops], assumption, assumption, simp add: ALIGNED_SFR_SIZE_def sfr_size)
  apply (rule keeps_put, simp add: ALIGNED_SFR_SIZE_def sfr_size)
  apply (intro keeps_case keeps_if keeps_Some keeps_mmap [OF ops]; (assumption | simp))
  done

text \<open>If no call into the memory management fails, the rest of the initialisation returns 0.\<close>

definition ops_succeed :: "'w msm_vidc_memory_ops \<Rightarrow> bool" where
  "ops_succeed ops \<longleftrightarrow> (\<forall>w m. fst (op_alloc_map ops w m) = 0 \<and> fst (op_dma_map_page ops w m) = 0
    \<and> fst (op_iommu_map ops w m) = 0)"

lemma vidc_alloc_succeeds: "ops_succeed ops \<Longrightarrow> vidc_alloc ops w n = (rc, m, w') \<Longrightarrow> rc = 0"
  by (metis ops_succeed_def vidc_alloc_def fst_conv)

lemma map_registers_succeeds:
  "ops_succeed ops \<Longrightarrow> venus_hfi_iommu_map_registers ops w core r b c = (rc, c', w') \<Longrightarrow> rc = 0"
  by (auto simp: venus_hfi_iommu_map_registers_def ops_succeed_def Let_def
    split: option.splits prod.splits if_splits) (metis fst_conv)

lemma map_page_succeeds: "ops_succeed ops \<Longrightarrow> op_dma_map_page ops w m = (rc, m', w') \<Longrightarrow> rc = 0"
  by (metis ops_succeed_def fst_conv)

definition returns_zero :: "(int \<times> 'c \<times> 'w) option \<Rightarrow> bool" where
  "returns_zero res \<longleftrightarrow> (\<forall>rc c w. res = Some (rc, c, w) \<longrightarrow> rc = 0)"

lemma zero_Some: "rc = 0 \<Longrightarrow> returns_zero (Some (rc, c, w))"
  by (simp add: returns_zero_def)

lemma zero_if: "(b \<Longrightarrow> returns_zero x) \<Longrightarrow> (\<not> b \<Longrightarrow> returns_zero y) \<Longrightarrow> returns_zero (if b then x else y)"
  by simp

lemma zero_case:
  "(\<And>a b c. e = (a, b, c) \<Longrightarrow> returns_zero (f a b c)) \<Longrightarrow> returns_zero (case e of (a, b, c) \<Rightarrow> f a b c)"
  by (cases e) simp

lemma zero_bind: "(\<And>x. m = Some x \<Longrightarrow> returns_zero (f x)) \<Longrightarrow> returns_zero (m \<bind> f)"
  by (cases m) (simp_all add: returns_zero_def)

lemma init_rest_succeeds:
  assumes ops: "ops_succeed ops"
  shows "returns_zero (venus_hfi_queue_init_rest ops w core)"
  unfolding venus_hfi_queue_init_rest_def Let_def
  by (intro zero_case zero_if zero_bind zero_Some)
    (auto split: if_splits
      dest: vidc_alloc_succeeds [OF ops] map_registers_succeeds [OF ops] map_page_succeeds [OF ops])

section \<open>\<open>venus_hfi_queue_init\<close>\<close>

text \<open>From a core without queues: the call is defined, and if it got the memory, all queues are fresh.\<close>

lemma queue_init_fresh:
  assumes ops: "alloc_maps ops" and none: "align_virtual_addr (iface_q_table core) = None"
  obtains
    (nomem) w' where "venus_hfi_queue_init ops w core = Some (- ENOMEM, core, w')" "\<not> ops_succeed ops"
  | (queues) rc core' w' where "venus_hfi_queue_init ops w core = Some (rc, core', w')"
      "align_virtual_addr (iface_q_table core') \<noteq> None"
      "\<And>i. q_fresh i (iface_queues core' i)"
      "\<And>i. q_cap (iface_queues core' i) = unat VIDC_IFACEQ_QUEUE_SIZE" "ops_succeed ops \<longrightarrow> rc = 0"
proof (cases "vidc_alloc ops w TOTAL_QSIZE")
  case (fields rc mem w1)
  show thesis
  proof (cases "rc = 0")
    case False
    then have "\<not> ops_succeed ops" using vidc_alloc_succeeds fields by metis
    with False show thesis by (intro nomem) (simp_all add: venus_hfi_queue_init_def none fields)
  next
    case True
    with fields obtain kv where kv: "mem_kvaddr mem = Some kv" "length kv = TOTAL_QSIZE"
      using vidc_alloc_ok [OF ops, of w TOTAL_QSIZE mem w1] by (auto simp: total_qsize)
    from set_up_queues_fresh [OF this, of core] obtain c where c: "set_up_queues mem core = Some c"
      "\<And>i. q_fresh i (iface_queues c i)"
      "\<And>i. q_cap (iface_queues c i) = unat VIDC_IFACEQ_QUEUE_SIZE"
      "align_virtual_addr (iface_q_table c) = Some kv" by metis
    obtain rc2 c2 w2 where r: "venus_hfi_queue_init_rest ops w1 c = Some (rc2, c2, w2)"
      "iface_queues c2 = iface_queues c" "iface_q_table c2 = iface_q_table c"
      using init_rest_total [OF ops, of c w1] by (auto simp: keeps_queues_def)
    have "venus_hfi_queue_init ops w core = Some (rc2, c2, w2)"
      by (simp add: venus_hfi_queue_init_def none fields True c(1) r(1))
    then show thesis
      using c(2-4) init_rest_succeeds [of ops w1 c]
      by (intro queues [of rc2 c2 w2])
        (simp_all only: r returns_zero_def option.distinct option.inject prod.inject not_False_eq_True simp_thms, blast)
  qed
qed

end
