(* ===== verification/Vidc_Hfi_Safety.thy ===== *)
theory Vidc_Hfi_Safety
  imports Vidc_Hfi_Setup
begin

text \<open>
  Queues whose header the firmware has spoilt: which accesses stay inside the array whatever the indices
  are, and which do not.
\<close>

lemma mem_copy_ok:
  "doff + n \<le> length dst \<Longrightarrow> soff + n \<le> length src \<Longrightarrow>
    \<exists>m. mem_copy dst doff src soff n = Some m \<and> length m = length dst"
  by (simp add: mem_copy_def)

section \<open>Reading\<close>

text \<open>The copy \<open>__read_queue\<close> makes, from any index the driver lets pass.\<close>

lemma read_copy_safe:
  fixes r N S :: uint32
  assumes S: "unat S = length base div 4" and L: "length base < 4294967296" "4096 \<le> length base"
    and buf: "4096 \<le> length buf" and r: "4 * unat r + 4 \<le> length base"
    and N: "4 * unat N \<le> 4096"
  obtains rc r' b where
    "(if r + N < S then mem_copy buf 0 base (4 * unat r) (4 * unat N) \<bind> (\<lambda>p. Some (0, r + N, p))
      else mem_copy buf 0 base (4 * unat r) (unat (push_bit 2 (N - (r + N - S)))) \<bind>
        (\<lambda>p. mem_copy p (unat (push_bit 2 (N - (r + N - S)))) base 0 (unat (push_bit 2 (r + N - S))) \<bind>
          (\<lambda>p. Some (0, r + N - S, p)))) = Some (rc :: int, r', b)" "length b = length buf"
proof -
  have a: "unat (r + N) = unat r + unat N" using r L N by (intro unat_add32) linarith
  show thesis
  proof (cases "r + N < S")
    case True
    then have "4 * unat r + 4 * unat N \<le> length base" using a S by (simp add: word_less_nat_alt)
    then show thesis using True buf N
      by (intro that [of 0 "r + N" "overwrite buf 0 (slice base (4 * unat r) (4 * unat N))"])
        (simp_all add: mem_copy_in)
  next
    case False
    let ?r = "r + N - S"
    have ge: "S \<le> r + N" using False by simp
    have u: "unat ?r = unat r + unat N - unat S" using unat_sub [OF ge] a by simp
    have rs: "unat r < unat S" using r S by linarith
    then have le: "?r \<le> N" using u by (simp add: word_le_nat_alt)
    have k: "unat (N - ?r) = unat S - unat r"
      using ge a u rs unfolding unat_sub [OF le] by (simp add: word_le_nat_alt)
    have p: "unat (push_bit 2 (N - ?r)) = 4 * (unat S - unat r)" "unat (push_bit 2 ?r) = 4 * (unat r + unat N - unat S)"
      using k u N S L rs by (subst unat_push2; linarith)+
    have g: "unat S \<le> unat r + unat N" using ge a by (simp add: word_le_nat_alt)
    have "\<exists>b. mem_copy buf 0 base (4 * unat r) (4 * (unat S - unat r)) = Some b \<and> length b = length buf"
      by (rule mem_copy_ok; use g rs S N buf in linarith)
    then obtain b where b: "mem_copy buf 0 base (4 * unat r) (4 * (unat S - unat r)) = Some b"
      "length b = length buf" by blast
    have e: "4 * (unat S - unat r) + 4 * (unat r + unat N - unat S) = 4 * unat N"
      using g rs by simp
    have "\<exists>c. mem_copy b (4 * (unat S - unat r)) base 0 (4 * (unat r + unat N - unat S)) = Some c
      \<and> length c = length b"
      by (rule mem_copy_ok; use e b(2) g rs S N L r buf in linarith)
    then obtain c where c: "mem_copy b (4 * (unat S - unat r)) base 0 (4 * (unat r + unat N - unat S)) = Some c"
      "length c = length b" by blast
    show thesis
      by (rule that [of 0 ?r c]) (simp_all only: if_not_P [OF False] p b c Option.bind.bind_lunit)
  qed
qed

lemma read_queue_safe:
  assumes q: "align_virtual_addr (q_arr q) = Some base" "unat (q_mem_size (q_arr q)) = length base"
      "q_hdr q = Some h" "4096 \<le> length base" and buf: "4096 \<le> length buf"
  obtains rc q' buf' tx where "read_queue q (Some buf) t = Some (rc, q', Some buf', tx)"
    "q_arr q' = q_arr q" "length buf' = length buf"
proof -
  have L: "length base < 4294967296" using unat32_less [of "q_mem_size (q_arr q)"] q(2) by simp
  let ?off = "unat (push_bit 2 (qhdr_read_idx h))" and ?S = "drop_bit 2 (q_mem_size (q_arr q))"
  have S: "unat ?S = length base div 4" by (simp add: unat_drop2 q(2))
  have arr [simp]: "q_arr (q_with q h' base) = q_arr q" for h'
    using q(1) by (simp add: q_with_def)
  note R0 = read_queue_def [of q "Some buf" t, unfolded q option.simps Let_def]
  consider "qhdr_read_idx h = qhdr_write_idx h" | "qhdr_read_idx h \<noteq> qhdr_write_idx h" "?off + 4 > length base"
    | "qhdr_read_idx h \<noteq> qhdr_write_idx h" "\<not> ?off + 4 > length base" by blast
  then show thesis
  proof cases
    case 1
    show thesis by (rule that [OF R0 [unfolded if_P [OF 1]]]) simp_all
  next
    case 2
    show thesis by (rule that [OF R0 [unfolded if_not_P [OF 2(1)] if_P [OF 2(2)]]]) simp_all
  next
    case 3
    define N where "N = drop_bit 2 (u32_of_bytes (slice base ?off 4))"
    have get: "get_u32 base ?off = Some (u32_of_bytes (slice base ?off 4))" using 3(2) by (simp add: get_u32_def)
    have pN: "unat (push_bit 2 N) = 4 * unat N" unfolding N_def by (intro unat_push2 unat_drop2_less)
    note R = R0 [unfolded if_not_P [OF 3(1)] if_not_P [OF 3(2)] get Option.bind.bind_lunit N_def [symmetric]]
    show thesis
    proof (cases "N = 0 \<or> \<not> (push_bit 2 N \<le> VIDC_IFACEQ_VAR_HUGE_PKT_SIZE \<and> qhdr_read_idx h \<le> ?S)")
      case True
      show thesis
      proof (cases "N = 0")
        case True
        show thesis by (rule that [OF R [unfolded if_P [OF True]]]) simp_all
      next
        case False
        with \<open>N = 0 \<or> _\<close> have "\<not> (push_bit 2 N \<le> VIDC_IFACEQ_VAR_HUGE_PKT_SIZE \<and> qhdr_read_idx h \<le> ?S)"
          by simp
        note bad = if_not_P [OF this]
        show thesis
          by (rule that [OF R [unfolded if_not_P [OF False] bad Option.bind.bind_lunit prod.case]]) simp_all
      qed
    next
      case False
      then have nz: "N \<noteq> 0" and ok: "push_bit 2 N \<le> VIDC_IFACEQ_VAR_HUGE_PKT_SIZE \<and> qhdr_read_idx h \<le> ?S"
        by simp_all
      have N: "4 * unat N \<le> 4096"
        using ok pN by (simp add: word_le_nat_alt VIDC_IFACEQ_VAR_HUGE_PKT_SIZE_def)
      have rS: "unat (qhdr_read_idx h) \<le> length base div 4" using ok S by (simp add: word_le_nat_alt)
      then have o: "?off = 4 * unat (qhdr_read_idx h)" using L by (intro unat_push2) linarith
      from read_copy_safe [OF S L q(4) buf _ N, of "qhdr_read_idx h"] 3(2) o obtain rc r' b where
        c: "(if qhdr_read_idx h + N < ?S
          then mem_copy buf 0 base (4 * unat (qhdr_read_idx h)) (4 * unat N) \<bind> (\<lambda>p. Some (0, qhdr_read_idx h + N, p))
          else mem_copy buf 0 base (4 * unat (qhdr_read_idx h)) (unat (push_bit 2 (N - (qhdr_read_idx h + N - ?S)))) \<bind>
            (\<lambda>p. mem_copy p (unat (push_bit 2 (N - (qhdr_read_idx h + N - ?S)))) base 0
                (unat (push_bit 2 (qhdr_read_idx h + N - ?S))) \<bind>
              (\<lambda>p. Some (0, qhdr_read_idx h + N - ?S, p)))) = Some (rc :: int, r', b)" "length b = length buf"
        by (metis linorder_not_le)
      show thesis
        using that [OF R [unfolded if_not_P [OF nz] if_P [OF ok] pN o c(1) Option.bind.bind_lunit prod.case]]
          c(2) by simp
    qed
  qed
qed

section \<open>Writing\<close>

lemma write_copy_safe:
  fixes w N S :: uint32
  assumes S: "unat S = length base div 4" and L: "length base < 4294967296"
    and w: "4 * unat w \<le> length base" and N: "4 * unat N \<le> length pkt" "4 * unat N \<le> length base"
  obtains w' b where
    "(if w + N < S then mem_copy base (4 * unat w) pkt 0 (4 * unat N) \<bind> (\<lambda>b. Some (0, F (w + N) b, True))
      else mem_copy base (4 * unat w) pkt 0 (unat (push_bit 2 (N - (w + N - S)))) \<bind>
        (\<lambda>b. mem_copy b 0 pkt (unat (push_bit 2 (N - (w + N - S)))) (unat (push_bit 2 (w + N - S))) \<bind>
          (\<lambda>b. Some (0, F (w + N - S) b, True)))) = Some (0 :: int, F w' b, True)" "length b = length base"
proof -
  have a: "unat (w + N) = unat w + unat N" using w L N by (intro unat_add32) linarith
  show thesis
  proof (cases "w + N < S")
    case True
    then have "4 * unat w + 4 * unat N \<le> length base" using a S by (simp add: word_less_nat_alt)
    then show thesis using True N
      by (intro that [of "w + N" "overwrite base (4 * unat w) (slice pkt 0 (4 * unat N))"])
        (simp_all add: mem_copy_in)
  next
    case False
    let ?w = "w + N - S"
    have ge: "S \<le> w + N" using False by simp
    have u: "unat ?w = unat w + unat N - unat S" using unat_sub [OF ge] a by simp
    have ws: "unat w \<le> unat S" using w S by linarith
    then have le: "?w \<le> N" using u by (simp add: word_le_nat_alt)
    have g: "unat S \<le> unat w + unat N" using ge a by (simp add: word_le_nat_alt)
    have k: "unat (N - ?w) = unat S - unat w"
      using g u ws unfolding unat_sub [OF le] by simp
    have p: "unat (push_bit 2 (N - ?w)) = 4 * (unat S - unat w)" "unat (push_bit 2 ?w) = 4 * (unat w + unat N - unat S)"
      using k u N S L ws by (subst unat_push2; linarith)+
    have "\<exists>b. mem_copy base (4 * unat w) pkt 0 (4 * (unat S - unat w)) = Some b \<and> length b = length base"
      by (rule mem_copy_ok; use g ws S N in linarith)
    then obtain b where b: "mem_copy base (4 * unat w) pkt 0 (4 * (unat S - unat w)) = Some b"
      "length b = length base" by blast
    have e: "4 * (unat S - unat w) + 4 * (unat w + unat N - unat S) = 4 * unat N"
      using g ws by simp
    have "\<exists>c. mem_copy b 0 pkt (4 * (unat S - unat w)) (4 * (unat w + unat N - unat S)) = Some c
      \<and> length c = length b"
      by (rule mem_copy_ok; use e b(2) g ws S N L in linarith)
    then obtain c where c: "mem_copy b 0 pkt (4 * (unat S - unat w)) (4 * (unat w + unat N - unat S)) = Some c"
      "length c = length b" by blast
    show thesis
      by (rule that [of ?w c]) (simp_all only: if_not_P [OF False] p b c Option.bind.bind_lunit)
  qed
qed

lemma write_queue_safe:
  assumes q: "align_virtual_addr (q_arr q) = Some base" "unat (q_mem_size (q_arr q)) = length base"
      "q_hdr q = Some h" and w: "unat (qhdr_write_idx h) < 1073741824" and p: "holds_pkt pkt"
  obtains rc q' b where "write_queue q (Some pkt) rx = Some (rc, q', rc = 0 \<or> rx)" "q_cap q' = q_cap q"
    "align_virtual_addr (q_arr q') = Some b" "length b = length base"
proof -
  let ?w = "qhdr_write_idx h" and ?S = "drop_bit 2 (q_mem_size (q_arr q))"
  have L: "length base < 4294967296" using unat32_less [of "q_mem_size (q_arr q)"] q(2) by simp
  have S: "unat ?S = length base div 4" by (simp add: unat_drop2 q(2))
  have off: "unat (push_bit 2 ?w) = 4 * unat ?w" using w by (rule unat_push2)
  define N where "N = pkt_words pkt"
  have N: "4 * unat N = pkt_len pkt" by (simp add: N_def unat_pkt_words)
  have pN: "unat (push_bit 2 N) = 4 * unat N" unfolding N_def by (intro unat_push2 unat_drop2_less)
  have p4: "4 \<le> length pkt" using p by (simp add: holds_pkt_def)
  note W = write_queue_def [of q "Some pkt" rx, unfolded q option.simps Let_def get_u32_size [OF p4]
      Option.bind.bind_lunit N_def [symmetric] off pN]
  let ?e = "if qhdr_write_idx h \<ge> qhdr_read_idx h then ?S - (qhdr_write_idx h - qhdr_read_idx h)
    else qhdr_read_idx h - qhdr_write_idx h"
  consider "N = 0 \<or> N > ?S" | "\<not> (N = 0 \<or> N > ?S)" "?e \<le> N"
    | "\<not> (N = 0 \<or> N > ?S)" "\<not> ?e \<le> N" "4 * unat ?w > length base"
    | "\<not> (N = 0 \<or> N > ?S)" "\<not> ?e \<le> N" "\<not> 4 * unat ?w > length base" by blast
  then show thesis
  proof cases
    case 1
    from W [unfolded if_P [OF 1]] show thesis using that [of "- ENODATA" q base] q by simp
  next
    case 2
    from W [unfolded if_not_P [OF 2(1)] if_P [OF 2(2)]] show thesis
      using that [of "- ENOTEMPTY" "q_with q (h\<lparr>qhdr_tx_req := 1\<rparr>) base" base] by simp
  next
    case 3
    from 3 W [unfolded if_not_P [OF 3(1)] if_not_P [OF 3(2)]] show thesis
      using that [of "- ENODATA" "q_with q (h\<lparr>qhdr_tx_req := 0\<rparr>) base" base] by simp
  next
    case 4
    have "unat N \<le> length base div 4" using 4(1) S by (simp add: word_le_nat_alt not_less)
    then have "4 * unat N \<le> length base" by linarith
    then obtain w' b where c: "write_queue q (Some pkt) rx =
        Some (0, q_with q (h\<lparr>qhdr_tx_req := 0, qhdr_write_idx := w'\<rparr>) b, True)" "length b = length base"
      using write_copy_safe [OF S L _ _ _, of ?w N pkt "\<lambda>w' b. q_with q (h\<lparr>qhdr_tx_req := 0, qhdr_write_idx := w'\<rparr>) b"]
        4(3) p N W [unfolded if_not_P [OF 4(1)] if_not_P [OF 4(2)] if_not_P [OF 4(3)]]
      by (auto simp: holds_pkt_def)
    show thesis by (rule that [of 0 "q_with q (h\<lparr>qhdr_tx_req := 0, qhdr_write_idx := w'\<rparr>) b" b]) (simp_all add: c)
  qed
qed

end
