(* ===== verification/Vidc_Hfi_Props.thy ===== *)
theory Vidc_Hfi_Props
  imports Vidc_Hfi_Safety
begin

text \<open>
  Properties of the video driver's firmware queues, with witnesses on a queue of eight words.
\<close>

section \<open>Queues for the witnesses\<close>

definition demo_hfi_hdr :: hfi_queue_header where
  "demo_hfi_hdr = set_queue_hdr_defaults
    \<lparr>qhdr_status = 0, qhdr_start_addr = 0, qhdr_type = 0, qhdr_q_size = 0, qhdr_pkt_size = 0,
     qhdr_pkt_drop_cnt = 0, qhdr_rx_wm = 0, qhdr_tx_wm = 0, qhdr_rx_req = 0, qhdr_tx_req = 0,
     qhdr_rx_irq_status = 0, qhdr_tx_irq_status = 0, qhdr_read_idx = 0, qhdr_write_idx = 0\<rparr>"

definition demo_queue :: "hfi_queue_header \<Rightarrow> uint8 list \<Rightarrow> msm_vidc_iface_q_info" where
  "demo_queue h m = \<lparr>q_hdr = Some h,
    q_arr = \<lparr>align_device_addr = 0, align_virtual_addr = Some m, q_mem_size = of_nat (length m)\<rparr>\<rparr>"

definition demo_pkt :: "uint8 \<Rightarrow> uint8 list" where "demo_pkt x = [8, 0, 0, 0, x, 1, 2, 3]"

text \<open>Indices in the middle, so that a packet goes around the end.\<close>

definition demo_hfi_q :: msm_vidc_iface_q_info where
  "demo_hfi_q = demo_queue (demo_hfi_hdr\<lparr>qhdr_read_idx := 7, qhdr_write_idx := 7\<rparr>) (replicate 32 0)"

definition demo_mem_addr :: msm_vidc_mem_addr where
  "demo_mem_addr = \<lparr>align_device_addr = 0, align_virtual_addr = None, q_mem_size = 0, ma_mem = mem0\<rparr>"

definition demo_hfi_core :: hfi_core where
  "demo_hfi_core = \<lparr>core_header_id = 3, core_packet_id = 0xFFFFFFFE, sys_init_id = 0,
    ubwc_config = \<lparr>max_channels = 8, mal_length = 32, highest_bank_bit = 16, bank_swzl_level = 0,
      bank_swz2_level = 1, bank_swz3_level = 1, bank_spreading = 1\<rparr>,
    synx_fence_cap = True, synx_client_id = 9, synx_client_flags = 4\<rparr>"

definition demo_vidc_core :: "msm_vidc_iface_q_info \<Rightarrow> msm_vidc_core" where
  "demo_vidc_core q = \<lparr>core_lock_held = True, core_state = MSM_VIDC_CORE_INIT,
    core_state_handle = Some MSM_VIDC_CORE_INIT, core_sub_state = 0,
    iface_q_table = demo_mem_addr, q_tbl_hdr = None, iface_queues = \<lambda>_. q, core_sfr = demo_mem_addr,
    aon_reg = demo_mem_addr, fence_reg = demo_mem_addr, qtimer_reg = demo_mem_addr,
    mmap_buf = demo_mem_addr, synx_fence_queue = mem0, supports_synx_fence = False,
    device_region_tbl = [], core_packet = Some (replicate 4096 0), core_packet_size = 4096, core_ids = demo_hfi_core\<rparr>"

lemma demo_hfi_q_ok:
  "q_ok demo_hfi_q (demo_hfi_hdr\<lparr>qhdr_read_idx := 7, qhdr_write_idx := 7\<rparr>) (replicate 32 0)"
  by (simp add: q_ok_def demo_hfi_q_def demo_queue_def)

lemma demo_hfi_q_view: "q_view demo_hfi_q = Some []"
  by (rule q_viewI [OF demo_hfi_q_ok]) (simp_all add: q_bytes_def q_used_def ring_get_def)

lemma demo_hfi_q_cap: "q_cap demo_hfi_q = 32"
  by (simp add: q_cap_def demo_hfi_q_def demo_queue_def)

lemma demo_pkt_len: "pkt_len (demo_pkt x) = 8" "length (demo_pkt x) = 8"
  by (simp_all add: pkt_len_def demo_pkt_def u32_of_bytes_def)

lemma demo_core_ok:
  "core_lock_held (demo_vidc_core q)" "core_in_valid_state (demo_vidc_core q)"
  "iface_queues (demo_vidc_core q) i = q" "align_virtual_addr (iface_q_table (demo_vidc_core q)) = None"
  by (simp_all add: demo_vidc_core_def core_in_valid_state_def demo_mem_addr_def)

section \<open>One queue\<close>

text \<open>C7: Writing to a queue.  \<open>__write_queue\<close> implements \<open>fifo_put\<close> on the list of packets the queue
  holds: a packet that leaves at least one word free is appended whole, also across the end of the array,
  and any other is refused with \<open>-ENOTEMPTY\<close> and leaves the packets as they are.\<close>

theorem hfi_queue_write_refines:
  assumes "q_view q = Some ps" "pkt_len pkt \<noteq> 0" "pkt_len pkt \<le> length pkt" "pkt_len pkt \<le> q_cap q"
  shows "\<exists>rc q' ps'. fifo_put (q_cap q) (take (pkt_len pkt) pkt) ps = (rc, ps')
    \<and> write_queue q (Some pkt) rx = Some (rc, q', rc = 0 \<or> rx) \<and> q_view q' = Some ps' \<and> q_cap q' = q_cap q"
proof -
  obtain rc ps' where F: "fifo_put (q_cap q) (take (pkt_len pkt) pkt) ps = (rc, ps')"
    by (metis prod.exhaust)
  from write_refines [OF assms F, of rx] F show ?thesis by metis
qed

theorem hfi_queue_write_refines_witness:
  "\<exists>q'. write_queue demo_hfi_q (Some (demo_pkt 5)) False = Some (0, q', True)
    \<and> q_view q' = Some [demo_pkt 5]"
proof -
  have "fifo_put (q_cap demo_hfi_q) (take (pkt_len (demo_pkt 5)) (demo_pkt 5)) [] = (0, [demo_pkt 5])"
    by (simp add: demo_pkt_len demo_hfi_q_cap fifo_put_def)
  with hfi_queue_write_refines [OF demo_hfi_q_view, of "demo_pkt 5" False] show ?thesis
    by (force simp: demo_pkt_len demo_hfi_q_cap)
qed

text \<open>C8: Reading from a queue.  \<open>__read_queue\<close> implements \<open>fifo_get\<close>: the first packet is copied to the
  buffer and taken off, an empty queue gives \<open>-ENODATA\<close>, and a packet of more than 4096 bytes is dropped
  with all packets behind it.\<close>

theorem hfi_queue_read_refines:
  assumes "q_view q = Some ps" "4096 \<le> length buf"
  shows "\<exists>rc d ps' q' tx. fifo_get ps = (rc, d, ps')
    \<and> read_queue q (Some buf) t =
        Some (rc, q', Some (case d of None \<Rightarrow> buf | Some p \<Rightarrow> p @ drop (length p) buf), tx)
    \<and> q_view q' = Some ps' \<and> q_cap q' = q_cap q"
proof -
  obtain rc d ps' where F: "fifo_get ps = (rc, d, ps')" by (metis prod.exhaust)
  have e: "(case d of None \<Rightarrow> buf | Some p \<Rightarrow> overwrite buf 0 p) =
      (case d of None \<Rightarrow> buf | Some p \<Rightarrow> p @ drop (length p) buf)"
    by (simp add: overwrite_def split: option.split)
  show ?thesis
  proof (rule read_refines [OF assms F, of t])
    fix q' tx
    assume "read_queue q (Some buf) t = Some (rc, q', Some (case d of None \<Rightarrow> buf | Some p \<Rightarrow> overwrite buf 0 p), tx)"
      "q_view q' = Some ps'" "q_cap q' = q_cap q"
    with F show ?thesis unfolding e by (intro exI conjI)
  qed
qed

theorem hfi_queue_read_refines_witness:
  "\<exists>q q' tx. q_view q = Some [demo_pkt 5]
    \<and> read_queue q (Some (replicate 4096 0)) 0 = Some (0, q', Some (demo_pkt 5 @ replicate 4088 0), tx)
    \<and> q_view q' = Some []"
proof -
  obtain q where q: "q_view q = Some [demo_pkt 5]"
    by (rule write_refines [OF demo_hfi_q_view, of "demo_pkt 5" 0 "[demo_pkt 5]" False])
      (simp_all add: demo_pkt_len demo_hfi_q_cap fifo_put_def)
  from hfi_queue_read_refines [OF q, of "replicate 4096 0" 0] q show ?thesis
    by (auto simp: fifo_get_def demo_pkt_len drop_replicate)
qed

text \<open>C9: Reading is safe against the firmware.  Whatever the header says, with any indices and any bytes
  in the array, \<open>__read_queue\<close> reads only inside the array, copies at most 4096 bytes into the buffer, and
  changes nothing but the header.\<close>

theorem hfi_read_memory_safe:
  assumes "q_hdr q = Some h" "align_virtual_addr (q_arr q) = Some base"
    "unat (q_mem_size (q_arr q)) = length base" "4096 \<le> length base" "4096 \<le> length buf"
  shows "\<exists>rc q' buf' tx. read_queue q (Some buf) t = Some (rc, q', Some buf', tx)
    \<and> q_arr q' = q_arr q \<and> length buf' = length buf"
  using read_queue_safe [OF assms(2,3,1,4,5), of t] by metis

theorem hfi_read_memory_safe_witness:
  "\<exists>rc q' buf' tx. read_queue
      (demo_queue (demo_hfi_hdr\<lparr>qhdr_read_idx := 0xc0000001, qhdr_write_idx := 77\<rparr>) (replicate 4096 255))
      (Some (replicate 4096 0)) 0 = Some (rc, q', Some buf', tx) \<and> length buf' = 4096"
  using hfi_read_memory_safe [of "demo_queue (demo_hfi_hdr\<lparr>qhdr_read_idx := 0xc0000001, qhdr_write_idx := 77\<rparr>)
      (replicate 4096 255)" _ "replicate 4096 255" "replicate 4096 0" 0]
  by (fastforce simp: demo_queue_def)

text \<open>C22: Writing is safe as long as the write index is below \<open>2^30\<close>.  Then \<open>__write_queue\<close> stays inside
  the array and the packet, whatever read index the firmware stores.  (The index is checked through a
  pointer computed from \<open>write_idx << 2\<close>, which drops the upper bits: \<open>write_index_escapes\<close>.)\<close>

theorem hfi_write_memory_safe:
  assumes "q_hdr q = Some h" "align_virtual_addr (q_arr q) = Some base"
    "unat (q_mem_size (q_arr q)) = length base" "unat (qhdr_write_idx h) < 2 ^ 30" "holds_pkt pkt"
  shows "\<exists>rc q' b. write_queue q (Some pkt) rx = Some (rc, q', rc = 0 \<or> rx)
    \<and> align_virtual_addr (q_arr q') = Some b \<and> length b = length base"
proof -
  have "unat (qhdr_write_idx h) < 1073741824" using assms(4) by simp
  from write_queue_safe [OF assms(2,3,1) this assms(5), of rx] show ?thesis by metis
qed

theorem hfi_write_memory_safe_witness:
  "\<exists>rc q' b. write_queue
      (demo_queue (demo_hfi_hdr\<lparr>qhdr_read_idx := 0xffffffff, qhdr_write_idx := 8\<rparr>) (replicate 32 0))
      (Some (demo_pkt 1)) False = Some (rc, q', rc = 0) \<and> align_virtual_addr (q_arr q') = Some b \<and> length b = 32"
  using hfi_write_memory_safe [of "demo_queue (demo_hfi_hdr\<lparr>qhdr_read_idx := 0xffffffff, qhdr_write_idx := 8\<rparr>)
      (replicate 32 0)" _ "replicate 32 0" "demo_pkt 1" False]
  by (simp add: demo_queue_def holds_pkt_def demo_pkt_len)

lemma write_index_escapes:
  "write_queue (demo_queue (demo_hfi_hdr\<lparr>qhdr_read_idx := 0x40000000, qhdr_write_idx := 0x40000000\<rparr>)
    (replicate 32 0)) (Some (demo_pkt 1)) False = None"
  by code_simp

text \<open>A packet whose size is less than a word stays at the head of the queue for ever.\<close>

lemma zero_packet_blocks:
  assumes "q_ok q h m" "qhdr_read_idx h \<noteq> qhdr_write_idx h"
    "get_u32 m (4 * unat (qhdr_read_idx h)) = Some v" "v < 4"
  shows "read_queue q (Some buf) t = Some (- ENODATA, q, Some buf, t)"
proof -
  have "drop_bit 2 v = 0"
    using assms(4) by (simp flip: unat_eq_zero add: unat_drop2 word_less_nat_alt)
  moreover have "unat (push_bit 2 (qhdr_read_idx h)) = 4 * unat (qhdr_read_idx h)"
    using q_ok_idx [OF assms(1)] by (intro unat_push2) linarith
  ultimately show ?thesis
    using assms(2,3) q_okD [OF assms(1)] q_ok_idx [OF assms(1)] by (simp add: read_queue_def Let_def)
qed

section \<open>The interface of the core\<close>

text \<open>C6: First in, first out, in any history.  However the driver's calls and the firmware's steps
  interleave, and whether calls fail or not: the commands the firmware got an interrupt for are exactly
  those it has taken followed by those that wait in the queue, in order and unchanged; what it sent are
  the messages that have left the message queue followed by those that wait; and what
  \<open>venus_hfi_queue_msg_read\<close> returned successfully is a subsequence of the former: nothing is made up,
  duplicated or overtaken.\<close>

theorem iface_history_fifo:
  assumes "iface_hist core cs ts ss rs"
  shows "\<exists>qs ms ds. queue_view core CMDQ = Some qs \<and> cs = ts @ qs
    \<and> queue_view core MSGQ = Some ms \<and> ss = ds @ ms \<and> subseq rs ds"
  using iface_hist_inv [OF assms] by (simp add: iface_inv_def)

lemma demo_holds: "holds_pkt (demo_pkt x)"
  by (simp add: holds_pkt_def demo_pkt_len)

lemma demo_cmd:
  obtains core where "venus_hfi_queue_cmd_write (demo_vidc_core demo_hfi_q) (Some (demo_pkt x)) = Some (0, core, True)"
    "queue_view core CMDQ = Some [demo_pkt x]" "core_lock_held core" "core_in_valid_state core"
proof -
  have v: "queue_view (demo_vidc_core demo_hfi_q) CMDQ = Some []"
    by (simp add: queue_view_def demo_core_ok demo_hfi_q_view)
  have f: "cmd_fits (demo_vidc_core demo_hfi_q) [] (demo_pkt x)"
    by (simp add: cmd_fits_def demo_pkt_len demo_core_ok demo_hfi_q_cap)
  from cmd_write_view [OF demo_core_ok(1,2) v demo_holds, of x] f obtain core where c:
    "venus_hfi_queue_cmd_write (demo_vidc_core demo_hfi_q) (Some (demo_pkt x)) = Some (0, core, True)"
    "queue_view core CMDQ = Some [demo_pkt x]"
    by (auto simp: demo_pkt_len)
  moreover have "core_lock_held core \<and> core_in_valid_state core"
    using c(1) by (auto simp: venus_hfi_queue_cmd_write_def iface_cmdq_write_relaxed_def demo_core_ok
      strict_check_def Let_def bind_Some_iff split: if_splits)
  ultimately show thesis using that by simp
qed

theorem iface_history_fifo_witness:
  "\<exists>core. iface_hist core [demo_pkt 5] [demo_pkt 5] [demo_pkt 7] []
    \<and> queue_view core CMDQ = Some [] \<and> queue_view core MSGQ = Some [demo_pkt 7]"
proof -
  let ?c0 = "demo_vidc_core demo_hfi_q"
  have "iface_hist ?c0 [] [] [] []"
    by (rule hist_start) (simp_all add: queue_view_def demo_core_ok demo_hfi_q_view)
  moreover obtain c1 where c1: "venus_hfi_queue_cmd_write ?c0 (Some (demo_pkt 5)) = Some (0, c1, True)"
    "queue_view c1 CMDQ = Some [demo_pkt 5]" by (rule demo_cmd)
  ultimately have "iface_hist c1 [demo_pkt 5] [] [] []"
    using hist_cmd [OF _ demo_holds c1(1)] by (fastforce simp: demo_pkt_len)
  from hist_take [OF this c1(2) demo_hfi_q_view]
  have h2: "iface_hist (core_with c1 CMDQ demo_hfi_q) [demo_pkt 5] [demo_pkt 5] [] []" by simp
  then obtain ms where ms: "queue_view (core_with c1 CMDQ demo_hfi_q) MSGQ = Some ms" "ms = []"
    using iface_history_fifo [OF h2] by auto
  obtain q where q: "q_view q = Some [demo_pkt 7]"
    by (rule write_refines [OF demo_hfi_q_view, of "demo_pkt 7" 0 "[demo_pkt 7]" False])
      (simp_all add: demo_pkt_len demo_hfi_q_cap fifo_put_def)
  let ?c = "core_with (core_with c1 CMDQ demo_hfi_q) MSGQ q"
  have h: "iface_hist ?c [demo_pkt 5] [demo_pkt 5] ([] @ [demo_pkt 7]) []"
    by (rule hist_send [OF h2 ms(1)]) (simp add: ms(2) q)
  have "queue_view ?c CMDQ = Some [] \<and> queue_view ?c MSGQ = Some [demo_pkt 7]"
    using iface_history_fifo [OF h] by (auto simp: demo_hfi_q_view q)
  with h show ?thesis by auto
qed

text \<open>C38: A command that is not written is reported as written.  When a command does not fit into the
  queue, or has no valid size, \<open>venus_hfi_queue_cmd_write\<close> leaves the queue as it is, raises no interrupt,
  and returns 0: the return code of \<open>__write_queue\<close> is dropped, and the \<open>-E2BIG\<close> meant for this case has
  been overwritten.\<close>

theorem cmd_write_hides_failure:
  assumes "core_lock_held core" "core_in_valid_state core" "queue_view core CMDQ = Some ps"
    "holds_pkt pkt" "\<not> cmd_fits core ps pkt"
  shows "\<exists>core'. venus_hfi_queue_cmd_write core (Some pkt) = Some (0, core', False)
    \<and> queue_view core' CMDQ = Some ps"
  using cmd_write_view [OF assms(1-4)] assms(5) by metis

definition demo_big_pkt :: "uint8 list" where "demo_big_pkt = [40, 0, 0, 0] @ replicate 36 0"

theorem cmd_write_hides_failure_witness:
  "\<exists>core'. venus_hfi_queue_cmd_write (demo_vidc_core demo_hfi_q) (Some demo_big_pkt) = Some (0, core', False)
    \<and> queue_view core' CMDQ = Some []"
proof (rule cmd_write_hides_failure [OF demo_core_ok(1,2)])
  show "queue_view (demo_vidc_core demo_hfi_q) CMDQ = Some []"
    by (simp add: queue_view_def demo_core_ok demo_hfi_q_view)
  have l: "pkt_len demo_big_pkt = 40"
    by (simp add: pkt_len_def demo_big_pkt_def u32_of_bytes_def)
  then show "holds_pkt demo_big_pkt" by (simp add: holds_pkt_def) (simp add: demo_big_pkt_def)
  show "\<not> cmd_fits (demo_vidc_core demo_hfi_q) [] demo_big_pkt"
    by (simp add: cmd_fits_def l demo_core_ok demo_hfi_q_cap)
qed

text \<open>A message is lost when the firmware has asked to be told of room.  If \<open>qhdr_tx_req\<close> is set,
  \<open>venus_hfi_queue_msg_read\<close> takes the message off the queue and then returns \<open>-EINVAL\<close>, on which the
  caller stops without looking at it.\<close>

theorem msg_read_loses_message:
  assumes "core_in_valid_state core" "queue_view core MSGQ = Some (p # ps)" "length p \<le> 4096"
    "4096 \<le> length buf" "q_hdr (iface_queues core MSGQ) = Some h" "qhdr_tx_req h = 1"
  shows "\<exists>core'. venus_hfi_queue_msg_read core (Some buf) =
      Some (- EINVAL, core', Some (p @ drop (length p) buf)) \<and> queue_view core' MSGQ = Some ps"
proof -
  have F: "fifo_get (p # ps) = (0, Some p, ps)" using assms(3) by (simp add: fifo_get_def)
  from msg_read_view [OF assms(1,2,4) F] assms(5,6) show ?thesis
    by (auto simp: overwrite_def)
qed

theorem msg_read_loses_message_witness:
  "\<exists>core core'. queue_view core MSGQ = Some [demo_pkt 5]
    \<and> venus_hfi_queue_msg_read core (Some (replicate 4096 0)) =
        Some (- EINVAL, core', Some (demo_pkt 5 @ replicate 4088 0)) \<and> queue_view core' MSGQ = Some []"
proof -
  obtain q where "q_view q = Some [demo_pkt 5]"
    by (rule write_refines [OF demo_hfi_q_view, of "demo_pkt 5" 0 "[demo_pkt 5]" False])
      (simp_all add: demo_pkt_len demo_hfi_q_cap fifo_put_def)
  then obtain h m where q: "q_ok q h m" "q_bytes h m = concat [demo_pkt 5]" "\<forall>p\<in>set [demo_pkt 5]. hfi_pkt p"
    by (rule q_view_SomeE)
  let ?q = "q_with q (h\<lparr>qhdr_tx_req := 1\<rparr>) m"
  have v: "q_view ?q = Some [demo_pkt 5]" by (rule q_view_hdr [OF q]) simp_all
  have "\<exists>core'. venus_hfi_queue_msg_read (demo_vidc_core ?q) (Some (replicate 4096 0)) =
      Some (- EINVAL, core', Some (demo_pkt 5 @ drop (length (demo_pkt 5)) (replicate 4096 0)))
    \<and> queue_view core' MSGQ = Some []"
    by (rule msg_read_loses_message [where h = "h\<lparr>qhdr_tx_req := 1\<rparr>"])
      (simp_all add: queue_view_def demo_core_ok v demo_pkt_len)
  moreover have "queue_view (demo_vidc_core ?q) MSGQ = Some [demo_pkt 5]"
    by (simp add: queue_view_def demo_core_ok v)
  ultimately show ?thesis by (force simp: demo_pkt_len drop_replicate)
qed

section \<open>Setting up\<close>

text \<open>Initialisation.  From a core without queues, and with an allocator that gives memory of the size
  asked for, \<open>venus_hfi_queue_init\<close> never leaves the memory it got, and when it returns 0 all three queues
  are empty, have their full size, and carry the type, address and request flags the firmware expects.  It
  returns 0 if no call into the memory management fails.\<close>

theorem queue_init_ready:
  assumes "alloc_maps ops" "align_virtual_addr (iface_q_table core) = None"
  shows "\<exists>rc core' w'. venus_hfi_queue_init ops w core = Some (rc, core', w')
    \<and> (rc = 0 \<longrightarrow> (\<forall>i. queue_view core' i = Some [] \<and> q_fresh i (iface_queues core' i)
      \<and> q_cap (iface_queues core' i) = 819200)) \<and> (ops_succeed ops \<longrightarrow> rc = 0)"
proof (cases rule: queue_init_fresh [OF assms, of w, case_names nomem queues])
  case (nomem w')
  then show ?thesis by simp
next
  case (queues rc core' w')
  then show ?thesis using q_fresh_view [OF queues(3)] by (simp add: queue_view_def)
qed

text \<open>An allocator that fails from the \<open>n\<close>-th call on.\<close>

definition demo_mem_ops :: "nat \<Rightarrow> nat msm_vidc_memory_ops" where
  "demo_mem_ops n = \<lparr>
    op_alloc_map = \<lambda>w m. if w < n then (0, m\<lparr>mem_kvaddr := Some (replicate (unat (mem_sz m)) 0)\<rparr>, w + 1)
      else (- EINVAL, m, w),
    op_unmap_free = \<lambda>w m. (m, w), op_dma_map_page = \<lambda>w m. (0, m, w), op_dma_unmap_page = \<lambda>w m. (m, w),
    op_iommu_map = \<lambda>w m. (0, m, w), op_iommu_unmap = \<lambda>w m. (m, w)\<rparr>"

lemma demo_mem_ops_ok: "alloc_maps (demo_mem_ops n)"
  by (auto simp: alloc_maps_def demo_mem_ops_def split: if_splits)

definition demo_sure_ops :: "nat msm_vidc_memory_ops" where
  "demo_sure_ops = (demo_mem_ops 0)
    \<lparr>op_alloc_map := \<lambda>w m. (0, m\<lparr>mem_kvaddr := Some (replicate (unat (mem_sz m)) 0)\<rparr>, w + 1)\<rparr>"

lemma demo_sure_ops_ok: "alloc_maps demo_sure_ops" "ops_succeed demo_sure_ops"
  by (auto simp: alloc_maps_def ops_succeed_def demo_sure_ops_def demo_mem_ops_def)

theorem queue_init_ready_witness:
  "\<exists>core' w'. venus_hfi_queue_init demo_sure_ops 0 (demo_vidc_core demo_hfi_q) = Some (0, core', w')
    \<and> (\<forall>i. queue_view core' i = Some [] \<and> q_fresh i (iface_queues core' i)
      \<and> q_cap (iface_queues core' i) = 819200)"
  using queue_init_ready [OF demo_sure_ops_ok(1) demo_core_ok(4), of 0 demo_hfi_q] demo_sure_ops_ok(2) by auto

text \<open>Only the queues change in a reset.\<close>

lemma upd_hdr_same:
  "q_upd_hdr f i core = Some core' \<Longrightarrow> core_sfr core' = core_sfr core \<and> mmap_buf core' = mmap_buf core"
  by (auto simp: q_upd_hdr_def core_with_def split: option.splits)

lemma reset_same:
  assumes "venus_hfi_reset_queue_header core = Some (rc, core')"
  shows "core_sfr core' = core_sfr core \<and> mmap_buf core' = mmap_buf core"
  using assms unfolding venus_hfi_reset_queue_header_def set_queue_ids_def Let_def
  by (auto simp: bind_Some_iff dest!: upd_hdr_same)

lemma q_fresh_placed: "q_fresh i q \<Longrightarrow> q_placed q"
  using q_ok_pos [of q] by (fastforce simp: q_fresh_def q_placed_def q_ok_def)

text \<open>A failed initialisation is forgotten.  When \<open>venus_hfi_queue_init\<close> has got the memory of the queues
  but fails afterwards, the next call, which happens unless \<open>venus_hfi_queue_deinit\<close> is called in between,
  only resets the headers and returns 0: the SFR buffer and the mmap buffer stay as the failed call left
  them.\<close>

theorem queue_init_retry_succeeds:
  assumes "alloc_maps ops" "align_virtual_addr (iface_q_table core) = None"
    "venus_hfi_queue_init ops w core = Some (rc, core1, w1)" "align_virtual_addr (iface_q_table core1) \<noteq> None"
  shows "\<exists>core2. venus_hfi_queue_init ops2 w2 core1 = Some (0, core2, w2)
    \<and> core_sfr core2 = core_sfr core1 \<and> mmap_buf core2 = mmap_buf core1"
proof (cases rule: queue_init_fresh [OF assms(1,2), of w, case_names nomem queues])
  case (nomem w')
  then show ?thesis using assms(2-4) by simp
next
  case (queues rc' core' w')
  then have "core' = core1" using assms(3) by simp
  then have "\<And>i. q_placed (iface_queues core1 i)" using queues(3) q_fresh_placed by blast
  then obtain core2 where c: "venus_hfi_reset_queue_header core1 = Some (0, core2)"
    using reset_fresh by metis
  then have "venus_hfi_queue_init ops2 w2 core1 = Some (0, core2, w2)"
    using assms(4) by (simp add: venus_hfi_queue_init_def)
  then show ?thesis using reset_same [OF c] by blast
qed

theorem queue_init_retry_succeeds_witness:
  "\<exists>core1 core2 w1. venus_hfi_queue_init (demo_mem_ops 1) 0 (demo_vidc_core demo_hfi_q) = Some (- ENOMEM, core1, w1)
    \<and> venus_hfi_queue_init (demo_mem_ops 1) w1 core1 = Some (0, core2, w1)
    \<and> align_virtual_addr (core_sfr core2) = None \<and> align_virtual_addr (mmap_buf core2) = None"
proof -
  let ?c = "demo_vidc_core demo_hfi_q"
  let ?m = "mem0\<lparr>mem_region := MSM_VIDC_NON_SECURE, mem_sz := of_nat TOTAL_QSIZE, mem_secure := False,
    mem_map_kernel := True, mem_kvaddr := Some (replicate TOTAL_QSIZE 0)\<rparr>"
  have a: "vidc_alloc (demo_mem_ops 1) 0 TOTAL_QSIZE = (0, ?m, 1)"
    by (simp add: vidc_alloc_def demo_mem_ops_def total_qsize)
  have kv: "mem_kvaddr ?m = Some (replicate TOTAL_QSIZE 0)" "length (replicate TOTAL_QSIZE (0 :: uint8)) = TOTAL_QSIZE"
    by simp_all
  obtain c1 where c1: "set_up_queues ?m ?c = Some c1" "align_virtual_addr (iface_q_table c1) \<noteq> None"
    by (rule set_up_queues_fresh [OF kv, of ?c]) auto
  have "\<exists>m. vidc_alloc (demo_mem_ops 1) (Suc 0) n = (- EINVAL, m, Suc 0)" for n
    by (simp add: vidc_alloc_def demo_mem_ops_def)
  then obtain m where "vidc_alloc (demo_mem_ops 1) (Suc 0) ALIGNED_SFR_SIZE = (- EINVAL, m, Suc 0)" by blast
  then have "venus_hfi_queue_init_rest (demo_mem_ops 1) (Suc 0) c1 = Some (- ENOMEM, c1, Suc 0)"
    by (simp add: venus_hfi_queue_init_rest_def)
  then have i: "venus_hfi_queue_init (demo_mem_ops 1) 0 ?c = Some (- ENOMEM, c1, 1)"
    using a c1(1) by (simp add: venus_hfi_queue_init_def demo_core_ok)
  have s: "core_sfr c1 = demo_mem_addr \<and> mmap_buf c1 = demo_mem_addr"
    using c1(1) unfolding set_up_queues_def set_queue_ids_def Let_def
    by (auto simp: bind_Some_iff demo_vidc_core_def core_with_def dest!: upd_hdr_same split: if_splits)
  from queue_init_retry_succeeds [OF demo_mem_ops_ok demo_core_ok(4) i c1(2), of "demo_mem_ops 1" 1] i s
  show ?thesis by (force simp: demo_mem_addr_def)
qed

end
