(* ===== verification/Vidc_Hfi_Encode.thy ===== *)
theory Vidc_Hfi_Encode
  imports Vidc_Hfi_Packet
begin

text \<open>
  Commands as values: a header with a list of packets, and the bytes that stand for them.  Building a
  command in a buffer appends to the list, and what has been built passes the driver's own check of
  responses.
\<close>

section \<open>Words in a row\<close>

lemma length_u32s [simp]: "length (u32s vs) = 4 * length vs"
  by (induction vs) (simp_all add: u32s_def)

lemma u32s_append: "u32s (xs @ ys) = u32s xs @ u32s ys"
  by (simp add: u32s_def)

lemma u32s_Cons: "u32s (v # vs) = u32_bytes v @ u32s vs"
  by (simp add: u32s_def)

lemma u32s_Nil [simp]: "u32s [] = []"
  by (simp add: u32s_def)

lemma zeros_u32s: "replicate (4 * n) 0 = u32s (replicate n 0)"
  by (induction n) (simp_all add: u32s_Cons u32_bytes_def replicate_add numeral_eq_Suc)

text \<open>A row of words between other bytes, and access to one of them.\<close>

lemma put_u32_row:
  assumes "i < length vs"
  shows "put_u32 (a @ u32s vs @ r) (length a + 4 * i) w = Some (a @ u32s (vs[i := w]) @ r)"
proof -
  have e: "u32s vs = u32s (take i vs) @ u32_bytes (vs ! i) @ u32s (drop (Suc i) vs)"
    using assms by (simp flip: u32s_append u32s_Cons add: Cons_nth_drop_Suc)
  show ?thesis using assms
    by (simp add: e put_u32_def overwrite_def upd_conv_take_nth_drop u32s_append u32s_Cons)
qed

lemma get_u32_row:
  assumes "i < length vs"
  shows "get_u32 (a @ u32s vs @ r) (length a + 4 * i) = Some (vs ! i)"
proof -
  have e: "u32s vs = u32s (take i vs) @ u32_bytes (vs ! i) @ u32s (drop (Suc i) vs)"
    using assms by (simp flip: u32s_append u32s_Cons add: Cons_nth_drop_Suc)
  show ?thesis using assms by (simp add: e get_u32_def slice_def)
qed

section \<open>Commands and their bytes\<close>

record hfi_packet =
  pk_type :: uint32
  pk_flags :: uint32
  pk_info :: uint32
  pk_port :: uint32
  pk_id :: uint32
  pk_payload :: "uint8 list"

definition pkt_size_of :: "hfi_packet \<Rightarrow> nat" where
  "pkt_size_of p = 32 + length (pk_payload p)"

definition pkt_bytes :: "hfi_packet \<Rightarrow> uint8 list" where
  "pkt_bytes p = u32s [of_nat (pkt_size_of p), pk_type p, pk_flags p, pk_info p, pk_port p, pk_id p, 0, 0]
    @ pk_payload p"

definition hdr_bytes :: "uint32 \<Rightarrow> uint32 \<Rightarrow> uint32 \<Rightarrow> uint32 \<Rightarrow> uint8 list" where
  "hdr_bytes sz sid hid n = u32s [sz, sid, hid, 0, 0, 0, 0, n]"

definition cmd_size :: "hfi_packet list \<Rightarrow> nat" where
  "cmd_size ps = 32 + sum_list (map pkt_size_of ps)"

definition cmd_bytes :: "uint32 \<Rightarrow> uint32 \<Rightarrow> hfi_packet list \<Rightarrow> uint8 list" where
  "cmd_bytes sid hid ps =
    hdr_bytes (of_nat (cmd_size ps)) sid hid (of_nat (length ps)) @ concat (map pkt_bytes ps)"

text \<open>The buffer begins with the command.\<close>

definition holds_cmd :: "uint8 list \<Rightarrow> uint32 \<Rightarrow> uint32 \<Rightarrow> hfi_packet list \<Rightarrow> bool" where
  "holds_cmd buf sid hid ps \<longleftrightarrow> cmd_size ps \<le> length buf \<and> take (cmd_size ps) buf = cmd_bytes sid hid ps"

lemma length_pkt_bytes [simp]: "length (pkt_bytes p) = pkt_size_of p"
  by (simp add: pkt_bytes_def pkt_size_of_def)

lemma length_hdr_bytes [simp]: "length (hdr_bytes sz sid hid n) = 32"
  by (simp add: hdr_bytes_def)

lemma length_cmd_bytes [simp]: "length (cmd_bytes sid hid ps) = cmd_size ps"
  by (simp add: cmd_bytes_def cmd_size_def length_concat comp_def)

lemma holds_cmd_iff: "holds_cmd buf sid hid ps \<longleftrightarrow> (\<exists>rest. buf = cmd_bytes sid hid ps @ rest)"
  by (metis append_take_drop_id holds_cmd_def length_cmd_bytes append_eq_conv_conj le_add1 length_append)

lemma cmd_size_append [simp]: "cmd_size (ps @ qs) = cmd_size ps + sum_list (map pkt_size_of qs)"
  by (simp add: cmd_size_def)

lemma cmd_size_ge: "32 + 32 * length ps \<le> cmd_size ps"
  by (induction ps) (simp_all add: cmd_size_def pkt_size_of_def)

section \<open>Building\<close>


lemma create_header_ok:
  assumes "32 \<le> unat psize" "32 \<le> length buf"
  shows "hfi_create_header (Some buf) psize sid hid = Some (0, Some (hdr_bytes 32 sid hid 0 @ drop 32 buf))"
proof -
  have z: "mem_zero buf 0 32 = Some ([] @ u32s (replicate 8 0) @ drop 32 buf)"
    using assms(2) zeros_u32s [of 8] by (simp add: mem_zero_def overwrite_def)
  have p: "put_u32 (u32s vs @ r) (4 * i) w = Some (u32s (vs[i := w]) @ r)" if "i < length vs" for vs r i w
    using put_u32_row [OF that, of "[]"] by simp
  have "put_u32s (u32s (replicate 8 0) @ drop 32 buf) [(0, 32), (4, sid), (8, hid), (28, 0)] =
      Some (hdr_bytes 32 sid hid 0 @ drop 32 buf)"
    using p [of 0] p [of 1] p [of 2] p [of 7] by (simp add: numeral_eq_Suc replicate_Suc hdr_bytes_def)
  then show ?thesis using assms z by (simp add: hfi_create_header_def del: put_u32s.simps)
qed

lemma create_header_short: "unat psize < 32 \<Longrightarrow> hfi_create_header (Some buf) psize sid hid = Some (- EINVAL, Some buf)"
  by (simp add: hfi_create_header_def)

lemma overwrite_mid:
  "length b = length c \<Longrightarrow> overwrite (a @ b @ r) (length a) c = a @ c @ r"
  by (simp add: overwrite_def)

lemma create_packet_ok:
  assumes sz: "unat sz = 32 + length body" and len: "unat plen = length pl" "pl = [] \<or> payload = Some pl"
    and fit: "unat sz + 32 + length pl \<le> unat psize" and rest: "32 + length pl \<le> length rest"
    and p: "p = \<lparr>pk_type = ty, pk_flags = fl, pk_info = info, pk_port = port, pk_id = pid, pk_payload = pl\<rparr>"
  shows "hfi_create_packet (Some (hdr_bytes sz sid hid n @ body @ rest)) psize ty fl info port pid payload plen =
    Some (0, Some (hdr_bytes (sz + of_nat (pkt_size_of p)) sid hid (n + 1) @ (body @ pkt_bytes p)
      @ drop (pkt_size_of p) rest))"
proof -
  let ?h = "hdr_bytes sz sid hid n" and ?s = "32 + plen"
  let ?a = "?h @ body" and ?r = "drop (32 + length pl) rest"
  let ?row = "[?s, ty, fl, info, port, pid, 0, 0]"
  have off: "unat sz = length ?a" using sz by simp
  have h: "hdr_bytes x sid hid y = [] @ u32s [x, sid, hid, 0, 0, 0, 0, y]" for x y by (simp add: hdr_bytes_def)
  have s: "unat ?s = 32 + length pl"
  proof -
    have "32 + unat plen < 4294967296" using fit len(1) unat32_less [of psize] by linarith
    then show ?thesis by (simp add: unat_add32 len(1))
  qed
  have s2: "?s = of_nat (pkt_size_of p)"
    by (simp add: pkt_size_of_def p flip: len(1))
  have g0: "get_u32 (hdr_bytes x sid hid y @ r) 0 = Some x" "get_u32 (hdr_bytes x sid hid y @ r) 28 = Some y"
    for x y r unfolding h using get_u32_row [of 0 "[x, sid, hid, 0, 0, 0, 0, y]" "[]" r]
      get_u32_row [of 7 "[x, sid, hid, 0, 0, 0, 0, y]" "[]" r] by simp_all
  have p0: "put_u32 (hdr_bytes x sid hid y @ r) 28 z = Some (hdr_bytes x sid hid z @ r)"
    "put_u32 (hdr_bytes x sid hid y @ r) 0 z = Some (hdr_bytes z sid hid y @ r)"
    for x y z r unfolding h using put_u32_row [of 7 "[x, sid, hid, 0, 0, 0, 0, y]" "[]" r z]
      put_u32_row [of 0 "[x, sid, hid, 0, 0, 0, 0, y]" "[]" r z] by simp_all
  have big: "\<not> psize < sz + ?s"
  proof -
    have "unat sz + unat ?s < 4294967296" using fit s unat32_less [of psize] by linarith
    then have "unat (sz + ?s) = unat sz + 32 + length pl" using s by (simp add: unat_add32)
    then show ?thesis using fit by (simp add: word_less_nat_alt)
  qed
  have z: "mem_zero (?h @ body @ rest) (unat sz) (unat ?s) =
      Some (?a @ u32s (replicate 8 0) @ replicate (length pl) 0 @ ?r)"
    using rest sz by (simp add: s mem_zero_def overwrite_def replicate_add flip: zeros_u32s)
  have put: "put_u32 (?a @ u32s vs @ r) (unat sz + 4 * i) v = Some (?a @ u32s (vs[i := v]) @ r)"
    if "i < length vs" for i vs r v
    using put_u32_row [OF that, of ?a r v] by (simp only: off)
  have w: "put_u32s (?a @ u32s (replicate 8 0) @ r)
      [(unat sz, ?s), (unat sz + 4, ty), (unat sz + 8, fl), (unat sz + 12, info), (unat sz + 16, port),
       (unat sz + 20, pid)] = Some (?a @ u32s ?row @ r)" for r
    using put [of 0] put [of 1] put [of 2] put [of 3] put [of 4] put [of 5]
    by (simp add: numeral_eq_Suc replicate_Suc)
  have ps: "get_u32 (hdr_bytes sz sid hid y @ body @ u32s ?row @ r) (unat sz) = Some ?s" for y r
    using get_u32_row [of 0 ?row "hdr_bytes sz sid hid y @ body" r] sz by simp
  have "hfi_create_packet (Some (?h @ body @ rest)) psize ty fl info port pid payload plen =
      Some (0, Some (hdr_bytes (sz + ?s) sid hid (n + 1) @ body @ u32s ?row @ pl @ ?r))"
  proof (cases "pl = []")
    case True
    then have "plen = 0" using len(1) by (simp add: unat_eq_zero)
    with True big z w sz show ?thesis
      using ps [unfolded sz] by (simp add: hfi_create_packet_def g0 p0 Let_def del: put_u32s.simps)
  next
    case False
    then have "plen \<noteq> 0" and "payload = Some pl" using len by auto
    moreover have "mem_copy (?a @ u32s ?row @ replicate (length pl) 0 @ ?r) (unat sz + 32) pl 0 (unat plen) =
        Some (?a @ u32s ?row @ pl @ ?r)"
      using overwrite_mid [of "replicate (length pl) 0" pl "?a @ u32s ?row" ?r] sz len(1) rest
      by (simp add: mem_copy_def slice_all)
    ultimately show ?thesis
      using big z w sz ps [unfolded sz]
      by (simp add: hfi_create_packet_def g0 p0 Let_def del: put_u32s.simps)
  qed
  then show ?thesis
    by (simp add: s2 pkt_bytes_def pkt_size_of_def p)
qed

lemma create_packet_full:
  assumes sz: "32 \<le> unat sz" and len: "unat sz + 32 + unat plen < 4294967296" "unat psize < unat sz + 32 + unat plen"
  shows "hfi_create_packet (Some (hdr_bytes sz sid hid n @ rest)) psize ty fl info port pid payload plen =
    Some (- EINVAL, Some (hdr_bytes sz sid hid n @ rest))"
proof -
  have g: "get_u32 (hdr_bytes sz sid hid n @ rest) 0 = Some sz"
    using get_u32_row [of 0 "[sz, sid, hid, 0, 0, 0, 0, n]" "[]" rest] by (simp add: hdr_bytes_def)
  have "unat (32 + plen) = 32 + unat plen" using len(1) by (simp add: unat_add32)
  then have "unat (sz + (32 + plen)) = unat sz + 32 + unat plen" using len(1) by (simp add: unat_add32)
  then have "psize < sz + (32 + plen)" using len(2) by (simp add: word_less_nat_alt)
  then show ?thesis using sz by (simp add: hfi_create_packet_def g Let_def)
qed

text \<open>\<open>hfi_create_packet\<close> on a buffer that holds a command: the packet is appended, or there is no room.\<close>

lemma create_packet_appends:
  assumes c: "holds_cmd buf sid hid ps" and b: "unat psize \<le> length buf"
    and len: "unat plen = length pl" "pl = [] \<or> payload = Some pl"
    and p: "p = \<lparr>pk_type = ty, pk_flags = fl, pk_info = info, pk_port = port, pk_id = pid, pk_payload = pl\<rparr>"
    and fit: "cmd_size (ps @ [p]) < 4294967296"
  obtains (appended) buf' where "cmd_size (ps @ [p]) \<le> unat psize"
      "hfi_create_packet (Some buf) psize ty fl info port pid payload plen = Some (0, Some buf')"
      "holds_cmd buf' sid hid (ps @ [p])" "length buf' = length buf"
  | (full) "unat psize < cmd_size (ps @ [p])"
      "hfi_create_packet (Some buf) psize ty fl info port pid payload plen = Some (- EINVAL, Some buf)"
proof -
  let ?sz = "of_nat (cmd_size ps) :: uint32" and ?n = "of_nat (length ps) :: uint32"
  let ?body = "concat (map pkt_bytes ps)"
  obtain rest where buf: "buf = hdr_bytes ?sz sid hid ?n @ ?body @ rest"
    using c by (auto simp: holds_cmd_iff cmd_bytes_def)
  have sz: "unat ?sz = cmd_size ps" using fit by (intro unat_of_nat32) simp
  have body: "cmd_size ps = 32 + length ?body" by (simp add: cmd_size_def length_concat comp_def)
  have ps: "pkt_size_of p = 32 + length pl" by (simp add: pkt_size_of_def p)
  have lb: "length buf = cmd_size ps + length rest" by (simp add: buf body)
  show thesis
  proof (cases "cmd_size (ps @ [p]) \<le> unat psize")
    case True
    then have f: "unat ?sz + 32 + length pl \<le> unat psize" "32 + length pl \<le> length rest"
      using b lb by (simp_all add: sz ps)
    from create_packet_ok [OF trans [OF sz body] len f p, of sid hid ?n, folded buf]
    have "hfi_create_packet (Some buf) psize ty fl info port pid payload plen =
      Some (0, Some (cmd_bytes sid hid (ps @ [p]) @ drop (pkt_size_of p) rest))"
      by (simp add: cmd_bytes_def add.commute)
    then show thesis
      using f(2) lb by (intro appended [OF True, of "cmd_bytes sid hid (ps @ [p]) @ drop (pkt_size_of p) rest"])
        (auto simp: holds_cmd_iff ps)
  next
    case False
    moreover have "32 \<le> unat ?sz" "unat ?sz + 32 + unat plen < 4294967296" "unat psize < unat ?sz + 32 + unat plen"
      using False fit len(1) body unfolding sz by (simp_all add: ps)
    ultimately show thesis
      using create_packet_full [of ?sz plen psize sid hid ?n "?body @ rest" ty fl info port pid payload, folded buf]
      by (intro full) simp_all
  qed
qed

text \<open>The packets of a command of the driver, with consecutive ids.\<close>

fun spec_packets :: "uint32 \<Rightarrow> pkt_spec list \<Rightarrow> hfi_packet list" where
  "spec_packets pid [] = []"
| "spec_packets pid ((ty, fl, info, vs) # ps) =
    \<lparr>pk_type = ty, pk_flags = fl, pk_info = info, pk_port = HFI_PORT_NONE, pk_id = pid, pk_payload = u32s vs\<rparr>
      # spec_packets (pid + 1) ps"

lemma create_packets_ok:
  assumes "holds_cmd buf sid hid qs" "unat psize \<le> length buf"
    "cmd_size (qs @ spec_packets (core_packet_id core) ps) \<le> unat psize"
  obtains buf' where
    "create_packets core (Some buf) psize ps =
      Some (0, core\<lparr>core_packet_id := core_packet_id core + of_nat (length ps)\<rparr>, Some buf')"
    "holds_cmd buf' sid hid (qs @ spec_packets (core_packet_id core) ps)" "length buf' = length buf"
  using assms
proof (induction ps arbitrary: buf qs core thesis)
  case Nil
  then show ?case by simp
next
  case (Cons s ps)
  obtain ty fl info vs where s: "s = (ty, fl, info, vs)" by (metis prod.exhaust)
  let ?core = "core\<lparr>core_packet_id := core_packet_id core + 1\<rparr>"
  define p where "p = \<lparr>pk_type = ty, pk_flags = fl, pk_info = info, pk_port = HFI_PORT_NONE,
    pk_id = core_packet_id core, pk_payload = u32s vs\<rparr>"
  have sp: "spec_packets (core_packet_id core) (s # ps) = p # spec_packets (core_packet_id ?core) ps"
    by (simp add: s p_def)
  have sz: "cmd_size (qs @ [p]) \<le> unat psize" using Cons.prems(4) by (simp add: sp)
  have ps: "pkt_size_of p = 32 + 4 * length vs" by (simp add: pkt_size_of_def p_def)
  have len: "unat (of_nat (4 * length vs) :: uint32) = length (u32s vs)"
  proof -
    have "cmd_size qs + pkt_size_of p \<le> unat psize" using sz by simp
    then have "4 * length vs < 4294967296" using ps unat32_less [of psize] by linarith
    then show ?thesis using unat_of_nat32 [of "4 * length vs"] by simp
  qed
  have pl: "u32s vs = [] \<or> (if vs = [] then None else Some (u32s vs)) = Some (u32s vs)" by simp
  have fit: "cmd_size (qs @ [p]) < 4294967296" using sz unat32_less [of psize] by linarith
  from create_packet_appends [OF Cons.prems(2,3) len pl p_def fit]
  obtain buf1 where b1: "hfi_create_packet (Some buf) psize ty fl info HFI_PORT_NONE (core_packet_id core)
      (if vs = [] then None else Some (u32s vs)) (of_nat (4 * length vs)) = Some (0, Some buf1)"
    "holds_cmd buf1 sid hid (qs @ [p])" "length buf1 = length buf"
    using sz by (metis linorder_not_le)
  obtain buf' where b: "create_packets ?core (Some buf1) psize ps =
      Some (0, ?core\<lparr>core_packet_id := core_packet_id ?core + of_nat (length ps)\<rparr>, Some buf')"
    "holds_cmd buf' sid hid ((qs @ [p]) @ spec_packets (core_packet_id ?core) ps)" "length buf' = length buf1"
    using Cons.IH [OF _ b1(2), of ?core] Cons.prems(3,4) b1(3) by (auto simp: sp)
  show ?case
    using b b1 by (intro Cons.prems(1) [of buf']) (simp_all add: s sp [unfolded s] add.assoc flip: p_def)
qed

text \<open>A run of \<open>hfi_create_packet\<close> calls that ask for the packets of a list, up to the first that fails.\<close>

fun create_all :: "uint32 \<Rightarrow> hfi_packet list \<Rightarrow> uint8 list option \<Rightarrow> (int \<times> uint8 list option) option" where
  "create_all psize [] pkt = Some (0, pkt)"
| "create_all psize (p # ps) pkt = do {
    (rc, pkt) \<leftarrow> hfi_create_packet pkt psize (pk_type p) (pk_flags p) (pk_info p) (pk_port p) (pk_id p)
      (Some (pk_payload p)) (of_nat (length (pk_payload p)));
    if rc \<noteq> 0 then Some (rc, pkt) else create_all psize ps pkt
  }"

lemma create_all_run:
  assumes "holds_cmd buf sid hid qs" "unat psize \<le> length buf" "cmd_size (qs @ ps) < 4294967296"
  shows "\<exists>rc buf'. create_all psize ps (Some buf) = Some (rc, Some buf') \<and> length buf' = length buf \<and>
    (if cmd_size (qs @ ps) \<le> unat psize \<or> ps = [] then rc = 0 \<and> holds_cmd buf' sid hid (qs @ ps)
     else rc = - EINVAL \<and> (\<exists>n < length ps. holds_cmd buf' sid hid (qs @ take n ps)))"
  using assms
proof (induction ps arbitrary: buf qs)
  case Nil
  then show ?case by simp
next
  case (Cons p ps)
  have e: "qs @ p # ps = (qs @ [p]) @ ps" by simp
  have fit: "cmd_size (qs @ [p]) < 4294967296" and le: "cmd_size (qs @ [p]) \<le> cmd_size (qs @ p # ps)"
    using Cons.prems(3) by simp_all
  have len: "unat (of_nat (length (pk_payload p)) :: uint32) = length (pk_payload p)"
    using fit by (intro unat_of_nat32) (simp add: pkt_size_of_def)
  have pk: "p = \<lparr>pk_type = pk_type p, pk_flags = pk_flags p, pk_info = pk_info p, pk_port = pk_port p,
      pk_id = pk_id p, pk_payload = pk_payload p\<rparr>" by simp
  show ?case
  proof (cases rule: create_packet_appends [OF Cons.prems(1,2) len disjI2 [OF refl] pk fit, case_names appended full])
    case (appended buf1)
    obtain rc buf' where r: "create_all psize ps (Some buf1) = Some (rc, Some buf')" "length buf' = length buf1"
      "if cmd_size ((qs @ [p]) @ ps) \<le> unat psize \<or> ps = [] then rc = 0 \<and> holds_cmd buf' sid hid ((qs @ [p]) @ ps)
       else rc = - EINVAL \<and> (\<exists>n < length ps. holds_cmd buf' sid hid ((qs @ [p]) @ take n ps))"
      using Cons.IH [OF appended(3)] Cons.prems(2,3) appended(4) unfolding e by metis
    have run: "create_all psize (p # ps) (Some buf) = Some (rc, Some buf')" using appended(2) r(1) by simp
    show ?thesis
    proof (cases "cmd_size ((qs @ [p]) @ ps) \<le> unat psize \<or> ps = []")
      case True
      then show ?thesis using run r(2,3) appended(1,4) unfolding e by auto
    next
      case False
      then obtain n where n: "n < length ps" "holds_cmd buf' sid hid ((qs @ [p]) @ take n ps)" "rc = - EINVAL"
        using r(3) by (auto simp del: append_assoc)
      then have "Suc n < length (p # ps) \<and> holds_cmd buf' sid hid (qs @ take (Suc n) (p # ps))" by simp
      then show ?thesis using run r(2) n(3) False appended(4) unfolding e by auto
    qed
  next
    case full
    then have "create_all psize (p # ps) (Some buf) = Some (- EINVAL, Some buf)" by simp
    moreover have "holds_cmd buf sid hid (qs @ take 0 (p # ps))" using Cons.prems(1) by simp
    moreover have "\<not> cmd_size (qs @ p # ps) \<le> unat psize" using full(1) le by linarith
    ultimately show ?thesis by (intro exI [of _ "- EINVAL"] exI [of _ buf]) auto
  qed
qed

lemma sys_command_ok:
  assumes f: "\<And>c. core_packet_id (f c) = core_packet_id c"
    and b: "unat psize \<le> length buf" "cmd_size (spec_packets (core_packet_id core) ps) \<le> unat psize"
  obtains core' buf' where "sys_command f ps core (Some buf) psize = Some (0, core', Some buf')"
    "core' = (f (core\<lparr>core_header_id := core_header_id core + 1\<rparr>))
      \<lparr>core_packet_id := core_packet_id core + of_nat (length ps)\<rparr>"
    "holds_cmd buf' 0 (core_header_id core) (spec_packets (core_packet_id core) ps)" "length buf' = length buf"
proof -
  have p: "32 \<le> unat psize" "32 \<le> length buf" using b by (simp_all add: cmd_size_def)
  let ?core = "f (core\<lparr>core_header_id := core_header_id core + 1\<rparr>)"
  let ?buf = "hdr_bytes 32 0 (core_header_id core) 0 @ drop 32 buf"
  have h: "holds_cmd ?buf 0 (core_header_id core) []"
    by (simp add: holds_cmd_iff cmd_bytes_def cmd_size_def)
  have l: "length ?buf = length buf" using p by simp
  have id: "core_packet_id ?core = core_packet_id core" by (simp add: f)
  obtain buf' where "create_packets ?core (Some ?buf) psize ps =
      Some (0, ?core\<lparr>core_packet_id := core_packet_id ?core + of_nat (length ps)\<rparr>, Some buf')"
    "holds_cmd buf' 0 (core_header_id core) ([] @ spec_packets (core_packet_id ?core) ps)" "length buf' = length ?buf"
    by (rule create_packets_ok [OF h, of psize ?core ps]) (use b l id in simp_all)
  then show thesis
    using create_header_ok [OF p, of 0 "core_header_id core"] l id
    by (intro that [of _ buf']) (simp_all add: sys_command_def)
qed

section \<open>Responses\<close>

text \<open>The packet at an offset, as a handler reads it through a pointer, and the walk over the packets of a
  response with \<open>pkt += packet->size\<close>.\<close>

definition packet_at :: "uint8 list \<Rightarrow> nat \<Rightarrow> hfi_packet option" where
  "packet_at buf off = do {
    sz \<leftarrow> get_u32 buf off;
    ty \<leftarrow> get_u32 buf (off + 4);
    fl \<leftarrow> get_u32 buf (off + 8);
    info \<leftarrow> get_u32 buf (off + 12);
    port \<leftarrow> get_u32 buf (off + 16);
    pid \<leftarrow> get_u32 buf (off + 20);
    if off + unat sz \<le> length buf
    then Some \<lparr>pk_type = ty, pk_flags = fl, pk_info = info, pk_port = port, pk_id = pid,
      pk_payload = slice buf (off + 32) (unat sz - 32)\<rparr>
    else None
  }"

fun walk_packets :: "nat \<Rightarrow> nat \<Rightarrow> uint8 list \<Rightarrow> hfi_packet list option" where
  "walk_packets 0 off buf = Some []"
| "walk_packets (Suc n) off buf = do {
    p \<leftarrow> packet_at buf off;
    sz \<leftarrow> get_u32 buf off;
    ps \<leftarrow> walk_packets n (off + unat sz) buf;
    Some (p # ps)
  }"

definition response_packets :: "uint8 list \<Rightarrow> hfi_packet list option" where
  "response_packets buf = do { n \<leftarrow> get_u32 buf 28; walk_packets (unat n) 32 buf }"

lemma packet_at_bytes:
  assumes "pkt_size_of p < 4294967296"
  shows "packet_at (a @ pkt_bytes p @ r) (length a) = Some p"
    "get_u32 (a @ pkt_bytes p @ r) (length a) = Some (of_nat (pkt_size_of p))"
proof -
  let ?row = "[of_nat (pkt_size_of p), pk_type p, pk_flags p, pk_info p, pk_port p, pk_id p, 0, 0]"
  have g: "get_u32 (a @ u32s ?row @ pk_payload p @ r) (length a + 4 * i) = Some (?row ! i)" if "i < 8" for i
    using that by (intro get_u32_row) simp
  have s: "slice (a @ u32s ?row @ pk_payload p @ r) (length a + 32) (pkt_size_of p - 32) = pk_payload p"
    by (simp add: slice_def pkt_size_of_def)
  show "get_u32 (a @ pkt_bytes p @ r) (length a) = Some (of_nat (pkt_size_of p))"
    using g [of 0] by (simp add: pkt_bytes_def)
  show "packet_at (a @ pkt_bytes p @ r) (length a) = Some p"
    using g [of 0] g [of 1] g [of 2] g [of 3] g [of 4] g [of 5] s assms
    by (simp add: packet_at_def pkt_bytes_def) (simp add: pkt_size_of_def)
qed

lemma walk_built:
  "sum_list (map pkt_size_of ps) < 4294967296 \<Longrightarrow>
    walk_packets (length ps) (length a) (a @ concat (map pkt_bytes ps) @ r) = Some ps"
proof (induction ps arbitrary: a)
  case (Cons p ps)
  from Cons.IH [of "a @ pkt_bytes p"] Cons.prems show ?case
    using packet_at_bytes [of p a "concat (map pkt_bytes ps) @ r"] by simp
qed simp

lemma validate_built:
  "sum_list (map pkt_size_of ps) < 4294967296 \<Longrightarrow>
    length a + sum_list (map pkt_size_of ps) \<le> unat bsize \<Longrightarrow>
    validate_packets (length ps) (length a) (a @ concat (map pkt_bytes ps) @ r) bsize = Some 0"
proof (induction ps arbitrary: a)
  case (Cons p ps)
  have sz: "unat (of_nat (pkt_size_of p) :: uint32) = pkt_size_of p"
    using Cons.prems by (intro unat_of_nat32) simp
  have nz: "(of_nat (pkt_size_of p) :: uint32) \<noteq> 0" "bsize \<noteq> 0"
    using sz Cons.prems(2) by (auto simp: pkt_size_of_def)
  have "validate_packet (length a) (a @ concat (map pkt_bytes (p # ps)) @ r) bsize = Some 0"
    using packet_at_bytes(2) [of p a "concat (map pkt_bytes ps) @ r"] Cons.prems nz sz
    by (simp add: validate_packet_def) (simp add: pkt_size_of_def)
  then show ?case
    using Cons.IH [of "a @ pkt_bytes p"] Cons.prems packet_at_bytes(2) [of p a "concat (map pkt_bytes ps) @ r"] sz
    by simp
qed simp

text \<open>A command the driver has built passes the check for responses, and is read back as it was.\<close>

lemma built_header:
  assumes "holds_cmd buf sid hid ps"
  obtains rest where "buf = (hdr_bytes (of_nat (cmd_size ps)) sid hid (of_nat (length ps)))
      @ concat (map pkt_bytes ps) @ rest"
    "get_u32 buf 0 = Some (of_nat (cmd_size ps))" "get_u32 buf 28 = Some (of_nat (length ps))"
proof -
  let ?row = "[of_nat (cmd_size ps), sid, hid, 0, 0, 0, 0, of_nat (length ps)]"
  obtain rest where b: "buf = (hdr_bytes (of_nat (cmd_size ps)) sid hid (of_nat (length ps)))
      @ concat (map pkt_bytes ps) @ rest"
    using assms by (auto simp: holds_cmd_iff cmd_bytes_def)
  have "i < length ?row \<Longrightarrow>
      get_u32 ([] @ u32s ?row @ concat (map pkt_bytes ps) @ rest) (length ([] :: uint8 list) + 4 * i) = Some (?row ! i)"
    for i by (rule get_u32_row)
  from this [of 0] this [of 7] show thesis using that [OF b] by (simp add: b hdr_bytes_def)
qed

lemma built_validates:
  assumes c: "holds_cmd buf sid hid ps" and s: "ps \<noteq> []" "cmd_size ps \<le> unat bsize"
  shows "validate_hdr_packet buf bsize = Some 0" "response_packets buf = Some ps"
proof -
  obtain rest where b: "buf = (hdr_bytes (of_nat (cmd_size ps)) sid hid (of_nat (length ps)))
      @ concat (map pkt_bytes ps) @ rest"
    "get_u32 buf 0 = Some (of_nat (cmd_size ps))" "get_u32 buf 28 = Some (of_nat (length ps))"
    using built_header [OF c] .
  have lim: "cmd_size ps < 4294967296" using s(2) unat32_less [of bsize] by linarith
  have l: "32 + 32 * length ps \<le> cmd_size ps" by (rule cmd_size_ge)
  have u: "unat (of_nat (cmd_size ps) :: uint32) = cmd_size ps" "unat (of_nat (length ps) :: uint32) = length ps"
    using lim l by simp_all
  have "1 \<le> length ps" using s(1) by (cases ps) simp_all
  then have n: "64 \<le> cmd_size ps" using l by linarith
  have sum: "32 + sum_list (map pkt_size_of ps) = cmd_size ps" by (simp add: cmd_size_def)
  have "validate_packets (length ps) 32 buf bsize = Some 0"
    using validate_built [of ps "hdr_bytes (of_nat (cmd_size ps)) sid hid (of_nat (length ps))" bsize rest] lim sum s(2)
    by (simp add: b(1))
  then show "validate_hdr_packet buf bsize = Some 0"
    using n unfolding validate_hdr_packet_def b(2,3) by (simp add: u not_less)
  have "walk_packets (length ps) 32 buf = Some ps"
    using walk_built [of ps "hdr_bytes (of_nat (cmd_size ps)) sid hid (of_nat (length ps))" rest] lim sum
    by (simp add: b(1))
  then show "response_packets buf = Some ps"
    by (simp add: response_packets_def b(3) u)
qed

lemma built_packets:
  assumes c: "holds_cmd buf sid hid ps" and s: "cmd_size ps < 4294967296"
  shows "response_packets buf = Some ps"
proof -
  obtain rest where b: "buf = (hdr_bytes (of_nat (cmd_size ps)) sid hid (of_nat (length ps)))
      @ concat (map pkt_bytes ps) @ rest" "get_u32 buf 28 = Some (of_nat (length ps))"
    using built_header [OF c] by metis
  have "unat (of_nat (length ps) :: uint32) = length ps"
    using s cmd_size_ge [of ps] by (intro unat_of_nat32) linarith
  moreover have "walk_packets (length ps) 32 buf = Some ps"
    using walk_built [of ps "hdr_bytes (of_nat (cmd_size ps)) sid hid (of_nat (length ps))" rest] s
    by (simp add: b(1) cmd_size_def)
  ultimately show ?thesis by (simp add: response_packets_def b(2))
qed

text \<open>A response that passes the check can be walked: every packet lies in the buffer.\<close>

lemma validate_then_walk:
  "validate_packets n off buf bsize = Some 0 \<Longrightarrow> unat bsize \<le> length buf \<Longrightarrow>
    \<exists>ps. walk_packets n off buf = Some ps \<and> length ps = n"
proof (induction n arbitrary: off)
  case (Suc n)
  from Suc.prems(1) obtain sz where v: "validate_packet off buf bsize = Some 0" "get_u32 buf off = Some sz"
    "validate_packets n (off + unat sz) buf bsize = Some 0"
    by (auto simp: bind_Some_iff split: if_splits)
  have sz: "32 \<le> unat sz" "off + unat sz \<le> length buf"
    using v(1,2) Suc.prems(2) by (auto simp: validate_packet_def split: if_splits)
  have "\<exists>p. packet_at buf off = Some p"
    using sz by (simp add: packet_at_def get_u32_in v(2))
  with Suc.IH [OF v(3) Suc.prems(2)] show ?case
    using v(2) by auto
qed simp

end
