(* ===== verification/Vidc_Hfi_Response.thy ===== *)
theory Vidc_Hfi_Response
  imports Vidc_Hfi_Encode
begin

text \<open>
  What the driver does with a response of the firmware: \<open>handle_response\<close> of \<open>venus_hfi_response.c\<close> and the
  loops over the packets of a response.  The handlers of single packets are parameters: they work on
  the instance and its buffers, which are not modelled.
\<close>

section \<open>Ranges and handlers\<close>

definition HFI_FW_FLAGS_SESSION_ERROR :: uint32 where "HFI_FW_FLAGS_SESSION_ERROR = 4"
definition HFI_FW_FLAGS_SYSTEM_ERROR :: uint32 where "HFI_FW_FLAGS_SYSTEM_ERROR = 8"
definition HFI_CMD_BUFFER :: uint32 where "HFI_CMD_BUFFER = 0x01000009"
definition HFI_CMD_SETTINGS_CHANGE :: uint32 where "HFI_CMD_SETTINGS_CHANGE = 0x0100000C"

text \<open>\<open>is_in_range\<close> (both ends excluded), and the ranges, in the order of the tables \<open>be\<close>.\<close>

definition is_in_range :: "uint32 \<times> uint32 \<Rightarrow> uint32 \<Rightarrow> bool" where
  "is_in_range r v \<longleftrightarrow> fst r < v \<and> v < snd r"

definition HFI_SYSTEM_ERROR_RANGE :: "uint32 \<times> uint32" where "HFI_SYSTEM_ERROR_RANGE = (0x05000000, 0x05FFFFFF)"
definition HFI_SESSION_ERROR_RANGE :: "uint32 \<times> uint32" where "HFI_SESSION_ERROR_RANGE = (0x04000000, 0x04FFFFFF)"
definition HFI_INFORMATION_RANGE :: "uint32 \<times> uint32" where "HFI_INFORMATION_RANGE = (0x06000000, 0x06FFFFFF)"
definition HFI_PROP_RANGE :: "uint32 \<times> uint32" where "HFI_PROP_RANGE = (0x03000000, 0x03FFFFFF)"
definition HFI_CMD_RANGE :: "uint32 \<times> uint32" where "HFI_CMD_RANGE = (0x01000000, 0x01FFFFFF)"

record 's hfi_handlers =
  handle_system_error :: "'s \<Rightarrow> hfi_packet option \<Rightarrow> int \<times> 's"
  handle_system_property :: "'s \<Rightarrow> hfi_packet \<Rightarrow> int \<times> 's"
  handle_system_init :: "'s \<Rightarrow> hfi_packet \<Rightarrow> int \<times> 's"
  handle_session_error :: "'s \<Rightarrow> hfi_packet \<Rightarrow> int \<times> 's"
  handle_session_info :: "'s \<Rightarrow> hfi_packet \<Rightarrow> int \<times> 's"
  handle_session_property :: "'s \<Rightarrow> hfi_packet \<Rightarrow> int \<times> 's"
  handle_session_command :: "'s \<Rightarrow> hfi_packet \<Rightarrow> int \<times> 's"
  handle_dequeue_buffers :: "'s \<Rightarrow> int \<times> 's"
  change_state_error :: "'s \<Rightarrow> 's"
  clear_frame_info :: "'s \<Rightarrow> 's"
  init_input_subcr_params :: "'s \<Rightarrow> 's"
  get_inst :: "'s \<Rightarrow> uint32 \<Rightarrow> bool"

type_synonym 's pkt_handler = "(uint32 \<times> uint32) \<times> ('s \<Rightarrow> hfi_packet \<Rightarrow> int \<times> 's)"

definition system_table :: "'s hfi_handlers \<Rightarrow> 's pkt_handler list" where
  "system_table H =
    [(HFI_SYSTEM_ERROR_RANGE, \<lambda>s p. handle_system_error H s (Some p)),
     (HFI_PROP_RANGE, handle_system_property H),
     (HFI_CMD_RANGE, handle_system_init H)]"

definition session_table :: "'s hfi_handlers \<Rightarrow> 's pkt_handler list" where
  "session_table H =
    [(HFI_SESSION_ERROR_RANGE, handle_session_error H),
     (HFI_INFORMATION_RANGE, handle_session_info H),
     (HFI_PROP_RANGE, handle_session_property H),
     (HFI_CMD_RANGE, handle_session_command H)]"

section \<open>Responses of the system\<close>

text \<open>
  The inner loop of \<open>handle_system_response\<close>, for the table entry \<open>e\<close>; \<open>is_first\<close> is \<open>!i\<close>.  The result
  says whether the loops were left by \<open>goto exit\<close>.
\<close>

fun system_loop ::
  "'s hfi_handlers \<Rightarrow> 's pkt_handler \<Rightarrow> bool \<Rightarrow> nat \<Rightarrow> nat \<Rightarrow> uint8 list \<Rightarrow> 's \<Rightarrow> (int \<times> bool \<times> 's) option" where
  "system_loop H e is_first 0 off buf s = Some (0, False, s)"
| "system_loop H e is_first (Suc n) off buf s = do {
    packet \<leftarrow> packet_at buf off;
    size \<leftarrow> get_u32 buf off;
    if pk_flags packet AND HFI_FW_FLAGS_SYSTEM_ERROR \<noteq> 0 then
      let (rc, s) = handle_system_error H s (Some packet) in Some (rc, True, s)
    else if is_in_range (fst e) (pk_type packet) then
      let (rc, s) = snd e s packet in
      if rc \<noteq> 0 then Some (rc, True, s)
      else if is_first then Some (rc, True, s)
      else system_loop H e is_first n (off + unat size) buf s
    else system_loop H e is_first n (off + unat size) buf s
  }"

fun system_loops ::
  "'s hfi_handlers \<Rightarrow> 's pkt_handler list \<Rightarrow> bool \<Rightarrow> nat \<Rightarrow> uint8 list \<Rightarrow> 's \<Rightarrow> (int \<times> 's) option" where
  "system_loops H [] is_first n buf s = Some (0, s)"
| "system_loops H (e # es) is_first n buf s = do {
    (rc, exited, s) \<leftarrow> system_loop H e is_first n sizeof_hfi_header buf s;
    if exited then Some (rc, s) else system_loops H es False n buf s
  }"

definition handle_system_response :: "'s hfi_handlers \<Rightarrow> uint8 list \<Rightarrow> 's \<Rightarrow> (int \<times> 's) option" where
  "handle_system_response H buf s = do {
    num_packets \<leftarrow> get_u32 buf 28;
    system_loops H (system_table H) True (unat num_packets) buf s
  }"

section \<open>Responses of a session\<close>

text \<open>The inner loop of \<open>__handle_session_response\<close>; the result has \<open>rc\<close>, \<open>dequeue\<close> and the state.\<close>

fun session_loop ::
  "'s hfi_handlers \<Rightarrow> 's pkt_handler \<Rightarrow> nat \<Rightarrow> nat \<Rightarrow> uint8 list \<Rightarrow> int \<Rightarrow> bool \<Rightarrow> 's \<Rightarrow> (int \<times> bool \<times> 's) option" where
  "session_loop H e 0 off buf rc dequeue s = Some (rc, dequeue, s)"
| "session_loop H e (Suc n) off buf rc dequeue s = do {
    packet \<leftarrow> packet_at buf off;
    size \<leftarrow> get_u32 buf off;
    let s = (if pk_flags packet AND HFI_FW_FLAGS_SESSION_ERROR \<noteq> 0
             then snd (handle_session_error H s packet) else s);
    if is_in_range (fst e) (pk_type packet) then
      let (rc, s) = snd e s packet;
          s = (if rc \<noteq> 0 then change_state_error H s else s) in
      session_loop H e n (off + unat size) buf rc (dequeue \<or> pk_type packet = HFI_CMD_BUFFER) s
    else session_loop H e n (off + unat size) buf rc dequeue s
  }"

fun session_loops ::
  "'s hfi_handlers \<Rightarrow> 's pkt_handler list \<Rightarrow> nat \<Rightarrow> uint8 list \<Rightarrow> int \<Rightarrow> bool \<Rightarrow> 's \<Rightarrow> (int \<times> bool \<times> 's) option" where
  "session_loops H [] n buf rc dequeue s = Some (rc, dequeue, s)"
| "session_loops H (e # es) n buf rc dequeue s = do {
    (rc, dequeue, s) \<leftarrow> session_loop H e n sizeof_hfi_header buf rc dequeue s;
    session_loops H es n buf rc dequeue s
  }"

definition handle_session_response_inst :: "'s hfi_handlers \<Rightarrow> uint8 list \<Rightarrow> 's \<Rightarrow> (int \<times> 's) option" where
  "handle_session_response_inst H buf s = do {
    let s = clear_frame_info H s;
    num_packets \<leftarrow> get_u32 buf 28;
    (rc, dequeue, s) \<leftarrow> session_loops H (session_table H) (unat num_packets) buf 0 False s;
    if dequeue then
      let (rc, s) = handle_dequeue_buffers H s in
      if rc \<noteq> 0 then Some (rc, s) else Some (rc, clear_frame_info H s)
    else Some (rc, clear_frame_info H s)
  }"

text \<open>The search for an input settings change, and the whole: the instance is looked up and locked.\<close>

fun found_ipsc :: "nat \<Rightarrow> nat \<Rightarrow> uint8 list \<Rightarrow> bool option" where
  "found_ipsc 0 off buf = Some False"
| "found_ipsc (Suc n) off buf = do {
    packet \<leftarrow> packet_at buf off;
    size \<leftarrow> get_u32 buf off;
    if pk_type packet = HFI_CMD_SETTINGS_CHANGE \<and> pk_port packet = HFI_PORT_BITSTREAM then Some True
    else found_ipsc n (off + unat size) buf
  }"

definition handle_session_response :: "'s hfi_handlers \<Rightarrow> uint8 list \<Rightarrow> 's \<Rightarrow> (int \<times> 's) option" where
  "handle_session_response H buf s = do {
    session_id \<leftarrow> get_u32 buf 4;
    if \<not> get_inst H s session_id then Some (- EINVAL, s)
    else do {
      num_packets \<leftarrow> get_u32 buf 28;
      found \<leftarrow> found_ipsc (unat num_packets) sizeof_hfi_header buf;
      let s = (if found then init_input_subcr_params H s else s);
      handle_session_response_inst H buf s
    }
  }"

text \<open>\<open>handle_response\<close>; \<open>buf_size\<close> is \<open>core->packet_size\<close>.\<close>

definition handle_response :: "'s hfi_handlers \<Rightarrow> uint8 list \<Rightarrow> uint32 \<Rightarrow> 's \<Rightarrow> (int \<times> 's) option" where
  "handle_response H buf buf_size s = do {
    rc \<leftarrow> validate_hdr_packet buf buf_size;
    if rc \<noteq> 0 then Some (handle_system_error H s None)
    else do {
      session_id \<leftarrow> get_u32 buf 4;
      if session_id = 0 then handle_system_response H buf s else handle_session_response H buf s
    }
  }"

section \<open>The loops as functions of the packets\<close>

text \<open>The packets a pass over the response handles, up to the first failure.\<close>

fun run_until_error :: "('s \<Rightarrow> hfi_packet \<Rightarrow> int \<times> 's) \<Rightarrow> hfi_packet list \<Rightarrow> 's \<Rightarrow> int \<times> 's" where
  "run_until_error f [] s = (0, s)"
| "run_until_error f (p # ps) s =
    (let (rc, s) = f s p in if rc \<noteq> 0 then (rc, s) else run_until_error f ps s)"

definition is_system_error :: "hfi_packet \<Rightarrow> bool" where
  "is_system_error p \<longleftrightarrow> pk_flags p AND HFI_FW_FLAGS_SYSTEM_ERROR \<noteq> 0
    \<or> is_in_range HFI_SYSTEM_ERROR_RANGE (pk_type p)"

text \<open>An error ends everything; else properties come before commands, each in the order of the response.\<close>

definition system_spec :: "'s hfi_handlers \<Rightarrow> hfi_packet list \<Rightarrow> 's \<Rightarrow> int \<times> 's" where
  "system_spec H ps s =
    (case List.find is_system_error ps of
       Some p \<Rightarrow> handle_system_error H s (Some p)
     | None \<Rightarrow>
        let (rc, s) = run_until_error (handle_system_property H)
              [p \<leftarrow> ps. is_in_range HFI_PROP_RANGE (pk_type p)] s in
        if rc \<noteq> 0 then (rc, s)
        else run_until_error (handle_system_init H) [p \<leftarrow> ps. is_in_range HFI_CMD_RANGE (pk_type p)] s)"

text \<open>What a pass of the session loop does with one packet.\<close>

datatype sess_event = Flagged hfi_packet | Handled nat hfi_packet

definition pkt_events :: "nat \<Rightarrow> uint32 \<times> uint32 \<Rightarrow> hfi_packet \<Rightarrow> sess_event list" where
  "pkt_events i r p =
    (if pk_flags p AND HFI_FW_FLAGS_SESSION_ERROR \<noteq> 0 then [Flagged p] else []) @
    (if is_in_range r (pk_type p) then [Handled i p] else [])"

fun do_event :: "'s hfi_handlers \<Rightarrow> sess_event \<Rightarrow> int \<times> 's \<Rightarrow> int \<times> 's" where
  "do_event H (Flagged p) (rc, s) = (rc, snd (handle_session_error H s p))"
| "do_event H (Handled i p) (rc, s) =
    (let (rc, s) = snd (session_table H ! i) s p in (rc, if rc \<noteq> 0 then change_state_error H s else s))"

text \<open>All events of a response: four passes, by kind.\<close>

definition session_ranges :: "(uint32 \<times> uint32) list" where
  "session_ranges = [HFI_SESSION_ERROR_RANGE, HFI_INFORMATION_RANGE, HFI_PROP_RANGE, HFI_CMD_RANGE]"

definition session_events :: "hfi_packet list \<Rightarrow> sess_event list" where
  "session_events ps = concat (map (\<lambda>i. concat (map (pkt_events i (session_ranges ! i)) ps)) [0..<4])"

definition session_spec :: "'s hfi_handlers \<Rightarrow> hfi_packet list \<Rightarrow> 's \<Rightarrow> int \<times> 's" where
  "session_spec H ps s =
    (let (rc, s) = fold (do_event H) (session_events ps) (0, clear_frame_info H s) in
     if \<exists>p\<in>set ps. pk_type p = HFI_CMD_BUFFER then
       let (rc, s) = handle_dequeue_buffers H s in (rc, if rc \<noteq> 0 then s else clear_frame_info H s)
     else (rc, clear_frame_info H s))"

end
