(* ===== verification/Vidc_Hfi_Dispatch.thy ===== *)
theory Vidc_Hfi_Dispatch
  imports Vidc_Hfi_Response
begin

text \<open>
  The loops of \<open>Vidc_Hfi_Response\<close>, which walk over bytes with a pointer, agree with their descriptions as
  functions of the list of packets.
\<close>

section \<open>Walks\<close>

lemma walk_SucD:
  assumes "walk_packets (Suc n) off buf = Some ps"
  obtains p sz qs where "packet_at buf off = Some p" "get_u32 buf off = Some sz"
    "walk_packets n (off + unat sz) buf = Some qs" "ps = p # qs"
  using assms by (auto simp: bind_Some_iff)

section \<open>System responses\<close>

lemma system_loop_first:
  "walk_packets n off buf = Some ps \<Longrightarrow>
    system_loop H (HFI_SYSTEM_ERROR_RANGE, \<lambda>s p. handle_system_error H s (Some p)) True n off buf s =
      Some (case List.find is_system_error ps of None \<Rightarrow> (0, False, s)
        | Some p \<Rightarrow> (fst (handle_system_error H s (Some p)), True, snd (handle_system_error H s (Some p))))"
proof (induction n arbitrary: off ps)
  case (Suc n)
  obtain p sz qs where "packet_at buf off = Some p" "get_u32 buf off = Some sz"
    "walk_packets n (off + unat sz) buf = Some qs" "ps = p # qs" using walk_SucD [OF Suc.prems] .
  then show ?case
    using Suc.IH by (cases "handle_system_error H s (Some p)") (simp add: is_system_error_def)
qed simp

lemma system_loop_rest:
  "walk_packets n off buf = Some ps \<Longrightarrow> List.find is_system_error ps = None \<Longrightarrow>
    system_loop H (r, f) False n off buf s =
      Some (case run_until_error f [p \<leftarrow> ps. is_in_range r (pk_type p)] s of (rc, s) \<Rightarrow> (rc, rc \<noteq> 0, s))"
proof (induction n arbitrary: off ps s)
  case (Suc n)
  obtain p sz qs where p: "packet_at buf off = Some p" "get_u32 buf off = Some sz"
    "walk_packets n (off + unat sz) buf = Some qs" "ps = p # qs" using walk_SucD [OF Suc.prems(1)] .
  have e: "\<not> is_system_error p" "List.find is_system_error qs = None"
    using Suc.prems(2) p(4) by (auto split: if_splits)
  then have "pk_flags p AND HFI_FW_FLAGS_SYSTEM_ERROR = 0" by (simp add: is_system_error_def)
  then show ?case
    using Suc.IH [OF p(3) e(2)] p by (cases "f s p") simp
qed simp

lemma system_response_spec:
  assumes "response_packets buf = Some ps"
  shows "handle_system_response H buf s = Some (system_spec H ps s)"
proof -
  obtain n where n: "get_u32 buf 28 = Some n" "walk_packets (unat n) 32 buf = Some ps"
    using assms by (auto simp: response_packets_def bind_Some_iff)
  show ?thesis
  proof (cases "List.find is_system_error ps")
    case None
    let ?r = "run_until_error (handle_system_property H) [p \<leftarrow> ps. is_in_range HFI_PROP_RANGE (pk_type p)] s"
    show ?thesis
      using system_loop_rest [OF n(2) None, of H]
      by (cases ?r) (simp add: handle_system_response_def n(1) system_table_def system_loop_first [OF n(2)] None
        system_spec_def split: prod.split)
  next
    case (Some p)
    then show ?thesis
      by (simp add: handle_system_response_def n(1) system_table_def system_loop_first [OF n(2)] system_spec_def)
  qed
qed

section \<open>Session responses\<close>

lemma session_loop_events:
  "walk_packets n off buf = Some ps \<Longrightarrow>
    session_loop H (session_table H ! i) n off buf rc dequeue s =
      (case fold (do_event H) (concat (map (pkt_events i (fst (session_table H ! i))) ps)) (rc, s) of
        (rc, s) \<Rightarrow> Some (rc, dequeue \<or> (\<exists>p\<in>set ps. is_in_range (fst (session_table H ! i)) (pk_type p)
            \<and> pk_type p = HFI_CMD_BUFFER), s))"
proof (induction n arbitrary: off ps rc dequeue s)
  case (Suc n)
  obtain p sz qs where p: "packet_at buf off = Some p" "get_u32 buf off = Some sz"
    "walk_packets n (off + unat sz) buf = Some qs" "ps = p # qs" using walk_SucD [OF Suc.prems] .
  let ?s = "if pk_flags p AND HFI_FW_FLAGS_SESSION_ERROR \<noteq> 0 then snd (handle_session_error H s p) else s"
  show ?case
    by (cases "snd (session_table H ! i) ?s p")
      (auto simp: p Suc.IH [OF p(3)] pkt_events_def Let_def split: prod.split)
qed simp

lemma buffer_cmd_range:
  "is_in_range HFI_CMD_RANGE HFI_CMD_BUFFER" "\<not> is_in_range HFI_SESSION_ERROR_RANGE HFI_CMD_BUFFER"
  "\<not> is_in_range HFI_INFORMATION_RANGE HFI_CMD_BUFFER" "\<not> is_in_range HFI_PROP_RANGE HFI_CMD_BUFFER"
  by (simp_all add: is_in_range_def HFI_CMD_BUFFER_def HFI_CMD_RANGE_def HFI_SESSION_ERROR_RANGE_def
    HFI_INFORMATION_RANGE_def HFI_PROP_RANGE_def)

lemma session_ranges_table: "i < 4 \<Longrightarrow> fst (session_table H ! i) = session_ranges ! i"
  by (auto simp: session_table_def session_ranges_def less_Suc_eq numeral_eq_Suc)

lemma session_loops_events:
  assumes w: "walk_packets n 32 buf = Some ps"
  shows "session_loops H (session_table H) n buf rc dequeue s =
    (case fold (do_event H) (session_events ps) (rc, s) of
      (rc, s) \<Rightarrow> Some (rc, dequeue \<or> (\<exists>p\<in>set ps. pk_type p = HFI_CMD_BUFFER), s))"
proof -
  have t: "session_table H = map (\<lambda>i. session_table H ! i) [0..<4]"
    by (simp add: session_table_def upt_rec)
  have loops: "session_loops H (map (\<lambda>i. session_table H ! i) is) n buf rc dequeue s =
      (case fold (do_event H) (concat (map (\<lambda>i. concat (map (pkt_events i (session_ranges ! i)) ps)) is)) (rc, s) of
        (rc, s) \<Rightarrow> Some (rc, dequeue \<or> (\<exists>i\<in>set is. \<exists>p\<in>set ps. is_in_range (session_ranges ! i) (pk_type p)
            \<and> pk_type p = HFI_CMD_BUFFER), s))" if "set is \<subseteq> {0..<4}" for "is" rc dequeue s
    using that
  proof (induction "is" arbitrary: rc dequeue s)
    case (Cons i "is")
    then have i: "fst (session_table H ! i) = session_ranges ! i" by (simp add: session_ranges_table)
    show ?case
      using Cons by (cases "fold (do_event H) (concat (map (pkt_events i (session_ranges ! i)) ps)) (rc, s)")
        (auto simp: session_loop_events [OF w] i split: prod.split)
  qed simp
  have "(\<exists>i\<in>set [0..<4]. \<exists>p\<in>set ps. is_in_range (session_ranges ! i) (pk_type p) \<and> pk_type p = HFI_CMD_BUFFER)
      \<longleftrightarrow> (\<exists>p\<in>set ps. pk_type p = HFI_CMD_BUFFER)"
  proof
    assume "\<exists>p\<in>set ps. pk_type p = HFI_CMD_BUFFER"
    then obtain p where "p \<in> set ps" "pk_type p = HFI_CMD_BUFFER" by blast
    then show "\<exists>i\<in>set [0..<4]. \<exists>p\<in>set ps. is_in_range (session_ranges ! i) (pk_type p) \<and> pk_type p = HFI_CMD_BUFFER"
      by (intro bexI [of _ 3] bexI [of _ p]) (simp_all add: session_ranges_def buffer_cmd_range)
  qed blast
  with loops [of "[0..<4]" rc dequeue s] t show ?thesis
    by (simp add: session_events_def)
qed

lemma session_response_spec:
  assumes "response_packets buf = Some ps"
  shows "handle_session_response_inst H buf s = Some (session_spec H ps s)"
proof -
  obtain n where n: "get_u32 buf 28 = Some n" "walk_packets (unat n) 32 buf = Some ps"
    using assms by (auto simp: response_packets_def bind_Some_iff)
  show ?thesis
    by (cases "fold (do_event H) (session_events ps) (0, clear_frame_info H s)";
        cases "handle_dequeue_buffers H (snd (fold (do_event H) (session_events ps) (0, clear_frame_info H s)))")
      (simp add: handle_session_response_inst_def n(1) session_loops_events [OF n(2)] session_spec_def Let_def)
qed

lemma found_ipsc_spec:
  "walk_packets n off buf = Some ps \<Longrightarrow> found_ipsc n off buf =
    Some (\<exists>p\<in>set ps. pk_type p = HFI_CMD_SETTINGS_CHANGE \<and> pk_port p = HFI_PORT_BITSTREAM)"
proof (induction n arbitrary: off ps)
  case (Suc n)
  obtain p sz qs where "packet_at buf off = Some p" "get_u32 buf off = Some sz"
    "walk_packets n (off + unat sz) buf = Some qs" "ps = p # qs" using walk_SucD [OF Suc.prems] .
  then show ?case using Suc.IH by auto
qed simp

section \<open>A message as it was built\<close>

text \<open>What \<open>handle_response\<close> does with the packets of a checked message of session \<open>sid\<close>.\<close>

definition response_spec :: "'s hfi_handlers \<Rightarrow> uint32 \<Rightarrow> hfi_packet list \<Rightarrow> 's \<Rightarrow> int \<times> 's" where
  "response_spec H sid ps s =
    (if sid = 0 then system_spec H ps s
     else if \<not> get_inst H s sid then (- EINVAL, s)
     else session_spec H ps
       (if \<exists>p\<in>set ps. pk_type p = HFI_CMD_SETTINGS_CHANGE \<and> pk_port p = HFI_PORT_BITSTREAM
        then init_input_subcr_params H s else s))"

lemma built_handled:
  assumes c: "holds_cmd buf sid hid ps" and s: "ps \<noteq> []" "cmd_size ps \<le> unat bsize"
  shows "handle_response H buf bsize s = Some (response_spec H sid ps s)"
proof -
  note v = built_validates [OF assms]
  obtain n where n: "get_u32 buf 28 = Some n" "walk_packets (unat n) 32 buf = Some ps"
    using v(2) by (auto simp: response_packets_def bind_Some_iff)
  obtain rest where "buf = hdr_bytes (of_nat (cmd_size ps)) sid hid (of_nat (length ps)) @ concat (map pkt_bytes ps) @ rest"
    using built_header [OF c] by blast
  then have "get_u32 buf 4 = Some sid"
    using get_u32_row [of 1 "[of_nat (cmd_size ps), sid, hid, 0, 0, 0, 0, of_nat (length ps)]" "[]"]
    by (simp add: hdr_bytes_def)
  then show ?thesis
    using v n found_ipsc_spec [OF n(2)] system_response_spec [OF v(2), of H s]
      session_response_spec [OF v(2), of H s] session_response_spec [OF v(2), of H "init_input_subcr_params H s"]
    by (simp add: handle_response_def handle_session_response_def response_spec_def)
qed

end
