(* ===== verification/Vidc_Hfi_Types.thy ===== *)
theory Vidc_Hfi_Types
  imports Vidc_Hfi_Encode Vidc_Hfi_Core
begin

text \<open>
  The translation of ports, buffer types, codecs and buffers between the driver and the firmware
  (first half of \<open>hfi_packet.c\<close>), and the checks of what comes back (\<open>venus_hfi_response.c\<close>).
\<close>

section \<open>Types of the driver\<close>

abbreviation (input) MSM_VIDC_ENCODER :: uint32 where "MSM_VIDC_ENCODER \<equiv> 1"
abbreviation (input) MSM_VIDC_DECODER :: uint32 where "MSM_VIDC_DECODER \<equiv> 2"

datatype msm_vidc_port_type =
  INPUT_PORT | OUTPUT_PORT | INPUT_META_PORT | OUTPUT_META_PORT | PORT_NONE | MAX_PORT

datatype msm_vidc_buffer_type =
  MSM_VIDC_BUF_NONE | MSM_VIDC_BUF_INPUT | MSM_VIDC_BUF_OUTPUT | MSM_VIDC_BUF_INPUT_META
  | MSM_VIDC_BUF_OUTPUT_META | MSM_VIDC_BUF_READ_ONLY | MSM_VIDC_BUF_INTERFACE_QUEUE | MSM_VIDC_BUF_BIN
  | MSM_VIDC_BUF_ARP | MSM_VIDC_BUF_COMV | MSM_VIDC_BUF_NON_COMV | MSM_VIDC_BUF_LINE | MSM_VIDC_BUF_DPB
  | MSM_VIDC_BUF_PERSIST | MSM_VIDC_BUF_VPSS | MSM_VIDC_BUF_PARTIAL_DATA

datatype msm_vidc_codec_type = MSM_VIDC_H264 | MSM_VIDC_HEVC | MSM_VIDC_VP9 | MSM_VIDC_HEIC | MSM_VIDC_AV1

datatype msm_vidc_colorformat_type =
  MSM_VIDC_FMT_NONE | MSM_VIDC_FMT_NV12C | MSM_VIDC_FMT_NV12 | MSM_VIDC_FMT_NV21 | MSM_VIDC_FMT_TP10C
  | MSM_VIDC_FMT_P010 | MSM_VIDC_FMT_RGBA8888C | MSM_VIDC_FMT_RGBA8888 | MSM_VIDC_FMT_META

text \<open>\<open>enum hfi_buffer_type\<close>\<close>

abbreviation (input) HFI_BUFFER_BITSTREAM :: uint32 where "HFI_BUFFER_BITSTREAM \<equiv> 1"
abbreviation (input) HFI_BUFFER_RAW :: uint32 where "HFI_BUFFER_RAW \<equiv> 2"
abbreviation (input) HFI_BUFFER_METADATA :: uint32 where "HFI_BUFFER_METADATA \<equiv> 3"
abbreviation (input) HFI_BUFFER_PARTIAL_DATA :: uint32 where "HFI_BUFFER_PARTIAL_DATA \<equiv> 5"
abbreviation (input) HFI_BUFFER_DPB :: uint32 where "HFI_BUFFER_DPB \<equiv> 6"
abbreviation (input) HFI_BUFFER_BIN :: uint32 where "HFI_BUFFER_BIN \<equiv> 7"
abbreviation (input) HFI_BUFFER_LINE :: uint32 where "HFI_BUFFER_LINE \<equiv> 8"
abbreviation (input) HFI_BUFFER_ARP :: uint32 where "HFI_BUFFER_ARP \<equiv> 9"
abbreviation (input) HFI_BUFFER_COMV :: uint32 where "HFI_BUFFER_COMV \<equiv> 0xA"
abbreviation (input) HFI_BUFFER_NON_COMV :: uint32 where "HFI_BUFFER_NON_COMV \<equiv> 0xB"
abbreviation (input) HFI_BUFFER_PERSIST :: uint32 where "HFI_BUFFER_PERSIST \<equiv> 0xC"
abbreviation (input) HFI_BUFFER_VPSS :: uint32 where "HFI_BUFFER_VPSS \<equiv> 0xD"

section \<open>Driver to firmware\<close>

definition get_hfi_port :: "uint32 \<Rightarrow> msm_vidc_port_type \<Rightarrow> uint32" where
  "get_hfi_port domain port =
    (if domain = MSM_VIDC_DECODER then
       (case port of INPUT_PORT \<Rightarrow> HFI_PORT_BITSTREAM | INPUT_META_PORT \<Rightarrow> HFI_PORT_BITSTREAM
        | OUTPUT_PORT \<Rightarrow> HFI_PORT_RAW | OUTPUT_META_PORT \<Rightarrow> HFI_PORT_RAW | _ \<Rightarrow> HFI_PORT_NONE)
     else if domain = MSM_VIDC_ENCODER then
       (case port of INPUT_PORT \<Rightarrow> HFI_PORT_RAW | INPUT_META_PORT \<Rightarrow> HFI_PORT_RAW
        | OUTPUT_PORT \<Rightarrow> HFI_PORT_BITSTREAM | OUTPUT_META_PORT \<Rightarrow> HFI_PORT_BITSTREAM | _ \<Rightarrow> HFI_PORT_NONE)
     else HFI_PORT_NONE)"

definition get_hfi_port_from_buffer_type :: "uint32 \<Rightarrow> msm_vidc_buffer_type \<Rightarrow> uint32" where
  "get_hfi_port_from_buffer_type domain buffer_type =
    (if domain = MSM_VIDC_DECODER then
       if buffer_type \<in> {MSM_VIDC_BUF_INPUT, MSM_VIDC_BUF_INPUT_META, MSM_VIDC_BUF_BIN, MSM_VIDC_BUF_COMV,
            MSM_VIDC_BUF_NON_COMV, MSM_VIDC_BUF_LINE, MSM_VIDC_BUF_PARTIAL_DATA} then HFI_PORT_BITSTREAM
       else if buffer_type \<in> {MSM_VIDC_BUF_OUTPUT, MSM_VIDC_BUF_OUTPUT_META, MSM_VIDC_BUF_DPB} then HFI_PORT_RAW
       else HFI_PORT_NONE
     else if domain = MSM_VIDC_ENCODER then
       if buffer_type \<in> {MSM_VIDC_BUF_INPUT, MSM_VIDC_BUF_INPUT_META, MSM_VIDC_BUF_VPSS} then HFI_PORT_RAW
       else if buffer_type \<in> {MSM_VIDC_BUF_OUTPUT, MSM_VIDC_BUF_OUTPUT_META, MSM_VIDC_BUF_BIN, MSM_VIDC_BUF_COMV,
            MSM_VIDC_BUF_NON_COMV, MSM_VIDC_BUF_LINE, MSM_VIDC_BUF_DPB} then HFI_PORT_BITSTREAM
       else HFI_PORT_NONE
     else HFI_PORT_NONE)"

fun hfi_buf_type_from_driver :: "uint32 \<Rightarrow> msm_vidc_buffer_type \<Rightarrow> uint32" where
  "hfi_buf_type_from_driver domain MSM_VIDC_BUF_INPUT =
    (if domain = MSM_VIDC_DECODER then HFI_BUFFER_BITSTREAM else HFI_BUFFER_RAW)"
| "hfi_buf_type_from_driver domain MSM_VIDC_BUF_OUTPUT =
    (if domain = MSM_VIDC_DECODER then HFI_BUFFER_RAW else HFI_BUFFER_BITSTREAM)"
| "hfi_buf_type_from_driver domain MSM_VIDC_BUF_INPUT_META = HFI_BUFFER_METADATA"
| "hfi_buf_type_from_driver domain MSM_VIDC_BUF_OUTPUT_META = HFI_BUFFER_METADATA"
| "hfi_buf_type_from_driver domain MSM_VIDC_BUF_BIN = HFI_BUFFER_BIN"
| "hfi_buf_type_from_driver domain MSM_VIDC_BUF_ARP = HFI_BUFFER_ARP"
| "hfi_buf_type_from_driver domain MSM_VIDC_BUF_COMV = HFI_BUFFER_COMV"
| "hfi_buf_type_from_driver domain MSM_VIDC_BUF_NON_COMV = HFI_BUFFER_NON_COMV"
| "hfi_buf_type_from_driver domain MSM_VIDC_BUF_LINE = HFI_BUFFER_LINE"
| "hfi_buf_type_from_driver domain MSM_VIDC_BUF_DPB = HFI_BUFFER_DPB"
| "hfi_buf_type_from_driver domain MSM_VIDC_BUF_PERSIST = HFI_BUFFER_PERSIST"
| "hfi_buf_type_from_driver domain MSM_VIDC_BUF_VPSS = HFI_BUFFER_VPSS"
| "hfi_buf_type_from_driver domain MSM_VIDC_BUF_PARTIAL_DATA = HFI_BUFFER_PARTIAL_DATA"
| "hfi_buf_type_from_driver domain _ = 0"

text \<open>The result 0 of the default case is \<open>MSM_VIDC_BUF_NONE\<close>.\<close>

definition hfi_buf_type_to_driver :: "uint32 \<Rightarrow> uint32 \<Rightarrow> uint32 \<Rightarrow> msm_vidc_buffer_type" where
  "hfi_buf_type_to_driver domain buffer_type port_type =
    (if buffer_type = HFI_BUFFER_BITSTREAM then
       if domain = MSM_VIDC_DECODER then MSM_VIDC_BUF_INPUT else MSM_VIDC_BUF_OUTPUT
     else if buffer_type = HFI_BUFFER_RAW then
       if domain = MSM_VIDC_DECODER then MSM_VIDC_BUF_OUTPUT else MSM_VIDC_BUF_INPUT
     else if buffer_type = HFI_BUFFER_METADATA then
       if domain = MSM_VIDC_DECODER then
         if port_type = HFI_PORT_BITSTREAM then MSM_VIDC_BUF_INPUT_META else MSM_VIDC_BUF_OUTPUT_META
       else
         if port_type = HFI_PORT_BITSTREAM then MSM_VIDC_BUF_OUTPUT_META else MSM_VIDC_BUF_INPUT_META
     else if buffer_type = HFI_BUFFER_BIN then MSM_VIDC_BUF_BIN
     else if buffer_type = HFI_BUFFER_ARP then MSM_VIDC_BUF_ARP
     else if buffer_type = HFI_BUFFER_COMV then MSM_VIDC_BUF_COMV
     else if buffer_type = HFI_BUFFER_NON_COMV then MSM_VIDC_BUF_NON_COMV
     else if buffer_type = HFI_BUFFER_LINE then MSM_VIDC_BUF_LINE
     else if buffer_type = HFI_BUFFER_DPB then MSM_VIDC_BUF_DPB
     else if buffer_type = HFI_BUFFER_PERSIST then MSM_VIDC_BUF_PERSIST
     else if buffer_type = HFI_BUFFER_VPSS then MSM_VIDC_BUF_VPSS
     else if buffer_type = HFI_BUFFER_PARTIAL_DATA then MSM_VIDC_BUF_PARTIAL_DATA
     else MSM_VIDC_BUF_NONE)"

text \<open>\<open>get_hfi_codec\<close>: AVC 1 (decoder) and 2, HEVC 3 and 4, VP9 5, AV1 7.\<close>

fun get_hfi_codec :: "uint32 \<Rightarrow> msm_vidc_codec_type \<Rightarrow> uint32" where
  "get_hfi_codec domain MSM_VIDC_H264 = (if domain = MSM_VIDC_ENCODER then 2 else 1)"
| "get_hfi_codec domain MSM_VIDC_HEVC = (if domain = MSM_VIDC_ENCODER then 4 else 3)"
| "get_hfi_codec domain MSM_VIDC_HEIC = (if domain = MSM_VIDC_ENCODER then 4 else 3)"
| "get_hfi_codec domain MSM_VIDC_VP9 = 5"
| "get_hfi_codec domain MSM_VIDC_AV1 = 7"

fun get_hfi_colorformat :: "msm_vidc_colorformat_type \<Rightarrow> uint32" where
  "get_hfi_colorformat MSM_VIDC_FMT_NV12 = 1"
| "get_hfi_colorformat MSM_VIDC_FMT_NV12C = 2"
| "get_hfi_colorformat MSM_VIDC_FMT_P010 = 3"
| "get_hfi_colorformat MSM_VIDC_FMT_TP10C = 4"
| "get_hfi_colorformat MSM_VIDC_FMT_RGBA8888 = 5"
| "get_hfi_colorformat MSM_VIDC_FMT_RGBA8888C = 6"
| "get_hfi_colorformat MSM_VIDC_FMT_NV21 = 7"
| "get_hfi_colorformat _ = 2"

fun get_hfi_region_flag :: "msm_vidc_buffer_region \<Rightarrow> uint32" where
  "get_hfi_region_flag MSM_VIDC_NON_SECURE = 0x200"
| "get_hfi_region_flag MSM_VIDC_NON_SECURE_PIXEL = 0x2000"
| "get_hfi_region_flag MSM_VIDC_SECURE_PIXEL = 0x400"
| "get_hfi_region_flag MSM_VIDC_SECURE_NONPIXEL = 0x1000"
| "get_hfi_region_flag MSM_VIDC_SECURE_BITSTREAM = 0x800"
| "get_hfi_region_flag _ = 0"

text \<open>A buffer of the driver, and its description for the firmware.\<close>

record msm_vidc_buffer =
  vb_type :: msm_vidc_buffer_type
  vb_region :: msm_vidc_buffer_region
  vb_index :: uint32
  vb_buffer_size :: uint32
  vb_data_offset :: uint32
  vb_data_size :: uint32
  vb_device_addr :: uint64
  vb_flags :: uint32
  vb_timestamp :: uint64
  vb_attr :: uint32

record hfi_buffer =
  hb_type :: uint32
  hb_index :: uint32
  hb_base_address :: uint64
  hb_addr_offset :: uint32
  hb_buffer_size :: uint32
  hb_data_offset :: uint32
  hb_data_size :: uint32
  hb_timestamp :: uint64
  hb_flags :: uint32

definition MSM_VIDC_ATTR_READ_ONLY :: uint32 where "MSM_VIDC_ATTR_READ_ONLY = 2"
definition MSM_VIDC_ATTR_PENDING_RELEASE :: uint32 where "MSM_VIDC_ATTR_PENDING_RELEASE = 4"
definition MSM_VIDC_BUF_FLAG_CODECCONFIG :: uint32 where "MSM_VIDC_BUF_FLAG_CODECCONFIG = 0x01000000"
definition HFI_BUF_HOST_FLAG_RELEASE :: uint32 where "HFI_BUF_HOST_FLAG_RELEASE = 1"
definition HFI_BUF_HOST_FLAG_READONLY :: uint32 where "HFI_BUF_HOST_FLAG_READONLY = 0x10"
definition HFI_BUF_HOST_FLAG_CODEC_CONFIG :: uint32 where "HFI_BUF_HOST_FLAG_CODEC_CONFIG = 0x100"

text \<open>\<open>ALIGN\<close> on \<open>u32\<close>.\<close>

definition align_u32 :: "uint32 \<Rightarrow> uint32 \<Rightarrow> uint32" where
  "align_u32 x a = (x + (a - 1)) AND NOT (a - 1)"

definition get_hfi_buffer :: "uint32 \<Rightarrow> msm_vidc_buffer \<Rightarrow> hfi_buffer" where
  "get_hfi_buffer domain b =
    \<lparr>hb_type = hfi_buf_type_from_driver domain (vb_type b),
     hb_index = vb_index b,
     hb_base_address = vb_device_addr b,
     hb_addr_offset = 0,
     hb_buffer_size =
       (if domain = MSM_VIDC_DECODER \<and> vb_type b = MSM_VIDC_BUF_INPUT then align_u32 (vb_buffer_size b) 256
        else vb_buffer_size b),
     hb_data_offset = vb_data_offset b,
     hb_data_size = vb_data_size b,
     hb_timestamp = vb_timestamp b,
     hb_flags =
       (if vb_attr b AND MSM_VIDC_ATTR_READ_ONLY \<noteq> 0 then HFI_BUF_HOST_FLAG_READONLY else 0)
       OR (if vb_attr b AND MSM_VIDC_ATTR_PENDING_RELEASE \<noteq> 0 then HFI_BUF_HOST_FLAG_RELEASE else 0)
       OR (if vb_flags b AND MSM_VIDC_BUF_FLAG_CODECCONFIG \<noteq> 0 then HFI_BUF_HOST_FLAG_CODEC_CONFIG else 0)
       OR get_hfi_region_flag (vb_region b)\<rparr>"

section \<open>Firmware to driver\<close>

definition vidc_port_from_hfi :: "uint32 \<Rightarrow> uint32 \<Rightarrow> msm_vidc_port_type" where
  "vidc_port_from_hfi domain hfi_port =
    (if domain = MSM_VIDC_DECODER then
       if hfi_port = HFI_PORT_BITSTREAM then INPUT_PORT
       else if hfi_port = HFI_PORT_RAW then OUTPUT_PORT
       else if hfi_port = HFI_PORT_NONE then PORT_NONE else MAX_PORT
     else if domain = MSM_VIDC_ENCODER then
       if hfi_port = HFI_PORT_RAW then INPUT_PORT
       else if hfi_port = HFI_PORT_BITSTREAM then OUTPUT_PORT
       else if hfi_port = HFI_PORT_NONE then PORT_NONE else MAX_PORT
     else MAX_PORT)"

definition is_valid_hfi_port :: "uint32 \<Rightarrow> uint32 \<Rightarrow> bool" where
  "is_valid_hfi_port port buffer_type =
    (if port = HFI_PORT_NONE \<and> buffer_type \<noteq> HFI_BUFFER_ARP \<and> buffer_type \<noteq> HFI_BUFFER_PERSIST then False
     else if port \<noteq> HFI_PORT_BITSTREAM \<and> port \<noteq> HFI_PORT_RAW then False
     else True)"

definition is_valid_hfi_buffer_type :: "uint32 \<Rightarrow> bool" where
  "is_valid_hfi_buffer_type buffer_type \<longleftrightarrow>
    buffer_type \<in> {HFI_BUFFER_BITSTREAM, HFI_BUFFER_RAW, HFI_BUFFER_METADATA, HFI_BUFFER_BIN, HFI_BUFFER_ARP,
      HFI_BUFFER_COMV, HFI_BUFFER_NON_COMV, HFI_BUFFER_LINE, HFI_BUFFER_DPB, HFI_BUFFER_PERSIST,
      HFI_BUFFER_VPSS, HFI_BUFFER_PARTIAL_DATA}"

text \<open>\<open>check_for_packet_payload\<close>; \<open>struct hfi_buffer\<close> has 64 bytes.\<close>

definition payload_size_of :: "uint32 \<Rightarrow> uint32 \<Rightarrow> nat" where
  "payload_size_of info ty =
    (if info \<in> {1, 2, 8, 9, 0xa} then 4
     else if info \<in> {3, 4, 0xd} then 8
     else if info = 5 then (if ty = 0x01000009 then 64 else 0)
     else 0)"

definition check_for_packet_payload :: "hfi_packet \<Rightarrow> uint32 \<Rightarrow> bool" where
  "check_for_packet_payload pkt pkt_size =
    (if pk_info pkt = HFI_PAYLOAD_NONE then False
     else \<not> unat pkt_size < sizeof_hfi_packet + payload_size_of (pk_info pkt) (pk_type pkt))"

section \<open>Round trips\<close>

lemma buf_type_roundtrip:
  assumes "domain = MSM_VIDC_DECODER \<or> domain = MSM_VIDC_ENCODER"
    "t \<noteq> MSM_VIDC_BUF_READ_ONLY" "t \<noteq> MSM_VIDC_BUF_INTERFACE_QUEUE"
  shows "hfi_buf_type_to_driver domain (hfi_buf_type_from_driver domain t)
    (get_hfi_port_from_buffer_type domain t) = t"
  using assms by (cases t) (auto simp: hfi_buf_type_to_driver_def get_hfi_port_from_buffer_type_def)

lemma port_roundtrip:
  assumes "domain = MSM_VIDC_DECODER \<or> domain = MSM_VIDC_ENCODER"
  shows "vidc_port_from_hfi domain (get_hfi_port domain p) =
    (case p of INPUT_META_PORT \<Rightarrow> INPUT_PORT | OUTPUT_META_PORT \<Rightarrow> OUTPUT_PORT | MAX_PORT \<Rightarrow> PORT_NONE | _ \<Rightarrow> p)"
  using assms by (cases p) (auto simp: vidc_port_from_hfi_def get_hfi_port_def)

text \<open>The port check refuses \<open>HFI_PORT_NONE\<close> for every type: its first test changes nothing.\<close>

lemma port_none_invalid: "\<not> is_valid_hfi_port HFI_PORT_NONE t"
  by (simp add: is_valid_hfi_port_def)

lemma buffer_answer_port:
  assumes "domain = MSM_VIDC_DECODER \<or> domain = MSM_VIDC_ENCODER"
  shows "is_valid_hfi_port (get_hfi_port_from_buffer_type domain t) (hfi_buf_type_from_driver domain t) \<longleftrightarrow>
    get_hfi_port_from_buffer_type domain t \<noteq> HFI_PORT_NONE"
  using assms by (auto simp: is_valid_hfi_port_def get_hfi_port_from_buffer_type_def)

end
