(* ===== verification/Vidc_Hfi_Ready.thy ===== *)
theory Vidc_Hfi_Ready
  imports Vidc_Hfi_Setup Vidc_Hfi_Encode
begin

text \<open>
  The core's side of the queues as the rest of the driver relies on it: queues that exist are well formed,
  the buffer for commands has the size the driver takes it to have, and the calls of \<open>venus_hfi_queue.c\<close>
  return and keep this, and touch nothing else of the core.
\<close>

section \<open>What is kept\<close>

text \<open>The fields of the core beside its queues and memory.\<close>

definition core_status ::
  "msm_vidc_core \<Rightarrow> bool \<times> msm_vidc_core_state \<times> msm_vidc_core_state option \<times> uint32
     \<times> uint8 list option \<times> uint32 \<times> hfi_core" where
  "core_status core = (core_lock_held core, core_state core, core_state_handle core, core_sub_state core,
     core_packet core, core_packet_size core, core_ids core)"

text \<open>
  The buffer in which the core builds its commands: it has the size the driver takes it to have, and holds
  what its first word says (nothing, at the beginning).
\<close>

definition buffer_ok :: "uint8 list option \<Rightarrow> uint32 \<Rightarrow> bool" where
  "buffer_ok pkt psize \<longleftrightarrow> (\<forall>p. pkt = Some p \<longrightarrow> psize = 4096 \<and> length p = 4096 \<and> holds_pkt p)"

definition hfi_ok :: "msm_vidc_core \<Rightarrow> bool" where
  "hfi_ok core \<longleftrightarrow>
    (\<forall>i. align_virtual_addr (q_arr (iface_queues core i)) \<noteq> None \<longrightarrow> queue_view core i \<noteq> None)
    \<and> (align_virtual_addr (iface_q_table core) \<noteq> None \<longrightarrow>
        (\<forall>i. align_virtual_addr (q_arr (iface_queues core i)) \<noteq> None))
    \<and> buffer_ok (core_packet core) (core_packet_size core)"

lemma hfi_ok_cong:
  "iface_queues c = iface_queues core \<Longrightarrow> iface_q_table c = iface_q_table core \<Longrightarrow>
   core_packet c = core_packet core \<Longrightarrow> core_packet_size c = core_packet_size core \<Longrightarrow> hfi_ok c = hfi_ok core"
  by (simp add: hfi_ok_def queue_view_def)

lemma view_placed: "q_view q \<noteq> None \<Longrightarrow> q_placed q"
  by (auto elim!: q_view_SomeE simp: q_placed_def q_ok_def)

lemma core_status_with [simp]: "core_status (core_with core i q) = core_status core"
  by (simp add: core_status_def core_with_def)

lemma table_with [simp]: "iface_q_table (core_with core i q) = iface_q_table core"
  by (simp add: core_with_def)

lemma hfi_ok_with:
  assumes "hfi_ok core" and "q_view q \<noteq> None"
  shows "hfi_ok (core_with core i q)"
proof -
  have "align_virtual_addr (q_arr q) \<noteq> None" using assms(2) q_view_array by blast
  moreover have "core_packet (core_with core i q) = core_packet core"
    "core_packet_size (core_with core i q) = core_packet_size core" by (simp_all add: core_with_def)
  ultimately show ?thesis using assms by (auto simp: hfi_ok_def)
qed

section \<open>Initialisation\<close>

definition keeps_status :: "msm_vidc_core \<Rightarrow> (int \<times> msm_vidc_core \<times> 'w) option \<Rightarrow> bool" where
  "keeps_status core res \<longleftrightarrow> (\<forall>rc c w. res = Some (rc, c, w) \<longrightarrow> core_status c = core_status core)"

lemma status_Some: "core_status c = core_status core \<Longrightarrow> keeps_status core (Some (rc, c, w))"
  by (simp add: keeps_status_def)

lemma status_if: "keeps_status core x \<Longrightarrow> keeps_status core y \<Longrightarrow> keeps_status core (if b then x else y)"
  by simp

lemma status_case: "(\<And>a b c. keeps_status core (f a b c)) \<Longrightarrow> keeps_status core (case e of (a, b, c) \<Rightarrow> f a b c)"
  by (cases e) simp

lemma status_bind: "(\<And>x. m = Some x \<Longrightarrow> keeps_status core (f x)) \<Longrightarrow> keeps_status core (m \<bind> f)"
  by (cases m) (simp_all add: keeps_status_def)

lemma mmap_status: "init_mmap_buf mem core = Some c \<Longrightarrow> core_status c = core_status core"
  by (auto simp: init_mmap_buf_def core_status_def bind_eq_Some_conv)

lemma upd_hdr_status:
  "q_upd_hdr f i core = Some c \<Longrightarrow> core_status c = core_status core \<and> iface_q_table c = iface_q_table core"
  by (auto simp: q_upd_hdr_def split: option.splits)

lemma queue_ids_status:
  "set_queue_ids core = Some c \<Longrightarrow> core_status c = core_status core \<and> iface_q_table c = iface_q_table core"
  unfolding set_queue_ids_def Let_def by (auto simp: bind_eq_Some_conv dest!: upd_hdr_status)

lemma reset_status:
  "venus_hfi_reset_queue_header core = Some (rc, c) \<Longrightarrow>
    core_status c = core_status core \<and> iface_q_table c = iface_q_table core"
  unfolding venus_hfi_reset_queue_header_def
  by (auto simp: bind_eq_Some_conv dest!: upd_hdr_status queue_ids_status)

lemma set_up_status: "set_up_queues mem core = Some c \<Longrightarrow> core_status c = core_status core"
  by (auto simp: set_up_queues_def Let_def bind_eq_Some_conv core_status_def core_with_def
      dest!: queue_ids_status split: if_splits)

lemma init_rest_status: "keeps_status core (venus_hfi_queue_init_rest ops w core)"
  unfolding venus_hfi_queue_init_rest_def Let_def
  by (intro status_case status_if status_bind status_Some)
    (simp_all add: core_status_def mmap_status [unfolded core_status_def])

lemma queue_init_status:
  assumes "venus_hfi_queue_init ops w core = Some (rc, c, w')"
  shows "core_status c = core_status core"
proof -
  have "keeps_status core (venus_hfi_queue_init ops w core)"
    unfolding venus_hfi_queue_init_def Let_def
  proof (intro status_case status_if status_bind)
    fix x assume r: "venus_hfi_reset_queue_header core = Some x"
    obtain a c where x: "x = (a, c)" by (cases x)
    show "keeps_status core (case x of (_, core) \<Rightarrow> Some (0, core, w))"
      using reset_status [OF r [unfolded x]] by (simp add: x keeps_status_def)
  next
    show "keeps_status core (Some (- ENOMEM, core, w2))" for w2 :: 'a by (simp add: keeps_status_def)
  next
    fix m w2 c assume "set_up_queues m core = Some c"
    then show "keeps_status core (venus_hfi_queue_init_rest ops w2 c)"
      using init_rest_status [of c ops w2] by (simp add: keeps_status_def set_up_status)
  qed
  with assms show ?thesis by (simp add: keeps_status_def)
qed

lemma queue_init_ok:
  assumes ops: "alloc_maps ops" and ok: "hfi_ok core"
  obtains rc core' w' where "venus_hfi_queue_init ops w core = Some (rc, core', w')" "hfi_ok core'"
    "core_status core' = core_status core"
proof (cases "align_virtual_addr (iface_q_table core) = None")
  case True
  have fields: "core_packet c = core_packet core \<and> core_packet_size c = core_packet_size core"
    if "core_status c = core_status core" for c using that by (simp add: core_status_def)
  show thesis
  proof (cases rule: queue_init_fresh [OF ops True, of w, case_names nomem queues])
    case (nomem w')
    then show thesis using ok by (intro that) simp_all
  next
    case (queues rc core' w')
    have v: "queue_view core' i = Some []" for i
      using q_fresh_view [OF queues(3)] by (simp add: queue_view_def)
    then have "align_virtual_addr (q_arr (iface_queues core' i)) \<noteq> None" for i
      using q_view_array unfolding queue_view_def by blast
    with v have "hfi_ok core'"
      using ok fields [OF queue_init_status [OF queues(1)]] by (simp add: hfi_ok_def)
    with queues(1) queue_init_status [OF queues(1)] show thesis by (intro that)
  qed
next
  case False
  then have "q_placed (iface_queues core i)" for i
    using ok by (intro view_placed) (simp add: hfi_ok_def queue_view_def)
  from reset_fresh [OF this] obtain core' where r: "venus_hfi_reset_queue_header core = Some (0, core')"
    and f: "\<And>i. q_fresh i (iface_queues core' i)" by metis
  note s = reset_status [OF r]
  have v: "queue_view core' i = Some []" for i using q_fresh_view [OF f] by (simp add: queue_view_def)
  then have "align_virtual_addr (q_arr (iface_queues core' i)) \<noteq> None" for i
    using q_view_array unfolding queue_view_def by blast
  with v s ok have "hfi_ok core'" by (auto simp: hfi_ok_def core_status_def)
  then show thesis using that [of 0 core' w] r s False by (simp add: venus_hfi_queue_init_def)
qed

section \<open>Commands and debug messages\<close>

lemma cmd_write_status:
  "venus_hfi_queue_cmd_write core pkt = Some (rc, c, intr) \<Longrightarrow>
    core_status c = core_status core \<and> iface_q_table c = iface_q_table core
    \<and> (\<forall>i. i \<noteq> CMDQ \<longrightarrow> iface_queues c i = iface_queues core i)"
  by (auto simp: venus_hfi_queue_cmd_write_def iface_cmdq_write_relaxed_def Let_def bind_eq_Some_conv
      split: if_splits)

lemma hfi_ok_queue:
  assumes "hfi_ok core" "core_status c = core_status core" "iface_q_table c = iface_q_table core"
    "queue_view c i \<noteq> None" "\<And>j. j \<noteq> i \<Longrightarrow> iface_queues c j = iface_queues core j"
  shows "hfi_ok c"
proof -
  have "align_virtual_addr (q_arr (iface_queues c i)) \<noteq> None"
    using assms(4) q_view_array unfolding queue_view_def by blast
  moreover have "queue_view c j \<noteq> None" if "align_virtual_addr (q_arr (iface_queues c j)) \<noteq> None" for j
    using assms(1,4,5) that unfolding hfi_ok_def queue_view_def by metis
  ultimately show ?thesis using assms(1-3,5) unfolding hfi_ok_def core_status_def by (metis prod.inject)
qed

lemma cmd_write_ok:
  assumes "hfi_ok core" and "holds_pkt pkt"
  obtains rc c intr where "venus_hfi_queue_cmd_write core (Some pkt) = Some (rc, c, intr)" "hfi_ok c"
    "core_status c = core_status core"
proof (cases "core_lock_held core \<and> core_in_valid_state core
    \<and> align_virtual_addr (q_arr (iface_queues core CMDQ)) \<noteq> None")
  case True
  then obtain ps where v: "queue_view core CMDQ = Some ps" using assms(1) by (auto simp: hfi_ok_def)
  from True have "core_lock_held core" "core_in_valid_state core" by simp_all
  from cmd_write_view [OF this v assms(2)] obtain c where
    w: "venus_hfi_queue_cmd_write core (Some pkt) = Some (0, c, cmd_fits core ps pkt)"
    and n: "queue_view c CMDQ \<noteq> None" by (metis option.distinct(1))
  note s = cmd_write_status [OF w]
  have "hfi_ok c" by (rule hfi_ok_queue [OF assms(1) _ _ n]) (use s in blast)+
  with w s that show thesis by blast
next
  case False
  then have "\<exists>rc. venus_hfi_queue_cmd_write core (Some pkt) = Some (rc, core, False)"
    by (auto simp: venus_hfi_queue_cmd_write_def iface_cmdq_write_relaxed_def strict_check_def Let_def)
  with that assms(1) show thesis by blast
qed

lemma core_with_same [simp]: "core_with core i (iface_queues core i) = core"
  by (simp add: core_with_def)

lemma cmd_write_total:
  assumes "hfi_ok core" and "\<And>p. pkt = Some p \<Longrightarrow> holds_pkt p"
  obtains rc c intr where "venus_hfi_queue_cmd_write core pkt = Some (rc, c, intr)" "hfi_ok c"
    "core_status c = core_status core"
proof (cases pkt)
  case None
  then have "\<exists>rc. venus_hfi_queue_cmd_write core pkt = Some (rc, core, False)"
    by (auto simp: venus_hfi_queue_cmd_write_def iface_cmdq_write_relaxed_def write_queue_def Let_def)
  with assms(1) that show thesis by blast
next
  case (Some p)
  with cmd_write_ok [OF assms(1) assms(2)] that show thesis by metis
qed

lemma read_queue_tx:
  assumes "read_queue q (Some buf) t = Some (r, q', p, tx)" and q: "q_ok q h m"
  shows "map_option qhdr_tx_req (q_hdr q') = map_option qhdr_tx_req (q_hdr q)"
proof -
  have "(\<exists>x i. q' = q_with q (h\<lparr>qhdr_rx_req := x, qhdr_read_idx := i\<rparr>) m) \<or> (\<exists>x. q' = q_with q (h\<lparr>qhdr_rx_req := x\<rparr>) m) \<or> q' = q"
    using assms(1) unfolding read_queue_def q_okD [OF q] option.case Let_def
    by (cases "qhdr_read_idx h = qhdr_write_idx h") (force simp: bind_eq_Some_conv split: if_split_asm)+
  then show ?thesis using q_okD(1) [OF q] by (auto simp: q_with_def)
qed

text \<open>Reading the debug queue: as the message queue, but in every state of the core.\<close>

lemma dbg_read_view:
  assumes v: "queue_view core DBGQ = Some ps" and buf: "4096 \<le> length buf" and F: "fifo_get ps = (r, d, ps')"
  obtains c tx where
    "venus_hfi_queue_dbg_read core (Some buf) =
      Some (if r = 0 then if tx then - EINVAL else 0 else - ENODATA, c,
        Some (case d of None \<Rightarrow> buf | Some p \<Rightarrow> overwrite buf 0 p))"
    "queue_view c DBGQ = Some ps'" "\<And>i. i \<noteq> DBGQ \<Longrightarrow> iface_queues c i = iface_queues core i"
    "core_status c = core_status core" "iface_q_table c = iface_q_table core"
    "map_option qhdr_tx_req (q_hdr (iface_queues c DBGQ)) = map_option qhdr_tx_req (q_hdr (iface_queues core DBGQ))"
    "tx \<Longrightarrow> map_option qhdr_tx_req (q_hdr (iface_queues core DBGQ)) = Some 1"
proof -
  let ?q = "iface_queues core DBGQ"
  have q: "q_view ?q = Some ps" using v by (simp add: queue_view_def)
  obtain h m where h: "q_ok ?q h m" using q_view_SomeE [OF q] .
  from read_refines [OF q buf F, of 0] obtain q' tx where
    R: "read_queue ?q (Some buf) 0 = Some (r, q', Some (case d of None \<Rightarrow> buf | Some p \<Rightarrow> overwrite buf 0 p), tx)"
      "q_view q' = Some ps'" and tx: "tx = (if ps = [] then 0 else tx_req_flag h)"
    using q_okD(1) [OF h] by metis
  have "venus_hfi_queue_dbg_read core (Some buf) =
      Some (if r = 0 then if tx \<noteq> 0 then - EINVAL else 0 else - ENODATA, core_with core DBGQ q',
        Some (case d of None \<Rightarrow> buf | Some p \<Rightarrow> overwrite buf 0 p))"
    using R(1) by (simp add: venus_hfi_queue_dbg_read_def Let_def q_okD(2) [OF h])
  then show thesis
    using R(2) read_queue_tx [OF R(1) h] tx q_okD(1) [OF h]
    by (intro that [of "tx \<noteq> 0" "core_with core DBGQ q'"])
      (simp_all add: queue_view_def tx_req_flag_def split: if_splits)
qed

section \<open>Building commands\<close>

lemma holds_cmd_pkt:
  assumes "holds_cmd buf sid hid ps" "cmd_size ps < 4294967296"
  shows "holds_pkt buf"
proof -
  obtain rest where b: "buf = cmd_bytes sid hid ps @ rest" using assms(1) by (auto simp: holds_cmd_iff)
  have "take 4 buf = u32_bytes (of_nat (cmd_size ps))"
    by (simp add: b cmd_bytes_def hdr_bytes_def u32s_Cons)
  then have "pkt_len buf = 4 * (cmd_size ps div 4)" using assms(2) by (simp add: pkt_len_def unat_drop2)
  moreover have "4 * (cmd_size ps div 4) \<le> length buf" "4 \<le> length buf"
    using cmd_size_ge [of ps] by (simp_all add: b)
  ultimately show ?thesis by (simp add: holds_pkt_def)
qed

text \<open>A command that was built in the buffer arrives in the command queue byte for byte.\<close>

lemma command_arrives:
  assumes "holds_cmd buf sid hid ps" "cmd_size ps < 4294967296" "4 dvd cmd_size ps"
    "core_lock_held core" "core_in_valid_state core" "queue_view core CMDQ = Some qs"
    "length (concat qs) + cmd_size ps < q_cap (iface_queues core CMDQ)"
  obtains core' where "venus_hfi_queue_cmd_write core (Some buf) = Some (0, core', True)"
    "queue_view core' CMDQ = Some (qs @ [cmd_bytes sid hid ps])"
    "q_cap (iface_queues core' CMDQ) = q_cap (iface_queues core CMDQ)"
proof -
  obtain rest where b: "buf = cmd_bytes sid hid ps @ rest" using assms(1) by (auto simp: holds_cmd_iff)
  have l: "32 \<le> cmd_size ps" using cmd_size_ge [of ps] by linarith
  have "take 4 buf = u32_bytes (of_nat (cmd_size ps))"
    by (simp add: b cmd_bytes_def hdr_bytes_def u32s_Cons)
  then have n: "pkt_len buf = cmd_size ps"
    using assms(2,3) by (simp add: pkt_len_def unat_drop2)
  have h: "holds_pkt buf" using l by (simp add: holds_pkt_def n) (simp add: b)
  have f: "cmd_fits core qs buf" using assms(7) l by (simp add: cmd_fits_def n)
  have t: "take (pkt_len buf) buf = cmd_bytes sid hid ps" by (simp add: n) (simp add: b)
  from cmd_write_view [OF assms(4-6) h] f t that show thesis by metis
qed

lemma create_packets_total:
  assumes "holds_cmd buf sid hid qs" "length buf = 4096" "\<forall>(ty, fl, info, vs) \<in> set ps. length vs \<le> 1024"
  shows "\<exists>rc ids' buf' qs'. create_packets ids (Some buf) 4096 ps = Some (rc, ids', Some buf') \<and> length buf' = 4096
    \<and> holds_cmd buf' sid hid qs' \<and> sys_init_id ids' = sys_init_id ids"
  using assms
proof (induction ps arbitrary: ids buf qs)
  case Nil
  then show ?case by auto
next
  case (Cons s ps)
  obtain ty fl info vs where s: "s = (ty, fl, info, vs)" by (metis prod.exhaust)
  have vs: "length vs \<le> 1024" using Cons.prems(3) by (simp add: s)
  let ?ids = "ids\<lparr>core_packet_id := core_packet_id ids + 1\<rparr>"
  let ?p = "\<lparr>pk_type = ty, pk_flags = fl, pk_info = info, pk_port = HFI_PORT_NONE,
    pk_id = core_packet_id ids, pk_payload = u32s vs\<rparr>"
  have c: "cmd_size qs \<le> 4096" using Cons.prems(1,2) by (simp add: holds_cmd_def)
  have fit: "cmd_size (qs @ [?p]) < 4294967296" using c vs by (simp add: pkt_size_of_def)
  have b: "unat (4096 :: uint32) \<le> length buf" using Cons.prems(2) by simp
  have len: "unat (of_nat (4 * length vs) :: uint32) = length (u32s vs)"
    using vs unat_of_nat32 [of "4 * length vs"] by simp
  have pl: "u32s vs = [] \<or> (if vs = [] then None else Some (u32s vs)) = Some (u32s vs)" by simp
  show ?case
  proof (cases rule: create_packet_appends [OF Cons.prems(1) b len pl refl fit, case_names appended full])
    case (appended buf')
    then have "length buf' = 4096" using Cons.prems(2) by simp
    from Cons.IH [OF appended(3) this, of ?ids] Cons.prems(3) appended(2) show ?thesis by (simp add: s)
  next
    case full
    then show ?thesis using Cons.prems(1,2) by (intro exI [of _ "- EINVAL"]) (auto simp: s)
  qed
qed

text \<open>
  What the driver relies on when it builds a command: the builder returns and keeps the buffer in order.
\<close>

definition builds :: "(hfi_core \<Rightarrow> uint8 list option \<Rightarrow> uint32 \<Rightarrow> (int \<times> hfi_core \<times> uint8 list option) option) \<Rightarrow> bool" where
  "builds b \<longleftrightarrow> (\<forall>ids pkt psize. buffer_ok pkt psize \<longrightarrow>
    (\<exists>rc ids' pkt'. b ids pkt psize = Some (rc, ids', pkt') \<and> buffer_ok pkt' psize \<and> (pkt' = None \<longleftrightarrow> pkt = None)))"

lemma buildsD:
  assumes "builds b" "buffer_ok pkt psize"
  obtains rc ids' pkt' where "b ids pkt psize = Some (rc, ids', pkt')" "buffer_ok pkt' psize" "pkt' = None \<longleftrightarrow> pkt = None"
proof -
  from assms have "\<exists>rc ids' pkt'. b ids pkt psize = Some (rc, ids', pkt') \<and> buffer_ok pkt' psize \<and> (pkt' = None \<longleftrightarrow> pkt = None)"
    unfolding builds_def by simp
  then show thesis by (elim exE conjE) (rule that)
qed

lemma builds_sys_command:
  assumes ps: "\<And>ids. \<forall>(ty, fl, info, vs) \<in> set (ps ids). length vs \<le> 1024"
  shows "builds (\<lambda>ids. sys_command f (ps ids) ids)"
  unfolding builds_def
proof (intro allI impI)
  fix ids pkt psize
  assume ok: "buffer_ok pkt psize"
  show "\<exists>rc ids' pkt'. sys_command f (ps ids) ids pkt psize = Some (rc, ids', pkt') \<and> buffer_ok pkt' psize
      \<and> (pkt' = None \<longleftrightarrow> pkt = None)"
  proof (cases pkt)
    case None
    then show ?thesis by (simp add: sys_command_def hfi_create_header_def buffer_ok_def)
  next
    case (Some buf)
    then have b: "psize = 4096" "length buf = 4096" using ok by (simp_all add: buffer_ok_def)
    let ?buf = "hdr_bytes 32 0 (core_header_id ids) 0 @ drop 32 buf"
    have h: "holds_cmd ?buf 0 (core_header_id ids) []"
      by (simp add: holds_cmd_iff cmd_bytes_def cmd_size_def)
    have l: "length ?buf = 4096" using b by simp
    from create_packets_total [OF h l ps] obtain rc ids' buf' qs' where
      "create_packets (f (ids\<lparr>core_header_id := core_header_id ids + 1\<rparr>)) (Some ?buf) 4096 (ps ids) = Some (rc, ids', Some buf')"
      and b': "length buf' = 4096" and q: "holds_cmd buf' 0 (core_header_id ids) qs'" by metis
    moreover have "hfi_create_header (Some buf) psize 0 (core_header_id ids) = Some (0, Some ?buf)"
      using b by (intro create_header_ok) simp_all
    moreover have "holds_pkt buf'"
    proof (rule holds_cmd_pkt [OF q])
      show "cmd_size qs' < 4294967296" using q b' by (simp add: holds_cmd_def)
    qed
    ultimately show ?thesis using b by (simp add: sys_command_def Some buffer_ok_def)
  qed
qed

end
