(* ===== verification/Vidc_Hfi_Packet_Props.thy ===== *)
theory Vidc_Hfi_Packet_Props
  imports Vidc_Hfi_Props Vidc_Hfi_Dispatch Vidc_Hfi_Types Vidc_Hfi_Ready
begin

text \<open>
  Properties of the packets the video driver sends to and gets from its firmware, with witnesses.
\<close>

section \<open>Commands for the witnesses\<close>

definition demo_packet :: "uint32 \<Rightarrow> uint32 \<Rightarrow> hfi_packet" where
  "demo_packet ty fl = \<lparr>pk_type = ty, pk_flags = fl, pk_info = 1, pk_port = HFI_PORT_NONE, pk_id = 1,
    pk_payload = u32s [7]\<rparr>"

lemma demo_packet_size [simp]: "pkt_size_of (demo_packet ty fl) = 36"
  by (simp add: pkt_size_of_def demo_packet_def)

lemma holds_cmd_bytes: "holds_cmd (cmd_bytes sid hid ps @ r) sid hid ps"
  by (auto simp: holds_cmd_iff)

section \<open>Building\<close>

text \<open>C23: Appending a packet.  On a buffer that holds a command, \<open>hfi_create_packet\<close> either appends exactly
  the packet asked for, and nothing else of the command changes, or refuses with \<open>-EINVAL\<close> and changes
  nothing; it refuses exactly when the longer command would exceed the size of the buffer.\<close>

theorem hfi_create_packet_refines:
  assumes "holds_cmd buf sid hid ps" "unat psize \<le> length buf" "unat plen = length pl"
    "pl = [] \<or> payload = Some pl" "cmd_size ps + 32 + length pl < 4294967296"
  shows "\<exists>rc buf'. hfi_create_packet (Some buf) psize ty fl info port pid payload plen = Some (rc, Some buf')
    \<and> length buf' = length buf
    \<and> (if cmd_size ps + 32 + length pl \<le> unat psize
       then rc = 0 \<and> holds_cmd buf' sid hid (ps @ [\<lparr>pk_type = ty, pk_flags = fl, pk_info = info,
          pk_port = port, pk_id = pid, pk_payload = pl\<rparr>])
       else rc = - EINVAL \<and> buf' = buf)"
proof -
  let ?p = "\<lparr>pk_type = ty, pk_flags = fl, pk_info = info, pk_port = port, pk_id = pid, pk_payload = pl\<rparr>"
  have fit: "cmd_size (ps @ [?p]) < 4294967296" using assms(5) by (simp add: pkt_size_of_def)
  show ?thesis
  proof (cases rule: create_packet_appends [OF assms(1-4) refl fit, case_names appended full])
    case (appended buf')
    then show ?thesis by (intro exI [of _ 0] exI [of _ buf']) (simp add: pkt_size_of_def)
  next
    case full
    then show ?thesis by (intro exI [of _ "- EINVAL"] exI [of _ buf]) (simp add: pkt_size_of_def)
  qed
qed

theorem hfi_create_packet_refines_witness:
  "\<exists>buf'. hfi_create_packet (Some (cmd_bytes 5 6 [demo_packet 1 0] @ replicate 36 255)) 104 2 0 1 0 9
      (Some (u32s [7])) 4 = Some (0, Some buf') \<and> length buf' = 104
    \<and> holds_cmd buf' 5 6 [demo_packet 1 0, \<lparr>pk_type = 2, pk_flags = 0, pk_info = 1, pk_port = 0, pk_id = 9,
        pk_payload = u32s [7]\<rparr>]"
  using hfi_create_packet_refines [OF holds_cmd_bytes [of 5 6 "[demo_packet 1 0]" "replicate 36 255"],
      of 104 4 "u32s [7]" "Some (u32s [7])" 2 0 1 0 9]
  by (auto simp: cmd_size_def)

text \<open>The first command.  In a buffer of at least 360 bytes \<open>hfi_packet_sys_init\<close> succeeds, and the
  buffer then holds one command of the system session with exactly the initialisation packet and the
  properties of the platform, with consecutive packet ids (modulo \<open>2^32\<close>), of which the first is kept to
  recognise the answer.\<close>

theorem sys_init_command:
  assumes "360 \<le> unat psize" "unat psize \<le> length buf"
  shows "\<exists>core' buf'. hfi_packet_sys_init core (Some buf) psize = Some (0, core', Some buf')
    \<and> holds_cmd buf' 0 (core_header_id core) (spec_packets (core_packet_id core) (sys_init_packets core))
    \<and> core_header_id core' = core_header_id core + 1
    \<and> core_packet_id core' = core_packet_id core + (if synx_fence_cap core then 9 else 8)
    \<and> sys_init_id core' = core_packet_id core"
proof -
  let ?f = "\<lambda>core :: hfi_core. core\<lparr>sys_init_id := core_packet_id core\<rparr>"
  have s: "cmd_size (spec_packets (core_packet_id core) (sys_init_packets core)) \<le> unat psize"
    using assms(1) by (simp add: sys_init_packets_def Let_def cmd_size_def pkt_size_of_def)
  obtain core' buf' where "sys_command ?f (sys_init_packets core) core (Some buf) psize = Some (0, core', Some buf')"
    "core' = (?f (core\<lparr>core_header_id := core_header_id core + 1\<rparr>))
      \<lparr>core_packet_id := core_packet_id core + of_nat (length (sys_init_packets core))\<rparr>"
    "holds_cmd buf' 0 (core_header_id core) (spec_packets (core_packet_id core) (sys_init_packets core))"
    by (rule sys_command_ok [OF _ assms(2) s, of ?f]) simp_all
  then show ?thesis
    by (simp add: hfi_packet_sys_init_def sys_init_packets_def Let_def)
qed

theorem sys_init_command_witness:
  "\<exists>core' buf'. hfi_packet_sys_init demo_hfi_core (Some (replicate 360 0)) 360 = Some (0, core', Some buf')
    \<and> core_packet_id core' = 7 \<and> sys_init_id core' = 0xFFFFFFFE"
  using sys_init_command [of 360 "replicate 360 0" demo_hfi_core]
  by (auto simp: demo_hfi_core_def)

text \<open>From a built command to the firmware.  A command in the driver's buffer whose size is a multiple of
  four and fits behind the commands waiting is put into the command queue byte for byte: what the firmware
  finds at the end of the queue is the encoding of the header and the packets.\<close>

theorem command_delivered:
  assumes "holds_cmd buf sid hid ps" "cmd_size ps < 4294967296" "4 dvd cmd_size ps"
    "core_lock_held core" "core_in_valid_state core" "queue_view core CMDQ = Some qs"
    "length (concat qs) + cmd_size ps < q_cap (iface_queues core CMDQ)"
  shows "\<exists>core'. venus_hfi_queue_cmd_write core (Some buf) = Some (0, core', True)
    \<and> queue_view core' CMDQ = Some (qs @ [cmd_bytes sid hid ps])"
  by (rule command_arrives [OF assms]) blast

theorem command_delivered_witness:
  "\<exists>core core'. q_cap (iface_queues core CMDQ) = 256
    \<and> venus_hfi_queue_cmd_write core (Some (cmd_bytes 0 1 [demo_packet 0x01000001 3])) = Some (0, core', True)
    \<and> queue_view core' CMDQ = Some [cmd_bytes 0 1 [demo_packet 0x01000001 3]]"
proof -
  let ?h = "demo_hfi_hdr\<lparr>qhdr_read_idx := 60, qhdr_write_idx := 60\<rparr>"
  let ?q = "demo_queue ?h (replicate 256 0)"
  have "q_ok ?q ?h (replicate 256 0)" by (simp add: q_ok_def demo_queue_def)
  then have v: "q_view ?q = Some []"
    by (rule q_viewI) (simp_all add: q_bytes_def q_used_def ring_get_def)
  have cap: "q_cap ?q = 256" by (simp add: q_cap_def demo_queue_def)
  obtain core' where "venus_hfi_queue_cmd_write (demo_vidc_core ?q) (Some (cmd_bytes 0 1 [demo_packet 0x01000001 3])) =
      Some (0, core', True)" "queue_view core' CMDQ = Some ([] @ [cmd_bytes 0 1 [demo_packet 0x01000001 3]])"
    using command_delivered [OF holds_cmd_bytes [of _ _ _ "[]", simplified],
        of "[demo_packet 0x01000001 3]" "demo_vidc_core ?q" "[]" 0 1]
    by (auto simp: cmd_size_def demo_core_ok queue_view_def v cap)
  with cap show ?thesis
    by (intro exI [of _ "demo_vidc_core ?q"] exI [of _ core']) (simp add: demo_core_ok)
qed

section \<open>Responses\<close>

text \<open>A handler set that records what is called.\<close>

definition log_handlers :: "(nat \<times> uint32) list hfi_handlers" where
  "log_handlers = (let log = (\<lambda>k s p. (0, s @ [(k, pk_type p)])) in
    \<lparr>handle_system_error = \<lambda>s p. (0, s @ [(0, case p of None \<Rightarrow> 0 | Some p \<Rightarrow> pk_type p)]),
     handle_system_property = log 1, handle_system_init = log 2, handle_session_error = log 3,
     handle_session_info = log 4, handle_session_property = log 5, handle_session_command = log 6,
     handle_dequeue_buffers = \<lambda>s. (0, s @ [(7, 0)]), change_state_error = \<lambda>s. s, clear_frame_info = \<lambda>s. s,
     init_input_subcr_params = \<lambda>s. s, get_inst = \<lambda>s i. True\<rparr>)"

text \<open>C28: Building and handling agree.  A header built by \<open>hfi_create_header\<close> and any non-empty run of
  \<open>hfi_create_packet\<close> calls that fits the buffer succeed, and the message they leave in the buffer passes
  \<open>validate_hdr_packet\<close> and is handled by \<open>handle_response\<close>, which reads the bytes back, as exactly the
  packets that were asked for, in their order, for the session of the header.  When the packets do not
  fit the run ends with \<open>-EINVAL\<close>, and the message in the buffer has the packets before the one that did
  not fit.\<close>

theorem built_command_roundtrip:
  assumes "ps \<noteq> []" "32 \<le> unat psize" "unat psize \<le> length buf" "cmd_size ps < 4294967296"
  shows "\<exists>buf1 rc buf'. hfi_create_header (Some buf) psize sid hid = Some (0, Some buf1) \<and>
    create_all psize ps (Some buf1) = Some (rc, Some buf') \<and> length buf' = length buf \<and>
    (if cmd_size ps \<le> unat psize
     then rc = 0 \<and> validate_hdr_packet buf' psize = Some 0 \<and>
       (\<forall>H s. handle_response H buf' psize s = Some (response_spec H sid ps s))
     else rc = - EINVAL \<and> (\<exists>n < length ps. response_packets buf' = Some (take n ps)))"
proof -
  define buf1 where "buf1 = hdr_bytes 32 sid hid 0 @ drop 32 buf"
  have h: "hfi_create_header (Some buf) psize sid hid = Some (0, Some buf1)" "length buf1 = length buf"
    "holds_cmd buf1 sid hid []"
    using create_header_ok [of psize buf sid hid] assms(2,3)
    by (auto simp: buf1_def holds_cmd_iff cmd_bytes_def cmd_size_def)
  from create_all_run [OF h(3), of psize ps] obtain rc buf' where
    r: "create_all psize ps (Some buf1) = Some (rc, Some buf')" "length buf' = length buf"
      "if cmd_size ps \<le> unat psize \<or> ps = [] then rc = 0 \<and> holds_cmd buf' sid hid ps
       else rc = - EINVAL \<and> (\<exists>n < length ps. holds_cmd buf' sid hid (take n ps))"
    using assms(3,4) h(2) unfolding append_Nil by metis
  show ?thesis
  proof (cases "cmd_size ps \<le> unat psize")
    case True
    then have "holds_cmd buf' sid hid ps" "rc = 0" using r(3) by simp_all
    then show ?thesis
      using h(1) r(1,2) True built_validates(1) [OF _ assms(1) True] built_handled [OF _ assms(1) True] by auto
  next
    case False
    then obtain n where n: "n < length ps" "holds_cmd buf' sid hid (take n ps)" "rc = - EINVAL"
      using r(3) assms(1) by auto
    have "cmd_size (take n ps) \<le> cmd_size ps"
      using cmd_size_append [of "take n ps" "drop n ps"] by simp
    then have "response_packets buf' = Some (take n ps)" using built_packets [OF n(2)] assms(4) by simp
    then show ?thesis using h(1) r(1,2) False n(1,3) by auto
  qed
qed

theorem built_command_roundtrip_witness:
  "\<exists>buf1 buf'. hfi_create_header (Some (replicate 112 255)) 112 0 9 = Some (0, Some buf1) \<and>
    create_all 112 [demo_packet 0x01000001 0, demo_packet 0x03000001 0] (Some buf1) = Some (0, Some buf') \<and>
    handle_response log_handlers buf' 112 [] = Some (0, [(1, 0x03000001), (2, 0x01000001)])"
proof -
  let ?ps = "[demo_packet 0x01000001 0, demo_packet 0x03000001 0]"
  have s: "cmd_size ?ps = 104" by (simp add: cmd_size_def)
  have "response_spec log_handlers 0 ?ps [] = (0, [(1, 0x03000001), (2, 0x01000001)])"
    by (simp add: response_spec_def system_spec_def log_handlers_def is_system_error_def demo_packet_def is_in_range_def
      HFI_SYSTEM_ERROR_RANGE_def HFI_PROP_RANGE_def HFI_CMD_RANGE_def Let_def)
  then show ?thesis using built_command_roundtrip [where 'a = "(nat \<times> uint32) list", of ?ps 112 "replicate 112 255" 0 9] by (auto simp: s)
qed

text \<open>C21: A checked response is safe to handle.  If \<open>validate_hdr_packet\<close> accepts what the firmware sent,
  every packet it announces lies inside the response buffer, header and payload, whatever the bytes are;
  the loops over the packets never leave the buffer.\<close>

theorem validated_response_walkable:
  assumes "validate_hdr_packet buf psize = Some 0" "unat psize \<le> length buf"
  shows "\<exists>n ps. get_u32 buf 28 = Some n \<and> response_packets buf = Some ps \<and> length ps = unat n"
proof -
  obtain n where n: "get_u32 buf 28 = Some n" "validate_packets (unat n) 32 buf psize = Some 0"
    using assms(1) by (auto simp: validate_hdr_packet_def bind_Some_iff split: if_splits)
  from validate_then_walk [OF n(2) assms(2)] n(1) show ?thesis
    by (auto simp: response_packets_def)
qed

theorem validated_response_walkable_witness:
  "\<exists>n ps. get_u32 (cmd_bytes 0 1 [demo_packet 1 0]) 28 = Some n
    \<and> response_packets (cmd_bytes 0 1 [demo_packet 1 0]) = Some ps \<and> length ps = unat n"
proof -
  have "validate_hdr_packet (cmd_bytes 0 1 [demo_packet 1 0]) 68 = Some 0"
    using built_validates(1) [OF holds_cmd_bytes [of 0 1 "[demo_packet 1 0]" "[]"], of 68] by (simp add: cmd_size_def)
  from validated_response_walkable [OF this] show ?thesis by (simp add: cmd_size_def)
qed

text \<open>The check itself reads the size of a packet that would start at the end of the buffer.\<close>

lemma validate_reads_past_end:
  "validate_hdr_packet (u32s [64, 0, 0, 0, 0, 0, 0, 2] @ u32s [32, 0, 0, 0, 0, 0, 0, 0]) 64 = None"
  by code_simp

lemma checked_packets:
  assumes "validate_hdr_packet buf psize = Some 0" "unat psize \<le> length buf"
  obtains ps where "response_packets buf = Some ps"
proof -
  obtain n where n: "get_u32 buf 28 = Some n" "validate_packets (unat n) 32 buf psize = Some 0"
    using assms(1) by (auto simp: validate_hdr_packet_def bind_Some_iff split: if_splits)
  from validate_then_walk [OF n(2) assms(2)] n(1) that show thesis
    by (auto simp: response_packets_def)
qed

lemma count_pkt_events:
  "count_list (concat (map (pkt_events i r) ps)) (Flagged p) =
    (if pk_flags p AND HFI_FW_FLAGS_SESSION_ERROR \<noteq> 0 then count_list ps p else 0)"
  by (induction ps) (auto simp: pkt_events_def)

lemma flagged_four_times:
  "count_list (session_events ps) (Flagged p) =
    (if pk_flags p AND HFI_FW_FLAGS_SESSION_ERROR \<noteq> 0 then 4 * count_list ps p else 0)"
  by (simp add: session_events_def upt_rec count_pkt_events)

text \<open>C32: System responses, errors first.  \<open>handle_system_response\<close> is equivalent to: if any packet is a
  system error, by flag or by type, only \<open>handle_system_error\<close> runs, once, on the first such packet, whatever
  precedes it; otherwise all properties are handled before all commands, each in the order of the response,
  up to the first failure.\<close>

theorem system_response_order:
  assumes "validate_hdr_packet buf psize = Some 0" "unat psize \<le> length buf" "get_u32 buf 4 = Some 0"
  shows "\<exists>ps. response_packets buf = Some ps \<and> handle_response H buf psize s = Some (system_spec H ps s)"
proof -
  obtain ps where ps: "response_packets buf = Some ps" using checked_packets [OF assms(1,2)] .
  then show ?thesis
    using assms(1,3) system_response_spec [OF ps] by (simp add: handle_response_def)
qed

abbreviation (input) demo_response :: "uint32 \<Rightarrow> hfi_packet list \<Rightarrow> uint8 list" where
  "demo_response sid ps \<equiv> cmd_bytes sid 1 ps"

lemma demo_response_ok:
  assumes "ps \<noteq> []" "cmd_size ps < 4294967296"
  shows "validate_hdr_packet (demo_response sid ps) (of_nat (cmd_size ps)) = Some 0"
    "response_packets (demo_response sid ps) = Some ps" "get_u32 (demo_response sid ps) 4 = Some sid"
proof -
  have h: "holds_cmd (demo_response sid ps) sid 1 ps" using holds_cmd_bytes [of sid 1 ps "[]"] by simp
  have c: "cmd_size ps \<le> unat (of_nat (cmd_size ps) :: uint32)" using assms(2) by simp
  show "validate_hdr_packet (demo_response sid ps) (of_nat (cmd_size ps)) = Some 0"
    "response_packets (demo_response sid ps) = Some ps"
    using built_validates [OF h assms(1) c] by simp_all
  show "get_u32 (demo_response sid ps) 4 = Some sid"
    using get_u32_row [of 1 "[of_nat (cmd_size ps), sid, 1, 0, 0, 0, 0, of_nat (length ps)]" "[]"]
    by (simp add: cmd_bytes_def hdr_bytes_def)
qed

theorem system_response_order_witness:
  "handle_response log_handlers
      (demo_response 0 [demo_packet 0x01000001 0, demo_packet 0x03000001 0, demo_packet 0x01000002 0]) 140 [] =
    Some (0, [(1, 0x03000001), (2, 0x01000001), (2, 0x01000002)])"
proof -
  let ?ps = "[demo_packet 0x01000001 0, demo_packet 0x03000001 0, demo_packet 0x01000002 0]"
  have s: "cmd_size ?ps = 140" by (simp add: cmd_size_def)
  have "\<exists>ps. response_packets (demo_response 0 ?ps) = Some ps
      \<and> handle_response log_handlers (demo_response 0 ?ps) 140 [] = Some (system_spec log_handlers ps [])"
    using demo_response_ok [of ?ps 0] by (intro system_response_order) (simp_all add: s)
  then have "handle_response log_handlers (demo_response 0 ?ps) 140 [] = Some (system_spec log_handlers ?ps [])"
    using demo_response_ok(2) [of ?ps 0] by (simp add: s)
  then show ?thesis
    by (simp add: system_spec_def log_handlers_def is_system_error_def demo_packet_def is_in_range_def
      HFI_SYSTEM_ERROR_RANGE_def HFI_PROP_RANGE_def HFI_CMD_RANGE_def Let_def)
qed

text \<open>Session responses in four passes.  The loops of \<open>__handle_session_response\<close> are equivalent to one
  run over the events of the response: first all session errors, then information, properties and commands,
  each in the order of the response; and in each of the four passes every packet with the session error flag
  is given to \<open>handle_session_error\<close> again.\<close>

theorem session_response_order:
  assumes "validate_hdr_packet buf psize = Some 0" "unat psize \<le> length buf"
  shows "\<exists>ps. response_packets buf = Some ps
    \<and> handle_session_response_inst H buf s = Some (session_spec H ps s)
    \<and> (\<forall>p. count_list (session_events ps) (Flagged p) =
        (if pk_flags p AND HFI_FW_FLAGS_SESSION_ERROR \<noteq> 0 then 4 * count_list ps p else 0))"
proof -
  obtain ps where ps: "response_packets buf = Some ps" using checked_packets [OF assms] .
  show ?thesis by (intro exI [of _ ps] conjI allI ps session_response_spec [OF ps] flagged_four_times)
qed

theorem session_response_order_witness:
  "handle_session_response_inst log_handlers
      (demo_response 9 [demo_packet 0x01000009 0, demo_packet 0x03000010 4]) [] =
    Some (0, [(3, 0x03000010), (3, 0x03000010), (3, 0x03000010), (5, 0x03000010), (6, 0x01000009),
      (3, 0x03000010), (7, 0)])"
proof -
  let ?ps = "[demo_packet 0x01000009 0, demo_packet 0x03000010 4]"
  have s: "cmd_size ?ps = 104" by (simp add: cmd_size_def)
  have v: "validate_hdr_packet (demo_response 9 ?ps) 104 = Some 0"
    using demo_response_ok(1) [of ?ps 9] by (simp add: s)
  have "\<exists>ps. response_packets (demo_response 9 ?ps) = Some ps
      \<and> handle_session_response_inst log_handlers (demo_response 9 ?ps) [] = Some (session_spec log_handlers ps [])"
    using session_response_order [OF v, of log_handlers "[]"] by (auto simp: s)
  then have "handle_session_response_inst log_handlers (demo_response 9 ?ps) [] =
      Some (session_spec log_handlers ?ps [])"
    using demo_response_ok(2) [of ?ps 9] by (simp add: s)
  also have "session_spec log_handlers ?ps [] = (0, [(3, 0x03000010), (3, 0x03000010), (3, 0x03000010),
      (5, 0x03000010), (6, 0x01000009), (3, 0x03000010), (7, 0)])"
    by code_simp
  finally show ?thesis .
qed

end
