(* ===== verification/Vidc_Core_State.thy ===== *)
theory Vidc_Core_State
  imports Vidc_Hfi_Ready
begin

text \<open>
  The state machine of the video core: the first half of \<open>msm_vidc_state.c\<close>.  The names of states, which
  are only printed, are left out.
\<close>

section \<open>Constants\<close>

datatype msm_vidc_allow =
  MSM_VIDC_DISALLOW | MSM_VIDC_ALLOW | MSM_VIDC_DEFER | MSM_VIDC_DISCARD | MSM_VIDC_IGNORE

datatype msm_vidc_core_event_type = CORE_EVENT_NONE | CORE_EVENT_UPDATE_SUB_STATE

abbreviation (input) CORE_SUBSTATE_POWER_ENABLE :: uint32 where "CORE_SUBSTATE_POWER_ENABLE \<equiv> 1"
abbreviation (input) CORE_SUBSTATE_GDSC_HANDOFF :: uint32 where "CORE_SUBSTATE_GDSC_HANDOFF \<equiv> 2"
abbreviation (input) CORE_SUBSTATE_PM_SUSPEND :: uint32 where "CORE_SUBSTATE_PM_SUSPEND \<equiv> 4"
abbreviation (input) CORE_SUBSTATE_FW_PWR_CTRL :: uint32 where "CORE_SUBSTATE_FW_PWR_CTRL \<equiv> 8"
abbreviation (input) CORE_SUBSTATE_PAGE_FAULT :: uint32 where "CORE_SUBSTATE_PAGE_FAULT \<equiv> 16"
abbreviation (input) CORE_SUBSTATE_CPU_WATCHDOG :: uint32 where "CORE_SUBSTATE_CPU_WATCHDOG \<equiv> 32"
abbreviation (input) CORE_SUBSTATE_VIDEO_UNRESPONSIVE :: uint32 where "CORE_SUBSTATE_VIDEO_UNRESPONSIVE \<equiv> 64"
abbreviation (input) CORE_SUBSTATE_MAX :: uint32 where "CORE_SUBSTATE_MAX \<equiv> 128"

section \<open>The handlers of the states\<close>

text \<open>Four functions with the same body.  \<open>uval\<close> is the value in the event's data.\<close>

definition msm_vidc_core_deinit_state ::
  "msm_vidc_core \<Rightarrow> msm_vidc_core_event_type \<Rightarrow> uint32 \<Rightarrow> int \<times> msm_vidc_core" where
  "msm_vidc_core_deinit_state core type uval =
    (case type of
       CORE_EVENT_UPDATE_SUB_STATE \<Rightarrow>
         let allow_mask = - 1 in
         if uval AND allow_mask = 0 then (- EINVAL, core)
         else (0, core\<lparr>core_sub_state := core_sub_state core OR (uval AND allow_mask)\<rparr>)
     | CORE_EVENT_NONE \<Rightarrow> (- EINVAL, core))"

definition msm_vidc_core_init_wait_state ::
  "msm_vidc_core \<Rightarrow> msm_vidc_core_event_type \<Rightarrow> uint32 \<Rightarrow> int \<times> msm_vidc_core" where
  "msm_vidc_core_init_wait_state core type uval =
    (case type of
       CORE_EVENT_UPDATE_SUB_STATE \<Rightarrow>
         let allow_mask = - 1 in
         if uval AND allow_mask = 0 then (- EINVAL, core)
         else (0, core\<lparr>core_sub_state := core_sub_state core OR (uval AND allow_mask)\<rparr>)
     | CORE_EVENT_NONE \<Rightarrow> (- EINVAL, core))"

definition msm_vidc_core_init_state ::
  "msm_vidc_core \<Rightarrow> msm_vidc_core_event_type \<Rightarrow> uint32 \<Rightarrow> int \<times> msm_vidc_core" where
  "msm_vidc_core_init_state core type uval =
    (case type of
       CORE_EVENT_UPDATE_SUB_STATE \<Rightarrow>
         let allow_mask = - 1 in
         if uval AND allow_mask = 0 then (- EINVAL, core)
         else (0, core\<lparr>core_sub_state := core_sub_state core OR (uval AND allow_mask)\<rparr>)
     | CORE_EVENT_NONE \<Rightarrow> (- EINVAL, core))"

definition msm_vidc_core_error_state ::
  "msm_vidc_core \<Rightarrow> msm_vidc_core_event_type \<Rightarrow> uint32 \<Rightarrow> int \<times> msm_vidc_core" where
  "msm_vidc_core_error_state core type uval =
    (case type of
       CORE_EVENT_UPDATE_SUB_STATE \<Rightarrow>
         let allow_mask = - 1 in
         if uval AND allow_mask = 0 then (- EINVAL, core)
         else (0, core\<lparr>core_sub_state := core_sub_state core OR (uval AND allow_mask)\<rparr>)
     | CORE_EVENT_NONE \<Rightarrow> (- EINVAL, core))"

fun core_handle ::
  "msm_vidc_core_state \<Rightarrow> msm_vidc_core \<Rightarrow> msm_vidc_core_event_type \<Rightarrow> uint32 \<Rightarrow> int \<times> msm_vidc_core" where
  "core_handle MSM_VIDC_CORE_DEINIT = msm_vidc_core_deinit_state"
| "core_handle MSM_VIDC_CORE_INIT_WAIT = msm_vidc_core_init_wait_state"
| "core_handle MSM_VIDC_CORE_INIT = msm_vidc_core_init_state"
| "core_handle MSM_VIDC_CORE_ERROR = msm_vidc_core_error_state"

text \<open>The search in the table of handlers; the result is the entry's state.\<close>

definition msm_vidc_get_core_state_handle :: "msm_vidc_core_state \<Rightarrow> msm_vidc_core_state option" where
  "msm_vidc_get_core_state_handle req_state = List.find (\<lambda>s. s = req_state)
    [MSM_VIDC_CORE_DEINIT, MSM_VIDC_CORE_INIT_WAIT, MSM_VIDC_CORE_INIT, MSM_VIDC_CORE_ERROR]"

section \<open>Changing the state\<close>

definition msm_vidc_update_core_state :: "msm_vidc_core \<Rightarrow> msm_vidc_core_state \<Rightarrow> int \<times> msm_vidc_core" where
  "msm_vidc_update_core_state core request_state =
    (case msm_vidc_get_core_state_handle request_state of
       None \<Rightarrow> (- EINVAL, core)
     | Some state_handle \<Rightarrow> (0, core\<lparr>core_state := state_handle, core_state_handle := Some state_handle\<rparr>))"

definition core_state_table :: "(msm_vidc_core_state \<times> msm_vidc_core_state \<times> msm_vidc_allow) list" where
  "core_state_table =
    [(MSM_VIDC_CORE_DEINIT, MSM_VIDC_CORE_DEINIT, MSM_VIDC_IGNORE),
     (MSM_VIDC_CORE_DEINIT, MSM_VIDC_CORE_INIT_WAIT, MSM_VIDC_ALLOW),
     (MSM_VIDC_CORE_DEINIT, MSM_VIDC_CORE_INIT, MSM_VIDC_DISALLOW),
     (MSM_VIDC_CORE_DEINIT, MSM_VIDC_CORE_ERROR, MSM_VIDC_IGNORE),
     (MSM_VIDC_CORE_INIT_WAIT, MSM_VIDC_CORE_DEINIT, MSM_VIDC_DISALLOW),
     (MSM_VIDC_CORE_INIT_WAIT, MSM_VIDC_CORE_INIT_WAIT, MSM_VIDC_IGNORE),
     (MSM_VIDC_CORE_INIT_WAIT, MSM_VIDC_CORE_INIT, MSM_VIDC_ALLOW),
     (MSM_VIDC_CORE_INIT_WAIT, MSM_VIDC_CORE_ERROR, MSM_VIDC_ALLOW),
     (MSM_VIDC_CORE_INIT, MSM_VIDC_CORE_DEINIT, MSM_VIDC_ALLOW),
     (MSM_VIDC_CORE_INIT, MSM_VIDC_CORE_INIT_WAIT, MSM_VIDC_DISALLOW),
     (MSM_VIDC_CORE_INIT, MSM_VIDC_CORE_INIT, MSM_VIDC_IGNORE),
     (MSM_VIDC_CORE_INIT, MSM_VIDC_CORE_ERROR, MSM_VIDC_ALLOW),
     (MSM_VIDC_CORE_ERROR, MSM_VIDC_CORE_DEINIT, MSM_VIDC_ALLOW),
     (MSM_VIDC_CORE_ERROR, MSM_VIDC_CORE_INIT_WAIT, MSM_VIDC_IGNORE),
     (MSM_VIDC_CORE_ERROR, MSM_VIDC_CORE_INIT, MSM_VIDC_IGNORE),
     (MSM_VIDC_CORE_ERROR, MSM_VIDC_CORE_ERROR, MSM_VIDC_IGNORE)]"

definition msm_vidc_allow_core_state_change :: "msm_vidc_core \<Rightarrow> msm_vidc_core_state \<Rightarrow> msm_vidc_allow" where
  "msm_vidc_allow_core_state_change core req_state =
    (case List.find (\<lambda>(from, to, allow). from = core_state core \<and> to = req_state) core_state_table of
       None \<Rightarrow> MSM_VIDC_DISALLOW
     | Some (from, to, allow) \<Rightarrow> allow)"

definition msm_vidc_change_core_state :: "msm_vidc_core \<Rightarrow> msm_vidc_core_state \<Rightarrow> int \<times> msm_vidc_core" where
  "msm_vidc_change_core_state core request_state =
    (let rc = strict_check core in
     if rc \<noteq> 0 then (rc, core)
     else if core_state core = request_state then (0, core)
     else
      (let allow = msm_vidc_allow_core_state_change core request_state in
       if allow = MSM_VIDC_IGNORE then (0, core)
       else if allow = MSM_VIDC_DISALLOW then (- EINVAL, core)
       else msm_vidc_update_core_state core request_state))"

section \<open>Changing the sub-states\<close>

definition is_core_sub_state :: "msm_vidc_core \<Rightarrow> uint32 \<Rightarrow> bool" where
  "is_core_sub_state core sub_state \<longleftrightarrow> core_sub_state core AND sub_state \<noteq> 0"

text \<open>\<open>None\<close>: a call through a null pointer.\<close>

definition msm_vidc_update_core_sub_state :: "msm_vidc_core \<Rightarrow> uint32 \<Rightarrow> (int \<times> msm_vidc_core) option" where
  "msm_vidc_update_core_sub_state core sub_state =
    (if sub_state = 0 then Some (0, core)
     else map_option (\<lambda>h. core_handle h core CORE_EVENT_UPDATE_SUB_STATE sub_state) (core_state_handle core))"

definition msm_vidc_change_core_sub_state ::
  "msm_vidc_core \<Rightarrow> uint32 \<Rightarrow> uint32 \<Rightarrow> (int \<times> msm_vidc_core) option" where
  "msm_vidc_change_core_sub_state core clear_sub_state set_sub_state =
    (let rc = strict_check core in
     if rc \<noteq> 0 then Some (rc, core)
     else if core_state_handle core = None then Some (- EINVAL, core)
     else if clear_sub_state = set_sub_state then Some (0, core)
     else if set_sub_state > CORE_SUBSTATE_MAX \<or> clear_sub_state > CORE_SUBSTATE_MAX then Some (- EINVAL, core)
     else do {
       (rc, core) \<leftarrow> msm_vidc_update_core_sub_state core set_sub_state;
       if rc \<noteq> 0 then Some (rc, core)
       else Some (0, core\<lparr>core_sub_state := core_sub_state core AND NOT clear_sub_state\<rparr>)
     })"

section \<open>The state machine as a relation\<close>

text \<open>The changes that happen, and those that are refused with an error; all others are ignored.\<close>

fun core_edge :: "msm_vidc_core_state \<Rightarrow> msm_vidc_core_state \<Rightarrow> bool" where
  "core_edge MSM_VIDC_CORE_DEINIT t \<longleftrightarrow> t = MSM_VIDC_CORE_INIT_WAIT"
| "core_edge MSM_VIDC_CORE_INIT_WAIT t \<longleftrightarrow> t = MSM_VIDC_CORE_INIT \<or> t = MSM_VIDC_CORE_ERROR"
| "core_edge MSM_VIDC_CORE_INIT t \<longleftrightarrow> t = MSM_VIDC_CORE_DEINIT \<or> t = MSM_VIDC_CORE_ERROR"
| "core_edge MSM_VIDC_CORE_ERROR t \<longleftrightarrow> t = MSM_VIDC_CORE_DEINIT"

fun core_refused :: "msm_vidc_core_state \<Rightarrow> msm_vidc_core_state \<Rightarrow> bool" where
  "core_refused MSM_VIDC_CORE_DEINIT t \<longleftrightarrow> t = MSM_VIDC_CORE_INIT"
| "core_refused MSM_VIDC_CORE_INIT_WAIT t \<longleftrightarrow> t = MSM_VIDC_CORE_DEINIT"
| "core_refused MSM_VIDC_CORE_INIT t \<longleftrightarrow> t = MSM_VIDC_CORE_INIT_WAIT"
| "core_refused MSM_VIDC_CORE_ERROR t \<longleftrightarrow> False"

definition core_to :: "msm_vidc_core_state \<Rightarrow> msm_vidc_core \<Rightarrow> msm_vidc_core" where
  "core_to t core = core\<lparr>core_state := t, core_state_handle := Some t\<rparr>"

lemma core_to_simps [simp]:
  "core_state (core_to t core) = t" "core_state_handle (core_to t core) = Some t"
  "core_sub_state (core_to t core) = core_sub_state core" "core_lock_held (core_to t core) = core_lock_held core"
  "iface_queues (core_to t core) = iface_queues core"
  by (simp_all add: core_to_def)

lemma update_core_state: "msm_vidc_update_core_state core t = (0, core_to t core)"
  by (cases t) (simp_all add: msm_vidc_update_core_state_def msm_vidc_get_core_state_handle_def core_to_def)

lemma allow_core_state_change:
  "msm_vidc_allow_core_state_change core t =
    (if core_edge (core_state core) t then MSM_VIDC_ALLOW
     else if core_refused (core_state core) t then MSM_VIDC_DISALLOW else MSM_VIDC_IGNORE)"
  by (cases "core_state core"; cases t)
    (simp_all add: msm_vidc_allow_core_state_change_def core_state_table_def)

lemma change_core_state:
  "msm_vidc_change_core_state core t =
    (if \<not> core_lock_held core then (- EINVAL, core)
     else if core_edge (core_state core) t then (0, core_to t core)
     else (if core_refused (core_state core) t then - EINVAL else 0, core))"
proof -
  have no_loop: "core_state core = t \<Longrightarrow> \<not> core_edge (core_state core) t \<and> \<not> core_refused (core_state core) t"
    by (cases t) simp_all
  have "core_edge (core_state core) t \<Longrightarrow> \<not> core_refused (core_state core) t"
    by (cases "core_state core"; cases t) simp_all
  with no_loop show ?thesis
    by (simp add: msm_vidc_change_core_state_def strict_check_def allow_core_state_change update_core_state)
qed

lemma change_core_state_keeps [simp]:
  "core_lock_held (snd (msm_vidc_change_core_state core t)) = core_lock_held core"
  "core_sub_state (snd (msm_vidc_change_core_state core t)) = core_sub_state core"
  by (simp_all add: change_core_state)

lemma core_handle:
  "core_handle h core CORE_EVENT_UPDATE_SUB_STATE v =
    (if v = 0 then (- EINVAL, core) else (0, core\<lparr>core_sub_state := core_sub_state core OR v\<rparr>))"
  by (cases h) (simp_all add: msm_vidc_core_deinit_state_def msm_vidc_core_init_wait_state_def
      msm_vidc_core_init_state_def msm_vidc_core_error_state_def Let_def)

lemma change_core_sub_state:
  "core_state_handle core = Some h \<Longrightarrow>
   msm_vidc_change_core_sub_state core c s = Some
    (if \<not> core_lock_held core then (- EINVAL, core)
     else if c = s then (0, core)
     else if s > CORE_SUBSTATE_MAX \<or> c > CORE_SUBSTATE_MAX then (- EINVAL, core)
     else (0, core\<lparr>core_sub_state := (core_sub_state core OR s) AND NOT c\<rparr>))"
  by (simp add: msm_vidc_change_core_sub_state_def strict_check_def msm_vidc_update_core_sub_state_def
      core_handle)

section \<open>Well-formed cores\<close>

text \<open>
  The handler is the one of the state, the sub-states are those that exist, and the queues and the buffer
  for commands are ready.
\<close>

definition core_ok :: "msm_vidc_core \<Rightarrow> bool" where
  "core_ok core \<longleftrightarrow> core_state_handle core = Some (core_state core) \<and> core_sub_state core < 256
    \<and> hfi_ok core"

lemma hfi_ok_update [simp]:
  "hfi_ok (core\<lparr>core_lock_held := b\<rparr>) = hfi_ok core" "hfi_ok (core\<lparr>core_state := t\<rparr>) = hfi_ok core"
  "hfi_ok (core\<lparr>core_state_handle := h\<rparr>) = hfi_ok core" "hfi_ok (core\<lparr>core_sub_state := x\<rparr>) = hfi_ok core"
  "hfi_ok (core_to t core) = hfi_ok core"
  by (simp_all add: hfi_ok_def queue_view_def core_to_def)

lemma below_256: "(x :: uint32) < 256 \<longleftrightarrow> take_bit 8 x = x"
proof -
  have "take_bit 8 x = x \<longleftrightarrow> take_bit 8 (unat x) = unat x"
    by (simp add: word_unat_eq_iff unsigned_take_bit_eq)
  also have "\<dots> \<longleftrightarrow> unat x < 256" by (simp add: take_bit_nat_eq_self_iff)
  finally show ?thesis by (simp add: word_less_nat_alt)
qed

lemma core_sub_state_bound:
  "x < 256 \<Longrightarrow> s \<le> 128 \<Longrightarrow> (x OR s) AND NOT c < (256 :: uint32)"
proof -
  assume x: "x < 256" and "s \<le> 128"
  then have s: "s < 256" by (simp add: word_le_nat_alt word_less_nat_alt)
  have "take_bit 8 ((x OR s) AND NOT c) = (take_bit 8 (x OR s)) AND (NOT c)"
    by (simp add: bit_eq_iff bit_simps) auto
  also have "take_bit 8 (x OR s) = x OR s" using x s by (simp add: below_256 take_bit_or)
  finally show ?thesis by (simp add: below_256)
qed

lemma core_ok_change_state: "core_ok core \<Longrightarrow> core_ok (snd (msm_vidc_change_core_state core t))"
  by (simp add: change_core_state core_ok_def)

lemma core_ok_change_sub_state:
  assumes "core_ok core" and "msm_vidc_change_core_sub_state core c s = Some (rc, core')"
  shows "core_ok core' \<and> core_state core' = core_state core \<and> core_lock_held core' = core_lock_held core
    \<and> iface_queues core' = iface_queues core"
  using assms core_sub_state_bound [of "core_sub_state core" s c]
  by (auto simp: core_ok_def change_core_sub_state not_less split: if_splits)

lemma change_core_sub_state_defined: "core_ok core \<Longrightarrow> \<exists>rc core'. msm_vidc_change_core_sub_state core c s = Some (rc, core')"
  by (auto simp: core_ok_def change_core_sub_state)

end
