(* ===== verification/Vidc_Inst_State.thy ===== *)
theory Vidc_Inst_State
  imports Vidc_Core_State Vidc_Hfi_Types
begin

text \<open>
  The state machine of a session (\<open>struct msm_vidc_inst\<close>): the second half of \<open>msm_vidc_state.c\<close>.  A
  session has a state, which says which of its two ports stream, and sub-states for the sequences of
  dynamic resolution change (DRC) and drain.
\<close>

section \<open>Types\<close>

datatype msm_vidc_state =
  MSM_VIDC_OPEN | MSM_VIDC_INPUT_STREAMING | MSM_VIDC_OUTPUT_STREAMING | MSM_VIDC_STREAMING
  | MSM_VIDC_CLOSE | MSM_VIDC_ERROR

abbreviation (input) MSM_VIDC_DRAIN :: uint32 where "MSM_VIDC_DRAIN \<equiv> 1"
abbreviation (input) MSM_VIDC_DRC :: uint32 where "MSM_VIDC_DRC \<equiv> 2"
abbreviation (input) MSM_VIDC_DRAIN_LAST_BUFFER :: uint32 where "MSM_VIDC_DRAIN_LAST_BUFFER \<equiv> 4"
abbreviation (input) MSM_VIDC_DRC_LAST_BUFFER :: uint32 where "MSM_VIDC_DRC_LAST_BUFFER \<equiv> 8"
abbreviation (input) MSM_VIDC_INPUT_PAUSE :: uint32 where "MSM_VIDC_INPUT_PAUSE \<equiv> 16"
abbreviation (input) MSM_VIDC_OUTPUT_PAUSE :: uint32 where "MSM_VIDC_OUTPUT_PAUSE \<equiv> 32"
abbreviation (input) MSM_VIDC_FIRST_IPSC :: uint32 where "MSM_VIDC_FIRST_IPSC \<equiv> 64"

text \<open>\<open>(1 << MSM_VIDC_MAX_SUB_STATES) - 1\<close>, for seven sub-states\<close>

definition MSM_VIDC_MAX_SUB_STATE_VALUE :: uint32 where "MSM_VIDC_MAX_SUB_STATE_VALUE = 2 ^ 7 - 1"

text \<open>The types of the queues and formats of V4L2 that the driver knows by name, and any other.\<close>

datatype v4l2_type = INPUT_MPLANE | OUTPUT_MPLANE | INPUT_META_PLANE | OUTPUT_META_PLANE | OTHER_TYPE nat

text \<open>Events, with the part of their data that the handlers look at.\<close>

datatype msm_vidc_event =
  MSM_VIDC_TRY_FMT v4l2_type | MSM_VIDC_S_FMT v4l2_type | MSM_VIDC_REQBUFS v4l2_type | MSM_VIDC_S_CTRL uint32
  | MSM_VIDC_STREAMON v4l2_type | MSM_VIDC_STREAMOFF v4l2_type | MSM_VIDC_CMD_START | MSM_VIDC_CMD_STOP
  | MSM_VIDC_BUF_QUEUE msm_vidc_buffer_type

abbreviation (input) EBUSY :: int where "EBUSY \<equiv> 16"

text \<open>The fields of the session; \<open>event_handle\<close> is the state whose handler it points to.\<close>

record msm_vidc_inst =
  inst_locked :: bool
  inst_domain :: uint32
  inst_state :: msm_vidc_state
  event_handle :: "msm_vidc_state option"
  inst_sub_state :: uint32
  inst_session_id :: uint32

text \<open>What the handlers call.  The calls get the session and return a code and the session.\<close>

record 'w inst_calls =
  try_fmt_call :: "'w \<Rightarrow> msm_vidc_inst \<Rightarrow> v4l2_type \<Rightarrow> int \<times> msm_vidc_inst \<times> 'w"
  s_fmt_call :: "'w \<Rightarrow> msm_vidc_inst \<Rightarrow> v4l2_type \<Rightarrow> int \<times> msm_vidc_inst \<times> 'w"
  reqbufs_call :: "'w \<Rightarrow> msm_vidc_inst \<Rightarrow> v4l2_type \<Rightarrow> int \<times> msm_vidc_inst \<times> 'w"
  s_ctrl_call :: "'w \<Rightarrow> msm_vidc_inst \<Rightarrow> uint32 \<Rightarrow> int \<times> msm_vidc_inst \<times> 'w"
  start_streaming_call :: "'w \<Rightarrow> msm_vidc_inst \<Rightarrow> v4l2_type \<Rightarrow> int \<times> msm_vidc_inst \<times> 'w"
  stop_streaming_call :: "'w \<Rightarrow> msm_vidc_inst \<Rightarrow> v4l2_type \<Rightarrow> int \<times> msm_vidc_inst \<times> 'w"
  start_cmd_call :: "'w \<Rightarrow> msm_vidc_inst \<Rightarrow> int \<times> msm_vidc_inst \<times> 'w"
  stop_cmd_call :: "'w \<Rightarrow> msm_vidc_inst \<Rightarrow> int \<times> msm_vidc_inst \<times> 'w"
  buf_queue_call :: "'w \<Rightarrow> msm_vidc_inst \<Rightarrow> msm_vidc_buffer_type \<Rightarrow> int \<times> msm_vidc_inst \<times> 'w"
  cap_id_of :: "'w \<Rightarrow> uint32 \<Rightarrow> uint32"
  cap_dynamic_allowed :: "'w \<Rightarrow> uint32 \<Rightarrow> bool"

section \<open>Queries\<close>

definition is_state :: "msm_vidc_inst \<Rightarrow> msm_vidc_state \<Rightarrow> bool" where
  "is_state inst state \<longleftrightarrow> inst_state inst = state"

definition is_sub_state :: "msm_vidc_inst \<Rightarrow> uint32 \<Rightarrow> bool" where
  "is_sub_state inst sub_state \<longleftrightarrow> inst_sub_state inst AND sub_state \<noteq> 0"

definition is_drc_pending :: "msm_vidc_inst \<Rightarrow> bool" where
  "is_drc_pending inst \<longleftrightarrow> is_sub_state inst MSM_VIDC_DRC \<and> is_sub_state inst MSM_VIDC_DRC_LAST_BUFFER"

definition is_drain_pending :: "msm_vidc_inst \<Rightarrow> bool" where
  "is_drain_pending inst \<longleftrightarrow> is_sub_state inst MSM_VIDC_DRAIN \<and> is_sub_state inst MSM_VIDC_DRAIN_LAST_BUFFER"

definition is_decode_session :: "msm_vidc_inst \<Rightarrow> bool" where
  "is_decode_session inst \<longleftrightarrow> inst_domain inst = MSM_VIDC_DECODER"

definition is_encode_session :: "msm_vidc_inst \<Rightarrow> bool" where
  "is_encode_session inst \<longleftrightarrow> inst_domain inst = MSM_VIDC_ENCODER"

definition is_session_error :: "msm_vidc_inst \<Rightarrow> bool" where
  "is_session_error inst \<longleftrightarrow> inst_state inst = MSM_VIDC_ERROR"

definition strict_inst_check :: "msm_vidc_inst \<Rightarrow> int" where
  "strict_inst_check inst = (if inst_locked inst then 0 else - EINVAL)"

section \<open>Changing the state\<close>

definition msm_vidc_get_state_handle :: "msm_vidc_state \<Rightarrow> msm_vidc_state option" where
  "msm_vidc_get_state_handle req_state = List.find (\<lambda>s. s = req_state)
    [MSM_VIDC_OPEN, MSM_VIDC_INPUT_STREAMING, MSM_VIDC_OUTPUT_STREAMING, MSM_VIDC_STREAMING, MSM_VIDC_CLOSE,
     MSM_VIDC_ERROR]"

definition msm_vidc_update_state :: "msm_vidc_inst \<Rightarrow> msm_vidc_state \<Rightarrow> int \<times> msm_vidc_inst" where
  "msm_vidc_update_state inst request_state =
    (case msm_vidc_get_state_handle request_state of
       None \<Rightarrow> (- EINVAL, inst)
     | Some state_handle \<Rightarrow> (0, inst\<lparr>inst_state := state_handle, event_handle := Some state_handle\<rparr>))"

definition state_table :: "(msm_vidc_state \<times> msm_vidc_state \<times> msm_vidc_allow) list" where
  "state_table =
    [(MSM_VIDC_OPEN, MSM_VIDC_OPEN, MSM_VIDC_IGNORE),
     (MSM_VIDC_OPEN, MSM_VIDC_INPUT_STREAMING, MSM_VIDC_ALLOW),
     (MSM_VIDC_OPEN, MSM_VIDC_OUTPUT_STREAMING, MSM_VIDC_ALLOW),
     (MSM_VIDC_OPEN, MSM_VIDC_STREAMING, MSM_VIDC_DISALLOW),
     (MSM_VIDC_OPEN, MSM_VIDC_CLOSE, MSM_VIDC_ALLOW),
     (MSM_VIDC_OPEN, MSM_VIDC_ERROR, MSM_VIDC_ALLOW),

     (MSM_VIDC_INPUT_STREAMING, MSM_VIDC_OPEN, MSM_VIDC_ALLOW),
     (MSM_VIDC_INPUT_STREAMING, MSM_VIDC_INPUT_STREAMING, MSM_VIDC_IGNORE),
     (MSM_VIDC_INPUT_STREAMING, MSM_VIDC_OUTPUT_STREAMING, MSM_VIDC_DISALLOW),
     (MSM_VIDC_INPUT_STREAMING, MSM_VIDC_STREAMING, MSM_VIDC_ALLOW),
     (MSM_VIDC_INPUT_STREAMING, MSM_VIDC_CLOSE, MSM_VIDC_ALLOW),
     (MSM_VIDC_INPUT_STREAMING, MSM_VIDC_ERROR, MSM_VIDC_ALLOW),

     (MSM_VIDC_OUTPUT_STREAMING, MSM_VIDC_OPEN, MSM_VIDC_ALLOW),
     (MSM_VIDC_OUTPUT_STREAMING, MSM_VIDC_INPUT_STREAMING, MSM_VIDC_DISALLOW),
     (MSM_VIDC_OUTPUT_STREAMING, MSM_VIDC_OUTPUT_STREAMING, MSM_VIDC_IGNORE),
     (MSM_VIDC_OUTPUT_STREAMING, MSM_VIDC_STREAMING, MSM_VIDC_ALLOW),
     (MSM_VIDC_OUTPUT_STREAMING, MSM_VIDC_CLOSE, MSM_VIDC_ALLOW),
     (MSM_VIDC_OUTPUT_STREAMING, MSM_VIDC_ERROR, MSM_VIDC_ALLOW),

     (MSM_VIDC_STREAMING, MSM_VIDC_OPEN, MSM_VIDC_DISALLOW),
     (MSM_VIDC_STREAMING, MSM_VIDC_INPUT_STREAMING, MSM_VIDC_ALLOW),
     (MSM_VIDC_STREAMING, MSM_VIDC_OUTPUT_STREAMING, MSM_VIDC_ALLOW),
     (MSM_VIDC_STREAMING, MSM_VIDC_STREAMING, MSM_VIDC_IGNORE),
     (MSM_VIDC_STREAMING, MSM_VIDC_CLOSE, MSM_VIDC_ALLOW),
     (MSM_VIDC_STREAMING, MSM_VIDC_ERROR, MSM_VIDC_ALLOW),

     (MSM_VIDC_CLOSE, MSM_VIDC_OPEN, MSM_VIDC_DISALLOW),
     (MSM_VIDC_CLOSE, MSM_VIDC_INPUT_STREAMING, MSM_VIDC_DISALLOW),
     (MSM_VIDC_CLOSE, MSM_VIDC_OUTPUT_STREAMING, MSM_VIDC_DISALLOW),
     (MSM_VIDC_CLOSE, MSM_VIDC_STREAMING, MSM_VIDC_DISALLOW),
     (MSM_VIDC_CLOSE, MSM_VIDC_CLOSE, MSM_VIDC_IGNORE),
     (MSM_VIDC_CLOSE, MSM_VIDC_ERROR, MSM_VIDC_IGNORE),

     (MSM_VIDC_ERROR, MSM_VIDC_OPEN, MSM_VIDC_IGNORE),
     (MSM_VIDC_ERROR, MSM_VIDC_INPUT_STREAMING, MSM_VIDC_IGNORE),
     (MSM_VIDC_ERROR, MSM_VIDC_OUTPUT_STREAMING, MSM_VIDC_IGNORE),
     (MSM_VIDC_ERROR, MSM_VIDC_STREAMING, MSM_VIDC_IGNORE),
     (MSM_VIDC_ERROR, MSM_VIDC_CLOSE, MSM_VIDC_IGNORE),
     (MSM_VIDC_ERROR, MSM_VIDC_ERROR, MSM_VIDC_IGNORE)]"

definition msm_vidc_allow_state_change :: "msm_vidc_inst \<Rightarrow> msm_vidc_state \<Rightarrow> msm_vidc_allow" where
  "msm_vidc_allow_state_change inst req_state =
    (case List.find (\<lambda>(from, to, allow). from = inst_state inst \<and> to = req_state) state_table of
       None \<Rightarrow> MSM_VIDC_DISALLOW
     | Some (from, to, allow) \<Rightarrow> allow)"

definition msm_vidc_change_state :: "msm_vidc_inst \<Rightarrow> msm_vidc_state \<Rightarrow> int \<times> msm_vidc_inst" where
  "msm_vidc_change_state inst request_state =
    (if is_session_error inst then (0, inst)
     else if inst_state inst = request_state then (0, inst)
     else
      (let allow = msm_vidc_allow_state_change inst request_state in
       if allow \<noteq> MSM_VIDC_ALLOW then (if allow = MSM_VIDC_DISALLOW then - EINVAL else 0, inst)
       else msm_vidc_update_state inst request_state))"

section \<open>Changing the sub-states\<close>

definition sub_state_table :: "(msm_vidc_state \<times> msm_vidc_allow \<times> uint32) list" where
  "sub_state_table =
    [(MSM_VIDC_OPEN, MSM_VIDC_DISALLOW,
        MSM_VIDC_DRC OR MSM_VIDC_DRAIN OR MSM_VIDC_DRC_LAST_BUFFER OR MSM_VIDC_DRAIN_LAST_BUFFER
        OR MSM_VIDC_INPUT_PAUSE OR MSM_VIDC_OUTPUT_PAUSE),
     (MSM_VIDC_INPUT_STREAMING, MSM_VIDC_DISALLOW,
        MSM_VIDC_DRC_LAST_BUFFER OR MSM_VIDC_DRAIN_LAST_BUFFER OR MSM_VIDC_OUTPUT_PAUSE),
     (MSM_VIDC_INPUT_STREAMING, MSM_VIDC_ALLOW,
        MSM_VIDC_DRC OR MSM_VIDC_DRAIN OR MSM_VIDC_INPUT_PAUSE OR MSM_VIDC_FIRST_IPSC),
     (MSM_VIDC_OUTPUT_STREAMING, MSM_VIDC_DISALLOW,
        MSM_VIDC_DRC OR MSM_VIDC_DRAIN OR MSM_VIDC_INPUT_PAUSE),
     (MSM_VIDC_OUTPUT_STREAMING, MSM_VIDC_ALLOW,
        MSM_VIDC_DRC_LAST_BUFFER OR MSM_VIDC_DRAIN_LAST_BUFFER OR MSM_VIDC_OUTPUT_PAUSE),
     (MSM_VIDC_STREAMING, MSM_VIDC_ALLOW,
        MSM_VIDC_DRC OR MSM_VIDC_DRAIN OR MSM_VIDC_DRC_LAST_BUFFER OR MSM_VIDC_DRAIN_LAST_BUFFER
        OR MSM_VIDC_INPUT_PAUSE OR MSM_VIDC_OUTPUT_PAUSE),
     (MSM_VIDC_CLOSE, MSM_VIDC_ALLOW,
        MSM_VIDC_DRC OR MSM_VIDC_DRAIN OR MSM_VIDC_DRC_LAST_BUFFER OR MSM_VIDC_DRAIN_LAST_BUFFER
        OR MSM_VIDC_INPUT_PAUSE OR MSM_VIDC_OUTPUT_PAUSE),
     (MSM_VIDC_ERROR, MSM_VIDC_ALLOW,
        MSM_VIDC_DRC OR MSM_VIDC_DRAIN OR MSM_VIDC_DRC_LAST_BUFFER OR MSM_VIDC_DRAIN_LAST_BUFFER
        OR MSM_VIDC_INPUT_PAUSE OR MSM_VIDC_OUTPUT_PAUSE)]"

text \<open>
  The three passes over the table: refuse if one sub-state is disallowed, take away those to be ignored
  (of the first entry that has some), refuse if one is left that an entry does not allow.
\<close>

definition msm_vidc_set_sub_state :: "msm_vidc_inst \<Rightarrow> uint32 \<Rightarrow> int \<times> msm_vidc_inst" where
  "msm_vidc_set_sub_state inst sub_state =
    (let masks = (\<lambda>allow. [m. (s, a, m) \<leftarrow> sub_state_table, s = inst_state inst, a = allow]) in
     if sub_state = 0 then (0, inst)
     else if \<exists>m \<in> set (masks MSM_VIDC_DISALLOW). m AND sub_state \<noteq> 0 then (- EINVAL, inst)
     else
      (let sub_state =
         (case List.find (\<lambda>m. m AND sub_state \<noteq> 0) (masks MSM_VIDC_IGNORE) of
            None \<Rightarrow> sub_state
          | Some m \<Rightarrow> sub_state AND NOT (m AND sub_state)) in
       if \<exists>m \<in> set (masks MSM_VIDC_ALLOW). m AND sub_state \<noteq> sub_state then (- EINVAL, inst)
       else (0, inst\<lparr>inst_sub_state := inst_sub_state inst OR sub_state\<rparr>)))"

definition msm_vidc_change_sub_state :: "msm_vidc_inst \<Rightarrow> uint32 \<Rightarrow> uint32 \<Rightarrow> int \<times> msm_vidc_inst" where
  "msm_vidc_change_sub_state inst clear_sub_state set_sub_state =
    (if is_session_error inst then (0, inst)
     else if clear_sub_state = 0 \<and> set_sub_state = 0 then (0, inst)
     else if clear_sub_state AND set_sub_state \<noteq> 0 \<or> set_sub_state > MSM_VIDC_MAX_SUB_STATE_VALUE
       \<or> clear_sub_state > MSM_VIDC_MAX_SUB_STATE_VALUE then (- EINVAL, inst)
     else
      (let (rc, inst) = msm_vidc_set_sub_state inst set_sub_state in
       if rc \<noteq> 0 then (rc, inst)
       else (0, inst\<lparr>inst_sub_state := inst_sub_state inst AND NOT clear_sub_state\<rparr>)))"

section \<open>The state machine as a relation\<close>

text \<open>
  The two ports of a state.  A session changes one port at a time, and from every state with ports it can
  be closed or fail; a closed or failed session stays as it is.
\<close>

fun ports_of :: "msm_vidc_state \<Rightarrow> (bool \<times> bool) option" where
  "ports_of MSM_VIDC_OPEN = Some (False, False)"
| "ports_of MSM_VIDC_INPUT_STREAMING = Some (True, False)"
| "ports_of MSM_VIDC_OUTPUT_STREAMING = Some (False, True)"
| "ports_of MSM_VIDC_STREAMING = Some (True, True)"
| "ports_of MSM_VIDC_CLOSE = None"
| "ports_of MSM_VIDC_ERROR = None"

fun inst_edge :: "msm_vidc_state \<Rightarrow> msm_vidc_state \<Rightarrow> bool" where
  "inst_edge s t \<longleftrightarrow>
    (case ports_of s of
       None \<Rightarrow> False
     | Some (i, j) \<Rightarrow> (case ports_of t of None \<Rightarrow> True | Some (i', j') \<Rightarrow> (i = i') \<noteq> (j = j')))"

definition inst_refused :: "msm_vidc_state \<Rightarrow> msm_vidc_state \<Rightarrow> bool" where
  "inst_refused s t \<longleftrightarrow>
    s \<noteq> MSM_VIDC_ERROR \<and> ports_of t \<noteq> None \<and> ports_of s \<noteq> ports_of t \<and> \<not> inst_edge s t"

declare inst_edge.simps [simp del]

definition inst_to :: "msm_vidc_state \<Rightarrow> msm_vidc_inst \<Rightarrow> msm_vidc_inst" where
  "inst_to t inst = inst\<lparr>inst_state := t, event_handle := Some t\<rparr>"

lemma inst_to_simps [simp]:
  "inst_state (inst_to t inst) = t" "event_handle (inst_to t inst) = Some t"
  "inst_sub_state (inst_to t inst) = inst_sub_state inst" "inst_locked (inst_to t inst) = inst_locked inst"
  "inst_domain (inst_to t inst) = inst_domain inst" "inst_session_id (inst_to t inst) = inst_session_id inst"
  by (simp_all add: inst_to_def)

lemma update_state: "msm_vidc_update_state inst t = (0, inst_to t inst)"
  by (cases t) (simp_all add: msm_vidc_update_state_def msm_vidc_get_state_handle_def inst_to_def)

lemma allow_state_change:
  "msm_vidc_allow_state_change inst t =
    (if inst_edge (inst_state inst) t then MSM_VIDC_ALLOW
     else if inst_refused (inst_state inst) t then MSM_VIDC_DISALLOW else MSM_VIDC_IGNORE)"
  by (cases "inst_state inst"; cases t)
    (simp_all add: msm_vidc_allow_state_change_def state_table_def inst_edge.simps inst_refused_def)

lemma change_state:
  "msm_vidc_change_state inst t =
    (if inst_edge (inst_state inst) t then (0, inst_to t inst)
     else (if inst_refused (inst_state inst) t then - EINVAL else 0, inst))"
proof -
  have no_loop: "\<not> inst_edge t t \<and> \<not> inst_refused t t" for t
    by (cases t) (simp_all add: inst_edge.simps inst_refused_def)
  have err: "\<not> inst_edge MSM_VIDC_ERROR t \<and> \<not> inst_refused MSM_VIDC_ERROR t"
    by (simp add: inst_edge.simps inst_refused_def)
  have excl: "inst_edge s t \<Longrightarrow> \<not> inst_refused s t" for s by (simp add: inst_refused_def)
  show ?thesis
    using no_loop err excl
    by (auto simp: msm_vidc_change_state_def is_session_error_def allow_state_change update_state)
qed

lemma change_state_keeps [simp]:
  "inst_locked (snd (msm_vidc_change_state inst t)) = inst_locked inst"
  "inst_sub_state (snd (msm_vidc_change_state inst t)) = inst_sub_state inst"
  "inst_domain (snd (msm_vidc_change_state inst t)) = inst_domain inst"
  "inst_session_id (snd (msm_vidc_change_state inst t)) = inst_session_id inst"
  by (simp_all add: change_state)

text \<open>An error can be recorded at any time, and only a closed session ignores it.\<close>

lemma change_to_error:
  "msm_vidc_change_state inst MSM_VIDC_ERROR =
    (0, if inst_state inst = MSM_VIDC_CLOSE \<or> inst_state inst = MSM_VIDC_ERROR then inst
        else inst_to MSM_VIDC_ERROR inst)"
  by (cases "inst_state inst") (simp_all add: change_state inst_edge.simps inst_refused_def)

section \<open>The sub-states as bits\<close>

lemma sub_bits [simp]:
  "(x :: uint32) AND 1 = 0 \<longleftrightarrow> \<not> bit x 0" "x AND 2 = 0 \<longleftrightarrow> \<not> bit x (Suc 0)" "x AND 4 = 0 \<longleftrightarrow> \<not> bit x 2"
  "x AND 8 = 0 \<longleftrightarrow> \<not> bit x 3" "x AND 16 = 0 \<longleftrightarrow> \<not> bit x 4" "x AND 32 = 0 \<longleftrightarrow> \<not> bit x 5"
  "x AND 64 = 0 \<longleftrightarrow> \<not> bit x 6"
  using and_exp_eq_0_iff_not_bit [of x 0] and_exp_eq_0_iff_not_bit [of x 1] and_exp_eq_0_iff_not_bit [of x 2]
    and_exp_eq_0_iff_not_bit [of x 3] and_exp_eq_0_iff_not_bit [of x 4] and_exp_eq_0_iff_not_bit [of x 5]
    and_exp_eq_0_iff_not_bit [of x 6]
  by simp_all

lemma below_128: "(x :: uint32) < 128 \<longleftrightarrow> take_bit 7 x = x"
proof -
  have "take_bit 7 x = x \<longleftrightarrow> take_bit 7 (unat x) = unat x"
    by (simp add: word_unat_eq_iff unsigned_take_bit_eq)
  also have "\<dots> \<longleftrightarrow> unat x < 128" by (simp add: take_bit_nat_eq_self_iff)
  finally show ?thesis by (simp add: word_less_nat_alt)
qed

lemma sub_state_value: "(x :: uint32) > MSM_VIDC_MAX_SUB_STATE_VALUE \<longleftrightarrow> \<not> x < 128"
  by (simp add: MSM_VIDC_MAX_SUB_STATE_VALUE_def word_less_nat_alt linorder_not_less word_le_nat_alt) linarith

text \<open>The sub-states that a state lets be set.\<close>

fun settable :: "msm_vidc_state \<Rightarrow> uint32" where
  "settable MSM_VIDC_OPEN = MSM_VIDC_FIRST_IPSC"
| "settable MSM_VIDC_INPUT_STREAMING = MSM_VIDC_DRC OR MSM_VIDC_DRAIN OR MSM_VIDC_INPUT_PAUSE OR MSM_VIDC_FIRST_IPSC"
| "settable MSM_VIDC_OUTPUT_STREAMING = MSM_VIDC_DRC_LAST_BUFFER OR MSM_VIDC_DRAIN_LAST_BUFFER OR MSM_VIDC_OUTPUT_PAUSE"
| "settable s = 63"

lemma within_iff: "(m AND s = s) \<longleftrightarrow> s AND NOT m = (0 :: uint32)"
  by (auto simp: bit_eq_iff bit_simps)

lemma outside: "d AND m = 0 \<Longrightarrow> s AND NOT m = 0 \<Longrightarrow> d AND s = (0 :: uint32)"
  by (auto simp: bit_eq_iff bit_simps)

lemma set_sub_state:
  assumes "s < 128"
  shows "msm_vidc_set_sub_state inst s =
    (if s AND NOT (settable (inst_state inst)) \<noteq> 0 then (- EINVAL, inst)
     else (0, inst\<lparr>inst_sub_state := inst_sub_state inst OR s\<rparr>))"
proof -
  have "s AND NOT 64 = (s AND 127) AND NOT 64"
    using assms by (simp add: below_128 take_bit_eq_mask mask_numeral)
  also have "\<dots> = s AND (127 AND NOT 64)" by (simp only: and.assoc)
  finally have op: "s AND NOT 64 = 63 AND s" by (simp add: and.commute)
  note out = outside [of 44 83 s] outside [of 19 44 s]
  show ?thesis
    using op out
    by (cases "inst_state inst") (auto simp: msm_vidc_set_sub_state_def sub_state_table_def within_iff Let_def)
qed

lemma change_sub_state:
  "msm_vidc_change_sub_state inst c s =
    (if inst_state inst = MSM_VIDC_ERROR \<or> c = 0 \<and> s = 0 then (0, inst)
     else if c AND s \<noteq> 0 \<or> \<not> s < 128 \<or> \<not> c < 128 \<or> s AND NOT (settable (inst_state inst)) \<noteq> 0 then (- EINVAL, inst)
     else (0, inst\<lparr>inst_sub_state := (inst_sub_state inst OR s) AND NOT c\<rparr>))"
  by (simp add: msm_vidc_change_sub_state_def is_session_error_def sub_state_value set_sub_state)

lemma change_sub_state_keeps [simp]:
  "inst_state (snd (msm_vidc_change_sub_state inst c s)) = inst_state inst"
  "event_handle (snd (msm_vidc_change_sub_state inst c s)) = event_handle inst"
  "inst_locked (snd (msm_vidc_change_sub_state inst c s)) = inst_locked inst"
  "inst_domain (snd (msm_vidc_change_sub_state inst c s)) = inst_domain inst"
  "inst_session_id (snd (msm_vidc_change_sub_state inst c s)) = inst_session_id inst"
  by (simp_all add: change_sub_state)

text \<open>What is never set needs no clearing: clearing alone always succeeds.\<close>

lemma clear_sub_state: "c < 128 \<Longrightarrow> fst (msm_vidc_change_sub_state inst c 0) = 0"
  by (simp add: change_sub_state)

section \<open>Well-formed sessions\<close>

text \<open>
  The handler is the one of the state, the sub-states are those that exist, and the last buffer of a
  resolution change or a drain is only seen while the sequence is under way.
\<close>

definition subs_ok :: "uint32 \<Rightarrow> bool" where
  "subs_ok x \<longleftrightarrow> x < 128 \<and> (bit x 3 \<longrightarrow> bit x 1) \<and> (bit x 2 \<longrightarrow> bit x 0)"

definition inst_ok :: "msm_vidc_inst \<Rightarrow> bool" where
  "inst_ok inst \<longleftrightarrow> event_handle inst = Some (inst_state inst) \<and> subs_ok (inst_sub_state inst)"

lemma inst_ok_change_state: "inst_ok inst \<Longrightarrow> inst_ok (snd (msm_vidc_change_state inst t))"
  by (simp add: change_state inst_ok_def)

lemma subs_below: "x < 128 \<Longrightarrow> s < 128 \<Longrightarrow> (x OR s) AND NOT c < (128 :: uint32)"
proof -
  assume x: "x < 128" and s: "s < 128"
  have "take_bit 7 ((x OR s) AND NOT c) = (take_bit 7 (x OR s)) AND (NOT c)"
    by (simp add: bit_eq_iff bit_simps) auto
  also have "take_bit 7 (x OR s) = x OR s" using x s by (simp add: below_128 take_bit_or)
  finally show ?thesis by (simp add: below_128)
qed

lemma subs_ok_change:
  assumes "subs_ok x" and "s < 128" and "bit s 3 \<Longrightarrow> bit x 1" and "bit s 2 \<Longrightarrow> bit x 0"
    and "bit c 1 \<Longrightarrow> bit c 3" and "bit c 0 \<Longrightarrow> bit c 2"
  shows "subs_ok ((x OR s) AND NOT c)"
  using assms subs_below [of x s c] unfolding subs_ok_def by (auto simp: bit_simps)

lemma inst_ok_change_sub_state:
  assumes "inst_ok inst" and "bit s 3 \<Longrightarrow> bit (inst_sub_state inst) 1" and "bit s 2 \<Longrightarrow> bit (inst_sub_state inst) 0"
    and "bit c 1 \<Longrightarrow> bit c 3" and "bit c 0 \<Longrightarrow> bit c 2"
  shows "inst_ok (snd (msm_vidc_change_sub_state inst c s))"
proof -
  have "s < 128 \<Longrightarrow> subs_ok ((inst_sub_state inst OR s) AND NOT c)"
    using assms by (intro subs_ok_change) (simp_all add: inst_ok_def)
  with assms(1) show ?thesis by (simp add: change_sub_state inst_ok_def)
qed

end
