(* ===== verification/Vidc_Inst_Events.thy ===== *)
theory Vidc_Inst_Events
  imports Vidc_Inst_State
begin

text \<open>
  The event handlers of the states of a session: \<open>msm_vidc_open_state\<close> to \<open>msm_vidc_error_state\<close> of
  \<open>msm_vidc_state.c\<close>.  A handler is called with the session locked.
\<close>

definition INST_CAP_NONE :: uint32 where "INST_CAP_NONE = 0"

definition is_input_buffer :: "msm_vidc_buffer_type \<Rightarrow> bool" where
  "is_input_buffer t \<longleftrightarrow> t = MSM_VIDC_BUF_INPUT"

definition is_output_buffer :: "msm_vidc_buffer_type \<Rightarrow> bool" where
  "is_output_buffer t \<longleftrightarrow> t = MSM_VIDC_BUF_OUTPUT"

type_synonym 'w handler = "'w inst_calls \<Rightarrow> 'w \<Rightarrow> msm_vidc_inst \<Rightarrow> msm_vidc_event \<Rightarrow> int \<times> msm_vidc_inst \<times> 'w"

definition msm_vidc_open_state :: "'w handler" where
  "msm_vidc_open_state cs w inst event =
    (if strict_inst_check inst \<noteq> 0 then (- EINVAL, inst, w)
     else case event of
       MSM_VIDC_TRY_FMT f \<Rightarrow> try_fmt_call cs w inst f
     | MSM_VIDC_S_FMT f \<Rightarrow> s_fmt_call cs w inst f
     | MSM_VIDC_S_CTRL ctrl \<Rightarrow> s_ctrl_call cs w inst ctrl
     | MSM_VIDC_REQBUFS b \<Rightarrow> reqbufs_call cs w inst b
     | MSM_VIDC_STREAMON q \<Rightarrow> start_streaming_call cs w inst q
     | MSM_VIDC_STREAMOFF q \<Rightarrow> (0, inst, w)
     | MSM_VIDC_CMD_START \<Rightarrow> (- EBUSY, inst, w)
     | MSM_VIDC_CMD_STOP \<Rightarrow> (0, inst, w)
     | MSM_VIDC_BUF_QUEUE buf \<Rightarrow> (0, inst, w))"

definition msm_vidc_input_streaming_state :: "'w handler" where
  "msm_vidc_input_streaming_state cs w inst event =
    (if strict_inst_check inst \<noteq> 0 then (- EINVAL, inst, w)
     else case event of
       MSM_VIDC_BUF_QUEUE buf \<Rightarrow>
         if buf = MSM_VIDC_BUF_INPUT_META \<or> buf = MSM_VIDC_BUF_OUTPUT_META then (0, inst, w)
         else if \<not> is_input_buffer buf \<and> \<not> is_output_buffer buf then (- EINVAL, inst, w)
         else if is_output_buffer buf then (0, inst, w)
         else buf_queue_call cs w inst buf
     | MSM_VIDC_TRY_FMT f \<Rightarrow>
         if f = INPUT_MPLANE \<or> f = INPUT_META_PLANE then (- EBUSY, inst, w) else try_fmt_call cs w inst f
     | MSM_VIDC_S_FMT f \<Rightarrow>
         if f = INPUT_MPLANE \<or> f = INPUT_META_PLANE then (- EBUSY, inst, w) else s_fmt_call cs w inst f
     | MSM_VIDC_S_CTRL ctrl \<Rightarrow>
         let cap_id = cap_id_of cs w ctrl in
         if cap_id = INST_CAP_NONE then (- EINVAL, inst, w)
         else if is_decode_session inst \<and> \<not> cap_dynamic_allowed cs w cap_id then (- EINVAL, inst, w)
         else s_ctrl_call cs w inst ctrl
     | MSM_VIDC_REQBUFS b \<Rightarrow>
         if b = INPUT_MPLANE \<or> b = INPUT_META_PLANE then (- EBUSY, inst, w) else reqbufs_call cs w inst b
     | MSM_VIDC_STREAMON q \<Rightarrow>
         if q = INPUT_MPLANE \<or> q = INPUT_META_PLANE then (- EBUSY, inst, w) else start_streaming_call cs w inst q
     | MSM_VIDC_STREAMOFF q \<Rightarrow>
         if q = OUTPUT_MPLANE \<or> q = OUTPUT_META_PLANE then (0, inst, w)
         else if q = INPUT_META_PLANE then (- EINVAL, inst, w)
         else if q \<noteq> INPUT_MPLANE then (- EINVAL, inst, w)
         else stop_streaming_call cs w inst q
     | MSM_VIDC_CMD_START \<Rightarrow>
         if \<not> is_drc_pending inst \<and> \<not> is_drain_pending inst then (- EBUSY, inst, w) else start_cmd_call cs w inst
     | MSM_VIDC_CMD_STOP \<Rightarrow>
         if is_sub_state inst MSM_VIDC_DRAIN then (- EBUSY, inst, w) else stop_cmd_call cs w inst)"

definition msm_vidc_output_streaming_state :: "'w handler" where
  "msm_vidc_output_streaming_state cs w inst event =
    (if strict_inst_check inst \<noteq> 0 then (- EINVAL, inst, w)
     else case event of
       MSM_VIDC_BUF_QUEUE buf \<Rightarrow>
         if buf = MSM_VIDC_BUF_INPUT_META \<or> buf = MSM_VIDC_BUF_OUTPUT_META then (0, inst, w)
         else if \<not> is_input_buffer buf \<and> \<not> is_output_buffer buf then (- EINVAL, inst, w)
         else if is_input_buffer buf then (0, inst, w)
         else buf_queue_call cs w inst buf
     | MSM_VIDC_TRY_FMT f \<Rightarrow>
         if f = OUTPUT_MPLANE \<or> f = OUTPUT_META_PLANE then (- EBUSY, inst, w) else try_fmt_call cs w inst f
     | MSM_VIDC_S_FMT f \<Rightarrow>
         if f = OUTPUT_MPLANE \<or> f = OUTPUT_META_PLANE then (- EBUSY, inst, w) else s_fmt_call cs w inst f
     | MSM_VIDC_S_CTRL ctrl \<Rightarrow>
         let cap_id = cap_id_of cs w ctrl in
         if cap_id = INST_CAP_NONE then (- EINVAL, inst, w)
         else if is_encode_session inst \<and> \<not> cap_dynamic_allowed cs w cap_id then (- EINVAL, inst, w)
         else s_ctrl_call cs w inst ctrl
     | MSM_VIDC_REQBUFS b \<Rightarrow>
         if b = OUTPUT_MPLANE \<or> b = OUTPUT_META_PLANE then (- EBUSY, inst, w) else reqbufs_call cs w inst b
     | MSM_VIDC_STREAMON q \<Rightarrow>
         if q = OUTPUT_MPLANE \<or> q = OUTPUT_META_PLANE then (- EBUSY, inst, w)
         else start_streaming_call cs w inst q
     | MSM_VIDC_STREAMOFF q \<Rightarrow>
         if q = INPUT_MPLANE \<or> q = INPUT_META_PLANE then (0, inst, w)
         else if q = OUTPUT_META_PLANE then (- EINVAL, inst, w)
         else if q \<noteq> OUTPUT_MPLANE then (- EINVAL, inst, w)
         else stop_streaming_call cs w inst q
     | MSM_VIDC_CMD_START \<Rightarrow>
         if \<not> is_drc_pending inst \<and> \<not> is_drain_pending inst then (- EBUSY, inst, w) else start_cmd_call cs w inst
     | MSM_VIDC_CMD_STOP \<Rightarrow> (- EBUSY, inst, w))"

definition msm_vidc_streaming_state :: "'w handler" where
  "msm_vidc_streaming_state cs w inst event =
    (if strict_inst_check inst \<noteq> 0 then (- EINVAL, inst, w)
     else case event of
       MSM_VIDC_BUF_QUEUE buf \<Rightarrow>
         if buf = MSM_VIDC_BUF_INPUT_META \<or> buf = MSM_VIDC_BUF_OUTPUT_META then (0, inst, w)
         else if \<not> is_input_buffer buf \<and> \<not> is_output_buffer buf then (- EINVAL, inst, w)
         else buf_queue_call cs w inst buf
     | MSM_VIDC_S_CTRL ctrl \<Rightarrow>
         let cap_id = cap_id_of cs w ctrl in
         if cap_id = INST_CAP_NONE then (- EINVAL, inst, w)
         else if \<not> cap_dynamic_allowed cs w cap_id then (- EINVAL, inst, w)
         else s_ctrl_call cs w inst ctrl
     | MSM_VIDC_STREAMOFF q \<Rightarrow>
         if q = INPUT_META_PLANE \<or> q = OUTPUT_META_PLANE then (- EINVAL, inst, w)
         else if q \<noteq> INPUT_MPLANE \<and> q \<noteq> OUTPUT_MPLANE then (- EINVAL, inst, w)
         else stop_streaming_call cs w inst q
     | MSM_VIDC_CMD_START \<Rightarrow>
         if \<not> is_drc_pending inst \<and> \<not> is_drain_pending inst then (- EBUSY, inst, w) else start_cmd_call cs w inst
     | MSM_VIDC_CMD_STOP \<Rightarrow>
         if is_sub_state inst MSM_VIDC_DRAIN then (- EBUSY, inst, w) else stop_cmd_call cs w inst
     | _ \<Rightarrow> (- EINVAL, inst, w))"

definition msm_vidc_close_state :: "'w handler" where
  "msm_vidc_close_state cs w inst event =
    (if strict_inst_check inst \<noteq> 0 then (- EINVAL, inst, w)
     else case event of
       MSM_VIDC_STREAMOFF q \<Rightarrow> stop_streaming_call cs w inst q
     | _ \<Rightarrow> (- EINVAL, inst, w))"

definition msm_vidc_error_state :: "'w handler" where
  "msm_vidc_error_state cs w inst event =
    (if strict_inst_check inst \<noteq> 0 then (- EINVAL, inst, w)
     else case event of
       MSM_VIDC_STREAMOFF q \<Rightarrow> stop_streaming_call cs w inst q
     | _ \<Rightarrow> (- EINVAL, inst, w))"

text \<open>The table of handlers, and a call through \<open>inst->event_handle\<close>; \<open>None\<close> is a null pointer.\<close>

fun state_handler :: "msm_vidc_state \<Rightarrow> 'w handler" where
  "state_handler MSM_VIDC_OPEN = msm_vidc_open_state"
| "state_handler MSM_VIDC_INPUT_STREAMING = msm_vidc_input_streaming_state"
| "state_handler MSM_VIDC_OUTPUT_STREAMING = msm_vidc_output_streaming_state"
| "state_handler MSM_VIDC_STREAMING = msm_vidc_streaming_state"
| "state_handler MSM_VIDC_CLOSE = msm_vidc_close_state"
| "state_handler MSM_VIDC_ERROR = msm_vidc_error_state"

definition call_event_handle ::
  "'w inst_calls \<Rightarrow> 'w \<Rightarrow> msm_vidc_inst \<Rightarrow> msm_vidc_event \<Rightarrow> (int \<times> msm_vidc_inst \<times> 'w) option" where
  "call_event_handle cs w inst event =
    map_option (\<lambda>h. state_handler h cs w inst event) (event_handle inst)"

section \<open>The handlers as one table\<close>

text \<open>Which ports stream, in a state.\<close>

definition input_on :: "msm_vidc_inst \<Rightarrow> bool" where
  "input_on inst \<longleftrightarrow> inst_state inst = MSM_VIDC_INPUT_STREAMING \<or> inst_state inst = MSM_VIDC_STREAMING"

definition output_on :: "msm_vidc_inst \<Rightarrow> bool" where
  "output_on inst \<longleftrightarrow> inst_state inst = MSM_VIDC_OUTPUT_STREAMING \<or> inst_state inst = MSM_VIDC_STREAMING"

fun type_on :: "msm_vidc_inst \<Rightarrow> v4l2_type \<Rightarrow> bool" where
  "type_on inst INPUT_MPLANE = input_on inst"
| "type_on inst INPUT_META_PLANE = input_on inst"
| "type_on inst OUTPUT_MPLANE = output_on inst"
| "type_on inst OUTPUT_META_PLANE = output_on inst"
| "type_on inst (OTHER_TYPE n) = False"

text \<open>What becomes of an event: it is carried out, ignored, or refused with an error.\<close>

datatype verdict = Perform | Ignore | Refuse int

text \<open>Formats, buffers and stream-on: not while the port streams, and not at all when both do.\<close>

definition setup_verdict :: "msm_vidc_inst \<Rightarrow> v4l2_type \<Rightarrow> verdict" where
  "setup_verdict inst t =
    (if input_on inst \<and> output_on inst then Refuse EINVAL else if type_on inst t then Refuse EBUSY else Perform)"

definition streamoff_verdict :: "msm_vidc_inst \<Rightarrow> v4l2_type \<Rightarrow> verdict" where
  "streamoff_verdict inst t =
    (if \<not> input_on inst \<and> \<not> output_on inst then Ignore
     else case t of
       OTHER_TYPE n \<Rightarrow> Refuse EINVAL
     | _ \<Rightarrow> if \<not> type_on inst t then Ignore
            else if t = INPUT_META_PLANE \<or> t = OUTPUT_META_PLANE then Refuse EINVAL else Perform)"

text \<open>Controls: free until the master port of the session streams, then only those that are dynamic.\<close>

definition s_ctrl_verdict :: "'w inst_calls \<Rightarrow> 'w \<Rightarrow> msm_vidc_inst \<Rightarrow> uint32 \<Rightarrow> verdict" where
  "s_ctrl_verdict cs w inst ctrl =
    (if \<not> input_on inst \<and> \<not> output_on inst then Perform
     else if cap_id_of cs w ctrl = INST_CAP_NONE then Refuse EINVAL
     else if ((input_on inst \<and> output_on inst) \<or> (is_decode_session inst \<and> input_on inst)
       \<or> (is_encode_session inst \<and> output_on inst)) \<and> \<not> cap_dynamic_allowed cs w (cap_id_of cs w ctrl)
     then Refuse EINVAL
     else Perform)"

definition buf_queue_verdict :: "msm_vidc_inst \<Rightarrow> msm_vidc_buffer_type \<Rightarrow> verdict" where
  "buf_queue_verdict inst b =
    (if \<not> input_on inst \<and> \<not> output_on inst then Ignore
     else if b = MSM_VIDC_BUF_INPUT_META \<or> b = MSM_VIDC_BUF_OUTPUT_META then Ignore
     else if b = MSM_VIDC_BUF_INPUT then (if input_on inst then Perform else Ignore)
     else if b = MSM_VIDC_BUF_OUTPUT then (if output_on inst then Perform else Ignore)
     else Refuse EINVAL)"

fun verdict_of :: "'w inst_calls \<Rightarrow> 'w \<Rightarrow> msm_vidc_inst \<Rightarrow> msm_vidc_event \<Rightarrow> verdict" where
  "verdict_of cs w inst (MSM_VIDC_TRY_FMT t) = setup_verdict inst t"
| "verdict_of cs w inst (MSM_VIDC_S_FMT t) = setup_verdict inst t"
| "verdict_of cs w inst (MSM_VIDC_REQBUFS t) = setup_verdict inst t"
| "verdict_of cs w inst (MSM_VIDC_STREAMON t) = setup_verdict inst t"
| "verdict_of cs w inst (MSM_VIDC_S_CTRL ctrl) = s_ctrl_verdict cs w inst ctrl"
| "verdict_of cs w inst (MSM_VIDC_STREAMOFF t) = streamoff_verdict inst t"
| "verdict_of cs w inst MSM_VIDC_CMD_START =
    (if (input_on inst \<or> output_on inst) \<and> (is_drc_pending inst \<or> is_drain_pending inst) then Perform
     else Refuse EBUSY)"
| "verdict_of cs w inst MSM_VIDC_CMD_STOP =
    (if \<not> input_on inst \<and> \<not> output_on inst then Ignore
     else if input_on inst \<and> \<not> is_sub_state inst MSM_VIDC_DRAIN then Perform else Refuse EBUSY)"
| "verdict_of cs w inst (MSM_VIDC_BUF_QUEUE b) = buf_queue_verdict inst b"

fun perform :: "'w handler" where
  "perform cs w inst (MSM_VIDC_TRY_FMT t) = try_fmt_call cs w inst t"
| "perform cs w inst (MSM_VIDC_S_FMT t) = s_fmt_call cs w inst t"
| "perform cs w inst (MSM_VIDC_REQBUFS t) = reqbufs_call cs w inst t"
| "perform cs w inst (MSM_VIDC_STREAMON t) = start_streaming_call cs w inst t"
| "perform cs w inst (MSM_VIDC_S_CTRL ctrl) = s_ctrl_call cs w inst ctrl"
| "perform cs w inst (MSM_VIDC_STREAMOFF t) = stop_streaming_call cs w inst t"
| "perform cs w inst MSM_VIDC_CMD_START = start_cmd_call cs w inst"
| "perform cs w inst MSM_VIDC_CMD_STOP = stop_cmd_call cs w inst"
| "perform cs w inst (MSM_VIDC_BUF_QUEUE b) = buf_queue_call cs w inst b"

text \<open>After an error or a close, only stream-off is carried out.\<close>

definition event_verdict :: "'w inst_calls \<Rightarrow> 'w \<Rightarrow> msm_vidc_inst \<Rightarrow> msm_vidc_event \<Rightarrow> verdict" where
  "event_verdict cs w inst event =
    (if \<not> inst_locked inst then Refuse EINVAL
     else if inst_state inst = MSM_VIDC_CLOSE \<or> inst_state inst = MSM_VIDC_ERROR then
       (case event of MSM_VIDC_STREAMOFF t \<Rightarrow> Perform | _ \<Rightarrow> Refuse EINVAL)
     else verdict_of cs w inst event)"

lemmas handler_defs = msm_vidc_open_state_def msm_vidc_input_streaming_state_def
  msm_vidc_output_streaming_state_def msm_vidc_streaming_state_def msm_vidc_close_state_def
  msm_vidc_error_state_def

lemmas verdict_defs = setup_verdict_def streamoff_verdict_def s_ctrl_verdict_def buf_queue_verdict_def
  input_on_def output_on_def is_input_buffer_def is_output_buffer_def strict_inst_check_def

text \<open>Proved event by event: the types of the queues are enumerated, the states are.\<close>

lemma verdict_correct:
  "state_handler (inst_state inst) cs w inst event =
    (case event_verdict cs w inst event of
       Perform \<Rightarrow> perform cs w inst event
     | Ignore \<Rightarrow> (0, inst, w)
     | Refuse e \<Rightarrow> (- e, inst, w))"
proof (cases "inst_locked inst")
  case False
  then show ?thesis
    by (cases "inst_state inst") (simp_all add: handler_defs strict_inst_check_def event_verdict_def)
next
  case True
  show ?thesis
  proof (cases event)
    case (MSM_VIDC_TRY_FMT t)
    with True show ?thesis
      by (cases "inst_state inst"; cases t) (simp_all add: handler_defs event_verdict_def verdict_defs)
  next
    case (MSM_VIDC_S_FMT t)
    with True show ?thesis
      by (cases "inst_state inst"; cases t) (simp_all add: handler_defs event_verdict_def verdict_defs)
  next
    case (MSM_VIDC_REQBUFS t)
    with True show ?thesis
      by (cases "inst_state inst"; cases t) (simp_all add: handler_defs event_verdict_def verdict_defs)
  next
    case (MSM_VIDC_STREAMON t)
    with True show ?thesis
      by (cases "inst_state inst"; cases t) (simp_all add: handler_defs event_verdict_def verdict_defs)
  next
    case (MSM_VIDC_STREAMOFF t)
    with True show ?thesis
      by (cases "inst_state inst"; cases t) (simp_all add: handler_defs event_verdict_def verdict_defs)
  next
    case (MSM_VIDC_BUF_QUEUE b)
    with True show ?thesis
      by (cases "inst_state inst"; cases b) (simp_all add: handler_defs event_verdict_def verdict_defs)
  qed (use True in \<open>(cases "inst_state inst";
      simp add: handler_defs event_verdict_def verdict_defs Let_def)+\<close>)
qed

end
