(* ===== verification/Vidc_Inst_Flow.thy ===== *)
theory Vidc_Inst_Flow
  imports Vidc_Inst_Events Vidc_Hfi_Response
begin

text \<open>
  How the driver moves a session through its states: streaming on and off, drain, resolution change, and
  what the firmware's answers do (\<open>msm_vidc_driver.c\<close>, \<open>msm_vidc_vb2.c\<close>, \<open>msm_vdec.c\<close>, \<open>msm_venc.c\<close>,
  \<open>msm_vidc.c\<close> and \<open>venus_hfi_response.c\<close>).

  Sending a command to the firmware and the work on formats, buffers and properties, which touches none of
  the fields of \<open>msm_vidc_inst\<close>, are parameters that get the session and return a code.  While the driver
  waits for the firmware to stop a port or to close the session it releases the session's lock: the wait is
  a parameter that says whether the answer came in time and which events of the firmware's side the session
  saw meanwhile.  The client's own calls are serialised by the client lock, which stays held.
\<close>

abbreviation (input) ETIMEDOUT :: int where "ETIMEDOUT \<equiv> 110"

definition HFI_CMD_DRAIN :: uint32 where "HFI_CMD_DRAIN = 0x01000007"
definition HFI_INFO_HFI_FLAG_DRAIN_LAST :: uint32 where "HFI_INFO_HFI_FLAG_DRAIN_LAST = 0x06000006"
definition HFI_INFO_HFI_FLAG_PSC_LAST :: uint32 where "HFI_INFO_HFI_FLAG_PSC_LAST = 0x06000007"

datatype signal_session_response = SIGNAL_CMD_STOP_INPUT | SIGNAL_CMD_STOP_OUTPUT | SIGNAL_CMD_CLOSE

text \<open>
  The events of the firmware's side: its packets, with what the handlers read of them, and a failure of the
  session or of the core.  The two last components of \<open>Settings_Change\<close> are the outcome of reading the new
  settings: a code, and whether the session is to fail.
\<close>

datatype inst_event =
  Session_Stop uint32 | Session_Drain | Last_Flag_Info uint32 | Settings_Change uint32 int bool | Session_Error

text \<open>
  The calls of the stream-on functions that do not touch the session's state, in the order of the source's
  names, and the conditions they test.  The flags for what is done once in a session are part of the
  parameters' state.
\<close>

datatype drv_call =
  Check_Session_Supported | Check_Scaling_Supported | Set_V4l2_Properties | Set_Input_Properties
  | Set_Output_Properties | Set_Internal_Properties | Get_Input_Internal_Buffers | Get_Output_Internal_Buffers
  | Destroy_Internal_Buffers msm_vidc_port_type | Create_Input_Internal_Buffers | Create_Output_Internal_Buffers
  | Queue_Input_Internal_Buffers | Queue_Output_Internal_Buffers | Subscribe_Psc msm_vidc_port_type
  | Subscribe_Property msm_vidc_port_type | Subscribe_Metadata msm_vidc_port_type
  | Set_Delivery_Mode_Property msm_vidc_port_type | Set_Delivery_Mode_Metadata msm_vidc_port_type
  | Property_Subscription msm_vidc_port_type | Metadata_Subscription msm_vidc_port_type
  | Metadata_Delivery msm_vidc_port_type | Dynamic_Metadata_Delivery msm_vidc_port_type
  | Flush_Ts | Ts_Reorder_Flush | Alloc_And_Queue_Input_Internal_Buffers | Set_Stage | Set_Pipe
  | Set_Codec | Set_Secure_Mode | Set_Default_Header | Alloc_And_Queue_Session_Buffers
  | Alloc_And_Queue_Dpb_Buffers | Queue_Deferred_Buffers msm_vidc_port_type | Schedule_Stats_Work
  | Get_Properties

datatype drv_query =
  Meta_Enabled_Not_Streaming msm_vidc_port_type | Interlace_Unsupported | Outbuf_Fence_Not_Allowed
  | Psc_Properties_Set msm_vidc_port_type | Once_Per_Session_Set | Port_Streaming msm_vidc_port_type

record 'w inst_ops =
  op_session_start :: "'w \<Rightarrow> msm_vidc_inst \<Rightarrow> msm_vidc_port_type \<Rightarrow> int \<times> 'w"
  op_session_stop :: "'w \<Rightarrow> msm_vidc_inst \<Rightarrow> msm_vidc_port_type \<Rightarrow> int \<times> 'w"
  op_session_pause :: "'w \<Rightarrow> msm_vidc_inst \<Rightarrow> msm_vidc_port_type \<Rightarrow> int \<times> 'w"
  op_session_resume :: "'w \<Rightarrow> msm_vidc_inst \<Rightarrow> msm_vidc_port_type \<Rightarrow> uint32 \<Rightarrow> int \<times> 'w"
  op_session_drain :: "'w \<Rightarrow> msm_vidc_inst \<Rightarrow> msm_vidc_port_type \<Rightarrow> int \<times> 'w"
  op_session_close :: "'w \<Rightarrow> msm_vidc_inst \<Rightarrow> int \<times> 'w"
  op_wait :: "'w \<Rightarrow> msm_vidc_inst \<Rightarrow> signal_session_response \<Rightarrow> bool \<times> inst_event list \<times> 'w"
  op_on_core_list :: "'w \<Rightarrow> msm_vidc_inst \<Rightarrow> bool"
  op_buffers_queued :: "'w \<Rightarrow> msm_vidc_port_type \<Rightarrow> bool"
  op_call :: "'w \<Rightarrow> msm_vidc_inst \<Rightarrow> drv_call \<Rightarrow> int \<times> 'w"
  op_query :: "'w \<Rightarrow> msm_vidc_inst \<Rightarrow> drv_query \<Rightarrow> bool"
  op_other :: "'w \<Rightarrow> msm_vidc_inst \<Rightarrow> msm_vidc_event \<Rightarrow> int \<times> 'w"
  op_cap_id :: "'w \<Rightarrow> uint32 \<Rightarrow> uint32"
  op_dynamic_allowed :: "'w \<Rightarrow> uint32 \<Rightarrow> bool"

text \<open>Calls one after the other, up to the first that fails.\<close>

fun run_calls :: "'w inst_ops \<Rightarrow> drv_call list \<Rightarrow> 'w \<Rightarrow> msm_vidc_inst \<Rightarrow> int \<times> 'w" where
  "run_calls ops [] w inst = (0, w)"
| "run_calls ops (c # cs) w inst =
    (let (rc, w) = op_call ops w inst c in if rc \<noteq> 0 then (rc, w) else run_calls ops cs w inst)"

declare run_calls.simps [simp del]

section \<open>State changes of the ports\<close>

definition msm_vidc_state_change_streamon :: "msm_vidc_inst \<Rightarrow> msm_vidc_port_type \<Rightarrow> int \<times> msm_vidc_inst" where
  "msm_vidc_state_change_streamon inst port =
    (if port = INPUT_META_PORT \<or> port = OUTPUT_META_PORT then (0, inst)
     else
      (let new_state =
         (if port = INPUT_PORT then
            if is_state inst MSM_VIDC_OPEN then MSM_VIDC_INPUT_STREAMING
            else if is_state inst MSM_VIDC_OUTPUT_STREAMING then MSM_VIDC_STREAMING else MSM_VIDC_ERROR
          else if port = OUTPUT_PORT then
            if is_state inst MSM_VIDC_OPEN then MSM_VIDC_OUTPUT_STREAMING
            else if is_state inst MSM_VIDC_INPUT_STREAMING then MSM_VIDC_STREAMING else MSM_VIDC_ERROR
          else MSM_VIDC_ERROR) in
       msm_vidc_change_state inst new_state))"

definition msm_vidc_state_change_streamoff :: "msm_vidc_inst \<Rightarrow> msm_vidc_port_type \<Rightarrow> int \<times> msm_vidc_inst" where
  "msm_vidc_state_change_streamoff inst port =
    (if port = INPUT_META_PORT \<or> port = OUTPUT_META_PORT then (0, inst)
     else
      (let new_state =
         (if port = INPUT_PORT then
            if is_state inst MSM_VIDC_INPUT_STREAMING then MSM_VIDC_OPEN
            else if is_state inst MSM_VIDC_STREAMING then MSM_VIDC_OUTPUT_STREAMING else MSM_VIDC_ERROR
          else if port = OUTPUT_PORT then
            if is_state inst MSM_VIDC_OUTPUT_STREAMING then MSM_VIDC_OPEN
            else if is_state inst MSM_VIDC_STREAMING then MSM_VIDC_INPUT_STREAMING else MSM_VIDC_ERROR
          else MSM_VIDC_ERROR) in
       msm_vidc_change_state inst new_state))"

section \<open>Drain, resume and stream-on\<close>

definition msm_vidc_process_drain :: "'w inst_ops \<Rightarrow> 'w \<Rightarrow> msm_vidc_inst \<Rightarrow> int \<times> msm_vidc_inst \<times> 'w" where
  "msm_vidc_process_drain ops w inst =
    (let (rc, w) = op_session_drain ops w inst INPUT_PORT in
     if rc \<noteq> 0 then (rc, inst, w)
     else let (rc, inst) = msm_vidc_change_sub_state inst 0 MSM_VIDC_DRAIN in (rc, inst, w))"

text \<open>
  Resuming the ports that are paused, the same lines twice in \<open>msm_vidc_process_resume\<close>; the result has the
  sub-states to clear.
\<close>

definition resume_ports ::
  "'w inst_ops \<Rightarrow> 'w \<Rightarrow> msm_vidc_inst \<Rightarrow> uint32 \<Rightarrow> uint32 \<Rightarrow> int \<times> uint32 \<times> 'w" where
  "resume_ports ops w inst cmd clear =
    (let (rc, clear, w) =
       (if is_sub_state inst MSM_VIDC_INPUT_PAUSE then
          let (rc, w) = op_session_resume ops w inst INPUT_PORT cmd in
          if rc \<noteq> 0 then (rc, clear, w) else (0, clear OR MSM_VIDC_INPUT_PAUSE, w)
        else (0, clear, w)) in
     if rc \<noteq> 0 then (rc, clear, w)
     else if is_sub_state inst MSM_VIDC_OUTPUT_PAUSE \<and> \<not> is_encode_session inst then
       let (rc, w) = op_session_resume ops w inst OUTPUT_PORT cmd in
       if rc \<noteq> 0 then (rc, clear, w) else (0, clear OR MSM_VIDC_OUTPUT_PAUSE, w)
     else (0, clear, w))"

definition msm_vidc_process_resume :: "'w inst_ops \<Rightarrow> 'w \<Rightarrow> msm_vidc_inst \<Rightarrow> int \<times> msm_vidc_inst \<times> 'w" where
  "msm_vidc_process_resume ops w inst =
    (let (rc, clear, w) =
       (if is_sub_state inst MSM_VIDC_DRC \<and> is_sub_state inst MSM_VIDC_DRC_LAST_BUFFER then
          let clear = MSM_VIDC_DRC OR MSM_VIDC_DRC_LAST_BUFFER;
              drain_pending = is_sub_state inst MSM_VIDC_DRAIN \<and> is_sub_state inst MSM_VIDC_DRAIN_LAST_BUFFER in
          if \<not> drain_pending then resume_ports ops w inst HFI_CMD_SETTINGS_CHANGE clear else (0, clear, w)
        else if is_sub_state inst MSM_VIDC_DRAIN \<and> is_sub_state inst MSM_VIDC_DRAIN_LAST_BUFFER then
          resume_ports ops w inst HFI_CMD_DRAIN (MSM_VIDC_DRAIN OR MSM_VIDC_DRAIN_LAST_BUFFER)
        else (0, 0, w)) in
     if rc \<noteq> 0 then (rc, inst, w)
     else let (rc, inst) = msm_vidc_change_sub_state inst clear 0 in (rc, inst, w))"

definition msm_vidc_process_streamon_input :: "'w inst_ops \<Rightarrow> 'w \<Rightarrow> msm_vidc_inst \<Rightarrow> int \<times> msm_vidc_inst \<times> 'w" where
  "msm_vidc_process_streamon_input ops w inst =
    (let (rc, w) = op_session_start ops w inst INPUT_PORT in
     if rc \<noteq> 0 then (rc, inst, w)
     else
      (let (rc, inst) = (if is_sub_state inst MSM_VIDC_INPUT_PAUSE
                         then msm_vidc_change_sub_state inst MSM_VIDC_INPUT_PAUSE 0 else (0, inst)) in
       if rc \<noteq> 0 then (rc, inst, w)
       else
        (let (rc, set_sub, w) =
           (if (is_sub_state inst MSM_VIDC_DRC \<or> is_sub_state inst MSM_VIDC_DRAIN
                \<or> is_sub_state inst MSM_VIDC_FIRST_IPSC) \<and> \<not> is_sub_state inst MSM_VIDC_INPUT_PAUSE then
              let (rc, w) = op_session_pause ops w inst INPUT_PORT in
              (rc, if rc \<noteq> 0 then 0 else MSM_VIDC_INPUT_PAUSE, w)
            else (0, 0, w)) in
         if rc \<noteq> 0 then (rc, inst, w)
         else
          (let (rc, inst) = msm_vidc_state_change_streamon inst INPUT_PORT in
           if rc \<noteq> 0 then (rc, inst, w)
           else let (rc, inst) = msm_vidc_change_sub_state inst 0 set_sub in (rc, inst, w)))))"

definition msm_vidc_process_streamon_output :: "'w inst_ops \<Rightarrow> 'w \<Rightarrow> msm_vidc_inst \<Rightarrow> int \<times> msm_vidc_inst \<times> 'w" where
  "msm_vidc_process_streamon_output ops w inst =
    (let clear = (if is_sub_state inst MSM_VIDC_DRC \<and> is_sub_state inst MSM_VIDC_DRC_LAST_BUFFER
                  then MSM_VIDC_DRC OR MSM_VIDC_DRC_LAST_BUFFER else 0);
         (rc, w) = (if is_decode_session inst \<and> is_sub_state inst MSM_VIDC_INPUT_PAUSE
                    then run_calls ops
                      [Alloc_And_Queue_Input_Internal_Buffers, Set_Stage, Set_Pipe, Subscribe_Metadata INPUT_PORT] w inst
                    else (0, w)) in
     if rc \<noteq> 0 then (rc, inst, w)
     else
      (let drain_pending = is_sub_state inst MSM_VIDC_DRAIN \<and> is_sub_state inst MSM_VIDC_DRAIN_LAST_BUFFER;
           (rc, clear, w) =
             (if \<not> drain_pending \<and> is_state inst MSM_VIDC_INPUT_STREAMING
                 \<and> is_sub_state inst MSM_VIDC_INPUT_PAUSE then
                let (rc, w) = op_session_resume ops w inst INPUT_PORT HFI_CMD_SETTINGS_CHANGE in
                if rc \<noteq> 0 then (rc, clear, w) else (0, clear OR MSM_VIDC_INPUT_PAUSE, w)
              else (0, clear, w)) in
       if rc \<noteq> 0 then (rc, inst, w)
       else
        (let clear = (if is_sub_state inst MSM_VIDC_FIRST_IPSC then clear OR MSM_VIDC_FIRST_IPSC else clear);
             (rc, w) = op_session_start ops w inst OUTPUT_PORT in
         if rc \<noteq> 0 then (rc, inst, w)
         else
          (let (rc, inst) = (if is_sub_state inst MSM_VIDC_OUTPUT_PAUSE
                             then msm_vidc_change_sub_state inst MSM_VIDC_OUTPUT_PAUSE 0 else (0, inst)) in
           if rc \<noteq> 0 then (rc, inst, w)
           else
            (let (rc, inst) = msm_vidc_state_change_streamon inst OUTPUT_PORT in
             if rc \<noteq> 0 then (rc, inst, w)
             else let (rc, inst) = msm_vidc_change_sub_state inst clear 0 in (rc, inst, w))))))"

section \<open>Answers of the firmware\<close>

text \<open>The last component says whether the waiting thread is woken.\<close>

definition msm_vidc_process_stop_done ::
  "msm_vidc_inst \<Rightarrow> signal_session_response \<Rightarrow> int \<times> msm_vidc_inst \<times> bool" where
  "msm_vidc_process_stop_done inst signal_type =
    (let (set_sub, inst) =
       (case signal_type of
          SIGNAL_CMD_STOP_INPUT \<Rightarrow>
            let inst = (if is_sub_state inst MSM_VIDC_DRC \<and> \<not> is_sub_state inst MSM_VIDC_DRC_LAST_BUFFER
                        then snd (msm_vidc_change_state inst MSM_VIDC_ERROR) else inst);
                inst = (if is_decode_session inst \<and> is_sub_state inst MSM_VIDC_DRAIN
                          \<and> \<not> is_sub_state inst MSM_VIDC_DRAIN_LAST_BUFFER
                        then snd (msm_vidc_change_state inst MSM_VIDC_ERROR) else inst) in
            (MSM_VIDC_INPUT_PAUSE, inst)
        | SIGNAL_CMD_STOP_OUTPUT \<Rightarrow> (MSM_VIDC_OUTPUT_PAUSE, inst)
        | SIGNAL_CMD_CLOSE \<Rightarrow> (0, inst));
         (rc, inst) = msm_vidc_change_sub_state inst 0 set_sub in
     (rc, inst, rc = 0))"

definition msm_vidc_process_drain_done :: "msm_vidc_inst \<Rightarrow> int \<times> msm_vidc_inst" where
  "msm_vidc_process_drain_done inst =
    (if is_sub_state inst MSM_VIDC_DRAIN then msm_vidc_change_sub_state inst 0 MSM_VIDC_INPUT_PAUSE else (0, inst))"

definition msm_vidc_state_change_input_psc :: "msm_vidc_inst \<Rightarrow> int \<times> msm_vidc_inst" where
  "msm_vidc_state_change_input_psc inst =
    (let set_sub =
       (if is_state inst MSM_VIDC_INPUT_STREAMING \<or> is_state inst MSM_VIDC_OPEN
        then MSM_VIDC_INPUT_PAUSE OR MSM_VIDC_FIRST_IPSC else MSM_VIDC_DRC OR MSM_VIDC_INPUT_PAUSE) in
     msm_vidc_change_sub_state inst 0 set_sub)"

definition msm_vidc_state_change_drain_last_flag :: "msm_vidc_inst \<Rightarrow> int \<times> msm_vidc_inst" where
  "msm_vidc_state_change_drain_last_flag inst =
    msm_vidc_change_sub_state inst 0 (MSM_VIDC_DRAIN_LAST_BUFFER OR MSM_VIDC_OUTPUT_PAUSE)"

definition msm_vidc_state_change_psc_last_flag :: "msm_vidc_inst \<Rightarrow> int \<times> msm_vidc_inst" where
  "msm_vidc_state_change_psc_last_flag inst =
    msm_vidc_change_sub_state inst 0 (MSM_VIDC_DRC_LAST_BUFFER OR MSM_VIDC_OUTPUT_PAUSE)"

text \<open>The event for the client that follows in \<open>msm_vidc_process_*_last_flag\<close> is left out.\<close>

definition msm_vidc_process_drain_last_flag :: "msm_vidc_inst \<Rightarrow> int \<times> msm_vidc_inst" where
  "msm_vidc_process_drain_last_flag inst = msm_vidc_state_change_drain_last_flag inst"

definition msm_vidc_process_psc_last_flag :: "msm_vidc_inst \<Rightarrow> int \<times> msm_vidc_inst" where
  "msm_vidc_process_psc_last_flag inst = msm_vidc_state_change_psc_last_flag inst"

definition msm_vidc_allow_input_psc :: "msm_vidc_inst \<Rightarrow> msm_vidc_allow" where
  "msm_vidc_allow_input_psc inst =
    (if is_sub_state inst MSM_VIDC_DRC then MSM_VIDC_DISALLOW else MSM_VIDC_ALLOW)"

definition msm_vidc_allow_drain_last_flag :: "msm_vidc_inst \<Rightarrow> bool" where
  "msm_vidc_allow_drain_last_flag inst \<longleftrightarrow>
    is_sub_state inst MSM_VIDC_DRAIN \<and> is_sub_state inst MSM_VIDC_INPUT_PAUSE
    \<and> \<not> is_sub_state inst MSM_VIDC_DRAIN_LAST_BUFFER"

definition msm_vidc_allow_psc_last_flag :: "msm_vidc_inst \<Rightarrow> bool" where
  "msm_vidc_allow_psc_last_flag inst \<longleftrightarrow>
    is_sub_state inst MSM_VIDC_DRC \<and> is_sub_state inst MSM_VIDC_INPUT_PAUSE
    \<and> \<not> is_sub_state inst MSM_VIDC_DRC_LAST_BUFFER"

section \<open>The handlers of the packets\<close>

definition handle_session_stop :: "msm_vidc_inst \<Rightarrow> uint32 \<Rightarrow> int \<times> msm_vidc_inst" where
  "handle_session_stop inst pkt_port =
    (let stop_done = (\<lambda>sig. case msm_vidc_process_stop_done inst sig of (rc, inst, _) \<Rightarrow> (rc, inst)) in
     if is_encode_session inst then
       (if pkt_port = HFI_PORT_RAW then stop_done SIGNAL_CMD_STOP_INPUT
        else if pkt_port = HFI_PORT_BITSTREAM then stop_done SIGNAL_CMD_STOP_OUTPUT
        else (- EINVAL, inst))
     else if is_decode_session inst then
       (if pkt_port = HFI_PORT_RAW then stop_done SIGNAL_CMD_STOP_OUTPUT
        else if pkt_port = HFI_PORT_BITSTREAM then stop_done SIGNAL_CMD_STOP_INPUT
        else (- EINVAL, inst))
     else (- EINVAL, inst))"

definition handle_session_drain :: "msm_vidc_inst \<Rightarrow> int \<times> msm_vidc_inst" where
  "handle_session_drain inst = msm_vidc_process_drain_done inst"

definition handle_session_last_flag_info :: "msm_vidc_inst \<Rightarrow> uint32 \<Rightarrow> int \<times> msm_vidc_inst" where
  "handle_session_last_flag_info inst pkt_type =
    (let (rc, inst) =
       (if pkt_type = HFI_INFO_HFI_FLAG_PSC_LAST then
          if msm_vidc_allow_psc_last_flag inst then msm_vidc_process_psc_last_flag inst else (- EINVAL, inst)
        else if pkt_type = HFI_INFO_HFI_FLAG_DRAIN_LAST then
          if msm_vidc_allow_drain_last_flag inst then msm_vidc_process_drain_last_flag inst else (- EINVAL, inst)
        else (0, inst)) in
     if rc \<noteq> 0 then (rc, snd (msm_vidc_change_state inst MSM_VIDC_ERROR)) else (0, inst))"

definition handle_input_port_settings_change :: "msm_vidc_inst \<Rightarrow> int \<Rightarrow> bool \<Rightarrow> int \<times> msm_vidc_inst" where
  "handle_input_port_settings_change inst read_rc fails =
    (if msm_vidc_allow_input_psc inst = MSM_VIDC_DISALLOW then (- EINVAL, inst)
     else
      (let (rc, inst) = msm_vidc_state_change_input_psc inst in
       if rc \<noteq> 0 then (rc, inst)
       else (read_rc, if fails then snd (msm_vidc_change_state inst MSM_VIDC_ERROR) else inst)))"

definition handle_port_settings_change :: "msm_vidc_inst \<Rightarrow> uint32 \<Rightarrow> int \<Rightarrow> bool \<Rightarrow> int \<times> msm_vidc_inst" where
  "handle_port_settings_change inst pkt_port read_rc fails =
    (let (rc, inst) =
       (if pkt_port = HFI_PORT_RAW then (0, inst)
        else if pkt_port = HFI_PORT_BITSTREAM then handle_input_port_settings_change inst read_rc fails
        else (- EINVAL, inst)) in
     if rc \<noteq> 0 then (rc, snd (msm_vidc_change_state inst MSM_VIDC_ERROR)) else (0, inst))"

fun inst_answer :: "inst_event \<Rightarrow> msm_vidc_inst \<Rightarrow> int \<times> msm_vidc_inst" where
  "inst_answer (Session_Stop p) inst = handle_session_stop inst p"
| "inst_answer Session_Drain inst = handle_session_drain inst"
| "inst_answer (Last_Flag_Info ty) inst = handle_session_last_flag_info inst ty"
| "inst_answer (Settings_Change p rc fails) inst = handle_port_settings_change inst p rc fails"
| "inst_answer Session_Error inst = msm_vidc_change_state inst MSM_VIDC_ERROR"

text \<open>\<open>handle_session_response\<close> records an error of a handler.\<close>

definition inst_packet :: "inst_event \<Rightarrow> msm_vidc_inst \<Rightarrow> msm_vidc_inst" where
  "inst_packet e inst =
    (let (rc, inst) = inst_answer e inst in
     if rc \<noteq> 0 then snd (msm_vidc_change_state inst MSM_VIDC_ERROR) else inst)"

fun inst_packets :: "inst_event list \<Rightarrow> msm_vidc_inst \<Rightarrow> msm_vidc_inst" where
  "inst_packets [] inst = inst"
| "inst_packets (e # es) inst = inst_packets es (inst_packet e inst)"

section \<open>Stopping and closing\<close>

text \<open>
  Waiting, unlocked, for the answer that \<open>signal\<close> names.  If it does not come in time, \<open>msm_vidc_inst_timeout\<close>
  takes the core down, and with it every session on its list.
\<close>

definition wait_for_response ::
  "'w inst_ops \<Rightarrow> 'w \<Rightarrow> msm_vidc_inst \<Rightarrow> signal_session_response \<Rightarrow> int \<times> msm_vidc_inst \<times> 'w" where
  "wait_for_response ops w inst signal =
    (let inst = inst\<lparr>inst_locked := False\<rparr>;
         (completed, es, w) = op_wait ops w inst signal;
         inst = inst_packets es inst;
         inst = (if \<not> completed \<and> op_on_core_list ops w inst
                 then snd (msm_vidc_change_state inst MSM_VIDC_ERROR) else inst) in
     (if completed then 0 else - ETIMEDOUT, inst\<lparr>inst_locked := True\<rparr>, w))"

definition msm_vidc_session_close :: "'w inst_ops \<Rightarrow> 'w \<Rightarrow> msm_vidc_inst \<Rightarrow> int \<times> msm_vidc_inst \<times> 'w" where
  "msm_vidc_session_close ops w inst =
    (let (rc, w) = op_session_close ops w inst in
     if rc \<noteq> 0 then (rc, inst, w) else wait_for_response ops w inst SIGNAL_CMD_CLOSE)"

definition msm_vidc_kill_session :: "'w inst_ops \<Rightarrow> 'w \<Rightarrow> msm_vidc_inst \<Rightarrow> int \<times> msm_vidc_inst \<times> 'w" where
  "msm_vidc_kill_session ops w inst =
    (if inst_session_id inst = 0 then (0, inst, w)
     else
      (let (_, inst, w) = msm_vidc_session_close ops w inst in
       (0, snd (msm_vidc_change_state inst MSM_VIDC_ERROR), w)))"

text \<open>The buffers that are flushed at the end of both paths are left out.\<close>

definition msm_vidc_session_streamoff ::
  "'w inst_ops \<Rightarrow> 'w \<Rightarrow> msm_vidc_inst \<Rightarrow> msm_vidc_port_type \<Rightarrow> int \<times> msm_vidc_inst \<times> 'w" where
  "msm_vidc_session_streamoff ops w inst port =
    (let fail = (\<lambda>rc w inst. case msm_vidc_kill_session ops w inst of (_, inst, w) \<Rightarrow> (rc, inst, w)) in
     if port \<noteq> INPUT_PORT \<and> port \<noteq> OUTPUT_PORT then (- EINVAL, inst, w)
     else
      (let signal_type = (if port = INPUT_PORT then SIGNAL_CMD_STOP_INPUT else SIGNAL_CMD_STOP_OUTPUT);
           (rc, w) = op_session_stop ops w inst port in
       if rc \<noteq> 0 then fail rc w inst
       else
        (let (rc, inst, w) = wait_for_response ops w inst signal_type in
         if rc \<noteq> 0 then fail rc w inst
         else if op_buffers_queued ops w port then fail (- EINVAL) w inst
         else
          (let (rc, inst) = msm_vidc_state_change_streamoff inst port in
           if rc \<noteq> 0 then fail rc w inst else (0, inst, w)))))"

section \<open>What the client asks for\<close>

text \<open>
  Stream-on of a port.  The functions of the decoder and the encoder begin with a check, prepare the
  firmware, make the step of the state machine and go on with calls of their own; on the output port a
  failure after the check stops the port again.  The settings to be reported are subscribed to once.
\<close>

definition streamon_input_with ::
  "'w inst_ops \<Rightarrow> drv_call list \<Rightarrow> drv_call list \<Rightarrow> 'w \<Rightarrow> msm_vidc_inst \<Rightarrow> int \<times> msm_vidc_inst \<times> 'w" where
  "streamon_input_with ops prep post w inst =
    (if op_query ops w inst (Meta_Enabled_Not_Streaming INPUT_PORT) then (- EINVAL, inst, w)
     else
      (let (rc, w) = run_calls ops prep w inst in
       if rc \<noteq> 0 then (rc, inst, w)
       else
        (let (rc, inst, w) = msm_vidc_process_streamon_input ops w inst in
         if rc \<noteq> 0 then (rc, inst, w)
         else let (rc, w) = run_calls ops post w inst in (rc, inst, w))))"

definition streamon_output_with ::
  "'w inst_ops \<Rightarrow> drv_call list \<Rightarrow> drv_call list \<Rightarrow> 'w \<Rightarrow> msm_vidc_inst \<Rightarrow> int \<times> msm_vidc_inst \<times> 'w" where
  "streamon_output_with ops prep post w inst =
    (let fail = (\<lambda>rc w inst. case msm_vidc_session_streamoff ops w inst OUTPUT_PORT of (_, inst, w) \<Rightarrow> (rc, inst, w));
         (rc, w) = run_calls ops prep w inst in
     if rc \<noteq> 0 then fail rc w inst
     else
      (let (rc, inst, w) = msm_vidc_process_streamon_output ops w inst in
       if rc \<noteq> 0 then fail rc w inst
       else
        (let (rc, w) = run_calls ops post w inst in
         if rc \<noteq> 0 then fail rc w inst else (0, inst, w))))"

definition msm_vdec_streamon_input :: "'w inst_ops \<Rightarrow> 'w \<Rightarrow> msm_vidc_inst \<Rightarrow> int \<times> msm_vidc_inst \<times> 'w" where
  "msm_vdec_streamon_input ops w inst = streamon_input_with ops
    ([Check_Session_Supported, Set_V4l2_Properties, Get_Input_Internal_Buffers, Destroy_Internal_Buffers INPUT_PORT,
      Create_Input_Internal_Buffers, Queue_Input_Internal_Buffers]
     @ (if op_query ops w inst (Psc_Properties_Set INPUT_PORT) then [] else [Subscribe_Psc INPUT_PORT])
     @ [Subscribe_Property INPUT_PORT, Subscribe_Metadata INPUT_PORT, Subscribe_Metadata OUTPUT_PORT,
        Set_Delivery_Mode_Metadata INPUT_PORT])
    [Flush_Ts, Ts_Reorder_Flush] w inst"

definition msm_venc_streamon_input :: "'w inst_ops \<Rightarrow> 'w \<Rightarrow> msm_vidc_inst \<Rightarrow> int \<times> msm_vidc_inst \<times> 'w" where
  "msm_venc_streamon_input ops w inst = streamon_input_with ops
    [Check_Session_Supported, Check_Scaling_Supported, Set_Input_Properties, Get_Input_Internal_Buffers,
     Destroy_Internal_Buffers INPUT_PORT, Create_Input_Internal_Buffers, Queue_Input_Internal_Buffers,
     Property_Subscription INPUT_PORT, Metadata_Delivery INPUT_PORT, Dynamic_Metadata_Delivery INPUT_PORT]
    [] w inst"

text \<open>The check for the fences of the output buffers comes after the two first calls.\<close>

definition msm_vdec_streamon_output :: "'w inst_ops \<Rightarrow> 'w \<Rightarrow> msm_vidc_inst \<Rightarrow> int \<times> msm_vidc_inst \<times> 'w" where
  "msm_vdec_streamon_output ops w inst =
    (if op_query ops w inst (Meta_Enabled_Not_Streaming OUTPUT_PORT) then (- EINVAL, inst, w)
     else if op_query ops w inst Interlace_Unsupported then (- EINVAL, inst, w)
     else
      (let (rc, w) = run_calls ops [Check_Session_Supported, Set_Output_Properties] w inst;
           rc = (if rc = 0 \<and> op_query ops w inst Outbuf_Fence_Not_Allowed then - EINVAL else rc) in
       if rc \<noteq> 0 then
         (case msm_vidc_session_streamoff ops w inst OUTPUT_PORT of (_, inst, w) \<Rightarrow> (rc, inst, w))
       else streamon_output_with ops
        ((if op_query ops w inst (Psc_Properties_Set OUTPUT_PORT) then [] else [Subscribe_Psc OUTPUT_PORT])
         @ [Subscribe_Property OUTPUT_PORT, Subscribe_Metadata OUTPUT_PORT, Set_Delivery_Mode_Property OUTPUT_PORT,
            Set_Delivery_Mode_Metadata OUTPUT_PORT, Get_Output_Internal_Buffers, Destroy_Internal_Buffers OUTPUT_PORT,
            Create_Output_Internal_Buffers])
        [Queue_Output_Internal_Buffers] w inst))"

definition msm_venc_streamon_output :: "'w inst_ops \<Rightarrow> 'w \<Rightarrow> msm_vidc_inst \<Rightarrow> int \<times> msm_vidc_inst \<times> 'w" where
  "msm_venc_streamon_output ops w inst =
    (if op_query ops w inst (Meta_Enabled_Not_Streaming OUTPUT_PORT) then (- EINVAL, inst, w)
     else streamon_output_with ops
      [Set_Output_Properties, Set_V4l2_Properties, Set_Internal_Properties, Get_Output_Internal_Buffers,
       Destroy_Internal_Buffers OUTPUT_PORT, Create_Output_Internal_Buffers, Queue_Output_Internal_Buffers,
       Property_Subscription OUTPUT_PORT, Metadata_Subscription OUTPUT_PORT]
      [] w inst)"

definition msm_vidc_start_streaming ::
  "'w inst_ops \<Rightarrow> 'w \<Rightarrow> msm_vidc_inst \<Rightarrow> v4l2_type \<Rightarrow> int \<times> msm_vidc_inst \<times> 'w" where
  "msm_vidc_start_streaming ops w inst q =
    (if q = INPUT_META_PLANE \<or> q = OUTPUT_META_PLANE then (0, inst, w)
     else if q \<noteq> INPUT_MPLANE \<and> q \<noteq> OUTPUT_MPLANE then (- EINVAL, inst, w)
     else if \<not> is_decode_session inst \<and> \<not> is_encode_session inst then (- EINVAL, inst, w)
     else
      (let (rc, w) =
         (if op_query ops w inst Once_Per_Session_Set then (0, w)
          else run_calls ops ([Set_Codec, Set_Secure_Mode]
            @ (if is_encode_session inst then [Alloc_And_Queue_Session_Buffers]
               else [Set_Default_Header, Alloc_And_Queue_Session_Buffers])) w inst) in
       if rc \<noteq> 0 then (rc, inst, w)
       else
        (let (rc, inst, w) =
           (if q = INPUT_MPLANE then
              if is_decode_session inst then msm_vdec_streamon_input ops w inst else msm_venc_streamon_input ops w inst
            else
              if is_decode_session inst then msm_vdec_streamon_output ops w inst else msm_venc_streamon_output ops w inst) in
         if rc \<noteq> 0 then (rc, inst, w)
         else
          (let (port, other) = (if q = INPUT_MPLANE then (INPUT_PORT, OUTPUT_PORT) else (OUTPUT_PORT, INPUT_PORT));
               (rc, w) = run_calls ops ([Queue_Deferred_Buffers port, Schedule_Stats_Work]
                 @ (if op_query ops w inst (Port_Streaming other) then [Get_Properties] else [])) w inst in
           (rc, inst, w)))))"

definition msm_vidc_stop_streaming ::
  "'w inst_ops \<Rightarrow> 'w \<Rightarrow> msm_vidc_inst \<Rightarrow> v4l2_type \<Rightarrow> int \<times> msm_vidc_inst \<times> 'w" where
  "msm_vidc_stop_streaming ops w inst q =
    (if q = INPUT_META_PLANE \<or> q = OUTPUT_META_PLANE then (0, inst, w)
     else if q \<noteq> INPUT_MPLANE \<and> q \<noteq> OUTPUT_MPLANE then (- EINVAL, inst, w)
     else if \<not> is_decode_session inst \<and> \<not> is_encode_session inst then (- EINVAL, inst, w)
     else msm_vidc_session_streamoff ops w inst (if q = INPUT_MPLANE then INPUT_PORT else OUTPUT_PORT))"

definition msm_vdec_start_cmd :: "'w inst_ops \<Rightarrow> 'w \<Rightarrow> msm_vidc_inst \<Rightarrow> int \<times> msm_vidc_inst \<times> 'w" where
  "msm_vdec_start_cmd ops w inst =
    (if op_query ops w inst Interlace_Unsupported then (- EINVAL, inst, w)
     else
      (let (rc, w) = run_calls ops
         ((if is_sub_state inst MSM_VIDC_DRC \<and> is_sub_state inst MSM_VIDC_DRC_LAST_BUFFER
             \<and> is_sub_state inst MSM_VIDC_INPUT_PAUSE
           then [Alloc_And_Queue_Input_Internal_Buffers, Set_Stage, Set_Pipe] else [])
          @ [Alloc_And_Queue_Dpb_Buffers, Queue_Deferred_Buffers OUTPUT_PORT]) w inst in
       if rc \<noteq> 0 then (rc, inst, w) else msm_vidc_process_resume ops w inst))"

definition msm_venc_start_cmd :: "'w inst_ops \<Rightarrow> 'w \<Rightarrow> msm_vidc_inst \<Rightarrow> int \<times> msm_vidc_inst \<times> 'w" where
  "msm_venc_start_cmd ops w inst = msm_vidc_process_resume ops w inst"

definition msm_vidc_start_cmd :: "'w inst_ops \<Rightarrow> 'w \<Rightarrow> msm_vidc_inst \<Rightarrow> int \<times> msm_vidc_inst \<times> 'w" where
  "msm_vidc_start_cmd ops w inst =
    (if \<not> is_decode_session inst \<and> \<not> is_encode_session inst then (- EINVAL, inst, w)
     else if is_decode_session inst then msm_vdec_start_cmd ops w inst else msm_venc_start_cmd ops w inst)"

definition msm_vidc_stop_cmd :: "'w inst_ops \<Rightarrow> 'w \<Rightarrow> msm_vidc_inst \<Rightarrow> int \<times> msm_vidc_inst \<times> 'w" where
  "msm_vidc_stop_cmd ops w inst =
    (if \<not> is_decode_session inst \<and> \<not> is_encode_session inst then (- EINVAL, inst, w)
     else msm_vidc_process_drain ops w inst)"

text \<open>The calls behind the event handlers; those that do not touch the session are \<open>op_other\<close>.\<close>

definition other_call :: "'w inst_ops \<Rightarrow> 'w \<Rightarrow> msm_vidc_inst \<Rightarrow> msm_vidc_event \<Rightarrow> int \<times> msm_vidc_inst \<times> 'w" where
  "other_call ops w inst event = (let (rc, w) = op_other ops w inst event in (rc, inst, w))"

definition flow_calls :: "'w inst_ops \<Rightarrow> 'w inst_calls" where
  "flow_calls ops = \<lparr>
    try_fmt_call = \<lambda>w inst f. other_call ops w inst (MSM_VIDC_TRY_FMT f),
    s_fmt_call = \<lambda>w inst f. other_call ops w inst (MSM_VIDC_S_FMT f),
    reqbufs_call = \<lambda>w inst b. other_call ops w inst (MSM_VIDC_REQBUFS b),
    s_ctrl_call = \<lambda>w inst c. other_call ops w inst (MSM_VIDC_S_CTRL c),
    start_streaming_call = msm_vidc_start_streaming ops,
    stop_streaming_call = msm_vidc_stop_streaming ops,
    start_cmd_call = msm_vidc_start_cmd ops,
    stop_cmd_call = msm_vidc_stop_cmd ops,
    buf_queue_call = \<lambda>w inst b. other_call ops w inst (MSM_VIDC_BUF_QUEUE b),
    cap_id_of = op_cap_id ops,
    cap_dynamic_allowed = op_dynamic_allowed ops\<rparr>"

text \<open>
  The client's requests, with the session's lock held: through the handler, where an error of stream-on,
  stream-off or queueing a buffer (\<open>msm_vb2_buf_queue\<close>) makes the session fail, and closing.
\<close>

datatype client_call = Event msm_vidc_event | Close

fun fails_session :: "msm_vidc_event \<Rightarrow> bool" where
  "fails_session (MSM_VIDC_STREAMON q) = True"
| "fails_session (MSM_VIDC_STREAMOFF q) = True"
| "fails_session (MSM_VIDC_BUF_QUEUE b) = True"
| "fails_session _ = False"

fun client_step :: "'w inst_ops \<Rightarrow> client_call \<Rightarrow> 'w \<Rightarrow> msm_vidc_inst \<Rightarrow> (int \<times> msm_vidc_inst \<times> 'w) option" where
  "client_step ops (Event event) w inst = do {
     (rc, inst, w) \<leftarrow> call_event_handle (flow_calls ops) w (inst\<lparr>inst_locked := True\<rparr>) event;
     let inst = (if rc \<noteq> 0 \<and> fails_session event then snd (msm_vidc_change_state inst MSM_VIDC_ERROR) else inst);
     Some (rc, inst\<lparr>inst_locked := False\<rparr>, w)
   }"
| "client_step ops Close w inst =
    (let (_, inst, w) = msm_vidc_session_close ops w (inst\<lparr>inst_locked := True\<rparr>);
         inst = snd (msm_vidc_change_state inst MSM_VIDC_CLOSE) in
     Some (0, inst\<lparr>inst_sub_state := 0, inst_locked := False\<rparr>, w))"

text \<open>Requests of the client and packets of the firmware, in any order.\<close>

datatype session_step = Client client_call | Firmware inst_event

fun session_run :: "'w inst_ops \<Rightarrow> session_step list \<Rightarrow> 'w \<Rightarrow> msm_vidc_inst \<Rightarrow> (int list \<times> msm_vidc_inst \<times> 'w) option" where
  "session_run ops [] w inst = Some ([], inst, w)"
| "session_run ops (Client c # steps) w inst = do {
     (rc, inst, w) \<leftarrow> client_step ops c w inst;
     (rcs, inst, w) \<leftarrow> session_run ops steps w inst;
     Some (rc # rcs, inst, w)
   }"
| "session_run ops (Firmware e # steps) w inst = do {
     (rcs, inst, w) \<leftarrow> session_run ops steps w (inst_packet e inst);
     Some (rcs, inst, w)
   }"

end
