(* ===== verification/Vidc_Inst_Run.thy ===== *)
theory Vidc_Inst_Run
  imports Vidc_Inst_Flow
begin

text \<open>
  The flow of a session keeps it well formed: one lemma for each function of the driver, collected in
  \<open>inst_keeps\<close>, up to every history of requests of the client and packets of the firmware.
\<close>

section \<open>Sub-states to clear\<close>

text \<open>A sequence is never cleared without its last buffer.\<close>

definition good_clear :: "uint32 \<Rightarrow> bool" where
  "good_clear c \<longleftrightarrow> (bit c 1 \<longrightarrow> bit c 3) \<and> (bit c 0 \<longrightarrow> bit c 2)"

lemma good_clear_simps [simp]:
  "good_clear 0" "good_clear 10" "good_clear 5" "good_clear 16" "good_clear 32"
  "good_clear (c OR 16) = good_clear c" "good_clear (c OR 32) = good_clear c" "good_clear (c OR 64) = good_clear c"
  by (simp_all add: good_clear_def bit_simps)

named_theorems inst_keeps

text \<open>
  The session is well formed, its kind is fixed, and a session that has failed (the flag \<open>b\<close>) has failed for
  good.
\<close>

definition inst_inv :: "uint32 \<Rightarrow> bool \<Rightarrow> msm_vidc_inst \<Rightarrow> bool" where
  "inst_inv d b inst \<longleftrightarrow> inst_ok inst \<and> inst_domain inst = d \<and> (b \<longrightarrow> inst_state inst = MSM_VIDC_ERROR)"

lemma state_keeps [inst_keeps]: "inst_inv d b inst \<Longrightarrow> inst_inv d b (snd (msm_vidc_change_state inst t))"
  using inst_ok_change_state [of inst t]
  by (auto simp: inst_inv_def change_state inst_edge.simps)

lemma sub_state_keeps:
  "inst_inv d b inst \<Longrightarrow> inst_ok (snd (msm_vidc_change_sub_state inst c s)) \<Longrightarrow>
   inst_inv d b (snd (msm_vidc_change_sub_state inst c s))"
  by (simp add: inst_inv_def)

lemma clear_keeps [inst_keeps]:
  "inst_inv d b inst \<Longrightarrow> good_clear c \<Longrightarrow> inst_inv d b (snd (msm_vidc_change_sub_state inst c 0))"
  by (rule sub_state_keeps, assumption, rule inst_ok_change_sub_state) (simp_all add: good_clear_def inst_inv_def)

lemma set_keeps [inst_keeps]:
  "inst_inv d b inst \<Longrightarrow> \<not> bit s 3 \<Longrightarrow> \<not> bit s 2 \<Longrightarrow> inst_inv d b (snd (msm_vidc_change_sub_state inst 0 s))"
  by (rule sub_state_keeps, assumption, rule inst_ok_change_sub_state) (simp_all add: inst_inv_def)

lemma last_keeps:
  "inst_inv d b inst \<Longrightarrow> (bit s 3 \<Longrightarrow> bit (inst_sub_state inst) 1) \<Longrightarrow> (bit s 2 \<Longrightarrow> bit (inst_sub_state inst) 0) \<Longrightarrow>
   inst_inv d b (snd (msm_vidc_change_sub_state inst 0 s))"
  by (rule sub_state_keeps, assumption, rule inst_ok_change_sub_state) (simp_all add: inst_inv_def)

lemma keeps_locked [inst_keeps]: "inst_inv d b (inst\<lparr>inst_locked := l\<rparr>) = inst_inv d b inst"
  by (simp add: inst_inv_def inst_ok_def)

section \<open>The driver's functions\<close>

lemma streamon_keeps [inst_keeps]: "inst_inv d b inst \<Longrightarrow> inst_inv d b (snd (msm_vidc_state_change_streamon inst p))"
  by (simp add: msm_vidc_state_change_streamon_def state_keeps)

lemma streamoff_keeps [inst_keeps]: "inst_inv d b inst \<Longrightarrow> inst_inv d b (snd (msm_vidc_state_change_streamoff inst p))"
  by (simp add: msm_vidc_state_change_streamoff_def state_keeps)

lemma drain_keeps [inst_keeps]: "inst_inv d b inst \<Longrightarrow> inst_inv d b (fst (snd (msm_vidc_process_drain ops w inst)))"
  by (simp add: msm_vidc_process_drain_def case_prod_beta inst_keeps)

lemma resume_ports_clear: "good_clear c \<Longrightarrow> good_clear (fst (snd (resume_ports ops w inst cmd c)))"
  by (simp add: resume_ports_def case_prod_beta Let_def)

lemma resume_keeps [inst_keeps]: "inst_inv d b inst \<Longrightarrow> inst_inv d b (fst (snd (msm_vidc_process_resume ops w inst)))"
  by (simp add: msm_vidc_process_resume_def case_prod_beta Let_def inst_keeps resume_ports_clear)

lemma streamon_input_keeps [inst_keeps]:
  "inst_inv d b inst \<Longrightarrow> inst_inv d b (fst (snd (msm_vidc_process_streamon_input ops w inst)))"
  by (simp add: msm_vidc_process_streamon_input_def case_prod_beta Let_def inst_keeps)

lemma streamon_output_keeps [inst_keeps]:
  "inst_inv d b inst \<Longrightarrow> inst_inv d b (fst (snd (msm_vidc_process_streamon_output ops w inst)))"
  by (simp add: msm_vidc_process_streamon_output_def case_prod_beta Let_def inst_keeps)

lemma stop_done_keeps [inst_keeps]: "inst_inv d b inst \<Longrightarrow> inst_inv d b (fst (snd (msm_vidc_process_stop_done inst s)))"
  by (cases s) (simp_all add: msm_vidc_process_stop_done_def case_prod_beta Let_def inst_keeps)

lemma drain_done_keeps [inst_keeps]: "inst_inv d b inst \<Longrightarrow> inst_inv d b (snd (msm_vidc_process_drain_done inst))"
  by (simp add: msm_vidc_process_drain_done_def inst_keeps)

lemma input_psc_keeps [inst_keeps]: "inst_inv d b inst \<Longrightarrow> inst_inv d b (snd (msm_vidc_state_change_input_psc inst))"
  by (simp add: msm_vidc_state_change_input_psc_def inst_keeps)

lemma drain_last_keeps [inst_keeps]:
  "inst_inv d b inst \<Longrightarrow> msm_vidc_allow_drain_last_flag inst \<Longrightarrow> inst_inv d b (snd (msm_vidc_process_drain_last_flag inst))"
  unfolding msm_vidc_process_drain_last_flag_def msm_vidc_state_change_drain_last_flag_def
  by (rule last_keeps) (simp_all add: msm_vidc_allow_drain_last_flag_def is_sub_state_def)

lemma psc_last_keeps [inst_keeps]:
  "inst_inv d b inst \<Longrightarrow> msm_vidc_allow_psc_last_flag inst \<Longrightarrow> inst_inv d b (snd (msm_vidc_process_psc_last_flag inst))"
  unfolding msm_vidc_process_psc_last_flag_def msm_vidc_state_change_psc_last_flag_def
  by (rule last_keeps) (simp_all add: msm_vidc_allow_psc_last_flag_def is_sub_state_def)

section \<open>Packets\<close>

lemma answer_keeps [inst_keeps]: "inst_inv d b inst \<Longrightarrow> inst_inv d b (snd (inst_answer e inst))"
  by (cases e) (simp_all add: handle_session_stop_def handle_session_drain_def handle_session_last_flag_info_def
      handle_port_settings_change_def handle_input_port_settings_change_def case_prod_beta Let_def inst_keeps)

lemma packet_keeps [inst_keeps]: "inst_inv d b inst \<Longrightarrow> inst_inv d b (inst_packet e inst)"
  by (simp add: inst_packet_def case_prod_beta inst_keeps)

lemma packets_keep [inst_keeps]: "inst_inv d b inst \<Longrightarrow> inst_inv d b (inst_packets es inst)"
  by (induction es arbitrary: inst) (simp_all add: inst_keeps)

section \<open>Requests\<close>

lemma wait_keeps [inst_keeps]: "inst_inv d b inst \<Longrightarrow> inst_inv d b (fst (snd (wait_for_response ops w inst s)))"
  by (simp add: wait_for_response_def case_prod_beta Let_def inst_keeps)

lemma close_keeps [inst_keeps]: "inst_inv d b inst \<Longrightarrow> inst_inv d b (fst (snd (msm_vidc_session_close ops w inst)))"
  by (simp add: msm_vidc_session_close_def case_prod_beta inst_keeps)

lemma kill_keeps [inst_keeps]: "inst_inv d b inst \<Longrightarrow> inst_inv d b (fst (snd (msm_vidc_kill_session ops w inst)))"
  by (simp add: msm_vidc_kill_session_def case_prod_beta inst_keeps)

lemma session_streamoff_keeps [inst_keeps]:
  "inst_inv d b inst \<Longrightarrow> inst_inv d b (fst (snd (msm_vidc_session_streamoff ops w inst p)))"
  by (simp add: msm_vidc_session_streamoff_def case_prod_beta Let_def inst_keeps)

lemma streamon_input_with_keeps [inst_keeps]:
  "inst_inv d b inst \<Longrightarrow> inst_inv d b (fst (snd (streamon_input_with ops prep post w inst)))"
  by (simp add: streamon_input_with_def case_prod_beta inst_keeps)

lemma streamon_output_with_keeps [inst_keeps]:
  "inst_inv d b inst \<Longrightarrow> inst_inv d b (fst (snd (streamon_output_with ops prep post w inst)))"
  by (simp add: streamon_output_with_def case_prod_beta Let_def inst_keeps)

lemma streamon_ports_keep [inst_keeps]:
  assumes "inst_inv d b inst"
  shows "inst_inv d b (fst (snd (msm_vdec_streamon_input ops w inst)))"
    and "inst_inv d b (fst (snd (msm_venc_streamon_input ops w inst)))"
    and "inst_inv d b (fst (snd (msm_vdec_streamon_output ops w inst)))"
    and "inst_inv d b (fst (snd (msm_venc_streamon_output ops w inst)))"
  using assms by (simp_all add: msm_vdec_streamon_input_def msm_venc_streamon_input_def
      msm_vdec_streamon_output_def msm_venc_streamon_output_def case_prod_beta Let_def inst_keeps)

lemma start_streaming_keeps [inst_keeps]:
  "inst_inv d b inst \<Longrightarrow> inst_inv d b (fst (snd (msm_vidc_start_streaming ops w inst q)))"
  by (simp add: msm_vidc_start_streaming_def case_prod_beta Let_def inst_keeps)

lemma stop_streaming_keeps [inst_keeps]:
  "inst_inv d b inst \<Longrightarrow> inst_inv d b (fst (snd (msm_vidc_stop_streaming ops w inst q)))"
  by (simp add: msm_vidc_stop_streaming_def inst_keeps)

lemma start_cmd_keeps [inst_keeps]: "inst_inv d b inst \<Longrightarrow> inst_inv d b (fst (snd (msm_vidc_start_cmd ops w inst)))"
  by (simp add: msm_vidc_start_cmd_def msm_vdec_start_cmd_def msm_venc_start_cmd_def case_prod_beta inst_keeps)

lemma stop_cmd_keeps [inst_keeps]: "inst_inv d b inst \<Longrightarrow> inst_inv d b (fst (snd (msm_vidc_stop_cmd ops w inst)))"
  by (simp add: msm_vidc_stop_cmd_def inst_keeps)

lemma perform_keeps [inst_keeps]: "inst_inv d b inst \<Longrightarrow> inst_inv d b (fst (snd (perform (flow_calls ops) w inst ev)))"
  by (cases ev) (simp_all add: flow_calls_def other_call_def case_prod_beta inst_keeps)

lemma handler_keeps [inst_keeps]:
  assumes "inst_inv d b inst"
  shows "inst_inv d b (fst (snd (state_handler (inst_state inst) (flow_calls ops) w inst ev)))"
  using assms by (simp add: verdict_correct inst_keeps split: verdict.split)

text \<open>Every request and every packet returns and keeps the session well formed.\<close>

lemma client_step_keeps:
  assumes "inst_inv d b inst"
  obtains rc inst' w' where "client_step ops c w inst = Some (rc, inst', w')" and "inst_inv d b inst'"
proof (cases c)
  case (Event ev)
  let ?i = "inst\<lparr>inst_locked := True\<rparr>"
  have ok: "inst_inv d b ?i" using assms by (simp add: inst_keeps)
  obtain rc inst1 w1 where r: "state_handler (inst_state ?i) (flow_calls ops) w ?i ev = (rc, inst1, w1)"
    by (cases "state_handler (inst_state ?i) (flow_calls ops) w ?i ev")
  have "inst_inv d b inst1" using handler_keeps [OF ok, of ops w ev] r by simp
  moreover have "call_event_handle (flow_calls ops) w ?i ev = Some (rc, inst1, w1)"
    using ok r by (simp add: call_event_handle_def inst_inv_def inst_ok_def)
  ultimately show thesis
    using Event
    by (intro that [of rc "(if rc \<noteq> 0 \<and> fails_session ev then snd (msm_vidc_change_state inst1 MSM_VIDC_ERROR) else inst1)
      \<lparr>inst_locked := False\<rparr>" w1]) (simp_all add: Let_def inst_keeps)
next
  case Close
  have "inst_inv d b (fst (snd (msm_vidc_session_close ops w (inst\<lparr>inst_locked := True\<rparr>))))"
    using assms by (simp add: inst_keeps)
  then have "inst_inv d b (snd (msm_vidc_change_state (fst (snd (msm_vidc_session_close ops w
      (inst\<lparr>inst_locked := True\<rparr>)))) MSM_VIDC_CLOSE))"
    by (rule state_keeps)
  then show thesis using Close
    by (intro that) (auto simp: case_prod_beta Let_def inst_inv_def inst_ok_def subs_ok_def)
qed

lemma session_run_keeps:
  "inst_inv d b inst \<Longrightarrow> \<exists>rcs inst' w'. session_run ops steps w inst = Some (rcs, inst', w') \<and> inst_inv d b inst'"
proof (induction steps arbitrary: w inst)
  case (Cons step steps)
  show ?case
  proof (cases step)
    case (Client c)
    obtain rc inst1 w1 where c: "client_step ops c w inst = Some (rc, inst1, w1)" and "inst_inv d b inst1"
      by (rule client_step_keeps [OF Cons.prems])
    then obtain rcs inst' w' where "session_run ops steps w1 inst1 = Some (rcs, inst', w')" "inst_inv d b inst'"
      using Cons.IH by metis
    with c Client show ?thesis by simp
  next
    case (Firmware e)
    have "inst_inv d b (inst_packet e inst)" using Cons.prems by (rule packet_keeps)
    then obtain rcs inst' w' where "session_run ops steps w (inst_packet e inst) = Some (rcs, inst', w')" "inst_inv d b inst'"
      using Cons.IH by metis
    with Firmware show ?thesis by simp
  qed
qed simp

end
