(* ===== verification/Vidc_Core_Power.thy ===== *)
theory Vidc_Core_Power
  imports Vidc_Core_State
begin

text \<open>
  Power and firmware of the video core: the functions of \<open>venus_hfi.c\<close> that change the core's sub-states.

  What they call in turn - the platform's power and clock code, the firmware loader, the packets they send
  and the flush of the debug queue - is a parameter, one function for every call, which gets the core and
  returns a code and the core.  \<open>fw_cookie\<close> says whether a firmware is loaded, and \<open>sys_init_packet\<close> is the
  identifier of the packet with which \<open>__sys_init\<close> started the firmware last.
\<close>

section \<open>The calls\<close>

datatype hw_call =
  Power_On | Power_Off | Prepare_Pc | Boot_Firmware | Fw_Load | Fw_Unload | Fw_Suspend | Fw_Resume
  | Gdsc_Hw_Ctrl | Gdsc_Sw_Ctrl | Llcc bool | Flush_Debug_Queue bool | Set_Subcaches | Release_Subcaches
  | Sys_Set_Debug | Sys_Init | Sys_Image_Version | Sys_Powercollapse bool | Queue_Init

record 'w core_hw =
  hw_do :: "hw_call \<Rightarrow> 'w \<Rightarrow> msm_vidc_core \<Rightarrow> (int \<times> msm_vidc_core \<times> 'w) option"
  fw_cookie :: "'w \<Rightarrow> bool"
  sys_init_packet :: "'w \<Rightarrow> msm_vidc_core \<Rightarrow> uint32"

type_synonym 'w core_action = "'w \<Rightarrow> msm_vidc_core \<Rightarrow> (int \<times> msm_vidc_core \<times> 'w) option"

definition act :: "'w core_hw \<Rightarrow> hw_call \<Rightarrow> 'w core_action" where
  "act hw c w core = hw_do hw c w core"

definition sub_state_act :: "uint32 \<Rightarrow> uint32 \<Rightarrow> 'w core_action" where
  "sub_state_act c s w core =
    map_option (\<lambda>(rc, core). (rc, core, w)) (msm_vidc_change_core_sub_state core c s)"

abbreviation (input) EAGAIN :: int where "EAGAIN \<equiv> 11"

section \<open>Power\<close>

definition venus_power_off :: "'w core_hw \<Rightarrow> 'w core_action" where
  "venus_power_off hw w core =
    (if \<not> is_core_sub_state core CORE_SUBSTATE_POWER_ENABLE then Some (0, core, w)
     else do {
       (rc, core, w) \<leftarrow> act hw Power_Off w core;
       if rc \<noteq> 0 then Some (rc, core, w)
       else do {
         (_, core, w) \<leftarrow> sub_state_act CORE_SUBSTATE_POWER_ENABLE 0 w core;
         Some (rc, core, w)
       }
     })"

definition venus_power_on :: "'w core_hw \<Rightarrow> 'w core_action" where
  "venus_power_on hw w core =
    (if is_core_sub_state core CORE_SUBSTATE_POWER_ENABLE then Some (0, core, w)
     else do {
       (rc, core, w) \<leftarrow> act hw Power_On w core;
       if rc \<noteq> 0 then Some (rc, core, w) else sub_state_act 0 CORE_SUBSTATE_POWER_ENABLE w core
     })"

definition venus_suspend :: "'w core_hw \<Rightarrow> 'w core_action" where
  "venus_suspend hw w core =
    (if \<not> is_core_sub_state core CORE_SUBSTATE_POWER_ENABLE then Some (0, core, w)
     else if strict_check core \<noteq> 0 then Some (strict_check core, core, w)
     else do {
       (rc, core, w) \<leftarrow> act hw Fw_Suspend w core;
       if rc \<noteq> 0 then Some (rc, core, w)
       else do {
         (_, core, w) \<leftarrow> act hw (Llcc False) w core;
         (_, core, w) \<leftarrow> venus_power_off hw w core;
         Some (rc, core, w)
       }
     })"

definition sys_set_power_control :: "'w core_hw \<Rightarrow> bool \<Rightarrow> 'w core_action" where
  "sys_set_power_control hw enable w core =
    (if \<not> is_core_sub_state core CORE_SUBSTATE_GDSC_HANDOFF then Some (0, core, w)
     else if \<not> core_in_valid_state core then Some (0, core, w)
     else do {
       (rc, core, w) \<leftarrow> act hw (Sys_Powercollapse enable) w core;
       if rc \<noteq> 0 then Some (rc, core, w) else sub_state_act 0 CORE_SUBSTATE_FW_PWR_CTRL w core
     })"

text \<open>The end of \<open>__resume\<close>, from the boot of the firmware on, and its error paths.\<close>

definition resume_booted :: "'w core_hw \<Rightarrow> 'w core_action" where
  "resume_booted hw w core = do {
    (_, core, w) \<leftarrow> act hw Sys_Set_Debug w core;
    (rc, core, w) \<leftarrow> act hw (Llcc True) w core;
    if rc \<noteq> 0 then do {
      (_, core, w) \<leftarrow> act hw Fw_Suspend w core;
      (_, core, w) \<leftarrow> venus_power_off hw w core;
      Some (rc, core, w)
    } else do {
      (_, core, w) \<leftarrow> act hw Set_Subcaches w core;
      (rc, core, w) \<leftarrow> sys_set_power_control hw True w core;
      if rc \<noteq> 0 then do {
        (_, core, w) \<leftarrow> act hw Gdsc_Sw_Ctrl w core;
        Some (0, core, w)
      } else Some (0, core, w)
    }
  }"

definition venus_resume :: "'w core_hw \<Rightarrow> 'w core_action" where
  "venus_resume hw w core =
    (if is_core_sub_state core CORE_SUBSTATE_POWER_ENABLE then Some (0, core, w)
     else if \<not> core_in_valid_state core then Some (- EINVAL, core, w)
     else if strict_check core \<noteq> 0 then Some (strict_check core, core, w)
     else do {
       (rc, core, w) \<leftarrow> sub_state_act CORE_SUBSTATE_GDSC_HANDOFF 0 w core;
       if rc \<noteq> 0 then Some (rc, core, w)
       else do {
         (rc, core, w) \<leftarrow> sub_state_act CORE_SUBSTATE_FW_PWR_CTRL 0 w core;
         if rc \<noteq> 0 then Some (rc, core, w)
         else do {
           (rc, core, w) \<leftarrow> venus_power_on hw w core;
           if rc \<noteq> 0 then Some (rc, core, w)
           else do {
             (rc, core, w) \<leftarrow> act hw Fw_Resume w core;
             if rc \<noteq> 0 then do {
               (_, core, w) \<leftarrow> venus_power_off hw w core;
               Some (rc, core, w)
             } else do {
               (_, core, w) \<leftarrow> act hw Gdsc_Hw_Ctrl w core;
               (rc, core, w) \<leftarrow> act hw Boot_Firmware w core;
               if rc \<noteq> 0 then do {
                 (_, core, w) \<leftarrow> act hw Fw_Suspend w core;
                 (_, core, w) \<leftarrow> venus_power_off hw w core;
                 Some (rc, core, w)
               } else resume_booted hw w core
             }
           }
         }
       }
     })"

definition power_collapse :: "'w core_hw \<Rightarrow> bool \<Rightarrow> 'w core_action" where
  "power_collapse hw force w core =
    (if \<not> is_core_sub_state core CORE_SUBSTATE_POWER_ENABLE then Some (0, core, w)
     else if \<not> core_in_valid_state core then Some (- EINVAL, core, w)
     else do {
       (_, core, w) \<leftarrow> act hw (Flush_Debug_Queue force) w core;
       (rc, core, w) \<leftarrow> act hw Prepare_Pc w core;
       if rc \<noteq> 0 then Some (- EAGAIN, core, w) else venus_suspend hw w core
     })"

section \<open>The firmware\<close>

definition load_fw :: "'w core_hw \<Rightarrow> 'w core_action" where
  "load_fw hw w core = do {
    (_, core, w) \<leftarrow> sub_state_act (CORE_SUBSTATE_MAX - 1) 0 w core;
    (rc, core, w) \<leftarrow> venus_power_on hw w core;
    if rc \<noteq> 0 then Some (rc, core, w)
    else do {
      (rc, core, w) \<leftarrow> act hw Fw_Load w core;
      if rc \<noteq> 0 then do {
        (_, core, w) \<leftarrow> venus_power_off hw w core;
        Some (rc, core, w)
      } else do {
        (_, core, w) \<leftarrow> act hw Gdsc_Hw_Ctrl w core;
        Some (rc, core, w)
      }
    }
  }"

definition unload_fw :: "'w core_hw \<Rightarrow> 'w core_action" where
  "unload_fw hw w core =
    (if \<not> fw_cookie hw w then Some (0, core, w)
     else do {
       (_, core, w) \<leftarrow> act hw Fw_Unload w core;
       (_, core, w) \<leftarrow> venus_power_off hw w core;
       (_, core, w) \<leftarrow> sub_state_act (CORE_SUBSTATE_MAX - 1) 0 w core;
       Some (0, core, w)
     })"

text \<open>The first calls of \<open>venus_hfi_core_init\<close>, of which one that fails ends it.\<close>

fun act_all :: "'w core_hw \<Rightarrow> hw_call list \<Rightarrow> 'w core_action" where
  "act_all hw [] w core = Some (0, core, w)"
| "act_all hw (c # cs) w core = do {
     (rc, core, w) \<leftarrow> act hw c w core;
     if rc \<noteq> 0 then Some (rc, core, w) else act_all hw cs w core
   }"

definition venus_hfi_core_init :: "'w core_hw \<Rightarrow> 'w core_action" where
  "venus_hfi_core_init hw w core =
    (if strict_check core \<noteq> 0 then Some (strict_check core, core, w)
     else do {
       (rc, core, w) \<leftarrow> act hw Queue_Init w core;
       if rc \<noteq> 0 then Some (rc, core, w)
       else do {
         (rc, core, w) \<leftarrow> load_fw hw w core;
         if rc \<noteq> 0 then Some (rc, core, w)
         else do {
           (rc, core, w) \<leftarrow> act_all hw
             [Boot_Firmware, Llcc True, Sys_Init, Sys_Image_Version, Sys_Set_Debug, Set_Subcaches] w core;
           if rc \<noteq> 0 then Some (rc, core, w)
           else do {
             (rc, core, w) \<leftarrow> sys_set_power_control hw True w core;
             if rc \<noteq> 0 then do {
               (_, core, w) \<leftarrow> act hw Gdsc_Sw_Ctrl w core;
               Some (0, core, w)
             } else Some (0, core, w)
           }
         }
       }
     })"

definition venus_hfi_core_deinit :: "'w core_hw \<Rightarrow> bool \<Rightarrow> 'w core_action" where
  "venus_hfi_core_deinit hw force w core =
    (if strict_check core \<noteq> 0 then Some (strict_check core, core, w)
     else if core_state core = MSM_VIDC_CORE_DEINIT then Some (0, core, w)
     else do {
       (_, core, w) \<leftarrow> venus_resume hw w core;
       (_, core, w) \<leftarrow> act hw (Flush_Debug_Queue force) w core;
       (_, core, w) \<leftarrow> act hw Release_Subcaches w core;
       (_, core, w) \<leftarrow> act hw (Llcc False) w core;
       (_, core, w) \<leftarrow> unload_fw hw w core;
       Some (0, core, w)
     })"

section \<open>What the calls leave alone\<close>

text \<open>
  The hypothesis about the calls that are parameters: they return, keep the core well formed and change
  neither its state nor its lock.
\<close>

definition hw_ok :: "'w core_hw \<Rightarrow> bool" where
  "hw_ok hw \<longleftrightarrow>
    (\<forall>c w core. core_ok core \<longrightarrow>
      (\<exists>rc core' w'. hw_do hw c w core = Some (rc, core', w') \<and> core_ok core'
        \<and> core_state core' = core_state core \<and> core_lock_held core' = core_lock_held core))"

text \<open>
  Every function here shares this contract, which is proved along its text: it returns, and the state and
  the lock of the core are as before.
\<close>

definition keeps_core :: "'w core_action \<Rightarrow> bool" where
  "keeps_core f \<longleftrightarrow>
    (\<forall>w core. core_ok core \<longrightarrow>
      (\<exists>rc core' w'. f w core = Some (rc, core', w') \<and> core_ok core' \<and> core_state core' = core_state core
        \<and> core_lock_held core' = core_lock_held core))"

named_theorems core_keeps

lemma keeps_act [core_keeps]:
  assumes "hw_ok hw"
  shows "keeps_core (act hw c)"
  using assms by (simp add: keeps_core_def act_def hw_ok_def)

lemma keeps_sub_state [core_keeps]: "keeps_core (sub_state_act c s)"
  unfolding keeps_core_def
proof (intro allI impI)
  fix w core
  assume ok: "core_ok core"
  obtain rc core' where e: "msm_vidc_change_core_sub_state core c s = Some (rc, core')"
    using change_core_sub_state_defined [OF ok] by metis
  with core_ok_change_sub_state [OF ok e]
  show "\<exists>rc core' w'. sub_state_act c s w core = Some (rc, core', w') \<and> core_ok core'
      \<and> core_state core' = core_state core \<and> core_lock_held core' = core_lock_held core"
    by (simp add: sub_state_act_def)
qed

lemma keeps_return [core_keeps]: "keeps_core (\<lambda>w core. Some (f core, core, w))"
  by (simp add: keeps_core_def)

lemma keeps_core_bind [core_keeps]:
  assumes "keeps_core f" and "\<And>rc. keeps_core (g rc)"
  shows "keeps_core (\<lambda>w core. f w core \<bind> (\<lambda>(rc, core, w). g rc w core))"
  unfolding keeps_core_def
proof (intro allI impI)
  fix w core
  assume "core_ok core"
  then obtain rc c1 w1 where f: "f w core = Some (rc, c1, w1)" and c1: "core_ok c1"
    "core_state c1 = core_state core" "core_lock_held c1 = core_lock_held core"
    using assms(1) unfolding keeps_core_def by blast
  obtain rc' c2 w2 where "g rc w1 c1 = Some (rc', c2, w2)" "core_ok c2" "core_state c2 = core_state c1"
    "core_lock_held c2 = core_lock_held c1"
    using assms(2) [of rc] c1(1) unfolding keeps_core_def by blast
  with f c1 show "\<exists>rc core' w'. f w core \<bind> (\<lambda>(rc, core, w). g rc w core) = Some (rc, core', w')
      \<and> core_ok core' \<and> core_state core' = core_state core \<and> core_lock_held core' = core_lock_held core"
    by simp
qed

lemma keeps_core_if [core_keeps]:
  "keeps_core f \<Longrightarrow> keeps_core g \<Longrightarrow> keeps_core (\<lambda>w core. if b w core then f w core else g w core)"
  by (simp add: keeps_core_def)

lemma keeps_if_const [core_keeps]:
  "keeps_core f \<Longrightarrow> keeps_core g \<Longrightarrow> keeps_core (\<lambda>w core. if b then f w core else g w core)"
  by (simp add: keeps_core_def)

lemma keeps_act_all [core_keeps]: "hw_ok hw \<Longrightarrow> keeps_core (act_all hw cs)"
proof (induction cs)
  case Nil
  show ?case using keeps_return [of "\<lambda>_. 0"] by (simp add: keeps_core_def)
next
  case (Cons c cs)
  have "keeps_core (\<lambda>w core. act_all hw (c # cs) w core)"
    unfolding act_all.simps by (intro core_keeps Cons)
  then show ?case by simp
qed

lemma keeps_venus_power_off [core_keeps]:
  assumes "hw_ok hw"
  shows "keeps_core (venus_power_off hw)"
proof -
  have "keeps_core (\<lambda>w core. venus_power_off hw w core)"
    unfolding venus_power_off_def by (intro core_keeps assms)
  then show ?thesis by simp
qed

lemma keeps_venus_power_on [core_keeps]:
  assumes "hw_ok hw"
  shows "keeps_core (venus_power_on hw)"
proof -
  have "keeps_core (\<lambda>w core. venus_power_on hw w core)"
    unfolding venus_power_on_def by (intro core_keeps assms)
  then show ?thesis by simp
qed

lemma keeps_venus_suspend [core_keeps]:
  assumes "hw_ok hw"
  shows "keeps_core (venus_suspend hw)"
proof -
  have "keeps_core (\<lambda>w core. venus_suspend hw w core)"
    unfolding venus_suspend_def by (intro core_keeps assms)
  then show ?thesis by simp
qed

lemma keeps_sys_set_power_control [core_keeps]:
  assumes "hw_ok hw"
  shows "keeps_core (sys_set_power_control hw enable)"
proof -
  have "keeps_core (\<lambda>w core. sys_set_power_control hw enable w core)"
    unfolding sys_set_power_control_def by (intro core_keeps assms)
  then show ?thesis by simp
qed

lemma keeps_resume_booted [core_keeps]:
  assumes "hw_ok hw"
  shows "keeps_core (resume_booted hw)"
proof -
  have "keeps_core (\<lambda>w core. resume_booted hw w core)"
    unfolding resume_booted_def by (intro core_keeps assms)
  then show ?thesis by simp
qed

lemma keeps_venus_resume [core_keeps]:
  assumes "hw_ok hw"
  shows "keeps_core (venus_resume hw)"
proof -
  have "keeps_core (\<lambda>w core. venus_resume hw w core)"
    unfolding venus_resume_def by (intro core_keeps assms)
  then show ?thesis by simp
qed

lemma keeps_power_collapse [core_keeps]:
  assumes "hw_ok hw"
  shows "keeps_core (power_collapse hw force)"
proof -
  have "keeps_core (\<lambda>w core. power_collapse hw force w core)"
    unfolding power_collapse_def by (intro core_keeps assms)
  then show ?thesis by simp
qed

lemma keeps_load_fw [core_keeps]:
  assumes "hw_ok hw"
  shows "keeps_core (load_fw hw)"
proof -
  have "keeps_core (\<lambda>w core. load_fw hw w core)"
    unfolding load_fw_def by (intro core_keeps assms)
  then show ?thesis by simp
qed

lemma keeps_unload_fw [core_keeps]:
  assumes "hw_ok hw"
  shows "keeps_core (unload_fw hw)"
proof -
  have "keeps_core (\<lambda>w core. unload_fw hw w core)"
    unfolding unload_fw_def by (intro core_keeps assms)
  then show ?thesis by simp
qed

lemma keeps_venus_hfi_core_init [core_keeps]:
  assumes "hw_ok hw"
  shows "keeps_core (venus_hfi_core_init hw)"
proof -
  have "keeps_core (\<lambda>w core. venus_hfi_core_init hw w core)"
    unfolding venus_hfi_core_init_def by (intro core_keeps assms)
  then show ?thesis by simp
qed

lemma keeps_venus_hfi_core_deinit [core_keeps]:
  assumes "hw_ok hw"
  shows "keeps_core (venus_hfi_core_deinit hw force)"
proof -
  have "keeps_core (\<lambda>w core. venus_hfi_core_deinit hw force w core)"
    unfolding venus_hfi_core_deinit_def by (intro core_keeps assms)
  then show ?thesis by simp
qed

end
