(* ===== verification/Vidc_Core_Life.thy ===== *)
theory Vidc_Core_Life
  imports Vidc_Core_Power Vidc_Inst_State
begin

text \<open>
  The life of the video core and its sessions: \<open>msm_vidc_core_init\<close>, \<open>msm_vidc_core_init_wait\<close>,
  \<open>msm_vidc_core_deinit\<close> and \<open>msm_vidc_inst_timeout\<close> of \<open>msm_vidc_driver.c\<close>, with the lists of sessions, and
  the answers of the firmware that end them (\<open>venus_hfi_response.c\<close>, \<open>venus_hfi.c\<close>).

  The sessions are in a store by address.  An operation that takes the core's lock is one step; the loop of
  \<open>msm_vidc_core_init_wait\<close>, which releases it, is given the steps of the other threads.
\<close>

section \<open>The driver's state\<close>

record vidc_sys =
  sys_core :: msm_vidc_core
  sys_insts :: "nat \<Rightarrow> msm_vidc_inst"
  instances :: "nat list"
  dangling_instances :: "nat list"
  sys_init_id :: uint32
  max_session_count :: nat
  skip_pc_count :: uint32

definition HFI_FW_FLAGS_SUCCESS :: uint32 where "HFI_FW_FLAGS_SUCCESS = 1"
definition VIDC_MAX_PC_SKIP_COUNT :: uint32 where "VIDC_MAX_PC_SKIP_COUNT = 10"

definition sys_with :: "vidc_sys \<Rightarrow> msm_vidc_core \<Rightarrow> vidc_sys" where
  "sys_with s core = s\<lparr>sys_core := core\<rparr>"

definition lock_core :: "vidc_sys \<Rightarrow> vidc_sys" where
  "lock_core s = sys_with s ((sys_core s)\<lparr>core_lock_held := True\<rparr>)"

definition unlock_core :: "vidc_sys \<Rightarrow> vidc_sys" where
  "unlock_core s = sys_with s ((sys_core s)\<lparr>core_lock_held := False\<rparr>)"

definition change_core :: "vidc_sys \<Rightarrow> msm_vidc_core_state \<Rightarrow> vidc_sys" where
  "change_core s t = sys_with s (snd (msm_vidc_change_core_state (sys_core s) t))"

definition change_inst :: "vidc_sys \<Rightarrow> nat \<Rightarrow> msm_vidc_state \<Rightarrow> vidc_sys" where
  "change_inst s i t =
    s\<lparr>sys_insts := (sys_insts s)(i := snd (msm_vidc_change_state (sys_insts s i) t))\<rparr>"

text \<open>An action on the core, within the driver.\<close>

type_synonym 'w sys_action = "'w \<Rightarrow> vidc_sys \<Rightarrow> (int \<times> vidc_sys \<times> 'w) option"

definition on_core :: "'w core_action \<Rightarrow> 'w sys_action" where
  "on_core f w s = map_option (\<lambda>(rc, core, w). (rc, sys_with s core, w)) (f w (sys_core s))"

definition set_core_sub_state :: "uint32 \<Rightarrow> uint32 \<Rightarrow> 'w sys_action" where
  "set_core_sub_state c s = on_core (sub_state_act c s)"

definition valdiate_session :: "vidc_sys \<Rightarrow> nat \<Rightarrow> bool" where
  "valdiate_session s i \<longleftrightarrow> strict_check (sys_core s) = 0 \<and> i \<in> set (instances s)"

section \<open>Deinitialising\<close>

text \<open>The loop over the sessions: each one fails and moves to the tail of the list of dangling ones.\<close>

fun unlink_sessions :: "nat list \<Rightarrow> vidc_sys \<Rightarrow> vidc_sys" where
  "unlink_sessions [] s = s"
| "unlink_sessions (i # is) s =
     (let s = change_inst s i MSM_VIDC_ERROR in
      unlink_sessions is (s\<lparr>instances := removeAll i (instances s),
        dangling_instances := dangling_instances s @ [i]\<rparr>))"

definition msm_vidc_core_deinit_locked :: "'w core_hw \<Rightarrow> bool \<Rightarrow> 'w sys_action" where
  "msm_vidc_core_deinit_locked hw force w s =
    (let rc = strict_check (sys_core s) in
     if rc \<noteq> 0 then Some (rc, s, w)
     else if core_state (sys_core s) = MSM_VIDC_CORE_DEINIT then Some (0, s, w)
     else if \<not> force \<and> instances s \<noteq> [] then Some (0, s, w)
     else do {
       (_, s, w) \<leftarrow> on_core (venus_hfi_core_deinit hw force) w s;
       Some (rc, change_core (unlink_sessions (instances s) s) MSM_VIDC_CORE_DEINIT, w)
     })"

definition msm_vidc_core_deinit :: "'w core_hw \<Rightarrow> bool \<Rightarrow> 'w sys_action" where
  "msm_vidc_core_deinit hw force w s = do {
    (rc, s, w) \<leftarrow> msm_vidc_core_deinit_locked hw force w (lock_core s);
    Some (rc, unlock_core s, w)
  }"

text \<open>The same three steps after every fatal error: record it, mark the sub-state, deinitialise.\<close>

definition fail_core :: "'w core_hw \<Rightarrow> uint32 \<Rightarrow> 'w sys_action" where
  "fail_core hw sub w s = do {
    (_, s, w) \<leftarrow> set_core_sub_state 0 sub w (change_core s MSM_VIDC_CORE_ERROR);
    msm_vidc_core_deinit_locked hw True w s
  }"

section \<open>Initialising\<close>

definition msm_vidc_core_init :: "'w core_hw \<Rightarrow> 'w sys_action" where
  "msm_vidc_core_init hw w s =
    (let s = lock_core s in
     if core_in_valid_state (sys_core s) then Some (0, unlock_core s, w)
     else if core_state (sys_core s) = MSM_VIDC_CORE_ERROR then Some (- EINVAL, unlock_core s, w)
     else do {
       (_, s, w) \<leftarrow> set_core_sub_state CORE_SUBSTATE_PM_SUSPEND 0 w (change_core s MSM_VIDC_CORE_INIT_WAIT);
       (_, s, w) \<leftarrow> set_core_sub_state CORE_SUBSTATE_PAGE_FAULT 0 w s;
       (rc, s, w) \<leftarrow> on_core (venus_hfi_core_init hw) w s;
       let s = s\<lparr>sys_init_id := sys_init_packet hw w (sys_core s)\<rparr>;
       if rc \<noteq> 0 then do {
         (_, s, w) \<leftarrow> msm_vidc_core_deinit_locked hw True w (change_core s MSM_VIDC_CORE_ERROR);
         Some (rc, unlock_core s, w)
       } else Some (0, unlock_core s, w)
     })"

section \<open>Sessions\<close>

definition msm_vidc_add_session :: "vidc_sys \<Rightarrow> nat \<Rightarrow> int \<times> vidc_sys" where
  "msm_vidc_add_session s i =
    (let s = lock_core s;
         (rc, s) =
           (if core_state (sys_core s) \<noteq> MSM_VIDC_CORE_INIT then (- EINVAL, s)
            else if length (instances s) < max_session_count s then
              (0, s\<lparr>instances := instances s @ [i]\<rparr>)
            else (- EAGAIN, s)) in
     (rc, unlock_core s))"

definition same_session :: "vidc_sys \<Rightarrow> nat \<Rightarrow> nat \<Rightarrow> bool" where
  "same_session s i j \<longleftrightarrow> inst_session_id (sys_insts s j) = inst_session_id (sys_insts s i)"

definition msm_vidc_remove_session :: "vidc_sys \<Rightarrow> nat \<Rightarrow> int \<times> vidc_sys" where
  "msm_vidc_remove_session s i =
    (let s = lock_core s;
         s = s\<lparr>instances := filter (\<lambda>j. \<not> same_session s i j) (instances s),
               dangling_instances := dangling_instances s @ filter (same_session s i) (instances s)\<rparr> in
     (0, unlock_core s))"

text \<open>Only the first one of the list is removed.\<close>

fun remove_first :: "('a \<Rightarrow> bool) \<Rightarrow> 'a list \<Rightarrow> 'a list" where
  "remove_first p [] = []"
| "remove_first p (x # xs) = (if p x then xs else x # remove_first p xs)"

definition msm_vidc_remove_dangling_session :: "vidc_sys \<Rightarrow> nat \<Rightarrow> int \<times> vidc_sys" where
  "msm_vidc_remove_dangling_session s i =
    (let s = lock_core s;
         s = s\<lparr>dangling_instances := remove_first (same_session s i) (dangling_instances s)\<rparr> in
     (0, unlock_core s))"

section \<open>Errors and answers of the firmware\<close>

definition msm_vidc_inst_timeout :: "'w core_hw \<Rightarrow> nat \<Rightarrow> 'w sys_action" where
  "msm_vidc_inst_timeout hw i w s =
    (let s = lock_core s in
     if i \<notin> set (instances s) then Some (- EINVAL, unlock_core s, w)
     else do {
       (_, s, w) \<leftarrow> fail_core hw CORE_SUBSTATE_VIDEO_UNRESPONSIVE w s;
       Some (0, unlock_core s, w)
     })"

text \<open>The deliberate crash that a debug option of the module can ask for is left out.\<close>

definition handle_system_error :: "'w core_hw \<Rightarrow> 'w sys_action" where
  "handle_system_error hw w s = do {
    (_, s, w) \<leftarrow> msm_vidc_core_deinit_locked hw True w (change_core (lock_core s) MSM_VIDC_CORE_ERROR);
    Some (0, unlock_core s, w)
  }"

definition handle_system_init :: "uint32 \<Rightarrow> uint32 \<Rightarrow> vidc_sys \<Rightarrow> int \<times> vidc_sys" where
  "handle_system_init flags packet_id s =
    (if flags AND HFI_FW_FLAGS_SUCCESS = 0 then (0, s)
     else
      (let s = lock_core s in
       if packet_id \<noteq> sys_init_id s then (0, unlock_core s)
       else (0, unlock_core (change_core s MSM_VIDC_CORE_INIT))))"

text \<open>The first half of what \<open>__response_handler\<close> does when the firmware's watchdog bites.\<close>

definition watchdog_mark :: "'w sys_action" where
  "watchdog_mark w s = do {
    (_, s, w) \<leftarrow> set_core_sub_state 0 CORE_SUBSTATE_CPU_WATCHDOG w
      (change_core (lock_core s) MSM_VIDC_CORE_ERROR);
    Some (0, unlock_core s, w)
  }"

definition venus_hfi_pm_work_handler :: "'w core_hw \<Rightarrow> 'w sys_action" where
  "venus_hfi_pm_work_handler hw w s =
    (let s = lock_core s in
     if skip_pc_count s \<ge> VIDC_MAX_PC_SKIP_COUNT then do {
       (_, s, w) \<leftarrow> fail_core hw CORE_SUBSTATE_VIDEO_UNRESPONSIVE w (s\<lparr>skip_pc_count := 0\<rparr>);
       Some (0, unlock_core s, w)
     }
     else if core_state (sys_core s) = MSM_VIDC_CORE_DEINIT then Some (0, unlock_core s, w)
     else do {
       (rc, s, w) \<leftarrow> on_core (power_collapse hw False) w s;
       let s = (if rc = 0 \<or> rc = - EBUSY then s\<lparr>skip_pc_count := 0\<rparr>
                else if rc = - EAGAIN then s\<lparr>skip_pc_count := skip_pc_count s + 1\<rparr> else s);
       Some (0, unlock_core s, w)
     })"

section \<open>Waiting for the firmware\<close>

text \<open>The steps of the other threads.\<close>

datatype core_event =
  Core_Init | Core_Deinit bool | System_Init uint32 uint32 | System_Error | Watchdog_Mark | Pm_Work
  | Inst_Timeout nat | Add_Session nat | Remove_Session nat | Remove_Dangling nat

fun core_step :: "'w core_hw \<Rightarrow> core_event \<Rightarrow> 'w sys_action" where
  "core_step hw Core_Init w s = msm_vidc_core_init hw w s"
| "core_step hw (Core_Deinit force) w s = msm_vidc_core_deinit hw force w s"
| "core_step hw (System_Init flags pid) w s = (case handle_system_init flags pid s of (rc, s) \<Rightarrow> Some (rc, s, w))"
| "core_step hw System_Error w s = handle_system_error hw w s"
| "core_step hw Watchdog_Mark w s = watchdog_mark w s"
| "core_step hw Pm_Work w s = venus_hfi_pm_work_handler hw w s"
| "core_step hw (Inst_Timeout i) w s = msm_vidc_inst_timeout hw i w s"
| "core_step hw (Add_Session i) w s =
    (if i \<in> set (instances s @ dangling_instances s) then Some (- EINVAL, s, w)
     else case msm_vidc_add_session s i of (rc, s) \<Rightarrow> Some (rc, s, w))"
| "core_step hw (Remove_Session i) w s = (case msm_vidc_remove_session s i of (rc, s) \<Rightarrow> Some (rc, s, w))"
| "core_step hw (Remove_Dangling i) w s = (case msm_vidc_remove_dangling_session s i of (rc, s) \<Rightarrow> Some (rc, s, w))"

fun core_steps :: "'w core_hw \<Rightarrow> core_event list \<Rightarrow> 'w \<Rightarrow> vidc_sys \<Rightarrow> (vidc_sys \<times> 'w) option" where
  "core_steps hw [] w s = Some (s, w)"
| "core_steps hw (e # es) w s = do { (_, s, w) \<leftarrow> core_step hw e w s; core_steps hw es w s }"

text \<open>
  The loop, one list of steps for every round in which it sleeps; the lock is held before and after it.
\<close>

fun wait_rounds :: "'w core_hw \<Rightarrow> core_event list list \<Rightarrow> 'w \<Rightarrow> vidc_sys \<Rightarrow> (vidc_sys \<times> 'w) option" where
  "wait_rounds hw [] w s = Some (s, w)"
| "wait_rounds hw (es # ess) w s =
    (if core_state (sys_core s) \<noteq> MSM_VIDC_CORE_INIT_WAIT then Some (s, w)
     else do {
       (s, w) \<leftarrow> core_steps hw es w (unlock_core s);
       wait_rounds hw ess w (lock_core s)
     })"

definition msm_vidc_core_init_wait :: "'w core_hw \<Rightarrow> core_event list list \<Rightarrow> 'w sys_action" where
  "msm_vidc_core_init_wait hw rounds w s =
    (let s = lock_core s in
     if core_state (sys_core s) = MSM_VIDC_CORE_INIT then Some (0, unlock_core s, w)
     else if core_state (sys_core s) = MSM_VIDC_CORE_DEINIT \<or> core_state (sys_core s) = MSM_VIDC_CORE_ERROR
     then Some (- EINVAL, unlock_core s, w)
     else do {
       (s, w) \<leftarrow> wait_rounds hw rounds w s;
       if core_state (sys_core s) = MSM_VIDC_CORE_INIT then Some (0, unlock_core s, w)
       else if core_state (sys_core s) = MSM_VIDC_CORE_INIT_WAIT then do {
         (_, s, w) \<leftarrow> fail_core hw CORE_SUBSTATE_VIDEO_UNRESPONSIVE w s;
         Some (- EINVAL, unlock_core s, w)
       } else Some (- EINVAL, unlock_core s, w)
     })"

section \<open>The invariant\<close>

definition sys_inv :: "vidc_sys \<Rightarrow> bool" where
  "sys_inv s \<longleftrightarrow> core_ok (sys_core s) \<and> distinct (instances s @ dangling_instances s)
    \<and> (instances s \<noteq> [] \<longrightarrow> core_state (sys_core s) = MSM_VIDC_CORE_INIT \<or> core_state (sys_core s) = MSM_VIDC_CORE_ERROR)
    \<and> (\<forall>i. inst_ok (sys_insts s i))"

definition sys_ok :: "vidc_sys \<Rightarrow> bool" where
  "sys_ok s \<longleftrightarrow> sys_inv s \<and> \<not> core_lock_held (sys_core s)"

abbreviation locked :: "vidc_sys \<Rightarrow> bool" where "locked s \<equiv> core_lock_held (sys_core s)"
abbreviation cstate :: "vidc_sys \<Rightarrow> msm_vidc_core_state" where "cstate s \<equiv> core_state (sys_core s)"

definition failed_inst :: "msm_vidc_inst \<Rightarrow> msm_vidc_inst" where
  "failed_inst inst = snd (msm_vidc_change_state inst MSM_VIDC_ERROR)"

lemma inst_ok_failed: "inst_ok inst \<Longrightarrow> inst_ok (failed_inst inst)"
  by (simp add: failed_inst_def inst_ok_change_state)

lemma sys_with_simps [simp]:
  "sys_core (sys_with s c) = c" "sys_insts (sys_with s c) = sys_insts s" "instances (sys_with s c) = instances s"
  "dangling_instances (sys_with s c) = dangling_instances s" "sys_init_id (sys_with s c) = sys_init_id s"
  "max_session_count (sys_with s c) = max_session_count s" "skip_pc_count (sys_with s c) = skip_pc_count s"
  by (simp_all add: sys_with_def)

lemma lock_simps [simp]:
  "locked (lock_core s)" "\<not> locked (unlock_core s)"
  "cstate (lock_core s) = cstate s" "cstate (unlock_core s) = cstate s"
  "core_in_valid_state (sys_core (lock_core s)) = core_in_valid_state (sys_core s)"
  "sys_insts (lock_core s) = sys_insts s" "sys_insts (unlock_core s) = sys_insts s"
  "instances (lock_core s) = instances s" "instances (unlock_core s) = instances s"
  "dangling_instances (lock_core s) = dangling_instances s" "dangling_instances (unlock_core s) = dangling_instances s"
  "sys_init_id (lock_core s) = sys_init_id s" "sys_init_id (unlock_core s) = sys_init_id s"
  "max_session_count (lock_core s) = max_session_count s" "skip_pc_count (lock_core s) = skip_pc_count s"
  by (simp_all add: lock_core_def unlock_core_def core_in_valid_state_def)

lemma sys_inv_lock [simp]: "sys_inv (lock_core s) = sys_inv s" "sys_inv (unlock_core s) = sys_inv s"
  by (simp_all add: sys_inv_def lock_core_def unlock_core_def core_ok_def)

lemma sys_ok_unlock: "sys_inv s \<Longrightarrow> sys_ok (unlock_core s)"
  by (simp add: sys_ok_def)

lemma unlock_lock: "sys_ok s \<Longrightarrow> unlock_core (lock_core s) = s"
  by (simp add: sys_ok_def lock_core_def unlock_core_def sys_with_def)

lemma change_core_simps [simp]:
  "sys_insts (change_core s t) = sys_insts s" "instances (change_core s t) = instances s"
  "dangling_instances (change_core s t) = dangling_instances s" "locked (change_core s t) = locked s"
  "sys_init_id (change_core s t) = sys_init_id s"
  by (simp_all add: change_core_def)

lemma change_core_state_of:
  "cstate (change_core s t) = (if locked s \<and> core_edge (cstate s) t then t else cstate s)"
  by (simp add: change_core_def change_core_state)

lemma core_ok_change_core: "core_ok (sys_core s) \<Longrightarrow> core_ok (sys_core (change_core s t))"
  by (simp add: change_core_def core_ok_change_state)

text \<open>Recording an error keeps the invariant, as does an answer that the core has started.\<close>

lemma sys_inv_change_core:
  assumes "sys_inv s" and "t = MSM_VIDC_CORE_INIT \<or> t = MSM_VIDC_CORE_ERROR \<or> instances s = []"
  shows "sys_inv (change_core s t)"
  using assms core_ok_change_core [of s t] by (auto simp: sys_inv_def change_core_state_of)

lemma change_core_error:
  "locked s \<Longrightarrow> cstate (change_core s MSM_VIDC_CORE_ERROR) =
    (if cstate s = MSM_VIDC_CORE_DEINIT then MSM_VIDC_CORE_DEINIT else MSM_VIDC_CORE_ERROR)"
  by (cases "cstate s") (simp_all add: change_core_state_of)

lemma on_core_keeps:
  assumes "keeps_core f" and "core_ok (sys_core s)"
  obtains rc core w' where "on_core f w s = Some (rc, sys_with s core, w')" and "core_ok core"
    and "core_state core = cstate s" and "core_lock_held core = locked s"
proof -
  obtain rc core w' where "f w (sys_core s) = Some (rc, core, w')" "core_ok core"
    "core_state core = cstate s" "core_lock_held core = locked s"
    using assms unfolding keeps_core_def by metis
  then show thesis by (intro that [of rc core w']) (simp_all add: on_core_def)
qed

lemma sys_inv_sys_with:
  "sys_inv s \<Longrightarrow> core_ok core \<Longrightarrow> core_state core = cstate s \<Longrightarrow> sys_inv (sys_with s core)"
  by (simp add: sys_inv_def)

lemma set_core_sub_state_keeps:
  assumes "sys_inv s"
  obtains rc core w' where "set_core_sub_state c x w s = Some (rc, sys_with s core, w')" and "core_ok core"
    and "core_state core = cstate s" and "core_lock_held core = locked s"
  unfolding set_core_sub_state_def
  using on_core_keeps [OF keeps_sub_state] assms unfolding sys_inv_def by metis

section \<open>Deinitialising unlinks every session\<close>

lemma unlink_sessions:
  "distinct is \<Longrightarrow> unlink_sessions is s =
    s\<lparr>sys_insts := \<lambda>i. if i \<in> set is then failed_inst (sys_insts s i) else sys_insts s i,
      instances := filter (\<lambda>i. i \<notin> set is) (instances s),
      dangling_instances := dangling_instances s @ is\<rparr>"
proof (induction "is" arbitrary: s)
  case (Cons i "is")
  have "filter (\<lambda>j. j \<notin> set is) (removeAll i (instances s)) = filter (\<lambda>j. j \<notin> set (i # is)) (instances s)"
    by (auto simp: removeAll_filter_not_eq intro: filter_cong)
  with Cons show ?case
    by (simp add: change_inst_def Let_def failed_inst_def fun_eq_iff)
qed (simp add: fun_eq_iff)

text \<open>What the driver looks like after the core is taken down.\<close>

definition torn_down :: "vidc_sys \<Rightarrow> vidc_sys \<Rightarrow> bool" where
  "torn_down s s' \<longleftrightarrow> instances s' = [] \<and> dangling_instances s' = dangling_instances s @ instances s
    \<and> sys_insts s' = (\<lambda>i. if i \<in> set (instances s) then failed_inst (sys_insts s i) else sys_insts s i)
    \<and> sys_init_id s' = sys_init_id s \<and> locked s' = locked s"

lemma torn_down_refl: "instances s = [] \<Longrightarrow> torn_down s s"
  by (simp add: torn_down_def)

lemma deinit_locked:
  assumes hw: "hw_ok hw" and inv: "sys_inv s" and l: "locked s"
  obtains s' w' where "msm_vidc_core_deinit_locked hw force w s = Some (0, s', w')" and "sys_inv s'" and "locked s'"
    and "if cstate s = MSM_VIDC_CORE_DEINIT \<or> \<not> force \<and> instances s \<noteq> [] then s' = s
         else torn_down s s' \<and> cstate s' = (if cstate s = MSM_VIDC_CORE_INIT_WAIT then MSM_VIDC_CORE_INIT_WAIT
                                              else MSM_VIDC_CORE_DEINIT)"
proof (cases "cstate s = MSM_VIDC_CORE_DEINIT \<or> \<not> force \<and> instances s \<noteq> []")
  case True
  with l inv show thesis
    by (intro that [of s w]) (auto simp: msm_vidc_core_deinit_locked_def strict_check_def)
next
  case False
  obtain rc core w' where f: "on_core (venus_hfi_core_deinit hw force) w s = Some (rc, sys_with s core, w')"
    and core: "core_ok core" "core_state core = cstate s" "core_lock_held core = locked s"
    using on_core_keeps [OF keeps_venus_hfi_core_deinit [OF hw]] inv unfolding sys_inv_def by metis
  let ?s = "change_core (unlink_sessions (instances s) (sys_with s core)) MSM_VIDC_CORE_DEINIT"
  have d: "distinct (instances s)" using inv by (simp add: sys_inv_def)
  note u = unlink_sessions [OF d, of "sys_with s core"]
  have e: "msm_vidc_core_deinit_locked hw force w s = Some (0, ?s, w')"
    using f l False by (auto simp: msm_vidc_core_deinit_locked_def strict_check_def)
  have st: "cstate ?s = (if cstate s = MSM_VIDC_CORE_INIT_WAIT then MSM_VIDC_CORE_INIT_WAIT else MSM_VIDC_CORE_DEINIT)"
    using l core False by (cases "cstate s") (simp_all add: change_core_state_of u)
  have t: "torn_down s ?s" using core by (simp add: torn_down_def u cong: if_cong)
  have i: "sys_inv ?s"
    using inv core core_ok_change_core [of "unlink_sessions (instances s) (sys_with s core)"]
    by (auto simp: sys_inv_def u inst_ok_failed distinct_append)
  have "locked ?s" using t l by (simp add: torn_down_def)
  with e i show thesis
    by (rule that) (use st t False in \<open>simp only: if_False if_cancel simp_thms\<close>)
qed

text \<open>Sessions and lists, without the core.\<close>

definition same_sessions :: "vidc_sys \<Rightarrow> vidc_sys \<Rightarrow> bool" where
  "same_sessions s s' \<longleftrightarrow> sys_insts s' = sys_insts s \<and> instances s' = instances s
    \<and> dangling_instances s' = dangling_instances s \<and> sys_init_id s' = sys_init_id s"

lemma same_sessions_refl [simp]: "same_sessions s s"
  by (simp add: same_sessions_def)

lemma torn_down_from:
  "torn_down s1 s' \<Longrightarrow> same_sessions s s1 \<Longrightarrow> locked s1 = locked s \<Longrightarrow> torn_down s s'"
  by (simp add: torn_down_def same_sessions_def cong: if_cong)

text \<open>After an error every path ends in a core that is down, with no session on its list.\<close>

lemma deinit_after_error:
  assumes hw: "hw_ok hw" and inv: "sys_inv s" and l: "locked s"
    and st: "cstate s = MSM_VIDC_CORE_DEINIT \<or> cstate s = MSM_VIDC_CORE_ERROR"
  obtains s' w' where "msm_vidc_core_deinit_locked hw True w s = Some (0, s', w')"
    and "sys_inv s'" and "locked s'" and "cstate s' = MSM_VIDC_CORE_DEINIT" and "torn_down s s'"
proof -
  obtain s' w' where e: "msm_vidc_core_deinit_locked hw True w s = Some (0, s', w')" and s': "sys_inv s'" "locked s'"
    and r: "if cstate s = MSM_VIDC_CORE_DEINIT \<or> \<not> True \<and> instances s \<noteq> [] then s' = s
         else torn_down s s' \<and> cstate s' = (if cstate s = MSM_VIDC_CORE_INIT_WAIT then MSM_VIDC_CORE_INIT_WAIT
                                              else MSM_VIDC_CORE_DEINIT)"
    by (rule deinit_locked [OF hw inv l, of True w]) blast
  have "cstate s' = MSM_VIDC_CORE_DEINIT \<and> torn_down s s'"
  proof (cases "cstate s = MSM_VIDC_CORE_DEINIT")
    case True
    moreover from this inv have "instances s = []" by (auto simp: sys_inv_def)
    ultimately show ?thesis using r by (simp add: torn_down_refl)
  next
    case False
    with r st show ?thesis by simp
  qed
  with e s' show thesis by (intro that) blast+
qed

lemma same_sessions_change_core [simp]: "same_sessions s (change_core s t)"
  by (simp add: same_sessions_def)

lemma same_sessions_sys_with [simp]: "same_sessions s (sys_with s1 c) = same_sessions s s1"
  by (simp add: same_sessions_def)

lemma fail_core:
  assumes hw: "hw_ok hw" and inv: "sys_inv s" and l: "locked s"
  obtains s' w' where "fail_core hw sub w s = Some (0, s', w')"
    and "sys_inv s'" and "locked s'" and "cstate s' = MSM_VIDC_CORE_DEINIT" and "torn_down s s'"
proof -
  let ?s = "change_core s MSM_VIDC_CORE_ERROR"
  have inv1: "sys_inv ?s" using sys_inv_change_core inv by blast
  obtain rc core w1 where e: "set_core_sub_state 0 sub w ?s = Some (rc, sys_with ?s core, w1)"
    and core: "core_ok core" "core_state core = cstate ?s" "core_lock_held core = locked ?s"
    by (rule set_core_sub_state_keeps [OF inv1])
  have inv2: "sys_inv (sys_with ?s core)" by (rule sys_inv_sys_with [OF inv1 core(1,2)])
  have l2: "locked (sys_with ?s core)" using core l by simp
  have st: "cstate (sys_with ?s core) = MSM_VIDC_CORE_DEINIT \<or> cstate (sys_with ?s core) = MSM_VIDC_CORE_ERROR"
    using core l by (simp add: change_core_error)
  obtain s' w' where d: "msm_vidc_core_deinit_locked hw True w1 (sys_with ?s core) = Some (0, s', w')"
    and s': "sys_inv s'" "locked s'" "cstate s' = MSM_VIDC_CORE_DEINIT" "torn_down (sys_with ?s core) s'"
    by (rule deinit_after_error [OF hw inv2 l2 st])
  have "torn_down s s'" by (rule torn_down_from [OF s'(4)]) (use core l in simp_all)
  with e d s' show thesis by (intro that [of s' w']) (simp_all add: fail_core_def)
qed

end
