(* ===== verification/Vidc_Core_Steps.thy ===== *)
theory Vidc_Core_Steps
  imports Vidc_Core_Life
begin

text \<open>
  The steps of the video core, one lemma for each: they return, keep the invariant of the driver, and are
  steps of a small abstract machine of the core's state and the sessions on its list.
\<close>

section \<open>Every step\<close>

text \<open>
  The abstract steps: what can become of the core's state, and whether the sessions stay, join the list or
  are all torn down.
\<close>

fun core_rel :: "core_event \<Rightarrow> vidc_sys \<Rightarrow> vidc_sys \<Rightarrow> bool" where
  "core_rel Core_Init s s' \<longleftrightarrow>
     (if cstate s = MSM_VIDC_CORE_DEINIT then same_sessions (s\<lparr>sys_init_id := sys_init_id s'\<rparr>) s' \<and>
        (cstate s' = MSM_VIDC_CORE_DEINIT \<or> cstate s' = MSM_VIDC_CORE_INIT_WAIT)
      else s' = s)"
| "core_rel (Core_Deinit force) s s' \<longleftrightarrow>
     (if cstate s = MSM_VIDC_CORE_DEINIT \<or> \<not> force \<and> instances s \<noteq> [] then s' = s
      else torn_down s s' \<and> cstate s' = (if cstate s = MSM_VIDC_CORE_INIT_WAIT then MSM_VIDC_CORE_INIT_WAIT
                                           else MSM_VIDC_CORE_DEINIT))"
| "core_rel (System_Init flags pid) s s' \<longleftrightarrow> same_sessions s s' \<and>
     cstate s' = (if flags AND HFI_FW_FLAGS_SUCCESS \<noteq> 0 \<and> pid = sys_init_id s \<and> cstate s = MSM_VIDC_CORE_INIT_WAIT
                  then MSM_VIDC_CORE_INIT else cstate s)"
| "core_rel System_Error s s' \<longleftrightarrow> cstate s' = MSM_VIDC_CORE_DEINIT \<and> torn_down s s'"
| "core_rel Watchdog_Mark s s' \<longleftrightarrow> same_sessions s s' \<and>
     cstate s' = (if cstate s = MSM_VIDC_CORE_DEINIT then MSM_VIDC_CORE_DEINIT else MSM_VIDC_CORE_ERROR)"
| "core_rel Pm_Work s s' \<longleftrightarrow>
     same_sessions s s' \<and> cstate s' = cstate s \<or> cstate s' = MSM_VIDC_CORE_DEINIT \<and> torn_down s s'"
| "core_rel (Inst_Timeout i) s s' \<longleftrightarrow>
     (if i \<in> set (instances s) then cstate s' = MSM_VIDC_CORE_DEINIT \<and> torn_down s s' else s' = s)"
| "core_rel (Add_Session i) s s' \<longleftrightarrow> cstate s' = cstate s \<and> sys_init_id s' = sys_init_id s \<and> sys_insts s' = sys_insts s
     \<and> dangling_instances s' = dangling_instances s \<and>
     (instances s' = instances s \<or> cstate s = MSM_VIDC_CORE_INIT \<and> length (instances s) < max_session_count s
        \<and> instances s' = instances s @ [i])"
| "core_rel (Remove_Session i) s s' \<longleftrightarrow> cstate s' = cstate s \<and> sys_init_id s' = sys_init_id s \<and> sys_insts s' = sys_insts s
     \<and> set (instances s') \<subseteq> set (instances s)"
| "core_rel (Remove_Dangling i) s s' \<longleftrightarrow> cstate s' = cstate s \<and> sys_init_id s' = sys_init_id s \<and> sys_insts s' = sys_insts s
     \<and> instances s' = instances s"

text \<open>What a step is shown to do: it returns, keeps the invariant, and is one of the abstract steps.\<close>

definition step_ok :: "core_event \<Rightarrow> vidc_sys \<Rightarrow> (int \<times> vidc_sys \<times> 'w) option \<Rightarrow> bool" where
  "step_ok e s r \<longleftrightarrow> (\<exists>rc s' w'. r = Some (rc, s', w') \<and> sys_ok s' \<and> core_rel e s s')"

lemma step_okI: "r = Some (rc, s', w') \<Longrightarrow> sys_ok s' \<Longrightarrow> core_rel e s s' \<Longrightarrow> step_ok e s r"
  by (auto simp: step_ok_def)

lemma torn_down_lock:
  "torn_down (lock_core s) s' \<Longrightarrow> \<not> locked s \<Longrightarrow> torn_down s (unlock_core s')"
  by (simp add: torn_down_def cong: if_cong)

lemma same_sessions_lock [simp]:
  "same_sessions (lock_core s) s' = same_sessions s s'" "same_sessions s (unlock_core s') = same_sessions s s'"
  "same_sessions s (lock_core s') = same_sessions s s'"
  by (simp_all add: same_sessions_def)

lemma max_session_lock [simp]: "max_session_count (unlock_core s) = max_session_count s"
  "skip_pc_count (unlock_core s) = skip_pc_count s"
  by (simp_all add: unlock_core_def)

lemma sys_okD:
  assumes "sys_ok s"
  shows "sys_inv (lock_core s)" and "\<not> locked s" and "unlock_core (lock_core s) = s"
  using assms by (simp_all add: sys_ok_def unlock_lock)

lemma core_ok_lock [simp]:
  "core_ok (sys_core (lock_core s)) = core_ok (sys_core s)" "core_ok (sys_core (unlock_core s)) = core_ok (sys_core s)"
  by (simp_all add: core_ok_def lock_core_def unlock_core_def)

lemma deinit_step:
  assumes hw: "hw_ok hw" and ok: "sys_ok s"
  shows "step_ok (Core_Deinit force) s (msm_vidc_core_deinit hw force w s)"
proof -
  note inv = sys_okD(1) [OF ok] and nolock = sys_okD(2) [OF ok] and unlock = sys_okD(3) [OF ok]
  show ?thesis
  proof (rule deinit_locked [OF hw inv lock_simps(1), of force w])
    fix s' w'
    assume e: "msm_vidc_core_deinit_locked hw force w (lock_core s) = Some (0, s', w')" "sys_inv s'"
      and r: "if cstate (lock_core s) = MSM_VIDC_CORE_DEINIT \<or> \<not> force \<and> instances (lock_core s) \<noteq> [] then s' = lock_core s
           else torn_down (lock_core s) s' \<and> cstate s' = (if cstate (lock_core s) = MSM_VIDC_CORE_INIT_WAIT
             then MSM_VIDC_CORE_INIT_WAIT else MSM_VIDC_CORE_DEINIT)"
    have "core_rel (Core_Deinit force) s (unlock_core s')"
      using r nolock unlock torn_down_lock [of s s'] by (auto split: if_splits)
    with e show ?thesis
      by (intro step_okI [of _ 0 "unlock_core s'" w']) (simp_all add: msm_vidc_core_deinit_def sys_ok_unlock)
  qed
qed

lemma error_step:
  assumes hw: "hw_ok hw" and ok: "sys_ok s"
  shows "step_ok System_Error s (handle_system_error hw w s)"
proof -
  note inv = sys_okD(1) [OF ok] and nolock = sys_okD(2) [OF ok] and unlock = sys_okD(3) [OF ok]
  let ?s = "change_core (lock_core s) MSM_VIDC_CORE_ERROR"
  have i: "sys_inv ?s" using sys_inv_change_core inv by blast
  have l: "locked ?s" by simp
  have st: "cstate ?s = MSM_VIDC_CORE_DEINIT \<or> cstate ?s = MSM_VIDC_CORE_ERROR"
    by (simp add: change_core_error)
  obtain s' w' where d: "msm_vidc_core_deinit_locked hw True w ?s = Some (0, s', w')" "sys_inv s'"
    "cstate s' = MSM_VIDC_CORE_DEINIT" and t: "torn_down ?s s'"
    by (rule deinit_after_error [OF hw i l st, of w])
  have "torn_down (lock_core s) s'" by (rule torn_down_from [OF t]) simp_all
  with d nolock show ?thesis
    by (intro step_okI [of _ 0 "unlock_core s'" w'])
      (simp_all add: handle_system_error_def sys_ok_unlock torn_down_lock)
qed

lemma watchdog_step:
  assumes ok: "sys_ok s"
  shows "step_ok Watchdog_Mark s (watchdog_mark w s)"
proof -
  note inv = sys_okD(1) [OF ok] and nolock = sys_okD(2) [OF ok] and unlock = sys_okD(3) [OF ok]
  let ?s = "change_core (lock_core s) MSM_VIDC_CORE_ERROR"
  have i: "sys_inv ?s" using sys_inv_change_core inv by blast
  obtain rc core w1 where e: "set_core_sub_state 0 CORE_SUBSTATE_CPU_WATCHDOG w ?s = Some (rc, sys_with ?s core, w1)"
    and core: "core_ok core" "core_state core = cstate ?s" "core_lock_held core = locked ?s"
    by (rule set_core_sub_state_keeps [OF i])
  have "sys_inv (sys_with ?s core)" by (rule sys_inv_sys_with [OF i core(1,2)])
  moreover have "same_sessions s ?s" by (simp add: same_sessions_def)
  ultimately show ?thesis
    using e core
    by (intro step_okI [of _ 0 "unlock_core (sys_with ?s core)" w1])
      (simp_all add: watchdog_mark_def sys_ok_unlock change_core_error)
qed

lemma timeout_step:
  assumes hw: "hw_ok hw" and ok: "sys_ok s"
  shows "step_ok (Inst_Timeout i) s (msm_vidc_inst_timeout hw i w s)"
proof -
  note inv = sys_okD(1) [OF ok] and nolock = sys_okD(2) [OF ok] and unlock = sys_okD(3) [OF ok]
  show ?thesis
  proof (cases "i \<in> set (instances s)")
    case True
    obtain s' w' where e: "fail_core hw CORE_SUBSTATE_VIDEO_UNRESPONSIVE w (lock_core s) = Some (0, s', w')"
      "sys_inv s'" "cstate s' = MSM_VIDC_CORE_DEINIT" and t: "torn_down (lock_core s) s'"
      by (rule fail_core [OF hw inv lock_simps(1)])
    with True nolock show ?thesis
      by (intro step_okI [of _ 0 "unlock_core s'" w'])
        (simp_all add: msm_vidc_inst_timeout_def Let_def sys_ok_unlock torn_down_lock)
  next
    case False
    with ok show ?thesis
      by (intro step_okI [of _ "- EINVAL" s w]) (simp_all add: msm_vidc_inst_timeout_def Let_def unlock)
  qed
qed

lemma system_init_step:
  assumes ok: "sys_ok s"
  shows "step_ok (System_Init flags pid) s (case handle_system_init flags pid s of (rc, s) \<Rightarrow> Some (rc, s, w))"
proof -
  note inv = sys_okD(1) [OF ok] and nolock = sys_okD(2) [OF ok] and unlock = sys_okD(3) [OF ok]
  show ?thesis
  proof (cases "flags AND HFI_FW_FLAGS_SUCCESS \<noteq> 0 \<and> pid = sys_init_id s")
    case True
    let ?s = "change_core (lock_core s) MSM_VIDC_CORE_INIT"
    have "sys_inv ?s" using sys_inv_change_core inv by blast
    moreover have "cstate ?s = (if cstate s = MSM_VIDC_CORE_INIT_WAIT then MSM_VIDC_CORE_INIT else cstate s)"
      by (cases "cstate s") (simp_all add: change_core_state_of)
    moreover have "same_sessions s ?s" by (simp add: same_sessions_def)
    ultimately show ?thesis
      using True
      by (intro step_okI [of _ 0 "unlock_core ?s" w]) (simp_all add: handle_system_init_def Let_def sys_ok_unlock)
  next
    case False
    with ok show ?thesis
      by (intro step_okI [of _ 0 s w]) (auto simp: handle_system_init_def Let_def unlock)
  qed
qed

lemma pm_work_step:
  assumes hw: "hw_ok hw" and ok: "sys_ok s"
  shows "step_ok Pm_Work s (venus_hfi_pm_work_handler hw w s)"
proof -
  note inv = sys_okD(1) [OF ok] and nolock = sys_okD(2) [OF ok]
  consider (skipped) "skip_pc_count s \<ge> VIDC_MAX_PC_SKIP_COUNT"
    | (down) "\<not> skip_pc_count s \<ge> VIDC_MAX_PC_SKIP_COUNT" "cstate s = MSM_VIDC_CORE_DEINIT"
    | (up) "\<not> skip_pc_count s \<ge> VIDC_MAX_PC_SKIP_COUNT" "cstate s \<noteq> MSM_VIDC_CORE_DEINIT"
    by blast
  then show ?thesis
  proof cases
    case skipped
    let ?s = "(lock_core s)\<lparr>skip_pc_count := 0\<rparr>"
    have "sys_inv ?s" using inv by (simp add: sys_inv_def)
    moreover have "locked ?s" by simp
    ultimately obtain s' w' where
      e: "fail_core hw CORE_SUBSTATE_VIDEO_UNRESPONSIVE w ?s = Some (0, s', w')" "sys_inv s'"
        "cstate s' = MSM_VIDC_CORE_DEINIT" and t: "torn_down ?s s'"
      using fail_core [OF hw] by metis
    have "torn_down (lock_core s) s'" by (rule torn_down_from [OF t]) (simp_all add: same_sessions_def)
    with e skipped nolock show ?thesis
      by (intro step_okI [of _ 0 "unlock_core s'" w'])
        (simp_all add: venus_hfi_pm_work_handler_def Let_def sys_ok_unlock torn_down_lock)
  next
    case down
    with ok show ?thesis
      by (intro step_okI [of _ 0 s w]) (simp_all add: venus_hfi_pm_work_handler_def Let_def sys_okD)
  next
    case up
    have "core_ok (sys_core (lock_core s))" using inv by (simp add: sys_inv_def)
    then obtain rc core w1 where
      e: "on_core (power_collapse hw False) w (lock_core s) = Some (rc, sys_with (lock_core s) core, w1)"
      and core: "core_ok core" "core_state core = cstate (lock_core s)"
      using on_core_keeps [OF keeps_power_collapse [OF hw]] by metis
    have i: "sys_inv (sys_with (lock_core s) core)" by (rule sys_inv_sys_with [OF inv core])
    define s' where "s' = (let t = sys_with (lock_core s) core in
      if rc = 0 \<or> rc = - EBUSY then t\<lparr>skip_pc_count := 0\<rparr>
      else if rc = - EAGAIN then t\<lparr>skip_pc_count := skip_pc_count t + 1\<rparr> else t)"
    have "sys_inv s'" "same_sessions s s'" "cstate s' = cstate s"
      using i core by (simp_all add: s'_def Let_def sys_inv_def same_sessions_def)
    with e up show ?thesis
      by (intro step_okI [of _ 0 "unlock_core s'" w1])
        (simp_all add: venus_hfi_pm_work_handler_def Let_def s'_def sys_ok_unlock)
  qed
qed

lemma core_init_step:
  assumes hw: "hw_ok hw" and ok: "sys_ok s"
  shows "step_ok Core_Init s (msm_vidc_core_init hw w s)"
proof -
  note inv = sys_okD(1) [OF ok] and nolock = sys_okD(2) [OF ok] and unlock = sys_okD(3) [OF ok]
  show ?thesis
  proof (cases "cstate s = MSM_VIDC_CORE_DEINIT")
    case False
    then have "core_in_valid_state (sys_core s) \<or> cstate s = MSM_VIDC_CORE_ERROR"
      by (cases "cstate s") (simp_all add: core_in_valid_state_def)
    with ok unlock show ?thesis
      by (cases "core_in_valid_state (sys_core s)")
        (simp_all add: msm_vidc_core_init_def Let_def step_ok_def)
  next
    case True
    have empty: "instances s = []" using inv True by (auto simp: sys_inv_def)
    let ?s1 = "change_core (lock_core s) MSM_VIDC_CORE_INIT_WAIT"
    have i1: "sys_inv ?s1" using sys_inv_change_core inv empty by simp
    have c1: "cstate ?s1 = MSM_VIDC_CORE_INIT_WAIT" using True by (simp add: change_core_state_of)
    obtain r1 core1 w1 where
      e1: "set_core_sub_state CORE_SUBSTATE_PM_SUSPEND 0 w ?s1 = Some (r1, sys_with ?s1 core1, w1)"
      and core1: "core_ok core1" "core_state core1 = cstate ?s1" "core_lock_held core1 = locked ?s1"
      by (rule set_core_sub_state_keeps [OF i1])
    let ?s2 = "sys_with ?s1 core1"
    have i2: "sys_inv ?s2" by (rule sys_inv_sys_with [OF i1 core1(1,2)])
    obtain r2 core2 w2 where
      e2: "set_core_sub_state CORE_SUBSTATE_PAGE_FAULT 0 w1 ?s2 = Some (r2, sys_with ?s2 core2, w2)"
      and core2: "core_ok core2" "core_state core2 = cstate ?s2" "core_lock_held core2 = locked ?s2"
      by (rule set_core_sub_state_keeps [OF i2])
    let ?s3 = "sys_with ?s2 core2"
    have i3: "sys_inv ?s3" by (rule sys_inv_sys_with [OF i2 core2(1,2)])
    then have "core_ok (sys_core ?s3)" by (simp add: sys_inv_def)
    then obtain rc core3 w3 where
      e3: "on_core (venus_hfi_core_init hw) w2 ?s3 = Some (rc, sys_with ?s3 core3, w3)"
      and core3: "core_ok core3" "core_state core3 = cstate ?s3" "core_lock_held core3 = locked ?s3"
      using on_core_keeps [OF keeps_venus_hfi_core_init [OF hw]] by metis
    let ?s4 = "(sys_with ?s3 core3)\<lparr>sys_init_id := sys_init_packet hw w3 core3\<rparr>"
    have "sys_inv (sys_with ?s3 core3)" by (rule sys_inv_sys_with [OF i3 core3(1,2)])
    then have i4: "sys_inv ?s4" by (simp add: sys_inv_def)
    have l4: "locked ?s4" and c4: "cstate ?s4 = MSM_VIDC_CORE_INIT_WAIT"
      and ss: "same_sessions (s\<lparr>sys_init_id := sys_init_id ?s4\<rparr>) ?s4"
      using core1 core2 core3 c1 by (simp_all add: same_sessions_def)
    have valid: "\<not> core_in_valid_state (sys_core s)" using True by (simp add: core_in_valid_state_def)
    show ?thesis
    proof (cases "rc = 0")
      case True
      with e1 e2 e3 i4 c4 ss valid \<open>cstate s = _\<close> show ?thesis
        by (intro step_okI [of _ 0 "unlock_core ?s4" w3])
          (simp_all add: msm_vidc_core_init_def Let_def sys_ok_unlock)
    next
      case False
      let ?s5 = "change_core ?s4 MSM_VIDC_CORE_ERROR"
      have i5: "sys_inv ?s5" using sys_inv_change_core i4 by blast
      have l5: "locked ?s5" using l4 by simp
      have c5: "cstate ?s5 = MSM_VIDC_CORE_DEINIT \<or> cstate ?s5 = MSM_VIDC_CORE_ERROR"
        using l4 by (simp add: change_core_error)
      obtain s' w' where d: "msm_vidc_core_deinit_locked hw True w3 ?s5 = Some (0, s', w')" "sys_inv s'"
        "cstate s' = MSM_VIDC_CORE_DEINIT" and t: "torn_down ?s5 s'"
        by (rule deinit_after_error [OF hw i5 l5 c5])
      have "same_sessions (s\<lparr>sys_init_id := sys_init_id s'\<rparr>) s'"
        using t ss empty by (simp add: torn_down_def same_sessions_def)
      with d e1 e2 e3 valid False \<open>cstate s = _\<close> show ?thesis
        by (intro step_okI [of _ rc "unlock_core s'" w'])
          (simp_all add: msm_vidc_core_init_def Let_def sys_ok_unlock)
    qed
  qed
qed

lemma add_session_step:
  assumes ok: "sys_ok s"
  shows "step_ok (Add_Session i) s (core_step hw (Add_Session i) w s)"
proof -
  note inv = sys_okD(1) [OF ok] and unlock = sys_okD(3) [OF ok]
  show ?thesis
  proof (cases "i \<notin> set (instances s @ dangling_instances s) \<and> cstate s = MSM_VIDC_CORE_INIT
      \<and> length (instances s) < max_session_count s")
    case True
    let ?s = "unlock_core ((lock_core s)\<lparr>instances := instances s @ [i]\<rparr>)"
    have "sys_ok ?s" using inv True by (simp add: sys_ok_def sys_inv_def)
    with True show ?thesis
      by (intro step_okI [of _ 0 ?s w]) (auto simp: msm_vidc_add_session_def Let_def)
  next
    case False
    then have "\<exists>rc. core_step hw (Add_Session i) w s = Some (rc, s, w)"
      using unlock by (auto simp: msm_vidc_add_session_def Let_def)
    then obtain rc where "core_step hw (Add_Session i) w s = Some (rc, s, w)" ..
    moreover have "core_rel (Add_Session i) s s" by simp
    ultimately show ?thesis using ok by (simp only: step_okI)
  qed
qed

lemma remove_first_subset: "set (remove_first p xs) \<subseteq> set xs"
  by (induction xs) auto

lemma distinct_remove_first: "distinct xs \<Longrightarrow> distinct (remove_first p xs)"
  using remove_first_subset by (induction xs) (auto, fastforce)

lemma remove_session_step:
  assumes ok: "sys_ok s"
  shows "step_ok (Remove_Session i) s (core_step hw (Remove_Session i) w s)"
proof -
  note inv = sys_okD(1) [OF ok]
  obtain s' where e: "msm_vidc_remove_session s i = (0, s')" by (simp add: msm_vidc_remove_session_def Let_def)
  have "sys_ok s'" using inv e
    by (auto simp: msm_vidc_remove_session_def Let_def sys_ok_def sys_inv_def filter_empty_conv)
  moreover have "core_rel (Remove_Session i) s s'"
    using e by (auto simp: msm_vidc_remove_session_def Let_def)
  ultimately show ?thesis using e by (intro step_okI) simp_all
qed

lemma remove_dangling_step:
  assumes ok: "sys_ok s"
  shows "step_ok (Remove_Dangling i) s (core_step hw (Remove_Dangling i) w s)"
proof -
  note inv = sys_okD(1) [OF ok]
  obtain s' where e: "msm_vidc_remove_dangling_session s i = (0, s')"
    by (simp add: msm_vidc_remove_dangling_session_def Let_def)
  have "set (instances s) \<inter> set (remove_first (same_session (lock_core s) i) (dangling_instances s)) = {}"
    using inv remove_first_subset [of "same_session (lock_core s) i" "dangling_instances s"]
    unfolding sys_inv_def by auto
  then have "sys_ok s'" using inv e
    by (auto simp: msm_vidc_remove_dangling_session_def Let_def sys_ok_def sys_inv_def distinct_remove_first)
  moreover have "core_rel (Remove_Dangling i) s s'"
    using e by (auto simp: msm_vidc_remove_dangling_session_def Let_def)
  ultimately show ?thesis using e by (intro step_okI) simp_all
qed

lemma core_step_ok:
  assumes "hw_ok hw" and "sys_ok s"
  shows "step_ok e s (core_step hw e w s)"
proof (cases e)
  case (Add_Session i)
  then show ?thesis using add_session_step [OF assms(2)] by (simp only:)
qed (use assms deinit_step error_step watchdog_step timeout_step system_init_step pm_work_step core_init_step
    remove_session_step remove_dangling_step in simp_all)

text \<open>Steps in a row.\<close>

lemma core_steps_ok:
  "hw_ok hw \<Longrightarrow> sys_ok s \<Longrightarrow> \<exists>s' w'. core_steps hw es w s = Some (s', w') \<and> sys_ok s'"
proof (induction es arbitrary: w s)
  case (Cons e es)
  obtain rc s1 w1 where "core_step hw e w s = Some (rc, s1, w1)" "sys_ok s1"
    using core_step_ok [OF Cons.prems] unfolding step_ok_def by blast
  with Cons.IH [OF Cons.prems(1) \<open>sys_ok s1\<close>, of w1] show ?case by auto
qed simp

text \<open>The loop of \<open>msm_vidc_core_init_wait\<close>.\<close>

lemma wait_rounds_ok:
  assumes hw: "hw_ok hw"
  shows "sys_inv s \<Longrightarrow> locked s \<Longrightarrow>
    \<exists>s' w'. wait_rounds hw rounds w s = Some (s', w') \<and> sys_inv s' \<and> locked s'"
proof (induction rounds arbitrary: w s)
  case (Cons es rounds)
  show ?case
  proof (cases "cstate s = MSM_VIDC_CORE_INIT_WAIT")
    case True
    obtain s1 w1 where "core_steps hw es w (unlock_core s) = Some (s1, w1)" "sys_ok s1"
      using core_steps_ok [OF hw sys_ok_unlock [OF Cons.prems(1)]] by metis
    with True Cons.IH [of "lock_core s1" w1] show ?thesis by (simp add: sys_ok_def)
  next
    case False
    with Cons.prems show ?thesis by simp
  qed
qed simp

lemma core_init_wait:
  assumes hw: "hw_ok hw" and ok: "sys_ok s"
  obtains rc s' w' where "msm_vidc_core_init_wait hw rounds w s = Some (rc, s', w')" and "sys_ok s'"
    and "rc = (if cstate s' = MSM_VIDC_CORE_INIT then 0 else - EINVAL)"
    and "cstate s' \<noteq> MSM_VIDC_CORE_INIT_WAIT"
proof (cases "cstate s = MSM_VIDC_CORE_INIT_WAIT")
  case False
  with ok sys_okD(3) [OF ok] show thesis
    by (cases "cstate s"; intro that [of "if cstate s = MSM_VIDC_CORE_INIT then 0 else - EINVAL" s w])
      (simp_all add: msm_vidc_core_init_wait_def Let_def)
next
  case True
  obtain s1 w1 where e: "wait_rounds hw rounds w (lock_core s) = Some (s1, w1)" and s1: "sys_inv s1" "locked s1"
    using wait_rounds_ok [OF hw sys_okD(1) [OF ok] lock_simps(1)] by metis
  show thesis
  proof (cases "cstate s1 = MSM_VIDC_CORE_INIT_WAIT")
    case False
    with True e s1 show thesis
      by (intro that [of "if cstate s1 = MSM_VIDC_CORE_INIT then 0 else - EINVAL" "unlock_core s1" w1])
        (simp_all add: msm_vidc_core_init_wait_def Let_def sys_ok_unlock)
  next
    case waiting: True
    obtain s2 w2 where "fail_core hw CORE_SUBSTATE_VIDEO_UNRESPONSIVE w1 s1 = Some (0, s2, w2)" "sys_inv s2"
      "cstate s2 = MSM_VIDC_CORE_DEINIT"
      using fail_core [OF hw s1] by metis
    with True waiting e show thesis
      by (intro that [of "- EINVAL" "unlock_core s2" w2])
        (simp_all add: msm_vidc_core_init_wait_def Let_def sys_ok_unlock)
  qed
qed

section \<open>Starting the core\<close>

text \<open>Steps after which a core that waits for the firmware still waits.\<close>

fun quiet :: "core_event \<Rightarrow> bool" where
  "quiet Core_Init = True"
| "quiet (System_Init flags pid) = (flags AND HFI_FW_FLAGS_SUCCESS = 0)"
| "quiet (Add_Session i) = True"
| "quiet (Remove_Session i) = True"
| "quiet (Remove_Dangling i) = True"
| "quiet _ = False"

definition waiting :: "uint32 \<Rightarrow> vidc_sys \<Rightarrow> bool" where
  "waiting pid s \<longleftrightarrow> sys_ok s \<and> cstate s = MSM_VIDC_CORE_INIT_WAIT \<and> sys_init_id s = pid"

lemma quiet_step:
  assumes "hw_ok hw" and "waiting pid s" and "quiet e"
  obtains rc s' w' where "core_step hw e w s = Some (rc, s', w')" and "waiting pid s'"
proof -
  have ok: "sys_ok s" using assms(2) by (simp add: waiting_def)
  obtain rc s' w' where e: "core_step hw e w s = Some (rc, s', w')" and "sys_ok s'" and "core_rel e s s'"
    using core_step_ok [OF assms(1) ok, of e w] unfolding step_ok_def by metis
  then have "waiting pid s'"
    using assms(2,3) by (cases e) (auto simp: waiting_def same_sessions_def)
  with e show thesis by (rule that)
qed

lemma quiet_steps:
  "hw_ok hw \<Longrightarrow> waiting pid s \<Longrightarrow> \<forall>e \<in> set es. quiet e \<Longrightarrow>
   \<exists>s' w'. core_steps hw es w s = Some (s', w') \<and> waiting pid s'"
proof (induction es arbitrary: w s)
  case (Cons e es)
  obtain rc s1 w1 where "core_step hw e w s = Some (rc, s1, w1)" "waiting pid s1"
    using quiet_step [OF Cons.prems(1,2), of e w] Cons.prems(3) by auto
  with Cons.IH [OF Cons.prems(1), of s1 w1] Cons.prems(3) show ?case by auto
qed simp

lemma waiting_lock: "waiting pid s \<Longrightarrow> unlock_core (lock_core s) = s"
  by (simp add: waiting_def sys_okD)

lemma quiet_rounds:
  "hw_ok hw \<Longrightarrow> waiting pid s \<Longrightarrow> \<forall>es \<in> set rounds. \<forall>e \<in> set es. quiet e \<Longrightarrow>
   \<exists>s' w'. waiting pid s' \<and> (\<forall>more. wait_rounds hw (rounds @ more) w (lock_core s)
      = wait_rounds hw more w' (lock_core s'))"
proof (induction rounds arbitrary: w s)
  case Nil
  then show ?case by auto
next
  case (Cons es rounds)
  obtain s1 w1 where e: "core_steps hw es w s = Some (s1, w1)" and s1: "waiting pid s1"
    using quiet_steps [OF Cons.prems(1,2), of es w] Cons.prems(3) by auto
  have "\<forall>es \<in> set rounds. \<forall>e \<in> set es. quiet e" using Cons.prems(3) by simp
  then obtain s' w' where s': "waiting pid s'"
    and r: "\<forall>more. wait_rounds hw (rounds @ more) w1 (lock_core s1) = wait_rounds hw more w' (lock_core s')"
    using Cons.IH [OF Cons.prems(1) s1] by metis
  have "cstate s = MSM_VIDC_CORE_INIT_WAIT" using Cons.prems(2) by (simp add: waiting_def)
  with e r have "\<forall>more. wait_rounds hw ((es # rounds) @ more) w (lock_core s) = wait_rounds hw more w' (lock_core s')"
    by (simp add: waiting_lock [OF Cons.prems(2)])
  with s' show ?case by metis
qed

text \<open>The answer itself.\<close>

lemma answer_step:
  assumes "hw_ok hw" and "waiting pid s" and "flags AND HFI_FW_FLAGS_SUCCESS \<noteq> 0"
  obtains rc s' w' where "core_step hw (System_Init flags pid) w s = Some (rc, s', w')" and "sys_ok s'"
    and "cstate s' = MSM_VIDC_CORE_INIT"
proof -
  have ok: "sys_ok s" using assms(2) by (simp add: waiting_def)
  obtain rc s' w' where e: "core_step hw (System_Init flags pid) w s = Some (rc, s', w')" and "sys_ok s'"
    and "core_rel (System_Init flags pid) s s'"
    using core_step_ok [OF assms(1) ok, of "System_Init flags pid" w] unfolding step_ok_def by metis
  with assms(2,3) show thesis by (intro that [OF e]) (simp_all add: waiting_def)
qed

text \<open>A core is started by an answer to the packet that started the firmware, and only while it waits.\<close>

lemma started_by_answer:
  assumes "hw_ok hw" and "sys_ok s" and "core_step hw e w s = Some (rc, s', w')"
    and "cstate s' = MSM_VIDC_CORE_INIT" and "cstate s \<noteq> MSM_VIDC_CORE_INIT"
  shows "cstate s = MSM_VIDC_CORE_INIT_WAIT \<and>
    (\<exists>flags. e = System_Init flags (sys_init_id s) \<and> flags AND HFI_FW_FLAGS_SUCCESS \<noteq> 0)"
proof -
  have "core_rel e s s'" using core_step_ok [OF assms(1,2), of e w] assms(3) by (simp add: step_ok_def)
  then show ?thesis using assms(4,5) by (cases e) (auto split: if_splits)
qed

text \<open>And it comes to wait by \<open>msm_vidc_core_init\<close> alone.\<close>

lemma waits_after_init:
  assumes "hw_ok hw" and "sys_ok s" and "core_step hw e w s = Some (rc, s', w')"
    and "cstate s' = MSM_VIDC_CORE_INIT_WAIT" and "cstate s \<noteq> MSM_VIDC_CORE_INIT_WAIT"
  shows "cstate s = MSM_VIDC_CORE_DEINIT \<and> e = Core_Init"
proof -
  have "core_rel e s s'" using core_step_ok [OF assms(1,2), of e w] assms(3) by (simp add: step_ok_def)
  then show ?thesis using assms(4,5) by (cases e) (auto split: if_splits)
qed

lemma core_steps_Cons:
  assumes "hw_ok hw" and "sys_ok s" and "core_steps hw (e # es) w s = Some (s', w')"
  obtains rc s1 w1 where "core_step hw e w s = Some (rc, s1, w1)" and "sys_ok s1"
    and "core_steps hw es w1 s1 = Some (s', w')"
proof -
  obtain rc s1 w1 where "core_step hw e w s = Some (rc, s1, w1)" "sys_ok s1"
    using core_step_ok [OF assms(1,2), of e w] unfolding step_ok_def by metis
  with assms(3) show thesis by (intro that) simp_all
qed

lemma started_from_wait:
  "hw_ok hw \<Longrightarrow> sys_ok s \<Longrightarrow> core_steps hw es w s = Some (s', w') \<Longrightarrow> cstate s' = MSM_VIDC_CORE_INIT \<Longrightarrow>
   cstate s \<noteq> MSM_VIDC_CORE_INIT \<Longrightarrow>
   \<exists>pre flags pid suf. es = pre @ System_Init flags pid # suf \<and> flags AND HFI_FW_FLAGS_SUCCESS \<noteq> 0
     \<and> (cstate s = MSM_VIDC_CORE_INIT_WAIT \<or> Core_Init \<in> set pre)"
proof (induction es arbitrary: w s)
  case (Cons e es)
  obtain rc s1 w1 where e: "core_step hw e w s = Some (rc, s1, w1)" and ok1: "sys_ok s1"
    and es: "core_steps hw es w1 s1 = Some (s', w')"
    using core_steps_Cons [OF Cons.prems(1-3)] by metis
  show ?case
  proof (cases "cstate s1 = MSM_VIDC_CORE_INIT")
    case True
    with started_by_answer [OF Cons.prems(1,2) e] Cons.prems(5) show ?thesis
      by (intro exI [of _ "[]"]) auto
  next
    case False
    obtain pre flags pid suf where p: "es = pre @ System_Init flags pid # suf"
      "flags AND HFI_FW_FLAGS_SUCCESS \<noteq> 0" "cstate s1 = MSM_VIDC_CORE_INIT_WAIT \<or> Core_Init \<in> set pre"
      using Cons.IH [OF Cons.prems(1) ok1 es Cons.prems(4) False] by metis
    moreover have "cstate s1 = MSM_VIDC_CORE_INIT_WAIT \<Longrightarrow> cstate s = MSM_VIDC_CORE_INIT_WAIT \<or> e = Core_Init"
      using waits_after_init [OF Cons.prems(1,2) e] by blast
    ultimately show ?thesis by (intro exI [of _ "e # pre"]) auto
  qed
qed simp

end
