(* ===== verification/Vidc_Core_Props.thy ===== *)
theory Vidc_Core_Props
  imports Vidc_Core_Steps Vidc_Inst_Events Vidc_Hfi_Props
begin

text \<open>
  The properties of the video core's life, with a driver, a platform on which every call succeeds, and one
  on which the firmware cannot be loaded, for the witnesses.
\<close>

section \<open>A small driver\<close>

definition demo_array :: msm_vidc_mem_addr where
  "demo_array = \<lparr>align_device_addr = 0, align_virtual_addr = None, q_mem_size = 0, ma_mem = mem0\<rparr>"

definition demo_core :: "msm_vidc_core_state \<Rightarrow> msm_vidc_core" where
  "demo_core st = \<lparr>core_lock_held = False, core_state = st, core_state_handle = Some st, core_sub_state = 0,
    iface_q_table = demo_array, q_tbl_hdr = None,
    iface_queues = \<lambda>_. \<lparr>q_hdr = None, q_arr = q_array.truncate demo_array\<rparr>,
    core_sfr = demo_array, aon_reg = demo_array, fence_reg = demo_array, qtimer_reg = demo_array,
    mmap_buf = demo_array, synx_fence_queue = mem0, supports_synx_fence = False, device_region_tbl = [],
    core_packet = Some (replicate 4096 0), core_packet_size = 4096, core_ids = demo_hfi_core\<rparr>"

definition demo_inst :: "msm_vidc_state \<Rightarrow> uint32 \<Rightarrow> msm_vidc_inst" where
  "demo_inst st sid = \<lparr>inst_locked = False, inst_domain = MSM_VIDC_DECODER, inst_state = st,
    event_handle = Some st, inst_sub_state = 0, inst_session_id = sid\<rparr>"

definition demo_sys :: "msm_vidc_core_state \<Rightarrow> nat list \<Rightarrow> vidc_sys" where
  "demo_sys st is = \<lparr>sys_core = demo_core st, sys_insts = \<lambda>i. demo_inst MSM_VIDC_STREAMING (of_nat i),
    instances = is, dangling_instances = [], sys_init_id = 7, max_session_count = 16, skip_pc_count = 0\<rparr>"

definition demo_hw :: "unit core_hw" where
  "demo_hw = \<lparr>hw_do = \<lambda>c w core. Some (0, core, w), fw_cookie = \<lambda>_. True, sys_init_packet = \<lambda>_ _. 7\<rparr>"

lemma demo_hw_ok: "hw_ok demo_hw"
  by (simp add: hw_ok_def demo_hw_def)

lemma demo_core_hfi_ok: "hfi_ok (demo_core st)"
  by (simp add: hfi_ok_def demo_core_def demo_array_def q_array.truncate_def buffer_ok_def holds_pkt_def pkt_len_def
      u32_of_bytes_def)

lemma demo_sys_ok: "sys_ok (demo_sys MSM_VIDC_CORE_INIT [1, 2])" "sys_ok (demo_sys MSM_VIDC_CORE_DEINIT [])"
  "sys_ok (demo_sys MSM_VIDC_CORE_INIT_WAIT [])"
proof -
  have "core_ok (demo_core st)" "core_state (demo_core st) = st" "\<not> core_lock_held (demo_core st)" for st
    using demo_core_hfi_ok [of st] by (simp_all add: core_ok_def) (simp_all add: demo_core_def)
  then show "sys_ok (demo_sys MSM_VIDC_CORE_INIT [1, 2])" "sys_ok (demo_sys MSM_VIDC_CORE_DEINIT [])"
    "sys_ok (demo_sys MSM_VIDC_CORE_INIT_WAIT [])"
    by (simp_all add: sys_ok_def sys_inv_def demo_sys_def inst_ok_def demo_inst_def subs_ok_def)
qed

section \<open>Properties\<close>

text \<open>
  A request to change the state of the core succeeds on exactly six pairs of states and then sets the
  state and its handler together; on three pairs it fails with \<open>-EINVAL\<close>; on all others it is ignored and
  returns 0.  Without the lock it always fails, and nothing but the state changes.
\<close>

theorem core_state_changes:
  "msm_vidc_change_core_state core t =
    (if \<not> core_lock_held core then (- EINVAL, core)
     else if (core_state core, t) \<in>
         {(MSM_VIDC_CORE_DEINIT, MSM_VIDC_CORE_INIT_WAIT), (MSM_VIDC_CORE_INIT_WAIT, MSM_VIDC_CORE_INIT),
          (MSM_VIDC_CORE_INIT_WAIT, MSM_VIDC_CORE_ERROR), (MSM_VIDC_CORE_INIT, MSM_VIDC_CORE_DEINIT),
          (MSM_VIDC_CORE_INIT, MSM_VIDC_CORE_ERROR), (MSM_VIDC_CORE_ERROR, MSM_VIDC_CORE_DEINIT)}
     then (0, core\<lparr>core_state := t, core_state_handle := Some t\<rparr>)
     else if (core_state core, t) \<in>
         {(MSM_VIDC_CORE_DEINIT, MSM_VIDC_CORE_INIT), (MSM_VIDC_CORE_INIT_WAIT, MSM_VIDC_CORE_DEINIT),
          (MSM_VIDC_CORE_INIT, MSM_VIDC_CORE_INIT_WAIT)}
     then (- EINVAL, core)
     else (0, core))"
  by (cases "core_state core"; cases t) (simp_all add: change_core_state core_to_def)

text \<open>C14: Whatever the order of the operations on the core - opening, closing, answers and errors of the
  firmware, timeouts, the watchdog, power collapse - each one returns and the driver stays well formed: the
  core's handler is that of its state, only its sub-states are set, its lock is free again, no session is
  listed twice, sessions are listed only while the core runs or has just failed, and every session's
  handler is that of its state.
\<close>

theorem vidc_driver_types:
  assumes "hw_ok hw" and "sys_ok s"
  shows "\<exists>s' w'. core_steps hw es w s = Some (s', w')
    \<and> core_state_handle (sys_core s') = Some (core_state (sys_core s')) \<and> core_sub_state (sys_core s') < 256
    \<and> \<not> core_lock_held (sys_core s') \<and> distinct (instances s' @ dangling_instances s')
    \<and> (core_state (sys_core s') \<in> {MSM_VIDC_CORE_DEINIT, MSM_VIDC_CORE_INIT_WAIT} \<longrightarrow> instances s' = [])
    \<and> (\<forall>i. event_handle (sys_insts s' i) = Some (inst_state (sys_insts s' i)) \<and> inst_sub_state (sys_insts s' i) < 128)"
proof -
  obtain s' w' where "core_steps hw es w s = Some (s', w')" and "sys_ok s'"
    using core_steps_ok [OF assms] by metis
  then show ?thesis
    by (intro exI [of _ s'] exI [of _ w']) (auto simp: sys_ok_def sys_inv_def core_ok_def inst_ok_def subs_ok_def)
qed

theorem vidc_driver_types_witness:
  "\<exists>s' w'. core_steps demo_hw [Inst_Timeout 1, Core_Init, System_Init 1 7, Add_Session 3] ()
      (demo_sys MSM_VIDC_CORE_INIT [1, 2]) = Some (s', w') \<and> core_sub_state (sys_core s') < 256"
  using vidc_driver_types [OF demo_hw_ok demo_sys_ok(1), of "[Inst_Timeout 1, Core_Init, System_Init 1 7, Add_Session 3]" "()"]
  by blast

text \<open>C25: The core only ever comes to run in the order of the protocol: in every history that starts with the
  core down and ends with it running, \<open>msm_vidc_core_init\<close> was called first and the firmware answered its
  start packet with success after that.
\<close>

theorem core_start_order:
  assumes "hw_ok hw" and "sys_ok s" and "core_state (sys_core s) = MSM_VIDC_CORE_DEINIT"
    and "core_steps hw es w s = Some (s', w')" and "core_state (sys_core s') = MSM_VIDC_CORE_INIT"
  shows "\<exists>pre flags pid suf. es = pre @ System_Init flags pid # suf \<and> Core_Init \<in> set pre
    \<and> flags AND HFI_FW_FLAGS_SUCCESS \<noteq> 0"
proof -
  have "core_state (sys_core s) \<noteq> MSM_VIDC_CORE_INIT" using assms(3) by simp
  from started_from_wait [OF assms(1,2,4,5) this] assms(3) show ?thesis by auto
qed

theorem core_start_order_witness:
  "\<exists>pre flags pid suf. [Core_Init, System_Init 1 7] = pre @ System_Init flags pid # suf \<and> Core_Init \<in> set pre
    \<and> flags AND HFI_FW_FLAGS_SUCCESS \<noteq> 0"
proof -
  have "case core_steps demo_hw [Core_Init, System_Init 1 7] () (demo_sys MSM_VIDC_CORE_DEINIT []) of
      None \<Rightarrow> False | Some (s', w') \<Rightarrow> core_state (sys_core s') = MSM_VIDC_CORE_INIT"
    by code_simp
  then obtain s' w' where "core_steps demo_hw [Core_Init, System_Init 1 7] () (demo_sys MSM_VIDC_CORE_DEINIT []) = Some (s', w')"
    and "core_state (sys_core s') = MSM_VIDC_CORE_INIT" by (auto split: option.splits)
  then show ?thesis
    by (intro core_start_order [OF demo_hw_ok demo_sys_ok(2)]) (simp_all add: demo_sys_def demo_core_def)
qed

text \<open>C30: Waiting for the firmware ends, whatever the other threads do meanwhile, and its result says what
  became of the core: 0 if it runs, \<open>-EINVAL\<close> if it is down or failed; it never returns while the core
  still waits, since after the last round it takes the core down.
\<close>

theorem init_wait_result:
  assumes "hw_ok hw" and "sys_ok s"
  shows "\<exists>rc s' w'. msm_vidc_core_init_wait hw rounds w s = Some (rc, s', w') \<and> sys_ok s'
    \<and> rc = (if core_state (sys_core s') = MSM_VIDC_CORE_INIT then 0 else - EINVAL)
    \<and> core_state (sys_core s') \<noteq> MSM_VIDC_CORE_INIT_WAIT"
  using core_init_wait [OF assms, of rounds w] by metis

theorem init_wait_result_witness:
  "\<exists>rc s' w'. msm_vidc_core_init_wait demo_hw [[], [Watchdog_Mark, System_Error], []] ()
      (demo_sys MSM_VIDC_CORE_INIT_WAIT []) = Some (rc, s', w') \<and> core_state (sys_core s') \<noteq> MSM_VIDC_CORE_INIT_WAIT"
  using init_wait_result [OF demo_hw_ok demo_sys_ok(3), of "[[], [Watchdog_Mark, System_Error], []]" "()"] by blast

text \<open>C18: Starting the core succeeds: if in one of the rounds in which \<open>msm_vidc_core_init_wait\<close> sleeps the
  firmware answers its start packet with success, and until then no error, timeout or deinitialisation
  comes in between - other clients may open, join and leave, and failed answers may arrive - it returns 0
  and the core runs.
\<close>

theorem core_start_succeeds:
  assumes "hw_ok hw" and "sys_ok s" and "core_state (sys_core s) = MSM_VIDC_CORE_INIT_WAIT"
    and "\<forall>es \<in> set before. \<forall>e \<in> set es. quiet e" and "flags AND HFI_FW_FLAGS_SUCCESS \<noteq> 0"
  shows "\<exists>s' w'. msm_vidc_core_init_wait hw (before @ [System_Init flags (sys_init_id s)] # later) w s
      = Some (0, s', w') \<and> core_state (sys_core s') = MSM_VIDC_CORE_INIT"
proof -
  have waits: "waiting (sys_init_id s) s" using assms(2,3) by (simp add: waiting_def)
  let ?a = "[System_Init flags (sys_init_id s)]"
  obtain s1 w1 where s1: "waiting (sys_init_id s) s1"
    and r: "\<And>more. wait_rounds hw (before @ more) w (lock_core s) = wait_rounds hw more w1 (lock_core s1)"
    using quiet_rounds [OF assms(1) waits assms(4), of w] by metis
  obtain rc s2 w2 where a: "core_step hw (System_Init flags (sys_init_id s)) w1 s1 = Some (rc, s2, w2)"
    and c: "core_state (sys_core s2) = MSM_VIDC_CORE_INIT"
    by (rule answer_step [OF assms(1) s1 assms(5)])
  have "wait_rounds hw (before @ ?a # later) w (lock_core s) = Some (lock_core s2, w2)"
    using a c s1 by (cases later) (simp_all add: r waiting_lock waiting_def)
  with assms(3) c show ?thesis by (simp add: msm_vidc_core_init_wait_def Let_def)
qed

theorem core_start_succeeds_witness:
  "\<exists>s' w'. msm_vidc_core_init_wait demo_hw [[], [Core_Init, System_Init 0 7], [System_Init 1 7], [System_Error]] ()
      (demo_sys MSM_VIDC_CORE_INIT_WAIT []) = Some (0, s', w') \<and> core_state (sys_core s') = MSM_VIDC_CORE_INIT"
  using core_start_succeeds [OF demo_hw_ok demo_sys_ok(3), of "[[], [Core_Init, System_Init 0 7]]" 1 "[[System_Error]]" "()"]
  by (simp add: demo_sys_def demo_core_def HFI_FW_FLAGS_SUCCESS_def)

text \<open>C11: A fatal error of the firmware stops everything: afterwards the core is down and no session is listed;
  a command to the firmware is refused and leaves the queues untouched; and every session that was listed
  refuses all requests of its client but stream-off, without carrying out anything.
\<close>

theorem system_error_quiesces:
  assumes "hw_ok hw" and "sys_ok s"
  shows "\<exists>s' w'. handle_system_error hw w s = Some (0, s', w') \<and> core_state (sys_core s') = MSM_VIDC_CORE_DEINIT
    \<and> instances s' = []
    \<and> (\<forall>pkt. venus_hfi_queue_cmd_write (sys_core (lock_core s')) pkt
         = Some (- EINVAL, sys_core (lock_core s'), False))
    \<and> (\<forall>i \<in> set (instances s). \<forall>cs v ev. (\<forall>t. ev \<noteq> MSM_VIDC_STREAMOFF t) \<longrightarrow>
         call_event_handle cs v (sys_insts s' i) ev = Some (- EINVAL, sys_insts s' i, v))"
proof -
  obtain rc s' w' where e: "handle_system_error hw w s = Some (rc, s', w')" and ok: "sys_ok s'"
    and r: "core_rel System_Error s s'"
    using error_step [OF assms, of w] unfolding step_ok_def by metis
  have rc: "rc = 0" using e by (auto simp: handle_system_error_def bind_eq_Some_conv split: prod.splits)
  have refused: "venus_hfi_queue_cmd_write (sys_core (lock_core s')) pkt
      = Some (- EINVAL, sys_core (lock_core s'), False)" for pkt
    using r by (simp add: venus_hfi_queue_cmd_write_def iface_cmdq_write_relaxed_def strict_check_def
        core_in_valid_state_def)
  have "call_event_handle cs v (sys_insts s' i) ev = Some (- EINVAL, sys_insts s' i, v)"
    if i: "i \<in> set (instances s)" and ev: "\<forall>t. ev \<noteq> MSM_VIDC_STREAMOFF t" for i cs v ev
  proof -
    have st: "inst_state (sys_insts s' i) = MSM_VIDC_CLOSE \<or> inst_state (sys_insts s' i) = MSM_VIDC_ERROR"
      using r i by (simp add: torn_down_def failed_inst_def change_to_error)
    have "event_handle (sys_insts s' i) = Some (inst_state (sys_insts s' i))"
      using ok by (simp add: sys_ok_def sys_inv_def inst_ok_def)
    moreover have "event_verdict cs v (sys_insts s' i) ev = Refuse EINVAL"
      using st ev by (cases ev) (auto simp: event_verdict_def)
    ultimately show ?thesis by (simp add: call_event_handle_def verdict_correct)
  qed
  with e rc r refused show ?thesis by (auto simp: torn_down_def)
qed

theorem system_error_quiesces_witness:
  "\<exists>s' w'. handle_system_error demo_hw () (demo_sys MSM_VIDC_CORE_INIT [1, 2]) = Some (0, s', w')
    \<and> core_state (sys_core s') = MSM_VIDC_CORE_DEINIT \<and> instances s' = []
    \<and> (\<forall>pkt. venus_hfi_queue_cmd_write (sys_core (lock_core s')) pkt
         = Some (- EINVAL, sys_core (lock_core s'), False))
    \<and> (\<forall>i \<in> set (instances (demo_sys MSM_VIDC_CORE_INIT [1, 2])). \<forall>(cs :: unit inst_calls) v ev.
         (\<forall>t. ev \<noteq> MSM_VIDC_STREAMOFF t) \<longrightarrow>
         call_event_handle cs v (sys_insts s' i) ev = Some (- EINVAL, sys_insts s' i, v))"
  by (rule system_error_quiesces [OF demo_hw_ok demo_sys_ok(1)])

text \<open>C36: An unforced deinitialisation, as the delayed work that unloads the firmware makes it, that hits a core
  which waits for its firmware returns 0 and has taken the core's hardware down, but the change of state is
  refused: the core still counts as starting, and the next call of \<open>msm_vidc_core_init\<close> returns 0 and does
  nothing.
\<close>

theorem deinit_while_waiting:
  assumes "hw_ok hw" and "sys_ok s" and "core_state (sys_core s) = MSM_VIDC_CORE_INIT_WAIT"
  shows "\<exists>s' w' rc core. venus_hfi_core_deinit hw False w (sys_core (lock_core s)) = Some (rc, core, w')
    \<and> msm_vidc_core_deinit hw False w s = Some (0, s', w')
    \<and> core_state (sys_core s') = MSM_VIDC_CORE_INIT_WAIT
    \<and> msm_vidc_core_init hw w' s' = Some (0, s', w')"
proof -
  note inv = sys_okD(1) [OF assms(2)]
  have empty: "instances s = []" using assms by (auto simp: sys_ok_def sys_inv_def)
  have ok: "core_ok (sys_core (lock_core s))" using inv by (simp add: sys_inv_def)
  obtain rc core w' where f: "venus_hfi_core_deinit hw False w (sys_core (lock_core s)) = Some (rc, core, w')"
    and core: "core_ok core" "core_state core = cstate s" "core_lock_held core"
    using keeps_venus_hfi_core_deinit [OF assms(1), of False] ok unfolding keeps_core_def
    by (metis lock_simps(1,3))
  obtain rc' s' w'' where d: "msm_vidc_core_deinit hw False w s = Some (rc', s', w'')" and "sys_ok s'"
    and "core_rel (Core_Deinit False) s s'"
    using deinit_step [OF assms(1,2), of False w] unfolding step_ok_def by metis
  moreover have "rc' = 0 \<and> w'' = w'"
    using d f assms(3) empty
    by (auto simp: msm_vidc_core_deinit_def msm_vidc_core_deinit_locked_def strict_check_def on_core_def)
  moreover from calculation have c: "cstate s' = MSM_VIDC_CORE_INIT_WAIT"
    using assms(3) empty by simp
  moreover have "msm_vidc_core_init hw w' s' = Some (0, s', w')"
    using c \<open>sys_ok s'\<close> by (simp add: msm_vidc_core_init_def Let_def core_in_valid_state_def sys_okD)
  ultimately show ?thesis using f by auto
qed

theorem deinit_while_waiting_witness:
  "\<exists>s' w'. msm_vidc_core_deinit demo_hw False () (demo_sys MSM_VIDC_CORE_INIT_WAIT []) = Some (0, s', w')
    \<and> core_state (sys_core s') = MSM_VIDC_CORE_INIT_WAIT"
  using deinit_while_waiting [OF demo_hw_ok demo_sys_ok(3), of "()"] by (auto simp: demo_sys_def demo_core_def)

end
