(* ===== verification/Vidc_Inst_Props.thy ===== *)
theory Vidc_Inst_Props
  imports Vidc_Inst_Run Vidc_Core_Props
begin

text \<open>
  The properties of the sessions' state machine, with a small decoder session and a firmware that does what
  it is asked, for the witnesses.
\<close>

section \<open>A firmware that obeys\<close>

text \<open>It answers the wait for a stop with the packet for the port, and nothing fails.\<close>

definition demo_ops :: "unit inst_ops" where
  "demo_ops = \<lparr>
    op_session_start = \<lambda>w _ _. (0, w), op_session_stop = \<lambda>w _ _. (0, w), op_session_pause = \<lambda>w _ _. (0, w),
    op_session_resume = \<lambda>w _ _ _. (0, w), op_session_drain = \<lambda>w _ _. (0, w), op_session_close = \<lambda>w _. (0, w),
    op_wait = \<lambda>w _ sig. (True, case sig of SIGNAL_CMD_STOP_INPUT \<Rightarrow> [Session_Stop HFI_PORT_BITSTREAM]
      | SIGNAL_CMD_STOP_OUTPUT \<Rightarrow> [Session_Stop HFI_PORT_RAW] | SIGNAL_CMD_CLOSE \<Rightarrow> [], w),
    op_on_core_list = \<lambda>_ _. True, op_buffers_queued = \<lambda>_ _. False, op_call = \<lambda>w _ _. (0, w),
    op_query = \<lambda>_ _ _. False, op_other = \<lambda>w _ _. (0, w), op_cap_id = \<lambda>_ c. c,
    op_dynamic_allowed = \<lambda>_ _. True\<rparr>"

lemma demo_inst_ok: "inst_ok (demo_inst st sid)"
  by (simp add: inst_ok_def demo_inst_def subs_ok_def)

section \<open>Events\<close>

text \<open>C19: Every event is dispatched by one table, whatever the state of the session: a request for a port is
  carried out, ignored or refused according to which ports stream; controls are free until the session's
  master port streams and then only if they may change dynamically; start needs a completed resolution
  change or drain, stop a streaming input without a drain; after a close or an error only stream-off is
  carried out; and without the lock everything is refused.
\<close>

theorem session_event_table:
  assumes "event_handle inst = Some (inst_state inst)"
  shows "call_event_handle cs w inst event = Some
    (case event_verdict cs w inst event of
       Perform \<Rightarrow> perform cs w inst event
     | Ignore \<Rightarrow> (0, inst, w)
     | Refuse e \<Rightarrow> (- e, inst, w))"
  using assms by (simp add: call_event_handle_def verdict_correct)

theorem session_event_table_witness:
  "call_event_handle (flow_calls demo_ops) () ((demo_inst MSM_VIDC_INPUT_STREAMING 1)\<lparr>inst_locked := True\<rparr>)
      (MSM_VIDC_S_FMT INPUT_MPLANE)
    = Some (- 16, (demo_inst MSM_VIDC_INPUT_STREAMING 1)\<lparr>inst_locked := True\<rparr>, ())"
  using session_event_table [of "(demo_inst MSM_VIDC_INPUT_STREAMING 1)\<lparr>inst_locked := True\<rparr>" "flow_calls demo_ops" "()"
      "MSM_VIDC_S_FMT INPUT_MPLANE"]
  by (simp add: demo_inst_def event_verdict_def setup_verdict_def input_on_def output_on_def)

section \<open>States\<close>

text \<open>The table of state changes says exactly this: a session moves by starting or stopping one port, or by
  closing or failing; starting and stopping both at once is refused; a closed session refuses to stream
  again and ignores errors, and a failed one ignores every request and reports success.
\<close>

theorem session_state_changes:
  "msm_vidc_change_state inst t =
    (case (ports_of (inst_state inst), ports_of t) of
       (Some (i, j), Some (i', j')) \<Rightarrow>
         if (i = i') \<noteq> (j = j') then (0, inst\<lparr>inst_state := t, event_handle := Some t\<rparr>)
         else if i = i' then (0, inst) else (- EINVAL, inst)
     | (Some _, None) \<Rightarrow> (0, inst\<lparr>inst_state := t, event_handle := Some t\<rparr>)
     | (None, Some _) \<Rightarrow> (if inst_state inst = MSM_VIDC_CLOSE then - EINVAL else 0, inst)
     | (None, None) \<Rightarrow> (0, inst))"
  by (cases "inst_state inst"; cases t) (simp_all add: change_state inst_edge.simps inst_refused_def inst_to_def)

text \<open>The abstract machine of the ports: one bit for each, and nothing after a close or a failure.\<close>

fun port_on :: "msm_vidc_port_type \<Rightarrow> (bool \<times> bool) option \<Rightarrow> (bool \<times> bool) option" where
  "port_on p None = None"
| "port_on p (Some (i, j)) =
     (if p = INPUT_PORT then (if i then None else Some (True, j))
      else if p = OUTPUT_PORT then (if j then None else Some (i, True))
      else if p = INPUT_META_PORT \<or> p = OUTPUT_META_PORT then Some (i, j) else None)"

fun port_off :: "msm_vidc_port_type \<Rightarrow> (bool \<times> bool) option \<Rightarrow> (bool \<times> bool) option" where
  "port_off p None = None"
| "port_off p (Some (i, j)) =
     (if p = INPUT_PORT then (if i then Some (False, j) else None)
      else if p = OUTPUT_PORT then (if j then Some (i, False) else None)
      else if p = INPUT_META_PORT \<or> p = OUTPUT_META_PORT then Some (i, j) else None)"

text \<open>C24: Stream-on and stream-off refine the machine of the two port bits: they set or clear the port's bit,
  leave the meta ports alone, and turn the session into a failed one when the bit already has the value
  asked for; they report success in every case.
\<close>

theorem port_machine_refined:
  "fst (msm_vidc_state_change_streamon inst p) = 0
   \<and> ports_of (inst_state (snd (msm_vidc_state_change_streamon inst p))) = port_on p (ports_of (inst_state inst))
   \<and> fst (msm_vidc_state_change_streamoff inst p) = 0
   \<and> ports_of (inst_state (snd (msm_vidc_state_change_streamoff inst p))) = port_off p (ports_of (inst_state inst))"
proof -
  note defs = msm_vidc_state_change_streamon_def msm_vidc_state_change_streamoff_def is_state_def
    change_state inst_edge.simps inst_refused_def
  have "fst (msm_vidc_state_change_streamon inst p) = 0
    \<and> ports_of (inst_state (snd (msm_vidc_state_change_streamon inst p))) = port_on p (ports_of (inst_state inst))"
    by (cases "inst_state inst"; cases p) (simp_all add: defs)
  moreover have "fst (msm_vidc_state_change_streamoff inst p) = 0
    \<and> ports_of (inst_state (snd (msm_vidc_state_change_streamoff inst p))) = port_off p (ports_of (inst_state inst))"
    by (cases "inst_state inst"; cases p) (simp_all add: defs)
  ultimately show ?thesis by simp
qed

section \<open>Sub-states\<close>

text \<open>A change of the sub-states first sets and then clears them, at once or not at all: it fails if the
  two sets meet, if one of them is no set of sub-states, or if a sub-state is to be set that the session's
  state does not admit; clearing is always admitted, and a failed session ignores the request.
\<close>

theorem sub_state_changes:
  "msm_vidc_change_sub_state inst c s =
    (if inst_state inst = MSM_VIDC_ERROR \<or> c = 0 \<and> s = 0 then (0, inst)
     else if c AND s = 0 \<and> s < 128 \<and> c < 128 \<and> s AND NOT (settable (inst_state inst)) = 0
     then (0, inst\<lparr>inst_sub_state := (inst_sub_state inst OR s) AND NOT c\<rparr>)
     else (- EINVAL, inst))"
  by (simp add: change_sub_state)

section \<open>Histories\<close>

text \<open>C12: Whatever the client asks for and whatever the firmware sends, in any order and also while the driver
  waits unlocked, every request returns and the session stays well formed: its handler is that of its
  state, only its seven sub-states are set, and the last buffer of a resolution change or of a drain is
  only recorded while that sequence is under way.
\<close>

theorem session_history_well_formed:
  assumes "inst_ok inst"
  shows "\<exists>rcs inst' w'. session_run ops steps w inst = Some (rcs, inst', w')
    \<and> event_handle inst' = Some (inst_state inst') \<and> inst_sub_state inst' < 128
    \<and> (is_sub_state inst' MSM_VIDC_DRC_LAST_BUFFER \<longrightarrow> is_sub_state inst' MSM_VIDC_DRC)
    \<and> (is_sub_state inst' MSM_VIDC_DRAIN_LAST_BUFFER \<longrightarrow> is_sub_state inst' MSM_VIDC_DRAIN)
    \<and> inst_domain inst' = inst_domain inst"
proof -
  have "inst_inv (inst_domain inst) False inst" using assms by (simp add: inst_inv_def)
  then obtain rcs inst' w' where "session_run ops steps w inst = Some (rcs, inst', w')"
    and "inst_inv (inst_domain inst) False inst'"
    using session_run_keeps by metis
  then show ?thesis
    by (intro exI [of _ rcs] exI [of _ inst'] exI [of _ w'])
      (simp add: inst_inv_def inst_ok_def subs_ok_def is_sub_state_def)
qed

definition drc_history :: "session_step list" where
  "drc_history =
    [Firmware (Settings_Change HFI_PORT_BITSTREAM 0 False), Firmware (Last_Flag_Info HFI_INFO_HFI_FLAG_PSC_LAST),
     Client (Event (MSM_VIDC_STREAMOFF OUTPUT_MPLANE)), Client (Event (MSM_VIDC_STREAMON OUTPUT_MPLANE))]"

theorem session_history_well_formed_witness:
  "\<exists>rcs inst' w'. session_run demo_ops drc_history () (demo_inst MSM_VIDC_STREAMING 1) = Some (rcs, inst', w')
    \<and> event_handle inst' = Some (inst_state inst') \<and> inst_sub_state inst' < 128"
  using session_history_well_formed [OF demo_inst_ok, of demo_ops drc_history "()" MSM_VIDC_STREAMING 1] by blast

text \<open>A session that has failed has failed for good: no request of the client, closing included, and no
  packet of the firmware takes it out of the error state.
\<close>

theorem failed_session_stays_failed:
  assumes "inst_ok inst" and "inst_state inst = MSM_VIDC_ERROR"
  shows "\<exists>rcs inst' w'. session_run ops steps w inst = Some (rcs, inst', w') \<and> inst_state inst' = MSM_VIDC_ERROR"
proof -
  have "inst_inv (inst_domain inst) True inst" using assms by (simp add: inst_inv_def)
  then obtain rcs inst' w' where "session_run ops steps w inst = Some (rcs, inst', w')"
    and "inst_inv (inst_domain inst) True inst'"
    using session_run_keeps by metis
  then show ?thesis by (simp add: inst_inv_def)
qed

theorem failed_session_stays_failed_witness:
  "\<exists>rcs inst' w'. session_run demo_ops (drc_history @ [Client Close]) () (demo_inst MSM_VIDC_ERROR 1)
    = Some (rcs, inst', w') \<and> inst_state inst' = MSM_VIDC_ERROR"
  using failed_session_stays_failed [OF demo_inst_ok, of MSM_VIDC_ERROR 1 demo_ops "drc_history @ [Client Close]" "()"]
  by (simp add: demo_inst_def)

section \<open>Sequences that complete\<close>

text \<open>What the sequences need of the firmware and the driver's preparations: nothing fails.\<close>

definition resume_succeeds :: "'w inst_ops \<Rightarrow> bool" where
  "resume_succeeds ops \<longleftrightarrow>
    (\<forall>w i p. fst (op_session_drain ops w i p) = 0) \<and> (\<forall>w i p c. fst (op_session_resume ops w i p c) = 0)
    \<and> (\<forall>w i c. fst (op_call ops w i c) = 0) \<and> (\<forall>w i. \<not> op_query ops w i Interlace_Unsupported)"

text \<open>A streaming session, by its lock, its kind, its sub-states and its identifier.\<close>

definition streaming :: "bool \<Rightarrow> uint32 \<Rightarrow> uint32 \<Rightarrow> uint32 \<Rightarrow> msm_vidc_inst" where
  "streaming l d x sid = \<lparr>inst_locked = l, inst_domain = d, inst_state = MSM_VIDC_STREAMING,
    event_handle = Some MSM_VIDC_STREAMING, inst_sub_state = x, inst_session_id = sid\<rparr>"

lemma streaming_simps [simp]:
  "inst_state (streaming l d x sid) = MSM_VIDC_STREAMING" "event_handle (streaming l d x sid) = Some MSM_VIDC_STREAMING"
  "inst_sub_state (streaming l d x sid) = x" "inst_domain (streaming l d x sid) = d"
  "inst_locked (streaming l d x sid) = l" "(streaming l d x sid)\<lparr>inst_locked := b\<rparr> = streaming b d x sid"
  "(streaming l d x sid)\<lparr>inst_sub_state := y\<rparr> = streaming l d y sid"
  by (simp_all add: streaming_def)

definition kind_ok :: "uint32 \<Rightarrow> bool" where
  "kind_ok d \<longleftrightarrow> d = MSM_VIDC_DECODER \<or> d = MSM_VIDC_ENCODER"

lemmas client_defs = call_event_handle_def msm_vidc_streaming_state_def strict_inst_check_def is_sub_state_def
  flow_calls_def is_decode_session_def is_encode_session_def kind_ok_def Let_def case_prod_beta

lemma drain_step:
  assumes "resume_succeeds ops" and "kind_ok d"
  shows "\<exists>w'. client_step ops (Event MSM_VIDC_CMD_STOP) w (streaming l d 0 sid)
    = Some (0, streaming False d MSM_VIDC_DRAIN sid, w')"
  using assms unfolding resume_succeeds_def
  by (auto simp: client_defs msm_vidc_stop_cmd_def msm_vidc_process_drain_def change_sub_state)

lemma drain_packets:
  "inst_packets [Session_Drain, Last_Flag_Info HFI_INFO_HFI_FLAG_DRAIN_LAST] (streaming l d MSM_VIDC_DRAIN sid)
    = streaming l d (MSM_VIDC_DRAIN OR MSM_VIDC_DRAIN_LAST_BUFFER OR MSM_VIDC_INPUT_PAUSE OR MSM_VIDC_OUTPUT_PAUSE) sid"
  by (simp add: inst_packet_def handle_session_drain_def msm_vidc_process_drain_done_def is_sub_state_def
      change_sub_state handle_session_last_flag_info_def HFI_INFO_HFI_FLAG_PSC_LAST_def
      HFI_INFO_HFI_FLAG_DRAIN_LAST_def msm_vidc_allow_drain_last_flag_def msm_vidc_process_drain_last_flag_def
      msm_vidc_state_change_drain_last_flag_def)

lemma psc_packets:
  "inst_packets [Settings_Change HFI_PORT_BITSTREAM 0 False, Last_Flag_Info HFI_INFO_HFI_FLAG_PSC_LAST]
      (streaming l d 0 sid)
    = streaming l d (MSM_VIDC_DRC OR MSM_VIDC_DRC_LAST_BUFFER OR MSM_VIDC_INPUT_PAUSE OR MSM_VIDC_OUTPUT_PAUSE) sid"
  by (simp add: inst_packet_def handle_port_settings_change_def handle_input_port_settings_change_def
      msm_vidc_allow_input_psc_def msm_vidc_state_change_input_psc_def is_state_def is_sub_state_def
      change_sub_state handle_session_last_flag_info_def HFI_INFO_HFI_FLAG_PSC_LAST_def
      msm_vidc_allow_psc_last_flag_def msm_vidc_process_psc_last_flag_def msm_vidc_state_change_psc_last_flag_def)

text \<open>At the end of the drain what has been recorded is cleared, but an encoder's output stays paused.\<close>

lemma resume_done:
  assumes "resume_succeeds ops"
  shows "fst (msm_vidc_process_resume ops w (streaming l MSM_VIDC_DECODER 53 sid)) = 0"
    and "fst (snd (msm_vidc_process_resume ops w (streaming l MSM_VIDC_DECODER 53 sid))) = streaming l MSM_VIDC_DECODER 0 sid"
    and "fst (msm_vidc_process_resume ops w (streaming l MSM_VIDC_ENCODER 53 sid)) = 0"
    and "fst (snd (msm_vidc_process_resume ops w (streaming l MSM_VIDC_ENCODER 53 sid))) = streaming l MSM_VIDC_ENCODER 32 sid"
  using assms unfolding resume_succeeds_def
  by (simp_all add: msm_vidc_process_resume_def resume_ports_def change_sub_state is_sub_state_def
      is_encode_session_def Let_def case_prod_beta)

lemma start_cmd_done:
  assumes "resume_succeeds ops" and "kind_ok d"
  shows "fst (msm_vidc_start_cmd ops w (streaming l d 53 sid)) = 0"
    and "fst (snd (msm_vidc_start_cmd ops w (streaming l d 53 sid)))
      = streaming l d (if d = MSM_VIDC_ENCODER then MSM_VIDC_OUTPUT_PAUSE else 0) sid"
proof -
  have "fst (run_calls ops cs w i) = 0" for cs w i
    using assms(1) by (induction cs arbitrary: w) (simp_all add: run_calls.simps resume_succeeds_def case_prod_beta)
  moreover have "\<not> op_query ops w i Interlace_Unsupported" for w i using assms(1) by (simp add: resume_succeeds_def)
  moreover note resume_done [OF assms(1)]
  ultimately have facts: "fst (run_calls ops cs w i) = 0" "\<not> op_query ops w i Interlace_Unsupported"
    "fst (msm_vidc_process_resume ops w (streaming l MSM_VIDC_DECODER 53 sid)) = 0"
    "fst (snd (msm_vidc_process_resume ops w (streaming l MSM_VIDC_DECODER 53 sid))) = streaming l MSM_VIDC_DECODER 0 sid"
    "fst (msm_vidc_process_resume ops w (streaming l MSM_VIDC_ENCODER 53 sid)) = 0"
    "fst (snd (msm_vidc_process_resume ops w (streaming l MSM_VIDC_ENCODER 53 sid))) = streaming l MSM_VIDC_ENCODER 32 sid"
    for cs w i l sid
    by metis+
  consider "d = MSM_VIDC_DECODER" | "d = MSM_VIDC_ENCODER" using assms(2) by (auto simp: kind_ok_def)
  then show "fst (msm_vidc_start_cmd ops w (streaming l d 53 sid)) = 0"
    and "fst (snd (msm_vidc_start_cmd ops w (streaming l d 53 sid)))
      = streaming l d (if d = MSM_VIDC_ENCODER then MSM_VIDC_OUTPUT_PAUSE else 0) sid"
    by (cases, simp_all add: msm_vidc_start_cmd_def msm_vdec_start_cmd_def msm_venc_start_cmd_def is_decode_session_def is_encode_session_def case_prod_beta facts)+
qed

lemma resume_step:
  assumes "resume_succeeds ops" and "kind_ok d"
  shows "\<exists>w'. client_step ops (Event MSM_VIDC_CMD_START) w (streaming l d 53 sid)
    = Some (0, streaming False d (if d = MSM_VIDC_ENCODER then MSM_VIDC_OUTPUT_PAUSE else 0) sid, w')"
proof -
  have "is_drain_pending (streaming True d 53 sid)" by (simp add: is_drain_pending_def is_sub_state_def)
  then have "call_event_handle (flow_calls ops) w (streaming True d 53 sid) MSM_VIDC_CMD_START
      = Some (msm_vidc_start_cmd ops w (streaming True d 53 sid))"
    by (simp add: call_event_handle_def msm_vidc_streaming_state_def strict_inst_check_def flow_calls_def)
  with start_cmd_done [OF assms, of w True sid] show ?thesis
    by (simp add: Let_def case_prod_beta)
qed

text \<open>C26: A drain of a streaming session completes: after the client's stop command, the firmware's answer and
  its last buffer, and the client's start command, the session streams as before with no sub-state left -
  except that an encoder's output port stays recorded as paused.
\<close>

theorem drain_completes:
  assumes "resume_succeeds ops" and "kind_ok d"
  shows "\<exists>w'. session_run ops
      [Client (Event MSM_VIDC_CMD_STOP), Firmware Session_Drain,
       Firmware (Last_Flag_Info HFI_INFO_HFI_FLAG_DRAIN_LAST), Client (Event MSM_VIDC_CMD_START)]
      w (streaming False d 0 sid)
    = Some ([0, 0], streaming False d (if d = MSM_VIDC_ENCODER then MSM_VIDC_OUTPUT_PAUSE else 0) sid, w')"
proof -
  obtain w1 where "client_step ops (Event MSM_VIDC_CMD_STOP) w (streaming False d 0 sid)
    = Some (0, streaming False d MSM_VIDC_DRAIN sid, w1)"
    using drain_step [OF assms] by metis
  moreover obtain w2 where "client_step ops (Event MSM_VIDC_CMD_START) w1
      (inst_packets [Session_Drain, Last_Flag_Info HFI_INFO_HFI_FLAG_DRAIN_LAST] (streaming False d MSM_VIDC_DRAIN sid))
    = Some (0, streaming False d (if d = MSM_VIDC_ENCODER then MSM_VIDC_OUTPUT_PAUSE else 0) sid, w2)"
    unfolding drain_packets using resume_step [OF assms, of w1 False sid] by auto
  ultimately show ?thesis by (simp del: client_step.simps)
qed

lemma demo_resume_succeeds: "resume_succeeds demo_ops"
  by (simp add: resume_succeeds_def demo_ops_def)

theorem drain_completes_witness:
  "\<exists>w'. session_run demo_ops
      [Client (Event MSM_VIDC_CMD_STOP), Firmware Session_Drain,
       Firmware (Last_Flag_Info HFI_INFO_HFI_FLAG_DRAIN_LAST), Client (Event MSM_VIDC_CMD_START)]
      () (streaming False MSM_VIDC_DECODER 0 1)
    = Some ([0, 0], streaming False MSM_VIDC_DECODER 0 1, w')"
  using drain_completes [OF demo_resume_succeeds, of MSM_VIDC_DECODER "()" 1] by (simp add: kind_ok_def)

text \<open>
  The client answers a resolution change by restarting the output port.  The firmware accepts the commands,
  and answers the stop of the output port, while the driver waits for it, with the packet for that port.
\<close>

definition restart_succeeds :: "'w inst_ops \<Rightarrow> bool" where
  "restart_succeeds ops \<longleftrightarrow>
    (\<forall>w i p. fst (op_session_stop ops w i p) = 0 \<and> fst (op_session_start ops w i p) = 0)
    \<and> (\<forall>w i p c. fst (op_session_resume ops w i p c) = 0)
    \<and> (\<forall>w i. \<exists>w'. op_wait ops w i SIGNAL_CMD_STOP_OUTPUT = (True, [Session_Stop HFI_PORT_RAW], w'))
    \<and> (\<forall>w p. \<not> op_buffers_queued ops w p) \<and> (\<forall>w i c. fst (op_call ops w i c) = 0)
    \<and> (\<forall>w i. \<not> op_query ops w i (Meta_Enabled_Not_Streaming OUTPUT_PORT)
      \<and> \<not> op_query ops w i Interlace_Unsupported \<and> \<not> op_query ops w i Outbuf_Fence_Not_Allowed)"

lemma restart_wait:
  assumes "restart_succeeds ops"
  shows "fst (op_wait ops w i SIGNAL_CMD_STOP_OUTPUT)" and
    "fst (snd (op_wait ops w i SIGNAL_CMD_STOP_OUTPUT)) = [Session_Stop HFI_PORT_RAW]"
proof -
  obtain w' where "op_wait ops w i SIGNAL_CMD_STOP_OUTPUT = (True, [Session_Stop HFI_PORT_RAW], w')"
    using assms unfolding restart_succeeds_def by metis
  then show "fst (op_wait ops w i SIGNAL_CMD_STOP_OUTPUT)"
    and "fst (snd (op_wait ops w i SIGNAL_CMD_STOP_OUTPUT)) = [Session_Stop HFI_PORT_RAW]" by simp_all
qed

definition drc_pending :: uint32 where
  "drc_pending = MSM_VIDC_DRC OR MSM_VIDC_DRC_LAST_BUFFER OR MSM_VIDC_INPUT_PAUSE OR MSM_VIDC_OUTPUT_PAUSE"

definition input_only :: "bool \<Rightarrow> uint32 \<Rightarrow> uint32 \<Rightarrow> msm_vidc_inst" where
  "input_only l x sid = \<lparr>inst_locked = l, inst_domain = MSM_VIDC_DECODER, inst_state = MSM_VIDC_INPUT_STREAMING,
    event_handle = Some MSM_VIDC_INPUT_STREAMING, inst_sub_state = x, inst_session_id = sid\<rparr>"

lemma output_off:
  assumes "restart_succeeds ops"
  shows "\<exists>w'. client_step ops (Event (MSM_VIDC_STREAMOFF OUTPUT_MPLANE)) w (streaming False MSM_VIDC_DECODER drc_pending sid)
    = Some (0, input_only False drc_pending sid, w')"
proof -
  have stop: "handle_session_stop (streaming False MSM_VIDC_DECODER drc_pending sid) HFI_PORT_RAW
    = (0, streaming False MSM_VIDC_DECODER drc_pending sid)"
    by (simp add: handle_session_stop_def is_encode_session_def is_decode_session_def
        msm_vidc_process_stop_done_def change_sub_state drc_pending_def Let_def)
  have wait: "wait_for_response ops w (streaming True MSM_VIDC_DECODER drc_pending sid) SIGNAL_CMD_STOP_OUTPUT
    = (0, streaming True MSM_VIDC_DECODER drc_pending sid,
       snd (snd (op_wait ops w (streaming False MSM_VIDC_DECODER drc_pending sid) SIGNAL_CMD_STOP_OUTPUT)))" for w
    by (simp add: wait_for_response_def restart_wait [OF assms] inst_packet_def stop Let_def case_prod_beta)
  have off: "msm_vidc_state_change_streamoff (streaming True MSM_VIDC_DECODER drc_pending sid) OUTPUT_PORT
    = (0, input_only True drc_pending sid)"
    by (simp add: msm_vidc_state_change_streamoff_def is_state_def change_state inst_edge.simps inst_to_def
        streaming_def input_only_def)
  show ?thesis
    using assms unfolding restart_succeeds_def
    by (simp add: client_defs msm_vidc_stop_streaming_def msm_vidc_session_streamoff_def wait off)
      (simp add: input_only_def)
qed

lemma restart_calls: "restart_succeeds ops \<Longrightarrow> fst (run_calls ops cs w i) = 0"
  by (induction cs arbitrary: w) (simp_all add: run_calls.simps restart_succeeds_def case_prod_beta)

lemma output_process:
  assumes "restart_succeeds ops"
  shows "fst (msm_vidc_process_streamon_output ops w (input_only True drc_pending sid)) = 0"
    and "fst (snd (msm_vidc_process_streamon_output ops w (input_only True drc_pending sid)))
      = streaming True MSM_VIDC_DECODER 0 sid"
  using assms restart_calls [OF assms] unfolding restart_succeeds_def
  by (simp_all add: msm_vidc_process_streamon_output_def input_only_def is_state_def is_sub_state_def
      is_decode_session_def change_sub_state drc_pending_def msm_vidc_state_change_streamon_def change_state
      inst_edge.simps inst_to_def Let_def case_prod_beta)
    (simp_all add: streaming_def)

lemma output_on_again:
  assumes "restart_succeeds ops"
  shows "\<exists>w'. client_step ops (Event (MSM_VIDC_STREAMON OUTPUT_MPLANE)) w (input_only False drc_pending sid)
    = Some (0, streaming False MSM_VIDC_DECODER 0 sid, w')"
proof -
  have lock: "(input_only False drc_pending sid)\<lparr>inst_locked := True\<rparr> = input_only True drc_pending sid"
    by (simp add: input_only_def)
  have fields: "event_handle (input_only True drc_pending sid) = Some MSM_VIDC_INPUT_STREAMING"
    "inst_locked (input_only True drc_pending sid)" "inst_domain (input_only True drc_pending sid) = MSM_VIDC_DECODER"
    by (simp_all add: input_only_def)
  have outp: "fst (streamon_output_with ops prep post w (input_only True drc_pending sid)) = 0
    \<and> fst (snd (streamon_output_with ops prep post w (input_only True drc_pending sid))) = streaming True MSM_VIDC_DECODER 0 sid"
    for prep post w
    by (simp add: streamon_output_with_def Let_def case_prod_beta restart_calls [OF assms] output_process [OF assms])
  have on: "fst (msm_vdec_streamon_output ops w (input_only True drc_pending sid)) = 0
    \<and> fst (snd (msm_vdec_streamon_output ops w (input_only True drc_pending sid))) = streaming True MSM_VIDC_DECODER 0 sid"
    for w
    using assms unfolding restart_succeeds_def
    by (simp add: msm_vdec_streamon_output_def Let_def case_prod_beta restart_calls [OF assms] outp)
  have "fst (msm_vidc_start_streaming ops w (input_only True drc_pending sid) OUTPUT_MPLANE) = 0
    \<and> fst (snd (msm_vidc_start_streaming ops w (input_only True drc_pending sid) OUTPUT_MPLANE))
      = streaming True MSM_VIDC_DECODER 0 sid"
    by (simp add: msm_vidc_start_streaming_def is_decode_session_def fields Let_def case_prod_beta
        restart_calls [OF assms] on)
  then show ?thesis
    by (simp add: client_defs msm_vidc_input_streaming_state_def lock fields)
qed

text \<open>C27: A change of the resolution in a decoder completes: after the firmware's packets for the new settings
  and for the last buffer of the old ones, and the client's restart of the output port, the session
  streams as before with no sub-state left.
\<close>

theorem resolution_change_completes:
  assumes "restart_succeeds ops"
  shows "\<exists>w'. session_run ops drc_history w (streaming False MSM_VIDC_DECODER 0 sid)
    = Some ([0, 0], streaming False MSM_VIDC_DECODER 0 sid, w')"
proof -
  obtain w1 where "client_step ops (Event (MSM_VIDC_STREAMOFF OUTPUT_MPLANE)) w
      (inst_packets [Settings_Change HFI_PORT_BITSTREAM 0 False, Last_Flag_Info HFI_INFO_HFI_FLAG_PSC_LAST]
        (streaming False MSM_VIDC_DECODER 0 sid))
    = Some (0, input_only False drc_pending sid, w1)"
    unfolding psc_packets using output_off [OF assms] unfolding drc_pending_def by metis
  moreover obtain w2 where "client_step ops (Event (MSM_VIDC_STREAMON OUTPUT_MPLANE)) w1 (input_only False drc_pending sid)
    = Some (0, streaming False MSM_VIDC_DECODER 0 sid, w2)"
    using output_on_again [OF assms] by metis
  ultimately show ?thesis by (simp add: drc_history_def del: client_step.simps)
qed

lemma demo_restart_succeeds: "restart_succeeds demo_ops"
  by (simp add: restart_succeeds_def demo_ops_def)

theorem resolution_change_completes_witness:
  "\<exists>w'. session_run demo_ops drc_history () (streaming False MSM_VIDC_DECODER 0 1)
    = Some ([0, 0], streaming False MSM_VIDC_DECODER 0 1, w')"
  by (rule resolution_change_completes [OF demo_restart_succeeds])

end
