(* ===== verification/Vidc_Core_Hfi.thy ===== *)
theory Vidc_Core_Hfi
  imports Vidc_Core_Power Vidc_Hfi_Response Vidc_Hfi_Types
begin

text \<open>
  The core with its queues: the calls of \<open>Vidc_Core_Power\<close> that build commands, write them to the queue and
  read the debug queue, by the functions of \<open>venus_hfi.c\<close>, \<open>hfi_packet.c\<close> and \<open>venus_hfi_queue.c\<close>.  What
  remains a parameter is the platform: power, clocks, regulators, the firmware loader and memory.

  \<open>__cmdq_write\<close> powers the core up first, and powering up sends commands, so the two call each other;
  \<open>hfi_hw n\<close> allows for \<open>n\<close> of these nested calls, and two are enough (\<open>resume_depth\<close>).
\<close>

section \<open>The platform\<close>

datatype pc_register = HFI_CTRL_STATUS | WRAPPER_TZ_CPU_STATUS

text \<open>
  A call of the platform gets the core, and returns a code and the sub-states of the core that it clears and
  sets.  \<open>set_to_fw\<close> is the flag of the subcaches, \<open>interrupts\<close> counts the interrupts raised.
\<close>

record 'v hfi_world =
  pf_state :: 'v
  set_to_fw :: bool
  interrupts :: nat

record 'v core_platform =
  pf_call :: "hw_call \<Rightarrow> 'v \<Rightarrow> msm_vidc_core \<Rightarrow> int \<times> (uint32 \<times> uint32) \<times> 'v"
  pf_mem_ops :: "'v msm_vidc_memory_ops"
  pf_fw_cookie :: "'v \<Rightarrow> bool"
  pf_vzalloc :: "'v \<Rightarrow> bool \<times> 'v"
  pf_read :: "pc_register \<Rightarrow> 'v \<Rightarrow> int \<times> uint32 \<times> 'v"
  pf_poll :: "pc_register \<Rightarrow> 'v \<Rightarrow> int \<times> 'v"
  fw_debug_level :: uint32
  syscache_used :: bool
  active_subcaches :: "(uint32 \<times> uint32) list"

definition platform_act :: "'v core_platform \<Rightarrow> hw_call \<Rightarrow> 'v hfi_world core_action" where
  "platform_act pf c w core =
    (let (rc, (clear, set_sub), v) = pf_call pf c (pf_state w) core in do {
       (_, core) \<leftarrow> msm_vidc_change_core_sub_state core clear set_sub;
       Some (rc, core, w\<lparr>pf_state := v\<rparr>)
     })"

section \<open>Commands\<close>

text \<open>The scheduling of the power-collapse work after a successful write is left out.\<close>

definition cmdq_write :: "'v hfi_world core_action \<Rightarrow> 'v hfi_world core_action" where
  "cmdq_write resume w core = do {
    (rc, core, w) \<leftarrow> resume w core;
    if rc \<noteq> 0 then Some (rc, core, w)
    else do {
      (rc, core, intr) \<leftarrow> venus_hfi_queue_cmd_write core (core_packet core);
      Some (rc, core, w\<lparr>interrupts := interrupts w + (if intr then 1 else 0)\<rparr>)
    }
  }"

text \<open>Building a command in the core's buffer, and writing it: the same lines for every command.\<close>

type_synonym cmd_builder = "hfi_core \<Rightarrow> uint8 list option \<Rightarrow> uint32 \<Rightarrow> (int \<times> hfi_core \<times> uint8 list option) option"

definition send_command :: "'v hfi_world core_action \<Rightarrow> cmd_builder \<Rightarrow> 'v hfi_world core_action" where
  "send_command resume build w core = do {
    (rc, ids, pkt) \<leftarrow> build (core_ids core) (core_packet core) (core_packet_size core);
    let core = core\<lparr>core_ids := ids, core_packet := pkt\<rparr>;
    if rc \<noteq> 0 then Some (rc, core, w) else cmdq_write resume w core
  }"

definition sys_init :: "'v hfi_world core_action \<Rightarrow> 'v hfi_world core_action" where
  "sys_init resume = send_command resume hfi_packet_sys_init"

definition sys_image_version :: "'v hfi_world core_action \<Rightarrow> 'v hfi_world core_action" where
  "sys_image_version resume = send_command resume hfi_packet_image_version"

definition sys_set_debug :: "'v hfi_world core_action \<Rightarrow> uint32 \<Rightarrow> 'v hfi_world core_action" where
  "sys_set_debug resume debug =
    send_command resume (\<lambda>ids pkt size. hfi_packet_sys_debug_config ids pkt size debug)"

definition sys_powercollapse :: "'v hfi_world core_action \<Rightarrow> bool \<Rightarrow> 'v hfi_world core_action" where
  "sys_powercollapse resume enable =
    send_command resume (\<lambda>ids pkt size. hfi_packet_sys_intraframe_powercollapse ids pkt size (if enable then 1 else 0))"

definition prepare_pc :: "'v hfi_world core_action \<Rightarrow> 'v hfi_world core_action" where
  "prepare_pc resume w core = do {
    (rc, ids, pkt) \<leftarrow> hfi_packet_sys_pc_prep (core_ids core) (core_packet core) (core_packet_size core);
    let core = core\<lparr>core_ids := ids, core_packet := pkt\<rparr>;
    if rc \<noteq> 0 then Some (rc, core, w)
    else do {
      (rc, core, w) \<leftarrow> cmdq_write resume w core;
      Some (if rc \<noteq> 0 then - ENOTEMPTY else 0, core, w)
    }
  }"

text \<open>
  \<open>__prepare_pc_iris33\<close>, which is \<open>__prepare_pc_iris2\<close> and \<open>__prepare_pc_iris3\<close> but for the names of the
  registers.  A poll waits for the bit of the register that the code names.
\<close>

definition HFI_CTRL_PC_READY :: uint32 where "HFI_CTRL_PC_READY = 0x100"

definition read_register :: "'v core_platform \<Rightarrow> pc_register \<Rightarrow> 'v hfi_world \<Rightarrow> int \<times> uint32 \<times> 'v hfi_world" where
  "read_register pf r w = (case pf_read pf r (pf_state w) of (rc, x, v) \<Rightarrow> (rc, x, w\<lparr>pf_state := v\<rparr>))"

definition poll_register :: "'v core_platform \<Rightarrow> pc_register \<Rightarrow> 'v hfi_world \<Rightarrow> int \<times> 'v hfi_world" where
  "poll_register pf r w = (case pf_poll pf r (pf_state w) of (rc, v) \<Rightarrow> (rc, w\<lparr>pf_state := v\<rparr>))"

definition skip_power_off :: "'v core_platform \<Rightarrow> 'v hfi_world core_action" where
  "skip_power_off pf w core =
    (let (rc, _, w) = read_register pf HFI_CTRL_STATUS w in
     if rc \<noteq> 0 then Some (rc, core, w)
     else
      (let (rc, _, w) = read_register pf WRAPPER_TZ_CPU_STATUS w in
       if rc \<noteq> 0 then Some (rc, core, w) else Some (- EAGAIN, core, w)))"

definition prepare_pc_iris33 :: "'v core_platform \<Rightarrow> 'v hfi_world core_action \<Rightarrow> 'v hfi_world core_action" where
  "prepare_pc_iris33 pf resume w core =
    (let (rc, ctrl_status, w) = read_register pf HFI_CTRL_STATUS w in
     if rc \<noteq> 0 then Some (rc, core, w)
     else if ctrl_status AND HFI_CTRL_PC_READY \<noteq> 0 then Some (0, core, w)
     else
      (let (rc, wfi_status, w) = read_register pf WRAPPER_TZ_CPU_STATUS w in
       if rc \<noteq> 0 then Some (rc, core, w)
       else if wfi_status AND 1 = 0 \<or> ctrl_status AND 2 ^ 30 = 0 then skip_power_off pf w core
       else do {
         (rc, core, w) \<leftarrow> prepare_pc resume w core;
         if rc \<noteq> 0 then skip_power_off pf w core
         else
          (let (rc, w) = poll_register pf HFI_CTRL_STATUS w in
           if rc \<noteq> 0 then skip_power_off pf w core
           else
            (let (rc, w) = poll_register pf WRAPPER_TZ_CPU_STATUS w in
             if rc \<noteq> 0 then skip_power_off pf w core else Some (0, core, w)))
       }))"

text \<open>The subcaches: \<open>struct hfi_buffer\<close> as sixteen words, of which seven are not zero.\<close>

definition HFI_PAYLOAD_STRUCTURE :: uint32 where "HFI_PAYLOAD_STRUCTURE = 5"
definition HFI_BUFFER_SUBCACHE :: uint32 where "HFI_BUFFER_SUBCACHE = 4"
definition HFI_BUF_HOST_FLAG_NONE :: uint32 where "HFI_BUF_HOST_FLAG_NONE = 0"

definition subcache_packet :: "uint32 \<Rightarrow> uint32 \<times> uint32 \<Rightarrow> pkt_spec" where
  "subcache_packet flags sinfo = (case sinfo of (slice_id, slice_size) \<Rightarrow>
    (HFI_CMD_BUFFER, HFI_BUF_HOST_FLAG_NONE, HFI_PAYLOAD_STRUCTURE,
     [HFI_BUFFER_SUBCACHE, slice_id, 0, 0, 0, slice_size, 0, 0, 0, 0, flags, 0, 0, 0, 0, 0]))"

definition subcache_command :: "uint32 \<Rightarrow> (uint32 \<times> uint32) list \<Rightarrow> cmd_builder" where
  "subcache_command flags infos = sys_command (\<lambda>ids. ids) (map (subcache_packet flags) infos)"

definition set_subcaches :: "'v core_platform \<Rightarrow> 'v hfi_world core_action \<Rightarrow> 'v hfi_world core_action" where
  "set_subcaches pf resume w core =
    (if \<not> syscache_used pf then Some (0, core, w)
     else if set_to_fw w then Some (0, core, w)
     else do {
       (rc, core, w) \<leftarrow> send_command resume (subcache_command HFI_BUF_HOST_FLAG_NONE (active_subcaches pf)) w core;
       if rc \<noteq> 0 then do {
         (_, core, w) \<leftarrow> platform_act pf (Llcc False) w core;
         Some (rc, core, w)
       } else Some (0, core, w\<lparr>set_to_fw := True\<rparr>)
     })"

definition release_subcaches :: "'v core_platform \<Rightarrow> 'v hfi_world core_action \<Rightarrow> 'v hfi_world core_action" where
  "release_subcaches pf resume w core =
    (if \<not> syscache_used pf then Some (0, core, w)
     else if \<not> set_to_fw w then Some (0, core, w)
     else do {
       (rc, core, w) \<leftarrow>
         send_command resume (subcache_command HFI_BUF_HOST_FLAG_RELEASE (rev (active_subcaches pf))) w core;
       if rc \<noteq> 0 then Some (rc, core, w) else Some (0, core, w\<lparr>set_to_fw := False\<rparr>)
     })"

text \<open>
  Asking the firmware for a restart, a test: the core is powered up before the command is built, since
  powering up uses the same buffer.
\<close>

definition HFI_CMD_SSR :: uint32 where "HFI_CMD_SSR = 0x0100000d"
definition HFI_PAYLOAD_U64 :: uint32 where "HFI_PAYLOAD_U64 = 3"

definition venus_hfi_trigger_ssr ::
  "'v hfi_world core_action \<Rightarrow> uint32 \<Rightarrow> uint32 \<Rightarrow> uint32 \<Rightarrow> 'v hfi_world core_action" where
  "venus_hfi_trigger_ssr resume type client_id addr w core = do {
    (rc, core, w) \<leftarrow> resume w core;
    if rc \<noteq> 0 then Some (rc, core, w)
    else send_command resume (sys_command (\<lambda>ids. ids)
      [(HFI_CMD_SSR, HFI_HOST_FLAGS_RESPONSE_REQUIRED OR HFI_HOST_FLAGS_INTR_REQUIRED, HFI_PAYLOAD_U64,
        [push_bit 4 client_id OR type, addr])]) w core
  }"

section \<open>The debug queue\<close>

text \<open>
  The loop of \<open>__flush_debug_queue\<close>: it reads until the queue gives an error.  The text of a message, which
  is ended with a zero byte in the buffer, is only printed.
\<close>

partial_function (option) flush_loop ::
  "uint32 \<Rightarrow> uint8 list \<Rightarrow> msm_vidc_core \<Rightarrow> (msm_vidc_core \<times> uint8 list) option" where
  "flush_loop packet_size packet core = do {
    (rc, core, pkt) \<leftarrow> venus_hfi_queue_dbg_read core (Some packet);
    packet \<leftarrow> pkt;
    if rc \<noteq> 0 then Some (core, packet)
    else do {
      size \<leftarrow> get_u32 packet 0;
      if unat size < 16 then flush_loop packet_size packet core
      else if size \<ge> packet_size then flush_loop packet_size packet core
      else if unat size < length packet then flush_loop packet_size (packet[unat size := 0]) core
      else None
    }
  }"

text \<open>Without a buffer, or when forced, the messages go to a buffer of the function's own.\<close>

definition flush_debug_queue :: "'v core_platform \<Rightarrow> bool \<Rightarrow> 'v hfi_world core_action" where
  "flush_debug_queue pf force w core =
    (case (if force \<or> core_packet_size core = 0 then None else core_packet core) of
       None \<Rightarrow>
         let (ok, v) = pf_vzalloc pf (pf_state w) in
         if \<not> ok then Some (0, core, w\<lparr>pf_state := v\<rparr>)
         else do {
           (core, _) \<leftarrow> flush_loop VIDC_IFACEQ_VAR_HUGE_PKT_SIZE
             (replicate (unat VIDC_IFACEQ_VAR_HUGE_PKT_SIZE) 0) core;
           Some (0, core, w\<lparr>pf_state := v\<rparr>)
         }
     | Some packet \<Rightarrow> do {
         (core, packet) \<leftarrow> flush_loop (core_packet_size core) packet core;
         Some (0, core\<lparr>core_packet := Some packet\<rparr>, w)
       })"

section \<open>The calls together\<close>

definition queue_init_act :: "'v core_platform \<Rightarrow> 'v hfi_world core_action" where
  "queue_init_act pf w core =
    map_option (\<lambda>(rc, core, v). (rc, core, w\<lparr>pf_state := v\<rparr>)) (venus_hfi_queue_init (pf_mem_ops pf) (pf_state w) core)"

fun hfi_do :: "'v core_platform \<Rightarrow> 'v hfi_world core_action \<Rightarrow> hw_call \<Rightarrow> 'v hfi_world core_action" where
  "hfi_do pf resume Queue_Init = queue_init_act pf"
| "hfi_do pf resume Sys_Init = sys_init resume"
| "hfi_do pf resume Sys_Image_Version = sys_image_version resume"
| "hfi_do pf resume Sys_Set_Debug = sys_set_debug resume (fw_debug_level pf)"
| "hfi_do pf resume (Sys_Powercollapse enable) = sys_powercollapse resume enable"
| "hfi_do pf resume Prepare_Pc = prepare_pc_iris33 pf resume"
| "hfi_do pf resume Set_Subcaches = set_subcaches pf resume"
| "hfi_do pf resume Release_Subcaches = release_subcaches pf resume"
| "hfi_do pf resume (Flush_Debug_Queue force) = flush_debug_queue pf force"
| "hfi_do pf resume c = platform_act pf c"

definition hfi_calls :: "'v core_platform \<Rightarrow> 'v hfi_world core_action \<Rightarrow> 'v hfi_world core_hw" where
  "hfi_calls pf resume = \<lparr>hw_do = hfi_do pf resume, fw_cookie = \<lambda>w. pf_fw_cookie pf (pf_state w),
    sys_init_packet = \<lambda>w core. sys_init_id (core_ids core)\<rparr>"

primrec hfi_hw :: "nat \<Rightarrow> 'v core_platform \<Rightarrow> 'v hfi_world core_hw" where
  "hfi_hw 0 pf = hfi_calls pf (\<lambda>w core. None)"
| "hfi_hw (Suc n) pf = hfi_calls pf (venus_resume (hfi_hw n pf))"

end
