(* ===== verification/Vidc_Core_Depth.thy ===== *)
theory Vidc_Core_Depth
  imports Vidc_Core_Hfi
begin

text \<open>
  The calls of the core with its queues return, keep the core well formed, and nest at most twice.
\<close>

section \<open>Contracts\<close>

text \<open>
  \<open>runs Q f R\<close>: on a well-formed core whose sub-states satisfy \<open>Q\<close>, \<open>f\<close> returns, keeps the core well formed
  and its state and lock as they are, and \<open>R\<close> holds of the code and the sub-states afterwards.
\<close>

definition runs :: "(uint32 \<Rightarrow> bool) \<Rightarrow> 'w core_action \<Rightarrow> (int \<Rightarrow> uint32 \<Rightarrow> bool) \<Rightarrow> bool" where
  "runs Q f R \<longleftrightarrow>
    (\<forall>w core. core_ok core \<and> Q (core_sub_state core) \<longrightarrow>
      (\<exists>rc core' w'. f w core = Some (rc, core', w') \<and> core_ok core' \<and> core_state core' = core_state core
        \<and> core_lock_held core' = core_lock_held core \<and> R rc (core_sub_state core')))"

abbreviation (input) whatever :: "'a \<Rightarrow> bool" where "whatever \<equiv> \<lambda>_. True"
abbreviation (input) after :: "('a \<Rightarrow> bool) \<Rightarrow> int \<Rightarrow> 'a \<Rightarrow> bool" where "after Q \<equiv> \<lambda>_. Q"

definition powered :: "uint32 \<Rightarrow> bool" where
  "powered x \<longleftrightarrow> x AND CORE_SUBSTATE_POWER_ENABLE \<noteq> 0"

lemma keeps_core_runs: "keeps_core f \<longleftrightarrow> runs whatever f (after whatever)"
  by (simp add: keeps_core_def runs_def)

lemma runsI:
  assumes "\<And>w core. core_ok core \<Longrightarrow> Q (core_sub_state core) \<Longrightarrow>
    \<exists>rc core' w'. f w core = Some (rc, core', w') \<and> core_ok core' \<and> core_state core' = core_state core
      \<and> core_lock_held core' = core_lock_held core \<and> R rc (core_sub_state core')"
  shows "runs Q f R"
  using assms by (simp add: runs_def)

lemma runsD:
  "runs Q f R \<Longrightarrow> core_ok core \<Longrightarrow> Q (core_sub_state core) \<Longrightarrow>
    \<exists>rc core' w'. f w core = Some (rc, core', w') \<and> core_ok core' \<and> core_state core' = core_state core
      \<and> core_lock_held core' = core_lock_held core \<and> R rc (core_sub_state core')"
  by (simp add: runs_def)

lemma runs_weaken: "runs Q f R \<Longrightarrow> (\<And>x. Q' x \<Longrightarrow> Q x) \<Longrightarrow> (\<And>rc x. R rc x \<Longrightarrow> R' rc x) \<Longrightarrow> runs Q' f R'"
  unfolding runs_def by blast

lemma runs_return: "(\<And>x w core. Q x \<Longrightarrow> R (f core) x) \<Longrightarrow> runs Q (\<lambda>w core. Some (f core, core, g w)) R"
  by (simp add: runs_def)

lemma runs_bind:
  assumes "runs Q f R" and "\<And>rc. runs (R rc) (g rc) S"
  shows "runs Q (\<lambda>w core. f w core \<bind> (\<lambda>(rc, core, w). g rc w core)) S"
proof (rule runsI)
  fix w core
  assume "core_ok core" "Q (core_sub_state core)"
  then obtain rc c w1 where f: "f w core = Some (rc, c, w1)" and c: "core_ok c" "core_state c = core_state core"
    "core_lock_held c = core_lock_held core" "R rc (core_sub_state c)"
    using assms(1) unfolding runs_def by blast
  obtain rc' c' w2 where "g rc w1 c = Some (rc', c', w2)" "core_ok c'" "core_state c' = core_state c"
    "core_lock_held c' = core_lock_held c" "S rc' (core_sub_state c')"
    using assms(2) [of rc] c(1,4) unfolding runs_def by blast
  with f c show "\<exists>rc core' w'. f w core \<bind> (\<lambda>(rc, core, w). g rc w core) = Some (rc, core', w')
      \<and> core_ok core' \<and> core_state core' = core_state core \<and> core_lock_held core' = core_lock_held core
      \<and> S rc (core_sub_state core')"
    by simp
qed

lemma runs_if: "runs Q f R \<Longrightarrow> runs Q g R \<Longrightarrow> runs Q (\<lambda>w core. if b w core then f w core else g w core) R"
  by (simp add: runs_def)

lemma runs_if_const: "(b \<Longrightarrow> runs Q f R) \<Longrightarrow> (\<not> b \<Longrightarrow> runs Q g R) \<Longrightarrow> runs Q (\<lambda>w core. if b then f w core else g w core) R"
  by (cases b) simp_all

lemma runs_if_power:
  assumes "runs (\<lambda>x. Q x \<and> powered x) f R" and "runs (\<lambda>x. Q x \<and> \<not> powered x) g R"
  shows "runs Q (\<lambda>w core. if is_core_sub_state core CORE_SUBSTATE_POWER_ENABLE then f w core else g w core) R"
  using assms by (simp add: runs_def is_core_sub_state_def powered_def)

section \<open>The calls\<close>

text \<open>
  The hypothesis about the platform: memory has the size asked for, and only the two power calls touch the
  sub-state that says whether the core is powered.
\<close>

definition platform_ok :: "'v core_platform \<Rightarrow> bool" where
  "platform_ok pf \<longleftrightarrow> alloc_maps (pf_mem_ops pf) \<and>
    (\<forall>c v core. c \<noteq> Power_On \<and> c \<noteq> Power_Off \<longrightarrow>
      (case pf_call pf c v core of (rc, (clear, set_sub), v') \<Rightarrow> clear AND CORE_SUBSTATE_POWER_ENABLE = 0))"

text \<open>The two predicates on sub-states the contracts are about.\<close>

definition stays :: "'v core_platform \<Rightarrow> (uint32 \<Rightarrow> bool) \<Rightarrow> bool" where
  "stays pf Q \<longleftrightarrow> (\<forall>c. c \<noteq> Power_On \<and> c \<noteq> Power_Off \<longrightarrow> runs Q (platform_act pf c) (after Q))"

lemma platform_runs: "runs whatever (platform_act (pf :: 'v core_platform) c) (after whatever)"
proof (rule runsI)
  fix w :: "'v hfi_world" and core
  assume ok: "core_ok core"
  obtain rc cl st v where c: "pf_call pf c (pf_state w) core = (rc, (cl, st), v)" by (metis prod.exhaust)
  obtain r core' where e: "msm_vidc_change_core_sub_state core cl st = Some (r, core')"
    using change_core_sub_state_defined [OF ok] by metis
  with core_ok_change_sub_state [OF ok e] c show "\<exists>rc core' w'. platform_act pf c w core = Some (rc, core', w')
      \<and> core_ok core' \<and> core_state core' = core_state core \<and> core_lock_held core' = core_lock_held core \<and> True"
    by (simp add: platform_act_def)
qed

lemma stays_whatever: "stays pf whatever"
  by (simp add: stays_def platform_runs)

lemma powered_change:
  assumes "core_ok core" "msm_vidc_change_core_sub_state core c s = Some (r, core')" "c AND CORE_SUBSTATE_POWER_ENABLE = 0"
    "powered (core_sub_state core)"
  shows "powered (core_sub_state core')"
proof -
  have p: "powered ((x OR s) AND NOT c)" if "powered x" for x
  proof -
    have "bit x 0" "\<not> bit c 0"
      using that assms(3) by (simp_all add: powered_def and_exp_eq_0_iff_not_bit [of _ 0, simplified])
    then have "bit ((x OR s) AND NOT c) 0" by (simp add: bit_simps)
    then show ?thesis by (simp add: powered_def and_exp_eq_0_iff_not_bit [of _ 0, simplified])
  qed
  show ?thesis
    using assms(1,2,4) p by (auto simp: core_ok_def change_core_sub_state split: if_splits)
qed

lemma stays_powered: "platform_ok (pf :: 'v core_platform) \<Longrightarrow> stays pf powered"
  unfolding stays_def
proof (intro allI impI runsI)
  fix c core and w :: "'v hfi_world"
  assume pf: "platform_ok pf" and c: "c \<noteq> Power_On \<and> c \<noteq> Power_Off" and ok: "core_ok core"
    and p: "powered (core_sub_state core)"
  obtain rc cl st v where e: "pf_call pf c (pf_state w) core = (rc, (cl, st), v)" by (metis prod.exhaust)
  have cl: "cl AND CORE_SUBSTATE_POWER_ENABLE = 0"
    using pf c e unfolding platform_ok_def by (metis (mono_tags, lifting) case_prod_conv)
  obtain r core' where s: "msm_vidc_change_core_sub_state core cl st = Some (r, core')"
    using change_core_sub_state_defined [OF ok] by metis
  with core_ok_change_sub_state [OF ok s] powered_change [OF ok s cl p] e
  show "\<exists>rc core' w'. platform_act pf c w core = Some (rc, core', w')
      \<and> core_ok core' \<and> core_state core' = core_state core \<and> core_lock_held core' = core_lock_held core
      \<and> powered (core_sub_state core')"
    by (simp add: platform_act_def)
qed

section \<open>Commands\<close>

lemma core_ok_status:
  assumes "core_ok core" "hfi_ok c" "core_status c = core_status core"
  shows "core_ok c" "core_state c = core_state core" "core_lock_held c = core_lock_held core"
    "core_sub_state c = core_sub_state core"
  using assms by (simp_all add: core_ok_def core_status_def)

lemma cmdq_write_runs:
  fixes resume :: "'v hfi_world core_action"
  assumes "runs Q resume (after Q)"
  shows "runs Q (cmdq_write resume) (after Q)"
proof -
  have W: "runs Q (\<lambda>(w :: 'v hfi_world) core. do {
      (rc, core, intr) \<leftarrow> venus_hfi_queue_cmd_write core (core_packet core);
      Some (rc, core, w\<lparr>interrupts := interrupts w + (if intr then 1 else 0)\<rparr>) }) (after Q)"
  proof (rule runsI)
    fix w :: "'v hfi_world" and core
    assume ok: "core_ok core" and q: "Q (core_sub_state core)"
    have h: "hfi_ok core" and p: "\<And>p. core_packet core = Some p \<Longrightarrow> holds_pkt p"
      using ok by (simp_all add: core_ok_def hfi_ok_def buffer_ok_def)
    obtain rc c intr where "venus_hfi_queue_cmd_write core (core_packet core) = Some (rc, c, intr)" "hfi_ok c"
      "core_status c = core_status core" by (rule cmd_write_total [OF h p])
    with core_ok_status [OF ok this(2,3)] q show "\<exists>rc core' w'. do {
        (rc, core, intr) \<leftarrow> venus_hfi_queue_cmd_write core (core_packet core);
        Some (rc, core, w\<lparr>interrupts := interrupts w + (if intr then 1 else 0)\<rparr>) } = Some (rc, core', w')
      \<and> core_ok core' \<and> core_state core' = core_state core \<and> core_lock_held core' = core_lock_held core
      \<and> Q (core_sub_state core')" by auto
  qed
  have "runs Q (\<lambda>w core. cmdq_write resume w core) (after Q)"
    unfolding cmdq_write_def by (intro runs_bind [OF assms] runs_if_const runs_return W)
  then show ?thesis by simp
qed

lemma send_command_runs:
  assumes "builds build" and "runs Q f (after Q)"
  shows "runs Q (\<lambda>w core. do {
    (rc, ids, pkt) \<leftarrow> build (core_ids core) (core_packet core) (core_packet_size core);
    let core = core\<lparr>core_ids := ids, core_packet := pkt\<rparr>;
    if rc \<noteq> 0 then Some (rc, core, w) else f w core }) (after Q)"
proof (rule runsI)
  fix w core
  assume ok: "core_ok core" and q: "Q (core_sub_state core)"
  then have "buffer_ok (core_packet core) (core_packet_size core)" by (simp add: core_ok_def hfi_ok_def)
  from buildsD [OF assms(1) this] obtain rc ids pkt where
    b: "build (core_ids core) (core_packet core) (core_packet_size core) = Some (rc, ids, pkt)"
    and p: "buffer_ok pkt (core_packet_size core)" .
  let ?c = "core\<lparr>core_ids := ids, core_packet := pkt\<rparr>"
  have c: "core_ok ?c" "Q (core_sub_state ?c)"
    using ok p q by (simp_all add: core_ok_def hfi_ok_def queue_view_def)
  then obtain rc' c' w' where "f w ?c = Some (rc', c', w')" "core_ok c'" "core_state c' = core_state core"
    "core_lock_held c' = core_lock_held core" "Q (core_sub_state c')"
    using assms(2) unfolding runs_def by fastforce
  with b c show "\<exists>rc core' w'. do {
      (rc, ids, pkt) \<leftarrow> build (core_ids core) (core_packet core) (core_packet_size core);
      let core = core\<lparr>core_ids := ids, core_packet := pkt\<rparr>;
      if rc \<noteq> 0 then Some (rc, core, w) else f w core } = Some (rc, core', w')
    \<and> core_ok core' \<and> core_state core' = core_state core \<and> core_lock_held core' = core_lock_held core
    \<and> Q (core_sub_state core')" by (auto simp: Let_def)
qed

lemma send_runs:
  assumes "builds build" and "runs Q resume (after Q)"
  shows "runs Q (send_command resume build) (after Q)"
proof -
  have "runs Q (\<lambda>w core. send_command resume build w core) (after Q)"
    unfolding send_command_def by (rule send_command_runs [OF assms(1) cmdq_write_runs [OF assms(2)]])
  then show ?thesis by simp
qed

lemma builds_all:
  "builds hfi_packet_sys_init" "builds hfi_packet_image_version" "builds hfi_packet_sys_pc_prep"
  "builds (\<lambda>ids pkt n. hfi_packet_sys_debug_config ids pkt n d)"
  "builds (\<lambda>ids pkt n. hfi_packet_sys_intraframe_powercollapse ids pkt n e)"
  "builds (subcache_command fl infos)"
proof -
  note b = builds_sys_command
  have "builds (\<lambda>ids. sys_command (\<lambda>core. core\<lparr>sys_init_id := core_packet_id core\<rparr>) (sys_init_packets ids) ids)"
    by (rule b) (simp add: sys_init_packets_def Let_def)
  then show "builds hfi_packet_sys_init" by (simp add: hfi_packet_sys_init_def [abs_def])
  show "builds hfi_packet_image_version" unfolding hfi_packet_image_version_def by (rule b) simp
  show "builds hfi_packet_sys_pc_prep" unfolding hfi_packet_sys_pc_prep_def by (rule b) simp
  show "builds (\<lambda>ids pkt n. hfi_packet_sys_debug_config ids pkt n d)"
    unfolding hfi_packet_sys_debug_config_def by (rule b) simp
  show "builds (\<lambda>ids pkt n. hfi_packet_sys_intraframe_powercollapse ids pkt n e)"
    unfolding hfi_packet_sys_intraframe_powercollapse_def by (rule b) simp
  show "builds (subcache_command fl infos)"
    unfolding subcache_command_def by (rule b) (auto simp: subcache_packet_def)
qed

lemma runs_eta: "runs Q (\<lambda>w core. f w core) R \<Longrightarrow> runs Q f R"
  by simp

lemma prepare_pc_runs:
  assumes "runs Q resume (after Q)"
  shows "runs Q (prepare_pc resume) (after Q)"
proof (rule runs_eta)
  have "runs Q (\<lambda>w core. do { (rc, core, w) \<leftarrow> cmdq_write resume w core;
      Some (if rc \<noteq> 0 then - ENOTEMPTY else 0, core, w) }) (after Q)"
    by (intro runs_bind [OF cmdq_write_runs [OF assms]] runs_return)
  from send_command_runs [OF builds_all(3) this]
  show "runs Q (\<lambda>w core. prepare_pc resume w core) (after Q)" unfolding prepare_pc_def .
qed

lemma skip_runs: "runs Q (skip_power_off pf) (after Q)"
  by (simp add: runs_def skip_power_off_def case_prod_beta Let_def)

lemma prepare_pc_iris33_runs:
  assumes "runs Q resume (after Q)"
  shows "runs Q (prepare_pc_iris33 pf resume) (after Q)"
proof -
  have W: "runs Q (\<lambda>w core. do {
      (rc, core, w) \<leftarrow> prepare_pc resume w core;
      if rc \<noteq> 0 then skip_power_off pf w core
      else
        (let (rc, w) = poll_register pf HFI_CTRL_STATUS w in
         if rc \<noteq> 0 then skip_power_off pf w core
         else
          (let (rc, w) = poll_register pf WRAPPER_TZ_CPU_STATUS w in
           if rc \<noteq> 0 then skip_power_off pf w core else Some (0, core, w)))
    }) (after Q)" (is "runs Q ?f _")
  proof (intro runs_bind [OF prepare_pc_runs [OF assms]] runs_if_const skip_runs)
    show "runs Q (\<lambda>w core.
       let (rc, w) = poll_register pf HFI_CTRL_STATUS w in
         if rc \<noteq> 0 then skip_power_off pf w core
         else
          (let (rc, w) = poll_register pf WRAPPER_TZ_CPU_STATUS w in
           if rc \<noteq> 0 then skip_power_off pf w core else Some (0, core, w))) (after Q)"
      using skip_runs [of Q pf] unfolding runs_def by (auto simp: Let_def case_prod_beta)
  qed
  show ?thesis
  proof (rule runsI)
    fix w core
    assume a: "core_ok core" "Q (core_sub_state core)"
    obtain r1 x1 w1 where e1: "read_register pf HFI_CTRL_STATUS w = (r1, x1, w1)" by (metis prod.exhaust)
    obtain r2 x2 w2 where e2: "read_register pf WRAPPER_TZ_CPU_STATUS w1 = (r2, x2, w2)" by (metis prod.exhaust)
    have k: "prepare_pc_iris33 pf resume w core \<in> {Some (r1, core, w1), Some (0, core, w1), Some (r2, core, w2),
        skip_power_off pf w2 core, ?f w2 core}"
      by (simp add: prepare_pc_iris33_def e1 e2 Let_def)
    from a have "\<exists>rc core' w'. skip_power_off pf w2 core = Some (rc, core', w') \<and> core_ok core'
        \<and> core_state core' = core_state core \<and> core_lock_held core' = core_lock_held core \<and> Q (core_sub_state core')"
      by (intro runsD [OF skip_runs])
    moreover from a have "\<exists>rc core' w'. ?f w2 core = Some (rc, core', w') \<and> core_ok core'
        \<and> core_state core' = core_state core \<and> core_lock_held core' = core_lock_held core \<and> Q (core_sub_state core')"
      by (intro runsD [OF W])
    ultimately show "\<exists>rc core' w'. prepare_pc_iris33 pf resume w core = Some (rc, core', w') \<and> core_ok core'
        \<and> core_state core' = core_state core \<and> core_lock_held core' = core_lock_held core \<and> Q (core_sub_state core')"
      using k a by (elim insertE emptyE) (simp_all only:, auto)
  qed
qed

lemma set_subcaches_runs:
  assumes "stays pf Q" and "runs Q resume (after Q)"
  shows "runs Q (set_subcaches pf resume) (after Q)"
proof (rule runs_eta)
  have "runs Q (platform_act pf (Llcc False)) (after Q)" using assms(1) by (simp add: stays_def)
  note rules = runs_if runs_if_const runs_return runs_bind [OF this]
    runs_bind [OF send_runs [OF builds_all(6) assms(2)]]
  show "runs Q (\<lambda>w core. set_subcaches pf resume w core) (after Q)"
    unfolding set_subcaches_def by (intro rules)
qed

lemma release_subcaches_runs:
  assumes "runs Q resume (after Q)"
  shows "runs Q (release_subcaches pf resume) (after Q)"
proof (rule runs_eta)
  note rules = runs_if runs_if_const runs_return runs_bind [OF send_runs [OF builds_all(6) assms]]
  show "runs Q (\<lambda>w core. release_subcaches pf resume w core) (after Q)"
    unfolding release_subcaches_def by (intro rules)
qed

lemma queue_init_runs:
  assumes "alloc_maps (pf_mem_ops pf)"
  shows "runs Q (queue_init_act (pf :: 'v core_platform)) (after Q)"
proof (rule runsI)
  fix w :: "'v hfi_world" and core
  assume a: "core_ok core" "Q (core_sub_state core)"
  then have "hfi_ok core" by (simp add: core_ok_def)
  from queue_init_ok [OF assms this, of "pf_state w"] obtain rc c v where
    "venus_hfi_queue_init (pf_mem_ops pf) (pf_state w) core = Some (rc, c, v)" "hfi_ok c" "core_status c = core_status core" .
  with core_ok_status [OF a(1) this(2,3)] a(2) show "\<exists>rc core' w'. queue_init_act pf w core = Some (rc, core', w')
      \<and> core_ok core' \<and> core_state core' = core_state core \<and> core_lock_held core' = core_lock_held core
      \<and> Q (core_sub_state core')"
    by (simp add: queue_init_act_def)
qed

section \<open>The debug queue\<close>

text \<open>
  On a debug queue in order the loop ends: every read takes a message off.  It leaves the queue empty, unless
  the firmware has set its transmit request.
\<close>

lemma flush_ends:
  assumes "queue_view core DBGQ = Some ps" "length buf = 4096" "holds_pkt buf"
  shows "\<exists>c buf'. flush_loop 4096 buf core = Some (c, buf') \<and> length buf' = 4096 \<and> holds_pkt buf'
    \<and> queue_view c DBGQ \<noteq> None \<and> core_status c = core_status core \<and> iface_q_table c = iface_q_table core
    \<and> (\<forall>i. i \<noteq> DBGQ \<longrightarrow> iface_queues c i = iface_queues core i)
    \<and> (map_option qhdr_tx_req (q_hdr (iface_queues core DBGQ)) \<noteq> Some 1 \<longrightarrow> queue_view c DBGQ = Some [])"
  using assms
proof (induction ps arbitrary: core buf)
  case Nil
  have "fifo_get [] = (- ENODATA, None, [])" by (simp add: fifo_get_def)
  from dbg_read_view [OF Nil(1) _ this, of buf] Nil(2) obtain c where
    "venus_hfi_queue_dbg_read core (Some buf) = Some (- ENODATA, c, Some buf)" "queue_view c DBGQ = Some []"
    "\<And>i. i \<noteq> DBGQ \<Longrightarrow> iface_queues c i = iface_queues core i"
    "core_status c = core_status core" "iface_q_table c = iface_q_table core" by (simp, blast)
  with Nil show ?case by (subst flush_loop.simps) simp
next
  case (Cons p ps)
  show ?case
  proof (cases "length p \<le> 4096")
    case False
    then have "fifo_get (p # ps) = (- ENODATA, None, [])" by (simp add: fifo_get_def)
    from dbg_read_view [OF Cons.prems(1) _ this, of buf] Cons.prems(2) obtain c where
      "venus_hfi_queue_dbg_read core (Some buf) = Some (- ENODATA, c, Some buf)" "queue_view c DBGQ = Some []"
      "\<And>i. i \<noteq> DBGQ \<Longrightarrow> iface_queues c i = iface_queues core i"
      "core_status c = core_status core" "iface_q_table c = iface_q_table core" by (simp, blast)
    with Cons.prems show ?thesis by (subst flush_loop.simps) simp
  next
    case True
    then have "fifo_get (p # ps) = (0, Some p, ps)" by (simp add: fifo_get_def)
    from Cons.prems(2) have "4096 \<le> length buf" by simp
    from dbg_read_view [OF Cons.prems(1) this \<open>fifo_get _ = _\<close>] obtain c tx where
      r: "venus_hfi_queue_dbg_read core (Some buf) = Some (if tx then - EINVAL else 0, c, Some (overwrite buf 0 p))"
      and c: "queue_view c DBGQ = Some ps" "\<And>i. i \<noteq> DBGQ \<Longrightarrow> iface_queues c i = iface_queues core i"
        "core_status c = core_status core" "iface_q_table c = iface_q_table core"
        "map_option qhdr_tx_req (q_hdr (iface_queues c DBGQ)) = map_option qhdr_tx_req (q_hdr (iface_queues core DBGQ))"
        "tx \<Longrightarrow> map_option qhdr_tx_req (q_hdr (iface_queues core DBGQ)) = Some 1"
      unfolding if_P [OF refl] option.case by metis
    let ?b = "overwrite buf 0 p"
    have pkt: "hfi_pkt p" using queue_view_pkts [OF Cons.prems(1)] by simp
    have l: "length ?b = 4096" using True Cons.prems(2) by (simp add: overwrite_front)
    have k: "pkt_len ?b = length p" using True pkt Cons.prems(2)
      by (simp add: overwrite_front pkt_len_append hfi_pkt_def)
    have h: "holds_pkt ?b" using l k True by (simp add: holds_pkt_def)
    show ?thesis
    proof (cases tx)
      case t: True
      with r c l h show ?thesis by (subst flush_loop.simps) simp
    next
      case f: False
      obtain sz where sz: "get_u32 ?b 0 = Some sz" using l by (simp add: get_u32_def)
      have z: "length (?b[unat sz := 0]) = 4096" using l by simp
      have hz: "holds_pkt (?b[unat sz := 0])" if "\<not> unat sz < 16"
      proof -
        have "take 4 (?b[unat sz := 0]) = take 4 ?b" using that by (simp add: take_update_cancel)
        then show ?thesis using h by (simp add: holds_pkt_def pkt_len_def)
      qed
      have less: "unat sz < length ?b" if "\<not> sz \<ge> 4096"
        using that l by (simp add: word_le_nat_alt not_le)
      show ?thesis
      proof (cases "unat sz < 16 \<or> sz \<ge> 4096")
        case True
        then have "flush_loop 4096 buf core = flush_loop 4096 ?b c"
          using r f sz by (subst flush_loop.simps) auto
        with Cons.IH [OF c(1) l h] c(2-5) show ?thesis by simp
      next
        case False
        then have "flush_loop 4096 buf core = flush_loop 4096 (?b[unat sz := 0]) c"
          using r f sz less by (subst flush_loop.simps) auto
        with Cons.IH [OF c(1) z hz] False c(2-5) show ?thesis by simp
      qed
    qed
  qed
qed

lemma flush_total:
  assumes "hfi_ok core" "length buf = 4096" "holds_pkt buf"
  shows "\<exists>c buf'. flush_loop 4096 buf core = Some (c, buf') \<and> length buf' = 4096 \<and> holds_pkt buf' \<and> hfi_ok c
    \<and> core_status c = core_status core \<and> iface_q_table c = iface_q_table core
    \<and> iface_queues c CMDQ = iface_queues core CMDQ"
proof (cases "queue_view core DBGQ")
  case None
  then have "align_virtual_addr (q_arr (iface_queues core DBGQ)) = None"
    using assms(1) unfolding hfi_ok_def by metis
  then have "flush_loop 4096 buf core = Some (core, buf)"
    by (subst flush_loop.simps) (simp add: venus_hfi_queue_dbg_read_def Let_def)
  with assms show ?thesis by simp
next
  case (Some ps)
  from flush_ends [OF this assms(2,3)] obtain c buf' where
    "flush_loop 4096 buf core = Some (c, buf')" "length buf' = 4096" "holds_pkt buf'"
    and c: "queue_view c DBGQ \<noteq> None" "core_status c = core_status core" "iface_q_table c = iface_q_table core"
    "\<forall>i. i \<noteq> DBGQ \<longrightarrow> iface_queues c i = iface_queues core i" by blast
  moreover have "hfi_ok c"
    by (rule hfi_ok_queue [OF assms(1) c(2,3,1)]) (use c(4) in blast)
  moreover have "iface_queues c CMDQ = iface_queues core CMDQ" using c(4) by simp
  ultimately show ?thesis by blast
qed

lemma flush_result:
  fixes w :: "'v hfi_world"
  assumes ok: "core_ok core"
  obtains core' w' where "flush_debug_queue pf force w core = Some (0, core', w')" "core_ok core'"
    "core_state core' = core_state core" "core_lock_held core' = core_lock_held core"
    "core_sub_state core' = core_sub_state core" "core_packet core' = None \<longleftrightarrow> core_packet core = None"
    "iface_q_table core' = iface_q_table core" "iface_queues core' CMDQ = iface_queues core CMDQ"
    "set_to_fw w' = set_to_fw w"
proof -
  have h: "hfi_ok core" using ok by (simp add: core_ok_def)
  show thesis
  proof (cases "if force \<or> core_packet_size core = 0 then None else core_packet core")
    case None
    have z: "length (replicate 4096 (0 :: uint8)) = 4096" "holds_pkt (replicate 4096 0)"
      by (simp_all add: holds_pkt_def pkt_len_def u32_of_bytes_def)
    obtain v_ok v where v: "pf_vzalloc pf (pf_state w) = (v_ok, v)" by (metis prod.exhaust)
    from flush_total [OF h z] obtain c buf' where
      f: "flush_loop 4096 (replicate 4096 0) core = Some (c, buf')" and c: "hfi_ok c" "core_status c = core_status core"
      and q: "iface_q_table c = iface_q_table core" "iface_queues c CMDQ = iface_queues core CMDQ" by blast
    have n: "unat VIDC_IFACEQ_VAR_HUGE_PKT_SIZE = 4096" "VIDC_IFACEQ_VAR_HUGE_PKT_SIZE = 4096"
      by (simp_all add: VIDC_IFACEQ_VAR_HUGE_PKT_SIZE_def)
    have r: "flush_debug_queue pf force w core = Some (0, if v_ok then c else core, w\<lparr>pf_state := v\<rparr>)"
      using None v f by (simp only: flush_debug_queue_def option.case n Let_def) simp
    show thesis
      by (rule that [OF r]) (use ok core_ok_status [OF ok c] c(2) q in \<open>simp_all add: core_status_def\<close>)
  next
    case (Some p)
    then have p: "core_packet core = Some p" by (simp split: if_splits)
    with h have b: "core_packet_size core = 4096" "length p = 4096" "holds_pkt p"
      by (simp_all add: hfi_ok_def buffer_ok_def)
    from flush_total [OF h b(2,3)] obtain c buf' where
      f: "flush_loop 4096 p core = Some (c, buf')" "length buf' = 4096" "holds_pkt buf'"
      and c: "hfi_ok c" "core_status c = core_status core"
      and q: "iface_q_table c = iface_q_table core" "iface_queues c CMDQ = iface_queues core CMDQ" by blast
    let ?c = "c\<lparr>core_packet := Some buf'\<rparr>"
    have k: "core_ok ?c"
      using core_ok_status(1) [OF ok c] f(2,3) c(2) b(1)
      by (simp add: core_ok_def hfi_ok_def buffer_ok_def queue_view_def core_status_def)
    have r: "flush_debug_queue pf force w core = Some (0, ?c, w)"
      using Some b(1) f(1) by (simp only: flush_debug_queue_def option.case Let_def) simp
    show thesis
      by (rule that [OF r k]) (use core_ok_status [OF ok c] p q in simp_all)
  qed
qed

lemma flush_runs: "runs Q (flush_debug_queue (pf :: 'v core_platform) force) (after Q)"
proof (rule runsI)
  fix w :: "'v hfi_world" and core
  assume a: "core_ok core" "Q (core_sub_state core)"
  obtain core' w' where "flush_debug_queue pf force w core = Some (0, core', w')" "core_ok core'"
    "core_state core' = core_state core" "core_lock_held core' = core_lock_held core"
    "core_sub_state core' = core_sub_state core"
    by (rule flush_result [OF a(1)])
  with a(2) show "\<exists>rc core' w'. flush_debug_queue pf force w core = Some (rc, core', w')
      \<and> core_ok core' \<and> core_state core' = core_state core \<and> core_lock_held core' = core_lock_held core
      \<and> Q (core_sub_state core')" by simp
qed

section \<open>All calls\<close>

lemma hfi_do_runs:
  assumes "alloc_maps (pf_mem_ops pf)" "stays pf Q" "runs Q resume (after Q)" "c \<noteq> Power_On \<and> c \<noteq> Power_Off"
  shows "runs Q (hfi_do pf resume c) (after Q)"
proof -
  have "runs Q (platform_act pf c) (after Q)" using assms(2,4) by (simp add: stays_def)
  with assms show ?thesis
    by (cases c) (simp_all add: queue_init_runs sys_init_def sys_image_version_def sys_set_debug_def
        sys_powercollapse_def prepare_pc_iris33_runs set_subcaches_runs release_subcaches_runs flush_runs
        send_runs builds_all)
qed

lemma power_call_runs:
  "c = Power_On \<or> c = Power_Off \<Longrightarrow> runs whatever (hfi_do pf resume c) (after whatever)"
  using platform_runs by auto

text \<open>With power on, \<open>__resume\<close> has nothing to do, whatever calls it would make.\<close>

lemma resume_powered: "powered (core_sub_state core) \<Longrightarrow> venus_resume hw w core = Some (0, core, w)"
  by (simp add: venus_resume_def is_core_sub_state_def powered_def)

lemma resume_powered_runs: "runs powered (venus_resume hw) (after powered)"
  by (simp add: runs_def resume_powered)

section \<open>Nesting\<close>

text \<open>\<open>alike Q f g R\<close>: the contract \<open>runs Q f R\<close>, and \<open>g\<close> gives the same results.\<close>

definition alike ::
  "(uint32 \<Rightarrow> bool) \<Rightarrow> 'w core_action \<Rightarrow> 'w core_action \<Rightarrow> (int \<Rightarrow> uint32 \<Rightarrow> bool) \<Rightarrow> bool" where
  "alike Q f g R \<longleftrightarrow> runs Q f R \<and> (\<forall>w core. core_ok core \<and> Q (core_sub_state core) \<longrightarrow> f w core = g w core)"

lemma alike_refl: "runs Q f R \<Longrightarrow> alike Q f f R"
  by (simp add: alike_def)

lemma alike_weaken:
  "alike Q f g R \<Longrightarrow> (\<And>x. Q' x \<Longrightarrow> Q x) \<Longrightarrow> (\<And>rc x. R rc x \<Longrightarrow> R' rc x) \<Longrightarrow> alike Q' f g R'"
  unfolding alike_def using runs_weaken by blast

lemma alike_if:
  "alike Q f f' R \<Longrightarrow> alike Q g g' R \<Longrightarrow>
    alike Q (\<lambda>w core. if b w core then f w core else g w core) (\<lambda>w core. if b w core then f' w core else g' w core) R"
  unfolding alike_def by (simp add: runs_if)

lemma alike_if_const:
  "(b \<Longrightarrow> alike Q f f' R) \<Longrightarrow> (\<not> b \<Longrightarrow> alike Q g g' R) \<Longrightarrow>
    alike Q (\<lambda>w core. if b then f w core else g w core) (\<lambda>w core. if b then f' w core else g' w core) R"
  by (cases b) simp_all

lemma alike_return:
  "(\<And>x w core. Q x \<Longrightarrow> R (f core) x) \<Longrightarrow> alike Q (\<lambda>w core. Some (f core, core, g w)) (\<lambda>w core. Some (f core, core, g w)) R"
  by (intro alike_refl runs_return)

lemma alike_bind:
  assumes "alike Q f f' R" and "\<And>rc. alike (R rc) (g rc) (g' rc) S"
  shows "alike Q (\<lambda>w core. f w core \<bind> (\<lambda>(rc, core, w). g rc w core))
    (\<lambda>w core. f' w core \<bind> (\<lambda>(rc, core, w). g' rc w core)) S"
  unfolding alike_def
proof (intro conjI allI impI)
  show "runs Q (\<lambda>w core. f w core \<bind> (\<lambda>(rc, core, w). g rc w core)) S"
    using assms by (intro runs_bind) (auto simp: alike_def)
  fix w core
  assume a: "core_ok core \<and> Q (core_sub_state core)"
  then obtain rc c w1 where f: "f w core = Some (rc, c, w1)" and c: "core_ok c" "R rc (core_sub_state c)"
    using assms(1) unfolding alike_def runs_def by metis
  moreover have "f' w core = f w core" using assms(1) a unfolding alike_def by metis
  moreover have "g rc w1 c = g' rc w1 c" using assms(2) [of rc] c unfolding alike_def by metis
  ultimately show "f w core \<bind> (\<lambda>(rc, core, w). g rc w core) = f' w core \<bind> (\<lambda>(rc, core, w). g' rc w core)"
    by simp
qed

text \<open>The platform's own calls do not depend on the level, and on a powered core no call does.\<close>

lemma act_hw: "act (hfi_hw (Suc n) pf) c = hfi_do pf (venus_resume (hfi_hw n pf)) c"
  by (simp add: act_def [abs_def] hfi_calls_def)

lemma cmdq_powered:
  "powered (core_sub_state core) \<Longrightarrow> cmdq_write (venus_resume h) w core = cmdq_write (\<lambda>w core. Some (0, core, w)) w core"
  by (simp add: cmdq_write_def resume_powered)

lemma send_powered:
  "powered (core_sub_state core) \<Longrightarrow>
    send_command (venus_resume h) build w core = send_command (venus_resume h') build w core"
  by (simp add: send_command_def cmdq_powered Let_def cong: if_cong)

lemma hfi_do_powered:
  assumes "powered (core_sub_state core)"
  shows "hfi_do pf (venus_resume h) c w core = hfi_do pf (venus_resume h') c w core"
proof -
  have p: "prepare_pc (venus_resume h) v core = prepare_pc (venus_resume h') v core" for v
    using assms by (simp add: prepare_pc_def cmdq_powered Let_def cong: if_cong)
  note s = send_powered [OF assms, of h _ _ h']
  show ?thesis
    by (cases c) (simp_all only: hfi_do.simps sys_init_def sys_image_version_def sys_set_debug_def
        sys_powercollapse_def prepare_pc_iris33_def set_subcaches_def release_subcaches_def p s)
qed

lemma hw_powered:
  assumes "platform_ok pf" "c \<noteq> Power_On \<and> c \<noteq> Power_Off"
  shows "alike powered (act (hfi_hw (Suc n) pf) c) (act (hfi_hw (Suc m) pf) c) (after powered)"
  unfolding alike_def
proof (intro conjI allI impI)
  show "runs powered (act (hfi_hw (Suc n) pf) c) (after powered)"
    using hfi_do_runs [OF _ stays_powered [OF assms(1)] resume_powered_runs assms(2)] assms(1)
    unfolding act_hw by (simp add: platform_ok_def)
  fix w core
  assume "core_ok core \<and> powered (core_sub_state core)"
  then show "act (hfi_hw (Suc n) pf) c w core = act (hfi_hw (Suc m) pf) c w core"
    unfolding act_hw by (intro hfi_do_powered) simp
qed

lemma power_call:
  "c = Power_On \<or> c = Power_Off \<Longrightarrow> act (hfi_hw n pf) c = platform_act pf c"
  by (cases n) (auto simp: act_def [abs_def] hfi_calls_def)

lemma power_off_alike: "alike whatever (venus_power_off (hfi_hw n pf)) (venus_power_off (hfi_hw m pf)) (after whatever)"
proof -
  have e: "venus_power_off (hfi_hw n pf) = venus_power_off (hfi_hw m pf)"
    by (simp add: venus_power_off_def [abs_def] power_call cong: if_cong)
  have "runs whatever (\<lambda>w core. venus_power_off (hfi_hw m pf) w core) (after whatever)"
    unfolding venus_power_off_def power_call [OF disjI2 [OF refl]]
    by (intro runs_if runs_if_const runs_return runs_bind [OF platform_runs]
        runs_bind [OF keeps_sub_state [unfolded keeps_core_runs]] TrueI)
  then show ?thesis unfolding e by (intro alike_refl) simp
qed

lemma sub_state_powered: "s AND CORE_SUBSTATE_POWER_ENABLE \<noteq> 0 \<Longrightarrow> runs whatever (sub_state_act 0 s) (\<lambda>rc x. rc = 0 \<longrightarrow> powered x)"
proof (rule runsI)
  fix w :: 'a and core
  assume s: "s AND CORE_SUBSTATE_POWER_ENABLE \<noteq> 0" and ok: "core_ok core"
  obtain r c where e: "msm_vidc_change_core_sub_state core 0 s = Some (r, c)"
    using change_core_sub_state_defined [OF ok] by metis
  have "bit s 0" using s by (simp add: and_exp_eq_0_iff_not_bit [of _ 0, simplified])
  then have "powered ((x OR s) AND NOT 0)" "s \<noteq> 0" for x
    by (auto simp: powered_def and_exp_eq_0_iff_not_bit [of _ 0, simplified] bit_simps)
  then have "r = 0 \<longrightarrow> powered (core_sub_state c)"
    using e ok by (auto simp: core_ok_def change_core_sub_state split: if_splits)
  with core_ok_change_sub_state [OF ok e] e show "\<exists>rc core' w'. sub_state_act 0 s w core = Some (rc, core', w')
      \<and> core_ok core' \<and> core_state core' = core_state core \<and> core_lock_held core' = core_lock_held core
      \<and> (rc = 0 \<longrightarrow> powered (core_sub_state core'))"
    by (simp add: sub_state_act_def)
qed

lemma power_on_alike:
  "alike whatever (venus_power_on (hfi_hw n pf)) (venus_power_on (hfi_hw m pf)) (\<lambda>rc x. rc = 0 \<longrightarrow> powered x)"
proof -
  have e: "venus_power_on (hfi_hw n pf) = venus_power_on (hfi_hw m pf)"
    by (simp add: venus_power_on_def [abs_def] power_call cong: if_cong)
  have "runs whatever (\<lambda>w core. venus_power_on (hfi_hw m pf) w core) (\<lambda>rc x. rc = 0 \<longrightarrow> powered x)"
    unfolding venus_power_on_def power_call [OF disjI1 [OF refl]]
    by (rule runs_if_power, rule runs_return, simp)
      (intro runs_bind runs_if_const, rule runs_weaken [OF platform_runs], simp_all add: runs_return, rule sub_state_powered, simp)
  then show ?thesis unfolding e by (intro alike_refl) simp
qed

text \<open>Powering up: once the power is on, everything happens on a powered core.\<close>

lemmas alike_rules = alike_if alike_if_const alike_return

lemma same_sub_state: "runs whatever (sub_state_act c s) (after whatever)"
  using keeps_sub_state [unfolded keeps_core_runs] .

lemma handover_powered: "runs powered (sub_state_act 0 CORE_SUBSTATE_FW_PWR_CTRL) (after powered)"
proof (rule runsI)
  fix w :: 'a and core
  assume ok: "core_ok core" and p: "powered (core_sub_state core)"
  obtain r c where e: "msm_vidc_change_core_sub_state core 0 CORE_SUBSTATE_FW_PWR_CTRL = Some (r, c)"
    using change_core_sub_state_defined [OF ok] by metis
  with core_ok_change_sub_state [OF ok e] powered_change [OF ok e _ p]
  show "\<exists>rc core' w'. sub_state_act 0 CORE_SUBSTATE_FW_PWR_CTRL w core = Some (rc, core', w')
      \<and> core_ok core' \<and> core_state core' = core_state core \<and> core_lock_held core' = core_lock_held core
      \<and> powered (core_sub_state core')"
    by (simp add: sub_state_act_def)
qed

lemma power_control_alike:
  assumes "platform_ok pf"
  shows "alike powered (sys_set_power_control (hfi_hw (Suc n) pf) e) (sys_set_power_control (hfi_hw (Suc m) pf) e) (after powered)"
proof -
  note step = alike_bind [OF hw_powered [OF assms]]
  have "alike powered (\<lambda>w core. sys_set_power_control (hfi_hw (Suc n) pf) e w core)
      (\<lambda>w core. sys_set_power_control (hfi_hw (Suc m) pf) e w core) (after powered)"
    unfolding sys_set_power_control_def
    by (intro alike_rules step alike_refl handover_powered) simp_all
  then show ?thesis by simp
qed

lemma booted_alike:
  assumes "platform_ok pf"
  shows "alike powered (resume_booted (hfi_hw (Suc n) pf)) (resume_booted (hfi_hw (Suc m) pf)) (after whatever)"
proof -
  note step = alike_bind [OF hw_powered [OF assms]] alike_bind [OF power_control_alike [OF assms]]
    alike_bind [OF alike_weaken [OF power_off_alike, of powered "after whatever"]]
  have "alike powered (\<lambda>w core. resume_booted (hfi_hw (Suc n) pf) w core)
      (\<lambda>w core. resume_booted (hfi_hw (Suc m) pf) w core) (after whatever)"
    unfolding resume_booted_def
    by (intro alike_rules step) simp_all
  then show ?thesis by simp
qed

lemma alike_bind_powered:
  assumes "alike whatever f f' (\<lambda>rc x. rc = 0 \<longrightarrow> powered x)" and "alike powered g g' (after whatever)"
  shows "alike whatever
    (\<lambda>w core. f w core \<bind> (\<lambda>(rc, core, w). if rc \<noteq> 0 then Some (rc, core, w) else g w core))
    (\<lambda>w core. f' w core \<bind> (\<lambda>(rc, core, w). if rc \<noteq> 0 then Some (rc, core, w) else g' w core)) (after whatever)"
proof (rule alike_bind [OF assms(1)], rule alike_if_const)
  fix rc :: int
  show "alike (\<lambda>x. rc = 0 \<longrightarrow> powered x) (\<lambda>w core. Some (rc, core, w)) (\<lambda>w core. Some (rc, core, w)) (after whatever)"
    by (rule alike_return) simp
  assume "\<not> rc \<noteq> 0"
  then show "alike (\<lambda>x. rc = 0 \<longrightarrow> powered x) (\<lambda>w core. g w core) (\<lambda>w core. g' w core) (after whatever)"
    by (intro alike_weaken [OF assms(2)]) simp_all
qed

lemma resume_alike:
  assumes "platform_ok pf"
  shows "alike whatever (venus_resume (hfi_hw (Suc n) pf)) (venus_resume (hfi_hw (Suc m) pf)) (after whatever)"
proof -
  note step = alike_bind [OF hw_powered [OF assms]] booted_alike [OF assms]
    alike_bind [OF alike_weaken [OF power_off_alike, of powered "after whatever"]]
  have up: "alike powered
    (\<lambda>w core. do {
       (rc, core, w) \<leftarrow> act (hfi_hw (Suc n) pf) Fw_Resume w core;
       if rc \<noteq> 0 then do {
         (_, core, w) \<leftarrow> venus_power_off (hfi_hw (Suc n) pf) w core;
         Some (rc, core, w)
       } else do {
         (_, core, w) \<leftarrow> act (hfi_hw (Suc n) pf) Gdsc_Hw_Ctrl w core;
         (rc, core, w) \<leftarrow> act (hfi_hw (Suc n) pf) Boot_Firmware w core;
         if rc \<noteq> 0 then do {
           (_, core, w) \<leftarrow> act (hfi_hw (Suc n) pf) Fw_Suspend w core;
           (_, core, w) \<leftarrow> venus_power_off (hfi_hw (Suc n) pf) w core;
           Some (rc, core, w)
         } else resume_booted (hfi_hw (Suc n) pf) w core
       } })
    (\<lambda>w core. do {
       (rc, core, w) \<leftarrow> act (hfi_hw (Suc m) pf) Fw_Resume w core;
       if rc \<noteq> 0 then do {
         (_, core, w) \<leftarrow> venus_power_off (hfi_hw (Suc m) pf) w core;
         Some (rc, core, w)
       } else do {
         (_, core, w) \<leftarrow> act (hfi_hw (Suc m) pf) Gdsc_Hw_Ctrl w core;
         (rc, core, w) \<leftarrow> act (hfi_hw (Suc m) pf) Boot_Firmware w core;
         if rc \<noteq> 0 then do {
           (_, core, w) \<leftarrow> act (hfi_hw (Suc m) pf) Fw_Suspend w core;
           (_, core, w) \<leftarrow> venus_power_off (hfi_hw (Suc m) pf) w core;
           Some (rc, core, w)
         } else resume_booted (hfi_hw (Suc m) pf) w core
       } }) (after whatever)"
    by (intro alike_rules step) simp_all
  have on: "alike whatever
      (\<lambda>w core. venus_power_on (hfi_hw (Suc n) pf) w core) (\<lambda>w core. venus_power_on (hfi_hw (Suc m) pf) w core)
      (\<lambda>rc x. rc = 0 \<longrightarrow> powered x)"
    by (rule power_on_alike)
  have "alike whatever (\<lambda>w core. venus_resume (hfi_hw (Suc n) pf) w core)
      (\<lambda>w core. venus_resume (hfi_hw (Suc m) pf) w core) (after whatever)"
    unfolding venus_resume_def
    by (intro alike_rules alike_bind_powered [OF on up] alike_bind [OF alike_refl [OF same_sub_state]]) simp_all
  then show ?thesis by simp
qed

text \<open>So two levels are enough for every call, and the calls with the queues satisfy \<open>hw_ok\<close>.\<close>

theorem hfi_hw_ok:
  assumes "platform_ok pf"
  shows "hw_ok (hfi_hw (Suc (Suc n)) pf)"
proof -
  have r: "runs whatever (venus_resume (hfi_hw (Suc n) pf)) (after whatever)"
    using resume_alike [OF assms] by (simp add: alike_def)
  have "runs whatever (hfi_do pf (venus_resume (hfi_hw (Suc n) pf)) c) (after whatever)" for c
  proof (cases "c = Power_On \<or> c = Power_Off")
    case True
    then show ?thesis by (rule power_call_runs)
  next
    case False
    with assms show ?thesis by (intro hfi_do_runs stays_whatever r) (simp_all add: platform_ok_def)
  qed
  then have "runs whatever (act (hfi_hw (Suc (Suc n)) pf) c) (after whatever)" for c unfolding act_hw .
  then show ?thesis by (simp add: hw_ok_def runs_def act_def)
qed

end
