(* ===== verification/Vidc_Core_Boot.thy ===== *)
theory Vidc_Core_Boot
  imports Vidc_Core_Depth
begin

text \<open>
  The start of the core, with its queues: which commands the firmware finds, and what a fatal error does to
  the flag that says whether the firmware knows the subcaches.
\<close>

section \<open>Runs of commands\<close>

text \<open>Commands with consecutive header ids, whose packets have consecutive packet ids.\<close>

fun numbered_commands :: "uint32 \<Rightarrow> uint32 \<Rightarrow> pkt_spec list list \<Rightarrow> uint8 list list" where
  "numbered_commands hid pid [] = []"
| "numbered_commands hid pid (ps # pss) =
    cmd_bytes 0 hid (spec_packets pid ps) # numbered_commands (hid + 1) (pid + of_nat (length ps)) pss"

definition spec_size :: "pkt_spec list \<Rightarrow> nat" where
  "spec_size ps = 32 + sum_list (map (\<lambda>(ty, fl, info, vs). 32 + 4 * length vs) ps)"

lemma cmd_size_spec: "cmd_size (spec_packets pid ps) = spec_size ps"
proof -
  have "sum_list (map pkt_size_of (spec_packets pid ps)) = sum_list (map (\<lambda>(ty, fl, info, vs). 32 + 4 * length vs) ps)"
    by (induction pid ps rule: spec_packets.induct) (simp_all add: pkt_size_of_def)
  then show ?thesis by (simp add: cmd_size_def spec_size_def)
qed

lemma spec_size_dvd: "4 dvd spec_size ps"
proof -
  have "4 dvd sum_list (map (\<lambda>(ty :: uint32, fl :: uint32, info :: uint32, vs :: uint32 list). 32 + 4 * length vs) ps)"
    by (induction ps) auto
  then show ?thesis by (simp add: spec_size_def)
qed

lemma numbered_append:
  "numbered_commands hid pid (pss @ [ps]) = numbered_commands hid pid pss
    @ [cmd_bytes 0 (hid + of_nat (length pss)) (spec_packets (pid + of_nat (length (concat pss))) ps)]"
  by (induction pss arbitrary: hid pid) (simp_all add: ac_simps)

lemma numbered_room:
  "\<forall>ps \<in> set pss. spec_size ps \<le> 4096 \<Longrightarrow> length (concat (numbered_commands hid pid pss)) \<le> 4096 * length pss"
  by (induction pss arbitrary: hid pid) (simp_all add: cmd_size_spec add_mono)

section \<open>Sending on a running core\<close>

text \<open>
  A powered core on which, since the identifiers were \<open>ids\<close>, the commands \<open>pss\<close> were sent and none was
  taken by the firmware.
\<close>

definition sent :: "hfi_core \<Rightarrow> pkt_spec list list \<Rightarrow> msm_vidc_core \<Rightarrow> bool" where
  "sent ids pss core \<longleftrightarrow> core_ok core \<and> core_lock_held core \<and> core_state core = MSM_VIDC_CORE_INIT_WAIT
    \<and> powered (core_sub_state core) \<and> core_packet core \<noteq> None
    \<and> core_header_id (core_ids core) = core_header_id ids + of_nat (length pss)
    \<and> core_packet_id (core_ids core) = core_packet_id ids + of_nat (length (concat pss))
    \<and> queue_view core CMDQ = Some (numbered_commands (core_header_id ids) (core_packet_id ids) pss)
    \<and> q_cap (iface_queues core CMDQ) = 819200
    \<and> (\<forall>i. i \<noteq> CMDQ \<longrightarrow> queue_view core i = Some []) \<and> (\<forall>ps \<in> set pss. spec_size ps \<le> 4096)"

lemma command_sent:
  assumes s: "sent ids pss core" and f: "\<And>c. core_packet_id (f c) = core_packet_id c \<and> core_header_id (f c) = core_header_id c"
    and size: "spec_size ps \<le> 4096" and few: "length pss < 100"
  obtains core' where
    "send_command (venus_resume hw) (sys_command f ps) w core = Some (0, core', w\<lparr>interrupts := interrupts w + 1\<rparr>)"
    "sent ids (pss @ [ps]) core'" "core_sub_state core' = core_sub_state core"
    "sys_init_id (core_ids core') = sys_init_id (f (core_ids core\<lparr>core_header_id := core_header_id (core_ids core) + 1\<rparr>))"
proof -
  let ?ids = "core_ids core" and ?h = "core_header_id (core_ids core)" and ?p = "core_packet_id (core_ids core)"
  obtain buf where buf: "core_packet core = Some buf" "length buf = 4096" "core_packet_size core = 4096"
    using s by (auto simp: sent_def core_ok_def hfi_ok_def buffer_ok_def)
  have b: "unat (core_packet_size core) \<le> length buf" "cmd_size (spec_packets ?p ps) \<le> unat (core_packet_size core)"
    using buf size by (simp_all add: cmd_size_spec)
  have fp: "core_packet_id (f c) = core_packet_id c" for c by (simp add: f)
  from sys_command_ok [OF fp b] obtain ids' buf' where
    c: "sys_command f ps ?ids (Some buf) (core_packet_size core) = Some (0, ids', Some buf')"
    and ids': "ids' = (f (?ids\<lparr>core_header_id := ?h + 1\<rparr>))\<lparr>core_packet_id := ?p + of_nat (length ps)\<rparr>"
    and buf': "holds_cmd buf' 0 ?h (spec_packets ?p ps)" "length buf' = length buf" .
  let ?c = "core\<lparr>core_ids := ids', core_packet := Some buf'\<rparr>"
  have z: "cmd_size (spec_packets ?p ps) < 4294967296" using size by (simp add: cmd_size_spec)
  have h: "holds_pkt buf'" by (rule holds_cmd_pkt [OF buf'(1) z])
  have ok: "core_ok ?c" using s h buf buf'(2)
    by (simp add: sent_def core_ok_def hfi_ok_def queue_view_def buffer_ok_def)
  let ?qs = "numbered_commands (core_header_id ids) (core_packet_id ids) pss"
  have v: "queue_view ?c CMDQ = Some ?qs" using s by (simp add: sent_def queue_view_def)
  have "length (concat ?qs) \<le> 4096 * length pss" using s by (intro numbered_room) (simp add: sent_def)
  then have room: "length (concat ?qs) + cmd_size (spec_packets ?p ps) < q_cap (iface_queues ?c CMDQ)"
    using s size few by (simp add: sent_def cmd_size_spec)
  have l: "core_lock_held ?c" "core_in_valid_state ?c" using s by (simp_all add: sent_def core_in_valid_state_def)
  from command_arrives [OF buf'(1) z _ l v room] obtain core' where
    w: "venus_hfi_queue_cmd_write ?c (Some buf') = Some (0, core', True)"
    and v': "queue_view core' CMDQ = Some (?qs @ [cmd_bytes 0 ?h (spec_packets ?p ps)])"
    and cap: "q_cap (iface_queues core' CMDQ) = q_cap (iface_queues ?c CMDQ)"
    by (auto simp: cmd_size_spec spec_size_dvd)
  have "hfi_ok ?c" using ok by (simp add: core_ok_def)
  from cmd_write_total [OF this, of "Some buf'"] h w have hk: "hfi_ok core'" by auto
  note st = cmd_write_status [OF w]
  have status: "core_status core' = core_status ?c" using st by blast
  have q: "queue_view core' i = queue_view core i" if "i \<noteq> CMDQ" for i
    using st that by (simp add: queue_view_def)
  have "sent ids (pss @ [ps]) core'"
    using s core_ok_status [OF ok hk status] v' cap q status size fp f
    unfolding sent_def by (auto simp: core_status_def ids' numbered_append ac_simps)
  moreover have "send_command (venus_resume hw) (sys_command f ps) w core
      = Some (0, core', w\<lparr>interrupts := interrupts w + 1\<rparr>)"
  proof -
    have "powered (core_sub_state ?c)" using s by (simp add: sent_def)
    from resume_powered [OF this] have "venus_resume hw w ?c = Some (0, ?c, w)" .
    then show ?thesis using w by (simp add: send_command_def buf(1) c cmdq_write_def Let_def cong: if_cong)
  qed
  moreover have "core_sub_state core' = core_sub_state core" "core_ids core' = ids'"
    using status by (simp_all add: core_status_def)
  ultimately show thesis using that by (simp add: ids')
qed

section \<open>Booting\<close>

text \<open>A platform that boots: the memory is there, and the four calls that can end a start succeed.\<close>

definition boots :: "'v core_platform \<Rightarrow> bool" where
  "boots pf \<longleftrightarrow> ops_succeed (pf_mem_ops pf) \<and>
    (\<forall>c \<in> {Power_On, Fw_Load, Boot_Firmware, Llcc True}. \<forall>v core. fst (pf_call pf c v core) = 0)"

text \<open>Only sub-states differ.\<close>

definition sub_states_only :: "msm_vidc_core \<Rightarrow> msm_vidc_core \<Rightarrow> bool" where
  "sub_states_only core core' \<longleftrightarrow> core_ok core' \<and> (\<exists>x. core' = core\<lparr>core_sub_state := x\<rparr>)"

definition same_counts :: "'v hfi_world \<Rightarrow> 'v hfi_world \<Rightarrow> bool" where
  "same_counts w w' \<longleftrightarrow> set_to_fw w' = set_to_fw w \<and> interrupts w' = interrupts w"

lemma sub_states_trans: "sub_states_only a b \<Longrightarrow> sub_states_only b c \<Longrightarrow> sub_states_only a c"
  by (auto simp: sub_states_only_def)

lemma same_counts_trans: "same_counts a b \<Longrightarrow> same_counts b c \<Longrightarrow> same_counts a c"
  by (simp add: same_counts_def)

lemma same_core: "\<exists>x. core = core\<lparr>core_sub_state := x\<rparr>"
  by (rule exI [of _ "core_sub_state core"]) simp

lemma change_sub_states_only:
  assumes "core_ok core" and "msm_vidc_change_core_sub_state core c s = Some (rc, core')"
  shows "sub_states_only core core'"
proof -
  have "\<exists>x. core' = core\<lparr>core_sub_state := x\<rparr>"
    using assms by (auto simp: core_ok_def change_core_sub_state same_core split: if_splits)
  with core_ok_change_sub_state [OF assms] show ?thesis by (simp add: sub_states_only_def)
qed

lemma platform_step:
  fixes w :: "'v hfi_world"
  assumes ok: "core_ok core"
  obtains core' w' where "platform_act pf c w core = Some (fst (pf_call pf c (pf_state w) core), core', w')"
    "sub_states_only core core'" "same_counts w w'"
proof -
  obtain rc cl st v where e: "pf_call pf c (pf_state w) core = (rc, (cl, st), v)" by (metis prod.exhaust)
  obtain r core' where s: "msm_vidc_change_core_sub_state core cl st = Some (r, core')"
    using change_core_sub_state_defined [OF ok] by metis
  show thesis
    by (rule that [of core' "w\<lparr>pf_state := v\<rparr>"])
      (use s e change_sub_states_only [OF ok s] in \<open>simp_all add: platform_act_def same_counts_def\<close>)
qed

lemma powered_step:
  fixes w :: "'v hfi_world"
  assumes "platform_ok pf" "core_ok core" "powered (core_sub_state core)" "c \<noteq> Power_On \<and> c \<noteq> Power_Off"
  obtains core' w' where "platform_act pf c w core = Some (fst (pf_call pf c (pf_state w) core), core', w')"
    "sub_states_only core core'" "same_counts w w'" "powered (core_sub_state core')"
proof -
  obtain core' w' where p: "platform_act pf c w core = Some (fst (pf_call pf c (pf_state w) core), core', w')"
    "sub_states_only core core'" "same_counts w w'" by (rule platform_step [OF assms(2)])
  have "runs powered (platform_act pf c) (after powered)"
    using stays_powered [OF assms(1)] assms(4) by (simp add: stays_def)
  from runsD [OF this assms(2,3), of w] p that show thesis by auto
qed

lemma sub_state_step:
  assumes "core_ok core" and "core_lock_held core" and "c \<noteq> s" "c \<le> CORE_SUBSTATE_MAX" "s \<le> CORE_SUBSTATE_MAX"
  obtains core' where "sub_state_act c s w core = Some (0, core', w)" "sub_states_only core core'"
    "core_sub_state core' = (core_sub_state core OR s) AND NOT c"
proof -
  have "msm_vidc_change_core_sub_state core c s =
      Some (0, core\<lparr>core_sub_state := (core_sub_state core OR s) AND NOT c\<rparr>)" (is "_ = Some (0, ?core)")
    using assms by (auto simp: core_ok_def change_core_sub_state)
  with change_sub_states_only [OF assms(1) this] show thesis
    by (intro that [of ?core]) (simp_all add: sub_state_act_def)
qed

lemma sub_states_onlyD:
  assumes "sub_states_only core core'"
  shows "core_ok core'" "core_lock_held core' = core_lock_held core" "core_state core' = core_state core"
    "iface_queues core' = iface_queues core" "core_packet core' = core_packet core" "core_ids core' = core_ids core"
  using assms by (auto simp: sub_states_only_def)

text \<open>The firmware is loaded on a core that was powered up for it.\<close>

lemma firmware_loads:
  fixes w :: "'v hfi_world"
  assumes pf: "platform_ok pf" "boots pf" and ok: "core_ok core" and lock: "core_lock_held core"
  obtains core' w' where "load_fw (hfi_hw n pf) w core = Some (0, core', w')" "sub_states_only core core'"
    "same_counts w w'" "powered (core_sub_state core')"
proof -
  have a: "act (hfi_hw n pf) c = platform_act pf c" if "c \<in> {Power_On, Fw_Load, Gdsc_Hw_Ctrl}" for c
    using that by (cases n) (auto simp: act_def [abs_def] hfi_calls_def)
  have rc0: "fst (pf_call pf c v x) = 0" if "c \<in> {Power_On, Fw_Load}" for c v x
    using pf(2) that by (auto simp: boots_def)
  obtain c1 where c1: "sub_state_act (CORE_SUBSTATE_MAX - 1) 0 w core = Some (0, c1, w)" "sub_states_only core c1"
    by (rule sub_state_step [OF ok lock, of "CORE_SUBSTATE_MAX - 1" 0]) simp_all
  note ok1 = sub_states_onlyD [OF c1(2)]
  obtain c2 w2 where on: "venus_power_on (hfi_hw n pf) w c1 = Some (0, c2, w2)" "sub_states_only c1 c2"
      "same_counts w w2" "powered (core_sub_state c2)"
  proof (cases "powered (core_sub_state c1)")
    case True
    then show thesis
      using ok1 by (intro that [of c1 w])
        (simp_all add: venus_power_on_def is_core_sub_state_def powered_def sub_states_only_def same_counts_def same_core)
  next
    case False
    obtain c' w' where p: "platform_act pf Power_On w c1 = Some (fst (pf_call pf Power_On (pf_state w) c1), c', w')"
      "sub_states_only c1 c'" "same_counts w w'" by (rule platform_step [OF ok1(1), of pf Power_On w])
    note ok' = sub_states_onlyD [OF p(2)]
    have "core_lock_held c'" using ok' ok1 lock by simp
    from sub_state_step [OF ok'(1) this, of 0 CORE_SUBSTATE_POWER_ENABLE w'] obtain c2 where
      s: "sub_state_act 0 CORE_SUBSTATE_POWER_ENABLE w' c' = Some (0, c2, w')" "sub_states_only c' c2"
      and x: "core_sub_state c2 = (core_sub_state c' OR 1)" by auto
    from x have "powered (core_sub_state c2)"
      by (simp add: powered_def and_exp_eq_0_iff_not_bit [of _ 0, simplified] bit_simps)
    with False p s(1) rc0 a sub_states_trans [OF p(2) s(2)] show thesis
      by (intro that [of c2 w']) (simp_all add: venus_power_on_def is_core_sub_state_def powered_def)
  qed
  note ok2 = sub_states_onlyD [OF on(2)]
  obtain c3 w3 where ld: "platform_act pf Fw_Load w2 c2 = Some (fst (pf_call pf Fw_Load (pf_state w2) c2), c3, w3)"
    "sub_states_only c2 c3" "same_counts w2 w3" "powered (core_sub_state c3)"
    by (rule powered_step [OF pf(1) ok2(1) on(4), of Fw_Load w2]) simp_all
  note ok3 = sub_states_onlyD [OF ld(2)]
  obtain c4 w4 where gd: "platform_act pf Gdsc_Hw_Ctrl w3 c3 = Some (fst (pf_call pf Gdsc_Hw_Ctrl (pf_state w3) c3), c4, w4)"
    "sub_states_only c3 c4" "same_counts w3 w4" "powered (core_sub_state c4)"
    by (rule powered_step [OF pf(1) ok3(1) ld(4), of Gdsc_Hw_Ctrl w3]) simp_all
  show thesis
  proof (rule that)
    show "load_fw (hfi_hw n pf) w core = Some (0, c4, w4)"
      using c1(1) on(1) ld(1) gd(1) a rc0 by (simp add: load_fw_def)
    show "sub_states_only core c4"
      using sub_states_trans [OF sub_states_trans [OF sub_states_trans [OF c1(2) on(2)] ld(2)] gd(2)] .
    show "same_counts w w4" using same_counts_trans [OF same_counts_trans [OF on(3) ld(3)] gd(3)] .
    show "powered (core_sub_state c4)" by (rule gd(4))
  qed
qed

text \<open>The queues are set up, or emptied when they are there from an earlier start, with their full size.\<close>

definition cmdq_sized :: "msm_vidc_core \<Rightarrow> bool" where
  "cmdq_sized core \<longleftrightarrow>
    (align_virtual_addr (iface_q_table core) \<noteq> None \<longrightarrow> q_cap (iface_queues core CMDQ) = 819200)"

lemma queues_empty:
  assumes ops: "alloc_maps ops" "ops_succeed ops" and ok: "hfi_ok core" "cmdq_sized core"
  obtains core' v' where "venus_hfi_queue_init ops v core = Some (0, core', v')" "hfi_ok core'"
    "core_status core' = core_status core" "\<And>i. queue_view core' i = Some []"
    "q_cap (iface_queues core' CMDQ) = 819200"
proof -
  from queue_init_ok [OF ops(1) ok(1), of v] obtain rc core' v' where
    i: "venus_hfi_queue_init ops v core = Some (rc, core', v')" "hfi_ok core'" "core_status core' = core_status core" .
  have "rc = 0 \<and> (\<forall>i. queue_view core' i = Some []) \<and> q_cap (iface_queues core' CMDQ) = 819200"
  proof (cases "align_virtual_addr (iface_q_table core) = None")
    case True
    then show ?thesis
    proof (cases rule: queue_init_fresh [OF ops(1) True, of v, case_names nomem queues])
      case (nomem w')
      then show ?thesis using ops(2) by simp
    next
      case (queues rc' c w')
      then show ?thesis using i(1) ops(2) q_fresh_view [OF queues(3)] by (simp add: queue_view_def)
    qed
  next
    case False
    then have "q_placed (iface_queues core i)" for i
      using ok(1) by (intro view_placed) (simp add: hfi_ok_def queue_view_def)
    from reset_fresh [OF this] obtain c where r: "venus_hfi_reset_queue_header core = Some (0, c)"
      and f: "\<And>i. q_fresh i (iface_queues c i)" "\<And>i. q_arr (iface_queues c i) = q_arr (iface_queues core i)"
      by metis
    with False i(1) have "rc = 0 \<and> core' = c" by (simp add: venus_hfi_queue_init_def)
    with f(2) False ok(2) q_fresh_view [OF f(1)] show ?thesis
      by (simp add: queue_view_def cmdq_sized_def q_cap_def)
  qed
  with i that show thesis by blast
qed

section \<open>The start\<close>

text \<open>The commands of a start, in order; \<open>told\<close>: the driver takes the firmware to know the subcaches.\<close>

definition start_commands :: "'v core_platform \<Rightarrow> bool \<Rightarrow> bool \<Rightarrow> hfi_core \<Rightarrow> pkt_spec list list" where
  "start_commands pf told handoff ids =
    [sys_init_packets ids,
     [(HFI_PROP_IMAGE_VERSION,
       HFI_HOST_FLAGS_RESPONSE_REQUIRED OR HFI_HOST_FLAGS_INTR_REQUIRED OR HFI_HOST_FLAGS_GET_PROPERTY,
       HFI_PAYLOAD_NONE, [])],
     [(HFI_PROP_DEBUG_CONFIG, HFI_HOST_FLAGS_NONE, HFI_PAYLOAD_U32_ENUM, [0]),
      (HFI_PROP_DEBUG_LOG_LEVEL, HFI_HOST_FLAGS_NONE, HFI_PAYLOAD_U32_ENUM, [fw_debug_level pf])]]
    @ (if syscache_used pf \<and> \<not> told
       then [map (subcache_packet HFI_BUF_HOST_FLAG_NONE) (active_subcaches pf)] else [])
    @ (if handoff then [[(HFI_PROP_INTRA_FRAME_POWER_COLLAPSE, HFI_HOST_FLAGS_NONE, HFI_PAYLOAD_U32, [1])]] else [])"

lemma spec_size_subcaches: "spec_size (map (subcache_packet fl) infos) = 32 + 96 * length infos"
  by (induction infos) (auto simp: spec_size_def subcache_packet_def)

lemma sent_ok: "sent ids pss core \<Longrightarrow> core_ok core \<and> core_lock_held core \<and> powered (core_sub_state core)"
  by (simp add: sent_def)

lemma act_running:
  "act (hfi_hw (Suc n) pf) Sys_Init w core =
      send_command (venus_resume (hfi_hw n pf)) (sys_command (\<lambda>c. c\<lparr>sys_init_id := core_packet_id c\<rparr>)
        (sys_init_packets (core_ids core))) w core"
  "act (hfi_hw (Suc n) pf) Sys_Image_Version w core =
      send_command (venus_resume (hfi_hw n pf)) (sys_command (\<lambda>c. c) (start_commands pf told False ids ! 1)) w core"
  "act (hfi_hw (Suc n) pf) Sys_Set_Debug w core =
      send_command (venus_resume (hfi_hw n pf)) (sys_command (\<lambda>c. c) (start_commands pf told False ids ! 2)) w core"
  "act (hfi_hw (Suc n) pf) (Sys_Powercollapse True) w core =
      send_command (venus_resume (hfi_hw n pf)) (sys_command (\<lambda>c. c)
        [(HFI_PROP_INTRA_FRAME_POWER_COLLAPSE, HFI_HOST_FLAGS_NONE, HFI_PAYLOAD_U32, [1])]) w core"
  by (simp_all add: act_hw sys_init_def sys_image_version_def sys_set_debug_def sys_powercollapse_def
      hfi_packet_sys_init_def hfi_packet_image_version_def hfi_packet_sys_debug_config_def [abs_def]
      hfi_packet_sys_intraframe_powercollapse_def [abs_def] start_commands_def send_command_def
      del: hfi_hw.simps)

text \<open>The subcaches are sent when the firmware is not yet taken to know them.\<close>

lemma subcaches_sent:
  fixes w :: "'v hfi_world"
  assumes s: "sent ids pss core" and few: "length (active_subcaches pf) \<le> 42" "length pss < 100"
  obtains core' w' where "act (hfi_hw (Suc n) pf) Set_Subcaches w core = Some (0, core', w')"
    "sent ids (pss @ (if syscache_used pf \<and> \<not> set_to_fw w
       then [map (subcache_packet HFI_BUF_HOST_FLAG_NONE) (active_subcaches pf)] else [])) core'"
    "core_sub_state core' = core_sub_state core" "sys_init_id (core_ids core') = sys_init_id (core_ids core)"
    "set_to_fw w' = (set_to_fw w \<or> syscache_used pf)"
proof (cases "syscache_used pf \<and> \<not> set_to_fw w")
  case True
  have z: "spec_size (map (subcache_packet HFI_BUF_HOST_FLAG_NONE) (active_subcaches pf)) \<le> 4096"
    using few(1) by (simp add: spec_size_subcaches)
  from command_sent [OF s, of "\<lambda>c. c", OF _ z few(2), of "hfi_hw n pf" w] obtain core' where
    "send_command (venus_resume (hfi_hw n pf)) (subcache_command HFI_BUF_HOST_FLAG_NONE (active_subcaches pf)) w core
      = Some (0, core', w\<lparr>interrupts := interrupts w + 1\<rparr>)"
    "sent ids (pss @ [map (subcache_packet HFI_BUF_HOST_FLAG_NONE) (active_subcaches pf)]) core'"
    "core_sub_state core' = core_sub_state core" "sys_init_id (core_ids core') = sys_init_id (core_ids core)"
    by (auto simp: subcache_command_def)
  then show thesis
    using True by (intro that [of core' "w\<lparr>interrupts := interrupts w + 1, set_to_fw := True\<rparr>"])
      (simp_all add: act_hw set_subcaches_def del: hfi_hw.simps)
next
  case False
  then show thesis
    using s by (intro that [of core w]) (auto simp: act_hw set_subcaches_def simp del: hfi_hw.simps)
qed

lemma power_control_sent:
  fixes w :: "'v hfi_world"
  assumes s: "sent ids pss core" and few: "length pss < 100"
  obtains core' w' where "sys_set_power_control (hfi_hw (Suc n) pf) True w core = Some (0, core', w')"
    "sent ids (pss @ (if is_core_sub_state core CORE_SUBSTATE_GDSC_HANDOFF
       then [[(HFI_PROP_INTRA_FRAME_POWER_COLLAPSE, HFI_HOST_FLAGS_NONE, HFI_PAYLOAD_U32, [1])]] else [])) core'"
    "is_core_sub_state core' CORE_SUBSTATE_GDSC_HANDOFF = is_core_sub_state core CORE_SUBSTATE_GDSC_HANDOFF"
    "sys_init_id (core_ids core') = sys_init_id (core_ids core)" "set_to_fw w' = set_to_fw w"
proof (cases "is_core_sub_state core CORE_SUBSTATE_GDSC_HANDOFF")
  case False
  with s show thesis
    by (intro that [of core w]) (simp_all add: sys_set_power_control_def del: hfi_hw.simps)
next
  case True
  let ?ps = "[(HFI_PROP_INTRA_FRAME_POWER_COLLAPSE, HFI_HOST_FLAGS_NONE, HFI_PAYLOAD_U32, [1])]"
  have z: "spec_size ?ps \<le> 4096" by (simp add: spec_size_def)
  from command_sent [OF s, of "\<lambda>c. c", OF _ z few, of "hfi_hw n pf" w] obtain c1 where
    c1: "send_command (venus_resume (hfi_hw n pf)) (sys_command (\<lambda>c. c) ?ps) w core
        = Some (0, c1, w\<lparr>interrupts := interrupts w + 1\<rparr>)" "sent ids (pss @ [?ps]) c1"
      "core_sub_state c1 = core_sub_state core" "sys_init_id (core_ids c1) = sys_init_id (core_ids core)"
    by auto
  have ok1: "core_ok c1" "core_lock_held c1" using c1(2) by (simp_all add: sent_def)
  from sub_state_step [OF ok1, of 0 CORE_SUBSTATE_FW_PWR_CTRL "w\<lparr>interrupts := interrupts w + 1\<rparr>"] obtain c2 where
    c2: "sub_state_act 0 CORE_SUBSTATE_FW_PWR_CTRL (w\<lparr>interrupts := interrupts w + 1\<rparr>) c1
        = Some (0, c2, w\<lparr>interrupts := interrupts w + 1\<rparr>)" "sub_states_only c1 c2"
      and x: "core_sub_state c2 = core_sub_state c1 OR CORE_SUBSTATE_FW_PWR_CTRL" by auto
  have v: "core_in_valid_state core" using s by (simp add: sent_def core_in_valid_state_def)
  have b: "(y OR CORE_SUBSTATE_FW_PWR_CTRL) AND m = 0 \<longleftrightarrow> y AND m = 0" if "CORE_SUBSTATE_FW_PWR_CTRL AND m = 0"
    for y m :: uint32 using that by (simp add: word_ao_dist)
  have p: "powered (core_sub_state c2)" using c1(2) x by (simp add: sent_def powered_def b)
  have h: "is_core_sub_state c2 CORE_SUBSTATE_GDSC_HANDOFF = is_core_sub_state core CORE_SUBSTATE_GDSC_HANDOFF"
    using x c1(3) by (simp add: is_core_sub_state_def b)
  have "sent ids (pss @ [?ps]) c2"
    using c1(2) p sub_states_onlyD [OF c2(2)] by (simp add: sent_def queue_view_def)
  with True v c1 c2(1) h sub_states_onlyD(6) [OF c2(2)] show thesis
    by (intro that [of c2 "w\<lparr>interrupts := interrupts w + 1\<rparr>"])
      (simp_all add: sys_set_power_control_def act_running del: hfi_hw.simps)
qed

text \<open>From the state in which \<open>msm_vidc_core_init\<close> calls it, \<open>venus_hfi_core_init\<close> sends just these commands.\<close>

lemma hardware_up:
  fixes w :: "'v hfi_world"
  assumes pf: "platform_ok pf" "boots pf" and core: "core_ok core" "core_lock_held core"
    "core_state core = MSM_VIDC_CORE_INIT_WAIT" "core_packet core \<noteq> None" "cmdq_sized core"
  obtains core' w' where
    "venus_hfi_core_init (hfi_hw (Suc n) pf) w core = do {
       (rc, core, w) \<leftarrow> act_all (hfi_hw (Suc n) pf) [Sys_Init, Sys_Image_Version, Sys_Set_Debug, Set_Subcaches] w' core';
       if rc \<noteq> 0 then Some (rc, core, w)
       else do {
         (rc, core, w) \<leftarrow> sys_set_power_control (hfi_hw (Suc n) pf) True w core;
         if rc \<noteq> 0 then do {
           (_, core, w) \<leftarrow> act (hfi_hw (Suc n) pf) Gdsc_Sw_Ctrl w core;
           Some (0, core, w)
         } else Some (0, core, w)
       } }"
    "sent (core_ids core) [] core'" "core_ids core' = core_ids core" "set_to_fw w' = set_to_fw w"
proof -
  have pf': "alloc_maps (pf_mem_ops pf)" "ops_succeed (pf_mem_ops pf)"
    using pf by (simp_all add: platform_ok_def boots_def)
  have h: "hfi_ok core" using core(1) by (simp add: core_ok_def)
  from queues_empty [OF pf' h core(5), of "pf_state w"] obtain c1 v where
    q: "venus_hfi_queue_init (pf_mem_ops pf) (pf_state w) core = Some (0, c1, v)" "hfi_ok c1"
    and st: "core_status c1 = core_status core" and views: "\<And>i. queue_view c1 i = Some []"
    and cap: "q_cap (iface_queues c1 CMDQ) = 819200" by blast
  let ?w = "w\<lparr>pf_state := v\<rparr>"
  note ok1 = core_ok_status [OF core(1) q(2) st]
  have l1: "core_lock_held c1" using ok1 core(2) by simp
  obtain c2 w2 where ld: "load_fw (hfi_hw (Suc n) pf) ?w c1 = Some (0, c2, w2)" "sub_states_only c1 c2"
    "same_counts ?w w2" "powered (core_sub_state c2)"
    by (rule firmware_loads [OF pf ok1(1) l1])
  note ok2 = sub_states_onlyD [OF ld(2)]
  obtain c3 w3 where bo: "platform_act pf Boot_Firmware w2 c2 = Some (fst (pf_call pf Boot_Firmware (pf_state w2) c2), c3, w3)"
    "sub_states_only c2 c3" "same_counts w2 w3" "powered (core_sub_state c3)"
    by (rule powered_step [OF pf(1) ok2(1) ld(4), of Boot_Firmware w2]) simp_all
  note ok3 = sub_states_onlyD [OF bo(2)]
  obtain c4 w4 where ll: "platform_act pf (Llcc True) w3 c3 = Some (fst (pf_call pf (Llcc True) (pf_state w3) c3), c4, w4)"
    "sub_states_only c3 c4" "same_counts w3 w4" "powered (core_sub_state c4)"
    by (rule powered_step [OF pf(1) ok3(1) bo(4), of "Llcc True" w3]) simp_all
  have rc0: "fst (pf_call pf c x y) = 0" if "c \<in> {Boot_Firmware, Llcc True}" for c x y
    using pf(2) that by (auto simp: boots_def)
  have only: "sub_states_only c1 c4" using sub_states_trans ld(2) bo(2) ll(2) by metis
  note ok4 = sub_states_onlyD [OF only]
  have "sent (core_ids core) [] c4" and ids: "core_ids c4 = core_ids core"
    using ok4 ok1 core views cap st ll(4) by (simp_all add: sent_def queue_view_def core_status_def)
  moreover have "set_to_fw w4 = set_to_fw w" using ld(3) bo(3) ll(3) by (simp add: same_counts_def)
  moreover have "act (hfi_hw (Suc n) pf) Queue_Init w core = Some (0, c1, ?w)"
    "act (hfi_hw (Suc n) pf) Boot_Firmware w2 c2 = Some (0, c3, w3)"
    "act (hfi_hw (Suc n) pf) (Llcc True) w3 c3 = Some (0, c4, w4)"
    using q(1) bo(1) ll(1) rc0 by (simp_all add: act_hw queue_init_act_def del: hfi_hw.simps)
  moreover have "strict_check core = 0" using core(2) by (simp add: strict_check_def)
  ultimately show thesis
    using ids ld(1) by (intro that [of w4 c4]) (simp_all add: venus_hfi_core_init_def del: hfi_hw.simps)
qed

lemma start_sizes:
  "\<forall>ps \<in> set (start_commands pf told False ids). length (active_subcaches pf) \<le> 42 \<longrightarrow> spec_size ps \<le> 4096"
  by (auto simp: start_commands_def spec_size_subcaches) (auto simp: spec_size_def sys_init_packets_def Let_def)

lemma core_boots:
  fixes w :: "'v hfi_world"
  assumes pf: "platform_ok pf" "boots pf" "length (active_subcaches pf) \<le> 42"
    and core: "core_ok core" "core_lock_held core" "core_state core = MSM_VIDC_CORE_INIT_WAIT"
      "core_packet core \<noteq> None" "cmdq_sized core"
  obtains core' w' where "venus_hfi_core_init (hfi_hw (Suc n) pf) w core = Some (0, core', w')"
    "sent (core_ids core) (start_commands pf (set_to_fw w)
       (is_core_sub_state core' CORE_SUBSTATE_GDSC_HANDOFF) (core_ids core)) core'"
    "sys_init_id (core_ids core') = core_packet_id (core_ids core)"
    "set_to_fw w' = (set_to_fw w \<or> syscache_used pf)"
proof -
  let ?hw = "hfi_hw (Suc n) pf" and ?ids = "core_ids core" and ?c = "start_commands pf (set_to_fw w)"
  obtain c0 w0 where up: "venus_hfi_core_init ?hw w core = do {
       (rc, core, w) \<leftarrow> act_all ?hw [Sys_Init, Sys_Image_Version, Sys_Set_Debug, Set_Subcaches] w0 c0;
       if rc \<noteq> 0 then Some (rc, core, w)
       else do {
         (rc, core, w) \<leftarrow> sys_set_power_control ?hw True w core;
         if rc \<noteq> 0 then do {
           (_, core, w) \<leftarrow> act ?hw Gdsc_Sw_Ctrl w core;
           Some (0, core, w)
         } else Some (0, core, w)
       } }"
    and s0: "sent ?ids [] c0" "core_ids c0 = ?ids" "set_to_fw w0 = set_to_fw w"
    by (rule hardware_up [OF pf(1,2) core])
  have z: "spec_size (?c False ?ids ! 0) \<le> 4096" "spec_size (?c False ?ids ! 1) \<le> 4096"
    "spec_size (?c False ?ids ! 2) \<le> 4096"
    using start_sizes [of pf "set_to_fw w" ?ids] pf(3) by (auto simp: start_commands_def)
  let ?f = "\<lambda>c :: hfi_core. c\<lparr>sys_init_id := core_packet_id c\<rparr>"
  from command_sent [OF s0(1), of ?f, OF _ z(1), of "hfi_hw n pf" w0] obtain c1 where
    c1: "send_command (venus_resume (hfi_hw n pf)) (sys_command ?f (?c False ?ids ! 0)) w0 c0
        = Some (0, c1, w0\<lparr>interrupts := interrupts w0 + 1\<rparr>)"
    and s1: "sent ?ids ([] @ [?c False ?ids ! 0]) c1" "sys_init_id (core_ids c1) = core_packet_id ?ids"
    by (auto simp: s0)
  let ?w1 = "w0\<lparr>interrupts := interrupts w0 + 1\<rparr>"
  from command_sent [OF s1(1), of "\<lambda>c. c", OF _ z(2), of "hfi_hw n pf" ?w1] obtain c2 where
    c2: "send_command (venus_resume (hfi_hw n pf)) (sys_command (\<lambda>c. c) (?c False ?ids ! 1)) ?w1 c1
        = Some (0, c2, ?w1\<lparr>interrupts := interrupts ?w1 + 1\<rparr>)"
    and s2: "sent ?ids (([] @ [?c False ?ids ! 0]) @ [?c False ?ids ! 1]) c2" "sys_init_id (core_ids c2) = core_packet_id ?ids"
    by (auto simp: s1)
  let ?w2 = "?w1\<lparr>interrupts := interrupts ?w1 + 1\<rparr>"
  from command_sent [OF s2(1), of "\<lambda>c. c", OF _ z(3), of "hfi_hw n pf" ?w2] obtain c3 where
    c3: "send_command (venus_resume (hfi_hw n pf)) (sys_command (\<lambda>c. c) (?c False ?ids ! 2)) ?w2 c2
        = Some (0, c3, ?w2\<lparr>interrupts := interrupts ?w2 + 1\<rparr>)"
    and s3: "sent ?ids ((([] @ [?c False ?ids ! 0]) @ [?c False ?ids ! 1]) @ [?c False ?ids ! 2]) c3"
      "sys_init_id (core_ids c3) = core_packet_id ?ids"
    by (auto simp: s2)
  let ?w3 = "?w2\<lparr>interrupts := interrupts ?w2 + 1\<rparr>"
  obtain c4 w4 where c4: "act ?hw Set_Subcaches ?w3 c3 = Some (0, c4, w4)"
    and s4: "sent ?ids (((([] @ [?c False ?ids ! 0]) @ [?c False ?ids ! 1]) @ [?c False ?ids ! 2])
        @ (if syscache_used pf \<and> \<not> set_to_fw ?w3
           then [map (subcache_packet HFI_BUF_HOST_FLAG_NONE) (active_subcaches pf)] else [])) c4"
      "sys_init_id (core_ids c4) = sys_init_id (core_ids c3)" "set_to_fw w4 = (set_to_fw ?w3 \<or> syscache_used pf)"
    by (rule subcaches_sent [OF s3(1) pf(3), of n ?w3]) simp_all
  obtain c5 w5 where c5: "sys_set_power_control ?hw True w4 c4 = Some (0, c5, w5)"
    and s5: "sent ?ids ((((([] @ [?c False ?ids ! 0]) @ [?c False ?ids ! 1]) @ [?c False ?ids ! 2])
        @ (if syscache_used pf \<and> \<not> set_to_fw ?w3
           then [map (subcache_packet HFI_BUF_HOST_FLAG_NONE) (active_subcaches pf)] else []))
        @ (if is_core_sub_state c4 CORE_SUBSTATE_GDSC_HANDOFF
           then [[(HFI_PROP_INTRA_FRAME_POWER_COLLAPSE, HFI_HOST_FLAGS_NONE, HFI_PAYLOAD_U32, [1])]] else [])) c5"
      "is_core_sub_state c5 CORE_SUBSTATE_GDSC_HANDOFF = is_core_sub_state c4 CORE_SUBSTATE_GDSC_HANDOFF"
      "sys_init_id (core_ids c5) = sys_init_id (core_ids c4)" "set_to_fw w5 = set_to_fw w4"
    by (rule power_control_sent [OF s4(1), of n pf w4]) simp_all
  have "act_all ?hw [Sys_Init, Sys_Image_Version, Sys_Set_Debug, Set_Subcaches] w0 c0 = Some (0, c4, w4)"
    using c1 c2 c3 c4 s0(2) unfolding act_all.simps act_running(1) act_running(2,3) [where told = "set_to_fw w" and ids = ?ids]
    by (simp add: start_commands_def del: hfi_hw.simps)
  then show thesis
    using up c5 s5 s4 s3 s0(3) by (intro that [of c5 w5]) (simp_all add: start_commands_def del: hfi_hw.simps)
qed

end
