(* ===== verification/Vidc_Core_Restart.thy ===== *)
theory Vidc_Core_Restart
  imports Vidc_Core_Boot Vidc_Core_Steps
begin

text \<open>
  The driver's start and its reaction to a fatal error, with the queues: \<open>msm_vidc_core_init\<close> and
  \<open>handle_system_error\<close> on the calls of \<open>Vidc_Core_Hfi\<close>.
\<close>

section \<open>The start\<close>

lemma queue_view_lock [simp]:
  "queue_view (sys_core (lock_core s)) i = queue_view (sys_core s) i"
  "queue_view (sys_core (unlock_core s)) i = queue_view (sys_core s) i"
  by (simp_all add: queue_view_def lock_core_def unlock_core_def)

lemma sub_state_lock [simp]:
  "is_core_sub_state (sys_core (unlock_core s)) m = is_core_sub_state (sys_core s) m"
  by (simp add: is_core_sub_state_def unlock_core_def)

lemma sent_packet: "sent ids pss core \<Longrightarrow> core_packet core \<noteq> None \<and> q_cap (iface_queues core CMDQ) = 819200"
  by (simp add: sent_def)

lemma driver_starts:
  fixes w :: "'v hfi_world" and s :: vidc_sys and ids :: hfi_core
  defines "ids \<equiv> core_ids (sys_core s)"
  assumes pf: "platform_ok pf" "boots pf" "length (active_subcaches pf) \<le> 42"
    and s: "sys_ok s" "cstate s = MSM_VIDC_CORE_DEINIT" "core_packet (sys_core s) \<noteq> None" "cmdq_sized (sys_core s)"
  obtains core s' w' where "msm_vidc_core_init (hfi_hw (Suc n) pf) w s = Some (0, unlock_core s', w')"
    "sys_core s' = core"
    "sent ids (start_commands pf (set_to_fw w) (is_core_sub_state core CORE_SUBSTATE_GDSC_HANDOFF) ids) core"
    "vidc_sys.sys_init_id s' = core_packet_id ids" "set_to_fw w' = (set_to_fw w \<or> syscache_used pf)"
proof -
  let ?s1 = "change_core (lock_core s) MSM_VIDC_CORE_INIT_WAIT"
  have c1: "core_ok (sys_core ?s1)" "core_lock_held (sys_core ?s1)"
    using s(1) core_ok_change_core [of "lock_core s"] by (simp_all add: sys_ok_def sys_inv_def)
  have w1: "core_state (sys_core ?s1) = MSM_VIDC_CORE_INIT_WAIT" using s(2) by (simp add: change_core_state_of)
  have same: "core_packet (sys_core ?s1) = core_packet (sys_core s)" "core_ids (sys_core ?s1) = ids"
    "iface_queues (sys_core ?s1) = iface_queues (sys_core s)" "iface_q_table (sys_core ?s1) = iface_q_table (sys_core s)"
    by (simp_all add: change_core_def change_core_state core_to_def lock_core_def ids_def)
  obtain a where a: "sub_state_act CORE_SUBSTATE_PM_SUSPEND 0 w (sys_core ?s1) = Some (0, a, w)"
    "sub_states_only (sys_core ?s1) a"
    by (rule sub_state_step [OF c1, of CORE_SUBSTATE_PM_SUSPEND 0 w]) simp_all
  note oka = sub_states_onlyD [OF a(2)]
  obtain b where b: "sub_state_act CORE_SUBSTATE_PAGE_FAULT 0 w a = Some (0, b, w)" "sub_states_only a b"
    by (rule sub_state_step [OF oka(1), of CORE_SUBSTATE_PAGE_FAULT 0 w]) (use oka(2) c1(2) in simp_all)
  note okb = sub_states_onlyD [OF sub_states_trans [OF a(2) b(2)]]
  have tab: "iface_q_table b = iface_q_table (sys_core ?s1)"
    using sub_states_trans [OF a(2) b(2)] by (auto simp: sub_states_only_def)
  have pb: "core_packet b \<noteq> None" "cmdq_sized b" "core_lock_held b" "core_state b = MSM_VIDC_CORE_INIT_WAIT"
    using s(3,4) same okb tab c1(2) w1 by (simp_all add: cmdq_sized_def)
  obtain core w' where c: "venus_hfi_core_init (hfi_hw (Suc n) pf) w b = Some (0, core, w')"
    and r: "sent (core_ids b) (start_commands pf (set_to_fw w) (is_core_sub_state core CORE_SUBSTATE_GDSC_HANDOFF) (core_ids b)) core"
      "hfi_core.sys_init_id (core_ids core) = core_packet_id (core_ids b)" "set_to_fw w' = (set_to_fw w \<or> syscache_used pf)"
    by (rule core_boots [OF pf okb(1) pb(3,4,1,2), of n w])
  let ?s2 = "(sys_with (sys_with (sys_with ?s1 a) b) core)\<lparr>vidc_sys.sys_init_id := core_packet_id ids\<rparr>"
  have e: "msm_vidc_core_init (hfi_hw (Suc n) pf) w s = Some (0, unlock_core ?s2, w')"
    using a(1) b(1) c r(2) s(2) okb(6) same(2)
    by (simp add: msm_vidc_core_init_def Let_def core_in_valid_state_def set_core_sub_state_def on_core_def hfi_calls_def)
  show thesis
    by (rule that [OF e]) (use r okb(6) same(2) in simp_all)
qed

section \<open>After a fatal error\<close>

text \<open>
  What a failed core keeps: its buffer, its command queue, and the flag of the subcaches - no command is
  written any more, so they are not released.
\<close>

definition still :: "msm_vidc_core \<Rightarrow> msm_vidc_core \<Rightarrow> bool" where
  "still core core' \<longleftrightarrow> core_ok core' \<and> core_state core' = core_state core
    \<and> core_lock_held core' = core_lock_held core \<and> (core_packet core' = None \<longleftrightarrow> core_packet core = None)
    \<and> iface_q_table core' = iface_q_table core \<and> iface_queues core' CMDQ = iface_queues core CMDQ"

definition retains :: "'v hfi_world core_action \<Rightarrow> bool" where
  "retains f \<longleftrightarrow> (\<forall>w core. core_ok core \<and> core_state core = MSM_VIDC_CORE_ERROR \<longrightarrow>
    (\<exists>rc core' w'. f w core = Some (rc, core', w') \<and> still core core' \<and> set_to_fw w' = set_to_fw w))"

lemma still_refl: "core_ok core \<Longrightarrow> still core core"
  by (simp add: still_def)

lemma still_trans: "still a b \<Longrightarrow> still b c \<Longrightarrow> still a c"
  by (simp add: still_def)

lemma still_only: "sub_states_only a b \<Longrightarrow> still a b"
  by (auto simp: sub_states_only_def still_def)

lemma retainsI:
  assumes "\<And>(w :: 'v hfi_world) core. core_ok core \<Longrightarrow> core_state core = MSM_VIDC_CORE_ERROR \<Longrightarrow>
    \<exists>rc core' w'. f w core = Some (rc, core', w') \<and> still core core' \<and> set_to_fw w' = set_to_fw w"
  shows "retains f"
  using assms by (simp add: retains_def)

lemma retainsD:
  assumes "retains f" "core_ok core" "core_state core = MSM_VIDC_CORE_ERROR"
  obtains rc core' w' where "f w core = Some (rc, core', w')" "still core core'" "set_to_fw w' = set_to_fw w"
  using assms unfolding retains_def by metis

lemma retains_bind:
  fixes f :: "'v hfi_world core_action"
  assumes "retains f" and "\<And>rc. retains (g rc)"
  shows "retains (\<lambda>w core. f w core \<bind> (\<lambda>(rc, core, w). g rc w core))"
proof (rule retainsI)
  fix w :: "'v hfi_world" and core
  assume a: "core_ok core" "core_state core = MSM_VIDC_CORE_ERROR"
  obtain rc c w1 where f: "f w core = Some (rc, c, w1)" "still core c" "set_to_fw w1 = set_to_fw w"
    by (rule retainsD [OF assms(1) a])
  then have "core_ok c" "core_state c = MSM_VIDC_CORE_ERROR" using a(2) by (simp_all add: still_def)
  from retainsD [OF assms(2) this] obtain rc' c' w2 where
    "g rc w1 c = Some (rc', c', w2)" "still c c'" "set_to_fw w2 = set_to_fw w1" by metis
  with f still_trans [OF f(2)] show "\<exists>rc core' w'. f w core \<bind> (\<lambda>(rc, core, w). g rc w core) = Some (rc, core', w')
      \<and> still core core' \<and> set_to_fw w' = set_to_fw w" by simp
qed

lemma retains_if: "retains f \<Longrightarrow> retains g \<Longrightarrow> retains (\<lambda>w core. if b w core then f w core else g w core)"
  by (simp add: retains_def)

lemma retains_if_const: "retains f \<Longrightarrow> retains g \<Longrightarrow> retains (\<lambda>w core. if b then f w core else g w core)"
  by (simp add: retains_def)

lemma retains_return: "retains (\<lambda>w core. Some (f core, core, w))"
  by (simp add: retains_def still_refl)

lemma retains_sub_state: "retains (sub_state_act c s)"
proof (rule retainsI)
  fix w :: "'v hfi_world" and core
  assume a: "core_ok core"
  obtain rc core' where "msm_vidc_change_core_sub_state core c s = Some (rc, core')"
    using change_core_sub_state_defined [OF a] by metis
  with still_only [OF change_sub_states_only [OF a this]]
  show "\<exists>rc core' w'. sub_state_act c s w core = Some (rc, core', w') \<and> still core core' \<and> set_to_fw w' = set_to_fw w"
    by (simp add: sub_state_act_def)
qed

lemma retains_platform: "retains (platform_act (pf :: 'v core_platform) c)"
proof (rule retainsI)
  fix w :: "'v hfi_world" and core
  assume a: "core_ok core"
  obtain core' w' where "platform_act pf c w core = Some (fst (pf_call pf c (pf_state w) core), core', w')"
    "sub_states_only core core'" "same_counts w w'" by (rule platform_step [OF a])
  then show "\<exists>rc core' w'. platform_act pf c w core = Some (rc, core', w') \<and> still core core' \<and> set_to_fw w' = set_to_fw w"
    by (auto simp: still_only same_counts_def)
qed

lemma retains_flush: "retains (flush_debug_queue (pf :: 'v core_platform) force)"
proof (rule retainsI)
  fix w :: "'v hfi_world" and core
  assume a: "core_ok core"
  obtain core' w' where "flush_debug_queue pf force w core = Some (0, core', w')" "still core core'" "set_to_fw w' = set_to_fw w"
    by (rule flush_result [OF a, of pf force w]) (simp add: still_def)
  then show "\<exists>rc core' w'. flush_debug_queue pf force w core = Some (rc, core', w') \<and> still core core' \<and> set_to_fw w' = set_to_fw w"
    by blast
qed

text \<open>On a failed core powering up does nothing, and no command is written.\<close>

lemma resume_failed:
  "core_state core = MSM_VIDC_CORE_ERROR \<Longrightarrow>
    venus_resume hw w core = Some (if powered (core_sub_state core) then 0 else - EINVAL, core, w)"
  by (simp add: venus_resume_def core_in_valid_state_def is_core_sub_state_def powered_def)

lemma cmdq_write_failed:
  "core_state core = MSM_VIDC_CORE_ERROR \<Longrightarrow> cmdq_write (venus_resume hw) w core = Some (- EINVAL, core, w)"
  by (simp add: cmdq_write_def resume_failed venus_hfi_queue_cmd_write_def iface_cmdq_write_relaxed_def
      strict_check_def core_in_valid_state_def Let_def)

lemma release_failed:
  fixes w :: "'v hfi_world"
  assumes ok: "core_ok core" and st: "core_state core = MSM_VIDC_CORE_ERROR"
  shows "\<exists>rc core'. release_subcaches pf (venus_resume hw) w core = Some (rc, core', w) \<and> still core core'"
proof (cases "syscache_used pf \<and> set_to_fw w")
  case False
  with ok show ?thesis by (auto simp: release_subcaches_def still_refl)
next
  case True
  let ?b = "subcache_command HFI_BUF_HOST_FLAG_RELEASE (rev (active_subcaches pf))"
  have "buffer_ok (core_packet core) (core_packet_size core)" using ok by (simp add: core_ok_def hfi_ok_def)
  from buildsD [OF builds_all(6) this] obtain rc ids pkt where
    b: "?b (core_ids core) (core_packet core) (core_packet_size core) = Some (rc, ids, pkt)"
      "buffer_ok pkt (core_packet_size core)" "pkt = None \<longleftrightarrow> core_packet core = None" by blast
  let ?c = "core\<lparr>core_ids := ids, core_packet := pkt\<rparr>"
  have "still core ?c" using ok b(2,3) by (simp add: still_def core_ok_def hfi_ok_def queue_view_def)
  moreover have "cmdq_write (venus_resume hw) w ?c = Some (- EINVAL, ?c, w)"
    using st by (intro cmdq_write_failed) simp
  ultimately show ?thesis
    using True b(1) by (cases "rc = 0") (simp_all add: release_subcaches_def send_command_def Let_def)
qed

text \<open>So the deinitialisation of a failed core leaves the flag as it was.\<close>

lemma retains_calls:
  assumes "c \<in> {Power_Off, Fw_Unload, Llcc False, Release_Subcaches} \<or> (\<exists>force. c = Flush_Debug_Queue force)"
  shows "retains (act (hfi_hw (Suc n) pf) c)"
proof -
  have "retains (release_subcaches pf (venus_resume (hfi_hw n pf)))"
    by (rule retainsI) (use release_failed in blast)
  with assms show ?thesis by (auto simp: act_hw retains_platform retains_flush simp del: hfi_hw.simps)
qed

lemma retains_resume: "retains (venus_resume hw)"
  by (rule retainsI) (simp add: resume_failed still_refl)

lemma retains_deinit: "retains (venus_hfi_core_deinit (hfi_hw (Suc n) pf) force)"
proof -
  let ?hw = "hfi_hw (Suc n) pf"
  note rules = retains_if retains_if_const retains_return retains_bind retains_calls retains_sub_state
  have off: "retains (venus_power_off ?hw)"
  proof -
    have "retains (\<lambda>w core. venus_power_off ?hw w core)"
      unfolding venus_power_off_def by (intro rules) auto
    then show ?thesis by simp
  qed
  have unload: "retains (unload_fw ?hw)"
  proof -
    have "retains (\<lambda>w core. unload_fw ?hw w core)"
      unfolding unload_fw_def by (intro rules off) auto
    then show ?thesis by simp
  qed
  have "retains (\<lambda>w core. venus_hfi_core_deinit ?hw force w core)"
    unfolding venus_hfi_core_deinit_def by (intro rules unload retains_resume) auto
  then show ?thesis by simp
qed

lemma unlink_core [simp]: "sys_core (unlink_sessions is s) = sys_core s"
  by (induction "is" s rule: unlink_sessions.induct) (simp_all add: Let_def change_inst_def)

lemma still_change: "still core (sys_core s) \<Longrightarrow> core_packet (sys_core (change_core s t)) = None \<longleftrightarrow> core_packet core = None"
  "still core (sys_core s) \<Longrightarrow> cmdq_sized (sys_core (change_core s t)) = cmdq_sized core"
  by (simp_all add: still_def change_core_def change_core_state core_to_def cmdq_sized_def)

lemma error_keeps:
  fixes w :: "'v hfi_world"
  assumes "platform_ok pf" and ok: "sys_ok s"
  obtains s' w' where "handle_system_error (hfi_hw (Suc (Suc n)) pf) w s = Some (0, s', w')" "sys_ok s'"
    "cstate s' = MSM_VIDC_CORE_DEINIT" "core_packet (sys_core s') = None \<longleftrightarrow> core_packet (sys_core s) = None"
    "cmdq_sized (sys_core s') = cmdq_sized (sys_core s)" "set_to_fw w' = set_to_fw w"
proof -
  let ?hw = "hfi_hw (Suc (Suc n)) pf" and ?s = "change_core (lock_core s) MSM_VIDC_CORE_ERROR"
  have ok1: "core_ok (sys_core ?s)" using ok core_ok_change_core [of "lock_core s"]
    by (simp add: sys_ok_def sys_inv_def)
  have l: "still (sys_core (lock_core s)) (sys_core (lock_core s))"
    using ok by (intro still_refl) (simp add: sys_ok_def sys_inv_def)
  have lk: "core_packet (sys_core (lock_core s)) = core_packet (sys_core s)"
    "cmdq_sized (sys_core (lock_core s)) = cmdq_sized (sys_core s)"
    by (simp_all add: lock_core_def cmdq_sized_def)
  obtain rc s' w' where e: "handle_system_error ?hw w s = Some (rc, s', w')" "sys_ok s'" "cstate s' = MSM_VIDC_CORE_DEINIT"
    using error_step [OF hfi_hw_ok [OF assms(1)] ok, of n w] unfolding step_ok_def by (auto simp: torn_down_def)
  have "rc = 0 \<and> (core_packet (sys_core s') = None \<longleftrightarrow> core_packet (sys_core s) = None)
      \<and> cmdq_sized (sys_core s') = cmdq_sized (sys_core s) \<and> set_to_fw w' = set_to_fw w"
  proof (cases "cstate ?s = MSM_VIDC_CORE_DEINIT")
    case True
    then have "s' = unlock_core ?s" "w' = w" "rc = 0"
      using e(1) by (auto simp: handle_system_error_def msm_vidc_core_deinit_locked_def strict_check_def)
    then show ?thesis using still_change [OF l] lk by (simp add: unlock_core_def cmdq_sized_def)
  next
    case False
    then have st: "core_state (sys_core ?s) = MSM_VIDC_CORE_ERROR" by (simp add: change_core_error split: if_splits)
    obtain r core w1 where d: "venus_hfi_core_deinit ?hw True w (sys_core ?s) = Some (r, core, w1)"
      "still (sys_core ?s) core" "set_to_fw w1 = set_to_fw w"
      by (rule retainsD [OF retains_deinit ok1 st])
    with False e(1) have "rc = 0" "w' = w1"
      and s': "s' = unlock_core (change_core (unlink_sessions (instances ?s) (sys_with ?s core)) MSM_VIDC_CORE_DEINIT)"
      by (auto simp: handle_system_error_def msm_vidc_core_deinit_locked_def strict_check_def on_core_def)
    moreover have "still (sys_core ?s) (sys_core (unlink_sessions (instances ?s) (sys_with ?s core)))" using d(2) by simp
    note k = still_change [OF this, of MSM_VIDC_CORE_DEINIT]
    have "core_packet (sys_core s') = None \<longleftrightarrow> core_packet (sys_core s) = None"
      using k(1) still_change(1) [OF l, of MSM_VIDC_CORE_ERROR] lk(1) by (simp add: s' unlock_core_def)
    moreover have "cmdq_sized (sys_core s') = cmdq_sized (sys_core s)"
      using k(2) still_change(2) [OF l, of MSM_VIDC_CORE_ERROR] lk(2)
      unfolding s' by (simp add: unlock_core_def cmdq_sized_def)
    ultimately show ?thesis using d(3) by simp
  qed
  with e that show thesis by simp
qed

end
