(* ===== verification/Vidc_Core_Flush.thy ===== *)
theory Vidc_Core_Flush
  imports Vidc_Core_Hfi
begin

text \<open>
  The loop of \<open>__flush_debug_queue\<close> on a queue that is not in order.  \<open>__read_queue\<close> takes the size of a
  packet from the shared memory and never compares it with the bytes between the two indices, so a read can
  step over the write index.
\<close>

text \<open>
  A queue whose every block of 4096 bytes begins like a packet of 4096 bytes, and whose write index is not
  at the beginning of a block; \<open>k\<close> is the block of the read index.
\<close>

definition stuffed :: "nat \<Rightarrow> msm_vidc_iface_q_info \<Rightarrow> bool" where
  "stuffed k q \<longleftrightarrow> (\<exists>h m. q_hdr q = Some h \<and> align_virtual_addr (q_arr q) = Some m
    \<and> q_mem_size (q_arr q) = VIDC_IFACEQ_QUEUE_SIZE \<and> length m = 819200
    \<and> (\<forall>j < 200. get_u32 m (4096 * j) = Some 4096)
    \<and> unat (qhdr_read_idx h) = 1024 * k \<and> k < 200 \<and> \<not> 1024 dvd unat (qhdr_write_idx h) \<and> qhdr_tx_req h \<noteq> 1)"

lemma get_u32_copied:
  assumes "get_u32 m off = Some v" "n \<ge> 4" "off + n \<le> length m" "n \<le> length buf"
  shows "get_u32 (overwrite buf 0 (slice m off n)) 0 = Some v"
proof -
  have "slice (overwrite buf 0 (slice m off n)) 0 4 = slice m off 4"
    using assms(2,3) by (simp add: overwrite_def slice_def take_append min_absorb2)
  with assms show ?thesis by (simp add: get_u32_def split: if_splits)
qed

lemma mem_copy_nothing: "off \<le> length buf \<Longrightarrow> mem_copy buf off m 0 0 = Some buf"
  by (simp add: mem_copy_def overwrite_def slice_def)

lemma stuffed_read:
  assumes q: "stuffed k q" and buf: "length buf = 4096"
  obtains q' buf' where "read_queue q (Some buf) 0 = Some (0, q', Some buf', 0)" "stuffed (Suc k mod 200) q'"
    "length buf' = 4096" "get_u32 buf' 0 = Some 4096"
proof -
  obtain h m where h: "q_hdr q = Some h" "align_virtual_addr (q_arr q) = Some m"
      "q_mem_size (q_arr q) = VIDC_IFACEQ_QUEUE_SIZE" "length m = 819200"
    and sz: "\<And>j. j < 200 \<Longrightarrow> get_u32 m (4096 * j) = Some 4096"
    and r: "unat (qhdr_read_idx h) = 1024 * k" "k < 200" and w: "\<not> 1024 dvd unat (qhdr_write_idx h)"
    and tx: "qhdr_tx_req h \<noteq> 1" using q unfolding stuffed_def by blast
  have ri: "qhdr_read_idx h = of_nat (1024 * k)" by (simp flip: r(1))
  have ne: "qhdr_read_idx h \<noteq> qhdr_write_idx h" using r(1) w by (metis dvd_triv_left)
  have off: "unat (push_bit 2 (qhdr_read_idx h)) = 4096 * k" using r unat_push2 [of "qhdr_read_idx h"] by simp
  have S: "drop_bit 2 VIDC_IFACEQ_QUEUE_SIZE = 204800" "unat VIDC_IFACEQ_QUEUE_SIZE = 819200"
    "drop_bit 2 (4096 :: uint32) = 1024" "push_bit 2 (1024 :: uint32) = 4096"
    by (simp_all add: VIDC_IFACEQ_QUEUE_SIZE_def)
  have le: "qhdr_read_idx h \<le> 204800" using r by (simp add: word_le_nat_alt)
  have huge: "(4096 :: uint32) \<le> VIDC_IFACEQ_VAR_HUGE_PKT_SIZE" by (simp add: VIDC_IFACEQ_VAR_HUGE_PKT_SIZE_def)
  let ?n = "qhdr_read_idx h + 1024"
  have n: "unat ?n = 1024 * Suc k" using r by (subst unat_add32) simp_all
  let ?b = "overwrite buf 0 (slice m (4096 * k) 4096)"
  have b: "length ?b = 4096" "get_u32 ?b 0 = Some 4096"
    using get_u32_copied [OF sz [OF r(2)], of 4096 buf] r(2) h(4) buf by simp_all
  have copy: "mem_copy buf 0 m (4096 * k) 4096 = Some ?b" using r(2) h(4) buf by (simp add: mem_copy_in)
  note R = read_queue_def [of q "Some buf" 0, unfolded h option.case Let_def off sz [OF r(2)] S Option.bind.bind_lunit]
  have next_idx: "stuffed (Suc k mod 200) (q_with q (h\<lparr>qhdr_rx_req := x, qhdr_read_idx := i\<rparr>) m)"
    if "unat i = 1024 * (Suc k mod 200)" for x i
    unfolding stuffed_def using h sz r w tx that
    by (intro exI [of _ "h\<lparr>qhdr_rx_req := x, qhdr_read_idx := i\<rparr>"] exI [of _ m]) (simp add: q_with_def)
  show thesis
  proof (cases "k = 199")
    case True
    have e: "?n = 204800" by (simp add: ri True)
    have "\<not> ?n < 204800" "?n - 204800 = 0" by (simp_all add: e)
    then show thesis
      using ne r(2) le huge tx copy next_idx [of 0] True b mem_copy_nothing [of 4096 ?b m]
      by (intro that [of "q_with q (h\<lparr>qhdr_rx_req := if qhdr_type h AND HFI_Q_ID_CTRL_TO_HOST_MSG_Q \<noteq> 0 then 1 else 0,
          qhdr_read_idx := 0\<rparr>) m" ?b]) (simp_all add: R S)
  next
    case False
    then have k: "Suc k < 200" using r(2) by simp
    then have "?n < 204800" using n by (simp add: word_less_nat_alt)
    then show thesis
      using ne r(2) le huge tx copy next_idx [of ?n] n k b
      by (intro that [of "q_with q (h\<lparr>qhdr_rx_req := if qhdr_type h AND HFI_Q_ID_CTRL_TO_HOST_MSG_Q \<noteq> 0 then 1 else 0,
          qhdr_read_idx := ?n\<rparr>) m" ?b]) (simp_all add: R S)
  qed
qed

text \<open>So every round of the loop leads to the next block, and it never ends.\<close>

lemma stuffed_round:
  assumes q: "stuffed k (iface_queues core DBGQ)" and buf: "length buf = 4096"
  obtains core' buf' where
    "venus_hfi_queue_dbg_read core (Some buf) = Some (0, core', Some buf')" "get_u32 buf' 0 = Some 4096"
    "stuffed (Suc k mod 200) (iface_queues core' DBGQ)" "length buf' = 4096"
proof -
  obtain q' buf' where r: "read_queue (iface_queues core DBGQ) (Some buf) 0 = Some (0, q', Some buf', 0)"
    "stuffed (Suc k mod 200) q'" "length buf' = 4096" "get_u32 buf' 0 = Some 4096"
    by (rule stuffed_read [OF q buf])
  have "align_virtual_addr (q_arr (iface_queues core DBGQ)) \<noteq> None" using q by (auto simp: stuffed_def)
  with r show thesis
    by (intro that [of "core_with core DBGQ q'" buf']) (simp_all add: venus_hfi_queue_dbg_read_def Let_def)
qed

lemma ends_not_stuffed:
  "flush_loop n buf core = Some y \<Longrightarrow> n = 4096 \<longrightarrow> length buf = 4096 \<longrightarrow> (\<forall>k. \<not> stuffed k (iface_queues core DBGQ))"
proof (rule flush_loop.raw_induct [rotated], assumption, intro impI allI notI)
  fix flush packet_size packet core y k
  assume IH: "\<And>n buf core y. flush n buf core = Some y \<Longrightarrow>
      n = 4096 \<longrightarrow> length buf = 4096 \<longrightarrow> (\<forall>k. \<not> stuffed k (iface_queues core DBGQ))"
    and body: "do {
      (rc, core, pkt) \<leftarrow> venus_hfi_queue_dbg_read core (Some packet);
      packet \<leftarrow> pkt;
      if rc \<noteq> 0 then Some (core, packet)
      else do {
        size \<leftarrow> get_u32 packet 0;
        if unat size < 16 then flush packet_size packet core
        else if size \<ge> packet_size then flush packet_size packet core
        else if unat size < length packet then flush packet_size (packet[unat size := 0]) core
        else None
      }
    } = Some y"
    and s: "packet_size = 4096" "length packet = 4096" "stuffed k (iface_queues core DBGQ)"
  obtain core' buf' where d: "venus_hfi_queue_dbg_read core (Some packet) = Some (0, core', Some buf')"
    "get_u32 buf' 0 = Some 4096" and n: "stuffed (Suc k mod 200) (iface_queues core' DBGQ)" "length buf' = 4096"
    by (rule stuffed_round [OF s(3,2)])
  have "flush 4096 buf' core' = Some y" using body d s(1) by simp
  from IH [OF this] n show False by blast
qed

lemma stuffed_hangs:
  "stuffed k (iface_queues core DBGQ) \<Longrightarrow> length buf = 4096 \<Longrightarrow> flush_loop 4096 buf core = None"
  using ends_not_stuffed [of 4096 buf core] by (cases "flush_loop 4096 buf core") auto

text \<open>The reads that the loop makes, one for every number.\<close>

lemma stuffed_reads:
  assumes "stuffed k (iface_queues core DBGQ)" and "length buf = 4096"
  shows "\<exists>cs bs. cs 0 = core \<and> bs 0 = buf
    \<and> (\<forall>n. venus_hfi_queue_dbg_read (cs n) (Some (bs n)) = Some (0, cs (Suc n), Some (bs (Suc n)))
        \<and> get_u32 (bs (Suc n)) 0 = Some 4096)"
proof -
  let ?P = "\<lambda>n (c, b). (n = 0 \<longrightarrow> c = core \<and> b = buf) \<and> (\<exists>k. stuffed k (iface_queues c DBGQ)) \<and> length b = 4096"
  let ?Q = "\<lambda>n (c, b) (c', b'). venus_hfi_queue_dbg_read c (Some b) = Some (0, c', Some b') \<and> get_u32 b' 0 = Some 4096"
  have "\<exists>f. \<forall>n :: nat. ?P n (f n) \<and> ?Q n (f n) (f (Suc n))"
  proof (rule dependent_nat_choice)
    show "\<exists>x. ?P 0 x" using assms by blast
    fix x and n :: nat
    assume "?P n x"
    then obtain c b k where x: "x = (c, b)" and s: "stuffed k (iface_queues c DBGQ)" "length b = 4096"
      by (cases x) auto
    obtain c' b' where "venus_hfi_queue_dbg_read c (Some b) = Some (0, c', Some b')" "get_u32 b' 0 = Some 4096"
      "stuffed (Suc k mod 200) (iface_queues c' DBGQ)" "length b' = 4096"
      by (rule stuffed_round [OF s])
    then show "\<exists>y. ?P (Suc n) y \<and> ?Q n x y" by (intro exI [of _ "(c', b')"]) (auto simp: x)
  qed
  then obtain f where "\<And>n :: nat. ?P n (f n) \<and> ?Q n (f n) (f (Suc n))" by blast
  then show ?thesis
    by (intro exI [of _ "fst \<circ> f"] exI [of _ "snd \<circ> f"]) (fastforce simp: case_prod_beta)
qed

end
