(* ===== verification/Vidc_Core_Boot_Props.thy ===== *)
theory Vidc_Core_Boot_Props
  imports Vidc_Core_Restart Vidc_Core_Flush Vidc_Core_Props
begin

text \<open>
  The properties of the video core together with its queues, with a platform on which every call succeeds
  and a debug queue without order for the witnesses.
\<close>

section \<open>A small platform\<close>

definition demo_platform :: "nat core_platform" where
  "demo_platform = \<lparr>pf_call = \<lambda>c v core. (0, (0, if c = Gdsc_Hw_Ctrl then CORE_SUBSTATE_GDSC_HANDOFF else 0), v),
    pf_mem_ops = demo_sure_ops, pf_fw_cookie = \<lambda>_. True, pf_vzalloc = \<lambda>v. (True, v),
    pf_read = \<lambda>r v. (0, 0, v), pf_poll = \<lambda>r v. (0, v), fw_debug_level = 0x18, syscache_used = True,
    active_subcaches = [(11, 512), (12, 256)]\<rparr>"

definition demo_world :: "bool \<Rightarrow> nat hfi_world" where
  "demo_world told = \<lparr>pf_state = 0, set_to_fw = told, interrupts = 0\<rparr>"

lemma demo_platform_ok: "platform_ok demo_platform" "boots demo_platform" "length (active_subcaches demo_platform) \<le> 42"
  using demo_sure_ops_ok by (simp_all add: platform_ok_def boots_def demo_platform_def)

lemma demo_start:
  "core_state (sys_core (demo_sys MSM_VIDC_CORE_DEINIT [])) = MSM_VIDC_CORE_DEINIT"
  "core_packet (sys_core (demo_sys st is)) \<noteq> None" "cmdq_sized (sys_core (demo_sys st is))"
  by (simp_all add: demo_sys_def demo_core_def cmdq_sized_def demo_array_def)

section \<open>Properties\<close>



text \<open>C13: The driver with its queues never gets stuck.  Whatever the order of the operations on the core and the
  answers of its platform, each one returns, its own commands, the power-up inside them and the flush of the
  debug queue included, and afterwards the lock is free, the queues that exist are in order, and the buffer
  for commands has its size and holds a packet.
\<close>

theorem driver_with_queues:
  assumes "platform_ok pf" and "sys_ok s"
  shows "\<exists>s' w'. core_steps (hfi_hw (Suc (Suc n)) pf) es w s = Some (s', w') \<and> \<not> core_lock_held (sys_core s')
    \<and> (\<forall>i. align_virtual_addr (q_arr (iface_queues (sys_core s') i)) \<noteq> None \<longrightarrow> queue_view (sys_core s') i \<noteq> None)
    \<and> (\<forall>buf. core_packet (sys_core s') = Some buf \<longrightarrow>
        core_packet_size (sys_core s') = 4096 \<and> length buf = 4096 \<and> holds_pkt buf)"
proof -
  obtain s' w' where "core_steps (hfi_hw (Suc (Suc n)) pf) es w s = Some (s', w')" and "sys_ok s'"
    using core_steps_ok [OF hfi_hw_ok [OF assms(1)] assms(2)] by metis
  then show ?thesis
    by (intro exI [of _ s'] exI [of _ w']) (simp add: sys_ok_def sys_inv_def core_ok_def hfi_ok_def buffer_ok_def)
qed

theorem driver_with_queues_witness:
  "\<exists>s' w'. core_steps (hfi_hw 2 demo_platform)
      [Core_Init, Pm_Work, System_Init 1 0xFFFFFFFE, Add_Session 3, Pm_Work, Inst_Timeout 3, Core_Init]
      (demo_world False) (demo_sys MSM_VIDC_CORE_DEINIT []) = Some (s', w') \<and> \<not> core_lock_held (sys_core s')"
  using driver_with_queues [OF demo_platform_ok(1) demo_sys_ok(2), of 0
      "[Core_Init, Pm_Work, System_Init 1 0xFFFFFFFE, Add_Session 3, Pm_Work, Inst_Timeout 3, Core_Init]" "demo_world False"]
  by (auto simp: numeral_2_eq_2 simp del: hfi_hw.simps core_steps.simps)

text \<open>C33: A fatal error makes the driver forget to tell the firmware about the subcaches.  Once the firmware knows
  them, a fatal error leaves the flag \<open>set_to_fw\<close> set, since the command that releases them is refused on a
  failed core; the next start then sends no command about the subcaches to the freshly loaded firmware, and
  the driver still takes it to know them.
\<close>

theorem subcaches_forgotten:
  assumes "platform_ok pf" and "boots pf" and "length (active_subcaches pf) \<le> 42"
    and "sys_ok s" and "core_packet (sys_core s) \<noteq> None" and "cmdq_sized (sys_core s)" and "set_to_fw w"
  shows "\<exists>s1 w1 s2 w2 hid pid cmds. handle_system_error (hfi_hw (Suc (Suc n)) pf) w s = Some (0, s1, w1)
    \<and> msm_vidc_core_init (hfi_hw (Suc (Suc n)) pf) w1 s1 = Some (0, s2, w2) \<and> set_to_fw w2
    \<and> queue_view (sys_core s2) CMDQ = Some (numbered_commands hid pid cmds)
    \<and> (\<forall>ps \<in> set cmds. \<forall>(ty, fl, info, vs) \<in> set ps. ty \<noteq> HFI_CMD_BUFFER)"
proof -
  obtain s1 w1 where e: "handle_system_error (hfi_hw (Suc (Suc n)) pf) w s = Some (0, s1, w1)" and ok: "sys_ok s1"
    and d: "cstate s1 = MSM_VIDC_CORE_DEINIT" and k: "core_packet (sys_core s1) = None \<longleftrightarrow> core_packet (sys_core s) = None"
      "cmdq_sized (sys_core s1) = cmdq_sized (sys_core s)" "set_to_fw w1 = set_to_fw w"
    by (rule error_keeps [OF assms(1,4), of n w])
  let ?ids = "core_ids (sys_core s1)"
  have p: "core_packet (sys_core s1) \<noteq> None" "cmdq_sized (sys_core s1)" using k assms(5,6) by simp_all
  obtain core s2 w2 where i: "msm_vidc_core_init (hfi_hw (Suc (Suc n)) pf) w1 s1 = Some (0, unlock_core s2, w2)"
    and c: "sys_core s2 = core" and sent: "sent ?ids (start_commands pf (set_to_fw w1)
      (is_core_sub_state core CORE_SUBSTATE_GDSC_HANDOFF) ?ids) core"
    and told: "set_to_fw w2 = (set_to_fw w1 \<or> syscache_used pf)"
    by (rule driver_starts [OF assms(1-3) ok d p, of "Suc n" w1])
  have "\<forall>ps \<in> set (start_commands pf True h ids). \<forall>(ty, fl, info, vs) \<in> set ps. ty \<noteq> HFI_CMD_BUFFER" for h ids
    by (auto simp: start_commands_def sys_init_packets_def Let_def HFI_CMD_BUFFER_def HFI_CMD_INIT_def
        HFI_PROP_IMAGE_VERSION_def HFI_PROP_DEBUG_CONFIG_def HFI_PROP_DEBUG_LOG_LEVEL_def
        HFI_PROP_INTRA_FRAME_POWER_COLLAPSE_def HFI_PROP_UBWC_MAX_CHANNELS_def HFI_PROP_UBWC_MAL_LENGTH_def
        HFI_PROP_UBWC_HBB_def HFI_PROP_UBWC_BANK_SWZL_LEVEL1_def HFI_PROP_UBWC_BANK_SWZL_LEVEL2_def
        HFI_PROP_UBWC_BANK_SWZL_LEVEL3_def HFI_PROP_UBWC_BANK_SPREADING_def HFI_PROP_FENCE_CLIENT_DATA_def)
  moreover have "queue_view (sys_core (unlock_core s2)) CMDQ = Some (numbered_commands (core_header_id ?ids)
      (core_packet_id ?ids) (start_commands pf True (is_core_sub_state core CORE_SUBSTATE_GDSC_HANDOFF) ?ids))"
    using sent c k(3) assms(7) by (simp add: sent_def)
  ultimately show ?thesis using e i told k(3) assms(7) by blast
qed

theorem subcaches_forgotten_witness:
  "\<exists>s1 w1 s2 w2. handle_system_error (hfi_hw 2 demo_platform) (demo_world True) (demo_sys MSM_VIDC_CORE_INIT [1, 2])
      = Some (0, s1, w1)
    \<and> msm_vidc_core_init (hfi_hw 2 demo_platform) w1 s1 = Some (0, s2, w2) \<and> set_to_fw w2"
  using subcaches_forgotten [OF demo_platform_ok demo_sys_ok(1) demo_start(2,3), of "demo_world True" 0]
  by (force simp: demo_world_def numeral_2_eq_2 simp del: hfi_hw.simps)

text \<open>C37: Powering up nests only once.  \<open>__resume\<close> sends commands and sending a command calls \<open>__resume\<close>, but the
  inner call finds the power on and returns: on every well-formed core it returns, with the same result for
  every bound on the nesting that allows the commands to be sent at all.
\<close>

theorem resume_depth:
  assumes "platform_ok pf" and "core_ok core"
  shows "venus_resume (hfi_hw (Suc n) pf) w core = venus_resume (hfi_hw 1 pf) w core
    \<and> venus_resume (hfi_hw 1 pf) w core \<noteq> None"
  using resume_alike [OF assms(1), of n 0] resume_alike [OF assms(1), of 0 0] assms(2)
  unfolding alike_def runs_def One_nat_def by (metis option.distinct(1))

theorem resume_depth_witness:
  "venus_resume (hfi_hw 1 demo_platform) (demo_world False) (sys_core (lock_core (demo_sys MSM_VIDC_CORE_INIT [1, 2]))) \<noteq> None"
proof -
  have "core_ok (sys_core (lock_core (demo_sys MSM_VIDC_CORE_INIT [1, 2])))"
    using demo_sys_ok(1) by (simp add: sys_ok_def sys_inv_def)
  from resume_depth [OF demo_platform_ok(1) this] show ?thesis by blast
qed

text \<open>C34: The flush of the debug queue ends on a queue in order: \<open>__flush_debug_queue\<close> takes message after message
  off, leaves the other queues and the rest of the core as they are, and stops with the debug queue empty,
  unless the firmware has asked to be told of room, which stops it after the first message.
\<close>

theorem debug_queue_flushed:
  assumes "queue_view core DBGQ = Some ps" and "length buf = 4096" and "holds_pkt buf"
  shows "\<exists>core' buf'. flush_loop 4096 buf core = Some (core', buf') \<and> length buf' = 4096
    \<and> queue_view core' DBGQ \<noteq> None \<and> core_status core' = core_status core
    \<and> (\<forall>i. i \<noteq> DBGQ \<longrightarrow> iface_queues core' i = iface_queues core i)
    \<and> (map_option qhdr_tx_req (q_hdr (iface_queues core DBGQ)) \<noteq> Some 1 \<longrightarrow> queue_view core' DBGQ = Some [])"
  using flush_ends [OF assms] by blast

theorem debug_queue_flushed_witness:
  "\<exists>core core' buf'. queue_view core DBGQ = Some [demo_pkt 5] \<and> flush_loop 4096 (replicate 4096 0) core = Some (core', buf')
    \<and> queue_view core' DBGQ \<noteq> None"
proof -
  obtain q where q: "q_view q = Some [demo_pkt 5]"
    by (rule write_refines [OF demo_hfi_q_view, of "demo_pkt 5" 0 "[demo_pkt 5]" False])
      (simp_all add: demo_pkt_len demo_hfi_q_cap fifo_put_def)
  have v: "queue_view (demo_vidc_core q) DBGQ = Some [demo_pkt 5]" by (simp add: queue_view_def demo_core_ok q)
  have "holds_pkt (replicate 4096 0)" by (simp add: holds_pkt_def pkt_len_def u32_of_bytes_def)
  from debug_queue_flushed [OF v _ this] v show ?thesis by auto
qed

text \<open>C35: The flush of the debug queue can run for ever.  \<open>__read_queue\<close> never compares the size of a packet with
  the bytes the firmware has written: if every block of 4096 bytes of the debug queue begins with the size
  4096 and the write index is not at the beginning of a block, every read returns 0, with a packet too large to
  be printed, and steps over the write index: the loop, which runs with the lock of the core held in power
  collapse, makes a read for every number and has no result.
\<close>

theorem debug_queue_hangs:
  assumes "q_hdr (iface_queues core DBGQ) = Some h" and "align_virtual_addr (q_arr (iface_queues core DBGQ)) = Some m"
    and "q_mem_size (q_arr (iface_queues core DBGQ)) = VIDC_IFACEQ_QUEUE_SIZE" and "length m = 819200"
    and "\<forall>j < 200. get_u32 m (4096 * j) = Some 4096" and "qhdr_read_idx h = 0"
    and "\<not> 1024 dvd unat (qhdr_write_idx h)" and "qhdr_tx_req h \<noteq> 1" and "length buf = 4096"
  shows "flush_loop 4096 buf core = None \<and> (\<exists>cs bs. cs 0 = core \<and> bs 0 = buf
    \<and> (\<forall>n. venus_hfi_queue_dbg_read (cs n) (Some (bs n)) = Some (0, cs (Suc n), Some (bs (Suc n)))
        \<and> get_u32 (bs (Suc n)) 0 = Some 4096))"
proof -
  have "stuffed 0 (iface_queues core DBGQ)" using assms by (simp add: stuffed_def)
  with stuffed_hangs stuffed_reads assms(9) show ?thesis by blast
qed

text \<open>Such a queue, with the indices 0 and 7.\<close>

definition demo_stuffed_mem :: "uint8 list" where
  "demo_stuffed_mem = concat (replicate 200 (u32_bytes 4096 @ replicate 4092 0))"

definition demo_stuffed :: msm_vidc_iface_q_info where
  "demo_stuffed = \<lparr>q_hdr = Some (demo_hfi_hdr\<lparr>qhdr_read_idx := 0, qhdr_write_idx := 7, qhdr_tx_req := 0\<rparr>),
    q_arr = \<lparr>align_device_addr = 0, align_virtual_addr = Some demo_stuffed_mem, q_mem_size = VIDC_IFACEQ_QUEUE_SIZE\<rparr>\<rparr>"

lemma drop_blocks: "j \<le> n \<Longrightarrow> length b = k \<Longrightarrow> drop (k * j) (concat (replicate n b)) = concat (replicate (n - j) b)"
proof (induction j arbitrary: n)
  case (Suc j)
  then obtain m where "n = Suc m" by (cases n) auto
  with Suc show ?case by simp
qed simp

lemma demo_stuffed_word: "j < 200 \<Longrightarrow> get_u32 demo_stuffed_mem (4096 * j) = Some 4096"
proof -
  assume j: "j < 200"
  let ?b = "u32_bytes 4096 @ replicate 4092 0"
  obtain i where i: "200 - j = Suc i" using j by (cases "200 - j") auto
  have "drop (4096 * j) demo_stuffed_mem = ?b @ concat (replicate i ?b)"
    using j drop_blocks [of j 200 ?b 4096] by (simp add: demo_stuffed_mem_def i)
  then have "slice demo_stuffed_mem (4096 * j) 4 = u32_bytes 4096" by (simp add: slice_def)
  moreover have "length demo_stuffed_mem = 819200"
    by (simp add: demo_stuffed_mem_def length_concat sum_list_replicate)
  ultimately show ?thesis using j by (simp add: get_u32_def)
qed

theorem debug_queue_hangs_witness:
  "flush_loop 4096 (replicate 4096 0) (demo_vidc_core demo_stuffed) = None
    \<and> (\<exists>cs bs. cs 0 = demo_vidc_core demo_stuffed \<and> bs 0 = replicate 4096 0
      \<and> (\<forall>n. venus_hfi_queue_dbg_read (cs n) (Some (bs n)) = Some (0, cs (Suc n), Some (bs (Suc n)))
          \<and> get_u32 (bs (Suc n)) 0 = Some 4096))"
proof (rule debug_queue_hangs)
  show "q_hdr (iface_queues (demo_vidc_core demo_stuffed) DBGQ) =
      Some (demo_hfi_hdr\<lparr>qhdr_read_idx := 0, qhdr_write_idx := 7, qhdr_tx_req := 0\<rparr>)"
    "align_virtual_addr (q_arr (iface_queues (demo_vidc_core demo_stuffed) DBGQ)) = Some demo_stuffed_mem"
    "q_mem_size (q_arr (iface_queues (demo_vidc_core demo_stuffed) DBGQ)) = VIDC_IFACEQ_QUEUE_SIZE"
    by (simp_all add: demo_core_ok demo_stuffed_def)
  show "length demo_stuffed_mem = 819200"
    by (simp add: demo_stuffed_mem_def length_concat sum_list_replicate)
  show "\<forall>j < 200. get_u32 demo_stuffed_mem (4096 * j) = Some 4096" using demo_stuffed_word by blast
qed simp_all

end
