(* ===== verification/Spec2Isabelle.thy ===== *)
theory Spec2Isabelle
  imports Ipa_Table_Props Ipa_Ipv6ct_Props Ipa_Nat_Rule_Props Ipa_Nat_Props Ipa_Nat_Pdn_Props
    Ipa_Nat_Hybrid_Props Ipa_Nat_Machine_Props Vidc_Hfi_Packet_Props Vidc_Inst_Props Vidc_Core_Boot_Props
begin

text \<open>
  A verification development for two programs of the repository: \<open>libipanat\<close>, the library under
  \<open>src/qcom/opensource/dataipa/ipanat\<close> through which user-space programs manage the network address
  translation (NAT) and IPv6 connection tracking (IPv6CT) tables of the IPA packet accelerator, and the
  video driver under \<open>src/qcom/opensource/video-driver/driver/vidc\<close>.  The first are the theories whose names
  begin with \<open>Ipa\<close>, the second those whose names begin with \<open>Vidc\<close>; they share \<open>Ipa_Prelude\<close>.
\<close>

section \<open>The NAT library\<close>

text \<open>
  The program.  The tables are arrays of records in memory shared with the hardware: a base part that is
  indexed by a hash, and an expansion part for collisions, which are chained by index.  The library
  prepares an entry in memory, and posts the writes that make it visible as one command of DMA writes, which
  the hardware performs.  NAT has two linked tables, one found by the hash of what comes from outside
  (rules) and one by the hash of what comes from inside (index entries).  A NAT table can be in SRAM, in
  DDR, or, in hybrid mode, in one of the two at a time: when SRAM is full all rules move to DDR, when few
  are left they move back, and the handles a client holds are translated by maps.

  What models what (all files are under \<open>ipanat/src\<close> and \<open>ipanat/inc\<close>):

  \<^item> \<open>Ipa_Prelude\<close>: collections of facts, arrays with C's bounds, words.
  \<^item> \<open>Ipa_Uapi\<close>: the structures of \<open>linux/msm_ipa.h\<close>, the DMA command, and the record \<open>ipa_os\<close> of the
    calls into the operating system: locks, memory, device files and the ioctls of the IPA driver.  They
    are code outside the library, so each is a parameter, and what a property needs of them is a
    hypothesis (\<open>alloc_spec\<close>, \<open>nat_dma_spec\<close>, \<open>nat_reliable\<close>, \<open>nat_os_ok\<close>).
  \<^item> \<open>Ipa_Table\<close>: \<open>ipa_table.c\<close> and \<open>ipa_table.h\<close>.  A pointer to a record is the index of its slot, a
    pointer outside the table is \<open>None\<close>; the entry interface of a table (function pointers) is a record of
    functions.  \<open>Ipa_Table_Sizing\<close> proves the computation of sizes, in floating point, equal to an integer
    formula, and the search for the size that fits into SRAM maximal.
  \<^item> \<open>Ipa_Links\<close>, \<open>Ipa_Table_Chains\<close>, \<open>Ipa_Table_Dma\<close>, \<open>Ipa_Table_Insert\<close>, \<open>Ipa_Table_Remove\<close>,
    \<open>Ipa_Table_Marked\<close>: the theory of chained tables.  The locale \<open>table_iface\<close> states the laws of an entry
    interface, \<open>marked_table\<close> those of a table whose entries can be marked as deleted; insertion, deletion,
    the iterator and the effect of DMA commands are proved once, in the locales.
  \<^item> \<open>Ipa_Mem_Descriptor\<close>: \<open>ipa_mem_descriptor.c\<close>, with a log of system calls for its balance properties.
  \<^item> \<open>Ipa_Ipv6ct\<close>: \<open>ipa_ipv6ct.c\<close>.  \<open>Ipa_Ipv6ct_Tables\<close> interprets the locales on its entry interface,
    \<open>Ipa_Ipv6ct_Api\<close> lifts the results to the API, \<open>Ipa_Ipv6ct_Run\<close> to histories of calls.
  \<^item> \<open>Ipa_Nat_Rule\<close>, \<open>Ipa_Nat_Drvi\<close>, \<open>Ipa_Nat_Ops\<close>: \<open>ipa_nat_drvi.c\<close>.  \<open>Ipa_Nat_Tables\<close> interprets the
    locales on both entry interfaces, \<open>Ipa_Nat_Add\<close>, \<open>Ipa_Nat_Del\<close> follow the two operations through both
    tables, \<open>Ipa_Nat_Api\<close> and \<open>Ipa_Nat_Run\<close> lift them to the calls and to histories of calls.
  \<^item> \<open>Ipa_Nat_Map\<close>, \<open>Ipa_Nat_Statemach\<close>, \<open>Ipa_Nat_Drv\<close>: \<open>ipa_nat_map.cpp\<close>, \<open>ipa_nat_statemach.c\<close> and
    \<open>ipa_nat_drv.c\<close>.  \<open>Ipa_Nat_Machine\<close> is about the machine as such, \<open>Ipa_Nat_Hybrid\<close> about the client's
    handles and the migration of tables, \<open>Ipa_Nat_Switch\<close> about the switches the machine makes.
  \<^item> The theories whose names end in \<open>_Props\<close> hold the properties, each with a witness: a concrete input
    at which its hypotheses hold, on the simulated system of \<open>Ipa_Sim_Os\<close>.

  State and results.  The static variables of a file are one record (\<open>ipa_ipv6ct\<close>, \<open>nat_state\<close>,
  \<open>nat_sys\<close>), which a call takes and returns together with the state \<open>'w\<close> of the outside world.  \<open>None\<close> as a
  result stands for behaviour that C leaves undefined (an access out of bounds, a null pointer); that an
  operation is defined is part of what is proved.  Return codes are integers, with the values of errno.
  Machine integers are words of their width.

  What the lemmas show.  The abstract view of a table is a map from slots to rules.  Adding puts the
  client's rule at a slot that was free, deleting empties the slot behind a handle, and every operation keeps
  the invariant of chained tables: each chain starts at its hash slot, ends, shares no slot with another,
  and the links back agree with the links forth.  For NAT the invariant also says that the two tables
  refer to each other.  A history of calls keeps all this also when DMA requests fail, but for one kind of
  failed deletion, which the model shows to break the link between the tables (\<open>nat_torn\<close>).  In hybrid
  mode the view is a map from the client's handles to rules, on which adding and deleting are updates, and a
  switch keeps the map when the destination has expansion slots enough (\<open>dest_fits\<close>).  What happens otherwise is
  stated as exactly: at which rule a copy stops and what it has copied then (\<open>copy_stopped\<close>), which handle a
  client is given twice (\<open>hybrid_added\<close>), when the rules move back to SRAM (\<open>hybrid_deleted\<close>).

  Bounds.  \<open>ipa_nati_statemach\<close> takes the depth to which triggers nest; 3 is enough for every call
  (\<open>statemach_depth_bound\<close>).  Loops that end for a structural reason are recursive functions with
  measures; the walk along a chain for statistics, which the code does not bound, is a partial function.

  Not modelled.  Names and log output; printing of tables; the two ioctls of the uC activation table and the
  time stamps of log lines (they only call the kernel); the performance counters of the state machine.  Calls
  of several threads are serialised by the mutex the code takes, so that a history is a sequence
  of calls; a thread that reads tables without the lock is not modelled.  \<close>

section \<open>The video driver\<close>

text \<open>
  The program.  The driver and the firmware of the video hardware talk through three queues in shared
  memory, rings of words with an index for the reader and one for the writer: commands to the firmware,
  messages from it, and debug output.  A command and a message are a header and a list of packets.  The
  driver knows one core, which is down, waits for its firmware, runs, or has failed, and on it sessions,
  each a decoder or an encoder with an input and an output port, whose state says which ports stream, and
  whose sub-states say which sequence is under way: a drain, or a change of the resolution, both of which
  end with a last buffer and a resume.

  What models what (all files are under \<open>vidc/src\<close> and \<open>vidc/inc\<close>):

  \<^item> \<open>Vidc_Mem\<close>: bytes, little-endian words and the copies to and from a ring.
  \<^item> \<open>Vidc_Hfi_Queue\<close>, \<open>Vidc_Hfi_Core\<close>: \<open>venus_hfi_queue.c\<close>.  \<open>Vidc_Hfi_Ring\<close> relates a queue to a list of
    packets, \<open>Vidc_Hfi_Fifo\<close> states what a queue promises, \<open>Vidc_Hfi_Safety\<close> is about a firmware that does
    not keep to the protocol, \<open>Vidc_Hfi_Run\<close> about histories of calls, \<open>Vidc_Hfi_Setup\<close> about initialisation,
    \<open>Vidc_Hfi_Ready\<close> about what the rest of the driver relies on: every call returns and keeps the queues.
  \<^item> \<open>Vidc_Hfi_Types\<close>, \<open>Vidc_Hfi_Packet\<close>, \<open>Vidc_Hfi_Dispatch\<close>: \<open>hfi_packet.c\<close> and the checks and loops of
    \<open>venus_hfi_response.c\<close>.  \<open>Vidc_Hfi_Encode\<close> has the bytes of a command and the walk over a response,
    \<open>Vidc_Hfi_Response\<close> the order in which the packets of a response are handled.
  \<^item> \<open>Vidc_Core_State\<close>: the core's states and sub-states in \<open>msm_vidc_state.c\<close>.  \<open>Vidc_Core_Power\<close>: the
    functions of \<open>venus_hfi.c\<close> for power, firmware, suspend and resume.  \<open>Vidc_Core_Life\<close>: \<open>msm_vidc_core_init\<close>,
    the wait for the firmware, \<open>msm_vidc_core_deinit\<close>, the lists of sessions, timeouts (\<open>msm_vidc_driver.c\<close>),
    power collapse and watchdog (\<open>venus_hfi.c\<close>) and the answers of the firmware about the system
    (\<open>venus_hfi_response.c\<close>).  \<open>Vidc_Core_Steps\<close> has one lemma for every step of the core.
  \<^item> \<open>Vidc_Core_Hfi\<close> composes the core with its queues: the commands it sends itself, the preparation of power
    collapse (\<open>variant/iris33\<close>), the subcaches and the flush of the debug queue (\<open>venus_hfi.c\<close>) are calls of
    \<open>Vidc_Core_Power\<close> there.  \<open>Vidc_Core_Depth\<close> shows that these calls return and how deep they nest,
    \<open>Vidc_Core_Flush\<close> is about a debug queue that is not in order, \<open>Vidc_Core_Boot\<close> about the commands of a
    start, \<open>Vidc_Core_Restart\<close> about the start of the driver and its reaction to a fatal error.
  \<^item> \<open>Vidc_Inst_State\<close>, \<open>Vidc_Inst_Events\<close>: the sessions' states, sub-states and six event handlers in
    \<open>msm_vidc_state.c\<close>.  \<open>Vidc_Inst_Flow\<close>: streaming on and off, drain, resume, resolution change and close
    (\<open>msm_vidc_driver.c\<close>, \<open>msm_vidc_vb2.c\<close>, \<open>msm_vdec.c\<close>, \<open>msm_venc.c\<close>, \<open>msm_vidc.c\<close>) and the packets that drive
    them (\<open>venus_hfi_response.c\<close>).  \<open>Vidc_Inst_Run\<close> has the invariant of histories.
  \<^item> \<open>Vidc_Hfi_Props\<close>, \<open>Vidc_Hfi_Packet_Props\<close>, \<open>Vidc_Core_Props\<close>, \<open>Vidc_Core_Boot_Props\<close>,
    \<open>Vidc_Inst_Props\<close> hold the properties.

  State and results.  The core is the record \<open>msm_vidc_core\<close> with its queues as arrays of bytes, a session the
  record \<open>msm_vidc_inst\<close>, and the driver the record \<open>vidc_sys\<close>: the core, a store of sessions by address and
  the lists of sessions that are open or left over.  A lock is a boolean field, as the code tests only
  whether it is held.  A state handler is the state it belongs to.  Indices and sizes are words of 32 bits,
  with the wrap-around of C; \<open>None\<close> is an access outside an array.

  What the lemmas show.  A queue implements a first-in first-out list of packets whatever the positions of
  the indices, and stays inside its memory whatever the firmware writes into its header.  What is put
  into a message by the calls that build it is what the handling of a response acts on.  The tables of state changes are relations one can read:
  the core's, and for sessions two bits, one for each port.  Every history of steps of the core, and every
  history of requests and packets of a session, returns and keeps an invariant (\<open>sys_ok\<close>, \<open>inst_ok\<close>); in
  such histories the core comes to run only in the order of the protocol, a fatal error stops everything,
  failed sessions stay failed, and drains and resolution changes complete.  With its queues, a start of the core
  leaves exactly the commands of the protocol in the command queue, byte for byte.  The exceptions are findings.

  Hypotheses and bounds.  \<open>hw_ok\<close>: the calls into the platform return, and keep the state and the lock of the
  core and its invariant.  \<open>hfi_hw_ok\<close> proves this of the calls of \<open>Vidc_Core_Hfi\<close> from \<open>platform_ok\<close>: memory
  has the size asked for, and only the two power calls touch the sub-state that says whether the core is powered;
  \<open>boots\<close>: the platform's calls that can end a start succeed.  \<open>hfi_hw n\<close> allows for \<open>n\<close> nested calls of
  \<open>__resume\<close>; \<open>resume_depth\<close> shows that one level gives the same result as any more, so that two are enough
  for every call.  \<open>resume_succeeds\<close>, \<open>restart_succeeds\<close>: the calls that two of the properties need to
  succeed do.
  The loop in which \<open>msm_vidc_core_init_wait\<close> sleeps takes a list, for every round what the other threads
  do in it, and every list is allowed; the code's bound on the time is the length of the list.  An operation
  that takes a lock and gives it back is one step.  Where a session's lock is released in between, the
  packets that arrive meanwhile are a parameter.

  The steps of the composed driver (\<open>core_step\<close>) are ten operations of the core and its queues; what the
  firmware writes to the queues between calls is a step of the histories of \<open>Vidc_Hfi_Run\<close>, and packets of
  sessions are steps of those of \<open>Vidc_Inst_Run\<close>.

  Not modelled.  Log output and packet dumps; memory barriers, since a call sees the memory in one piece;
  the device addresses in the table of queues; the preparation of power collapse on other hardware than iris33,
  which differs in the names of registers.  The platform's power, clock, cache and firmware-loading code, the
  packets sessions send while they change their state, and the work on buffers, formats, controls and V4L2 structures, are parameters: they leave the modelled state
  alone and fill many files of their own.  The work queues are an arbitrary order of steps.  A deliberate
  crash for debugging is left out.

  The other parts of the repository are listed in the manifest with the reason why they are left out.
\<close>

end
